(* ===== verification/Prelude.thy ===== *)
theory Prelude
  imports Main "HOL-Library.Sublist" "HOL-Library.Product_Lexorder"
begin

text \<open>
  Shared vocabulary of the development: the action type in which every service method is
  written (a state passing function that returns or throws), Prisma style tables as lists of
  rows, PATCH fields, the JavaScript string helpers the source uses, and the contracts that
  several components rely on, stated as locales: a table with a key, an append-only log and a
  transition system with an invariant.
\<close>

named_theorems action_simps \<open>evaluation of actions on their constructors\<close>
named_theorems table_simps \<open>lookups after writes\<close>
named_theorems appends_intros \<open>closure of append-only actions\<close>
named_theorems keeps_intros \<open>closure of actions that leave a part of the state alone\<close>

section \<open>Actions: state passing with exceptions\<close>

text \<open>
  A method of a service reads and writes the world and either returns or throws. Nothing is
  rolled back by a throw: a write made before it stays, as in the source, unless the write is
  inside a \<open>$transaction\<close>.
\<close>

type_synonym ('s, 'e, 'a) act = "'s \<Rightarrow> ('e + 'a) \<times> 's"

definition ret :: "'a \<Rightarrow> ('s, 'e, 'a) act" where
  "ret a = (\<lambda>s. (Inr a, s))"

definition throw :: "'e \<Rightarrow> ('s, 'e, 'a) act" where
  "throw e = (\<lambda>s. (Inl e, s))"

definition bindM :: "('s, 'e, 'a) act \<Rightarrow> ('a \<Rightarrow> ('s, 'e, 'b) act) \<Rightarrow> ('s, 'e, 'b) act" where
  "bindM m f = (\<lambda>s. case m s of (r, s') \<Rightarrow> (case r of Inl e \<Rightarrow> (Inl e, s') | Inr a \<Rightarrow> f a s'))"

text \<open>A read of the world that may throw, a write that cannot fail, and a guard.\<close>

definition readM :: "('s \<Rightarrow> 'e + 'a) \<Rightarrow> ('s, 'e, 'a) act" where
  "readM f = (\<lambda>s. (f s, s))"

definition getM :: "('s \<Rightarrow> 'a) \<Rightarrow> ('s, 'e, 'a) act" where
  "getM f = (\<lambda>s. (Inr (f s), s))"

definition modifyM :: "('s \<Rightarrow> 's) \<Rightarrow> ('s, 'e, unit) act" where
  "modifyM f = (\<lambda>s. (Inr (), f s))"

definition guardM :: "bool \<Rightarrow> 'e \<Rightarrow> ('s, 'e, unit) act" where
  "guardM ok e = (if ok then ret () else throw e)"

text \<open>
  A transaction: when its body throws, the world is what \<open>rollback\<close> leaves of the world
  before and the world at the throw (PostgreSQL sequences are not rolled back).
\<close>

definition transactionM :: "('s \<Rightarrow> 's \<Rightarrow> 's) \<Rightarrow> ('s, 'e, 'a) act \<Rightarrow> ('s, 'e, 'a) act" where
  "transactionM rollback m = (\<lambda>s. case m s of (r, s') \<Rightarrow>
     (case r of Inl e \<Rightarrow> (Inl e, rollback s s') | Inr a \<Rightarrow> (Inr a, s')))"

text \<open>\<open>try { m } catch { log }\<close>: the exception is dropped, the writes before it stay.\<close>

definition swallowM :: "('s, 'e, unit) act \<Rightarrow> ('s, 'e, unit) act" where
  "swallowM m = (\<lambda>s. (Inr (), snd (m s)))"

definition catchM :: "('s, 'e, 'a) act \<Rightarrow> ('e \<Rightarrow> ('s, 'e, 'a) act) \<Rightarrow> ('s, 'e, 'a) act" where
  "catchM m h = (\<lambda>s. case m s of (r, s') \<Rightarrow> (case r of Inl e \<Rightarrow> h e s' | Inr a \<Rightarrow> (Inr a, s')))"

fun forM :: "'b list \<Rightarrow> ('b \<Rightarrow> ('s, 'e, unit) act) \<Rightarrow> ('s, 'e, unit) act" where
  "forM [] f = ret ()"
| "forM (x # xs) f = bindM (f x) (\<lambda>_. forM xs f)"

lemma act_eval [action_simps, simp]:
  "ret a s = (Inr a, s)"
  "throw e s = (Inl e, s)"
  "readM g s = (g s, s)"
  "getM h s = (Inr (h s), s)"
  "modifyM k s = (Inr (), k s)"
  "guardM ok e s = (if ok then (Inr (), s) else (Inl e, s))"
  by (simp_all add: ret_def throw_def readM_def getM_def modifyM_def guardM_def)

lemma bindM_eval [action_simps]:
  "bindM m f s = (case m s of (r, s') \<Rightarrow> (case r of Inl e \<Rightarrow> (Inl e, s') | Inr a \<Rightarrow> f a s'))"
  by (simp add: bindM_def)

lemma bindM_simps [simp]:
  "bindM (ret a) f s = f a s"
  "bindM (throw e) f s = (Inl e, s)"
  "bindM (getM h) f s = f (h s) s"
  "bindM (modifyM k) g s = g () (k s)"
  "bindM (guardM ok e) g s = (if ok then g () s else (Inl e, s))"
  by (simp_all add: bindM_def)

lemma bindM_readM:
  "bindM (readM r) f s = (case r s of Inl e \<Rightarrow> (Inl e, s) | Inr a \<Rightarrow> f a s)"
  by (simp add: bindM_def)

lemma bindM_readM_Inl [simp]: "r s = Inl e \<Longrightarrow> bindM (readM r) f s = (Inl e, s)"
  by (simp add: bindM_readM)

lemma bindM_readM_Inr [simp]: "r s = Inr a \<Longrightarrow> bindM (readM r) f s = f a s"
  by (simp add: bindM_readM)

text \<open>Inversion of a composition: the way every "if it returns" fact is proved.\<close>

lemma bindM_InrE:
  assumes "bindM m f s = (Inr b, s')"
  obtains a s1 where "m s = (Inr a, s1)" "f a s1 = (Inr b, s')"
  using assms by (auto simp: bindM_def split: prod.splits sum.splits)

lemma bindM_returns: "fst (m w) = Inr a \<Longrightarrow> bindM m f w = f a (snd (m w))"
  by (cases "m w") (simp add: bindM_def)

lemma bindM_value: "m w = (Inr a, w1) \<Longrightarrow> bindM m f w = f a w1"
  by (simp add: bindM_def)

lemma bindM_Inr_iff:
  "bindM m f s = (Inr b, s') \<longleftrightarrow> (\<exists>a s1. m s = (Inr a, s1) \<and> f a s1 = (Inr b, s'))"
  by (auto simp: bindM_def split: prod.splits sum.splits)

lemma bindM_Inl_iff:
  "bindM m f s = (Inl e, s') \<longleftrightarrow>
     m s = (Inl e, s') \<or> (\<exists>a s1. m s = (Inr a, s1) \<and> f a s1 = (Inl e, s'))"
  by (auto simp: bindM_def split: prod.splits sum.splits)

lemma transactionM_Inr_iff:
  "transactionM rb m s = (Inr a, s') \<longleftrightarrow> m s = (Inr a, s')"
  by (auto simp: transactionM_def split: prod.splits sum.splits)

lemma transactionM_Inr [simp]: "m s = (Inr a, s') \<Longrightarrow> transactionM rb m s = (Inr a, s')"
  by (simp add: transactionM_Inr_iff)

lemma transactionM_Inl [simp]: "m s = (Inl e, s') \<Longrightarrow> transactionM rb m s = (Inl e, rb s s')"
  by (simp add: transactionM_def)

lemma swallowM_eval [simp, action_simps]: "swallowM m s = (Inr (), snd (m s))"
  by (simp add: swallowM_def)

section \<open>The append-only contract\<close>

text \<open>
  \<open>appends log m\<close>: whatever \<open>m\<close> does, returning or throwing, every entry of the log that
  was there before is still there, at the same place. It is closed under the combinators as
  soon as a rollback gives the log back.
\<close>

definition appends :: "('s \<Rightarrow> 'l list) \<Rightarrow> ('s, 'e, 'a) act \<Rightarrow> bool" where
  "appends log m \<longleftrightarrow> (\<forall>s. prefix (log s) (log (snd (m s))))"

lemma appendsD: "appends log m \<Longrightarrow> prefix (log s) (log (snd (m s)))"
  by (simp add: appends_def)

lemma appends_basic [appends_intros]:
  "appends log (ret a)" "appends log (throw e)" "appends log (readM g)"
  "appends log (getM h)" "appends log (guardM ok e)"
  by (auto simp: appends_def ret_def throw_def readM_def getM_def guardM_def)

lemma appends_modify [appends_intros]:
  "(\<And>s. prefix (log s) (log (k s))) \<Longrightarrow> appends log (modifyM k)"
  by (simp add: appends_def)

lemma appends_bind [appends_intros]:
  assumes m: "appends log m" and f: "\<And>a. appends log (f a)"
  shows "appends log (bindM m f)"
  unfolding appends_def
proof
  fix s
  obtain r s1 where ms: "m s = (r, s1)" by (cases "m s")
  have p: "prefix (log s) (log s1)" using appendsD [OF m, of s] ms by simp
  show "prefix (log s) (log (snd (bindM m f s)))"
  proof (cases r)
    case (Inl e)
    then show ?thesis using p ms by (simp add: bindM_def)
  next
    case (Inr a)
    have "prefix (log s1) (log (snd (f a s1)))" by (rule appendsD [OF f])
    with p have "prefix (log s) (log (snd (f a s1)))" by (rule prefix_order.trans)
    then show ?thesis using Inr ms by (simp add: bindM_def)
  qed
qed

lemma appends_swallow [appends_intros]: "appends log m \<Longrightarrow> appends log (swallowM m)"
  by (simp add: appends_def)

lemma appends_catch [appends_intros]:
  assumes m: "appends log m" and h: "\<And>e. appends log (h e)"
  shows "appends log (catchM m h)"
  unfolding appends_def
proof
  fix s
  obtain r s1 where ms: "m s = (r, s1)" by (cases "m s")
  have p: "prefix (log s) (log s1)" using appendsD [OF m, of s] ms by simp
  show "prefix (log s) (log (snd (catchM m h s)))"
  proof (cases r)
    case (Inl e)
    have "prefix (log s1) (log (snd (h e s1)))" by (rule appendsD [OF h])
    with p have "prefix (log s) (log (snd (h e s1)))" by (rule prefix_order.trans)
    then show ?thesis using Inl ms by (simp add: catchM_def)
  next
    case (Inr a)
    then show ?thesis using p ms by (simp add: catchM_def)
  qed
qed

lemma appends_forM [appends_intros]:
  "(\<And>x. x \<in> set xs \<Longrightarrow> appends log (f x)) \<Longrightarrow> appends log (forM xs f)"
  by (induction xs) (auto intro!: appends_intros)

lemma appends_if [appends_intros]:
  "(b \<Longrightarrow> appends log m) \<Longrightarrow> (\<not> b \<Longrightarrow> appends log n) \<Longrightarrow> appends log (if b then m else n)"
  by simp

lemma appends_option [appends_intros]:
  "appends log m \<Longrightarrow> (\<And>x. appends log (f x)) \<Longrightarrow>
   appends log (case v of None \<Rightarrow> m | Some x \<Rightarrow> f x)"
  by (simp split: option.split)

lemma appends_prod [appends_intros]:
  "(\<And>x y. appends log (f x y)) \<Longrightarrow> appends log (case p of (x, y) \<Rightarrow> f x y)"
  by (simp split: prod.split)

lemma appends_let [appends_intros]: "appends log (f v) \<Longrightarrow> appends log (Let v f)"
  by (simp add: Let_def)

text \<open>The interface a log offers to the services that write it.\<close>

locale append_log =
  fixes log :: "'s \<Rightarrow> 'l list"
    and rollback :: "'s \<Rightarrow> 's \<Rightarrow> 's"
  assumes rollback_log: "log (rollback s s') = log s"
begin

lemma appends_transaction:
  assumes m: "appends log m"
  shows "appends log (transactionM rollback m)"
  unfolding appends_def
proof
  fix s
  obtain r s1 where ms: "m s = (r, s1)" by (cases "m s")
  have "prefix (log s) (log s1)" using appendsD [OF m, of s] ms by simp
  then show "prefix (log s) (log (snd (transactionM rollback m s)))"
    using ms by (cases r) (simp_all add: transactionM_def rollback_log)
qed

text \<open>An entry once written is there after any sequence of appending actions.\<close>

lemma entry_survives:
  assumes "appends log m" "x \<in> set (log s)"
  shows "x \<in> set (log (snd (m s)))"
  using appendsD [OF assms(1), of s] assms(2) by (meson set_mono_prefix subsetD)

end

section \<open>Frames\<close>

text \<open>
  \<open>keeps f m\<close>: whatever \<open>m\<close> does, returning or throwing, the part \<open>f\<close> of the state is what it
  was. Like the append-only contract it is closed under the combinators.
\<close>

definition keeps :: "('s \<Rightarrow> 'v) \<Rightarrow> ('s, 'e, 'a) act \<Rightarrow> bool" where
  "keeps f m \<longleftrightarrow> (\<forall>s. f (snd (m s)) = f s)"

lemma keepsD: "keeps f m \<Longrightarrow> f (snd (m s)) = f s"
  by (simp add: keeps_def)

lemma keeps_result: "keeps f m \<Longrightarrow> m s = (r, s') \<Longrightarrow> f s' = f s"
  using keepsD [of f m s] by simp

lemma keeps_part: "keeps f m \<Longrightarrow> (\<And>s. g s = h (f s)) \<Longrightarrow> keeps g m"
  by (simp add: keeps_def)

lemma keeps_basic [keeps_intros]:
  "keeps f (ret a)" "keeps f (throw e)" "keeps f (readM g)" "keeps f (getM h)" "keeps f (guardM ok e)"
  by (auto simp: keeps_def)

lemma keeps_modify [keeps_intros]: "(\<And>s. f (k s) = f s) \<Longrightarrow> keeps f (modifyM k)"
  by (simp add: keeps_def)

lemma keeps_bind [keeps_intros]:
  assumes m: "keeps f m" and g: "\<And>a. keeps f (g a)"
  shows "keeps f (bindM m g)"
  unfolding keeps_def
proof
  fix s
  obtain r s1 where ms: "m s = (r, s1)" by (cases "m s")
  then show "f (snd (bindM m g s)) = f s"
    using keeps_result [OF m ms] keepsD [OF g, of _ s1] by (cases r) (simp_all add: bindM_def)
qed

lemma keeps_swallow [keeps_intros]: "keeps f m \<Longrightarrow> keeps f (swallowM m)"
  by (simp add: keeps_def)

lemma keeps_catch [keeps_intros]:
  assumes m: "keeps f m" and h: "\<And>e. keeps f (h e)"
  shows "keeps f (catchM m h)"
  unfolding keeps_def
proof
  fix s
  obtain r s1 where ms: "m s = (r, s1)" by (cases "m s")
  then show "f (snd (catchM m h s)) = f s"
    using keeps_result [OF m ms] keepsD [OF h, of _ s1] by (cases r) (simp_all add: catchM_def)
qed

lemma keeps_transaction:
  assumes m: "keeps f m" and rb: "\<And>s s'. f s' = f s \<Longrightarrow> f (rb s s') = f s"
  shows "keeps f (transactionM rb m)"
  unfolding keeps_def
proof
  fix s
  obtain r s1 where ms: "m s = (r, s1)" by (cases "m s")
  then show "f (snd (transactionM rb m s)) = f s"
    using keeps_result [OF m ms] rb [of s1 s] by (cases r) (simp_all add: transactionM_def)
qed

lemma keeps_forM [keeps_intros]:
  "(\<And>x. x \<in> set xs \<Longrightarrow> keeps f (g x)) \<Longrightarrow> keeps f (forM xs g)"
  by (induction xs) (auto intro!: keeps_intros)

lemma keeps_if [keeps_intros]:
  "(b \<Longrightarrow> keeps f m) \<Longrightarrow> (\<not> b \<Longrightarrow> keeps f n) \<Longrightarrow> keeps f (if b then m else n)"
  by simp

lemma keeps_option [keeps_intros]:
  "keeps f m \<Longrightarrow> (\<And>x. keeps f (g x)) \<Longrightarrow> keeps f (case v of None \<Rightarrow> m | Some x \<Rightarrow> g x)"
  by (simp split: option.split)

lemma keeps_prod [keeps_intros]: "(\<And>x y. keeps f (g x y)) \<Longrightarrow> keeps f (case p of (x, y) \<Rightarrow> g x y)"
  by (simp split: prod.split)

lemma keeps_let [keeps_intros]: "keeps f (g v) \<Longrightarrow> keeps f (Let v g)"
  by (simp add: Let_def)

section \<open>Relations that every action obeys\<close>

text \<open>
  \<open>obeys R m\<close>: the state before and the state after \<open>m\<close>, returning or throwing, are related.
  For a reflexive and transitive relation it is enough to look at the single writes.
\<close>

definition obeys :: "('s \<Rightarrow> 's \<Rightarrow> bool) \<Rightarrow> ('s, 'e, 'a) act \<Rightarrow> bool" where
  "obeys R m \<longleftrightarrow> (\<forall>s. R s (snd (m s)))"

lemma obeysD: "obeys R m \<Longrightarrow> R s (snd (m s))"
  by (simp add: obeys_def)

locale frame_relation =
  fixes R :: "'s \<Rightarrow> 's \<Rightarrow> bool"
  assumes R_refl: "R s s"
    and R_trans: "R s t \<Longrightarrow> R t u \<Longrightarrow> R s u"
begin

lemma obeys_basic:
  "obeys R (ret a)" "obeys R (throw e)" "obeys R (readM g)" "obeys R (getM h)"
  "obeys R (guardM ok e)"
  by (auto simp: obeys_def R_refl)

lemma obeys_modify: "(\<And>s. R s (k s)) \<Longrightarrow> obeys R (modifyM k)"
  by (simp add: obeys_def)

lemma obeys_bind:
  assumes m: "obeys R m" and f: "\<And>a. obeys R (f a)"
  shows "obeys R (bindM m f)"
  unfolding obeys_def
proof
  fix s
  obtain r s1 where ms: "m s = (r, s1)" by (cases "m s")
  have p: "R s s1" using obeysD [OF m, of s] ms by simp
  show "R s (snd (bindM m f s))"
  proof (cases r)
    case (Inl e)
    then show ?thesis using p ms by (simp add: bindM_def)
  next
    case (Inr a)
    then show ?thesis using R_trans [OF p obeysD [OF f [of a], of s1]] ms by (simp add: bindM_def)
  qed
qed

lemma obeys_swallow: "obeys R m \<Longrightarrow> obeys R (swallowM m)"
  by (simp add: obeys_def)

lemma obeys_transaction:
  assumes "obeys R m" "\<And>s s'. R s s' \<Longrightarrow> R s (rb s s')"
  shows "obeys R (transactionM rb m)"
  unfolding obeys_def
proof
  fix s
  obtain r s1 where ms: "m s = (r, s1)" by (cases "m s")
  then show "R s (snd (transactionM rb m s))"
    using obeysD [OF assms(1), of s] assms(2) by (cases r) (simp_all add: transactionM_def)
qed

lemma obeys_catch:
  assumes m: "obeys R m" and h: "\<And>e. obeys R (h e)"
  shows "obeys R (catchM m h)"
  unfolding obeys_def
proof
  fix s
  obtain r s1 where ms: "m s = (r, s1)" by (cases "m s")
  then show "R s (snd (catchM m h s))"
    using obeysD [OF m, of s] R_trans [OF _ obeysD [OF h, of s1]] by (cases r) (simp_all add: catchM_def)
qed

lemma obeys_forM: "(\<And>x. x \<in> set xs \<Longrightarrow> obeys R (f x)) \<Longrightarrow> obeys R (forM xs f)"
  by (induction xs) (auto intro!: obeys_basic obeys_bind)

lemma obeys_if: "(b \<Longrightarrow> obeys R m) \<Longrightarrow> (\<not> b \<Longrightarrow> obeys R n) \<Longrightarrow> obeys R (if b then m else n)"
  by simp

lemma obeys_option:
  "obeys R m \<Longrightarrow> (\<And>x. obeys R (f x)) \<Longrightarrow> obeys R (case v of None \<Rightarrow> m | Some x \<Rightarrow> f x)"
  by (simp split: option.split)

lemma obeys_prod: "(\<And>x y. obeys R (f x y)) \<Longrightarrow> obeys R (case p of (x, y) \<Rightarrow> f x y)"
  by (simp split: prod.split)

lemma obeys_let: "obeys R (f v) \<Longrightarrow> obeys R (Let v f)"
  by (simp add: Let_def)

lemmas obeys_rules = obeys_basic obeys_modify obeys_bind obeys_swallow obeys_forM
  obeys_if obeys_option obeys_prod obeys_let

text \<open>An action that keeps everything the relation looks at.\<close>

lemma obeys_keeps: "keeps f m \<Longrightarrow> (\<And>s t. f t = f s \<Longrightarrow> R s t) \<Longrightarrow> obeys R m"
  by (simp add: keeps_def obeys_def)

end

section \<open>Tables\<close>

text \<open>
  A Prisma table is the list of its rows in insertion order. \<open>findUnique\<close> by a key is
  \<open>find_by\<close>, \<open>update where key\<close> is \<open>update_by\<close>, \<open>delete\<close> is \<open>delete_by\<close>.
\<close>

definition find_by :: "('r \<Rightarrow> 'k) \<Rightarrow> 'k \<Rightarrow> 'r list \<Rightarrow> 'r option" where
  "find_by key k rows = List.find (\<lambda>r. key r = k) rows"

definition update_by :: "('r \<Rightarrow> 'k) \<Rightarrow> 'k \<Rightarrow> ('r \<Rightarrow> 'r) \<Rightarrow> 'r list \<Rightarrow> 'r list" where
  "update_by key k f rows = map (\<lambda>r. if key r = k then f r else r) rows"

definition delete_by :: "('r \<Rightarrow> 'k) \<Rightarrow> 'k \<Rightarrow> 'r list \<Rightarrow> 'r list" where
  "delete_by key k rows = filter (\<lambda>r. key r \<noteq> k) rows"

lemma find_by_Nil [simp]: "find_by key k [] = None"
  by (simp add: find_by_def)

lemma find_by_Cons [simp]:
  "find_by key k (r # rs) = (if key r = k then Some r else find_by key k rs)"
  by (simp add: find_by_def)

lemma update_by_Nil [simp]: "update_by key k f [] = []"
  by (simp add: update_by_def)

lemma update_by_Cons [simp]:
  "update_by key k f (r # rs) = (if key r = k then f r else r) # update_by key k f rs"
  by (simp add: update_by_def)

lemma find_by_SomeD: "find_by key k rows = Some r \<Longrightarrow> r \<in> set rows \<and> key r = k"
  by (induction rows) (auto split: if_splits)

lemma find_by_None_iff: "find_by key k rows = None \<longleftrightarrow> k \<notin> key ` set rows"
  by (induction rows) auto

lemma find_by_append:
  "find_by key k (xs @ ys) = (case find_by key k xs of None \<Rightarrow> find_by key k ys | Some r \<Rightarrow> Some r)"
  by (induction xs) auto

lemma find_by_update_by_same [table_simps]:
  "(\<And>r. key (f r) = key r) \<Longrightarrow>
   find_by key k (update_by key k f rows) = map_option f (find_by key k rows)"
  by (induction rows) auto

lemma find_by_update_by_other [table_simps]:
  "(\<And>r. key (f r) = key r) \<Longrightarrow> k \<noteq> k' \<Longrightarrow>
   find_by key k (update_by key k' f rows) = find_by key k rows"
  by (induction rows) auto

lemma find_by_replaced:
  "key r' = k \<Longrightarrow> find_by key k rows = Some r \<Longrightarrow> find_by key k (update_by key k (\<lambda>_. r') rows) = Some r'"
  by (induction rows) auto

lemma update_by_twice: "(\<And>y. key (f y) = key y) \<Longrightarrow> update_by key k g (update_by key k f xs) = update_by key k (g \<circ> f) xs"
  by (induction xs) auto

lemma update_by_absent: "k \<notin> key ` set rows \<Longrightarrow> update_by key k f rows = rows"
  by (induction rows) auto

lemma map_key_update_by [table_simps]:
  "(\<And>r. g (f r) = g r) \<Longrightarrow> map g (update_by key k f rows) = map g rows"
  by (induction rows) auto

lemma set_update_by_subset: "set (update_by key k f rows) \<subseteq> set rows \<union> f ` {r \<in> set rows. key r = k}"
  by (auto simp: update_by_def)

lemma in_set_update_by:
  "r \<in> set (update_by key k f rows) \<longleftrightarrow>
     (\<exists>r0 \<in> set rows. (key r0 = k \<and> r = f r0) \<or> (key r0 \<noteq> k \<and> r = r0))"
  by (auto simp: update_by_def image_iff)

lemma list_all_update_by:
  "list_all P rows \<Longrightarrow> (\<And>r. P r \<Longrightarrow> key r = k \<Longrightarrow> P (f r)) \<Longrightarrow> list_all P (update_by key k f rows)"
  by (induction rows) auto

text \<open>With distinct keys a row of the table is the one its key finds.\<close>

lemma find_by_distinct:
  "distinct (map key rows) \<Longrightarrow> r \<in> set rows \<Longrightarrow> find_by key (key r) rows = Some r"
  by (induction rows) auto

text \<open>
  The interface of a table inside the world: a reader and a writer that agree, and a key. The
  services use it through \<open>find_by\<close> on the reader and the writer applied to a list function.
\<close>

locale keyed_table =
  fixes rows :: "'w \<Rightarrow> 'r list"
    and upd :: "('r list \<Rightarrow> 'r list) \<Rightarrow> 'w \<Rightarrow> 'w"
    and key :: "'r \<Rightarrow> 'k"
  assumes rows_upd: "rows (upd f w) = f (rows w)"
begin

lemma find_after_insert:
  "key r \<notin> key ` set (rows w) \<Longrightarrow>
   find_by key k (rows (upd (\<lambda>t. t @ [r]) w)) = (if k = key r then Some r else find_by key k (rows w))"
  by (auto simp: rows_upd find_by_append split: option.split)
     (metis find_by_SomeD image_eqI)

lemma find_after_update:
  "(\<And>r. key (f r) = key r) \<Longrightarrow>
   find_by key k (rows (upd (update_by key k' f) w)) =
     (if k = k' then map_option f (find_by key k (rows w)) else find_by key k (rows w))"
  by (simp add: rows_upd find_by_update_by_same find_by_update_by_other)

lemma keys_after_update:
  "(\<And>r. key (f r) = key r) \<Longrightarrow>
   map key (rows (upd (update_by key k f) w)) = map key (rows w)"
  by (simp add: rows_upd map_key_update_by)

lemma distinct_after_insert:
  "distinct (map key (rows w)) \<Longrightarrow> key r \<notin> key ` set (rows w) \<Longrightarrow>
   distinct (map key (rows (upd (\<lambda>t. t @ [r]) w)))"
  by (simp add: rows_upd)

end

section \<open>Transition systems\<close>

text \<open>A component that moves from state to state and the invariant its steps keep.\<close>

locale invariant_system =
  fixes step :: "'s \<Rightarrow> 's \<Rightarrow> bool"
    and inv :: "'s \<Rightarrow> bool"
  assumes step_inv: "step s t \<Longrightarrow> inv s \<Longrightarrow> inv t"
begin

lemma run_inv: "step\<^sup>*\<^sup>* s t \<Longrightarrow> inv s \<Longrightarrow> inv t"
  by (induction rule: rtranclp_induct) (auto intro: step_inv)

end

section \<open>PATCH fields\<close>

text \<open>
  A field of a PATCH body is absent (\<open>undefined\<close>, Prisma leaves the column alone), \<open>null\<close> or a
  value. A column that cannot be null has a plain option.
\<close>

type_synonym 'a patch = "'a option option"

definition patched :: "'a option \<Rightarrow> 'a \<Rightarrow> 'a" where
  "patched p old = (case p of None \<Rightarrow> old | Some v \<Rightarrow> v)"

lemma patched_simps [simp]: "patched None old = old" "patched (Some v) old = v"
  by (simp_all add: patched_def)

text \<open>A field used only when it is truthy: absent and \<open>null\<close> count alike.\<close>

definition given :: "'a patch \<Rightarrow> 'a option" where
  "given p = (case p of Some (Some v) \<Rightarrow> Some v | _ \<Rightarrow> None)"

lemma given_simps [simp]: "given None = None" "given (Some v) = v"
  by (simp_all add: given_def split: option.split)

text \<open>\<open>new Date(v)\<close> of a date field of a body, in milliseconds: of \<open>null\<close> it is the epoch.\<close>

definition new_date :: "int option \<Rightarrow> int" where
  "new_date d = (case d of None \<Rightarrow> 0 | Some t \<Rightarrow> t)"

lemma new_date_simps [simp]: "new_date None = 0" "new_date (Some t) = t"
  by (simp_all add: new_date_def)

text \<open>\<open>a ?? b\<close> on a value that may be undefined or null.\<close>

definition coalesce :: "'a patch \<Rightarrow> 'a option \<Rightarrow> 'a option" where
  "coalesce p old = (case p of Some (Some v) \<Rightarrow> Some v | _ \<Rightarrow> old)"

definition option_or :: "'a option \<Rightarrow> 'a option \<Rightarrow> 'a option" where
  "option_or a b = (case a of None \<Rightarrow> b | Some v \<Rightarrow> Some v)"

definition option_default :: "'a \<Rightarrow> 'a option \<Rightarrow> 'a" where
  "option_default d a = (case a of None \<Rightarrow> d | Some v \<Rightarrow> v)"

lemma option_helpers [simp]:
  "option_or None b = b" "option_or (Some v) b = Some v"
  "option_default d None = d" "option_default d (Some v) = v"
  "coalesce None old = old" "coalesce (Some None) old = old" "coalesce (Some (Some v)) old = Some v"
  by (simp_all add: option_or_def option_default_def coalesce_def)

text \<open>A string is falsy when it is absent or empty.\<close>

definition truthy :: "string option \<Rightarrow> bool" where
  "truthy s = (case s of None \<Rightarrow> False | Some t \<Rightarrow> t \<noteq> [])"

lemma truthy_simps [simp]: "\<not> truthy None" "truthy (Some t) \<longleftrightarrow> t \<noteq> []"
  by (simp_all add: truthy_def)

section \<open>Strings\<close>

definition digit_char :: "nat \<Rightarrow> char" where
  "digit_char d = char_of (48 + d)"

fun nat_str :: "nat \<Rightarrow> string" where
  "nat_str n = (if n < 10 then [digit_char n] else nat_str (n div 10) @ [digit_char (n mod 10)])"

declare nat_str.simps [simp del]

definition int_str :: "int \<Rightarrow> string" where
  "int_str i = (if i < 0 then ''-'' @ nat_str (nat (- i)) else nat_str (nat i))"

definition padStart :: "nat \<Rightarrow> char \<Rightarrow> string \<Rightarrow> string" where
  "padStart n c s = replicate (n - length s) c @ s"

definition is_space :: "char \<Rightarrow> bool" where
  "is_space c \<longleftrightarrow> of_char c \<in> {9, 10, 11, 12, 13, 32 :: nat}"

definition trim :: "string \<Rightarrow> string" where
  "trim s = rev (dropWhile is_space (rev (dropWhile is_space s)))"

definition lower_char :: "char \<Rightarrow> char" where
  "lower_char c = (let n = of_char c :: nat in if 65 \<le> n \<and> n \<le> 90 then char_of (n + 32) else c)"

definition toLowerCase :: "string \<Rightarrow> string" where
  "toLowerCase s = map lower_char s"

text \<open>PostgreSQL's case-insensitive equality (\<open>mode: "insensitive"\<close>).\<close>

definition iequals :: "string \<Rightarrow> string \<Rightarrow> bool" where
  "iequals a b \<longleftrightarrow> toLowerCase a = toLowerCase b"

text \<open>PostgreSQL's case-insensitive \<open>contains\<close>: does the second string contain the first?\<close>

definition icontains :: "string \<Rightarrow> string \<Rightarrow> bool" where
  "icontains q s \<longleftrightarrow> sublist (toLowerCase q) (toLowerCase s)"

text \<open>\<open>s.split(c)\<close> for a separator of one character.\<close>

fun split_at :: "char \<Rightarrow> string \<Rightarrow> string list" where
  "split_at c [] = [[]]"
| "split_at c (x # xs) = (if x = c then [] # split_at c xs else (x # hd (split_at c xs)) # tl (split_at c xs))"

fun join :: "string \<Rightarrow> string list \<Rightarrow> string" where
  "join sep [] = []"
| "join sep [x] = x"
| "join sep (x # y # zs) = x @ sep @ join sep (y # zs)"

lemma iequals_refl [simp]: "iequals a a"
  and iequals_sym: "iequals a b \<Longrightarrow> iequals b a"
  and iequals_trans: "iequals a b \<Longrightarrow> iequals b c \<Longrightarrow> iequals a c"
  by (simp_all add: iequals_def)

text \<open>Decimal printing is injective: two numbers never share a printed form.\<close>

lemma digit_char_inj: "a < 10 \<Longrightarrow> b < 10 \<Longrightarrow> digit_char a = digit_char b \<Longrightarrow> a = b"
  by (simp add: digit_char_def)

lemma nat_str_nonempty: "nat_str n \<noteq> []"
  by (subst nat_str.simps) simp

lemma nat_str_inj: "nat_str a = nat_str b \<Longrightarrow> a = b"
proof (induction a arbitrary: b rule: nat_str.induct)
  case (1 a)
  show ?case
  proof (cases "a < 10"; cases "b < 10")
    assume "a < 10" "b < 10"
    then show ?thesis using "1.prems" by (simp add: nat_str.simps [of a] nat_str.simps [of b] digit_char_inj)
  next
    assume "a < 10" "\<not> b < 10"
    then show ?thesis
      using "1.prems" nat_str_nonempty by (simp add: nat_str.simps [of a] nat_str.simps [of b] Cons_eq_append_conv)
  next
    assume "\<not> a < 10" "b < 10"
    then show ?thesis
      using "1.prems" nat_str_nonempty by (simp add: nat_str.simps [of a] nat_str.simps [of b] append_eq_Cons_conv)
  next
    assume a: "\<not> a < 10" and b: "\<not> b < 10"
    then have "nat_str (a div 10) = nat_str (b div 10)" "digit_char (a mod 10) = digit_char (b mod 10)"
      using "1.prems" by (simp_all add: nat_str.simps [of a] nat_str.simps [of b])
    then have "a div 10 = b div 10" "a mod 10 = b mod 10"
      using "1.IH" a by (auto intro: digit_char_inj)
    then show ?thesis by (metis div_mult_mod_eq)
  qed
qed

lemma nat_str_hd: "hd (nat_str n) \<noteq> CHR ''-''"
proof (induction n rule: nat_str.induct)
  case (1 n)
  have "digit_char d \<noteq> CHR ''-''" if "d < 10" for d
  proof
    assume "digit_char d = CHR ''-''"
    then have "of_char (digit_char d) = (of_char (CHR ''-'') :: nat)" by simp
    then show False using that by (simp add: digit_char_def)
  qed
  then show ?case using 1 nat_str_nonempty by (cases "n < 10") (simp_all add: nat_str.simps [of n])
qed

lemma int_str_inj: "int_str a = int_str b \<Longrightarrow> a = b"
proof -
  have "nat_str n \<noteq> CHR ''-'' # xs" for n xs using nat_str_hd [of n] by auto
  then show "int_str a = int_str b \<Longrightarrow> a = b"
    using nat_str_inj [of "nat a" "nat b"] nat_str_inj [of "nat (- a)" "nat (- b)"]
    by (auto simp: int_str_def split: if_splits dest: sym)
qed

lemma split_at_nonempty [simp]: "split_at c s \<noteq> []"
  by (cases s) auto

lemma split_at_clean: "c \<notin> set s \<Longrightarrow> split_at c s = [s]"
  by (induction s) auto

lemma split_at_append: "c \<notin> set s \<Longrightarrow> split_at c (s @ c # t) = s # split_at c t"
  by (induction s) auto

text \<open>Splitting gives back what was joined, when no part holds the separator.\<close>

lemma split_at_join:
  "parts \<noteq> [] \<Longrightarrow> (\<And>p. p \<in> set parts \<Longrightarrow> c \<notin> set p) \<Longrightarrow> split_at c (join [c] parts) = parts"
  by (induction "[c]" parts rule: join.induct) (simp_all add: split_at_clean split_at_append)

lemma nat_str_zero: "nat_str 0 = ''0''"
  by code_simp

end
