(* ===== verification/Schema.thy ===== *)
theory Schema
  imports Prelude
begin

text \<open>
  The data model of \<^verbatim>\<open>apps/api/prisma/schema.prisma\<close> for the modelled modules: the enums as
  datatypes, each model as a record with the column names of the source behind a short prefix,
  and the world in which the services run: the tables, the audit trail, what was handed to the
  notification queues and to the event emitter, and the environment the code reads but does not
  define (the uuid generator, collation, time zones). Instants are milliseconds since the epoch.
\<close>

type_synonym instant = int
type_synonym uuid = string

section \<open>Enums\<close>

datatype user_role =
    SUPER_ADMIN | SERVICE_DESK_NOC | SITE_ENGINEER | INFRASTRUCTURE_LEAD
  | VENDOR_COORDINATOR | DELIVERY_OPS_MANAGER | CLIENT_MANAGER_VIEWER | AUDITOR_READ_ONLY

datatype lifecycle_status = PLANNED | ACTIVE | MAINTENANCE | RETIRED

datatype incident_status =
    NEW | ASSIGNED | ACKNOWLEDGED | IN_PROGRESS | PENDING_VENDOR | PENDING_CUSTOMER
  | RESOLVED | CLOSED | REOPENED | CANCELLED

datatype priority = P1 | P2 | P3 | P4

datatype problem_status = P_OPEN | P_INVESTIGATING | P_KNOWN_ERROR | P_RESOLVED | P_CLOSED

datatype problem_link_type = L_INCIDENT | L_CHANGE

datatype alert_severity = A_CRITICAL | A_HIGH | A_WARNING | A_INFO

datatype alert_state = A_OPEN | A_ACKNOWLEDGED | A_RECOVERED

datatype change_type = STANDARD | NORMAL | EMERGENCY

datatype offer_status = O_PENDING | O_ACCEPTED | O_DECLINED | O_EXPIRED | O_CANCELLED

datatype bell_kind =
    INCIDENT_CREATED | INCIDENT_ASSIGNED | INCIDENT_GROUP_ASSIGNED | INCIDENT_STATUS_CHANGED
  | INCIDENT_COMMENT_ADDED | SLA_WARNING | SLA_BREACHED | INCIDENT_OFFERED
  | INCIDENT_OFFER_UNACCEPTED | ALERT_RECOVERED | ALERT_RAISED

datatype bell_urgency = U_CRITICAL | U_HIGH | U_NORMAL | U_SILENT

datatype risk_status = R_OPEN | R_MITIGATING | R_ACCEPTED | R_CLOSED

datatype approval_state = DRAFT | APPROVED

datatype managed_by = MB_JSAN | MB_CTS | MB_SHARED | MB_VENDOR

datatype criticality = CR_CRITICAL | CR_HIGH | CR_MEDIUM | CR_LOW

datatype ci_type =
    CT_SERVER | CT_FIREWALL | CT_SWITCH | CT_UPS | CT_PDU | CT_STORAGE | CT_SERVICE | CT_CIRCUIT | CT_VM

datatype worklog_activity =
    WL_REMOTE_WORK | WL_ONSITE | WL_TRAVEL | WL_VENDOR_CALL | WL_TESTING | WL_WAITING | WL_OTHER

datatype warranty_status = W_ACTIVE | W_EXPIRED | W_UNKNOWN

datatype dispatch_status =
    D_REQUESTED | D_APPROVED | D_SHIPPED | D_DELIVERED | D_INSTALLED | D_RETURNED

text \<open>The vocabulary of the health snapshots (\<^verbatim>\<open>packages/shared-types/src/health.ts\<close>).\<close>

datatype health_state = HEALTHY | WARNING | CRITICAL | UNKNOWN | IN_MAINTENANCE

datatype health_source = REDFISH | DELL_OME | HPE_ILO | SNMP_SOURCE

text \<open>
  The \<open>_INHERITED\<close> values stand for what a lookup in an object literal returns for a name that every
  object inherits (\<open>constructor\<close>): no value of the declared type, and one that request validation refuses.
\<close>

datatype component_kind =
    K_SYSTEM | K_PROCESSOR | K_MEMORY | K_STORAGE_CONTROLLER | K_DRIVE | K_FAN | K_POWER_SUPPLY
  | K_TEMPERATURE_SENSOR | K_NETWORK | K_INHERITED

datatype power_state = POWER_ON | POWER_OFF | POWER_UNKNOWN | POWER_INHERITED

record degraded_component =
  dg_kind :: component_kind
  dg_name :: string
  dg_health :: health_state
  dg_detail :: "string option"

record predictive_failure =
  pf_name :: string
  pf_detail :: string

record health_count =
  hn_total :: nat
  hn_healthy :: nat

record health_summary =
  hsu_drives :: health_count
  hsu_predictedFailure :: nat
  hsu_fans :: health_count
  hsu_powerSupplies :: health_count

record health_payload =
  hp_ciCode :: string
  hp_source :: health_source
  hp_overallHealth :: health_state
  hp_powerState :: power_state
  hp_observedAt :: int
  hp_degraded :: "degraded_component list"
  hp_predictiveFailures :: "predictive_failure list"
  hp_summary :: health_summary
  hp_biosVersion :: "string option"
  hp_attributes :: "(string \<times> string option) list"

text \<open>\<open>orderBy: \{ priority: "asc" \}\<close> sorts P1 first.\<close>

primrec priority_rank :: "priority \<Rightarrow> nat" where
  "priority_rank P1 = 1"
| "priority_rank P2 = 2"
| "priority_rank P3 = 3"
| "priority_rank P4 = 4"

lemma priority_rank_inj: "priority_rank a = priority_rank b \<Longrightarrow> a = b"
  by (cases a; cases b) simp_all

instantiation priority :: linorder
begin

definition less_eq_priority :: "priority \<Rightarrow> priority \<Rightarrow> bool" where
  "less_eq_priority a b \<longleftrightarrow> priority_rank a \<le> priority_rank b"

definition less_priority :: "priority \<Rightarrow> priority \<Rightarrow> bool" where
  "less_priority a b \<longleftrightarrow> priority_rank a < priority_rank b"

instance
  by standard (auto simp: less_eq_priority_def less_priority_def intro: priority_rank_inj)

end

fun status_str :: "incident_status \<Rightarrow> string" where
  "status_str NEW = ''NEW''"
| "status_str ASSIGNED = ''ASSIGNED''"
| "status_str ACKNOWLEDGED = ''ACKNOWLEDGED''"
| "status_str IN_PROGRESS = ''IN_PROGRESS''"
| "status_str PENDING_VENDOR = ''PENDING_VENDOR''"
| "status_str PENDING_CUSTOMER = ''PENDING_CUSTOMER''"
| "status_str RESOLVED = ''RESOLVED''"
| "status_str CLOSED = ''CLOSED''"
| "status_str REOPENED = ''REOPENED''"
| "status_str CANCELLED = ''CANCELLED''"

lemma status_str_inj: "status_str a = status_str b \<Longrightarrow> a = b"
  by (cases a; cases b) simp_all

section \<open>Rows\<close>

subsection \<open>Identity, sites and teams\<close>

record user =
  u_id :: uuid
  u_email :: string
  u_displayName :: string
  u_role :: user_role
  u_isActive :: bool
  u_passwordHash :: "string option"
  u_passwordSetAt :: "instant option"
  u_failedLoginCount :: int
  u_lockedUntil :: "instant option"
  u_sessionVersion :: int
  u_createdAt :: instant
  u_updatedAt :: instant

record user_identity =
  ui_id :: uuid
  ui_userId :: uuid
  ui_provider :: string
  ui_issuer :: string
  ui_subject :: string
  ui_email :: "string option"
  ui_createdAt :: instant
  ui_lastLoginAt :: "instant option"

record password_token =
  pt_id :: uuid
  pt_userId :: uuid
  pt_tokenHash :: string
  pt_purpose :: string
  pt_expiresAt :: instant
  pt_usedAt :: "instant option"
  pt_createdById :: "uuid option"
  pt_createdAt :: instant

record api_token =
  tk_id :: uuid
  tk_userId :: uuid
  tk_name :: string
  tk_tokenHash :: string
  tk_prefix :: string
  tk_expiresAt :: "instant option"
  tk_lastUsedAt :: "instant option"
  tk_revokedAt :: "instant option"
  tk_createdById :: uuid
  tk_createdAt :: instant

record handoff_code =
  hc_id :: uuid
  hc_codeHash :: string
  hc_userId :: uuid
  hc_expiresAt :: instant
  hc_consumedAt :: "instant option"
  hc_createdAt :: instant

record site_access =
  sa_userId :: uuid
  sa_siteId :: uuid

record site =
  s_id :: uuid
  s_code :: string
  s_name :: string
  s_timezone :: string
  s_is247 :: bool
  s_status :: string

record site_contact =
  sc_id :: uuid
  sc_siteId :: uuid
  sc_name :: string
  sc_role :: string
  sc_email :: "string option"
  sc_phone :: "string option"
  sc_isOnCall :: bool

record support_calendar =
  cal_id :: uuid
  cal_siteId :: uuid
  cal_name :: string
  cal_businessStart :: string
  cal_businessEnd :: string
  cal_workdays :: "nat list"
  cal_holidays :: "instant list"
  cal_is247 :: bool

record support_group =
  g_id :: uuid
  g_name :: string

record group_member =
  gm_id :: uuid
  gm_groupId :: uuid
  gm_userId :: uuid
  gm_createdAt :: instant

record category_team =
  ct_id :: uuid
  ct_category :: string
  ct_groupId :: uuid

record engineer_shift =
  sh_id :: uuid
  sh_userId :: uuid
  sh_siteId :: uuid
  sh_label :: string
  sh_daysOfWeek :: "nat list"
  sh_startTime :: string
  sh_endTime :: string
  sh_isOnCall :: bool
  sh_isActive :: bool

record skill =
  sk_id :: uuid
  sk_name :: string
  sk_isActive :: bool

record user_skill =
  us_id :: uuid
  us_userId :: uuid
  us_skillId :: uuid

record category_requirement =
  cr_id :: uuid
  cr_category :: string
  cr_skillId :: uuid

record routing_policy =
  rp_id :: uuid
  rp_siteId :: uuid
  rp_autoAssignEnabled :: bool
  rp_offerTimeout :: "priority \<Rightarrow> int"
  rp_workloadWeight :: "priority \<Rightarrow> int"

record routing_offer =
  o_id :: uuid
  o_incidentId :: uuid
  o_userId :: uuid
  o_status :: offer_status
  o_expiresAt :: instant
  o_respondedAt :: "instant option"
  o_declineReason :: "string option"
  o_createdAt :: instant

subsection \<open>Notifications\<close>

record bell =
  b_id :: uuid
  b_userId :: uuid
  b_kind :: bell_kind
  b_title :: string
  b_body :: "string option"
  b_entityType :: string
  b_entityId :: uuid
  b_dedupeKey :: string
  b_urgency :: bell_urgency
  b_readAt :: "instant option"
  b_createdAt :: instant

record sound_rule =
  sr_id :: uuid
  sr_kind :: bell_kind
  sr_level :: nat
  sr_urgency :: bell_urgency
  sr_updatedAt :: instant

subsection \<open>Configuration items, vendors and work\<close>

record rack =
  rak_id :: uuid
  rak_siteId :: uuid
  rak_rackCode :: string
  rak_name :: "string option"
  rak_location :: "string option"

record configuration_item =
  ci_id :: uuid
  ci_code :: string
  ci_siteId :: uuid
  ci_rackId :: "uuid option"
  ci_ciType :: ci_type
  ci_name :: string
  ci_manufacturer :: "string option"
  ci_model :: "string option"
  ci_serialOrServiceTag :: "string option"
  ci_managementAddress :: "string option"
  ci_ownerGroupId :: "uuid option"
  ci_managedBy :: managed_by
  ci_criticality :: criticality
  ci_lifecycleStatus :: lifecycle_status

record ci_relation =
  cir_id :: uuid
  cir_parentCiId :: uuid
  cir_childCiId :: uuid
  cir_relationType :: string

record health_row =
  hs_id :: uuid
  hs_ciId :: uuid
  hs_overallHealth :: health_state
  hs_details :: health_payload
  hs_lastHeartbeatAt :: "instant option"
  hs_openAlertEventId :: "string option"

record warranty =
  wa_id :: uuid
  wa_ciId :: uuid
  wa_status :: warranty_status
  wa_provider :: "string option"
  wa_expiresAt :: "instant option"
  wa_createdAt :: instant

record vendor =
  ve_id :: uuid
  ve_name :: string
  ve_type :: string

record vendor_case =
  vc_id :: uuid
  vc_vendorCaseNo :: string
  vc_vendorId :: uuid
  vc_linkedIncidentId :: "uuid option"
  vc_ciId :: "uuid option"
  vc_warrantyStatus :: warranty_status
  vc_openedAt :: instant
  vc_acknowledgedAt :: "instant option"
  vc_rmaRequired :: bool
  vc_replacementPart :: "string option"
  vc_dispatchStatus :: "dispatch_status option"
  vc_vendorEta :: "instant option"
  vc_closedAt :: "instant option"
  vc_outcome :: "string option"

record vendor_case_update =
  vu_id :: uuid
  vu_vendorCaseId :: uuid
  vu_note :: string
  vu_createdAt :: instant

record worklog =
  wl_id :: uuid
  wl_incidentId :: uuid
  wl_engineerId :: uuid
  wl_activityType :: worklog_activity
  wl_startedAt :: instant
  wl_endedAt :: "instant option"
  wl_durationMinutes :: "int option"
  wl_billable :: "bool option"
  wl_notes :: "string option"
  wl_editReason :: "string option"

subsection \<open>Incidents and SLA\<close>

record incident =
  i_id :: uuid
  i_incidentNo :: string
  i_siteId :: uuid
  i_ciId :: "uuid option"
  i_status :: incident_status
  i_priority :: priority
  i_category :: string
  i_impact :: string
  i_urgency :: string
  i_shortDescription :: string
  i_ownerGroupId :: "uuid option"
  i_ownerUserId :: "uuid option"
  i_reportedByUserId :: "uuid option"
  i_acknowledgedAt :: "instant option"
  i_resolutionCategory :: "string option"
  i_rootCauseSummary :: "string option"
  i_restoredAt :: "instant option"
  i_closedAt :: "instant option"
  i_createdAt :: instant
  i_updatedAt :: instant

record incident_comment =
  c_id :: uuid
  c_incidentId :: uuid
  c_authorId :: uuid
  c_body :: string
  c_isInternal :: bool
  c_createdAt :: instant

record attachment =
  at_id :: uuid
  at_entityType :: string
  at_entityId :: uuid
  at_objectKey :: string
  at_contentType :: string
  at_sizeBytes :: nat
  at_sha256 :: string
  at_uploadedById :: "uuid option"
  at_deletedAt :: "instant option"
  at_deletedById :: "uuid option"
  at_createdAt :: instant

record sla_policy =
  sp_id :: uuid
  sp_name :: string
  sp_priority :: priority
  sp_ackTargetMinutes :: int
  sp_resolveTargetMinutes :: int
  sp_usesBusinessCalendar :: bool
  sp_escalationThresholdsPercent :: "int list"
  sp_pausesOnPendingVendor :: bool
  sp_pausesOnPendingCustomer :: bool
  sp_effectiveFrom :: instant
  sp_effectiveTo :: "instant option"
  sp_isActive :: bool

record sla_instance =
  si_id :: uuid
  si_incidentId :: uuid
  si_slaPolicyId :: uuid
  si_ackDueAt :: "instant option"
  si_ackedAt :: "instant option"
  si_resolveDueAt :: "instant option"
  si_resolvedAt :: "instant option"
  si_pausedAt :: "instant option"
  si_pausedMinutes :: int
  si_firedMilestones :: "string list"
  si_breached :: bool

subsection \<open>Alerts\<close>

record alert =
  al_id :: uuid
  al_externalEventId :: string
  al_source :: string
  al_siteId :: "uuid option"
  al_ciId :: "uuid option"
  al_alertType :: string
  al_severity :: alert_severity
  al_fingerprint :: string
  al_firstSeenAt :: instant
  al_lastSeenAt :: instant
  al_state :: alert_state
  al_rawReference :: "string option"
  al_correlatedIncidentId :: "uuid option"

record alert_rule =
  ar_id :: uuid
  ar_name :: string
  ar_siteId :: "uuid option"
  ar_alertType :: "string option"
  ar_flappingThreshold :: int
  ar_flappingWindowMinutes :: int
  ar_pagingSeverities :: "alert_severity list"
  ar_autoCorrelateIncidents :: bool
  ar_suppressAutoTicketDuringMaintenance :: bool
  ar_autoCreateSeverities :: "alert_severity list"
  ar_incidentCategory :: "string option"
  ar_incidentPriority :: "priority option"
  ar_isActive :: bool
  ar_createdAt :: instant

subsection \<open>Changes, problems, knowledge, risks and continuity plans\<close>

record change =
  ch_id :: uuid
  ch_changeType :: change_type
  ch_reason :: string
  ch_implementationPlan :: string
  ch_validationPlan :: string
  ch_rollbackPlan :: string
  ch_risk :: string
  ch_windowStart :: instant
  ch_windowEnd :: instant
  ch_createdBy :: "uuid option"
  ch_approverId :: "uuid option"
  ch_outcome :: "string option"
  ch_affectedCiIds :: "uuid list"

record problem =
  pr_id :: uuid
  pr_problemNo :: string
  pr_title :: string
  pr_status :: problem_status
  pr_priority :: "priority option"
  pr_symptoms :: string
  pr_knownError :: "string option"
  pr_rootCause :: "string option"
  pr_correctiveAction :: "string option"
  pr_preventiveAction :: "string option"
  pr_ownerUserId :: "uuid option"
  pr_dueDate :: "instant option"
  pr_resolvedAt :: "instant option"
  pr_closedAt :: "instant option"

record action_item =
  ai_id :: uuid
  ai_problemId :: uuid
  ai_description :: string
  ai_assigneeUserId :: "uuid option"
  ai_dueDate :: "instant option"
  ai_completedAt :: "instant option"

record problem_link =
  pl_id :: uuid
  pl_problemId :: uuid
  pl_entityType :: problem_link_type
  pl_entityId :: uuid

record article =
  ka_id :: uuid
  ka_title :: string
  ka_body :: string
  ka_version :: int
  ka_ownerId :: "uuid option"
  ka_siteId :: "uuid option"
  ka_incidentCategory :: "string option"
  ka_ciType :: "string option"
  ka_approvalState :: approval_state
  ka_reviewDueAt :: "instant option"

record risk =
  rk_id :: uuid
  rk_siteId :: "uuid option"
  rk_description :: string
  rk_likelihood :: int
  rk_impact :: int
  rk_score :: int
  rk_mitigation :: "string option"
  rk_evidence :: "string option"
  rk_ownerId :: "uuid option"
  rk_dueDate :: "instant option"
  rk_status :: risk_status

text \<open>A finite double is \<open>m * 2 ^ e\<close>, kept as the pair of the two integers: it is only stored.\<close>

type_synonym double = "int \<times> int"

record bcp_plan =
  bp_id :: uuid
  bp_name :: string
  bp_siteId :: "uuid option"
  bp_serviceName :: "string option"
  bp_recoveryStrategy :: string
  bp_alternateSite :: "string option"
  bp_rtoMinutes :: int
  bp_rpoMinutes :: int
  bp_targetAvailabilityPercent :: "double option"
  bp_residualRisk :: "string option"
  bp_contacts :: "string option"
  bp_ownerId :: "uuid option"
  bp_lastTestedAt :: "instant option"
  bp_nextTestDueAt :: "instant option"
  bp_isActive :: bool

section \<open>The incident timeline\<close>

text \<open>
  A timeline row carries an event type and a JSON payload of the shape that type has; the two
  are one datatype with a constructor per event type.
\<close>

record alert_ref =
  ra_id :: uuid
  ra_alertType :: string
  ra_severity :: alert_severity
  ra_source :: string
  ra_fingerprint :: string

datatype (plugins only: code) event_body =
    CREATED incident_status "(string \<times> uuid) option"
      \<comment> \<open>status, and for an alert-opened ticket its origin (source, alert id)\<close>
  | OWNER_CHANGE "uuid option" "uuid option" "uuid option" "uuid option"
      \<comment> \<open>from user, to user, from group, to group\<close>
  | STATUS_CHANGE incident_status incident_status "string option" "string option" "string option"
      "(uuid \<times> string \<times> alert_severity \<times> alert_state) list"
      \<comment> \<open>from, to, reason, resolution category, root cause, alerts still open at a resolve\<close>
  | ROUTED_ASSIGN incident_status incident_status uuid "uuid option" string
      \<comment> \<open>STATUS_CHANGE as autoAssign writes it: from, to, owner, group, source\<close>
  | ROUTING string "(string \<times> string) list"
  | ALERT_LINKED alert_ref
  | EV_ALERT_RECOVERED_AFTER_RESOLVE uuid string alert_severity string incident_status
  | EV_ALERT_RECOVERED uuid string alert_severity string incident_status
  | COMMENT uuid bool
  | ATTACHMENT uuid string nat
  | ATTACHMENT_REMOVED uuid string
  | SLA_EVENT string string instant uuid
  | WORKLOG_CREATE uuid worklog_activity "int option"
  | WORKLOG_CORRECTION uuid string

record incident_event =
  e_id :: uuid
  e_incidentId :: uuid
  e_actorId :: "uuid option"
  e_body :: event_body
  e_createdAt :: instant

section \<open>The audit trail\<close>

text \<open>The \<open>before\<close> and \<open>after\<close> snapshots are JSON in the source; here, the row or object recorded.\<close>

datatype (plugins only: code) snapshot =
    SnapIncident incident
  | SnapAlertLink alert_ref
  | SnapAlertRecovered uuid string alert_severity "incident_status option"
  | SnapComment incident_comment
  | SnapAttachment attachment
  | SnapSlaPolicy sla_policy
  | SnapSlaInstance sla_instance
  | SnapMilestone string string instant
  | SnapPolicy routing_policy
  | SnapOffer routing_offer
  | SnapCategoryTeam category_team
  | SnapShift engineer_shift
  | SnapSkill skill
  | SnapUserSkill uuid uuid
  | SnapRequirement category_requirement
  | SnapSoundRule sound_rule
  | SnapAlert alert
  | SnapAlertState alert_state alert_severity
  | SnapAlertRule alert_rule
  | SnapChange change
  | SnapApprover "uuid option"
  | SnapProblem problem
  | SnapProblemStatus problem_status "string option"
  | SnapActionItem action_item
  | SnapProblemLink problem_link
  | SnapArticle article
  | SnapApproval approval_state "int option" "instant option" "string option"
  | SnapRisk risk
  | SnapRiskStatus risk_status "string option"
  | SnapBcpPlan bcp_plan
  | SnapBcpTest "instant option" "instant option" "string option"
  | SnapReason string
  | SnapFailedLogin string int
  | SnapLink instant bool
  | SnapUser string string user_role bool "uuid list"
      \<comment> \<open>email, display name, role, active, site ids\<close>
  | SnapUserActive bool
  | SnapUserSites "uuid list" "uuid list" "uuid list"
      \<comment> \<open>granted, added, removed\<close>
  | SnapApiToken uuid string string "instant option"
  | SnapIdentity string string string
      \<comment> \<open>provider, issuer, subject\<close>
  | SnapSocialRejected string string string
  | SnapSite site
  | SnapContact site_contact
  | SnapCalendar support_calendar
  | SnapGroup support_group
  | SnapMember uuid "string option"
  | SnapCi configuration_item
  | SnapRack rack
  | SnapCiRelation ci_relation
  | SnapHealth string health_source health_state power_state nat nat
  | SnapHeartbeat instant
  | SnapWarranty warranty
  | SnapVendor vendor
  | SnapVendorCase vendor_case
  | SnapVendorNote uuid string
  | SnapWorklog worklog

record audit_event =
  ae_actorId :: "uuid option"
  ae_entityType :: string
  ae_entityId :: uuid
  ae_action :: string
  ae_before :: "snapshot option"
  ae_after :: "snapshot option"
  ae_correlationId :: "string option"
  ae_createdAt :: instant

section \<open>What leaves the process\<close>

record party =
  p_name :: string
  p_email :: string

text \<open>
  A mail job: the queue it is added to, its event kind, the key of the entity it is about, its
  recipients and the job id that de-duplicates it.
\<close>

record mail_job =
  mj_queue :: string
  mj_kind :: string
  mj_entityKey :: string
  mj_to :: "party list"
  mj_cc :: "party list"
  mj_jobId :: "string option"

text \<open>
  An account mail (\<^verbatim>\<open>integrations/email/src/account.ts\<close>): it carries the live link, so it goes to a
  queue of its own. The expiry is the instant its text is rendered from.
\<close>

record account_email =
  am_kind :: string
  am_to :: party
  am_link :: string
  am_expiresAt :: instant
  am_invitedBy :: "party option"

datatype domain_event =
    IncidentCreatedEvent uuid uuid "string option"
      \<comment> \<open>incident, site, correlation id\<close>
  | IncidentUpdatedEvent uuid incident_status "uuid option" "uuid option" "uuid option" "string option"
      \<comment> \<open>incident, status, owner user, owner group, actor, correlation id\<close>

section \<open>The environment\<close>

text \<open>
  What luxon computes for a zone: the weekday (1 for Monday to 7 for Sunday) and the local date
  of an instant (as a day number), the instant at a wall-clock time on the same local date
  (\<open>set\<close>), and local midnight of the next day. luxon is not part of the repository, so these
  are parameters; the laws the code relies on are the locale of the calendar theory.
\<close>

record zone =
  z_weekday :: "instant \<Rightarrow> nat"
  z_date :: "instant \<Rightarrow> int"
  z_set :: "instant \<Rightarrow> nat \<Rightarrow> nat \<Rightarrow> instant"
  z_nextDay :: "instant \<Rightarrow> instant"

record environment =
  env_uuid :: "nat \<Rightarrow> uuid"
  env_zone :: "string \<Rightarrow> zone"
  env_collation :: "string \<Rightarrow> nat"
  env_sha256 :: "string \<Rightarrow> string"
  env_redis :: bool
  env_randomBytes :: "nat \<Rightarrow> nat \<Rightarrow> nat list"
    \<comment> \<open>the \<open>n\<close>th draw of \<open>randomBytes(len)\<close>\<close>
  env_scrypt :: "string \<Rightarrow> nat list \<Rightarrow> nat \<Rightarrow> nat \<Rightarrow> nat \<Rightarrow> nat list option"
    \<comment> \<open>password, salt, N, r, p; \<open>None\<close> when the parameters are refused\<close>
  env_webAppUrl :: string

section \<open>The world\<close>

record world =
  env :: environment
  uuid_next :: nat
  incident_no_seq :: nat
  problem_no_seq :: nat
  users :: "user list"
  site_accesses :: "site_access list"
  sites :: "site list"
  contacts :: "site_contact list"
  calendars :: "support_calendar list"
  groups :: "support_group list"
  members :: "group_member list"
  category_teams :: "category_team list"
  shifts :: "engineer_shift list"
  skills :: "skill list"
  user_skills :: "user_skill list"
  requirements :: "category_requirement list"
  policies :: "routing_policy list"
  offers :: "routing_offer list"
  bells :: "bell list"
  sound_rules :: "sound_rule list"
  cis :: "configuration_item list"
  incidents :: "incident list"
  events :: "incident_event list"
  comments :: "incident_comment list"
  attachments :: "attachment list"
  sla_policies :: "sla_policy list"
  sla_instances :: "sla_instance list"
  alerts :: "alert list"
  alert_rules :: "alert_rule list"
  changes :: "change list"
  problems :: "problem list"
  action_items :: "action_item list"
  problem_links :: "problem_link list"
  articles :: "article list"
  risks :: "risk list"
  bcp_plans :: "bcp_plan list"
  audits :: "audit_event list"
  outbox :: "mail_job list"
  emitted :: "domain_event list"
  rule_cache :: "(alert_rule list \<times> instant) option"
  sound_cache :: "(sound_rule list \<times> instant) option"
  random_next :: nat
  dummy_hash :: "string option"
  identities :: "user_identity list"
  password_tokens :: "password_token list"
  api_tokens :: "api_token list"
  handoff_codes :: "handoff_code list"
  racks :: "rack list"
  ci_relations :: "ci_relation list"
  health_rows :: "health_row list"
  warranties :: "warranty list"
  vendors :: "vendor list"
  vendor_cases :: "vendor_case list"
  vendor_case_updates :: "vendor_case_update list"
  worklogs :: "worklog list"
  account_mails :: "account_email list"

datatype social_reject_reason =
    Not_provisioned | Inactive | Email_missing | Email_unverified | Identity_mismatch

datatype http_error =
    BadRequest string | Forbidden string | NotFound string | Conflict string | Unauthorized string
  | SocialLoginRejected social_reject_reason string
      \<comment> \<open>\<open>SocialLoginRejectedError\<close>: reason and detail\<close>
  | PrismaKnown string
      \<comment> \<open>\<open>PrismaClientKnownRequestError\<close> by its code\<close>
  | Internal string
      \<comment> \<open>an exception that is not an HTTP exception: a constraint of the database, a plain Error\<close>

type_synonym 'a op = "(world, http_error, 'a) act"

text \<open>
  \<open>$transaction\<close>: a throw gives every table back. Numbers drawn from a PostgreSQL sequence or
  from the uuid generator stay drawn, and so does what already left the process or sits in an
  in-memory cache.
\<close>

definition rollback :: "world \<Rightarrow> world \<Rightarrow> world" where
  "rollback w w' = w\<lparr>uuid_next := uuid_next w', incident_no_seq := incident_no_seq w',
     problem_no_seq := problem_no_seq w', random_next := random_next w', dummy_hash := dummy_hash w',
     account_mails := account_mails w', outbox := outbox w', emitted := emitted w',
     rule_cache := rule_cache w', sound_cache := sound_cache w'\<rparr>"

abbreviation transaction :: "'a op \<Rightarrow> 'a op" where
  "transaction m \<equiv> transactionM rollback m"

text \<open>\<open>@default(uuid())\<close> and \<open>randomUUID()\<close>: the next element of the generator's sequence.\<close>

definition freshId :: "uuid op" where
  "freshId = (\<lambda>w. (Inr (env_uuid (env w) (uuid_next w)), w\<lparr>uuid_next := Suc (uuid_next w)\<rparr>))"

text \<open>Who acts, and the authenticated caller.\<close>

record actor_context =
  actorId :: uuid
  correlationId :: "string option"

record auth_user =
  au_id :: uuid
  au_email :: string
  au_role :: user_role

section \<open>An empty database\<close>

definition utc_zone :: zone where
  "utc_zone = \<lparr>z_weekday = (\<lambda>t. nat ((t div 86400000 + 3) mod 7) + 1),
     z_date = (\<lambda>t. t div 86400000),
     z_set = (\<lambda>t h m. (t div 86400000) * 86400000 + int h * 3600000 + int m * 60000),
     z_nextDay = (\<lambda>t. (t div 86400000 + 1) * 86400000)\<rparr>"

text \<open>
  A concrete stand-in for \<open>scrypt\<close> in the example worlds: 64 bytes that depend on the password.
\<close>

definition toy_scrypt :: "string \<Rightarrow> nat list \<Rightarrow> nat \<Rightarrow> nat \<Rightarrow> nat \<Rightarrow> nat list option" where
  "toy_scrypt password salt n r p = Some (take 64 (map (\<lambda>c. of_char c mod 256) password @ replicate 64 0))"

definition empty_world :: world where
  "empty_world = \<lparr>env = \<lparr>env_uuid = nat_str, env_zone = (\<lambda>_. utc_zone),
       env_collation = (\<lambda>s. length s), env_sha256 = (\<lambda>s. s), env_redis = True,
       env_randomBytes = (\<lambda>n len. replicate (len - 1) 0 @ [n mod 256]), env_scrypt = toy_scrypt,
       env_webAppUrl = ''http://localhost:5173''\<rparr>,
     uuid_next = 0, incident_no_seq = 1, problem_no_seq = 1,
     users = [], site_accesses = [], sites = [], contacts = [], calendars = [],
     groups = [], members = [], category_teams = [], shifts = [], skills = [],
     user_skills = [], requirements = [], policies = [], offers = [], bells = [],
     sound_rules = [], cis = [], incidents = [], events = [], comments = [],
     attachments = [], sla_policies = [], sla_instances = [], alerts = [], alert_rules = [],
     changes = [], problems = [], action_items = [], problem_links = [], articles = [],
     risks = [], bcp_plans = [], audits = [], outbox = [], emitted = [],
     rule_cache = None, sound_cache = None, random_next = 0, dummy_hash = None, identities = [], password_tokens = [],
     api_tokens = [], handoff_codes = [], racks = [], ci_relations = [], health_rows = [], warranties = [],
     vendors = [], vendor_cases = [], vendor_case_updates = [], worklogs = [], account_mails = []\<rparr>"

end
