(* ===== verification/Access.thy ===== *)
theory Access
  imports Schema
begin

text \<open>
  Who may see which site (\<^verbatim>\<open>auth/authz.service.ts\<close>), the two guards in front of the
  controllers (\<^verbatim>\<open>auth/guards\<close>), the roles that count as engineers, and the audit trail
  (\<^verbatim>\<open>audit/audit.service.ts\<close>) that every mutation of every other component writes.
\<close>

section \<open>Site scope\<close>

definition ALL_SITES_ROLES :: "user_role list" where
  "ALL_SITES_ROLES = [SUPER_ADMIN, DELIVERY_OPS_MANAGER, AUDITOR_READ_ONLY]"

definition isAllSitesRole :: "user_role \<Rightarrow> bool" where
  "isAllSitesRole r \<longleftrightarrow> r \<in> set ALL_SITES_ROLES"

text \<open>\<open>None\<close> is the source's \<open>null\<close>: every site.\<close>

definition getAccessibleSiteIds :: "world \<Rightarrow> auth_user \<Rightarrow> uuid list option" where
  "getAccessibleSiteIds w u =
     (if au_role u \<in> set ALL_SITES_ROLES then None
      else Some (map sa_siteId (filter (\<lambda>g. sa_userId g = au_id u) (site_accesses w))))"

definition canAccessSite :: "world \<Rightarrow> auth_user \<Rightarrow> uuid \<Rightarrow> bool" where
  "canAccessSite w u siteId =
     (case getAccessibleSiteIds w u of None \<Rightarrow> True | Some ids \<Rightarrow> siteId \<in> set ids)"

definition ENGINEER_ROLES :: "user_role list" where
  "ENGINEER_ROLES = [SITE_ENGINEER, INFRASTRUCTURE_LEAD]"

definition isEngineerRole :: "user_role \<Rightarrow> bool" where
  "isEngineerRole r \<longleftrightarrow> r \<in> set ENGINEER_ROLES"

section \<open>Guards\<close>

text \<open>\<open>@Roles\<close> metadata may be absent; an absent or empty list lets everyone in.\<close>

definition rolesGuard :: "user_role list option \<Rightarrow> auth_user option \<Rightarrow> http_error + bool" where
  "rolesGuard required u =
     (case required of
        None \<Rightarrow> Inr True
      | Some rs \<Rightarrow>
          (if rs = [] then Inr True
           else (case u of
                   None \<Rightarrow> Inl (Forbidden ''Requires one of roles'')
                 | Some a \<Rightarrow> (if au_role a \<in> set rs then Inr True
                             else Inl (Forbidden ''Requires one of roles'')))))"

text \<open>\<open>params.siteId ?? params.id\<close>; an empty string is falsy too.\<close>

definition siteScopeGuard ::
  "world \<Rightarrow> string option \<Rightarrow> string option \<Rightarrow> auth_user option \<Rightarrow> http_error + bool" where
  "siteScopeGuard w paramSiteId paramId u =
     (let siteId = option_or paramSiteId paramId in
      if \<not> truthy siteId then Inr True
      else (case u of
              None \<Rightarrow> Inr True
            | Some a \<Rightarrow> (if canAccessSite w a (the siteId) then Inr True
                        else Inl (Forbidden ''You do not have access to this site''))))"

section \<open>Answers to a user-change check\<close>

record blocker =
  bk_source :: string
  bk_message :: string
  bk_examples :: "string list"

definition plural :: "nat \<Rightarrow> string" where
  "plural n = (if n = 1 then [] else ''s'')"

section \<open>The audit trail\<close>

definition auditRecord ::
  "instant \<Rightarrow> uuid option \<Rightarrow> string \<Rightarrow> uuid \<Rightarrow> string \<Rightarrow> snapshot option \<Rightarrow> snapshot option \<Rightarrow>
   string option \<Rightarrow> unit op" where
  "auditRecord now actor entityType entityId action before after corr =
     modifyM (\<lambda>w. w\<lparr>audits := audits w @ [\<lparr>ae_actorId = actor, ae_entityType = entityType,
       ae_entityId = entityId, ae_action = action, ae_before = before, ae_after = after,
       ae_correlationId = corr, ae_createdAt = now\<rparr>]\<rparr>)"

record audit_query =
  aq_entityType :: "string option"
  aq_entityId :: "uuid option"
  aq_actorId :: "uuid option"
  aq_action :: "string option"
  aq_from :: "instant option"
  aq_to :: "instant option"
  aq_limit :: "nat option"
  aq_offset :: "nat option"

text \<open>A Prisma filter field that is \<open>undefined\<close> does not constrain its column.\<close>

definition matches :: "'a option \<Rightarrow> 'a \<Rightarrow> bool" where
  "matches q v = (case q of None \<Rightarrow> True | Some x \<Rightarrow> v = x)"

definition audit_where :: "audit_query \<Rightarrow> audit_event \<Rightarrow> bool" where
  "audit_where q e \<longleftrightarrow>
     matches (aq_entityType q) (ae_entityType e) \<and> matches (aq_entityId q) (ae_entityId e) \<and>
     (case aq_actorId q of None \<Rightarrow> True | Some a \<Rightarrow> ae_actorId e = Some a) \<and>
     matches (aq_action q) (ae_action e) \<and>
     (case aq_from q of None \<Rightarrow> True | Some t \<Rightarrow> t \<le> ae_createdAt e) \<and>
     (case aq_to q of None \<Rightarrow> True | Some t \<Rightarrow> ae_createdAt e \<le> t)"

record 'a paginated =
  pg_items :: "'a list"
  pg_total :: nat
  pg_limit :: nat
  pg_offset :: nat

text \<open>\<open>findMany(where, orderBy createdAt desc, take, skip)\<close> and \<open>count(where)\<close>.\<close>

definition page_desc :: "('r \<Rightarrow> bool) \<Rightarrow> ('r \<Rightarrow> int) \<Rightarrow> nat \<Rightarrow> nat \<Rightarrow> 'r list \<Rightarrow> 'r paginated" where
  "page_desc p createdAt limit offset rows =
     \<lparr>pg_items = take limit (drop offset (sort_key (\<lambda>r. - createdAt r) (filter p rows))),
      pg_total = length (filter p rows), pg_limit = limit, pg_offset = offset\<rparr>"

definition auditFindAll :: "world \<Rightarrow> audit_query \<Rightarrow> audit_event paginated" where
  "auditFindAll w q =
     page_desc (audit_where q) ae_createdAt
       (option_default 50 (aq_limit q)) (option_default 0 (aq_offset q)) (audits w)"

section \<open>Lemmas\<close>

lemma canAccessSite_iff:
  "canAccessSite w u s \<longleftrightarrow>
     isAllSitesRole (au_role u) \<or>
     (\<exists>g \<in> set (site_accesses w). sa_userId g = au_id u \<and> sa_siteId g = s)"
  by (auto simp: canAccessSite_def getAccessibleSiteIds_def isAllSitesRole_def)

lemma canAccessSite_cong:
  "site_accesses w = site_accesses w' \<Longrightarrow> canAccessSite w u s = canAccessSite w' u s"
  by (simp add: canAccessSite_iff)

text \<open>The two logs of the world, as providers of the append-only contract.\<close>

interpretation audit_log: append_log audits rollback
  by unfold_locales (simp add: rollback_def)

interpretation timeline: append_log events rollback
  by unfold_locales (simp add: rollback_def)

declare audit_log.appends_transaction [appends_intros]
declare timeline.appends_transaction [appends_intros]

text \<open>
  A write that leaves a log alone appends to it; used with the simplifier, which computes the
  logs of an updated world.
\<close>

lemma appends_modify_same: "(\<And>w. log (k w) = log w) \<Longrightarrow> appends log (modifyM k)"
  by (simp add: appends_def)

lemma appends_auditRecord [appends_intros]:
  "appends audits (auditRecord now a t i act b af c)"
  "appends events (auditRecord now a t i act b af c)"
  by (simp_all add: appends_def auditRecord_def)

lemma appends_freshId [appends_intros]: "appends audits freshId" "appends events freshId"
  by (simp_all add: appends_def freshId_def)

lemma keeps_rollback [keeps_intros]:
  "keeps f m \<Longrightarrow> (\<And>w w'. f w' = f w \<Longrightarrow> f (rollback w w') = f w) \<Longrightarrow> keeps f (transaction m)"
  by (rule keeps_transaction)

lemma auditRecord_eval [simp, action_simps]:
  "auditRecord now a t i act b af c w =
     (Inr (), w\<lparr>audits := audits w @ [\<lparr>ae_actorId = a, ae_entityType = t,
       ae_entityId = i, ae_action = act, ae_before = b, ae_after = af,
       ae_correlationId = c, ae_createdAt = now\<rparr>]\<rparr>)"
  by (simp add: auditRecord_def)

lemma freshId_eval [simp, action_simps]:
  "freshId w = (Inr (env_uuid (env w) (uuid_next w)), w\<lparr>uuid_next := Suc (uuid_next w)\<rparr>)"
  by (simp add: freshId_def)

lemma bindM_auditRecord [simp]:
  "bindM (auditRecord now a t i act b af c) f w =
     f () (w\<lparr>audits := audits w @ [\<lparr>ae_actorId = a, ae_entityType = t,
       ae_entityId = i, ae_action = act, ae_before = b, ae_after = af,
       ae_correlationId = c, ae_createdAt = now\<rparr>]\<rparr>)"
  by (simp add: auditRecord_def)

lemma bindM_freshId [simp]:
  "bindM freshId f w = f (env_uuid (env w) (uuid_next w)) (w\<lparr>uuid_next := Suc (uuid_next w)\<rparr>)"
  by (simp add: bindM_def)

text \<open>
  Ids the generator has given out. With a generator that never repeats itself a fresh id is not
  one of them, so a table whose ids were all given out gets a new key.
\<close>

definition issued :: "world \<Rightarrow> uuid \<Rightarrow> bool" where
  "issued w i \<longleftrightarrow> (\<exists>n < uuid_next w. i = env_uuid (env w) n)"

definition keys_ok :: "(world \<Rightarrow> 'r list) \<Rightarrow> ('r \<Rightarrow> uuid) \<Rightarrow> world \<Rightarrow> bool" where
  "keys_ok rows key w \<longleftrightarrow> inj (env_uuid (env w)) \<and> distinct (map key (rows w)) \<and>
     list_all (\<lambda>r. issued w (key r)) (rows w)"

lemma fresh_not_issued: "inj (env_uuid (env w)) \<Longrightarrow> \<not> issued w (env_uuid (env w) (uuid_next w))"
  by (auto simp: issued_def dest: injD)

lemma issued_later: "issued w i \<Longrightarrow> env w' = env w \<Longrightarrow> uuid_next w \<le> uuid_next w' \<Longrightarrow> issued w' i"
  by (auto simp: issued_def intro: order.strict_trans2)

lemma keys_ok_insert:
  assumes "keys_ok rows key w" "env w' = env w" "uuid_next w < uuid_next w'"
    "rows w' = rows w @ [r]" "key r = env_uuid (env w) (uuid_next w)"
  shows "keys_ok rows key w'"
proof -
  have "issued w' (key r)" using assms by (auto simp: issued_def)
  moreover have "list_all (\<lambda>r. issued w' (key r)) (rows w)"
    using assms(1-3) by (auto simp: keys_ok_def list_all_iff intro: issued_later)
  moreover have "key r \<notin> key ` set (rows w)"
    using assms(1,5) fresh_not_issued [of w] by (auto simp: keys_ok_def list_all_iff)
  ultimately show ?thesis using assms(1,2,4) by (auto simp: keys_ok_def)
qed

lemma keys_ok_same:
  assumes "keys_ok rows key w" "env w' = env w" "uuid_next w \<le> uuid_next w'"
    "map key (rows w') = map key (rows w)"
  shows "keys_ok rows key w'"
proof -
  have "list_all (issued w') (map key (rows w))"
    using assms(1-3) by (auto simp: keys_ok_def list_all_iff intro: issued_later)
  then have "list_all (\<lambda>r. issued w' (key r)) (rows w')"
    unfolding assms(4) [symmetric] by (simp add: list.pred_map comp_def)
  then show ?thesis using assms by (simp add: keys_ok_def)
qed

text \<open>The pages of a query are its matching rows, newest first, none lost and none twice.\<close>

lemma page_desc_items:
  "set (pg_items (page_desc p k l off rows)) \<subseteq> {r \<in> set rows. p r}"
  unfolding page_desc_def using set_take_subset set_drop_subset by fastforce

lemma page_desc_sorted:
  "sorted (map (\<lambda>r. - k r) (pg_items (page_desc p k l off rows)))"
  by (simp add: page_desc_def take_map [symmetric] drop_map [symmetric] sorted_wrt_take sorted_wrt_drop)

lemma concat_pages:
  "concat (map (\<lambda>i. take l (drop (i * l) xs)) [0..<n]) = take (n * l) xs"
proof (induction n)
  case (Suc n)
  then show ?case by (simp add: take_add [symmetric] add.commute)
qed simp

end
