(* ===== verification/Incident_Rules.thy ===== *)
theory Incident_Rules
  imports Access
begin

text \<open>
  The state machine of an incident as data (\<^verbatim>\<open>incidents/incident-transitions.ts\<close>): one rule per
  allowed move, with the roles that may make it, the owner gate, the fields it needs and its own
  validation; and the lookup by which the incident service enforces it. A field of the request
  that names an owner may be absent, null or a uuid.
\<close>

section \<open>Rules\<close>

datatype transition_field =
    F_toStatus | F_reason | F_ownerGroupId | F_ownerUserId | F_resolutionCategory | F_rootCauseSummary

record transition_dto =
  td_toStatus :: incident_status
  td_reason :: "string option"
  td_ownerGroupId :: "uuid patch"
  td_ownerUserId :: "uuid patch"
  td_resolutionCategory :: "string option"
  td_rootCauseSummary :: "string option"

record transition_rule =
  tr_from :: "incident_status list"
  tr_to :: incident_status
  tr_allowedRoles :: "user_role list"
  tr_requiresOwnerOrElevated :: bool
  tr_requiredFields :: "transition_field list"
  tr_validate :: "(incident \<Rightarrow> transition_dto \<Rightarrow> string option) option"

definition ELEVATED_ROLES :: "user_role list" where
  "ELEVATED_ROLES = [SUPER_ADMIN, INFRASTRUCTURE_LEAD, DELIVERY_OPS_MANAGER]"

definition INCIDENT_ROUTING_ROLES :: "user_role list" where
  "INCIDENT_ROUTING_ROLES = SERVICE_DESK_NOC # ELEVATED_ROLES"

definition OPEN_STATUSES :: "incident_status list" where
  "OPEN_STATUSES =
     [NEW, ASSIGNED, ACKNOWLEDGED, IN_PROGRESS, PENDING_VENDOR, PENDING_CUSTOMER, REOPENED]"

definition isOwnerOrElevated :: "uuid \<Rightarrow> user_role \<Rightarrow> incident \<Rightarrow> bool" where
  "isOwnerOrElevated userId userRole inc \<longleftrightarrow>
     i_ownerUserId inc = Some userId \<or> userRole \<in> set ELEVATED_ROLES"

definition validate_owner_resolved :: "incident \<Rightarrow> transition_dto \<Rightarrow> string option" where
  "validate_owner_resolved inc dto =
     (let ownerGroupId = coalesce (td_ownerGroupId dto) (i_ownerGroupId inc);
          ownerUserId = coalesce (td_ownerUserId dto) (i_ownerUserId inc)
      in if \<not> truthy ownerGroupId \<and> \<not> truthy ownerUserId
         then Some ''ownerGroupId or ownerUserId must be resolved before assigning''
         else None)"

definition TRANSITION_RULES :: "transition_rule list" where
  "TRANSITION_RULES =
   [\<lparr>tr_from = [NEW], tr_to = ASSIGNED,
      tr_allowedRoles = [SERVICE_DESK_NOC, INFRASTRUCTURE_LEAD, SUPER_ADMIN],
      tr_requiresOwnerOrElevated = False, tr_requiredFields = [],
      tr_validate = Some validate_owner_resolved\<rparr>,
    \<lparr>tr_from = [ASSIGNED], tr_to = ACKNOWLEDGED,
      tr_allowedRoles = [SITE_ENGINEER, INFRASTRUCTURE_LEAD, SUPER_ADMIN],
      tr_requiresOwnerOrElevated = True, tr_requiredFields = [], tr_validate = None\<rparr>,
    \<lparr>tr_from = [ACKNOWLEDGED], tr_to = IN_PROGRESS,
      tr_allowedRoles = [SITE_ENGINEER, INFRASTRUCTURE_LEAD, SUPER_ADMIN],
      tr_requiresOwnerOrElevated = True, tr_requiredFields = [], tr_validate = None\<rparr>,
    \<lparr>tr_from = [IN_PROGRESS], tr_to = PENDING_VENDOR,
      tr_allowedRoles = [SITE_ENGINEER, INFRASTRUCTURE_LEAD, SUPER_ADMIN],
      tr_requiresOwnerOrElevated = True, tr_requiredFields = [F_reason], tr_validate = None\<rparr>,
    \<lparr>tr_from = [IN_PROGRESS], tr_to = PENDING_CUSTOMER,
      tr_allowedRoles = [SERVICE_DESK_NOC, SITE_ENGINEER, INFRASTRUCTURE_LEAD, SUPER_ADMIN],
      tr_requiresOwnerOrElevated = False, tr_requiredFields = [F_reason], tr_validate = None\<rparr>,
    \<lparr>tr_from = [PENDING_VENDOR, PENDING_CUSTOMER], tr_to = IN_PROGRESS,
      tr_allowedRoles = [SITE_ENGINEER, SERVICE_DESK_NOC, INFRASTRUCTURE_LEAD, SUPER_ADMIN],
      tr_requiresOwnerOrElevated = True, tr_requiredFields = [], tr_validate = None\<rparr>,
    \<lparr>tr_from = [IN_PROGRESS], tr_to = RESOLVED,
      tr_allowedRoles = [SITE_ENGINEER, INFRASTRUCTURE_LEAD, SUPER_ADMIN],
      tr_requiresOwnerOrElevated = True,
      tr_requiredFields = [F_resolutionCategory, F_rootCauseSummary], tr_validate = None\<rparr>,
    \<lparr>tr_from = [RESOLVED], tr_to = CLOSED,
      tr_allowedRoles = [SERVICE_DESK_NOC, INFRASTRUCTURE_LEAD, SUPER_ADMIN],
      tr_requiresOwnerOrElevated = False, tr_requiredFields = [], tr_validate = None\<rparr>,
    \<lparr>tr_from = [RESOLVED], tr_to = REOPENED,
      tr_allowedRoles = [SERVICE_DESK_NOC, SITE_ENGINEER, INFRASTRUCTURE_LEAD, SUPER_ADMIN],
      tr_requiresOwnerOrElevated = False, tr_requiredFields = [F_reason], tr_validate = None\<rparr>,
    \<lparr>tr_from = [REOPENED], tr_to = IN_PROGRESS,
      tr_allowedRoles = [SITE_ENGINEER, INFRASTRUCTURE_LEAD, SUPER_ADMIN],
      tr_requiresOwnerOrElevated = True, tr_requiredFields = [], tr_validate = None\<rparr>,
    \<lparr>tr_from = OPEN_STATUSES, tr_to = CANCELLED,
      tr_allowedRoles = [INFRASTRUCTURE_LEAD, SUPER_ADMIN],
      tr_requiresOwnerOrElevated = False, tr_requiredFields = [F_reason], tr_validate = None\<rparr>]"

definition findTransitionRule ::
  "incident_status \<Rightarrow> incident_status \<Rightarrow> transition_rule option" where
  "findTransitionRule from to =
     List.find (\<lambda>rule. from \<in> set (tr_from rule) \<and> tr_to rule = to) TRANSITION_RULES"

text \<open>\<open>!dto[field]\<close>: absent, null or the empty string.\<close>

fun field_missing :: "transition_dto \<Rightarrow> transition_field \<Rightarrow> bool" where
  "field_missing dto F_toStatus = False"
| "field_missing dto F_reason = (\<not> truthy (td_reason dto))"
| "field_missing dto F_ownerGroupId = (\<not> truthy (coalesce (td_ownerGroupId dto) None))"
| "field_missing dto F_ownerUserId = (\<not> truthy (coalesce (td_ownerUserId dto) None))"
| "field_missing dto F_resolutionCategory = (\<not> truthy (td_resolutionCategory dto))"
| "field_missing dto F_rootCauseSummary = (\<not> truthy (td_rootCauseSummary dto))"

text \<open>The checks of a transition that read nothing but the row, the request and the caller.\<close>

definition check_transition :: "incident \<Rightarrow> transition_dto \<Rightarrow> auth_user \<Rightarrow> http_error + transition_rule" where
  "check_transition inc dto u =
     (case findTransitionRule (i_status inc) (td_toStatus dto) of
        None \<Rightarrow> Inl (BadRequest ''Cannot transition incident'')
      | Some rule \<Rightarrow>
          if au_role u \<notin> set (tr_allowedRoles rule)
          then Inl (Forbidden ''Role cannot perform this transition'')
          else if tr_requiresOwnerOrElevated rule \<and> \<not> isOwnerOrElevated (au_id u) (au_role u) inc
          then Inl (Forbidden ''Only the assigned owner or an elevated role can perform this transition'')
          else if filter (field_missing dto) (tr_requiredFields rule) \<noteq> []
          then Inl (BadRequest ''Missing required field(s)'')
          else (case tr_validate rule of
                  None \<Rightarrow> Inr rule
                | Some f \<Rightarrow> (case f inc dto of
                              None \<Rightarrow> Inr rule
                            | Some msg \<Rightarrow> Inl (BadRequest msg))))"

section \<open>Lemmas\<close>

lemma OPEN_STATUSES_iff: "s \<in> set OPEN_STATUSES \<longleftrightarrow> s \<notin> {RESOLVED, CLOSED, CANCELLED}"
  by (cases s) (simp_all add: OPEN_STATUSES_def)

text \<open>No two rules of the table answer for the same move, so the first match is the only one.\<close>

lemma find_SomeD: "List.find P xs = Some x \<Longrightarrow> x \<in> set xs \<and> P x"
  by (induction xs) (auto split: if_splits)

lemma find_the_only:
  "sorted_wrt (\<lambda>x y. \<not> (P x \<and> P y)) xs \<Longrightarrow> x \<in> set xs \<Longrightarrow> P x \<Longrightarrow> List.find P xs = Some x"
  by (induction xs) auto

lemma rules_disjoint:
  "sorted_wrt (\<lambda>r r'. \<not> ((a \<in> set (tr_from r) \<and> tr_to r = b) \<and> (a \<in> set (tr_from r') \<and> tr_to r' = b)))
     TRANSITION_RULES"
  by (cases b) (auto simp: TRANSITION_RULES_def)

lemma findTransitionRule_Some_iff:
  "findTransitionRule a b = Some r \<longleftrightarrow>
     r \<in> set TRANSITION_RULES \<and> a \<in> set (tr_from r) \<and> tr_to r = b"
  unfolding findTransitionRule_def
  using find_SomeD [where P = "\<lambda>rule. a \<in> set (tr_from rule) \<and> tr_to rule = b"]
    find_the_only [OF rules_disjoint] by blast

text \<open>The graph of the machine: the moves the table allows.\<close>

definition allowed_move :: "incident_status \<Rightarrow> incident_status \<Rightarrow> bool" where
  "allowed_move a b \<longleftrightarrow> findTransitionRule a b \<noteq> None"

lemma allowed_move_code:
  "allowed_move a b \<longleftrightarrow>
     (a, b) \<in> {(NEW, ASSIGNED), (ASSIGNED, ACKNOWLEDGED), (ACKNOWLEDGED, IN_PROGRESS),
       (IN_PROGRESS, PENDING_VENDOR), (IN_PROGRESS, PENDING_CUSTOMER),
       (PENDING_VENDOR, IN_PROGRESS), (PENDING_CUSTOMER, IN_PROGRESS), (IN_PROGRESS, RESOLVED),
       (RESOLVED, CLOSED), (RESOLVED, REOPENED), (REOPENED, IN_PROGRESS)} \<or>
     (a \<in> set OPEN_STATUSES \<and> b = CANCELLED)"
  unfolding allowed_move_def findTransitionRule_def TRANSITION_RULES_def OPEN_STATUSES_def
  by (cases a; cases b; simp)

lemma check_transition_InrD:
  assumes "check_transition inc dto u = Inr r"
  shows "findTransitionRule (i_status inc) (td_toStatus dto) = Some r"
    and "au_role u \<in> set (tr_allowedRoles r)"
    and "tr_requiresOwnerOrElevated r \<Longrightarrow> isOwnerOrElevated (au_id u) (au_role u) inc"
    and "f \<in> set (tr_requiredFields r) \<Longrightarrow> \<not> field_missing dto f"
    and "tr_validate r = Some v \<Longrightarrow> v inc dto = None"
  using assms
  by (auto simp: check_transition_def filter_empty_conv split: option.splits if_splits)

lemma rule_properties:
  "list_all (\<lambda>r. tr_allowedRoles r \<noteq> [] \<and> set (tr_allowedRoles r) \<subseteq>
      {SERVICE_DESK_NOC, SITE_ENGINEER, INFRASTRUCTURE_LEAD, SUPER_ADMIN} \<and>
      (tr_to r = RESOLVED \<longrightarrow> tr_requiredFields r = [F_resolutionCategory, F_rootCauseSummary]
         \<and> tr_requiresOwnerOrElevated r) \<and>
      (tr_to r \<in> {CANCELLED, REOPENED, PENDING_VENDOR, PENDING_CUSTOMER} \<longrightarrow> tr_requiredFields r = [F_reason]))
    TRANSITION_RULES"
  by (simp add: TRANSITION_RULES_def)

text \<open>Both terminal statuses and the one way into each.\<close>

lemma terminal_statuses:
  "\<not> allowed_move CLOSED b" "\<not> allowed_move CANCELLED b"
  "allowed_move a CLOSED \<longleftrightarrow> a = RESOLVED"
  "allowed_move a RESOLVED \<longleftrightarrow> a = IN_PROGRESS"
  "\<not> allowed_move a NEW"
  by (simp_all add: allowed_move_code OPEN_STATUSES_def)

text \<open>A path through the machine and what every path that gets to CLOSED has gone through.\<close>

inductive path :: "incident_status \<Rightarrow> incident_status list \<Rightarrow> incident_status \<Rightarrow> bool" where
  path_nil: "path a [] a"
| path_step: "path a xs b \<Longrightarrow> allowed_move b c \<Longrightarrow> path a (xs @ [c]) c"

inductive_cases path_stepE: "path a (xs @ [c]) b"

text \<open>
  What must have happened on the way to a status, from NEW: an in-progress phase comes after an
  acknowledgement, which comes after an assignment; a resolve comes after the in-progress phase
  and a close after the resolve.
\<close>

fun must_have_passed :: "incident_status \<Rightarrow> incident_status list" where
  "must_have_passed ASSIGNED = [ASSIGNED]"
| "must_have_passed ACKNOWLEDGED = [ASSIGNED, ACKNOWLEDGED]"
| "must_have_passed IN_PROGRESS = [ASSIGNED, ACKNOWLEDGED, IN_PROGRESS]"
| "must_have_passed PENDING_VENDOR = [ASSIGNED, ACKNOWLEDGED, IN_PROGRESS]"
| "must_have_passed PENDING_CUSTOMER = [ASSIGNED, ACKNOWLEDGED, IN_PROGRESS]"
| "must_have_passed RESOLVED = [ASSIGNED, ACKNOWLEDGED, IN_PROGRESS, RESOLVED]"
| "must_have_passed REOPENED = [ASSIGNED, ACKNOWLEDGED, IN_PROGRESS, RESOLVED]"
| "must_have_passed CLOSED = [ASSIGNED, ACKNOWLEDGED, IN_PROGRESS, RESOLVED, CLOSED]"
| "must_have_passed s = []"

lemma must_have_passed_step:
  "allowed_move b c \<Longrightarrow> c \<noteq> CANCELLED \<Longrightarrow>
   must_have_passed c = must_have_passed b \<or> must_have_passed c = must_have_passed b @ [c] \<or>
   (\<exists>zs. must_have_passed b = must_have_passed c @ zs)"
  by (cases b; cases c; simp add: allowed_move_code OPEN_STATUSES_def)

lemma path_passes_aux:
  "path a xs b \<Longrightarrow> a = NEW \<Longrightarrow> b \<noteq> CANCELLED \<Longrightarrow> subseq (must_have_passed b) xs"
proof (induction rule: path.induct)
  case (path_nil a)
  then show ?case by simp
next
  case (path_step a xs b c)
  have nc: "b \<noteq> CANCELLED" using path_step.hyps(2) terminal_statuses(2) by blast
  then have ih: "subseq (must_have_passed b) xs" using path_step by blast
  from must_have_passed_step [OF path_step.hyps(2) path_step.prems(2)]
  show ?case
  proof (elim disjE exE)
    assume "must_have_passed c = must_have_passed b"
    then show ?thesis using ih by (simp add: subseq_rev_drop_many)
  next
    assume "must_have_passed c = must_have_passed b @ [c]"
    then show ?thesis using ih by (simp add: list_emb_append_mono)
  next
    fix zs assume "must_have_passed b = must_have_passed c @ zs"
    then have "subseq (must_have_passed c) (must_have_passed b)" by (simp add: subseq_rev_drop_many)
    then have "subseq (must_have_passed c) xs" using ih by (rule subseq_order.trans)
    then show ?thesis by (rule subseq_rev_drop_many)
  qed
qed

end
