(* ===== verification/Inbox.thy ===== *)
theory Inbox
  imports Access
begin

text \<open>
  The bell list of each user (\<^verbatim>\<open>inbox/inbox.service.ts\<close>), the sound tiers with their cache
  (\<^verbatim>\<open>inbox/notification-sound-rules.service.ts\<close>) and the mail queue
  (\<^verbatim>\<open>common/notifications/notifications.publisher.ts\<close>). Every other component tells people what
  happened through these two doors, after its own commit; both are best-effort, so their frame
  is what the callers rely on: nothing but bells, mail, the uuid counter and the sound cache
  changes.
\<close>

section \<open>Sound tiers\<close>

fun levelForPriority :: "priority \<Rightarrow> nat" where
  "levelForPriority P1 = 1"
| "levelForPriority P2 = 2"
| "levelForPriority P3 = 3"
| "levelForPriority P4 = 4"

fun levelForAlertSeverity :: "alert_severity \<Rightarrow> nat" where
  "levelForAlertSeverity A_CRITICAL = 1"
| "levelForAlertSeverity A_HIGH = 2"
| "levelForAlertSeverity A_WARNING = 3"
| "levelForAlertSeverity A_INFO = 4"

definition SOUND_RULE_CACHE_TTL_MS :: int where
  "SOUND_RULE_CACHE_TTL_MS = 30000"

definition NOTIFICATION_LEVELS :: "nat list" where
  "NOTIFICATION_LEVELS = [1, 2, 3, 4]"

fun DEFAULT_SOUND_RULES :: "bell_kind \<Rightarrow> bell_urgency list" where
  "DEFAULT_SOUND_RULES INCIDENT_CREATED = [U_CRITICAL, U_HIGH, U_NORMAL, U_NORMAL]"
| "DEFAULT_SOUND_RULES INCIDENT_ASSIGNED = [U_CRITICAL, U_HIGH, U_NORMAL, U_NORMAL]"
| "DEFAULT_SOUND_RULES INCIDENT_GROUP_ASSIGNED = [U_CRITICAL, U_HIGH, U_NORMAL, U_NORMAL]"
| "DEFAULT_SOUND_RULES INCIDENT_STATUS_CHANGED = [U_NORMAL, U_NORMAL, U_NORMAL, U_NORMAL]"
| "DEFAULT_SOUND_RULES INCIDENT_COMMENT_ADDED = [U_SILENT, U_SILENT, U_SILENT, U_SILENT]"
| "DEFAULT_SOUND_RULES SLA_WARNING = [U_HIGH, U_HIGH, U_HIGH, U_HIGH]"
| "DEFAULT_SOUND_RULES SLA_BREACHED = [U_CRITICAL, U_CRITICAL, U_CRITICAL, U_CRITICAL]"
| "DEFAULT_SOUND_RULES INCIDENT_OFFERED = [U_HIGH, U_HIGH, U_HIGH, U_HIGH]"
| "DEFAULT_SOUND_RULES INCIDENT_OFFER_UNACCEPTED = [U_CRITICAL, U_CRITICAL, U_CRITICAL, U_CRITICAL]"
| "DEFAULT_SOUND_RULES ALERT_RAISED = [U_CRITICAL, U_HIGH, U_NORMAL, U_NORMAL]"
| "DEFAULT_SOUND_RULES ALERT_RECOVERED = [U_SILENT, U_SILENT, U_SILENT, U_SILENT]"

definition find_sound_rule :: "bell_kind \<Rightarrow> nat \<Rightarrow> sound_rule list \<Rightarrow> sound_rule option" where
  "find_sound_rule kind level rules = find_by (\<lambda>r. (sr_kind r, sr_level r)) (kind, level) rules"

text \<open>The rows, from the cache while it is fresh, else from the table (and cached).\<close>

definition sound_rulesM :: "instant \<Rightarrow> sound_rule list op" where
  "sound_rulesM now = (\<lambda>w.
     let load = (Inr (sound_rules w),
                 w\<lparr>sound_cache := Some (sound_rules w, now + SOUND_RULE_CACHE_TTL_MS)\<rparr>)
     in case sound_cache w of
          Some (rules, expiresAt) \<Rightarrow> (if expiresAt > now then (Inr rules, w) else load)
        | None \<Rightarrow> load)"

definition soundResolve :: "instant \<Rightarrow> bell_kind \<Rightarrow> nat \<Rightarrow> bell_urgency op" where
  "soundResolve now kind level =
     bindM (sound_rulesM now) (\<lambda>rules.
       case find_sound_rule kind level rules of
         Some row \<Rightarrow> ret (sr_urgency row)
       | None \<Rightarrow> ret (DEFAULT_SOUND_RULES kind ! (level - 1)))"

record sound_cell =
  cell_kind :: bell_kind
  cell_level :: nat
  cell_urgency :: bell_urgency
  cell_isDefault :: bool
  cell_updatedAt :: "instant option"

definition all_kinds :: "bell_kind list" where
  "all_kinds = [INCIDENT_CREATED, INCIDENT_ASSIGNED, INCIDENT_GROUP_ASSIGNED, INCIDENT_STATUS_CHANGED,
     INCIDENT_COMMENT_ADDED, SLA_WARNING, SLA_BREACHED, INCIDENT_OFFERED, INCIDENT_OFFER_UNACCEPTED,
     ALERT_RECOVERED, ALERT_RAISED]"

definition sound_cell_of :: "sound_rule list \<Rightarrow> bell_kind \<Rightarrow> nat \<Rightarrow> sound_cell" where
  "sound_cell_of rows kind level =
     (let row = find_sound_rule kind level rows
      in \<lparr>cell_kind = kind, cell_level = level,
          cell_urgency = (case row of Some r \<Rightarrow> sr_urgency r
                          | None \<Rightarrow> DEFAULT_SOUND_RULES kind ! (level - 1)),
          cell_isDefault = (row = None), cell_updatedAt = map_option sr_updatedAt row\<rparr>)"

definition soundList :: "world \<Rightarrow> sound_cell list" where
  "soundList w =
     concat (map (\<lambda>kind. map (sound_cell_of (sound_rules w) kind) NOTIFICATION_LEVELS) all_kinds)"

definition soundSet ::
  "instant \<Rightarrow> bell_kind \<Rightarrow> nat \<Rightarrow> bell_urgency \<Rightarrow> actor_context \<Rightarrow> sound_cell op" where
  "soundSet now kind level urgency actor =
     bindM (transaction
       (bindM (getM (\<lambda>w. find_sound_rule kind level (sound_rules w))) (\<lambda>before.
        bindM (case before of
                 None \<Rightarrow> bindM freshId (\<lambda>i.
                   let r = \<lparr>sr_id = i, sr_kind = kind, sr_level = level, sr_urgency = urgency,
                            sr_updatedAt = now\<rparr>
                   in bindM (modifyM (\<lambda>w. w\<lparr>sound_rules := sound_rules w @ [r]\<rparr>)) (\<lambda>_. ret r))
               | Some b \<Rightarrow>
                   let r = b\<lparr>sr_urgency := urgency, sr_updatedAt := now\<rparr>
                   in bindM (modifyM (\<lambda>w. w\<lparr>sound_rules :=
                        update_by (\<lambda>r. (sr_kind r, sr_level r)) (kind, level)
                          (\<lambda>r. r\<lparr>sr_urgency := urgency, sr_updatedAt := now\<rparr>) (sound_rules w)\<rparr>))
                      (\<lambda>_. ret r)) (\<lambda>after.
        bindM (auditRecord now (Some (actorId actor)) ''NOTIFICATION_SOUND_RULE'' (sr_id after)
                (if before = None then ''NOTIFICATION_SOUND_RULE_CREATED''
                 else ''NOTIFICATION_SOUND_RULE_UPDATED'')
                (Some (SnapSoundRule (case before of
                   Some b \<Rightarrow> b
                 | None \<Rightarrow> \<lparr>sr_id = [], sr_kind = kind, sr_level = level,
                     sr_urgency = DEFAULT_SOUND_RULES kind ! (level - 1), sr_updatedAt = 0\<rparr>)))
                (Some (SnapSoundRule after)) (correlationId actor)) (\<lambda>_.
        ret after))))) (\<lambda>saved.
     bindM (modifyM (\<lambda>w. w\<lparr>sound_cache := None\<rparr>)) (\<lambda>_.
     ret \<lparr>cell_kind = sr_kind saved, cell_level = level, cell_urgency = sr_urgency saved,
          cell_isDefault = False, cell_updatedAt = Some (sr_updatedAt saved)\<rparr>))"

section \<open>Bells\<close>

record bell_input =
  ni_userIds :: "uuid option list"
  ni_kind :: bell_kind
  ni_title :: string
  ni_body :: "string option"
  ni_entityType :: string
  ni_entityId :: uuid
  ni_level :: nat
  ni_dedupeKey :: "string option"
  ni_actorUserId :: "uuid option"

text \<open>\<open>createMany ... skipDuplicates\<close> under the unique index on user and key.\<close>

definition bell_key :: "bell \<Rightarrow> uuid \<times> string" where
  "bell_key b = (b_userId b, b_dedupeKey b)"

definition insert_bell :: "bell \<Rightarrow> bell list \<Rightarrow> bell list" where
  "insert_bell b bs = (if bell_key b \<in> bell_key ` set bs then bs else bs @ [b])"

definition bell_candidates :: "bell_input \<Rightarrow> uuid list" where
  "bell_candidates inp =
     [u. Some u \<leftarrow> ni_userIds inp, u \<noteq> [] \<and> Some u \<noteq> ni_actorUserId inp]"

definition bell_recipients :: "world \<Rightarrow> bell_input \<Rightarrow> uuid list" where
  "bell_recipients w inp =
     map u_id (filter (\<lambda>u. u_id u \<in> set (bell_candidates inp) \<and> u_isActive u) (users w))"

definition create_bell :: "instant \<Rightarrow> bell_input \<Rightarrow> string \<Rightarrow> bell_urgency \<Rightarrow> uuid \<Rightarrow> unit op" where
  "create_bell now inp key urgency r =
     bindM freshId (\<lambda>i.
       modifyM (\<lambda>w. w\<lparr>bells := insert_bell
         \<lparr>b_id = i, b_userId = r, b_kind = ni_kind inp, b_title = ni_title inp, b_body = ni_body inp,
          b_entityType = ni_entityType inp, b_entityId = ni_entityId inp, b_dedupeKey = key,
          b_urgency = urgency, b_readAt = None, b_createdAt = now\<rparr> (bells w)\<rparr>))"

definition notifyUsers :: "instant \<Rightarrow> bell_input \<Rightarrow> unit op" where
  "notifyUsers now inp = swallowM
     (if bell_candidates inp = [] then ret ()
      else bindM (getM (\<lambda>w. bell_recipients w inp)) (\<lambda>recipients.
        if recipients = [] then ret ()
        else bindM (case ni_dedupeKey inp of Some k \<Rightarrow> ret k | None \<Rightarrow> freshId) (\<lambda>key.
          bindM (soundResolve now (ni_kind inp) (ni_level inp)) (\<lambda>urgency.
            forM recipients (create_bell now inp key urgency)))))"

definition DEFAULT_LIST_LIMIT :: int where "DEFAULT_LIST_LIMIT = 20"
definition MAX_LIST_LIMIT :: int where "MAX_LIST_LIMIT = 50"

definition inboxListForUser :: "world \<Rightarrow> auth_user \<Rightarrow> int option \<Rightarrow> bell list \<times> nat" where
  "inboxListForUser w u limit =
     (let n = min (max (option_default DEFAULT_LIST_LIMIT limit) 1) MAX_LIST_LIMIT
      in (take (nat n) (sort_key (\<lambda>b. - b_createdAt b) (filter (\<lambda>b. b_userId b = au_id u) (bells w))),
          length (filter (\<lambda>b. b_userId b = au_id u \<and> b_readAt b = None) (bells w))))"

definition markRead :: "instant \<Rightarrow> uuid \<Rightarrow> auth_user \<Rightarrow> bell op" where
  "markRead now i u =
     bindM (getM (\<lambda>w. List.find (\<lambda>b. b_id b = i \<and> b_userId b = au_id u) (bells w))) (\<lambda>existing.
       case existing of
         None \<Rightarrow> throw (NotFound ''Notification not found'')
       | Some b \<Rightarrow>
           if b_readAt b \<noteq> None then ret b
           else bindM (modifyM (\<lambda>w. w\<lparr>bells := update_by b_id i (\<lambda>b. b\<lparr>b_readAt := Some now\<rparr>) (bells w)\<rparr>))
                  (\<lambda>_. ret (b\<lparr>b_readAt := Some now\<rparr>)))"

definition markAllRead :: "instant \<Rightarrow> auth_user \<Rightarrow> nat op" where
  "markAllRead now u = (\<lambda>w.
     (Inr (length (filter (\<lambda>b. b_userId b = au_id u \<and> b_readAt b = None) (bells w))),
      w\<lparr>bells := map (\<lambda>b. if b_userId b = au_id u \<and> b_readAt b = None
                          then b\<lparr>b_readAt := Some now\<rparr> else b) (bells w)\<rparr>))"

definition DEFAULT_RETENTION_DAYS :: int where "DEFAULT_RETENTION_DAYS = 90"

text \<open>
  The setting is unset or empty (\<open>None\<close>), or what \<open>Number\<close> makes of it: not a whole number
  (\<open>Some None\<close>) or one.
\<close>

definition retentionDays :: "int option option \<Rightarrow> int" where
  "retentionDays raw =
     (let days = (case raw of None \<Rightarrow> Some DEFAULT_RETENTION_DAYS | Some n \<Rightarrow> n)
      in case days of
           None \<Rightarrow> DEFAULT_RETENTION_DAYS
         | Some d \<Rightarrow> (if d < 1 then DEFAULT_RETENTION_DAYS else d))"

definition purgeExpired :: "int option option \<Rightarrow> instant \<Rightarrow> nat op" where
  "purgeExpired raw now = (\<lambda>w.
     let cutoff = now - retentionDays raw * 24 * 60 * 60 * 1000
     in (Inr (length (filter (\<lambda>b. b_createdAt b < cutoff) (bells w))),
         w\<lparr>bells := filter (\<lambda>b. \<not> b_createdAt b < cutoff) (bells w)\<rparr>))"

section \<open>Mail\<close>

text \<open>
  \<open>enqueue\<close> hands the job to the queue when Redis is there and is silent otherwise. An undefined
  or empty job id is not passed on.
\<close>

definition enqueue :: "string \<Rightarrow> string \<Rightarrow> string \<Rightarrow> party list \<Rightarrow> party list \<Rightarrow> string option \<Rightarrow> unit op" where
  "enqueue queue kind key to cc jobId = modifyM (\<lambda>w.
     if env_redis (env w)
     then w\<lparr>outbox := outbox w @ [\<lparr>mj_queue = queue, mj_kind = kind, mj_entityKey = key,
              mj_to = to, mj_cc = cc, mj_jobId = (if truthy jobId then jobId else None)\<rparr>]\<rparr>
     else w)"

definition party_of :: "user \<Rightarrow> party" where
  "party_of u = \<lparr>p_name = u_displayName u, p_email = u_email u\<rparr>"

section \<open>Frame\<close>

text \<open>The world without the parts that telling people may change.\<close>

definition committed :: "world \<Rightarrow> world" where
  "committed w = w\<lparr>bells := [], uuid_next := 0, sound_cache := None, outbox := []\<rparr>"

lemma committed_field: "(\<And>w. f (committed w) = f w) \<Longrightarrow> committed w' = committed w \<Longrightarrow> f w' = f w"
  by metis

lemma committed_simps [simp]:
  "incidents (committed w) = incidents w" "events (committed w) = events w"
  "audits (committed w) = audits w" "sla_instances (committed w) = sla_instances w"
  "sla_policies (committed w) = sla_policies w" "comments (committed w) = comments w"
  "offers (committed w) = offers w" "alerts (committed w) = alerts w" "users (committed w) = users w"
  "env (committed w) = env w" "emitted (committed w) = emitted w"
  "site_accesses (committed w) = site_accesses w" "attachments (committed w) = attachments w"
  "incident_no_seq (committed w) = incident_no_seq w" "policies (committed w) = policies w"
  "sites (committed w) = sites w"
  by (simp_all add: committed_def)

text \<open>An action that only tells people leaves every other table, and both logs, alone.\<close>

lemma keeps_committedD:
  assumes "keeps committed m" "\<And>w. f (committed w) = f w"
  shows "keeps f m"
  by (rule keeps_part [OF assms(1), of f f]) (simp add: assms(2))

lemma appends_keeps: "keeps log m \<Longrightarrow> appends log m"
  by (simp add: keeps_def appends_def)

lemma keeps_freshId: "keeps committed freshId"
  by (simp add: keeps_def committed_def)

lemma keeps_sound_rulesM: "keeps committed (sound_rulesM now)"
  by (auto simp: keeps_def committed_def sound_rulesM_def Let_def split: option.splits)

lemma keeps_create_bell: "keeps committed (create_bell now inp key urgency r)"
  by (simp add: keeps_def create_bell_def committed_def)

lemma keeps_notifyUsers [keeps_intros]: "keeps committed (notifyUsers now inp)"
  unfolding notifyUsers_def soundResolve_def
  by (intro keeps_intros keeps_freshId keeps_sound_rulesM keeps_create_bell)

lemma keeps_enqueue [keeps_intros]: "keeps committed (enqueue q k e to cc j)"
  by (simp add: keeps_def enqueue_def committed_def)

section \<open>Who is told\<close>

definition bells_unique :: "world \<Rightarrow> bool" where
  "bells_unique w \<longleftrightarrow> distinct (map bell_key (bells w))"

lemma insert_bell_distinct: "distinct (map bell_key bs) \<Longrightarrow> distinct (map bell_key (insert_bell b bs))"
  by (auto simp: insert_bell_def)

lemma insert_bell_keys: "bell_key ` set (insert_bell b bs) = insert (bell_key b) (bell_key ` set bs)"
  by (auto simp: insert_bell_def)

text \<open>
  The loop of \<open>createMany\<close> over its recipients: the keys it adds, that the index stays unique and
  that old bells stay as they are.
\<close>

lemma create_bells:
  "\<exists>w'. forM rs (create_bell now inp key urg) w = (Inr (), w') \<and>
     bell_key ` set (bells w') = (\<lambda>r. (r, key)) ` set rs \<union> bell_key ` set (bells w) \<and>
     (distinct (map bell_key (bells w)) \<longrightarrow> distinct (map bell_key (bells w'))) \<and>
     prefix (bells w) (bells w') \<and>
     (set rs \<times> {key} \<subseteq> bell_key ` set (bells w) \<longrightarrow> bells w' = bells w)"
proof (induction rs arbitrary: w)
  case Nil
  then show ?case by simp
next
  case (Cons r rs)
  define w1 where "w1 = snd (create_bell now inp key urg r w)"
  define b where "b = \<lparr>b_id = env_uuid (env w) (uuid_next w), b_userId = r, b_kind = ni_kind inp,
    b_title = ni_title inp, b_body = ni_body inp, b_entityType = ni_entityType inp,
    b_entityId = ni_entityId inp, b_dedupeKey = key, b_urgency = urg, b_readAt = None,
    b_createdAt = now\<rparr>"
  have step: "create_bell now inp key urg r w = (Inr (), w1)"
    and bw1: "bells w1 = insert_bell b (bells w)" and kb: "bell_key b = (r, key)"
    by (simp_all add: w1_def create_bell_def b_def bell_key_def)
  have pre: "prefix (bells w) (bells w1)" by (simp add: bw1 insert_bell_def)
  from Cons.IH [of w1] obtain w' where
    w': "forM rs (create_bell now inp key urg) w1 = (Inr (), w')"
      "bell_key ` set (bells w') = (\<lambda>r. (r, key)) ` set rs \<union> bell_key ` set (bells w1)"
      "distinct (map bell_key (bells w1)) \<longrightarrow> distinct (map bell_key (bells w'))"
      "prefix (bells w1) (bells w')"
      "set rs \<times> {key} \<subseteq> bell_key ` set (bells w1) \<longrightarrow> bells w' = bells w1" by blast
  have run: "forM (r # rs) (create_bell now inp key urg) w = (Inr (), w')"
    using step w'(1) by (simp add: bindM_def)
  moreover have "bell_key ` set (bells w') = (\<lambda>r. (r, key)) ` set (r # rs) \<union> bell_key ` set (bells w)"
    using w'(2) by (simp add: bw1 insert_bell_keys kb)
  moreover have "distinct (map bell_key (bells w)) \<longrightarrow> distinct (map bell_key (bells w'))"
    using w'(3) insert_bell_distinct bw1 by simp
  moreover have "prefix (bells w) (bells w')" using pre w'(4) by (rule prefix_order.trans)
  moreover have "set (r # rs) \<times> {key} \<subseteq> bell_key ` set (bells w) \<longrightarrow> bells w' = bells w"
    using w'(5) by (auto simp: bw1 insert_bell_def kb)
  ultimately show ?case by blast
qed

lemma sound_rulesM_eval:
  "\<exists>rs c. sound_rulesM now w = (Inr rs, w\<lparr>sound_cache := c\<rparr>)"
proof -
  have "\<exists>c. w = w\<lparr>sound_cache := c\<rparr>" by (rule exI [of _ "sound_cache w"]) simp
  then show ?thesis by (auto simp: sound_rulesM_def Let_def split: option.splits)
qed

lemma soundResolve_eval: "\<exists>u c. soundResolve now k l w = (Inr u, w\<lparr>sound_cache := c\<rparr>)"
proof -
  obtain rs c where "sound_rulesM now w = (Inr rs, w\<lparr>sound_cache := c\<rparr>)"
    using sound_rulesM_eval by blast
  then show ?thesis
    by (cases "find_sound_rule k l rs") (auto simp: soundResolve_def bindM_def)
qed

text \<open>A notification with a key, evaluated: nothing happens or the loop above runs.\<close>

lemma notifyUsers_keyed:
  assumes "ni_dedupeKey inp = Some key"
  shows "\<exists>w'. notifyUsers now inp w = (Inr (), w') \<and>
     bell_key ` set (bells w') = (\<lambda>r. (r, key)) ` set (bell_recipients w inp) \<union> bell_key ` set (bells w) \<and>
     (bells_unique w \<longrightarrow> bells_unique w') \<and> prefix (bells w) (bells w') \<and>
     (set (bell_recipients w inp) \<times> {key} \<subseteq> bell_key ` set (bells w) \<longrightarrow> bells w' = bells w)"
proof (cases "bell_candidates inp = [] \<or> bell_recipients w inp = []")
  case True
  then have "bell_recipients w inp = []" by (auto simp: bell_recipients_def)
  moreover from True have "notifyUsers now inp w = (Inr (), w)" by (auto simp: notifyUsers_def)
  ultimately show ?thesis by simp
next
  case False
  obtain u c where s: "soundResolve now (ni_kind inp) (ni_level inp) w = (Inr u, w\<lparr>sound_cache := c\<rparr>)"
    using soundResolve_eval by blast
  from create_bells [of "bell_recipients w inp" now inp key u "w\<lparr>sound_cache := c\<rparr>"]
  obtain w' where w':
    "forM (bell_recipients w inp) (create_bell now inp key u) (w\<lparr>sound_cache := c\<rparr>) = (Inr (), w')"
    "bell_key ` set (bells w') = (\<lambda>r. (r, key)) ` set (bell_recipients w inp) \<union> bell_key ` set (bells w)"
    "distinct (map bell_key (bells w)) \<longrightarrow> distinct (map bell_key (bells w'))"
    "prefix (bells w) (bells w')"
    "set (bell_recipients w inp) \<times> {key} \<subseteq> bell_key ` set (bells w) \<longrightarrow> bells w' = bells w" by auto
  have "notifyUsers now inp w = (Inr (), w')"
    using False assms s w'(1) by (simp add: notifyUsers_def bindM_def)
  then show ?thesis using w' by (auto simp: bells_unique_def)
qed

lemma bell_recipients_iff:
  "r \<in> set (bell_recipients w inp) \<longleftrightarrow>
     Some r \<in> set (ni_userIds inp) \<and> r \<noteq> [] \<and> ni_actorUserId inp \<noteq> Some r \<and>
     (\<exists>u \<in> set (users w). u_id u = r \<and> u_isActive u)"
  by (auto simp: bell_recipients_def bell_candidates_def)

end
