(* ===== verification/Incident_Notices.thy ===== *)
theory Incident_Notices
  imports Inbox
begin

text \<open>
  Who is told about what happens to a ticket: the best-effort notification methods of
  \<^verbatim>\<open>incidents/incidents.service.ts\<close> (from \<open>toEntityRef\<close> on). All of them run after the commit
  that they report and swallow what goes wrong, so all they may change is bells, mail, the uuid
  counter and the sound cache.
\<close>

definition service_desk :: "world \<Rightarrow> user list" where
  "service_desk w = filter (\<lambda>u. u_isActive u \<and> u_role u = SERVICE_DESK_NOC) (users w)"

definition has_email :: "user \<Rightarrow> bool" where
  "has_email u \<longleftrightarrow> u_email u \<noteq> []"

fun priority_str :: "priority \<Rightarrow> string" where
  "priority_str P1 = ''P1''"
| "priority_str P2 = ''P2''"
| "priority_str P3 = ''P3''"
| "priority_str P4 = ''P4''"

definition mail :: "string \<Rightarrow> incident \<Rightarrow> party list \<Rightarrow> party list \<Rightarrow> string option \<Rightarrow> unit op" where
  "mail kind inc to cc jobId = enqueue ''notifications'' kind (i_incidentNo inc) to cc jobId"

definition incident_bell ::
  "uuid option list \<Rightarrow> uuid option \<Rightarrow> bell_kind \<Rightarrow> string \<Rightarrow> string \<Rightarrow> incident \<Rightarrow> string \<Rightarrow> bell_input" where
  "incident_bell userIds actor kind title body inc key =
     \<lparr>ni_userIds = userIds, ni_kind = kind, ni_title = title, ni_body = Some body,
      ni_entityType = ''INCIDENT'', ni_entityId = i_id inc, ni_level = levelForPriority (i_priority inc),
      ni_dedupeKey = Some key, ni_actorUserId = actor\<rparr>"

definition partyFor :: "user list \<Rightarrow> uuid option \<Rightarrow> party option" where
  "partyFor us i =
     (if \<not> truthy i then None
      else case List.find (\<lambda>u. u_id u = the i) us of
        None \<Rightarrow> None
      | Some u \<Rightarrow> if has_email u then Some (party_of u) else None)"

definition notifyServiceDeskOfNewIncident :: "instant \<Rightarrow> incident \<Rightarrow> uuid \<Rightarrow> unit op" where
  "notifyServiceDeskOfNewIncident now inc actor = swallowM
     (bindM (getM service_desk) (\<lambda>roster.
      bindM (notifyUsers now (incident_bell (map (\<lambda>u. Some (u_id u)) roster) (Some actor)
        INCIDENT_CREATED (''New ticket '' @ i_incidentNo inc @ '' ('' @ priority_str (i_priority inc) @ '')'')
        (i_shortDescription inc) inc (''created:'' @ i_id inc))) (\<lambda>_.
      let to = map party_of (filter has_email roster)
      in if to = [] then ret ()
         else mail ''INCIDENT_CREATED'' inc to [] (Some (''INCIDENT_CREATED:'' @ i_id inc @ '':new'')))))"

definition notifyAssignment :: "instant \<Rightarrow> incident \<Rightarrow> uuid option \<Rightarrow> uuid option \<Rightarrow> unit op" where
  "notifyAssignment now inc owner actor = swallowM
     (bindM (notifyUsers now (incident_bell [owner] actor INCIDENT_ASSIGNED
        (i_incidentNo inc @ '' assigned to you'') (i_shortDescription inc) inc
        (''assigned:'' @ i_id inc @ '':'' @ option_default ''null'' owner @ '':'' @ int_str (i_updatedAt inc)))) (\<lambda>_.
      case owner of
        None \<Rightarrow> throw (Internal ''findUnique without an id'')
      | Some o' \<Rightarrow>
          bindM (getM (\<lambda>w. find_by u_id o' (users w))) (\<lambda>assignee.
            case assignee of
              None \<Rightarrow> ret ()
            | Some u \<Rightarrow>
                if \<not> has_email u then ret ()
                else mail ''INCIDENT_ASSIGNED'' inc [party_of u] []
                       (Some (''INCIDENT_ASSIGNED:'' @ i_id inc @ '':'' @ o')))))"

definition group_users :: "world \<Rightarrow> uuid \<Rightarrow> user list" where
  "group_users w g =
     [u. m \<leftarrow> members w, gm_groupId m = g, u \<leftarrow> users w, u_id u = gm_userId m]"

definition notifyGroupAssignment :: "instant \<Rightarrow> incident \<Rightarrow> uuid \<Rightarrow> uuid option \<Rightarrow> unit op" where
  "notifyGroupAssignment now inc g actor = swallowM
     (bindM (getM (\<lambda>w. (find_by g_id g (groups w), group_users w g))) (\<lambda>(grp, us).
      case grp of
        None \<Rightarrow> ret ()
      | Some gr \<Rightarrow>
          bindM (notifyUsers now (incident_bell (map (\<lambda>u. Some (u_id u)) us) actor INCIDENT_GROUP_ASSIGNED
            (i_incidentNo inc @ '' assigned to '' @ g_name gr) (i_shortDescription inc) inc
            (''group:'' @ i_id inc @ '':'' @ g @ '':'' @ int_str (i_updatedAt inc)))) (\<lambda>_.
          let to = map party_of (filter (\<lambda>u. u_isActive u \<and> has_email u) us)
          in if to = [] then ret ()
             else mail ''INCIDENT_GROUP_ASSIGNED'' inc to []
                    (Some (''INCIDENT_GROUP_ASSIGNED:'' @ i_id inc @ '':'' @ g)))))"

definition notifyStatusChange ::
  "instant \<Rightarrow> incident \<Rightarrow> incident \<Rightarrow> string option \<Rightarrow> uuid option \<Rightarrow> unit op" where
  "notifyStatusChange now before after reason actor = swallowM
     (let ids = filter truthy [i_ownerUserId after, i_reportedByUserId after]
      in if ids = [] then ret ()
         else bindM (notifyUsers now (incident_bell ids actor INCIDENT_STATUS_CHANGED
                (i_incidentNo after @ '': '' @ status_str (i_status before) @ '' -> '' @ status_str (i_status after))
                (option_default (i_shortDescription after) reason) after
                (''status:'' @ i_id after @ '':'' @ status_str (i_status after) @ '':'' @ int_str (i_updatedAt after)))) (\<lambda>_.
         bindM (getM (\<lambda>w. filter (\<lambda>u. Some (u_id u) \<in> set ids) (users w))) (\<lambda>us.
         let owner = partyFor us (i_ownerUserId after);
             customer = partyFor us (i_reportedByUserId after);
             to = (case owner of Some p \<Rightarrow> [p] | None \<Rightarrow> (case customer of Some p \<Rightarrow> [p] | None \<Rightarrow> []))
         in if to = [] then ret ()
            else mail ''INCIDENT_STATUS_CHANGED'' after to
                   (case (owner, customer) of (Some _, Some c) \<Rightarrow> [c] | _ \<Rightarrow> []) None)))"

definition comment_preview :: "string \<Rightarrow> string" where
  "comment_preview body = (if length body > 200 then take 199 body @ ''...'' else body)"

definition notifyComment :: "instant \<Rightarrow> incident \<Rightarrow> incident_comment \<Rightarrow> auth_user \<Rightarrow> unit op" where
  "notifyComment now inc comment author = swallowM
     (let recipient = (if au_role author = CLIENT_MANAGER_VIEWER then i_ownerUserId inc
                       else if c_isInternal comment then None else i_reportedByUserId inc)
      in if \<not> truthy recipient then ret ()
         else bindM (notifyUsers now (incident_bell [recipient] (Some (au_id author)) INCIDENT_COMMENT_ADDED
                (''New comment on '' @ i_incidentNo inc) (comment_preview (c_body comment)) inc
                (''comment:'' @ c_id comment))) (\<lambda>_.
         bindM (getM (\<lambda>w. find_by u_id (the recipient) (users w))) (\<lambda>r.
         case r of
           None \<Rightarrow> ret ()
         | Some u \<Rightarrow> if \<not> has_email u then ret ()
                     else mail ''INCIDENT_COMMENT_ADDED'' inc [party_of u] [] None)))"

definition notifyAlertRecoveredEmail :: "incident \<Rightarrow> uuid \<Rightarrow> unit op" where
  "notifyAlertRecoveredEmail inc alertId = swallowM
     (if \<not> truthy (i_ownerUserId inc) then ret ()
      else bindM (getM (\<lambda>w. find_by u_id (the (i_ownerUserId inc)) (users w))) (\<lambda>owner.
        case owner of
          None \<Rightarrow> ret ()
        | Some u \<Rightarrow> if \<not> has_email u then ret ()
                    else mail ''INCIDENT_ALERT_RECOVERED_AFTER_RESOLVE'' inc [party_of u] []
                           (Some (''INCIDENT_ALERT_RECOVERED_AFTER_RESOLVE:'' @ i_id inc @ '':'' @ alertId))))"

text \<open>Who hears that monitoring cleared an alert of a ticket that is still open.\<close>

definition recovered_audience :: "world \<Rightarrow> incident \<Rightarrow> uuid list" where
  "recovered_audience w inc =
     (if truthy (i_ownerUserId inc) then [the (i_ownerUserId inc)]
      else if truthy (i_ownerGroupId inc)
      then map gm_userId (filter (\<lambda>m. gm_groupId m = the (i_ownerGroupId inc)) (members w))
      else map u_id (service_desk w))"

definition notifyRecoveredBell :: "instant \<Rightarrow> incident \<Rightarrow> uuid \<Rightarrow> string \<Rightarrow> unit op" where
  "notifyRecoveredBell now inc alertId alertType = swallowM
     (bindM (getM (\<lambda>w. recovered_audience w inc)) (\<lambda>userIds.
      notifyUsers now (incident_bell (map Some userIds) None ALERT_RECOVERED
        (''Monitoring reports '' @ alertType @ '' cleared on '' @ i_incidentNo inc)
        ''Confirm the fix and resolve the ticket if nothing else is wrong.'' inc
        (''alert-recovered:'' @ alertId))))"

section \<open>Frame\<close>

lemma keeps_mail: "keeps committed (mail k i to cc j)"
  unfolding mail_def by (rule keeps_enqueue)

lemmas notice_defs = notifyServiceDeskOfNewIncident_def notifyAssignment_def notifyGroupAssignment_def
  notifyStatusChange_def notifyComment_def notifyAlertRecoveredEmail_def notifyRecoveredBell_def

lemma keeps_notices [keeps_intros]:
  "keeps committed (notifyServiceDeskOfNewIncident now i a)"
  "keeps committed (notifyAssignment now i ow x)"
  "keeps committed (notifyGroupAssignment now i g x)"
  "keeps committed (notifyStatusChange now i i' r x)"
  "keeps committed (notifyComment now i c u)"
  "keeps committed (notifyAlertRecoveredEmail i al)"
  "keeps committed (notifyRecoveredBell now i al at)"
  unfolding notice_defs by (intro keeps_intros keeps_mail)+

lemma swallow_returns: "fst (swallowM m w) = Inr ()"
  by simp

text \<open>None of them can fail the request: they return, whatever happens inside.\<close>

lemma notice_returns:
  "fst (notifyServiceDeskOfNewIncident now i a w) = Inr ()"
  "fst (notifyAssignment now i ow x w) = Inr ()"
  "fst (notifyGroupAssignment now i g x w) = Inr ()"
  "fst (notifyStatusChange now i i' r x w) = Inr ()"
  "fst (notifyComment now i c u w) = Inr ()"
  "fst (notifyAlertRecoveredEmail i al w) = Inr ()"
  "fst (notifyRecoveredBell now i al at w) = Inr ()"
  unfolding notice_defs by (rule swallow_returns)+

end
