(* ===== verification/Calendar.thy ===== *)
theory Calendar
  imports Schema
begin

text \<open>
  Business time (\<^verbatim>\<open>sla/calendar.util.ts\<close>): adding minutes to an instant while counting only the
  minutes inside a site's support window. luxon's zone arithmetic is the \<open>zone\<close> parameter; the
  locales state what the code relies on of it, and are interpreted on the zones with a fixed
  offset. The walk is compared with the amount of business time between two instants, defined
  independently as a sum over days.
\<close>

section \<open>The code\<close>

definition MAX_WALK_DAYS :: nat where
  "MAX_WALK_DAYS = 366"

text \<open>
  \<open>value.split(":").map(Number)\<close> on two groups of digits. The columns are written through a
  pattern that admits nothing else; any other string has no reading here.
\<close>

definition digit_value :: "char \<Rightarrow> nat option" where
  "digit_value c = (let n = of_char c :: nat in if 48 \<le> n \<and> n \<le> 57 then Some (n - 48) else None)"

fun number_from :: "nat \<Rightarrow> string \<Rightarrow> nat option" where
  "number_from acc [] = Some acc"
| "number_from acc (c # cs) = (case digit_value c of None \<Rightarrow> None | Some d \<Rightarrow> number_from (10 * acc + d) cs)"

definition number_of :: "string \<Rightarrow> nat option" where
  "number_of s = (if s = [] then None else number_from 0 s)"

definition parseClock :: "string \<Rightarrow> (nat \<times> nat) option" where
  "parseClock s =
     (case number_of (takeWhile (\<lambda>c. c \<noteq> CHR '':'') s) of
        None \<Rightarrow> None
      | Some h \<Rightarrow> (case dropWhile (\<lambda>c. c \<noteq> CHR '':'') s of
                    [] \<Rightarrow> None
                  | _ # rest \<Rightarrow> (case number_of (takeWhile (\<lambda>c. c \<noteq> CHR '':'') rest) of
                                   None \<Rightarrow> None
                                 | Some m \<Rightarrow> Some (h, m))))"

definition clock_minutes :: "nat \<times> nat \<Rightarrow> int" where
  "clock_minutes hm = int (fst hm) * 60 + int (snd hm)"

definition parseWindow :: "support_calendar \<Rightarrow> http_error + (nat \<times> nat) \<times> (nat \<times> nat)" where
  "parseWindow cal =
     (case (parseClock (cal_businessStart cal), parseClock (cal_businessEnd cal)) of
        (Some s, Some e) \<Rightarrow>
          (if cal_workdays cal = [] \<or> clock_minutes e - clock_minutes s \<le> 0
           then Inl (Internal ''Support calendar has no usable business window'')
           else Inr (s, e))
      | _ \<Rightarrow> Inl (Internal ''Support calendar has no usable business window''))"

fun snapToWindow ::
  "nat \<Rightarrow> zone \<Rightarrow> nat list \<Rightarrow> int list \<Rightarrow> nat \<times> nat \<Rightarrow> nat \<times> nat \<Rightarrow> instant \<Rightarrow> instant option" where
  "snapToWindow 0 z workdays holidays s e cursor = None"
| "snapToWindow (Suc i) z workdays holidays s e cursor =
     (let isWorkday = z_weekday z cursor mod 7 \<in> set workdays;
          isHoliday = z_date z cursor \<in> set holidays;
          windowStart = z_set z cursor (fst s) (snd s);
          windowEnd = z_set z cursor (fst e) (snd e)
      in if isWorkday \<and> \<not> isHoliday \<and> cursor < windowStart then Some windowStart
         else if isWorkday \<and> \<not> isHoliday \<and> cursor < windowEnd then Some cursor
         else snapToWindow i z workdays holidays s e (z_nextDay z cursor))"

definition no_window :: http_error where
  "no_window = Internal ''Could not find a business window within a year''"

text \<open>
  The loop of the walk. Nothing in the code bounds its number of rounds; a round that is not the
  last takes at least a minute off, except perhaps the first, so the fuel below suffices for every
  zone that obeys the laws (proved below). Running out of it stands for not returning.
\<close>

fun walk ::
  "nat \<Rightarrow> zone \<Rightarrow> nat list \<Rightarrow> int list \<Rightarrow> nat \<times> nat \<Rightarrow> nat \<times> nat \<Rightarrow> int \<Rightarrow> instant \<Rightarrow>
   http_error + instant" where
  "walk 0 z workdays holidays s e remaining cursor =
     (if remaining > 0 then Inl (Internal ''does not return'') else Inr cursor)"
| "walk (Suc fuel) z workdays holidays s e remaining cursor =
     (if remaining > 0 then
        (let windowEnd = z_set z cursor (fst e) (snd e);
             minutesLeftToday = (windowEnd - cursor) div 60000
         in if remaining \<le> minutesLeftToday then Inr (cursor + remaining * 60000)
            else (case snapToWindow MAX_WALK_DAYS z workdays holidays s e (z_nextDay z cursor) of
                    None \<Rightarrow> Inl no_window
                  | Some c \<Rightarrow> walk fuel z workdays holidays s e (remaining - minutesLeftToday) c))
      else Inr cursor)"

definition addBusinessMinutes ::
  "support_calendar option \<Rightarrow> zone \<Rightarrow> instant \<Rightarrow> int \<Rightarrow> http_error + instant" where
  "addBusinessMinutes calendar z from minutes =
     (if minutes < 0 then Inl (Internal ''minutes must not be negative'')
      else case calendar of
        None \<Rightarrow> Inr (from + minutes * 60000)
      | Some cal \<Rightarrow>
          (if cal_is247 cal then Inr (from + minutes * 60000)
           else case parseWindow cal of
             Inl err \<Rightarrow> Inl err
           | Inr (s, e) \<Rightarrow>
               (let holidays = map (z_date z) (cal_holidays cal)
                in case snapToWindow MAX_WALK_DAYS z (cal_workdays cal) holidays s e from of
                     None \<Rightarrow> Inl no_window
                   | Some c \<Rightarrow> walk (nat minutes + 1) z (cal_workdays cal) holidays s e minutes c)))"

declare snapToWindow.simps(2) [simp del]
declare walk.simps(2) [simp del]

section \<open>What the code relies on of a zone\<close>

text \<open>
  A zone cuts time into local days, numbered by their date; \<open>day0 d\<close> is the first instant of day
  \<open>d\<close> and \<open>wall d h m\<close> the instant its clock shows a time. Day 0, 1970-01-01, is a Thursday.
\<close>

locale local_zone =
  fixes z :: zone and day0 :: "int \<Rightarrow> instant" and wall :: "int \<Rightarrow> nat \<Rightarrow> nat \<Rightarrow> instant"
  assumes date_iff: "z_date z t = d \<longleftrightarrow> day0 d \<le> t \<and> t < day0 (d + 1)"
    and nextDay: "z_nextDay z t = day0 (z_date z t + 1)"
    and set_wall: "z_set z t h m = wall (z_date z t) h m"
    and wall_day: "h < 24 \<Longrightarrow> m < 60 \<Longrightarrow> day0 d \<le> wall d h m \<and> wall d h m < day0 (d + 1)"
    and weekday_date: "z_weekday z t mod 7 = nat ((z_date z t + 4) mod 7)"

text \<open>
  A business window of a zone: a clock change, if the zone has any, falls outside it, so the
  window is as long in real time as on the clock, every day.
\<close>

locale window_zone = local_zone +
  fixes s e :: "nat \<times> nat"
  assumes clock_range: "fst s < 24" "snd s < 60" "fst e < 24" "snd e < 60"
    and window_pos: "clock_minutes s < clock_minutes e"
    and window_length: "wall d (fst e) (snd e) - wall d (fst s) (snd s) =
          (clock_minutes e - clock_minutes s) * 60000"

section \<open>The amount of business time\<close>

definition business_day :: "nat list \<Rightarrow> int list \<Rightarrow> int \<Rightarrow> bool" where
  "business_day workdays holidays d \<longleftrightarrow> nat ((d + 4) mod 7) \<in> set workdays \<and> d \<notin> set holidays"

definition overlap :: "int \<Rightarrow> int \<Rightarrow> int \<Rightarrow> int \<Rightarrow> int" where
  "overlap a b p q = max 0 (min b q - max a p)"

definition busy_on ::
  "nat list \<Rightarrow> int list \<Rightarrow> (int \<Rightarrow> instant) \<Rightarrow> (int \<Rightarrow> instant) \<Rightarrow> instant \<Rightarrow> instant \<Rightarrow> int \<Rightarrow> int" where
  "busy_on workdays holidays ws we a b d =
     (if business_day workdays holidays d then overlap a b (ws d) (we d) else 0)"

text \<open>The milliseconds between \<open>a\<close> and \<open>b\<close> that lie inside a window of a business day.\<close>

definition business_ms ::
  "zone \<Rightarrow> (int \<Rightarrow> nat \<Rightarrow> nat \<Rightarrow> instant) \<Rightarrow> nat list \<Rightarrow> int list \<Rightarrow> nat \<times> nat \<Rightarrow> nat \<times> nat \<Rightarrow>
   instant \<Rightarrow> instant \<Rightarrow> int" where
  "business_ms z wall workdays holidays s e a b =
     (\<Sum>d \<in> {z_date z a .. z_date z b}.
        busy_on workdays holidays (\<lambda>d. wall d (fst s) (snd s)) (\<lambda>d. wall d (fst e) (snd e)) a b d)"

text \<open>Every day has a business day among the 365 that follow it.\<close>

definition often_open :: "nat list \<Rightarrow> int list \<Rightarrow> bool" where
  "often_open wd hol \<longleftrightarrow> (\<forall>d. \<exists>k < 365. business_day wd hol (d + 1 + int k))"

context local_zone
begin

lemma date_bounds: "day0 (z_date z t) \<le> t" "t < day0 (z_date z t + 1)"
  using date_iff [of t "z_date z t"] by simp_all

lemma day0_step: "day0 d < day0 (d + 1)"
  using wall_day [of 0 0 d] by linarith

lemma day0_strict: "d < d' \<Longrightarrow> day0 d < day0 d'"
proof (induction "nat (d' - d)" arbitrary: d)
  case (Suc n)
  show ?case
  proof (cases "d + 1 = d'")
    case True
    then show ?thesis using day0_step [of d] by simp
  next
    case False
    then have "d + 1 < d'" "n = nat (d' - (d + 1))" using Suc by auto
    then have "day0 (d + 1) < day0 d'" using Suc.hyps(1) by blast
    then show ?thesis using day0_step [of d] by linarith
  qed
qed simp

lemma day0_mono: "d \<le> d' \<Longrightarrow> day0 d \<le> day0 d'"
  using day0_strict [of d d'] by (cases "d = d'") auto

lemma date_mono: "a \<le> b \<Longrightarrow> z_date z a \<le> z_date z b"
proof (rule ccontr)
  assume "a \<le> b" "\<not> z_date z a \<le> z_date z b"
  then have "day0 (z_date z b + 1) \<le> day0 (z_date z a)" by (intro day0_mono) simp
  then show False using date_bounds [of a] date_bounds [of b] \<open>a \<le> b\<close> by linarith
qed

lemma date_day0 [simp]: "z_date z (day0 d) = d"
  using day0_step by (simp add: date_iff)

lemma date_nextDay [simp]: "z_date z (z_nextDay z t) = z_date z t + 1"
  by (simp add: nextDay)

lemma nextDay_less: "t < z_nextDay z t"
  using date_bounds(2) by (simp add: nextDay)

end

context window_zone
begin

definition ws :: "int \<Rightarrow> instant" where "ws d = wall d (fst s) (snd s)"
definition we :: "int \<Rightarrow> instant" where "we d = wall d (fst e) (snd e)"

lemma window_day: "day0 d \<le> ws d" "ws d < we d" "we d < day0 (d + 1)"
  using wall_day [of "fst s" "snd s" d] wall_day [of "fst e" "snd e" d] clock_range
    window_length [of d] window_pos by (auto simp: ws_def we_def)

lemma window_exact: "we d - ws d = (clock_minutes e - clock_minutes s) * 60000"
  using window_length by (simp add: ws_def we_def)

lemma date_window: "ws d \<le> t \<Longrightarrow> t \<le> we d \<Longrightarrow> z_date z t = d"
  using window_day [of d] by (simp add: date_iff)

lemma set_window [simp]: "z_set z t (fst s) (snd s) = ws (z_date z t)" "z_set z t (fst e) (snd e) = we (z_date z t)"
  by (simp_all add: set_wall ws_def we_def)

lemma business_ms_alt:
  "business_ms z wall wd hol s e a b = (\<Sum>d \<in> {z_date z a .. z_date z b}. busy_on wd hol ws we a b d)"
  by (simp add: business_ms_def ws_def [abs_def] we_def [abs_def])

lemma busy_outside:
  assumes "a \<le> b" "d \<notin> {z_date z a .. z_date z b}"
  shows "busy_on wd hol ws we a b d = 0"
proof -
  consider "d + 1 \<le> z_date z a" | "z_date z b + 1 \<le> d" using assms(2) by force
  then have "we d < a \<or> b < ws d"
  proof cases
    case 1
    then show ?thesis using day0_mono [OF 1] window_day(3) [of d] date_bounds(1) [of a] by linarith
  next
    case 2
    then show ?thesis using day0_mono [OF 2] window_day(1) [of d] date_bounds(2) [of b] by linarith
  qed
  then show ?thesis using assms(1) window_day(2) [of d] by (auto simp: busy_on_def overlap_def)
qed

lemma business_ms_range:
  assumes "a \<le> b" "lo \<le> z_date z a" "z_date z b \<le> hi"
  shows "business_ms z wall wd hol s e a b = (\<Sum>d \<in> {lo .. hi}. busy_on wd hol ws we a b d)"
  unfolding business_ms_alt
  by (rule sum.mono_neutral_left) (use assms busy_outside in auto)

lemma overlap_split:
  "a \<le> b \<Longrightarrow> b \<le> c \<Longrightarrow> p \<le> q \<Longrightarrow> overlap a c p q = overlap a b p q + overlap b c p q"
  unfolding overlap_def by (cases "b \<le> p"; cases "b \<le> q"; simp add: max_def min_def)

lemma business_ms_split:
  assumes "a \<le> b" "b \<le> c"
  shows "business_ms z wall wd hol s e a c =
    business_ms z wall wd hol s e a b + business_ms z wall wd hol s e b c"
proof -
  let ?R = "{z_date z a .. z_date z c}"
  have le: "z_date z a \<le> z_date z b" "z_date z b \<le> z_date z c" using assms date_mono by auto
  have "busy_on wd hol ws we a c d = busy_on wd hol ws we a b d + busy_on wd hol ws we b c d" for d
    using overlap_split [OF assms, of "ws d" "we d"] window_day(2) [of d] by (simp add: busy_on_def)
  then show ?thesis
    using assms le by (simp add: business_ms_range [of _ _ "z_date z a" "z_date z c"] sum.distrib)
qed

text \<open>Business time inside one day.\<close>

lemma business_ms_day:
  assumes "a \<le> b" "z_date z a = d" "z_date z b = d"
  shows "business_ms z wall wd hol s e a b = busy_on wd hol ws we a b d"
  using assms by (simp add: business_ms_alt)

lemma business_ms_to_midnight:
  "business_ms z wall wd hol s e a (z_nextDay z a) = busy_on wd hol ws we a (z_nextDay z a) (z_date z a)"
proof -
  let ?d = "z_date z a"
  have r: "{?d .. ?d + 1} = {?d, ?d + 1}" by auto
  have "busy_on wd hol ws we a (z_nextDay z a) (?d + 1) = 0"
    using window_day(1) [of "?d + 1"] by (simp add: busy_on_def overlap_def nextDay)
  then show ?thesis by (simp add: business_ms_alt r)
qed

text \<open>One round of the day search, on days.\<close>

lemma snap_Suc:
  "snapToWindow (Suc i) z wd hol s e c =
     (if business_day wd hol (z_date z c) \<and> c < ws (z_date z c) then Some (ws (z_date z c))
      else if business_day wd hol (z_date z c) \<and> c < we (z_date z c) then Some c
      else snapToWindow i z wd hol s e (z_nextDay z c))"
  by (simp add: snapToWindow.simps(2) business_day_def weekday_date Let_def)

text \<open>
  \<open>snapToWindow\<close> goes to the next instant inside a window, and skips no business time.
\<close>

lemma snap_correct:
  assumes "snapToWindow i z wd hol s e c = Some c'"
  shows "c \<le> c' \<and> business_day wd hol (z_date z c') \<and> ws (z_date z c') \<le> c' \<and> c' < we (z_date z c') \<and>
    business_ms z wall wd hol s e c c' = 0 \<and> (c = day0 (z_date z c) \<longrightarrow> c' = ws (z_date z c'))"
  using assms
proof (induction i arbitrary: c)
  case 0
  then show ?case by simp
next
  case (Suc i)
  let ?d = "z_date z c"
  consider (before) "business_day wd hol ?d" "c < ws ?d" "c' = ws ?d"
    | (inside) "business_day wd hol ?d" "ws ?d \<le> c" "c < we ?d" "c' = c"
    | (later) "business_day wd hol ?d \<longrightarrow> we ?d \<le> c"
        "snapToWindow i z wd hol s e (z_nextDay z c) = Some c'"
  proof (cases "business_day wd hol ?d \<and> c < we ?d")
    case True
    then show ?thesis
    proof (cases "c < ws ?d")
      case c: True
      then have "c' = ws ?d" using True Suc.prems unfolding snap_Suc by simp
      then show ?thesis using True c by (intro that(1)) simp_all
    next
      case c: False
      then have "c' = c" using True Suc.prems unfolding snap_Suc by simp
      then show ?thesis using True c by (intro that(2)) simp_all
    qed
  next
    case False
    then have "\<not> (business_day wd hol ?d \<and> c < ws ?d)" using window_day(2) [of ?d] by auto
    then have "snapToWindow i z wd hol s e (z_nextDay z c) = Some c'"
      using False Suc.prems unfolding snap_Suc by (auto split: if_splits)
    then show ?thesis using False by (intro that(3)) auto
  qed
  then show ?case
  proof cases
    case before
    then have "z_date z c' = ?d" using window_day [of ?d] by (intro date_window) simp_all
    then show ?thesis
      using before window_day [of ?d] by (simp add: business_ms_day busy_on_def overlap_def)
  next
    case inside
    then show ?thesis
      using window_day(1) [of ?d] by (auto simp: business_ms_day busy_on_def overlap_def)
  next
    case later
    from Suc.IH [OF later(2)] have ih: "z_nextDay z c \<le> c'" "business_day wd hol (z_date z c')"
      "ws (z_date z c') \<le> c'" "c' < we (z_date z c')"
      "business_ms z wall wd hol s e (z_nextDay z c) c' = 0" "c' = ws (z_date z c')"
      by (simp_all add: nextDay)
    have "business_ms z wall wd hol s e c (z_nextDay z c) = 0"
      using later(1) window_day(3) [of ?d] by (auto simp: business_ms_to_midnight busy_on_def overlap_def)
    then have "business_ms z wall wd hol s e c c' = 0"
      using business_ms_split [of c "z_nextDay z c" c' wd hol] ih(1,5) nextDay_less [of c] by simp
    then show ?thesis using ih nextDay_less [of c] by auto
  qed
qed

lemma snap_from_midnight:
  "business_day wd hol (d + int k) \<Longrightarrow> k < i \<Longrightarrow> \<exists>c'. snapToWindow i z wd hol s e (day0 d) = Some c'"
proof (induction i arbitrary: d k)
  case (Suc i)
  show ?case
  proof (cases k)
    case 0
    then have "business_day wd hol d" "day0 d < we d" using Suc.prems window_day [of d] by simp_all
    then show ?thesis by (simp add: snap_Suc)
  next
    case (Suc k')
    then have "\<exists>c'. snapToWindow i z wd hol s e (day0 (d + 1)) = Some c'"
      using Suc.IH [of "d + 1" k'] Suc.prems by (simp add: add.assoc)
    then show ?thesis unfolding snap_Suc by (auto simp: nextDay)
  qed
qed simp

lemma snap_exists:
  assumes "business_day wd hol (z_date z c + 1 + int k)" "k < i"
  shows "\<exists>c'. snapToWindow (Suc i) z wd hol s e c = Some c'"
  using snap_from_midnight [OF assms] unfolding snap_Suc by (auto simp: nextDay)

text \<open>
  The walk from inside a window: it returns, and the business time it goes through is the
  minutes asked for, plus, when it leaves the first window, the fraction of a minute left there.
\<close>

definition enough_fuel :: "nat \<Rightarrow> int \<Rightarrow> instant \<Rightarrow> bool" where
  "enough_fuel fuel r c \<longleftrightarrow>
     (if 60000 \<le> we (z_date z c) - c then r \<le> int fuel else r + 1 \<le> int fuel)"

lemma minutes_fit:
  assumes "r \<le> (b - a) div 60000"
  shows "a + r * 60000 \<le> (b :: int)"
  using assms div_mult_mod_eq [of "b - a" 60000] pos_mod_sign [of 60000 "b - a"] by linarith

lemma walk_final:
  assumes "business_day wd hol (z_date z c)" "ws (z_date z c) \<le> c" "0 < r"
    "r \<le> (we (z_date z c) - c) div 60000"
  shows "business_ms z wall wd hol s e c (c + r * 60000) = r * 60000"
proof -
  have le: "c + r * 60000 \<le> we (z_date z c)" by (rule minutes_fit [OF assms(4)])
  then have "z_date z (c + r * 60000) = z_date z c" using assms(2,3) by (intro date_window) auto
  then show ?thesis using assms le by (simp add: business_ms_day busy_on_def overlap_def)
qed

text \<open>One round that is not the last, and how the search after it continues.\<close>

lemma walk_round:
  assumes c: "business_day wd hol (z_date z c)" "ws (z_date z c) \<le> c" "c < we (z_date z c)"
    and open_: "often_open wd hol"
  obtains c' where
    "snapToWindow MAX_WALK_DAYS z wd hol s e (z_nextDay z c) = Some c'"
    "business_day wd hol (z_date z c')" "c' = ws (z_date z c')" "c < c'"
    "business_ms z wall wd hol s e c c' = we (z_date z c) - c"
proof -
  from open_ obtain k where k: "k < 365" "business_day wd hol (z_date z c + 1 + int k)"
    unfolding often_open_def by blast
  have "\<exists>c'. snapToWindow MAX_WALK_DAYS z wd hol s e (day0 (z_date z c + 1)) = Some c'"
    by (rule snap_from_midnight [OF k(2)]) (use k(1) in \<open>simp add: MAX_WALK_DAYS_def\<close>)
  then obtain c' where sn: "snapToWindow MAX_WALK_DAYS z wd hol s e (z_nextDay z c) = Some c'"
    by (auto simp: nextDay)
  have c': "z_nextDay z c \<le> c'" "business_day wd hol (z_date z c')"
    "business_ms z wall wd hol s e (z_nextDay z c) c' = 0" "c' = ws (z_date z c')"
    using snap_correct [OF sn] by (simp_all add: nextDay)
  have "business_ms z wall wd hol s e c (z_nextDay z c) = we (z_date z c) - c"
    using c window_day(3) [of "z_date z c"] unfolding business_ms_to_midnight
    by (simp add: busy_on_def overlap_def nextDay)
  then have "business_ms z wall wd hol s e c c' = we (z_date z c) - c"
    using business_ms_split [of c "z_nextDay z c" c' wd hol] c' nextDay_less [of c] by simp
  moreover have "c < c'" using c'(1) nextDay_less [of c] by simp
  ultimately show ?thesis using that sn c' by blast
qed

lemma walk_correct:
  assumes "business_day wd hol (z_date z c)" "ws (z_date z c) \<le> c" "c < we (z_date z c)"
    "often_open wd hol" "0 < r" "enough_fuel fuel r c"
  shows "\<exists>t. walk fuel z wd hol s e r c = Inr t \<and> c \<le> t \<and>
     r * 60000 \<le> business_ms z wall wd hol s e c t \<and>
     business_ms z wall wd hol s e c t \<le> r * 60000 + (we (z_date z c) - c) mod 60000"
  using assms
proof (induction fuel arbitrary: c r)
  case 0
  then show ?case by (auto simp: enough_fuel_def split: if_splits)
next
  case (Suc fuel)
  let ?left = "(we (z_date z c) - c) div 60000"
  let ?loss = "(we (z_date z c) - c) mod 60000"
  have split: "we (z_date z c) - c = ?left * 60000 + ?loss" by simp
  have loss: "0 \<le> ?loss" by simp
  show ?case
  proof (cases "r \<le> ?left")
    case True
    have "walk (Suc fuel) z wd hol s e r c = Inr (c + r * 60000)"
      using True Suc.prems(5) by (simp add: walk.simps(2))
    then show ?thesis
      using walk_final [OF Suc.prems(1,2,5) True] Suc.prems(5) loss by auto
  next
    case False
    obtain c' where c': "snapToWindow MAX_WALK_DAYS z wd hol s e (z_nextDay z c) = Some c'"
      "business_day wd hol (z_date z c')" "c' = ws (z_date z c')" "c < c'"
      "business_ms z wall wd hol s e c c' = we (z_date z c) - c"
      using walk_round [OF Suc.prems(1-4)] by metis
    have len: "we (z_date z c') - c' = (clock_minutes e - clock_minutes s) * 60000"
      using c'(3) window_exact [of "z_date z c'"] by simp
    have full: "60000 \<le> we (z_date z c') - c'" using len window_pos by simp
    have fuel': "enough_fuel fuel (r - ?left) c'"
      using Suc.prems(3,6) full pos_imp_zdiv_pos_iff [of 60000 "we (z_date z c) - c"]
        pos_imp_zdiv_nonneg_iff [of 60000 "we (z_date z c) - c"]
      by (auto simp: enough_fuel_def split: if_splits)
    have lt: "c' < we (z_date z c')" using full by simp
    have "\<exists>t. walk fuel z wd hol s e (r - ?left) c' = Inr t \<and> c' \<le> t \<and>
       (r - ?left) * 60000 \<le> business_ms z wall wd hol s e c' t \<and>
       business_ms z wall wd hol s e c' t \<le> (r - ?left) * 60000 + (we (z_date z c') - c') mod 60000"
      by (rule Suc.IH) (use c' lt fuel' False Suc.prems(4) in auto)
    then obtain t where t: "walk fuel z wd hol s e (r - ?left) c' = Inr t" "c' \<le> t"
      "business_ms z wall wd hol s e c' t = (r - ?left) * 60000" unfolding len by auto
    have "walk (Suc fuel) z wd hol s e r c = Inr t"
      using t(1) c'(1) False Suc.prems(5) by (simp add: walk.simps(2))
    moreover have "business_ms z wall wd hol s e c t = (we (z_date z c) - c) + (r - ?left) * 60000"
      using business_ms_split [of c c' t wd hol] c'(4,5) t(2,3) by simp
    then have "business_ms z wall wd hol s e c t = r * 60000 + ?loss"
      using split left_diff_distrib [of r ?left 60000] by linarith
    ultimately show ?thesis using c'(4) t(2) loss by auto
  qed
qed

lemma add_correct:
  assumes "parseWindow cal = Inr (s, e)" "\<not> cal_is247 cal" "0 \<le> m"
    and open_: "often_open (cal_workdays cal) (map (z_date z) (cal_holidays cal))"
  shows "\<exists>t. addBusinessMinutes (Some cal) z from m = Inr t \<and> from \<le> t \<and>
    m * 60000 \<le> business_ms z wall (cal_workdays cal) (map (z_date z) (cal_holidays cal)) s e from t \<and>
    business_ms z wall (cal_workdays cal) (map (z_date z) (cal_holidays cal)) s e from t < m * 60000 + 60000"
proof -
  let ?wd = "cal_workdays cal" and ?hol = "map (z_date z) (cal_holidays cal)"
  from open_ obtain k where k: "k < 365" "business_day ?wd ?hol (z_date z from + 1 + int k)"
    unfolding often_open_def by blast
  then obtain c where sn: "snapToWindow MAX_WALK_DAYS z ?wd ?hol s e from = Some c"
    using snap_exists [OF k(2,1)] by (auto simp: MAX_WALK_DAYS_def)
  note c = snap_correct [OF sn]
  have add: "addBusinessMinutes (Some cal) z from m = walk (nat m + 1) z ?wd ?hol s e m c"
    using assms sn by (simp add: addBusinessMinutes_def)
  show ?thesis
  proof (cases "m = 0")
    case True
    then have "addBusinessMinutes (Some cal) z from m = Inr c" unfolding add by (simp add: walk.simps(2))
    then show ?thesis using c True by auto
  next
    case False
    have "enough_fuel (nat m + 1) m c" using assms(3) by (simp add: enough_fuel_def)
    with c open_ False assms(3) obtain t where t: "walk (nat m + 1) z ?wd ?hol s e m c = Inr t" "c \<le> t"
      "m * 60000 \<le> business_ms z wall ?wd ?hol s e c t"
      "business_ms z wall ?wd ?hol s e c t \<le> m * 60000 + (we (z_date z c) - c) mod 60000"
      using walk_correct [of ?wd ?hol c m "nat m + 1"] by force
    have "business_ms z wall ?wd ?hol s e from t = business_ms z wall ?wd ?hol s e c t"
      using business_ms_split [of "from" c t ?wd ?hol] c t(2) by simp
    moreover have "(we (z_date z c) - c) mod 60000 < 60000" by simp
    ultimately show ?thesis using add t c by auto
  qed
qed

end

section \<open>Zones with a fixed offset\<close>

definition fixed_zone :: "int \<Rightarrow> zone" where
  "fixed_zone off = \<lparr>z_weekday = (\<lambda>t. nat (((t + off) div 86400000 + 3) mod 7) + 1),
     z_date = (\<lambda>t. (t + off) div 86400000),
     z_set = (\<lambda>t h m. (t + off) div 86400000 * 86400000 - off + int h * 3600000 + int m * 60000),
     z_nextDay = (\<lambda>t. ((t + off) div 86400000 + 1) * 86400000 - off)\<rparr>"

definition fixed_day0 :: "int \<Rightarrow> int \<Rightarrow> instant" where
  "fixed_day0 off d = d * 86400000 - off"

definition fixed_wall :: "int \<Rightarrow> int \<Rightarrow> nat \<Rightarrow> nat \<Rightarrow> instant" where
  "fixed_wall off d h m = d * 86400000 - off + int h * 3600000 + int m * 60000"

lemma utc_fixed: "utc_zone = fixed_zone 0"
  by (simp add: utc_zone_def fixed_zone_def)

lemma weekday_shift: "(nat ((d + 3) mod 7) + 1) mod 7 = nat (((d :: int) + 4) mod 7)"
proof -
  have "int ((nat ((d + 3) mod 7) + 1) mod 7) = (d + 4) mod 7" by (simp add: zmod_int mod_simps add.commute)
  then show ?thesis by (metis nat_int)
qed

lemma fixed_local_zone: "local_zone (fixed_zone off) (fixed_day0 off) (fixed_wall off)"
proof
  fix t d :: int and h m :: nat
  show "z_date (fixed_zone off) t = d \<longleftrightarrow> fixed_day0 off d \<le> t \<and> t < fixed_day0 off (d + 1)"
    by (auto simp: fixed_zone_def fixed_day0_def)
  show "z_nextDay (fixed_zone off) t = fixed_day0 off (z_date (fixed_zone off) t + 1)"
    and "z_set (fixed_zone off) t h m = fixed_wall off (z_date (fixed_zone off) t) h m"
    by (simp_all add: fixed_zone_def fixed_day0_def fixed_wall_def)
  show "h < 24 \<Longrightarrow> m < 60 \<Longrightarrow>
      fixed_day0 off d \<le> fixed_wall off d h m \<and> fixed_wall off d h m < fixed_day0 off (d + 1)"
    by (auto simp: fixed_wall_def fixed_day0_def)
  show "z_weekday (fixed_zone off) t mod 7 = nat ((z_date (fixed_zone off) t + 4) mod 7)"
    using weekday_shift by (simp add: fixed_zone_def)
qed

lemma fixed_window_zone:
  assumes "fst s < 24" "snd s < 60" "fst e < 24" "snd e < 60" "clock_minutes s < clock_minutes e"
  shows "window_zone (fixed_zone off) (fixed_day0 off) (fixed_wall off) s e"
proof -
  have "local_zone (fixed_zone off) (fixed_day0 off) (fixed_wall off)" by (rule fixed_local_zone)
  then show ?thesis
    using assms by (simp add: window_zone_def window_zone_axioms_def fixed_wall_def clock_minutes_def algebra_simps)
qed

text \<open>India, where the sites are: UTC+05:30 all year, with office hours from nine to six.\<close>

interpretation ist: local_zone "fixed_zone 19800000" "fixed_day0 19800000" "fixed_wall 19800000"
  by (rule fixed_local_zone)

interpretation ist_office: window_zone "fixed_zone 19800000" "fixed_day0 19800000" "fixed_wall 19800000" "(9, 0)" "(18, 0)"
  by (rule fixed_window_zone) (simp_all add: clock_minutes_def)

text \<open>Monday to Friday without a holiday is open often enough.\<close>

lemma weekdays_often_open: "often_open [1, 2, 3, 4, 5] []"
proof -
  have "\<exists>k < 365. business_day [1, 2, 3, 4, 5] [] (d + 1 + int k)" for d
  proof -
    have "(d + 1 + 4) mod 7 \<in> {1, 2, 3, 4, 5} \<or> (d + 1 + 2 + 4) mod 7 \<in> {1, 2, 3, 4, 5 :: int}"
      unfolding insert_iff empty_iff by presburger
    then have "business_day [1, 2, 3, 4, 5] [] (d + 1 + int 0) \<or>
        business_day [1, 2, 3, 4, 5] [] (d + 1 + int 2)" by (auto simp: business_day_def)
    then show ?thesis by (elim disjE) (auto intro: exI [of _ 0] exI [of _ 2])
  qed
  then show ?thesis by (simp add: often_open_def)
qed

section \<open>The properties\<close>

text \<open>
  C3: adding business minutes returns, later than where it started, after exactly the requested
  amount of business time: the time inside support windows between the start and the result is
  the requested minutes, plus less than one minute (the fraction of a minute the code drops when
  it leaves the first window). It holds for every zone and window that obey the laws, every
  calendar that is open at least once a year and every starting instant, so the walk ends and
  finds its window.
\<close>

theorem addBusinessMinutes_exact:
  assumes "window_zone z day0 wall s e" "parseWindow cal = Inr (s, e)" "\<not> cal_is247 cal" "0 \<le> m"
    and "often_open (cal_workdays cal) (map (z_date z) (cal_holidays cal))"
  shows "\<exists>t. addBusinessMinutes (Some cal) z from m = Inr t \<and> from \<le> t \<and>
    m * 60000 \<le> business_ms z wall (cal_workdays cal) (map (z_date z) (cal_holidays cal)) s e from t \<and>
    business_ms z wall (cal_workdays cal) (map (z_date z) (cal_holidays cal)) s e from t < m * 60000 + 60000"
  by (rule window_zone.add_correct [OF assms])

definition office_calendar :: support_calendar where
  "office_calendar = \<lparr>cal_id = ''cal-1'', cal_siteId = ''BLR'', cal_name = ''Office'', cal_businessStart = ''09:00'',
     cal_businessEnd = ''18:00'', cal_workdays = [1, 2, 3, 4, 5], cal_holidays = [], cal_is247 = False\<rparr>"

lemma office_window: "parseWindow office_calendar = Inr ((9, 0), (18, 0))"
  by (simp add: office_calendar_def parseWindow_def parseClock_def number_of_def digit_value_def
      clock_minutes_def)

theorem addBusinessMinutes_exact_witness:
  "\<exists>t. addBusinessMinutes (Some office_calendar) (fixed_zone 19800000) 1700000000000 600 = Inr t \<and>
    1700000000000 \<le> t \<and>
    600 * 60000 \<le> business_ms (fixed_zone 19800000) (fixed_wall 19800000) [1, 2, 3, 4, 5] [] (9, 0) (18, 0) 1700000000000 t \<and>
    business_ms (fixed_zone 19800000) (fixed_wall 19800000) [1, 2, 3, 4, 5] [] (9, 0) (18, 0) 1700000000000 t < 600 * 60000 + 60000"
  using addBusinessMinutes_exact [OF ist_office.window_zone_axioms office_window, of 600 1700000000000]
    weekdays_often_open by (simp add: office_calendar_def)

end
