(* ===== verification/Sla.thy ===== *)
theory Sla
  imports Access Calendar
begin

text \<open>
  The SLA clock of an incident (\<^verbatim>\<open>sla/sla.service.ts\<close>): policy administration, the policy and the
  calendar in force, the two deadlines, and the hooks the incident service calls inside its own
  transactions when a ticket is created, acknowledged, paused, resumed, resolved, reopened or
  re-prioritised.
\<close>

section \<open>Policies\<close>

record sla_policy_dto =
  pd_name :: string
  pd_priority :: priority
  pd_ackTargetMinutes :: int
  pd_resolveTargetMinutes :: int
  pd_usesBusinessCalendar :: "bool option"
  pd_escalationThresholdsPercent :: "int list option"
  pd_pausesOnPendingVendor :: "bool option"
  pd_pausesOnPendingCustomer :: "bool option"
  pd_effectiveFrom :: instant
  pd_effectiveTo :: "instant option"
  pd_isActive :: "bool option"

record sla_policy_patch =
  pp_name :: "string option"
  pp_ackTargetMinutes :: "int option"
  pp_resolveTargetMinutes :: "int option"
  pp_usesBusinessCalendar :: "bool option"
  pp_escalationThresholdsPercent :: "int list option"
  pp_pausesOnPendingVendor :: "bool option"
  pp_pausesOnPendingCustomer :: "bool option"
  pp_effectiveTo :: "instant patch"
  pp_isActive :: "bool option"

definition listPolicies :: "world \<Rightarrow> priority option \<Rightarrow> sla_policy list" where
  "listPolicies w p =
     sort_key (\<lambda>x. (sp_priority x, - sp_effectiveFrom x))
       (filter (\<lambda>x. matches p (sp_priority x)) (sla_policies w))"

definition findPolicy :: "uuid \<Rightarrow> world \<Rightarrow> http_error + sla_policy" where
  "findPolicy i w =
     (case find_by sp_id i (sla_policies w) of
        None \<Rightarrow> Inl (NotFound ''SLA policy not found'') | Some p \<Rightarrow> Inr p)"

definition createPolicy :: "instant \<Rightarrow> sla_policy_dto \<Rightarrow> actor_context \<Rightarrow> sla_policy op" where
  "createPolicy now dto actor = transaction
     (bindM freshId (\<lambda>i.
      let p = \<lparr>sp_id = i, sp_name = pd_name dto, sp_priority = pd_priority dto,
        sp_ackTargetMinutes = pd_ackTargetMinutes dto,
        sp_resolveTargetMinutes = pd_resolveTargetMinutes dto,
        sp_usesBusinessCalendar = option_default False (pd_usesBusinessCalendar dto),
        sp_escalationThresholdsPercent = option_default [50, 75, 90] (pd_escalationThresholdsPercent dto),
        sp_pausesOnPendingVendor = option_default True (pd_pausesOnPendingVendor dto),
        sp_pausesOnPendingCustomer = option_default True (pd_pausesOnPendingCustomer dto),
        sp_effectiveFrom = pd_effectiveFrom dto, sp_effectiveTo = pd_effectiveTo dto,
        sp_isActive = option_default True (pd_isActive dto)\<rparr>
      in bindM (modifyM (\<lambda>w. w\<lparr>sla_policies := sla_policies w @ [p]\<rparr>)) (\<lambda>_.
         bindM (auditRecord now (Some (actorId actor)) ''SlaPolicy'' i ''CREATE'' None
                  (Some (SnapSlaPolicy p)) (correlationId actor)) (\<lambda>_.
         ret p))))"

definition patch_policy :: "sla_policy_patch \<Rightarrow> sla_policy \<Rightarrow> sla_policy" where
  "patch_policy d p = p\<lparr>sp_name := patched (pp_name d) (sp_name p),
     sp_ackTargetMinutes := patched (pp_ackTargetMinutes d) (sp_ackTargetMinutes p),
     sp_resolveTargetMinutes := patched (pp_resolveTargetMinutes d) (sp_resolveTargetMinutes p),
     sp_usesBusinessCalendar := patched (pp_usesBusinessCalendar d) (sp_usesBusinessCalendar p),
     sp_escalationThresholdsPercent :=
       patched (pp_escalationThresholdsPercent d) (sp_escalationThresholdsPercent p),
     sp_pausesOnPendingVendor := patched (pp_pausesOnPendingVendor d) (sp_pausesOnPendingVendor p),
     sp_pausesOnPendingCustomer := patched (pp_pausesOnPendingCustomer d) (sp_pausesOnPendingCustomer p),
     sp_effectiveTo := patched (pp_effectiveTo d) (sp_effectiveTo p),
     sp_isActive := patched (pp_isActive d) (sp_isActive p)\<rparr>"

definition updatePolicy :: "instant \<Rightarrow> uuid \<Rightarrow> sla_policy_patch \<Rightarrow> actor_context \<Rightarrow> sla_policy op" where
  "updatePolicy now i dto actor =
     bindM (readM (findPolicy i)) (\<lambda>before.
     transaction
       (bindM (modifyM (\<lambda>w. w\<lparr>sla_policies := update_by sp_id i (patch_policy dto) (sla_policies w)\<rparr>)) (\<lambda>_.
        bindM (auditRecord now (Some (actorId actor)) ''SlaPolicy'' i ''UPDATE''
                 (Some (SnapSlaPolicy before)) (Some (SnapSlaPolicy (patch_policy dto before)))
                 (correlationId actor)) (\<lambda>_.
        ret (patch_policy dto before)))))"

section \<open>What is in force\<close>

definition policy_in_force :: "priority \<Rightarrow> instant \<Rightarrow> sla_policy \<Rightarrow> bool" where
  "policy_in_force prio at p \<longleftrightarrow>
     sp_priority p = prio \<and> sp_isActive p \<and> sp_effectiveFrom p \<le> at \<and>
     (case sp_effectiveTo p of None \<Rightarrow> True | Some t \<Rightarrow> at \<le> t)"

text \<open>\<open>findFirst ... orderBy desc\<close>: the head of the sorted matches.\<close>

definition resolvePolicy :: "priority \<Rightarrow> instant \<Rightarrow> world \<Rightarrow> http_error + sla_policy" where
  "resolvePolicy prio at w =
     (case sort_key (\<lambda>p. - sp_effectiveFrom p) (filter (policy_in_force prio at) (sla_policies w)) of
        [] \<Rightarrow> Inl (NotFound ''No active SLA policy configured for priority'')
      | p # _ \<Rightarrow> Inr p)"

text \<open>\<open>SitesService.listSupportCalendars\<close>: the site must exist; by name.\<close>

definition resolveCalendar :: "uuid \<Rightarrow> world \<Rightarrow> http_error + support_calendar option" where
  "resolveCalendar siteId w =
     (case find_by s_id siteId (sites w) of
        None \<Rightarrow> Inl (NotFound ''Site not found'')
      | Some _ \<Rightarrow>
          Inr (case sort_key (\<lambda>c. env_collation (env w) (cal_name c))
                      (filter (\<lambda>c. cal_siteId c = siteId) (calendars w)) of
                 [] \<Rightarrow> None | c # _ \<Rightarrow> Some c))"

definition computeDueDates :: "uuid \<Rightarrow> sla_policy \<Rightarrow> instant \<Rightarrow> world \<Rightarrow> http_error + instant \<times> instant" where
  "computeDueDates siteId policy from w =
     (let timezone = (case find_by s_id siteId (sites w) of None \<Rightarrow> ''UTC'' | Some s \<Rightarrow> s_timezone s);
          z = env_zone (env w) timezone
      in case (if sp_usesBusinessCalendar policy then resolveCalendar siteId w else Inr None) of
           Inl err \<Rightarrow> Inl err
         | Inr calendar \<Rightarrow>
             (case addBusinessMinutes calendar z from (sp_ackTargetMinutes policy) of
                Inl err \<Rightarrow> Inl err
              | Inr ackDue \<Rightarrow>
                  (case addBusinessMinutes calendar z from (sp_resolveTargetMinutes policy) of
                     Inl err \<Rightarrow> Inl err
                   | Inr resolveDue \<Rightarrow> Inr (ackDue, resolveDue))))"

definition policy_and_dates ::
  "uuid \<Rightarrow> priority \<Rightarrow> instant \<Rightarrow> world \<Rightarrow> http_error + sla_policy \<times> instant \<times> instant" where
  "policy_and_dates siteId prio now w =
     (case resolvePolicy prio now w of
        Inl err \<Rightarrow> Inl err
      | Inr policy \<Rightarrow>
          (case computeDueDates siteId policy now w of
             Inl err \<Rightarrow> Inl err | Inr (a, r) \<Rightarrow> Inr (policy, a, r)))"

section \<open>Hooks of the incident lifecycle\<close>

definition new_instance :: "uuid \<Rightarrow> uuid \<Rightarrow> sla_policy \<Rightarrow> instant \<Rightarrow> instant \<Rightarrow> sla_instance" where
  "new_instance i incidentId policy ackDue resolveDue =
     \<lparr>si_id = i, si_incidentId = incidentId, si_slaPolicyId = sp_id policy,
      si_ackDueAt = Some ackDue, si_ackedAt = None, si_resolveDueAt = Some resolveDue,
      si_resolvedAt = None, si_pausedAt = None, si_pausedMinutes = 0, si_firedMilestones = [],
      si_breached = False\<rparr>"

definition startForIncident ::
  "instant \<Rightarrow> uuid \<Rightarrow> uuid \<Rightarrow> priority \<Rightarrow> actor_context \<Rightarrow> sla_instance op" where
  "startForIncident now incidentId siteId prio actor =
     bindM (readM (policy_and_dates siteId prio now)) (\<lambda>(policy, ackDue, resolveDue).
     bindM freshId (\<lambda>i.
     let created = new_instance i incidentId policy ackDue resolveDue
     in bindM (modifyM (\<lambda>w. w\<lparr>sla_instances := sla_instances w @ [created]\<rparr>)) (\<lambda>_.
        bindM (auditRecord now (Some (actorId actor)) ''SlaInstance'' i ''CREATE'' None
                 (Some (SnapSlaInstance created)) (correlationId actor)) (\<lambda>_.
        ret created))))"

definition findInstance :: "uuid \<Rightarrow> world \<Rightarrow> sla_instance option" where
  "findInstance incidentId w = find_by si_incidentId incidentId (sla_instances w)"

text \<open>\<open>tx.slaInstance.update\<close> followed by its audit record.\<close>

definition save_instance ::
  "instant \<Rightarrow> sla_instance \<Rightarrow> (sla_instance \<Rightarrow> sla_instance) \<Rightarrow> string \<Rightarrow> actor_context \<Rightarrow> unit op" where
  "save_instance now before f action actor =
     bindM (modifyM (\<lambda>w. w\<lparr>sla_instances := update_by si_id (si_id before) f (sla_instances w)\<rparr>)) (\<lambda>_.
     auditRecord now (Some (actorId actor)) ''SlaInstance'' (si_id before) action
       (Some (SnapSlaInstance before)) (Some (SnapSlaInstance (f before))) (correlationId actor))"

definition onAcknowledged :: "instant \<Rightarrow> uuid \<Rightarrow> instant \<Rightarrow> actor_context \<Rightarrow> unit op" where
  "onAcknowledged now incidentId ackedAt actor =
     bindM (getM (findInstance incidentId)) (\<lambda>inst.
       case inst of
         None \<Rightarrow> ret ()
       | Some before \<Rightarrow>
           if si_ackedAt before \<noteq> None then ret ()
           else save_instance now before (\<lambda>r. r\<lparr>si_ackedAt := Some ackedAt\<rparr>) ''ACK'' actor)"

definition onResolved :: "instant \<Rightarrow> uuid \<Rightarrow> instant \<Rightarrow> actor_context \<Rightarrow> unit op" where
  "onResolved now incidentId resolvedAt actor =
     bindM (getM (findInstance incidentId)) (\<lambda>inst.
       case inst of
         None \<Rightarrow> ret ()
       | Some before \<Rightarrow>
           if si_resolvedAt before \<noteq> None then ret ()
           else save_instance now before
                  (\<lambda>r. r\<lparr>si_resolvedAt := Some resolvedAt, si_pausedAt := None\<rparr>) ''RESOLVE'' actor)"

definition shouldPause :: "world \<Rightarrow> sla_instance \<Rightarrow> incident_status \<Rightarrow> bool" where
  "shouldPause w inst toStatus =
     (case find_by sp_id (si_slaPolicyId inst) (sla_policies w) of
        None \<Rightarrow> False
      | Some policy \<Rightarrow> if toStatus = PENDING_VENDOR then sp_pausesOnPendingVendor policy
                       else sp_pausesOnPendingCustomer policy)"

definition onPaused :: "instant \<Rightarrow> uuid \<Rightarrow> incident_status \<Rightarrow> actor_context \<Rightarrow> unit op" where
  "onPaused now incidentId toStatus actor =
     bindM (getM (findInstance incidentId)) (\<lambda>inst.
       case inst of
         None \<Rightarrow> ret ()
       | Some before \<Rightarrow>
           if si_resolvedAt before \<noteq> None \<or> si_pausedAt before \<noteq> None then ret ()
           else bindM (getM (\<lambda>w. shouldPause w before toStatus)) (\<lambda>pause.
                  if \<not> pause then ret ()
                  else save_instance now before (\<lambda>r. r\<lparr>si_pausedAt := Some now\<rparr>) ''PAUSE'' actor))"

text \<open>\<open>Math.max(0, Math.round(ms / 60_000))\<close>; \<open>Math.round\<close> rounds a half up.\<close>

definition paused_minutes :: "instant \<Rightarrow> instant \<Rightarrow> int" where
  "paused_minutes pausedAt now = max 0 ((now - pausedAt + 30000) div 60000)"

definition resumed :: "int \<Rightarrow> sla_instance \<Rightarrow> sla_instance" where
  "resumed extra r = r\<lparr>si_pausedAt := None, si_pausedMinutes := si_pausedMinutes r + extra,
     si_resolveDueAt := map_option (\<lambda>due. due + extra * 60000) (si_resolveDueAt r)\<rparr>"

definition onResumed :: "instant \<Rightarrow> uuid \<Rightarrow> actor_context \<Rightarrow> unit op" where
  "onResumed now incidentId actor =
     bindM (getM (findInstance incidentId)) (\<lambda>inst.
       case inst of
         None \<Rightarrow> ret ()
       | Some before \<Rightarrow>
           (case si_pausedAt before of
              None \<Rightarrow> ret ()
            | Some pausedAt \<Rightarrow>
                save_instance now before (resumed (paused_minutes pausedAt now)) ''RESUME'' actor))"

definition reprioritised :: "sla_policy \<Rightarrow> instant \<Rightarrow> instant \<Rightarrow> sla_instance \<Rightarrow> sla_instance" where
  "reprioritised policy ackDue resolveDue r =
     r\<lparr>si_slaPolicyId := sp_id policy,
       si_ackDueAt := (if si_ackedAt r = None then Some ackDue else si_ackDueAt r),
       si_resolveDueAt := (if si_resolvedAt r = None then Some resolveDue else si_resolveDueAt r)\<rparr>"

definition onPriorityChanged ::
  "instant \<Rightarrow> uuid \<Rightarrow> uuid \<Rightarrow> priority \<Rightarrow> actor_context \<Rightarrow> unit op" where
  "onPriorityChanged now incidentId siteId prio actor =
     bindM (getM (findInstance incidentId)) (\<lambda>inst.
       case inst of
         None \<Rightarrow> ret ()
       | Some before \<Rightarrow>
           bindM (readM (policy_and_dates siteId prio now)) (\<lambda>(policy, ackDue, resolveDue).
             save_instance now before (reprioritised policy ackDue resolveDue) ''PRIORITY_RECOMPUTE'' actor))"

definition onReopened :: "instant \<Rightarrow> uuid \<Rightarrow> actor_context \<Rightarrow> unit op" where
  "onReopened now incidentId actor =
     bindM (getM (findInstance incidentId)) (\<lambda>inst.
       case inst of
         None \<Rightarrow> ret ()
       | Some before \<Rightarrow>
           if si_resolvedAt before = None then ret ()
           else save_instance now before (\<lambda>r. r\<lparr>si_resolvedAt := None\<rparr>) ''REOPEN'' actor)"

definition findForIncident :: "uuid \<Rightarrow> world \<Rightarrow> sla_instance option" where
  "findForIncident incidentId w = find_by si_incidentId incidentId (sla_instances w)"

section \<open>Lemmas\<close>

interpretation sla_rows: keyed_table sla_instances sla_instances_update si_id
  by unfold_locales simp

text \<open>What an SLA hook may touch: its own table, the audit trail and the uuid counter.\<close>

definition beside_sla :: "world \<Rightarrow> world" where
  "beside_sla w = w\<lparr>sla_instances := [], audits := [], uuid_next := 0\<rparr>"

lemma keeps_save_instance: "keeps beside_sla (save_instance now b f a act)"
  by (simp add: keeps_def save_instance_def beside_sla_def)

lemma keeps_sla_freshId: "keeps beside_sla freshId"
  and keeps_sla_audit: "keeps beside_sla (auditRecord n a t i x b f c)"
  and keeps_sla_write: "keeps beside_sla (modifyM (\<lambda>w. w\<lparr>sla_instances := g w\<rparr>))"
  by (simp_all add: keeps_def beside_sla_def)

lemmas keeps_sla_basic = keeps_save_instance keeps_sla_freshId keeps_sla_audit keeps_sla_write

lemmas sla_hook_defs = onAcknowledged_def onResolved_def onPaused_def onResumed_def
  onPriorityChanged_def onReopened_def startForIncident_def

lemma keeps_sla_hooks [keeps_intros]:
  "keeps beside_sla (startForIncident now i st p act)"
  "keeps beside_sla (onAcknowledged now i t act)"
  "keeps beside_sla (onResolved now i t act)"
  "keeps beside_sla (onPaused now i s act)"
  "keeps beside_sla (onResumed now i act)"
  "keeps beside_sla (onPriorityChanged now i st p act)"
  "keeps beside_sla (onReopened now i act)"
  unfolding sla_hook_defs by (intro keeps_intros keeps_sla_basic)+

lemma appends_save_instance [appends_intros]:
  "appends audits (save_instance now b f a act)" "appends events (save_instance now b f a act)"
  by (simp_all add: appends_def save_instance_def)

lemma appends_sla_write:
  "appends audits (modifyM (\<lambda>w. w\<lparr>sla_instances := g w\<rparr>))" "appends events (modifyM (\<lambda>w. w\<lparr>sla_instances := g w\<rparr>))"
  by (simp_all add: appends_def)

lemma appends_sla_hooks [appends_intros]:
  "appends audits (startForIncident now i st p act)"
  "appends audits (onAcknowledged now i t act)"
  "appends audits (onResolved now i t act)"
  "appends audits (onPaused now i s act)"
  "appends audits (onResumed now i act)"
  "appends audits (onPriorityChanged now i st p act)"
  "appends audits (onReopened now i act)"
  unfolding sla_hook_defs by (intro appends_intros appends_sla_write)+

lemma find_by_update_other_key:
  "(\<And>r. key (f r) = key r) \<Longrightarrow>
   find_by key k (update_by key' k' f rows) = map_option (\<lambda>r. if key' r = k' then f r else r) (find_by key k rows)"
  by (induction rows) auto

lemma startForIncident_eval [simp]:
  "policy_and_dates st p now w = Inr (pol, a, d) \<Longrightarrow>
   startForIncident now i st p act w =
     (let r = new_instance (env_uuid (env w) (uuid_next w)) i pol a d
      in (Inr r, w\<lparr>uuid_next := Suc (uuid_next w), sla_instances := sla_instances w @ [r],
           audits := audits w @ [\<lparr>ae_actorId = Some (actorId act), ae_entityType = ''SlaInstance'',
             ae_entityId = si_id r, ae_action = ''CREATE'', ae_before = None,
             ae_after = Some (SnapSlaInstance r), ae_correlationId = correlationId act,
             ae_createdAt = now\<rparr>]\<rparr>))"
  by (simp add: startForIncident_def Let_def new_instance_def)

lemma startForIncident_Inl [simp]:
  "policy_and_dates st p now w = Inl err \<Longrightarrow> startForIncident now i st p act w = (Inl err, w)"
  by (simp add: startForIncident_def)

text \<open>The one write all hooks share, evaluated, and the row found after it.\<close>

lemma save_instance_eval [simp]:
  "save_instance now b f action act w = (Inr (),
     w\<lparr>sla_instances := update_by si_id (si_id b) f (sla_instances w),
       audits := audits w @ [\<lparr>ae_actorId = Some (actorId act), ae_entityType = ''SlaInstance'',
         ae_entityId = si_id b, ae_action = action, ae_before = Some (SnapSlaInstance b),
         ae_after = Some (SnapSlaInstance (f b)), ae_correlationId = correlationId act,
         ae_createdAt = now\<rparr>]\<rparr>)"
  by (simp add: save_instance_def)

lemma findInstance_saved:
  assumes "findInstance i w = Some b" "\<And>r. si_incidentId (f r) = si_incidentId r"
  shows "findInstance i (snd (save_instance now b f action act w)) = Some (f b)"
  using assms find_by_update_other_key [of si_incidentId f i si_id "si_id b" "sla_instances w"]
  by (simp add: findInstance_def)

lemma find_by_sla_policies_saved [simp]:
  "sla_policies (snd (save_instance now b f action act w)) = sla_policies w"
  by simp

lemma resumed_simps [simp]:
  "si_id (resumed m r) = si_id r" "si_incidentId (resumed m r) = si_incidentId r"
  "si_pausedAt (resumed m r) = None" "si_resolvedAt (resumed m r) = si_resolvedAt r"
  "si_pausedMinutes (resumed m r) = si_pausedMinutes r + m"
  "si_resolveDueAt (resumed m r) = map_option (\<lambda>d. d + m * 60000) (si_resolveDueAt r)"
  by (simp_all add: resumed_def)

lemma reprioritised_simps [simp]:
  "si_id (reprioritised p a d r) = si_id r" "si_incidentId (reprioritised p a d r) = si_incidentId r"
  "si_pausedAt (reprioritised p a d r) = si_pausedAt r"
  "si_resolvedAt (reprioritised p a d r) = si_resolvedAt r"
  "si_pausedMinutes (reprioritised p a d r) = si_pausedMinutes r"
  "si_resolvedAt r = None \<Longrightarrow> si_resolveDueAt (reprioritised p a d r) = Some d"
  "si_firedMilestones (reprioritised p a d r) = si_firedMilestones r"
  by (simp_all add: reprioritised_def)

text \<open>The row after a pause, after a resume and after a change of priority.\<close>

lemma paused_row:
  assumes "findInstance i w = Some inst" "si_resolvedAt inst = None" "si_pausedAt inst = None"
    "shouldPause w inst st"
  shows "findInstance i (snd (onPaused now i st act w)) = Some (inst\<lparr>si_pausedAt := Some now\<rparr>)"
  using findInstance_saved [OF assms(1), of "\<lambda>r. r\<lparr>si_pausedAt := Some now\<rparr>"] assms
  by (simp add: onPaused_def)

lemma resumed_row:
  assumes "findInstance i w = Some inst" "si_pausedAt inst = Some p"
  shows "findInstance i (snd (onResumed now i act w)) = Some (resumed (paused_minutes p now) inst)"
  using findInstance_saved [OF assms(1), of "resumed (paused_minutes p now)"] assms
  by (simp add: onResumed_def)

lemma reprioritised_row:
  assumes "findInstance i w = Some inst" "policy_and_dates st p now w = Inr (pol, a, d)"
  shows "findInstance i (snd (onPriorityChanged now i st p act w)) = Some (reprioritised pol a d inst)"
  using findInstance_saved [OF assms(1), of "reprioritised pol a d"] assms
  by (simp add: onPriorityChanged_def)

lemma paused_minutes_close:
  assumes "p \<le> now"
  shows "\<bar>paused_minutes p now * 60000 - (now - p)\<bar> \<le> 30000" "0 \<le> paused_minutes p now"
proof -
  have "0 \<le> (now - p + 30000) div 60000" using assms by (simp add: pos_imp_zdiv_nonneg_iff)
  then have m: "paused_minutes p now = (now - p + 30000) div 60000" by (simp add: paused_minutes_def)
  show "\<bar>paused_minutes p now * 60000 - (now - p)\<bar> \<le> 30000"
    using div_mult_mod_eq [of "now - p + 30000" 60000] pos_mod_bound [of 60000 "now - p + 30000"]
      pos_mod_sign [of 60000 "now - p + 30000"] unfolding m by linarith
qed (simp add: paused_minutes_def)

section \<open>The clock as a transition system\<close>

inductive sla_step :: "world \<Rightarrow> world \<Rightarrow> bool" where
  sla_start: "sla_step w (snd (startForIncident now i st p act w))"
| sla_ack: "sla_step w (snd (onAcknowledged now i t act w))"
| sla_resolve: "sla_step w (snd (onResolved now i t act w))"
| sla_pause: "sla_step w (snd (onPaused now i s act w))"
| sla_resume: "sla_step w (snd (onResumed now i act w))"
| sla_priority: "sla_step w (snd (onPriorityChanged now i st p act w))"
| sla_reopen: "sla_step w (snd (onReopened now i act w))"

inductive_cases sla_stepE: "sla_step w w'"

definition instance_ok :: "sla_instance \<Rightarrow> bool" where
  "instance_ok r \<longleftrightarrow> (si_pausedAt r = None \<or> si_resolvedAt r = None) \<and> 0 \<le> si_pausedMinutes r \<and>
     si_ackDueAt r \<noteq> None \<and> si_resolveDueAt r \<noteq> None"

definition sla_inv :: "world \<Rightarrow> bool" where
  "sla_inv w \<longleftrightarrow> list_all instance_ok (sla_instances w) \<and> keys_ok sla_instances si_id w"

lemma sla_inv_save:
  assumes inv: "sla_inv w" and b: "b \<in> set (sla_instances w)"
    and f: "instance_ok b \<Longrightarrow> instance_ok (f b)" "\<And>r. si_id (f r) = si_id r"
  shows "sla_inv (snd (save_instance now b f action act w))"
proof -
  have only_b: "r = b" if "r \<in> set (sla_instances w)" "si_id r = si_id b" for r
    using inv b that by (auto simp: sla_inv_def keys_ok_def distinct_map dest: inj_onD)
  have ok: "instance_ok r" if "r \<in> set (sla_instances w)" for r
    using inv that by (simp add: sla_inv_def list_all_iff)
  have "instance_ok (f r)" if "r \<in> set (sla_instances w)" "si_id r = si_id b" for r
    using f(1) [OF ok [OF b]] only_b [OF that] by simp
  then have "list_all instance_ok (update_by si_id (si_id b) f (sla_instances w))"
    using ok by (auto simp: list_all_iff in_set_update_by)
  moreover have "keys_ok sla_instances si_id (snd (save_instance now b f action act w))"
    by (rule keys_ok_same [of _ _ w]) (use inv f(2) in \<open>auto simp: sla_inv_def map_key_update_by\<close>)
  ultimately show ?thesis by (simp add: sla_inv_def)
qed

lemma findInstance_in: "findInstance i w = Some b \<Longrightarrow> b \<in> set (sla_instances w)"
  using find_by_SomeD by (fastforce simp: findInstance_def)

lemma sla_inv_hooks:
  assumes inv: "sla_inv w"
  shows "sla_inv (snd (onAcknowledged now i t act w))"
    "sla_inv (snd (onResolved now i t act w))"
    "sla_inv (snd (onPaused now i s act w))"
    "sla_inv (snd (onResumed now i act w))"
    "sla_inv (snd (onPriorityChanged now i st p act w))"
    "sla_inv (snd (onReopened now i act w))"
proof -
  note save = sla_inv_save [OF inv findInstance_in]
  note f_simps = instance_ok_def resumed_def reprioritised_def paused_minutes_def
  show "sla_inv (snd (onAcknowledged now i t act w))"
    unfolding onAcknowledged_def
    by (cases "findInstance i w") (auto simp: inv f_simps simp del: save_instance_eval intro!: save)
  show "sla_inv (snd (onResolved now i t act w))"
    unfolding onResolved_def
    by (cases "findInstance i w") (auto simp: inv f_simps simp del: save_instance_eval intro!: save)
  show "sla_inv (snd (onPaused now i s act w))"
    unfolding onPaused_def
    by (cases "findInstance i w") (auto simp: inv f_simps simp del: save_instance_eval intro!: save)
  show "sla_inv (snd (onResumed now i act w))"
    unfolding onResumed_def
    by (cases "findInstance i w")
      (auto simp: inv f_simps simp del: save_instance_eval split: option.split intro!: save)
  show "sla_inv (snd (onPriorityChanged now i st p act w))"
    unfolding onPriorityChanged_def
    by (cases "findInstance i w"; cases "policy_and_dates st p now w")
      (auto simp: inv f_simps simp del: save_instance_eval intro!: save)
  show "sla_inv (snd (onReopened now i act w))"
    unfolding onReopened_def
    by (cases "findInstance i w") (auto simp: inv f_simps simp del: save_instance_eval intro!: save)
qed

lemma sla_inv_start:
  assumes "sla_inv w"
  shows "sla_inv (snd (startForIncident now i st p act w))"
proof (cases "policy_and_dates st p now w")
  case (Inl err)
  then show ?thesis using assms by (simp add: startForIncident_def)
next
  case (Inr v)
  obtain pol a d where v: "v = (pol, a, d)" by (cases v)
  let ?w = "snd (startForIncident now i st p act w)"
  let ?r = "new_instance (env_uuid (env w) (uuid_next w)) i pol a d"
  have rows: "sla_instances ?w = sla_instances w @ [?r]" using Inr by (simp add: v Let_def)
  have "keys_ok sla_instances si_id ?w"
    by (rule keys_ok_insert [OF _ _ _ rows])
      (use assms Inr in \<open>simp_all add: sla_inv_def v new_instance_def Let_def\<close>)
  then show ?thesis using assms rows by (simp add: sla_inv_def instance_ok_def new_instance_def)
qed

interpretation sla_clock: invariant_system sla_step sla_inv
proof
  fix w w'
  assume "sla_step w w'" "sla_inv w"
  then show "sla_inv w'" by (cases rule: sla_step.cases) (auto intro: sla_inv_hooks sla_inv_start)
qed

section \<open>A small database\<close>

definition p1_policy :: sla_policy where
  "p1_policy = \<lparr>sp_id = ''pol-1'', sp_name = ''P1'', sp_priority = P1, sp_ackTargetMinutes = 15,
     sp_resolveTargetMinutes = 240, sp_usesBusinessCalendar = False,
     sp_escalationThresholdsPercent = [50, 75, 90], sp_pausesOnPendingVendor = True,
     sp_pausesOnPendingCustomer = True, sp_effectiveFrom = 0, sp_effectiveTo = None, sp_isActive = True\<rparr>"

definition sample_clock :: sla_instance where
  "sample_clock = new_instance ''0'' ''inc-1'' p1_policy 900000 14400000"

definition sla_sample :: world where
  "sla_sample = empty_world\<lparr>uuid_next := 1, sla_policies := [p1_policy], sla_instances := [sample_clock]\<rparr>"

lemma sla_sample_simps [simp]:
  "findInstance ''inc-1'' sla_sample = Some sample_clock"
  "shouldPause sla_sample sample_clock PENDING_VENDOR"
  "policy_and_dates ''BLR'' P1 t sla_sample = (if t < 0 then Inl (NotFound ''No active SLA policy configured for priority'')
     else Inr (p1_policy, t + 900000, t + 14400000))"
  by (simp_all add: sla_sample_def sample_clock_def p1_policy_def findInstance_def new_instance_def
      shouldPause_def policy_and_dates_def resolvePolicy_def policy_in_force_def computeDueDates_def
      addBusinessMinutes_def)

lemma sample_clock_simps [simp]:
  "si_resolvedAt sample_clock = None" "si_pausedAt sample_clock = None"
  "si_resolveDueAt sample_clock = Some 14400000" "si_pausedMinutes sample_clock = 0"
  by (simp_all add: sample_clock_def new_instance_def)

lemma sla_sample_inv: "sla_inv sla_sample"
  by (auto simp: sla_inv_def keys_ok_def sla_sample_def empty_world_def sample_clock_def new_instance_def
      instance_ok_def issued_def nat_str_zero intro: injI nat_str_inj)

definition sample_actor :: actor_context where
  "sample_actor = \<lparr>actorId = ''u-1'', correlationId = None\<rparr>"

section \<open>The properties\<close>

text \<open>
  C40: whatever sequence of hooks runs, in any order, for any incidents and at any times, every
  clock in the database stays well formed: a clock is never paused and stopped at once, its
  paused minutes never go negative, it keeps both deadlines, and ids stay unique.
\<close>

theorem sla_clock_well_formed:
  assumes "sla_step\<^sup>*\<^sup>* w w'" "sla_inv w"
  shows "list_all instance_ok (sla_instances w') \<and> distinct (map si_id (sla_instances w'))"
  using sla_clock.run_inv [OF assms] by (simp add: sla_inv_def keys_ok_def)

theorem sla_clock_well_formed_witness:
  "list_all instance_ok (sla_instances (snd (onPaused 5 ''inc-1'' PENDING_VENDOR sample_actor sla_sample))) \<and>
   distinct (map si_id (sla_instances (snd (onPaused 5 ''inc-1'' PENDING_VENDOR sample_actor sla_sample))))"
  by (rule sla_clock_well_formed [OF r_into_rtranclp [of sla_step, OF sla_pause] sla_sample_inv])

text \<open>
  The time a ticket waits for a vendor or a customer does not count against its resolution
  deadline: after a pause at one instant and a resume at a later one the deadline has moved by
  the time between, to the nearest minute (so by at most half a minute too much or too little),
  the total of paused minutes has grown by the same amount, and the clock runs again.
\<close>

theorem pause_resume_shifts_deadline:
  assumes "findInstance i w = Some inst" "si_resolvedAt inst = None" "si_pausedAt inst = None"
    "si_resolveDueAt inst = Some due" "shouldPause w inst st" "t0 \<le> t1"
    "findInstance i w1 = findInstance i (snd (onPaused t0 i st act w))"
  shows "\<exists>inst' m. findInstance i (snd (onResumed t1 i act' w1)) = Some inst' \<and>
     si_pausedAt inst' = None \<and> si_resolvedAt inst' = None \<and>
     si_pausedMinutes inst' = si_pausedMinutes inst + m \<and>
     si_resolveDueAt inst' = Some (due + m * 60000) \<and> \<bar>m * 60000 - (t1 - t0)\<bar> \<le> 30000"
proof -
  let ?m = "paused_minutes t0 t1"
  have row: "findInstance i w1 = Some (inst\<lparr>si_pausedAt := Some t0\<rparr>)"
    using assms(7) paused_row [OF assms(1-3,5)] by simp
  then have "findInstance i (snd (onResumed t1 i act' w1)) = Some (resumed ?m (inst\<lparr>si_pausedAt := Some t0\<rparr>))"
    by (rule resumed_row) simp
  then show ?thesis using assms(2,4) paused_minutes_close(1) [OF assms(6)] by auto
qed

theorem pause_resume_shifts_deadline_witness:
  "\<exists>inst' m. findInstance ''inc-1'' (snd (onResumed 700000 ''inc-1'' sample_actor
       (snd (onPaused 60000 ''inc-1'' PENDING_VENDOR sample_actor sla_sample)))) = Some inst' \<and>
     si_pausedAt inst' = None \<and> si_resolvedAt inst' = None \<and> si_pausedMinutes inst' = 0 + m \<and>
     si_resolveDueAt inst' = Some (14400000 + m * 60000) \<and> \<bar>m * 60000 - (700000 - 60000)\<bar> \<le> 30000"
  using pause_resume_shifts_deadline [of "''inc-1''" sla_sample sample_clock 14400000 PENDING_VENDOR 60000 700000
    "snd (onPaused 60000 ''inc-1'' PENDING_VENDOR sample_actor sla_sample)" sample_actor sample_actor]
  by simp

text \<open>
  A change of priority while the clock is paused recomputes the deadline from that moment
  but keeps the start of the pause, so the following resume extends the new deadline by the whole
  pause, also by the part of it before the recomputation.
\<close>

theorem priority_change_while_paused:
  assumes "findInstance i w = Some inst" "si_resolvedAt inst = None" "si_pausedAt inst = Some t0"
    "policy_and_dates st p t1 w = Inr (pol, ackDue, resolveDue)"
  shows "\<exists>inst'. findInstance i (snd (onResumed t2 i act' (snd (onPriorityChanged t1 i st p act w)))) = Some inst' \<and>
     si_resolveDueAt inst' = Some (resolveDue + paused_minutes t0 t2 * 60000)"
proof -
  have "findInstance i (snd (onPriorityChanged t1 i st p act w)) = Some (reprioritised pol ackDue resolveDue inst)"
    by (rule reprioritised_row [OF assms(1,4)])
  then have "findInstance i (snd (onResumed t2 i act' (snd (onPriorityChanged t1 i st p act w)))) =
      Some (resumed (paused_minutes t0 t2) (reprioritised pol ackDue resolveDue inst))"
    by (rule resumed_row) (simp add: assms(3))
  then show ?thesis using assms(2) by simp
qed

theorem priority_change_while_paused_witness:
  "\<exists>inst'. findInstance ''inc-1'' (snd (onResumed 700000 ''inc-1'' sample_actor
      (snd (onPriorityChanged 600000 ''inc-1'' ''BLR'' P1 sample_actor
        (sla_sample\<lparr>sla_instances := [sample_clock\<lparr>si_pausedAt := Some 60000\<rparr>]\<rparr>))))) = Some inst' \<and>
     si_resolveDueAt inst' = Some (600000 + 14400000 + paused_minutes 60000 700000 * 60000)"
  by (rule priority_change_while_paused [where inst = "sample_clock\<lparr>si_pausedAt := Some 60000\<rparr>"
        and pol = p1_policy and ackDue = 1500000])
    (simp_all add: findInstance_def sample_clock_def new_instance_def policy_and_dates_def resolvePolicy_def
      sla_sample_def p1_policy_def policy_in_force_def computeDueDates_def addBusinessMinutes_def)

text \<open>
  The policy in force for a priority at an instant is an active one of that priority whose
  effective window contains the instant, and none of those is more recent; the lookup fails
  exactly when there is none.
\<close>

theorem resolvePolicy_most_recent:
  "(resolvePolicy prio at w = Inl e \<longrightarrow> \<not> (\<exists>p \<in> set (sla_policies w). policy_in_force prio at p)) \<and>
   (resolvePolicy prio at w = Inr p \<longrightarrow>
      p \<in> set (sla_policies w) \<and> policy_in_force prio at p \<and>
      (\<forall>q \<in> set (sla_policies w). policy_in_force prio at q \<longrightarrow> sp_effectiveFrom q \<le> sp_effectiveFrom p))"
proof -
  let ?l = "sort_key (\<lambda>p. - sp_effectiveFrom p) (filter (policy_in_force prio at) (sla_policies w))"
  have "set ?l = {p \<in> set (sla_policies w). policy_in_force prio at p}" by simp
  moreover have "sorted (map (\<lambda>p. - sp_effectiveFrom p) ?l)" by (rule sorted_sort_key)
  ultimately show ?thesis
    by (cases ?l) (auto simp: resolvePolicy_def)
qed

theorem resolvePolicy_most_recent_witness:
  "resolvePolicy P1 7 sla_sample = Inr p1_policy \<and> policy_in_force P1 7 p1_policy"
  using resolvePolicy_most_recent [of P1 7 sla_sample _ p1_policy]
  by (simp add: resolvePolicy_def sla_sample_def policy_in_force_def p1_policy_def)

end
