(* ===== verification/Incidents.thy ===== *)
theory Incidents
  imports Incident_Rules Incident_Notices Sla
begin

text \<open>
  The incident service (\<^verbatim>\<open>incidents/incidents.service.ts\<close>): reading with its site and customer
  scoping, creation (by staff, by a customer, from an alert), editing, the status transitions,
  the assignment made by routing, alert links, comments and attachments. Every write is one
  transaction that also writes the timeline and the audit trail and drives the SLA clock; the
  notifications follow the commit.
\<close>

section \<open>Reading\<close>

definition assertSiteAccess :: "auth_user \<Rightarrow> uuid \<Rightarrow> world \<Rightarrow> http_error + unit" where
  "assertSiteAccess u siteId w =
     (if canAccessSite w u siteId then Inr () else Inl (Forbidden ''You do not have access to this site''))"

record incident_query =
  iq_siteId :: "uuid option"
  iq_status :: "incident_status option"
  iq_priority :: "priority option"
  iq_ownerUserId :: "uuid option"
  iq_ownerGroupId :: "uuid option"
  iq_ciId :: "uuid option"
  iq_slaAtRisk :: bool
  iq_q :: "string option"
  iq_limit :: "nat option"
  iq_offset :: "nat option"

definition incident_siteFilter :: "uuid list option \<Rightarrow> uuid option \<Rightarrow> uuid list option" where
  "incident_siteFilter accessible siteId =
     (case accessible of
        Some ids \<Rightarrow> Some (if truthy siteId \<and> the siteId \<in> set ids then [the siteId] else ids)
      | None \<Rightarrow> (if truthy siteId then Some [the siteId] else None))"

definition matches_opt :: "'a option \<Rightarrow> 'a option \<Rightarrow> bool" where
  "matches_opt q v = (case q of None \<Rightarrow> True | Some x \<Rightarrow> v = Some x)"

definition incident_where ::
  "world \<Rightarrow> incident_query \<Rightarrow> uuid list option \<Rightarrow> auth_user \<Rightarrow> incident \<Rightarrow> bool" where
  "incident_where w q accessible u i \<longleftrightarrow>
     (case incident_siteFilter accessible (iq_siteId q) of None \<Rightarrow> True | Some ids \<Rightarrow> i_siteId i \<in> set ids) \<and>
     (au_role u = CLIENT_MANAGER_VIEWER \<longrightarrow> i_reportedByUserId i = Some (au_id u)) \<and>
     (case iq_status q of
        Some s \<Rightarrow> i_status i = s
      | None \<Rightarrow> (iq_slaAtRisk q \<longrightarrow> i_status i \<in> set OPEN_STATUSES)) \<and>
     matches (iq_priority q) (i_priority i) \<and>
     matches_opt (iq_ownerUserId q) (i_ownerUserId i) \<and>
     matches_opt (iq_ownerGroupId q) (i_ownerGroupId i) \<and>
     matches_opt (iq_ciId q) (i_ciId i) \<and>
     (iq_slaAtRisk q \<longrightarrow>
        list_ex (\<lambda>s. si_incidentId s = i_id i \<and> \<not> si_breached s \<and> si_firedMilestones s \<noteq> []) (sla_instances w)) \<and>
     (truthy (iq_q q) \<longrightarrow>
        icontains (the (iq_q q)) (i_incidentNo i) \<or> icontains (the (iq_q q)) (i_shortDescription i))"

definition incidentsFindAll ::
  "incident_query \<Rightarrow> uuid list option \<Rightarrow> auth_user \<Rightarrow> world \<Rightarrow> incident paginated" where
  "incidentsFindAll q accessible u w =
     page_desc (incident_where w q accessible u) i_createdAt
       (option_default 50 (iq_limit q)) (option_default 0 (iq_offset q)) (incidents w)"

definition findOne :: "uuid \<Rightarrow> world \<Rightarrow> http_error + incident" where
  "findOne i w =
     (case find_by i_id i (incidents w) of None \<Rightarrow> Inl (NotFound ''Incident not found'') | Some inc \<Rightarrow> Inr inc)"

definition findOneScoped :: "uuid \<Rightarrow> auth_user \<Rightarrow> world \<Rightarrow> http_error + incident" where
  "findOneScoped i u w =
     (case findOne i w of
        Inl err \<Rightarrow> Inl err
      | Inr inc \<Rightarrow>
          (case assertSiteAccess u (i_siteId inc) w of
             Inl err \<Rightarrow> Inl err
           | Inr _ \<Rightarrow>
               if au_role u = CLIENT_MANAGER_VIEWER \<and> i_reportedByUserId inc \<noteq> Some (au_id u)
               then Inl (Forbidden ''You do not have access to this incident'')
               else Inr inc))"

text \<open>The counts of the \<open>groupBy\<close>, as a function: 0 where the source's map has no entry.\<close>

definition countOpenOwnedByPriority :: "world \<Rightarrow> uuid list \<Rightarrow> uuid \<Rightarrow> priority \<Rightarrow> nat" where
  "countOpenOwnedByPriority w userIds u p =
     (if u \<in> set userIds
      then length (filter (\<lambda>i. i_ownerUserId i = Some u \<and> i_priority i = p \<and> i_status i \<in> set OPEN_STATUSES)
                     (incidents w))
      else 0)"

section \<open>Writing\<close>

definition add_event :: "instant \<Rightarrow> uuid \<Rightarrow> uuid option \<Rightarrow> event_body \<Rightarrow> unit op" where
  "add_event now incidentId actor body =
     bindM freshId (\<lambda>i. modifyM (\<lambda>w. w\<lparr>events := events w @
       [\<lparr>e_id = i, e_incidentId = incidentId, e_actorId = actor, e_body = body, e_createdAt = now\<rparr>]\<rparr>))"

text \<open>The foreign keys of an incident row.\<close>

definition incident_refs_ok :: "world \<Rightarrow> incident \<Rightarrow> bool" where
  "incident_refs_ok w i \<longleftrightarrow>
     i_siteId i \<in> s_id ` set (sites w) \<and>
     (case i_ciId i of None \<Rightarrow> True | Some c \<Rightarrow> c \<in> ci_id ` set (cis w)) \<and>
     (case i_ownerGroupId i of None \<Rightarrow> True | Some g \<Rightarrow> g \<in> g_id ` set (groups w)) \<and>
     (case i_ownerUserId i of None \<Rightarrow> True | Some u \<Rightarrow> u \<in> u_id ` set (users w)) \<and>
     (case i_reportedByUserId i of None \<Rightarrow> True | Some u \<Rightarrow> u \<in> u_id ` set (users w))"

definition fk_error :: http_error where
  "fk_error = PrismaKnown ''P2003''"

definition insert_incident :: "incident \<Rightarrow> unit op" where
  "insert_incident i =
     bindM (getM (\<lambda>w. incident_refs_ok w i)) (\<lambda>ok.
     bindM (guardM ok fk_error) (\<lambda>_.
     modifyM (\<lambda>w. w\<lparr>incidents := incidents w @ [i]\<rparr>)))"

text \<open>\<open>tx.incident.update\<close>: Prisma sets \<open>updatedAt\<close>; the new row is returned.\<close>

definition update_incident :: "instant \<Rightarrow> uuid \<Rightarrow> (incident \<Rightarrow> incident) \<Rightarrow> incident op" where
  "update_incident now i f =
     bindM (getM (\<lambda>w. find_by i_id i (incidents w))) (\<lambda>row.
     case row of
       None \<Rightarrow> throw (Internal ''Record to update not found'')
     | Some r \<Rightarrow>
         let r' = (f r)\<lparr>i_updatedAt := now\<rparr>
         in bindM (getM (\<lambda>w. incident_refs_ok w r')) (\<lambda>ok.
            bindM (guardM ok fk_error) (\<lambda>_.
            bindM (modifyM (\<lambda>w. w\<lparr>incidents := update_by i_id i (\<lambda>_. r') (incidents w)\<rparr>)) (\<lambda>_.
            ret r'))))"

definition nextIncidentNo :: "string op" where
  "nextIncidentNo = (\<lambda>w.
     (Inr (''INC-'' @ padStart 6 (CHR ''0'') (nat_str (incident_no_seq w))),
      w\<lparr>incident_no_seq := Suc (incident_no_seq w)\<rparr>))"

record create_incident_dto =
  cd_siteId :: uuid
  cd_ciId :: "uuid option"
  cd_category :: string
  cd_impact :: string
  cd_urgency :: string
  cd_priority :: priority
  cd_shortDescription :: string

definition new_incident ::
  "instant \<Rightarrow> uuid \<Rightarrow> string \<Rightarrow> create_incident_dto \<Rightarrow> uuid option \<Rightarrow> incident" where
  "new_incident now i no dto reportedBy =
     \<lparr>i_id = i, i_incidentNo = no, i_siteId = cd_siteId dto, i_ciId = cd_ciId dto, i_status = NEW,
      i_priority = cd_priority dto, i_category = cd_category dto, i_impact = cd_impact dto,
      i_urgency = cd_urgency dto, i_shortDescription = cd_shortDescription dto,
      i_ownerGroupId = None, i_ownerUserId = None, i_reportedByUserId = reportedBy,
      i_acknowledgedAt = None, i_resolutionCategory = None, i_rootCauseSummary = None,
      i_restoredAt = None, i_closedAt = None, i_createdAt = now, i_updatedAt = now\<rparr>"

definition createInTx ::
  "instant \<Rightarrow> create_incident_dto \<Rightarrow> actor_context \<Rightarrow> uuid option \<Rightarrow> (string \<times> uuid) option \<Rightarrow> incident op" where
  "createInTx now dto actor reportedBy origin =
     bindM nextIncidentNo (\<lambda>no.
     bindM freshId (\<lambda>i.
     let inc = new_incident now i no dto reportedBy
     in bindM (insert_incident inc) (\<lambda>_.
        bindM (add_event now i (Some (actorId actor)) (CREATED (i_status inc) origin)) (\<lambda>_.
        bindM (auditRecord now (Some (actorId actor)) ''Incident'' i ''CREATE'' None
                 (Some (SnapIncident inc)) (correlationId actor)) (\<lambda>_.
        bindM (startForIncident now i (i_siteId inc) (i_priority inc) actor) (\<lambda>_.
        ret inc))))))"

definition emit :: "domain_event \<Rightarrow> unit op" where
  "emit e = modifyM (\<lambda>w. w\<lparr>emitted := emitted w @ [e]\<rparr>)"

definition afterCreate :: "instant \<Rightarrow> incident \<Rightarrow> actor_context \<Rightarrow> unit op" where
  "afterCreate now inc actor =
     bindM (notifyServiceDeskOfNewIncident now inc (actorId actor)) (\<lambda>_.
     emit (IncidentCreatedEvent (i_id inc) (i_siteId inc) (correlationId actor)))"

definition incidentCreate ::
  "instant \<Rightarrow> create_incident_dto \<Rightarrow> actor_context \<Rightarrow> uuid option \<Rightarrow> incident op" where
  "incidentCreate now dto actor reportedBy =
     bindM (transaction (createInTx now dto actor reportedBy None)) (\<lambda>inc.
     bindM (afterCreate now inc actor) (\<lambda>_.
     ret inc))"

section \<open>Comments and reads of the ticket page\<close>

definition commentInTx :: "instant \<Rightarrow> uuid \<Rightarrow> string \<Rightarrow> bool \<Rightarrow> actor_context \<Rightarrow> incident_comment op" where
  "commentInTx now incidentId body isInternal actor =
     bindM freshId (\<lambda>i.
     let comment = \<lparr>c_id = i, c_incidentId = incidentId, c_authorId = actorId actor, c_body = body,
                    c_isInternal = isInternal, c_createdAt = now\<rparr>
     in bindM (modifyM (\<lambda>w. w\<lparr>comments := comments w @ [comment]\<rparr>)) (\<lambda>_.
        bindM (add_event now incidentId (Some (actorId actor)) (COMMENT i isInternal)) (\<lambda>_.
        bindM (auditRecord now (Some (actorId actor)) ''IncidentComment'' i ''CREATE'' None
                 (Some (SnapComment comment)) (correlationId actor)) (\<lambda>_.
        ret comment))))"

definition createComment ::
  "instant \<Rightarrow> uuid \<Rightarrow> string \<Rightarrow> bool option \<Rightarrow> actor_context \<Rightarrow> auth_user \<Rightarrow> incident_comment op" where
  "createComment now incidentId body internal actor u =
     bindM (readM (findOneScoped incidentId u)) (\<lambda>inc.
     let isInternal = (if au_role u = CLIENT_MANAGER_VIEWER then False else option_default True internal)
     in bindM (transaction (commentInTx now incidentId body isInternal actor)) (\<lambda>comment.
        bindM (notifyComment now inc comment u) (\<lambda>_.
        ret comment)))"

definition listComments :: "uuid \<Rightarrow> auth_user \<Rightarrow> world \<Rightarrow> http_error + incident_comment list" where
  "listComments incidentId u w =
     (case findOneScoped incidentId u w of
        Inl err \<Rightarrow> Inl err
      | Inr _ \<Rightarrow>
          (let cs = sort_key c_createdAt (filter (\<lambda>c. c_incidentId c = incidentId) (comments w))
           in Inr (if au_role u = CLIENT_MANAGER_VIEWER then filter (\<lambda>c. \<not> c_isInternal c) cs else cs)))"

definition listEvents :: "uuid \<Rightarrow> auth_user \<Rightarrow> world \<Rightarrow> http_error + incident_event list" where
  "listEvents incidentId u w =
     (case findOneScoped incidentId u w of
        Inl err \<Rightarrow> Inl err
      | Inr _ \<Rightarrow> Inr (sort_key e_createdAt (filter (\<lambda>e. e_incidentId e = incidentId) (events w))))"

definition findSlaState :: "uuid \<Rightarrow> auth_user \<Rightarrow> world \<Rightarrow> http_error + sla_instance option" where
  "findSlaState incidentId u w =
     (case findOneScoped incidentId u w of
        Inl err \<Rightarrow> Inl err
      | Inr _ \<Rightarrow> Inr (findForIncident incidentId w))"

record customer_incident_dto =
  cc_siteId :: uuid
  cc_category :: string
  cc_shortDescription :: string
  cc_details :: "string option"

definition createFromCustomer ::
  "instant \<Rightarrow> customer_incident_dto \<Rightarrow> actor_context \<Rightarrow> auth_user \<Rightarrow> incident op" where
  "createFromCustomer now dto actor u =
     bindM (readM (assertSiteAccess u (cc_siteId dto))) (\<lambda>_.
     bindM (incidentCreate now \<lparr>cd_siteId = cc_siteId dto, cd_ciId = None, cd_category = cc_category dto,
              cd_impact = ''MEDIUM'', cd_urgency = ''MEDIUM'', cd_priority = P3,
              cd_shortDescription = cc_shortDescription dto\<rparr> actor (Some (au_id u))) (\<lambda>inc.
     bindM (if truthy (cc_details dto)
            then bindM (createComment now (i_id inc) (the (cc_details dto)) (Some False) actor u) (\<lambda>_. ret ())
            else ret ()) (\<lambda>_.
     ret inc)))"

section \<open>Editing\<close>

record update_incident_dto =
  ud_shortDescription :: "string option"
  ud_category :: "string option"
  ud_impact :: "string option"
  ud_urgency :: "string option"
  ud_ciId :: "uuid patch"
  ud_ownerGroupId :: "uuid patch"
  ud_ownerUserId :: "uuid patch"
  ud_priority :: "priority option"

definition patch_changes :: "'a patch \<Rightarrow> 'a option \<Rightarrow> bool" where
  "patch_changes p old = (case p of None \<Rightarrow> False | Some v \<Rightarrow> v \<noteq> old)"

definition patch_incident :: "update_incident_dto \<Rightarrow> incident \<Rightarrow> incident" where
  "patch_incident d i = i\<lparr>
     i_shortDescription := patched (ud_shortDescription d) (i_shortDescription i),
     i_category := patched (ud_category d) (i_category i),
     i_impact := patched (ud_impact d) (i_impact i),
     i_urgency := patched (ud_urgency d) (i_urgency i),
     i_ciId := patched (ud_ciId d) (i_ciId i),
     i_ownerGroupId := patched (ud_ownerGroupId d) (i_ownerGroupId i),
     i_ownerUserId := patched (ud_ownerUserId d) (i_ownerUserId i),
     i_priority := patched (ud_priority d) (i_priority i)\<rparr>"

definition emitUpdated :: "incident \<Rightarrow> actor_context \<Rightarrow> unit op" where
  "emitUpdated after actor =
     emit (IncidentUpdatedEvent (i_id after) (i_status after) (i_ownerUserId after) (i_ownerGroupId after)
       (Some (actorId actor)) (correlationId actor))"

definition updateInTx ::
  "instant \<Rightarrow> uuid \<Rightarrow> update_incident_dto \<Rightarrow> incident \<Rightarrow> bool \<Rightarrow> bool \<Rightarrow> actor_context \<Rightarrow> incident op" where
  "updateInTx now i dto before ownerChanged priorityChanged actor =
     bindM (update_incident now i (patch_incident dto)) (\<lambda>after.
     bindM (if ownerChanged
            then add_event now i (Some (actorId actor))
                   (OWNER_CHANGE (i_ownerUserId before) (i_ownerUserId after)
                      (i_ownerGroupId before) (i_ownerGroupId after))
            else ret ()) (\<lambda>_.
     bindM (auditRecord now (Some (actorId actor)) ''Incident'' i ''UPDATE'' (Some (SnapIncident before))
              (Some (SnapIncident after)) (correlationId actor)) (\<lambda>_.
     bindM (if priorityChanged then onPriorityChanged now i (i_siteId before) (i_priority after) actor
            else ret ()) (\<lambda>_.
     ret after))))"

definition incidentUpdate ::
  "instant \<Rightarrow> uuid \<Rightarrow> update_incident_dto \<Rightarrow> auth_user \<Rightarrow> actor_context \<Rightarrow> incident op" where
  "incidentUpdate now i dto u actor =
     bindM (readM (findOneScoped i u)) (\<lambda>before.
     let ownerChanged = (patch_changes (ud_ownerGroupId dto) (i_ownerGroupId before) \<or>
                         patch_changes (ud_ownerUserId dto) (i_ownerUserId before));
         priorityChanged = (case ud_priority dto of None \<Rightarrow> False | Some p \<Rightarrow> p \<noteq> i_priority before)
     in bindM (guardM (\<not> ((ownerChanged \<or> priorityChanged) \<and> au_role u \<notin> set INCIDENT_ROUTING_ROLES))
          (Forbidden ''Only Service Desk/NOC or an elevated role can reassign ownership or override priority'')) (\<lambda>_.
        bindM (transaction (updateInTx now i dto before ownerChanged priorityChanged actor)) (\<lambda>after.
        bindM (if ownerChanged \<and> truthy (i_ownerUserId after)
               then notifyAssignment now after (i_ownerUserId after) (Some (actorId actor))
               else if ownerChanged \<and> truthy (i_ownerGroupId after) \<and> \<not> truthy (i_ownerUserId after)
               then notifyGroupAssignment now after (the (i_ownerGroupId after)) (Some (actorId actor))
               else ret ()) (\<lambda>_.
        bindM (emitUpdated after actor) (\<lambda>_.
        ret after)))))"

section \<open>Status transitions\<close>

definition findOpenAlertsForIncident :: "uuid \<Rightarrow> world \<Rightarrow> alert list" where
  "findOpenAlertsForIncident incidentId w =
     sort_key (\<lambda>a. - al_lastSeenAt a)
       (filter (\<lambda>a. al_correlatedIncidentId a = Some incidentId \<and> al_state a \<noteq> A_RECOVERED) (alerts w))"

definition transition_checks ::
  "incident \<Rightarrow> transition_dto \<Rightarrow> auth_user \<Rightarrow> world \<Rightarrow> http_error + alert list" where
  "transition_checks inc dto u w =
     (case check_transition inc dto u of
        Inl err \<Rightarrow> Inl err
      | Inr _ \<Rightarrow>
          if td_toStatus dto \<noteq> RESOLVED then Inr []
          else (let openAlerts = findOpenAlertsForIncident (i_id inc) w
                in if openAlerts \<noteq> [] \<and> \<not> truthy (td_reason dto)
                   then Inl (BadRequest ''linked alert(s) are still OPEN. Provide reason to resolve anyway.'')
                   else Inr openAlerts))"

definition transition_data :: "instant \<Rightarrow> transition_dto \<Rightarrow> incident \<Rightarrow> incident" where
  "transition_data now dto i =
     (let i = i\<lparr>i_status := td_toStatus dto,
                i_ownerGroupId := patched (td_ownerGroupId dto) (i_ownerGroupId i),
                i_ownerUserId := patched (td_ownerUserId dto) (i_ownerUserId i)\<rparr>;
          i = (if td_toStatus dto = ACKNOWLEDGED then i\<lparr>i_acknowledgedAt := Some now\<rparr> else i);
          i = (if td_toStatus dto = RESOLVED
               then i\<lparr>i_resolutionCategory := option_or (td_resolutionCategory dto) (i_resolutionCategory i),
                      i_rootCauseSummary := option_or (td_rootCauseSummary dto) (i_rootCauseSummary i),
                      i_restoredAt := Some now\<rparr>
               else i)
      in if td_toStatus dto = CLOSED then i\<lparr>i_closedAt := Some now\<rparr> else i)"

definition sla_hook ::
  "instant \<Rightarrow> uuid \<Rightarrow> transition_dto \<Rightarrow> incident \<Rightarrow> incident \<Rightarrow> actor_context \<Rightarrow> unit op" where
  "sla_hook now i dto before after actor =
     (if td_toStatus dto = ACKNOWLEDGED \<and> i_acknowledgedAt after \<noteq> None
      then onAcknowledged now i (the (i_acknowledgedAt after)) actor
      else if td_toStatus dto = RESOLVED \<and> i_restoredAt after \<noteq> None
      then onResolved now i (the (i_restoredAt after)) actor
      else if td_toStatus dto = PENDING_VENDOR \<or> td_toStatus dto = PENDING_CUSTOMER
      then onPaused now i (td_toStatus dto) actor
      else if td_toStatus dto = IN_PROGRESS \<and> (i_status before = PENDING_VENDOR \<or> i_status before = PENDING_CUSTOMER)
      then onResumed now i actor
      else if td_toStatus dto = REOPENED then onReopened now i actor
      else ret ())"

definition transitionInTx ::
  "instant \<Rightarrow> uuid \<Rightarrow> transition_dto \<Rightarrow> incident \<Rightarrow> alert list \<Rightarrow> actor_context \<Rightarrow> incident op" where
  "transitionInTx now i dto inc openAlerts actor =
     bindM (update_incident now i (transition_data now dto)) (\<lambda>after.
     bindM (add_event now i (Some (actorId actor))
              (STATUS_CHANGE (i_status inc) (td_toStatus dto) (td_reason dto) (td_resolutionCategory dto)
                 (td_rootCauseSummary dto)
                 (map (\<lambda>a. (al_id a, al_alertType a, al_severity a, al_state a)) openAlerts))) (\<lambda>_.
     bindM (auditRecord now (Some (actorId actor)) ''Incident'' i ''TRANSITION'' (Some (SnapIncident inc))
              (Some (SnapIncident after)) (correlationId actor)) (\<lambda>_.
     bindM (sla_hook now i dto inc after actor) (\<lambda>_.
     ret after))))"

definition createTransition ::
  "instant \<Rightarrow> uuid \<Rightarrow> transition_dto \<Rightarrow> actor_context \<Rightarrow> auth_user \<Rightarrow> incident op" where
  "createTransition now i dto actor u =
     bindM (readM (findOneScoped i u)) (\<lambda>inc.
     bindM (readM (transition_checks inc dto u)) (\<lambda>openAlerts.
     bindM (transaction (transitionInTx now i dto inc openAlerts actor)) (\<lambda>after.
     bindM (notifyStatusChange now inc after (td_reason dto) (Some (actorId actor))) (\<lambda>_.
     bindM (if patch_changes (td_ownerUserId dto) (i_ownerUserId inc)
            then notifyAssignment now after (the (td_ownerUserId dto)) (Some (actorId actor))
            else if patch_changes (td_ownerGroupId dto) (i_ownerGroupId inc) \<and>
                    truthy (i_ownerGroupId after) \<and> \<not> truthy (i_ownerUserId after)
            then notifyGroupAssignment now after (the (i_ownerGroupId after)) (Some (actorId actor))
            else ret ()) (\<lambda>_.
     bindM (emitUpdated after actor) (\<lambda>_.
     ret after))))))"

record available_transition =
  avt_toStatus :: incident_status
  avt_requiredFields :: "transition_field list"
  avt_allowed :: bool
  avt_blockedReason :: "string option"
  avt_hint :: "string option"

definition empty_dto :: "incident_status \<Rightarrow> transition_dto" where
  "empty_dto to = \<lparr>td_toStatus = to, td_reason = None, td_ownerGroupId = None, td_ownerUserId = None,
     td_resolutionCategory = None, td_rootCauseSummary = None\<rparr>"

definition available_of :: "world \<Rightarrow> incident \<Rightarrow> auth_user \<Rightarrow> transition_rule \<Rightarrow> available_transition" where
  "available_of w inc u rule =
     (let allowed = (\<not> tr_requiresOwnerOrElevated rule \<or> isOwnerOrElevated (au_id u) (au_role u) inc);
          hint0 = (case tr_validate rule of None \<Rightarrow> None | Some f \<Rightarrow> f inc (empty_dto (tr_to rule)));
          hint = (if tr_to rule = RESOLVED \<and> findOpenAlertsForIncident (i_id inc) w \<noteq> []
                  then Some ''linked alert(s) still OPEN. A reason will be required to resolve anyway.''
                  else hint0)
      in \<lparr>avt_toStatus = tr_to rule, avt_requiredFields = tr_requiredFields rule, avt_allowed = allowed,
          avt_blockedReason = (if allowed then None
            else Some ''Only the assigned owner or an elevated role can perform this transition''),
          avt_hint = hint\<rparr>)"

definition getAvailableTransitions :: "uuid \<Rightarrow> auth_user \<Rightarrow> world \<Rightarrow> http_error + available_transition list" where
  "getAvailableTransitions i u w =
     (case findOneScoped i u w of
        Inl err \<Rightarrow> Inl err
      | Inr inc \<Rightarrow>
          Inr (map (available_of w inc u)
                 (filter (\<lambda>rule. i_status inc \<in> set (tr_from rule) \<and> au_role u \<in> set (tr_allowedRoles rule))
                    TRANSITION_RULES)))"

section \<open>Routing's seam\<close>

definition recordRoutingEvent :: "instant \<Rightarrow> uuid \<Rightarrow> uuid option \<Rightarrow> string \<Rightarrow> (string \<times> string) list \<Rightarrow> unit op" where
  "recordRoutingEvent now incidentId actor action payload =
     add_event now incidentId actor (ROUTING action payload)"

definition unowned_new :: "incident \<Rightarrow> bool" where
  "unowned_new r \<longleftrightarrow> i_status r = NEW \<and> i_ownerUserId r = None \<and> i_ownerGroupId r = None"

text \<open>
  \<open>autoAssign\<close>: the conditional \<open>updateMany\<close> and its count are one step of the transaction, so
  the row is assigned only if it is still new and unowned at the write.
\<close>

definition assign_data :: "instant \<Rightarrow> uuid \<Rightarrow> uuid option \<Rightarrow> incident \<Rightarrow> incident" where
  "assign_data now owner grp r =
     r\<lparr>i_status := ASSIGNED, i_ownerUserId := Some owner,
       i_ownerGroupId := (if truthy grp then grp else i_ownerGroupId r), i_updatedAt := now\<rparr>"

definition autoAssignInTx ::
  "instant \<Rightarrow> uuid \<Rightarrow> uuid \<Rightarrow> string option \<Rightarrow> uuid option \<Rightarrow> uuid option \<Rightarrow> incident \<Rightarrow> incident option op" where
  "autoAssignInTx now i owner corr acceptedBy grp inc =
     bindM (getM (\<lambda>w. find_by i_id i (incidents w))) (\<lambda>row.
     case row of
       None \<Rightarrow> ret None
     | Some r \<Rightarrow>
         if \<not> unowned_new r then ret None
         else let after = assign_data now owner grp r
              in bindM (getM (\<lambda>w. incident_refs_ok w after)) (\<lambda>ok.
                 bindM (guardM ok fk_error) (\<lambda>_.
                 bindM (modifyM (\<lambda>w. w\<lparr>incidents := update_by i_id i (\<lambda>_. after) (incidents w)\<rparr>)) (\<lambda>_.
                 bindM (add_event now i acceptedBy
                   (ROUTED_ASSIGN (i_status inc) (i_status after) owner (if truthy grp then grp else None)
                      (if truthy acceptedBy then ''ROUTING_OFFER'' else ''SKILL_ROUTING''))) (\<lambda>_.
                 bindM (auditRecord now acceptedBy ''Incident'' i ''TRANSITION'' (Some (SnapIncident inc))
                          (Some (SnapIncident after)) corr) (\<lambda>_.
                 ret (Some after)))))))"

definition autoAssign ::
  "instant \<Rightarrow> uuid \<Rightarrow> uuid \<Rightarrow> string option \<Rightarrow> uuid option \<Rightarrow> uuid option \<Rightarrow> incident option op" where
  "autoAssign now i owner corr acceptedBy grp =
     bindM (readM (findOne i)) (\<lambda>inc.
     if i_status inc \<noteq> NEW \<or> truthy (i_ownerUserId inc) \<or> truthy (i_ownerGroupId inc) then ret None
     else case validate_owner_resolved inc ((empty_dto ASSIGNED)\<lparr>td_ownerUserId := Some (Some owner)\<rparr>) of
       Some msg \<Rightarrow> throw (BadRequest msg)
     | None \<Rightarrow>
         bindM (transaction (autoAssignInTx now i owner corr acceptedBy grp inc)) (\<lambda>after.
         case after of
           None \<Rightarrow> ret None
         | Some a \<Rightarrow>
             bindM (notifyStatusChange now inc a
                      (Some (if truthy acceptedBy then ''Accepted a routing offer''
                             else ''Auto-assigned by skill-based routing'')) acceptedBy) (\<lambda>_.
             bindM (notifyAssignment now a (Some owner) acceptedBy) (\<lambda>_.
             ret (Some a)))))"

section \<open>The alerts' seam\<close>

definition findOpenByCi :: "uuid \<Rightarrow> world \<Rightarrow> incident option" where
  "findOpenByCi ciId w =
     (case sort_key (\<lambda>i. - i_createdAt i)
             (filter (\<lambda>i. i_ciId i = Some ciId \<and> i_status i \<in> set OPEN_STATUSES) (incidents w)) of
        [] \<Rightarrow> None | i # _ \<Rightarrow> Some i)"

definition writeAlertLink :: "instant \<Rightarrow> uuid \<Rightarrow> alert_ref \<Rightarrow> actor_context \<Rightarrow> unit op" where
  "writeAlertLink now incidentId al actor =
     bindM (add_event now incidentId (Some (actorId actor)) (ALERT_LINKED al)) (\<lambda>_.
     auditRecord now (Some (actorId actor)) ''Incident'' incidentId ''ALERT_LINKED'' None
       (Some (SnapAlertLink al)) (correlationId actor))"

definition alert_linked :: "uuid \<Rightarrow> uuid \<Rightarrow> incident_event \<Rightarrow> bool" where
  "alert_linked incidentId alertId e \<longleftrightarrow>
     e_incidentId e = incidentId \<and> (case e_body e of ALERT_LINKED r \<Rightarrow> ra_id r = alertId | _ \<Rightarrow> False)"

definition linkAlert :: "instant \<Rightarrow> uuid \<Rightarrow> alert_ref \<Rightarrow> actor_context \<Rightarrow> bool op" where
  "linkAlert now incidentId al actor =
     bindM (readM (findOne incidentId)) (\<lambda>_.
     bindM (getM (\<lambda>w. list_ex (alert_linked incidentId (ra_id al)) (events w))) (\<lambda>already.
     if already then ret False
     else bindM (transaction (writeAlertLink now incidentId al actor)) (\<lambda>_. ret True)))"

record alert_incident_input =
  ac_siteId :: uuid
  ac_ciId :: uuid
  ac_category :: string
  ac_priority :: priority
  ac_shortDescription :: string
  ac_alert :: alert_ref

fun PRIORITY_IMPACT_URGENCY :: "priority \<Rightarrow> string \<times> string" where
  "PRIORITY_IMPACT_URGENCY P1 = (''HIGH'', ''HIGH'')"
| "PRIORITY_IMPACT_URGENCY P2 = (''HIGH'', ''MEDIUM'')"
| "PRIORITY_IMPACT_URGENCY P3 = (''MEDIUM'', ''MEDIUM'')"
| "PRIORITY_IMPACT_URGENCY P4 = (''LOW'', ''LOW'')"

text \<open>
  The advisory lock makes the check and the insert of this transaction one step with respect to
  the other calls for the same device.
\<close>

definition createFromAlertInTx ::
  "instant \<Rightarrow> alert_incident_input \<Rightarrow> actor_context \<Rightarrow> (incident \<times> bool) op" where
  "createFromAlertInTx now inp actor =
     bindM (getM (findOpenByCi (ac_ciId inp))) (\<lambda>found.
     case found of
       Some inc \<Rightarrow>
         bindM (writeAlertLink now (i_id inc) (ac_alert inp) actor) (\<lambda>_. ret (inc, False))
     | None \<Rightarrow>
         bindM (createInTx now
                  \<lparr>cd_siteId = ac_siteId inp, cd_ciId = Some (ac_ciId inp), cd_category = ac_category inp,
                   cd_impact = fst (PRIORITY_IMPACT_URGENCY (ac_priority inp)),
                   cd_urgency = snd (PRIORITY_IMPACT_URGENCY (ac_priority inp)),
                   cd_priority = ac_priority inp,
                   cd_shortDescription = take 256 (ac_shortDescription inp)\<rparr>
                  actor None (Some (''ALERT'', ra_id (ac_alert inp)))) (\<lambda>inc.
         bindM (writeAlertLink now (i_id inc) (ac_alert inp) actor) (\<lambda>_. ret (inc, True))))"

definition createFromAlert ::
  "instant \<Rightarrow> alert_incident_input \<Rightarrow> actor_context \<Rightarrow> (incident \<times> bool) op" where
  "createFromAlert now inp actor =
     bindM (transaction (createFromAlertInTx now inp actor)) (\<lambda>(inc, created).
     bindM (if created then afterCreate now inc actor else ret ()) (\<lambda>_.
     ret (inc, created)))"

definition noteAlertRecoveredOnOpenIncident ::
  "instant \<Rightarrow> incident \<Rightarrow> alert_ref \<Rightarrow> actor_context \<Rightarrow> unit op" where
  "noteAlertRecoveredOnOpenIncident now inc al actor =
     bindM (transaction
       (bindM (add_event now (i_id inc) (Some (actorId actor))
          (EV_ALERT_RECOVERED (ra_id al) (ra_alertType al) (ra_severity al) (ra_source al) (i_status inc))) (\<lambda>_.
        auditRecord now (Some (actorId actor)) ''Incident'' (i_id inc) ''ALERT_RECOVERED'' None
          (Some (SnapAlertRecovered (ra_id al) (ra_alertType al) (ra_severity al) None)) (correlationId actor)))) (\<lambda>_.
     notifyRecoveredBell now inc (ra_id al) (ra_alertType al))"

definition notifyAlertRecovered :: "instant \<Rightarrow> uuid \<Rightarrow> alert_ref \<Rightarrow> actor_context \<Rightarrow> bool op" where
  "notifyAlertRecovered now incidentId al actor =
     bindM (getM (\<lambda>w. find_by i_id incidentId (incidents w))) (\<lambda>found.
     case found of
       None \<Rightarrow> ret False
     | Some inc \<Rightarrow>
         if i_status inc \<noteq> RESOLVED \<and> i_status inc \<noteq> CLOSED
         then (if i_status inc = CANCELLED then ret False
               else bindM (noteAlertRecoveredOnOpenIncident now inc al actor) (\<lambda>_. ret True))
         else
           bindM (transaction
             (bindM (add_event now incidentId (Some (actorId actor))
                (EV_ALERT_RECOVERED_AFTER_RESOLVE (ra_id al) (ra_alertType al) (ra_severity al) (ra_source al)
                   (i_status inc))) (\<lambda>_.
              auditRecord now (Some (actorId actor)) ''Incident'' incidentId ''ALERT_RECOVERED_AFTER_RESOLVE'' None
                (Some (SnapAlertRecovered (ra_id al) (ra_alertType al) (ra_severity al) (Some (i_status inc))))
                (correlationId actor)))) (\<lambda>_.
           bindM (notifyAlertRecoveredEmail inc (ra_id al)) (\<lambda>_.
           ret True)))"

section \<open>Attachments\<close>

definition MAX_ATTACHMENT_SIZE_BYTES :: nat where
  "MAX_ATTACHMENT_SIZE_BYTES = 25 * 1024 * 1024"

definition ALLOWED_ATTACHMENT_CONTENT_TYPES :: "string list" where
  "ALLOWED_ATTACHMENT_CONTENT_TYPES = [''image/png'', ''image/jpeg'', ''image/gif'', ''application/pdf'',
     ''text/plain'', ''text/csv'', ''application/zip'', ''application/json'']"

record uploaded_file =
  f_originalname :: string
  f_mimetype :: string
  f_size :: nat
  f_buffer :: string

text \<open>\<open>stored\<close> tells whether the object store took the file; it is asked before the transaction.\<close>

definition uploadAttachment ::
  "instant \<Rightarrow> bool \<Rightarrow> uuid \<Rightarrow> uploaded_file \<Rightarrow> actor_context \<Rightarrow> auth_user \<Rightarrow> attachment op" where
  "uploadAttachment now stored incidentId file actor u =
     bindM (readM (findOneScoped incidentId u)) (\<lambda>_.
     bindM (guardM (f_mimetype file \<in> set ALLOWED_ATTACHMENT_CONTENT_TYPES)
       (BadRequest ''Content type is not allowed'')) (\<lambda>_.
     bindM (guardM (\<not> f_size file > MAX_ATTACHMENT_SIZE_BYTES)
       (BadRequest ''File exceeds the byte size limit'')) (\<lambda>_.
     bindM (getM (\<lambda>w. env_sha256 (env w) (f_buffer file))) (\<lambda>sha.
     bindM freshId (\<lambda>k.
     bindM (guardM stored (Internal ''object storage'')) (\<lambda>_.
     transaction
       (bindM freshId (\<lambda>i.
        let a = \<lparr>at_id = i, at_entityType = ''INCIDENT'', at_entityId = incidentId,
                 at_objectKey = ''incidents/'' @ incidentId @ ''/'' @ k @ ''-'' @ f_originalname file,
                 at_contentType = f_mimetype file, at_sizeBytes = f_size file, at_sha256 = sha,
                 at_uploadedById = Some (actorId actor), at_deletedAt = None, at_deletedById = None,
                 at_createdAt = now\<rparr>
        in bindM (modifyM (\<lambda>w. w\<lparr>attachments := attachments w @ [a]\<rparr>)) (\<lambda>_.
           bindM (add_event now incidentId (Some (actorId actor))
                    (ATTACHMENT i (at_contentType a) (at_sizeBytes a))) (\<lambda>_.
           bindM (auditRecord now (Some (actorId actor)) ''Attachment'' i ''CREATE'' None
                    (Some (SnapAttachment a)) (correlationId actor)) (\<lambda>_.
           ret a)))))))))))"

definition listAttachments :: "uuid \<Rightarrow> auth_user \<Rightarrow> world \<Rightarrow> http_error + attachment list" where
  "listAttachments incidentId u w =
     (case findOneScoped incidentId u w of
        Inl err \<Rightarrow> Inl err
      | Inr _ \<Rightarrow>
          Inr (sort_key at_createdAt
                 (filter (\<lambda>a. at_entityType a = ''INCIDENT'' \<and> at_entityId a = incidentId \<and> at_deletedAt a = None)
                    (attachments w))))"

definition findLiveAttachment :: "uuid \<Rightarrow> uuid \<Rightarrow> world \<Rightarrow> http_error + attachment" where
  "findLiveAttachment incidentId attachmentId w =
     (case find_by at_id attachmentId (attachments w) of
        None \<Rightarrow> Inl (NotFound ''Attachment not found on this incident'')
      | Some a \<Rightarrow>
          if at_entityType a \<noteq> ''INCIDENT'' \<or> at_entityId a \<noteq> incidentId \<or> at_deletedAt a \<noteq> None
          then Inl (NotFound ''Attachment not found on this incident'')
          else Inr a)"

text \<open>\<open>sign\<close> is the object store's signed URL for a key.\<close>

definition getAttachmentDownloadUrl ::
  "(string \<Rightarrow> string) \<Rightarrow> uuid \<Rightarrow> uuid \<Rightarrow> auth_user \<Rightarrow> world \<Rightarrow> http_error + string" where
  "getAttachmentDownloadUrl sign incidentId attachmentId u w =
     (case findOneScoped incidentId u w of
        Inl err \<Rightarrow> Inl err
      | Inr _ \<Rightarrow>
          (case findLiveAttachment incidentId attachmentId w of
             Inl err \<Rightarrow> Inl err | Inr a \<Rightarrow> Inr (sign (at_objectKey a))))"

definition deleteAttachment ::
  "instant \<Rightarrow> uuid \<Rightarrow> uuid \<Rightarrow> actor_context \<Rightarrow> auth_user \<Rightarrow> unit op" where
  "deleteAttachment now incidentId attachmentId actor u =
     bindM (readM (findOneScoped incidentId u)) (\<lambda>_.
     bindM (readM (findLiveAttachment incidentId attachmentId)) (\<lambda>before.
     let f = (\<lambda>a. a\<lparr>at_deletedAt := Some now, at_deletedById := Some (actorId actor)\<rparr>)
     in transaction
          (bindM (modifyM (\<lambda>w. w\<lparr>attachments := update_by at_id attachmentId f (attachments w)\<rparr>)) (\<lambda>_.
           bindM (add_event now incidentId (Some (actorId actor))
                    (ATTACHMENT_REMOVED attachmentId (at_contentType before))) (\<lambda>_.
           auditRecord now (Some (actorId actor)) ''Attachment'' attachmentId ''DELETE''
             (Some (SnapAttachment before)) (Some (SnapAttachment (f before))) (correlationId actor))))))"

section \<open>May this user be deactivated?\<close>

definition incidentDeactivationCheck :: "world \<Rightarrow> uuid \<Rightarrow> blocker option" where
  "incidentDeactivationCheck w userId =
     (let owned = filter (\<lambda>i. i_ownerUserId i = Some userId \<and> i_status i \<in> set OPEN_STATUSES) (incidents w);
          examples = map i_incidentNo (take 5 (sort_key i_createdAt owned))
      in if length owned = 0 then None
         else Some \<lparr>bk_source = ''incidents'',
           bk_message = ''owns '' @ nat_str (length owned) @ '' open incident'' @ plural (length owned) @ '' - reassign '' @
             (if length owned = 1 then ''it'' else ''them'') @ '' first'', bk_examples = examples\<rparr>)"

section \<open>Frames and logs\<close>

interpretation incident_rows: keyed_table incidents incidents_update i_id
  by unfold_locales simp

lemma appends_add_event [appends_intros]:
  "appends events (add_event now i a b)" "appends audits (add_event now i a b)"
  by (simp_all add: appends_def add_event_def)

lemma appends_writes [appends_intros]:
  "appends events (modifyM (\<lambda>w. w\<lparr>incidents := g w\<rparr>))" "appends audits (modifyM (\<lambda>w. w\<lparr>incidents := g w\<rparr>))"
  "appends events (modifyM (\<lambda>w. w\<lparr>comments := h w\<rparr>))" "appends audits (modifyM (\<lambda>w. w\<lparr>comments := h w\<rparr>))"
  "appends events (modifyM (\<lambda>w. w\<lparr>attachments := k w\<rparr>))" "appends audits (modifyM (\<lambda>w. w\<lparr>attachments := k w\<rparr>))"
  "appends events (emit ev)" "appends audits (emit ev)"
  "appends events nextIncidentNo" "appends audits nextIncidentNo"
  by (simp_all add: appends_def emit_def nextIncidentNo_def)

lemma events_beside_sla: "events (beside_sla w) = events w"
  by (simp add: beside_sla_def)

lemma keeps_events_sla: "keeps beside_sla m \<Longrightarrow> appends events m"
  by (rule appends_keeps, rule keeps_part [of beside_sla _ events events]) (simp_all add: events_beside_sla)

lemma appends_events_sla [appends_intros]:
  "appends events (startForIncident now i st p act)"
  "appends events (onAcknowledged now i t act)"
  "appends events (onResolved now i t act)"
  "appends events (onPaused now i s act)"
  "appends events (onResumed now i act)"
  "appends events (onPriorityChanged now i st p act)"
  "appends events (onReopened now i act)"
  by (rule keeps_events_sla, rule keeps_sla_hooks)+

lemma appends_told:
  assumes "keeps committed m"
  shows "appends events m" "appends audits m"
  by (rule appends_keeps, rule keeps_committedD [OF assms], simp)+

lemmas appends_notices [appends_intros] =
  keeps_notices(1) [THEN appends_told(1)] keeps_notices(1) [THEN appends_told(2)]
  keeps_notices(2) [THEN appends_told(1)] keeps_notices(2) [THEN appends_told(2)]
  keeps_notices(3) [THEN appends_told(1)] keeps_notices(3) [THEN appends_told(2)]
  keeps_notices(4) [THEN appends_told(1)] keeps_notices(4) [THEN appends_told(2)]
  keeps_notices(5) [THEN appends_told(1)] keeps_notices(5) [THEN appends_told(2)]
  keeps_notices(6) [THEN appends_told(1)] keeps_notices(6) [THEN appends_told(2)]
  keeps_notices(7) [THEN appends_told(1)] keeps_notices(7) [THEN appends_told(2)]

lemma appends_update_incident [appends_intros]:
  "appends events (update_incident now i f)" "appends audits (update_incident now i f)"
  "appends events (insert_incident inc)" "appends audits (insert_incident inc)"
  unfolding update_incident_def insert_incident_def by (intro appends_intros)+

lemma appends_createInTx [appends_intros]:
  "appends events (createInTx now dto act rep org)" "appends audits (createInTx now dto act rep org)"
  unfolding createInTx_def by (intro appends_intros)+

lemma appends_sla_hook [appends_intros]:
  "appends events (sla_hook now i dto b a act)" "appends audits (sla_hook now i dto b a act)"
  unfolding sla_hook_def by (intro appends_intros)+

lemma appends_afterCreate [appends_intros]:
  "appends events (afterCreate now inc act)" "appends audits (afterCreate now inc act)"
  "appends events (emitUpdated inc act)" "appends audits (emitUpdated inc act)"
  "appends events (writeAlertLink now i al act)" "appends audits (writeAlertLink now i al act)"
  unfolding afterCreate_def emitUpdated_def writeAlertLink_def by (intro appends_intros)+

lemma appends_incident_ops [appends_intros]:
  "appends events (incidentCreate now dto act rep)" "appends audits (incidentCreate now dto act rep)"
  "appends events (createComment now i b hidden act u)" "appends audits (createComment now i b hidden act u)"
  "appends events (incidentUpdate now i udto u act)" "appends audits (incidentUpdate now i udto u act)"
  "appends events (createTransition now i tdto act u)" "appends audits (createTransition now i tdto act u)"
  "appends events (autoAssign now i ow cor acc grp)" "appends audits (autoAssign now i ow cor acc grp)"
  "appends events (linkAlert now i al act)" "appends audits (linkAlert now i al act)"
  "appends events (createFromAlert now inp act)" "appends audits (createFromAlert now inp act)"
  "appends events (notifyAlertRecovered now i al act)" "appends audits (notifyAlertRecovered now i al act)"
  "appends events (uploadAttachment now st i file act u)" "appends audits (uploadAttachment now st i file act u)"
  "appends events (deleteAttachment now i at' act u)" "appends audits (deleteAttachment now i at' act u)"
  unfolding incidentCreate_def createComment_def commentInTx_def incidentUpdate_def updateInTx_def createTransition_def
    transitionInTx_def autoAssign_def autoAssignInTx_def linkAlert_def createFromAlert_def
    createFromAlertInTx_def notifyAlertRecovered_def noteAlertRecoveredOnOpenIncident_def
    uploadAttachment_def deleteAttachment_def
  by (intro appends_intros)+

lemma appends_createFromCustomer [appends_intros]:
  "appends events (createFromCustomer now cdto act u)" "appends audits (createFromCustomer now cdto act u)"
  unfolding createFromCustomer_def by (intro appends_intros)+

end
