(* ===== verification/Incident_Facts.thy ===== *)
theory Incident_Facts
  imports Incidents
begin

text \<open>
  The library of facts about the incident service: evaluation of its transactions, what the
  notifications after a commit leave alone, and inversion lemmas that say what a successful or a
  failed request did.
\<close>

section \<open>After the commit\<close>

text \<open>The world without what notifications and emitted events may change.\<close>

definition settled :: "world \<Rightarrow> world" where
  "settled w = w\<lparr>bells := [], uuid_next := 0, sound_cache := None, outbox := [], emitted := []\<rparr>"

lemma settled_committed: "settled w = settled (committed w)"
  by (simp add: settled_def committed_def)

lemma keeps_settled: "keeps committed m \<Longrightarrow> keeps settled m"
  by (rule keeps_part [of committed _ settled settled]) (simp_all add: settled_committed [symmetric])

lemma keeps_settled_emit: "keeps settled (emit e)" "keeps settled (emitUpdated inc act)"
  by (simp_all add: keeps_def settled_def emit_def emitUpdated_def)

lemma settled_simps [simp]:
  "incidents (settled w) = incidents w" "events (settled w) = events w" "audits (settled w) = audits w"
  "sla_instances (settled w) = sla_instances w" "sla_policies (settled w) = sla_policies w"
  "comments (settled w) = comments w" "offers (settled w) = offers w" "alerts (settled w) = alerts w"
  "users (settled w) = users w" "env (settled w) = env w" "site_accesses (settled w) = site_accesses w"
  "attachments (settled w) = attachments w" "incident_no_seq (settled w) = incident_no_seq w"
  by (simp_all add: settled_def)

lemma settled_eqD:
  assumes "settled w' = settled w"
  shows "incidents w' = incidents w" "events w' = events w" "audits w' = audits w"
    "sla_instances w' = sla_instances w" "comments w' = comments w" "offers w' = offers w"
    "alerts w' = alerts w" "users w' = users w" "env w' = env w" "attachments w' = attachments w"
    "incident_no_seq w' = incident_no_seq w"
  using assms by (metis settled_simps)+

section \<open>Evaluation of the transactions\<close>

lemma add_event_eval [simp]:
  "add_event now i a b w = (Inr (), w\<lparr>uuid_next := Suc (uuid_next w), events := events w @
     [\<lparr>e_id = env_uuid (env w) (uuid_next w), e_incidentId = i, e_actorId = a, e_body = b, e_createdAt = now\<rparr>]\<rparr>)"
  by (simp add: add_event_def)

lemma bindM_add_event [simp]:
  "bindM (add_event now i a b) f w = f () (w\<lparr>uuid_next := Suc (uuid_next w), events := events w @
     [\<lparr>e_id = env_uuid (env w) (uuid_next w), e_incidentId = i, e_actorId = a, e_body = b, e_createdAt = now\<rparr>]\<rparr>)"
  by (simp add: bindM_def)

lemma update_incident_eval:
  "update_incident now i f w =
     (case find_by i_id i (incidents w) of
        None \<Rightarrow> (Inl (Internal ''Record to update not found''), w)
      | Some r \<Rightarrow>
          let r' = (f r)\<lparr>i_updatedAt := now\<rparr>
          in if incident_refs_ok w r' then (Inr r', w\<lparr>incidents := update_by i_id i (\<lambda>_. r') (incidents w)\<rparr>)
             else (Inl fk_error, w))"
  by (simp add: update_incident_def Let_def split: option.split)

lemma update_incident_InrD:
  assumes "update_incident now i f w = (Inr after, w')"
  obtains r where "find_by i_id i (incidents w) = Some r" "after = (f r)\<lparr>i_updatedAt := now\<rparr>"
    "w' = w\<lparr>incidents := update_by i_id i (\<lambda>_. after) (incidents w)\<rparr>"
  using assms by (auto simp: update_incident_eval Let_def split: option.splits if_splits)

lemma sla_hook_returns: "fst (sla_hook now i dto b a act w) = Inr ()"
  by (auto simp: sla_hook_def onAcknowledged_def onResolved_def onPaused_def onResumed_def onReopened_def
      split: option.split)

lemma keeps_sla_hook: "keeps beside_sla (sla_hook now i dto b a act)"
  unfolding sla_hook_def by (intro keeps_intros)

lemma beside_sla_simps [simp]:
  "incidents (beside_sla w) = incidents w" "events (beside_sla w) = events w"
  "alerts (beside_sla w) = alerts w" "comments (beside_sla w) = comments w" "env (beside_sla w) = env w"
  "sla_policies (beside_sla w) = sla_policies w" "emitted (beside_sla w) = emitted w" "users (beside_sla w) = users w"
  "incident_no_seq (beside_sla w) = incident_no_seq w"
  by (simp_all add: beside_sla_def)

lemma beside_sla_eqD:
  assumes "beside_sla w' = beside_sla w"
  shows "incidents w' = incidents w" "events w' = events w" "alerts w' = alerts w" "comments w' = comments w"
    "emitted w' = emitted w" "users w' = users w" "env w' = env w" "incident_no_seq w' = incident_no_seq w"
  using assms by (metis beside_sla_simps)+

text \<open>A committed transition: the row it wrote, its timeline entry, its audit record, the SLA hook.\<close>

definition status_event :: "instant \<Rightarrow> uuid \<Rightarrow> uuid \<Rightarrow> transition_dto \<Rightarrow> incident \<Rightarrow> alert list \<Rightarrow> actor_context \<Rightarrow> incident_event" where
  "status_event now e i dto inc openAlerts actor =
     \<lparr>e_id = e, e_incidentId = i, e_actorId = Some (actorId actor),
      e_body = STATUS_CHANGE (i_status inc) (td_toStatus dto) (td_reason dto) (td_resolutionCategory dto)
        (td_rootCauseSummary dto) (map (\<lambda>a. (al_id a, al_alertType a, al_severity a, al_state a)) openAlerts),
      e_createdAt = now\<rparr>"

definition transition_audit :: "instant \<Rightarrow> uuid \<Rightarrow> uuid option \<Rightarrow> incident \<Rightarrow> incident \<Rightarrow> string option \<Rightarrow> audit_event" where
  "transition_audit now i actor before after corr =
     \<lparr>ae_actorId = actor, ae_entityType = ''Incident'', ae_entityId = i, ae_action = ''TRANSITION'',
      ae_before = Some (SnapIncident before), ae_after = Some (SnapIncident after),
      ae_correlationId = corr, ae_createdAt = now\<rparr>"

definition transitioned ::
  "instant \<Rightarrow> uuid \<Rightarrow> transition_dto \<Rightarrow> incident \<Rightarrow> alert list \<Rightarrow> actor_context \<Rightarrow> incident \<Rightarrow> world \<Rightarrow> world" where
  "transitioned now i dto inc oa actor after w =
     w\<lparr>incidents := update_by i_id i (\<lambda>_. after) (incidents w), uuid_next := Suc (uuid_next w),
       events := events w @ [status_event now (env_uuid (env w) (uuid_next w)) i dto inc oa actor],
       audits := audits w @ [transition_audit now i (Some (actorId actor)) inc after (correlationId actor)]\<rparr>"

lemma transitioned_simps [simp]:
  "incidents (transitioned now i dto inc oa actor after w) = update_by i_id i (\<lambda>_. after) (incidents w)"
  "events (transitioned now i dto inc oa actor after w) =
     events w @ [status_event now (env_uuid (env w) (uuid_next w)) i dto inc oa actor]"
  "audits (transitioned now i dto inc oa actor after w) =
     audits w @ [transition_audit now i (Some (actorId actor)) inc after (correlationId actor)]"
  "sla_instances (transitioned now i dto inc oa actor after w) = sla_instances w"
  "sla_policies (transitioned now i dto inc oa actor after w) = sla_policies w"
  by (simp_all add: transitioned_def)

lemma transitionInTx_InrD:
  assumes "transitionInTx now i dto inc oa actor w = (Inr after, w')"
  obtains r where "find_by i_id i (incidents w) = Some r"
    "after = (transition_data now dto r)\<lparr>i_updatedAt := now\<rparr>"
    "w' = snd (sla_hook now i dto inc after actor (transitioned now i dto inc oa actor after w))"
proof -
  from assms obtain w1 where u: "update_incident now i (transition_data now dto) w = (Inr after, w1)"
    and rest: "bindM (add_event now i (Some (actorId actor))
        (STATUS_CHANGE (i_status inc) (td_toStatus dto) (td_reason dto) (td_resolutionCategory dto)
           (td_rootCauseSummary dto) (map (\<lambda>a. (al_id a, al_alertType a, al_severity a, al_state a)) oa))) (\<lambda>_.
      bindM (auditRecord now (Some (actorId actor)) ''Incident'' i ''TRANSITION'' (Some (SnapIncident inc))
        (Some (SnapIncident after)) (correlationId actor)) (\<lambda>_.
      bindM (sla_hook now i dto inc after actor) (\<lambda>_. ret after))) w1 = (Inr after, w')"
    unfolding transitionInTx_def by (auto simp: bindM_Inr_iff)
  from u obtain r where r: "find_by i_id i (incidents w) = Some r"
    "after = (transition_data now dto r)\<lparr>i_updatedAt := now\<rparr>"
    "w1 = w\<lparr>incidents := update_by i_id i (\<lambda>_. after) (incidents w)\<rparr>"
    by (rule update_incident_InrD)
  show ?thesis
    by (rule that [OF r(1,2)])
      (use rest in \<open>simp add: r(3) bindM_returns [OF sla_hook_returns] transitioned_def status_event_def
         transition_audit_def\<close>)
qed

text \<open>What a transition does after its commit: it tells people and emits, and always returns.\<close>

definition transition_post :: "instant \<Rightarrow> transition_dto \<Rightarrow> incident \<Rightarrow> actor_context \<Rightarrow> incident \<Rightarrow> incident op" where
  "transition_post now dto inc actor after =
     bindM (notifyStatusChange now inc after (td_reason dto) (Some (actorId actor))) (\<lambda>_.
     bindM (if patch_changes (td_ownerUserId dto) (i_ownerUserId inc)
            then notifyAssignment now after (the (td_ownerUserId dto)) (Some (actorId actor))
            else if patch_changes (td_ownerGroupId dto) (i_ownerGroupId inc) \<and>
                    truthy (i_ownerGroupId after) \<and> \<not> truthy (i_ownerUserId after)
            then notifyGroupAssignment now after (the (i_ownerGroupId after)) (Some (actorId actor))
            else ret ()) (\<lambda>_.
     bindM (emitUpdated after actor) (\<lambda>_.
     ret after)))"

lemma createTransition_alt:
  "createTransition now i dto actor u =
     bindM (readM (findOneScoped i u)) (\<lambda>inc.
     bindM (readM (transition_checks inc dto u)) (\<lambda>oa.
     bindM (transaction (transitionInTx now i dto inc oa actor)) (transition_post now dto inc actor)))"
  by (simp add: createTransition_def transition_post_def [abs_def])

lemma keeps_transition_post: "keeps settled (transition_post now dto inc actor after)"
  unfolding transition_post_def by (intro keeps_intros keeps_settled keeps_settled_emit)

lemma notify_if_returns:
  "fst ((if b then notifyAssignment now a ow x else if b' then notifyGroupAssignment now a g x else ret ()) w) = Inr ()"
  by (simp add: notice_returns)

lemma transition_post_returns: "fst (transition_post now dto inc actor after w) = Inr after"
  unfolding transition_post_def
  by (simp add: bindM_returns [OF notice_returns(4)] bindM_returns [OF notify_if_returns] emitUpdated_def emit_def)

lemma transition_post_eq:
  "transition_post now dto inc actor after w = (r, w') \<Longrightarrow> r = Inr after \<and> settled w' = settled w"
  using transition_post_returns [of now dto inc actor after w]
    keepsD [OF keeps_transition_post, of now dto inc actor after w] by simp

text \<open>A request that succeeded: its checks passed on the world it read, its transaction committed there.\<close>

lemma createTransition_InrD:
  assumes "createTransition now i dto actor u w = (Inr after, w')"
  obtains inc oa w1 where "findOneScoped i u w = Inr inc" "transition_checks inc dto u w = Inr oa"
    "transitionInTx now i dto inc oa actor w = (Inr after, w1)" "settled w' = settled w1"
proof -
  from assms obtain inc oa w1 after1 where
    g: "findOneScoped i u w = Inr inc" "transition_checks inc dto u w = Inr oa"
    and tx: "transitionInTx now i dto inc oa actor w = (Inr after1, w1)"
    and rest: "transition_post now dto inc actor after1 w1 = (Inr after, w')"
    unfolding createTransition_alt by (auto simp: bindM_Inr_iff transactionM_Inr_iff)
  then show ?thesis using that transition_post_eq [OF rest] by simp
qed

text \<open>
  A request that failed: nothing was committed. What a rollback does not give back (\<open>beyond_tx\<close>: sequences,
  queues, caches) the transaction of a transition does not touch, so the whole world is what it was; only
  ids may have been drawn from the generator.
\<close>

definition same_records :: "world \<Rightarrow> world \<Rightarrow> bool" where
  "same_records w w' \<longleftrightarrow> w' = w\<lparr>uuid_next := uuid_next w'\<rparr>"

lemma same_records_refl [simp]: "same_records w w"
  by (simp add: same_records_def)

definition beyond_tx :: "world \<Rightarrow> nat \<times> nat \<times> nat \<times> string option \<times> account_email list \<times> mail_job list \<times> domain_event list \<times>
    (alert_rule list \<times> instant) option \<times> (sound_rule list \<times> instant) option" where
  "beyond_tx w = (incident_no_seq w, problem_no_seq w, random_next w, dummy_hash w, account_mails w, outbox w, emitted w,
     rule_cache w, sound_cache w)"

lemma same_records_rollback: "beyond_tx v = beyond_tx w \<Longrightarrow> same_records w (rollback w v)"
  by (simp add: same_records_def rollback_def beyond_tx_def)

lemma keeps_beyond_tx:
  "keeps beyond_tx (update_incident now i f)" "keeps beyond_tx (add_event now i a b)"
  "keeps beyond_tx (auditRecord n a t i x bf af c)" "keeps beyond_tx (sla_hook now i dto b' a' act)"
proof -
  show "keeps beyond_tx (update_incident now i f)"
    by (auto simp: keeps_def update_incident_eval Let_def beyond_tx_def split: option.split)
  show "keeps beyond_tx (sla_hook now i dto b' a' act)"
    by (rule keeps_part [OF keeps_sla_hook, of _ beyond_tx]) (simp add: beyond_tx_def beside_sla_def)
qed (simp_all add: keeps_def beyond_tx_def)

lemma transaction_Inl: "keeps beyond_tx m \<Longrightarrow> transaction m w = (Inl e, w') \<Longrightarrow> same_records w w'"
  by (auto simp: transactionM_def intro!: same_records_rollback dest: keeps_result split: prod.splits sum.splits)

lemma keeps_transitionInTx: "keeps beyond_tx (transitionInTx now i dto inc oa actor)"
  unfolding transitionInTx_def by (intro keeps_intros keeps_beyond_tx)

lemma readM_eqs: "readM f w = (Inl e, w') \<longleftrightarrow> f w = Inl e \<and> w' = w" "readM f w = (Inr a, w') \<longleftrightarrow> f w = Inr a \<and> w' = w"
  by auto

lemma createTransition_failed:
  assumes "createTransition now i dto actor u w = (Inl e, w')"
  shows "same_records w w'"
  using assms unfolding createTransition_alt
  by (auto simp: bindM_Inl_iff dest: transaction_Inl [OF keeps_transitionInTx] transition_post_eq)

lemma bindM_transaction: "m w = (Inr a, w1) \<Longrightarrow> bindM (transaction m) f w = f a w1"
  by (simp add: bindM_def)

lemma bindM_transaction_Inl: "m w = (Inl e, w1) \<Longrightarrow> bindM (transaction m) f w = (Inl e, rollback w w1)"
  by (simp add: bindM_def)

lemma commentInTx_returns:
  "\<exists>c w'. commentInTx now i body internal act w = (Inr c, w') \<and> c_isInternal c = internal \<and> c_body c = body \<and>
     c_incidentId c = i \<and> comments w' = comments w @ [c]"
  by (simp add: commentInTx_def Let_def)

end
