(* ===== verification/Incident_Moves.thy ===== *)
theory Incident_Moves
  imports Incident_Facts
begin

text \<open>
  The incident service as a transition system: whatever request runs, a ticket is never deleted,
  keeps its identity, and its status only moves along the rule table. The relation is shown for
  every operation of the service, so other components that call it inherit it.
\<close>

section \<open>What every operation does to the rows\<close>

definition same_ticket :: "incident \<Rightarrow> incident \<Rightarrow> bool" where
  "same_ticket r r' \<longleftrightarrow> i_id r' = i_id r \<and> i_incidentNo r' = i_incidentNo r \<and> i_siteId r' = i_siteId r \<and>
     i_reportedByUserId r' = i_reportedByUserId r \<and> i_createdAt r' = i_createdAt r"

text \<open>
  Every ticket of the first state is in the second, with its identity, and \<open>R\<close> relates its
  statuses. Almost every operation is \<open>steady\<close>; the two that change a status make one move.
\<close>

definition follows_by :: "(incident_status \<Rightarrow> incident_status \<Rightarrow> bool) \<Rightarrow> world \<Rightarrow> world \<Rightarrow> bool" where
  "follows_by R w w' \<longleftrightarrow> (\<forall>i r. find_by i_id i (incidents w) = Some r \<longrightarrow>
     (\<exists>r'. find_by i_id i (incidents w') = Some r' \<and> same_ticket r r' \<and> R (i_status r) (i_status r')))"

abbreviation steady :: "world \<Rightarrow> world \<Rightarrow> bool" where
  "steady \<equiv> follows_by (=)"

definition one_move :: "incident_status \<Rightarrow> incident_status \<Rightarrow> bool" where
  "one_move a b \<longleftrightarrow> a = b \<or> allowed_move a b"

abbreviation moves_once :: "world \<Rightarrow> world \<Rightarrow> bool" where
  "moves_once \<equiv> follows_by one_move"

lemma followsE:
  assumes "follows_by R w w'" "find_by i_id i (incidents w) = Some r"
  obtains r' where "find_by i_id i (incidents w') = Some r'" "same_ticket r r'" "R (i_status r) (i_status r')"
  using assms unfolding follows_by_def by blast

lemma same_ticket_refl [simp]: "same_ticket r r"
  and same_ticket_trans: "same_ticket r r' \<Longrightarrow> same_ticket r' r'' \<Longrightarrow> same_ticket r r''"
  by (simp_all add: same_ticket_def)

lemma follows_then:
  assumes "follows_by R s t" "follows_by Q t u" "\<And>a b c. R a b \<Longrightarrow> Q b c \<Longrightarrow> S a c"
  shows "follows_by S s u"
  unfolding follows_by_def
proof (intro allI impI)
  fix i r
  assume "find_by i_id i (incidents s) = Some r"
  with assms(1) obtain r' where r': "find_by i_id i (incidents t) = Some r'" "same_ticket r r'" "R (i_status r) (i_status r')"
    by (rule followsE)
  from assms(2) r'(1) obtain r'' where "find_by i_id i (incidents u) = Some r''" "same_ticket r' r''" "Q (i_status r') (i_status r'')"
    by (rule followsE)
  then show "\<exists>r''. find_by i_id i (incidents u) = Some r'' \<and> same_ticket r r'' \<and> S (i_status r) (i_status r'')"
    using r' same_ticket_trans assms(3) by metis
qed

interpretation moves: frame_relation steady
proof
  show "steady s s" for s by (simp add: follows_by_def)
  show "steady s u" if "steady s t" "steady t u" for s t u using that by (rule follows_then) simp
qed

lemma follows_same: "incidents w' = incidents w \<Longrightarrow> steady w w'"
  by (auto simp: follows_by_def)

lemma follows_insert: "incidents w' = incidents w @ xs \<Longrightarrow> steady w w'"
  by (auto simp: follows_by_def find_by_append)

lemma follows_rollback: "steady w (rollback w w')"
  by (rule follows_same) (simp add: rollback_def)

lemma steady_once: "steady w w' \<Longrightarrow> moves_once w w'"
  unfolding follows_by_def one_move_def by metis

lemma follows_row:
  assumes "find_by i_id i (incidents w) = Some r" "incidents w' = update_by i_id i (\<lambda>_. r') (incidents w)"
    "same_ticket r r'" "R (i_status r) (i_status r')" "\<And>a. R a a"
  shows "follows_by R w w'"
proof -
  have ids: "i_id r' = i" using assms(1,3) by (auto simp: same_ticket_def dest: find_by_SomeD)
  have "find_by i_id k (update_by i_id i (\<lambda>_. r') rows) =
      (if k = i then (if i \<in> i_id ` set rows then Some r' else None) else find_by i_id k rows)" for k rows
    by (induction rows) (auto simp: ids)
  moreover have "i \<in> i_id ` set (incidents w)" using assms(1) by (auto dest: find_by_SomeD)
  ultimately have f: "find_by i_id k (incidents w') = (if k = i then Some r' else find_by i_id k (incidents w))" for k
    by (simp add: assms(2))
  show ?thesis
    using assms(1,3-5) unfolding follows_by_def f by auto
qed

lemma moves_keeps: "keeps incidents m \<Longrightarrow> obeys steady m"
  by (rule moves.obeys_keeps) (auto intro: follows_same)

lemma moves_transaction: "obeys steady m \<Longrightarrow> obeys steady (transaction m)"
  by (rule moves.obeys_transaction) (auto intro: follows_rollback)

text \<open>One move, with steady actions before and after it.\<close>

lemma obeys_once: "obeys steady m \<Longrightarrow> obeys moves_once m"
  by (simp add: obeys_def steady_once)

lemma once_transaction: "obeys moves_once m \<Longrightarrow> obeys moves_once (transaction m)"
  unfolding obeys_def transactionM_def
  by (auto split: prod.splits sum.splits intro: steady_once follows_rollback) (metis snd_conv)

lemma once_bind:
  assumes "obeys moves_once m" "\<And>a. obeys steady (f a)"
  shows "obeys moves_once (bindM m f)"
proof -
  have "moves_once s (snd (bindM m f s))" for s
  proof (cases "m s")
    case (Pair r t)
    then have st: "moves_once s t" using assms(1) by (metis obeysD snd_conv)
    have "steady t (snd (f a t))" for a using assms(2) by (rule obeysD)
    then show ?thesis using Pair st by (cases r) (auto simp: bindM_def intro: follows_then)
  qed
  then show ?thesis by (simp add: obeys_def)
qed

lemma once_read: "(\<And>a. obeys moves_once (f a)) \<Longrightarrow> obeys moves_once (bindM (readM g) f)"
  by (auto simp: obeys_def bindM_def readM_def steady_once moves.R_refl split: sum.splits)

lemma keeps_incidents_basic:
  "keeps incidents freshId" "keeps incidents (auditRecord n a t i x b f c)" "keeps incidents (add_event now i a e)"
  "keeps incidents (emit ev)" "keeps incidents (emitUpdated inc act)" "keeps incidents nextIncidentNo"
  "keeps incidents (writeAlertLink now i al act)"
  by (simp_all add: keeps_def emit_def emitUpdated_def nextIncidentNo_def writeAlertLink_def)

lemma keeps_incidents_told: "keeps committed m \<Longrightarrow> keeps incidents m"
  by (rule keeps_committedD) simp_all

lemma keeps_incidents_sla: "keeps beside_sla m \<Longrightarrow> keeps incidents m"
  by (rule keeps_part [of beside_sla _ incidents incidents]) simp_all

lemmas keeps_incidents = keeps_incidents_basic
  keeps_notices [THEN keeps_incidents_told] keeps_sla_hooks [THEN keeps_incidents_sla]

lemmas moves_parts = keeps_incidents [THEN moves_keeps]

lemma moves_insert: "obeys steady (insert_incident inc)"
  by (auto simp: obeys_def insert_incident_def intro: follows_same follows_insert)

lemma moves_other_tables:
  "obeys steady (modifyM (\<lambda>w. w\<lparr>comments := g w\<rparr>))" "obeys steady (modifyM (\<lambda>w. w\<lparr>attachments := h w\<rparr>))"
  by (auto simp: obeys_def intro: follows_same)

lemma moves_createInTx: "obeys steady (createInTx now dto act rep org)"
  unfolding createInTx_def by (intro moves.obeys_rules moves_parts moves_insert)

lemma moves_afterCreate: "obeys steady (afterCreate now inc act)"
  unfolding afterCreate_def by (intro moves.obeys_rules moves_parts)

lemma moves_incidentCreate: "obeys steady (incidentCreate now dto act rep)"
  unfolding incidentCreate_def
  by (intro moves.obeys_rules moves_transaction moves_createInTx moves_afterCreate)

lemma moves_createComment: "obeys steady (createComment now i b hidden act u)"
  unfolding createComment_def commentInTx_def
  by (intro moves.obeys_rules(1-7) moves.obeys_rules(9-13) moves_transaction moves_parts moves_other_tables)

lemma moves_createFromCustomer: "obeys steady (createFromCustomer now cdto act u)"
  unfolding createFromCustomer_def
  by (intro moves.obeys_rules moves_incidentCreate moves_createComment)

lemma moves_alert_links:
  "obeys steady (linkAlert now i al act)" "obeys steady (createFromAlert now inp act)"
  "obeys steady (notifyAlertRecovered now i al act)"
  unfolding linkAlert_def createFromAlert_def createFromAlertInTx_def notifyAlertRecovered_def
    noteAlertRecoveredOnOpenIncident_def
  by (intro moves.obeys_rules moves_transaction moves_parts moves_createInTx moves_afterCreate)+

lemma moves_attachments:
  "obeys steady (uploadAttachment now st i file act u)" "obeys steady (deleteAttachment now i at' act u)"
  unfolding uploadAttachment_def deleteAttachment_def
  by (intro moves.obeys_rules(1-5) moves.obeys_bind moves.obeys_let moves_transaction moves_parts moves_other_tables)+

text \<open>An edit changes no status and no identity.\<close>

lemma patch_incident_simps [simp]:
  "i_id (patch_incident d r) = i_id r" "i_status (patch_incident d r) = i_status r"
  "same_ticket r ((patch_incident d r)\<lparr>i_updatedAt := t\<rparr>)"
  by (simp_all add: patch_incident_def same_ticket_def)

lemma moves_patch: "obeys steady (update_incident now i (patch_incident d))"
  by (auto simp: obeys_def update_incident_eval Let_def intro: follows_same follows_row split: option.split)

lemma moves_incidentUpdate: "obeys steady (incidentUpdate now i dto u act)"
  unfolding incidentUpdate_def updateInTx_def
  by (intro moves.obeys_rules moves_transaction moves_parts moves_patch)

lemma moves_autoAssignInTx: "obeys moves_once (autoAssignInTx now i ow cor acc grp inc)"
proof -
  have "moves_once w (snd (autoAssignInTx now i ow cor acc grp inc w))" for w
  proof (cases "find_by i_id i (incidents w)")
    case None
    then show ?thesis by (simp add: autoAssignInTx_def steady_once moves.R_refl)
  next
    case (Some r)
    have "same_ticket r (assign_data now ow grp r)" by (simp add: same_ticket_def assign_data_def)
    moreover have "allowed_move (i_status r) (i_status (assign_data now ow grp r))" if "unowned_new r"
      using that by (simp add: unowned_new_def assign_data_def allowed_move_code)
    ultimately show ?thesis
      using Some by (auto simp: autoAssignInTx_def Let_def one_move_def intro: steady_once follows_same follows_row)
  qed
  then show ?thesis by (simp add: obeys_def)
qed

lemma moves_autoAssign: "obeys moves_once (autoAssign now i ow cor acc grp)"
  unfolding autoAssign_def
  by (rule once_read)
    (auto split: option.split intro!: moves.obeys_basic [THEN obeys_once] once_bind once_transaction
      moves_autoAssignInTx moves.obeys_rules moves_parts)

text \<open>A transition: the checks were made on the row that is written.\<close>

lemma transition_data_simps [simp]:
  "i_id (transition_data now dto r) = i_id r" "i_status (transition_data now dto r) = td_toStatus dto"
  "same_ticket r ((transition_data now dto r)\<lparr>i_updatedAt := t\<rparr>)"
  "i_siteId (transition_data now dto r) = i_siteId r"
  by (simp_all add: transition_data_def same_ticket_def Let_def)

lemma findOneScoped_InrD:
  assumes "findOneScoped i u w = Inr inc"
  shows "find_by i_id i (incidents w) = Some inc" "canAccessSite w u (i_siteId inc)"
    "au_role u = CLIENT_MANAGER_VIEWER \<Longrightarrow> i_reportedByUserId inc = Some (au_id u)"
  using assms
  by (auto simp: findOneScoped_def findOne_def assertSiteAccess_def split: option.splits sum.splits if_splits)

lemma transition_checks_InrD:
  assumes "transition_checks inc dto u w = Inr oa"
  obtains r where "check_transition inc dto u = Inr r"
    "td_toStatus dto = RESOLVED \<Longrightarrow> oa = findOpenAlertsForIncident (i_id inc) w"
    "td_toStatus dto = RESOLVED \<Longrightarrow> oa = [] \<or> truthy (td_reason dto)"
  using assms by (auto simp: transition_checks_def Let_def split: sum.splits if_splits)

lemma incidents_after_hook:
  "incidents (snd (sla_hook now i dto b a act w)) = incidents w"
  "events (snd (sla_hook now i dto b a act w)) = events w"
  using keepsD [OF keeps_sla_hook, of now i dto b a act w] by (rule beside_sla_eqD)+

lemma moves_createTransition: "obeys moves_once (createTransition now i dto act u)"
  unfolding obeys_def
proof
  fix w
  obtain res w' where run: "createTransition now i dto act u w = (res, w')"
    by (cases "createTransition now i dto act u w")
  show "moves_once w (snd (createTransition now i dto act u w))"
  proof (cases res)
    case (Inl e)
    then show ?thesis
      using createTransition_failed [of now i dto act u w] run
      by (auto simp: same_records_def intro!: steady_once follows_same dest: arg_cong [of _ _ incidents])
  next
    case (Inr after)
    with run obtain inc oa w1 where
      g: "findOneScoped i u w = Inr inc" "transition_checks inc dto u w = Inr oa"
      and tx: "transitionInTx now i dto inc oa act w = (Inr after, w1)" and st: "settled w' = settled w1"
      by (auto elim: createTransition_InrD)
    from g(2) obtain r where r: "check_transition inc dto u = Inr r" by (rule transition_checks_InrD)
    then have move: "allowed_move (i_status inc) (td_toStatus dto)"
      unfolding allowed_move_def using check_transition_InrD(1) by fastforce
    from tx obtain r0 where t: "find_by i_id i (incidents w) = Some r0"
      "after = (transition_data now dto r0)\<lparr>i_updatedAt := now\<rparr>"
      "w1 = snd (sla_hook now i dto inc after act (transitioned now i dto inc oa act after w))"
      by (rule transitionInTx_InrD)
    have r0: "r0 = inc" using t(1) findOneScoped_InrD(1) [OF g(1)] by simp
    have rows: "incidents w' = update_by i_id i (\<lambda>_. after) (incidents w)"
      using settled_eqD(1) [OF st] t(3) by (simp add: incidents_after_hook)
    have same: "same_ticket r0 after" and to: "i_status after = td_toStatus dto" unfolding t(2) by simp_all
    have "allowed_move (i_status r0) (i_status after)" unfolding to r0 by (rule move)
    then have "moves_once w w'" by (intro follows_row [OF t(1) rows same]) (simp_all add: one_move_def)
    then show ?thesis using run by simp
  qed
qed

section \<open>Requests in any order\<close>

inductive incident_step :: "world \<Rightarrow> world \<Rightarrow> bool" where
  is_create: "incident_step w (snd (incidentCreate now dto act rep w))"
| is_customer: "incident_step w (snd (createFromCustomer now cdto act u w))"
| is_alert: "incident_step w (snd (createFromAlert now inp act w))"
| is_update: "incident_step w (snd (incidentUpdate now i udto u act w))"
| is_transition: "incident_step w (snd (createTransition now i tdto act u w))"
| is_assign: "incident_step w (snd (autoAssign now i ow cor acc grp w))"
| is_comment: "incident_step w (snd (createComment now i b hidden act u w))"
| is_link: "incident_step w (snd (linkAlert now i al act w))"
| is_recovered: "incident_step w (snd (notifyAlertRecovered now i al act w))"
| is_routing: "incident_step w (snd (recordRoutingEvent now i a action payload w))"
| is_upload: "incident_step w (snd (uploadAttachment now stored i file act u w))"
| is_remove: "incident_step w (snd (deleteAttachment now i att act u w))"

lemma moves_recordRoutingEvent: "obeys steady (recordRoutingEvent now i a action payload)"
  unfolding recordRoutingEvent_def by (rule moves_parts)

lemmas moves_ops = moves_createTransition moves_autoAssign
  obeys_once [OF moves_incidentCreate] obeys_once [OF moves_createFromCustomer] moves_alert_links [THEN obeys_once]
  obeys_once [OF moves_incidentUpdate] obeys_once [OF moves_createComment] obeys_once [OF moves_recordRoutingEvent]
  moves_attachments [THEN obeys_once]

text \<open>One request makes at most one move of a ticket.\<close>

lemma incident_step_once: "incident_step w w' \<Longrightarrow> moves_once w w'"
  by (induction rule: incident_step.induct) (rule obeysD, rule moves_ops)+

lemma incident_run_follows: "incident_step\<^sup>*\<^sup>* w w' \<Longrightarrow> follows_by allowed_move\<^sup>*\<^sup>* w w'"
proof (induction rule: rtranclp_induct)
  case base
  then show ?case by (auto simp: follows_by_def)
next
  case (step v u)
  show ?case
    by (rule follows_then [OF step.IH incident_step_once [OF step.hyps(2)]])
      (auto simp: one_move_def intro: rtranclp.rtrancl_into_rtrancl)
qed

section \<open>The statuses a run goes through\<close>

definition ticketAt :: "uuid \<Rightarrow> world \<Rightarrow> incident option" where
  "ticketAt i w = find_by i_id i (incidents w)"

definition statusHistory :: "uuid \<Rightarrow> world list \<Rightarrow> incident_status list" where
  "statusHistory i ws = List.map_filter (\<lambda>w. map_option i_status (ticketAt i w)) ws"

lemma statusHistory_Cons:
  "ticketAt i w = Some r \<Longrightarrow> statusHistory i (w # ws) = i_status r # statusHistory i ws"
  by (simp add: statusHistory_def)

lemma run_history:
  assumes "successively incident_step (w # ws)" "ticketAt i w = Some r"
  shows "length (statusHistory i (w # ws)) = Suc (length ws) \<and> successively one_move (statusHistory i (w # ws)) \<and>
    (\<forall>v \<in> set ws. \<exists>s. ticketAt i v = Some s \<and> same_ticket r s)"
  using assms
proof (induction ws arbitrary: w r)
  case Nil
  then show ?case by (simp add: statusHistory_def)
next
  case (Cons v ws)
  have step: "incident_step w v" and run: "successively incident_step (v # ws)" using Cons.prems(1) by simp_all
  from incident_step_once [OF step] Cons.prems(2) obtain s where
    s: "ticketAt i v = Some s" "same_ticket r s" "one_move (i_status r) (i_status s)"
    unfolding ticketAt_def by (rule followsE)
  show ?case
    using Cons.IH [OF run s(1)] s(2,3) statusHistory_Cons [OF Cons.prems(2), of "v # ws"] statusHistory_Cons [OF s(1), of ws]
      s(1) same_ticket_trans by auto
qed

text \<open>A history of single moves passes everything that must come before its end.\<close>

lemma history_path:
  "successively one_move (a # ss) \<Longrightarrow> \<exists>xs. path a xs (last (a # ss)) \<and> subseq xs ss"
proof (induction ss rule: rev_induct)
  case Nil
  then show ?case by (auto intro: path_nil)
next
  case (snoc b ss)
  have "successively one_move (a # ss)" and m: "one_move (last (a # ss)) b"
    using snoc.prems successively_append_iff [of one_move "a # ss" "[b]"] by simp_all
  then obtain xs where xs: "path a xs (last (a # ss))" "subseq xs ss" using snoc.IH by blast
  show ?case
  proof (cases "last (a # ss) = b")
    case True
    then show ?thesis using xs by (auto intro: subseq_rev_drop_many)
  next
    case False
    then have "path a (xs @ [b]) b" using xs(1) m path_step by (auto simp: one_move_def)
    then show ?thesis using xs(2) by (auto intro!: exI [of _ "xs @ [b]"] list_emb_append_mono)
  qed
qed

lemma no_move_from_terminal:
  assumes "allowed_move\<^sup>*\<^sup>* a b" "a = CLOSED \<or> a = CANCELLED"
  shows "b = a"
  using assms by (cases rule: converse_rtranclpE) (auto simp: terminal_statuses)

end
