(* ===== verification/Incident_Props.thy ===== *)
theory Incident_Props
  imports Incident_Moves
begin

text \<open>
  The properties of the incident service: what a transition that succeeds has checked and what it
  has recorded, that one that fails leaves no trace, who may read what, that the menu of moves
  agrees with the endpoint, how the SLA clock follows the ticket, alert links, ticket numbers; and
  the places where the checks leave a gap.
\<close>

section \<open>A small help desk\<close>

definition blr :: site where
  "blr = \<lparr>s_id = ''BLR'', s_code = ''BLR'', s_name = ''Bengaluru'', s_timezone = ''Asia/Kolkata'', s_is247 = False, s_status = ''ACTIVE''\<rparr>"

definition desk_user :: user where
  "desk_user = \<lparr>u_id = ''u-desk'', u_email = ''desk@x'', u_displayName = ''Desk'', u_role = SERVICE_DESK_NOC,
     u_isActive = True,
     u_passwordHash = None, u_passwordSetAt = None, u_failedLoginCount = 0, u_lockedUntil = None, u_sessionVersion = 0,
     u_createdAt = 0, u_updatedAt = 0\<rparr>"

definition eng_user :: user where
  "eng_user = \<lparr>u_id = ''u-eng'', u_email = ''eng@x'', u_displayName = ''Eng'', u_role = SITE_ENGINEER,
     u_isActive = True,
     u_passwordHash = None, u_passwordSetAt = None, u_failedLoginCount = 0, u_lockedUntil = None, u_sessionVersion = 0,
     u_createdAt = 0, u_updatedAt = 0\<rparr>"

definition customer_user :: user where
  "customer_user = \<lparr>u_id = ''u-cust'', u_email = ''c@x'', u_displayName = ''Cust'', u_role = CLIENT_MANAGER_VIEWER,
     u_isActive = True,
     u_passwordHash = None, u_passwordSetAt = None, u_failedLoginCount = 0, u_lockedUntil = None, u_sessionVersion = 0,
     u_createdAt = 0, u_updatedAt = 0\<rparr>"

definition auth_of :: "user \<Rightarrow> auth_user" where
  "auth_of u = \<lparr>au_id = u_id u, au_email = u_email u, au_role = u_role u\<rparr>"

definition actor_of :: "user \<Rightarrow> actor_context" where
  "actor_of u = \<lparr>actorId = u_id u, correlationId = None\<rparr>"

definition ticket :: incident where
  "ticket = new_incident 0 ''inc-1'' ''INC-000000'' \<lparr>cd_siteId = ''BLR'', cd_ciId = None,
     cd_category = ''POWER'', cd_impact = ''HIGH'', cd_urgency = ''HIGH'', cd_priority = P1,
     cd_shortDescription = ''rack down''\<rparr> None"

definition desk_world :: world where
  "desk_world = sla_sample\<lparr>sites := [blr], users := [desk_user, eng_user, customer_user],
     site_accesses := [\<lparr>sa_userId = ''u-desk'', sa_siteId = ''BLR''\<rparr>, \<lparr>sa_userId = ''u-eng'', sa_siteId = ''BLR''\<rparr>,
       \<lparr>sa_userId = ''u-cust'', sa_siteId = ''BLR''\<rparr>], incidents := [ticket]\<rparr>"

definition assign_dto :: transition_dto where
  "assign_dto = (empty_dto ASSIGNED)\<lparr>td_ownerUserId := Some (Some ''u-eng'')\<rparr>"

lemmas desk_defs = desk_world_def sla_sample_def empty_world_def ticket_def new_incident_def blr_def
  desk_user_def eng_user_def customer_user_def auth_of_def actor_of_def assign_dto_def empty_dto_def

lemma desk_ticket [simp]: "find_by i_id ''inc-1'' (incidents desk_world) = Some ticket"
  by (simp add: desk_defs)

lemma desk_tickets: "incidents desk_world = [ticket]"
  by (simp add: desk_world_def)

lemma desk_ticket_status [simp]: "i_status ticket = NEW" "i_reportedByUserId ticket = None"
  by (simp_all add: ticket_def new_incident_def)

lemma customer_role [simp]: "au_role (auth_of customer_user) = CLIENT_MANAGER_VIEWER"
  by (simp add: auth_of_def customer_user_def)

section \<open>The life of a ticket\<close>

text \<open>
  C2: Take any sequence of requests to the incident service, in any order and by anyone, and the worlds
  it goes through. A ticket of the first world is in all of them, with its number, site, reporter and
  creation time; from one world to the next its status stays or makes one single move of the rule
  table; and when a ticket that was new ends up anywhere but cancelled, the statuses it was in include,
  in order, all those that must come before (assigned, acknowledged, in progress, resolved).
\<close>

theorem ticket_lifecycle:
  assumes "successively incident_step (w # ws)" "ticketAt i w = Some r"
  shows "length (statusHistory i (w # ws)) = Suc (length ws) \<and>
     successively (\<lambda>a b. a = b \<or> allowed_move a b) (statusHistory i (w # ws)) \<and>
     (\<forall>v \<in> set ws. \<exists>s. ticketAt i v = Some s \<and> same_ticket r s) \<and>
     (i_status r = NEW \<and> last (statusHistory i (w # ws)) \<noteq> CANCELLED \<longrightarrow>
        subseq (must_have_passed (last (statusHistory i (w # ws)))) (statusHistory i ws))"
proof -
  note run = run_history [OF assms]
  have h: "statusHistory i (w # ws) = i_status r # statusHistory i ws" using assms(2) by (rule statusHistory_Cons)
  obtain xs where "path (i_status r) xs (last (statusHistory i (w # ws)))" "subseq xs (statusHistory i ws)"
    using history_path run unfolding h by blast
  then show ?thesis
    using run path_passes_aux subseq_order.trans unfolding one_move_def [abs_def] by blast
qed

theorem ticket_lifecycle_witness:
  "statusHistory ''inc-1'' [desk_world, snd (createTransition 5 ''inc-1'' assign_dto (actor_of desk_user) (auth_of desk_user) desk_world)] =
     [NEW, ASSIGNED] \<and> subseq (must_have_passed ASSIGNED) [ASSIGNED]"
proof -
  let ?v = "snd (createTransition 5 ''inc-1'' assign_dto (actor_of desk_user) (auth_of desk_user) desk_world)"
  have t: "ticketAt ''inc-1'' desk_world = Some ticket" unfolding ticketAt_def by (rule desk_ticket)
  have run: "successively incident_step [desk_world, ?v]" by (simp add: is_transition)
  have after: "map_option i_status (ticketAt ''inc-1'' ?v) = Some ASSIGNED" by code_simp
  then have h: "statusHistory ''inc-1'' [desk_world, ?v] = [NEW, ASSIGNED]" "statusHistory ''inc-1'' [?v] = [ASSIGNED]"
    using t by (auto simp: statusHistory_def ticket_def new_incident_def)
  then show ?thesis using ticket_lifecycle [OF run t] by (simp add: ticket_def new_incident_def)
qed

text \<open>
  A closed or a cancelled ticket keeps its status forever, whatever requests follow one after
  the other.
\<close>

theorem closed_tickets_stay_closed:
  assumes "incident_step\<^sup>*\<^sup>* w w'" "find_by i_id i (incidents w) = Some r"
    "i_status r = CLOSED \<or> i_status r = CANCELLED"
  shows "\<exists>r'. find_by i_id i (incidents w') = Some r' \<and> i_status r' = i_status r"
proof -
  from incident_run_follows [OF assms(1)] assms(2) obtain r' where
    "find_by i_id i (incidents w') = Some r'" "allowed_move\<^sup>*\<^sup>* (i_status r) (i_status r')" by (rule followsE)
  then show ?thesis using no_move_from_terminal assms(3) by blast
qed

theorem closed_tickets_stay_closed_witness:
  "\<exists>r'. find_by i_id ''inc-1'' (incidents (snd (createTransition 5 ''inc-1'' assign_dto (actor_of desk_user)
        (auth_of desk_user) (desk_world\<lparr>incidents := [ticket\<lparr>i_status := CLOSED\<rparr>]\<rparr>)))) = Some r' \<and> i_status r' = CLOSED"
  using closed_tickets_stay_closed [OF r_into_rtranclp [of incident_step, OF is_transition], of "''inc-1''"
      "desk_world\<lparr>incidents := [ticket\<lparr>i_status := CLOSED\<rparr>]\<rparr>" "ticket\<lparr>i_status := CLOSED\<rparr>" 5 "''inc-1''"
      assign_dto "actor_of desk_user" "auth_of desk_user"]
  by (simp add: ticket_def new_incident_def)

section \<open>What a transition has checked\<close>

lemma transition_success:
  assumes "createTransition now i dto actor u w = (Inr after, w')"
  obtains inc oa rule where "find_by i_id i (incidents w) = Some inc" "canAccessSite w u (i_siteId inc)"
    "findOneScoped i u w = Inr inc" "transition_checks inc dto u w = Inr oa"
    "check_transition inc dto u = Inr rule"
    "after = (transition_data now dto inc)\<lparr>i_updatedAt := now\<rparr>"
    "settled w' = settled (snd (sla_hook now i dto inc after actor (transitioned now i dto inc oa actor after w)))"
proof -
  from assms obtain inc oa w1 where
    g: "findOneScoped i u w = Inr inc" "transition_checks inc dto u w = Inr oa"
    and tx: "transitionInTx now i dto inc oa actor w = (Inr after, w1)" and st: "settled w' = settled w1"
    by (rule createTransition_InrD)
  from tx obtain r where r: "find_by i_id i (incidents w) = Some r"
    "after = (transition_data now dto r)\<lparr>i_updatedAt := now\<rparr>"
    "w1 = snd (sla_hook now i dto inc after actor (transitioned now i dto inc oa actor after w))"
    by (rule transitionInTx_InrD)
  have "r = inc" using r(1) findOneScoped_InrD(1) [OF g(1)] by simp
  moreover from g(2) obtain rule where "check_transition inc dto u = Inr rule" by (rule transition_checks_InrD)
  ultimately show ?thesis using that r st g findOneScoped_InrD [OF g(1)] by metis
qed

text \<open>A request that passes its checks is carried out.\<close>

lemma transition_succeeds:
  assumes "findOneScoped i u w = Inr inc" "transition_checks inc dto u w = Inr oa"
    and ok: "incident_refs_ok w ((transition_data now dto inc)\<lparr>i_updatedAt := now\<rparr>)"
  shows "\<exists>w'. createTransition now i dto actor u w = (Inr ((transition_data now dto inc)\<lparr>i_updatedAt := now\<rparr>), w')"
proof -
  let ?a = "(transition_data now dto inc)\<lparr>i_updatedAt := now\<rparr>"
  have "\<exists>w1. transitionInTx now i dto inc oa actor w = (Inr ?a, w1)"
    using findOneScoped_InrD(1) [OF assms(1)] ok
    by (simp add: transitionInTx_def bindM_def [of "update_incident _ _ _"] update_incident_eval Let_def
        bindM_returns [OF sla_hook_returns])
  then obtain w1 where "transaction (transitionInTx now i dto inc oa actor) w = (Inr ?a, w1)" by auto
  then have "createTransition now i dto actor u w = transition_post now dto inc actor ?a w1"
    using assms(1,2) by (simp add: createTransition_alt bindM_def [of "transaction _"])
  then show ?thesis
    using transition_post_returns [of now dto inc actor ?a w1] by (metis prod.collapse)
qed

lemma desk_assigns:
  "\<exists>w'. createTransition 5 ''inc-1'' assign_dto (actor_of desk_user) (auth_of desk_user) desk_world =
     (Inr ((transition_data 5 assign_dto ticket)\<lparr>i_updatedAt := 5\<rparr>), w')"
proof (rule transition_succeeds)
  show "findOneScoped ''inc-1'' (auth_of desk_user) desk_world = Inr ticket"
    by (simp add: findOneScoped_def findOne_def assertSiteAccess_def canAccessSite_iff desk_defs)
  show "transition_checks ticket assign_dto (auth_of desk_user) desk_world = Inr []"
    by (simp add: transition_checks_def check_transition_def findTransitionRule_def TRANSITION_RULES_def
        validate_owner_resolved_def desk_defs)
  show "incident_refs_ok desk_world ((transition_data 5 assign_dto ticket)\<lparr>i_updatedAt := 5\<rparr>)"
    by (simp add: incident_refs_ok_def transition_data_def desk_defs)
qed

text \<open>
  C1: a status change goes through only if the caller may see the ticket's site, the rule table
  has the move, the caller has one of the rule's roles, is the owner or elevated where the rule
  asks for it, gave every field it asks for, and, for a resolve, no linked alert is still open
  unless a reason was given; then the ticket has the new status and no other ticket changed.
\<close>

theorem transition_only_by_the_rules:
  assumes "createTransition now i dto actor u w = (Inr after, w')"
  shows "\<exists>inc rule. find_by i_id i (incidents w) = Some inc \<and> canAccessSite w u (i_siteId inc) \<and>
     findTransitionRule (i_status inc) (td_toStatus dto) = Some rule \<and>
     au_role u \<in> set (tr_allowedRoles rule) \<and>
     (tr_requiresOwnerOrElevated rule \<longrightarrow> i_ownerUserId inc = Some (au_id u) \<or> au_role u \<in> set ELEVATED_ROLES) \<and>
     filter (field_missing dto) (tr_requiredFields rule) = [] \<and>
     (td_toStatus dto = RESOLVED \<longrightarrow> findOpenAlertsForIncident (i_id inc) w = [] \<or> truthy (td_reason dto)) \<and>
     i_status after = td_toStatus dto \<and>
     incidents w' = update_by i_id i (\<lambda>_. after) (incidents w)"
proof -
  from assms obtain inc oa rule where t: "find_by i_id i (incidents w) = Some inc" "canAccessSite w u (i_siteId inc)"
    "findOneScoped i u w = Inr inc" "transition_checks inc dto u w = Inr oa"
    "check_transition inc dto u = Inr rule"
    "after = (transition_data now dto inc)\<lparr>i_updatedAt := now\<rparr>"
    "settled w' = settled (snd (sla_hook now i dto inc after actor (transitioned now i dto inc oa actor after w)))"
    by (rule transition_success)
  have "incidents w' = update_by i_id i (\<lambda>_. after) (incidents w)"
    using settled_eqD(1) [OF t(7)] by (simp add: incidents_after_hook)
  moreover have "i_status after = td_toStatus dto" unfolding t(6) by simp
  moreover have "td_toStatus dto = RESOLVED \<longrightarrow> findOpenAlertsForIncident (i_id inc) w = [] \<or> truthy (td_reason dto)"
    using t(4) by (auto elim: transition_checks_InrD)
  ultimately show ?thesis
    using t(1,2) check_transition_InrD [OF t(5)] by (auto simp: filter_empty_conv isOwnerOrElevated_def)
qed

theorem transition_only_by_the_rules_witness:
  "\<exists>after w' rule. createTransition 5 ''inc-1'' assign_dto (actor_of desk_user) (auth_of desk_user) desk_world = (Inr after, w') \<and>
     findTransitionRule NEW ASSIGNED = Some rule \<and> SERVICE_DESK_NOC \<in> set (tr_allowedRoles rule) \<and>
     i_status after = ASSIGNED \<and> incidents w' = update_by i_id ''inc-1'' (\<lambda>_. after) (incidents desk_world)"
proof -
  from desk_assigns obtain after w' where
    run: "createTransition 5 ''inc-1'' assign_dto (actor_of desk_user) (auth_of desk_user) desk_world = (Inr after, w')"
    by blast
  from transition_only_by_the_rules [OF run] run show ?thesis
    by (auto simp: assign_dto_def empty_dto_def auth_of_def desk_user_def)
qed

text \<open>
  A status change that succeeds leaves its evidence: exactly one timeline entry, with the old
  and the new status, the reason and the alerts that were still open, and first among the new
  audit records the one of the transition, with the ticket before and after and the actor.
\<close>

theorem transition_leaves_evidence:
  assumes "createTransition now i dto actor u w = (Inr after, w')"
  shows "\<exists>inc oa e more. find_by i_id i (incidents w) = Some inc \<and>
     events w' = events w @ [status_event now e i dto inc oa actor] \<and>
     audits w' = audits w @ transition_audit now i (Some (actorId actor)) inc after (correlationId actor) # more"
proof -
  from assms obtain inc oa rule where t: "find_by i_id i (incidents w) = Some inc" "canAccessSite w u (i_siteId inc)"
    "findOneScoped i u w = Inr inc" "transition_checks inc dto u w = Inr oa" "check_transition inc dto u = Inr rule"
    "after = (transition_data now dto inc)\<lparr>i_updatedAt := now\<rparr>"
    "settled w' = settled (snd (sla_hook now i dto inc after actor (transitioned now i dto inc oa actor after w)))"
    by (rule transition_success)
  let ?w2 = "transitioned now i dto inc oa actor after w"
  have "prefix (audits ?w2) (audits (snd (sla_hook now i dto inc after actor ?w2)))"
    by (rule appendsD [OF appends_sla_hook(2)])
  then have "prefix (audits ?w2) (audits w')" using settled_eqD(3) [OF t(7)] by simp
  then obtain more where "audits w' = audits ?w2 @ more" by (auto simp: prefix_def)
  moreover have "events w' = events ?w2" using settled_eqD(2) [OF t(7)] by (simp add: incidents_after_hook)
  ultimately show ?thesis using t(1) by auto
qed

theorem transition_leaves_evidence_witness:
  "\<exists>after w' e more. createTransition 5 ''inc-1'' assign_dto (actor_of desk_user) (auth_of desk_user) desk_world = (Inr after, w') \<and>
     events w' = events desk_world @ [e] \<and> e_incidentId e = ''inc-1'' \<and>
     audits w' = audits desk_world @ transition_audit 5 ''inc-1'' (Some ''u-desk'') ticket after None # more"
proof -
  from desk_assigns obtain after w' where
    run: "createTransition 5 ''inc-1'' assign_dto (actor_of desk_user) (auth_of desk_user) desk_world = (Inr after, w')"
    by blast
  from transition_leaves_evidence [OF run] run show ?thesis
    by (auto simp: status_event_def actor_of_def desk_user_def)
qed

text \<open>
  C4: a status change that is refused or fails, for whatever reason and at whatever point, leaves
  no trace: every table, the timeline and the audit trail, the queues of mails and events and the
  caches are what they were. Only ids may have been drawn from the generator.
\<close>

theorem failed_transition_leaves_no_trace:
  assumes "createTransition now i dto actor u w = (Inl e, w')"
  shows "w' = w\<lparr>uuid_next := uuid_next w'\<rparr>"
  using createTransition_failed [OF assms] unfolding same_records_def .

theorem failed_transition_leaves_no_trace_witness:
  "fst (createTransition 5 ''inc-1'' assign_dto (actor_of eng_user) (auth_of eng_user) desk_world) =
     Inl (Forbidden ''Role cannot perform this transition'') \<and>
   (\<exists>n. snd (createTransition 5 ''inc-1'' assign_dto (actor_of eng_user) (auth_of eng_user) desk_world) = desk_world\<lparr>uuid_next := n\<rparr>)"
proof -
  have run: "createTransition 5 ''inc-1'' assign_dto (actor_of eng_user) (auth_of eng_user) desk_world =
      (Inl (Forbidden ''Role cannot perform this transition''), desk_world)"
    by (simp add: createTransition_alt bindM_readM findOneScoped_def findOne_def assertSiteAccess_def canAccessSite_iff
        transition_checks_def check_transition_def findTransitionRule_def TRANSITION_RULES_def desk_defs)
  then have "desk_world = desk_world\<lparr>uuid_next := uuid_next desk_world\<rparr>" by (rule failed_transition_leaves_no_trace)
  then show ?thesis unfolding run fst_conv snd_conv by blast
qed

section \<open>Who may read\<close>

lemma findOneScoped_stranger:
  assumes "au_role u = CLIENT_MANAGER_VIEWER" "find_by i_id i (incidents w) = Some inc"
    "i_reportedByUserId inc \<noteq> Some (au_id u)"
  shows "\<exists>msg. findOneScoped i u w = Inl (Forbidden msg)"
  using assms by (auto simp: findOneScoped_def findOne_def assertSiteAccess_def split: sum.split)

text \<open>
  C6: a customer has no way into a ticket somebody else reported: every read of it (the ticket,
  its comments, timeline, SLA state, moves, attachments and their download links) and every write
  to it (comment, edit, status change, upload, removal) is refused as forbidden, and the writes
  leave the world as it was.
\<close>

theorem customer_locked_out_of_foreign_tickets:
  assumes "au_role u = CLIENT_MANAGER_VIEWER" "find_by i_id i (incidents w) = Some inc"
    "i_reportedByUserId inc \<noteq> Some (au_id u)"
  shows "\<exists>msg. findOneScoped i u w = Inl (Forbidden msg) \<and> listComments i u w = Inl (Forbidden msg) \<and>
    listEvents i u w = Inl (Forbidden msg) \<and> findSlaState i u w = Inl (Forbidden msg) \<and>
    getAvailableTransitions i u w = Inl (Forbidden msg) \<and> listAttachments i u w = Inl (Forbidden msg) \<and>
    getAttachmentDownloadUrl sign i att u w = Inl (Forbidden msg) \<and>
    createComment now i body hidden act u w = (Inl (Forbidden msg), w) \<and>
    incidentUpdate now i udto u act w = (Inl (Forbidden msg), w) \<and>
    createTransition now i tdto act u w = (Inl (Forbidden msg), w) \<and>
    uploadAttachment now stored i file act u w = (Inl (Forbidden msg), w) \<and>
    deleteAttachment now i att act u w = (Inl (Forbidden msg), w)"
proof -
  from findOneScoped_stranger [OF assms] obtain msg where "findOneScoped i u w = Inl (Forbidden msg)" by blast
  then show ?thesis
    by (intro exI [of _ msg]) (simp add: listComments_def listEvents_def findSlaState_def
      getAvailableTransitions_def listAttachments_def getAttachmentDownloadUrl_def createComment_def
      incidentUpdate_def createTransition_def uploadAttachment_def deleteAttachment_def)
qed

theorem customer_locked_out_of_foreign_tickets_witness:
  "\<exists>msg. findOneScoped ''inc-1'' (auth_of customer_user) desk_world = Inl (Forbidden msg) \<and>
     listComments ''inc-1'' (auth_of customer_user) desk_world = Inl (Forbidden msg)"
proof -
  have "au_role (auth_of customer_user) = CLIENT_MANAGER_VIEWER"
    "i_reportedByUserId ticket \<noteq> Some (au_id (auth_of customer_user))"
    by (simp_all add: auth_of_def customer_user_def ticket_def new_incident_def)
  from customer_locked_out_of_foreign_tickets [OF this(1) desk_ticket this(2)] show ?thesis
    by (rule ex_forward) (elim conjE, intro conjI)
qed

text \<open>
  C7: what a customer reads of the conversation on their own ticket is exactly its comments that
  are not internal notes, oldest first; and what a customer writes there is never internal,
  whatever the request says.
\<close>

theorem customers_never_see_internal_notes:
  assumes "au_role u = CLIENT_MANAGER_VIEWER" "findOneScoped i u w = Inr inc"
  shows "\<exists>cs. listComments i u w = Inr cs \<and> sorted (map c_createdAt cs) \<and>
     set cs = {c \<in> set (comments w). c_incidentId c = i \<and> \<not> c_isInternal c} \<and>
     (\<exists>c w'. createComment now i body hidden act u w = (Inr c, w') \<and> \<not> c_isInternal c)"
proof -
  let ?cs = "filter (\<lambda>c. \<not> c_isInternal c) (sort_key c_createdAt (filter (\<lambda>c. c_incidentId c = i) (comments w)))"
  have "listComments i u w = Inr ?cs" using assms by (simp add: listComments_def Let_def)
  moreover have "sorted (map c_createdAt ?cs)" by (rule sorted_filter) simp
  moreover have "set ?cs = {c \<in> set (comments w). c_incidentId c = i \<and> \<not> c_isInternal c}" by auto
  moreover obtain c w1 where c: "commentInTx now i body False act w = (Inr c, w1)" "\<not> c_isInternal c"
    using commentInTx_returns by metis
  have "\<exists>c w'. createComment now i body hidden act u w = (Inr c, w') \<and> \<not> c_isInternal c"
    using assms c by (simp add: createComment_def bindM_transaction bindM_returns [OF notice_returns(5)])
  ultimately show ?thesis by blast
qed

theorem customers_never_see_internal_notes_witness:
  "\<exists>cs. listComments ''inc-1'' (auth_of customer_user)
      (desk_world\<lparr>incidents := [ticket\<lparr>i_reportedByUserId := Some ''u-cust''\<rparr>]\<rparr>) = Inr cs \<and>
    sorted (map c_createdAt cs)"
  using customers_never_see_internal_notes [of "auth_of customer_user" "''inc-1''"
      "desk_world\<lparr>incidents := [ticket\<lparr>i_reportedByUserId := Some ''u-cust''\<rparr>]\<rparr>"
      "ticket\<lparr>i_reportedByUserId := Some ''u-cust''\<rparr>" 0 "''hello''" None "actor_of customer_user"]
  by (auto simp: findOneScoped_def findOne_def assertSiteAccess_def canAccessSite_iff desk_defs)

text \<open>
  A ticket list, whatever filters the caller asks for, holds only tickets of sites the caller
  may see and, for a customer, only tickets the customer reported.
\<close>

theorem ticket_list_is_scoped:
  "set (pg_items (incidentsFindAll q (getAccessibleSiteIds w u) u w)) \<subseteq>
     {inc \<in> set (incidents w). canAccessSite w u (i_siteId inc) \<and>
        (au_role u = CLIENT_MANAGER_VIEWER \<longrightarrow> i_reportedByUserId inc = Some (au_id u))}"
proof -
  have "incident_where w q (getAccessibleSiteIds w u) u inc \<Longrightarrow>
      canAccessSite w u (i_siteId inc) \<and>
      (au_role u = CLIENT_MANAGER_VIEWER \<longrightarrow> i_reportedByUserId inc = Some (au_id u))" for inc
    by (auto simp: incident_where_def incident_siteFilter_def canAccessSite_def split: option.splits if_splits)
  then show ?thesis
    using page_desc_items [of "incident_where w q (getAccessibleSiteIds w u) u" i_createdAt] 
    unfolding incidentsFindAll_def by blast
qed

theorem ticket_list_is_scoped_witness:
  "ticket \<notin> set (pg_items (incidentsFindAll \<lparr>iq_siteId = None, iq_status = None, iq_priority = None, iq_ownerUserId = None,
       iq_ownerGroupId = None, iq_ciId = None, iq_slaAtRisk = False, iq_q = None, iq_limit = None, iq_offset = None\<rparr>
       (getAccessibleSiteIds desk_world (auth_of customer_user)) (auth_of customer_user) desk_world))"
  using ticket_list_is_scoped [of "\<lparr>iq_siteId = None, iq_status = None, iq_priority = None, iq_ownerUserId = None,
       iq_ownerGroupId = None, iq_ciId = None, iq_slaAtRisk = False, iq_q = None, iq_limit = None, iq_offset = None\<rparr>"
       desk_world "auth_of customer_user"]
  by auto

end
