(* ===== verification/Ticket_Numbers.thy ===== *)
theory Ticket_Numbers
  imports Incident_Moves
begin

text \<open>
  Ticket numbers come from a database sequence and ids from the uuid generator. Both stay unique
  through every request, also through requests that fail half way: a number drawn in a
  transaction that is rolled back is skipped, never given out again.
\<close>

section \<open>Numbers\<close>

definition incident_no :: "nat \<Rightarrow> string" where
  "incident_no n = ''INC-'' @ padStart 6 (CHR ''0'') (nat_str n)"

lemma nextIncidentNo_eval: "nextIncidentNo w = (Inr (incident_no (incident_no_seq w)), w\<lparr>incident_no_seq := Suc (incident_no_seq w)\<rparr>)"
  by (simp add: nextIncidentNo_def incident_no_def)

text \<open>Reading a padded number back gives the number, so padding loses nothing.\<close>

lemma number_from_append:
  "number_from acc (xs @ ys) = (case number_from acc xs of None \<Rightarrow> None | Some v \<Rightarrow> number_from v ys)"
  by (induction xs arbitrary: acc) (auto split: option.split)

lemma digit_value_digit: "d < 10 \<Longrightarrow> digit_value (digit_char d) = Some d"
  by (simp add: digit_value_def digit_char_def)

lemma number_from_nat_str: "number_from 0 (nat_str n) = Some n"
proof (induction n rule: nat_str.induct)
  case (1 n)
  show ?case
  proof (cases "n < 10")
    case True
    then show ?thesis by (simp add: nat_str.simps [of n] digit_value_digit)
  next
    case False
    then show ?thesis using 1 by (simp add: nat_str.simps [of n] number_from_append digit_value_digit)
  qed
qed

lemma number_from_zeros: "number_from 0 (replicate k (CHR ''0'') @ s) = number_from 0 s"
  by (induction k) (simp_all add: digit_value_def)

lemma incident_no_inj: "incident_no a = incident_no b \<Longrightarrow> a = b"
proof -
  assume "incident_no a = incident_no b"
  then have "number_from 0 (padStart 6 (CHR ''0'') (nat_str a)) = number_from 0 (padStart 6 (CHR ''0'') (nat_str b))"
    by (simp add: incident_no_def)
  then show "a = b" by (simp add: padStart_def number_from_zeros number_from_nat_str)
qed

section \<open>The invariant\<close>

definition ticket_inv :: "world \<Rightarrow> bool" where
  "ticket_inv w \<longleftrightarrow> keys_ok incidents i_id w \<and> distinct (map i_incidentNo (incidents w)) \<and>
     list_all (\<lambda>r. \<exists>n < incident_no_seq w. i_incidentNo r = incident_no n) (incidents w)"

definition counters_grow :: "world \<Rightarrow> world \<Rightarrow> bool" where
  "counters_grow w w' \<longleftrightarrow> env w' = env w \<and> uuid_next w \<le> uuid_next w' \<and> incident_no_seq w \<le> incident_no_seq w'"

text \<open>Actions that leave the tickets alone, and actions that keep the invariant.\<close>

definition same_tickets :: "world \<Rightarrow> world \<Rightarrow> bool" where
  "same_tickets w w' \<longleftrightarrow> counters_grow w w' \<and> incidents w' = incidents w"

definition numbers_kept :: "world \<Rightarrow> world \<Rightarrow> bool" where
  "numbers_kept w w' \<longleftrightarrow> counters_grow w w' \<and> (ticket_inv w \<longrightarrow> ticket_inv w')"

lemma counters_grow_refl [simp]: "counters_grow w w"
  and counters_grow_trans: "counters_grow w w' \<Longrightarrow> counters_grow w' w'' \<Longrightarrow> counters_grow w w''"
  by (simp_all add: counters_grow_def)

interpretation tickets_same: frame_relation same_tickets
  by unfold_locales (auto simp: same_tickets_def intro: counters_grow_trans)

interpretation numbers: frame_relation numbers_kept
  by unfold_locales (auto simp: numbers_kept_def intro: counters_grow_trans)

lemma ticket_inv_map:
  assumes "ticket_inv w" "counters_grow w w'" "map i_id (incidents w') = map i_id (incidents w)"
    "map i_incidentNo (incidents w') = map i_incidentNo (incidents w)"
  shows "ticket_inv w'"
proof -
  have "\<exists>n < incident_no_seq w'. i_incidentNo r = incident_no n" if "r \<in> set (incidents w)" for r
  proof -
    from assms(1) that obtain n where "n < incident_no_seq w" "i_incidentNo r = incident_no n"
      by (auto simp: ticket_inv_def list_all_iff)
    then show ?thesis using assms(2) by (intro exI [of _ n]) (simp add: counters_grow_def)
  qed
  then have "list_all (\<lambda>no. \<exists>n < incident_no_seq w'. no = incident_no n) (map i_incidentNo (incidents w'))"
    unfolding assms(4) by (simp add: list_all_iff)
  then have "list_all (\<lambda>r. \<exists>n < incident_no_seq w'. i_incidentNo r = incident_no n) (incidents w')"
    by (simp add: list.pred_map comp_def)
  moreover have "keys_ok incidents i_id w'"
    by (rule keys_ok_same [of _ _ w]) (use assms in \<open>auto simp: ticket_inv_def counters_grow_def\<close>)
  ultimately show ?thesis using assms by (simp add: ticket_inv_def)
qed

lemma same_tickets_kept: "same_tickets w w' \<Longrightarrow> numbers_kept w w'"
  by (auto simp: same_tickets_def numbers_kept_def intro: ticket_inv_map)

lemma obeys_numbers: "obeys same_tickets m \<Longrightarrow> obeys numbers_kept m"
  by (simp add: obeys_def same_tickets_kept)

lemma numbers_rollback: "numbers_kept w w' \<Longrightarrow> numbers_kept w (rollback w w')"
proof -
  assume "numbers_kept w w'"
  then have "same_tickets w (rollback w w')"
    by (simp add: numbers_kept_def same_tickets_def counters_grow_def rollback_def)
  then show ?thesis by (rule same_tickets_kept)
qed

lemma numbers_transaction: "obeys numbers_kept m \<Longrightarrow> obeys numbers_kept (transaction m)"
  by (rule numbers.obeys_transaction) (auto intro: numbers_rollback)

lemma tickets_basic:
  "obeys same_tickets freshId" "obeys same_tickets (auditRecord n aa t i x b f c)"
  "obeys same_tickets (add_event now i aa ev0)" "obeys same_tickets (emit ev)" "obeys same_tickets (emitUpdated inc act)"
  "obeys same_tickets (enqueue q k ky to cc j)" "obeys same_tickets (create_bell now inp key urg r)"
  "obeys same_tickets (save_instance now bb g action act)"
  "obeys same_tickets (modifyM (\<lambda>w. w\<lparr>comments := cm w\<rparr>))"
  "obeys same_tickets (modifyM (\<lambda>w. w\<lparr>attachments := atc w\<rparr>))"
  "obeys same_tickets (modifyM (\<lambda>w. w\<lparr>sla_instances := sl w\<rparr>))"
  by (simp_all add: obeys_def same_tickets_def counters_grow_def add_event_def emit_def emitUpdated_def enqueue_def
      create_bell_def)

lemma tickets_soundResolve: "obeys same_tickets (soundResolve now k l)"
proof -
  have "same_tickets w (snd (soundResolve now k l w))" for w
    using soundResolve_eval [of now k l w] by (auto simp: same_tickets_def counters_grow_def)
  then show ?thesis by (simp add: obeys_def)
qed

lemma tickets_notifyUsers: "obeys same_tickets (notifyUsers now inp)"
  unfolding notifyUsers_def by (intro tickets_same.obeys_rules tickets_basic tickets_soundResolve)

lemma tickets_notices:
  "obeys same_tickets (notifyServiceDeskOfNewIncident now i a)" "obeys same_tickets (notifyAssignment now i ow x)"
  "obeys same_tickets (notifyGroupAssignment now i g x)" "obeys same_tickets (notifyStatusChange now i i' r x)"
  "obeys same_tickets (notifyComment now i c u)" "obeys same_tickets (notifyAlertRecoveredEmail i al)"
  "obeys same_tickets (notifyRecoveredBell now i al at')"
  unfolding notice_defs mail_def by (intro tickets_same.obeys_rules tickets_basic tickets_notifyUsers)+

lemma tickets_hooks:
  "obeys same_tickets (startForIncident now i st p act)" "obeys same_tickets (onAcknowledged now i t act)"
  "obeys same_tickets (onResolved now i t act)" "obeys same_tickets (onPaused now i s act)"
  "obeys same_tickets (onResumed now i act)" "obeys same_tickets (onPriorityChanged now i st p act)"
  "obeys same_tickets (onReopened now i act)"
  unfolding sla_hook_defs
  by (intro tickets_same.obeys_basic tickets_same.obeys_bind tickets_same.obeys_if tickets_same.obeys_option
      tickets_same.obeys_prod tickets_same.obeys_let tickets_basic)+

lemmas number_parts = tickets_basic [THEN obeys_numbers] tickets_notices [THEN obeys_numbers]
  tickets_hooks [THEN obeys_numbers]

text \<open>Drawing a number and an id and inserting the row.\<close>

lemma bindM_insert_incident:
  "bindM (insert_incident r) f w =
     (if incident_refs_ok w r then f () (w\<lparr>incidents := incidents w @ [r]\<rparr>) else (Inl fk_error, w))"
  by (simp add: insert_incident_def bindM_def)

lemma new_incident_simps [simp]:
  "i_id (new_incident now i no dto rep) = i" "i_incidentNo (new_incident now i no dto rep) = no"
  "i_status (new_incident now i no dto rep) = NEW" "i_siteId (new_incident now i no dto rep) = cd_siteId dto"
  "i_priority (new_incident now i no dto rep) = cd_priority dto" "i_ciId (new_incident now i no dto rep) = cd_ciId dto"
  by (simp_all add: new_incident_def)

lemma ticket_inv_insert:
  assumes "ticket_inv w" "env w' = env w" "uuid_next w < uuid_next w'" "incident_no_seq w < incident_no_seq w'"
    "incidents w' = incidents w @ [r]" "i_id r = env_uuid (env w) (uuid_next w)"
    "i_incidentNo r = incident_no (incident_no_seq w)"
  shows "ticket_inv w'"
proof -
  have keys: "keys_ok incidents i_id w'"
    using assms(1) by (intro keys_ok_insert [of incidents i_id w w' r] assms) (simp add: ticket_inv_def)
  have old: "\<exists>n < incident_no_seq w. i_incidentNo x = incident_no n" if "x \<in> set (incidents w)" for x
    using assms(1) that by (simp add: ticket_inv_def list_all_iff)
  have "i_incidentNo r \<notin> i_incidentNo ` set (incidents w)"
  proof
    assume "i_incidentNo r \<in> i_incidentNo ` set (incidents w)"
    then obtain x where x: "x \<in> set (incidents w)" "i_incidentNo x = incident_no (incident_no_seq w)"
      using assms(7) by force
    from old [OF x(1)] x(2) show False by (auto dest: incident_no_inj)
  qed
  moreover have "\<exists>n < incident_no_seq w'. i_incidentNo x = incident_no n" if "x \<in> set (incidents w')" for x
    using that old [of x] assms(4,5,7) by (auto intro: order.strict_trans)
  ultimately show ?thesis
    using assms(1,5) keys by (auto simp: ticket_inv_def list_all_iff)
qed

lemma numbers_createInTx: "obeys numbers_kept (createInTx now dto act rep org)"
proof -
  have "numbers_kept w (snd (createInTx now dto act rep org w))" for w
  proof -
    let ?r = "new_incident now (env_uuid (env w) (uuid_next w)) (incident_no (incident_no_seq w)) dto rep"
    let ?w1 = "w\<lparr>incident_no_seq := Suc (incident_no_seq w), uuid_next := Suc (uuid_next w)\<rparr>"
    let ?w2 = "?w1\<lparr>incidents := incidents w @ [?r]\<rparr>"
    let ?m = "bindM (add_event now (i_id ?r) (Some (actorId act)) (CREATED (i_status ?r) org)) (\<lambda>_.
        bindM (auditRecord now (Some (actorId act)) ''Incident'' (i_id ?r) ''CREATE'' None
                 (Some (SnapIncident ?r)) (correlationId act)) (\<lambda>_.
        bindM (startForIncident now (i_id ?r) (i_siteId ?r) (i_priority ?r) act) (\<lambda>_. ret ?r)))"
    have run: "createInTx now dto act rep org w = (if incident_refs_ok ?w1 ?r then ?m ?w2 else (Inl fk_error, ?w1))"
      by (simp add: createInTx_def bindM_def [of nextIncidentNo] nextIncidentNo_eval bindM_insert_incident Let_def)
    have m: "obeys numbers_kept ?m" by (intro numbers.obeys_rules number_parts)
    have "ticket_inv w \<Longrightarrow> ticket_inv ?w2" by (erule ticket_inv_insert [where r = ?r]) simp_all
    then have "numbers_kept w ?w2" by (simp add: numbers_kept_def counters_grow_def)
    then have "numbers_kept w (snd (?m ?w2))" by (rule numbers.R_trans [OF _ obeysD [OF m]])
    moreover have "numbers_kept w ?w1"
      by (rule same_tickets_kept) (simp add: same_tickets_def counters_grow_def)
    ultimately show ?thesis unfolding run by simp
  qed
  then show ?thesis by (simp add: obeys_def)
qed

text \<open>A row written back keeps its id and number.\<close>

lemma update_keeps_maps:
  assumes "keys_ok incidents i_id w" "find_by i_id i (incidents w) = Some r" "i_id r' = i_id r" "i_incidentNo r' = i_incidentNo r"
  shows "map i_id (update_by i_id i (\<lambda>_. r') (incidents w)) = map i_id (incidents w)"
    "map i_incidentNo (update_by i_id i (\<lambda>_. r') (incidents w)) = map i_incidentNo (incidents w)"
proof -
  have r: "r \<in> set (incidents w)" "i_id r = i" using find_by_SomeD [OF assms(2)] by simp_all
  have "x = r" if "x \<in> set (incidents w)" "i_id x = i" for x
    using assms(1) that r by (auto simp: keys_ok_def distinct_map dest: inj_onD)
  then show "map i_id (update_by i_id i (\<lambda>_. r') (incidents w)) = map i_id (incidents w)"
    "map i_incidentNo (update_by i_id i (\<lambda>_. r') (incidents w)) = map i_incidentNo (incidents w)"
    using assms(3,4) r(2) by (auto simp: update_by_def)
qed

lemma numbers_row:
  assumes "find_by i_id i (incidents w) = Some r" "same_ticket r r'" "counters_grow w w'"
    "incidents w' = update_by i_id i (\<lambda>_. r') (incidents w)"
  shows "numbers_kept w w'"
proof -
  have "ticket_inv w'" if inv: "ticket_inv w"
  proof (rule ticket_inv_map [OF inv assms(3)])
    have "keys_ok incidents i_id w" using inv by (simp add: ticket_inv_def)
    note maps = update_keeps_maps [OF this assms(1), of r']
    show "map i_id (incidents w') = map i_id (incidents w)"
      "map i_incidentNo (incidents w') = map i_incidentNo (incidents w)"
      using maps assms(2) by (simp_all add: assms(4) same_ticket_def)
  qed
  then show ?thesis using assms(3) by (simp add: numbers_kept_def)
qed

lemma numbers_update_incident:
  assumes "\<And>r. same_ticket r ((f r)\<lparr>i_updatedAt := now\<rparr>)"
  shows "obeys numbers_kept (update_incident now i f)"
proof -
  have "numbers_kept w (snd (update_incident now i f w))" for w
    using assms
    by (auto simp: update_incident_eval Let_def counters_grow_def numbers.R_refl intro!: numbers_row split: option.split)
  then show ?thesis by (simp add: obeys_def)
qed

lemma numbers_patch: "obeys numbers_kept (update_incident now i (patch_incident d))"
  and numbers_transition_row: "obeys numbers_kept (update_incident now i (transition_data now d'))"
  by (rule numbers_update_incident; simp)+

lemma numbers_autoAssignInTx: "obeys numbers_kept (autoAssignInTx now i ow cor acc grp inc)"
proof -
  have "numbers_kept w (snd (autoAssignInTx now i ow cor acc grp inc w))" for w
  proof (cases "find_by i_id i (incidents w)")
    case None
    then show ?thesis by (simp add: autoAssignInTx_def numbers.R_refl)
  next
    case (Some r)
    have "same_ticket r (assign_data now ow grp r)" by (simp add: same_ticket_def assign_data_def)
    then show ?thesis
      using Some by (auto simp: autoAssignInTx_def Let_def counters_grow_def numbers.R_refl intro!: numbers_row)
  qed
  then show ?thesis by (simp add: obeys_def)
qed

section \<open>Every request\<close>

lemma numbers_afterCreate: "obeys numbers_kept (afterCreate now inc act)"
  unfolding afterCreate_def by (intro numbers.obeys_rules number_parts)

lemma numbers_sla_hook: "obeys numbers_kept (sla_hook now i dto b a act)"
  unfolding sla_hook_def by (intro numbers.obeys_rules number_parts)

lemmas number_rules = numbers.obeys_basic numbers.obeys_bind numbers.obeys_if numbers.obeys_option
  numbers.obeys_prod numbers.obeys_let numbers_transaction number_parts numbers_createInTx numbers_afterCreate
  numbers_patch numbers_transition_row numbers_autoAssignInTx numbers_sla_hook

lemma numbers_ops:
  "obeys numbers_kept (incidentCreate now dto act rep)" "obeys numbers_kept (createComment now i b hidden act u)"
  "obeys numbers_kept (incidentUpdate now i udto u act)" "obeys numbers_kept (createTransition now i tdto act u)"
  "obeys numbers_kept (autoAssign now i ow cor acc grp)" "obeys numbers_kept (linkAlert now i al act)"
  "obeys numbers_kept (createFromAlert now inp act)" "obeys numbers_kept (notifyAlertRecovered now i al act)"
  "obeys numbers_kept (uploadAttachment now stored i file act u)" "obeys numbers_kept (deleteAttachment now i att act u)"
  "obeys numbers_kept (recordRoutingEvent now i actor action payload)"
  unfolding incidentCreate_def createComment_def commentInTx_def incidentUpdate_def updateInTx_def createTransition_def
    transitionInTx_def autoAssign_def linkAlert_def writeAlertLink_def createFromAlert_def createFromAlertInTx_def
    notifyAlertRecovered_def noteAlertRecoveredOnOpenIncident_def uploadAttachment_def deleteAttachment_def
    recordRoutingEvent_def
  by (intro number_rules)+

lemma numbers_createFromCustomer: "obeys numbers_kept (createFromCustomer now cdto act u)"
  unfolding createFromCustomer_def by (intro number_rules numbers_ops)

lemma incident_step_numbers: "incident_step w w' \<Longrightarrow> numbers_kept w w'"
  by (induction rule: incident_step.induct) (rule obeysD, rule numbers_ops numbers_createFromCustomer)+

interpretation ticket_system: invariant_system incident_step ticket_inv
  by unfold_locales (use incident_step_numbers in \<open>auto simp: numbers_kept_def\<close>)

section \<open>The property\<close>

text \<open>
  no two tickets ever have the same number or the same id, after any sequence of requests from
  a database where they were unique and drawn from the sequence and the generator.
\<close>

theorem ticket_numbers_unique:
  assumes "incident_step\<^sup>*\<^sup>* w w'" "ticket_inv w"
  shows "distinct (map i_incidentNo (incidents w')) \<and> distinct (map i_id (incidents w'))"
  using ticket_system.run_inv [OF assms] by (simp add: ticket_inv_def keys_ok_def)

lemma empty_ticket_inv: "ticket_inv empty_world"
  by (auto simp: ticket_inv_def keys_ok_def empty_world_def intro: injI nat_str_inj)

theorem ticket_numbers_unique_witness:
  "distinct (map i_incidentNo (incidents (snd (incidentCreate 5 \<lparr>cd_siteId = ''BLR'', cd_ciId = None,
     cd_category = ''POWER'', cd_impact = ''HIGH'', cd_urgency = ''HIGH'', cd_priority = P1,
     cd_shortDescription = ''rack down''\<rparr> sample_actor None empty_world)))) \<and>
   distinct (map i_id (incidents (snd (incidentCreate 5 \<lparr>cd_siteId = ''BLR'', cd_ciId = None,
     cd_category = ''POWER'', cd_impact = ''HIGH'', cd_urgency = ''HIGH'', cd_priority = P1,
     cd_shortDescription = ''rack down''\<rparr> sample_actor None empty_world))))"
  by (rule ticket_numbers_unique [OF r_into_rtranclp [of incident_step, OF is_create] empty_ticket_inv])

end
