(* ===== verification/Incident_Gaps.thy ===== *)
theory Incident_Gaps
  imports Incident_Props Ticket_Numbers
begin

text \<open>
  More properties of the incident service: that the menu of moves agrees with the endpoint, how the
  SLA clock follows the status, that an alert is linked once and opens one ticket per device, that
  ticket numbers never repeat; and the gaps the checks leave, each shown on a concrete database.
\<close>

section \<open>The menu of moves\<close>

definition complete_request :: "transition_dto \<Rightarrow> bool" where
  "complete_request dto \<longleftrightarrow> truthy (td_reason dto) \<and> truthy (td_resolutionCategory dto) \<and>
     truthy (td_rootCauseSummary dto) \<and> truthy (coalesce (td_ownerUserId dto) None) \<and>
     truthy (coalesce (td_ownerGroupId dto) None)"

lemma complete_fields: "complete_request dto \<Longrightarrow> \<not> field_missing dto f"
  by (cases f) (simp_all add: complete_request_def)

lemma complete_validates:
  assumes "complete_request dto" "rule \<in> set TRANSITION_RULES" "tr_validate rule = Some f"
  shows "f inc dto = None"
proof -
  have "f = validate_owner_resolved"
    using assms(2,3) by (auto simp: TRANSITION_RULES_def)
  moreover have "truthy (coalesce (td_ownerUserId dto) x)" for x
    using assms(1) by (auto simp: complete_request_def coalesce_def split: option.splits)
  ultimately show ?thesis by (simp add: validate_owner_resolved_def)
qed

lemma complete_check:
  assumes "complete_request dto"
  shows "(\<exists>rule. check_transition inc dto u = Inr rule) \<longleftrightarrow>
    (\<exists>rule. findTransitionRule (i_status inc) (td_toStatus dto) = Some rule \<and> au_role u \<in> set (tr_allowedRoles rule) \<and>
       (tr_requiresOwnerOrElevated rule \<longrightarrow> isOwnerOrElevated (au_id u) (au_role u) inc))"
proof -
  have no_missing: "filter (field_missing dto) fs = []" for fs
    using complete_fields [OF assms] by (simp add: filter_empty_conv)
  have valid: "f inc dto = None" if "findTransitionRule a b = Some rule" "tr_validate rule = Some f" for rule f a b
    using complete_validates [OF assms] that by (auto simp: findTransitionRule_Some_iff)
  show ?thesis
    by (auto simp: check_transition_def no_missing split: option.split dest: valid)
qed

text \<open>
  C39: the menu and the endpoint agree: for a request that fills in every field, the endpoint
  accepts the move exactly when the menu shown to the same caller lists it as allowed.
\<close>

theorem menu_agrees_with_endpoint:
  assumes "findOneScoped i u w = Inr inc" "complete_request dto"
  shows "(\<exists>oa. transition_checks inc dto u w = Inr oa) \<longleftrightarrow>
     (\<exists>ms m. getAvailableTransitions i u w = Inr ms \<and> m \<in> set ms \<and> avt_toStatus m = td_toStatus dto \<and> avt_allowed m)"
proof -
  have "(\<exists>oa. transition_checks inc dto u w = Inr oa) \<longleftrightarrow> (\<exists>rule. check_transition inc dto u = Inr rule)"
    using assms(2) by (auto simp: transition_checks_def complete_request_def Let_def split: sum.split)
  also have "\<dots> \<longleftrightarrow> (\<exists>rule \<in> set TRANSITION_RULES. i_status inc \<in> set (tr_from rule) \<and> tr_to rule = td_toStatus dto \<and>
      au_role u \<in> set (tr_allowedRoles rule) \<and>
      (tr_requiresOwnerOrElevated rule \<longrightarrow> isOwnerOrElevated (au_id u) (au_role u) inc))"
    unfolding complete_check [OF assms(2)] findTransitionRule_Some_iff by blast
  finally show ?thesis
    using assms(1) by (fastforce simp: getAvailableTransitions_def available_of_def Let_def)
qed

definition full_dto :: transition_dto where
  "full_dto = \<lparr>td_toStatus = ASSIGNED, td_reason = Some ''r'', td_ownerGroupId = Some (Some ''g''),
     td_ownerUserId = Some (Some ''u-eng''), td_resolutionCategory = Some ''c'', td_rootCauseSummary = Some ''s''\<rparr>"

theorem menu_agrees_with_endpoint_witness:
  "(\<exists>oa. transition_checks ticket full_dto (auth_of desk_user) desk_world = Inr oa) \<longleftrightarrow>
   (\<exists>ms m. getAvailableTransitions ''inc-1'' (auth_of desk_user) desk_world = Inr ms \<and> m \<in> set ms \<and>
      avt_toStatus m = ASSIGNED \<and> avt_allowed m)"
proof -
  have "findOneScoped ''inc-1'' (auth_of desk_user) desk_world = Inr ticket"
    by (simp add: findOneScoped_def findOne_def assertSiteAccess_def canAccessSite_iff desk_defs)
  from menu_agrees_with_endpoint [OF this, of full_dto] show ?thesis
    by (simp add: complete_request_def full_dto_def)
qed

section \<open>The clock follows the ticket\<close>

text \<open>What a status change does to the ticket's clock, as a function of the row.\<close>

definition clock_after :: "instant \<Rightarrow> world \<Rightarrow> incident_status \<Rightarrow> incident_status \<Rightarrow> sla_instance \<Rightarrow> sla_instance" where
  "clock_after now w from to r =
     (case to of
        ACKNOWLEDGED \<Rightarrow> if si_ackedAt r = None then r\<lparr>si_ackedAt := Some now\<rparr> else r
      | RESOLVED \<Rightarrow> if si_resolvedAt r = None then r\<lparr>si_resolvedAt := Some now, si_pausedAt := None\<rparr> else r
      | PENDING_VENDOR \<Rightarrow> if si_resolvedAt r = None \<and> si_pausedAt r = None \<and> shouldPause w r PENDING_VENDOR
                          then r\<lparr>si_pausedAt := Some now\<rparr> else r
      | PENDING_CUSTOMER \<Rightarrow> if si_resolvedAt r = None \<and> si_pausedAt r = None \<and> shouldPause w r PENDING_CUSTOMER
                            then r\<lparr>si_pausedAt := Some now\<rparr> else r
      | IN_PROGRESS \<Rightarrow> if from = PENDING_VENDOR \<or> from = PENDING_CUSTOMER
                       then (case si_pausedAt r of None \<Rightarrow> r | Some p \<Rightarrow> resumed (paused_minutes p now) r) else r
      | REOPENED \<Rightarrow> if si_resolvedAt r = None then r else r\<lparr>si_resolvedAt := None\<rparr>
      | _ \<Rightarrow> r)"

lemma hook_rows:
  assumes "findInstance i w = Some r"
  shows "findInstance i (snd (onAcknowledged now i t act w)) = Some (if si_ackedAt r = None then r\<lparr>si_ackedAt := Some t\<rparr> else r)"
    "findInstance i (snd (onResolved now i t act w)) =
       Some (if si_resolvedAt r = None then r\<lparr>si_resolvedAt := Some t, si_pausedAt := None\<rparr> else r)"
    "findInstance i (snd (onPaused now i s act w)) =
       Some (if si_resolvedAt r = None \<and> si_pausedAt r = None \<and> shouldPause w r s then r\<lparr>si_pausedAt := Some now\<rparr> else r)"
    "findInstance i (snd (onResumed now i act w)) =
       Some (case si_pausedAt r of None \<Rightarrow> r | Some p \<Rightarrow> resumed (paused_minutes p now) r)"
    "findInstance i (snd (onReopened now i act w)) =
       Some (if si_resolvedAt r = None then r else r\<lparr>si_resolvedAt := None\<rparr>)"
  using findInstance_saved [OF assms] assms
  by (auto simp: onAcknowledged_def onResolved_def onPaused_def onResumed_def onReopened_def
      simp del: save_instance_eval split: option.split)

lemma transition_dates:
  "td_toStatus dto = ACKNOWLEDGED \<Longrightarrow> i_acknowledgedAt (transition_data now dto r) = Some now"
  "td_toStatus dto = RESOLVED \<Longrightarrow> i_restoredAt (transition_data now dto r) = Some now"
  by (simp_all add: transition_data_def Let_def)

lemma transition_clock:
  assumes "createTransition now i dto actor u w = (Inr after, w')" "findInstance i w = Some r"
  shows "\<exists>inc. find_by i_id i (incidents w) = Some inc \<and>
     findInstance i w' = Some (clock_after now w (i_status inc) (td_toStatus dto) r)"
proof -
  from assms(1) obtain inc oa rule where t: "find_by i_id i (incidents w) = Some inc" "canAccessSite w u (i_siteId inc)"
    "findOneScoped i u w = Inr inc" "transition_checks inc dto u w = Inr oa" "check_transition inc dto u = Inr rule"
    "after = (transition_data now dto inc)\<lparr>i_updatedAt := now\<rparr>"
    "settled w' = settled (snd (sla_hook now i dto inc after actor (transitioned now i dto inc oa actor after w)))"
    by (rule transition_success)
  let ?w2 = "transitioned now i dto inc oa actor after w"
  have r2: "findInstance i ?w2 = Some r" using assms(2) by (simp add: findInstance_def)
  have pause: "shouldPause ?w2 r s = shouldPause w r s" for s by (simp add: shouldPause_def)
  have "findInstance i (snd (sla_hook now i dto inc after actor ?w2)) =
      Some (clock_after now w (i_status inc) (td_toStatus dto) r)"
    using transition_dates [of dto now inc]
    by (cases "td_toStatus dto")
      (simp_all add: sla_hook_def clock_after_def t(6) hook_rows [OF r2] pause r2 [unfolded t(6)]
        hook_rows [OF r2, unfolded t(6)] pause [unfolded t(6)])
  moreover have "findInstance i w' = findInstance i (snd (sla_hook now i dto inc after actor ?w2))"
    using settled_eqD(4) [OF t(7)] by (simp add: findInstance_def)
  ultimately show ?thesis using t(1) by simp
qed

text \<open>
  C5: the SLA clock of a ticket follows its status: an acknowledgement stops the response clock
  once, a resolve stops the resolution clock and ends any pause, a move to pending pauses it when
  the policy says so, coming back from pending resumes it with the deadline moved, a reopen starts
  it again. Closing and cancelling do nothing to the clock.
\<close>

theorem clock_follows_ticket:
  assumes "createTransition now i dto actor u w = (Inr after, w')" "findInstance i w = Some r"
  shows "\<exists>inc. find_by i_id i (incidents w) = Some inc \<and>
     findInstance i w' = Some (clock_after now w (i_status inc) (td_toStatus dto) r)"
  using assms by (rule transition_clock)

theorem clock_follows_ticket_witness:
  "\<exists>after w'. createTransition 5 ''inc-1'' assign_dto (actor_of desk_user) (auth_of desk_user) desk_world = (Inr after, w') \<and>
     findInstance ''inc-1'' w' = Some (clock_after 5 desk_world NEW ASSIGNED sample_clock)"
proof -
  from desk_assigns obtain after w' where
    run: "createTransition 5 ''inc-1'' assign_dto (actor_of desk_user) (auth_of desk_user) desk_world = (Inr after, w')"
    by blast
  have "findInstance ''inc-1'' desk_world = Some sample_clock"
    using sla_sample_simps(1) by (simp add: findInstance_def desk_world_def)
  from clock_follows_ticket [OF run this] run show ?thesis by (auto simp: assign_dto_def empty_dto_def)
qed

section \<open>Alerts and tickets\<close>

lemma writeAlertLink_facts:
  "\<exists>e w'. writeAlertLink now i al act w = (Inr (), w') \<and> incidents w' = incidents w \<and>
     events w' = events w @ [e] \<and> alert_linked i (ra_id al) e"
  by (simp add: writeAlertLink_def alert_linked_def)

lemma afterCreate_returns: "fst (afterCreate now inc act w) = Inr ()"
  by (simp add: afterCreate_def bindM_returns [OF notice_returns(1)] emit_def)

lemma afterCreate_settled: "settled (snd (afterCreate now inc act w)) = settled w"
  unfolding afterCreate_def by (rule keepsD) (intro keeps_intros keeps_settled keeps_settled_emit)

text \<open>A ticket created in a transaction: one more row, new, and the timeline only grows.\<close>

lemma createInTx_InrD:
  assumes "createInTx now dto act rep org w = (Inr inc, w')"
  shows "incidents w' = incidents w @ [inc]" "i_status inc = NEW" "i_ciId inc = cd_ciId dto" "i_siteId inc = cd_siteId dto"
proof -
  let ?r = "new_incident now (env_uuid (env w) (uuid_next w)) (incident_no (incident_no_seq w)) dto rep"
  from assms have inc: "inc = ?r"
    and rows: "incidents w' = incidents w @ [?r]"
    by (auto simp: createInTx_def bindM_def [of nextIncidentNo] nextIncidentNo_eval bindM_insert_incident Let_def
        bindM_Inr_iff split: if_splits dest!: keeps_result [OF keeps_sla_hooks(1)] beside_sla_eqD(1))
  show "incidents w' = incidents w @ [inc]" "i_status inc = NEW" "i_ciId inc = cd_ciId dto" "i_siteId inc = cd_siteId dto"
    using rows by (simp_all add: inc)
qed

text \<open>
  An alert on a device opens a ticket exactly when no open ticket exists for the device;
  otherwise it joins the most recent open one. Either way the alert is on the ticket's timeline,
  and the tickets there were are untouched.
\<close>

theorem one_open_ticket_per_device:
  assumes "createFromAlert now inp act w = (Inr (inc, created), w')"
  shows "(created \<longleftrightarrow> findOpenByCi (ac_ciId inp) w = None) \<and>
     (\<exists>e \<in> set (events w'). alert_linked (i_id inc) (ra_id (ac_alert inp)) e) \<and>
     (if created then incidents w' = incidents w @ [inc] \<and> i_ciId inc = Some (ac_ciId inp) \<and> i_status inc = NEW
      else incidents w' = incidents w \<and> findOpenByCi (ac_ciId inp) w = Some inc)"
proof -
  from assms obtain w1 where tx: "createFromAlertInTx now inp act w = (Inr (inc, created), w1)"
    and post: "(if created then afterCreate now inc act else ret ()) w1 = (Inr (), w')"
    by (auto simp: createFromAlert_def bindM_Inr_iff transactionM_Inr_iff)
  have st: "settled w' = settled w1"
    using post afterCreate_settled [of now inc act w1] by (auto split: if_splits)
  show ?thesis
  proof (cases "findOpenByCi (ac_ciId inp) w")
    case (Some open_inc)
    obtain e w2 where e: "writeAlertLink now (i_id open_inc) (ac_alert inp) act w = (Inr (), w2)"
      "incidents w2 = incidents w" "events w2 = events w @ [e]" "alert_linked (i_id open_inc) (ra_id (ac_alert inp)) e"
      using writeAlertLink_facts by blast
    from tx Some e(1) have "inc = open_inc" "\<not> created" "w1 = w2"
      by (auto simp: createFromAlertInTx_def bindM_def)
    then show ?thesis using Some e settled_eqD(1,2) [OF st] by simp
  next
    case None
    from tx None obtain w2 where c: "createInTx now
                  \<lparr>cd_siteId = ac_siteId inp, cd_ciId = Some (ac_ciId inp), cd_category = ac_category inp,
                   cd_impact = fst (PRIORITY_IMPACT_URGENCY (ac_priority inp)),
                   cd_urgency = snd (PRIORITY_IMPACT_URGENCY (ac_priority inp)),
                   cd_priority = ac_priority inp, cd_shortDescription = take 256 (ac_shortDescription inp)\<rparr>
                  act None (Some (''ALERT'', ra_id (ac_alert inp))) w = (Inr inc, w2)"
      and l: "writeAlertLink now (i_id inc) (ac_alert inp) act w2 = (Inr (), w1)" and created
      by (auto simp: createFromAlertInTx_def bindM_Inr_iff)
    from writeAlertLink_facts [of now "i_id inc" "ac_alert inp" act w2] l obtain e where
      "incidents w1 = incidents w2" "events w1 = events w2 @ [e]" "alert_linked (i_id inc) (ra_id (ac_alert inp)) e"
      by auto
    then show ?thesis using None \<open>created\<close> createInTx_InrD [OF c] settled_eqD(1,2) [OF st] by simp
  qed
qed

definition device_alert :: alert_ref where
  "device_alert = \<lparr>ra_id = ''al-1'', ra_alertType = ''PING_LOSS'', ra_severity = A_CRITICAL, ra_source = ''nagios'',
     ra_fingerprint = ''f''\<rparr>"

definition device_input :: alert_incident_input where
  "device_input = \<lparr>ac_siteId = ''BLR'', ac_ciId = ''ci-1'', ac_category = ''NETWORK'', ac_priority = P1,
     ac_shortDescription = ''PING_LOSS'', ac_alert = device_alert\<rparr>"

definition device_world :: world where
  "device_world = desk_world\<lparr>incidents := [ticket\<lparr>i_ciId := Some ''ci-1''\<rparr>]\<rparr>"

lemma device_open: "findOpenByCi ''ci-1'' device_world = Some (ticket\<lparr>i_ciId := Some ''ci-1''\<rparr>)"
  by (simp add: findOpenByCi_def device_world_def OPEN_STATUSES_def)

theorem one_open_ticket_per_device_witness:
  "\<exists>w'. createFromAlert 5 device_input sample_actor device_world = (Inr (ticket\<lparr>i_ciId := Some ''ci-1''\<rparr>, False), w') \<and>
     incidents w' = incidents device_world \<and> (\<exists>e. e \<in> set (events w') \<and> alert_linked ''inc-1'' ''al-1'' e)"
proof -
  obtain e w2 where "writeAlertLink 5 ''inc-1'' device_alert sample_actor device_world = (Inr (), w2)"
    using writeAlertLink_facts by blast
  then have run: "createFromAlert 5 device_input sample_actor device_world = (Inr (ticket\<lparr>i_ciId := Some ''ci-1''\<rparr>, False), w2)"
    using device_open
    by (simp add: createFromAlert_def createFromAlertInTx_def device_input_def bindM_def ticket_def)
  show ?thesis
    using one_open_ticket_per_device [OF run] run
    by (auto simp: device_input_def device_alert_def ticket_def)
qed

text \<open>
  Linking the same alert to the same ticket again changes nothing and says so.
\<close>

theorem alert_is_linked_once:
  assumes "linkAlert now i al act w = (Inr b, w1)" "ra_id al' = ra_id al"
  shows "linkAlert now' i al' act' w1 = (Inr False, w1)"
proof -
  from assms(1) obtain inc where inc: "findOne i w = Inr inc" by (cases "findOne i w") (auto simp: linkAlert_def)
  have "incidents w1 = incidents w \<and> list_ex (alert_linked i (ra_id al)) (events w1)"
  proof (cases "list_ex (alert_linked i (ra_id al)) (events w)")
    case True
    then show ?thesis using assms(1) inc by (simp add: linkAlert_def)
  next
    case False
    obtain e w2 where "writeAlertLink now i al act w = (Inr (), w2)" "incidents w2 = incidents w"
      "events w2 = events w @ [e]" "alert_linked i (ra_id al) e"
      using writeAlertLink_facts by blast
    then show ?thesis
      using assms(1) inc False by (auto simp: linkAlert_def bindM_transaction)
  qed
  then show ?thesis using inc assms(2) by (simp add: linkAlert_def findOne_def split: option.splits)
qed

theorem alert_is_linked_once_witness:
  "\<exists>w1. linkAlert 5 ''inc-1'' device_alert sample_actor desk_world = (Inr True, w1) \<and>
     linkAlert 9 ''inc-1'' device_alert sample_actor w1 = (Inr False, w1)"
proof -
  obtain e w1 where "writeAlertLink 5 ''inc-1'' device_alert sample_actor desk_world = (Inr (), w1)"
    using writeAlertLink_facts by blast
  moreover have "events desk_world = []" by (simp add: desk_defs)
  ultimately have run: "linkAlert 5 ''inc-1'' device_alert sample_actor desk_world = (Inr True, w1)"
    by (simp add: linkAlert_def findOne_def bindM_transaction)
  show ?thesis using alert_is_linked_once [OF run refl, of 9 sample_actor] run by blast
qed

section \<open>Gaps\<close>

definition lead_user :: user where
  "lead_user = \<lparr>u_id = ''u-lead'', u_email = ''lead@x'', u_displayName = ''Lead'', u_role = INFRASTRUCTURE_LEAD,
     u_isActive = True,
     u_passwordHash = None, u_passwordSetAt = None, u_failedLoginCount = 0, u_lockedUntil = None, u_sessionVersion = 0,
     u_createdAt = 0, u_updatedAt = 0\<rparr>"

definition busy_world :: world where
  "busy_world = desk_world\<lparr>users := lead_user # users desk_world,
     site_accesses := \<lparr>sa_userId = ''u-lead'', sa_siteId = ''BLR''\<rparr> # site_accesses desk_world\<rparr>"

definition cancel_dto :: transition_dto where
  "cancel_dto = (empty_dto CANCELLED)\<lparr>td_reason := Some ''duplicate''\<rparr>"

lemmas busy_defs = busy_world_def lead_user_def cancel_dto_def desk_defs

lemmas check_defs = findOneScoped_def findOne_def assertSiteAccess_def canAccessSite_iff transition_checks_def
  check_transition_def findTransitionRule_def TRANSITION_RULES_def validate_owner_resolved_def OPEN_STATUSES_def
  isOwnerOrElevated_def

text \<open>
  Two people act on a new ticket at the same time: the desk's request to assign it has passed
  its checks when the lead's request to cancel it commits; the desk's transaction then writes
  ASSIGNED over CANCELLED, although the table has no move out of CANCELLED. The status is read
  before the transaction and not checked again in it (unlike the assignment made by routing, whose
  update is conditional).
\<close>

theorem concurrent_transitions_revive_cancelled_ticket:
  "\<exists>inc cancelled after w1 w2. findOneScoped ''inc-1'' (auth_of desk_user) busy_world = Inr inc \<and>
     transition_checks inc assign_dto (auth_of desk_user) busy_world = Inr [] \<and>
     createTransition 5 ''inc-1'' cancel_dto (actor_of lead_user) (auth_of lead_user) busy_world = (Inr cancelled, w1) \<and>
     i_status cancelled = CANCELLED \<and> find_by i_id ''inc-1'' (incidents w1) = Some cancelled \<and>
     transitionInTx 6 ''inc-1'' assign_dto inc [] (actor_of desk_user) w1 = (Inr after, w2) \<and>
     i_status after = ASSIGNED \<and> find_by i_id ''inc-1'' (incidents w2) = Some after \<and>
     \<not> allowed_move CANCELLED ASSIGNED"
proof -
  let ?c = "(transition_data 5 cancel_dto ticket)\<lparr>i_updatedAt := 5\<rparr>"
  let ?a = "(transition_data 6 assign_dto ?c)\<lparr>i_updatedAt := 6\<rparr>"
  have read: "findOneScoped ''inc-1'' (auth_of desk_user) busy_world = Inr ticket"
    "transition_checks ticket assign_dto (auth_of desk_user) busy_world = Inr []"
    by (simp_all add: check_defs busy_defs)
  have "findOneScoped ''inc-1'' (auth_of lead_user) busy_world = Inr ticket"
    "transition_checks ticket cancel_dto (auth_of lead_user) busy_world = Inr []"
    "incident_refs_ok busy_world ?c"
    by (simp_all add: check_defs busy_defs incident_refs_ok_def transition_data_def)
  from transition_succeeds [OF this, of "actor_of lead_user"] obtain w1 where
    run: "createTransition 5 ''inc-1'' cancel_dto (actor_of lead_user) (auth_of lead_user) busy_world = (Inr ?c, w1)"
    by blast
  from run obtain oa where st: "settled w1 = settled (snd (sla_hook 5 ''inc-1'' cancel_dto ticket ?c (actor_of lead_user)
      (transitioned 5 ''inc-1'' cancel_dto ticket oa (actor_of lead_user) ?c busy_world)))"
    by (rule transition_success) (simp add: busy_defs)
  have rows: "incidents w1 = [?c]"
    using settled_eqD(1) [OF st] by (simp add: incidents_after_hook busy_world_def desk_tickets)
       (simp add: ticket_def)
  have refs: "sites w1 = [blr] \<and> users w1 = users busy_world \<and> groups w1 = []"
    using arg_cong [OF st, of sites] arg_cong [OF st, of users] arg_cong [OF st, of groups]
    by (simp add: sla_hook_def cancel_dto_def empty_dto_def settled_def transitioned_def busy_defs)
  have "\<exists>w2. transitionInTx 6 ''inc-1'' assign_dto ticket [] (actor_of desk_user) w1 = (Inr ?a, w2) \<and> incidents w2 = [?a]"
    using rows refs
    by (simp add: transitionInTx_def bindM_def [of "update_incident _ _ _"] update_incident_eval Let_def
        bindM_returns [OF sla_hook_returns] incidents_after_hook)
       (simp add: incident_refs_ok_def transition_data_def busy_defs incidents_after_hook)
  then show ?thesis
    using read run rows
    by (intro exI [of _ ticket] exI [of _ ?c] exI [of _ ?a])
       (auto simp: cancel_dto_def assign_dto_def empty_dto_def terminal_statuses ticket_def)
qed

text \<open>
  An assignment that names a null owner passes the check of the rule, which falls back to the
  owner the ticket has, but writes the null: the ticket ends up assigned to nobody.
\<close>

theorem assigned_to_nobody:
  "\<exists>w dto after w'. createTransition 5 ''inc-1'' dto (actor_of desk_user) (auth_of desk_user) w = (Inr after, w') \<and>
     i_status after = ASSIGNED \<and> i_ownerUserId after = None \<and> i_ownerGroupId after = None"
proof -
  let ?t = "ticket\<lparr>i_ownerUserId := Some ''u-eng''\<rparr>"
  let ?w = "desk_world\<lparr>incidents := [?t]\<rparr>"
  let ?d = "(empty_dto ASSIGNED)\<lparr>td_ownerUserId := Some None\<rparr>"
  have "findOneScoped ''inc-1'' (auth_of desk_user) ?w = Inr ?t" "transition_checks ?t ?d (auth_of desk_user) ?w = Inr []"
    "incident_refs_ok ?w ((transition_data 5 ?d ?t)\<lparr>i_updatedAt := 5\<rparr>)"
    by (simp_all add: check_defs desk_defs incident_refs_ok_def transition_data_def)
  from transition_succeeds [OF this, of "actor_of desk_user"] obtain w' where
    "createTransition 5 ''inc-1'' ?d (actor_of desk_user) (auth_of desk_user) ?w =
       (Inr ((transition_data 5 ?d ?t)\<lparr>i_updatedAt := 5\<rparr>), w')" by blast
  then show ?thesis by (intro exI conjI) (assumption, simp_all add: transition_data_def desk_defs)
qed

text \<open>
  A site engineer, who may not reassign a ticket by editing it, can reassign it through a
  status change: the transition endpoint writes the owner it is given without the check the edit
  makes.
\<close>

theorem engineer_reassigns_through_transition:
  "\<exists>w after w'. createTransition 5 ''inc-1'' ((empty_dto ACKNOWLEDGED)\<lparr>td_ownerUserId := Some (Some ''u-desk'')\<rparr>)
       (actor_of eng_user) (auth_of eng_user) w = (Inr after, w') \<and> i_ownerUserId after = Some ''u-desk'' \<and>
     au_role (auth_of eng_user) \<notin> set INCIDENT_ROUTING_ROLES \<and>
     fst (incidentUpdate 5 ''inc-1'' \<lparr>ud_shortDescription = None, ud_category = None, ud_impact = None, ud_urgency = None,
        ud_ciId = None, ud_ownerGroupId = None, ud_ownerUserId = Some (Some ''u-desk''), ud_priority = None\<rparr>
        (auth_of eng_user) (actor_of eng_user) w) =
       Inl (Forbidden ''Only Service Desk/NOC or an elevated role can reassign ownership or override priority'')"
proof -
  let ?t = "ticket\<lparr>i_ownerUserId := Some ''u-eng'', i_status := ASSIGNED\<rparr>"
  let ?w = "desk_world\<lparr>incidents := [?t]\<rparr>"
  let ?d = "(empty_dto ACKNOWLEDGED)\<lparr>td_ownerUserId := Some (Some ''u-desk'')\<rparr>"
  have read: "findOneScoped ''inc-1'' (auth_of eng_user) ?w = Inr ?t"
    by (simp add: check_defs desk_defs)
  moreover have "transition_checks ?t ?d (auth_of eng_user) ?w = Inr []"
    "incident_refs_ok ?w ((transition_data 5 ?d ?t)\<lparr>i_updatedAt := 5\<rparr>)"
    by (simp_all add: check_defs desk_defs incident_refs_ok_def transition_data_def)
  ultimately obtain w' where
    "createTransition 5 ''inc-1'' ?d (actor_of eng_user) (auth_of eng_user) ?w =
       (Inr ((transition_data 5 ?d ?t)\<lparr>i_updatedAt := 5\<rparr>), w')" using transition_succeeds by blast
  moreover have "au_role (auth_of eng_user) \<notin> set INCIDENT_ROUTING_ROLES"
    by (simp add: auth_of_def eng_user_def INCIDENT_ROUTING_ROLES_def ELEVATED_ROLES_def)
  moreover have "i_ownerUserId ((transition_data 5 ?d ?t)\<lparr>i_updatedAt := 5\<rparr>) = Some ''u-desk''"
    by (simp add: transition_data_def desk_defs)
  ultimately show ?thesis
    using read by (intro exI [of _ ?w]) (simp add: incidentUpdate_def patch_changes_def)
qed

end
