(* ===== verification/Sla_Scanner.thy ===== *)
theory Sla_Scanner
  imports Incident_Gaps
begin

text \<open>
  The escalation scan (\<^verbatim>\<open>sla/sla-escalation.scanner.ts\<close>): every minute it reads the running clocks
  with their policy and ticket, finds the thresholds each has crossed and not yet reported,
  records them in one transaction per clock, and then tells the owner, the on-call contacts and
  the group. The instant of a threshold is kept exact; the source computes it in floating point
  and truncates to a millisecond.
\<close>

section \<open>The code\<close>

datatype sla_kind = ACK | RESOLVE

fun kind_str :: "sla_kind \<Rightarrow> string" where
  "kind_str ACK = ''ACK''"
| "kind_str RESOLVE = ''RESOLVE''"

record crossed_milestone =
  cm_kind :: sla_kind
  cm_milestone :: string
  cm_percent :: int
  cm_dueAt :: instant

text \<open>A clock joined with what \<open>include\<close> reads along with it.\<close>

record instance_context =
  x_inst :: sla_instance
  x_policy :: sla_policy
  x_incident :: incident
  x_owner :: "user option"
  x_contacts :: "site_contact list"
  x_groupUsers :: "user list"

definition milestone_name :: "sla_kind \<Rightarrow> int \<Rightarrow> string" where
  "milestone_name k p = kind_str k @ ''_'' @ (if p = 100 then ''BREACH'' else int_str p)"

definition thresholdAt :: "instant \<Rightarrow> int \<Rightarrow> int \<Rightarrow> instant" where
  "thresholdAt dueAt targetMinutes percent = dueAt - targetMinutes * 600 * (100 - percent)"

definition findCrossedMilestones ::
  "sla_kind \<Rightarrow> instant \<Rightarrow> int \<Rightarrow> string list \<Rightarrow> int list \<Rightarrow> instant \<Rightarrow> crossed_milestone list" where
  "findCrossedMilestones kind dueAt target fired thresholds now =
     (let candidates = sort (remdups (thresholds @ [100]))
      in map (\<lambda>p. \<lparr>cm_kind = kind, cm_milestone = milestone_name kind p, cm_percent = p, cm_dueAt = dueAt\<rparr>)
           (filter (\<lambda>p. milestone_name kind p \<notin> set fired \<and> thresholdAt dueAt target p \<le> now) candidates))"

definition ack_running :: "sla_instance \<Rightarrow> bool" where
  "ack_running r \<longleftrightarrow> si_ackedAt r = None \<and> si_ackDueAt r \<noteq> None"

definition resolve_running :: "sla_instance \<Rightarrow> bool" where
  "resolve_running r \<longleftrightarrow> si_resolvedAt r = None \<and> si_pausedAt r = None \<and> si_resolveDueAt r \<noteq> None"

definition crossed_now :: "instant \<Rightarrow> sla_policy \<Rightarrow> sla_instance \<Rightarrow> crossed_milestone list" where
  "crossed_now now policy r =
     (if ack_running r
      then findCrossedMilestones ACK (the (si_ackDueAt r)) (sp_ackTargetMinutes policy) (si_firedMilestones r)
             (sp_escalationThresholdsPercent policy) now
      else []) @
     (if resolve_running r
      then findCrossedMilestones RESOLVE (the (si_resolveDueAt r)) (sp_resolveTargetMinutes policy)
             (si_firedMilestones r) (sp_escalationThresholdsPercent policy) now
      else [])"

text \<open>\<open>push\<close> of the milestone, and the flag of a breach.\<close>

definition fire :: "crossed_milestone \<Rightarrow> sla_instance \<Rightarrow> sla_instance" where
  "fire c r = r\<lparr>si_firedMilestones := si_firedMilestones r @ [cm_milestone c],
                si_breached := (si_breached r \<or> cm_percent c = 100)\<rparr>"

definition record_milestone :: "instant \<Rightarrow> sla_instance \<Rightarrow> crossed_milestone \<Rightarrow> unit op" where
  "record_milestone now r c =
     bindM (modifyM (\<lambda>w. w\<lparr>sla_instances := update_by si_id (si_id r) (fire c) (sla_instances w)\<rparr>)) (\<lambda>_.
     bindM (add_event now (si_incidentId r) None
              (SLA_EVENT (kind_str (cm_kind c)) (cm_milestone c) (cm_dueAt c) (si_slaPolicyId r))) (\<lambda>_.
     auditRecord now None ''SlaInstance'' (si_id r) ''SLA_EVENT'' None
       (Some (SnapMilestone (cm_milestone c) (kind_str (cm_kind c)) (cm_dueAt c))) None))"

definition on_call :: "site_contact list \<Rightarrow> site_contact list" where
  "on_call cs = filter (\<lambda>c. sc_isOnCall c \<and> truthy (sc_email c)) cs"

fun dedupe_parties :: "string list \<Rightarrow> party list \<Rightarrow> party list" where
  "dedupe_parties seen [] = []"
| "dedupe_parties seen (p # ps) =
     (if p_email p \<in> set seen then dedupe_parties seen ps else p # dedupe_parties (p_email p # seen) ps)"

definition sla_recipients :: "instance_context \<Rightarrow> party list" where
  "sla_recipients x = dedupe_parties []
     ((case x_owner x of Some u \<Rightarrow> (if has_email u then [party_of u] else []) | None \<Rightarrow> []) @
      map (\<lambda>c. \<lparr>p_name = sc_name c, p_email = the (sc_email c)\<rparr>) (on_call (x_contacts x)) @
      map party_of (filter (\<lambda>u. u_isActive u \<and> has_email u) (x_groupUsers x)))"

definition recipientUserIds :: "world \<Rightarrow> instance_context \<Rightarrow> uuid list" where
  "recipientUserIds w x =
     (case x_owner x of Some u \<Rightarrow> [u_id u] | None \<Rightarrow> []) @ map u_id (x_groupUsers x) @
     (let emails = map (the \<circ> sc_email) (on_call (x_contacts x))
      in if emails = [] then [] else map u_id (filter (\<lambda>u. u_email u \<in> set emails) (users w)))"

definition slaNotifyInApp :: "instant \<Rightarrow> instance_context \<Rightarrow> crossed_milestone \<Rightarrow> unit op" where
  "slaNotifyInApp now x c = swallowM
     (bindM (getM (\<lambda>w. recipientUserIds w x)) (\<lambda>ids.
      let breached = (cm_percent c = 100);
          kindLabel = (if cm_kind c = ACK then ''Response'' else ''Resolution'')
      in notifyUsers now (incident_bell (map Some ids) None (if breached then SLA_BREACHED else SLA_WARNING)
           (if breached then kindLabel @ '' SLA breached on '' @ i_incidentNo (x_incident x)
            else kindLabel @ '' SLA '' @ int_str (cm_percent c) @ ''% used on '' @ i_incidentNo (x_incident x))
           (i_shortDescription (x_incident x)) (x_incident x)
           (''sla:'' @ si_id (x_inst x) @ '':'' @ cm_milestone c))))"

definition slaNotify :: "instant \<Rightarrow> instance_context \<Rightarrow> crossed_milestone \<Rightarrow> unit op" where
  "slaNotify now x c =
     bindM (slaNotifyInApp now x c) (\<lambda>_.
     let to = sla_recipients x
     in if to = [] then ret ()
        else enqueue ''sla-timers'' (if cm_percent c = 100 then ''SLA_BREACHED'' else ''SLA_WARNING'')
               (i_incidentNo (x_incident x)) to [] (Some (''sla:'' @ si_id (x_inst x) @ '':'' @ cm_milestone c)))"

definition evaluateInstance :: "instant \<Rightarrow> instance_context \<Rightarrow> unit op" where
  "evaluateInstance now x =
     (let crossed = crossed_now now (x_policy x) (x_inst x)
      in if crossed = [] then ret ()
         else bindM (transaction (forM crossed (record_milestone now (x_inst x)))) (\<lambda>_.
              forM crossed (slaNotify now x)))"

text \<open>The join: the foreign keys make policy, ticket and site present.\<close>

definition context_of :: "world \<Rightarrow> sla_instance \<Rightarrow> instance_context option" where
  "context_of w r =
     (case (find_by sp_id (si_slaPolicyId r) (sla_policies w), find_by i_id (si_incidentId r) (incidents w)) of
        (Some p, Some i) \<Rightarrow>
          Some \<lparr>x_inst = r, x_policy = p, x_incident = i,
                x_owner = (case i_ownerUserId i of None \<Rightarrow> None | Some u \<Rightarrow> find_by u_id u (users w)),
                x_contacts = filter (\<lambda>c. sc_siteId c = i_siteId i) (contacts w),
                x_groupUsers = (case i_ownerGroupId i of None \<Rightarrow> [] | Some g \<Rightarrow> group_users w g)\<rparr>
      | _ \<Rightarrow> None)"

definition open_contexts :: "world \<Rightarrow> instance_context list" where
  "open_contexts w =
     List.map_filter (context_of w) (filter (\<lambda>r. ack_running r \<or> resolve_running r) (sla_instances w))"

definition scan :: "instant \<Rightarrow> unit op" where
  "scan now = bindM (getM open_contexts) (\<lambda>xs. forM xs (\<lambda>x. swallowM (evaluateInstance now x)))"

section \<open>What one clock's evaluation does\<close>

lemma keeps_slaNotify: "keeps committed (slaNotify now x c)"
  unfolding slaNotify_def slaNotifyInApp_def by (intro keeps_intros)

lemma keeps_notify_all: "keeps committed (forM cs (slaNotify now x))"
  by (intro keeps_intros keeps_slaNotify)

lemma record_milestone_eval:
  "record_milestone now r c w = (Inr (), w\<lparr>uuid_next := Suc (uuid_next w),
     sla_instances := update_by si_id (si_id r) (fire c) (sla_instances w),
     events := events w @ [\<lparr>e_id = env_uuid (env w) (uuid_next w), e_incidentId = si_incidentId r, e_actorId = None,
       e_body = SLA_EVENT (kind_str (cm_kind c)) (cm_milestone c) (cm_dueAt c) (si_slaPolicyId r), e_createdAt = now\<rparr>],
     audits := audits w @ [\<lparr>ae_actorId = None, ae_entityType = ''SlaInstance'', ae_entityId = si_id r,
       ae_action = ''SLA_EVENT'', ae_before = None,
       ae_after = Some (SnapMilestone (cm_milestone c) (kind_str (cm_kind c)) (cm_dueAt c)), ae_correlationId = None,
       ae_createdAt = now\<rparr>]\<rparr>)"
  by (simp add: record_milestone_def)

definition fire_all :: "crossed_milestone list \<Rightarrow> sla_instance \<Rightarrow> sla_instance" where
  "fire_all cs r = fold fire cs r"

lemma fire_simps [simp]:
  "si_id (fire c r) = si_id r" "si_incidentId (fire c r) = si_incidentId r" "si_slaPolicyId (fire c r) = si_slaPolicyId r"
  "ack_running (fire c r) = ack_running r" "resolve_running (fire c r) = resolve_running r"
  "si_ackDueAt (fire c r) = si_ackDueAt r" "si_resolveDueAt (fire c r) = si_resolveDueAt r"
  by (simp_all add: fire_def ack_running_def resolve_running_def)

lemma fire_all_simps [simp]:
  "fire_all [] r = r" "si_id (fire_all cs r) = si_id r" "si_slaPolicyId (fire_all cs r) = si_slaPolicyId r"
  "si_incidentId (fire_all cs r) = si_incidentId r"
  "ack_running (fire_all cs r) = ack_running r" "resolve_running (fire_all cs r) = resolve_running r"
  "si_ackDueAt (fire_all cs r) = si_ackDueAt r" "si_resolveDueAt (fire_all cs r) = si_resolveDueAt r"
  by (induction cs arbitrary: r) (simp_all add: fire_all_def)

lemma fire_all_frame:
  "(fire_all cs r)\<lparr>si_breached := si_breached r, si_firedMilestones := si_firedMilestones r\<rparr> = r"
proof (induction cs arbitrary: r)
  case (Cons c cs)
  have "(fire_all cs (fire c r))\<lparr>si_breached := si_breached (fire c r), si_firedMilestones := si_firedMilestones (fire c r)\<rparr> =
      fire c r" by (rule Cons)
  then show ?case by (cases r; cases "fire_all cs (fire c r)") (simp add: fire_all_def fire_def)
qed (simp add: fire_all_def)

lemma fired_after:
  "si_firedMilestones (fire_all cs r) = si_firedMilestones r @ map cm_milestone cs"
  "si_breached (fire_all cs r) \<longleftrightarrow> si_breached r \<or> (\<exists>c \<in> set cs. cm_percent c = 100)"
  by (induction cs arbitrary: r) (auto simp: fire_all_def fire_def)

lemma update_by_update_by:
  "(\<And>r. key (f r) = key r) \<Longrightarrow> update_by key k g (update_by key k f rows) = update_by key k (g \<circ> f) rows"
  by (simp add: update_by_def)

lemma record_all:
  "\<exists>w'. forM cs (record_milestone now r) w = (Inr (), w') \<and>
     sla_instances w' = update_by si_id (si_id r) (fire_all cs) (sla_instances w) \<and>
     incidents w' = incidents w \<and> sla_policies w' = sla_policies w \<and>
     (\<exists>es. events w' = events w @ es \<and> length es = length cs) \<and>
     (\<exists>as. audits w' = audits w @ as \<and> length as = length cs)"
proof (induction cs arbitrary: w)
  case Nil
  then show ?case by (simp add: update_by_def)
next
  case (Cons c cs)
  define w1 where "w1 = snd (record_milestone now r c w)"
  have step: "record_milestone now r c w = (Inr (), w1)" by (simp add: w1_def record_milestone_eval)
  from Cons.IH [of w1] obtain w' es as where
    w': "forM cs (record_milestone now r) w1 = (Inr (), w')"
      "sla_instances w' = update_by si_id (si_id r) (fire_all cs) (sla_instances w1)"
      "incidents w' = incidents w1" "sla_policies w' = sla_policies w1"
      "events w' = events w1 @ es" "length es = length cs" "audits w' = audits w1 @ as" "length as = length cs" by blast
  have "forM (c # cs) (record_milestone now r) w = (Inr (), w')" using step w'(1) by (simp add: bindM_def)
  moreover have "sla_instances w' = update_by si_id (si_id r) (fire_all (c # cs)) (sla_instances w)"
    using w'(2) by (simp add: w1_def record_milestone_eval update_by_update_by fire_all_def [abs_def] comp_def)
  moreover have "incidents w' = incidents w" "sla_policies w' = sla_policies w"
    "\<exists>es. events w' = events w @ es \<and> length es = length (c # cs)"
    "\<exists>as. audits w' = audits w @ as \<and> length as = length (c # cs)"
    using w'(3-) by (simp_all add: w1_def record_milestone_eval)
  ultimately show ?case by blast
qed

lemma evaluate_effect:
  "fst (swallowM (evaluateInstance now x) w) = Inr () \<and>
   sla_instances (snd (evaluateInstance now x w)) =
     update_by si_id (si_id (x_inst x)) (fire_all (crossed_now now (x_policy x) (x_inst x))) (sla_instances w) \<and>
   incidents (snd (evaluateInstance now x w)) = incidents w \<and> sla_policies (snd (evaluateInstance now x w)) = sla_policies w \<and>
   (crossed_now now (x_policy x) (x_inst x) = [] \<longrightarrow> snd (evaluateInstance now x w) = w)"
proof (cases "crossed_now now (x_policy x) (x_inst x) = []")
  case True
  then show ?thesis by (simp add: evaluateInstance_def update_by_def cong: if_cong)
next
  case False
  let ?cs = "crossed_now now (x_policy x) (x_inst x)"
  from record_all [of ?cs now "x_inst x" w] obtain w1 where
    w1: "forM ?cs (record_milestone now (x_inst x)) w = (Inr (), w1)"
      "sla_instances w1 = update_by si_id (si_id (x_inst x)) (fire_all ?cs) (sla_instances w)"
      "incidents w1 = incidents w" "sla_policies w1 = sla_policies w" by blast
  have run: "evaluateInstance now x w = forM ?cs (slaNotify now x) w1"
    using False w1(1) by (simp add: evaluateInstance_def Let_def bindM_transaction)
  have "committed (snd (evaluateInstance now x w)) = committed w1"
    unfolding run by (rule keepsD [OF keeps_notify_all])
  then have "sla_instances (snd (evaluateInstance now x w)) = sla_instances w1"
    "incidents (snd (evaluateInstance now x w)) = incidents w1" "sla_policies (snd (evaluateInstance now x w)) = sla_policies w1"
    by (metis committed_simps)+
  then show ?thesis using w1 False by simp
qed

lemma scan_loop:
  "sla_instances (snd (forM xs (\<lambda>x. swallowM (evaluateInstance now x)) w)) =
     fold (\<lambda>x. update_by si_id (si_id (x_inst x)) (fire_all (crossed_now now (x_policy x) (x_inst x)))) xs (sla_instances w)"
proof (induction xs arbitrary: w)
  case Nil
  then show ?case by simp
next
  case (Cons x xs)
  have "snd (forM (x # xs) (\<lambda>x. swallowM (evaluateInstance now x)) w) =
      snd (forM xs (\<lambda>x. swallowM (evaluateInstance now x)) (snd (evaluateInstance now x w)))"
    by (simp add: bindM_def swallowM_def)
  then show ?case
    using Cons.IH [of "snd (evaluateInstance now x w)"] evaluate_effect [of now x w]
    by (simp del: swallowM_eval forM.simps)
qed

lemma fold_updates:
  assumes "\<And>x r. key (f x r) = key r" "distinct (map k xs)"
  shows "fold (\<lambda>x. update_by key (k x) (f x)) xs rows =
    map (\<lambda>r. case List.find (\<lambda>x. k x = key r) xs of None \<Rightarrow> r | Some x \<Rightarrow> f x r) rows"
  using assms(2)
proof (induction xs arbitrary: rows)
  case Nil
  then show ?case by simp
next
  case (Cons x xs)
  have none: "List.find (\<lambda>y. k y = k x) xs = None" using Cons.prems by (simp add: find_None_iff) (metis image_eqI)
  have "fold (\<lambda>x. update_by key (k x) (f x)) (x # xs) rows =
      map (\<lambda>r. case List.find (\<lambda>x. k x = key r) xs of None \<Rightarrow> r | Some x \<Rightarrow> f x r) (update_by key (k x) (f x) rows)"
    using Cons by simp
  also have "\<dots> = map (\<lambda>r. case List.find (\<lambda>x. k x = key r) (x # xs) of None \<Rightarrow> r | Some x \<Rightarrow> f x r) rows"
    by (auto simp: update_by_def assms(1) none)
  finally show ?case .
qed

text \<open>The whole scan as a function on the rows.\<close>

definition scanned :: "instant \<Rightarrow> world \<Rightarrow> sla_instance \<Rightarrow> sla_instance" where
  "scanned now w r =
     (case context_of w r of
        None \<Rightarrow> r
      | Some x \<Rightarrow> fire_all (crossed_now now (x_policy x) r) r)"

lemma context_inst: "context_of w r = Some x \<Longrightarrow> x_inst x = r"
  by (auto simp: context_of_def split: option.splits)

lemma not_running_none: "\<not> ack_running r \<Longrightarrow> \<not> resolve_running r \<Longrightarrow> crossed_now now p r = []"
  by (simp add: crossed_now_def)

lemma map_filter_ids:
  "(\<And>r x. f r = Some x \<Longrightarrow> g x = r) \<Longrightarrow> distinct (map h rs) \<Longrightarrow>
   distinct (map (h \<circ> g) (List.map_filter f rs)) \<and> set (map g (List.map_filter f rs)) \<subseteq> set rs"
proof (induction rs)
  case Nil
  then show ?case by (simp add: map_filter_simps)
next
  case (Cons a rs)
  then show ?case by (cases "f a") (auto simp: map_filter_simps)
qed

lemma find_context:
  assumes "distinct (map si_id (sla_instances w))" "r \<in> set (sla_instances w)"
  shows "(case List.find (\<lambda>x. si_id (x_inst x) = si_id r) (open_contexts w) of None \<Rightarrow> r
      | Some x \<Rightarrow> fire_all (crossed_now now (x_policy x) (x_inst x)) r) = scanned now w r"
proof -
  have inj: "r' = r" if "r' \<in> set (sla_instances w)" "si_id r' = si_id r" for r'
    using assms that by (auto simp: distinct_map dest: inj_onD)
  have in_open: "x \<in> set (open_contexts w) \<longleftrightarrow>
      (\<exists>r' \<in> set (sla_instances w). (ack_running r' \<or> resolve_running r') \<and> context_of w r' = Some x)" for x
    by (force simp: open_contexts_def List.map_filter_def)
  show ?thesis
  proof (cases "List.find (\<lambda>x. si_id (x_inst x) = si_id r) (open_contexts w)")
    case None
    then have "\<not> (ack_running r \<or> resolve_running r) \<or> context_of w r = None"
      using assms(2) by (fastforce simp: find_None_iff in_open dest: context_inst)
    then show ?thesis
      using None by (auto simp: scanned_def not_running_none split: option.split)
  next
    case (Some x)
    then have "x \<in> set (open_contexts w)" "si_id (x_inst x) = si_id r" by (auto dest: find_SomeD)
    then have "context_of w r = Some x" "x_inst x = r"
      using inj by (auto simp: in_open dest: context_inst)
    then show ?thesis using Some by (simp add: scanned_def)
  qed
qed

lemma scan_rows:
  assumes "distinct (map si_id (sla_instances w))"
  shows "sla_instances (snd (scan now w)) = map (scanned now w) (sla_instances w)"
proof -
  let ?rs = "filter (\<lambda>r. ack_running r \<or> resolve_running r) (sla_instances w)"
  have "distinct (map si_id ?rs)" using assms by (simp add: distinct_map inj_on_def)
  then have d: "distinct (map (\<lambda>x. si_id (x_inst x)) (open_contexts w))"
    using map_filter_ids [of "context_of w" x_inst si_id ?rs] context_inst by (simp add: open_contexts_def comp_def)
  show ?thesis
    unfolding scan_def
    using fold_updates [where key = si_id and k = "\<lambda>x. si_id (x_inst x)" and xs = "open_contexts w"
        and f = "\<lambda>x. fire_all (crossed_now now (x_policy x) (x_inst x))" and rows = "sla_instances w", OF _ d]
      find_context [OF assms] by (simp add: scan_loop)
qed

section \<open>Milestones\<close>

lemma of_digit_char: "d < 10 \<Longrightarrow> of_char (digit_char d) = 48 + d"
  by (simp add: digit_char_def)

text \<open>A printed number starts with a digit.\<close>

lemma hd_nat_str: "48 \<le> (of_char (hd (nat_str n)) :: nat) \<and> (of_char (hd (nat_str n)) :: nat) < 58"
proof (induction n rule: nat_str.induct)
  case (1 n)
  show ?case
  proof (cases "n < 10")
    case True
    then show ?thesis by (subst (1 2) nat_str.simps) (simp add: of_digit_char)
  next
    case False
    then show ?thesis using "1.IH" by (subst (1 2) nat_str.simps) (simp add: nat_str_nonempty hd_append)
  qed
qed

lemma nat_str_not: "of_char c < (48 :: nat) \<or> 58 \<le> (of_char c :: nat) \<Longrightarrow> nat_str n \<noteq> c # s"
  using hd_nat_str [of n] by auto

lemma int_str_breach: "int_str p \<noteq> ''BREACH''"
  using nat_str_not [of "CHR ''B''"] by (simp add: int_str_def)

lemma milestone_name_inj: "milestone_name k p = milestone_name k' p' \<Longrightarrow> k = k' \<and> p = p'"
  using int_str_breach int_str_inj
  by (cases k; cases k') (auto simp: milestone_name_def split: if_splits dest: sym)

lemma crossed_member:
  "c \<in> set (findCrossedMilestones k due t fired ths now) \<longleftrightarrow>
     (\<exists>p. (p = 100 \<or> p \<in> set ths) \<and> milestone_name k p \<notin> set fired \<and> thresholdAt due t p \<le> now \<and>
        c = \<lparr>cm_kind = k, cm_milestone = milestone_name k p, cm_percent = p, cm_dueAt = due\<rparr>)"
  by (auto simp: findCrossedMilestones_def Let_def)

lemma crossed_distinct: "distinct (map cm_milestone (findCrossedMilestones k due t fired ths now))"
  by (auto simp: findCrossedMilestones_def Let_def distinct_map inj_on_def dest: milestone_name_inj)

lemma crossed_now_named:
  "c \<in> set (crossed_now now p r) \<Longrightarrow>
     cm_milestone c = milestone_name (cm_kind c) (cm_percent c) \<and> cm_milestone c \<notin> set (si_firedMilestones r)"
  by (auto simp: crossed_now_def crossed_member split: if_splits)

lemma crossed_now_distinct: "distinct (map cm_milestone (crossed_now now p r))"
proof -
  have "cm_milestone c \<noteq> cm_milestone d"
    if "c \<in> set (findCrossedMilestones ACK due t f ths now)" "d \<in> set (findCrossedMilestones RESOLVE due' t' f ths now)"
    for c d due due' t t' f ths
    using that by (auto simp: crossed_member dest: milestone_name_inj)
  then show ?thesis by (auto simp: crossed_now_def crossed_distinct)
qed

lemma breach_found:
  "(\<exists>c \<in> set (findCrossedMilestones k due t fired ths now). cm_percent c = 100) \<longleftrightarrow>
     milestone_name k 100 \<notin> set fired \<and> due \<le> now"
proof -
  let ?c = "\<lparr>cm_kind = k, cm_milestone = milestone_name k 100, cm_percent = 100, cm_dueAt = due\<rparr>"
  have "?c \<in> set (findCrossedMilestones k due t fired ths now)" if "milestone_name k 100 \<notin> set fired" "due \<le> now"
    using that by (simp add: crossed_member thresholdAt_def)
  then show ?thesis by (force simp: crossed_member thresholdAt_def)
qed

lemma breach_crossed:
  "(\<exists>c \<in> set (crossed_now now p r). cm_percent c = 100) \<longleftrightarrow>
     (ack_running r \<and> milestone_name ACK 100 \<notin> set (si_firedMilestones r) \<and> the (si_ackDueAt r) \<le> now) \<or>
     (resolve_running r \<and> milestone_name RESOLVE 100 \<notin> set (si_firedMilestones r) \<and> the (si_resolveDueAt r) \<le> now)"
  by (cases "ack_running r"; cases "resolve_running r") (simp_all add: crossed_now_def bex_Un breach_found)

text \<open>
  What the record of a clock says: no milestone twice, and the breach flag is set exactly when a
  breach is among the milestones.
\<close>

definition record_ok :: "sla_instance \<Rightarrow> bool" where
  "record_ok r \<longleftrightarrow> distinct (si_firedMilestones r) \<and>
     (si_breached r \<longleftrightarrow> milestone_name ACK 100 \<in> set (si_firedMilestones r) \<or>
                       milestone_name RESOLVE 100 \<in> set (si_firedMilestones r))"

lemma breach_name: "cm_milestone c = milestone_name (cm_kind c) (cm_percent c) \<Longrightarrow>
   cm_percent c = 100 \<longleftrightarrow> cm_milestone c = milestone_name ACK 100 \<or> cm_milestone c = milestone_name RESOLVE 100"
  by (cases "cm_kind c") (auto dest: milestone_name_inj)

lemma record_ok_fire: "record_ok r \<Longrightarrow> record_ok (fire_all (crossed_now now p r) r)"
proof -
  assume ok: "record_ok r"
  let ?cs = "crossed_now now p r"
  have fresh: "set (si_firedMilestones r) \<inter> cm_milestone ` set ?cs = {}" using crossed_now_named [of _ now p r] by blast
  have "(\<exists>c \<in> set ?cs. cm_percent c = 100) \<longleftrightarrow>
      milestone_name ACK 100 \<in> cm_milestone ` set ?cs \<or> milestone_name RESOLVE 100 \<in> cm_milestone ` set ?cs"
    using crossed_now_named [of _ now p r] by (auto simp: breach_name image_iff dest: sym)
  then show ?thesis using ok fresh crossed_now_distinct [of now p r] by (auto simp: record_ok_def fired_after)
qed

lemma record_ok_scanned: "record_ok r \<Longrightarrow> record_ok (scanned now w r)"
  by (simp add: scanned_def record_ok_fire split: option.split)

lemma scanned_simps [simp]:
  "si_id (scanned now w r) = si_id r" "si_incidentId (scanned now w r) = si_incidentId r"
  "ack_running (scanned now w r) = ack_running r" "resolve_running (scanned now w r) = resolve_running r"
  by (simp_all add: scanned_def split: option.split)

text \<open>After the scan a clock is breached exactly when it was, or a running deadline has passed.\<close>

lemma scanned_breached:
  assumes "record_ok r" "context_of w r \<noteq> None"
  shows "si_breached (scanned now w r) \<longleftrightarrow> si_breached r \<or>
    (ack_running r \<and> the (si_ackDueAt r) \<le> now) \<or> (resolve_running r \<and> the (si_resolveDueAt r) \<le> now)"
  using assms breach_crossed [of now _ r]
  by (auto simp: scanned_def fired_after(2) record_ok_def split: option.splits)

section \<open>A second look\<close>

lemma crossed_again: "crossed_now now p (fire_all (crossed_now now p r) r) = []"
proof -
  have "c \<notin> set (crossed_now now p (fire_all (crossed_now now p r) r))" for c
  proof
    assume c: "c \<in> set (crossed_now now p (fire_all (crossed_now now p r) r))"
    then have "c \<in> set (crossed_now now p r)"
      by (auto simp: crossed_now_def crossed_member fired_after(1) split: if_splits)
    then show False using crossed_now_named [OF c] by (simp add: fired_after(1))
  qed
  then show ?thesis by (metis list.set_sel(1))
qed

lemma quiet_scan:
  assumes "\<And>x. x \<in> set xs \<Longrightarrow> crossed_now now (x_policy x) (x_inst x) = []"
  shows "forM xs (\<lambda>x. swallowM (evaluateInstance now x)) w = (Inr (), w)"
  using assms by (induction xs) (simp_all add: evaluateInstance_def bindM_def)

text \<open>The scan leaves the tables it joins with alone.\<close>

lemma scan_frame: "incidents (snd (scan now w)) = incidents w" "sla_policies (snd (scan now w)) = sla_policies w"
proof -
  have inc: "keeps incidents (\<lambda>w. swallowM (evaluateInstance now x) w)" and
    pol: "keeps sla_policies (\<lambda>w. swallowM (evaluateInstance now x) w)" for x
    using evaluate_effect by (auto simp: keeps_def)
  show "incidents (snd (scan now w)) = incidents w" "sla_policies (snd (scan now w)) = sla_policies w"
    unfolding scan_def by (rule keepsD, intro keeps_intros inc pol)+
qed

lemma context_policy:
  "context_of w r = Some x \<Longrightarrow> find_by sp_id (si_slaPolicyId r) (sla_policies w) = Some (x_policy x)"
  by (auto simp: context_of_def split: option.splits)

lemma context_iff:
  "context_of w r \<noteq> None \<longleftrightarrow> find_by sp_id (si_slaPolicyId r) (sla_policies w) \<noteq> None \<and>
     find_by i_id (si_incidentId r) (incidents w) \<noteq> None"
  by (auto simp: context_of_def split: option.splits)

lemma scanned_quiet:
  assumes "sla_policies w' = sla_policies w" "incidents w' = incidents w" "context_of w' (scanned now w r) = Some x"
  shows "crossed_now now (x_policy x) (scanned now w r) = []"
proof (cases "context_of w r")
  case None
  then have "scanned now w r = r" by (simp add: scanned_def)
  then have "context_of w r \<noteq> None" using assms context_iff [of w r] context_iff [of w' r] by simp
  then show ?thesis using None by simp
next
  case (Some y)
  then have row: "scanned now w r = fire_all (crossed_now now (x_policy y) r) r" by (simp add: scanned_def)
  then have "x_policy x = x_policy y"
    using context_policy [OF Some] context_policy [OF assms(3)] assms(1) by simp
  then show ?thesis using row crossed_again by simp
qed

section \<open>The life of the clocks\<close>

lemma scan_counters: "obeys same_tickets (scan now)"
proof -
  have tx: "obeys same_tickets m \<Longrightarrow> obeys same_tickets (transaction m)" for m :: "unit op"
    by (rule tickets_same.obeys_transaction) (auto simp: same_tickets_def counters_grow_def rollback_def)
  show ?thesis
    unfolding scan_def evaluateInstance_def slaNotify_def slaNotifyInApp_def record_milestone_def
    by (intro tickets_same.obeys_rules tx tickets_basic tickets_notifyUsers)
qed

inductive clock_step :: "world \<Rightarrow> world \<Rightarrow> bool" where
  hook: "sla_step w w' \<Longrightarrow> clock_step w w'"
| tick: "clock_step w (snd (scan now w))"

definition clocks_ok :: "world \<Rightarrow> bool" where
  "clocks_ok w \<longleftrightarrow> sla_inv w \<and> list_all record_ok (sla_instances w)"

lemma record_ok_save:
  assumes "list_all record_ok (sla_instances w)" "\<And>r. record_ok r \<Longrightarrow> record_ok (f r)"
  shows "list_all record_ok (sla_instances (snd (save_instance now b f action act w)))"
  using assms by (simp add: list_all_update_by)

lemma record_ok_same:
  "si_firedMilestones r' = si_firedMilestones r \<Longrightarrow> si_breached r' = si_breached r \<Longrightarrow> record_ok r' = record_ok r"
  by (simp add: record_ok_def)

lemma records_hook:
  assumes "sla_step w w'" and ok: "list_all record_ok (sla_instances w)"
  shows "list_all record_ok (sla_instances w')"
proof -
  note save = record_ok_save [OF ok]
  note parts = resumed_def reprioritised_def record_ok_def
  have start: "list_all record_ok (sla_instances (snd (startForIncident now i st p act w)))" for now i st p act
    using ok by (cases "policy_and_dates st p now w") (auto simp: startForIncident_def Let_def new_instance_def record_ok_def)
  have hooks: "list_all record_ok (sla_instances (snd (onAcknowledged now i t act w)))"
    "list_all record_ok (sla_instances (snd (onResolved now i t act w)))"
    "list_all record_ok (sla_instances (snd (onPaused now i s act w)))"
    "list_all record_ok (sla_instances (snd (onReopened now i act w)))" for now i t s act
    unfolding onAcknowledged_def onResolved_def onPaused_def onReopened_def
    by (cases "findInstance i w"; auto simp: ok parts simp del: save_instance_eval intro!: save)+
  have resume: "list_all record_ok (sla_instances (snd (onResumed now i act w)))" for now i act
    unfolding onResumed_def
    by (cases "findInstance i w") (auto simp: ok parts simp del: save_instance_eval split: option.split intro!: save)
  have prio: "list_all record_ok (sla_instances (snd (onPriorityChanged now i st p act w)))" for now i st p act
    unfolding onPriorityChanged_def
    by (cases "findInstance i w"; cases "policy_and_dates st p now w")
      (auto simp: ok parts simp del: save_instance_eval intro!: save)
  show ?thesis using assms(1) by (cases rule: sla_step.cases) (auto intro: start hooks resume prio)
qed

lemma clocks_ok_scan:
  assumes "clocks_ok w"
  shows "clocks_ok (snd (scan now w))"
proof -
  have d: "distinct (map si_id (sla_instances w))" using assms by (simp add: clocks_ok_def sla_inv_def keys_ok_def)
  note rows = scan_rows [OF d, of now]
  have "instance_ok (scanned now w r)" if "instance_ok r" for r
  proof -
    have "instance_ok (fire c q)" if "instance_ok q" for c q using that by (simp add: instance_ok_def fire_def)
    then have "instance_ok (fire_all cs q)" if "instance_ok q" for cs q
      using that by (induction cs arbitrary: q) (simp_all add: fire_all_def)
    then show ?thesis using that by (simp add: scanned_def split: option.split)
  qed
  then have inst: "list_all instance_ok (sla_instances (snd (scan now w)))"
    using assms rows by (simp add: clocks_ok_def sla_inv_def list_all_iff)
  have "same_tickets w (snd (scan now w))" by (rule obeysD [OF scan_counters])
  then have grow: "env (snd (scan now w)) = env w" "uuid_next w \<le> uuid_next (snd (scan now w))"
    by (simp_all add: same_tickets_def counters_grow_def)
  have "keys_ok sla_instances si_id w" using assms by (simp add: clocks_ok_def sla_inv_def)
  then have "keys_ok sla_instances si_id (snd (scan now w))" by (rule keys_ok_same [OF _ grow]) (simp add: rows)
  moreover have "list_all record_ok (sla_instances (snd (scan now w)))"
    using assms rows by (simp add: clocks_ok_def list_all_iff record_ok_scanned)
  ultimately show ?thesis using inst by (simp add: clocks_ok_def sla_inv_def)
qed

interpretation clock_life: invariant_system clock_step clocks_ok
proof
  fix w w'
  assume "clock_step w w'" "clocks_ok w"
  then show "clocks_ok w'"
  proof (cases rule: clock_step.cases)
    case hook
    then show ?thesis
      using \<open>clocks_ok w\<close> sla_clock.step_inv records_hook unfolding clocks_ok_def by blast
  qed (simp add: clocks_ok_scan)
qed

lemma second_scan:
  assumes "distinct (map si_id (sla_instances w))"
  shows "scan now (snd (scan now w)) = (Inr (), snd (scan now w))"
proof -
  let ?w = "snd (scan now w)"
  note rows = scan_rows [OF assms, of now]
  have "crossed_now now (x_policy x) (x_inst x) = []" if "x \<in> set (open_contexts ?w)" for x
  proof -
    from that obtain r where "r \<in> set (sla_instances w)" and c: "context_of ?w (scanned now w r) = Some x"
      by (auto simp: open_contexts_def List.map_filter_def rows)
    from scanned_quiet [OF scan_frame(2,1) c] context_inst [OF c] show ?thesis by simp
  qed
  then have "forM (open_contexts ?w) (\<lambda>x. swallowM (evaluateInstance now x)) ?w = (Inr (), ?w)" by (rule quiet_scan)
  then show ?thesis by (subst scan_def) simp
qed

lemma scanned_found:
  assumes "distinct (map si_id (sla_instances w))" "r \<in> set (sla_instances w)"
  shows "find_by si_id (si_id r) (sla_instances (snd (scan now w))) = Some (scanned now w r)"
  using find_by_distinct [of si_id "map (scanned now w) (sla_instances w)" "scanned now w r"] assms
  by (simp add: comp_def scan_rows [OF assms(1)])

lemma cancel_keeps_clocks:
  assumes "createTransition now i dto actor u w = (Inr after, w')" "td_toStatus dto = CANCELLED"
  shows "sla_instances w' = sla_instances w" "sla_policies w' = sla_policies w"
    "find_by i_id i (incidents w') = Some after" "i_status after = CANCELLED"
proof -
  from assms(1) obtain inc oa rule where t: "find_by i_id i (incidents w) = Some inc" "canAccessSite w u (i_siteId inc)"
    "findOneScoped i u w = Inr inc" "transition_checks inc dto u w = Inr oa" "check_transition inc dto u = Inr rule"
    "after = (transition_data now dto inc)\<lparr>i_updatedAt := now\<rparr>"
    "settled w' = settled (snd (sla_hook now i dto inc after actor (transitioned now i dto inc oa actor after w)))"
    by (rule transition_success)
  let ?w2 = "transitioned now i dto inc oa actor after w"
  have st: "settled w' = settled ?w2" using t(7) assms(2) by (simp add: sla_hook_def)
  have "i_id after = i" using t(6) find_by_SomeD [OF t(1)] by (simp add: transition_data_def Let_def)
  then have "find_by i_id i (update_by i_id i (\<lambda>_. after) (incidents w)) = Some after"
    using t(1) by (rule find_by_replaced)
  then show "find_by i_id i (incidents w') = Some after"
    using settled_eqD(1) [OF st] by simp
  show "sla_instances w' = sla_instances w" using settled_eqD(4) [OF st] by simp
  have "sla_policies (settled w') = sla_policies (settled ?w2)" using st by simp
  then show "sla_policies w' = sla_policies w" by (simp add: settled_def)
  show "i_status after = CANCELLED" using t(6) assms(2) by (simp add: transition_data_def Let_def)
qed

lemma desk_clocks: "clocks_ok desk_world"
proof -
  have "sla_instances desk_world = sla_instances sla_sample" "env desk_world = env sla_sample"
    "uuid_next desk_world = uuid_next sla_sample" by (simp_all add: desk_world_def)
  then have "sla_inv desk_world" using sla_sample_inv by (simp add: sla_inv_def keys_ok_def issued_def)
  then show ?thesis by (simp add: clocks_ok_def record_ok_def desk_world_def sla_sample_def sample_clock_def new_instance_def)
qed

section \<open>The properties\<close>

text \<open>
  C8: one scan brings every clock up to date: a clock whose policy and ticket exist is breached
  afterwards exactly when it already was, or when its response or its resolution deadline has
  passed while it was running; the milestones it gains are those crossed and not yet reported, and
  nothing else about it changes.
\<close>

theorem scan_reports_overdue_clocks:
  assumes "clocks_ok w" "r \<in> set (sla_instances w)"
    "find_by sp_id (si_slaPolicyId r) (sla_policies w) = Some p" "find_by i_id (si_incidentId r) (incidents w) = Some inc"
  shows "\<exists>r'. find_by si_id (si_id r) (sla_instances (snd (scan now w))) = Some r' \<and>
     (si_breached r' \<longleftrightarrow> si_breached r \<or> (ack_running r \<and> the (si_ackDueAt r) \<le> now) \<or>
        (resolve_running r \<and> the (si_resolveDueAt r) \<le> now)) \<and>
     si_firedMilestones r' = si_firedMilestones r @ map cm_milestone (crossed_now now p r) \<and>
     r'\<lparr>si_breached := si_breached r, si_firedMilestones := si_firedMilestones r\<rparr> = r"
proof -
  have d: "distinct (map si_id (sla_instances w))" and ok: "record_ok r"
    using assms(1,2) by (auto simp: clocks_ok_def sla_inv_def keys_ok_def list_all_iff)
  have "context_of w r \<noteq> None" using context_iff assms(3,4) by simp
  then obtain x where x: "context_of w r = Some x" by auto
  then have row: "scanned now w r = fire_all (crossed_now now p r) r"
    using context_policy [OF x] assms(3) by (simp add: scanned_def)
  show ?thesis
    using scanned_breached [OF ok, of w now] x scanned_found [OF d assms(2), of now]
    by (simp add: row fired_after(1) fire_all_frame)
qed

theorem scan_reports_overdue_clocks_witness:
  "\<exists>r'. find_by si_id ''0'' (sla_instances (snd (scan 900000 desk_world))) = Some r' \<and> si_breached r'"
proof -
  from scan_reports_overdue_clocks [OF desk_clocks, of sample_clock p1_policy ticket 900000] show ?thesis
    by (auto simp: desk_world_def sla_sample_def sample_clock_def new_instance_def p1_policy_def ticket_def ack_running_def)
qed

text \<open>
  C9: no warning is given twice: whatever sequence of ticket operations and scans runs, no clock
  ever holds the same milestone twice, and it is flagged as breached exactly when one of its
  breach milestones has been reported.
\<close>

theorem milestones_fire_once:
  assumes "clock_step\<^sup>*\<^sup>* w w'" "clocks_ok w"
  shows "\<forall>r \<in> set (sla_instances w'). distinct (si_firedMilestones r) \<and>
     (si_breached r \<longleftrightarrow> milestone_name ACK 100 \<in> set (si_firedMilestones r) \<or>
                       milestone_name RESOLVE 100 \<in> set (si_firedMilestones r))"
  using clock_life.run_inv [OF assms] by (simp add: clocks_ok_def list_all_iff record_ok_def)

theorem milestones_fire_once_witness:
  "list_all (\<lambda>r. distinct (si_firedMilestones r) \<and>
     (si_breached r \<longleftrightarrow> milestone_name ACK 100 \<in> set (si_firedMilestones r) \<or>
                       milestone_name RESOLVE 100 \<in> set (si_firedMilestones r)))
     (sla_instances (snd (scan 900000 desk_world)))"
  using milestones_fire_once [OF r_into_rtranclp [of clock_step, OF tick] desk_clocks] by (simp add: list_all_iff)

text \<open>
  A scan that runs twice at the same instant, as after a restart, does nothing the second
  time: no row, no event, no bell and no mail.
\<close>

theorem scan_is_idempotent:
  assumes "distinct (map si_id (sla_instances w))"
  shows "scan now (snd (scan now w)) = (Inr (), snd (scan now w))"
  using assms by (rule second_scan)

theorem scan_is_idempotent_witness:
  "scan 900000 (snd (scan 900000 desk_world)) = (Inr (), snd (scan 900000 desk_world))"
  by (rule scan_is_idempotent) (simp add: desk_world_def sla_sample_def)

text \<open>
  Cancelling a ticket does not stop its clock: once the resolution deadline passes, the next
  scan marks the clock of the cancelled ticket as breached.
\<close>

theorem cancelled_ticket_still_breaches:
  assumes "createTransition t0 i dto actor u w = (Inr after, w')" "td_toStatus dto = CANCELLED"
    "findInstance i w = Some r" "resolve_running r" "the (si_resolveDueAt r) \<le> t1" "clocks_ok w"
    "find_by sp_id (si_slaPolicyId r) (sla_policies w) = Some p"
  shows "\<exists>r'. find_by i_id i (incidents (snd (scan t1 w'))) = Some after \<and> i_status after = CANCELLED \<and>
     find_by si_id (si_id r) (sla_instances (snd (scan t1 w'))) = Some r' \<and> si_breached r'"
proof -
  note c = cancel_keeps_clocks [OF assms(1,2)]
  have r: "r \<in> set (sla_instances w)" "si_incidentId r = i"
    using assms(3) find_by_SomeD by (fastforce simp: findInstance_def)+
  have d: "distinct (map si_id (sla_instances w'))" and ok: "record_ok r"
    using assms(6) r(1) c(1) by (auto simp: clocks_ok_def sla_inv_def keys_ok_def list_all_iff)
  have "context_of w' r \<noteq> None" using context_iff [of w' r] assms(7) c r(2) by simp
  then have "si_breached (scanned t1 w' r)" using scanned_breached [OF ok] assms(4,5) by simp
  moreover have "find_by si_id (si_id r) (sla_instances (snd (scan t1 w'))) = Some (scanned t1 w' r)"
    using r(1) c(1) by (intro scanned_found [OF d]) simp
  ultimately show ?thesis using c by (simp add: scan_frame)
qed

lemma lead_cancels:
  "\<exists>w'. createTransition 5 ''inc-1'' cancel_dto (actor_of lead_user) (auth_of lead_user) busy_world =
     (Inr ((transition_data 5 cancel_dto ticket)\<lparr>i_updatedAt := 5\<rparr>), w')"
  by (rule transition_succeeds [where oa = "[]"])
    (simp_all add: check_defs busy_defs incident_refs_ok_def transition_data_def)

lemma busy_clock:
  "findInstance ''inc-1'' busy_world = Some sample_clock" "sla_policies busy_world = [p1_policy]" "clocks_ok busy_world"
proof -
  show "findInstance ''inc-1'' busy_world = Some sample_clock"
    using sla_sample_simps(1) by (simp add: findInstance_def desk_world_def busy_world_def)
  show "sla_policies busy_world = [p1_policy]" by (simp add: busy_world_def desk_world_def sla_sample_def)
  show "clocks_ok busy_world"
    using desk_clocks by (simp add: busy_world_def clocks_ok_def sla_inv_def keys_ok_def issued_def)
qed

theorem cancelled_ticket_still_breaches_witness:
  "\<exists>after w' r'. createTransition 5 ''inc-1'' cancel_dto (actor_of lead_user) (auth_of lead_user) busy_world = (Inr after, w') \<and>
     i_status after = CANCELLED \<and> find_by si_id ''0'' (sla_instances (snd (scan 14400000 w'))) = Some r' \<and> si_breached r'"
proof -
  from lead_cancels obtain after w' where
    run: "createTransition 5 ''inc-1'' cancel_dto (actor_of lead_user) (auth_of lead_user) busy_world = (Inr after, w')"
    by blast
  have "si_id sample_clock = ''0''" "resolve_running sample_clock" "si_slaPolicyId sample_clock = sp_id p1_policy"
    by (simp_all add: sample_clock_def new_instance_def resolve_running_def)
  with cancelled_ticket_still_breaches [OF run _ busy_clock(1) _ _ busy_clock(3), of 14400000 p1_policy] run show ?thesis
    by (auto simp: cancel_dto_def empty_dto_def busy_clock(2))
qed

end
