(* ===== verification/Shifts.thy ===== *)
theory Shifts
  imports Access Calendar
begin

text \<open>
  Duty windows (\<^verbatim>\<open>shifts/shift.util.ts\<close>, \<^verbatim>\<open>shifts/shifts.service.ts\<close>): whether a weekly window
  covers an instant, the register of shifts, the live roster, and the check that keeps an engineer
  with active shifts in an engineer role (\<^verbatim>\<open>shifts/shift-user-checks.listener.ts\<close>).
\<close>

section \<open>Is a shift active\<close>

text \<open>
  The columns are written through a pattern that admits only clock times; a row with anything else
  covers nothing.
\<close>

definition isShiftActiveAt :: "engineer_shift \<Rightarrow> zone \<Rightarrow> instant \<Rightarrow> bool" where
  "isShiftActiveAt shift z now =
     (case (parseClock (sh_startTime shift), parseClock (sh_endTime shift)) of
        (Some s, Some e) \<Rightarrow>
          (let todayStart = z_set z now (fst s) (snd s);
               todayEnd = z_set z now (fst e) (snd e);
               today = z_weekday z now mod 7;
               yesterday = (today + 6) mod 7
           in if todayStart \<le> todayEnd
              then today \<in> set (sh_daysOfWeek shift) \<and> todayStart \<le> now \<and> now < todayEnd
              else (today \<in> set (sh_daysOfWeek shift) \<and> todayStart \<le> now) \<or>
                   (yesterday \<in> set (sh_daysOfWeek shift) \<and> now < todayEnd))
      | _ \<Rightarrow> False)"

section \<open>The register\<close>

record shift_query =
  sq_siteId :: "uuid option"
  sq_userId :: "uuid option"

record create_shift_dto =
  csd_userId :: uuid
  csd_siteId :: uuid
  csd_label :: string
  csd_daysOfWeek :: "nat list"
  csd_startTime :: string
  csd_endTime :: string
  csd_isOnCall :: "bool option"

record update_shift_dto =
  usd_label :: "string option"
  usd_daysOfWeek :: "nat list option"
  usd_startTime :: "string option"
  usd_endTime :: "string option"
  usd_isOnCall :: "bool option"
  usd_isActive :: "bool option"

record roster_entry =
  re_shiftId :: uuid
  re_label :: string
  re_isOnCall :: bool
  re_siteId :: uuid
  re_siteCode :: string
  re_userId :: uuid
  re_displayName :: string
  re_email :: string

record live_roster =
  lr_asOf :: instant
  lr_working :: "roster_entry list"
  lr_onCall :: "roster_entry list"

text \<open>The sites a query is narrowed to: a site outside the caller's scope widens back to the scope.\<close>

definition shift_siteFilter :: "shift_query \<Rightarrow> uuid list option \<Rightarrow> uuid list option" where
  "shift_siteFilter q accessible =
     (case accessible of
        Some ids \<Rightarrow> Some (if truthy (sq_siteId q) \<and> the (sq_siteId q) \<in> set ids then [the (sq_siteId q)] else ids)
      | None \<Rightarrow> (if truthy (sq_siteId q) then Some [the (sq_siteId q)] else None))"

definition shift_where :: "shift_query \<Rightarrow> uuid list option \<Rightarrow> engineer_shift \<Rightarrow> bool" where
  "shift_where q accessible s \<longleftrightarrow>
     (case shift_siteFilter q accessible of None \<Rightarrow> True | Some ids \<Rightarrow> sh_siteId s \<in> set ids) \<and>
     matches (sq_userId q) (sh_userId s)"

definition shiftsFindAll :: "world \<Rightarrow> shift_query \<Rightarrow> uuid list option \<Rightarrow> engineer_shift list" where
  "shiftsFindAll w q accessible =
     sort_key (\<lambda>s. (env_collation (env w) (sh_siteId s), env_collation (env w) (sh_startTime s)))
       (filter (shift_where q accessible) (shifts w))"

definition shiftFindOne :: "uuid \<Rightarrow> world \<Rightarrow> http_error + engineer_shift" where
  "shiftFindOne i w =
     (case find_by sh_id i (shifts w) of None \<Rightarrow> Inl (NotFound ''Shift not found'') | Some s \<Rightarrow> Inr s)"

definition no_duration :: http_error where
  "no_duration = BadRequest ''startTime and endTime cannot be equal''"

definition not_an_engineer :: http_error where
  "not_an_engineer = BadRequest ''only Site Engineers and Infrastructure Leads work shifts''"

definition create_shift_checks :: "create_shift_dto \<Rightarrow> world \<Rightarrow> http_error + unit" where
  "create_shift_checks dto w =
     (if csd_startTime dto = csd_endTime dto then Inl no_duration
      else case find_by u_id (csd_userId dto) (users w) of
        None \<Rightarrow> Inl (BadRequest ''User not found'')
      | Some u \<Rightarrow>
          (if \<not> isEngineerRole (u_role u) then Inl not_an_engineer
           else case find_by s_id (csd_siteId dto) (sites w) of
             None \<Rightarrow> Inl (BadRequest ''Site not found'')
           | Some _ \<Rightarrow> Inr ()))"

definition new_shift :: "uuid \<Rightarrow> create_shift_dto \<Rightarrow> engineer_shift" where
  "new_shift i dto = \<lparr>sh_id = i, sh_userId = csd_userId dto, sh_siteId = csd_siteId dto, sh_label = csd_label dto,
     sh_daysOfWeek = csd_daysOfWeek dto, sh_startTime = csd_startTime dto, sh_endTime = csd_endTime dto,
     sh_isOnCall = option_default False (csd_isOnCall dto), sh_isActive = True\<rparr>"

definition shiftCreate :: "instant \<Rightarrow> create_shift_dto \<Rightarrow> actor_context \<Rightarrow> engineer_shift op" where
  "shiftCreate now dto actor =
     bindM (readM (create_shift_checks dto)) (\<lambda>_.
     transaction
       (bindM freshId (\<lambda>i.
        let s = new_shift i dto in
        bindM (modifyM (\<lambda>w. w\<lparr>shifts := shifts w @ [s]\<rparr>)) (\<lambda>_.
        bindM (auditRecord now (Some (actorId actor)) ''EngineerShift'' i ''CREATE'' None (Some (SnapShift s))
                 (correlationId actor)) (\<lambda>_. ret s)))))"

definition patch_shift :: "update_shift_dto \<Rightarrow> engineer_shift \<Rightarrow> engineer_shift" where
  "patch_shift dto s = s\<lparr>sh_label := patched (usd_label dto) (sh_label s),
     sh_daysOfWeek := patched (usd_daysOfWeek dto) (sh_daysOfWeek s),
     sh_startTime := patched (usd_startTime dto) (sh_startTime s),
     sh_endTime := patched (usd_endTime dto) (sh_endTime s),
     sh_isOnCall := patched (usd_isOnCall dto) (sh_isOnCall s),
     sh_isActive := patched (usd_isActive dto) (sh_isActive s)\<rparr>"

definition update_shift_checks :: "uuid \<Rightarrow> update_shift_dto \<Rightarrow> world \<Rightarrow> http_error + engineer_shift" where
  "update_shift_checks i dto w =
     (case shiftFindOne i w of
        Inl e \<Rightarrow> Inl e
      | Inr before \<Rightarrow>
          (if option_default (sh_startTime before) (usd_startTime dto) =
              option_default (sh_endTime before) (usd_endTime dto) then Inl no_duration
           else if usd_isActive dto = Some True \<and> \<not> sh_isActive before \<and>
             (case find_by u_id (sh_userId before) (users w) of None \<Rightarrow> True | Some u \<Rightarrow> \<not> isEngineerRole (u_role u))
           then Inl not_an_engineer
           else Inr before))"

definition shiftUpdate :: "instant \<Rightarrow> uuid \<Rightarrow> update_shift_dto \<Rightarrow> actor_context \<Rightarrow> engineer_shift op" where
  "shiftUpdate now i dto actor =
     bindM (readM (update_shift_checks i dto)) (\<lambda>before.
     transaction
       (let after = patch_shift dto before in
        bindM (modifyM (\<lambda>w. w\<lparr>shifts := update_by sh_id i (patch_shift dto) (shifts w)\<rparr>)) (\<lambda>_.
        bindM (auditRecord now (Some (actorId actor)) ''EngineerShift'' i ''UPDATE'' (Some (SnapShift before))
                 (Some (SnapShift after)) (correlationId actor)) (\<lambda>_. ret after))))"

section \<open>The live roster\<close>

text \<open>A shift with its user and its site; the foreign keys make both present.\<close>

definition roster_entry_of :: "world \<Rightarrow> instant \<Rightarrow> engineer_shift \<Rightarrow> roster_entry option" where
  "roster_entry_of w now s =
     (case (find_by u_id (sh_userId s) (users w), find_by s_id (sh_siteId s) (sites w)) of
        (Some u, Some st) \<Rightarrow>
          (if u_isActive u \<and> isShiftActiveAt s (env_zone (env w) (s_timezone st)) now
           then Some \<lparr>re_shiftId = sh_id s, re_label = sh_label s, re_isOnCall = sh_isOnCall s, re_siteId = sh_siteId s,
                      re_siteCode = s_code st, re_userId = sh_userId s, re_displayName = u_displayName u,
                      re_email = u_email u\<rparr>
           else None)
      | _ \<Rightarrow> None)"

definition getLiveRoster :: "world \<Rightarrow> shift_query \<Rightarrow> uuid list option \<Rightarrow> instant \<Rightarrow> live_roster" where
  "getLiveRoster w q accessible now =
     (let entries = List.map_filter (roster_entry_of w now)
            (filter (\<lambda>s. shift_where q accessible s \<and> sh_isActive s) (shifts w))
      in \<lparr>lr_asOf = now, lr_working = filter (\<lambda>e. \<not> re_isOnCall e) entries, lr_onCall = filter re_isOnCall entries\<rparr>)"

section \<open>The role-change check\<close>

definition shiftRoleChangeCheck :: "world \<Rightarrow> uuid \<Rightarrow> user_role \<Rightarrow> blocker option" where
  "shiftRoleChangeCheck w userId toRole =
     (if isEngineerRole toRole then None
      else let mine = sort_key (\<lambda>s. env_collation (env w) (sh_label s))
                        (filter (\<lambda>s. sh_userId s = userId \<and> sh_isActive s) (shifts w))
           in if mine = [] then None
              else Some \<lparr>bk_source = ''shifts'',
                bk_message = ''has '' @ nat_str (length mine) @ '' active shift'' @ plural (length mine) @ '' - disable '' @
                  (if length mine = 1 then ''it'' else ''them'') @ '' on Team & Shifts first'',
                bk_examples = map sh_label (take 5 mine)\<rparr>)"

section \<open>When a shift is on duty\<close>

text \<open>
  The roster reading of a window: it starts on a listed local day and ends at its closing time, on
  the next day when it closes earlier than it opens.
\<close>

definition duty_on :: "(int \<Rightarrow> nat \<Rightarrow> nat \<Rightarrow> instant) \<Rightarrow> nat list \<Rightarrow> nat \<times> nat \<Rightarrow> nat \<times> nat \<Rightarrow> int \<Rightarrow> instant \<Rightarrow> bool" where
  "duty_on wall days s e d t \<longleftrightarrow>
     nat ((d + 4) mod 7) \<in> set days \<and> wall d (fst s) (snd s) \<le> t \<and>
     t < wall (if clock_minutes s \<le> clock_minutes e then d else d + 1) (fst e) (snd e)"

lemma yesterday_index: "(nat ((d + 4) mod 7) + 6) mod 7 = nat (((d :: int) - 1 + 4) mod 7)"
proof -
  have "int ((nat ((d + 4) mod 7) + 6) mod 7) = (d + 4 + 6) mod 7" by (simp add: zmod_int mod_simps)
  also have "d + 4 + 6 = d - 1 + 4 + 7" by simp
  also have "(d - 1 + 4 + 7) mod 7 = (d - 1 + 4) mod 7" by (rule mod_add_self2)
  finally show ?thesis by (metis nat_int)
qed

text \<open>
  What is asked of the zone here: the clock shows the two times of a day in their order. A clock
  change between them that is longer than their distance would break it.
\<close>

locale shift_zone = local_zone +
  fixes s e :: "nat \<times> nat"
  assumes shift_range: "fst s < 24" "snd s < 60" "fst e < 24" "snd e < 60"
    and clock_order: "wall d (fst s) (snd s) \<le> wall d (fst e) (snd e) \<longleftrightarrow> clock_minutes s \<le> clock_minutes e"
begin

lemma duty_day:
  assumes "duty_on wall days s e d t"
  shows "z_date z t = d \<or> (z_date z t = d + 1 \<and> clock_minutes e < clock_minutes s)"
proof -
  have w: "day0 d' \<le> wall d' (fst s) (snd s)" "wall d' (fst e) (snd e) < day0 (d' + 1)" for d'
    using wall_day [of "fst s" "snd s" d'] wall_day [of "fst e" "snd e" d'] shift_range by auto
  have "day0 d \<le> t" using assms w(1) [of d] by (simp add: duty_on_def)
  moreover have "t < day0 (d + 1 + 1)" "clock_minutes s \<le> clock_minutes e \<Longrightarrow> t < day0 (d + 1)"
    using assms w(2) [of d] w(2) [of "d + 1"] day0_step [of "d + 1"] by (auto simp: duty_on_def split: if_splits)
  ultimately show ?thesis using date_iff [of t d] date_iff [of t "d + 1"] by linarith
qed

lemma active_iff_duty:
  assumes "parseClock (sh_startTime sh) = Some s" "parseClock (sh_endTime sh) = Some e"
  shows "isShiftActiveAt sh z t \<longleftrightarrow> (\<exists>d. duty_on wall (sh_daysOfWeek sh) s e d t)"
proof -
  let ?d = "z_date z t"
  have w: "day0 d' \<le> wall d' (fst s) (snd s)" "wall d' (fst s) (snd s) < day0 (d' + 1)"
    "day0 d' \<le> wall d' (fst e) (snd e)" for d'
    using wall_day [of "fst s" "snd s" d'] wall_day [of "fst e" "snd e" d'] shift_range by auto
  have near: "(\<exists>d. duty_on wall (sh_daysOfWeek sh) s e d t) \<longleftrightarrow>
      duty_on wall (sh_daysOfWeek sh) s e ?d t \<or>
      (clock_minutes e < clock_minutes s \<and> duty_on wall (sh_daysOfWeek sh) s e (?d - 1) t)"
  proof
    assume "\<exists>d. duty_on wall (sh_daysOfWeek sh) s e d t"
    then obtain d where d: "duty_on wall (sh_daysOfWeek sh) s e d t" by blast
    from duty_day [OF d] show "duty_on wall (sh_daysOfWeek sh) s e ?d t \<or>
      (clock_minutes e < clock_minutes s \<and> duty_on wall (sh_daysOfWeek sh) s e (?d - 1) t)"
      using d by auto
  qed blast
  have "wall (?d - 1) (fst s) (snd s) \<le> t" "t < wall (?d + 1) (fst e) (snd e)"
    using w(2) [of "?d - 1"] w(3) [of "?d + 1"] date_bounds [of t] by auto
  then show ?thesis
    unfolding near isShiftActiveAt_def using assms
    by (auto simp: Let_def set_wall weekday_date yesterday_index clock_order duty_on_def)
qed

end

interpretation ist_night: shift_zone "fixed_zone 19800000" "fixed_day0 19800000" "fixed_wall 19800000" "(22, 0)" "(6, 0)"
  by unfold_locales (auto simp: fixed_wall_def clock_minutes_def)

section \<open>Who works a shift\<close>

text \<open>Active shifts are held by engineers, have a duration, and their ids are unique.\<close>

definition shift_ok :: "world \<Rightarrow> engineer_shift \<Rightarrow> bool" where
  "shift_ok w s \<longleftrightarrow> sh_startTime s \<noteq> sh_endTime s \<and>
     (sh_isActive s \<longrightarrow> (\<exists>u. find_by u_id (sh_userId s) (users w) = Some u \<and> isEngineerRole (u_role u)))"

definition shifts_inv :: "world \<Rightarrow> bool" where
  "shifts_inv w \<longleftrightarrow> keys_ok shifts sh_id w \<and> list_all (shift_ok w) (shifts w)"

lemma shiftCreate_eval:
  "shiftCreate now dto actor w =
     (case create_shift_checks dto w of
        Inl e \<Rightarrow> (Inl e, w)
      | Inr _ \<Rightarrow> (let s = new_shift (env_uuid (env w) (uuid_next w)) dto in
          (Inr s, w\<lparr>uuid_next := Suc (uuid_next w), shifts := shifts w @ [s],
             audits := audits w @ [\<lparr>ae_actorId = Some (actorId actor), ae_entityType = ''EngineerShift'', ae_entityId = sh_id s,
               ae_action = ''CREATE'', ae_before = None, ae_after = Some (SnapShift s),
               ae_correlationId = correlationId actor, ae_createdAt = now\<rparr>]\<rparr>)))"
  by (auto simp: shiftCreate_def bindM_readM transactionM_def Let_def new_shift_def split: sum.split)

lemma shiftUpdate_eval:
  "shiftUpdate now i dto actor w =
     (case update_shift_checks i dto w of
        Inl e \<Rightarrow> (Inl e, w)
      | Inr before \<Rightarrow>
          (Inr (patch_shift dto before), w\<lparr>shifts := update_by sh_id i (patch_shift dto) (shifts w),
             audits := audits w @ [\<lparr>ae_actorId = Some (actorId actor), ae_entityType = ''EngineerShift'', ae_entityId = i,
               ae_action = ''UPDATE'', ae_before = Some (SnapShift before), ae_after = Some (SnapShift (patch_shift dto before)),
               ae_correlationId = correlationId actor, ae_createdAt = now\<rparr>]\<rparr>))"
  by (auto simp: shiftUpdate_def bindM_readM transactionM_def Let_def split: sum.split)

lemma create_shift_ok:
  assumes "create_shift_checks dto w = Inr ()"
  shows "csd_startTime dto \<noteq> csd_endTime dto"
    "\<exists>u. find_by u_id (csd_userId dto) (users w) = Some u \<and> isEngineerRole (u_role u)"
  using assms by (auto simp: create_shift_checks_def split: if_splits option.splits)

lemma update_shift_ok:
  assumes "update_shift_checks i dto w = Inr before" "shift_ok w before"
  shows "find_by sh_id i (shifts w) = Some before" "shift_ok w (patch_shift dto before)"
proof -
  show "find_by sh_id i (shifts w) = Some before"
    using assms(1) by (auto simp: update_shift_checks_def shiftFindOne_def split: option.splits if_splits)
  show "shift_ok w (patch_shift dto before)"
    using assms
    by (cases "usd_startTime dto"; cases "usd_endTime dto"; cases "usd_isActive dto")
      (auto simp: update_shift_checks_def shift_ok_def patch_shift_def split: sum.splits if_splits option.splits)
qed

lemma shifts_inv_create:
  assumes "shifts_inv w"
  shows "shifts_inv (snd (shiftCreate now dto actor w))"
proof (cases "create_shift_checks dto w")
  case (Inl err)
  then show ?thesis using assms by (simp add: shiftCreate_eval)
next
  case (Inr v)
  let ?w = "snd (shiftCreate now dto actor w)"
  let ?s = "new_shift (env_uuid (env w) (uuid_next w)) dto"
  have w': "shifts ?w = shifts w @ [?s]" "users ?w = users w" "env ?w = env w" "uuid_next ?w = Suc (uuid_next w)"
    using Inr by (simp_all add: shiftCreate_eval Let_def)
  have "keys_ok shifts sh_id ?w"
    by (rule keys_ok_insert [OF _ w'(3) _ w'(1)]) (use assms w' in \<open>simp_all add: shifts_inv_def new_shift_def\<close>)
  moreover have "shift_ok ?w ?s"
    using create_shift_ok [of dto w] Inr w'(2) by (simp add: shift_ok_def new_shift_def)
  ultimately show ?thesis using assms w' by (simp add: shifts_inv_def shift_ok_def list_all_iff)
qed

lemma shifts_inv_update:
  assumes "shifts_inv w"
  shows "shifts_inv (snd (shiftUpdate now i dto actor w))"
proof (cases "update_shift_checks i dto w")
  case (Inl err)
  then show ?thesis using assms by (simp add: shiftUpdate_eval)
next
  case (Inr before)
  let ?w = "snd (shiftUpdate now i dto actor w)"
  have w': "shifts ?w = update_by sh_id i (patch_shift dto) (shifts w)" "users ?w = users w" "env ?w = env w"
    "uuid_next ?w = uuid_next w" using Inr by (simp_all add: shiftUpdate_eval)
  have found: "find_by sh_id i (shifts w) = Some before"
    using Inr by (auto simp: update_shift_checks_def shiftFindOne_def split: option.splits if_splits)
  have ok: "shift_ok w s" if "s \<in> set (shifts w)" for s using assms that by (simp add: shifts_inv_def list_all_iff)
  have same: "s = before" if "s \<in> set (shifts w)" "sh_id s = i" for s
    using assms that found find_by_distinct [of sh_id "shifts w" s] by (simp add: shifts_inv_def keys_ok_def)
  have "shift_ok w (patch_shift dto s)" if "s \<in> set (shifts w)" "sh_id s = i" for s
    using update_shift_ok(2) [OF Inr] same [OF that] ok that by simp
  then have "list_all (shift_ok w) (shifts ?w)" using ok by (auto simp: w' list_all_iff in_set_update_by)
  moreover have "keys_ok shifts sh_id ?w"
    by (rule keys_ok_same [of _ _ w]) (use assms w' in \<open>simp_all add: shifts_inv_def map_key_update_by patch_shift_def\<close>)
  ultimately show ?thesis using w' by (simp add: shifts_inv_def shift_ok_def list_all_iff)
qed

text \<open>
  A user row is edited with everything but the role kept, or the role changed after the check has
  answered that nothing stands in the way.
\<close>

inductive shift_step :: "world \<Rightarrow> world \<Rightarrow> bool" where
  st_create: "shift_step w (snd (shiftCreate now dto actor w))"
| st_update: "shift_step w (snd (shiftUpdate now i dto actor w))"
| st_role: "shiftRoleChangeCheck w u role = None \<Longrightarrow>
    shift_step w (w\<lparr>users := update_by u_id u (\<lambda>r. r\<lparr>u_role := role\<rparr>) (users w)\<rparr>)"

lemma roleCheck_None:
  "shiftRoleChangeCheck w u role = None \<longleftrightarrow>
     isEngineerRole role \<or> (\<forall>s \<in> set (shifts w). sh_userId s = u \<longrightarrow> \<not> sh_isActive s)"
proof -
  have empty: "sort_key f xs = [] \<longleftrightarrow> xs = []" for f :: "engineer_shift \<Rightarrow> nat" and xs
    by (metis length_0_conv length_sort)
  show ?thesis by (auto simp: shiftRoleChangeCheck_def Let_def empty filter_empty_conv)
qed

lemma shifts_inv_role:
  assumes "shifts_inv w" "shiftRoleChangeCheck w u role = None"
  shows "shifts_inv (w\<lparr>users := update_by u_id u (\<lambda>r. r\<lparr>u_role := role\<rparr>) (users w)\<rparr>)"
proof -
  let ?w = "w\<lparr>users := update_by u_id u (\<lambda>r. r\<lparr>u_role := role\<rparr>) (users w)\<rparr>"
  have "shift_ok ?w s" if "s \<in> set (shifts w)" for s
  proof -
    have "shift_ok w s" using assms(1) that by (simp add: shifts_inv_def list_all_iff)
    then show ?thesis
      using assms(2) that
      by (cases "sh_userId s = u") (auto simp: shift_ok_def roleCheck_None find_by_update_by_same find_by_update_by_other)
  qed
  then show ?thesis using assms(1) by (simp add: shifts_inv_def list_all_iff keys_ok_def issued_def)
qed

interpretation shift_register: invariant_system shift_step shifts_inv
proof
  fix w w'
  assume "shift_step w w'" "shifts_inv w"
  then show "shifts_inv w'"
    by (cases rule: shift_step.cases) (simp_all add: shifts_inv_create shifts_inv_update shifts_inv_role)
qed

lemma roster_in_where:
  "e \<in> set (lr_working (getLiveRoster w q acc now) @ lr_onCall (getLiveRoster w q acc now)) \<longleftrightarrow>
     (\<exists>s \<in> set (shifts w). shift_where q acc s \<and> sh_isActive s \<and> roster_entry_of w now s = Some e)"
  by (force simp: getLiveRoster_def Let_def List.map_filter_def)

lemma roster_entry_facts:
  assumes "roster_entry_of w now s = Some e"
  shows "re_userId e = sh_userId s" "re_siteId e = sh_siteId s" "re_isOnCall e = sh_isOnCall s"
    "\<exists>u st. find_by u_id (re_userId e) (users w) = Some u \<and> u_isActive u \<and> find_by s_id (re_siteId e) (sites w) = Some st \<and>
       isShiftActiveAt s (env_zone (env w) (s_timezone st)) now"
  using assms by (auto simp: roster_entry_of_def split: option.splits if_splits)

section \<open>The properties\<close>

text \<open>
  C38: a shift is active exactly while it is on duty: at an instant between its opening time on a
  listed local day and its closing time on that day, or on the following day when it closes
  earlier than it opens. So a Friday night shift still covers Saturday before dawn and no shift
  covers the morning after an unlisted day.
\<close>

theorem shift_active_on_duty:
  assumes "shift_zone z day0 wall s e"
    "parseClock (sh_startTime sh) = Some s" "parseClock (sh_endTime sh) = Some e"
  shows "isShiftActiveAt sh z t \<longleftrightarrow> (\<exists>d. duty_on wall (sh_daysOfWeek sh) s e d t)"
  by (rule shift_zone.active_iff_duty [OF assms])

definition friday_night :: engineer_shift where
  "friday_night = \<lparr>sh_id = ''sh-1'', sh_userId = ''u-eng'', sh_siteId = ''BLR'', sh_label = ''Night'', sh_daysOfWeek = [5],
     sh_startTime = ''22:00'', sh_endTime = ''06:00'', sh_isOnCall = False, sh_isActive = True\<rparr>"

lemma friday_night_clock:
  "parseClock (sh_startTime friday_night) = Some (22, 0)" "parseClock (sh_endTime friday_night) = Some (6, 0)"
  by (simp_all add: friday_night_def parseClock_def number_of_def digit_value_def)

theorem shift_active_on_duty_witness:
  "isShiftActiveAt friday_night (fixed_zone 19800000) 1699050600000"
  using shift_active_on_duty [OF ist_night.shift_zone_axioms friday_night_clock, of 1699050600000]
  by (auto simp: duty_on_def friday_night_def fixed_wall_def clock_minutes_def intro!: exI [of _ 19664])

text \<open>
  Only engineers work shifts: whatever sequence of creations, edits and checked role changes
  runs, the holder of every active shift is a site engineer or an infrastructure lead, and every
  shift has a duration.
\<close>

theorem active_shifts_held_by_engineers:
  assumes "shift_step\<^sup>*\<^sup>* w w'" "shifts_inv w" "s \<in> set (shifts w')"
  shows "sh_startTime s \<noteq> sh_endTime s \<and>
     (sh_isActive s \<longrightarrow> (\<exists>u. find_by u_id (sh_userId s) (users w') = Some u \<and> isEngineerRole (u_role u)))"
  using shift_register.run_inv [OF assms(1,2)] assms(3) by (simp add: shifts_inv_def list_all_iff shift_ok_def)

definition night_engineer :: user where
  "night_engineer = \<lparr>u_id = ''u-eng'', u_email = ''eng@x'', u_displayName = ''Eng'', u_role = SITE_ENGINEER, u_isActive = True,
     u_passwordHash = None, u_passwordSetAt = None, u_failedLoginCount = 0, u_lockedUntil = None, u_sessionVersion = 0,
     u_createdAt = 0, u_updatedAt = 0\<rparr>"

definition staff_world :: world where
  "staff_world = empty_world\<lparr>users := [night_engineer],
     sites := [\<lparr>s_id = ''BLR'', s_code = ''BLR'', s_name = ''Bengaluru'', s_timezone = ''Asia/Kolkata'', s_is247 = False, s_status = ''ACTIVE''\<rparr>]\<rparr>"

definition night_dto :: create_shift_dto where
  "night_dto = \<lparr>csd_userId = ''u-eng'', csd_siteId = ''BLR'', csd_label = ''Night'', csd_daysOfWeek = [5],
     csd_startTime = ''22:00'', csd_endTime = ''06:00'', csd_isOnCall = None\<rparr>"

lemma staff_world_inv: "shifts_inv staff_world"
  by (auto simp: shifts_inv_def keys_ok_def staff_world_def empty_world_def intro: injI nat_str_inj)

theorem active_shifts_held_by_engineers_witness:
  "\<exists>s. shifts (snd (shiftCreate 5 night_dto \<lparr>actorId = ''u-1'', correlationId = None\<rparr> staff_world)) = [s] \<and> sh_isActive s \<and>
     (\<exists>u. find_by u_id (sh_userId s) (users (snd (shiftCreate 5 night_dto \<lparr>actorId = ''u-1'', correlationId = None\<rparr> staff_world)))
       = Some u \<and> isEngineerRole (u_role u))"
proof -
  let ?w = "snd (shiftCreate 5 night_dto \<lparr>actorId = ''u-1'', correlationId = None\<rparr> staff_world)"
  have "create_shift_checks night_dto staff_world = Inr ()"
    by (simp add: create_shift_checks_def night_dto_def staff_world_def night_engineer_def isEngineerRole_def ENGINEER_ROLES_def)
  then obtain s where s: "shifts ?w = [s]" "sh_isActive s"
    by (simp add: shiftCreate_eval Let_def staff_world_def empty_world_def new_shift_def)
  with active_shifts_held_by_engineers [OF r_into_rtranclp [of shift_step, OF st_create] staff_world_inv, of s 5 night_dto
      "\<lparr>actorId = ''u-1'', correlationId = None\<rparr>"]
  show ?thesis by auto
qed

end
