(* ===== verification/Skills.thy ===== *)
theory Skills
  imports Shifts
begin

text \<open>
  The skill register (\<^verbatim>\<open>skills/skills.service.ts\<close>): the taxonomy, who holds which skill and what a
  ticket category requires, and the check that keeps a holder of skills in an engineer role
  (\<^verbatim>\<open>skills/skill-user-checks.listener.ts\<close>).
\<close>

section \<open>The taxonomy\<close>

definition findAllSkills :: "world \<Rightarrow> bool option \<Rightarrow> skill list" where
  "findAllSkills w activeOnly =
     sort_key (\<lambda>s. env_collation (env w) (sk_name s))
       (if activeOnly = Some True then filter sk_isActive (skills w) else skills w)"

definition findSkillOrThrow :: "uuid \<Rightarrow> world \<Rightarrow> http_error + skill" where
  "findSkillOrThrow i w =
     (case find_by sk_id i (skills w) of None \<Rightarrow> Inl (NotFound ''Skill not found'') | Some s \<Rightarrow> Inr s)"

definition name_taken :: "string \<Rightarrow> skill list \<Rightarrow> bool" where
  "name_taken n rows \<longleftrightarrow> (\<exists>s \<in> set rows. iequals (sk_name s) n)"

definition createSkill :: "instant \<Rightarrow> string \<Rightarrow> actor_context \<Rightarrow> skill op" where
  "createSkill now dtoName actor =
     (let name = trim dtoName in
      bindM (readM (\<lambda>w. if name_taken name (skills w) then Inl (Conflict ''A skill with this name already exists'')
                        else Inr ())) (\<lambda>_.
      transaction
        (bindM freshId (\<lambda>i.
         let s = \<lparr>sk_id = i, sk_name = name, sk_isActive = True\<rparr> in
         bindM (modifyM (\<lambda>w. w\<lparr>skills := skills w @ [s]\<rparr>)) (\<lambda>_.
         bindM (auditRecord now (Some (actorId actor)) ''Skill'' i ''CREATE'' None (Some (SnapSkill s))
                  (correlationId actor)) (\<lambda>_. ret s))))))"

record update_skill_dto =
  usk_name :: "string option"
  usk_isActive :: "bool option"

definition patch_skill :: "update_skill_dto \<Rightarrow> skill \<Rightarrow> skill" where
  "patch_skill dto s = s\<lparr>sk_name := patched (map_option trim (usk_name dto)) (sk_name s),
     sk_isActive := patched (usk_isActive dto) (sk_isActive s)\<rparr>"

definition update_skill_checks :: "uuid \<Rightarrow> update_skill_dto \<Rightarrow> world \<Rightarrow> http_error + skill" where
  "update_skill_checks i dto w =
     (case findSkillOrThrow i w of
        Inl e \<Rightarrow> Inl e
      | Inr before \<Rightarrow>
          (if truthy (usk_name dto) \<and> \<not> iequals (trim (the (usk_name dto))) (sk_name before) \<and>
              name_taken (trim (the (usk_name dto))) (filter (\<lambda>s. sk_id s \<noteq> i) (skills w))
           then Inl (Conflict ''A skill with this name already exists'')
           else Inr before))"

text \<open>The unique index on the exact name, which the check above does not cover for a change of case.\<close>

definition name_index :: "uuid \<Rightarrow> update_skill_dto \<Rightarrow> world \<Rightarrow> http_error + unit" where
  "name_index i dto w =
     (case usk_name dto of
        None \<Rightarrow> Inr ()
      | Some n \<Rightarrow> (if \<exists>s \<in> set (skills w). sk_id s \<noteq> i \<and> sk_name s = trim n
                  then Inl (Internal ''Unique constraint failed: name'') else Inr ()))"

definition updateSkill :: "instant \<Rightarrow> uuid \<Rightarrow> update_skill_dto \<Rightarrow> actor_context \<Rightarrow> skill op" where
  "updateSkill now i dto actor =
     bindM (readM (update_skill_checks i dto)) (\<lambda>before.
     transaction
       (bindM (readM (name_index i dto)) (\<lambda>_.
        let after = patch_skill dto before in
        bindM (modifyM (\<lambda>w. w\<lparr>skills := update_by sk_id i (patch_skill dto) (skills w)\<rparr>)) (\<lambda>_.
        bindM (auditRecord now (Some (actorId actor)) ''Skill'' i ''UPDATE'' (Some (SnapSkill before))
                 (Some (SnapSkill after)) (correlationId actor)) (\<lambda>_. ret after)))))"

section \<open>Holders\<close>

text \<open>\<open>include: skill\<close>; the foreign key makes the skill present.\<close>

definition findAllAssignments :: "world \<Rightarrow> (user_skill \<times> skill) list" where
  "findAllAssignments w =
     List.map_filter (\<lambda>a. map_option (Pair a) (find_by sk_id (us_skillId a) (skills w))) (user_skills w)"

definition holding :: "uuid \<Rightarrow> uuid \<Rightarrow> world \<Rightarrow> user_skill option" where
  "holding userId skillId w = find_by (\<lambda>a. (us_userId a, us_skillId a)) (userId, skillId) (user_skills w)"

definition assign_checks :: "uuid \<Rightarrow> uuid \<Rightarrow> world \<Rightarrow> http_error + unit" where
  "assign_checks skillId userId w =
     (case findSkillOrThrow skillId w of
        Inl e \<Rightarrow> Inl e
      | Inr s \<Rightarrow>
          (case find_by u_id userId (users w) of
             None \<Rightarrow> Inl (BadRequest ''User not found'')
           | Some u \<Rightarrow>
               (if \<not> isEngineerRole (u_role u)
                then Inl (BadRequest ''only Site Engineers and Infrastructure Leads hold skills'')
                else if \<not> sk_isActive s then Inl (BadRequest ''Skill is retired and cannot be assigned'')
                else if holding userId skillId w \<noteq> None then Inl (Conflict ''already has the skill'')
                else Inr ())))"

definition assignSkill :: "instant \<Rightarrow> uuid \<Rightarrow> uuid \<Rightarrow> actor_context \<Rightarrow> user_skill op" where
  "assignSkill now skillId userId actor =
     bindM (readM (assign_checks skillId userId)) (\<lambda>_.
     transaction
       (bindM freshId (\<lambda>i.
        let a = \<lparr>us_id = i, us_userId = userId, us_skillId = skillId\<rparr> in
        bindM (modifyM (\<lambda>w. w\<lparr>user_skills := user_skills w @ [a]\<rparr>)) (\<lambda>_.
        bindM (auditRecord now (Some (actorId actor)) ''UserSkill'' i ''CREATE'' None (Some (SnapUserSkill userId skillId))
                 (correlationId actor)) (\<lambda>_. ret a)))))"

definition unassignSkill :: "instant \<Rightarrow> uuid \<Rightarrow> uuid \<Rightarrow> actor_context \<Rightarrow> unit op" where
  "unassignSkill now skillId userId actor =
     bindM (readM (\<lambda>w. case holding userId skillId w of
                         None \<Rightarrow> Inl (NotFound ''That engineer does not have this skill assigned'')
                       | Some a \<Rightarrow> Inr a)) (\<lambda>existing.
     transaction
       (bindM (modifyM (\<lambda>w. w\<lparr>user_skills := delete_by us_id (us_id existing) (user_skills w)\<rparr>)) (\<lambda>_.
        auditRecord now (Some (actorId actor)) ''UserSkill'' (us_id existing) ''DELETE''
          (Some (SnapUserSkill (us_userId existing) (us_skillId existing))) None (correlationId actor))))"

definition findSkillIdsByUser :: "world \<Rightarrow> uuid list \<Rightarrow> uuid \<Rightarrow> uuid list option" where
  "findSkillIdsByUser w userIds u =
     (let held = map us_skillId (filter (\<lambda>a. us_userId a \<in> set userIds \<and> us_userId a = u) (user_skills w))
      in if held = [] then None else Some held)"

section \<open>Requirements\<close>

definition findAllCategoryRequirements :: "world \<Rightarrow> category_requirement list" where
  "findAllCategoryRequirements w = sort_key (\<lambda>r. env_collation (env w) (cr_category r)) (requirements w)"

definition findRequiredSkillsForCategory :: "world \<Rightarrow> string \<Rightarrow> skill list" where
  "findRequiredSkillsForCategory w category =
     filter sk_isActive
       (List.map_filter (\<lambda>r. find_by sk_id (cr_skillId r) (skills w))
          (filter (\<lambda>r. iequals (cr_category r) (trim category)) (requirements w)))"

definition requirement_checks :: "string \<Rightarrow> uuid \<Rightarrow> world \<Rightarrow> http_error + unit" where
  "requirement_checks category skillId w =
     (case findSkillOrThrow skillId w of
        Inl e \<Rightarrow> Inl e
      | Inr s \<Rightarrow>
          (if \<not> sk_isActive s then Inl (BadRequest ''Skill is retired and cannot be required'')
           else if \<exists>r \<in> set (requirements w). iequals (cr_category r) category \<and> cr_skillId r = skillId
           then Inl (Conflict ''already requires the skill'')
           else Inr ()))"

definition createCategoryRequirement :: "instant \<Rightarrow> string \<Rightarrow> uuid \<Rightarrow> actor_context \<Rightarrow> category_requirement op" where
  "createCategoryRequirement now dtoCategory skillId actor =
     (let category = trim dtoCategory in
      bindM (readM (requirement_checks category skillId)) (\<lambda>_.
      transaction
        (bindM freshId (\<lambda>i.
         let r = \<lparr>cr_id = i, cr_category = category, cr_skillId = skillId\<rparr> in
         bindM (modifyM (\<lambda>w. w\<lparr>requirements := requirements w @ [r]\<rparr>)) (\<lambda>_.
         bindM (auditRecord now (Some (actorId actor)) ''CategorySkillRequirement'' i ''CREATE'' None
                  (Some (SnapRequirement r)) (correlationId actor)) (\<lambda>_. ret r))))))"

definition deleteCategoryRequirement :: "instant \<Rightarrow> uuid \<Rightarrow> actor_context \<Rightarrow> unit op" where
  "deleteCategoryRequirement now i actor =
     bindM (readM (\<lambda>w. case find_by cr_id i (requirements w) of
                         None \<Rightarrow> Inl (NotFound ''Category skill requirement not found'')
                       | Some r \<Rightarrow> Inr r)) (\<lambda>existing.
     transaction
       (bindM (modifyM (\<lambda>w. w\<lparr>requirements := delete_by cr_id i (requirements w)\<rparr>)) (\<lambda>_.
        auditRecord now (Some (actorId actor)) ''CategorySkillRequirement'' i ''DELETE'' (Some (SnapRequirement existing)) None
          (correlationId actor))))"

definition skillRoleChangeCheck :: "world \<Rightarrow> uuid \<Rightarrow> user_role \<Rightarrow> blocker option" where
  "skillRoleChangeCheck w userId toRole =
     (if isEngineerRole toRole then None
      else let mine = sort_key (env_collation (env w))
                        (map (\<lambda>a. case find_by sk_id (us_skillId a) (skills w) of None \<Rightarrow> [] | Some s \<Rightarrow> sk_name s)
                          (filter (\<lambda>a. us_userId a = userId) (user_skills w)))
           in if mine = [] then None else Some \<lparr>bk_source = ''skills'',
                bk_message = ''holds '' @ nat_str (length mine) @ '' skill'' @ plural (length mine) @
                  '', which only engineers can have - remove them on Team & Shifts first'', bk_examples = take 5 mine\<rparr>)"

section \<open>The invariant of the register\<close>

definition holding_ok :: "world \<Rightarrow> user_skill \<Rightarrow> bool" where
  "holding_ok w a \<longleftrightarrow> us_skillId a \<in> sk_id ` set (skills w) \<and>
     (\<exists>u. find_by u_id (us_userId a) (users w) = Some u \<and> isEngineerRole (u_role u))"

definition skills_inv :: "world \<Rightarrow> bool" where
  "skills_inv w \<longleftrightarrow>
     keys_ok skills sk_id w \<and> keys_ok user_skills us_id w \<and>
     distinct (map (toLowerCase \<circ> sk_name) (skills w)) \<and>
     distinct (map (\<lambda>a. (us_userId a, us_skillId a)) (user_skills w)) \<and>
     distinct (map (\<lambda>r. (toLowerCase (cr_category r), cr_skillId r)) (requirements w)) \<and>
     list_all (holding_ok w) (user_skills w) \<and> list_all (\<lambda>r. cr_skillId r \<in> sk_id ` set (skills w)) (requirements w)"

lemma keys_ok_grow:
  "keys_ok rows key w \<Longrightarrow> rows w' = rows w \<Longrightarrow> env w' = env w \<Longrightarrow> uuid_next w \<le> uuid_next w' \<Longrightarrow> keys_ok rows key w'"
  by (rule keys_ok_same) simp_all

lemma keys_ok_delete:
  "keys_ok rows key w \<Longrightarrow> rows w' = delete_by key k (rows w) \<Longrightarrow> env w' = env w \<Longrightarrow> uuid_next w \<le> uuid_next w' \<Longrightarrow>
   keys_ok rows key w'"
  by (auto simp: keys_ok_def delete_by_def distinct_map_filter list_all_iff intro: issued_later)

lemma name_taken_iff: "name_taken n rows \<longleftrightarrow> toLowerCase n \<in> (toLowerCase \<circ> sk_name) ` set rows"
  by (auto simp: name_taken_def iequals_def image_iff) metis+

lemma createSkill_inv:
  assumes inv: "skills_inv w"
  shows "skills_inv (snd (createSkill now n actor w))"
proof (cases "name_taken (trim n) (skills w)")
  case True
  then show ?thesis using inv by (simp add: createSkill_def Let_def bindM_readM)
next
  case False
  let ?w = "snd (createSkill now n actor w)"
  let ?s = "\<lparr>sk_id = env_uuid (env w) (uuid_next w), sk_name = trim n, sk_isActive = True\<rparr>"
  have w': "skills ?w = skills w @ [?s]" "user_skills ?w = user_skills w" "requirements ?w = requirements w"
    "users ?w = users w" "env ?w = env w" "uuid_next ?w = Suc (uuid_next w)"
    using False by (simp_all add: createSkill_def Let_def bindM_readM transactionM_def)
  have "keys_ok skills sk_id ?w"
    by (rule keys_ok_insert [OF _ w'(5) _ w'(1)]) (use inv w' in \<open>simp_all add: skills_inv_def\<close>)
  moreover have "keys_ok user_skills us_id ?w"
    by (rule keys_ok_grow [of _ _ w]) (use inv w' in \<open>simp_all add: skills_inv_def\<close>)
  moreover have "toLowerCase (trim n) \<notin> (toLowerCase \<circ> sk_name) ` set (skills w)" using False name_taken_iff by blast
  ultimately show ?thesis using inv w' by (auto simp: skills_inv_def holding_ok_def list_all_iff)
qed

text \<open>A unique column stays unique when the one row that changes gets a value no other row has.\<close>

lemma distinct_update_by:
  assumes "distinct (map key rows)" "distinct (map f rows)"
    "\<And>r. r \<in> set rows \<Longrightarrow> key r = k \<Longrightarrow> f (g r) = f r \<or> f (g r) \<notin> f ` {r \<in> set rows. key r \<noteq> k}"
  shows "distinct (map f (update_by key k g rows))"
  using assms
proof (induction rows)
  case (Cons r rows)
  have IH: "distinct (map f (update_by key k g rows))"
    using Cons.prems by (intro Cons.IH) (auto simp: image_iff)
  show ?case
  proof (cases "key r = k")
    case True
    then have others: "key r' \<noteq> k" if "r' \<in> set rows" for r' using Cons.prems(1) that by (auto simp: image_iff)
    then have "update_by key k g rows = rows" by (intro update_by_absent) auto
    then show ?thesis using True IH Cons.prems(2) Cons.prems(3) [of r] others by auto
  next
    case False
    have "f r \<notin> f ` set (update_by key k g rows)"
      using Cons.prems(2,3) False by (auto simp: in_set_update_by image_iff) (metis list.set_intros(2))+
    then show ?thesis using False IH by simp
  qed
qed simp

lemma update_skill_ids [simp]: "sk_id (patch_skill dto r) = sk_id r"
  by (simp add: patch_skill_def)

lemma updateSkill_inv:
  assumes inv: "skills_inv w" and valid: "usk_name dto \<noteq> Some []"
  shows "skills_inv (snd (updateSkill now i dto actor w))"
proof (cases "update_skill_checks i dto w")
  case (Inl err)
  then show ?thesis using inv by (simp add: updateSkill_def)
next
  case (Inr before)
  show ?thesis
  proof (cases "name_index i dto w")
    case (Inl err)
    then show ?thesis
      using inv Inr by (simp add: updateSkill_def bindM_readM transactionM_def rollback_def skills_inv_def keys_ok_def issued_def
          holding_ok_def list_all_iff)
  next
    case (Inr u)
    let ?w = "snd (updateSkill now i dto actor w)"
    have w': "skills ?w = update_by sk_id i (patch_skill dto) (skills w)" "user_skills ?w = user_skills w"
      "requirements ?w = requirements w" "users ?w = users w" "env ?w = env w" "uuid_next ?w = uuid_next w"
      using \<open>update_skill_checks i dto w = Inr before\<close> Inr
      by (simp_all add: updateSkill_def bindM_readM transactionM_def Let_def)
    have found: "find_by sk_id i (skills w) = Some before"
      using \<open>update_skill_checks i dto w = Inr before\<close>
      by (auto simp: update_skill_checks_def findSkillOrThrow_def split: option.splits if_splits)
    have ids: "distinct (map sk_id (skills w))" using inv by (simp add: skills_inv_def keys_ok_def)
    have fresh: "(toLowerCase \<circ> sk_name) (patch_skill dto r) = (toLowerCase \<circ> sk_name) r \<or>
        (toLowerCase \<circ> sk_name) (patch_skill dto r) \<notin> (toLowerCase \<circ> sk_name) ` {r \<in> set (skills w). sk_id r \<noteq> i}"
      if "r \<in> set (skills w)" "sk_id r = i" for r
    proof -
      have "r = before" using find_by_distinct [OF ids that(1)] that(2) found by simp
      then show ?thesis
        using \<open>update_skill_checks i dto w = Inr before\<close> valid found
        by (cases "usk_name dto")
          (auto simp: update_skill_checks_def findSkillOrThrow_def name_taken_iff patch_skill_def iequals_def split: if_splits)
    qed
    have names: "distinct (map (toLowerCase \<circ> sk_name) (skills ?w))"
      unfolding w'(1) by (rule distinct_update_by [OF ids]) (use inv fresh in \<open>auto simp: skills_inv_def\<close>)
    have idset: "map sk_id (skills ?w) = map sk_id (skills w)" unfolding w'(1) by (simp add: map_key_update_by)
    have keys: "keys_ok skills sk_id ?w" "keys_ok user_skills us_id ?w"
      using inv w' idset by (auto simp: skills_inv_def intro: keys_ok_same keys_ok_grow)
    have "sk_id ` set (skills ?w) = sk_id ` set (skills w)" using idset by (metis set_map)
    then show ?thesis using inv w' names keys by (simp add: skills_inv_def holding_ok_def list_all_iff)
  qed
qed

lemma assignSkill_inv:
  assumes inv: "skills_inv w"
  shows "skills_inv (snd (assignSkill now sk u actor w))"
proof (cases "assign_checks sk u w")
  case (Inl err)
  then show ?thesis using inv by (simp add: assignSkill_def)
next
  case (Inr v)
  let ?w = "snd (assignSkill now sk u actor w)"
  let ?a = "\<lparr>us_id = env_uuid (env w) (uuid_next w), us_userId = u, us_skillId = sk\<rparr>"
  have w': "skills ?w = skills w" "user_skills ?w = user_skills w @ [?a]" "requirements ?w = requirements w"
    "users ?w = users w" "env ?w = env w" "uuid_next ?w = Suc (uuid_next w)"
    using Inr by (simp_all add: assignSkill_def Let_def transactionM_def)
  have "holding_ok w ?a" "holding u sk w = None"
    using Inr by (auto simp: assign_checks_def findSkillOrThrow_def holding_ok_def split: option.splits if_splits
        dest: find_by_SomeD)
  then have new: "holding_ok ?w ?a" "(u, sk) \<notin> (\<lambda>a. (us_userId a, us_skillId a)) ` set (user_skills w)"
    using w' by (simp_all add: holding_def find_by_None_iff holding_ok_def)
  have "keys_ok user_skills us_id ?w"
    by (rule keys_ok_insert [OF _ w'(5) _ w'(2)]) (use inv w' in \<open>simp_all add: skills_inv_def\<close>)
  moreover have "keys_ok skills sk_id ?w"
    by (rule keys_ok_grow [of _ _ w]) (use inv w' in \<open>simp_all add: skills_inv_def\<close>)
  ultimately show ?thesis using inv w' new by (simp add: skills_inv_def holding_ok_def list_all_iff)
qed

lemma delete_by_part: "set (delete_by key k rows) \<subseteq> set rows" "distinct (map f rows) \<Longrightarrow> distinct (map f (delete_by key k rows))"
  by (auto simp: delete_by_def distinct_map_filter)

lemma unassignSkill_inv:
  assumes inv: "skills_inv w"
  shows "skills_inv (snd (unassignSkill now sk u actor w))"
proof (cases "holding u sk w")
  case None
  then show ?thesis using inv by (simp add: unassignSkill_def)
next
  case (Some a)
  let ?w = "snd (unassignSkill now sk u actor w)"
  have w': "skills ?w = skills w" "user_skills ?w = delete_by us_id (us_id a) (user_skills w)" "requirements ?w = requirements w"
    "users ?w = users w" "env ?w = env w" "uuid_next ?w = uuid_next w"
    using Some by (simp_all add: unassignSkill_def bindM_readM transactionM_def)
  have "keys_ok user_skills us_id ?w" "keys_ok skills sk_id ?w"
    using inv w' by (auto simp: skills_inv_def intro: keys_ok_delete keys_ok_grow)
  then show ?thesis
    using inv w' delete_by_part(2) [of "\<lambda>a. (us_userId a, us_skillId a)" "user_skills w"]
      delete_by_part(1) [of us_id "us_id a" "user_skills w"]
    by (auto simp: skills_inv_def holding_ok_def list_all_iff)
qed

lemma requirement_inv:
  assumes inv: "skills_inv w"
  shows "skills_inv (snd (createCategoryRequirement now c sk actor w))"
    "skills_inv (snd (deleteCategoryRequirement now i actor w))"
proof -
  show "skills_inv (snd (createCategoryRequirement now c sk actor w))"
  proof (cases "requirement_checks (trim c) sk w")
    case (Inl err)
    then show ?thesis using inv by (simp add: createCategoryRequirement_def Let_def)
  next
    case (Inr v)
    let ?w = "snd (createCategoryRequirement now c sk actor w)"
    let ?r = "\<lparr>cr_id = env_uuid (env w) (uuid_next w), cr_category = trim c, cr_skillId = sk\<rparr>"
    have w': "skills ?w = skills w" "user_skills ?w = user_skills w" "requirements ?w = requirements w @ [?r]"
      "users ?w = users w" "env ?w = env w" "uuid_next ?w = Suc (uuid_next w)"
      using Inr by (simp_all add: createCategoryRequirement_def Let_def transactionM_def)
    have "sk \<in> sk_id ` set (skills w)"
      "(toLowerCase (trim c), sk) \<notin> (\<lambda>r. (toLowerCase (cr_category r), cr_skillId r)) ` set (requirements w)"
      using Inr by (auto simp: requirement_checks_def findSkillOrThrow_def iequals_def split: option.splits if_splits
          dest: find_by_SomeD)
    moreover have "keys_ok user_skills us_id ?w" "keys_ok skills sk_id ?w"
      using inv w' by (auto simp: skills_inv_def intro: keys_ok_grow)
    ultimately show ?thesis using inv w' by (simp add: skills_inv_def holding_ok_def list_all_iff)
  qed
  show "skills_inv (snd (deleteCategoryRequirement now i actor w))"
  proof (cases "find_by cr_id i (requirements w)")
    case None
    then show ?thesis using inv by (simp add: deleteCategoryRequirement_def)
  next
    case (Some r)
    let ?w = "snd (deleteCategoryRequirement now i actor w)"
    have w': "skills ?w = skills w" "user_skills ?w = user_skills w" "requirements ?w = delete_by cr_id i (requirements w)"
      "users ?w = users w" "env ?w = env w" "uuid_next ?w = uuid_next w"
      using Some by (simp_all add: deleteCategoryRequirement_def bindM_readM transactionM_def)
    have "keys_ok user_skills us_id ?w" "keys_ok skills sk_id ?w"
      using inv w' by (auto simp: skills_inv_def intro: keys_ok_grow)
    then show ?thesis
      using inv w' delete_by_part(2) [of "\<lambda>r. (toLowerCase (cr_category r), cr_skillId r)" "requirements w"]
        delete_by_part(1) [of cr_id i "requirements w"]
      by (auto simp: skills_inv_def holding_ok_def list_all_iff)
  qed
qed

lemma skillCheck_None:
  "skillRoleChangeCheck w u role = None \<longleftrightarrow> isEngineerRole role \<or> (\<forall>a \<in> set (user_skills w). us_userId a \<noteq> u)"
proof -
  have empty: "sort_key f xs = [] \<longleftrightarrow> xs = []" for f :: "string \<Rightarrow> nat" and xs
    by (metis length_0_conv length_sort)
  show ?thesis by (auto simp: skillRoleChangeCheck_def Let_def empty filter_empty_conv)
qed

lemma skills_inv_role:
  assumes "skills_inv w" "skillRoleChangeCheck w u role = None"
  shows "skills_inv (w\<lparr>users := update_by u_id u (\<lambda>r. r\<lparr>u_role := role\<rparr>) (users w)\<rparr>)"
proof -
  let ?w = "w\<lparr>users := update_by u_id u (\<lambda>r. r\<lparr>u_role := role\<rparr>) (users w)\<rparr>"
  have "holding_ok ?w a" if "a \<in> set (user_skills w)" for a
  proof -
    have "holding_ok w a" using assms(1) that by (simp add: skills_inv_def list_all_iff)
    then show ?thesis
      using assms(2) that
      by (cases "us_userId a = u") (auto simp: holding_ok_def skillCheck_None find_by_update_by_same find_by_update_by_other)
  qed
  then show ?thesis using assms(1) by (simp add: skills_inv_def list_all_iff keys_ok_def issued_def)
qed

text \<open>The validator of the update rejects an empty name.\<close>

inductive skill_step :: "world \<Rightarrow> world \<Rightarrow> bool" where
  sk_create: "skill_step w (snd (createSkill now n actor w))"
| sk_update: "usk_name dto \<noteq> Some [] \<Longrightarrow> skill_step w (snd (updateSkill now i dto actor w))"
| sk_assign: "skill_step w (snd (assignSkill now s u actor w))"
| sk_unassign: "skill_step w (snd (unassignSkill now s u actor w))"
| sk_require: "skill_step w (snd (createCategoryRequirement now c s actor w))"
| sk_drop: "skill_step w (snd (deleteCategoryRequirement now i actor w))"
| sk_role: "skillRoleChangeCheck w u role = None \<Longrightarrow>
    skill_step w (w\<lparr>users := update_by u_id u (\<lambda>r. r\<lparr>u_role := role\<rparr>) (users w)\<rparr>)"

interpretation skill_register: invariant_system skill_step skills_inv
proof
  fix w w'
  assume "skill_step w w'" "skills_inv w"
  then show "skills_inv w'"
    by (cases rule: skill_step.cases)
      (simp_all add: createSkill_inv updateSkill_inv assignSkill_inv unassignSkill_inv requirement_inv skills_inv_role)
qed

section \<open>The properties\<close>

text \<open>
  The skill register stays sound through every sequence of its operations and of checked role
  changes: no two skills share a name up to case, nobody holds a skill twice, every holder is an
  engineer, and no category requires the same skill twice.
\<close>

theorem skill_register_sound:
  assumes "skill_step\<^sup>*\<^sup>* w w'" "skills_inv w"
  shows "distinct (map (toLowerCase \<circ> sk_name) (skills w')) \<and>
     distinct (map (\<lambda>a. (us_userId a, us_skillId a)) (user_skills w')) \<and> list_all (holding_ok w') (user_skills w') \<and>
     distinct (map (\<lambda>r. (toLowerCase (cr_category r), cr_skillId r)) (requirements w'))"
  using skill_register.run_inv [OF assms] by (simp add: skills_inv_def)

lemma staff_skills_inv: "skills_inv staff_world"
  by (auto simp: skills_inv_def keys_ok_def staff_world_def empty_world_def intro: injI nat_str_inj)

theorem skill_register_sound_witness:
  "distinct (map (toLowerCase \<circ> sk_name) (skills (snd (createSkill 5 '' Linux'' \<lparr>actorId = ''u-1'', correlationId = None\<rparr> staff_world))))"
  using skill_register_sound [OF r_into_rtranclp [of skill_step, OF sk_create] staff_skills_inv] by blast

end
