(* ===== verification/Routing.thy ===== *)
theory Routing
  imports Skills Incidents
begin

text \<open>
  Skill-based routing (\<^verbatim>\<open>routing/routing.service.ts\<close>) and the teams that own a category
  (\<^verbatim>\<open>routing/category-teams.service.ts\<close>): per-site settings, and the ranking of the engineers a ticket
  may be offered to. The ranking is compared with a description of who is a candidate that
  mentions neither rosters nor loops.
\<close>

section \<open>Teams\<close>

record team_roster =
  tm_id :: uuid
  tm_name :: string
  tm_memberIds :: "uuid list"

text \<open>\<open>SitesService.findGroupRoster\<close>: a group with its active members.\<close>

definition findGroupRoster :: "world \<Rightarrow> uuid \<Rightarrow> team_roster option" where
  "findGroupRoster w groupId =
     map_option (\<lambda>g. \<lparr>tm_id = g_id g, tm_name = g_name g,
         tm_memberIds = map gm_userId (filter (\<lambda>m. gm_groupId m = groupId \<and>
           (\<exists>u \<in> set (users w). u_id u = gm_userId m \<and> u_isActive u)) (members w))\<rparr>)
       (find_by g_id groupId (groups w))"

definition findForCategory :: "world \<Rightarrow> string \<Rightarrow> category_team option" where
  "findForCategory w category = List.find (\<lambda>t. iequals (ct_category t) (trim category)) (category_teams w)"

definition teamForCategory :: "world \<Rightarrow> string \<Rightarrow> team_roster option" where
  "teamForCategory w category =
     (case findForCategory w category of None \<Rightarrow> None | Some m \<Rightarrow> findGroupRoster w (ct_groupId m))"

definition rosterFor :: "world \<Rightarrow> uuid \<Rightarrow> team_roster option" where
  "rosterFor w groupId = findGroupRoster w groupId"

definition categoryTeamsList :: "world \<Rightarrow> (category_team \<times> string) list" where
  "categoryTeamsList w =
     List.map_filter (\<lambda>t. map_option (\<lambda>g. (t, g_name g)) (find_by g_id (ct_groupId t) (groups w)))
       (sort_key (\<lambda>t. env_collation (env w) (ct_category t)) (category_teams w))"

definition category_team_checks :: "string \<Rightarrow> uuid \<Rightarrow> world \<Rightarrow> http_error + team_roster" where
  "category_team_checks category groupId w =
     (if category = [] then Inl (BadRequest ''Category is required'')
      else case findGroupRoster w groupId of
        None \<Rightarrow> Inl (NotFound ''Support group not found'')
      | Some roster \<Rightarrow>
          (case findForCategory w category of
             Some _ \<Rightarrow> Inl (Conflict ''already owned by another team; remove that mapping first'')
           | None \<Rightarrow> Inr roster))"

definition categoryTeamCreate :: "instant \<Rightarrow> string \<Rightarrow> uuid \<Rightarrow> actor_context \<Rightarrow> (category_team \<times> string) op" where
  "categoryTeamCreate now dtoCategory groupId actor =
     (let category = trim dtoCategory in
      bindM (readM (category_team_checks category groupId)) (\<lambda>roster.
      transaction
        (bindM freshId (\<lambda>i.
         let t = \<lparr>ct_id = i, ct_category = category, ct_groupId = groupId\<rparr> in
         bindM (modifyM (\<lambda>w. w\<lparr>category_teams := category_teams w @ [t]\<rparr>)) (\<lambda>_.
         bindM (auditRecord now (Some (actorId actor)) ''CategoryTeam'' i ''CREATE'' None (Some (SnapCategoryTeam t))
                  (correlationId actor)) (\<lambda>_. ret (t, tm_name roster)))))))"

definition categoryTeamRemove :: "instant \<Rightarrow> uuid \<Rightarrow> actor_context \<Rightarrow> unit op" where
  "categoryTeamRemove now i actor =
     bindM (readM (\<lambda>w. case find_by ct_id i (category_teams w) of
                         None \<Rightarrow> Inl (NotFound ''Category team mapping not found'')
                       | Some t \<Rightarrow> Inr t)) (\<lambda>existing.
     transaction
       (bindM (modifyM (\<lambda>w. w\<lparr>category_teams := delete_by ct_id i (category_teams w)\<rparr>)) (\<lambda>_.
        auditRecord now (Some (actorId actor)) ''CategoryTeam'' i ''DELETE'' (Some (SnapCategoryTeam existing)) None
          (correlationId actor))))"

section \<open>Settings\<close>

record routing_settings =
  rs_offerTimeout :: "priority \<Rightarrow> int"
  rs_workloadWeight :: "priority \<Rightarrow> int"

record routing_policy_view = routing_settings +
  rv_siteId :: uuid
  rv_autoAssignEnabled :: bool

fun default_timeout :: "priority \<Rightarrow> int" where
  "default_timeout P1 = 2"
| "default_timeout P2 = 5"
| "default_timeout P3 = 10"
| "default_timeout P4 = 15"

fun default_weight :: "priority \<Rightarrow> int" where
  "default_weight P1 = 4"
| "default_weight P2 = 3"
| "default_weight P3 = 2"
| "default_weight P4 = 1"

definition DEFAULT_ROUTING_SETTINGS :: routing_settings where
  "DEFAULT_ROUTING_SETTINGS = \<lparr>rs_offerTimeout = default_timeout, rs_workloadWeight = default_weight\<rparr>"

definition offerTimeoutFor :: "routing_settings \<Rightarrow> priority \<Rightarrow> int" where
  "offerTimeoutFor settings p = rs_offerTimeout settings p"

definition weightFor :: "routing_settings \<Rightarrow> priority \<Rightarrow> int" where
  "weightFor settings p = rs_workloadWeight settings p"

definition settingsOf :: "routing_policy option \<Rightarrow> routing_settings" where
  "settingsOf row =
     (case row of None \<Rightarrow> DEFAULT_ROUTING_SETTINGS
      | Some r \<Rightarrow> \<lparr>rs_offerTimeout = rp_offerTimeout r, rs_workloadWeight = rp_workloadWeight r\<rparr>)"

definition getSettings :: "world \<Rightarrow> uuid \<Rightarrow> routing_settings" where
  "getSettings w siteId = settingsOf (find_by rp_siteId siteId (policies w))"

definition policy_view :: "uuid \<Rightarrow> routing_policy option \<Rightarrow> routing_policy_view" where
  "policy_view siteId row =
     \<lparr>rs_offerTimeout = rs_offerTimeout (settingsOf row), rs_workloadWeight = rs_workloadWeight (settingsOf row),
      rv_siteId = siteId, rv_autoAssignEnabled = (case row of None \<Rightarrow> False | Some r \<Rightarrow> rp_autoAssignEnabled r)\<rparr>"

definition routingSiteAccess :: "auth_user \<Rightarrow> uuid \<Rightarrow> world \<Rightarrow> http_error + unit" where
  "routingSiteAccess u siteId w =
     (if canAccessSite w u siteId then Inr () else Inl (Forbidden ''You do not have access to this site''))"

definition getPolicy :: "uuid \<Rightarrow> auth_user \<Rightarrow> world \<Rightarrow> http_error + routing_policy_view" where
  "getPolicy siteId u w =
     (case routingSiteAccess u siteId w of
        Inl e \<Rightarrow> Inl e
      | Inr _ \<Rightarrow> Inr (policy_view siteId (find_by rp_siteId siteId (policies w))))"

record update_policy_dto =
  upd_autoAssignEnabled :: bool
  upd_offerTimeout :: "priority \<Rightarrow> int option"
  upd_workloadWeight :: "priority \<Rightarrow> int option"

definition patch_policy_row :: "update_policy_dto \<Rightarrow> routing_policy \<Rightarrow> routing_policy" where
  "patch_policy_row dto r = r\<lparr>rp_autoAssignEnabled := upd_autoAssignEnabled dto,
     rp_offerTimeout := (\<lambda>p. patched (upd_offerTimeout dto p) (rp_offerTimeout r p)),
     rp_workloadWeight := (\<lambda>p. patched (upd_workloadWeight dto p) (rp_workloadWeight r p))\<rparr>"

definition default_policy_row :: "uuid \<Rightarrow> uuid \<Rightarrow> routing_policy" where
  "default_policy_row i siteId = \<lparr>rp_id = i, rp_siteId = siteId, rp_autoAssignEnabled = False,
     rp_offerTimeout = default_timeout, rp_workloadWeight = default_weight\<rparr>"

text \<open>\<open>upsert\<close> on the unique site: the row is patched, or created from the column defaults.\<close>

definition upsertPolicy :: "uuid \<Rightarrow> update_policy_dto \<Rightarrow> routing_policy op" where
  "upsertPolicy siteId dto =
     bindM (getM (\<lambda>w. find_by rp_siteId siteId (policies w))) (\<lambda>row.
     case row of
       Some r \<Rightarrow>
         bindM (modifyM (\<lambda>w. w\<lparr>policies := update_by rp_siteId siteId (patch_policy_row dto) (policies w)\<rparr>)) (\<lambda>_.
         ret (patch_policy_row dto r))
     | None \<Rightarrow>
         bindM freshId (\<lambda>i.
         let r = patch_policy_row dto (default_policy_row i siteId) in
         bindM (modifyM (\<lambda>w. w\<lparr>policies := policies w @ [r]\<rparr>)) (\<lambda>_. ret r)))"

definition setPolicy :: "instant \<Rightarrow> uuid \<Rightarrow> update_policy_dto \<Rightarrow> auth_user \<Rightarrow> actor_context \<Rightarrow> routing_policy_view op" where
  "setPolicy now siteId dto u actor =
     bindM (readM (routingSiteAccess u siteId)) (\<lambda>_.
     bindM (readM (\<lambda>w. if siteId \<in> s_id ` set (sites w) then Inr () else Inl (NotFound ''Site not found''))) (\<lambda>_.
     bindM (getM (\<lambda>w. find_by rp_siteId siteId (policies w))) (\<lambda>before.
     bindM (transaction
       (bindM (upsertPolicy siteId dto) (\<lambda>after.
        bindM (auditRecord now (Some (actorId actor)) ''RoutingPolicy'' (rp_id after)
                 (if before = None then ''CREATE'' else ''UPDATE'') (map_option SnapPolicy before)
                 (Some (SnapPolicy after)) (correlationId actor)) (\<lambda>_. ret after)))) (\<lambda>after.
     ret (policy_view siteId (Some after))))))"

section \<open>Ranking\<close>

datatype empty_reason = INCIDENT_NOT_OPEN | NO_SKILL_REQUIREMENTS | NO_ENGINEERS_ON_SHIFT | NO_QUALIFIED_ENGINEER

record routing_candidate =
  cd_userId :: uuid
  cd_displayName :: string
  cd_email :: string
  cd_shiftLabel :: string
  cd_isOnCall :: bool
  cd_openIncidentCount :: nat
  cd_workloadScore :: int
  cd_isCurrentOwner :: bool
  cd_inTeam :: bool

record routing_suggestions =
  rg_incidentId :: uuid
  rg_category :: string
  rg_asOf :: instant
  rg_requiredSkills :: "(uuid \<times> string) list"
  rg_candidates :: "routing_candidate list"
  rg_reason :: "empty_reason option"
  rg_uncoveredSkills :: "(uuid \<times> string) list"
  rg_team :: "(uuid \<times> string) option"
  rg_teamFallback :: bool

definition skill_ref :: "skill \<Rightarrow> uuid \<times> string" where
  "skill_ref s = (sk_id s, sk_name s)"

text \<open>A \<open>Map\<close> keyed by the engineer, in order of first insertion.\<close>

definition dedupe_step :: "roster_entry list \<Rightarrow> roster_entry \<Rightarrow> roster_entry list" where
  "dedupe_step acc e =
     (case find_by re_userId (re_userId e) acc of
        None \<Rightarrow> acc @ [e]
      | Some x \<Rightarrow> (if re_isOnCall x \<and> \<not> re_isOnCall e then update_by re_userId (re_userId e) (\<lambda>_. e) acc else acc))"

definition dedupeByEngineer :: "roster_entry list \<Rightarrow> roster_entry list" where
  "dedupeByEngineer entries = foldl dedupe_step [] entries"

definition all_priorities :: "priority list" where
  "all_priorities = [P1, P2, P3, P4]"

definition candidate_of ::
  "routing_settings \<Rightarrow> (uuid \<Rightarrow> priority \<Rightarrow> nat) \<Rightarrow> incident \<Rightarrow> uuid list \<Rightarrow> roster_entry \<Rightarrow> routing_candidate" where
  "candidate_of settings workload inc teamIds e =
     \<lparr>cd_userId = re_userId e, cd_displayName = re_displayName e, cd_email = re_email e, cd_shiftLabel = re_label e,
      cd_isOnCall = re_isOnCall e,
      cd_openIncidentCount = sum_list (map (workload (re_userId e)) all_priorities),
      cd_workloadScore = sum_list (map (\<lambda>p. int (workload (re_userId e) p) * weightFor settings p) all_priorities),
      cd_isCurrentOwner = (i_ownerUserId inc = Some (re_userId e)),
      cd_inTeam = (re_userId e \<in> set teamIds)\<rparr>"

text \<open>The comparator, as a key: on-call last, then workload, then number of tickets, then name.\<close>

definition rank_key :: "(string \<Rightarrow> nat) \<Rightarrow> routing_candidate \<Rightarrow> nat \<times> int \<times> nat \<times> nat" where
  "rank_key collate c =
     ((if cd_isOnCall c then 1 else 0), cd_workloadScore c, cd_openIncidentCount c, collate (cd_displayName c))"

definition holds_all :: "(uuid \<Rightarrow> uuid list option) \<Rightarrow> skill list \<Rightarrow> uuid \<Rightarrow> bool" where
  "holds_all skillsByUser required u \<longleftrightarrow>
     list_all (\<lambda>s. case skillsByUser u of None \<Rightarrow> False | Some held \<Rightarrow> sk_id s \<in> set held) required"

definition ticket_team :: "world \<Rightarrow> incident \<Rightarrow> team_roster option" where
  "ticket_team w inc =
     (if truthy (i_ownerGroupId inc) then rosterFor w (the (i_ownerGroupId inc)) else teamForCategory w (i_category inc))"

definition rank :: "world \<Rightarrow> incident \<Rightarrow> instant \<Rightarrow> routing_suggestions" where
  "rank w inc now =
     (let result = \<lparr>rg_incidentId = i_id inc, rg_category = i_category inc, rg_asOf = now, rg_requiredSkills = [],
            rg_candidates = [], rg_reason = None, rg_uncoveredSkills = [], rg_team = None, rg_teamFallback = False\<rparr>
      in if i_status inc \<notin> set OPEN_STATUSES then result\<lparr>rg_reason := Some INCIDENT_NOT_OPEN\<rparr>
      else let required = findRequiredSkillsForCategory w (i_category inc);
               result1 = result\<lparr>rg_requiredSkills := map skill_ref required\<rparr>
      in if required = [] then result1\<lparr>rg_reason := Some NO_SKILL_REQUIREMENTS\<rparr>
      else let roster = getLiveRoster w \<lparr>sq_siteId = Some (i_siteId inc), sq_userId = None\<rparr> None now;
               onShift = dedupeByEngineer (lr_working roster @ lr_onCall roster)
      in if onShift = [] then result1\<lparr>rg_reason := Some NO_ENGINEERS_ON_SHIFT\<rparr>
      else let skillsByUser = findSkillIdsByUser w (map re_userId onShift);
               qualified = filter (\<lambda>e. holds_all skillsByUser required (re_userId e)) onShift
      in if qualified = []
         then result1\<lparr>rg_reason := Some NO_QUALIFIED_ENGINEER,
                rg_uncoveredSkills := map skill_ref (filter (\<lambda>s. \<not> (\<exists>e \<in> set onShift.
                  holds_all skillsByUser [s] (re_userId e))) required)\<rparr>
      else let team = ticket_team w inc;
               teamIds = (case team of None \<Rightarrow> [] | Some t \<Rightarrow> tm_memberIds t);
               inTeam = filter (\<lambda>e. re_userId e \<in> set teamIds) qualified;
               base = (if team \<noteq> None \<and> inTeam \<noteq> [] then inTeam else qualified);
               working = filter (\<lambda>e. \<not> re_isOnCall e) base;
               pool = (if i_priority inc = P1 \<or> working = [] then base else working);
               settings = getSettings w (i_siteId inc);
               workload = countOpenOwnedByPriority w (map re_userId pool)
      in result1\<lparr>rg_team := map_option (\<lambda>t. (tm_id t, tm_name t)) team,
           rg_teamFallback := (team \<noteq> None \<and> inTeam = []),
           rg_candidates := sort_key (rank_key (env_collation (env w)))
             (map (candidate_of settings workload inc teamIds) pool)\<rparr>)"

definition suggestForIncident :: "uuid \<Rightarrow> auth_user \<Rightarrow> instant \<Rightarrow> world \<Rightarrow> http_error + routing_suggestions" where
  "suggestForIncident i u now w =
     (case findOneScoped i u w of Inl e \<Rightarrow> Inl e | Inr inc \<Rightarrow> Inr (rank w inc now))"

section \<open>One entry per engineer\<close>

definition deduped :: "roster_entry list \<Rightarrow> roster_entry list \<Rightarrow> bool" where
  "deduped acc es \<longleftrightarrow> distinct (map re_userId acc) \<and> set acc \<subseteq> set es \<and> re_userId ` set acc = re_userId ` set es \<and>
     (\<forall>a \<in> set acc. re_isOnCall a \<longrightarrow> (\<forall>e \<in> set es. re_userId e = re_userId a \<longrightarrow> re_isOnCall e))"

lemma deduped_step:
  assumes d: "deduped acc es"
  shows "deduped (dedupe_step acc e) (es @ [e])"
proof (cases "find_by re_userId (re_userId e) acc")
  case None
  then have "re_userId e \<notin> re_userId ` set acc" by (simp add: find_by_None_iff)
  moreover have "re_userId ` set acc = re_userId ` set es" using d by (simp add: deduped_def)
  ultimately show ?thesis using d None by (auto simp: deduped_def dedupe_step_def) (metis image_eqI)+
next
  case (Some x)
  then have x: "x \<in> set acc" "re_userId x = re_userId e" using find_by_SomeD by fastforce+
  have "inj_on re_userId (set acc)" using d by (simp add: deduped_def distinct_map)
  then have same: "y = x" if "y \<in> set acc" "re_userId y = re_userId e" for y using that x by (metis inj_onD)
  show ?thesis
  proof (cases "re_isOnCall x \<and> \<not> re_isOnCall e")
    case True
    let ?acc = "update_by re_userId (re_userId e) (\<lambda>_. e) acc"
    have step: "dedupe_step acc e = ?acc" using Some True by (simp add: dedupe_step_def)
    have ids: "map re_userId ?acc = map re_userId acc" by (auto simp: update_by_def)
    have dist: "distinct (map re_userId ?acc)" using d unfolding ids deduped_def by blast
    have "re_userId ` set ?acc = re_userId ` set acc" using arg_cong [OF ids, of set] by simp
    moreover have "re_userId e \<in> re_userId ` set acc" using x by (metis image_eqI)
    ultimately have "re_userId ` set ?acc = re_userId ` set (es @ [e])" using d unfolding deduped_def by auto
    then show ?thesis
      unfolding step deduped_def using d dist True by (auto simp: deduped_def in_set_update_by)
  next
    case False
    then have step: "dedupe_step acc e = acc" using Some by (auto simp: dedupe_step_def)
    have "re_userId ` set (es @ [e]) = re_userId ` set es" using d x by (auto simp: deduped_def) (metis image_eqI)
    then show ?thesis unfolding step using d False same by (auto simp: deduped_def)
  qed
qed

lemma dedupe_correct: "deduped (dedupeByEngineer es) es"
proof (induction es rule: rev_induct)
  case Nil
  then show ?case by (simp add: dedupeByEngineer_def deduped_def)
next
  case (snoc e es)
  then show ?case using deduped_step [of "dedupeByEngineer es" es e] by (simp add: dedupeByEngineer_def)
qed

section \<open>Who is a candidate\<close>

definition on_shift :: "world \<Rightarrow> instant \<Rightarrow> uuid \<Rightarrow> uuid \<Rightarrow> bool \<Rightarrow> bool" where
  "on_shift w now site u oncall \<longleftrightarrow>
     (\<exists>s \<in> set (shifts w). sh_userId s = u \<and> sh_siteId s = site \<and> sh_isActive s \<and> sh_isOnCall s = oncall \<and>
        roster_entry_of w now s \<noteq> None)"

definition can_take :: "world \<Rightarrow> instant \<Rightarrow> incident \<Rightarrow> uuid \<Rightarrow> bool" where
  "can_take w now inc u \<longleftrightarrow> (\<exists>oncall. on_shift w now (i_siteId inc) u oncall) \<and>
     (\<forall>k \<in> set (findRequiredSkillsForCategory w (i_category inc)).
        \<exists>a \<in> set (user_skills w). us_userId a = u \<and> us_skillId a = sk_id k)"

text \<open>The ticket's team comes first, when one of its members can take the ticket.\<close>

definition team_first :: "world \<Rightarrow> instant \<Rightarrow> incident \<Rightarrow> uuid \<Rightarrow> bool" where
  "team_first w now inc u \<longleftrightarrow> can_take w now inc u \<and>
     (\<forall>t. ticket_team w inc = Some t \<and> (\<exists>v \<in> set (tm_memberIds t). can_take w now inc v) \<longrightarrow> u \<in> set (tm_memberIds t))"

definition is_candidate :: "world \<Rightarrow> instant \<Rightarrow> incident \<Rightarrow> uuid \<Rightarrow> bool" where
  "is_candidate w now inc u \<longleftrightarrow> team_first w now inc u \<and>
     (i_priority inc = P1 \<or> on_shift w now (i_siteId inc) u False \<or>
      \<not> (\<exists>v. team_first w now inc v \<and> on_shift w now (i_siteId inc) v False))"

definition on_shift_entries :: "world \<Rightarrow> instant \<Rightarrow> incident \<Rightarrow> roster_entry list" where
  "on_shift_entries w now inc =
     (let roster = getLiveRoster w \<lparr>sq_siteId = Some (i_siteId inc), sq_userId = None\<rparr> None now
      in dedupeByEngineer (lr_working roster @ lr_onCall roster))"

lemma roster_entries_iff:
  assumes "i_siteId inc \<noteq> []"
  shows "e \<in> set (lr_working (getLiveRoster w \<lparr>sq_siteId = Some (i_siteId inc), sq_userId = None\<rparr> None now) @
       lr_onCall (getLiveRoster w \<lparr>sq_siteId = Some (i_siteId inc), sq_userId = None\<rparr> None now)) \<longleftrightarrow>
     (\<exists>s \<in> set (shifts w). sh_siteId s = i_siteId inc \<and> sh_isActive s \<and> roster_entry_of w now s = Some e)"
  unfolding roster_in_where using assms by (auto simp: shift_where_def shift_siteFilter_def matches_def)

lemma in_image_split: "u \<in> f ` S \<longleftrightarrow> (\<exists>b. \<exists>e \<in> S. f e = u \<and> g e = b)"
  by auto

lemma on_shift_entries_facts:
  assumes "i_siteId inc \<noteq> []"
  shows "distinct (map re_userId (on_shift_entries w now inc))"
    "u \<in> re_userId ` set (on_shift_entries w now inc) \<longleftrightarrow> (\<exists>oncall. on_shift w now (i_siteId inc) u oncall)"
    "e \<in> set (on_shift_entries w now inc) \<Longrightarrow> re_isOnCall e \<longleftrightarrow> \<not> on_shift w now (i_siteId inc) (re_userId e) False"
proof -
  let ?r = "getLiveRoster w \<lparr>sq_siteId = Some (i_siteId inc), sq_userId = None\<rparr> None now"
  let ?es = "lr_working ?r @ lr_onCall ?r"
  have d: "deduped (on_shift_entries w now inc) ?es"
    using dedupe_correct [of ?es] by (simp add: on_shift_entries_def Let_def)
  show "distinct (map re_userId (on_shift_entries w now inc))" using d by (simp add: deduped_def)
  have es: "(\<exists>e \<in> set ?es. re_userId e = u \<and> re_isOnCall e = oc) \<longleftrightarrow> on_shift w now (i_siteId inc) u oc" for u oc
    unfolding Bex_def [of "set ?es"] roster_entries_iff [OF assms] on_shift_def
    using roster_entry_facts(1,3) by fastforce
  have ids: "re_userId ` set (on_shift_entries w now inc) = re_userId ` set ?es" using d by (simp add: deduped_def)
  show "u \<in> re_userId ` set (on_shift_entries w now inc) \<longleftrightarrow> (\<exists>oncall. on_shift w now (i_siteId inc) u oncall)"
    unfolding ids in_image_split [of u re_userId _ re_isOnCall] es ..
  assume e: "e \<in> set (on_shift_entries w now inc)"
  then have "e \<in> set ?es" "re_isOnCall e \<Longrightarrow> e' \<in> set ?es \<Longrightarrow> re_userId e' = re_userId e \<Longrightarrow> re_isOnCall e'" for e'
    using d unfolding deduped_def by blast+
  then show "re_isOnCall e \<longleftrightarrow> \<not> on_shift w now (i_siteId inc) (re_userId e) False"
    unfolding es [of "re_userId e" False, symmetric] by blast
qed

lemma holds_all_iff:
  assumes "u \<in> set ids"
  shows "holds_all (findSkillIdsByUser w ids) required u \<longleftrightarrow>
     (\<forall>k \<in> set required. \<exists>a \<in> set (user_skills w). us_userId a = u \<and> us_skillId a = sk_id k)"
proof -
  have "(case findSkillIdsByUser w ids u of None \<Rightarrow> False | Some held \<Rightarrow> k \<in> set held) \<longleftrightarrow>
      (\<exists>a \<in> set (user_skills w). us_userId a = u \<and> us_skillId a = k)" for k
    using assms by (auto simp: findSkillIdsByUser_def Let_def filter_empty_conv)
  then show ?thesis by (simp add: holds_all_def list_all_iff)
qed

definition qualified_entries :: "world \<Rightarrow> instant \<Rightarrow> incident \<Rightarrow> roster_entry list" where
  "qualified_entries w now inc =
     filter (\<lambda>e. holds_all (findSkillIdsByUser w (map re_userId (on_shift_entries w now inc)))
               (findRequiredSkillsForCategory w (i_category inc)) (re_userId e)) (on_shift_entries w now inc)"

lemma qualified_iff:
  assumes "i_siteId inc \<noteq> []"
  shows "u \<in> re_userId ` set (qualified_entries w now inc) \<longleftrightarrow> can_take w now inc u"
proof -
  have "u \<in> re_userId ` set (qualified_entries w now inc) \<longleftrightarrow>
      (\<exists>e \<in> set (on_shift_entries w now inc). re_userId e = u \<and>
        holds_all (findSkillIdsByUser w (map re_userId (on_shift_entries w now inc)))
               (findRequiredSkillsForCategory w (i_category inc)) u)"
    by (auto simp: qualified_entries_def)
  also have "\<dots> \<longleftrightarrow> u \<in> re_userId ` set (on_shift_entries w now inc) \<and>
      (\<forall>k \<in> set (findRequiredSkillsForCategory w (i_category inc)).
        \<exists>a \<in> set (user_skills w). us_userId a = u \<and> us_skillId a = sk_id k)"
    using holds_all_iff [of u "map re_userId (on_shift_entries w now inc)"] by (auto simp: image_iff)
  finally show ?thesis unfolding can_take_def on_shift_entries_facts(2) [OF assms] .
qed

definition base_entries :: "world \<Rightarrow> instant \<Rightarrow> incident \<Rightarrow> roster_entry list" where
  "base_entries w now inc =
     (let q = qualified_entries w now inc;
          teamIds = (case ticket_team w inc of None \<Rightarrow> [] | Some t \<Rightarrow> tm_memberIds t);
          inTeam = filter (\<lambda>e. re_userId e \<in> set teamIds) q
      in if ticket_team w inc \<noteq> None \<and> inTeam \<noteq> [] then inTeam else q)"

lemma nonempty_image: "xs \<noteq> [] \<longleftrightarrow> (\<exists>u. u \<in> f ` set xs)"
  by (cases xs) auto

lemma base_iff:
  assumes "i_siteId inc \<noteq> []"
  shows "u \<in> re_userId ` set (base_entries w now inc) \<longleftrightarrow> team_first w now inc u"
proof (cases "ticket_team w inc")
  case None
  then show ?thesis using qualified_iff [OF assms, of u] by (simp add: base_entries_def Let_def team_first_def)
next
  case (Some t)
  let ?in = "filter (\<lambda>e. re_userId e \<in> set (tm_memberIds t)) (qualified_entries w now inc)"
  have in_iff: "u \<in> re_userId ` set ?in \<longleftrightarrow> can_take w now inc u \<and> u \<in> set (tm_memberIds t)" for u
    unfolding qualified_iff [OF assms, symmetric] by auto
  have "?in \<noteq> [] \<longleftrightarrow> (\<exists>v \<in> set (tm_memberIds t). can_take w now inc v)"
    unfolding nonempty_image [of _ re_userId] in_iff by auto
  then show ?thesis
    using Some in_iff [of u] qualified_iff [OF assms, of u] by (auto simp: base_entries_def Let_def team_first_def)
qed

definition pool_entries :: "world \<Rightarrow> instant \<Rightarrow> incident \<Rightarrow> roster_entry list" where
  "pool_entries w now inc =
     (let base = base_entries w now inc; working = filter (\<lambda>e. \<not> re_isOnCall e) base
      in if i_priority inc = P1 \<or> working = [] then base else working)"

lemma entry_sets:
  "set (base_entries w now inc) \<subseteq> set (on_shift_entries w now inc)"
  "set (pool_entries w now inc) \<subseteq> set (base_entries w now inc)"
  by (auto simp: base_entries_def qualified_entries_def pool_entries_def Let_def split: if_splits)

lemma pool_iff:
  assumes "i_siteId inc \<noteq> []"
  shows "u \<in> re_userId ` set (pool_entries w now inc) \<longleftrightarrow> is_candidate w now inc u"
proof -
  let ?b = "base_entries w now inc"
  let ?wk = "filter (\<lambda>e. \<not> re_isOnCall e) ?b"
  have onc: "re_isOnCall e \<longleftrightarrow> \<not> on_shift w now (i_siteId inc) (re_userId e) False" if "e \<in> set ?b" for e
    using on_shift_entries_facts(3) [OF assms] entry_sets(1) that by blast
  have wk_iff: "u \<in> re_userId ` set ?wk \<longleftrightarrow> team_first w now inc u \<and> on_shift w now (i_siteId inc) u False" for u
    unfolding base_iff [OF assms, symmetric] using onc by auto
  have "?wk = [] \<longleftrightarrow> \<not> (\<exists>v. team_first w now inc v \<and> on_shift w now (i_siteId inc) v False)"
    using nonempty_image [of ?wk re_userId] unfolding wk_iff by blast
  then show ?thesis
    using wk_iff [of u] base_iff [OF assms, of u] by (auto simp: pool_entries_def Let_def is_candidate_def)
qed

lemma pool_distinct: "i_siteId inc \<noteq> [] \<Longrightarrow> distinct (map re_userId (pool_entries w now inc))"
  using on_shift_entries_facts(1) [of inc w now]
  by (auto simp: pool_entries_def base_entries_def qualified_entries_def Let_def distinct_map_filter)

text \<open>The ranking is the pool, sorted.\<close>

lemma rank_pool:
  assumes "i_status inc \<in> set OPEN_STATUSES" "findRequiredSkillsForCategory w (i_category inc) \<noteq> []"
  shows "\<exists>f. rg_candidates (rank w inc now) = sort_key (rank_key (env_collation (env w))) (map f (pool_entries w now inc)) \<and>
     (\<forall>e. cd_userId (f e) = re_userId e \<and> cd_isOnCall (f e) = re_isOnCall e)"
    "rg_reason (rank w inc now) = None \<longleftrightarrow> pool_entries w now inc \<noteq> []"
proof -
  let ?r = "getLiveRoster w \<lparr>sq_siteId = Some (i_siteId inc), sq_userId = None\<rparr> None now"
  let ?on = "on_shift_entries w now inc" and ?q = "qualified_entries w now inc"
  let ?ids = "case ticket_team w inc of None \<Rightarrow> [] | Some t \<Rightarrow> tm_memberIds t"
  let ?f = "candidate_of (getSettings w (i_siteId inc))
    (countOpenOwnedByPriority w (map re_userId (pool_entries w now inc))) inc ?ids"
  have on: "dedupeByEngineer (lr_working ?r @ lr_onCall ?r) = ?on" by (simp add: on_shift_entries_def Let_def)
  have q: "filter (\<lambda>e. holds_all (findSkillIdsByUser w (map re_userId ?on))
      (findRequiredSkillsForCategory w (i_category inc)) (re_userId e)) ?on = ?q" by (simp add: qualified_entries_def)
  have base: "(if ticket_team w inc \<noteq> None \<and> filter (\<lambda>e. re_userId e \<in> set ?ids) ?q \<noteq> []
      then filter (\<lambda>e. re_userId e \<in> set ?ids) ?q else ?q) = base_entries w now inc"
    by (simp add: base_entries_def Let_def)
  have pool: "(if i_priority inc = P1 \<or> filter (\<lambda>e. \<not> re_isOnCall e) (base_entries w now inc) = []
      then base_entries w now inc else filter (\<lambda>e. \<not> re_isOnCall e) (base_entries w now inc)) = pool_entries w now inc"
    by (simp add: pool_entries_def Let_def)
  have empty: "?q = [] \<Longrightarrow> pool_entries w now inc = []" "?on = [] \<Longrightarrow> ?q = []"
    by (simp_all add: pool_entries_def base_entries_def qualified_entries_def Let_def)
  have full: "?q \<noteq> [] \<Longrightarrow> pool_entries w now inc \<noteq> []" by (auto simp: pool_entries_def base_entries_def Let_def)
  have "rg_candidates (rank w inc now) = sort_key (rank_key (env_collation (env w))) (map ?f (pool_entries w now inc)) \<and>
     (rg_reason (rank w inc now) = None \<longleftrightarrow> pool_entries w now inc \<noteq> [])"
  proof (cases "?q = []")
    case True
    then show ?thesis
      using assms empty unfolding rank_def Let_def on q by (cases "?on = []") simp_all
  next
    case False
    moreover from False have "?on \<noteq> []" using empty(2) by blast
    ultimately show ?thesis using assms full unfolding rank_def Let_def on q base pool by simp
  qed
  moreover have "\<forall>e. cd_userId (?f e) = re_userId e \<and> cd_isOnCall (?f e) = re_isOnCall e" by (simp add: candidate_of_def)
  ultimately show "\<exists>f. rg_candidates (rank w inc now) = sort_key (rank_key (env_collation (env w))) (map f (pool_entries w now inc)) \<and>
     (\<forall>e. cd_userId (f e) = re_userId e \<and> cd_isOnCall (f e) = re_isOnCall e)"
    "rg_reason (rank w inc now) = None \<longleftrightarrow> pool_entries w now inc \<noteq> []" by blast+
qed

section \<open>Saving and reading a policy\<close>

lemma patch_policy_simps [simp]:
  "rp_siteId (patch_policy_row dto r) = rp_siteId r" "rp_id (patch_policy_row dto r) = rp_id r"
  "rp_autoAssignEnabled (patch_policy_row dto r) = upd_autoAssignEnabled dto"
  "rp_offerTimeout (patch_policy_row dto r) p = patched (upd_offerTimeout dto p) (rp_offerTimeout r p)"
  "rp_workloadWeight (patch_policy_row dto r) p = patched (upd_workloadWeight dto p) (rp_workloadWeight r p)"
  by (simp_all add: patch_policy_row_def)

lemma default_policy_site [simp]: "rp_siteId (default_policy_row i siteId) = siteId"
  by (simp add: default_policy_row_def)

lemma upsertPolicy_facts:
  "\<exists>r w'. upsertPolicy siteId dto w = (Inr r, w') \<and> find_by rp_siteId siteId (policies w') = Some r \<and>
     (\<forall>s. s \<noteq> siteId \<longrightarrow> find_by rp_siteId s (policies w') = find_by rp_siteId s (policies w)) \<and>
     site_accesses w' = site_accesses w \<and>
     r = patch_policy_row dto (case find_by rp_siteId siteId (policies w) of None \<Rightarrow> default_policy_row (env_uuid (env w) (uuid_next w)) siteId
                               | Some q \<Rightarrow> q)"
proof (cases "find_by rp_siteId siteId (policies w)")
  case None
  then show ?thesis by (simp add: upsertPolicy_def Let_def find_by_append split: option.split)
next
  case (Some q)
  then show ?thesis
    by (simp add: upsertPolicy_def find_by_update_by_same find_by_update_by_other)
qed

lemma setPolicy_InrD:
  assumes "setPolicy now siteId dto u actor w = (Inr v, w')"
  obtains r where "canAccessSite w u siteId" "canAccessSite w' u siteId" "v = policy_view siteId (Some r)"
    "find_by rp_siteId siteId (policies w') = Some r"
    "\<And>s. s \<noteq> siteId \<Longrightarrow> find_by rp_siteId s (policies w') = find_by rp_siteId s (policies w)"
    "r = patch_policy_row dto (case find_by rp_siteId siteId (policies w) of None \<Rightarrow> default_policy_row (env_uuid (env w) (uuid_next w)) siteId
                               | Some q \<Rightarrow> q)"
proof -
  obtain r w1 where up: "upsertPolicy siteId dto w = (Inr r, w1)" "find_by rp_siteId siteId (policies w1) = Some r"
    "\<And>s. s \<noteq> siteId \<Longrightarrow> find_by rp_siteId s (policies w1) = find_by rp_siteId s (policies w)"
    "site_accesses w1 = site_accesses w"
    "r = patch_policy_row dto (case find_by rp_siteId siteId (policies w) of None \<Rightarrow> default_policy_row (env_uuid (env w) (uuid_next w)) siteId
                               | Some q \<Rightarrow> q)"
    using upsertPolicy_facts [of siteId dto w] by blast
  from assms have acc: "canAccessSite w u siteId"
    by (auto simp: setPolicy_def routingSiteAccess_def bindM_readM split: if_splits)
  have v: "v = policy_view siteId (Some r)" and pol: "policies w' = policies w1" and sa: "site_accesses w' = site_accesses w1"
    using assms acc up(1)
    by (auto simp: setPolicy_def routingSiteAccess_def bindM_readM bindM_Inr_iff transactionM_Inr_iff split: if_splits)
  have "canAccessSite w' u siteId" using acc canAccessSite_cong [of w' w] sa up(4) by simp
  then show ?thesis using that acc v up pol by simp
qed

lemma setPolicy_returns:
  assumes "canAccessSite w u siteId" "siteId \<in> s_id ` set (sites w)"
  shows "\<exists>v w'. setPolicy now siteId dto u actor w = (Inr v, w')"
proof -
  obtain r w1 where "upsertPolicy siteId dto w = (Inr r, w1)" using upsertPolicy_facts [of siteId dto w] by blast
  then show ?thesis
    using assms by (simp add: setPolicy_def routingSiteAccess_def bindM_Inr_iff transactionM_Inr_iff)
qed

section \<open>The properties\<close>

text \<open>
  C10: the engineers a ticket may be offered to are exactly these: they have an active duty window
  at the ticket's site covering this instant, hold every active skill its category requires, belong
  to the ticket's team when anybody in that team qualifies, and are on a working rather than an
  on-call window unless the ticket is a P1 or nobody working qualifies. Nobody is listed twice.
\<close>

theorem routing_candidates_exact:
  assumes "i_status inc \<in> set OPEN_STATUSES" "findRequiredSkillsForCategory w (i_category inc) \<noteq> []" "i_siteId inc \<noteq> []"
  shows "(u \<in> cd_userId ` set (rg_candidates (rank w inc now)) \<longleftrightarrow> is_candidate w now inc u) \<and>
     distinct (map cd_userId (rg_candidates (rank w inc now)))"
proof -
  from rank_pool(1) [OF assms(1,2), of now] obtain f where
    f: "rg_candidates (rank w inc now) = sort_key (rank_key (env_collation (env w))) (map f (pool_entries w now inc))"
      "\<And>e. cd_userId (f e) = re_userId e" by blast
  have "cd_userId ` set (rg_candidates (rank w inc now)) = re_userId ` set (pool_entries w now inc)"
    using f by (simp add: image_image)
  moreover have "distinct (map cd_userId (map f (pool_entries w now inc)))"
    using pool_distinct [OF assms(3)] f(2) by (simp add: comp_def)
  then have "distinct (map cd_userId (rg_candidates (rank w inc now)))"
    unfolding f(1) distinct_map [of cd_userId] by simp
  ultimately show ?thesis using pool_iff [OF assms(3)] by simp
qed

definition round_the_clock :: engineer_shift where
  "round_the_clock = \<lparr>sh_id = ''sh-9'', sh_userId = ''u-eng'', sh_siteId = ''BLR'', sh_label = ''Day'',
     sh_daysOfWeek = [0, 1, 2, 3, 4, 5, 6], sh_startTime = ''00:00'', sh_endTime = ''23:59'', sh_isOnCall = False, sh_isActive = True\<rparr>"

definition linux :: skill where
  "linux = \<lparr>sk_id = ''sk-1'', sk_name = ''Linux'', sk_isActive = True\<rparr>"

definition routing_world :: world where
  "routing_world = staff_world\<lparr>shifts := [round_the_clock], skills := [linux],
     user_skills := [\<lparr>us_id = ''us-1'', us_userId = ''u-eng'', us_skillId = ''sk-1''\<rparr>],
     requirements := [\<lparr>cr_id = ''cr-1'', cr_category = ''SERVER'', cr_skillId = ''sk-1''\<rparr>]\<rparr>"

definition server_ticket :: incident where
  "server_ticket = new_incident 0 ''inc-1'' ''INC-000001'' \<lparr>cd_siteId = ''BLR'', cd_ciId = None,
     cd_category = ''SERVER'', cd_impact = ''HIGH'', cd_urgency = ''HIGH'', cd_priority = P2,
     cd_shortDescription = ''server down''\<rparr> None"

lemma server_ticket_simps [simp]:
  "i_id server_ticket = ''inc-1''" "i_status server_ticket = NEW" "i_siteId server_ticket = ''BLR''" "i_category server_ticket = ''SERVER''"
  "i_priority server_ticket = P2" "i_ownerUserId server_ticket = None" "i_ownerGroupId server_ticket = None"
  by (simp_all add: server_ticket_def new_incident_def)

lemma routing_world_required: "findRequiredSkillsForCategory routing_world ''SERVER'' = [linux]"
  by (simp add: findRequiredSkillsForCategory_def routing_world_def map_filter_simps linux_def iequals_def trim_def is_space_def)

lemma routing_world_shift: "on_shift routing_world 3600000 ''BLR'' ''u-eng'' False"
  by (simp add: on_shift_def routing_world_def round_the_clock_def roster_entry_of_def staff_world_def night_engineer_def
      isShiftActiveAt_def parseClock_def number_of_def digit_value_def empty_world_def utc_zone_def)

theorem routing_candidates_exact_witness:
  "''u-eng'' \<in> cd_userId ` set (rg_candidates (rank routing_world server_ticket 3600000)) \<and>
   distinct (map cd_userId (rg_candidates (rank routing_world server_ticket 3600000)))"
proof -
  have "can_take routing_world 3600000 server_ticket ''u-eng''"
    using routing_world_shift
    by (auto simp: can_take_def routing_world_required) (simp add: routing_world_def linux_def)
  moreover have "ticket_team routing_world server_ticket = None"
    by (simp add: ticket_team_def teamForCategory_def findForCategory_def routing_world_def staff_world_def empty_world_def)
  ultimately have "is_candidate routing_world 3600000 server_ticket ''u-eng''"
    using routing_world_shift by (simp add: is_candidate_def team_first_def)
  then show ?thesis
    using routing_candidates_exact [of server_ticket routing_world "''u-eng''" 3600000]
    by (simp add: routing_world_required OPEN_STATUSES_def)
qed

text \<open>
  The candidates come in order of preference, working engineers before those on call, then
  by weighted workload, then by number of open tickets, then by name; and an empty answer always
  says why it is empty.
\<close>

theorem routing_ranking_ordered:
  "sorted (map (rank_key (env_collation (env w))) (rg_candidates (rank w inc now))) \<and>
   (rg_candidates (rank w inc now) = [] \<longleftrightarrow> rg_reason (rank w inc now) \<noteq> None)"
proof (cases "i_status inc \<in> set OPEN_STATUSES \<and> findRequiredSkillsForCategory w (i_category inc) \<noteq> []")
  case True
  then obtain f where
    f: "rg_candidates (rank w inc now) = sort_key (rank_key (env_collation (env w))) (map f (pool_entries w now inc))"
    using rank_pool(1) by blast
  then have "rg_candidates (rank w inc now) = [] \<longleftrightarrow> pool_entries w now inc = []"
    by (metis length_0_conv length_map length_sort)
  then show ?thesis using rank_pool(2) [of inc w now] True f sorted_sort_key by auto
next
  case False
  then show ?thesis by (auto simp: rank_def Let_def)
qed

text \<open>
  A routing policy that was saved reads back as saved: the switch and every setting given in
  the request are in force, every setting left out is what it was before (the column default when
  the site had no policy), and no other site is affected.
\<close>

theorem routing_policy_roundtrip:
  assumes "setPolicy now siteId dto u actor w = (Inr v, w')"
  shows "getPolicy siteId u w' = Inr v \<and> rv_autoAssignEnabled v = upd_autoAssignEnabled dto \<and>
     (\<forall>p. offerTimeoutFor (getSettings w' siteId) p = patched (upd_offerTimeout dto p) (offerTimeoutFor (getSettings w siteId) p) \<and>
          weightFor (getSettings w' siteId) p = patched (upd_workloadWeight dto p) (weightFor (getSettings w siteId) p)) \<and>
     (s \<noteq> siteId \<longrightarrow> getSettings w' s = getSettings w s)"
proof -
  from assms obtain r where r: "canAccessSite w' u siteId" "v = policy_view siteId (Some r)"
    "find_by rp_siteId siteId (policies w') = Some r"
    "\<And>s. s \<noteq> siteId \<Longrightarrow> find_by rp_siteId s (policies w') = find_by rp_siteId s (policies w)"
    "r = patch_policy_row dto (case find_by rp_siteId siteId (policies w) of None \<Rightarrow> default_policy_row (env_uuid (env w) (uuid_next w)) siteId
                               | Some q \<Rightarrow> q)"
    by (rule setPolicy_InrD) metis
  have "offerTimeoutFor (getSettings w' siteId) p = patched (upd_offerTimeout dto p) (offerTimeoutFor (getSettings w siteId) p)"
    "weightFor (getSettings w' siteId) p = patched (upd_workloadWeight dto p) (weightFor (getSettings w siteId) p)" for p
    using r(3,5) by (simp_all add: getSettings_def settingsOf_def offerTimeoutFor_def weightFor_def
        DEFAULT_ROUTING_SETTINGS_def default_policy_row_def split: option.split)
  moreover have "rv_autoAssignEnabled v = upd_autoAssignEnabled dto" using r(2,5) by (simp add: policy_view_def)
  moreover have "getPolicy siteId u w' = Inr v" using r(1-3) by (simp add: getPolicy_def routingSiteAccess_def)
  ultimately show ?thesis using r(4) [of s] by (simp add: getSettings_def)
qed

definition policy_dto :: update_policy_dto where
  "policy_dto = \<lparr>upd_autoAssignEnabled = True, upd_offerTimeout = (\<lambda>p. if p = P1 then Some 3 else None),
     upd_workloadWeight = (\<lambda>_. None)\<rparr>"

theorem routing_policy_roundtrip_witness:
  "\<exists>v w'. setPolicy 5 ''BLR'' policy_dto \<lparr>au_id = ''u-1'', au_email = ''a@x'', au_role = SUPER_ADMIN\<rparr>
      \<lparr>actorId = ''u-1'', correlationId = None\<rparr> routing_world = (Inr v, w') \<and>
     getPolicy ''BLR'' \<lparr>au_id = ''u-1'', au_email = ''a@x'', au_role = SUPER_ADMIN\<rparr> w' = Inr v \<and>
     offerTimeoutFor (getSettings w' ''BLR'') P1 = 3 \<and> offerTimeoutFor (getSettings w' ''BLR'') P2 = 5"
proof -
  let ?u = "\<lparr>au_id = ''u-1'', au_email = ''a@x'', au_role = SUPER_ADMIN\<rparr>"
  let ?a = "\<lparr>actorId = ''u-1'', correlationId = None\<rparr>"
  have none: "policies routing_world = []" by (simp add: routing_world_def staff_world_def empty_world_def)
  have "\<exists>v w'. setPolicy 5 ''BLR'' policy_dto ?u ?a routing_world = (Inr v, w')"
    by (rule setPolicy_returns)
      (simp_all add: canAccessSite_iff isAllSitesRole_def ALL_SITES_ROLES_def routing_world_def staff_world_def)
  then obtain v w' where run: "setPolicy 5 ''BLR'' policy_dto ?u ?a routing_world = (Inr v, w')" by blast
  from routing_policy_roundtrip [OF run] run show ?thesis
    by (auto simp: policy_dto_def getSettings_def [of routing_world] none settingsOf_def DEFAULT_ROUTING_SETTINGS_def offerTimeoutFor_def)
qed

end
