(* ===== verification/Offers.thy ===== *)
theory Offers
  imports Routing Ticket_Numbers
begin

text \<open>
  Offer and accept routing (\<^verbatim>\<open>routing/routing-offers.service.ts\<close>): a new ticket of a site with
  auto-routing is offered to one engineer at a time until one accepts, nobody is left or it is
  taken another way. Closing an offer is a conditional update inside a transaction, modelled as one
  step, so of two racing answers one wins.
\<close>

section \<open>The code\<close>

definition EXPIRY_BATCH_SIZE :: nat where
  "EXPIRY_BATCH_SIZE = 100"

record offer_view =
  ov_id :: uuid
  ov_userId :: uuid
  ov_displayName :: string
  ov_status :: offer_status
  ov_expiresAt :: instant
  ov_respondedAt :: "instant option"
  ov_declineReason :: "string option"
  ov_createdAt :: instant

record incident_offers =
  io_incidentId :: uuid
  io_pending :: "offer_view option"
  io_history :: "offer_view list"

text \<open>\<open>include: user\<close>; the foreign key makes the user present.\<close>

definition offered_name :: "world \<Rightarrow> routing_offer \<Rightarrow> string" where
  "offered_name w offer = (case find_by u_id (o_userId offer) (users w) of None \<Rightarrow> [] | Some u \<Rightarrow> u_displayName u)"

definition offerToView :: "routing_offer \<Rightarrow> string \<Rightarrow> offer_view" where
  "offerToView offer name = \<lparr>ov_id = o_id offer, ov_userId = o_userId offer, ov_displayName = name, ov_status = o_status offer,
     ov_expiresAt = o_expiresAt offer, ov_respondedAt = o_respondedAt offer, ov_declineReason = o_declineReason offer,
     ov_createdAt = o_createdAt offer\<rparr>"

fun offer_status_str :: "offer_status \<Rightarrow> string" where
  "offer_status_str O_PENDING = ''PENDING''"
| "offer_status_str O_ACCEPTED = ''ACCEPTED''"
| "offer_status_str O_DECLINED = ''DECLINED''"
| "offer_status_str O_EXPIRED = ''EXPIRED''"
| "offer_status_str O_CANCELLED = ''CANCELLED''"

definition isUnowned :: "incident \<Rightarrow> bool" where
  "isUnowned inc \<longleftrightarrow> i_status inc = NEW \<and> \<not> truthy (i_ownerUserId inc) \<and> \<not> truthy (i_ownerGroupId inc)"

definition open_offer :: "uuid \<Rightarrow> routing_offer \<Rightarrow> bool" where
  "open_offer i x \<longleftrightarrow> o_id x = i \<and> o_status x = O_PENDING"

definition close_data :: "offer_status \<Rightarrow> instant option \<Rightarrow> string patch \<Rightarrow> routing_offer \<Rightarrow> routing_offer" where
  "close_data status respondedAt declineReason x =
     x\<lparr>o_status := status,
       o_respondedAt := (case respondedAt of None \<Rightarrow> o_respondedAt x | Some t \<Rightarrow> Some t),
       o_declineReason := patched declineReason (o_declineReason x)\<rparr>"

definition closeOffer ::
  "instant \<Rightarrow> routing_offer \<Rightarrow> offer_status \<Rightarrow> uuid option \<Rightarrow> string option \<Rightarrow> instant option \<Rightarrow> string patch \<Rightarrow>
   routing_offer option op" where
  "closeOffer now offer status actor corr respondedAt declineReason =
     transaction
       (bindM (getM (\<lambda>w. List.find (open_offer (o_id offer)) (offers w))) (\<lambda>hit.
        case hit of
          None \<Rightarrow> ret None
        | Some x \<Rightarrow>
            let after = close_data status respondedAt declineReason x in
            bindM (modifyM (\<lambda>w. w\<lparr>offers := map (\<lambda>y. if open_offer (o_id offer) y
                                   then close_data status respondedAt declineReason y else y) (offers w)\<rparr>)) (\<lambda>_.
            bindM (auditRecord now actor ''RoutingOffer'' (o_id offer) (offer_status_str status) (Some (SnapOffer offer))
                     (Some (SnapOffer after)) corr) (\<lambda>_.
            ret (Some after)))))"

definition transitionClosed :: "instant \<Rightarrow> routing_offer \<Rightarrow> offer_status \<Rightarrow> actor_context \<Rightarrow> unit op" where
  "transitionClosed now offer status actor =
     transaction
       (bindM (modifyM (\<lambda>w. w\<lparr>offers := update_by o_id (o_id offer) (\<lambda>x. x\<lparr>o_status := status\<rparr>) (offers w)\<rparr>)) (\<lambda>_.
        auditRecord now (Some (actorId actor)) ''RoutingOffer'' (o_id offer) (offer_status_str status) (Some (SnapOffer offer))
          (Some (SnapOffer (offer\<lparr>o_status := status\<rparr>))) (correlationId actor)))"

definition pickCandidate :: "world \<Rightarrow> incident \<Rightarrow> routing_candidate list \<Rightarrow> routing_candidate option" where
  "pickCandidate w inc candidates =
     (case candidates of
        [] \<Rightarrow> None
      | c # _ \<Rightarrow>
          (if i_priority inc = P1 then Some c
           else let busyIds = map o_userId (filter (\<lambda>x. o_status x = O_PENDING \<and> o_userId x \<in> set (map cd_userId candidates) \<and>
                        o_incidentId x \<noteq> i_id inc) (offers w))
                in case List.find (\<lambda>c. cd_userId c \<notin> set busyIds) candidates of
                     Some free \<Rightarrow> Some free
                   | None \<Rightarrow> Some c))"

definition previous_offers :: "uuid \<Rightarrow> world \<Rightarrow> routing_offer list" where
  "previous_offers i w = sort_key o_createdAt (filter (\<lambda>x. o_incidentId x = i) (offers w))"

definition onNobodyAccepted :: "instant \<Rightarrow> incident \<Rightarrow> routing_offer list \<Rightarrow> unit op" where
  "onNobodyAccepted now inc previous =
     bindM (getM (\<lambda>w. map (offered_name w) previous)) (\<lambda>names.
     let round = nat_str (length previous) in
     bindM (recordRoutingEvent now (i_id inc) None ''UNACCEPTED'' [(''offeredTo'', join '', '' names)]) (\<lambda>_.
     bindM (getM service_desk) (\<lambda>desk.
     bindM (notifyUsers now (incident_bell (map (Some \<circ> u_id) desk) None INCIDENT_OFFER_UNACCEPTED
              (''No engineer accepted '' @ i_incidentNo inc @ '': assign it manually'')
              (''Offered to '' @ join '', '' names) inc (''unaccepted:'' @ i_id inc @ '':'' @ round))) (\<lambda>_.
     let to = map party_of (filter has_email desk) in
     if to = [] then ret ()
     else enqueue ''notifications'' ''INCIDENT_OFFER_UNACCEPTED'' (i_incidentNo inc) to []
            (Some (''INCIDENT_OFFER_UNACCEPTED:'' @ i_id inc @ '':'' @ round))))))"

definition new_offer :: "instant \<Rightarrow> uuid \<Rightarrow> uuid \<Rightarrow> uuid \<Rightarrow> instant \<Rightarrow> routing_offer" where
  "new_offer now i incidentId userId expiresAt = \<lparr>o_id = i, o_incidentId = incidentId, o_userId = userId, o_status = O_PENDING,
     o_expiresAt = expiresAt, o_respondedAt = None, o_declineReason = None, o_createdAt = now\<rparr>"

definition createOffer :: "instant \<Rightarrow> uuid \<Rightarrow> uuid \<Rightarrow> instant \<Rightarrow> string option \<Rightarrow> routing_offer op" where
  "createOffer now incidentId userId expiresAt corr =
     transaction
       (bindM freshId (\<lambda>i.
        let x = new_offer now i incidentId userId expiresAt in
        bindM (modifyM (\<lambda>w. w\<lparr>offers := offers w @ [x]\<rparr>)) (\<lambda>_.
        bindM (auditRecord now None ''RoutingOffer'' i ''CREATE'' None (Some (SnapOffer x)) corr) (\<lambda>_. ret x))))"

definition announceOffer :: "instant \<Rightarrow> incident \<Rightarrow> routing_candidate \<Rightarrow> routing_offer \<Rightarrow> int \<Rightarrow> nat \<Rightarrow> unit op" where
  "announceOffer now inc next offer timeoutMinutes round =
     bindM (recordRoutingEvent now (i_id inc) None ''OFFERED''
              [(''offerId'', o_id offer), (''userId'', cd_userId next), (''displayName'', cd_displayName next),
               (''expiresAt'', int_str (o_expiresAt offer)), (''round'', nat_str round)]) (\<lambda>_.
     bindM (notifyUsers now (incident_bell [Some (cd_userId next)] None INCIDENT_OFFERED
              (i_incidentNo inc @ '' offered to you: accept within '' @ int_str timeoutMinutes @ '' min'')
              (i_shortDescription inc) inc (''offer:'' @ o_id offer))) (\<lambda>_.
     if cd_email next = [] then ret ()
     else enqueue ''notifications'' ''INCIDENT_OFFERED'' (i_incidentNo inc)
            [\<lparr>p_name = cd_displayName next, p_email = cd_email next\<rparr>] [] (Some (''INCIDENT_OFFERED:'' @ o_id offer))))"

definition auto_routing_on :: "uuid \<Rightarrow> world \<Rightarrow> bool" where
  "auto_routing_on siteId w =
     (case find_by rp_siteId siteId (policies w) of None \<Rightarrow> False | Some p \<Rightarrow> rp_autoAssignEnabled p)"

text \<open>The engineers not tried yet, in order of rank.\<close>

definition untried :: "instant \<Rightarrow> incident \<Rightarrow> routing_offer list \<Rightarrow> world \<Rightarrow> routing_candidate list" where
  "untried now inc previous w =
     filter (\<lambda>c. cd_userId c \<notin> set (map o_userId previous)) (rg_candidates (rank w inc now))"

definition offerNext :: "instant \<Rightarrow> uuid \<Rightarrow> string option \<Rightarrow> unit op" where
  "offerNext now incidentId corr =
     bindM (readM (findOne incidentId)) (\<lambda>inc.
     if \<not> isUnowned inc then ret ()
     else bindM (getM (previous_offers incidentId)) (\<lambda>previous.
     if \<exists>x \<in> set previous. o_status x = O_PENDING then ret ()
     else bindM (getM (auto_routing_on (i_siteId inc))) (\<lambda>on.
     if \<not> on then ret ()
     else bindM (getM (\<lambda>w. pickCandidate w inc (untried now inc previous w))) (\<lambda>pick.
     case pick of
       None \<Rightarrow> (if previous \<noteq> [] then onNobodyAccepted now inc previous else ret ())
     | Some next \<Rightarrow>
         bindM (getM (\<lambda>w. offerTimeoutFor (getSettings w (i_siteId inc)) (i_priority inc))) (\<lambda>timeoutMinutes.
         bindM (createOffer now incidentId (cd_userId next) (now + timeoutMinutes * 60000) corr) (\<lambda>offer.
         announceOffer now inc next offer timeoutMinutes (length previous + 1)))))))"

subsection \<open>Triggers\<close>

definition onIncidentCreated :: "instant \<Rightarrow> uuid \<Rightarrow> uuid \<Rightarrow> string option \<Rightarrow> unit op" where
  "onIncidentCreated now incidentId siteId corr = swallowM
     (bindM (getM (auto_routing_on siteId)) (\<lambda>on. if \<not> on then ret () else offerNext now incidentId corr))"

definition onIncidentUpdated ::
  "instant \<Rightarrow> uuid \<Rightarrow> incident_status \<Rightarrow> uuid option \<Rightarrow> uuid option \<Rightarrow> uuid option \<Rightarrow> string option \<Rightarrow> unit op" where
  "onIncidentUpdated now incidentId status ownerUserId ownerGroupId actor corr =
     (if status = NEW \<and> \<not> truthy ownerUserId \<and> \<not> truthy ownerGroupId then ret ()
      else swallowM
        (bindM (getM (\<lambda>w. filter (\<lambda>x. o_incidentId x = incidentId \<and> o_status x = O_PENDING) (offers w))) (\<lambda>open.
         forM open (\<lambda>x. bindM (closeOffer now x O_CANCELLED actor corr None None) (\<lambda>_. ret ())))))"

definition expire_one :: "instant \<Rightarrow> routing_offer \<Rightarrow> nat op" where
  "expire_one now offer =
     bindM (catchM (closeOffer now offer O_EXPIRED None None None None) (\<lambda>_. ret None)) (\<lambda>closed.
     case closed of
       None \<Rightarrow> ret 0
     | Some _ \<Rightarrow>
         bindM (swallowM
           (bindM (getM (\<lambda>w. offered_name w offer)) (\<lambda>name.
            bindM (recordRoutingEvent now (o_incidentId offer) None ''EXPIRED''
                     [(''offerId'', o_id offer), (''userId'', o_userId offer), (''displayName'', name)]) (\<lambda>_.
            offerNext now (o_incidentId offer) None)))) (\<lambda>_. ret 1))"

fun sumM :: "'b list \<Rightarrow> ('b \<Rightarrow> nat op) \<Rightarrow> nat op" where
  "sumM [] f = ret 0"
| "sumM (x # xs) f = bindM (f x) (\<lambda>n. bindM (sumM xs f) (\<lambda>m. ret (n + m)))"

definition overdue :: "instant \<Rightarrow> routing_offer \<Rightarrow> bool" where
  "overdue now x \<longleftrightarrow> o_status x = O_PENDING \<and> o_expiresAt x \<le> now"

definition expireOverdue :: "instant \<Rightarrow> nat op" where
  "expireOverdue now =
     bindM (getM (\<lambda>w. take EXPIRY_BATCH_SIZE (sort_key o_expiresAt (filter (overdue now) (offers w))))) (\<lambda>due.
     sumM due (expire_one now))"

subsection \<open>Answers\<close>

definition openOfferFor :: "uuid \<Rightarrow> auth_user \<Rightarrow> instant \<Rightarrow> world \<Rightarrow> http_error + routing_offer" where
  "openOfferFor incidentId u now w =
     (case findOneScoped incidentId u w of
        Inl e \<Rightarrow> Inl e
      | Inr _ \<Rightarrow>
          (case List.find (\<lambda>x. o_incidentId x = incidentId \<and> o_status x = O_PENDING) (offers w) of
             None \<Rightarrow> Inl (NotFound ''There is no open offer on this incident'')
           | Some x \<Rightarrow>
               (if o_userId x \<noteq> au_id u then Inl (Forbidden ''This offer was made to another engineer'')
                else if o_expiresAt x \<le> now then Inl (Conflict ''This offer has expired'')
                else Inr x)))"

definition not_open :: http_error where
  "not_open = Conflict ''This offer is no longer open''"

definition assign_accepted :: "instant \<Rightarrow> uuid \<Rightarrow> auth_user \<Rightarrow> actor_context \<Rightarrow> incident option op" where
  "assign_accepted now incidentId u actor =
     bindM (readM (findOne incidentId)) (\<lambda>inc.
     bindM (getM (\<lambda>w. teamForCategory w (i_category inc))) (\<lambda>team.
     autoAssign now incidentId (au_id u) (correlationId actor) (Some (au_id u)) (map_option tm_id team)))"

definition offerAccept :: "instant \<Rightarrow> uuid \<Rightarrow> auth_user \<Rightarrow> actor_context \<Rightarrow> offer_view op" where
  "offerAccept now incidentId u actor =
     bindM (readM (openOfferFor incidentId u now)) (\<lambda>offer.
     bindM (getM (\<lambda>w. offered_name w offer)) (\<lambda>name.
     bindM (closeOffer now offer O_ACCEPTED (Some (actorId actor)) (correlationId actor) (Some now) None) (\<lambda>closed.
     case closed of
       None \<Rightarrow> throw not_open
     | Some accepted \<Rightarrow>
         bindM (catchM (assign_accepted now incidentId u actor)
                 (\<lambda>e. bindM (transitionClosed now accepted O_CANCELLED actor) (\<lambda>_. throw e))) (\<lambda>assigned.
         case assigned of
           None \<Rightarrow> bindM (transitionClosed now accepted O_CANCELLED actor) (\<lambda>_.
                   throw (Conflict ''The ticket was already assigned to someone else''))
         | Some _ \<Rightarrow> ret (offerToView accepted name)))))"

definition offerDecline :: "instant \<Rightarrow> uuid \<Rightarrow> auth_user \<Rightarrow> string option \<Rightarrow> actor_context \<Rightarrow> offer_view op" where
  "offerDecline now incidentId u reason actor =
     bindM (readM (openOfferFor incidentId u now)) (\<lambda>offer.
     bindM (getM (\<lambda>w. offered_name w offer)) (\<lambda>name.
     let declineReason = (if truthy (map_option trim reason) then map_option trim reason else None) in
     bindM (closeOffer now offer O_DECLINED (Some (actorId actor)) (correlationId actor) (Some now) (Some declineReason)) (\<lambda>closed.
     case closed of
       None \<Rightarrow> throw not_open
     | Some declined \<Rightarrow>
         bindM (recordRoutingEvent now incidentId (Some (au_id u)) ''DECLINED''
                  [(''offerId'', o_id offer), (''userId'', au_id u), (''displayName'', name),
                   (''reason'', option_default [] declineReason)]) (\<lambda>_.
         bindM (swallowM (offerNext now incidentId (correlationId actor))) (\<lambda>_.
         ret (offerToView declined name))))))"

definition listForIncident :: "uuid \<Rightarrow> auth_user \<Rightarrow> world \<Rightarrow> http_error + incident_offers" where
  "listForIncident incidentId u w =
     (case findOneScoped incidentId u w of
        Inl e \<Rightarrow> Inl e
      | Inr _ \<Rightarrow>
          (let history = map (\<lambda>x. offerToView x (offered_name w x)) (previous_offers incidentId w)
           in Inr \<lparr>io_incidentId = incidentId, io_pending = List.find (\<lambda>v. ov_status v = O_PENDING) history,
                   io_history = history\<rparr>))"

section \<open>Frames\<close>

definition same_offers :: "world \<Rightarrow> world \<Rightarrow> bool" where
  "same_offers w w' \<longleftrightarrow> counters_grow w w' \<and> users w' = users w \<and> offers w' = offers w"

interpretation offers_same: frame_relation same_offers
  by unfold_locales (auto simp: same_offers_def intro: counters_grow_trans)

lemma same_offersI:
  "obeys numbers_kept m \<Longrightarrow> keeps users m \<Longrightarrow> keeps offers m \<Longrightarrow> obeys same_offers m"
  by (simp add: obeys_def keeps_def same_offers_def numbers_kept_def)

lemma same_offers_told: "obeys numbers_kept m \<Longrightarrow> keeps committed m \<Longrightarrow> obeys same_offers m"
  by (rule same_offersI) (auto intro: keeps_committedD)

lemma same_offers_basic:
  "obeys same_offers (recordRoutingEvent now i a x y)" "obeys same_offers (notifyUsers now inp)"
  "obeys same_offers (enqueue q k e to cc j)"
proof -
  show "obeys same_offers (recordRoutingEvent now i a x y)"
    by (simp add: obeys_def recordRoutingEvent_def same_offers_def counters_grow_def)
  show "obeys same_offers (notifyUsers now inp)"
    by (rule same_offers_told [OF obeys_numbers [OF tickets_notifyUsers]]) (intro keeps_intros)
  show "obeys same_offers (enqueue q k e to cc j)"
    by (rule same_offers_told [OF obeys_numbers [OF tickets_basic(6)]]) (intro keeps_intros)
qed

lemma same_offers_autoAssign: "obeys same_offers (autoAssign now i u c a g)"
proof (rule same_offersI)
  show "obeys numbers_kept (autoAssign now i u c a g)" by (rule numbers_ops)
  have told: "keeps f (notifyStatusChange now x y r z)" "keeps f (notifyAssignment now x o' z)"
    if "\<And>w. f (committed w) = f w" for f :: "world \<Rightarrow> 'v" and x y r z o'
    by (rule keeps_committedD, rule keeps_notices, rule that)+
  show "keeps users (autoAssign now i u c a g)" "keeps offers (autoAssign now i u c a g)"
    unfolding autoAssign_def autoAssignInTx_def
    by (intro keeps_intros told; simp add: rollback_def keeps_def Let_def split: option.split)+
qed

section \<open>What closing and offering do\<close>

abbreviation pending :: "routing_offer \<Rightarrow> bool" where
  "pending x \<equiv> o_status x = O_PENDING"

definition closed_as :: "routing_offer \<Rightarrow> offer_status \<Rightarrow> instant option \<Rightarrow> string patch \<Rightarrow> routing_offer \<Rightarrow> routing_offer" where
  "closed_as offer st r d y = (if open_offer (o_id offer) y then close_data st r d y else y)"

lemma closeOffer_eval:
  "closeOffer now offer st a c r d w =
     (case List.find (open_offer (o_id offer)) (offers w) of
        None \<Rightarrow> (Inr None, w)
      | Some x \<Rightarrow> (Inr (Some (close_data st r d x)), w\<lparr>offers := map (closed_as offer st r d) (offers w),
          audits := audits w @ [\<lparr>ae_actorId = a, ae_entityType = ''RoutingOffer'', ae_entityId = o_id offer,
            ae_action = offer_status_str st, ae_before = Some (SnapOffer offer), ae_after = Some (SnapOffer (close_data st r d x)),
            ae_correlationId = c, ae_createdAt = now\<rparr>]\<rparr>))"
  by (auto simp: closeOffer_def transactionM_def Let_def closed_as_def [abs_def] split: option.split)

lemma close_data_simps [simp]:
  "o_id (close_data st r d x) = o_id x" "o_incidentId (close_data st r d x) = o_incidentId x"
  "o_userId (close_data st r d x) = o_userId x" "o_status (close_data st r d x) = st"
  "o_expiresAt (close_data st r d x) = o_expiresAt x"
  by (simp_all add: close_data_def)

lemma closed_as_simps [simp]:
  "o_id (closed_as offer st r d x) = o_id x" "o_incidentId (closed_as offer st r d x) = o_incidentId x"
  "o_userId (closed_as offer st r d x) = o_userId x" "o_expiresAt (closed_as offer st r d x) = o_expiresAt x"
  by (simp_all add: closed_as_def)

lemma pending_closed_as: "st \<noteq> O_PENDING \<Longrightarrow> pending (closed_as offer st r d x) \<longleftrightarrow> pending x \<and> o_id x \<noteq> o_id offer"
  by (auto simp: closed_as_def open_offer_def)

lemma createOffer_eval:
  "createOffer now i u t c w =
     (let x = new_offer now (env_uuid (env w) (uuid_next w)) i u t in
      (Inr x, w\<lparr>uuid_next := Suc (uuid_next w), offers := offers w @ [x],
         audits := audits w @ [\<lparr>ae_actorId = None, ae_entityType = ''RoutingOffer'', ae_entityId = o_id x, ae_action = ''CREATE'',
           ae_before = None, ae_after = Some (SnapOffer x), ae_correlationId = c, ae_createdAt = now\<rparr>]\<rparr>))"
  by (simp add: createOffer_def transactionM_def Let_def new_offer_def)

lemma same_offers_announce:
  "obeys same_offers (announceOffer now inc c x t n)" "obeys same_offers (onNobodyAccepted now inc xs)"
  unfolding announceOffer_def onNobodyAccepted_def by (intro offers_same.obeys_rules same_offers_basic)+

text \<open>One round of offering: nothing, or one more open offer to somebody not tried before.\<close>

definition offered :: "instant \<Rightarrow> uuid \<Rightarrow> world \<Rightarrow> world \<Rightarrow> bool" where
  "offered now i w w' \<longleftrightarrow> counters_grow w w' \<and> users w' = users w \<and>
     (\<exists>inc u t. find_by i_id i (incidents w) = Some inc \<and> isUnowned inc \<and> auto_routing_on (i_siteId inc) w \<and>
        u \<in> cd_userId ` set (rg_candidates (rank w inc now)) \<and>
        t = now + offerTimeoutFor (getSettings w (i_siteId inc)) (i_priority inc) * 60000 \<and>
        (\<forall>x \<in> set (offers w). o_incidentId x = i \<longrightarrow> \<not> pending x \<and> o_userId x \<noteq> u) \<and>
        offers w' = offers w @ [new_offer now (env_uuid (env w) (uuid_next w)) i u t] \<and> uuid_next w < uuid_next w')"

lemma pick_in: "pickCandidate w inc cs = Some c \<Longrightarrow> c \<in> set cs"
  by (cases cs) (auto simp: pickCandidate_def Let_def find_Some_iff split: if_splits option.splits)

lemma set_previous [simp]: "set (previous_offers i w) = {x \<in> set (offers w). o_incidentId x = i}"
  by (simp add: previous_offers_def)

lemma offer_and_announce:
  assumes "\<And>x. obeys same_offers (g x)"
  shows "\<exists>x. x = new_offer now (env_uuid (env w) (uuid_next w)) i u t \<and>
     counters_grow w (snd (bindM (createOffer now i u t c) g w)) \<and> users (snd (bindM (createOffer now i u t c) g w)) = users w \<and>
     offers (snd (bindM (createOffer now i u t c) g w)) = offers w @ [x] \<and>
     uuid_next w < uuid_next (snd (bindM (createOffer now i u t c) g w))"
proof -
  let ?x = "new_offer now (env_uuid (env w) (uuid_next w)) i u t"
  define w1 where "w1 = snd (createOffer now i u t c w)"
  have run: "bindM (createOffer now i u t c) g w = g ?x w1" by (simp add: bindM_def createOffer_eval w1_def Let_def)
  have w1: "offers w1 = offers w @ [?x]" "users w1 = users w" "uuid_next w1 = Suc (uuid_next w)" "env w1 = env w"
    "incident_no_seq w1 = incident_no_seq w" by (simp_all add: w1_def createOffer_eval Let_def)
  have "same_offers w1 (snd (g ?x w1))" using assms by (rule obeysD)
  then show ?thesis unfolding run using w1 by (auto simp: same_offers_def counters_grow_def)
qed

lemma offeredI:
  assumes "find_by i_id i (incidents w) = Some inc" "isUnowned inc" "auto_routing_on (i_siteId inc) w"
    "u \<in> cd_userId ` set (rg_candidates (rank w inc now))"
    "\<forall>x \<in> set (offers w). o_incidentId x = i \<longrightarrow> \<not> pending x \<and> o_userId x \<noteq> u"
    "\<And>x. obeys same_offers (g x)"
  shows "offered now i w (snd (bindM (createOffer now i u
     (now + offerTimeoutFor (getSettings w (i_siteId inc)) (i_priority inc) * 60000) c) g w))"
  unfolding offered_def using assms(1-5) offer_and_announce [of g now w i u _ c, OF assms(6)] by blast

lemma offerNext_effect:
  "same_offers w (snd (offerNext now i c w)) \<or> offered now i w (snd (offerNext now i c w))"
proof (cases "findOne i w")
  case (Inl e)
  then show ?thesis by (simp add: offerNext_def offers_same.R_refl)
next
  case (Inr inc)
  then have found: "find_by i_id i (incidents w) = Some inc" by (simp add: findOne_def split: option.splits)
  let ?prev = "previous_offers i w" and ?pick = "pickCandidate w inc (untried now inc (previous_offers i w) w)"
  let ?t = "offerTimeoutFor (getSettings w (i_siteId inc)) (i_priority inc)"
  show ?thesis
  proof (cases "isUnowned inc \<and> \<not> (\<exists>x \<in> set ?prev. pending x) \<and> auto_routing_on (i_siteId inc) w")
    case False
    then have "offerNext now i c w = (Inr (), w)" using Inr by (auto simp: offerNext_def)
    then show ?thesis by (simp add: offers_same.R_refl)
  next
    case True
    show ?thesis
    proof (cases ?pick)
      case None
      then have "offerNext now i c w = (if ?prev \<noteq> [] then onNobodyAccepted now inc ?prev else ret ()) w"
        using Inr True by (auto simp: offerNext_def)
      moreover have "obeys same_offers (if ?prev \<noteq> [] then onNobodyAccepted now inc ?prev else ret ())"
        by (intro offers_same.obeys_rules same_offers_announce)
      ultimately show ?thesis by (metis obeysD)
    next
      case (Some cand)
      have run: "offerNext now i c w = bindM (createOffer now i (cd_userId cand) (now + ?t * 60000) c)
          (\<lambda>x. announceOffer now inc cand x ?t (length ?prev + 1)) w"
        using Inr True Some by (auto simp: offerNext_def)
      have "cand \<in> set (untried now inc ?prev w)" using Some by (rule pick_in)
      then have c: "cand \<in> set (rg_candidates (rank w inc now))" "cd_userId cand \<notin> o_userId ` set ?prev"
        by (simp_all add: untried_def)
      have tried: "\<forall>x \<in> set (offers w). o_incidentId x = i \<longrightarrow> \<not> pending x \<and> o_userId x \<noteq> cd_userId cand"
        using c(2) True by (auto simp: image_iff)
      have "offered now i w (snd (bindM (createOffer now i (cd_userId cand) (now + ?t * 60000) c)
          (\<lambda>x. announceOffer now inc cand x ?t (length ?prev + 1)) w))"
        by (rule offeredI [OF found _ _ imageI [OF c(1)] tried]) (use True same_offers_announce in simp_all)
      then show ?thesis unfolding run ..
    qed
  qed
qed

text \<open>A candidate is a user: the roster joins with the table of users.\<close>

lemma candidate_is_user:
  assumes "u \<in> cd_userId ` set (rg_candidates (rank w inc now))"
  shows "u \<in> u_id ` set (users w)"
proof -
  have closed: "rg_candidates (rank w inc now) = []" if "i_status inc \<notin> set OPEN_STATUSES"
    using that by (simp add: rank_def Let_def)
  have unmapped: "rg_candidates (rank w inc now) = []" if "findRequiredSkillsForCategory w (i_category inc) = []"
    using that by (simp add: rank_def Let_def)
  have "rg_candidates (rank w inc now) \<noteq> []" using assms by force
  then have "i_status inc \<in> set OPEN_STATUSES" "findRequiredSkillsForCategory w (i_category inc) \<noteq> []"
    using closed unmapped by blast+
  then obtain f where f: "rg_candidates (rank w inc now) = sort_key (rank_key (env_collation (env w))) (map f (pool_entries w now inc))"
    "\<And>e. cd_userId (f e) = re_userId e" using rank_pool(1) by blast
  with assms obtain e where "e \<in> set (pool_entries w now inc)" "u = re_userId e" by auto
  then have "e \<in> set (on_shift_entries w now inc)" using entry_sets by blast
  then have "e \<in> set (lr_working (getLiveRoster w \<lparr>sq_siteId = Some (i_siteId inc), sq_userId = None\<rparr> None now) @
       lr_onCall (getLiveRoster w \<lparr>sq_siteId = Some (i_siteId inc), sq_userId = None\<rparr> None now))"
    using dedupe_correct unfolding on_shift_entries_def Let_def deduped_def by blast
  then obtain s where "roster_entry_of w now s = Some e" unfolding roster_in_where by blast
  then obtain v where "find_by u_id u (users w) = Some v" using roster_entry_facts(4) \<open>u = re_userId e\<close> by blast
  then show ?thesis using find_by_SomeD [of u_id u "users w" v] by (intro image_eqI [of _ _ v]) simp_all
qed

section \<open>The invariant of the offers\<close>

definition offers_inv :: "world \<Rightarrow> bool" where
  "offers_inv w \<longleftrightarrow> keys_ok offers o_id w \<and> distinct (map (\<lambda>x. (o_incidentId x, o_userId x)) (offers w)) \<and>
     distinct (map o_incidentId (filter pending (offers w))) \<and>
     list_all (\<lambda>x. o_userId x \<in> u_id ` set (users w)) (offers w)"

definition offers_kept :: "world \<Rightarrow> world \<Rightarrow> bool" where
  "offers_kept w w' \<longleftrightarrow> counters_grow w w' \<and> users w' = users w \<and> (offers_inv w \<longrightarrow> offers_inv w')"

interpretation offers: frame_relation offers_kept
  by unfold_locales (auto simp: offers_kept_def intro: counters_grow_trans)

lemma keys_ok_counters: "keys_ok rows key w \<Longrightarrow> counters_grow w w' \<Longrightarrow> map key (rows w') = map key (rows w) \<Longrightarrow> keys_ok rows key w'"
  by (rule keys_ok_same) (simp_all add: counters_grow_def)

lemma same_offers_kept: "same_offers w w' \<Longrightarrow> offers_kept w w'"
  by (auto simp: same_offers_def offers_kept_def offers_inv_def intro: keys_ok_counters)

lemma offered_kept:
  assumes "offered now i w w'"
  shows "offers_kept w w'"
proof -
  from assms obtain inc u t where o: "u \<in> cd_userId ` set (rg_candidates (rank w inc now))"
    "\<forall>x \<in> set (offers w). o_incidentId x = i \<longrightarrow> \<not> pending x \<and> o_userId x \<noteq> u"
    "offers w' = offers w @ [new_offer now (env_uuid (env w) (uuid_next w)) i u t]" "uuid_next w < uuid_next w'"
    "counters_grow w w'" "users w' = users w"
    unfolding offered_def by blast
  have "u \<in> u_id ` set (users w)" using o(1) by (rule candidate_is_user)
  moreover have "keys_ok offers o_id w'" if "offers_inv w"
    by (rule keys_ok_insert [OF _ _ _ o(3)]) (use that o in \<open>simp_all add: offers_inv_def counters_grow_def new_offer_def\<close>)
  ultimately show ?thesis
    using o by (auto simp: offers_kept_def offers_inv_def new_offer_def)
qed

lemma closed_kept:
  assumes "counters_grow w w'" "users w' = users w" "offers w' = map f (offers w)"
    "\<And>x. o_id (f x) = o_id x \<and> o_incidentId (f x) = o_incidentId x \<and> o_userId (f x) = o_userId x"
    "\<And>x. pending (f x) \<Longrightarrow> f x = x"
  shows "offers_kept w w'"
proof -
  have part: "filter pending (map f xs) = filter (\<lambda>x. pending (f x)) xs" for xs
    using assms(5) by (induction xs) auto
  have "distinct (map o_incidentId (filter (\<lambda>x. pending (f x)) xs))" if "distinct (map o_incidentId (filter pending xs))" for xs
  proof -
    have "filter (\<lambda>x. pending (f x)) xs = filter (\<lambda>x. pending (f x)) (filter pending xs)"
      using assms(5) by (induction xs) (auto, metis+)
    then show ?thesis using distinct_map_filter [OF that] by metis
  qed
  moreover have "map o_id (offers w') = map o_id (offers w)" using assms(3,4) by simp
  ultimately show ?thesis
    using assms(1-4) part by (auto simp: offers_kept_def offers_inv_def list_all_iff comp_def intro: keys_ok_counters)
qed

lemma kept_same: "obeys same_offers m \<Longrightarrow> obeys offers_kept m"
  by (simp add: obeys_def same_offers_kept)

lemma kept_closeOffer:
  assumes "st \<noteq> O_PENDING"
  shows "obeys offers_kept (closeOffer now offer st a c r d)"
proof -
  have "offers_kept w (snd (closeOffer now offer st a c r d w))" for w
  proof (cases "List.find (open_offer (o_id offer)) (offers w)")
    case None
    then show ?thesis by (simp add: closeOffer_eval offers.R_refl)
  next
    case (Some x)
    show ?thesis
      by (rule closed_kept [where f = "closed_as offer st r d"])
         (use Some assms in \<open>auto simp: closeOffer_eval counters_grow_def closed_as_def\<close>)
  qed
  then show ?thesis by (simp add: obeys_def)
qed

lemma kept_transitionClosed:
  assumes "st \<noteq> O_PENDING"
  shows "obeys offers_kept (transitionClosed now offer st act)"
proof -
  have "offers_kept w (snd (transitionClosed now offer st act w))" for w
    by (rule closed_kept [where f = "\<lambda>x. if o_id x = o_id offer then x\<lparr>o_status := st\<rparr> else x"])
       (use assms in \<open>auto simp: transitionClosed_def transactionM_def counters_grow_def update_by_def\<close>)
  then show ?thesis by (simp add: obeys_def)
qed

lemma kept_offerNext: "obeys offers_kept (offerNext now i c)"
  unfolding obeys_def using offerNext_effect same_offers_kept offered_kept by blast

lemma kept_sumM: "(\<And>x. obeys offers_kept (f x)) \<Longrightarrow> obeys offers_kept (sumM xs f)"
  by (induction xs) (auto intro!: offers.obeys_basic offers.obeys_bind)

lemma kept_expire_one: "obeys offers_kept (expire_one now x)"
  unfolding expire_one_def
  by (intro offers.obeys_bind offers.obeys_catch offers.obeys_swallow offers.obeys_option offers.obeys_basic
      kept_closeOffer kept_offerNext kept_same [OF same_offers_basic(1)]) simp

lemma kept_assign_accepted: "obeys offers_kept (assign_accepted now i u act)"
  unfolding assign_accepted_def
  by (intro offers.obeys_bind offers.obeys_basic kept_same [OF same_offers_autoAssign])

lemma kept_ops:
  "obeys offers_kept (onIncidentCreated now i s c)"
  "obeys offers_kept (onIncidentUpdated now i st ow g a c)"
  "obeys offers_kept (expireOverdue now)"
  "obeys offers_kept (offerAccept now i u act)"
  "obeys offers_kept (offerDecline now i u reason act)"
proof -
  show "obeys offers_kept (onIncidentCreated now i s c)"
    unfolding onIncidentCreated_def by (intro offers.obeys_rules kept_offerNext)
  show "obeys offers_kept (onIncidentUpdated now i st ow g a c)"
    unfolding onIncidentUpdated_def by (intro offers.obeys_rules kept_closeOffer) simp
  show "obeys offers_kept (expireOverdue now)"
    unfolding expireOverdue_def by (intro offers.obeys_bind offers.obeys_basic kept_sumM kept_expire_one)
  show "obeys offers_kept (offerAccept now i u act)"
    unfolding offerAccept_def
    by (intro offers.obeys_bind offers.obeys_catch offers.obeys_option offers.obeys_basic kept_closeOffer
        kept_transitionClosed kept_assign_accepted) simp_all
  show "obeys offers_kept (offerDecline now i u reason act)"
    unfolding offerDecline_def
    by (intro offers.obeys_bind offers.obeys_let offers.obeys_swallow offers.obeys_option offers.obeys_basic kept_closeOffer
        kept_offerNext kept_same [OF same_offers_basic(1)]) simp
qed

text \<open>A run: the triggers, the sweep and the answers in any order, and work elsewhere that leaves the
  offers alone and deletes no user.\<close>

inductive offer_step :: "world \<Rightarrow> world \<Rightarrow> bool" where
  of_created: "offer_step w (snd (onIncidentCreated now i s c w))"
| of_updated: "offer_step w (snd (onIncidentUpdated now i st ow g a c w))"
| of_sweep: "offer_step w (snd (expireOverdue now w))"
| of_accept: "offer_step w (snd (offerAccept now i u act w))"
| of_decline: "offer_step w (snd (offerDecline now i u reason act w))"
| of_elsewhere: "counters_grow w w' \<Longrightarrow> offers w' = offers w \<Longrightarrow> u_id ` set (users w) \<subseteq> u_id ` set (users w') \<Longrightarrow>
    offer_step w w'"

lemma elsewhere_inv:
  assumes "counters_grow w w'" "offers w' = offers w" "u_id ` set (users w) \<subseteq> u_id ` set (users w')" "offers_inv w"
  shows "offers_inv w'"
proof -
  have "keys_ok offers o_id w" using assms(4) by (simp add: offers_inv_def)
  then have "keys_ok offers o_id w'" by (rule keys_ok_counters) (use assms in simp_all)
  moreover have "list_all (\<lambda>x. o_userId x \<in> u_id ` set (users w')) (offers w)"
    using assms(3,4) unfolding offers_inv_def list_all_iff by blast
  ultimately show ?thesis using assms(2,4) by (simp add: offers_inv_def)
qed

lemma offer_step_inv: "offer_step w w' \<Longrightarrow> offers_inv w \<Longrightarrow> offers_inv w'"
proof (induction rule: offer_step.induct)
  case (of_elsewhere w w')
  then show ?case by (rule elsewhere_inv)
qed (use kept_ops in \<open>auto simp: obeys_def offers_kept_def\<close>)

interpretation offer_run: invariant_system offer_step offers_inv
  by unfold_locales (rule offer_step_inv)

end
