(* ===== verification/Offer_Props.thy ===== *)
theory Offer_Props
  imports Offers
begin

text \<open>
  What accepting, failing to accept and the expiry sweep do, and the properties of offer and accept
  routing.
\<close>

section \<open>Assigning an accepted ticket\<close>

lemma notices_keep_incidents:
  "incidents (snd (notifyStatusChange now a b r x w)) = incidents w" "incidents (snd (notifyAssignment now a ow x w)) = incidents w"
  "offers (snd (notifyStatusChange now a b r x w)) = offers w" "offers (snd (notifyAssignment now a ow x w)) = offers w"
  by (rule keepsD, rule keeps_committedD, rule keeps_notices, simp)+

lemma autoAssignInTx_effect:
  "(\<exists>r. find_by i_id i (incidents w) = Some r \<and> unowned_new r \<and>
      fst (autoAssignInTx now i ow c acc g inc w) = Inr (Some (assign_data now ow g r)) \<and>
      incidents (snd (autoAssignInTx now i ow c acc g inc w)) = update_by i_id i (\<lambda>_. assign_data now ow g r) (incidents w)) \<or>
   (\<forall>a. fst (autoAssignInTx now i ow c acc g inc w) \<noteq> Inr (Some a)) \<and> snd (autoAssignInTx now i ow c acc g inc w) = w"
proof (cases "find_by i_id i (incidents w)")
  case None
  then show ?thesis by (simp add: autoAssignInTx_def)
next
  case (Some r)
  then show ?thesis by (simp add: autoAssignInTx_def Let_def)
qed

text \<open>Either the ticket was new and unowned and is now the engineer's, or nothing happened to the tickets.\<close>

definition assigned_to :: "instant \<Rightarrow> uuid \<Rightarrow> uuid \<Rightarrow> uuid option \<Rightarrow> world \<Rightarrow> world \<Rightarrow> bool" where
  "assigned_to now i ow g w w' \<longleftrightarrow>
     (\<exists>r. find_by i_id i (incidents w) = Some r \<and> unowned_new r \<and>
        incidents w' = update_by i_id i (\<lambda>_. assign_data now ow g r) (incidents w))"

lemma autoAssign_effect:
  "if \<exists>a. fst (autoAssign now i ow c acc g w) = Inr (Some a) then assigned_to now i ow g w (snd (autoAssign now i ow c acc g w))
   else incidents (snd (autoAssign now i ow c acc g w)) = incidents w"
proof (cases "findOne i w")
  case (Inl e)
  then show ?thesis by (simp add: autoAssign_def)
next
  case (Inr inc)
  let ?tx = "autoAssignInTx now i ow c acc g inc"
  obtain r w1 where t: "?tx w = (r, w1)" by (cases "?tx w")
  note eff = autoAssignInTx_effect [of i w now ow c acc g inc, unfolded t fst_conv snd_conv]
  show ?thesis
  proof (cases r)
    case (Inl e)
    then show ?thesis
      using Inr t eff by (auto simp: autoAssign_def bindM_transaction_Inl rollback_def split: option.split)
  next
    case (Inr x)
    then show ?thesis
      using \<open>findOne i w = Inr inc\<close> t eff
      by (cases x) (auto simp: autoAssign_def bindM_transaction bindM_returns [OF notice_returns(2)]
          bindM_returns [OF notice_returns(4)] notices_keep_incidents assigned_to_def split: option.split)
  qed
qed

lemma same_assign_accepted: "obeys same_offers (assign_accepted now i u act)"
  unfolding assign_accepted_def by (intro offers_same.obeys_bind offers_same.obeys_basic same_offers_autoAssign)

lemma assign_accepted_effect:
  "if \<exists>a. fst (assign_accepted now i u act w) = Inr (Some a)
   then \<exists>g. assigned_to now i (au_id u) g w (snd (assign_accepted now i u act w))
   else incidents (snd (assign_accepted now i u act w)) = incidents w"
proof (cases "findOne i w")
  case (Inl e)
  then show ?thesis by (simp add: assign_accepted_def)
next
  case (Inr inc)
  then show ?thesis
    using autoAssign_effect [of now i "au_id u" "correlationId act" "Some (au_id u)" "map_option tm_id (teamForCategory w (i_category inc))" w]
    by (auto simp: assign_accepted_def split: if_splits)
qed

lemma autoAssign_succeeds:
  assumes "find_by i_id i (incidents w) = Some inc" "unowned_new inc" "ow \<noteq> []" "incident_refs_ok w (assign_data now ow g inc)"
  shows "\<exists>w'. autoAssign now i ow c acc g w = (Inr (Some (assign_data now ow g inc)), w')"
proof -
  have t: "\<exists>w1. autoAssignInTx now i ow c acc g inc w = (Inr (Some (assign_data now ow g inc)), w1)"
    using assms by (simp add: autoAssignInTx_def Let_def)
  have "validate_owner_resolved inc ((empty_dto ASSIGNED)\<lparr>td_ownerUserId := Some (Some ow)\<rparr>) = None"
    using assms(3) by (simp add: validate_owner_resolved_def empty_dto_def Let_def)
  then show ?thesis
    using t assms(1,2)
    by (auto simp: autoAssign_def findOne_def unowned_new_def bindM_transaction bindM_returns [OF notice_returns(2)]
        bindM_returns [OF notice_returns(4)])
qed

section \<open>Answers\<close>

text \<open>With distinct ids, closing an open offer changes that row and no other.\<close>

lemma closed_as_update:
  assumes "distinct (map o_id xs)" "x \<in> set xs" "pending x"
  shows "map (closed_as x st r d) xs = update_by o_id (o_id x) (close_data st r d) xs"
proof -
  have "pending y" if "y \<in> set xs" "o_id y = o_id x" for y
  proof -
    have "Some y = Some x" using find_by_distinct [OF assms(1) that(1)] find_by_distinct [OF assms(1,2)] unfolding that(2) by (rule subst)
    then show ?thesis using assms(3) by simp
  qed
  then have "closed_as x st r d y = (if o_id y = o_id x then close_data st r d y else y)" if "y \<in> set xs" for y
    using that unfolding closed_as_def open_offer_def by presburger
  then show ?thesis unfolding update_by_def by (rule map_cong [OF refl])
qed

lemma find_open:
  assumes "distinct (map o_id xs)" "x \<in> set xs" "pending x"
  shows "List.find (open_offer (o_id x)) xs = Some x"
  using assms by (induction xs) (auto simp: open_offer_def)

lemma closeOffer_open:
  assumes "offers_inv w" "x \<in> set (offers w)" "pending x"
  shows "\<exists>w1. closeOffer now x st a c r d w = (Inr (Some (close_data st r d x)), w1) \<and>
     offers w1 = update_by o_id (o_id x) (close_data st r d) (offers w) \<and> incidents w1 = incidents w"
proof -
  have d: "distinct (map o_id (offers w))" using assms(1) by (simp add: offers_inv_def keys_ok_def)
  show ?thesis using find_open [OF d assms(2,3)] closed_as_update [OF d assms(2,3), of st r d]
    by (simp add: closeOffer_eval)
qed

lemma openOfferFor_Inr:
  "openOfferFor i u now w = Inr x \<Longrightarrow>
     x \<in> set (offers w) \<and> o_incidentId x = i \<and> pending x \<and> o_userId x = au_id u \<and> now < o_expiresAt x"
  by (auto simp: openOfferFor_def find_Some_iff split: sum.splits option.splits if_splits)

lemma transitionClosed_eval:
  "\<exists>w1. transitionClosed now x st act w = (Inr (), w1) \<and> incidents w1 = incidents w \<and>
     offers w1 = update_by o_id (o_id x) (\<lambda>y. y\<lparr>o_status := st\<rparr>) (offers w)"
  by (simp add: transitionClosed_def transactionM_def)

definition answered :: "instant \<Rightarrow> offer_status \<Rightarrow> routing_offer \<Rightarrow> world \<Rightarrow> world \<Rightarrow> bool" where
  "answered now st x w w' \<longleftrightarrow> offers w' = update_by o_id (o_id x) (\<lambda>y. y\<lparr>o_status := st, o_respondedAt := Some now\<rparr>) (offers w)"

lemma offerAccept_effect:
  assumes "offers_inv w" "openOfferFor i u now w = Inr x" "offerAccept now i u act w = (r, w')"
  shows "case r of Inr v \<Rightarrow> answered now O_ACCEPTED x w w' \<and> (\<exists>g. assigned_to now i (au_id u) g w w')
     | Inl e \<Rightarrow> answered now O_CANCELLED x w w' \<and> incidents w' = incidents w"
proof -
  have x: "x \<in> set (offers w)" "pending x" using openOfferFor_Inr [OF assms(2)] by simp_all
  let ?c = "close_data O_ACCEPTED (Some now) None"
  obtain w1 where c: "closeOffer now x O_ACCEPTED (Some (actorId act)) (correlationId act) (Some now) None w = (Inr (Some (?c x)), w1)"
    "offers w1 = update_by o_id (o_id x) ?c (offers w)" "incidents w1 = incidents w"
    using closeOffer_open [OF assms(1) x] by blast
  obtain q w2 where t: "assign_accepted now i u act w1 = (q, w2)" by (cases "assign_accepted now i u act w1")
  have o2: "offers w2 = offers w1"
    using obeysD [OF same_assign_accepted, of w1 now i u act] t by (simp add: same_offers_def)
  note eff = assign_accepted_effect [of now i u act w1, unfolded t fst_conv snd_conv]
  show ?thesis
  proof (cases "\<exists>a. q = Inr (Some a)")
    case True
    then have "w' = w2" "\<exists>v. r = Inr v"
      using assms(2,3) c(1) t by (auto simp: offerAccept_def bindM_def catchM_def)
    moreover have "assigned_to now i (au_id u) g w w2" if "assigned_to now i (au_id u) g w1 w2" for g
      using that c(3) by (simp add: assigned_to_def)
    moreover have "answered now O_ACCEPTED x w w2" unfolding answered_def o2 c(2) by (simp add: close_data_def [abs_def])
    ultimately show ?thesis using True eff by fastforce
  next
    case False
    obtain w3 where k: "transitionClosed now (?c x) O_CANCELLED act w2 = (Inr (), w3)" "incidents w3 = incidents w2"
      "offers w3 = update_by o_id (o_id x) (\<lambda>y. y\<lparr>o_status := O_CANCELLED\<rparr>) (offers w2)"
      using transitionClosed_eval [of now "?c x" O_CANCELLED act w2] by auto
    have "w' = w3" "\<exists>e. r = Inl e"
      using assms(2,3) c(1) t k(1) False
      by (auto simp: offerAccept_def bindM_def catchM_def split: sum.splits option.splits)
    moreover have "answered now O_CANCELLED x w w3"
      unfolding answered_def k(3) o2 c(2) by (subst update_by_twice) (simp_all add: update_by_def close_data_def)
    ultimately show ?thesis using False eff c(3) k(2) by auto
  qed
qed

section \<open>The sweep\<close>

definition expired :: "routing_offer \<Rightarrow> routing_offer" where
  "expired x = x\<lparr>o_status := O_EXPIRED\<rparr>"

lemma expired_close_data: "close_data O_EXPIRED None None = expired"
  by (rule ext) (simp add: close_data_def expired_def)

lemma offerNext_extends: "set (offers w) \<subseteq> set (offers (snd (offerNext now i c w)))"
  using offerNext_effect [of w now i c] by (auto simp: same_offers_def offered_def)

lemma expire_one_effect:
  assumes "offers_inv w" "x \<in> set (offers w)" "pending x"
  shows "fst (expire_one now x w) = Inr 1 \<and> expired x \<in> set (offers (snd (expire_one now x w))) \<and>
     (\<forall>z \<in> set (offers w). z \<noteq> x \<longrightarrow> z \<in> set (offers (snd (expire_one now x w))))"
proof -
  obtain w1 where c: "closeOffer now x O_EXPIRED None None None None w = (Inr (Some (close_data O_EXPIRED None None x)), w1)"
    "offers w1 = update_by o_id (o_id x) expired (offers w)"
    using closeOffer_open [OF assms, of now O_EXPIRED None None None None] expired_close_data by auto
  obtain w2 where e: "recordRoutingEvent now (o_incidentId x) None ''EXPIRED''
       [(''offerId'', o_id x), (''userId'', o_userId x), (''displayName'', offered_name w1 x)] w1 = (Inr (), w2)" "offers w2 = offers w1"
    by (simp add: recordRoutingEvent_def)
  have run: "expire_one now x w = (Inr 1, snd (offerNext now (o_incidentId x) None w2))"
    using c(1) e(1) by (simp add: expire_one_def bindM_def catchM_def swallowM_def)
  have d: "distinct (map o_id (offers w))" using assms(1) by (simp add: offers_inv_def keys_ok_def)
  have "expired x \<in> set (offers w1)" unfolding c(2) in_set_update_by using assms(2) by blast
  moreover have "z \<in> set (offers w1)" if "z \<in> set (offers w)" "z \<noteq> x" for z
  proof -
    have "o_id z \<noteq> o_id x" using find_by_distinct [OF d that(1)] find_by_distinct [OF d assms(2)] that(2) by force
    then show ?thesis unfolding c(2) in_set_update_by using that(1) by blast
  qed
  ultimately show ?thesis using run e(2) offerNext_extends [of w2 now "o_incidentId x" None] by auto
qed

lemma sum_expire:
  assumes "offers_inv w" "distinct xs" "\<forall>x \<in> set xs. x \<in> set (offers w) \<and> pending x"
  shows "fst (sumM xs (expire_one now) w) = Inr (length xs) \<and>
     (\<forall>x \<in> set xs. expired x \<in> set (offers (snd (sumM xs (expire_one now) w)))) \<and>
     (\<forall>z \<in> set (offers w) - set xs. z \<in> set (offers (snd (sumM xs (expire_one now) w))))"
  using assms
proof (induction xs arbitrary: w)
  case (Cons x xs)
  define w1 where "w1 = snd (expire_one now x w)"
  have one: "fst (expire_one now x w) = Inr 1" "expired x \<in> set (offers w1)" "\<forall>z \<in> set (offers w). z \<noteq> x \<longrightarrow> z \<in> set (offers w1)"
    using expire_one_effect [OF Cons.prems(1), of x now] Cons.prems(3) unfolding w1_def by auto
  have inv: "offers_inv w1"
    using obeysD [OF kept_expire_one, of w now x] Cons.prems(1) by (simp add: w1_def offers_kept_def)
  have rest: "\<forall>y \<in> set xs. y \<in> set (offers w1) \<and> pending y" using one(3) Cons.prems(2,3) by auto
  note ih = Cons.IH [OF inv _ rest]
  have new: "expired x \<in> set (offers w1) - set xs" using one(2) rest by (auto simp: expired_def)
  have run: "sumM (x # xs) (expire_one now) w = bindM (sumM xs (expire_one now)) (\<lambda>m. ret (1 + m)) w1"
    using one(1) by (simp add: bindM_returns w1_def)
  obtain w2 where s: "sumM xs (expire_one now) w1 = (Inr (length xs), w2)"
    using ih Cons.prems(2) by (cases "sumM xs (expire_one now) w1") auto
  then have "snd (sumM (x # xs) (expire_one now) w) = w2" "fst (sumM (x # xs) (expire_one now) w) = Inr (length (x # xs))"
    unfolding run by (simp_all add: bindM_def)
  moreover have "\<forall>y \<in> set xs. expired y \<in> set (offers w2)" "\<forall>z \<in> set (offers w1) - set xs. z \<in> set (offers w2)"
    using ih Cons.prems(2) s by simp_all
  ultimately show ?case using new one(3) Cons.prems(2) by auto
qed simp

definition due_now :: "instant \<Rightarrow> world \<Rightarrow> routing_offer list" where
  "due_now now w = take EXPIRY_BATCH_SIZE (sort_key o_expiresAt (filter (overdue now) (offers w)))"

section \<open>The properties\<close>

text \<open>A sample: the engineer has an open offer on the server ticket.\<close>

definition first_offer :: routing_offer where
  "first_offer = new_offer 0 ''0'' ''inc-1'' ''u-eng'' 300000"

definition offer_world :: world where
  "offer_world = routing_world\<lparr>uuid_next := 1, incidents := [server_ticket], offers := [first_offer],
     site_accesses := [\<lparr>sa_userId = ''u-eng'', sa_siteId = ''BLR''\<rparr>]\<rparr>"

definition engineer :: auth_user where
  "engineer = \<lparr>au_id = ''u-eng'', au_email = ''eng@x'', au_role = SITE_ENGINEER\<rparr>"

definition engineer_context :: actor_context where
  "engineer_context = \<lparr>actorId = ''u-eng'', correlationId = None\<rparr>"

lemmas offer_world_defs = offer_world_def first_offer_def new_offer_def routing_world_def staff_world_def empty_world_def
  night_engineer_def engineer_def engineer_context_def

lemma offer_world_inv: "offers_inv offer_world"
  by (auto simp: offers_inv_def keys_ok_def offer_world_defs issued_def nat_str_zero intro: injI nat_str_inj)

lemma offer_world_open: "openOfferFor ''inc-1'' engineer 1000 offer_world = Inr first_offer"
  by (simp add: openOfferFor_def findOneScoped_def findOne_def assertSiteAccess_def canAccessSite_iff isAllSitesRole_def
      ALL_SITES_ROLES_def offer_world_defs)

lemma same_key_le_one: "distinct (map f xs) \<Longrightarrow> length (filter (\<lambda>x. f x = k) xs) \<le> 1"
proof (induction xs)
  case (Cons x xs)
  show ?case
  proof (cases "f x = k")
    case True
    then have "filter (\<lambda>x. f x = k) xs = []" using Cons.prems by (auto simp: filter_empty_conv image_iff)
    then show ?thesis by simp
  qed (use Cons in auto)
qed simp

lemma filter_and: "filter (\<lambda>x. P x \<and> Q x) xs = filter P (filter Q xs)"
  by (induction xs) auto

lemma offers_inv_once:
  assumes "offers_inv w"
  shows "length (filter (\<lambda>x. o_incidentId x = i \<and> pending x) (offers w)) \<le> 1"
    "length (filter (\<lambda>x. (o_incidentId x, o_userId x) = p) (offers w)) \<le> 1"
    "length (filter (\<lambda>x. o_incidentId x = i) (offers w)) \<le> card (u_id ` set (users w))"
proof -
  show "length (filter (\<lambda>x. o_incidentId x = i \<and> pending x) (offers w)) \<le> 1"
    unfolding filter_and by (rule same_key_le_one) (use assms in \<open>simp add: offers_inv_def\<close>)
  have d: "distinct (map (\<lambda>x. (o_incidentId x, o_userId x)) (offers w))" using assms by (simp add: offers_inv_def)
  then show "length (filter (\<lambda>x. (o_incidentId x, o_userId x) = p) (offers w)) \<le> 1" by (rule same_key_le_one)
  let ?mine = "filter (\<lambda>x. o_incidentId x = i) (offers w)"
  have "distinct (map (\<lambda>x. (o_incidentId x, o_userId x)) ?mine)" using d by (rule distinct_map_filter)
  then have "distinct (map o_userId ?mine)" unfolding distinct_map by (auto simp: inj_on_def)
  then have "length ?mine = card (o_userId ` set ?mine)" by (metis distinct_card length_map set_map)
  also have "\<dots> \<le> card (u_id ` set (users w))"
    using assms by (intro card_mono) (auto simp: offers_inv_def list_all_iff)
  finally show "length ?mine \<le> card (u_id ` set (users w))" .
qed

text \<open>
  C11: whatever the order of new tickets, changes, answers and sweeps, a ticket never has two open
  offers and no engineer is offered the same ticket twice.
\<close>

theorem one_offer_at_a_time:
  assumes "offer_step\<^sup>*\<^sup>* w w'" "offers_inv w"
  shows "length (filter (\<lambda>x. o_incidentId x = i \<and> o_status x = O_PENDING) (offers w')) \<le> 1 \<and>
     length (filter (\<lambda>x. (o_incidentId x, o_userId x) = (i, u)) (offers w')) \<le> 1"
  using offers_inv_once(1,2) [OF offer_run.run_inv [OF assms]] by blast

theorem one_offer_at_a_time_witness:
  "length (filter (\<lambda>x. o_incidentId x = ''inc-1'' \<and> o_status x = O_PENDING)
     (offers (snd (offerDecline 1000 ''inc-1'' engineer None engineer_context offer_world)))) \<le> 1"
  using one_offer_at_a_time [of offer_world "snd (offerDecline 1000 ''inc-1'' engineer None engineer_context offer_world)" "''inc-1''"]
    r_into_rtranclp [of offer_step, OF of_decline] offer_world_inv by blast

text \<open>
  C14: offering a ticket ends: over its whole life it is offered at most as many times as there
  are users, so declining and expiring cannot go round for ever.
\<close>

theorem offers_are_bounded:
  assumes "offer_step\<^sup>*\<^sup>* w w'" "offers_inv w"
  shows "length (filter (\<lambda>x. o_incidentId x = i) (offers w')) \<le> card (u_id ` set (users w'))"
  using offers_inv_once(3) [OF offer_run.run_inv [OF assms]] .

theorem offers_are_bounded_witness:
  "length (filter (\<lambda>x. o_incidentId x = ''inc-1'')
     (offers (snd (expireOverdue 400000 (snd (offerDecline 1000 ''inc-1'' engineer None engineer_context offer_world)))))) \<le>
   card (u_id ` set (users (snd (expireOverdue 400000 (snd (offerDecline 1000 ''inc-1'' engineer None engineer_context offer_world))))))"
proof -
  have "offer_step\<^sup>*\<^sup>* offer_world (snd (expireOverdue 400000 (snd (offerDecline 1000 ''inc-1'' engineer None engineer_context offer_world))))"
    by (rule rtranclp.rtrancl_into_rtrancl [OF r_into_rtranclp [of offer_step, OF of_decline] of_sweep])
  then show ?thesis using offer_world_inv by (rule offers_are_bounded)
qed

text \<open>
  the expiry sweep always finishes, and closes the hundred offers that are longest overdue
  (all of them when there are no more), counting each once; no other offer is lost.
\<close>

theorem sweep_expires_overdue:
  assumes "offers_inv w" "expireOverdue now w = (r, w')"
  shows "r = Inr (min 100 (length (filter (overdue now) (offers w)))) \<and>
     list_all (\<lambda>x. find_by o_id (o_id x) (offers w') = Some (x\<lparr>o_status := O_EXPIRED\<rparr>)) (due_now now w) \<and>
     list_all (\<lambda>x. x \<in> set (due_now now w) \<or> find_by o_id (o_id x) (offers w') = Some x) (offers w)"
proof -
  let ?due = "due_now now w"
  have run: "sumM ?due (expire_one now) w = (r, w')" using assms(2) by (simp add: expireOverdue_def due_now_def)
  have "distinct (offers w)" using assms(1) by (simp add: offers_inv_def keys_ok_def distinct_map)
  then have "distinct ?due" by (simp add: due_now_def)
  moreover have "\<forall>x \<in> set ?due. x \<in> set (offers w) \<and> pending x"
    by (auto simp: due_now_def overdue_def dest!: in_set_takeD)
  ultimately have eff: "r = Inr (length ?due)" "\<forall>x \<in> set ?due. expired x \<in> set (offers w')"
    "\<forall>z \<in> set (offers w) - set ?due. z \<in> set (offers w')"
    using sum_expire [OF assms(1), of ?due now, unfolded run fst_conv snd_conv] by blast+
  have "offers_inv w'" using obeysD [OF kept_ops(3), of w now] assms by (simp add: offers_kept_def)
  then have "distinct (map o_id (offers w'))" by (simp add: offers_inv_def keys_ok_def)
  note found = find_by_distinct [OF this]
  have "find_by o_id (o_id x) (offers w') = Some (x\<lparr>o_status := O_EXPIRED\<rparr>)" if "x \<in> set ?due" for x
    using found [of "expired x"] eff(2) that by (simp add: expired_def)
  moreover have "length ?due = min 100 (length (filter (overdue now) (offers w)))" by (simp add: due_now_def EXPIRY_BATCH_SIZE_def)
  ultimately show ?thesis using eff(1,3) found by (auto simp: list_all_iff)
qed

theorem sweep_expires_overdue_witness:
  "fst (expireOverdue 400000 offer_world) = Inr 1 \<and>
   find_by o_id ''0'' (offers (snd (expireOverdue 400000 offer_world))) = Some (first_offer\<lparr>o_status := O_EXPIRED\<rparr>)"
  using sweep_expires_overdue [OF offer_world_inv, of 400000 "fst (expireOverdue 400000 offer_world)" "snd (expireOverdue 400000 offer_world)"]
  by (simp add: due_now_def overdue_def EXPIRY_BATCH_SIZE_def) (simp add: offer_world_defs overdue_def)

text \<open>
  C12: accepting is all or nothing. When it returns, the caller held an open, unexpired offer of the
  ticket, the ticket was new and had no owner, and now it is assigned to the caller and the offer
  is accepted. When it fails, no ticket has changed, and the offer is untouched or cancelled:
  never accepted without the ticket.
\<close>

theorem accept_all_or_nothing:
  assumes "offers_inv w" "offerAccept now i u act w = (r, w')"
  shows "case r of
     Inr v \<Rightarrow> (\<exists>x g inc. x \<in> set (offers w) \<and> o_incidentId x = i \<and> o_status x = O_PENDING \<and> o_userId x = au_id u \<and> now < o_expiresAt x \<and>
        find_by i_id i (incidents w) = Some inc \<and> unowned_new inc \<and>
        incidents w' = update_by i_id i (\<lambda>_. assign_data now (au_id u) g inc) (incidents w) \<and>
        offers w' = update_by o_id (o_id x) (\<lambda>y. y\<lparr>o_status := O_ACCEPTED, o_respondedAt := Some now\<rparr>) (offers w))
   | Inl e \<Rightarrow> incidents w' = incidents w \<and>
        (offers w' = offers w \<or>
         (\<exists>x \<in> set (offers w). offers w' = update_by o_id (o_id x) (\<lambda>y. y\<lparr>o_status := O_CANCELLED, o_respondedAt := Some now\<rparr>) (offers w)))"
proof (cases "openOfferFor i u now w")
  case (Inl e)
  then show ?thesis using assms(2) by (auto simp: offerAccept_def)
next
  case (Inr x)
  note eff = offerAccept_effect [OF assms(1) Inr assms(2)] openOfferFor_Inr [OF Inr]
  show ?thesis
  proof (cases r)
    case (Inl e)
    then show ?thesis using eff unfolding answered_def Inl sum.case by blast
  next
    case (Inr v)
    then show ?thesis using eff unfolding answered_def assigned_to_def by auto
  qed
qed

definition taken_world :: world where
  "taken_world = offer_world\<lparr>incidents := [server_ticket\<lparr>i_status := ASSIGNED, i_ownerUserId := Some ''u-2''\<rparr>]\<rparr>"

theorem accept_all_or_nothing_witness:
  "incidents (snd (offerAccept 1000 ''inc-1'' engineer engineer_context taken_world)) = incidents taken_world"
proof -
  let ?run = "offerAccept 1000 ''inc-1'' engineer engineer_context taken_world"
  have "offers_inv taken_world"
    using offer_world_inv by (simp add: taken_world_def offers_inv_def keys_ok_def issued_def)
  note all = accept_all_or_nothing [OF this, of 1000 "''inc-1''" engineer engineer_context "fst ?run" "snd ?run"]
  have "find_by i_id ''inc-1'' (incidents taken_world) = Some inc \<Longrightarrow> \<not> unowned_new inc" for inc
    by (auto simp: taken_world_def unowned_new_def)
  moreover have "?run = (fst ?run, snd ?run)" by simp
  ultimately show ?thesis using all by (cases "fst ?run") fastforce+
qed

text \<open>
  C13: an engineer with an open, unexpired offer of a new ticket gets it by accepting: the call
  returns the accepted offer and the ticket is the engineer's.
\<close>

theorem accept_takes_the_ticket:
  assumes "offers_inv w" "openOfferFor i u now w = Inr x" "find_by i_id i (incidents w) = Some inc" "unowned_new inc"
    "au_id u \<noteq> []" "incident_refs_ok w (assign_data now (au_id u) (map_option tm_id (teamForCategory w (i_category inc))) inc)"
  shows "\<exists>v w'. offerAccept now i u act w = (Inr v, w') \<and> ov_id v = o_id x \<and> ov_status v = O_ACCEPTED \<and>
     find_by i_id i (incidents w') =
       Some (assign_data now (au_id u) (map_option tm_id (teamForCategory w (i_category inc))) inc)"
proof -
  let ?g = "map_option tm_id (teamForCategory w (i_category inc))"
  let ?a = "assign_data now (au_id u) ?g inc" and ?x = "close_data O_ACCEPTED (Some now) None x"
  have x: "x \<in> set (offers w)" "pending x" using openOfferFor_Inr [OF assms(2)] by simp_all
  have "distinct (map o_id (offers w))" using assms(1) by (simp add: offers_inv_def keys_ok_def)
  from find_open [OF this x] obtain os as where c: "closeOffer now x O_ACCEPTED (Some (actorId act)) (correlationId act) (Some now) None w =
      (Inr (Some ?x), w\<lparr>offers := os, audits := as\<rparr>)" by (auto simp: closeOffer_eval)
  let ?w1 = "w\<lparr>offers := os, audits := as\<rparr>"
  have same: "teamForCategory ?w1 k = teamForCategory w k" "incident_refs_ok ?w1 z = incident_refs_ok w z" for k z
    by (simp_all add: teamForCategory_def findForCategory_def findGroupRoster_def incident_refs_ok_def split: option.split)
  obtain w2 where t: "autoAssign now i (au_id u) (correlationId act) (Some (au_id u)) ?g ?w1 = (Inr (Some ?a), w2)"
    using autoAssign_succeeds [of i ?w1 inc "au_id u" now ?g] assms(3-6) by (auto simp: same)
  have "assigned_to now i (au_id u) ?g ?w1 w2"
    using autoAssign_effect [of now i "au_id u" "correlationId act" "Some (au_id u)" ?g ?w1] t by simp
  then have "find_by i_id i (incidents w2) = Some ?a"
    using assms(3) find_by_SomeD [OF assms(3)] by (auto simp: assigned_to_def assign_data_def intro!: find_by_replaced)
  moreover have "offerAccept now i u act w = (Inr (offerToView ?x (offered_name w x)), w2)"
    using assms(2,3) c t by (simp add: offerAccept_def bindM_def catchM_def assign_accepted_def findOne_def same)
  ultimately show ?thesis by (simp add: offerToView_def)
qed

theorem accept_takes_the_ticket_witness:
  "\<exists>v w'. offerAccept 1000 ''inc-1'' engineer engineer_context offer_world = (Inr v, w') \<and> ov_status v = O_ACCEPTED \<and>
     map_option i_ownerUserId (find_by i_id ''inc-1'' (incidents w')) = Some (Some ''u-eng'')"
proof -
  have "find_by i_id ''inc-1'' (incidents offer_world) = Some server_ticket" "unowned_new server_ticket" "au_id engineer = ''u-eng''"
    by (simp_all add: offer_world_def unowned_new_def engineer_def)
  moreover have "teamForCategory offer_world (i_category server_ticket) = None"
    by (simp add: teamForCategory_def findForCategory_def offer_world_defs)
  moreover have "incident_refs_ok offer_world (assign_data 1000 ''u-eng'' None server_ticket)"
    by (simp add: incident_refs_ok_def assign_data_def server_ticket_def new_incident_def offer_world_defs)
  ultimately show ?thesis
    using accept_takes_the_ticket [OF offer_world_inv offer_world_open, of server_ticket engineer_context]
    by (auto simp: assign_data_def)
qed

end
