(* ===== verification/Registers.thy ===== *)
theory Registers
  imports Access
begin

text \<open>
  Registers: tables whose rows are created with a fresh id and then edited in place, never
  deleted. The locale states once what such a table promises (every row stays well formed, and an
  edited row is related to the row it was) and derives that keys stay unique, that the invariant
  holds after any run and that a row can be followed through any run. Changes, problems, articles,
  risks, continuity plans and alerts are instances.
\<close>

definition rows_follow ::
  "(world \<Rightarrow> 'r list) \<Rightarrow> ('r \<Rightarrow> uuid) \<Rightarrow> ('r \<Rightarrow> bool) \<Rightarrow> ('r \<Rightarrow> 'r \<Rightarrow> bool) \<Rightarrow> world \<Rightarrow> world \<Rightarrow> bool" where
  "rows_follow rows key ok R w w' \<longleftrightarrow> env w' = env w \<and> uuid_next w \<le> uuid_next w' \<and>
     (keys_ok rows key w \<longrightarrow> keys_ok rows key w' \<and>
        (\<exists>rs new. rows w' = rs @ new \<and> list_all2 (\<lambda>a b. key b = key a \<and> R a b) (rows w) rs \<and> list_all ok new))"

definition register_inv :: "(world \<Rightarrow> 'r list) \<Rightarrow> ('r \<Rightarrow> uuid) \<Rightarrow> ('r \<Rightarrow> bool) \<Rightarrow> world \<Rightarrow> bool" where
  "register_inv rows key ok w \<longleftrightarrow> keys_ok rows key w \<and> list_all ok (rows w)"

lemma list_all2_keys: "list_all2 (\<lambda>a b. key b = key a \<and> R a b) xs ys \<Longrightarrow> map key ys = map key xs"
  by (induction rule: list_all2_induct) auto

lemma list_all2_find_by:
  "list_all2 (\<lambda>a b. key b = key a \<and> R a b) xs ys \<Longrightarrow> find_by key k xs = Some r \<Longrightarrow>
   \<exists>r'. find_by key k ys = Some r' \<and> R r r'"
  by (induction rule: list_all2_induct) (auto split: if_splits)

locale register =
  fixes rows :: "world \<Rightarrow> 'r list"
    and key :: "'r \<Rightarrow> uuid"
    and ok :: "'r \<Rightarrow> bool"
    and R :: "'r \<Rightarrow> 'r \<Rightarrow> bool"
  assumes moves_refl: "R r r"
    and moves_trans: "R r s \<Longrightarrow> R s t \<Longrightarrow> R r t"
    and moves_ok: "R r s \<Longrightarrow> ok r \<Longrightarrow> ok s"
    and rows_rollback: "rows (rollback w w') = rows w"
begin

lemma follow_refl: "rows_follow rows key ok R w w"
  unfolding rows_follow_def
  by (intro conjI impI exI [of _ "rows w"] exI [of _ "[]"]) (simp_all add: list_all2_same moves_refl)

lemma follow_trans:
  assumes "rows_follow rows key ok R w1 w2" "rows_follow rows key ok R w2 w3"
  shows "rows_follow rows key ok R w1 w3"
proof -
  let ?Q = "\<lambda>a b. key b = key a \<and> R a b"
  have "keys_ok rows key w3 \<and> (\<exists>rs new. rows w3 = rs @ new \<and> list_all2 ?Q (rows w1) rs \<and> list_all ok new)" if k: "keys_ok rows key w1"
  proof -
    obtain rs new where a: "rows w2 = rs @ new" "list_all2 ?Q (rows w1) rs" "list_all ok new" "keys_ok rows key w2"
      using assms(1) k unfolding rows_follow_def by blast
    obtain rs' new' where b: "rows w3 = rs' @ new'" "list_all2 ?Q (rows w2) rs'" "list_all ok new'" "keys_ok rows key w3"
      using assms(2) a(4) unfolding rows_follow_def by blast
    obtain x y where s: "rs' = x @ y" "list_all2 ?Q rs x" "list_all2 ?Q new y"
      using b(2) a(1) by (auto simp: list_all2_append1)
    have "list_all2 ?Q (rows w1) x"
      by (rule list_all2_trans [OF _ a(2) s(2)]) (auto intro: moves_trans)
    moreover have "list_all ok y"
      using s(3) a(3) by (induction rule: list_all2_induct) (auto intro: moves_ok)
    ultimately show ?thesis using b(1,3,4) s(1) by (intro conjI exI [of _ x] exI [of _ "y @ new'"]) simp_all
  qed
  then show ?thesis using assms(1,2) unfolding rows_follow_def by (blast intro: order.trans trans)
qed

text \<open>The three things an operation does to a register.\<close>

lemma follow_same:
  assumes "env w' = env w" "uuid_next w \<le> uuid_next w'" "rows w' = rows w"
  shows "rows_follow rows key ok R w w'"
proof -
  have "keys_ok rows key w'" if "keys_ok rows key w"
    using that by (rule keys_ok_same) (use assms in simp_all)
  then show ?thesis
    unfolding rows_follow_def using assms
    by (intro conjI impI exI [of _ "rows w"] exI [of _ "[]"]) (simp_all add: list_all2_same moves_refl)
qed

lemma follow_insert:
  assumes "env w' = env w" "uuid_next w < uuid_next w'" "rows w' = rows w @ [r]" "key r = env_uuid (env w) (uuid_next w)" "ok r"
  shows "rows_follow rows key ok R w w'"
proof -
  have "keys_ok rows key w'" if "keys_ok rows key w"
    using that assms(1-4) by (rule keys_ok_insert)
  then show ?thesis
    unfolding rows_follow_def using assms
    by (intro conjI impI exI [of _ "rows w"] exI [of _ "[r]"]) (simp_all add: list_all2_same moves_refl)
qed

lemma follow_update:
  assumes "env w' = env w" "uuid_next w \<le> uuid_next w'" "rows w' = update_by key k f (rows w)"
    "\<And>r. keys_ok rows key w \<Longrightarrow> find_by key k (rows w) = Some r \<Longrightarrow> key (f r) = key r \<and> R r (f r)"
  shows "rows_follow rows key ok R w w'"
proof -
  let ?Q = "\<lambda>a b. key b = key a \<and> R a b"
  have "list_all2 ?Q (rows w) (rows w')" if "keys_ok rows key w"
  proof -
    have "find_by key k (rows w) = Some r" if "r \<in> set (rows w)" "key r = k" for r
      using find_by_distinct [of key "rows w" r] \<open>keys_ok rows key w\<close> that by (simp add: keys_ok_def)
    then show ?thesis
      unfolding assms(3) update_by_def list_all2_map2 list_all2_same using assms(4) \<open>keys_ok rows key w\<close> moves_refl by simp
  qed
  moreover from this have "keys_ok rows key w'" if "keys_ok rows key w"
    using that list_all2_keys by (intro keys_ok_same [OF that assms(1,2)]) blast
  ultimately show ?thesis
    unfolding rows_follow_def using assms(1,2) by (intro conjI impI exI [of _ "rows w'"] exI [of _ "[]"]) simp_all
qed

lemma follow_rollback: "rows_follow rows key ok R w w' \<Longrightarrow> rows_follow rows key ok R w (rollback w w')"
  by (rule follow_same) (simp_all add: rows_rollback, simp_all add: rollback_def rows_follow_def)

text \<open>What follows for every run.\<close>

lemma follow_inv:
  assumes "rows_follow rows key ok R w w'" "register_inv rows key ok w"
  shows "register_inv rows key ok w'"
proof -
  obtain rs new where a: "rows w' = rs @ new" "list_all2 (\<lambda>a b. key b = key a \<and> R a b) (rows w) rs" "list_all ok new" "keys_ok rows key w'"
    using assms unfolding rows_follow_def register_inv_def by blast
  have "list_all ok (rows w)" using assms(2) by (simp add: register_inv_def)
  with a(2) have "list_all ok rs" by (induction rule: list_all2_induct) (auto intro: moves_ok)
  then show ?thesis using a by (simp add: register_inv_def)
qed

lemma follow_row:
  assumes "rows_follow rows key ok R w w'" "keys_ok rows key w" "find_by key k (rows w) = Some r"
  shows "\<exists>r'. find_by key k (rows w') = Some r' \<and> R r r'"
  using assms list_all2_find_by unfolding rows_follow_def by (fastforce simp: find_by_append)

end

sublocale register \<subseteq> frame_relation "rows_follow rows key ok R"
  by unfold_locales (rule follow_refl, rule follow_trans)

context register
begin

text \<open>Runs of operations, and what they leave of a row.\<close>

lemma obeys_follow_transaction: "obeys (rows_follow rows key ok R) m \<Longrightarrow> obeys (rows_follow rows key ok R) (transaction m)"
  by (rule obeys_transaction) (auto intro: follow_rollback)

lemma run_follow: "(\<And>a b. step a b \<Longrightarrow> rows_follow rows key ok R a b) \<Longrightarrow> step\<^sup>*\<^sup>* w w' \<Longrightarrow> rows_follow rows key ok R w w'"
  by (erule rtranclp_induct) (auto intro: follow_refl follow_trans)

end

end
