(* ===== verification/Alert_Rules.thy ===== *)
theory Alert_Rules
  imports Registers
begin

text \<open>
  The ingestion policy of alerts (\<^verbatim>\<open>alerts/alert-rules.service.ts\<close>, \<^verbatim>\<open>alerts/alerts.constants.ts\<close>): the
  \<open>alert_rules\<close> table, the in-memory cache in front of it and the choice of the most specific rule.
\<close>

section \<open>The code\<close>

record effective_rule =
  er_flappingThreshold :: int
  er_flappingWindowMinutes :: int
  er_pagingSeverities :: "alert_severity list"
  er_autoCorrelateIncidents :: bool
  er_suppressAutoTicketDuringMaintenance :: bool
  er_autoCreateSeverities :: "alert_severity list"
  er_incidentCategory :: "string option"
  er_incidentPriority :: "priority option"

definition DEFAULT_AUTO_INCIDENT_CATEGORY :: string where
  "DEFAULT_AUTO_INCIDENT_CATEGORY = ''OTHER''"

fun SEVERITY_TO_INCIDENT_PRIORITY :: "alert_severity \<Rightarrow> priority" where
  "SEVERITY_TO_INCIDENT_PRIORITY A_CRITICAL = P1"
| "SEVERITY_TO_INCIDENT_PRIORITY A_HIGH = P2"
| "SEVERITY_TO_INCIDENT_PRIORITY A_WARNING = P3"
| "SEVERITY_TO_INCIDENT_PRIORITY A_INFO = P4"

definition DEFAULT_ALERT_RULE :: effective_rule where
  "DEFAULT_ALERT_RULE = \<lparr>er_flappingThreshold = 3, er_flappingWindowMinutes = 30, er_pagingSeverities = [A_CRITICAL],
     er_autoCorrelateIncidents = True, er_suppressAutoTicketDuringMaintenance = True, er_autoCreateSeverities = [A_CRITICAL],
     er_incidentCategory = None, er_incidentPriority = None\<rparr>"

definition ALERT_RULE_CACHE_TTL_MS :: int where
  "ALERT_RULE_CACHE_TTL_MS = 30000"

definition toEffectiveRule :: "alert_rule \<Rightarrow> effective_rule" where
  "toEffectiveRule r = \<lparr>er_flappingThreshold = ar_flappingThreshold r, er_flappingWindowMinutes = ar_flappingWindowMinutes r,
     er_pagingSeverities = ar_pagingSeverities r, er_autoCorrelateIncidents = ar_autoCorrelateIncidents r,
     er_suppressAutoTicketDuringMaintenance = ar_suppressAutoTicketDuringMaintenance r,
     er_autoCreateSeverities = ar_autoCreateSeverities r, er_incidentCategory = ar_incidentCategory r,
     er_incidentPriority = ar_incidentPriority r\<rparr>"

definition active_rows :: "world \<Rightarrow> alert_rule list" where
  "active_rows w = sort_key (\<lambda>r. - ar_createdAt r) (filter ar_isActive (alert_rules w))"

definition invalidateCache :: "unit op" where
  "invalidateCache = modifyM (\<lambda>w. w\<lparr>rule_cache := None\<rparr>)"

definition activeRules :: "instant \<Rightarrow> alert_rule list op" where
  "activeRules now =
     bindM (getM rule_cache) (\<lambda>cache.
     case cache of
       Some (rules, expiresAt) \<Rightarrow>
         (if now < expiresAt then ret rules
          else bindM (getM active_rows) (\<lambda>rules.
               bindM (modifyM (\<lambda>w. w\<lparr>rule_cache := Some (rules, now + ALERT_RULE_CACHE_TTL_MS)\<rparr>)) (\<lambda>_. ret rules)))
     | None \<Rightarrow>
         bindM (getM active_rows) (\<lambda>rules.
         bindM (modifyM (\<lambda>w. w\<lparr>rule_cache := Some (rules, now + ALERT_RULE_CACHE_TTL_MS)\<rparr>)) (\<lambda>_. ret rules)))"

definition rule_applies :: "uuid option \<Rightarrow> string option \<Rightarrow> alert_rule \<Rightarrow> bool" where
  "rule_applies siteId alertType r \<longleftrightarrow>
     \<not> (ar_siteId r \<noteq> None \<and> ar_siteId r \<noteq> siteId) \<and> \<not> (ar_alertType r \<noteq> None \<and> ar_alertType r \<noteq> alertType)"

definition rule_score :: "alert_rule \<Rightarrow> int" where
  "rule_score r = (if ar_siteId r \<noteq> None then 2 else 0) + (if ar_alertType r \<noteq> None then 1 else 0)"

fun best_rule :: "uuid option \<Rightarrow> string option \<Rightarrow> alert_rule list \<Rightarrow> alert_rule option \<Rightarrow> int \<Rightarrow> alert_rule option" where
  "best_rule siteId alertType [] best bestScore = best"
| "best_rule siteId alertType (rule # rules) best bestScore =
     (if \<not> rule_applies siteId alertType rule then best_rule siteId alertType rules best bestScore
      else if bestScore < rule_score rule then best_rule siteId alertType rules (Some rule) (rule_score rule)
      else best_rule siteId alertType rules best bestScore)"

definition resolveRule :: "instant \<Rightarrow> uuid option \<Rightarrow> string option \<Rightarrow> effective_rule op" where
  "resolveRule now siteId alertType =
     bindM (activeRules now) (\<lambda>rules.
     ret (case best_rule siteId alertType rules None (- 1) of None \<Rightarrow> DEFAULT_ALERT_RULE | Some r \<Rightarrow> toEffectiveRule r))"

record alert_rule_dto =
  rd_name :: "string option"
  rd_siteId :: "uuid patch"
  rd_alertType :: "string patch"
  rd_flappingThreshold :: "int option"
  rd_flappingWindowMinutes :: "int option"
  rd_pagingSeverities :: "alert_severity list option"
  rd_autoCorrelateIncidents :: "bool option"
  rd_suppressAutoTicketDuringMaintenance :: "bool option"
  rd_autoCreateSeverities :: "alert_severity list option"
  rd_incidentCategory :: "string patch"
  rd_incidentPriority :: "priority patch"
  rd_isActive :: "bool option"

text \<open>\<open>value?.trim() || null\<close>\<close>

definition trimmed_or_null :: "string option \<Rightarrow> string option" where
  "trimmed_or_null s = (if truthy (map_option trim s) then map_option trim s else None)"

definition listRules :: "world \<Rightarrow> alert_rule list" where
  "listRules w = sort_key (\<lambda>r. - ar_createdAt r) (alert_rules w)"

definition findRule :: "uuid \<Rightarrow> world \<Rightarrow> http_error + alert_rule" where
  "findRule i w =
     (case find_by ar_id i (alert_rules w) of None \<Rightarrow> Inl (NotFound (''Alert rule '' @ i @ '' not found'')) | Some r \<Rightarrow> Inr r)"

definition new_rule :: "instant \<Rightarrow> uuid \<Rightarrow> alert_rule_dto \<Rightarrow> alert_rule" where
  "new_rule now i dto = \<lparr>ar_id = i, ar_name = option_default [] (rd_name dto), ar_siteId = coalesce (rd_siteId dto) None,
     ar_alertType = coalesce (rd_alertType dto) None,
     ar_flappingThreshold = option_default (er_flappingThreshold DEFAULT_ALERT_RULE) (rd_flappingThreshold dto),
     ar_flappingWindowMinutes = option_default (er_flappingWindowMinutes DEFAULT_ALERT_RULE) (rd_flappingWindowMinutes dto),
     ar_pagingSeverities = option_default (er_pagingSeverities DEFAULT_ALERT_RULE) (rd_pagingSeverities dto),
     ar_autoCorrelateIncidents = option_default (er_autoCorrelateIncidents DEFAULT_ALERT_RULE) (rd_autoCorrelateIncidents dto),
     ar_suppressAutoTicketDuringMaintenance = option_default (er_suppressAutoTicketDuringMaintenance DEFAULT_ALERT_RULE)
       (rd_suppressAutoTicketDuringMaintenance dto),
     ar_autoCreateSeverities = option_default (er_autoCreateSeverities DEFAULT_ALERT_RULE) (rd_autoCreateSeverities dto),
     ar_incidentCategory = trimmed_or_null (coalesce (rd_incidentCategory dto) None),
     ar_incidentPriority = coalesce (rd_incidentPriority dto) None,
     ar_isActive = option_default True (rd_isActive dto), ar_createdAt = now\<rparr>"

definition createRule :: "instant \<Rightarrow> alert_rule_dto \<Rightarrow> actor_context \<Rightarrow> alert_rule op" where
  "createRule now dto actor =
     bindM (transaction
       (bindM freshId (\<lambda>i.
        let created = new_rule now i dto in
        bindM (modifyM (\<lambda>w. w\<lparr>alert_rules := alert_rules w @ [created]\<rparr>)) (\<lambda>_.
        bindM (auditRecord now (Some (actorId actor)) ''AlertRule'' i ''CREATE'' None (Some (SnapAlertRule created))
                 (correlationId actor)) (\<lambda>_. ret created))))) (\<lambda>rule.
     bindM invalidateCache (\<lambda>_. ret rule))"

definition patch_rule :: "alert_rule_dto \<Rightarrow> alert_rule \<Rightarrow> alert_rule" where
  "patch_rule dto r = r\<lparr>ar_name := patched (rd_name dto) (ar_name r), ar_siteId := patched (rd_siteId dto) (ar_siteId r),
     ar_alertType := patched (rd_alertType dto) (ar_alertType r),
     ar_flappingThreshold := patched (rd_flappingThreshold dto) (ar_flappingThreshold r),
     ar_flappingWindowMinutes := patched (rd_flappingWindowMinutes dto) (ar_flappingWindowMinutes r),
     ar_pagingSeverities := patched (rd_pagingSeverities dto) (ar_pagingSeverities r),
     ar_autoCorrelateIncidents := patched (rd_autoCorrelateIncidents dto) (ar_autoCorrelateIncidents r),
     ar_suppressAutoTicketDuringMaintenance :=
       patched (rd_suppressAutoTicketDuringMaintenance dto) (ar_suppressAutoTicketDuringMaintenance r),
     ar_autoCreateSeverities := patched (rd_autoCreateSeverities dto) (ar_autoCreateSeverities r),
     ar_incidentCategory := (case rd_incidentCategory dto of None \<Rightarrow> ar_incidentCategory r | Some c \<Rightarrow> trimmed_or_null c),
     ar_incidentPriority := patched (rd_incidentPriority dto) (ar_incidentPriority r),
     ar_isActive := patched (rd_isActive dto) (ar_isActive r)\<rparr>"

definition updateRule :: "instant \<Rightarrow> uuid \<Rightarrow> alert_rule_dto \<Rightarrow> actor_context \<Rightarrow> alert_rule op" where
  "updateRule now i dto actor =
     bindM (readM (findRule i)) (\<lambda>before.
     bindM (transaction
       (let updated = patch_rule dto before in
        bindM (modifyM (\<lambda>w. w\<lparr>alert_rules := update_by ar_id i (patch_rule dto) (alert_rules w)\<rparr>)) (\<lambda>_.
        bindM (auditRecord now (Some (actorId actor)) ''AlertRule'' i ''UPDATE'' (Some (SnapAlertRule before))
                 (Some (SnapAlertRule updated)) (correlationId actor)) (\<lambda>_. ret updated)))) (\<lambda>after.
     bindM invalidateCache (\<lambda>_. ret after)))"

section \<open>The most specific rule\<close>

text \<open>
  Abstractly: among the active rules that apply to the site and the type, none more specific and,
  among the equally specific, none newer.
\<close>

definition most_specific :: "uuid option \<Rightarrow> string option \<Rightarrow> alert_rule list \<Rightarrow> alert_rule \<Rightarrow> bool" where
  "most_specific siteId alertType rules r \<longleftrightarrow> r \<in> set rules \<and> ar_isActive r \<and> rule_applies siteId alertType r \<and>
     (\<forall>r' \<in> set rules. ar_isActive r' \<and> rule_applies siteId alertType r' \<longrightarrow>
        rule_score r' < rule_score r \<or> (rule_score r' = rule_score r \<and> ar_createdAt r' \<le> ar_createdAt r))"

lemma rule_score_nonneg: "0 \<le> rule_score r"
  by (simp add: rule_score_def)

text \<open>The loop over a list that is newest first.\<close>

lemma best_rule_kept: "best_rule s t rules (Some b) n \<noteq> None"
  by (induction rules arbitrary: b n) auto

lemma best_rule_none: "best_rule s t rules None n = None \<Longrightarrow> n < 0 \<Longrightarrow> r \<in> set rules \<Longrightarrow> \<not> rule_applies s t r"
proof (induction rules)
  case (Cons rule rules)
  have "n < rule_score rule" using Cons.prems(2) rule_score_nonneg [of rule] by simp
  then have "\<not> rule_applies s t rule" using Cons.prems(1) best_rule_kept [of s t rules rule "rule_score rule"] by (auto split: if_splits)
  then show ?case using Cons by auto
qed simp

definition beats :: "alert_rule \<Rightarrow> alert_rule \<Rightarrow> bool" where
  "beats r r' \<longleftrightarrow> rule_score r' < rule_score r \<or> (rule_score r' = rule_score r \<and> ar_createdAt r' \<le> ar_createdAt r)"

lemma best_rule_some:
  "best_rule s t rules best n = Some r \<Longrightarrow> sorted (map (\<lambda>r. - ar_createdAt r) rules) \<Longrightarrow>
   (best = Some r \<and> (\<forall>r' \<in> set rules. rule_applies s t r' \<longrightarrow> rule_score r' \<le> n)) \<or>
   (r \<in> set rules \<and> rule_applies s t r \<and> n < rule_score r \<and> (\<forall>r' \<in> set rules. rule_applies s t r' \<longrightarrow> beats r r'))"
proof (induction rules arbitrary: best n)
  case (Cons rule rules)
  have sorted: "sorted (map (\<lambda>r. - ar_createdAt r) rules)" and newer: "\<And>r'. r' \<in> set rules \<Longrightarrow> ar_createdAt r' \<le> ar_createdAt rule"
    using Cons.prems(2) by auto
  show ?case
  proof (cases "rule_applies s t rule \<and> n < rule_score rule")
    case True
    then have "best_rule s t rules (Some rule) (rule_score rule) = Some r" using Cons.prems(1) by simp
    from Cons.IH [OF this sorted] show ?thesis
    proof
      assume first: "Some rule = Some r \<and> (\<forall>r' \<in> set rules. rule_applies s t r' \<longrightarrow> rule_score r' \<le> rule_score rule)"
      then have "beats r r'" if "r' \<in> set (rule # rules)" "rule_applies s t r'" for r'
        using that newer [of r'] by (fastforce simp: beats_def)
      then show ?thesis using first True by auto
    next
      assume later: "r \<in> set rules \<and> rule_applies s t r \<and> rule_score rule < rule_score r \<and>
        (\<forall>r' \<in> set rules. rule_applies s t r' \<longrightarrow> beats r r')"
      moreover have "beats r rule" using later by (simp add: beats_def)
      ultimately show ?thesis using True by auto
    qed
  next
    case False
    then have "best_rule s t rules best n = Some r" using Cons.prems(1) by (auto split: if_splits)
    from Cons.IH [OF this sorted] show ?thesis
    proof
      assume "best = Some r \<and> (\<forall>r' \<in> set rules. rule_applies s t r' \<longrightarrow> rule_score r' \<le> n)"
      then show ?thesis using False by auto
    next
      assume later: "r \<in> set rules \<and> rule_applies s t r \<and> n < rule_score r \<and> (\<forall>r' \<in> set rules. rule_applies s t r' \<longrightarrow> beats r r')"
      moreover have "beats r rule" if "rule_applies s t rule" using that False later by (simp add: beats_def)
      ultimately show ?thesis by auto
    qed
  qed
qed simp

definition chosen_rule :: "uuid option \<Rightarrow> string option \<Rightarrow> world \<Rightarrow> effective_rule \<Rightarrow> bool" where
  "chosen_rule s t w rule \<longleftrightarrow>
     (\<exists>r. most_specific s t (alert_rules w) r \<and> rule = toEffectiveRule r) \<or>
     (\<forall>r \<in> set (alert_rules w). \<not> (ar_isActive r \<and> rule_applies s t r)) \<and> rule = DEFAULT_ALERT_RULE"

lemma best_of_active:
  "chosen_rule s t w (case best_rule s t (active_rows w) None (- 1) of None \<Rightarrow> DEFAULT_ALERT_RULE | Some r \<Rightarrow> toEffectiveRule r)"
proof (cases "best_rule s t (active_rows w) None (- 1)")
  case None
  then show ?thesis using best_rule_none [OF None] by (auto simp: chosen_rule_def active_rows_def)
next
  case (Some r)
  have "sorted (map (\<lambda>r. - ar_createdAt r) (active_rows w))" by (simp add: active_rows_def sorted_sort_key)
  from best_rule_some [OF Some this] have "most_specific s t (alert_rules w) r"
    by (auto simp: most_specific_def active_rows_def beats_def)
  then show ?thesis using Some by (auto simp: chosen_rule_def)
qed

section \<open>The cache\<close>

text \<open>
  The cache is transparent: what it holds is what the table holds, because every change of the
  table empties it.
\<close>

definition cache_ok :: "world \<Rightarrow> bool" where
  "cache_ok w \<longleftrightarrow> (case rule_cache w of None \<Rightarrow> True | Some (rules, t) \<Rightarrow> rules = active_rows w)"

lemma active_rows_cong [simp]: "active_rows (w\<lparr>rule_cache := c\<rparr>) = active_rows w"
  by (simp add: active_rows_def)

lemma activeRules_effect:
  assumes "cache_ok w"
  shows "fst (activeRules now w) = Inr (active_rows w)" "cache_ok (snd (activeRules now w))"
    "\<exists>c. snd (activeRules now w) = w\<lparr>rule_cache := c\<rparr>"
proof -
  show "fst (activeRules now w) = Inr (active_rows w)" "cache_ok (snd (activeRules now w))"
    using assms by (auto simp: activeRules_def cache_ok_def split: option.splits)
  show "\<exists>c. snd (activeRules now w) = w\<lparr>rule_cache := c\<rparr>"
    by (rule exI [of _ "rule_cache (snd (activeRules now w))"]) (auto simp: activeRules_def split: option.split)
qed

lemma resolveRule_effect:
  assumes "cache_ok w"
  shows "\<exists>rule c. resolveRule now s t w = (Inr rule, w\<lparr>rule_cache := c\<rparr>) \<and> chosen_rule s t w rule \<and> cache_ok (w\<lparr>rule_cache := c\<rparr>)"
proof -
  obtain c where c: "activeRules now w = (Inr (active_rows w), w\<lparr>rule_cache := c\<rparr>)" "cache_ok (w\<lparr>rule_cache := c\<rparr>)"
    using activeRules_effect [OF assms] by (metis prod.collapse)
  then show ?thesis using best_of_active [of s t w] by (auto simp: resolveRule_def bindM_def)
qed

inductive rule_step :: "world \<Rightarrow> world \<Rightarrow> bool" where
  ru_create: "rule_step w (snd (createRule now dto actor w))"
| ru_update: "rule_step w (snd (updateRule now i dto actor w))"
| ru_resolve: "rule_step w (snd (resolveRule now s t w))"
| ru_elsewhere: "alert_rules w' = alert_rules w \<Longrightarrow> rule_cache w' = rule_cache w \<Longrightarrow> rule_step w w'"

lemma rule_step_cache: "rule_step w w' \<Longrightarrow> cache_ok w \<Longrightarrow> cache_ok w'"
proof (induction rule: rule_step.induct)
  case (ru_create w now dto actor)
  then show ?case by (simp add: createRule_def bindM_def transactionM_def freshId_def Let_def invalidateCache_def cache_ok_def)
next
  case (ru_update w now i dto actor)
  then show ?case
    by (cases "findRule i w") (simp_all add: updateRule_def bindM_def transactionM_def Let_def invalidateCache_def cache_ok_def)
next
  case (ru_resolve w now s t)
  then show ?case using resolveRule_effect [of w now s t] by auto
next
  case (ru_elsewhere w' w)
  then show ?case by (auto simp: cache_ok_def active_rows_def split: option.splits)
qed

interpretation rule_cache_run: invariant_system rule_step cache_ok
  by unfold_locales (rule rule_step_cache)

section \<open>The property\<close>

text \<open>
  C36: at any point of any sequence of rule changes and look-ups, cached or not, an alert gets the
  settings of the most specific active rule for its site and type, the newest of equally specific
  ones, and the built-in default only when no active rule applies.
\<close>

theorem rule_resolution:
  assumes "rule_step\<^sup>*\<^sup>* w w'" "cache_ok w"
  shows "\<exists>rule w''. resolveRule now siteId alertType w' = (Inr rule, w'') \<and>
     ((\<exists>r. most_specific siteId alertType (alert_rules w') r \<and> rule = toEffectiveRule r) \<or>
      (\<forall>r \<in> set (alert_rules w'). \<not> (ar_isActive r \<and> rule_applies siteId alertType r)) \<and> rule = DEFAULT_ALERT_RULE)"
  using resolveRule_effect [OF rule_cache_run.run_inv [OF assms], of now siteId alertType] unfolding chosen_rule_def by blast

definition lab_dto :: alert_rule_dto where
  "lab_dto = \<lparr>rd_name = Some ''lab'', rd_siteId = Some (Some ''BLR''), rd_alertType = None, rd_flappingThreshold = Some 9,
     rd_flappingWindowMinutes = None, rd_pagingSeverities = Some [], rd_autoCorrelateIncidents = None,
     rd_suppressAutoTicketDuringMaintenance = None, rd_autoCreateSeverities = None, rd_incidentCategory = None,
     rd_incidentPriority = None, rd_isActive = None\<rparr>"

theorem rule_resolution_witness:
  "\<exists>rule w''. resolveRule 20 (Some ''BLR'') (Some ''disk'')
       (snd (createRule 10 lab_dto \<lparr>actorId = ''u-1'', correlationId = None\<rparr> (snd (resolveRule 5 None None empty_world)))) = (Inr rule, w'') \<and>
     er_flappingThreshold rule = 9"
proof -
  let ?w = "snd (createRule 10 lab_dto \<lparr>actorId = ''u-1'', correlationId = None\<rparr> (snd (resolveRule 5 None None empty_world)))"
  have start: "cache_ok empty_world" by (simp add: cache_ok_def empty_world_def)
  obtain c where c: "snd (resolveRule 5 None None empty_world) = empty_world\<lparr>rule_cache := c\<rparr>"
    using resolveRule_effect [OF start, of 5 None None] by auto
  have run: "rule_step\<^sup>*\<^sup>* empty_world ?w"
    by (rule rtranclp.rtrancl_into_rtrancl [OF r_into_rtranclp [of rule_step, OF ru_resolve] ru_create])
  have rows: "alert_rules ?w = [new_rule 10 (nat_str 0) lab_dto]"
    unfolding c by (simp add: createRule_def bindM_def transactionM_def freshId_def Let_def invalidateCache_def empty_world_def)
  have "ar_isActive (new_rule 10 (nat_str 0) lab_dto)" "rule_applies (Some ''BLR'') (Some ''disk'') (new_rule 10 (nat_str 0) lab_dto)"
    "ar_flappingThreshold (new_rule 10 (nat_str 0) lab_dto) = 9"
    by (simp_all add: new_rule_def lab_dto_def rule_applies_def)
  then show ?thesis
    using rule_resolution [OF run start, of 20 "Some ''BLR''" "Some ''disk''"] unfolding rows
    by (auto simp: most_specific_def toEffectiveRule_def)
qed

end
