(* ===== verification/Changes.thy ===== *)
theory Changes
  imports Registers Incident_Notices
begin

text \<open>
  Change control and maintenance windows (\<^verbatim>\<open>changes/\<close>). A change has no status column: its
  status is a function of the approval, the window and the outcome, and a list filtered by status
  translates that function into a database condition.
\<close>

section \<open>The code\<close>

datatype change_status = CS_PENDING_APPROVAL | CS_SCHEDULED | CS_IN_PROGRESS | CS_PENDING_REVIEW | CS_COMPLETED

definition no_outcome :: "change \<Rightarrow> bool" where
  "no_outcome c \<longleftrightarrow> ch_outcome c = None \<or> ch_outcome c = Some []"

definition deriveChangeStatus :: "change \<Rightarrow> instant \<Rightarrow> change_status" where
  "deriveChangeStatus c now =
     (if ch_outcome c \<noteq> None \<and> ch_outcome c \<noteq> Some [] then CS_COMPLETED
      else if ch_approverId c = None then CS_PENDING_APPROVAL
      else if now < ch_windowStart c then CS_SCHEDULED
      else if now \<le> ch_windowEnd c then CS_IN_PROGRESS
      else CS_PENDING_REVIEW)"

definition isPirOverdue :: "change \<Rightarrow> instant \<Rightarrow> bool" where
  "isPirOverdue c now \<longleftrightarrow> ch_changeType c = EMERGENCY \<and> no_outcome c \<and> ch_windowEnd c < now"

definition isEditable :: "change_status \<Rightarrow> bool" where
  "isEditable s \<longleftrightarrow> s = CS_PENDING_APPROVAL \<or> s = CS_SCHEDULED"

text \<open>
  A Prisma condition on changes, one optional entry per key of the object. Spreading one object
  over another replaces the entries the second one has.
\<close>

record change_where =
  cw_changeType :: "change_type option"
  cw_approverId :: "(uuid option \<Rightarrow> bool) option"
  cw_windowStart :: "(instant \<Rightarrow> bool) option"
  cw_windowEnd :: "(instant \<Rightarrow> bool) option"
  cw_outcome :: "(change \<Rightarrow> bool) option"

definition no_condition :: change_where where
  "no_condition = \<lparr>cw_changeType = None, cw_approverId = None, cw_windowStart = None, cw_windowEnd = None, cw_outcome = None\<rparr>"

definition spread :: "change_where \<Rightarrow> change_where \<Rightarrow> change_where" where
  "spread a b = \<lparr>cw_changeType = option_or (cw_changeType b) (cw_changeType a), cw_approverId = option_or (cw_approverId b) (cw_approverId a),
     cw_windowStart = option_or (cw_windowStart b) (cw_windowStart a), cw_windowEnd = option_or (cw_windowEnd b) (cw_windowEnd a),
     cw_outcome = option_or (cw_outcome b) (cw_outcome a)\<rparr>"

definition holds :: "('v \<Rightarrow> bool) option \<Rightarrow> 'v \<Rightarrow> bool" where
  "holds p v = (case p of None \<Rightarrow> True | Some q \<Rightarrow> q v)"

definition change_matches :: "change_where \<Rightarrow> change \<Rightarrow> bool" where
  "change_matches q c \<longleftrightarrow> (case cw_changeType q of None \<Rightarrow> True | Some t \<Rightarrow> ch_changeType c = t) \<and>
     holds (cw_approverId q) (ch_approverId c) \<and> holds (cw_windowStart q) (ch_windowStart c) \<and>
     holds (cw_windowEnd q) (ch_windowEnd c) \<and> holds (cw_outcome q) c"

definition NOT_COMPLETED :: "(change \<Rightarrow> bool) option" where
  "NOT_COMPLETED = Some no_outcome"

fun whereForStatus :: "change_status \<Rightarrow> instant \<Rightarrow> change_where" where
  "whereForStatus CS_COMPLETED now = no_condition\<lparr>cw_outcome := Some (\<lambda>c. \<not> no_outcome c)\<rparr>"
| "whereForStatus CS_PENDING_APPROVAL now = no_condition\<lparr>cw_approverId := Some (\<lambda>a. a = None), cw_outcome := NOT_COMPLETED\<rparr>"
| "whereForStatus CS_SCHEDULED now =
     no_condition\<lparr>cw_approverId := Some (\<lambda>a. a \<noteq> None), cw_windowStart := Some (\<lambda>s. now < s), cw_outcome := NOT_COMPLETED\<rparr>"
| "whereForStatus CS_IN_PROGRESS now =
     no_condition\<lparr>cw_approverId := Some (\<lambda>a. a \<noteq> None), cw_windowStart := Some (\<lambda>s. s \<le> now),
       cw_windowEnd := Some (\<lambda>e. now \<le> e), cw_outcome := NOT_COMPLETED\<rparr>"
| "whereForStatus CS_PENDING_REVIEW now =
     no_condition\<lparr>cw_approverId := Some (\<lambda>a. a \<noteq> None), cw_windowEnd := Some (\<lambda>e. e < now), cw_outcome := NOT_COMPLETED\<rparr>"

record create_change_dto =
  ccd_changeType :: change_type
  ccd_reason :: string
  ccd_implementationPlan :: string
  ccd_validationPlan :: string
  ccd_rollbackPlan :: string
  ccd_risk :: string
  ccd_windowStart :: instant
  ccd_windowEnd :: instant
  ccd_affectedCiIds :: "uuid list option"

record query_changes_dto =
  qcd_changeType :: "change_type option"
  qcd_status :: "change_status option"
  qcd_activeAt :: "instant option"
  qcd_limit :: "nat option"

record update_change_dto =
  ucd_reason :: "string option"
  ucd_implementationPlan :: "string option"
  ucd_validationPlan :: "string option"
  ucd_rollbackPlan :: "string option"
  ucd_risk :: "string option"
  ucd_windowStart :: "instant patch"
  ucd_windowEnd :: "instant patch"
  ucd_affectedCiIds :: "uuid list option"
  ucd_outcome :: "string patch"

text \<open>\<open>decorate\<close> adds the derived status and the review flag to the row.\<close>

record change_view = change +
  cv_status :: change_status
  cv_pirOverdue :: bool

definition decorate :: "change \<Rightarrow> instant \<Rightarrow> change_view" where
  "decorate c now = change.extend c \<lparr>cv_status = deriveChangeStatus c now, cv_pirOverdue = isPirOverdue c now\<rparr>"

definition new_change :: "uuid \<Rightarrow> create_change_dto \<Rightarrow> uuid \<Rightarrow> change" where
  "new_change i dto creator = \<lparr>ch_id = i, ch_changeType = ccd_changeType dto, ch_reason = ccd_reason dto,
     ch_implementationPlan = ccd_implementationPlan dto, ch_validationPlan = ccd_validationPlan dto,
     ch_rollbackPlan = ccd_rollbackPlan dto, ch_risk = ccd_risk dto, ch_windowStart = ccd_windowStart dto,
     ch_windowEnd = ccd_windowEnd dto, ch_createdBy = Some creator, ch_approverId = None, ch_outcome = None,
     ch_affectedCiIds = option_default [] (ccd_affectedCiIds dto)\<rparr>"

definition changeCreate :: "instant \<Rightarrow> create_change_dto \<Rightarrow> actor_context \<Rightarrow> change_view op" where
  "changeCreate now dto actor =
     (if ccd_windowEnd dto \<le> ccd_windowStart dto then throw (BadRequest ''windowEnd must be after windowStart'')
      else bindM (transaction
        (bindM freshId (\<lambda>i.
         let created = new_change i dto (actorId actor) in
         bindM (modifyM (\<lambda>w. w\<lparr>changes := changes w @ [created]\<rparr>)) (\<lambda>_.
         bindM (auditRecord now (Some (actorId actor)) ''change'' i ''CHANGE_CREATED'' None (Some (SnapChange created))
                  (correlationId actor)) (\<lambda>_. ret created))))) (\<lambda>c. ret (decorate c now)))"

definition list_where :: "query_changes_dto \<Rightarrow> instant \<Rightarrow> change_where" where
  "list_where q now =
     (let byType = no_condition\<lparr>cw_changeType := qcd_changeType q\<rparr>;
          byStatus = (case qcd_status q of None \<Rightarrow> no_condition | Some s \<Rightarrow> whereForStatus s now);
          byTime = (case qcd_activeAt q of None \<Rightarrow> no_condition
             | Some at \<Rightarrow> no_condition\<lparr>cw_windowStart := Some (\<lambda>s. s \<le> at), cw_windowEnd := Some (\<lambda>e. at \<le> e)\<rparr>)
      in spread (spread byType byStatus) byTime)"

definition changesList :: "instant \<Rightarrow> query_changes_dto \<Rightarrow> world \<Rightarrow> change_view list" where
  "changesList now q w =
     map (\<lambda>c. decorate c now)
       (take (option_default 50 (qcd_limit q))
         (sort_key (\<lambda>c. - ch_windowStart c) (filter (change_matches (list_where q now)) (changes w))))"

definition requireChange :: "uuid \<Rightarrow> world \<Rightarrow> http_error + change" where
  "requireChange i w =
     (case find_by ch_id i (changes w) of None \<Rightarrow> Inl (NotFound (''Change '' @ i @ '' not found'')) | Some c \<Rightarrow> Inr c)"

definition changeGetOne :: "instant \<Rightarrow> uuid \<Rightarrow> world \<Rightarrow> http_error + change_view" where
  "changeGetOne now i w = (case requireChange i w of Inl e \<Rightarrow> Inl e | Inr c \<Rightarrow> Inr (decorate c now))"

definition notifyApprover :: "uuid \<Rightarrow> uuid option \<Rightarrow> unit op" where
  "notifyApprover i approverId = swallowM
     (if \<not> truthy approverId then ret ()
      else bindM (getM (\<lambda>w. find_by u_id (the approverId) (users w))) (\<lambda>approver.
        case approver of
          None \<Rightarrow> ret ()
        | Some u \<Rightarrow>
            if \<not> has_email u then ret ()
            else enqueue ''notifications'' ''CHANGE_APPROVED'' (''CHG-'' @ take 8 i) [party_of u] []
                   (Some (''CHANGE_APPROVED:'' @ i))))"

definition approve_checks :: "instant \<Rightarrow> uuid \<Rightarrow> actor_context \<Rightarrow> world \<Rightarrow> http_error + change" where
  "approve_checks now i actor w =
     (case requireChange i w of
        Inl e \<Rightarrow> Inl e
      | Inr c \<Rightarrow>
          if truthy (ch_approverId c) then Inl (Conflict (''Change '' @ i @ '' is already approved''))
          else if ch_windowEnd c < now then Inl (BadRequest (''Change '' @ i @ '' window has already ended''))
          else if truthy (ch_createdBy c) \<and> ch_createdBy c = Some (actorId actor)
          then Inl (BadRequest ''A change cannot be approved by whoever raised it'')
          else Inr c)"

definition changeApprove :: "instant \<Rightarrow> uuid \<Rightarrow> actor_context \<Rightarrow> change_view op" where
  "changeApprove now i actor =
     bindM (readM (approve_checks now i actor)) (\<lambda>c.
     bindM (transaction
       (let u = c\<lparr>ch_approverId := Some (actorId actor)\<rparr> in
        bindM (modifyM (\<lambda>w. w\<lparr>changes := update_by ch_id i (\<lambda>c. c\<lparr>ch_approverId := Some (actorId actor)\<rparr>) (changes w)\<rparr>)) (\<lambda>_.
        bindM (auditRecord now (Some (actorId actor)) ''change'' i ''CHANGE_APPROVED'' (Some (SnapApprover (ch_approverId c)))
                 (Some (SnapApprover (ch_approverId u))) (correlationId actor)) (\<lambda>_. ret u)))) (\<lambda>u.
     bindM (notifyApprover i (ch_approverId u)) (\<lambda>_. ret (decorate u now))))"

definition editsPlan :: "update_change_dto \<Rightarrow> bool" where
  "editsPlan dto \<longleftrightarrow> ucd_reason dto \<noteq> None \<or> ucd_implementationPlan dto \<noteq> None \<or> ucd_validationPlan dto \<noteq> None \<or>
     ucd_rollbackPlan dto \<noteq> None \<or> ucd_risk dto \<noteq> None \<or> ucd_windowStart dto \<noteq> None \<or> ucd_windowEnd dto \<noteq> None \<or>
     ucd_affectedCiIds dto \<noteq> None"

fun change_status_str :: "change_status \<Rightarrow> string" where
  "change_status_str CS_PENDING_APPROVAL = ''PENDING_APPROVAL''"
| "change_status_str CS_SCHEDULED = ''SCHEDULED''"
| "change_status_str CS_IN_PROGRESS = ''IN_PROGRESS''"
| "change_status_str CS_PENDING_REVIEW = ''PENDING_REVIEW''"
| "change_status_str CS_COMPLETED = ''COMPLETED''"

definition update_change_checks :: "instant \<Rightarrow> uuid \<Rightarrow> update_change_dto \<Rightarrow> world \<Rightarrow> http_error + change" where
  "update_change_checks now i dto w =
     (case requireChange i w of
        Inl e \<Rightarrow> Inl e
      | Inr c \<Rightarrow>
          (let status = deriveChangeStatus c now in
           if status = CS_COMPLETED then Inl (Conflict (''Change '' @ i @ '' is completed''))
           else if editsPlan dto \<and> \<not> isEditable status
           then Inl (Conflict (''Change '' @ i @ '' is '' @ change_status_str status @ ''; plan and window can only change before work starts''))
           else if patched (given (ucd_windowEnd dto)) (ch_windowEnd c) \<le> patched (given (ucd_windowStart dto)) (ch_windowStart c)
           then Inl (BadRequest ''windowEnd must be after windowStart'')
           else if ucd_outcome dto \<noteq> None \<and> now < ch_windowStart c
           then Inl (BadRequest ''outcome cannot be recorded before the change window begins'')
           else Inr c))"

definition patch_change :: "update_change_dto \<Rightarrow> change \<Rightarrow> change" where
  "patch_change dto c = c\<lparr>ch_reason := patched (ucd_reason dto) (ch_reason c),
     ch_implementationPlan := patched (ucd_implementationPlan dto) (ch_implementationPlan c),
     ch_validationPlan := patched (ucd_validationPlan dto) (ch_validationPlan c),
     ch_rollbackPlan := patched (ucd_rollbackPlan dto) (ch_rollbackPlan c),
     ch_risk := patched (ucd_risk dto) (ch_risk c),
     ch_windowStart := patched (given (ucd_windowStart dto)) (ch_windowStart c),
     ch_windowEnd := patched (given (ucd_windowEnd dto)) (ch_windowEnd c),
     ch_affectedCiIds := patched (ucd_affectedCiIds dto) (ch_affectedCiIds c),
     ch_outcome := patched (ucd_outcome dto) (ch_outcome c)\<rparr>"

definition changeUpdate :: "instant \<Rightarrow> uuid \<Rightarrow> update_change_dto \<Rightarrow> actor_context \<Rightarrow> change_view op" where
  "changeUpdate now i dto actor =
     bindM (readM (update_change_checks now i dto)) (\<lambda>c.
     bindM (transaction
       (let u = patch_change dto c in
        bindM (modifyM (\<lambda>w. w\<lparr>changes := update_by ch_id i (patch_change dto) (changes w)\<rparr>)) (\<lambda>_.
        bindM (auditRecord now (Some (actorId actor)) ''change'' i ''CHANGE_UPDATED'' (Some (SnapChange c)) (Some (SnapChange u))
                 (correlationId actor)) (\<lambda>_. ret u)))) (\<lambda>u.
     ret (decorate u now)))"

definition covers_ci :: "uuid option \<Rightarrow> change \<Rightarrow> bool" where
  "covers_ci ci c \<longleftrightarrow> \<not> truthy ci \<or> ch_affectedCiIds c = [] \<or> the ci \<in> set (ch_affectedCiIds c)"

definition getActiveMaintenanceWindows :: "instant \<Rightarrow> uuid option \<Rightarrow> world \<Rightarrow> change_view list" where
  "getActiveMaintenanceWindows at ci w =
     map (\<lambda>c. decorate c at)
       (sort_key ch_windowEnd
         (filter (\<lambda>c. ch_approverId c \<noteq> None \<and> ch_windowStart c \<le> at \<and> at \<le> ch_windowEnd c \<and> no_outcome c \<and> covers_ci ci c)
           (changes w)))"

section \<open>The register of changes\<close>

text \<open>
  A change keeps its id, kind and raiser; its window has a positive length; who approved it did not
  raise it and stays the approver; once it is completed only a missing approval can still be added.
\<close>

definition change_ok :: "change \<Rightarrow> bool" where
  "change_ok c \<longleftrightarrow> ch_windowStart c < ch_windowEnd c \<and> (truthy (ch_approverId c) \<longrightarrow> ch_approverId c \<noteq> ch_createdBy c)"

definition besides_approval :: "change \<Rightarrow> change" where
  "besides_approval c = c\<lparr>ch_approverId := None\<rparr>"

lemma besides_approval_outcome: "besides_approval c' = besides_approval c \<Longrightarrow> no_outcome c' \<longleftrightarrow> no_outcome c"
  unfolding besides_approval_def no_outcome_def by (drule arg_cong [of _ _ ch_outcome]) simp

lemma besides_approval_eq: "besides_approval c' = besides_approval c \<Longrightarrow> c' = c\<lparr>ch_approverId := ch_approverId c'\<rparr>"
  unfolding besides_approval_def by (drule arg_cong [of _ _ "\<lambda>x. x\<lparr>ch_approverId := ch_approverId c'\<rparr>"]) simp

definition change_moves :: "change \<Rightarrow> change \<Rightarrow> bool" where
  "change_moves c c' \<longleftrightarrow> ch_changeType c' = ch_changeType c \<and> ch_createdBy c' = ch_createdBy c \<and>
     (truthy (ch_approverId c) \<longrightarrow> ch_approverId c' = ch_approverId c) \<and> (\<not> no_outcome c \<longrightarrow> besides_approval c' = besides_approval c) \<and>
     (change_ok c \<longrightarrow> change_ok c')"

interpretation change_register: register changes ch_id change_ok change_moves
proof
  show "change_moves r r" for r by (simp add: change_moves_def)
  show "change_moves r t" if "change_moves r s" "change_moves s t" for r s t
    using that besides_approval_outcome [of s r] unfolding change_moves_def by metis
  show "change_ok s" if "change_moves r s" "change_ok r" for r s using that by (simp add: change_moves_def)
  show "changes (rollback w w') = changes w" for w w' by (simp add: rollback_def)
qed

abbreviation changes_follow :: "world \<Rightarrow> world \<Rightarrow> bool" where
  "changes_follow \<equiv> rows_follow changes ch_id change_ok change_moves"

lemma change_matches_status:
  assumes "change_ok c"
  shows "change_matches (whereForStatus s now) c \<longleftrightarrow> deriveChangeStatus c now = s"
  using assms
  by (cases s) (auto simp: change_matches_def holds_def no_condition_def NOT_COMPLETED_def deriveChangeStatus_def no_outcome_def change_ok_def)

lemma follow_changeCreate: "obeys changes_follow (changeCreate now dto actor)"
proof -
  have "changes_follow w (snd (changeCreate now dto actor w))" for w
  proof (cases "ccd_windowEnd dto \<le> ccd_windowStart dto")
    case True
    then show ?thesis by (simp add: changeCreate_def change_register.follow_refl)
  next
    case False
    then show ?thesis
      by (intro change_register.follow_insert [where r = "new_change (env_uuid (env w) (uuid_next w)) dto (actorId actor)"])
         (simp_all add: changeCreate_def bindM_def transactionM_def freshId_def Let_def new_change_def change_ok_def)
  qed
  then show ?thesis by (simp add: obeys_def)
qed

lemma follow_notifyApprover: "obeys changes_follow (notifyApprover i a)"
proof -
  have "obeys changes_follow (enqueue q k e to cc j)" for q k e to cc j
    unfolding enqueue_def by (rule change_register.obeys_modify) (auto intro!: change_register.follow_same)
  then show ?thesis unfolding notifyApprover_def by (intro change_register.obeys_rules)
qed

lemma approve_checks_Inr:
  "approve_checks now i actor w = Inr c \<Longrightarrow> find_by ch_id i (changes w) = Some c \<and> \<not> truthy (ch_approverId c) \<and>
     now \<le> ch_windowEnd c \<and> (actorId actor \<noteq> [] \<longrightarrow> ch_createdBy c \<noteq> Some (actorId actor))"
  by (auto simp: approve_checks_def requireChange_def split: option.splits if_splits)

lemma approved_moves:
  "\<not> truthy (ch_approverId c) \<Longrightarrow> actorId actor \<noteq> [] \<longrightarrow> ch_createdBy c \<noteq> Some (actorId actor) \<Longrightarrow>
   change_moves c (c\<lparr>ch_approverId := Some (actorId actor)\<rparr>)"
  by (auto simp: change_moves_def change_ok_def no_outcome_def besides_approval_def)

lemma follow_changeApprove: "obeys changes_follow (changeApprove now i actor)"
proof -
  have "changes_follow w (snd (changeApprove now i actor w))" for w
  proof (cases "approve_checks now i actor w")
    case (Inl e)
    then show ?thesis by (simp add: changeApprove_def change_register.follow_refl)
  next
    case (Inr c)
    define w1 where "w1 = snd ((transaction
       (let u = c\<lparr>ch_approverId := Some (actorId actor)\<rparr> in
        bindM (modifyM (\<lambda>w. w\<lparr>changes := update_by ch_id i (\<lambda>c. c\<lparr>ch_approverId := Some (actorId actor)\<rparr>) (changes w)\<rparr>)) (\<lambda>_.
        bindM (auditRecord now (Some (actorId actor)) ''change'' i ''CHANGE_APPROVED'' (Some (SnapApprover (ch_approverId c)))
                 (Some (SnapApprover (ch_approverId u))) (correlationId actor)) (\<lambda>_. ret u)))) w)"
    have "changes_follow w w1"
      by (rule change_register.follow_update [where k = i and f = "\<lambda>c. c\<lparr>ch_approverId := Some (actorId actor)\<rparr>"])
         (use approve_checks_Inr [OF Inr] in \<open>auto simp: w1_def Let_def transactionM_def intro!: approved_moves\<close>)
    moreover have "snd (changeApprove now i actor w) = snd (notifyApprover i (Some (actorId actor)) w1)"
      using Inr by (simp add: changeApprove_def bindM_def w1_def Let_def transactionM_def notifyApprover_def swallowM_def)
    ultimately show ?thesis using obeysD [OF follow_notifyApprover, of w1] change_register.follow_trans by metis
  qed
  then show ?thesis by (simp add: obeys_def)
qed

lemma update_change_checks_Inr:
  "update_change_checks now i dto w = Inr c \<Longrightarrow> find_by ch_id i (changes w) = Some c \<and> no_outcome c \<and>
     ch_windowStart (patch_change dto c) < ch_windowEnd (patch_change dto c) \<and>
     (editsPlan dto \<longrightarrow> ch_approverId c = None \<or> now < ch_windowStart c) \<and> (ucd_outcome dto \<noteq> None \<longrightarrow> ch_windowStart c \<le> now)"
  by (auto simp: update_change_checks_def requireChange_def Let_def deriveChangeStatus_def no_outcome_def isEditable_def patch_change_def
      split: option.splits if_splits)

lemma patched_moves:
  assumes "no_outcome c" "ch_windowStart (patch_change dto c) < ch_windowEnd (patch_change dto c)"
  shows "ch_id (patch_change dto c) = ch_id c \<and> change_moves c (patch_change dto c)"
  using assms by (auto simp: change_moves_def change_ok_def patch_change_def)

lemma follow_changeUpdate: "obeys changes_follow (changeUpdate now i dto actor)"
proof -
  have "changes_follow w (snd (changeUpdate now i dto actor w))" for w
  proof (cases "update_change_checks now i dto w")
    case (Inl e)
    then show ?thesis by (simp add: changeUpdate_def change_register.follow_refl)
  next
    case (Inr c)
    show ?thesis
      by (rule change_register.follow_update [where k = i and f = "patch_change dto"])
         (use update_change_checks_Inr [OF Inr] Inr patched_moves in \<open>auto simp: changeUpdate_def bindM_def Let_def transactionM_def\<close>)
  qed
  then show ?thesis by (simp add: obeys_def)
qed

inductive change_step :: "world \<Rightarrow> world \<Rightarrow> bool" where
  ch_create: "change_step w (snd (changeCreate now dto actor w))"
| ch_approve: "change_step w (snd (changeApprove now i actor w))"
| ch_update: "change_step w (snd (changeUpdate now i udto actor w))"
| ch_elsewhere: "env w' = env w \<Longrightarrow> uuid_next w \<le> uuid_next w' \<Longrightarrow> changes w' = changes w \<Longrightarrow> change_step w w'"

lemma change_step_follow: "change_step w w' \<Longrightarrow> changes_follow w w'"
  by (induction rule: change_step.induct)
     (auto intro: obeysD follow_changeCreate follow_changeApprove follow_changeUpdate change_register.follow_same)

lemma change_run: "change_step\<^sup>*\<^sup>* w w' \<Longrightarrow> changes_follow w w'"
  using change_step_follow by (rule change_register.run_follow)

lemma maintenance_in_progress:
  "filter (\<lambda>c. ch_approverId c \<noteq> None \<and> ch_windowStart c \<le> at \<and> at \<le> ch_windowEnd c \<and> no_outcome c \<and> covers_ci ci c) cs =
   filter (\<lambda>c. deriveChangeStatus c at = CS_IN_PROGRESS \<and> covers_ci ci c) cs"
  by (rule filter_cong) (auto simp: deriveChangeStatus_def no_outcome_def)

lemma active_windows_iff:
  "getActiveMaintenanceWindows at ci w \<noteq> [] \<longleftrightarrow> (\<exists>c \<in> set (changes w). deriveChangeStatus c at = CS_IN_PROGRESS \<and> covers_ci ci c)"
proof -
  have "getActiveMaintenanceWindows at ci w = [] \<longleftrightarrow> set (getActiveMaintenanceWindows at ci w) = {}" by simp
  then show ?thesis unfolding getActiveMaintenanceWindows_def maintenance_in_progress by auto
qed

section \<open>The properties\<close>

text \<open>
  C21: through any sequence of requests a change keeps its raiser, is never approved by its raiser,
  keeps its first approver and a window of positive length; once its outcome is recorded nothing of
  it changes any more but a missing approval.
\<close>

theorem change_control:
  assumes "change_step\<^sup>*\<^sup>* w w'" "register_inv changes ch_id change_ok w" "find_by ch_id i (changes w) = Some c"
  shows "\<exists>c'. find_by ch_id i (changes w') = Some c' \<and> ch_windowStart c' < ch_windowEnd c' \<and>
     ch_createdBy c' = ch_createdBy c \<and> (truthy (ch_approverId c') \<longrightarrow> ch_approverId c' \<noteq> ch_createdBy c) \<and>
     (truthy (ch_approverId c) \<longrightarrow> ch_approverId c' = ch_approverId c) \<and>
     (deriveChangeStatus c now = CS_COMPLETED \<longrightarrow> c' = c\<lparr>ch_approverId := ch_approverId c'\<rparr>)"
proof -
  have run: "changes_follow w w'" using change_run assms(1) .
  then obtain c' where c': "find_by ch_id i (changes w') = Some c'" "change_moves c c'"
    using change_register.follow_row assms(2,3) by (metis register_inv_def)
  have "register_inv changes ch_id change_ok w'" using change_register.follow_inv run assms(2) .
  then have "change_ok c'" using find_by_SomeD [OF c'(1)] by (auto simp: register_inv_def list_all_iff)
  moreover have "\<not> no_outcome c" if "deriveChangeStatus c now = CS_COMPLETED"
    using that by (auto simp: deriveChangeStatus_def no_outcome_def split: if_splits)
  ultimately show ?thesis using c' besides_approval_eq [of c' c] unfolding change_ok_def change_moves_def by metis
qed

definition raised_change :: change where
  "raised_change = new_change ''0'' \<lparr>ccd_changeType = NORMAL, ccd_reason = ''psu'', ccd_implementationPlan = ''a'',
     ccd_validationPlan = ''b'', ccd_rollbackPlan = ''c'', ccd_risk = ''low'', ccd_windowStart = 1000, ccd_windowEnd = 2000,
     ccd_affectedCiIds = None\<rparr> ''u-1''"

definition change_world :: world where
  "change_world = empty_world\<lparr>uuid_next := 1, changes := [raised_change]\<rparr>"

lemma change_world_inv: "register_inv changes ch_id change_ok change_world"
  by (auto simp: register_inv_def keys_ok_def change_world_def raised_change_def new_change_def empty_world_def change_ok_def issued_def
      nat_str_zero intro: injI nat_str_inj)

theorem change_control_witness:
  "\<exists>c'. find_by ch_id ''0'' (changes (snd (changeApprove 500 ''0'' \<lparr>actorId = ''u-2'', correlationId = None\<rparr> change_world))) = Some c' \<and>
     ch_createdBy c' = Some ''u-1'' \<and> (truthy (ch_approverId c') \<longrightarrow> ch_approverId c' \<noteq> Some ''u-1'')"
proof -
  have found: "find_by ch_id ''0'' (changes change_world) = Some raised_change" and who: "ch_createdBy raised_change = Some ''u-1''"
    by (simp_all add: change_world_def raised_change_def new_change_def)
  show ?thesis
    using change_control [OF r_into_rtranclp [of change_step, OF ch_approve] change_world_inv found] unfolding who by blast
qed

text \<open>
  A list of changes filtered by status holds exactly the changes whose derived status it is
  (newest window first, up to the limit): the database condition agrees with the function.
\<close>

theorem status_filter_agrees:
  assumes "register_inv changes ch_id change_ok w"
  shows "changesList now \<lparr>qcd_changeType = None, qcd_status = Some s, qcd_activeAt = None, qcd_limit = n\<rparr> w =
     map (\<lambda>c. decorate c now) (take (option_default 50 n) (sort_key (\<lambda>c. - ch_windowStart c)
       (filter (\<lambda>c. deriveChangeStatus c now = s) (changes w))))"
proof -
  have "list_where \<lparr>qcd_changeType = None, qcd_status = Some s, qcd_activeAt = None, qcd_limit = n\<rparr> now = whereForStatus s now"
    by (cases s) (simp_all add: list_where_def spread_def no_condition_def NOT_COMPLETED_def)
  moreover have "filter (change_matches (whereForStatus s now)) (changes w) = filter (\<lambda>c. deriveChangeStatus c now = s) (changes w)"
    by (rule filter_cong) (use assms change_matches_status in \<open>auto simp: register_inv_def list_all_iff\<close>)
  ultimately show ?thesis by (simp add: changesList_def)
qed

theorem status_filter_agrees_witness:
  "changesList 500 \<lparr>qcd_changeType = None, qcd_status = Some CS_PENDING_APPROVAL, qcd_activeAt = None, qcd_limit = None\<rparr> change_world =
     [decorate raised_change 500]"
  unfolding status_filter_agrees [OF change_world_inv]
  by (simp add: change_world_def raised_change_def new_change_def deriveChangeStatus_def)

text \<open>
  Asking for the scheduled changes that are active at the present instant returns the changes
  in progress instead: the condition on the window replaces the one the status stands for.
\<close>

theorem active_filter_replaces_status:
  "changesList now \<lparr>qcd_changeType = None, qcd_status = Some CS_SCHEDULED, qcd_activeAt = Some now, qcd_limit = n\<rparr> w =
     map (\<lambda>c. decorate c now) (take (option_default 50 n) (sort_key (\<lambda>c. - ch_windowStart c)
       (filter (\<lambda>c. deriveChangeStatus c now = CS_IN_PROGRESS) (changes w))))"
proof -
  have "filter (change_matches (list_where \<lparr>qcd_changeType = None, qcd_status = Some CS_SCHEDULED, qcd_activeAt = Some now, qcd_limit = n\<rparr> now))
      (changes w) = filter (\<lambda>c. deriveChangeStatus c now = CS_IN_PROGRESS) (changes w)"
    by (rule filter_cong) (auto simp: list_where_def spread_def no_condition_def NOT_COMPLETED_def change_matches_def holds_def
        deriveChangeStatus_def no_outcome_def)
  then show ?thesis by (simp add: changesList_def)
qed

text \<open>
  A change nobody approved can be completed: once its window has begun an outcome is accepted,
  the change becomes completed and its approver is still missing.
\<close>

theorem completed_without_approval:
  assumes "find_by ch_id i (changes w) = Some c" "ch_approverId c = None" "no_outcome c" "ch_windowStart c < ch_windowEnd c"
    "ch_windowStart c \<le> now" "s \<noteq> []"
  shows "\<exists>v w'. changeUpdate now i \<lparr>ucd_reason = None, ucd_implementationPlan = None, ucd_validationPlan = None, ucd_rollbackPlan = None,
        ucd_risk = None, ucd_windowStart = None, ucd_windowEnd = None, ucd_affectedCiIds = None, ucd_outcome = Some (Some s)\<rparr> actor w = (Inr v, w') \<and>
     cv_status v = CS_COMPLETED \<and> map_option ch_approverId (find_by ch_id i (changes w')) = Some None"
proof -
  let ?dto = "\<lparr>ucd_reason = None, ucd_implementationPlan = None, ucd_validationPlan = None, ucd_rollbackPlan = None,
        ucd_risk = None, ucd_windowStart = None, ucd_windowEnd = None, ucd_affectedCiIds = None, ucd_outcome = Some (Some s)\<rparr>"
  have "update_change_checks now i ?dto w = Inr c"
    using assms by (auto simp: update_change_checks_def requireChange_def Let_def deriveChangeStatus_def no_outcome_def editsPlan_def)
  moreover have "find_by ch_id i (update_by ch_id i (patch_change ?dto) (changes w)) = Some (patch_change ?dto c)"
    using assms(1) by (subst find_by_update_by_same) (simp_all add: patch_change_def)
  moreover have "cv_status (decorate (patch_change ?dto c) now) = CS_COMPLETED" "ch_approverId (patch_change ?dto c) = None"
    using assms by (simp_all add: decorate_def patch_change_def deriveChangeStatus_def change.defs)
  ultimately show ?thesis by (simp add: changeUpdate_def bindM_def Let_def transactionM_def)
qed

theorem completed_without_approval_witness:
  "\<exists>v w'. changeUpdate 1500 ''0'' \<lparr>ucd_reason = None, ucd_implementationPlan = None, ucd_validationPlan = None, ucd_rollbackPlan = None,
        ucd_risk = None, ucd_windowStart = None, ucd_windowEnd = None, ucd_affectedCiIds = None, ucd_outcome = Some (Some ''done'')\<rparr>
        \<lparr>actorId = ''u-1'', correlationId = None\<rparr> change_world = (Inr v, w') \<and> cv_status v = CS_COMPLETED"
proof -
  have "find_by ch_id ''0'' (changes change_world) = Some raised_change" "ch_approverId raised_change = None" "no_outcome raised_change"
    "ch_windowStart raised_change = 1000" "ch_windowEnd raised_change = 2000"
    by (simp_all add: change_world_def raised_change_def new_change_def no_outcome_def)
  then show ?thesis
    using completed_without_approval [of "''0''" change_world raised_change 1500 "''done''" "\<lparr>actorId = ''u-1'', correlationId = None\<rparr>"] by auto
qed

end
