(* ===== verification/Alerts.thy ===== *)
theory Alerts
  imports Alert_Rules Changes Incidents
begin

text \<open>
  Alert ingestion (\<^verbatim>\<open>alerts/alerts.service.ts\<close>, \<^verbatim>\<open>alerts/alerts.fingerprint.ts\<close>): de-duplication by
  source and event id, the lifecycle of an alert, flapping, maintenance suppression, paging,
  correlation with an open ticket and opening a new one.
\<close>

section \<open>The code\<close>

text \<open>A value of the free-form \<open>attributes\<close> object: the code looks at one string member.\<close>

datatype json_value = JNull | JString string | JOther

record ingest_alert_dto =
  id_eventId :: string
  id_source :: string
  id_siteCode :: string
  id_ciCode :: string
  id_alertType :: string
  id_severity :: alert_severity
  id_componentKey :: "string option"
  id_occurredAt :: instant
  id_state :: alert_state
  id_summary :: string
  id_attributes :: "(string \<times> json_value) list option"

record alert_ingest_result =
  ir_alertId :: uuid
  ir_fingerprint :: string
  ir_deduped :: bool
  ir_stateChanged :: bool
  ir_siteResolved :: bool
  ir_ciResolved :: bool
  ir_flapping :: bool
  ir_recentOccurrences :: nat
  ir_suppressedByMaintenance :: bool
  ir_autoTicketSuppressed :: bool
  ir_correlatedIncidentId :: "uuid option"
  ir_incidentCreated :: bool

fun severity_str :: "alert_severity \<Rightarrow> string" where
  "severity_str A_CRITICAL = ''CRITICAL''"
| "severity_str A_HIGH = ''HIGH''"
| "severity_str A_WARNING = ''WARNING''"
| "severity_str A_INFO = ''INFO''"

definition fingerprint_text :: "string \<Rightarrow> string \<Rightarrow> string \<Rightarrow> string option \<Rightarrow> string" where
  "fingerprint_text siteCode ciCode alertType componentKey =
     join ''|'' (map (toLowerCase \<circ> trim) [siteCode, ciCode, alertType, option_default [] componentKey])"

definition computeAlertFingerprint :: "world \<Rightarrow> ingest_alert_dto \<Rightarrow> string" where
  "computeAlertFingerprint w dto =
     env_sha256 (env w) (fingerprint_text (id_siteCode dto) (id_ciCode dto) (id_alertType dto) (id_componentKey dto))"

definition reduceAlertState :: "alert_state \<Rightarrow> alert_state \<Rightarrow> alert_state" where
  "reduceAlertState current incoming =
     (if current = A_RECOVERED then A_RECOVERED
      else if incoming = A_RECOVERED then A_RECOVERED
      else if incoming = A_ACKNOWLEDGED \<and> current = A_OPEN then A_ACKNOWLEDGED
      else current)"

definition extractRawReference :: "(string \<times> json_value) list option \<Rightarrow> string option" where
  "extractRawReference attributes =
     (case attributes of
        None \<Rightarrow> None
      | Some kv \<Rightarrow>
          (case map_of kv ''rawReference'' of
             Some (JString s) \<Rightarrow> (if s \<noteq> [] then Some s else None)
           | _ \<Rightarrow> None))"

definition new_alert :: "uuid \<Rightarrow> ingest_alert_dto \<Rightarrow> uuid option \<Rightarrow> uuid option \<Rightarrow> string \<Rightarrow> alert" where
  "new_alert i dto siteId ciId fingerprint = \<lparr>al_id = i, al_externalEventId = id_eventId dto, al_source = id_source dto,
     al_siteId = siteId, al_ciId = ciId, al_alertType = id_alertType dto, al_severity = id_severity dto,
     al_fingerprint = fingerprint, al_firstSeenAt = id_occurredAt dto, al_lastSeenAt = id_occurredAt dto,
     al_state = id_state dto, al_rawReference = extractRawReference (id_attributes dto), al_correlatedIncidentId = None\<rparr>"

definition update_alert :: "ingest_alert_dto \<Rightarrow> uuid option \<Rightarrow> uuid option \<Rightarrow> alert \<Rightarrow> alert \<Rightarrow> alert" where
  "update_alert dto siteId ciId existing a = a\<lparr>al_severity := id_severity dto,
     al_state := reduceAlertState (al_state existing) (id_state dto),
     al_lastSeenAt := (if al_lastSeenAt existing < id_occurredAt dto then id_occurredAt dto else al_lastSeenAt existing),
     al_siteId := option_or (al_siteId existing) siteId, al_ciId := option_or (al_ciId existing) ciId\<rparr>"

definition existing_alert :: "ingest_alert_dto \<Rightarrow> world \<Rightarrow> alert option" where
  "existing_alert dto w = find_by (\<lambda>a. (al_source a, al_externalEventId a)) (id_source dto, id_eventId dto) (alerts w)"

record sighting =
  sg_alertId :: uuid
  sg_deduped :: bool
  sg_stateChanged :: bool
  sg_finalState :: alert_state

definition createAlert :: "instant \<Rightarrow> ingest_alert_dto \<Rightarrow> uuid option \<Rightarrow> uuid option \<Rightarrow> string \<Rightarrow> actor_context \<Rightarrow> sighting op" where
  "createAlert now dto siteId ciId fingerprint actor =
     bindM (transaction
       (bindM freshId (\<lambda>i.
        let c = new_alert i dto siteId ciId fingerprint in
        bindM (modifyM (\<lambda>w. w\<lparr>alerts := alerts w @ [c]\<rparr>)) (\<lambda>_.
        bindM (auditRecord now (Some (actorId actor)) ''alert'' i ''ALERT_RAISED'' None (Some (SnapAlert c)) (correlationId actor)) (\<lambda>_.
        ret c))))) (\<lambda>c.
     ret \<lparr>sg_alertId = al_id c, sg_deduped = False, sg_stateChanged = True, sg_finalState = id_state dto\<rparr>)"

definition refreshAlert :: "instant \<Rightarrow> ingest_alert_dto \<Rightarrow> uuid option \<Rightarrow> uuid option \<Rightarrow> alert \<Rightarrow> actor_context \<Rightarrow> sighting op" where
  "refreshAlert now dto siteId ciId existing actor =
     (let nextState = reduceAlertState (al_state existing) (id_state dto);
          stateChanged = (nextState \<noteq> al_state existing);
          save = modifyM (\<lambda>w. w\<lparr>alerts := update_by al_id (al_id existing) (update_alert dto siteId ciId existing) (alerts w)\<rparr>)
      in bindM
           (if stateChanged
            then transaction
              (bindM save (\<lambda>_.
               auditRecord now (Some (actorId actor)) ''alert'' (al_id existing) ''ALERT_STATE_CHANGED''
                 (Some (SnapAlertState (al_state existing) (al_severity existing)))
                 (Some (SnapAlertState nextState (id_severity dto))) (correlationId actor)))
            else save) (\<lambda>_.
         ret \<lparr>sg_alertId = al_id existing, sg_deduped = True, sg_stateChanged = stateChanged, sg_finalState = nextState\<rparr>))"

definition recordSighting ::
  "instant \<Rightarrow> ingest_alert_dto \<Rightarrow> uuid option \<Rightarrow> uuid option \<Rightarrow> string \<Rightarrow> alert option \<Rightarrow> actor_context \<Rightarrow> sighting op" where
  "recordSighting now dto siteId ciId fingerprint existing actor =
     (case existing of
        Some e \<Rightarrow> refreshAlert now dto siteId ciId e actor
      | None \<Rightarrow> createAlert now dto siteId ciId fingerprint actor)"

definition noc_roster :: "world \<Rightarrow> user list" where
  "noc_roster w = filter (\<lambda>u. u_isActive u \<and> u_role u \<in> {SERVICE_DESK_NOC, INFRASTRUCTURE_LEAD}) (users w)"

definition notifyNocOfCriticalAlert :: "instant \<Rightarrow> uuid \<Rightarrow> ingest_alert_dto \<Rightarrow> unit op" where
  "notifyNocOfCriticalAlert now alertId dto = swallowM
     (bindM (getM noc_roster) (\<lambda>roster.
      if roster = [] then ret ()
      else bindM (notifyUsers now \<lparr>ni_userIds = map (Some \<circ> u_id) roster, ni_kind = ALERT_RAISED,
               ni_title = severity_str (id_severity dto) @ '' alert on '' @ id_siteCode dto @ '': '' @ id_alertType dto,
               ni_body = (if id_summary dto = [] then None else Some (id_summary dto)), ni_entityType = ''ALERT'',
               ni_entityId = alertId, ni_level = levelForAlertSeverity (id_severity dto),
               ni_dedupeKey = Some (''alert-raised:'' @ alertId), ni_actorUserId = None\<rparr>) (\<lambda>_.
           enqueue ''notifications'' ''ALERT_RAISED'' (''ALRT-'' @ take 8 alertId) (map party_of roster) []
             (Some (''ALERT_RAISED:'' @ alertId @ '':paged'')))))"

definition isCiUnderMaintenance :: "instant \<Rightarrow> uuid \<Rightarrow> world \<Rightarrow> bool" where
  "isCiUnderMaintenance now ciId w \<longleftrightarrow> getActiveMaintenanceWindows now (Some ciId) w \<noteq> []"

definition suppressed_by_maintenance :: "instant \<Rightarrow> configuration_item option \<Rightarrow> world \<Rightarrow> bool" where
  "suppressed_by_maintenance now ci w =
     (case ci of None \<Rightarrow> False | Some c \<Rightarrow> ci_lifecycleStatus c = MAINTENANCE \<or> isCiUnderMaintenance now (ci_id c) w)"

text \<open>\<open>prisma.alert.update\<close> of the correlation; it throws when the row is gone.\<close>

definition setCorrelated :: "uuid \<Rightarrow> uuid \<Rightarrow> unit op" where
  "setCorrelated alertId incidentId =
     bindM (getM (\<lambda>w. alertId \<in> al_id ` set (alerts w))) (\<lambda>found.
     bindM (guardM found (Internal ''Record to update not found'')) (\<lambda>_.
     modifyM (\<lambda>w. w\<lparr>alerts := update_by al_id alertId (\<lambda>a. a\<lparr>al_correlatedIncidentId := Some incidentId\<rparr>) (alerts w)\<rparr>)))"

definition alert_ref_of :: "uuid \<Rightarrow> ingest_alert_dto \<Rightarrow> string \<Rightarrow> alert_ref" where
  "alert_ref_of alertId dto fingerprint = \<lparr>ra_id = alertId, ra_alertType = id_alertType dto, ra_severity = id_severity dto,
     ra_source = id_source dto, ra_fingerprint = fingerprint\<rparr>"

definition correlateToOpenIncident :: "instant \<Rightarrow> uuid \<Rightarrow> uuid \<Rightarrow> alert_ref \<Rightarrow> actor_context \<Rightarrow> uuid option op" where
  "correlateToOpenIncident now alertId ciId ref actor = catchM
     (bindM (getM (findOpenByCi ciId)) (\<lambda>found.
      case found of
        None \<Rightarrow> ret None
      | Some inc \<Rightarrow>
          bindM (linkAlert now (i_id inc) ref actor) (\<lambda>_.
          bindM (setCorrelated alertId (i_id inc)) (\<lambda>_.
          ret (Some (i_id inc))))))
     (\<lambda>_. ret None)"

definition openIncidentForAlert ::
  "instant \<Rightarrow> uuid \<Rightarrow> uuid \<Rightarrow> uuid \<Rightarrow> string \<Rightarrow> ingest_alert_dto \<Rightarrow> effective_rule \<Rightarrow> actor_context \<Rightarrow> (uuid \<times> bool) option op" where
  "openIncidentForAlert now alertId siteId ciId fingerprint dto rule actor = catchM
     (bindM (createFromAlert now
        \<lparr>ac_siteId = siteId, ac_ciId = ciId,
         ac_category = option_default DEFAULT_AUTO_INCIDENT_CATEGORY (er_incidentCategory rule),
         ac_priority = option_default (SEVERITY_TO_INCIDENT_PRIORITY (id_severity dto)) (er_incidentPriority rule),
         ac_shortDescription = ''['' @ id_ciCode dto @ ''] '' @ id_summary dto @ '' ('' @ id_alertType dto @ '')'',
         ac_alert = alert_ref_of alertId dto fingerprint\<rparr> actor) (\<lambda>(inc, created).
      bindM (setCorrelated alertId (i_id inc)) (\<lambda>_.
      ret (Some (i_id inc, created)))))
     (\<lambda>_. ret None)"

definition notifyAlertRecoveredIfAlreadyClosed :: "instant \<Rightarrow> uuid \<Rightarrow> uuid \<Rightarrow> ingest_alert_dto \<Rightarrow> actor_context \<Rightarrow> unit op" where
  "notifyAlertRecoveredIfAlreadyClosed now incidentId alertId dto actor = swallowM
     (bindM (notifyAlertRecovered now incidentId (alert_ref_of alertId dto []) actor) (\<lambda>_. ret ()))"

definition recent_occurrences :: "instant \<Rightarrow> string \<Rightarrow> effective_rule \<Rightarrow> world \<Rightarrow> nat" where
  "recent_occurrences now fingerprint rule w =
     length (filter (\<lambda>a. al_fingerprint a = fingerprint \<and> now - er_flappingWindowMinutes rule * 60000 \<le> al_lastSeenAt a) (alerts w))"

text \<open>Correlation and auto-creation, with the alert's earlier correlation as the start value.\<close>

definition ticketAlert ::
  "instant \<Rightarrow> sighting \<Rightarrow> uuid option \<Rightarrow> uuid option \<Rightarrow> uuid option \<Rightarrow> string \<Rightarrow> ingest_alert_dto \<Rightarrow> effective_rule \<Rightarrow> bool \<Rightarrow>
   actor_context \<Rightarrow> (uuid option \<times> bool) op" where
  "ticketAlert now sg siteId ciId earlier fingerprint dto rule suppressed actor =
     bindM (if er_autoCorrelateIncidents rule \<and> \<not> suppressed \<and> truthy ciId \<and> sg_finalState sg \<noteq> A_RECOVERED \<and> \<not> truthy earlier
            then correlateToOpenIncident now (sg_alertId sg) (the ciId) (alert_ref_of (sg_alertId sg) dto fingerprint) actor
            else ret earlier) (\<lambda>correlated.
     if \<not> truthy correlated \<and> er_autoCorrelateIncidents rule \<and> \<not> suppressed \<and> truthy ciId \<and> truthy siteId \<and>
        sg_finalState sg \<noteq> A_RECOVERED \<and> id_severity dto \<in> set (er_autoCreateSeverities rule)
     then bindM (openIncidentForAlert now (sg_alertId sg) (the siteId) (the ciId) fingerprint dto rule actor) (\<lambda>opened.
          ret (case opened of Some (i, created) \<Rightarrow> (Some i, created) | None \<Rightarrow> (correlated, False)))
     else ret (correlated, False))"

definition ingest :: "instant \<Rightarrow> ingest_alert_dto \<Rightarrow> actor_context \<Rightarrow> alert_ingest_result op" where
  "ingest now dto actor =
     bindM (getM (\<lambda>w. find_by s_code (id_siteCode dto) (sites w))) (\<lambda>site.
     bindM (getM (\<lambda>w. find_by ci_code (id_ciCode dto) (cis w))) (\<lambda>ci.
     bindM (resolveRule now (map_option s_id site) (Some (id_alertType dto))) (\<lambda>rule.
     bindM (getM (\<lambda>w. computeAlertFingerprint w dto)) (\<lambda>fingerprint.
     bindM (getM (existing_alert dto)) (\<lambda>existing.
     bindM (recordSighting now dto (map_option s_id site) (map_option ci_id ci) fingerprint existing actor) (\<lambda>sg.
     bindM (getM (recent_occurrences now fingerprint rule)) (\<lambda>recent.
     bindM (getM (suppressed_by_maintenance now ci)) (\<lambda>suppressedByMaintenance.
     let suppressed = (suppressedByMaintenance \<and> er_suppressAutoTicketDuringMaintenance rule) in
     bindM (if \<not> sg_deduped sg \<and> id_severity dto \<in> set (er_pagingSeverities rule) \<and> \<not> suppressed
            then notifyNocOfCriticalAlert now (sg_alertId sg) dto else ret ()) (\<lambda>_.
     let ciId = option_or (map_option ci_id ci) (case existing of None \<Rightarrow> None | Some e \<Rightarrow> al_ciId e);
         siteId = option_or (map_option s_id site) (case existing of None \<Rightarrow> None | Some e \<Rightarrow> al_siteId e);
         earlier = (case existing of None \<Rightarrow> None | Some e \<Rightarrow> al_correlatedIncidentId e) in
     bindM (ticketAlert now sg siteId ciId earlier fingerprint dto rule suppressed actor) (\<lambda>(correlated, created).
     bindM (if sg_finalState sg = A_RECOVERED \<and> sg_stateChanged sg \<and> truthy correlated
            then notifyAlertRecoveredIfAlreadyClosed now (the correlated) (sg_alertId sg) dto actor else ret ()) (\<lambda>_.
     ret \<lparr>ir_alertId = sg_alertId sg, ir_fingerprint = fingerprint, ir_deduped = sg_deduped sg,
          ir_stateChanged = sg_stateChanged sg, ir_siteResolved = (site \<noteq> None), ir_ciResolved = (ci \<noteq> None),
          ir_flapping = (er_flappingThreshold rule \<le> int recent), ir_recentOccurrences = recent,
          ir_suppressedByMaintenance = suppressedByMaintenance, ir_autoTicketSuppressed = suppressed,
          ir_correlatedIncidentId = correlated, ir_incidentCreated = created\<rparr>)))))))))))"

end
