(* ===== verification/Alert_Props.thy ===== *)
theory Alert_Props
  imports Alerts Ticket_Numbers
begin

text \<open>
  What one ingestion does, stage by stage, and the properties of the alert pipeline: it never fails,
  an event is one row however often it is delivered, the lifecycle only moves forward, and
  maintenance keeps it quiet.
\<close>

section \<open>Frames\<close>

definition same_alerts :: "world \<Rightarrow> world \<Rightarrow> bool" where
  "same_alerts w w' \<longleftrightarrow> counters_grow w w' \<and> alerts w' = alerts w"

interpretation alerts_same: frame_relation same_alerts
  by unfold_locales (auto simp: same_alerts_def intro: counters_grow_trans)

lemma same_alertsI: "obeys numbers_kept m \<Longrightarrow> keeps alerts m \<Longrightarrow> obeys same_alerts m"
  by (simp add: obeys_def keeps_def same_alerts_def numbers_kept_def)

lemma keeps_alerts_parts:
  "keeps alerts (add_event now i aa ev0)" "keeps alerts (notifyAlertRecoveredEmail inc al)"
  "keeps alerts (notifyRecoveredBell now inc al at')" "keeps alerts (notifyServiceDeskOfNewIncident now inc a)"
  "keeps alerts (emit ev)" "keeps alerts (startForIncident now i st p act)" "keeps alerts (auditRecord n aa t i x b f c)"
  "keeps alerts freshId" "keeps alerts nextIncidentNo" "keeps alerts (insert_incident r)"
proof -
  show "keeps alerts (add_event now i aa ev0)" "keeps alerts (emit ev)" "keeps alerts (auditRecord n aa t i x b f c)"
    "keeps alerts freshId" "keeps alerts nextIncidentNo" "keeps alerts (insert_incident r)"
    by (simp_all add: keeps_def add_event_def emit_def nextIncidentNo_eval insert_incident_def bindM_def)
  show "keeps alerts (notifyAlertRecoveredEmail inc al)" "keeps alerts (notifyRecoveredBell now inc al at')"
    "keeps alerts (notifyServiceDeskOfNewIncident now inc a)"
    by (rule keeps_committedD, rule keeps_notices, simp)+
  have "keeps beside_sla (startForIncident now i st p act)" by (rule keeps_intros)
  moreover have "alerts w' = alerts w" if "beside_sla w' = beside_sla w" for w w'
    using arg_cong [OF that, of alerts] by (simp add: beside_sla_def)
  ultimately show "keeps alerts (startForIncident now i st p act)" unfolding keeps_def by blast
qed

lemma keeps_alerts_transaction: "keeps alerts m \<Longrightarrow> keeps alerts (transaction m)"
  by (rule keeps_transaction) (simp_all add: rollback_def)

lemma keeps_alerts_ops:
  "keeps alerts (linkAlert now i al act)" "keeps alerts (createFromAlert now inp act)" "keeps alerts (notifyAlertRecovered now i al act)"
  unfolding linkAlert_def writeAlertLink_def createFromAlert_def createFromAlertInTx_def createInTx_def afterCreate_def
    notifyAlertRecovered_def noteAlertRecoveredOnOpenIncident_def
  by (intro keeps_basic keeps_bind keeps_if keeps_option keeps_prod keeps_let keeps_alerts_transaction keeps_alerts_parts)+

lemma same_alerts_ops:
  "obeys same_alerts (linkAlert now i al act)" "obeys same_alerts (createFromAlert now inp act)"
  "obeys same_alerts (notifyAlertRecovered now i al act)"
  by (rule same_alertsI, rule numbers_ops, rule keeps_alerts_ops)+

lemma same_alerts_told:
  "obeys same_alerts (notifyNocOfCriticalAlert now alertId dto)"
  "obeys same_alerts (notifyAlertRecoveredIfAlreadyClosed now i alertId dto act)"
proof -
  have "obeys same_alerts (notifyUsers now inp)" for inp
    by (rule same_alertsI [OF obeys_numbers [OF tickets_notifyUsers]], rule keeps_committedD, rule keeps_notifyUsers, simp)
  moreover have "obeys same_alerts (enqueue q k e to cc j)" for q k e to cc j
    by (rule same_alertsI [OF obeys_numbers [OF tickets_basic(6)]], rule keeps_committedD, rule keeps_enqueue, simp)
  ultimately show "obeys same_alerts (notifyNocOfCriticalAlert now alertId dto)"
    unfolding notifyNocOfCriticalAlert_def by (intro alerts_same.obeys_rules)
  show "obeys same_alerts (notifyAlertRecoveredIfAlreadyClosed now i alertId dto act)"
    unfolding notifyAlertRecoveredIfAlreadyClosed_def by (intro alerts_same.obeys_rules same_alerts_ops)
qed

section \<open>The life of an alert\<close>

text \<open>
  A row keeps what identifies the event; the last sighting never goes back; a recovered alert stays
  recovered and an acknowledged one is never open again; site, device and ticket are filled in once.
\<close>

definition alert_moves :: "alert \<Rightarrow> alert \<Rightarrow> bool" where
  "alert_moves a b \<longleftrightarrow> al_source b = al_source a \<and> al_externalEventId b = al_externalEventId a \<and> al_fingerprint b = al_fingerprint a \<and>
     al_firstSeenAt b = al_firstSeenAt a \<and> al_lastSeenAt a \<le> al_lastSeenAt b \<and>
     (al_state a = A_RECOVERED \<longrightarrow> al_state b = A_RECOVERED) \<and> (al_state a = A_ACKNOWLEDGED \<longrightarrow> al_state b \<noteq> A_OPEN) \<and>
     (al_siteId a \<noteq> None \<longrightarrow> al_siteId b = al_siteId a) \<and> (al_ciId a \<noteq> None \<longrightarrow> al_ciId b = al_ciId a) \<and>
     (truthy (al_correlatedIncidentId a) \<longrightarrow> al_correlatedIncidentId b = al_correlatedIncidentId a)"

definition any_alert :: "alert \<Rightarrow> bool" where
  "any_alert a = True"

interpretation alert_register: register alerts al_id any_alert alert_moves
proof
  show "alert_moves r t" if "alert_moves r s" "alert_moves s t" for r s t
    using that unfolding alert_moves_def by (cases "al_state s") auto
qed (auto simp: alert_moves_def any_alert_def rollback_def)

abbreviation alerts_follow :: "world \<Rightarrow> world \<Rightarrow> bool" where
  "alerts_follow \<equiv> rows_follow alerts al_id any_alert alert_moves"

definition event_key :: "alert \<Rightarrow> string \<times> string" where
  "event_key a = (al_source a, al_externalEventId a)"

lemma same_alerts_follow: "same_alerts w w' \<Longrightarrow> alerts_follow w w'"
  by (rule alert_register.follow_same) (simp_all add: same_alerts_def counters_grow_def)

lemma refreshed_moves: "al_id (update_alert dto s c e e) = al_id e \<and> alert_moves e (update_alert dto s c e e)"
  by (auto simp: update_alert_def alert_moves_def reduceAlertState_def option_or_def split: option.split)

lemma correlated_moves: "\<not> truthy (al_correlatedIncidentId a) \<Longrightarrow> alert_moves a (a\<lparr>al_correlatedIncidentId := Some i\<rparr>)"
  by (simp add: alert_moves_def)

section \<open>The stages\<close>

lemma refreshAlert_eval:
  "\<exists>aud. refreshAlert now dto s c e act w =
     (Inr \<lparr>sg_alertId = al_id e, sg_deduped = True, sg_stateChanged = (reduceAlertState (al_state e) (id_state dto) \<noteq> al_state e),
           sg_finalState = reduceAlertState (al_state e) (id_state dto)\<rparr>,
      w\<lparr>alerts := update_by al_id (al_id e) (update_alert dto s c e) (alerts w), audits := aud\<rparr>)"
proof (cases "reduceAlertState (al_state e) (id_state dto) = al_state e")
  case True
  then show ?thesis by (intro exI [of _ "audits w"]) (simp add: refreshAlert_def)
next
  case False
  then show ?thesis by (simp add: refreshAlert_def Let_def bindM_def transactionM_def) (rule exI, rule refl)
qed

lemma new_alert_simps [simp]:
  "al_id (new_alert i dto s c fp) = i" "event_key (new_alert i dto s c fp) = (id_source dto, id_eventId dto)"
  "al_correlatedIncidentId (new_alert i dto s c fp) = None" "al_state (new_alert i dto s c fp) = id_state dto"
  by (simp_all add: new_alert_def event_key_def)

lemma createAlert_eval:
  "\<exists>aud. createAlert now dto s c fp act w =
     (Inr \<lparr>sg_alertId = env_uuid (env w) (uuid_next w), sg_deduped = False, sg_stateChanged = True, sg_finalState = id_state dto\<rparr>,
      w\<lparr>uuid_next := Suc (uuid_next w), alerts := alerts w @ [new_alert (env_uuid (env w) (uuid_next w)) dto s c fp], audits := aud\<rparr>)"
  by (simp add: createAlert_def Let_def bindM_def transactionM_def) (rule exI, rule refl)

lemma setCorrelated_eval:
  "setCorrelated a i w = (if a \<in> al_id ` set (alerts w)
     then (Inr (), w\<lparr>alerts := update_by al_id a (\<lambda>x. x\<lparr>al_correlatedIncidentId := Some i\<rparr>) (alerts w)\<rparr>)
     else (Inl (Internal ''Record to update not found''), w))"
  by (simp add: setCorrelated_def)

text \<open>Attaching an alert to a ticket: either its row is untouched or its ticket is set.\<close>

definition attached :: "uuid \<Rightarrow> world \<Rightarrow> world \<Rightarrow> bool" where
  "attached a w w' \<longleftrightarrow> counters_grow w w' \<and>
     (\<exists>i. alerts w' = update_by al_id a (\<lambda>x. x\<lparr>al_correlatedIncidentId := Some i\<rparr>) (alerts w))"

lemma attach_step:
  assumes "obeys same_alerts m"
  shows "(same_alerts w (snd (bindM m (\<lambda>x. bindM (setCorrelated a (g x)) (\<lambda>_. ret (h x))) w)) \<or>
     attached a w (snd (bindM m (\<lambda>x. bindM (setCorrelated a (g x)) (\<lambda>_. ret (h x))) w)))"
proof -
  obtain r w1 where m: "m w = (r, w1)" by (cases "m w")
  have s: "same_alerts w w1" using obeysD [OF assms, of w] m by simp
  then show ?thesis
    using m by (cases r) (auto simp: bindM_def setCorrelated_eval same_alerts_def attached_def counters_grow_def)
qed

lemma correlate_effect:
  "\<exists>r. fst (correlateToOpenIncident now a ci ref act w) = Inr r \<and>
     (same_alerts w (snd (correlateToOpenIncident now a ci ref act w)) \<or>
      attached a w (snd (correlateToOpenIncident now a ci ref act w)))"
proof (cases "findOpenByCi ci w")
  case None
  then show ?thesis by (simp add: correlateToOpenIncident_def catchM_def alerts_same.R_refl)
next
  case (Some inc)
  define m where "m = bindM (linkAlert now (i_id inc) ref act) (\<lambda>x. bindM (setCorrelated a (i_id inc)) (\<lambda>_. ret (Some (i_id inc))))"
  have "same_alerts w (snd (m w)) \<or> attached a w (snd (m w))"
    unfolding m_def by (rule attach_step [OF same_alerts_ops(1)])
  moreover have "correlateToOpenIncident now a ci ref act w = catchM m (\<lambda>_. ret None) w"
    using Some by (simp add: correlateToOpenIncident_def m_def catchM_def)
  ultimately show ?thesis by (cases "m w"; cases "fst (m w)") (auto simp: catchM_def)
qed

lemma open_effect:
  "\<exists>r. fst (openIncidentForAlert now a s ci fp dto rule act w) = Inr r \<and>
     (same_alerts w (snd (openIncidentForAlert now a s ci fp dto rule act w)) \<or>
      attached a w (snd (openIncidentForAlert now a s ci fp dto rule act w)))"
proof -
  define inp where "inp = \<lparr>ac_siteId = s, ac_ciId = ci,
         ac_category = option_default DEFAULT_AUTO_INCIDENT_CATEGORY (er_incidentCategory rule),
         ac_priority = option_default (SEVERITY_TO_INCIDENT_PRIORITY (id_severity dto)) (er_incidentPriority rule),
         ac_shortDescription = ''['' @ id_ciCode dto @ ''] '' @ id_summary dto @ '' ('' @ id_alertType dto @ '')'',
         ac_alert = alert_ref_of a dto fp\<rparr>"
  define m where "m = bindM (createFromAlert now inp act) (\<lambda>x. bindM (setCorrelated a (i_id (fst x))) (\<lambda>_. ret (Some (i_id (fst x), snd x))))"
  have "same_alerts w (snd (m w)) \<or> attached a w (snd (m w))"
    unfolding m_def by (rule attach_step [OF same_alerts_ops(2)])
  moreover have "openIncidentForAlert now a s ci fp dto rule act w = catchM m (\<lambda>_. ret None) w"
    unfolding openIncidentForAlert_def m_def inp_def case_prod_unfold ..
  ultimately show ?thesis by (cases "m w"; cases "fst (m w)") (auto simp: catchM_def)
qed

lemma attached_twice: "attached a w w1 \<Longrightarrow> attached a w1 w2 \<Longrightarrow> attached a w w2"
  by (auto simp: attached_def update_by_twice comp_def intro: counters_grow_trans)

lemma attached_same:
  "attached a w w1 \<Longrightarrow> same_alerts w1 w2 \<Longrightarrow> attached a w w2" "same_alerts w w1 \<Longrightarrow> attached a w1 w2 \<Longrightarrow> attached a w w2"
  by (auto simp: attached_def same_alerts_def intro: counters_grow_trans)

lemma ticketAlert_effect:
  "\<exists>r. fst (ticketAlert now sg s ci earlier fp dto rule quiet act w) = Inr r \<and>
     (same_alerts w (snd (ticketAlert now sg s ci earlier fp dto rule quiet act w)) \<or>
      (\<not> truthy earlier \<and> attached (sg_alertId sg) w (snd (ticketAlert now sg s ci earlier fp dto rule quiet act w))))"
proof -
  let ?a = "sg_alertId sg"
  let ?first = "if er_autoCorrelateIncidents rule \<and> \<not> quiet \<and> truthy ci \<and> sg_finalState sg \<noteq> A_RECOVERED \<and> \<not> truthy earlier
            then correlateToOpenIncident now ?a (the ci) (alert_ref_of ?a dto fp) act else ret earlier"
  obtain c w1 where f: "?first w = (Inr c, w1)" "same_alerts w w1 \<and> (truthy earlier \<longrightarrow> c = earlier) \<or> (\<not> truthy earlier \<and> attached ?a w w1)"
  proof (cases "er_autoCorrelateIncidents rule \<and> \<not> quiet \<and> truthy ci \<and> sg_finalState sg \<noteq> A_RECOVERED \<and> \<not> truthy earlier")
    case True
    then show ?thesis
      using correlate_effect [of now ?a "the ci" "alert_ref_of ?a dto fp" act w] that
      by (cases "correlateToOpenIncident now ?a (the ci) (alert_ref_of ?a dto fp) act w") fastforce
  next
    case False
    then show ?thesis using that [of earlier w] alerts_same.R_refl by auto
  qed
  obtain o' w2 where p: "openIncidentForAlert now ?a (the s) (the ci) fp dto rule act w1 = (Inr o', w2)"
    "same_alerts w1 w2 \<or> attached ?a w1 w2"
    using open_effect [of now ?a "the s" "the ci" fp dto rule act w1]
    by (cases "openIncidentForAlert now ?a (the s) (the ci) fp dto rule act w1") auto
  have run: "ticketAlert now sg s ci earlier fp dto rule quiet act w =
     (if \<not> truthy c \<and> er_autoCorrelateIncidents rule \<and> \<not> quiet \<and> truthy ci \<and> truthy s \<and> sg_finalState sg \<noteq> A_RECOVERED \<and>
         id_severity dto \<in> set (er_autoCreateSeverities rule)
      then (Inr (case o' of Some (i, created) \<Rightarrow> (Some i, created) | None \<Rightarrow> (c, False)), w2) else (Inr (c, False), w1))"
    unfolding ticketAlert_def bindM_eval f(1) using p(1) by (simp add: bindM_def)
  have both: "same_alerts w w2 \<or> (\<not> truthy earlier \<and> attached ?a w w2)" if "\<not> truthy c"
    using f(2) p(2) attached_twice attached_same alerts_same.R_trans that by blast
  show ?thesis unfolding run using f(2) both by (cases "truthy c") auto
qed

section \<open>One ingestion\<close>

lemma activeRules_returns: "\<exists>rs c. activeRules now w = (Inr rs, w\<lparr>rule_cache := c\<rparr>)"
proof -
  have "\<exists>rs. activeRules now w = (Inr rs, w\<lparr>rule_cache := rule_cache (snd (activeRules now w))\<rparr>)"
    by (auto simp: activeRules_def split: option.split)
  then show ?thesis by blast
qed

lemma resolveRule_returns: "\<exists>rule c. resolveRule now s t w = (Inr rule, w\<lparr>rule_cache := c\<rparr>)"
  using activeRules_returns [of now w] by (auto simp: resolveRule_def bindM_def)

lemma recordSighting_returns: "\<exists>sg w'. recordSighting now dto s c fp e act w = (Inr sg, w')"
  using refreshAlert_eval createAlert_eval unfolding recordSighting_def by (cases e) (simp_all; metis)+

text \<open>The stages of an ingestion that matter: the policy, the sighting, the ticket, and quiet stages in between.\<close>

lemma ingest_run:
  obtains rule c sg w1 w2 w3 r where
    "resolveRule now (map_option s_id (find_by s_code (id_siteCode dto) (sites w))) (Some (id_alertType dto)) w =
       (Inr rule, w\<lparr>rule_cache := c\<rparr>)"
    "recordSighting now dto (map_option s_id (find_by s_code (id_siteCode dto) (sites w)))
       (map_option ci_id (find_by ci_code (id_ciCode dto) (cis w))) (computeAlertFingerprint w dto) (existing_alert dto w) actor
       (w\<lparr>rule_cache := c\<rparr>) = (Inr sg, w1)"
    "same_alerts w1 w2"
    "same_alerts w2 w3 \<or> (\<not> truthy (case existing_alert dto w of None \<Rightarrow> None | Some e \<Rightarrow> al_correlatedIncidentId e) \<and>
       attached (sg_alertId sg) w2 w3)"
    "fst (ingest now dto actor w) = Inr r" "same_alerts w3 (snd (ingest now dto actor w))"
    "ir_alertId r = sg_alertId sg" "ir_deduped r = sg_deduped sg"
    "suppressed_by_maintenance now (find_by ci_code (id_ciCode dto) (cis w)) w1 \<and> er_suppressAutoTicketDuringMaintenance rule \<Longrightarrow> w3 = w1"
    "sg_finalState sg \<noteq> A_RECOVERED \<or> \<not> sg_stateChanged sg \<Longrightarrow> snd (ingest now dto actor w) = w3"
proof -
  let ?site = "find_by s_code (id_siteCode dto) (sites w)" and ?ci = "find_by ci_code (id_ciCode dto) (cis w)"
  let ?e = "existing_alert dto w" and ?fp = "computeAlertFingerprint w dto"
  let ?earlier = "case ?e of None \<Rightarrow> None | Some e \<Rightarrow> al_correlatedIncidentId e"
  obtain rule c where rule: "resolveRule now (map_option s_id ?site) (Some (id_alertType dto)) w = (Inr rule, w\<lparr>rule_cache := c\<rparr>)"
    using resolveRule_returns by blast
  obtain sg w1 where sg: "recordSighting now dto (map_option s_id ?site) (map_option ci_id ?ci) ?fp ?e actor (w\<lparr>rule_cache := c\<rparr>) = (Inr sg, w1)"
    using recordSighting_returns by blast
  define quiet where "quiet \<longleftrightarrow> suppressed_by_maintenance now ?ci w1 \<and> er_suppressAutoTicketDuringMaintenance rule"
  define page where "page = (if \<not> sg_deduped sg \<and> id_severity dto \<in> set (er_pagingSeverities rule) \<and> \<not> quiet
      then notifyNocOfCriticalAlert now (sg_alertId sg) dto else ret ())"
  define w2 where "w2 = snd (page w1)"
  have page: "page w1 = (Inr (), w2)" "same_alerts w1 w2"
    using obeysD [OF same_alerts_told(1)] by (auto simp: w2_def page_def notifyNocOfCriticalAlert_def swallowM_def alerts_same.R_refl)
  define ciId where "ciId = option_or (map_option ci_id ?ci) (case ?e of None \<Rightarrow> None | Some e \<Rightarrow> al_ciId e)"
  define siteId where "siteId = option_or (map_option s_id ?site) (case ?e of None \<Rightarrow> None | Some e \<Rightarrow> al_siteId e)"
  obtain cor created w3 where t: "ticketAlert now sg siteId ciId ?earlier ?fp dto rule quiet actor w2 = (Inr (cor, created), w3)"
    "same_alerts w2 w3 \<or> (\<not> truthy ?earlier \<and> attached (sg_alertId sg) w2 w3)"
    using ticketAlert_effect [of now sg siteId ciId ?earlier ?fp dto rule quiet actor w2]
    by (cases "ticketAlert now sg siteId ciId ?earlier ?fp dto rule quiet actor w2") auto
  define tell where "tell = (if sg_finalState sg = A_RECOVERED \<and> sg_stateChanged sg \<and> truthy cor
            then notifyAlertRecoveredIfAlreadyClosed now (the cor) (sg_alertId sg) dto actor else ret ())"
  have tell: "tell w3 = (Inr (), snd (tell w3))" "same_alerts w3 (snd (tell w3))"
    using obeysD [OF same_alerts_told(2)] by (auto simp: tell_def notifyAlertRecoveredIfAlreadyClosed_def swallowM_def alerts_same.R_refl)
  have fp: "computeAlertFingerprint (w\<lparr>rule_cache := c\<rparr>) dto = ?fp" "existing_alert dto (w\<lparr>rule_cache := c\<rparr>) = ?e"
    by (simp_all add: computeAlertFingerprint_def existing_alert_def)
  have run: "\<exists>r. ingest now dto actor w = (Inr r, snd (tell w3)) \<and> ir_alertId r = sg_alertId sg \<and> ir_deduped r = sg_deduped sg"
  proof -
    have 1: "bindM (resolveRule now (map_option s_id ?site) (Some (id_alertType dto))) f w = f rule (w\<lparr>rule_cache := c\<rparr>)" for f :: "_ \<Rightarrow> _ op"
      using rule by (rule bindM_value)
    have 2: "bindM (recordSighting now dto (map_option s_id ?site) (map_option ci_id ?ci) ?fp ?e actor) f (w\<lparr>rule_cache := c\<rparr>) = f sg w1"
      for f :: "_ \<Rightarrow> _ op" using sg by (rule bindM_value)
    have 3: "bindM page f w1 = f () w2" for f :: "_ \<Rightarrow> _ op" using page(1) by (rule bindM_value)
    have 4: "bindM (ticketAlert now sg siteId ciId ?earlier ?fp dto rule quiet actor) f w2 = f (cor, created) w3" for f :: "_ \<Rightarrow> _ op"
      using t(1) by (rule bindM_value)
    have 5: "bindM tell f w3 = f () (snd (tell w3))" for f :: "_ \<Rightarrow> _ op" using tell(1) by (rule bindM_value)
    show ?thesis
      unfolding ingest_def bindM_simps 1 fp 2 Let_def 3 [unfolded page_def quiet_def] 4 [unfolded ciId_def siteId_def quiet_def] prod.case
        5 [unfolded tell_def]
      by (simp add: tell_def)
  qed
  then obtain r where r: "ingest now dto actor w = (Inr r, snd (tell w3))" "ir_alertId r = sg_alertId sg" "ir_deduped r = sg_deduped sg"
    by blast
  show ?thesis
  proof (rule that [OF rule sg page(2) t(2), of r])
    show "w3 = w1" if "suppressed_by_maintenance now ?ci w1 \<and> er_suppressAutoTicketDuringMaintenance rule"
    proof -
      have "quiet" using that by (simp add: quiet_def)
      then show ?thesis using page(1) t(1) by (simp add: page_def ticketAlert_def)
    qed
  qed (use r tell(2) in \<open>auto simp: tell_def\<close>)
qed

text \<open>The sighting, by cases of whether the event is known.\<close>

lemma sighting_new:
  assumes "recordSighting now dto s c fp None act w = (Inr sg, w1)"
  shows "\<exists>aud. w1 = w\<lparr>uuid_next := Suc (uuid_next w), alerts := alerts w @ [new_alert (env_uuid (env w) (uuid_next w)) dto s c fp],
       audits := aud\<rparr>" "sg_alertId sg = env_uuid (env w) (uuid_next w)" "\<not> sg_deduped sg" "sg_finalState sg = id_state dto"
  using assms createAlert_eval [of now dto s c fp act w] by (auto simp: recordSighting_def)

lemma sighting_known:
  assumes "recordSighting now dto s c fp (Some e) act w = (Inr sg, w1)"
  shows "\<exists>aud. w1 = w\<lparr>alerts := update_by al_id (al_id e) (update_alert dto s c e) (alerts w), audits := aud\<rparr>"
    "sg_alertId sg = al_id e" "sg_deduped sg" "sg_finalState sg = reduceAlertState (al_state e) (id_state dto)"
    "sg_stateChanged sg \<longleftrightarrow> reduceAlertState (al_state e) (id_state dto) \<noteq> al_state e"
  using assms refreshAlert_eval [of now dto s c e act w] by (auto simp: recordSighting_def)

lemma attached_follow:
  assumes "attached a w w'" "\<And>r. keys_ok alerts al_id w \<Longrightarrow> find_by al_id a (alerts w) = Some r \<Longrightarrow> \<not> truthy (al_correlatedIncidentId r)"
  shows "alerts_follow w w'"
proof -
  from assms(1) obtain i where "alerts w' = update_by al_id a (\<lambda>x. x\<lparr>al_correlatedIncidentId := Some i\<rparr>) (alerts w)" "counters_grow w w'"
    unfolding attached_def by blast
  then show ?thesis
    by (intro alert_register.follow_update [where k = a and f = "\<lambda>x. x\<lparr>al_correlatedIncidentId := Some i\<rparr>"])
       (use assms(2) in \<open>auto simp: counters_grow_def intro: correlated_moves\<close>)
qed

lemma existing_in: "existing_alert dto w = Some e \<Longrightarrow> e \<in> set (alerts w) \<and> event_key e = (id_source dto, id_eventId dto)"
  unfolding existing_alert_def by (drule find_by_SomeD) (simp add: event_key_def)

text \<open>After the sighting the alert's row still has the ticket it had before, if any.\<close>

definition keeps_ticket :: "uuid \<Rightarrow> uuid option \<Rightarrow> world \<Rightarrow> bool" where
  "keeps_ticket a t w \<longleftrightarrow> (\<forall>x. distinct (map al_id (alerts w)) \<longrightarrow> find_by al_id a (alerts w) = Some x \<longrightarrow> al_correlatedIncidentId x = t)"

lemma sighting_follow_new:
  assumes "recordSighting now dto s c fp None act w = (Inr sg, w1)"
  shows "alerts_follow w w1 \<and> keeps_ticket (sg_alertId sg) None w1"
proof -
  note new = sighting_new [OF assms]
  let ?n = "new_alert (env_uuid (env w) (uuid_next w)) dto s c fp"
  have w1: "alerts w1 = alerts w @ [?n]" "env w1 = env w" "uuid_next w1 = Suc (uuid_next w)" using new(1) by auto
  have "x = ?n" if "distinct (map al_id (alerts w1))" "find_by al_id (sg_alertId sg) (alerts w1) = Some x" for x
    using that new(2) w1(1) find_by_distinct [of al_id "alerts w1" ?n] by simp
  then have "keeps_ticket (sg_alertId sg) None w1" unfolding keeps_ticket_def using new_alert_simps(3) by metis
  then show ?thesis using w1 by (auto intro!: alert_register.follow_insert [where r = ?n] simp: any_alert_def)
qed

lemma sighting_follow_known:
  assumes "recordSighting now dto s c fp (Some e) act w = (Inr sg, w1)" "e \<in> set (alerts w)"
  shows "alerts_follow w w1 \<and> keeps_ticket (sg_alertId sg) (al_correlatedIncidentId e) w1"
proof -
  note known = sighting_known [OF assms(1)]
  let ?f = "update_alert dto s c e"
  have w1: "alerts w1 = update_by al_id (al_id e) ?f (alerts w)" "env w1 = env w" "uuid_next w1 = uuid_next w" using known(1) by auto
  have "x = e" if "keys_ok alerts al_id w" "find_by al_id (al_id e) (alerts w) = Some x" for x
    using that assms(2) find_by_distinct [of al_id "alerts w" e] by (simp add: keys_ok_def)
  then have "alerts_follow w w1"
    by (intro alert_register.follow_update [OF w1(2) _ w1(1)]) (use w1(3) refreshed_moves in auto)
  moreover have "?f e \<in> set (alerts w1)" unfolding w1(1) in_set_update_by using assms(2) by blast
  then have "x = ?f e" if "distinct (map al_id (alerts w1))" "find_by al_id (sg_alertId sg) (alerts w1) = Some x" for x
    using that known(2) find_by_distinct [of al_id "alerts w1" "?f e"] by (simp add: update_alert_def)
  then have "keeps_ticket (sg_alertId sg) (al_correlatedIncidentId e) w1"
    unfolding keeps_ticket_def by (auto simp: update_alert_def)
  ultimately show ?thesis ..
qed

lemma sighting_follow:
  assumes "recordSighting now dto s c fp (existing_alert dto w) act (w\<lparr>rule_cache := k\<rparr>) = (Inr sg, w1)"
  shows "alerts_follow w w1 \<and>
     keeps_ticket (sg_alertId sg) (case existing_alert dto w of None \<Rightarrow> None | Some e \<Rightarrow> al_correlatedIncidentId e) w1"
proof -
  have cached: "alerts_follow w (w\<lparr>rule_cache := k\<rparr>)" by (rule alert_register.follow_same) simp_all
  show ?thesis
  proof (cases "existing_alert dto w")
    case None
    then show ?thesis using sighting_follow_new assms alert_register.follow_trans [OF cached] by fastforce
  next
    case (Some e)
    then have "e \<in> set (alerts (w\<lparr>rule_cache := k\<rparr>))" using existing_in by simp
    then show ?thesis using sighting_follow_known assms Some alert_register.follow_trans [OF cached] by fastforce
  qed
qed

lemma follow_ingest: "alerts_follow w (snd (ingest now dto act w))"
proof -
  let ?earlier = "case existing_alert dto w of None \<Rightarrow> None | Some e \<Rightarrow> al_correlatedIncidentId e"
  obtain k sg w1 w2 w3 s c fp where st: "recordSighting now dto s c fp (existing_alert dto w) act (w\<lparr>rule_cache := k\<rparr>) = (Inr sg, w1)"
    "same_alerts w1 w2" "same_alerts w2 w3 \<or> (\<not> truthy ?earlier \<and> attached (sg_alertId sg) w2 w3)"
    "same_alerts w3 (snd (ingest now dto act w))" by (rule ingest_run [of now dto w act]) metis
  have rows: "alerts w2 = alerts w1" using st(2) by (simp add: same_alerts_def)
  note first = sighting_follow [OF st(1)]
  have "alerts_follow w2 w3"
    using st(3)
  proof
    assume a: "\<not> truthy ?earlier \<and> attached (sg_alertId sg) w2 w3"
    then show ?thesis using first by (intro attached_follow) (auto simp: rows keys_ok_def keeps_ticket_def)
  qed (rule same_alerts_follow)
  then show ?thesis using first same_alerts_follow [OF st(2)] same_alerts_follow [OF st(4)] alert_register.follow_trans by blast
qed

text \<open>Which events the table knows.\<close>

lemma ingest_events:
  "map event_key (alerts (snd (ingest now dto act w))) =
     map event_key (alerts w) @ (if existing_alert dto w = None then [(id_source dto, id_eventId dto)] else [])"
proof -
  obtain k sg w1 w2 w3 s c fp where st: "recordSighting now dto s c fp (existing_alert dto w) act (w\<lparr>rule_cache := k\<rparr>) = (Inr sg, w1)"
    "same_alerts w1 w2" "same_alerts w2 w3 \<or> attached (sg_alertId sg) w2 w3"
    "same_alerts w3 (snd (ingest now dto act w))" by (rule ingest_run [of now dto w act]) metis
  have "map event_key (alerts (snd (ingest now dto act w))) = map event_key (alerts w1)"
    using st(2-4) by (auto simp: same_alerts_def attached_def event_key_def [abs_def] map_key_update_by)
  moreover have "map event_key (alerts w1) = map event_key (alerts w) @ (if existing_alert dto w = None then [(id_source dto, id_eventId dto)] else [])"
  proof (cases "existing_alert dto w")
    case None
    then show ?thesis using sighting_new(1) [OF st(1) [unfolded None]] by auto
  next
    case (Some e)
    then show ?thesis
      using sighting_known(1) [OF st(1) [unfolded Some]]
      by (auto simp: event_key_def [abs_def] map_key_update_by update_alert_def)
  qed
  ultimately show ?thesis by simp
qed

section \<open>The properties\<close>

definition alerts_inv :: "world \<Rightarrow> bool" where
  "alerts_inv w \<longleftrightarrow> register_inv alerts al_id any_alert w \<and> distinct (map event_key (alerts w))"

inductive alert_step :: "world \<Rightarrow> world \<Rightarrow> bool" where
  as_ingest: "alert_step w (snd (ingest now dto actor w))"
| as_elsewhere: "env w' = env w \<Longrightarrow> uuid_next w \<le> uuid_next w' \<Longrightarrow> alerts w' = alerts w \<Longrightarrow> alert_step w w'"

lemma alert_step_follow: "alert_step w w' \<Longrightarrow> alerts_follow w w'"
  by (induction rule: alert_step.induct) (auto intro: follow_ingest alert_register.follow_same)

lemma alert_run: "alert_step\<^sup>*\<^sup>* w w' \<Longrightarrow> alerts_follow w w'"
  using alert_step_follow by (rule alert_register.run_follow)

lemma existing_None: "existing_alert dto w = None \<Longrightarrow> (id_source dto, id_eventId dto) \<notin> set (map event_key (alerts w))"
  by (auto simp: existing_alert_def find_by_None_iff event_key_def)

lemma alert_step_inv: "alert_step w w' \<Longrightarrow> alerts_inv w \<Longrightarrow> alerts_inv w'"
proof (induction rule: alert_step.induct)
  case (as_ingest w now dto actor)
  then show ?case
    using alert_register.follow_inv [OF follow_ingest] ingest_events [of now dto actor w] existing_None [of dto w]
    by (auto simp: alerts_inv_def)
next
  case (as_elsewhere w' w)
  then show ?case
    using alert_register.follow_inv [OF alert_register.follow_same] by (auto simp: alerts_inv_def)
qed

interpretation alert_history: invariant_system alert_step alerts_inv
  by unfold_locales (rule alert_step_inv)

text \<open>A delivery of an unknown event leaves every row as it was.\<close>

lemma other_row_kept:
  assumes "alerts_inv w" "a \<in> set (alerts w)" "existing_alert dto w = None"
  shows "find_by al_id (al_id a) (alerts (snd (ingest now dto actor w))) = Some a"
proof -
  obtain k sg w1 w2 w3 s c fp where st: "recordSighting now dto s c fp (existing_alert dto w) actor (w\<lparr>rule_cache := k\<rparr>) = (Inr sg, w1)"
    "same_alerts w1 w2" "same_alerts w2 w3 \<or> attached (sg_alertId sg) w2 w3"
    "same_alerts w3 (snd (ingest now dto actor w))" by (rule ingest_run [of now dto w actor]) metis
  note new = sighting_new [OF st(1) [unfolded assms(3)]]
  have keys: "keys_ok alerts al_id w" using assms(1) by (simp add: alerts_inv_def register_inv_def)
  then have here: "find_by al_id (al_id a) (alerts w) = Some a" using find_by_distinct assms(2) by (auto simp: keys_ok_def)
  have "issued w (al_id a)" using keys assms(2) by (auto simp: keys_ok_def list_all_iff)
  then have other: "al_id a \<noteq> sg_alertId sg" using keys fresh_not_issued [of w] new(2) by (auto simp: keys_ok_def)
  have "find_by al_id (al_id a) (alerts w1) = Some a" using new(1) here by (auto simp: find_by_append)
  then have "find_by al_id (al_id a) (alerts w3) = Some a"
    using st(2,3) other by (auto simp: same_alerts_def attached_def find_by_update_by_other)
  then show ?thesis using st(4) by (simp add: same_alerts_def)
qed

text \<open>
  C18: through any sequence of deliveries an event of a source is one alert, and that alert only
  moves forward: recovered is final, acknowledged never becomes open again, the last sighting never
  goes back, and the fingerprint, the site, the device and the ticket never change once they are
  known.
\<close>

theorem alert_lifecycle:
  assumes "alert_step\<^sup>*\<^sup>* w w'" "alerts_inv w" "find_by al_id i (alerts w) = Some a"
  shows "distinct (map (\<lambda>a. (al_source a, al_externalEventId a)) (alerts w')) \<and>
     (\<exists>b. find_by al_id i (alerts w') = Some b \<and> al_fingerprint b = al_fingerprint a \<and> al_lastSeenAt a \<le> al_lastSeenAt b \<and>
        (al_state a = A_RECOVERED \<longrightarrow> al_state b = A_RECOVERED) \<and> (al_state a = A_ACKNOWLEDGED \<longrightarrow> al_state b \<noteq> A_OPEN) \<and>
        (al_siteId a \<noteq> None \<longrightarrow> al_siteId b = al_siteId a) \<and> (al_ciId a \<noteq> None \<longrightarrow> al_ciId b = al_ciId a) \<and>
        (truthy (al_correlatedIncidentId a) \<longrightarrow> al_correlatedIncidentId b = al_correlatedIncidentId a))"
proof -
  have "distinct (map event_key (alerts w'))" using alert_history.run_inv [OF assms(1,2)] by (simp add: alerts_inv_def)
  moreover obtain b where "find_by al_id i (alerts w') = Some b" "alert_moves a b"
    using alert_register.follow_row [OF alert_run [OF assms(1)] _ assms(3)] assms(2) by (auto simp: alerts_inv_def register_inv_def)
  ultimately show ?thesis unfolding event_key_def alert_moves_def by blast
qed

definition disk_event :: "string \<Rightarrow> alert_state \<Rightarrow> ingest_alert_dto" where
  "disk_event e st = \<lparr>id_eventId = e, id_source = ''SNMP'', id_siteCode = ''BLR'', id_ciCode = ''SRV1'', id_alertType = ''link'',
     id_severity = A_HIGH, id_componentKey = Some ''if:1'', id_occurredAt = 100, id_state = st, id_summary = ''link down'', id_attributes = None\<rparr>"

definition down_alert :: alert where
  "down_alert = new_alert ''0'' (disk_event ''e1'' A_OPEN) None None (fingerprint_text ''BLR'' ''SRV1'' ''link'' (Some ''if:1''))"

definition alert_world :: world where
  "alert_world = empty_world\<lparr>uuid_next := 1, alerts := [down_alert]\<rparr>"

definition collector :: actor_context where
  "collector = \<lparr>actorId = ''svc'', correlationId = None\<rparr>"

lemma alert_world_inv: "alerts_inv alert_world"
  by (auto simp: alerts_inv_def register_inv_def keys_ok_def alert_world_def down_alert_def new_alert_def empty_world_def any_alert_def
      issued_def nat_str_zero intro: injI nat_str_inj)

lemma alert_world_row: "find_by al_id ''0'' (alerts alert_world) = Some down_alert"
  by (simp add: alert_world_def down_alert_def)

theorem alert_lifecycle_witness:
  "distinct (map (\<lambda>a. (al_source a, al_externalEventId a)) (alerts (snd (ingest 200 (disk_event ''e1'' A_RECOVERED) collector alert_world)))) \<and>
   (\<exists>b. find_by al_id ''0'' (alerts (snd (ingest 200 (disk_event ''e1'' A_RECOVERED) collector alert_world))) = Some b \<and>
      al_fingerprint b = al_fingerprint down_alert)"
  using alert_lifecycle [OF r_into_rtranclp [of alert_step, OF as_ingest] alert_world_inv alert_world_row] by blast

text \<open>
  Ingestion never fails, and it is idempotent per event: a delivery of a known event reports a
  duplicate and adds no alert, any other delivery adds exactly one, and afterwards the event is known.
\<close>

theorem ingest_deduplicates:
  "\<exists>r w'. ingest now dto actor w = (Inr r, w') \<and> (ir_deduped r \<longleftrightarrow> existing_alert dto w \<noteq> None) \<and>
     length (alerts w') = length (alerts w) + (if existing_alert dto w = None then 1 else 0) \<and> existing_alert dto w' \<noteq> None"
proof -
  obtain k sg w1 s c fp r where st: "recordSighting now dto s c fp (existing_alert dto w) actor (w\<lparr>rule_cache := k\<rparr>) = (Inr sg, w1)"
    "fst (ingest now dto actor w) = Inr r" "ir_deduped r = sg_deduped sg" by (rule ingest_run [of now dto w actor]) metis
  have dup: "sg_deduped sg \<longleftrightarrow> existing_alert dto w \<noteq> None"
    using st(1) sighting_new(3) sighting_known(3) by (cases "existing_alert dto w") fastforce+
  let ?w = "snd (ingest now dto actor w)"
  note ev = ingest_events [of now dto actor w]
  have len: "length (alerts ?w) = length (alerts w) + (if existing_alert dto w = None then 1 else 0)"
    using arg_cong [OF ev, of length] by simp
  have "(id_source dto, id_eventId dto) \<in> set (map event_key (alerts ?w))"
  proof (cases "existing_alert dto w")
    case (Some e)
    then show ?thesis unfolding ev using existing_in [OF Some] imageI [of e "set (alerts w)" event_key] by simp
  qed (simp add: ev)
  then have "existing_alert dto ?w \<noteq> None" using existing_None by blast
  then show ?thesis using st(2,3) dup len by (intro exI [of _ r] exI [of _ ?w]) (auto simp: prod_eq_iff)
qed

text \<open>The sighting in the table of alerts: a new row under the event's key, or the row of that key refreshed.\<close>

definition recorded :: "ingest_alert_dto \<Rightarrow> uuid option \<Rightarrow> uuid option \<Rightarrow> world \<Rightarrow> alert list" where
  "recorded dto siteId ciId w =
     (case existing_alert dto w of
        None \<Rightarrow> alerts w @ [new_alert (env_uuid (env w) (uuid_next w)) dto siteId ciId (computeAlertFingerprint w dto)]
      | Some e \<Rightarrow> update_by al_id (al_id e) (update_alert dto siteId ciId e) (alerts w))"

lemma recordSighting_records:
  assumes "recordSighting now dto s c (computeAlertFingerprint w dto) (existing_alert dto w) actor (w\<lparr>rule_cache := k\<rparr>) = (Inr sg, w1)"
  obtains n aud where "w1 = w\<lparr>uuid_next := n, alerts := recorded dto s c w, audits := aud, rule_cache := k\<rparr>"
proof (cases "existing_alert dto w")
  case None
  then obtain aud where "w1 = w\<lparr>rule_cache := k, uuid_next := Suc (uuid_next w), alerts := recorded dto s c w, audits := aud\<rparr>"
    using sighting_new(1) [OF assms [unfolded None]] by (auto simp: recorded_def)
  then show ?thesis by (intro that [of aud "Suc (uuid_next w)"]) simp
next
  case (Some e)
  then obtain aud where "w1 = w\<lparr>rule_cache := k, alerts := recorded dto s c w, audits := aud\<rparr>"
    using sighting_known(1) [OF assms [unfolded Some]] by (auto simp: recorded_def)
  then show ?thesis by (intro that [of aud "uuid_next w"]) simp
qed

lemma recorded_seen:
  "\<exists>a \<in> set (recorded dto s c w). event_key a = (id_source dto, id_eventId dto) \<and> al_severity a = id_severity dto \<and>
     id_occurredAt dto \<le> al_lastSeenAt a"
proof (cases "existing_alert dto w")
  case None
  then show ?thesis by (auto simp: recorded_def new_alert_def event_key_def)
next
  case (Some e)
  then have e: "e \<in> set (alerts w)" "event_key e = (id_source dto, id_eventId dto)" using existing_in by blast+
  have "update_alert dto s c e e \<in> set (recorded dto s c w)"
    using e(1) Some by (auto simp: recorded_def update_by_def)
  then show ?thesis using e by (intro bexI [of _ "update_alert dto s c e e"]) (auto simp: update_alert_def event_key_def)
qed

lemma sighting_live:
  assumes "recordSighting now dto s c fp ex act w = (Inr sg, w1)" "id_state dto \<noteq> A_RECOVERED"
  shows "sg_finalState sg \<noteq> A_RECOVERED \<or> \<not> sg_stateChanged sg"
proof (cases ex)
  case None
  then show ?thesis using sighting_new(4) [OF assms(1) [unfolded None]] assms(2) by simp
next
  case (Some e)
  then show ?thesis
    using sighting_known(4,5) [OF assms(1) [unfolded Some]] assms(2) by (auto simp: reduceAlertState_def split: if_splits)
qed

text \<open>
  C19: while its device is in maintenance and the policy says so, a live alert (one that does not report a
  recovery) is recorded, under its own key with the severity and the time it reports, and nothing else happens:
  besides the table of alerts only the audit trail, the id generator and the policy cache change, so no ticket
  is opened or touched, nobody is paged and nothing is mailed.
\<close>

theorem maintenance_is_quiet:
  assumes "find_by ci_code (id_ciCode dto) (cis w) = Some ci"
    "ci_lifecycleStatus ci = MAINTENANCE \<or> (\<exists>c \<in> set (changes w). deriveChangeStatus c now = CS_IN_PROGRESS \<and> covers_ci (Some (ci_id ci)) c)"
    "resolveRule now (map_option s_id (find_by s_code (id_siteCode dto) (sites w))) (Some (id_alertType dto)) w = (Inr rule, w0)"
    "er_suppressAutoTicketDuringMaintenance rule" "id_state dto \<noteq> A_RECOVERED"
  shows "(\<exists>n aud c. snd (ingest now dto actor w) = w\<lparr>uuid_next := n,
      alerts := recorded dto (map_option s_id (find_by s_code (id_siteCode dto) (sites w))) (Some (ci_id ci)) w,
      audits := aud, rule_cache := c\<rparr>) \<and>
    (\<exists>a \<in> set (alerts (snd (ingest now dto actor w))). event_key a = (id_source dto, id_eventId dto) \<and>
       al_severity a = id_severity dto \<and> id_occurredAt dto \<le> al_lastSeenAt a)"
proof -
  obtain rl k sg w1 w3 where st: "resolveRule now (map_option s_id (find_by s_code (id_siteCode dto) (sites w))) (Some (id_alertType dto)) w =
       (Inr rl, w\<lparr>rule_cache := k\<rparr>)"
    "recordSighting now dto (map_option s_id (find_by s_code (id_siteCode dto) (sites w)))
       (map_option ci_id (find_by ci_code (id_ciCode dto) (cis w))) (computeAlertFingerprint w dto) (existing_alert dto w) actor
       (w\<lparr>rule_cache := k\<rparr>) = (Inr sg, w1)"
    "suppressed_by_maintenance now (find_by ci_code (id_ciCode dto) (cis w)) w1 \<and> er_suppressAutoTicketDuringMaintenance rl \<Longrightarrow> w3 = w1"
    "sg_finalState sg \<noteq> A_RECOVERED \<or> \<not> sg_stateChanged sg \<Longrightarrow> snd (ingest now dto actor w) = w3"
    by (rule ingest_run [of now dto w actor]) metis
  obtain n aud where w1: "w1 = w\<lparr>uuid_next := n, alerts := recorded dto (map_option s_id (find_by s_code (id_siteCode dto) (sites w))) (Some (ci_id ci)) w,
      audits := aud, rule_cache := k\<rparr>"
    using recordSighting_records [OF st(2) [unfolded assms(1) option.map]] by metis
  have "changes w1 = changes w" using w1 by simp
  then have "getActiveMaintenanceWindows now (Some (ci_id ci)) w1 \<noteq> []"
    if "\<exists>c \<in> set (changes w). deriveChangeStatus c now = CS_IN_PROGRESS \<and> covers_ci (Some (ci_id ci)) c"
    using active_windows_iff [of now "Some (ci_id ci)" w1] that by simp
  then have "suppressed_by_maintenance now (Some ci) w1"
    using assms(2) by (auto simp: suppressed_by_maintenance_def isCiUnderMaintenance_def)
  then have "snd (ingest now dto actor w) = w1" using st(1,3,4) sighting_live [OF st(2) assms(5)] assms(1,3,4) by simp
  moreover have "alerts w1 = recorded dto (map_option s_id (find_by s_code (id_siteCode dto) (sites w))) (Some (ci_id ci)) w" using w1 by simp
  ultimately show ?thesis using w1 recorded_seen by metis
qed

definition server :: configuration_item where
  "server = \<lparr>ci_id = ''ci-1'', ci_code = ''SRV1'', ci_siteId = ''BLR'', ci_rackId = None, ci_ciType = CT_SERVER,
     ci_name = ''Server 1'', ci_manufacturer = None, ci_model = None, ci_serialOrServiceTag = None, ci_managementAddress = None,
     ci_ownerGroupId = None, ci_managedBy = MB_JSAN, ci_criticality = CR_HIGH, ci_lifecycleStatus = MAINTENANCE\<rparr>"

theorem maintenance_is_quiet_witness:
  "(\<exists>a \<in> set (alerts (snd (ingest 200 (disk_event ''e2'' A_OPEN) collector (alert_world\<lparr>cis := [server]\<rparr>)))). al_externalEventId a = ''e2'') \<and>
   incidents (snd (ingest 200 (disk_event ''e2'' A_OPEN) collector (alert_world\<lparr>cis := [server]\<rparr>))) = [] \<and>
   outbox (snd (ingest 200 (disk_event ''e2'' A_OPEN) collector (alert_world\<lparr>cis := [server]\<rparr>))) = []"
proof -
  let ?w = "alert_world\<lparr>cis := [server]\<rparr>"
  have "find_by ci_code (id_ciCode (disk_event ''e2'' A_OPEN)) (cis ?w) = Some server" "ci_lifecycleStatus server = MAINTENANCE"
    "id_state (disk_event ''e2'' A_OPEN) \<noteq> A_RECOVERED"
    by (simp_all add: server_def disk_event_def)
  moreover have "\<exists>w0. resolveRule 200 s t ?w = (Inr DEFAULT_ALERT_RULE, w0)" for s t
    by (simp add: resolveRule_def activeRules_def bindM_def alert_world_def empty_world_def active_rows_def)
  moreover have "er_suppressAutoTicketDuringMaintenance DEFAULT_ALERT_RULE" by (simp add: DEFAULT_ALERT_RULE_def)
  moreover have w: "incidents ?w = []" "outbox ?w = []" by (simp_all add: alert_world_def empty_world_def)
  ultimately have q: "(\<exists>n as aud c. snd (ingest 200 (disk_event ''e2'' A_OPEN) collector ?w) = ?w\<lparr>uuid_next := n, alerts := as, audits := aud, rule_cache := c\<rparr>)"
    "\<exists>a \<in> set (alerts (snd (ingest 200 (disk_event ''e2'' A_OPEN) collector ?w))). event_key a = (id_source (disk_event ''e2'' A_OPEN), id_eventId (disk_event ''e2'' A_OPEN))"
    using maintenance_is_quiet [of "disk_event ''e2'' A_OPEN" ?w server 200 DEFAULT_ALERT_RULE _ collector] by (blast, blast)
  then show ?thesis using w by (auto simp: event_key_def disk_event_def)
qed

end
