(* ===== verification/Adapters.thy ===== *)
theory Adapters
  imports Alert_Props
begin

text \<open>
  The monitoring adapters (\<^verbatim>\<open>integrations/zabbix\<close>, \<^verbatim>\<open>integrations/prometheus\<close>, \<^verbatim>\<open>integrations/snmp\<close>)
  and the source webhooks of \<^verbatim>\<open>alerts/alerts.service.ts\<close> that run them: each turns a native event into
  the normalized alert that \<open>ingest\<close> takes. Dates and numbers that arrive as text come with the reading
  that \<open>Date.parse\<close> or \<open>Number\<close> has of them; typographic dashes of messages are written as hyphens.
\<close>

section \<open>Shared parts\<close>

text \<open>An error of the adapter, which names a field, or any other exception.\<close>

datatype norm_error = NormalizationError string string | OtherError string

fun norm_message :: "norm_error \<Rightarrow> string" where
  "norm_message (NormalizationError m f) = m"
| "norm_message (OtherError m) = m"

definition andThen :: "'e + 'a \<Rightarrow> ('a \<Rightarrow> 'e + 'b) \<Rightarrow> 'e + 'b" where
  "andThen r f = (case r of Inl e \<Rightarrow> Inl e | Inr a \<Rightarrow> f a)"

lemma andThen_simps [simp]: "andThen (Inl e) f = Inl e" "andThen (Inr a) f = f a"
  by (simp_all add: andThen_def)

lemma andThen_Inr_iff: "andThen r f = Inr b \<longleftrightarrow> (\<exists>a. r = Inr a \<and> f a = Inr b)"
  by (cases r) auto

text \<open>
  A lookup \<open>TABLE[key]\<close> in an object literal also finds what the object inherits: the result is absent,
  an own entry, or (\<open>Some None\<close>) an inherited member, which is no value of the table's type.
\<close>

definition OBJECT_PROTOTYPE :: "string list" where
  "OBJECT_PROTOTYPE = [''constructor'', ''__proto__'', ''toString'', ''valueOf'', ''hasOwnProperty'', ''isPrototypeOf'',
     ''propertyIsEnumerable'', ''toLocaleString'', ''__defineGetter__'', ''__defineSetter__'', ''__lookupGetter__'', ''__lookupSetter__'']"

definition table_lookup :: "(string \<times> 'a) list \<Rightarrow> string \<Rightarrow> 'a option option" where
  "table_lookup table key =
     (case map_of table key of
        Some v \<Rightarrow> Some (Some v)
      | None \<Rightarrow> if key \<in> set OBJECT_PROTOTYPE then Some None else None)"

text \<open>\<open>obj.key?.trim() || undefined\<close> of a member whose type nothing has checked.\<close>

definition member_trim :: "(string \<times> json_value) list \<Rightarrow> string \<Rightarrow> norm_error + string option" where
  "member_trim obj key =
     (case map_of obj key of
        Some (JString s) \<Rightarrow> Inr (trimmed_or_null (Some s))
      | Some JOther \<Rightarrow> Inl (OtherError (key @ ''.trim is not a function''))
      | _ \<Rightarrow> Inr None)"

definition quoted :: "string \<Rightarrow> string" where
  "quoted s = CHR 0x22 # s @ [CHR 0x22]"

definition is_alnum :: "char \<Rightarrow> bool" where
  "is_alnum c \<longleftrightarrow> (let n = of_char c :: nat in 48 \<le> n \<and> n \<le> 57 \<or> 65 \<le> n \<and> n \<le> 90 \<or> 97 \<le> n \<and> n \<le> 122)"

definition is_slug_char :: "char \<Rightarrow> bool" where
  "is_slug_char c \<longleftrightarrow> (let n = of_char c :: nat in 48 \<le> n \<and> n \<le> 57 \<or> 97 \<le> n \<and> n \<le> 122)"

text \<open>\<open>replace(/[^a-z0-9]+/g, "_")\<close>, then \<open>replace(/^_+|_+$/g, "")\<close>.\<close>

fun squash :: "string \<Rightarrow> string" where
  "squash [] = []"
| "squash (c # cs) =
     (if is_slug_char c then c # squash cs
      else (case cs of [] \<Rightarrow> ''_'' | d # _ \<Rightarrow> if is_slug_char d then CHR ''_'' # squash cs else squash cs))"

definition slug :: "string \<Rightarrow> string" where
  "slug value =
     rev (dropWhile (\<lambda>c. c = CHR ''_'') (rev (dropWhile (\<lambda>c. c = CHR ''_'') (squash (toLowerCase (trim value))))))"

text \<open>\<open>match(/^([A-Za-z0-9]+?)[-_]/)?.[1]\<close>.\<close>

definition siteFromHost :: "string \<Rightarrow> string option" where
  "siteFromHost host =
     (let p = takeWhile is_alnum host in
      case dropWhile is_alnum host of
        [] \<Rightarrow> None
      | c # _ \<Rightarrow> if p \<noteq> [] \<and> c \<in> {CHR ''-'', CHR ''_''} then Some p else None)"

definition required :: "string \<Rightarrow> string \<Rightarrow> string \<Rightarrow> norm_error + string" where
  "required what value field =
     (if trim value = [] then Inl (NormalizationError (what @ '' is missing required field '' @ quoted field) field) else Inr (trim value))"

text \<open>The severity is \<open>None\<close> when the lookup found an inherited member.\<close>

record normalized_alert =
  na_eventId :: string
  na_source :: string
  na_siteCode :: string
  na_ciCode :: string
  na_alertType :: string
  na_severity :: "alert_severity option"
  na_componentKey :: "string option"
  na_occurredAt :: instant
  na_state :: alert_state
  na_summary :: string
  na_attributes :: "(string \<times> json_value) list"

definition json_opt :: "string option \<Rightarrow> json_value" where
  "json_opt s = (case s of None \<Rightarrow> JNull | Some t \<Rightarrow> JString t)"

section \<open>Zabbix\<close>

text \<open>What \<open>Number(timestamp)\<close> and \<open>new Date(seconds * 1000)\<close> make of the text.\<close>

datatype epoch_reading = NotPositive | NoDate | At instant

record zabbix_event =
  zx_eventId :: string
  zx_eventValue :: string
  zx_eventUpdateStatus :: "string option"
  zx_eventAckStatus :: "string option"
  zx_name :: string
  zx_severity :: "string option"
  zx_nseverity :: "string option"
  zx_timestamp :: string
  zx_reading :: epoch_reading
  zx_host :: string
  zx_hostName :: "string option"
  zx_itemKey :: "string option"
  zx_triggerId :: "string option"
  zx_opdata :: "string option"
  zx_tags :: "(string \<times> json_value) list option"

definition NSEVERITY_TO_SEVERITY :: "(string \<times> alert_severity) list" where
  "NSEVERITY_TO_SEVERITY = [(''0'', A_INFO), (''1'', A_INFO), (''2'', A_WARNING), (''3'', A_HIGH), (''4'', A_HIGH), (''5'', A_CRITICAL)]"

definition TEXT_TO_SEVERITY :: "(string \<times> alert_severity) list" where
  "TEXT_TO_SEVERITY = [(''not classified'', A_INFO), (''information'', A_INFO), (''warning'', A_WARNING), (''average'', A_HIGH),
     (''high'', A_HIGH), (''disaster'', A_CRITICAL)]"

definition zabbixSeverity :: "zabbix_event \<Rightarrow> alert_severity option" where
  "zabbixSeverity e =
     (let byNumber = (if truthy (zx_nseverity e) then table_lookup NSEVERITY_TO_SEVERITY (trim (the (zx_nseverity e))) else None);
          byText = (if truthy (zx_severity e) then table_lookup TEXT_TO_SEVERITY (toLowerCase (trim (the (zx_severity e)))) else None)
      in option_default (option_default (Some A_WARNING) byText) byNumber)"

definition zabbixState :: "zabbix_event \<Rightarrow> alert_state" where
  "zabbixState e =
     (if trim (zx_eventValue e) = ''0'' then A_RECOVERED
      else if map_option (toLowerCase \<circ> trim) (zx_eventAckStatus e) = Some ''yes'' then A_ACKNOWLEDGED
      else if map_option trim (zx_eventUpdateStatus e) = Some ''1'' then A_ACKNOWLEDGED
      else A_OPEN)"

definition normalizeZabbixEvent :: "zabbix_event \<Rightarrow> norm_error + normalized_alert" where
  "normalizeZabbixEvent e =
     andThen (required ''Zabbix event'' (zx_eventId e) ''eventId'') (\<lambda>eventId.
     andThen (required ''Zabbix event'' (zx_host e) ''host'') (\<lambda>host.
     andThen (required ''Zabbix event'' (zx_name e) ''name'') (\<lambda>name.
     andThen (required ''Zabbix event'' (zx_timestamp e) ''timestamp'') (\<lambda>_.
     if zx_reading e = NotPositive
     then Inl (NormalizationError (''Zabbix event '' @ eventId @ '' has a non-numeric timestamp '' @ quoted (zx_timestamp e)) ''timestamp'')
     else
     let tags = option_default [] (zx_tags e) in
     andThen (member_trim tags ''site'') (\<lambda>siteTag.
     case option_or siteTag (siteFromHost host) of
       None \<Rightarrow> Inl (NormalizationError (''Zabbix event '' @ eventId @ '' has no '' @ quoted ''site'' @ '' tag and no site prefix on host '' @ quoted host) ''site'')
     | Some siteCode \<Rightarrow>
     andThen (member_trim tags ''ci'') (\<lambda>ciTag.
     andThen (member_trim tags ''alertType'') (\<lambda>typeTag.
     andThen (member_trim tags ''component'') (\<lambda>componentTag.
     case zx_reading e of
       At t \<Rightarrow>
         Inr \<lparr>na_eventId = ''zbx-'' @ eventId, na_source = ''ZABBIX'', na_siteCode = siteCode, na_ciCode = option_default host ciTag,
              na_alertType = option_default (option_default (slug name) (trimmed_or_null (zx_itemKey e))) typeTag,
              na_severity = zabbixSeverity e, na_componentKey = option_or componentTag (trimmed_or_null (zx_itemKey e)),
              na_occurredAt = t, na_state = zabbixState e,
              na_summary = (case trimmed_or_null (zx_opdata e) of None \<Rightarrow> name | Some d \<Rightarrow> name @ '' - '' @ d),
              na_attributes = [(''zabbixEventId'', JString eventId), (''host'', JString host), (''hostName'', json_opt (zx_hostName e)),
                (''triggerId'', json_opt (zx_triggerId e)), (''itemKey'', json_opt (zx_itemKey e)), (''zabbixSeverity'', json_opt (zx_severity e)),
                (''zabbixNSeverity'', json_opt (zx_nseverity e)), (''tags'', JOther)]\<rparr>
     | _ \<Rightarrow> Inl (OtherError ''Invalid time value'')))))))))"

section \<open>Prometheus Alertmanager\<close>

record alertmanager_alert =
  am_resolved :: bool
  am_labels :: "(string \<times> json_value) list"
  am_annotations :: "(string \<times> json_value) list"
  am_startsAt :: "string \<times> instant option"
  am_endsAt :: "string \<times> instant option"
  am_fingerprint :: string
  am_generatorURL :: "string option"

definition LABEL_TO_SEVERITY :: "(string \<times> alert_severity) list" where
  "LABEL_TO_SEVERITY = [(''critical'', A_CRITICAL), (''page'', A_CRITICAL), (''error'', A_HIGH), (''high'', A_HIGH), (''warning'', A_WARNING),
     (''warn'', A_WARNING), (''info'', A_INFO), (''information'', A_INFO), (''none'', A_INFO)]"

definition labelSeverity :: "(string \<times> json_value) list \<Rightarrow> norm_error + alert_severity option" where
  "labelSeverity labels =
     andThen (member_trim labels ''severity'') (\<lambda>raw.
     Inr (case raw of
            None \<Rightarrow> Some A_WARNING
          | Some r \<Rightarrow> option_default (Some A_WARNING) (table_lookup LABEL_TO_SEVERITY (toLowerCase r))))"

definition epochSeconds :: "string \<times> instant option \<Rightarrow> int option" where
  "epochSeconds rfc3339 = (if fst rfc3339 = [] then None else map_option (\<lambda>ms. ms div 1000) (snd rfc3339))"

definition requireLabel :: "(string \<times> json_value) list \<Rightarrow> string \<Rightarrow> string \<Rightarrow> norm_error + string" where
  "requireLabel labels key context =
     andThen (member_trim labels key) (\<lambda>v.
     case v of
       None \<Rightarrow> Inl (NormalizationError (context @ '' is missing the '' @ quoted key @ '' label'') key)
     | Some t \<Rightarrow> Inr t)"

text \<open>\<open>a.trim() || b.trim() || ...\<close>: the first member with text; later ones are not looked at.\<close>

fun first_member :: "(string \<times> json_value) list \<Rightarrow> string list \<Rightarrow> norm_error + string option" where
  "first_member obj [] = Inr None"
| "first_member obj (k # ks) = andThen (member_trim obj k) (\<lambda>v. case v of None \<Rightarrow> first_member obj ks | Some t \<Rightarrow> Inr (Some t))"

definition positive :: "int option \<Rightarrow> bool" where
  "positive n = (case n of None \<Rightarrow> False | Some k \<Rightarrow> 0 < k)"

definition normalizeAlertmanagerAlert :: "alertmanager_alert \<Rightarrow> norm_error + normalized_alert" where
  "normalizeAlertmanagerAlert a =
     andThen (requireLabel (am_labels a) ''alertname'' ''Alertmanager alert'') (\<lambda>alertName.
     andThen (requireLabel (am_labels a) ''site'' (''Alertmanager alert '' @ alertName)) (\<lambda>siteCode.
     andThen (requireLabel (am_labels a) ''ci'' (''Alertmanager alert '' @ alertName)) (\<lambda>ciCode.
     let fingerprint = trim (am_fingerprint a); start = epochSeconds (am_startsAt a); fin = epochSeconds (am_endsAt a) in
     if fingerprint = [] then Inl (NormalizationError (''Alertmanager alert '' @ alertName @ '' is missing a fingerprint'') ''fingerprint'')
     else if \<not> positive start
     then Inl (NormalizationError (''Alertmanager alert '' @ alertName @ '' has an unparseable startsAt '' @ quoted (fst (am_startsAt a))) ''startsAt'')
     else
     andThen (labelSeverity (am_labels a)) (\<lambda>severity.
     andThen (first_member (am_labels a) [''component'', ''device'', ''instance'']) (\<lambda>componentKey.
     andThen (first_member (am_annotations a) [''summary'', ''description'', ''message'']) (\<lambda>summary.
     Inr \<lparr>na_eventId = ''prom-'' @ fingerprint @ ''-'' @ int_str (the start), na_source = ''PROMETHEUS'', na_siteCode = siteCode,
          na_ciCode = ciCode, na_alertType = alertName, na_severity = severity, na_componentKey = componentKey,
          na_occurredAt = (if am_resolved a \<and> positive fin then the fin else the start) * 1000,
          na_state = (if am_resolved a then A_RECOVERED else A_OPEN), na_summary = option_default alertName summary,
          na_attributes = [(''alertmanagerFingerprint'', JString fingerprint), (''generatorURL'', json_opt (am_generatorURL a)), (''labels'', JOther)]\<rparr>))))))"

text \<open>Failures of the adapter are collected with their index, any other exception ends the delivery.\<close>

fun normalize_from :: "nat \<Rightarrow> alertmanager_alert list \<Rightarrow> norm_error + normalized_alert list \<times> (nat \<times> norm_error) list" where
  "normalize_from i [] = Inr ([], [])"
| "normalize_from i (a # as) =
     (case normalizeAlertmanagerAlert a of
        Inr n \<Rightarrow> andThen (normalize_from (Suc i) as) (\<lambda>(ns, es). Inr (n # ns, es))
      | Inl (NormalizationError m f) \<Rightarrow> andThen (normalize_from (Suc i) as) (\<lambda>(ns, es). Inr (ns, (i, NormalizationError m f) # es))
      | Inl (OtherError m) \<Rightarrow> Inl (OtherError m))"

definition normalizeAlertmanagerWebhook :: "alertmanager_alert list option \<Rightarrow> norm_error + normalized_alert list \<times> (nat \<times> norm_error) list" where
  "normalizeAlertmanagerWebhook delivered =
     (case delivered of
        None \<Rightarrow> Inl (NormalizationError (''webhook payload has no '' @ quoted ''alerts'' @ '' array'') ''alerts'')
      | Some as \<Rightarrow> normalize_from 0 as)"

section \<open>SNMP traps\<close>

text \<open>The value of a varbind is the text \<open>String(value)\<close>, or \<open>None\<close> for null.\<close>

record varbind =
  vb_oid :: string
  vb_name :: "string option"
  vb_value :: "string option"

record snmp_v1 =
  v1_enterprise :: "string option"
  v1_genericTrap :: "int option"
  v1_specificTrap :: "int option"

record snmp_trap =
  tp_ciCode :: string
  tp_siteCode :: "string option"
  tp_trapOid :: "string option"
  tp_trapName :: "string option"
  tp_agentAddress :: string
  tp_sysUpTimeTicks :: "int option"
  tp_receivedAt :: "(string \<times> instant option) option"
  tp_version :: "string option"
  tp_v1 :: "snmp_v1 option"
  tp_varbinds :: "varbind list option"
  tp_severity :: "alert_severity option"
  tp_clears :: bool

record known_trap =
  kt_alertType :: string
  kt_severity :: alert_severity
  kt_state :: alert_state
  kt_interface :: bool

definition KNOWN_TRAPS :: "(string \<times> known_trap) list" where
  "KNOWN_TRAPS =
    [(''1.3.6.1.6.3.1.1.5.1'', \<lparr>kt_alertType = ''device.cold_start'', kt_severity = A_WARNING, kt_state = A_OPEN, kt_interface = False\<rparr>),
     (''1.3.6.1.6.3.1.1.5.2'', \<lparr>kt_alertType = ''device.warm_start'', kt_severity = A_INFO, kt_state = A_OPEN, kt_interface = False\<rparr>),
     (''1.3.6.1.6.3.1.1.5.3'', \<lparr>kt_alertType = ''network.link_state'', kt_severity = A_HIGH, kt_state = A_OPEN, kt_interface = True\<rparr>),
     (''1.3.6.1.6.3.1.1.5.4'', \<lparr>kt_alertType = ''network.link_state'', kt_severity = A_INFO, kt_state = A_RECOVERED, kt_interface = True\<rparr>),
     (''1.3.6.1.6.3.1.1.5.5'', \<lparr>kt_alertType = ''security.authentication_failure'', kt_severity = A_WARNING, kt_state = A_OPEN, kt_interface = False\<rparr>),
     (''1.3.6.1.6.3.1.1.5.6'', \<lparr>kt_alertType = ''network.egp_neighbor_loss'', kt_severity = A_HIGH, kt_state = A_OPEN, kt_interface = False\<rparr>)]"

definition V1_GENERIC_OIDS :: "string list" where
  "V1_GENERIC_OIDS = [''1.3.6.1.6.3.1.1.5.1'', ''1.3.6.1.6.3.1.1.5.2'', ''1.3.6.1.6.3.1.1.5.3'', ''1.3.6.1.6.3.1.1.5.4'',
     ''1.3.6.1.6.3.1.1.5.5'', ''1.3.6.1.6.3.1.1.5.6'']"

definition IF_NAME_OIDS :: "string list" where
  "IF_NAME_OIDS = [''1.3.6.1.2.1.31.1.1.1.1'', ''1.3.6.1.2.1.2.2.1.2'']"

definition IF_INDEX_OID :: string where
  "IF_INDEX_OID = ''1.3.6.1.2.1.2.2.1.1''"

definition resolveTrapOid :: "snmp_trap \<Rightarrow> norm_error + string" where
  "resolveTrapOid t =
     (let unusable = Inl (NormalizationError ''SNMP trap has no trapOid and no usable SNMPv1 generic-trap'' ''trapOid'') in
      case trimmed_or_null (tp_trapOid t) of
        Some oid \<Rightarrow> Inr oid
      | None \<Rightarrow>
          (case tp_v1 t of
             None \<Rightarrow> unusable
           | Some v \<Rightarrow>
               (case v1_genericTrap v of
                  None \<Rightarrow> unusable
                | Some g \<Rightarrow>
                    if 0 \<le> g \<and> g \<le> 5 then Inr (V1_GENERIC_OIDS ! nat g)
                    else (case trimmed_or_null (v1_enterprise v) of
                            Some ent \<Rightarrow> if g = 6 then Inr (ent @ ''.0.'' @ int_str (option_default 0 (v1_specificTrap v))) else unusable
                          | None \<Rightarrow> unusable))))"

definition vb_named :: "string list \<Rightarrow> varbind \<Rightarrow> bool" where
  "vb_named names vb \<longleftrightarrow> toLowerCase (option_default [] (vb_name vb)) \<in> set names"

definition value_text :: "varbind option \<Rightarrow> string option" where
  "value_text vb = (case vb of None \<Rightarrow> None | Some b \<Rightarrow> map_option trim (vb_value b))"

definition extractComponentKey :: "varbind list \<Rightarrow> bool \<Rightarrow> string option" where
  "extractComponentKey varbinds interface =
     (let named = value_text (List.find (\<lambda>vb. vb_named [''ifname'', ''ifdescr''] vb \<or> list_ex (\<lambda>oid. prefix oid (vb_oid vb)) IF_NAME_OIDS) varbinds);
          indexed = value_text (List.find (\<lambda>vb. vb_named [''ifindex''] vb \<or> prefix IF_INDEX_OID (vb_oid vb)) varbinds);
          generic = value_text (List.find (vb_named [''component'', ''entity'', ''entphysicalname'', ''slot'', ''sensor'', ''unit'']) varbinds)
      in if interface \<and> truthy named then Some (''if:'' @ the named)
         else if interface \<and> indexed \<noteq> None then Some (''ifIndex:'' @ the indexed)
         else if truthy generic then generic else None)"

text \<open>\<open>trapOid.split(".").filter(Boolean)\<close>.\<close>

fun arcs_of :: "string \<Rightarrow> string \<Rightarrow> string list" where
  "arcs_of acc [] = (if acc = [] then [] else [rev acc])"
| "arcs_of acc (c # cs) = (if c = CHR ''.'' then (if acc = [] then [] else [rev acc]) @ arcs_of [] cs else arcs_of (c # acc) cs)"

definition genericAlertType :: "snmp_trap \<Rightarrow> string \<Rightarrow> string" where
  "genericAlertType t trapOid =
     (case trimmed_or_null (tp_trapName t) of
        Some n \<Rightarrow> ''snmp.'' @ slug n
      | None \<Rightarrow> (let arcs = arcs_of [] trapOid in ''snmp.trap_'' @ join ''_'' (drop (length arcs - 2) arcs)))"

definition received_at :: "instant \<Rightarrow> snmp_trap \<Rightarrow> norm_error + instant" where
  "received_at now t =
     (case tp_receivedAt t of
        None \<Rightarrow> Inr now
      | Some (text, reading) \<Rightarrow>
          if trim text = [] then Inr now
          else (case reading of
                  None \<Rightarrow> Inl (NormalizationError (''SNMP trap has an unparseable receivedAt '' @ quoted text) ''receivedAt'')
                | Some ms \<Rightarrow> Inr ms))"

definition normalizeSnmpTrap :: "instant \<Rightarrow> snmp_trap \<Rightarrow> norm_error + normalized_alert" where
  "normalizeSnmpTrap now t =
     andThen (required ''SNMP trap'' (tp_ciCode t) ''ciCode'') (\<lambda>ciCode.
     case option_or (trimmed_or_null (tp_siteCode t)) (siteFromHost ciCode) of
       None \<Rightarrow> Inl (NormalizationError (''SNMP trap for CI '' @ quoted ciCode @ '' has no siteCode and no site prefix on the CI code'') ''siteCode'')
     | Some siteCode \<Rightarrow>
     andThen (required ''SNMP trap'' (tp_agentAddress t) ''agentAddress'') (\<lambda>agentAddress.
     andThen (received_at now t) (\<lambda>occurredAt.
     andThen (resolveTrapOid t) (\<lambda>trapOid.
     let known = map_of KNOWN_TRAPS trapOid;
         componentKey = extractComponentKey (option_default [] (tp_varbinds t)) (case known of None \<Rightarrow> False | Some k \<Rightarrow> kt_interface k);
         alertType = (case known of None \<Rightarrow> genericAlertType t trapOid | Some k \<Rightarrow> kt_alertType k);
         severity = option_default (case known of None \<Rightarrow> A_WARNING | Some k \<Rightarrow> kt_severity k) (tp_severity t);
         state = (if tp_clears t then A_RECOVERED else case known of None \<Rightarrow> A_OPEN | Some k \<Rightarrow> kt_state k);
         occurrenceKey = int_str (option_default occurredAt (tp_sysUpTimeTicks t));
         label = option_default (case known of None \<Rightarrow> ''SNMP trap '' @ trapOid | Some k \<Rightarrow> kt_alertType k) (trimmed_or_null (tp_trapName t))
     in Inr \<lparr>na_eventId = ''snmp-'' @ slug ciCode @ ''-'' @ slug alertType @ ''-'' @ slug (option_default ''device'' componentKey) @ ''-'' @ occurrenceKey,
          na_source = ''SNMP'', na_siteCode = siteCode, na_ciCode = ciCode, na_alertType = alertType, na_severity = Some severity,
          na_componentKey = componentKey, na_occurredAt = occurredAt, na_state = state,
          na_summary = label @ (case componentKey of None \<Rightarrow> [] | Some k \<Rightarrow> '' on '' @ k) @ '' from '' @ agentAddress,
          na_attributes = [(''trapOid'', JString trapOid), (''trapName'', json_opt (tp_trapName t)), (''snmpVersion'', json_opt (tp_version t)),
            (''agentAddress'', JString agentAddress), (''sysUpTimeTicks'', JOther), (''v1'', JOther), (''varbinds'', JOther)]\<rparr>))))"

section \<open>The source webhooks\<close>

record rejected_alert =
  rj_index :: nat
  rj_field :: "string option"
  rj_message :: string

record source_result =
  sr_accepted :: "alert_ingest_result list"
  sr_rejected :: "rejected_alert list"

fun toRejectedAlert :: "nat \<Rightarrow> norm_error \<Rightarrow> rejected_alert" where
  "toRejectedAlert i (NormalizationError m f) = \<lparr>rj_index = i, rj_field = Some f, rj_message = m\<rparr>"
| "toRejectedAlert i (OtherError m) = \<lparr>rj_index = i, rj_field = None, rj_message = m\<rparr>"

definition ingest_dto_of :: "normalized_alert \<Rightarrow> alert_severity \<Rightarrow> ingest_alert_dto" where
  "ingest_dto_of n s = \<lparr>id_eventId = na_eventId n, id_source = na_source n, id_siteCode = na_siteCode n, id_ciCode = na_ciCode n,
     id_alertType = na_alertType n, id_severity = s, id_componentKey = na_componentKey n, id_occurredAt = na_occurredAt n,
     id_state = na_state n, id_summary = na_summary n, id_attributes = Some (na_attributes n)\<rparr>"

lemma ingest_dto_of_simps [simp]:
  "id_source (ingest_dto_of n s) = na_source n" "id_eventId (ingest_dto_of n s) = na_eventId n" "id_state (ingest_dto_of n s) = na_state n"
  by (simp_all add: ingest_dto_of_def)

text \<open>
  \<open>this.ingest(normalized, actor)\<close>. With a severity that is none the first write, after the policy
  was read, is refused by the database client.
\<close>

definition ingestNormalized :: "instant \<Rightarrow> normalized_alert \<Rightarrow> actor_context \<Rightarrow> alert_ingest_result op" where
  "ingestNormalized now n actor =
     (case na_severity n of
        Some s \<Rightarrow> ingest now (ingest_dto_of n s) actor
      | None \<Rightarrow>
          bindM (getM (\<lambda>w. find_by s_code (na_siteCode n) (sites w))) (\<lambda>site.
          bindM (resolveRule now (map_option s_id site) (Some (na_alertType n))) (\<lambda>_.
          throw (Internal ''Invalid value for argument severity''))))"

fun ingest_each :: "instant \<Rightarrow> ('e \<Rightarrow> norm_error + normalized_alert) \<Rightarrow> nat \<Rightarrow> 'e list \<Rightarrow> actor_context \<Rightarrow> source_result op" where
  "ingest_each now adapt i [] actor = ret \<lparr>sr_accepted = [], sr_rejected = []\<rparr>"
| "ingest_each now adapt i (e # es) actor =
     (case adapt e of
        Inl err \<Rightarrow>
          bindM (ingest_each now adapt (Suc i) es actor) (\<lambda>rest.
          ret (rest\<lparr>sr_rejected := toRejectedAlert i err # sr_rejected rest\<rparr>))
      | Inr n \<Rightarrow>
          bindM (ingestNormalized now n actor) (\<lambda>r.
          bindM (ingest_each now adapt (Suc i) es actor) (\<lambda>rest.
          ret (rest\<lparr>sr_accepted := r # sr_accepted rest\<rparr>))))"

definition ingestFromZabbix :: "instant \<Rightarrow> zabbix_event list \<Rightarrow> actor_context \<Rightarrow> source_result op" where
  "ingestFromZabbix now batch actor = ingest_each now normalizeZabbixEvent 0 batch actor"

definition ingestFromSnmp :: "instant \<Rightarrow> snmp_trap list \<Rightarrow> actor_context \<Rightarrow> source_result op" where
  "ingestFromSnmp now traps actor = ingest_each now (normalizeSnmpTrap now) 0 traps actor"

definition ingestFromAlertmanager :: "instant \<Rightarrow> alertmanager_alert list option \<Rightarrow> actor_context \<Rightarrow> source_result op" where
  "ingestFromAlertmanager now delivered actor =
     (case normalizeAlertmanagerWebhook delivered of
        Inl e \<Rightarrow> throw (Internal (norm_message e))
      | Inr (ns, errs) \<Rightarrow>
          bindM (ingest_each now Inr 0 ns actor) (\<lambda>res.
          ret (res\<lparr>sr_rejected := map (\<lambda>(i, e). toRejectedAlert i e) errs\<rparr>)))"

section \<open>Reading alerts\<close>

record query_alerts_dto =
  qal_state :: "alert_state option"
  qal_severity :: "alert_severity option"
  qal_ciCode :: "string option"
  qal_fingerprint :: "string option"
  qal_correlatedIncidentId :: "uuid option"
  qal_limit :: "nat option"

definition alert_matches :: "query_alerts_dto \<Rightarrow> uuid option \<Rightarrow> alert \<Rightarrow> bool" where
  "alert_matches q ciId a \<longleftrightarrow>
     (case qal_state q of None \<Rightarrow> True | Some s \<Rightarrow> al_state a = s) \<and> (case qal_severity q of None \<Rightarrow> True | Some s \<Rightarrow> al_severity a = s) \<and>
     (\<not> truthy (qal_fingerprint q) \<or> Some (al_fingerprint a) = qal_fingerprint q) \<and> (\<not> truthy ciId \<or> al_ciId a = ciId) \<and>
     (\<not> truthy (qal_correlatedIncidentId q) \<or> al_correlatedIncidentId a = qal_correlatedIncidentId q)"

definition alertsFindAll :: "query_alerts_dto \<Rightarrow> world \<Rightarrow> alert list" where
  "alertsFindAll q w =
     (let page = (\<lambda>ciId. take (option_default 50 (qal_limit q)) (sort_key (\<lambda>a. - al_lastSeenAt a) (filter (alert_matches q ciId) (alerts w)))) in
      if truthy (qal_ciCode q)
      then (case find_by ci_code (the (qal_ciCode q)) (cis w) of None \<Rightarrow> [] | Some ci \<Rightarrow> page (Some (ci_id ci)))
      else page None)"

definition alertsFindOne :: "uuid \<Rightarrow> world \<Rightarrow> http_error + alert" where
  "alertsFindOne i w = (case find_by al_id i (alerts w) of None \<Rightarrow> Inl (NotFound (''Alert '' @ i @ '' not found'')) | Some a \<Rightarrow> Inr a)"

section \<open>What an ingestion leaves\<close>

lemma existing_iff:
  "alerts_inv w \<Longrightarrow> existing_alert dto w = Some e \<longleftrightarrow> e \<in> set (alerts w) \<and> event_key e = (id_source dto, id_eventId dto)"
  using existing_in [of dto w e] find_by_distinct [of event_key "alerts w" e]
  by (auto simp: alerts_inv_def existing_alert_def event_key_def [abs_def])

lemma update_by_image: "r \<in> set rows \<Longrightarrow> (if key r = k then f r else r) \<in> set (update_by key k f rows)"
  by (auto simp: update_by_def)

text \<open>The row of the event, with the state the sighting gave it.\<close>

lemma sighting_row:
  assumes "recordSighting now dto s c fp (existing_alert dto w) act (w\<lparr>rule_cache := k\<rparr>) = (Inr sg, w1)"
  shows "\<exists>a \<in> set (alerts w1). event_key a = (id_source dto, id_eventId dto) \<and> al_id a = sg_alertId sg \<and> al_state a = sg_finalState sg"
proof (cases "existing_alert dto w")
  case None
  note new = sighting_new [OF assms [unfolded None]]
  then show ?thesis by (auto simp: new(4) event_key_def new_alert_def)
next
  case (Some e)
  note known = sighting_known [OF assms [unfolded Some]]
  have "update_alert dto s c e e \<in> set (alerts w1)"
    using known(1) existing_in [OF Some] update_by_image [of e "alerts w" al_id "al_id e" "update_alert dto s c e"] by auto
  then show ?thesis
    using existing_in [OF Some] known(2,4) by (intro bexI) (auto simp: update_alert_def event_key_def)
qed

lemma ingest_stores:
  assumes "ingest now dto act w = (Inr r, w')" "alerts_inv w"
  shows "alerts_inv w' \<and> (ir_deduped r \<longleftrightarrow> existing_alert dto w \<noteq> None) \<and>
    (\<exists>e. existing_alert dto w' = Some e \<and> al_id e = ir_alertId r \<and> (id_state dto = A_RECOVERED \<longrightarrow> al_state e = A_RECOVERED) \<and>
       (existing_alert dto w = None \<longrightarrow> al_state e = id_state dto))"
proof -
  obtain k sg w1 w2 w3 s c fp r' where st: "recordSighting now dto s c fp (existing_alert dto w) act (w\<lparr>rule_cache := k\<rparr>) = (Inr sg, w1)"
    "same_alerts w1 w2" "same_alerts w2 w3 \<or> attached (sg_alertId sg) w2 w3"
    "same_alerts w3 (snd (ingest now dto act w))" "fst (ingest now dto act w) = Inr r'" "ir_alertId r' = sg_alertId sg" "ir_deduped r' = sg_deduped sg"
    by (rule ingest_run [of now dto w act]) metis
  have inv: "alerts_inv w'" using alert_step_inv [OF as_ingest assms(2), of now dto act] assms(1) by simp
  let ?P = "\<lambda>a. event_key a = (id_source dto, id_eventId dto) \<and> al_id a = sg_alertId sg \<and> al_state a = sg_finalState sg"
  have "\<exists>a \<in> set (alerts w2). ?P a" using sighting_row [OF st(1)] st(2) by (simp add: same_alerts_def)
  then have "\<exists>a \<in> set (alerts w3). ?P a"
  proof (rule bexE)
    fix a assume a: "a \<in> set (alerts w2)" "?P a"
    show ?thesis
      using st(3)
    proof
      assume "attached (sg_alertId sg) w2 w3"
      then obtain i where "alerts w3 = update_by al_id (sg_alertId sg) (\<lambda>x. x\<lparr>al_correlatedIncidentId := Some i\<rparr>) (alerts w2)"
        unfolding attached_def by blast
      then have "a\<lparr>al_correlatedIncidentId := Some i\<rparr> \<in> set (alerts w3)"
        using update_by_image [OF a(1), of al_id "sg_alertId sg"] a(2) by simp
      then show ?thesis using a(2) by (intro bexI) (simp_all add: event_key_def)
    qed (use a in \<open>auto simp: same_alerts_def\<close>)
  qed
  then obtain e where e: "e \<in> set (alerts w')" "?P e" using st(4) assms(1) by (auto simp: same_alerts_def)
  then have ex: "existing_alert dto w' = Some e" using existing_iff [OF inv] by simp
  have final: "(id_state dto = A_RECOVERED \<longrightarrow> sg_finalState sg = A_RECOVERED) \<and> (existing_alert dto w = None \<longrightarrow> sg_finalState sg = id_state dto) \<and>
      (sg_deduped sg \<longleftrightarrow> existing_alert dto w \<noteq> None)"
  proof (cases "existing_alert dto w")
    case None
    then show ?thesis using sighting_new(3,4) [OF st(1) [unfolded None]] by simp
  next
    case (Some e)
    then show ?thesis using sighting_known(3,4) [OF st(1) [unfolded Some]] by (simp add: reduceAlertState_def)
  qed
  have "r' = r" using st(5) assms(1) by simp
  then show ?thesis using inv ex e(2) final st(6,7) by auto
qed

text \<open>A row found by its event keeps its id and its event through any run.\<close>

lemma existing_persists:
  assumes "alert_step\<^sup>*\<^sup>* w w'" "alerts_inv w" "existing_alert dto w = Some e"
  shows "\<exists>e'. existing_alert dto w' = Some e' \<and> al_id e' = al_id e"
proof -
  have e: "e \<in> set (alerts w)" "event_key e = (id_source dto, id_eventId dto)" using existing_in [OF assms(3)] by auto
  have keys: "keys_ok alerts al_id w" using assms(2) by (simp add: alerts_inv_def register_inv_def)
  then have "find_by al_id (al_id e) (alerts w) = Some e" using e(1) find_by_distinct by (auto simp: keys_ok_def)
  then obtain e' where e': "find_by al_id (al_id e) (alerts w') = Some e'" "alert_moves e e'"
    using alert_register.follow_row [OF alert_run [OF assms(1)] keys] by blast
  then have "existing_alert dto w' = Some e'" "al_id e' = al_id e"
    using existing_iff [OF alert_history.run_inv [OF assms(1,2)], of dto e'] find_by_SomeD [OF e'(1)] e(2)
    by (auto simp: alert_moves_def event_key_def)
  then show ?thesis by blast
qed

lemma ingestNormalized_Inr:
  "ingestNormalized now n actor w = (Inr r, w') \<Longrightarrow> \<exists>s. na_severity n = Some s \<and> ingest now (ingest_dto_of n s) actor w = (Inr r, w')"
  by (auto simp: ingestNormalized_def bindM_def throw_def split: option.splits prod.splits sum.splits)

lemma existing_normalized:
  "na_source m = na_source n \<Longrightarrow> na_eventId m = na_eventId n \<Longrightarrow> existing_alert (ingest_dto_of m s) w = existing_alert (ingest_dto_of n s') w"
  by (simp add: existing_alert_def ingest_dto_of_def)

text \<open>Two deliveries of one event, the second a recovery, with anything between them.\<close>

lemma recovery_pairs:
  assumes "na_source m = na_source n" "na_eventId m = na_eventId n" "na_state m = A_RECOVERED" "alerts_inv w"
    "ingestNormalized t n actor w = (Inr r, w1)" "alert_step\<^sup>*\<^sup>* w1 w2" "ingestNormalized t' m actor' w2 = (Inr r', w3)"
  shows "ir_deduped r' \<and> ir_alertId r' = ir_alertId r \<and> map_option al_state (find_by al_id (ir_alertId r) (alerts w3)) = Some A_RECOVERED"
proof -
  obtain s where s: "ingest t (ingest_dto_of n s) actor w = (Inr r, w1)" using ingestNormalized_Inr [OF assms(5)] by blast
  obtain s' where s': "ingest t' (ingest_dto_of m s') actor' w2 = (Inr r', w3)" using ingestNormalized_Inr [OF assms(7)] by blast
  obtain e where e: "alerts_inv w1" "existing_alert (ingest_dto_of n s) w1 = Some e" "al_id e = ir_alertId r"
    using ingest_stores [OF s assms(4)] by blast
  obtain e2 where e2: "existing_alert (ingest_dto_of m s') w2 = Some e2" "al_id e2 = al_id e"
    using existing_persists [OF assms(6) e(1,2)] existing_normalized [OF assms(1,2)] by metis
  have inv2: "alerts_inv w2" using alert_history.run_inv [OF assms(6) e(1)] .
  obtain e3 where e3: "alerts_inv w3" "ir_deduped r'" "existing_alert (ingest_dto_of m s') w3 = Some e3" "al_id e3 = ir_alertId r'" "al_state e3 = A_RECOVERED"
    using ingest_stores [OF s' inv2] assms(3) e2(1) by (auto simp: ingest_dto_of_def)
  have "alert_step w2 w3" using as_ingest [of w2 t' "ingest_dto_of m s'" actor'] s' by simp
  then obtain e4 where "existing_alert (ingest_dto_of m s') w3 = Some e4" "al_id e4 = al_id e2"
    using existing_persists [OF r_into_rtranclp inv2 e2(1)] by blast
  then have id: "al_id e3 = ir_alertId r" using e3(3) e2(2) e(3) by simp
  have "find_by al_id (al_id e3) (alerts w3) = Some e3"
    using find_by_distinct [of al_id "alerts w3" e3] existing_in [OF e3(3)] e3(1) by (simp add: alerts_inv_def register_inv_def keys_ok_def)
  then show ?thesis using e3(2,4,5) id by simp
qed

section \<open>What the adapters produce\<close>

lemma zabbix_parts:
  assumes "normalizeZabbixEvent e = Inr n"
  shows "na_source n = ''ZABBIX''" "na_eventId n = ''zbx-'' @ trim (zx_eventId e)" "na_state n = zabbixState e" "na_severity n = zabbixSeverity e"
  using assms
  by (cases "zx_reading e"; auto simp: normalizeZabbixEvent_def andThen_Inr_iff required_def Let_def split: if_splits option.splits)+

lemma alertmanager_parts:
  assumes "normalizeAlertmanagerAlert a = Inr n"
  shows "na_source n = ''PROMETHEUS''" "na_eventId n = ''prom-'' @ trim (am_fingerprint a) @ ''-'' @ int_str (the (epochSeconds (am_startsAt a)))"
    "na_state n = (if am_resolved a then A_RECOVERED else A_OPEN)"
  using assms by (auto simp: normalizeAlertmanagerAlert_def andThen_Inr_iff Let_def split: if_splits)

lemma snmp_severity: "normalizeSnmpTrap now t = Inr n \<Longrightarrow> na_severity n \<noteq> None"
  by (auto simp: normalizeSnmpTrap_def andThen_Inr_iff Let_def split: option.splits)

lemma snmp_parts:
  assumes "normalizeSnmpTrap now t = Inr n" "resolveTrapOid t = Inr oid" "map_of KNOWN_TRAPS oid = Some k"
  shows "na_siteCode n = the (option_or (trimmed_or_null (tp_siteCode t)) (siteFromHost (trim (tp_ciCode t))))"
    "na_ciCode n = trim (tp_ciCode t)" "na_alertType n = kt_alertType k"
    "na_componentKey n = extractComponentKey (option_default [] (tp_varbinds t)) (kt_interface k)"
    "na_state n = (if tp_clears t then A_RECOVERED else kt_state k)"
    "tp_sysUpTimeTicks t = Some d \<Longrightarrow> na_eventId n = ''snmp-'' @ slug (na_ciCode n) @ ''-'' @ slug (na_alertType n) @ ''-'' @
       slug (option_default ''device'' (na_componentKey n)) @ ''-'' @ int_str d"
proof -
  let ?site = "option_or (trimmed_or_null (tp_siteCode t)) (siteFromHost (trim (tp_ciCode t)))"
  have ci: "required ''SNMP trap'' (tp_ciCode t) ''ciCode'' = Inr (trim (tp_ciCode t))"
    using assms(1) by (cases "trim (tp_ciCode t) = []") (simp_all add: normalizeSnmpTrap_def required_def)
  obtain siteCode where site: "?site = Some siteCode"
    using assms(1) by (cases ?site) (simp_all add: normalizeSnmpTrap_def ci)
  obtain agent where agent: "required ''SNMP trap'' (tp_agentAddress t) ''agentAddress'' = Inr agent"
    using assms(1) by (cases "required ''SNMP trap'' (tp_agentAddress t) ''agentAddress''") (simp_all add: normalizeSnmpTrap_def ci site)
  obtain ms where ms: "received_at now t = Inr ms"
    using assms(1) by (cases "received_at now t") (simp_all add: normalizeSnmpTrap_def ci site agent)
  note run = assms(1) [unfolded normalizeSnmpTrap_def ci site agent ms assms(2,3) andThen_simps option.case Let_def, unfolded sum.inject]
  show "na_siteCode n = the ?site" "na_ciCode n = trim (tp_ciCode t)" "na_alertType n = kt_alertType k"
    "na_componentKey n = extractComponentKey (option_default [] (tp_varbinds t)) (kt_interface k)"
    "na_state n = (if tp_clears t then A_RECOVERED else kt_state k)"
    "tp_sysUpTimeTicks t = Some d \<Longrightarrow> na_eventId n = ''snmp-'' @ slug (na_ciCode n) @ ''-'' @ slug (na_alertType n) @ ''-'' @
       slug (option_default ''device'' (na_componentKey n)) @ ''-'' @ int_str d"
    unfolding run [symmetric] site by simp_all
qed

text \<open>A linkDown trap and the linkUp of the same port at another uptime.\<close>

lemma snmp_link_traps:
  assumes "normalizeSnmpTrap t down = Inr n" "tp_trapOid down = Some ''1.3.6.1.6.3.1.1.5.3''" "tp_sysUpTimeTicks down = Some d"
    and "normalizeSnmpTrap t' (down\<lparr>tp_trapOid := Some ''1.3.6.1.6.3.1.1.5.4'', tp_sysUpTimeTicks := Some u\<rparr>) = Inr m" "u \<noteq> d"
  shows "na_state m = A_RECOVERED" "na_eventId m \<noteq> na_eventId n"
    "fingerprint_text (na_siteCode m) (na_ciCode m) (na_alertType m) (na_componentKey m) =
       fingerprint_text (na_siteCode n) (na_ciCode n) (na_alertType n) (na_componentKey n)"
proof -
  let ?up = "down\<lparr>tp_trapOid := Some ''1.3.6.1.6.3.1.1.5.4'', tp_sysUpTimeTicks := Some u\<rparr>"
  let ?k = "\<lambda>v st. \<lparr>kt_alertType = ''network.link_state'', kt_severity = v, kt_state = st, kt_interface = True\<rparr>"
  have "trim ''1.3.6.1.6.3.1.1.5.3'' = ''1.3.6.1.6.3.1.1.5.3''" "trim ''1.3.6.1.6.3.1.1.5.4'' = ''1.3.6.1.6.3.1.1.5.4''" by code_simp+
  then have oids: "resolveTrapOid down = Inr ''1.3.6.1.6.3.1.1.5.3''" "resolveTrapOid ?up = Inr ''1.3.6.1.6.3.1.1.5.4''"
    using assms(2) by (simp_all add: resolveTrapOid_def trimmed_or_null_def)
  have known: "map_of KNOWN_TRAPS ''1.3.6.1.6.3.1.1.5.3'' = Some (?k A_HIGH A_OPEN)" "map_of KNOWN_TRAPS ''1.3.6.1.6.3.1.1.5.4'' = Some (?k A_INFO A_RECOVERED)"
    by (simp_all add: KNOWN_TRAPS_def)
  note n = snmp_parts [OF assms(1) oids(1) known(1)] and m = snmp_parts [OF assms(4) oids(2) known(2)]
  have same: "na_ciCode m = na_ciCode n" "na_alertType m = na_alertType n" "na_componentKey m = na_componentKey n" "na_siteCode m = na_siteCode n"
    unfolding n(1-4) m(1-4) by simp_all
  show "na_state m = A_RECOVERED" using m(5) by simp
  have "tp_sysUpTimeTicks ?up = Some u" by simp
  from m(6) [OF this] n(6) [OF assms(3)] assms(5) int_str_inj [of u d] show "na_eventId m \<noteq> na_eventId n" unfolding same by auto
  show "fingerprint_text (na_siteCode m) (na_ciCode m) (na_alertType m) (na_componentKey m) =
       fingerprint_text (na_siteCode n) (na_ciCode n) (na_alertType n) (na_componentKey n)"
    unfolding same ..
qed

section \<open>Batches\<close>

definition normalized_of :: "('e \<Rightarrow> norm_error + normalized_alert) \<Rightarrow> 'e list \<Rightarrow> normalized_alert list" where
  "normalized_of adapt es = map projr (filter (\<lambda>r. \<not> isl r) (map adapt es))"

lemma ingestNormalized_returns: "na_severity n \<noteq> None \<Longrightarrow> \<exists>r w'. ingestNormalized now n actor w = (Inr r, w')"
proof -
  have "\<exists>r. fst (ingest now dto actor w) = Inr r" for dto by (rule ingest_run [of now dto w actor]) blast
  then have "\<exists>r w'. ingest now dto actor w = (Inr r, w')" for dto by (metis prod.collapse)
  then show "na_severity n \<noteq> None \<Longrightarrow> ?thesis" by (auto simp: ingestNormalized_def)
qed

lemma ingest_each_run:
  assumes "\<And>e n. e \<in> set es \<Longrightarrow> adapt e = Inr n \<Longrightarrow> na_severity n \<noteq> None"
  shows "\<exists>res. ingest_each now adapt i es actor w = (Inr res, foldl (\<lambda>w n. snd (ingestNormalized now n actor w)) w (normalized_of adapt es)) \<and>
     length (sr_accepted res) = length (normalized_of adapt es) \<and>
     sr_rejected res = map (\<lambda>j. toRejectedAlert (i + j) (projl (adapt (es ! j)))) (filter (\<lambda>j. isl (adapt (es ! j))) [0..<length es])"
  using assms
proof (induction es arbitrary: i w)
  case Nil
  then show ?case by (simp add: normalized_of_def)
next
  case (Cons e es)
  have shift: "filter (\<lambda>j. isl (adapt ((e # es) ! j))) [0..<length (e # es)] =
      (if isl (adapt e) then [0] else []) @ map Suc (filter (\<lambda>j. isl (adapt (es ! j))) [0..<length es])"
    by (simp add: upt_conv_Cons map_Suc_upt [symmetric] filter_map comp_def del: upt_Suc)
  show ?case
  proof (cases "adapt e")
    case (Inl err)
    obtain res where "ingest_each now adapt (Suc i) es actor w = (Inr res, foldl (\<lambda>w n. snd (ingestNormalized now n actor w)) w (normalized_of adapt es))"
      "length (sr_accepted res) = length (normalized_of adapt es)"
      "sr_rejected res = map (\<lambda>j. toRejectedAlert (Suc i + j) (projl (adapt (es ! j)))) (filter (\<lambda>j. isl (adapt (es ! j))) [0..<length es])"
      using Cons.IH [of "Suc i" w] Cons.prems by auto
    then show ?thesis using Inl unfolding shift by (simp add: bindM_def normalized_of_def comp_def)
  next
    case (Inr n)
    then obtain r w1 where r: "ingestNormalized now n actor w = (Inr r, w1)"
      using ingestNormalized_returns Cons.prems [of e n] by fastforce
    obtain res where "ingest_each now adapt (Suc i) es actor w1 = (Inr res, foldl (\<lambda>w n. snd (ingestNormalized now n actor w)) w1 (normalized_of adapt es))"
      "length (sr_accepted res) = length (normalized_of adapt es)"
      "sr_rejected res = map (\<lambda>j. toRejectedAlert (Suc i + j) (projl (adapt (es ! j)))) (filter (\<lambda>j. isl (adapt (es ! j))) [0..<length es])"
      using Cons.IH [of "Suc i" w1] Cons.prems by auto
    then show ?thesis using Inr r unfolding shift by (simp add: bindM_def normalized_of_def comp_def)
  qed
qed

section \<open>The properties\<close>

text \<open>
  a recovery closes the alert of the problem it belongs to. A resolved delivery of Alertmanager
  with the fingerprint and the start second of a firing one, and a Zabbix recovery with the event id of
  a problem, are recognized as the same event whatever was processed in between, and afterwards that
  alert, and no new one, is recovered.
\<close>

theorem recovery_closes_its_alert:
  assumes "(\<exists>a b. normalizeAlertmanagerAlert a = Inr n \<and> normalizeAlertmanagerAlert b = Inr m \<and> am_resolved b \<and>
        trim (am_fingerprint b) = trim (am_fingerprint a) \<and> epochSeconds (am_startsAt b) = epochSeconds (am_startsAt a)) \<or>
      (\<exists>a b. normalizeZabbixEvent a = Inr n \<and> normalizeZabbixEvent b = Inr m \<and> trim (zx_eventId b) = trim (zx_eventId a) \<and>
        trim (zx_eventValue b) = ''0'')"
    and "alerts_inv w" "ingestNormalized t n actor w = (Inr r, w1)" "alert_step\<^sup>*\<^sup>* w1 w2" "ingestNormalized t' m actor' w2 = (Inr r', w3)"
  shows "ir_deduped r' \<and> ir_alertId r' = ir_alertId r \<and> map_option al_state (find_by al_id (ir_alertId r) (alerts w3)) = Some A_RECOVERED"
proof -
  have "na_source m = na_source n \<and> na_eventId m = na_eventId n \<and> na_state m = A_RECOVERED"
    using assms(1) alertmanager_parts zabbix_parts by (fastforce simp: zabbixState_def)
  then show ?thesis using recovery_pairs assms(2-5) by blast
qed

definition disk_problem :: zabbix_event where
  "disk_problem = \<lparr>zx_eventId = ''7'', zx_eventValue = ''1'', zx_eventUpdateStatus = None, zx_eventAckStatus = None, zx_name = ''disk'',
     zx_severity = None, zx_nseverity = Some ''4'', zx_timestamp = ''100'', zx_reading = At 100000, zx_host = ''BLR-SRV1'', zx_hostName = None,
     zx_itemKey = None, zx_triggerId = None, zx_opdata = None, zx_tags = None\<rparr>"

lemma disk_problem_normalizes:
  "normalizeZabbixEvent (disk_problem\<lparr>zx_eventValue := v\<rparr>) = Inr \<lparr>na_eventId = ''zbx-7'', na_source = ''ZABBIX'', na_siteCode = ''BLR'',
     na_ciCode = ''BLR-SRV1'', na_alertType = ''disk'', na_severity = Some A_HIGH, na_componentKey = None, na_occurredAt = 100000,
     na_state = (if trim v = ''0'' then A_RECOVERED else A_OPEN), na_summary = ''disk'',
     na_attributes = na_attributes (projr (normalizeZabbixEvent disk_problem))\<rparr>"
proof -
  have "trim ''7'' = ''7''" "trim ''disk'' = ''disk''" "trim ''100'' = ''100''" "trim ''BLR-SRV1'' = ''BLR-SRV1''" "trim ''4'' = ''4''"
    "siteFromHost ''BLR-SRV1'' = Some ''BLR''" "slug ''disk'' = ''disk''"
    by code_simp+
  then show ?thesis
    by (simp add: normalizeZabbixEvent_def disk_problem_def required_def member_trim_def trimmed_or_null_def zabbixSeverity_def zabbixState_def
        table_lookup_def NSEVERITY_TO_SEVERITY_def)
qed

theorem recovery_closes_its_alert_witness:
  "\<exists>n m r w1 r' w3. normalizeZabbixEvent (disk_problem\<lparr>zx_eventValue := ''1''\<rparr>) = Inr n \<and> normalizeZabbixEvent (disk_problem\<lparr>zx_eventValue := ''0''\<rparr>) = Inr m \<and>
     ingestNormalized 5 n collector alert_world = (Inr r, w1) \<and> ingestNormalized 9 m collector w1 = (Inr r', w3) \<and>
     map_option al_state (find_by al_id (ir_alertId r) (alerts w3)) = Some A_RECOVERED"
proof -
  obtain n where n: "normalizeZabbixEvent (disk_problem\<lparr>zx_eventValue := ''1''\<rparr>) = Inr n" "na_severity n \<noteq> None" by (simp add: disk_problem_normalizes)
  obtain m where m: "normalizeZabbixEvent (disk_problem\<lparr>zx_eventValue := ''0''\<rparr>) = Inr m" "na_severity m \<noteq> None" by (simp add: disk_problem_normalizes)
  obtain r w1 where r: "ingestNormalized 5 n collector alert_world = (Inr r, w1)" using ingestNormalized_returns [OF n(2)] by blast
  obtain r' w3 where r': "ingestNormalized 9 m collector w1 = (Inr r', w3)" using ingestNormalized_returns [OF m(2)] by blast
  have "trim ''0'' = ''0''" by code_simp
  then have "\<exists>a b. normalizeZabbixEvent a = Inr n \<and> normalizeZabbixEvent b = Inr m \<and> trim (zx_eventId b) = trim (zx_eventId a) \<and> trim (zx_eventValue b) = ''0''"
    using n(1) m(1) by (intro exI [of _ "disk_problem\<lparr>zx_eventValue := ''1''\<rparr>"] exI [of _ "disk_problem\<lparr>zx_eventValue := ''0''\<rparr>"]) simp
  then show ?thesis
    using recovery_closes_its_alert [OF disjI2 alert_world_inv r rtranclp.rtrancl_refl r'] n(1) m(1) r r' by blast
qed

text \<open>The batch up to an event that normalizes to a severity no table knows.\<close>

definition storable :: "('e \<Rightarrow> norm_error + normalized_alert) \<Rightarrow> 'e \<Rightarrow> bool" where
  "storable adapt e \<longleftrightarrow> (case adapt e of Inl _ \<Rightarrow> True | Inr n \<Rightarrow> na_severity n \<noteq> None)"

definition after_batch :: "instant \<Rightarrow> ('e \<Rightarrow> norm_error + normalized_alert) \<Rightarrow> 'e list \<Rightarrow> actor_context \<Rightarrow> world \<Rightarrow> world" where
  "after_batch now adapt es actor w = foldl (\<lambda>w n. snd (ingestNormalized now n actor w)) w (normalized_of adapt es)"

lemma ingest_each_stops:
  assumes "\<not> list_all (storable adapt) es"
  shows "\<exists>err c. ingest_each now adapt i es actor w = (Inl err, (after_batch now adapt (takeWhile (storable adapt) es) actor w)\<lparr>rule_cache := c\<rparr>)"
  using assms
proof (induction es arbitrary: i w)
  case (Cons e es)
  show ?case
  proof (cases "storable adapt e")
    case False
    then obtain n where n: "adapt e = Inr n" "na_severity n = None" by (auto simp: storable_def split: sum.splits)
    obtain k rule where "resolveRule now (map_option s_id (find_by s_code (na_siteCode n) (sites w))) (Some (na_alertType n)) w = (Inr rule, w\<lparr>rule_cache := k\<rparr>)"
      using resolveRule_returns by blast
    then show ?thesis using n False by (auto simp: ingestNormalized_def bindM_def throw_def after_batch_def normalized_of_def)
  next
    case True
    note IH = Cons.IH [unfolded after_batch_def normalized_of_def]
    have rest: "\<not> list_all (storable adapt) es" using Cons.prems True by simp
    show ?thesis
    proof (cases "adapt e")
      case (Inl err)
      then show ?thesis using True IH [OF rest, of "Suc i" w] by (auto simp: bindM_def after_batch_def normalized_of_def)
    next
      case (Inr n)
      then obtain r w1 where "ingestNormalized now n actor w = (Inr r, w1)"
        using True ingestNormalized_returns [of n now actor w] by (auto simp: storable_def)
      then show ?thesis using True Inr IH [OF rest, of "Suc i" w1] by (auto simp: bindM_def after_batch_def normalized_of_def)
    qed
  qed
qed simp

text \<open>
  C20: what becomes of a batch, event by event. A batch of Zabbix events or SNMP traps is ingested in order;
  an event that does not normalize is reported under its position and nothing else is lost for it. The one
  event that ends a batch is a Zabbix event whose severity text no table maps to a severity (the name of an
  inherited member): the batch then fails as a whole after the events before it, which stay ingested, and
  with the events after it dropped. A trap never does that.
\<close>

theorem batch_isolates_bad_events:
  "(if list_all (storable normalizeZabbixEvent) batch
    then \<exists>res. ingestFromZabbix now batch actor w = (Inr res, after_batch now normalizeZabbixEvent batch actor w) \<and>
       length (sr_accepted res) = length (normalized_of normalizeZabbixEvent batch) \<and>
       map rj_index (sr_rejected res) = filter (\<lambda>j. isl (normalizeZabbixEvent (batch ! j))) [0..<length batch]
    else \<exists>err c. ingestFromZabbix now batch actor w =
       (Inl err, (after_batch now normalizeZabbixEvent (takeWhile (storable normalizeZabbixEvent) batch) actor w)\<lparr>rule_cache := c\<rparr>)) \<and>
   (\<exists>res. ingestFromSnmp now traps actor w = (Inr res, after_batch now (normalizeSnmpTrap now) traps actor w) \<and>
       length (sr_accepted res) = length (normalized_of (normalizeSnmpTrap now) traps) \<and>
       map rj_index (sr_rejected res) = filter (\<lambda>j. isl (normalizeSnmpTrap now (traps ! j))) [0..<length traps])"
proof -
  have index: "rj_index (toRejectedAlert i e) = i" for i e by (cases e) simp_all
  have run: "\<exists>res. ingest_each now adapt 0 es actor w = (Inr res, after_batch now adapt es actor w) \<and>
      length (sr_accepted res) = length (normalized_of adapt es) \<and>
      map rj_index (sr_rejected res) = filter (\<lambda>j. isl (adapt (es ! j))) [0..<length es]"
    if "\<And>e n. e \<in> set es \<Longrightarrow> adapt e = Inr n \<Longrightarrow> na_severity n \<noteq> None" for adapt :: "'x \<Rightarrow> norm_error + normalized_alert" and es
  proof -
    from ingest_each_run [of es adapt now 0 actor w] that obtain res where
      "ingest_each now adapt 0 es actor w = (Inr res, after_batch now adapt es actor w)"
      "length (sr_accepted res) = length (normalized_of adapt es)"
      "sr_rejected res = map (\<lambda>j. toRejectedAlert (0 + j) (projl (adapt (es ! j)))) (filter (\<lambda>j. isl (adapt (es ! j))) [0..<length es])"
      unfolding after_batch_def by blast
    then show ?thesis by (simp add: comp_def index)
  qed
  have known: "na_severity n \<noteq> None" if "list_all (storable normalizeZabbixEvent) batch" "e \<in> set batch" "normalizeZabbixEvent e = Inr n" for e n
    using that by (auto simp: list_all_iff storable_def split: sum.splits)
  have traps: "\<exists>res. ingestFromSnmp now traps actor w = (Inr res, after_batch now (normalizeSnmpTrap now) traps actor w) \<and>
       length (sr_accepted res) = length (normalized_of (normalizeSnmpTrap now) traps) \<and>
       map rj_index (sr_rejected res) = filter (\<lambda>j. isl (normalizeSnmpTrap now (traps ! j))) [0..<length traps]"
    unfolding ingestFromSnmp_def by (rule run) (use snmp_severity in blast)
  show ?thesis
  proof (cases "list_all (storable normalizeZabbixEvent) batch")
    case True
    have "\<exists>res. ingestFromZabbix now batch actor w = (Inr res, after_batch now normalizeZabbixEvent batch actor w) \<and>
       length (sr_accepted res) = length (normalized_of normalizeZabbixEvent batch) \<and>
       map rj_index (sr_rejected res) = filter (\<lambda>j. isl (normalizeZabbixEvent (batch ! j))) [0..<length batch]"
      unfolding ingestFromZabbix_def by (rule run) (rule known [OF True])
    then show ?thesis unfolding if_P [OF True] using traps by blast
  next
    case False
    then show ?thesis
      unfolding if_not_P [OF False] using traps ingest_each_stops [OF False, of now 0 actor w] by (simp add: ingestFromZabbix_def)
  qed
qed

theorem batch_isolates_bad_events_witness:
  "\<exists>res w'. ingestFromZabbix 5 [disk_problem\<lparr>zx_host := []\<rparr>, disk_problem\<lparr>zx_eventValue := ''1''\<rparr>] collector alert_world = (Inr res, w') \<and>
     length (sr_accepted res) = 1 \<and> map rj_index (sr_rejected res) = [0]"
proof -
  let ?batch = "[disk_problem\<lparr>zx_host := []\<rparr>, disk_problem\<lparr>zx_eventValue := ''1''\<rparr>]"
  have "trim ''7'' = ''7''" "trim [] = []" by code_simp+
  then have bad: "isl (normalizeZabbixEvent (disk_problem\<lparr>zx_host := []\<rparr>))"
    by (simp add: normalizeZabbixEvent_def disk_problem_def required_def)
  have good: "normalizeZabbixEvent (disk_problem\<lparr>zx_eventValue := ''1''\<rparr>) = Inr n \<Longrightarrow> na_severity n \<noteq> None" for n
    by (auto simp: disk_problem_normalizes)
  have good': "\<not> isl (normalizeZabbixEvent (disk_problem\<lparr>zx_eventValue := ''1''\<rparr>))" by (simp add: disk_problem_normalizes)
  have "length (normalized_of normalizeZabbixEvent ?batch) = 1" using bad good' by (simp add: normalized_of_def)
  moreover have "filter (\<lambda>j. isl (normalizeZabbixEvent (?batch ! j))) [0..<length ?batch] = [0]" using bad good' by (simp add: upt_rec)
  moreover have "list_all (storable normalizeZabbixEvent) ?batch" using bad good by (auto simp: storable_def split: sum.split)
  ultimately show ?thesis using batch_isolates_bad_events [of ?batch 5 collector alert_world "[]"] by force
qed

text \<open>
  A linkUp trap does not recover the linkDown it clears. The adapter gives both the same
  fingerprint, as it says so that the pipeline can pair them, but event ids that differ in the uptime,
  and ingestion pairs by event id: the clear becomes an alert of its own and the row of the fault stays
  exactly as it was.
\<close>

theorem snmp_clear_misses_fault:
  assumes "normalizeSnmpTrap t down = Inr n" "tp_trapOid down = Some ''1.3.6.1.6.3.1.1.5.3''" "tp_sysUpTimeTicks down = Some d"
    and "normalizeSnmpTrap t' (down\<lparr>tp_trapOid := Some ''1.3.6.1.6.3.1.1.5.4'', tp_sysUpTimeTicks := Some u\<rparr>) = Inr m" "u \<noteq> d"
    and "alerts_inv w" "na_eventId m \<notin> al_externalEventId ` set (alerts w)" "ingestNormalized t n actor w = (Inr r, w1)"
  shows "na_state m = A_RECOVERED \<and>
     fingerprint_text (na_siteCode m) (na_ciCode m) (na_alertType m) (na_componentKey m) =
       fingerprint_text (na_siteCode n) (na_ciCode n) (na_alertType n) (na_componentKey n) \<and>
     (\<exists>r' w2. ingestNormalized t' m actor' w1 = (Inr r', w2) \<and> \<not> ir_deduped r' \<and> find_by al_id (ir_alertId r) (alerts w1) \<noteq> None \<and>
       find_by al_id (ir_alertId r) (alerts w2) = find_by al_id (ir_alertId r) (alerts w1))"
proof -
  note ids = snmp_link_traps [OF assms(1-5)]
  obtain s where s: "ingest t (ingest_dto_of n s) actor w = (Inr r, w1)" using ingestNormalized_Inr [OF assms(8)] by blast
  obtain e where e: "alerts_inv w1" "existing_alert (ingest_dto_of n s) w1 = Some e" "al_id e = ir_alertId r"
    using ingest_stores [OF s assms(6)] by blast
  obtain v where v: "na_severity m = Some v" using snmp_severity [OF assms(4)] by blast
  have row: "find_by al_id (ir_alertId r) (alerts w1) = Some e"
    using find_by_distinct [of al_id "alerts w1" e] existing_in [OF e(2)] e(1,3) by (simp add: alerts_inv_def register_inv_def keys_ok_def)
  have "existing_alert (ingest_dto_of m v) w1 = None"
  proof (rule ccontr)
    assume "existing_alert (ingest_dto_of m v) w1 \<noteq> None"
    then obtain x where "existing_alert (ingest_dto_of m v) w1 = Some x" by blast
    from existing_in [OF this] have x: "x \<in> set (alerts w1)" "event_key x = (na_source m, na_eventId m)" by simp_all
    have "event_key x \<in> set (map event_key (alerts w1))" using x(1) by simp
    then have "event_key x \<in> set (map event_key (alerts w)) \<or> event_key x = (na_source n, na_eventId n)"
      using arg_cong [OF ingest_events [of t "ingest_dto_of n s" actor w], of set] s by (simp split: if_splits) blast
    then show False using x(2) ids(2) assms(7) by (auto simp: event_key_def)
  qed
  moreover obtain r' w2 where "ingestNormalized t' m actor' w1 = (Inr r', w2)" using ingestNormalized_returns v by blast
  ultimately show ?thesis
    using ids(1,3) row other_row_kept [OF e(1), of e "ingest_dto_of m v" t' actor'] ingest_stores [of t' "ingest_dto_of m v" actor' w1 r' w2]
      existing_in [OF e(2)] e(1,3) v by (auto simp: ingestNormalized_def)
qed

definition port_down :: snmp_trap where
  "port_down = \<lparr>tp_ciCode = ''BLR-SW1'', tp_siteCode = None, tp_trapOid = Some ''1.3.6.1.6.3.1.1.5.3'', tp_trapName = None, tp_agentAddress = ''10.0.0.1'',
     tp_sysUpTimeTicks = Some 100, tp_receivedAt = None, tp_version = None, tp_v1 = None, tp_varbinds = None, tp_severity = None, tp_clears = False\<rparr>"

theorem snmp_clear_misses_fault_witness:
  "\<exists>n m r w1 r' w2. normalizeSnmpTrap 5 port_down = Inr n \<and>
     normalizeSnmpTrap 9 (port_down\<lparr>tp_trapOid := Some ''1.3.6.1.6.3.1.1.5.4'', tp_sysUpTimeTicks := Some 700\<rparr>) = Inr m \<and>
     ingestNormalized 5 n collector alert_world = (Inr r, w1) \<and> ingestNormalized 9 m collector w1 = (Inr r', w2) \<and>
     find_by al_id (ir_alertId r) (alerts w2) = find_by al_id (ir_alertId r) (alerts w1)"
proof -
  have trims: "trim ''BLR-SW1'' = ''BLR-SW1''" "trim ''10.0.0.1'' = ''10.0.0.1''" "siteFromHost ''BLR-SW1'' = Some ''BLR''"
    "trim ''1.3.6.1.6.3.1.1.5.3'' = ''1.3.6.1.6.3.1.1.5.3''" "trim ''1.3.6.1.6.3.1.1.5.4'' = ''1.3.6.1.6.3.1.1.5.4''" by code_simp+
  obtain n where n: "normalizeSnmpTrap 5 port_down = Inr n"
    by (simp add: normalizeSnmpTrap_def port_down_def required_def received_at_def resolveTrapOid_def trimmed_or_null_def trims Let_def)
  obtain m where m: "normalizeSnmpTrap 9 (port_down\<lparr>tp_trapOid := Some ''1.3.6.1.6.3.1.1.5.4'', tp_sysUpTimeTicks := Some 700\<rparr>) = Inr m"
    "na_eventId m \<noteq> ''e1''"
    by (simp add: normalizeSnmpTrap_def port_down_def required_def received_at_def resolveTrapOid_def trimmed_or_null_def trims Let_def)
  obtain r w1 where r: "ingestNormalized 5 n collector alert_world = (Inr r, w1)" using ingestNormalized_returns [OF snmp_severity [OF n]] by blast
  have "na_eventId m \<notin> al_externalEventId ` set (alerts alert_world)"
    using m(2) by (simp add: alert_world_def down_alert_def new_alert_def disk_event_def)
  then show ?thesis
    using snmp_clear_misses_fault [OF n _ _ m(1) _ alert_world_inv _ r, of 100 collector] n m(1) r by (auto simp: port_down_def)
qed

text \<open>
  A severity text that names a member every object inherits is looked up as that member: the event
  normalizes, the database refuses it, and the rest of the batch is dropped with it.
\<close>

theorem inherited_severity_drops_batch:
  assumes "normalizeZabbixEvent e = Inr n" "map_option trim (zx_nseverity e) = Some ''constructor''"
  shows "\<exists>err w'. ingestFromZabbix now (e # rest) actor w = (Inl err, w') \<and> alerts w' = alerts w"
proof -
  have "truthy (zx_nseverity e)" using assms(2) by (auto simp: truthy_def trim_def)
  moreover have "table_lookup NSEVERITY_TO_SEVERITY ''constructor'' = Some None" by code_simp
  moreover obtain x where "zx_nseverity e = Some x" "trim x = ''constructor''" using assms(2) by auto
  ultimately have "zabbixSeverity e = None" by (simp add: zabbixSeverity_def)
  then have "na_severity n = None" using zabbix_parts(4) [OF assms(1)] by simp
  moreover obtain k rule where "resolveRule now (map_option s_id (find_by s_code (na_siteCode n) (sites w))) (Some (na_alertType n)) w = (Inr rule, w\<lparr>rule_cache := k\<rparr>)"
    using resolveRule_returns by blast
  ultimately show ?thesis using assms(1) by (simp add: ingestFromZabbix_def ingestNormalized_def bindM_def throw_def)
qed

end
