(* ===== verification/Problems.thy ===== *)
theory Problems
  imports Registers Changes Incidents
begin

text \<open>
  Problem records (\<^verbatim>\<open>problems/\<close>): the lifecycle table, the gate on a root cause, action items and
  the links to incidents and changes, which are checked through the owning modules.
\<close>

section \<open>The code\<close>

fun ALLOWED :: "problem_status \<Rightarrow> problem_status list" where
  "ALLOWED P_OPEN = [P_INVESTIGATING, P_CLOSED]"
| "ALLOWED P_INVESTIGATING = [P_KNOWN_ERROR, P_RESOLVED, P_OPEN]"
| "ALLOWED P_KNOWN_ERROR = [P_RESOLVED, P_INVESTIGATING]"
| "ALLOWED P_RESOLVED = [P_CLOSED, P_INVESTIGATING]"
| "ALLOWED P_CLOSED = [P_INVESTIGATING]"

definition canTransitionProblem :: "problem_status \<Rightarrow> problem_status \<Rightarrow> bool" where
  "canTransitionProblem from to \<longleftrightarrow> to \<in> set (ALLOWED from)"

definition requiredFieldsForProblemStatus :: "problem_status \<Rightarrow> string list" where
  "requiredFieldsForProblemStatus to = (if to = P_RESOLVED then [''rootCause''] else [])"

text \<open>\<open>problem[field]\<close> for the fields the rules name.\<close>

definition problem_field :: "problem \<Rightarrow> string \<Rightarrow> string option" where
  "problem_field p field = (if field = ''rootCause'' then pr_rootCause p else None)"

fun problem_status_str :: "problem_status \<Rightarrow> string" where
  "problem_status_str P_OPEN = ''OPEN''"
| "problem_status_str P_INVESTIGATING = ''INVESTIGATING''"
| "problem_status_str P_KNOWN_ERROR = ''KNOWN_ERROR''"
| "problem_status_str P_RESOLVED = ''RESOLVED''"
| "problem_status_str P_CLOSED = ''CLOSED''"

record create_problem_dto =
  cpd_title :: string
  cpd_symptoms :: string
  cpd_priority :: "priority option"
  cpd_knownError :: "string option"
  cpd_ownerUserId :: "uuid option"
  cpd_dueDate :: "instant option"

record update_problem_dto =
  upp_title :: "string option"
  upp_priority :: "priority patch"
  upp_symptoms :: "string option"
  upp_knownError :: "string patch"
  upp_rootCause :: "string patch"
  upp_correctiveAction :: "string patch"
  upp_preventiveAction :: "string patch"
  upp_ownerUserId :: "uuid patch"
  upp_dueDate :: "instant option"

record add_action_item_dto =
  aid_description :: string
  aid_assigneeUserId :: "uuid option"
  aid_dueDate :: "instant option"

definition problem_no :: "nat \<Rightarrow> string" where
  "problem_no n = ''PRB-'' @ padStart 6 (CHR ''0'') (nat_str n)"

definition nextProblemNo :: "string op" where
  "nextProblemNo =
     bindM (getM problem_no_seq) (\<lambda>n.
     bindM (modifyM (\<lambda>w. w\<lparr>problem_no_seq := Suc n\<rparr>)) (\<lambda>_. ret (problem_no n)))"

definition new_problem :: "uuid \<Rightarrow> string \<Rightarrow> create_problem_dto \<Rightarrow> problem" where
  "new_problem i no dto = \<lparr>pr_id = i, pr_problemNo = no, pr_title = cpd_title dto, pr_status = P_OPEN, pr_priority = cpd_priority dto,
     pr_symptoms = cpd_symptoms dto, pr_knownError = cpd_knownError dto, pr_rootCause = None, pr_correctiveAction = None,
     pr_preventiveAction = None, pr_ownerUserId = cpd_ownerUserId dto, pr_dueDate = cpd_dueDate dto, pr_resolvedAt = None,
     pr_closedAt = None\<rparr>"

definition problemCreate :: "instant \<Rightarrow> create_problem_dto \<Rightarrow> actor_context \<Rightarrow> problem op" where
  "problemCreate now dto actor = transaction
     (bindM nextProblemNo (\<lambda>no.
      bindM freshId (\<lambda>i.
      let p = new_problem i no dto in
      bindM (modifyM (\<lambda>w. w\<lparr>problems := problems w @ [p]\<rparr>)) (\<lambda>_.
      bindM (auditRecord now (Some (actorId actor)) ''problem'' i ''PROBLEM_CREATED'' None (Some (SnapProblem p)) (correlationId actor)) (\<lambda>_.
      ret p)))))"

text \<open>\<open>orderBy: createdAt desc\<close>: rows are kept in the order they were created in.\<close>

definition problemsList :: "problem_status option \<Rightarrow> uuid option \<Rightarrow> nat option \<Rightarrow> world \<Rightarrow> problem list" where
  "problemsList status owner limit w =
     take (option_default 50 limit)
       (rev (filter (\<lambda>p. (case status of None \<Rightarrow> True | Some s \<Rightarrow> pr_status p = s) \<and>
                         (\<not> truthy owner \<or> pr_ownerUserId p = owner)) (problems w)))"

definition findProblem :: "uuid \<Rightarrow> world \<Rightarrow> http_error + problem" where
  "findProblem i w =
     (case find_by pr_id i (problems w) of None \<Rightarrow> Inl (NotFound (''Problem '' @ i @ '' not found'')) | Some p \<Rightarrow> Inr p)"

definition problemGetOne :: "uuid \<Rightarrow> world \<Rightarrow> http_error + problem \<times> action_item list \<times> problem_link list" where
  "problemGetOne i w =
     (case findProblem i w of
        Inl e \<Rightarrow> Inl e
      | Inr p \<Rightarrow> Inr (p, filter (\<lambda>a. ai_problemId a = i) (action_items w), filter (\<lambda>l. pl_problemId l = i) (problem_links w)))"

definition patch_problem :: "update_problem_dto \<Rightarrow> problem \<Rightarrow> problem" where
  "patch_problem dto p = p\<lparr>pr_title := patched (upp_title dto) (pr_title p), pr_priority := patched (upp_priority dto) (pr_priority p),
     pr_symptoms := patched (upp_symptoms dto) (pr_symptoms p), pr_knownError := patched (upp_knownError dto) (pr_knownError p),
     pr_rootCause := patched (upp_rootCause dto) (pr_rootCause p),
     pr_correctiveAction := patched (upp_correctiveAction dto) (pr_correctiveAction p),
     pr_preventiveAction := patched (upp_preventiveAction dto) (pr_preventiveAction p),
     pr_ownerUserId := patched (upp_ownerUserId dto) (pr_ownerUserId p),
     pr_dueDate := (case upp_dueDate dto of None \<Rightarrow> pr_dueDate p | Some t \<Rightarrow> Some t)\<rparr>"

definition problemUpdate :: "instant \<Rightarrow> uuid \<Rightarrow> update_problem_dto \<Rightarrow> actor_context \<Rightarrow> problem op" where
  "problemUpdate now i dto actor =
     bindM (readM (findProblem i)) (\<lambda>before.
     transaction
       (let after = patch_problem dto before in
        bindM (modifyM (\<lambda>w. w\<lparr>problems := update_by pr_id i (patch_problem dto) (problems w)\<rparr>)) (\<lambda>_.
        bindM (auditRecord now (Some (actorId actor)) ''problem'' i ''PROBLEM_UPDATED'' (Some (SnapProblem before)) (Some (SnapProblem after))
                 (correlationId actor)) (\<lambda>_. ret after))))"

definition problem_transition_checks :: "uuid \<Rightarrow> problem_status \<Rightarrow> world \<Rightarrow> http_error + problem" where
  "problem_transition_checks i to w =
     (case findProblem i w of
        Inl e \<Rightarrow> Inl e
      | Inr p \<Rightarrow>
          if pr_status p = to then Inl (BadRequest (''Problem is already '' @ problem_status_str to))
          else if \<not> canTransitionProblem (pr_status p) to
          then Inl (BadRequest (''Cannot move a problem from '' @ problem_status_str (pr_status p) @ '' to '' @ problem_status_str to))
          else let missing = filter (\<lambda>f. \<not> truthy (problem_field p f)) (requiredFieldsForProblemStatus to) in
               if missing \<noteq> []
               then Inl (BadRequest (''Set '' @ join '', '' missing @ '' before moving to '' @ problem_status_str to))
               else Inr p)"

definition transition_problem :: "instant \<Rightarrow> problem_status \<Rightarrow> problem \<Rightarrow> problem \<Rightarrow> problem" where
  "transition_problem now to read p = p\<lparr>pr_status := to,
     pr_resolvedAt := (if to = P_RESOLVED then Some now else pr_resolvedAt read),
     pr_closedAt := (if to = P_CLOSED then Some now else pr_closedAt read)\<rparr>"

definition problemTransition :: "instant \<Rightarrow> uuid \<Rightarrow> problem_status \<Rightarrow> string option \<Rightarrow> actor_context \<Rightarrow> problem op" where
  "problemTransition now i to reason actor =
     bindM (readM (problem_transition_checks i to)) (\<lambda>p.
     transaction
       (let after = transition_problem now to p p in
        bindM (modifyM (\<lambda>w. w\<lparr>problems := update_by pr_id i (transition_problem now to p) (problems w)\<rparr>)) (\<lambda>_.
        bindM (auditRecord now (Some (actorId actor)) ''problem'' i ''PROBLEM_STATUS_CHANGED''
                 (Some (SnapProblemStatus (pr_status p) None)) (Some (SnapProblemStatus to reason)) (correlationId actor)) (\<lambda>_.
        ret after))))"

definition addActionItem :: "instant \<Rightarrow> uuid \<Rightarrow> add_action_item_dto \<Rightarrow> actor_context \<Rightarrow> action_item op" where
  "addActionItem now i dto actor =
     bindM (readM (findProblem i)) (\<lambda>_.
     transaction
       (bindM freshId (\<lambda>k.
        let item = \<lparr>ai_id = k, ai_problemId = i, ai_description = aid_description dto, ai_assigneeUserId = aid_assigneeUserId dto,
                    ai_dueDate = aid_dueDate dto, ai_completedAt = None\<rparr> in
        bindM (modifyM (\<lambda>w. w\<lparr>action_items := action_items w @ [item]\<rparr>)) (\<lambda>_.
        bindM (auditRecord now (Some (actorId actor)) ''problem'' i ''PROBLEM_ACTION_ITEM_ADDED'' None (Some (SnapActionItem item))
                 (correlationId actor)) (\<lambda>_. ret item)))))"

definition findActionItem :: "uuid \<Rightarrow> uuid \<Rightarrow> world \<Rightarrow> http_error + action_item" where
  "findActionItem i itemId w =
     (case find_by ai_id itemId (action_items w) of
        None \<Rightarrow> Inl (NotFound (''Action item '' @ itemId @ '' not found on problem '' @ i))
      | Some a \<Rightarrow> if ai_problemId a \<noteq> i then Inl (NotFound (''Action item '' @ itemId @ '' not found on problem '' @ i)) else Inr a)"

definition completeActionItem :: "instant \<Rightarrow> uuid \<Rightarrow> uuid \<Rightarrow> actor_context \<Rightarrow> action_item op" where
  "completeActionItem now i itemId actor =
     bindM (readM (findActionItem i itemId)) (\<lambda>item.
     if ai_completedAt item \<noteq> None then ret item
     else transaction
       (let finished = item\<lparr>ai_completedAt := Some now\<rparr> in
        bindM (modifyM (\<lambda>w. w\<lparr>action_items := update_by ai_id itemId (\<lambda>a. a\<lparr>ai_completedAt := Some now\<rparr>) (action_items w)\<rparr>)) (\<lambda>_.
        bindM (auditRecord now (Some (actorId actor)) ''problem'' i ''PROBLEM_ACTION_ITEM_COMPLETED'' None (Some (SnapActionItem finished))
                 (correlationId actor)) (\<lambda>_. ret finished))))"

definition link_type_str :: "problem_link_type \<Rightarrow> string" where
  "link_type_str t = (case t of L_INCIDENT \<Rightarrow> ''incident'' | L_CHANGE \<Rightarrow> ''change'')"

definition link_key :: "problem_link \<Rightarrow> uuid \<times> problem_link_type \<times> uuid" where
  "link_key l = (pl_problemId l, pl_entityType l, pl_entityId l)"

definition link_checks :: "instant \<Rightarrow> uuid \<Rightarrow> problem_link_type \<Rightarrow> uuid \<Rightarrow> world \<Rightarrow> http_error + unit" where
  "link_checks now i t entityId w =
     (case findProblem i w of
        Inl e \<Rightarrow> Inl e
      | Inr _ \<Rightarrow>
          (case (case t of L_INCIDENT \<Rightarrow> map_sum id (\<lambda>_. ()) (findOne entityId w)
                        | L_CHANGE \<Rightarrow> map_sum id (\<lambda>_. ()) (changeGetOne now entityId w)) of
             Inl e \<Rightarrow> Inl e
           | Inr _ \<Rightarrow>
               (case find_by link_key (i, t, entityId) (problem_links w) of
                  Some _ \<Rightarrow> Inl (Conflict (''That '' @ link_type_str t @ '' is already linked''))
                | None \<Rightarrow> Inr ())))"

definition problemLink :: "instant \<Rightarrow> uuid \<Rightarrow> problem_link_type \<Rightarrow> uuid \<Rightarrow> actor_context \<Rightarrow> problem_link op" where
  "problemLink now i t entityId actor =
     bindM (readM (link_checks now i t entityId)) (\<lambda>_.
     transaction
       (bindM freshId (\<lambda>k.
        let created = \<lparr>pl_id = k, pl_problemId = i, pl_entityType = t, pl_entityId = entityId\<rparr> in
        bindM (modifyM (\<lambda>w. w\<lparr>problem_links := problem_links w @ [created]\<rparr>)) (\<lambda>_.
        bindM (auditRecord now (Some (actorId actor)) ''problem'' i ''PROBLEM_LINKED'' None (Some (SnapProblemLink created))
                 (correlationId actor)) (\<lambda>_. ret created)))))"

definition findLink :: "uuid \<Rightarrow> uuid \<Rightarrow> world \<Rightarrow> http_error + problem_link" where
  "findLink i linkId w =
     (case find_by pl_id linkId (problem_links w) of
        None \<Rightarrow> Inl (NotFound (''Link '' @ linkId @ '' not found on problem '' @ i))
      | Some l \<Rightarrow> if pl_problemId l \<noteq> i then Inl (NotFound (''Link '' @ linkId @ '' not found on problem '' @ i)) else Inr l)"

definition problemUnlink :: "instant \<Rightarrow> uuid \<Rightarrow> uuid \<Rightarrow> actor_context \<Rightarrow> unit op" where
  "problemUnlink now i linkId actor =
     bindM (readM (findLink i linkId)) (\<lambda>l.
     transaction
       (bindM (modifyM (\<lambda>w. w\<lparr>problem_links := delete_by pl_id linkId (problem_links w)\<rparr>)) (\<lambda>_.
        auditRecord now (Some (actorId actor)) ''problem'' i ''PROBLEM_UNLINKED'' (Some (SnapProblemLink l)) None (correlationId actor))))"

section \<open>The register of problems\<close>

text \<open>A resolved problem has a time of resolution, a closed one a time of closure; the number never changes.\<close>

definition problem_ok :: "problem \<Rightarrow> bool" where
  "problem_ok p \<longleftrightarrow> (pr_status p = P_RESOLVED \<longrightarrow> pr_resolvedAt p \<noteq> None) \<and> (pr_status p = P_CLOSED \<longrightarrow> pr_closedAt p \<noteq> None)"

definition problem_moves :: "problem \<Rightarrow> problem \<Rightarrow> bool" where
  "problem_moves p q \<longleftrightarrow> pr_problemNo q = pr_problemNo p \<and> (pr_resolvedAt p \<noteq> None \<longrightarrow> pr_resolvedAt q \<noteq> None) \<and>
     (problem_ok p \<longrightarrow> problem_ok q)"

interpretation problem_register: register problems pr_id problem_ok problem_moves
  by unfold_locales (auto simp: problem_moves_def rollback_def)

abbreviation problems_follow :: "world \<Rightarrow> world \<Rightarrow> bool" where
  "problems_follow \<equiv> rows_follow problems pr_id problem_ok problem_moves"

lemma nextProblemNo_eval [simp]:
  "nextProblemNo w = (Inr (problem_no (problem_no_seq w)), w\<lparr>problem_no_seq := Suc (problem_no_seq w)\<rparr>)"
  by (simp add: nextProblemNo_def)

lemma follow_problemCreate: "obeys problems_follow (problemCreate now dto actor)"
proof -
  have "problems_follow w (snd (problemCreate now dto actor w))" for w
    by (rule problem_register.follow_insert [where r = "new_problem (env_uuid (env w) (uuid_next w)) (problem_no (problem_no_seq w)) dto"])
       (simp_all add: problemCreate_def bindM_def transactionM_def Let_def new_problem_def problem_ok_def)
  then show ?thesis by (simp add: obeys_def)
qed

lemma follow_problemUpdate: "obeys problems_follow (problemUpdate now i dto actor)"
proof -
  have moves: "pr_id (patch_problem dto p) = pr_id p \<and> problem_moves p (patch_problem dto p)" for p
    by (simp add: patch_problem_def problem_moves_def problem_ok_def)
  have "problems_follow w (snd (problemUpdate now i dto actor w))" for w
  proof (cases "findProblem i w")
    case (Inl e)
    then show ?thesis by (simp add: problemUpdate_def problem_register.follow_refl)
  next
    case (Inr p)
    show ?thesis
      by (rule problem_register.follow_update [where k = i and f = "patch_problem dto"])
         (use Inr moves in \<open>auto simp: problemUpdate_def Let_def transactionM_def\<close>)
  qed
  then show ?thesis by (simp add: obeys_def)
qed

lemma transition_checks_Inr:
  "problem_transition_checks i to w = Inr p \<longleftrightarrow> find_by pr_id i (problems w) = Some p \<and> canTransitionProblem (pr_status p) to \<and>
     (to = P_RESOLVED \<longrightarrow> truthy (pr_rootCause p))"
proof -
  have "\<not> canTransitionProblem s s" for s by (cases s) (simp_all add: canTransitionProblem_def)
  then show ?thesis
    by (auto simp: problem_transition_checks_def findProblem_def requiredFieldsForProblemStatus_def problem_field_def Let_def
        split: option.splits if_splits)
qed

lemma follow_problemTransition: "obeys problems_follow (problemTransition now i to reason actor)"
proof -
  have moves: "pr_id (transition_problem now to p p) = pr_id p \<and> problem_moves p (transition_problem now to p p)" for p
    by (auto simp: transition_problem_def problem_moves_def problem_ok_def)
  have "problems_follow w (snd (problemTransition now i to reason actor w))" for w
  proof (cases "problem_transition_checks i to w")
    case (Inl e)
    then show ?thesis by (simp add: problemTransition_def problem_register.follow_refl)
  next
    case (Inr p)
    then have "find_by pr_id i (problems w) = Some p" using transition_checks_Inr by blast
    then show ?thesis
      by (intro problem_register.follow_update [where k = i and f = "transition_problem now to p"])
         (use Inr moves in \<open>auto simp: problemTransition_def Let_def transactionM_def\<close>)
  qed
  then show ?thesis by (simp add: obeys_def)
qed

text \<open>Links: one per problem and entity.\<close>

definition problems_inv :: "world \<Rightarrow> bool" where
  "problems_inv w \<longleftrightarrow> register_inv problems pr_id problem_ok w \<and> distinct (map link_key (problem_links w))"

lemma problemLink_links:
  "distinct (map link_key (problem_links w)) \<Longrightarrow> distinct (map link_key (problem_links (snd (problemLink now i t e actor w))))"
proof (cases "link_checks now i t e w")
  case (Inr u)
  assume d: "distinct (map link_key (problem_links w))"
  have "find_by link_key (i, t, e) (problem_links w) = None"
    using Inr by (auto simp: link_checks_def split: sum.splits option.splits)
  then have "(i, t, e) \<notin> link_key ` set (problem_links w)" by (simp add: find_by_None_iff)
  then show ?thesis
    using Inr d by (simp add: problemLink_def Let_def transactionM_def link_key_def [of "_ :: problem_link"])
qed (simp add: problemLink_def)

lemma problemUnlink_links:
  "distinct (map link_key (problem_links w)) \<Longrightarrow> distinct (map link_key (problem_links (snd (problemUnlink now i l actor w))))"
  by (cases "findLink i l w") (simp_all add: problemUnlink_def transactionM_def delete_by_def distinct_map_filter)

inductive problem_step :: "world \<Rightarrow> world \<Rightarrow> bool" where
  ps_create: "problem_step w (snd (problemCreate now dto actor w))"
| ps_update: "problem_step w (snd (problemUpdate now i udto actor w))"
| ps_transition: "problem_step w (snd (problemTransition now i to reason actor w))"
| ps_add_item: "problem_step w (snd (addActionItem now i adto actor w))"
| ps_complete_item: "problem_step w (snd (completeActionItem now i k actor w))"
| ps_link: "problem_step w (snd (problemLink now i t e actor w))"
| ps_unlink: "problem_step w (snd (problemUnlink now i l actor w))"
| ps_elsewhere: "env w' = env w \<Longrightarrow> uuid_next w \<le> uuid_next w' \<Longrightarrow> problems w' = problems w \<Longrightarrow> problem_links w' = problem_links w \<Longrightarrow>
    problem_step w w'"

text \<open>The operations on items and links leave the problems alone, those on problems the links.\<close>

lemma problem_frames:
  "problems_follow w (snd (addActionItem now i adto actor w))" "problems_follow w (snd (completeActionItem now i k actor w))"
  "problems_follow w (snd (problemLink now i t e actor w))" "problems_follow w (snd (problemUnlink now i l actor w))"
proof -
  show "problems_follow w (snd (addActionItem now i adto actor w))"
    by (rule problem_register.follow_same; cases "findProblem i w") (simp_all add: addActionItem_def Let_def transactionM_def)
  show "problems_follow w (snd (completeActionItem now i k actor w))"
    by (rule problem_register.follow_same; cases "findActionItem i k w") (simp_all add: completeActionItem_def Let_def transactionM_def)
  show "problems_follow w (snd (problemLink now i t e actor w))"
    by (rule problem_register.follow_same; cases "link_checks now i t e w") (simp_all add: problemLink_def Let_def transactionM_def)
  show "problems_follow w (snd (problemUnlink now i l actor w))"
    by (rule problem_register.follow_same; cases "findLink i l w") (simp_all add: problemUnlink_def transactionM_def)
qed

lemma link_frames:
  "problem_links (snd (problemCreate now dto actor w)) = problem_links w"
  "problem_links (snd (problemUpdate now i udto actor w)) = problem_links w"
  "problem_links (snd (problemTransition now i to reason actor w)) = problem_links w"
  "problem_links (snd (addActionItem now i adto actor w)) = problem_links w"
  "problem_links (snd (completeActionItem now i k actor w)) = problem_links w"
proof -
  show "problem_links (snd (problemCreate now dto actor w)) = problem_links w"
    by (simp add: problemCreate_def bindM_def transactionM_def Let_def)
  show "problem_links (snd (problemUpdate now i udto actor w)) = problem_links w"
    by (cases "findProblem i w") (simp_all add: problemUpdate_def transactionM_def Let_def)
  show "problem_links (snd (problemTransition now i to reason actor w)) = problem_links w"
    by (cases "problem_transition_checks i to w") (simp_all add: problemTransition_def transactionM_def Let_def)
  show "problem_links (snd (addActionItem now i adto actor w)) = problem_links w"
    by (cases "findProblem i w") (simp_all add: addActionItem_def transactionM_def Let_def)
  show "problem_links (snd (completeActionItem now i k actor w)) = problem_links w"
    by (cases "findActionItem i k w") (simp_all add: completeActionItem_def transactionM_def Let_def)
qed

lemma problem_step_follow: "problem_step w w' \<Longrightarrow> problems_follow w w'"
  by (induction rule: problem_step.induct)
     (auto intro: obeysD follow_problemCreate follow_problemUpdate follow_problemTransition problem_frames problem_register.follow_same)

lemma problem_step_links:
  "problem_step w w' \<Longrightarrow> distinct (map link_key (problem_links w)) \<Longrightarrow> distinct (map link_key (problem_links w'))"
  by (induction rule: problem_step.induct) (auto simp: link_frames intro: problemLink_links problemUnlink_links)

interpretation problem_run: invariant_system problem_step problems_inv
proof
  show "problems_inv t" if "problem_step s t" "problems_inv s" for s t
    using that problem_register.follow_inv [OF problem_step_follow] problem_step_links by (auto simp: problems_inv_def)
qed

section \<open>The properties\<close>

text \<open>
  A problem changes status exactly when the lifecycle table has the move and, to resolve it, a
  root cause is on record; then it gets the status and its time stamp and nothing else of any
  problem changes, otherwise nothing changes at all.
\<close>

theorem problem_status_gate:
  assumes "problemTransition now i to reason actor w = (r, w')"
  shows "((\<exists>p. r = Inr p) \<longleftrightarrow> (\<exists>p. find_by pr_id i (problems w) = Some p \<and> to \<in> set (ALLOWED (pr_status p)) \<and>
       (to = P_RESOLVED \<longrightarrow> truthy (pr_rootCause p)))) \<and>
     (\<forall>p. r = Inr p \<longrightarrow> (\<exists>q. find_by pr_id i (problems w) = Some q \<and> p = transition_problem now to q q \<and>
       problems w' = update_by pr_id i (transition_problem now to q) (problems w))) \<and>
     (\<forall>e. r = Inl e \<longrightarrow> w' = w)"
proof (cases "problem_transition_checks i to w")
  case (Inl e)
  then have "\<not> (\<exists>p. find_by pr_id i (problems w) = Some p \<and> to \<in> set (ALLOWED (pr_status p)) \<and> (to = P_RESOLVED \<longrightarrow> truthy (pr_rootCause p)))"
    using transition_checks_Inr [of i to w] by (auto simp: canTransitionProblem_def)
  then show ?thesis using Inl assms by (auto simp: problemTransition_def)
next
  case (Inr p)
  then have "find_by pr_id i (problems w) = Some p" "to \<in> set (ALLOWED (pr_status p))" "to = P_RESOLVED \<longrightarrow> truthy (pr_rootCause p)"
    using transition_checks_Inr [of i to w p] by (auto simp: canTransitionProblem_def)
  then show ?thesis using Inr assms by (auto simp: problemTransition_def Let_def transactionM_def)
qed

definition sample_problem :: problem where
  "sample_problem = (new_problem ''0'' ''PRB-000001'' \<lparr>cpd_title = ''t'', cpd_symptoms = ''s'', cpd_priority = None, cpd_knownError = None,
     cpd_ownerUserId = None, cpd_dueDate = None\<rparr>)\<lparr>pr_status := P_INVESTIGATING\<rparr>"

definition problem_world :: world where
  "problem_world = empty_world\<lparr>uuid_next := 1, problems := [sample_problem]\<rparr>"

theorem problem_status_gate_witness:
  "\<not> (\<exists>p w'. problemTransition 5 ''0'' P_RESOLVED None \<lparr>actorId = ''u'', correlationId = None\<rparr> problem_world = (Inr p, w'))"
proof -
  let ?run = "problemTransition 5 ''0'' P_RESOLVED None \<lparr>actorId = ''u'', correlationId = None\<rparr> problem_world"
  have "find_by pr_id ''0'' (problems problem_world) = Some sample_problem" "pr_rootCause sample_problem = None"
    by (simp_all add: problem_world_def sample_problem_def new_problem_def)
  then show ?thesis using problem_status_gate [of 5 "''0''" P_RESOLVED None _ problem_world "fst ?run" "snd ?run"] by auto
qed

text \<open>
  Through any sequence of requests a resolved problem has a time of resolution, a closed one a
  time of closure, ids stay unique and a problem is linked to the same incident or change at most once.
\<close>

theorem problem_records_sound:
  assumes "problem_step\<^sup>*\<^sup>* w w'" "problems_inv w"
  shows "distinct (map pr_id (problems w')) \<and> distinct (map (\<lambda>l. (pl_problemId l, pl_entityType l, pl_entityId l)) (problem_links w')) \<and>
     list_all (\<lambda>p. (pr_status p = P_RESOLVED \<longrightarrow> pr_resolvedAt p \<noteq> None) \<and> (pr_status p = P_CLOSED \<longrightarrow> pr_closedAt p \<noteq> None)) (problems w')"
  using problem_run.run_inv [OF assms]
  by (simp add: problems_inv_def register_inv_def keys_ok_def problem_ok_def [abs_def] link_key_def [abs_def])

theorem problem_records_sound_witness:
  "distinct (map pr_id (problems (snd (problemTransition 5 ''0'' P_KNOWN_ERROR None \<lparr>actorId = ''u'', correlationId = None\<rparr> problem_world))))"
proof -
  have "problems_inv problem_world"
    by (auto simp: problems_inv_def register_inv_def keys_ok_def problem_world_def sample_problem_def new_problem_def empty_world_def
        problem_ok_def issued_def nat_str_zero intro: injI nat_str_inj)
  from problem_records_sound [OF r_into_rtranclp [of problem_step, OF ps_transition] this] show ?thesis by blast
qed

end
