(* ===== verification/Knowledge.thy ===== *)
theory Knowledge
  imports Registers
begin

text \<open>
  Runbooks (\<^verbatim>\<open>knowledge/\<close>): versions, approval by somebody else than the owner, and the derived
  flag that says whether an article may be trusted.
\<close>

section \<open>The code\<close>

record knowledge_view =
  kv_authoritative :: bool
  kv_reviewOverdue :: bool

definition deriveKnowledgeView :: "article \<Rightarrow> instant \<Rightarrow> knowledge_view" where
  "deriveKnowledgeView a now =
     (let approved = (ka_approvalState a = APPROVED);
          reviewOverdue = (approved \<and> (case ka_reviewDueAt a of None \<Rightarrow> False | Some t \<Rightarrow> t < now))
      in \<lparr>kv_authoritative = (approved \<and> \<not> reviewOverdue), kv_reviewOverdue = reviewOverdue\<rparr>)"

definition isPublished :: "approval_state \<Rightarrow> bool" where
  "isPublished s \<longleftrightarrow> s = APPROVED"

record create_article_dto =
  cad_title :: string
  cad_body :: string
  cad_ownerId :: "uuid option"
  cad_siteId :: "uuid option"
  cad_incidentCategory :: "string option"
  cad_ciType :: "string option"

record update_article_dto =
  uad_title :: "string option"
  uad_body :: "string option"
  uad_ownerId :: "uuid patch"
  uad_siteId :: "uuid patch"
  uad_incidentCategory :: "string patch"
  uad_ciType :: "string patch"
  uad_reviewDueAt :: "instant patch"

datatype knowledge_query_view = KV_AUTHORITATIVE | KV_REVIEW_OVERDUE

record query_articles_dto =
  qad_approvalState :: "approval_state option"
  qad_ownerId :: "uuid option"
  qad_siteId :: "uuid option"
  qad_incidentCategory :: "string option"
  qad_ciType :: "string option"
  qad_q :: "string option"
  qad_view :: "knowledge_query_view option"
  qad_limit :: "nat option"

definition new_article :: "uuid \<Rightarrow> create_article_dto \<Rightarrow> article" where
  "new_article i dto = \<lparr>ka_id = i, ka_title = cad_title dto, ka_body = cad_body dto, ka_version = 1, ka_ownerId = cad_ownerId dto,
     ka_siteId = cad_siteId dto, ka_incidentCategory = cad_incidentCategory dto, ka_ciType = cad_ciType dto,
     ka_approvalState = DRAFT, ka_reviewDueAt = None\<rparr>"

definition decorateArticle :: "article \<Rightarrow> instant \<Rightarrow> article \<times> knowledge_view" where
  "decorateArticle a now = (a, deriveKnowledgeView a now)"

definition decorated :: "instant \<Rightarrow> article op \<Rightarrow> (article \<times> knowledge_view) op" where
  "decorated now m = bindM m (\<lambda>a. ret (decorateArticle a now))"

lemma decorated_snd [simp]: "snd (decorated now m w) = snd (m w)"
  by (simp add: decorated_def bindM_def split: prod.split sum.split)

definition articleCreate :: "instant \<Rightarrow> create_article_dto \<Rightarrow> actor_context \<Rightarrow> (article \<times> knowledge_view) op" where
  "articleCreate now dto actor = decorated now (transaction
     (bindM freshId (\<lambda>i.
      let created = new_article i dto in
      bindM (modifyM (\<lambda>w. w\<lparr>articles := articles w @ [created]\<rparr>)) (\<lambda>_.
      bindM (auditRecord now (Some (actorId actor)) ''knowledge_article'' i ''KNOWLEDGE_ARTICLE_CREATED'' None (Some (SnapArticle created))
               (correlationId actor)) (\<lambda>_. ret created)))))"

definition eq_if_given :: "string option \<Rightarrow> string option \<Rightarrow> bool" where
  "eq_if_given want have' \<longleftrightarrow> \<not> truthy want \<or> have' = want"

definition article_matches :: "query_articles_dto \<Rightarrow> instant \<Rightarrow> article \<Rightarrow> bool" where
  "article_matches q now a \<longleftrightarrow>
     (case qad_approvalState q of None \<Rightarrow> True | Some s \<Rightarrow> ka_approvalState a = s) \<and>
     eq_if_given (qad_ownerId q) (ka_ownerId a) \<and> eq_if_given (qad_siteId q) (ka_siteId a) \<and>
     eq_if_given (qad_incidentCategory q) (ka_incidentCategory a) \<and> eq_if_given (qad_ciType q) (ka_ciType a) \<and>
     (\<not> truthy (qad_q q) \<or> icontains (the (qad_q q)) (ka_title a) \<or> icontains (the (qad_q q)) (ka_body a)) \<and>
     (case qad_view q of
        None \<Rightarrow> True
      | Some KV_AUTHORITATIVE \<Rightarrow> ka_approvalState a = APPROVED \<and> (case ka_reviewDueAt a of None \<Rightarrow> True | Some t \<Rightarrow> now \<le> t)
      | Some KV_REVIEW_OVERDUE \<Rightarrow> ka_approvalState a = APPROVED \<and> (case ka_reviewDueAt a of None \<Rightarrow> False | Some t \<Rightarrow> t < now))"

definition requireArticle :: "uuid \<Rightarrow> world \<Rightarrow> http_error + article" where
  "requireArticle i w =
     (case find_by ka_id i (articles w) of
        None \<Rightarrow> Inl (NotFound (''Knowledge article '' @ i @ '' not found'')) | Some a \<Rightarrow> Inr a)"

definition articleGetOne :: "instant \<Rightarrow> uuid \<Rightarrow> world \<Rightarrow> http_error + article \<times> knowledge_view" where
  "articleGetOne now i w = (case requireArticle i w of Inl e \<Rightarrow> Inl e | Inr a \<Rightarrow> Inr (decorateArticle a now))"

definition contentChanged :: "update_article_dto \<Rightarrow> article \<Rightarrow> bool" where
  "contentChanged dto a \<longleftrightarrow> (uad_title dto \<noteq> None \<and> uad_title dto \<noteq> Some (ka_title a)) \<or>
     (uad_body dto \<noteq> None \<and> uad_body dto \<noteq> Some (ka_body a))"

definition patch_article :: "update_article_dto \<Rightarrow> article \<Rightarrow> article \<Rightarrow> article" where
  "patch_article dto read a =
     (let b = a\<lparr>ka_title := patched (uad_title dto) (ka_title a), ka_body := patched (uad_body dto) (ka_body a),
            ka_ownerId := patched (uad_ownerId dto) (ka_ownerId a),
            ka_siteId := (case uad_siteId dto of None \<Rightarrow> ka_siteId a | Some s \<Rightarrow> if truthy s then s else None),
            ka_incidentCategory := patched (uad_incidentCategory dto) (ka_incidentCategory a),
            ka_ciType := patched (uad_ciType dto) (ka_ciType a)\<rparr>
      in if contentChanged dto read
         then b\<lparr>ka_version := ka_version a + 1, ka_approvalState := DRAFT, ka_reviewDueAt := None\<rparr>
         else case uad_reviewDueAt dto of None \<Rightarrow> b | Some t \<Rightarrow> b\<lparr>ka_reviewDueAt := Some (new_date t)\<rparr>)"

definition articleUpdate :: "instant \<Rightarrow> uuid \<Rightarrow> update_article_dto \<Rightarrow> actor_context \<Rightarrow> (article \<times> knowledge_view) op" where
  "articleUpdate now i dto actor =
     bindM (readM (requireArticle i)) (\<lambda>a.
     decorated now (transaction
       (let u = patch_article dto a a in
        bindM (modifyM (\<lambda>w. w\<lparr>articles := update_by ka_id i (patch_article dto a) (articles w)\<rparr>)) (\<lambda>_.
        bindM (auditRecord now (Some (actorId actor)) ''knowledge_article'' i ''KNOWLEDGE_ARTICLE_UPDATED'' (Some (SnapArticle a))
                 (Some (SnapArticle u)) (correlationId actor)) (\<lambda>_. ret u)))))"

definition article_approve_checks :: "instant \<Rightarrow> uuid \<Rightarrow> instant \<Rightarrow> actor_context \<Rightarrow> world \<Rightarrow> http_error + article" where
  "article_approve_checks now i reviewDueAt actor w =
     (case requireArticle i w of
        Inl e \<Rightarrow> Inl e
      | Inr a \<Rightarrow>
          if ka_approvalState a = APPROVED then Inl (Conflict (''Knowledge article '' @ i @ '' is already approved''))
          else if truthy (ka_ownerId a) \<and> ka_ownerId a = Some (actorId actor)
          then Inl (BadRequest ''An article cannot be approved by its owner'')
          else if reviewDueAt \<le> now then Inl (BadRequest ''reviewDueAt must be in the future'')
          else Inr a)"

definition articleApprove :: "instant \<Rightarrow> uuid \<Rightarrow> instant \<Rightarrow> actor_context \<Rightarrow> (article \<times> knowledge_view) op" where
  "articleApprove now i reviewDueAt actor =
     bindM (readM (article_approve_checks now i reviewDueAt actor)) (\<lambda>a.
     decorated now (transaction
       (let u = a\<lparr>ka_approvalState := APPROVED, ka_reviewDueAt := Some reviewDueAt\<rparr> in
        bindM (modifyM (\<lambda>w. w\<lparr>articles := update_by ka_id i (\<lambda>x. x\<lparr>ka_approvalState := APPROVED, ka_reviewDueAt := Some reviewDueAt\<rparr>)
                 (articles w)\<rparr>)) (\<lambda>_.
        bindM (auditRecord now (Some (actorId actor)) ''knowledge_article'' i ''KNOWLEDGE_ARTICLE_APPROVED''
                 (Some (SnapApproval (ka_approvalState a) None None None))
                 (Some (SnapApproval (ka_approvalState u) (Some (ka_version u)) (Some reviewDueAt) None)) (correlationId actor)) (\<lambda>_. ret u)))))"

definition articleUnpublish :: "instant \<Rightarrow> uuid \<Rightarrow> string \<Rightarrow> actor_context \<Rightarrow> (article \<times> knowledge_view) op" where
  "articleUnpublish now i reason actor =
     bindM (readM (requireArticle i)) (\<lambda>a.
     if ka_approvalState a \<noteq> APPROVED then throw (Conflict (''Knowledge article '' @ i @ '' is not published''))
     else decorated now (transaction
       (let u = a\<lparr>ka_approvalState := DRAFT, ka_reviewDueAt := None\<rparr> in
        bindM (modifyM (\<lambda>w. w\<lparr>articles := update_by ka_id i (\<lambda>x. x\<lparr>ka_approvalState := DRAFT, ka_reviewDueAt := None\<rparr>) (articles w)\<rparr>)) (\<lambda>_.
        bindM (auditRecord now (Some (actorId actor)) ''knowledge_article'' i ''KNOWLEDGE_ARTICLE_UNPUBLISHED''
                 (Some (SnapApproval (ka_approvalState a) None None None)) (Some (SnapApproval DRAFT None None (Some reason)))
                 (correlationId actor)) (\<lambda>_. ret u)))))"

definition requireAuthoritative :: "instant \<Rightarrow> uuid \<Rightarrow> world \<Rightarrow> http_error + article \<times> knowledge_view" where
  "requireAuthoritative now i w =
     (case requireArticle i w of
        Inl e \<Rightarrow> Inl e
      | Inr a \<Rightarrow>
          (let view = deriveKnowledgeView a now in
           if \<not> kv_authoritative view
           then Inl (Conflict (''Knowledge article '' @ i @ '' is not authoritative ('' @
                  (if kv_reviewOverdue view then ''review overdue''
                   else (case ka_approvalState a of DRAFT \<Rightarrow> ''draft'' | APPROVED \<Rightarrow> ''approved'')) @ '')''))
           else Inr (a, view)))"

section \<open>The register of articles\<close>

text \<open>
  The version counts the changes of the text: it never goes back, and as long as it is the same the
  title and the body are the same.
\<close>

definition article_moves :: "article \<Rightarrow> article \<Rightarrow> bool" where
  "article_moves a b \<longleftrightarrow> ka_version a \<le> ka_version b \<and>
     (ka_version b = ka_version a \<longrightarrow> ka_title b = ka_title a \<and> ka_body b = ka_body a)"

definition article_ok :: "article \<Rightarrow> bool" where
  "article_ok a \<longleftrightarrow> 1 \<le> ka_version a"

interpretation article_register: register articles ka_id article_ok article_moves
  by unfold_locales (auto simp: article_moves_def article_ok_def rollback_def)

abbreviation articles_follow :: "world \<Rightarrow> world \<Rightarrow> bool" where
  "articles_follow \<equiv> rows_follow articles ka_id article_ok article_moves"

lemma patch_article_moves: "ka_id (patch_article dto a a) = ka_id a \<and> article_moves a (patch_article dto a a)"
  by (auto simp: patch_article_def Let_def article_moves_def contentChanged_def patched_def split: option.split)

lemma follow_articleCreate: "obeys articles_follow (articleCreate now dto actor)"
proof -
  have "articles_follow w (snd (articleCreate now dto actor w))" for w
    by (rule article_register.follow_insert [where r = "new_article (env_uuid (env w) (uuid_next w)) dto"])
       (simp_all add: articleCreate_def transactionM_def Let_def new_article_def article_ok_def)
  then show ?thesis by (simp add: obeys_def)
qed

lemma requireArticle_Inr: "requireArticle i w = Inr a \<longleftrightarrow> find_by ka_id i (articles w) = Some a"
  by (simp add: requireArticle_def split: option.split)

lemma follow_articleUpdate: "obeys articles_follow (articleUpdate now i dto actor)"
proof -
  have "articles_follow w (snd (articleUpdate now i dto actor w))" for w
  proof (cases "requireArticle i w")
    case (Inl e)
    then show ?thesis by (simp add: articleUpdate_def article_register.follow_refl)
  next
    case (Inr a)
    then have "find_by ka_id i (articles w) = Some a" by (simp add: requireArticle_Inr)
    then show ?thesis
      by (intro article_register.follow_update [where k = i and f = "patch_article dto a"])
         (use Inr patch_article_moves in \<open>auto simp: articleUpdate_def Let_def transactionM_def\<close>)
  qed
  then show ?thesis by (simp add: obeys_def)
qed

lemma follow_articleApprove: "obeys articles_follow (articleApprove now i t actor)"
proof -
  have "articles_follow w (snd (articleApprove now i t actor w))" for w
  proof (cases "article_approve_checks now i t actor w")
    case (Inl e)
    then show ?thesis by (simp add: articleApprove_def article_register.follow_refl)
  next
    case (Inr a)
    then show ?thesis
      by (intro article_register.follow_update [where k = i and f = "\<lambda>x. x\<lparr>ka_approvalState := APPROVED, ka_reviewDueAt := Some t\<rparr>"])
         (auto simp: articleApprove_def Let_def transactionM_def article_moves_def)
  qed
  then show ?thesis by (simp add: obeys_def)
qed

lemma follow_articleUnpublish: "obeys articles_follow (articleUnpublish now i reason actor)"
proof -
  have "articles_follow w (snd (articleUnpublish now i reason actor w))" for w
  proof (cases "requireArticle i w")
    case (Inl e)
    then show ?thesis by (simp add: articleUnpublish_def article_register.follow_refl)
  next
    case (Inr a)
    show ?thesis
    proof (cases "ka_approvalState a = APPROVED")
      case True
      then show ?thesis
        using Inr
        by (intro article_register.follow_update [where k = i and f = "\<lambda>x. x\<lparr>ka_approvalState := DRAFT, ka_reviewDueAt := None\<rparr>"])
           (auto simp: articleUnpublish_def Let_def transactionM_def article_moves_def)
    qed (use Inr in \<open>simp add: articleUnpublish_def article_register.follow_refl\<close>)
  qed
  then show ?thesis by (simp add: obeys_def)
qed

section \<open>Approval and the audit trail\<close>

definition approval_of :: "article \<Rightarrow> audit_event \<Rightarrow> bool" where
  "approval_of a e \<longleftrightarrow> ae_entityId e = ka_id a \<and> ae_action e = ''KNOWLEDGE_ARTICLE_APPROVED'' \<and>
     (\<exists>t. ae_after e = Some (SnapApproval APPROVED (Some (ka_version a)) t None))"

definition approvals_recorded :: "world \<Rightarrow> bool" where
  "approvals_recorded w \<longleftrightarrow> list_all (\<lambda>a. ka_approvalState a = APPROVED \<longrightarrow> list_ex (approval_of a) (audits w)) (articles w)"

definition articles_inv :: "world \<Rightarrow> bool" where
  "articles_inv w \<longleftrightarrow> register_inv articles ka_id article_ok w \<and> approvals_recorded w"

inductive article_step :: "world \<Rightarrow> world \<Rightarrow> bool" where
  kn_create: "article_step w (snd (articleCreate now dto actor w))"
| kn_update: "article_step w (snd (articleUpdate now i udto actor w))"
| kn_approve: "article_step w (snd (articleApprove now i t actor w))"
| kn_unpublish: "article_step w (snd (articleUnpublish now i reason actor w))"
| kn_elsewhere: "env w' = env w \<Longrightarrow> uuid_next w \<le> uuid_next w' \<Longrightarrow> articles w' = articles w \<Longrightarrow> prefix (audits w) (audits w') \<Longrightarrow>
    article_step w w'"

lemma article_step_follow: "article_step w w' \<Longrightarrow> articles_follow w w'"
  by (induction rule: article_step.induct)
     (auto intro: obeysD follow_articleCreate follow_articleUpdate follow_articleApprove follow_articleUnpublish article_register.follow_same)

text \<open>A row that is changed must be a draft, keep its version and state, or have its approval recorded.\<close>

lemma recorded_update:
  assumes "approvals_recorded w" "articles w' = update_by ka_id i f (articles w)" "audits w' = audits w @ new"
    "\<And>a. a \<in> set (articles w) \<Longrightarrow> ka_id a = i \<Longrightarrow> ka_approvalState (f a) = DRAFT \<or>
       (ka_id (f a) = ka_id a \<and> ka_approvalState (f a) = ka_approvalState a \<and> ka_version (f a) = ka_version a) \<or> list_ex (approval_of (f a)) new"
  shows "approvals_recorded w'"
proof -
  have old: "list_ex (approval_of a) (audits w)" if "a \<in> set (articles w)" "ka_approvalState a = APPROVED" for a
    using assms(1) that by (auto simp: approvals_recorded_def list_all_iff)
  have same: "approval_of (f a) = approval_of a" if "ka_id (f a) = ka_id a" "ka_version (f a) = ka_version a" for a
    using that by (auto simp: approval_of_def)
  have "list_ex (approval_of b) (audits w')" if b: "b \<in> set (articles w')" "ka_approvalState b = APPROVED" for b
  proof -
    from b(1) obtain a where a: "a \<in> set (articles w)" "(ka_id a = i \<and> b = f a) \<or> (ka_id a \<noteq> i \<and> b = a)"
      unfolding assms(2) in_set_update_by by blast
    show ?thesis using a(2) assms(4) [OF a(1)] b(2) old [OF a(1)] same [of a] by (auto simp: assms(3))
  qed
  then show ?thesis by (simp add: approvals_recorded_def list_all_iff)
qed

lemma recorded_create: "approvals_recorded w \<Longrightarrow> approvals_recorded (snd (articleCreate now dto actor w))"
  by (simp add: articleCreate_def transactionM_def Let_def approvals_recorded_def new_article_def)
     (auto simp: list_all_iff)

lemma recorded_articleUpdate:
  assumes "approvals_recorded w" "distinct (map ka_id (articles w))"
  shows "approvals_recorded (snd (articleUpdate now i dto actor w))"
proof (cases "requireArticle i w")
  case (Inl e)
  then show ?thesis using assms by (simp add: articleUpdate_def)
next
  case (Inr a)
  let ?w = "snd (articleUpdate now i dto actor w)"
  have found: "find_by ka_id i (articles w) = Some a" using Inr by (simp add: requireArticle_Inr)
  have only: "x = a" if "x \<in> set (articles w)" "ka_id x = i" for x
    using find_by_distinct [OF assms(2) that(1)] that(2) found by simp
  have "ka_approvalState (patch_article dto a a) = DRAFT \<or> (ka_id (patch_article dto a a) = ka_id a \<and>
      ka_approvalState (patch_article dto a a) = ka_approvalState a \<and> ka_version (patch_article dto a a) = ka_version a)"
    by (simp add: patch_article_def Let_def split: option.split)
  then show ?thesis
    using recorded_update [OF assms(1), of ?w i "patch_article dto a"] only Inr
    by (auto simp: articleUpdate_def Let_def transactionM_def)
qed

lemma recorded_articleApprove:
  assumes "approvals_recorded w" "distinct (map ka_id (articles w))"
  shows "approvals_recorded (snd (articleApprove now i t actor w))"
proof (cases "article_approve_checks now i t actor w")
  case (Inl e)
  then show ?thesis using assms by (simp add: articleApprove_def)
next
  case (Inr a)
  let ?w = "snd (articleApprove now i t actor w)" and ?f = "\<lambda>x. x\<lparr>ka_approvalState := APPROVED, ka_reviewDueAt := Some t\<rparr>"
  have found: "find_by ka_id i (articles w) = Some a"
    using Inr by (auto simp: article_approve_checks_def requireArticle_Inr split: sum.splits if_splits)
  have only: "x = a" if "x \<in> set (articles w)" "ka_id x = i" for x
    using find_by_distinct [OF assms(2) that(1)] that(2) found by simp
  show ?thesis
  proof (rule recorded_update [OF assms(1), of ?w i ?f])
    show "articles ?w = update_by ka_id i ?f (articles w)" using Inr by (simp add: articleApprove_def Let_def transactionM_def)
    show "audits ?w = audits w @ [\<lparr>ae_actorId = Some (actorId actor), ae_entityType = ''knowledge_article'', ae_entityId = i,
        ae_action = ''KNOWLEDGE_ARTICLE_APPROVED'', ae_before = Some (SnapApproval (ka_approvalState a) None None None),
        ae_after = Some (SnapApproval APPROVED (Some (ka_version a)) (Some t) None), ae_correlationId = correlationId actor, ae_createdAt = now\<rparr>]"
      using Inr by (simp add: articleApprove_def Let_def transactionM_def)
  qed (use only in \<open>auto simp: approval_of_def\<close>)
qed

lemma recorded_articleUnpublish:
  assumes "approvals_recorded w"
  shows "approvals_recorded (snd (articleUnpublish now i reason actor w))"
proof (cases "requireArticle i w")
  case (Inl e)
  then show ?thesis using assms by (simp add: articleUnpublish_def)
next
  case (Inr a)
  let ?w = "snd (articleUnpublish now i reason actor w)" and ?f = "\<lambda>x. x\<lparr>ka_approvalState := DRAFT, ka_reviewDueAt := None\<rparr>"
  show ?thesis
  proof (cases "ka_approvalState a = APPROVED")
    case True
    then show ?thesis
      using recorded_update [OF assms, of ?w i ?f] Inr by (auto simp: articleUnpublish_def Let_def transactionM_def)
  qed (use Inr assms in \<open>simp add: articleUnpublish_def\<close>)
qed

lemma article_step_recorded: "article_step w w' \<Longrightarrow> articles_inv w \<Longrightarrow> approvals_recorded w'"
proof (induction rule: article_step.induct)
  case (kn_elsewhere w' w)
  then show ?case by (auto simp: articles_inv_def approvals_recorded_def list_all_iff prefix_def)
qed (auto simp: articles_inv_def register_inv_def keys_ok_def recorded_create recorded_articleUpdate recorded_articleApprove
     recorded_articleUnpublish)

interpretation article_run: invariant_system article_step articles_inv
proof
  show "articles_inv t" if "article_step s t" "articles_inv s" for s t
    using that article_register.follow_inv [OF article_step_follow] article_step_recorded by (auto simp: articles_inv_def)
qed

lemma article_history: "article_step\<^sup>*\<^sup>* w w' \<Longrightarrow> articles_follow w w'"
  using article_step_follow by (rule article_register.run_follow)

section \<open>The properties\<close>

text \<open>
  whatever happens to the articles, a published text is a text that was approved: the audit
  trail has an approval of exactly its version, the version only grows, and as long as it is the
  same nobody has changed the title or the body.
\<close>

theorem published_text_was_approved:
  assumes "article_step\<^sup>*\<^sup>* w0 w" "articles_inv w0" "article_step\<^sup>*\<^sup>* w w'"
    "find_by ka_id i (articles w) = Some a" "find_by ka_id i (articles w') = Some b"
  shows "(kv_authoritative (deriveKnowledgeView b now) \<longrightarrow>
       (\<exists>e t. e \<in> set (audits w') \<and> ae_entityId e = i \<and> ae_action e = ''KNOWLEDGE_ARTICLE_APPROVED'' \<and>
          ae_after e = Some (SnapApproval APPROVED (Some (ka_version b)) t None))) \<and>
     ka_version a \<le> ka_version b \<and> (ka_version b = ka_version a \<longrightarrow> ka_title b = ka_title a \<and> ka_body b = ka_body a)"
proof -
  have inv: "articles_inv w" using article_run.run_inv assms(1,2) by blast
  have inv': "articles_inv w'" using article_run.run_inv assms(3) inv by blast
  have b: "b \<in> set (articles w')" "ka_id b = i" using find_by_SomeD [OF assms(5)] by simp_all
  have "\<exists>e t. e \<in> set (audits w') \<and> ae_entityId e = i \<and> ae_action e = ''KNOWLEDGE_ARTICLE_APPROVED'' \<and>
      ae_after e = Some (SnapApproval APPROVED (Some (ka_version b)) t None)" if "kv_authoritative (deriveKnowledgeView b now)"
  proof -
    have "ka_approvalState b = APPROVED" using that by (simp add: deriveKnowledgeView_def Let_def)
    then show ?thesis
      using inv' b unfolding articles_inv_def approvals_recorded_def list_all_iff list_ex_iff approval_of_def by blast
  qed
  moreover obtain b' where "find_by ka_id i (articles w') = Some b'" "article_moves a b'"
    using article_register.follow_row [OF article_history [OF assms(3)] _ assms(4)] inv
    by (auto simp: articles_inv_def register_inv_def)
  ultimately show ?thesis using assms(5) unfolding article_moves_def by auto
qed

definition runbook :: article where
  "runbook = new_article ''0'' \<lparr>cad_title = ''t'', cad_body = ''b'', cad_ownerId = Some ''u-lead'', cad_siteId = None,
     cad_incidentCategory = None, cad_ciType = None\<rparr>"

definition knowledge_world :: world where
  "knowledge_world = empty_world\<lparr>uuid_next := 1, articles := [runbook]\<rparr>"

lemma knowledge_world_inv: "articles_inv knowledge_world"
  by (auto simp: articles_inv_def register_inv_def keys_ok_def approvals_recorded_def knowledge_world_def runbook_def new_article_def
      empty_world_def article_ok_def issued_def nat_str_zero intro: injI nat_str_inj)

theorem published_text_was_approved_witness:
  "\<exists>b. find_by ka_id ''0'' (articles (snd (articleApprove 5 ''0'' 900 \<lparr>actorId = ''u-2'', correlationId = None\<rparr> knowledge_world))) = Some b \<and>
     kv_authoritative (deriveKnowledgeView b 6) \<and> ka_body b = ka_body runbook"
proof -
  let ?w = "snd (articleApprove 5 ''0'' 900 \<lparr>actorId = ''u-2'', correlationId = None\<rparr> knowledge_world)"
  let ?b = "runbook\<lparr>ka_approvalState := APPROVED, ka_reviewDueAt := Some 900\<rparr>"
  have found: "find_by ka_id ''0'' (articles knowledge_world) = Some runbook" "find_by ka_id ''0'' (articles ?w) = Some ?b"
    by (simp_all add: knowledge_world_def runbook_def new_article_def articleApprove_def article_approve_checks_def requireArticle_def
        bindM_def Let_def transactionM_def)
  have "kv_authoritative (deriveKnowledgeView ?b 6)" by (simp add: deriveKnowledgeView_def Let_def)
  then show ?thesis
    using published_text_was_approved [OF rtranclp.rtrancl_refl knowledge_world_inv r_into_rtranclp [of article_step, OF kn_approve] found, of 6]
      found(2) by auto
qed

text \<open>
  The owner of an article can approve it after all: giving up the ownership first is an
  ordinary edit, and the approval then finds no owner to compare with.
\<close>

theorem owner_approves_own_article:
  assumes "find_by ka_id i (articles w) = Some a" "ka_ownerId a = Some (actorId actor)" "ka_approvalState a = DRAFT" "now < t"
  shows "\<exists>u w1 v w2. articleUpdate now i \<lparr>uad_title = None, uad_body = None, uad_ownerId = Some None, uad_siteId = None,
        uad_incidentCategory = None, uad_ciType = None, uad_reviewDueAt = None\<rparr> actor w = (Inr u, w1) \<and>
     articleApprove now i t actor w1 = (Inr v, w2) \<and> kv_authoritative (snd v) \<and> ka_body (fst v) = ka_body a"
proof -
  let ?d = "\<lparr>uad_title = None, uad_body = None, uad_ownerId = Some None, uad_siteId = None,
        uad_incidentCategory = None, uad_ciType = None, uad_reviewDueAt = None\<rparr>"
  have p: "patch_article ?d a = (\<lambda>x. x\<lparr>ka_ownerId := None\<rparr>)" by (rule ext) (simp add: patch_article_def contentChanged_def Let_def)
  have req: "requireArticle i w = Inr a" using assms(1) by (simp add: requireArticle_Inr)
  obtain w1 where u: "articleUpdate now i ?d actor w = (Inr (decorateArticle (a\<lparr>ka_ownerId := None\<rparr>) now), w1)"
    "articles w1 = update_by ka_id i (\<lambda>x. x\<lparr>ka_ownerId := None\<rparr>) (articles w)"
    using req by (simp add: articleUpdate_def decorated_def bindM_def Let_def transactionM_def p)
  have "find_by ka_id i (articles w1) = Some (a\<lparr>ka_ownerId := None\<rparr>)"
    unfolding u(2) by (subst find_by_update_by_same) (simp_all add: assms(1))
  then have "article_approve_checks now i t actor w1 = Inr (a\<lparr>ka_ownerId := None\<rparr>)"
    using assms(3,4) by (simp add: article_approve_checks_def requireArticle_def)
  then show ?thesis
    using u(1) assms(4) by (simp add: articleApprove_def decorated_def bindM_def Let_def transactionM_def decorateArticle_def deriveKnowledgeView_def)
qed

theorem owner_approves_own_article_witness:
  "\<exists>u w1 v w2. articleUpdate 5 ''0'' \<lparr>uad_title = None, uad_body = None, uad_ownerId = Some None, uad_siteId = None,
        uad_incidentCategory = None, uad_ciType = None, uad_reviewDueAt = None\<rparr> \<lparr>actorId = ''u-lead'', correlationId = None\<rparr> knowledge_world = (Inr u, w1) \<and>
     articleApprove 5 ''0'' 900 \<lparr>actorId = ''u-lead'', correlationId = None\<rparr> w1 = (Inr v, w2) \<and> kv_authoritative (snd v)"
proof -
  have "find_by ka_id ''0'' (articles knowledge_world) = Some runbook" "ka_ownerId runbook = Some ''u-lead''" "ka_approvalState runbook = DRAFT"
    by (simp_all add: knowledge_world_def runbook_def new_article_def)
  then show ?thesis
    using owner_approves_own_article [of "''0''" knowledge_world runbook "\<lparr>actorId = ''u-lead'', correlationId = None\<rparr>" 5 900] by auto
qed

end
