(* ===== verification/Risks.thy ===== *)
theory Risks
  imports Registers Incident_Notices
begin

text \<open>
  The risk register and the continuity plans (\<^verbatim>\<open>risks/\<close>): the computed score and its severity bands,
  the status table with its mitigation gate, and plans with their derived readiness.
\<close>

section \<open>Scoring\<close>

datatype risk_severity = RS_LOW | RS_MEDIUM | RS_HIGH | RS_CRITICAL

definition RISK_LEVEL_MIN :: int where
  "RISK_LEVEL_MIN = 1"

definition RISK_LEVEL_MAX :: int where
  "RISK_LEVEL_MAX = 5"

definition SEVERITY_BANDS :: "(risk_severity \<times> int \<times> int) list" where
  "SEVERITY_BANDS = [(RS_LOW, 1, 4), (RS_MEDIUM, 5, 9), (RS_HIGH, 10, 14), (RS_CRITICAL, 15, 25)]"

definition assertLevel :: "string \<Rightarrow> int \<Rightarrow> http_error + unit" where
  "assertLevel name value =
     (if value < RISK_LEVEL_MIN \<or> RISK_LEVEL_MAX < value then Inl (Internal (name @ '' must be an integer 1-5'')) else Inr ())"

definition computeRiskScore :: "int \<Rightarrow> int \<Rightarrow> http_error + int" where
  "computeRiskScore likelihood impact =
     (case assertLevel ''likelihood'' likelihood of
        Inl e \<Rightarrow> Inl e
      | Inr _ \<Rightarrow> (case assertLevel ''impact'' impact of Inl e \<Rightarrow> Inl e | Inr _ \<Rightarrow> Inr (likelihood * impact)))"

definition severityForScore :: "int \<Rightarrow> risk_severity" where
  "severityForScore score =
     (case List.find (\<lambda>(s, mn, mx). mn \<le> score \<and> score \<le> mx) SEVERITY_BANDS of Some (s, _) \<Rightarrow> s | None \<Rightarrow> RS_CRITICAL)"

definition scoreRangeForSeverity :: "risk_severity \<Rightarrow> int \<times> int" where
  "scoreRangeForSeverity severity =
     (case List.find (\<lambda>(s, mn, mx). s = severity) SEVERITY_BANDS of Some (_, mn, mx) \<Rightarrow> (mn, mx) | None \<Rightarrow> (1, 25))"

record risk_view =
  rv_severity :: risk_severity
  rv_overdue :: bool

definition past :: "instant \<Rightarrow> instant option \<Rightarrow> bool" where
  "past now t = (case t of None \<Rightarrow> False | Some d \<Rightarrow> d < now)"

definition deriveRiskView :: "risk \<Rightarrow> instant \<Rightarrow> risk_view" where
  "deriveRiskView r now = \<lparr>rv_severity = severityForScore (rk_score r), rv_overdue = (rk_status r \<noteq> R_CLOSED \<and> past now (rk_dueDate r))\<rparr>"

section \<open>Transitions\<close>

fun TRANSITIONS :: "risk_status \<Rightarrow> risk_status list" where
  "TRANSITIONS R_OPEN = [R_MITIGATING, R_ACCEPTED, R_CLOSED]"
| "TRANSITIONS R_MITIGATING = [R_OPEN, R_ACCEPTED, R_CLOSED]"
| "TRANSITIONS R_ACCEPTED = [R_OPEN, R_CLOSED]"
| "TRANSITIONS R_CLOSED = [R_OPEN]"

definition canTransitionRiskStatus :: "risk_status option \<Rightarrow> risk_status \<Rightarrow> bool" where
  "canTransitionRiskStatus from to =
     (case from of None \<Rightarrow> to = R_OPEN | Some f \<Rightarrow> if f = to then False else to \<in> set (TRANSITIONS f))"

fun risk_status_str :: "risk_status \<Rightarrow> string" where
  "risk_status_str R_OPEN = ''OPEN''"
| "risk_status_str R_MITIGATING = ''MITIGATING''"
| "risk_status_str R_ACCEPTED = ''ACCEPTED''"
| "risk_status_str R_CLOSED = ''CLOSED''"

definition allowedRiskTransitions :: "risk_status \<Rightarrow> risk_status list" where
  "allowedRiskTransitions from = TRANSITIONS from"

section \<open>The risk service\<close>

record create_risk_dto =
  crd_description :: string
  crd_likelihood :: int
  crd_impact :: int
  crd_mitigation :: "string option"
  crd_evidence :: "string option"
  crd_ownerId :: "uuid option"
  crd_siteId :: "uuid option"
  crd_dueDate :: "instant patch"

record update_risk_dto =
  urd_description :: "string option"
  urd_likelihood :: "int option"
  urd_impact :: "int option"
  urd_mitigation :: "string patch"
  urd_evidence :: "string patch"
  urd_ownerId :: "uuid patch"
  urd_siteId :: "uuid patch"
  urd_dueDate :: "instant patch"

record query_risks_dto =
  qrd_status :: "risk_status option"
  qrd_severity :: "risk_severity option"
  qrd_siteId :: "uuid option"
  qrd_ownerId :: "uuid option"
  qrd_overdue :: bool
  qrd_limit :: "nat option"

definition new_risk :: "uuid \<Rightarrow> int \<Rightarrow> create_risk_dto \<Rightarrow> risk" where
  "new_risk i score dto = \<lparr>rk_id = i, rk_siteId = crd_siteId dto, rk_description = crd_description dto, rk_likelihood = crd_likelihood dto,
     rk_impact = crd_impact dto, rk_score = score, rk_mitigation = crd_mitigation dto, rk_evidence = crd_evidence dto,
     rk_ownerId = crd_ownerId dto, rk_dueDate = map_option new_date (crd_dueDate dto), rk_status = R_OPEN\<rparr>"

definition decorateRisk :: "risk \<Rightarrow> instant \<Rightarrow> risk \<times> risk_view" where
  "decorateRisk r now = (r, deriveRiskView r now)"

definition riskCreate :: "instant \<Rightarrow> create_risk_dto \<Rightarrow> actor_context \<Rightarrow> (risk \<times> risk_view) op" where
  "riskCreate now dto actor =
     bindM (readM (\<lambda>_. computeRiskScore (crd_likelihood dto) (crd_impact dto))) (\<lambda>score.
     bindM (transaction
       (bindM freshId (\<lambda>i.
        let created = new_risk i score dto in
        bindM (modifyM (\<lambda>w. w\<lparr>risks := risks w @ [created]\<rparr>)) (\<lambda>_.
        bindM (auditRecord now (Some (actorId actor)) ''risk'' i ''RISK_REGISTERED'' None (Some (SnapRisk created)) (correlationId actor)) (\<lambda>_.
        ret created))))) (\<lambda>r. ret (decorateRisk r now)))"

definition risk_matches :: "query_risks_dto \<Rightarrow> instant \<Rightarrow> risk \<Rightarrow> bool" where
  "risk_matches q now r \<longleftrightarrow>
     (case qrd_status q of None \<Rightarrow> True | Some s \<Rightarrow> rk_status r = s) \<and>
     (\<not> truthy (qrd_siteId q) \<or> rk_siteId r = qrd_siteId q) \<and> (\<not> truthy (qrd_ownerId q) \<or> rk_ownerId r = qrd_ownerId q) \<and>
     (case qrd_severity q of None \<Rightarrow> True
      | Some s \<Rightarrow> fst (scoreRangeForSeverity s) \<le> rk_score r \<and> rk_score r \<le> snd (scoreRangeForSeverity s)) \<and>
     (\<not> qrd_overdue q \<or> (past now (rk_dueDate r) \<and> (qrd_status q \<noteq> None \<or> rk_status r \<noteq> R_CLOSED)))"

text \<open>\<open>orderBy\<close> score descending, then due date ascending with the missing ones last.\<close>

definition risk_order :: "risk \<Rightarrow> int \<times> nat \<times> int" where
  "risk_order r = (- rk_score r, (case rk_dueDate r of None \<Rightarrow> (1, 0) | Some d \<Rightarrow> (0, d)))"

definition risksList :: "query_risks_dto \<Rightarrow> instant \<Rightarrow> world \<Rightarrow> (risk \<times> risk_view) list" where
  "risksList q now w =
     map (\<lambda>r. decorateRisk r now)
       (take (option_default 50 (qrd_limit q)) (sort_key risk_order (filter (risk_matches q now) (risks w))))"

definition requireRisk :: "uuid \<Rightarrow> world \<Rightarrow> http_error + risk" where
  "requireRisk i w = (case find_by rk_id i (risks w) of None \<Rightarrow> Inl (NotFound (''Risk '' @ i @ '' not found'')) | Some r \<Rightarrow> Inr r)"

definition riskGetOne :: "instant \<Rightarrow> uuid \<Rightarrow> world \<Rightarrow> http_error + risk \<times> risk_view" where
  "riskGetOne now i w = (case requireRisk i w of Inl e \<Rightarrow> Inl e | Inr r \<Rightarrow> Inr (decorateRisk r now))"

definition update_risk_score :: "update_risk_dto \<Rightarrow> risk \<Rightarrow> http_error + int option" where
  "update_risk_score dto before =
     (if urd_likelihood dto \<noteq> None \<or> urd_impact dto \<noteq> None
      then map_sum id Some (computeRiskScore (option_default (rk_likelihood before) (urd_likelihood dto))
             (option_default (rk_impact before) (urd_impact dto)))
      else Inr None)"

definition patch_risk :: "update_risk_dto \<Rightarrow> int option \<Rightarrow> risk \<Rightarrow> risk" where
  "patch_risk dto score r = r\<lparr>rk_description := patched (urd_description dto) (rk_description r),
     rk_likelihood := patched (urd_likelihood dto) (rk_likelihood r), rk_impact := patched (urd_impact dto) (rk_impact r),
     rk_mitigation := patched (urd_mitigation dto) (rk_mitigation r), rk_evidence := patched (urd_evidence dto) (rk_evidence r),
     rk_ownerId := patched (urd_ownerId dto) (rk_ownerId r), rk_siteId := patched (urd_siteId dto) (rk_siteId r),
     rk_dueDate := option_or (map_option new_date (urd_dueDate dto)) (rk_dueDate r), rk_score := patched score (rk_score r)\<rparr>"

definition update_risk_checks :: "uuid \<Rightarrow> update_risk_dto \<Rightarrow> world \<Rightarrow> http_error + risk \<times> int option" where
  "update_risk_checks i dto w =
     (case requireRisk i w of
        Inl e \<Rightarrow> Inl e
      | Inr r \<Rightarrow> (case update_risk_score dto r of Inl e \<Rightarrow> Inl e | Inr s \<Rightarrow> Inr (r, s)))"

definition riskUpdate :: "instant \<Rightarrow> uuid \<Rightarrow> update_risk_dto \<Rightarrow> actor_context \<Rightarrow> (risk \<times> risk_view) op" where
  "riskUpdate now i dto actor =
     bindM (readM (update_risk_checks i dto)) (\<lambda>(before, score).
     bindM (transaction
       (let u = patch_risk dto score before in
        bindM (modifyM (\<lambda>w. w\<lparr>risks := update_by rk_id i (patch_risk dto score) (risks w)\<rparr>)) (\<lambda>_.
        bindM (auditRecord now (Some (actorId actor)) ''risk'' i ''RISK_UPDATED'' (Some (SnapRisk before)) (Some (SnapRisk u))
                 (correlationId actor)) (\<lambda>_. ret u)))) (\<lambda>u. ret (decorateRisk u now)))"

definition notifyOwnerOfStatusChange :: "risk \<Rightarrow> risk_status \<Rightarrow> unit op" where
  "notifyOwnerOfStatusChange r to = swallowM
     (if \<not> truthy (rk_ownerId r) then ret ()
      else bindM (getM (\<lambda>w. find_by u_id (the (rk_ownerId r)) (users w))) (\<lambda>owner.
        case owner of
          None \<Rightarrow> ret ()
        | Some u \<Rightarrow>
            if \<not> has_email u then ret ()
            else enqueue ''notifications'' ''RISK_STATUS_CHANGED'' (''RISK-'' @ take 8 (rk_id r)) [party_of u] []
                   (Some (''RISK_STATUS_CHANGED:'' @ rk_id r @ '':'' @ risk_status_str to))))"

definition risk_status_checks :: "uuid \<Rightarrow> risk_status \<Rightarrow> string patch \<Rightarrow> world \<Rightarrow> http_error + risk" where
  "risk_status_checks i to mitigation w =
     (case requireRisk i w of
        Inl e \<Rightarrow> Inl e
      | Inr r \<Rightarrow>
          if \<not> canTransitionRiskStatus (Some (rk_status r)) to
          then Inl (Conflict (''Cannot move risk '' @ i @ '' from '' @ risk_status_str (rk_status r) @ '' to '' @ risk_status_str to @
                 ''; allowed: '' @ join '', '' (map risk_status_str (allowedRiskTransitions (rk_status r)))))
          else if (to = R_MITIGATING \<or> to = R_ACCEPTED) \<and> \<not> truthy (coalesce mitigation (rk_mitigation r))
          then Inl (BadRequest (''Moving a risk to '' @ risk_status_str to @ '' requires a documented mitigation / rationale''))
          else Inr r)"

definition set_risk_status :: "risk_status \<Rightarrow> string patch \<Rightarrow> risk \<Rightarrow> risk" where
  "set_risk_status to mitigation r = r\<lparr>rk_status := to, rk_mitigation := patched mitigation (rk_mitigation r)\<rparr>"

definition riskChangeStatus :: "instant \<Rightarrow> uuid \<Rightarrow> risk_status \<Rightarrow> string patch \<Rightarrow> actor_context \<Rightarrow> (risk \<times> risk_view) op" where
  "riskChangeStatus now i to mitigation actor =
     bindM (readM (risk_status_checks i to mitigation)) (\<lambda>r.
     bindM (transaction
       (let u = set_risk_status to mitigation r in
        bindM (modifyM (\<lambda>w. w\<lparr>risks := update_by rk_id i (set_risk_status to mitigation) (risks w)\<rparr>)) (\<lambda>_.
        bindM (auditRecord now (Some (actorId actor)) ''risk'' i ''RISK_STATUS_CHANGED''
                 (Some (SnapRiskStatus (rk_status r) (rk_mitigation r))) (Some (SnapRiskStatus to (rk_mitigation u)))
                 (correlationId actor)) (\<lambda>_. ret u)))) (\<lambda>u.
     bindM (notifyOwnerOfStatusChange u to) (\<lambda>_. ret (decorateRisk u now))))"

section \<open>The register of risks\<close>

text \<open>Both levels are between one and five and the score is their product.\<close>

definition level_ok :: "int \<Rightarrow> bool" where
  "level_ok v \<longleftrightarrow> RISK_LEVEL_MIN \<le> v \<and> v \<le> RISK_LEVEL_MAX"

definition risk_ok :: "risk \<Rightarrow> bool" where
  "risk_ok r \<longleftrightarrow> level_ok (rk_likelihood r) \<and> level_ok (rk_impact r) \<and> rk_score r = rk_likelihood r * rk_impact r"

interpretation risk_register: register risks rk_id risk_ok "\<lambda>r s. risk_ok r \<longrightarrow> risk_ok s"
  by unfold_locales (auto simp: rollback_def)

abbreviation risks_follow :: "world \<Rightarrow> world \<Rightarrow> bool" where
  "risks_follow \<equiv> rows_follow risks rk_id risk_ok (\<lambda>r s. risk_ok r \<longrightarrow> risk_ok s)"

lemma risk_ok_levels:
  assumes "risk_ok r"
  shows "1 \<le> rk_likelihood r" "rk_likelihood r \<le> 5" "1 \<le> rk_impact r" "rk_impact r \<le> 5" "rk_score r = rk_likelihood r * rk_impact r"
  using assms by (simp_all add: risk_ok_def level_ok_def RISK_LEVEL_MIN_def RISK_LEVEL_MAX_def)

lemma risk_ok_score: "risk_ok r \<Longrightarrow> 1 \<le> rk_score r \<and> rk_score r \<le> 25"
  using mult_mono [of 1 "rk_likelihood r" 1 "rk_impact r"] mult_mono [of "rk_likelihood r" 5 "rk_impact r" 5] risk_ok_levels [of r] by simp

lemma assertLevel_Inr: "assertLevel n v = Inr u \<longleftrightarrow> level_ok v"
  by (auto simp: assertLevel_def level_ok_def)

lemma computeRiskScore_Inr: "computeRiskScore l i = Inr s \<longleftrightarrow> level_ok l \<and> level_ok i \<and> s = l * i"
  by (auto simp: computeRiskScore_def assertLevel_Inr assertLevel_def level_ok_def split: sum.splits if_splits)

lemma requireRisk_Inr: "requireRisk i w = Inr r \<longleftrightarrow> find_by rk_id i (risks w) = Some r"
  by (auto simp: requireRisk_def split: option.splits)

lemma map_sum_Inr: "map_sum f g x = Inr y \<Longrightarrow> (\<And>a. x = Inr a \<Longrightarrow> y = g a \<Longrightarrow> P) \<Longrightarrow> P"
  by (cases x) auto

lemma patch_risk_ok: "update_risk_score dto r = Inr score \<Longrightarrow> risk_ok r \<Longrightarrow> risk_ok (patch_risk dto score r)"
  by (cases "urd_likelihood dto"; cases "urd_impact dto")
     (auto simp: update_risk_score_def patch_risk_def risk_ok_def computeRiskScore_Inr split: if_splits elim!: map_sum_Inr)

lemma follow_riskCreate: "risks_follow w (snd (riskCreate now dto actor w))"
proof (cases "computeRiskScore (crd_likelihood dto) (crd_impact dto)")
  case (Inl e)
  then show ?thesis by (simp add: riskCreate_def risk_register.follow_refl)
next
  case (Inr score)
  then have "risk_ok (new_risk i score dto)" for i by (simp add: new_risk_def risk_ok_def computeRiskScore_Inr)
  then show ?thesis
    by (intro risk_register.follow_insert [where r = "new_risk (env_uuid (env w) (uuid_next w)) score dto"])
       (simp_all add: Inr riskCreate_def bindM_def transactionM_def Let_def, simp_all add: new_risk_def)
qed

lemma follow_riskUpdate: "risks_follow w (snd (riskUpdate now i dto actor w))"
proof (cases "update_risk_checks i dto w")
  case (Inl e)
  then show ?thesis by (simp add: riskUpdate_def risk_register.follow_refl)
next
  case (Inr rs)
  obtain r score where rs: "rs = (r, score)" by (cases rs)
  with Inr have found: "find_by rk_id i (risks w) = Some r" and score: "update_risk_score dto r = Inr score"
    by (auto simp: update_risk_checks_def requireRisk_Inr split: sum.splits)
  have "rk_id (patch_risk dto score r) = rk_id r" by (simp add: patch_risk_def)
  with found score patch_risk_ok show ?thesis
    by (intro risk_register.follow_update [where k = i and f = "patch_risk dto score"])
       (use Inr rs in \<open>auto simp: riskUpdate_def Let_def transactionM_def bindM_def\<close>)
qed

lemma notifyOwner_returns: "fst (notifyOwnerOfStatusChange r to w) = Inr ()"
  by (simp add: notifyOwnerOfStatusChange_def swallowM_def bindM_def split: prod.split sum.split)

lemma notifyOwner_frame:
  "risks (snd (notifyOwnerOfStatusChange r to w)) = risks w" "env (snd (notifyOwnerOfStatusChange r to w)) = env w"
  "uuid_next (snd (notifyOwnerOfStatusChange r to w)) = uuid_next w"
  by (simp_all add: notifyOwnerOfStatusChange_def swallowM_def bindM_def enqueue_def split: option.split)

lemma riskChangeStatus_run:
  assumes "risk_status_checks i to m w = Inr r"
  obtains w1 where "riskChangeStatus now i to m actor w = (Inr (decorateRisk (set_risk_status to m r) now), w1)"
    "risks w1 = update_by rk_id i (set_risk_status to m) (risks w)" "env w1 = env w" "uuid_next w1 = uuid_next w"
proof -
  define w1 where "w1 = w\<lparr>risks := update_by rk_id i (set_risk_status to m) (risks w), audits := audits w @ [\<lparr>ae_actorId = Some (actorId actor),
    ae_entityType = ''risk'', ae_entityId = i, ae_action = ''RISK_STATUS_CHANGED'', ae_before = Some (SnapRiskStatus (rk_status r) (rk_mitigation r)),
    ae_after = Some (SnapRiskStatus to (rk_mitigation (set_risk_status to m r))), ae_correlationId = correlationId actor, ae_createdAt = now\<rparr>]\<rparr>"
  have "riskChangeStatus now i to m actor w =
      (Inr (decorateRisk (set_risk_status to m r) now), snd (notifyOwnerOfStatusChange (set_risk_status to m r) to w1))"
    using assms notifyOwner_returns [of "set_risk_status to m r" to w1]
    by (cases "notifyOwnerOfStatusChange (set_risk_status to m r) to w1") (simp add: riskChangeStatus_def bindM_def w1_def Let_def transactionM_def)
  then show ?thesis by (rule that) (simp_all add: notifyOwner_frame w1_def)
qed

lemma follow_riskChangeStatus: "risks_follow w (snd (riskChangeStatus now i to m actor w))"
proof (cases "risk_status_checks i to m w")
  case (Inl e)
  then show ?thesis by (simp add: riskChangeStatus_def risk_register.follow_refl)
next
  case (Inr r)
  have moves: "rk_id (set_risk_status to m r) = rk_id r \<and> (risk_ok r \<longrightarrow> risk_ok (set_risk_status to m r))" for r
    by (simp add: set_risk_status_def risk_ok_def)
  obtain w1 where w1: "snd (riskChangeStatus now i to m actor w) = w1" "risks w1 = update_by rk_id i (set_risk_status to m) (risks w)"
    "env w1 = env w" "uuid_next w1 = uuid_next w"
    using riskChangeStatus_run [OF Inr, of now actor] snd_conv by metis
  show ?thesis
    unfolding w1(1) by (rule risk_register.follow_update [where k = i and f = "set_risk_status to m"]) (use w1 moves in simp_all)
qed

inductive risk_step :: "world \<Rightarrow> world \<Rightarrow> bool" where
  rs_create: "risk_step w (snd (riskCreate now dto actor w))"
| rs_update: "risk_step w (snd (riskUpdate now i udto actor w))"
| rs_status: "risk_step w (snd (riskChangeStatus now i to m actor w))"
| rs_elsewhere: "env w' = env w \<Longrightarrow> uuid_next w \<le> uuid_next w' \<Longrightarrow> risks w' = risks w \<Longrightarrow> risk_step w w'"

lemma risk_step_follow: "risk_step w w' \<Longrightarrow> risks_follow w w'"
  by (induction rule: risk_step.induct)
     (auto intro: follow_riskCreate follow_riskUpdate follow_riskChangeStatus risk_register.follow_same)

interpretation risk_run: invariant_system risk_step "register_inv risks rk_id risk_ok"
  by unfold_locales (blast intro: risk_register.follow_inv risk_step_follow)

section \<open>Continuity plans\<close>

datatype bcp_readiness = BCP_UNTESTED | BCP_DUE | BCP_READY

record bcp_readiness_view =
  bv_readiness :: bcp_readiness
  bv_neverTested :: bool
  bv_testOverdue :: bool

definition deriveBcpReadiness :: "bcp_plan \<Rightarrow> instant \<Rightarrow> bcp_readiness_view" where
  "deriveBcpReadiness plan now =
     (let neverTested = (bp_lastTestedAt plan = None); testOverdue = past now (bp_nextTestDueAt plan) in
      \<lparr>bv_readiness = (if neverTested then BCP_UNTESTED else if testOverdue then BCP_DUE else BCP_READY),
       bv_neverTested = neverTested, bv_testOverdue = testOverdue\<rparr>)"

record create_bcp_plan_dto =
  cbd_name :: string
  cbd_siteId :: "uuid option"
  cbd_serviceName :: "string option"
  cbd_recoveryStrategy :: string
  cbd_alternateSite :: "string option"
  cbd_rtoMinutes :: int
  cbd_rpoMinutes :: int
  cbd_targetAvailabilityPercent :: "double option"
  cbd_residualRisk :: "string option"
  cbd_contacts :: "string option"
  cbd_ownerId :: "uuid option"
  cbd_lastTestedAt :: "instant option"
  cbd_nextTestDueAt :: "instant option"

record update_bcp_plan_dto =
  ubd_name :: "string option"
  ubd_recoveryStrategy :: "string option"
  ubd_alternateSite :: "string patch"
  ubd_rtoMinutes :: "int option"
  ubd_rpoMinutes :: "int option"
  ubd_targetAvailabilityPercent :: "double patch"
  ubd_residualRisk :: "string patch"
  ubd_contacts :: "string patch"
  ubd_ownerId :: "uuid patch"
  ubd_isActive :: "bool option"
  ubd_nextTestDueAt :: "instant patch"

record record_bcp_test_dto =
  rbd_testedAt :: "instant option"
  rbd_nextTestDueAt :: "instant patch"
  rbd_notes :: "string option"

record query_bcp_plans_dto =
  qbd_siteId :: "uuid option"
  qbd_due :: bool
  qbd_isActive :: "bool option"
  qbd_limit :: "nat option"

definition requireExactlyOneScope :: "uuid option \<Rightarrow> string option \<Rightarrow> http_error + unit" where
  "requireExactlyOneScope siteId serviceName =
     (if truthy siteId = truthy serviceName then Inl (BadRequest ''Set exactly one of siteId or serviceName'') else Inr ())"

definition decorateBcp :: "bcp_plan \<Rightarrow> instant \<Rightarrow> bcp_plan \<times> bcp_readiness_view" where
  "decorateBcp plan now = (plan, deriveBcpReadiness plan now)"

definition new_bcp_plan :: "uuid \<Rightarrow> create_bcp_plan_dto \<Rightarrow> bcp_plan" where
  "new_bcp_plan i dto = \<lparr>bp_id = i, bp_name = cbd_name dto, bp_siteId = cbd_siteId dto, bp_serviceName = cbd_serviceName dto,
     bp_recoveryStrategy = cbd_recoveryStrategy dto, bp_alternateSite = cbd_alternateSite dto, bp_rtoMinutes = cbd_rtoMinutes dto,
     bp_rpoMinutes = cbd_rpoMinutes dto, bp_targetAvailabilityPercent = cbd_targetAvailabilityPercent dto,
     bp_residualRisk = cbd_residualRisk dto, bp_contacts = cbd_contacts dto, bp_ownerId = cbd_ownerId dto,
     bp_lastTestedAt = cbd_lastTestedAt dto, bp_nextTestDueAt = cbd_nextTestDueAt dto, bp_isActive = True\<rparr>"

definition bcpCreate :: "instant \<Rightarrow> create_bcp_plan_dto \<Rightarrow> actor_context \<Rightarrow> (bcp_plan \<times> bcp_readiness_view) op" where
  "bcpCreate now dto actor =
     bindM (readM (\<lambda>_. requireExactlyOneScope (cbd_siteId dto) (cbd_serviceName dto))) (\<lambda>_.
     bindM (transaction
       (bindM freshId (\<lambda>i.
        let created = new_bcp_plan i dto in
        bindM (modifyM (\<lambda>w. w\<lparr>bcp_plans := bcp_plans w @ [created]\<rparr>)) (\<lambda>_.
        bindM (auditRecord now (Some (actorId actor)) ''bcp_plan'' i ''BCP_PLAN_CREATED'' None (Some (SnapBcpPlan created))
                 (correlationId actor)) (\<lambda>_.
        ret created))))) (\<lambda>p. ret (decorateBcp p now)))"

definition bcp_matches :: "query_bcp_plans_dto \<Rightarrow> instant \<Rightarrow> bcp_plan \<Rightarrow> bool" where
  "bcp_matches q now p \<longleftrightarrow>
     (\<not> truthy (qbd_siteId q) \<or> bp_siteId p = qbd_siteId q) \<and>
     (case qbd_isActive q of None \<Rightarrow> True | Some b \<Rightarrow> bp_isActive p = b) \<and>
     (\<not> qbd_due q \<or> (bp_lastTestedAt p \<noteq> None \<and> past now (bp_nextTestDueAt p)))"

text \<open>\<open>orderBy\<close> the next test ascending with the missing ones last, then the newest first (rows are kept in the order of creation).\<close>

definition bcpList :: "query_bcp_plans_dto \<Rightarrow> instant \<Rightarrow> world \<Rightarrow> (bcp_plan \<times> bcp_readiness_view) list" where
  "bcpList q now w =
     map (\<lambda>p. decorateBcp p now)
       (take (option_default 50 (qbd_limit q))
          (sort_key (\<lambda>p. case bp_nextTestDueAt p of None \<Rightarrow> (1 :: nat, 0) | Some d \<Rightarrow> (0, d)) (rev (filter (bcp_matches q now) (bcp_plans w)))))"

definition requirePlan :: "uuid \<Rightarrow> world \<Rightarrow> http_error + bcp_plan" where
  "requirePlan i w = (case find_by bp_id i (bcp_plans w) of None \<Rightarrow> Inl (NotFound (''BCP plan '' @ i @ '' not found'')) | Some p \<Rightarrow> Inr p)"

definition bcpGetOne :: "instant \<Rightarrow> uuid \<Rightarrow> world \<Rightarrow> http_error + bcp_plan \<times> bcp_readiness_view" where
  "bcpGetOne now i w = (case requirePlan i w of Inl e \<Rightarrow> Inl e | Inr p \<Rightarrow> Inr (decorateBcp p now))"

definition patch_bcp_plan :: "update_bcp_plan_dto \<Rightarrow> bcp_plan \<Rightarrow> bcp_plan" where
  "patch_bcp_plan dto p = p\<lparr>bp_name := patched (ubd_name dto) (bp_name p),
     bp_recoveryStrategy := patched (ubd_recoveryStrategy dto) (bp_recoveryStrategy p),
     bp_alternateSite := patched (ubd_alternateSite dto) (bp_alternateSite p), bp_rtoMinutes := patched (ubd_rtoMinutes dto) (bp_rtoMinutes p),
     bp_rpoMinutes := patched (ubd_rpoMinutes dto) (bp_rpoMinutes p),
     bp_targetAvailabilityPercent := patched (ubd_targetAvailabilityPercent dto) (bp_targetAvailabilityPercent p),
     bp_residualRisk := patched (ubd_residualRisk dto) (bp_residualRisk p), bp_contacts := patched (ubd_contacts dto) (bp_contacts p),
     bp_ownerId := patched (ubd_ownerId dto) (bp_ownerId p), bp_isActive := patched (ubd_isActive dto) (bp_isActive p),
     bp_nextTestDueAt := option_or (map_option new_date (ubd_nextTestDueAt dto)) (bp_nextTestDueAt p)\<rparr>"

definition bcpUpdate :: "instant \<Rightarrow> uuid \<Rightarrow> update_bcp_plan_dto \<Rightarrow> actor_context \<Rightarrow> (bcp_plan \<times> bcp_readiness_view) op" where
  "bcpUpdate now i dto actor =
     bindM (readM (requirePlan i)) (\<lambda>before.
     bindM (transaction
       (let u = patch_bcp_plan dto before in
        bindM (modifyM (\<lambda>w. w\<lparr>bcp_plans := update_by bp_id i (patch_bcp_plan dto) (bcp_plans w)\<rparr>)) (\<lambda>_.
        bindM (auditRecord now (Some (actorId actor)) ''bcp_plan'' i ''BCP_PLAN_UPDATED'' (Some (SnapBcpPlan before)) (Some (SnapBcpPlan u))
                 (correlationId actor)) (\<lambda>_. ret u)))) (\<lambda>u. ret (decorateBcp u now)))"

definition tested_plan :: "instant \<Rightarrow> record_bcp_test_dto \<Rightarrow> bcp_plan \<Rightarrow> bcp_plan" where
  "tested_plan now dto p = p\<lparr>bp_lastTestedAt := Some (option_default now (rbd_testedAt dto)),
     bp_nextTestDueAt := option_or (map_option new_date (rbd_nextTestDueAt dto)) (bp_nextTestDueAt p)\<rparr>"

definition recordTest :: "instant \<Rightarrow> uuid \<Rightarrow> record_bcp_test_dto \<Rightarrow> actor_context \<Rightarrow> (bcp_plan \<times> bcp_readiness_view) op" where
  "recordTest now i dto actor =
     bindM (readM (requirePlan i)) (\<lambda>before.
     bindM (transaction
       (let u = tested_plan now dto before in
        bindM (modifyM (\<lambda>w. w\<lparr>bcp_plans := update_by bp_id i (tested_plan now dto) (bcp_plans w)\<rparr>)) (\<lambda>_.
        bindM (auditRecord now (Some (actorId actor)) ''bcp_plan'' i ''BCP_PLAN_TESTED''
                 (Some (SnapBcpTest (bp_lastTestedAt before) (bp_nextTestDueAt before) None))
                 (Some (SnapBcpTest (bp_lastTestedAt u) (bp_nextTestDueAt u) (rbd_notes dto))) (correlationId actor)) (\<lambda>_. ret u))))
       (\<lambda>u. ret (decorateBcp u now)))"

section \<open>The register of plans\<close>

definition one_scope :: "bcp_plan \<Rightarrow> bool" where
  "one_scope p \<longleftrightarrow> truthy (bp_siteId p) \<noteq> truthy (bp_serviceName p)"

definition same_scope :: "bcp_plan \<Rightarrow> bcp_plan \<Rightarrow> bool" where
  "same_scope p q \<longleftrightarrow> bp_siteId q = bp_siteId p \<and> bp_serviceName q = bp_serviceName p"

interpretation bcp_register: register bcp_plans bp_id one_scope same_scope
  by unfold_locales (simp_all add: same_scope_def one_scope_def rollback_def)

abbreviation plans_follow :: "world \<Rightarrow> world \<Rightarrow> bool" where
  "plans_follow \<equiv> rows_follow bcp_plans bp_id one_scope same_scope"

lemma follow_bcpCreate: "plans_follow w (snd (bcpCreate now dto actor w))"
proof (cases "truthy (cbd_siteId dto) = truthy (cbd_serviceName dto)")
  case True
  then show ?thesis by (simp add: bcpCreate_def requireExactlyOneScope_def bcp_register.follow_refl)
next
  case False
  then have "one_scope (new_bcp_plan i dto)" for i by (simp add: one_scope_def new_bcp_plan_def)
  with False show ?thesis
    by (intro bcp_register.follow_insert [where r = "new_bcp_plan (env_uuid (env w) (uuid_next w)) dto"])
       (simp_all add: bcpCreate_def requireExactlyOneScope_def bindM_def transactionM_def Let_def, simp_all add: new_bcp_plan_def)
qed

lemma follow_bcpUpdate: "plans_follow w (snd (bcpUpdate now i dto actor w))"
proof (cases "requirePlan i w")
  case (Inr p)
  have "bp_id (patch_bcp_plan dto q) = bp_id q \<and> same_scope q (patch_bcp_plan dto q)" for q
    by (simp add: patch_bcp_plan_def same_scope_def)
  with Inr show ?thesis
    by (intro bcp_register.follow_update [where k = i and f = "patch_bcp_plan dto"])
       (auto simp: bcpUpdate_def Let_def transactionM_def bindM_def)
qed (simp add: bcpUpdate_def bcp_register.follow_refl)

lemma follow_recordTest: "plans_follow w (snd (recordTest now i dto actor w))"
proof (cases "requirePlan i w")
  case (Inr p)
  have "bp_id (tested_plan now dto q) = bp_id q \<and> same_scope q (tested_plan now dto q)" for q
    by (simp add: tested_plan_def same_scope_def)
  with Inr show ?thesis
    by (intro bcp_register.follow_update [where k = i and f = "tested_plan now dto"])
       (auto simp: recordTest_def Let_def transactionM_def bindM_def)
qed (simp add: recordTest_def bcp_register.follow_refl)

inductive bcp_step :: "world \<Rightarrow> world \<Rightarrow> bool" where
  bs_create: "bcp_step w (snd (bcpCreate now dto actor w))"
| bs_update: "bcp_step w (snd (bcpUpdate now i udto actor w))"
| bs_test: "bcp_step w (snd (recordTest now i tdto actor w))"
| bs_elsewhere: "env w' = env w \<Longrightarrow> uuid_next w \<le> uuid_next w' \<Longrightarrow> bcp_plans w' = bcp_plans w \<Longrightarrow> bcp_step w w'"

lemma bcp_step_follow: "bcp_step w w' \<Longrightarrow> plans_follow w w'"
  by (induction rule: bcp_step.induct) (auto intro: follow_bcpCreate follow_bcpUpdate follow_recordTest bcp_register.follow_same)

interpretation bcp_run: invariant_system bcp_step "register_inv bcp_plans bp_id one_scope"
  by unfold_locales (blast intro: bcp_register.follow_inv bcp_step_follow)

section \<open>The properties\<close>

text \<open>
  C37: through any sequence of requests every registered risk has likelihood and impact between one
  and five, its stored score is their product, and so it lies between 1 and 25.
\<close>

theorem risk_score_sound:
  assumes "risk_step\<^sup>*\<^sup>* w w'" "register_inv risks rk_id risk_ok w"
  shows "list_all (\<lambda>r. 1 \<le> rk_likelihood r \<and> rk_likelihood r \<le> 5 \<and> 1 \<le> rk_impact r \<and> rk_impact r \<le> 5 \<and>
     rk_score r = rk_likelihood r * rk_impact r \<and> 1 \<le> rk_score r \<and> rk_score r \<le> 25) (risks w')"
proof -
  have "list_all risk_ok (risks w')" using risk_run.run_inv [OF assms] by (simp add: register_inv_def)
  then show ?thesis by (rule list.pred_mono_strong) (use risk_ok_levels risk_ok_score in blast)
qed

definition flood_risk :: risk where
  "flood_risk = new_risk ''0'' 12 \<lparr>crd_description = ''flood'', crd_likelihood = 3, crd_impact = 4, crd_mitigation = Some ''pump'',
     crd_evidence = None, crd_ownerId = None, crd_siteId = None, crd_dueDate = Some (Some 100)\<rparr>"

definition risk_world :: world where
  "risk_world = empty_world\<lparr>uuid_next := 1, risks := [flood_risk]\<rparr>"

lemma risk_world_inv: "register_inv risks rk_id risk_ok risk_world"
  by (auto simp: register_inv_def keys_ok_def risk_world_def flood_risk_def new_risk_def empty_world_def risk_ok_def level_ok_def
      RISK_LEVEL_MIN_def RISK_LEVEL_MAX_def issued_def nat_str_zero intro: injI nat_str_inj)

definition raise_likelihood :: update_risk_dto where
  "raise_likelihood = \<lparr>urd_description = None, urd_likelihood = Some 5, urd_impact = None, urd_mitigation = None, urd_evidence = None,
     urd_ownerId = None, urd_siteId = None, urd_dueDate = None\<rparr>"

theorem risk_score_sound_witness:
  "map rk_score (risks (snd (riskUpdate 5 ''0'' raise_likelihood \<lparr>actorId = ''u'', correlationId = None\<rparr> risk_world))) = [20]"
proof -
  let ?w = "snd (riskUpdate 5 ''0'' raise_likelihood \<lparr>actorId = ''u'', correlationId = None\<rparr> risk_world)"
  have "risks ?w = [patch_risk raise_likelihood (Some 20) flood_risk]"
    by (simp add: riskUpdate_def update_risk_checks_def requireRisk_def risk_world_def flood_risk_def new_risk_def raise_likelihood_def
        update_risk_score_def computeRiskScore_def assertLevel_def RISK_LEVEL_MIN_def RISK_LEVEL_MAX_def Let_def transactionM_def bindM_def update_by_def)
  moreover have "rk_likelihood (patch_risk raise_likelihood (Some 20) flood_risk) = 5" "rk_impact (patch_risk raise_likelihood (Some 20) flood_risk) = 4"
    by (simp_all add: patch_risk_def raise_likelihood_def flood_risk_def new_risk_def)
  moreover note risk_score_sound [OF r_into_rtranclp [of risk_step, OF rs_update] risk_world_inv, of 5 "''0''" raise_likelihood "\<lparr>actorId = ''u'', correlationId = None\<rparr>"]
  ultimately show ?thesis by simp
qed

text \<open>
  On a sound register the severity filter, which is a range on the stored score, selects
  exactly the risks whose derived severity is the one asked for.
\<close>

theorem severity_filter_agrees:
  assumes "register_inv risks rk_id risk_ok w"
  shows "risksList \<lparr>qrd_status = None, qrd_severity = Some s, qrd_siteId = None, qrd_ownerId = None, qrd_overdue = False, qrd_limit = n\<rparr> now w =
     map (\<lambda>r. decorateRisk r now) (take (option_default 50 n) (sort_key risk_order
       (filter (\<lambda>r. rv_severity (deriveRiskView r now) = s) (risks w))))"
proof -
  let ?q = "\<lparr>qrd_status = None, qrd_severity = Some s, qrd_siteId = None, qrd_ownerId = None, qrd_overdue = False, qrd_limit = n\<rparr>"
  have range: "fst (scoreRangeForSeverity s) \<le> v \<and> v \<le> snd (scoreRangeForSeverity s) \<longleftrightarrow> severityForScore v = s" if "1 \<le> v" "v \<le> 25" for v
    using that by (cases s) (auto simp: scoreRangeForSeverity_def severityForScore_def SEVERITY_BANDS_def)
  have "1 \<le> rk_score r \<and> rk_score r \<le> 25" if "r \<in> set (risks w)" for r
    using assms that risk_ok_score by (auto simp: register_inv_def list_all_iff)
  then have "filter (risk_matches ?q now) (risks w) = filter (\<lambda>r. rv_severity (deriveRiskView r now) = s) (risks w)"
    by (intro filter_cong) (simp_all add: risk_matches_def deriveRiskView_def range)
  then show ?thesis by (simp add: risksList_def)
qed

theorem severity_filter_agrees_witness:
  "risksList \<lparr>qrd_status = None, qrd_severity = Some RS_HIGH, qrd_siteId = None, qrd_ownerId = None, qrd_overdue = False, qrd_limit = None\<rparr> 7
     risk_world = [decorateRisk flood_risk 7]"
  unfolding severity_filter_agrees [OF risk_world_inv]
  by (simp add: risk_world_def flood_risk_def new_risk_def deriveRiskView_def severityForScore_def SEVERITY_BANDS_def)

text \<open>
  A status change whose body carries a null mitigation passes the mitigation gate on the text
  that is already on record and then erases it, so the risk is being mitigated with no mitigation.
\<close>

theorem mitigation_gate_bypass:
  assumes "find_by rk_id i (risks w) = Some r" "rk_status r = R_OPEN" "truthy (rk_mitigation r)"
  shows "\<exists>v w'. riskChangeStatus now i R_MITIGATING (Some None) actor w = (Inr v, w') \<and>
     rk_status (fst v) = R_MITIGATING \<and> rk_mitigation (fst v) = None \<and> find_by rk_id i (risks w') = Some (fst v)"
proof -
  let ?u = "set_risk_status R_MITIGATING (Some None) r"
  have "risk_status_checks i R_MITIGATING (Some None) w = Inr r"
    using assms by (simp add: risk_status_checks_def requireRisk_def canTransitionRiskStatus_def)
  then obtain w1 where w1: "riskChangeStatus now i R_MITIGATING (Some None) actor w = (Inr (decorateRisk ?u now), w1)"
    "risks w1 = update_by rk_id i (set_risk_status R_MITIGATING (Some None)) (risks w)"
    by (rule riskChangeStatus_run)
  have "find_by rk_id i (risks w1) = Some ?u"
    unfolding w1(2) using assms(1) by (subst find_by_update_by_same) (simp_all add: set_risk_status_def)
  moreover have "rk_status ?u = R_MITIGATING" "rk_mitigation ?u = None" by (simp_all add: set_risk_status_def)
  ultimately show ?thesis unfolding w1(1) by (simp add: decorateRisk_def)
qed

theorem mitigation_gate_bypass_witness:
  "\<exists>v w'. riskChangeStatus 5 ''0'' R_MITIGATING (Some None) \<lparr>actorId = ''u'', correlationId = None\<rparr> risk_world = (Inr v, w') \<and> rk_mitigation (fst v) = None"
proof -
  have "find_by rk_id ''0'' (risks risk_world) = Some flood_risk" "rk_status flood_risk = R_OPEN" "truthy (rk_mitigation flood_risk)"
    by (simp_all add: risk_world_def flood_risk_def new_risk_def)
  then show ?thesis
    using mitigation_gate_bypass [of "''0''" risk_world flood_risk 5 "\<lparr>actorId = ''u'', correlationId = None\<rparr>"] by blast
qed

text \<open>
  A continuity plan covers exactly one of a site and a named service through any sequence of
  requests, and no request changes what it covers.
\<close>

theorem plan_scope_fixed:
  assumes "bcp_step\<^sup>*\<^sup>* w w'" "register_inv bcp_plans bp_id one_scope w" "find_by bp_id i (bcp_plans w) = Some p"
  shows "\<exists>q. find_by bp_id i (bcp_plans w') = Some q \<and> bp_siteId q = bp_siteId p \<and> bp_serviceName q = bp_serviceName p \<and>
     list_all (\<lambda>p. truthy (bp_siteId p) \<noteq> truthy (bp_serviceName p)) (bcp_plans w')"
proof -
  have "plans_follow w w'" using bcp_register.run_follow [OF bcp_step_follow assms(1)] .
  from bcp_register.follow_row [OF this _ assms(3)] obtain q where "find_by bp_id i (bcp_plans w') = Some q" "same_scope p q"
    using assms(2) by (auto simp: register_inv_def)
  moreover have "list_all one_scope (bcp_plans w')" using bcp_run.run_inv [OF assms(1,2)] by (simp add: register_inv_def)
  ultimately show ?thesis by (simp add: same_scope_def one_scope_def [abs_def])
qed

definition power_plan :: bcp_plan where
  "power_plan = new_bcp_plan ''0'' \<lparr>cbd_name = ''power'', cbd_siteId = Some ''s-1'', cbd_serviceName = None, cbd_recoveryStrategy = ''ups'',
     cbd_alternateSite = None, cbd_rtoMinutes = 60, cbd_rpoMinutes = 15, cbd_targetAvailabilityPercent = None, cbd_residualRisk = None,
     cbd_contacts = None, cbd_ownerId = None, cbd_lastTestedAt = None, cbd_nextTestDueAt = None\<rparr>"

definition bcp_world :: world where
  "bcp_world = empty_world\<lparr>uuid_next := 1, bcp_plans := [power_plan]\<rparr>"

theorem plan_scope_fixed_witness:
  "\<exists>q. find_by bp_id ''0'' (bcp_plans (snd (recordTest 5 ''0'' \<lparr>rbd_testedAt = None, rbd_nextTestDueAt = Some None, rbd_notes = None\<rparr>
     \<lparr>actorId = ''u'', correlationId = None\<rparr> bcp_world))) = Some q \<and> bp_siteId q = Some ''s-1''"
proof -
  let ?dto = "\<lparr>rbd_testedAt = None, rbd_nextTestDueAt = Some None, rbd_notes = None\<rparr>"
  have inv: "register_inv bcp_plans bp_id one_scope bcp_world"
    by (auto simp: register_inv_def keys_ok_def bcp_world_def power_plan_def new_bcp_plan_def empty_world_def one_scope_def
        issued_def nat_str_zero intro: injI nat_str_inj)
  have plan: "find_by bp_id ''0'' (bcp_plans bcp_world) = Some power_plan" and site: "bp_siteId power_plan = Some ''s-1''"
    by (simp_all add: bcp_world_def power_plan_def new_bcp_plan_def)
  have "bcp_step\<^sup>*\<^sup>* bcp_world (snd (recordTest 5 ''0'' ?dto \<lparr>actorId = ''u'', correlationId = None\<rparr> bcp_world))"
    by (rule r_into_rtranclp) (rule bs_test)
  from plan_scope_fixed [OF this inv plan] site show ?thesis by auto
qed

end
