(* ===== verification/Passwords.thy ===== *)
theory Passwords
  imports Access
begin

text \<open>
  Password hashing and the password policy (\<^verbatim>\<open>auth/password-hasher.ts\<close>): the self-describing
  encoding of a hash, its verification, and what a new password must satisfy. \<open>scrypt\<close> and the
  random generator belong to the platform and are parameters of the environment; base64, as
  \<open>Buffer\<close> encodes and decodes it, is defined here and shown to round-trip.
\<close>

section \<open>Base64\<close>

definition B64 :: string where
  "B64 = ''ABCDEFGHIJKLMNOPQRSTUVWXYZabcdefghijklmnopqrstuvwxyz0123456789+/''"

definition B64URL :: string where
  "B64URL = ''ABCDEFGHIJKLMNOPQRSTUVWXYZabcdefghijklmnopqrstuvwxyz0123456789-_''"

fun sextets :: "nat list \<Rightarrow> nat list" where
  "sextets [] = []"
| "sextets [a] = [a div 4, a mod 4 * 16]"
| "sextets [a, b] = [a div 4, a mod 4 * 16 + b div 16, b mod 16 * 4]"
| "sextets (a # b # c # rest) = [a div 4, a mod 4 * 16 + b div 16, b mod 16 * 4 + c div 64, c mod 64] @ sextets rest"

fun octets :: "nat list \<Rightarrow> nat list" where
  "octets (p # q # r # s # rest) = [p * 4 + q div 16, q mod 16 * 16 + r div 4, r mod 4 * 64 + s] @ octets rest"
| "octets [p, q, r] = [p * 4 + q div 16, q mod 16 * 16 + r div 4]"
| "octets [p, q] = [p * 4 + q div 16]"
| "octets _ = []"

definition toBase64 :: "nat list \<Rightarrow> string" where
  "toBase64 bs = map (nth B64) (sextets bs) @ replicate ((3 - length bs mod 3) mod 3) CHR ''=''"

definition toBase64Url :: "nat list \<Rightarrow> string" where
  "toBase64Url bs = map (nth B64URL) (sextets bs)"

text \<open>\<open>Buffer.from(s, "base64")\<close> reads both alphabets, skips other characters and stops at the padding.\<close>

definition b64_digit :: "char \<Rightarrow> nat option" where
  "b64_digit c = option_or (map_option fst (List.find (\<lambda>(i, d). d = c) (enumerate 0 B64)))
                          (map_option fst (List.find (\<lambda>(i, d). d = c) (enumerate 0 B64URL)))"

definition fromBase64 :: "string \<Rightarrow> nat list" where
  "fromBase64 s = octets (List.map_filter b64_digit (takeWhile (\<lambda>c. c \<noteq> CHR ''='') s))"

section \<open>Hashes\<close>

definition SCRYPT_N :: nat where "SCRYPT_N = 2 ^ 15"
definition SCRYPT_R :: nat where "SCRYPT_R = 8"
definition SCRYPT_P :: nat where "SCRYPT_P = 3"
definition KEY_LEN :: nat where "KEY_LEN = 64"
definition SALT_LEN :: nat where "SALT_LEN = 16"

definition randomBytes :: "nat \<Rightarrow> nat list op" where
  "randomBytes len = (\<lambda>w. (Inr (env_randomBytes (env w) (random_next w) len), w\<lparr>random_next := Suc (random_next w)\<rparr>))"

definition derive :: "string \<Rightarrow> nat list \<Rightarrow> nat \<Rightarrow> nat \<Rightarrow> nat \<Rightarrow> world \<Rightarrow> http_error + nat list" where
  "derive password salt n r p w =
     (case env_scrypt (env w) password salt n r p of None \<Rightarrow> Inl (Internal ''scrypt'') | Some key \<Rightarrow> Inr key)"

definition encode_hash :: "nat list \<Rightarrow> nat list \<Rightarrow> string" where
  "encode_hash salt key =
     join ''$'' [''scrypt'', nat_str SCRYPT_N, nat_str SCRYPT_R, nat_str SCRYPT_P, toBase64 salt, toBase64 key]"

definition hashPassword :: "string \<Rightarrow> string op" where
  "hashPassword password =
     bindM (randomBytes SALT_LEN) (\<lambda>salt.
     bindM (readM (derive password salt SCRYPT_N SCRYPT_R SCRYPT_P)) (\<lambda>key. ret (encode_hash salt key)))"

text \<open>
  \<open>Number(s)\<close> of a decimal numeral; other strings count as \<open>NaN\<close>, which is falsy like zero.
  (Stored hashes hold decimal numerals only.)
\<close>

definition to_number :: "string \<Rightarrow> nat" where
  "to_number s =
     (if s \<noteq> [] \<and> list_all (\<lambda>c. 48 \<le> (of_char c :: nat) \<and> of_char c \<le> (57 :: nat)) s
      then foldl (\<lambda>n c. n * 10 + (of_char c - 48)) 0 s else 0)"

text \<open>\<open>timingSafeEqual\<close> throws when the lengths differ.\<close>

definition timingSafeEqual :: "nat list \<Rightarrow> nat list \<Rightarrow> http_error + bool" where
  "timingSafeEqual a b = (if length a \<noteq> length b then Inl (Internal ''RangeError'') else Inr (a = b))"

definition verifyPassword :: "string \<Rightarrow> string \<Rightarrow> world \<Rightarrow> http_error + bool" where
  "verifyPassword password encoded w =
     (let parts = split_at CHR ''$'' encoded in
      if length parts \<noteq> 6 \<or> parts ! 0 \<noteq> ''scrypt'' then Inr False
      else let n = to_number (parts ! 1); r = to_number (parts ! 2); p = to_number (parts ! 3);
               salt = fromBase64 (parts ! 4); expected = fromBase64 (parts ! 5) in
           if n = 0 \<or> r = 0 \<or> p = 0 \<or> length expected \<noteq> KEY_LEN then Inr False
           else (case derive password salt n r p w of Inl e \<Rightarrow> Inl e | Inr actual \<Rightarrow> timingSafeEqual actual expected))"

text \<open>The hash of a random value, made once per process.\<close>

definition hex_digit :: "nat \<Rightarrow> char" where
  "hex_digit d = (if d < 10 then digit_char d else char_of (87 + d))"

definition toHex :: "nat list \<Rightarrow> string" where
  "toHex bs = concat (map (\<lambda>b. [hex_digit (b div 16), hex_digit (b mod 16)]) bs)"

definition dummyPasswordHash :: "string op" where
  "dummyPasswordHash =
     bindM (getM dummy_hash) (\<lambda>cached.
       case cached of
         Some h \<Rightarrow> ret h
       | None \<Rightarrow>
           bindM (randomBytes 16) (\<lambda>bytes.
           bindM (hashPassword (toHex bytes)) (\<lambda>h.
           bindM (modifyM (\<lambda>w. w\<lparr>dummy_hash := Some h\<rparr>)) (\<lambda>_. ret h))))"

section \<open>The policy\<close>

definition PASSWORD_MIN_LENGTH :: nat where "PASSWORD_MIN_LENGTH = 12"
definition PASSWORD_MAX_LENGTH :: nat where "PASSWORD_MAX_LENGTH = 128"

definition COMMON_PASSWORDS :: "string list" where
  "COMMON_PASSWORDS = [''password1234'', ''password12345'', ''password123456'', ''123456789012'', ''qwertyuiop12'', ''qwerty123456'',
     ''iloveyou1234'', ''welcome12345'', ''adminadmin12'', ''letmein12345'', ''changeme1234'', ''p@ssw0rd1234'']"

text \<open>\<open>/^(.)\1+$/\<close>: at least two characters, all the same, and not a line terminator.\<close>

definition single_repeated :: "string \<Rightarrow> bool" where
  "single_repeated s \<longleftrightarrow> 2 \<le> length s \<and> of_char (hd s) \<notin> {10, 13 :: nat} \<and> list_all (\<lambda>c. c = hd s) s"

definition passwordPolicyProblem :: "string \<Rightarrow> string \<Rightarrow> string option" where
  "passwordPolicyProblem password email =
     (if length password < PASSWORD_MIN_LENGTH then Some (''Use at least '' @ nat_str PASSWORD_MIN_LENGTH @ '' characters'')
      else if PASSWORD_MAX_LENGTH < length password then Some (''Use at most '' @ nat_str PASSWORD_MAX_LENGTH @ '' characters'')
      else let lower = toLowerCase password; localPart = toLowerCase (hd (split_at CHR ''@'' email)) in
        if 3 \<le> length localPart \<and> sublist localPart lower then Some ''Do not include your email name in your password''
        else if single_repeated password then Some ''Do not use a single repeated character''
        else if lower \<in> set COMMON_PASSWORDS then Some ''That password is too common''
        else None)"

section \<open>Round trips\<close>

lemma b64_digit_B64: "i < 64 \<Longrightarrow> b64_digit (B64 ! i) = Some i \<and> B64 ! i \<noteq> CHR ''='' \<and> B64 ! i \<noteq> CHR ''$''"
proof -
  have "list_all (\<lambda>i. b64_digit (B64 ! i) = Some i \<and> B64 ! i \<noteq> CHR ''='' \<and> B64 ! i \<noteq> CHR ''$'') [0..<64]"
    by code_simp
  then show "i < 64 \<Longrightarrow> ?thesis" by (simp add: list_all_iff)
qed

lemma b64_digit_B64URL: "i < 64 \<Longrightarrow> b64_digit (B64URL ! i) = Some i \<and> B64URL ! i \<noteq> CHR ''=''"
proof -
  have "list_all (\<lambda>i. b64_digit (B64URL ! i) = Some i \<and> B64URL ! i \<noteq> CHR ''='') [0..<64]"
    by code_simp
  then show "i < 64 \<Longrightarrow> ?thesis" by (simp add: list_all_iff)
qed

lemma sextets_lt: "list_all (\<lambda>b. b < 256) bs \<Longrightarrow> list_all (\<lambda>d. d < 64) (sextets bs)"
  by (induction bs rule: sextets.induct) (auto simp: less_mult_imp_div_less)

lemma octets_sextets: "list_all (\<lambda>b. b < 256) bs \<Longrightarrow> octets (sextets bs) = bs"
  by (induction bs rule: sextets.induct) auto

lemma map_filter_digits:
  "(\<And>i. i < 64 \<Longrightarrow> b64_digit (alphabet ! i) = Some i) \<Longrightarrow> list_all (\<lambda>d. d < 64) ds \<Longrightarrow>
   List.map_filter b64_digit (map (nth alphabet) ds) = ds"
  by (induction ds) (auto simp: List.map_filter_simps)

lemma takeWhile_digits:
  assumes "\<And>i. i < 64 \<Longrightarrow> alphabet ! i \<noteq> c" "list_all (\<lambda>d. d < 64) ds"
  shows "takeWhile (\<lambda>x. x \<noteq> c) (map (nth alphabet) ds @ replicate k c) = map (nth alphabet) ds"
proof -
  have "\<forall>x \<in> set (map (nth alphabet) ds). x \<noteq> c" using assms by (auto simp: list_all_iff)
  moreover have "takeWhile (\<lambda>x. x \<noteq> c) (replicate k c) = []" by (cases k) simp_all
  ultimately show ?thesis using takeWhile_append2 [of "map (nth alphabet) ds" "\<lambda>x. x \<noteq> c" "replicate k c"] by auto
qed

lemma fromBase64_digits:
  assumes "\<And>i. i < 64 \<Longrightarrow> b64_digit (alphabet ! i) = Some i \<and> alphabet ! i \<noteq> CHR ''=''" "list_all (\<lambda>b. b < 256) bs"
  shows "fromBase64 (map (nth alphabet) (sextets bs) @ replicate k CHR ''='') = bs"
  using assms sextets_lt [of bs] by (simp add: fromBase64_def takeWhile_digits map_filter_digits octets_sextets)

lemma fromBase64_toBase64: "list_all (\<lambda>b. b < 256) bs \<Longrightarrow> fromBase64 (toBase64 bs) = bs"
  unfolding toBase64_def by (rule fromBase64_digits) (use b64_digit_B64 in auto)

lemma fromBase64_toBase64Url: "list_all (\<lambda>b. b < 256) bs \<Longrightarrow> fromBase64 (toBase64Url bs) = bs"
  using fromBase64_digits [of B64URL bs 0] b64_digit_B64URL by (simp add: toBase64Url_def)

text \<open>Two draws with the same base64url text are the same bytes.\<close>

lemma toBase64Url_inj:
  "toBase64Url a = toBase64Url b \<Longrightarrow> list_all (\<lambda>x. x < 256) a \<Longrightarrow> list_all (\<lambda>x. x < 256) b \<Longrightarrow> a = b"
  using fromBase64_toBase64Url by metis

lemma toBase64_clean: "list_all (\<lambda>b. b < 256) bs \<Longrightarrow> CHR ''$'' \<notin> set (toBase64 bs)"
  using b64_digit_B64 sextets_lt [of bs] by (fastforce simp: toBase64_def list_all_iff)

text \<open>What the code relies on: \<open>randomBytes\<close> gives bytes, \<open>scrypt\<close> a key of 64 bytes for the parameters in use.\<close>

definition platform_ok :: "environment \<Rightarrow> bool" where
  "platform_ok e \<longleftrightarrow> (\<forall>n len. list_all (\<lambda>b. b < 256) (env_randomBytes e n len)) \<and>
     (\<forall>password salt. \<exists>key. env_scrypt e password salt SCRYPT_N SCRYPT_R SCRYPT_P = Some key \<and> length key = KEY_LEN \<and>
        list_all (\<lambda>b. b < 256) key)"

lemma digit_chars: "digit_char 2 = CHR ''2''" "digit_char 3 = CHR ''3''" "digit_char 6 = CHR ''6''" "digit_char 7 = CHR ''7''" "digit_char 8 = CHR ''8''"
  by code_simp+

lemma cost_strings: "nat_str SCRYPT_N = ''32768''" "nat_str SCRYPT_R = ''8''" "nat_str SCRYPT_P = ''3''"
  by (simp_all add: SCRYPT_N_def SCRYPT_R_def SCRYPT_P_def nat_str.simps digit_chars)

lemma cost_numbers: "to_number (nat_str SCRYPT_N) = SCRYPT_N" "to_number (nat_str SCRYPT_R) = SCRYPT_R" "to_number (nat_str SCRYPT_P) = SCRYPT_P"
  unfolding cost_strings by (simp_all add: to_number_def SCRYPT_N_def SCRYPT_R_def SCRYPT_P_def)

lemma cost_clean: "CHR ''$'' \<notin> set (nat_str SCRYPT_N)" "CHR ''$'' \<notin> set (nat_str SCRYPT_R)" "CHR ''$'' \<notin> set (nat_str SCRYPT_P)"
  unfolding cost_strings by simp_all

lemma encode_hash_parts:
  assumes "list_all (\<lambda>b. b < 256) salt" "list_all (\<lambda>b. b < 256) key"
  shows "split_at CHR ''$'' (encode_hash salt key) =
    [''scrypt'', nat_str SCRYPT_N, nat_str SCRYPT_R, nat_str SCRYPT_P, toBase64 salt, toBase64 key]"
  unfolding encode_hash_def by (rule split_at_join) (use assms toBase64_clean cost_clean in auto)

lemma verify_encoded:
  assumes "list_all (\<lambda>b. b < 256) salt" "list_all (\<lambda>b. b < 256) key" "length key = KEY_LEN"
    "env_scrypt (env w) q salt SCRYPT_N SCRYPT_R SCRYPT_P = Some k" "length k = KEY_LEN"
  shows "verifyPassword q (encode_hash salt key) w = Inr (k = key)"
  using assms
  by (simp add: verifyPassword_def encode_hash_parts cost_numbers fromBase64_toBase64 derive_def timingSafeEqual_def)
     (simp add: SCRYPT_N_def SCRYPT_R_def SCRYPT_P_def)

text \<open>
  C24: A stored hash accepts the password it was made from, whatever salt was drawn, and accepts
  another password only when scrypt gives both the same key under that salt.
\<close>

theorem hash_verifies:
  assumes "platform_ok (env w)" "hashPassword p w = (Inr h, w')" "env v = env w"
  shows "verifyPassword p h v = Inr True \<and>
    verifyPassword q h v = Inr (env_scrypt (env w) q (env_randomBytes (env w) (random_next w) SALT_LEN) SCRYPT_N SCRYPT_R SCRYPT_P =
           env_scrypt (env w) p (env_randomBytes (env w) (random_next w) SALT_LEN) SCRYPT_N SCRYPT_R SCRYPT_P)"
proof -
  let ?salt = "env_randomBytes (env w) (random_next w) SALT_LEN"
  obtain key where key: "env_scrypt (env w) p ?salt SCRYPT_N SCRYPT_R SCRYPT_P = Some key" "length key = KEY_LEN" "list_all (\<lambda>b. b < 256) key"
    using assms(1) unfolding platform_ok_def by blast
  obtain k where k: "env_scrypt (env w) q ?salt SCRYPT_N SCRYPT_R SCRYPT_P = Some k" "length k = KEY_LEN"
    using assms(1) unfolding platform_ok_def by blast
  have h: "h = encode_hash ?salt key"
    using assms(2) key(1) by (simp add: hashPassword_def bindM_def randomBytes_def derive_def)
  have salt: "list_all (\<lambda>b. b < 256) ?salt" using assms(1) by (simp add: platform_ok_def)
  have "verifyPassword p h v = Inr True" unfolding h using verify_encoded [OF salt key(3,2)] key assms(3) by simp
  moreover have "verifyPassword q h v = Inr (k = key)" unfolding h using verify_encoded [OF salt key(3,2), of v q k] k assms(3) by simp
  ultimately show ?thesis using k(1) key(1) by simp
qed

text \<open>The example environment satisfies the platform hypotheses.\<close>

lemma empty_platform: "platform_ok (env empty_world)"
  by (auto simp: platform_ok_def empty_world_def toy_scrypt_def KEY_LEN_def list_all_iff dest!: in_set_takeD)

theorem hash_verifies_witness:
  "\<exists>h w'. hashPassword ''correct horse'' empty_world = (Inr h, w') \<and> verifyPassword ''correct horse'' h empty_world = Inr True"
proof -
  obtain h w' where run: "hashPassword ''correct horse'' empty_world = (Inr h, w')"
    by (simp add: hashPassword_def bindM_def randomBytes_def derive_def empty_world_def toy_scrypt_def)
  from run hash_verifies [OF empty_platform run refl] show ?thesis by blast
qed

text \<open>What a password that passes the policy satisfies.\<close>

lemma policy_sound:
  assumes "passwordPolicyProblem p email = None"
  shows "12 \<le> length p" "length p \<le> 128" "toLowerCase p \<notin> set COMMON_PASSWORDS"
    "3 \<le> length (hd (split_at CHR ''@'' email)) \<Longrightarrow> \<not> sublist (toLowerCase (hd (split_at CHR ''@'' email))) (toLowerCase p)"
  using assms
  by (auto simp: passwordPolicyProblem_def PASSWORD_MIN_LENGTH_def PASSWORD_MAX_LENGTH_def Let_def toLowerCase_def split: if_splits)

end
