(* ===== verification/Sign_In.thy ===== *)
theory Sign_In
  imports Passwords Inbox Registers
begin

text \<open>
  Every way into the system (\<^verbatim>\<open>auth/\<close>): password sign-in with its lockout, the single-use
  set-password links, the session a sign-in ends in and its check on every request, API tokens of
  machine accounts, and social sign-in with its linking rules and handoff codes.
\<close>

section \<open>Password sign-in\<close>

definition MAX_FAILED_LOGINS :: int where "MAX_FAILED_LOGINS = 5"
definition LOCKOUT_MS :: int where "LOCKOUT_MS = 15 * 60000"

definition TOKEN_TTL_MS :: "string \<Rightarrow> int" where
  "TOKEN_TTL_MS purpose = (if purpose = ''INVITE'' then 72 * 3600000 else 3600000)"

definition INVALID_CREDENTIALS :: string where
  "INVALID_CREDENTIALS = ''Invalid email or password''"

definition find_email :: "string \<Rightarrow> world \<Rightarrow> user option" where
  "find_email email w = List.find (\<lambda>u. iequals (u_email u) email) (users w)"

text \<open>\<open>user.update\<close>: the row must exist, and Prisma stamps \<open>updatedAt\<close>.\<close>

definition update_user :: "instant \<Rightarrow> uuid \<Rightarrow> (user \<Rightarrow> user) \<Rightarrow> user op" where
  "update_user now i f = (\<lambda>w.
     case find_by u_id i (users w) of
       None \<Rightarrow> (Inl (PrismaKnown ''P2025''), w)
     | Some u \<Rightarrow> (Inr ((f u)\<lparr>u_updatedAt := now\<rparr>), w\<lparr>users := update_by u_id i (\<lambda>v. (f v)\<lparr>u_updatedAt := now\<rparr>) (users w)\<rparr>))"

definition locked :: "instant \<Rightarrow> user \<Rightarrow> bool" where
  "locked now u = (case u_lockedUntil u of None \<Rightarrow> False | Some t \<Rightarrow> now < t)"

definition login_unknown :: "string \<Rightarrow> user op" where
  "login_unknown password =
     bindM dummyPasswordHash (\<lambda>h.
     bindM (readM (verifyPassword password h)) (\<lambda>_. throw (Unauthorized INVALID_CREDENTIALS)))"

definition count_failure :: "instant \<Rightarrow> int \<Rightarrow> user \<Rightarrow> user" where
  "count_failure now failed u =
     (if MAX_FAILED_LOGINS \<le> failed then u\<lparr>u_failedLoginCount := 0, u_lockedUntil := Some (now + LOCKOUT_MS)\<rparr>
      else u\<lparr>u_failedLoginCount := failed\<rparr>)"

definition login_wrong :: "instant \<Rightarrow> user \<Rightarrow> string option \<Rightarrow> user op" where
  "login_wrong now u corr =
     (let failed = u_failedLoginCount u + 1 in
      bindM (update_user now (u_id u) (count_failure now failed)) (\<lambda>_.
      bindM (auditRecord now None ''USER'' (u_id u) (if MAX_FAILED_LOGINS \<le> failed then ''USER_LOCKED_OUT'' else ''USER_LOGIN_FAILED'')
               None (Some (SnapFailedLogin ''wrong_password'' failed)) corr) (\<lambda>_.
      throw (Unauthorized INVALID_CREDENTIALS))))"

definition clear_failures :: "user \<Rightarrow> user" where
  "clear_failures u = u\<lparr>u_failedLoginCount := 0, u_lockedUntil := None\<rparr>"

definition login_known :: "instant \<Rightarrow> user \<Rightarrow> string \<Rightarrow> string option \<Rightarrow> user op" where
  "login_known now u password corr =
     (if locked now u
      then bindM (auditRecord now None ''USER'' (u_id u) ''USER_LOGIN_FAILED'' None (Some (SnapReason ''locked'')) corr) (\<lambda>_.
           throw (Unauthorized ''Too many failed attempts. Try again in 15 minutes, or reset your password.''))
      else
        bindM (readM (verifyPassword password (the (u_passwordHash u)))) (\<lambda>ok.
        if \<not> ok then login_wrong now u corr
        else if \<not> u_isActive u
        then throw (Unauthorized ''This account is deactivated. Contact an OpsDesk administrator.'')
        else
          bindM (if 0 < u_failedLoginCount u \<or> u_lockedUntil u \<noteq> None
                 then bindM (update_user now (u_id u) clear_failures) (\<lambda>_. ret ()) else ret ()) (\<lambda>_.
          bindM (auditRecord now (Some (u_id u)) ''USER'' (u_id u) ''USER_PASSWORD_LOGIN'' None None corr) (\<lambda>_. ret u))))"

definition login :: "instant \<Rightarrow> string \<Rightarrow> string \<Rightarrow> string option \<Rightarrow> user op" where
  "login now email password corr =
     bindM (getM (find_email email)) (\<lambda>found.
       case found of
         None \<Rightarrow> login_unknown password
       | Some u \<Rightarrow> if \<not> truthy (u_passwordHash u) then login_unknown password else login_known now u password corr)"

section \<open>Set-password links\<close>

record sign_in_link =
  sl_link :: string
  sl_expiresAt :: instant
  sl_purpose :: string
  sl_emailQueued :: bool

text \<open>\<open>AccountMailPublisher.send\<close>: whether the mail was handed to the queue.\<close>

definition sendAccountMail :: "account_email \<Rightarrow> bool op" where
  "sendAccountMail mail = (\<lambda>w.
     if env_redis (env w) then (Inr True, w\<lparr>account_mails := account_mails w @ [mail]\<rparr>) else (Inr False, w))"

definition expire_links :: "instant \<Rightarrow> uuid \<Rightarrow> unit op" where
  "expire_links now userId = modifyM (\<lambda>w. w\<lparr>password_tokens :=
     map (\<lambda>t. if pt_userId t = userId \<and> pt_usedAt t = None then t\<lparr>pt_usedAt := Some now\<rparr> else t) (password_tokens w)\<rparr>)"

definition insert_password_token :: "(uuid \<Rightarrow> password_token) \<Rightarrow> unit op" where
  "insert_password_token mk = (\<lambda>w.
     let t = mk (env_uuid (env w) (uuid_next w)); w1 = w\<lparr>uuid_next := Suc (uuid_next w)\<rparr> in
     if pt_tokenHash t \<in> pt_tokenHash ` set (password_tokens w) then (Inl (PrismaKnown ''P2002''), w1)
     else (Inr (), w1\<lparr>password_tokens := password_tokens w @ [t]\<rparr>))"

definition user_or_throw :: "uuid \<Rightarrow> world \<Rightarrow> http_error + user" where
  "user_or_throw i w = (case find_by u_id i (users w) of None \<Rightarrow> Inl (PrismaKnown ''P2025'') | Some u \<Rightarrow> Inr u)"

definition link_purpose :: "user \<Rightarrow> string" where
  "link_purpose u = (if truthy (u_passwordHash u) then ''RESET'' else ''INVITE'')"

definition sendSignInLink :: "instant \<Rightarrow> uuid \<Rightarrow> uuid option \<Rightarrow> string option \<Rightarrow> sign_in_link op" where
  "sendSignInLink now userId actor corr =
     bindM (readM (user_or_throw userId)) (\<lambda>u.
     bindM (randomBytes 32) (\<lambda>bytes.
     let purpose = link_purpose u; token = toBase64Url bytes; expiresAt = now + TOKEN_TTL_MS purpose in
     bindM (transaction
       (bindM (expire_links now userId) (\<lambda>_.
        bindM (getM (\<lambda>w. env_sha256 (env w) token)) (\<lambda>hash.
        bindM (insert_password_token (\<lambda>i. \<lparr>pt_id = i, pt_userId = userId, pt_tokenHash = hash, pt_purpose = purpose,
                 pt_expiresAt = expiresAt, pt_usedAt = None, pt_createdById = actor, pt_createdAt = now\<rparr>)) (\<lambda>_.
        auditRecord now actor ''USER'' userId (if purpose = ''INVITE'' then ''USER_INVITE_SENT'' else ''USER_PASSWORD_RESET_SENT'')
          None (Some (SnapLink expiresAt (actor = None))) corr))))) (\<lambda>_.
     bindM (getM (\<lambda>w. (env_webAppUrl (env w) @ ''/auth/set-password#token='' @ token,
                       case actor of None \<Rightarrow> None | Some a \<Rightarrow> find_by u_id a (users w)))) (\<lambda>(link, inviter).
     bindM (sendAccountMail \<lparr>am_kind = (if purpose = ''INVITE'' then ''ACCOUNT_INVITE'' else ''PASSWORD_RESET''), am_to = party_of u,
              am_link = link, am_expiresAt = expiresAt,
              am_invitedBy = (if purpose = ''INVITE'' then map_option party_of inviter else None)\<rparr>) (\<lambda>queued.
     ret \<lparr>sl_link = link, sl_expiresAt = expiresAt, sl_purpose = purpose, sl_emailQueued = queued\<rparr>)))))"

definition requestReset :: "instant \<Rightarrow> string \<Rightarrow> string option \<Rightarrow> unit op" where
  "requestReset now email corr =
     bindM (getM (\<lambda>w. List.find (\<lambda>u. iequals (u_email u) email \<and> u_isActive u) (users w))) (\<lambda>found.
       case found of
         None \<Rightarrow> ret ()
       | Some u \<Rightarrow> bindM (sendSignInLink now (u_id u) None corr) (\<lambda>_. ret ()))"

definition LINK_DEAD :: string where
  "LINK_DEAD = ''This link has expired or was already used.''"

definition findUsableToken :: "instant \<Rightarrow> string \<Rightarrow> world \<Rightarrow> http_error + password_token \<times> user" where
  "findUsableToken now token w =
     (case find_by pt_tokenHash (env_sha256 (env w) token) (password_tokens w) of
        None \<Rightarrow> Inl (BadRequest LINK_DEAD)
      | Some row \<Rightarrow>
          if pt_usedAt row \<noteq> None \<or> pt_expiresAt row \<le> now then Inl (BadRequest LINK_DEAD)
          else (case find_by u_id (pt_userId row) (users w) of
                  None \<Rightarrow> Inl (Internal ''Inconsistent query result'')
                | Some u \<Rightarrow> Inr (row, u)))"

definition inspectToken :: "instant \<Rightarrow> string \<Rightarrow> world \<Rightarrow> http_error + string \<times> string \<times> string" where
  "inspectToken now token w =
     (case findUsableToken now token w of Inl e \<Rightarrow> Inl e | Inr (row, u) \<Rightarrow> Inr (u_email u, u_displayName u, pt_purpose row))"

definition consume_link :: "instant \<Rightarrow> uuid \<Rightarrow> nat op" where
  "consume_link now i = (\<lambda>w.
     let hit = (\<lambda>t. pt_id t = i \<and> pt_usedAt t = None \<and> now < pt_expiresAt t) in
     (Inr (length (filter hit (password_tokens w))),
      w\<lparr>password_tokens := map (\<lambda>t. if hit t then t\<lparr>pt_usedAt := Some now\<rparr> else t) (password_tokens w)\<rparr>))"

definition new_password :: "instant \<Rightarrow> string \<Rightarrow> user \<Rightarrow> user" where
  "new_password now hash u = u\<lparr>u_passwordHash := Some hash, u_passwordSetAt := Some now, u_failedLoginCount := 0,
     u_lockedUntil := None, u_sessionVersion := u_sessionVersion u + 1\<rparr>"

definition setPassword :: "instant \<Rightarrow> string \<Rightarrow> string \<Rightarrow> string option \<Rightarrow> user op" where
  "setPassword now token password corr =
     bindM (readM (findUsableToken now token)) (\<lambda>(row, owner).
       case passwordPolicyProblem password (u_email owner) of
         Some problem \<Rightarrow> throw (BadRequest problem)
       | None \<Rightarrow>
           bindM (guardM (u_isActive owner) (BadRequest ''This account is deactivated. Contact an OpsDesk administrator.'')) (\<lambda>_.
           bindM (hashPassword password) (\<lambda>hash.
           transaction
             (bindM (consume_link now (pt_id row)) (\<lambda>count.
              bindM (guardM (count = 1) (BadRequest LINK_DEAD)) (\<lambda>_.
              bindM (update_user now (pt_userId row) (new_password now hash)) (\<lambda>user.
              bindM (auditRecord now (Some (u_id user)) ''USER'' (u_id user) ''USER_PASSWORD_SET'' None (Some (SnapReason (pt_purpose row))) corr) (\<lambda>_.
              ret user))))))))"

section \<open>Sessions\<close>

record jwt_payload =
  jp_sub :: "string option"
  jp_email :: string
  jp_role :: user_role
  jp_sv :: "int option"

text \<open>Signing and the twelve hours of validity belong to the JWT library; this is what is signed.\<close>

definition issueToken :: "user \<Rightarrow> jwt_payload" where
  "issueToken u = \<lparr>jp_sub = Some (u_id u), jp_email = u_email u, jp_role = u_role u, jp_sv = Some (u_sessionVersion u)\<rparr>"

definition auth_user_of :: "user \<Rightarrow> auth_user" where
  "auth_user_of u = \<lparr>au_id = u_id u, au_email = u_email u, au_role = u_role u\<rparr>"

definition validate :: "jwt_payload \<Rightarrow> world \<Rightarrow> http_error + auth_user" where
  "validate payload w =
     (if \<not> truthy (jp_sub payload) then Inl (Unauthorized ''Not an access token'')
      else (case find_by u_id (the (jp_sub payload)) (users w) of
              None \<Rightarrow> Inl (Unauthorized ''User is inactive or no longer exists'')
            | Some u \<Rightarrow>
                if \<not> u_isActive u then Inl (Unauthorized ''User is inactive or no longer exists'')
                else if jp_sv payload \<noteq> Some (u_sessionVersion u) then Inl (Unauthorized ''Session has been signed out'')
                else Inr (auth_user_of u)))"

section \<open>API tokens\<close>

definition API_TOKEN_PREFIX :: string where "API_TOKEN_PREFIX = ''odk_''"
definition DISPLAY_PREFIX_LEN :: nat where "DISPLAY_PREFIX_LEN = 12"
definition LAST_USED_WRITE_INTERVAL_MS :: int where "LAST_USED_WRITE_INTERVAL_MS = 5 * 60000"

record api_token_view =
  av_id :: uuid
  av_name :: string
  av_prefix :: string
  av_createdAt :: instant
  av_expiresAt :: "instant option"
  av_lastUsedAt :: "instant option"
  av_revokedAt :: "instant option"

definition pick :: "api_token \<Rightarrow> api_token_view" where
  "pick t = \<lparr>av_id = tk_id t, av_name = tk_name t, av_prefix = tk_prefix t, av_createdAt = tk_createdAt t, av_expiresAt = tk_expiresAt t,
     av_lastUsedAt = tk_lastUsedAt t, av_revokedAt = tk_revokedAt t\<rparr>"

definition assertUser :: "uuid \<Rightarrow> world \<Rightarrow> http_error + unit" where
  "assertUser i w = (if i \<in> u_id ` set (users w) then Inr () else Inl (NotFound (''User '' @ i @ '' not found'')))"

definition apiTokenList :: "uuid \<Rightarrow> world \<Rightarrow> http_error + api_token_view list" where
  "apiTokenList userId w =
     (case assertUser userId w of
        Inl e \<Rightarrow> Inl e
      | Inr _ \<Rightarrow> Inr (map pick (sort_key (\<lambda>t. - tk_createdAt t) (filter (\<lambda>t. tk_userId t = userId) (api_tokens w)))))"

definition insert_api_token :: "(uuid \<Rightarrow> api_token) \<Rightarrow> api_token op" where
  "insert_api_token mk = (\<lambda>w.
     let t = mk (env_uuid (env w) (uuid_next w)); w1 = w\<lparr>uuid_next := Suc (uuid_next w)\<rparr> in
     if tk_tokenHash t \<in> tk_tokenHash ` set (api_tokens w) then (Inl (PrismaKnown ''P2002''), w1)
     else (Inr t, w1\<lparr>api_tokens := api_tokens w @ [t]\<rparr>))"

definition token_expiry :: "instant \<Rightarrow> int option \<Rightarrow> instant option" where
  "token_expiry now days = (case days of None \<Rightarrow> None | Some d \<Rightarrow> if d = 0 then None else Some (now + d * 24 * 3600000))"

definition apiTokenCreate :: "instant \<Rightarrow> uuid \<Rightarrow> string \<Rightarrow> int option \<Rightarrow> actor_context \<Rightarrow> (api_token_view \<times> string) op" where
  "apiTokenCreate now userId name expiresInDays actor =
     bindM (readM (assertUser userId)) (\<lambda>_.
     bindM (randomBytes 32) (\<lambda>bytes.
     let token = API_TOKEN_PREFIX @ toBase64Url bytes; expiresAt = token_expiry now expiresInDays in
     bindM (transaction
       (bindM (getM (\<lambda>w. env_sha256 (env w) token)) (\<lambda>hash.
        bindM (insert_api_token (\<lambda>i. \<lparr>tk_id = i, tk_userId = userId, tk_name = name, tk_tokenHash = hash,
                 tk_prefix = take DISPLAY_PREFIX_LEN token, tk_expiresAt = expiresAt, tk_lastUsedAt = None, tk_revokedAt = None,
                 tk_createdById = actorId actor, tk_createdAt = now\<rparr>)) (\<lambda>row.
        bindM (auditRecord now (Some (actorId actor)) ''USER'' userId ''API_TOKEN_CREATED'' None
                 (Some (SnapApiToken (tk_id row) name (tk_prefix row) expiresAt)) (correlationId actor)) (\<lambda>_. ret (pick row))))))
       (\<lambda>view. ret (view, token))))"

definition revoke_token :: "instant \<Rightarrow> api_token \<Rightarrow> api_token" where
  "revoke_token now t = t\<lparr>tk_revokedAt := Some now\<rparr>"

definition apiTokenRevoke :: "instant \<Rightarrow> uuid \<Rightarrow> uuid \<Rightarrow> actor_context \<Rightarrow> api_token_view op" where
  "apiTokenRevoke now userId tokenId actor =
     bindM (readM (\<lambda>w. case List.find (\<lambda>t. tk_id t = tokenId \<and> tk_userId t = userId) (api_tokens w) of
                         None \<Rightarrow> Inl (NotFound (''API token '' @ tokenId @ '' not found'')) | Some t \<Rightarrow> Inr t)) (\<lambda>row.
     if tk_revokedAt row \<noteq> None then ret (pick row)
     else transaction
       (bindM (modifyM (\<lambda>w. w\<lparr>api_tokens := update_by tk_id tokenId (revoke_token now) (api_tokens w)\<rparr>)) (\<lambda>_.
        bindM (auditRecord now (Some (actorId actor)) ''USER'' userId ''API_TOKEN_REVOKED'' None
                 (Some (SnapApiToken tokenId (tk_name row) (tk_prefix row) None)) (correlationId actor)) (\<lambda>_.
        ret (pick (revoke_token now row))))))"

definition token_refused :: "instant \<Rightarrow> api_token \<Rightarrow> bool" where
  "token_refused now t \<longleftrightarrow> tk_revokedAt t \<noteq> None \<or> (case tk_expiresAt t of None \<Rightarrow> False | Some e \<Rightarrow> e \<le> now)"

definition touch_token :: "instant \<Rightarrow> api_token \<Rightarrow> unit op" where
  "touch_token now t =
     (if (case tk_lastUsedAt t of None \<Rightarrow> True | Some l \<Rightarrow> LAST_USED_WRITE_INTERVAL_MS < now - l)
      then modifyM (\<lambda>w. w\<lparr>api_tokens := update_by tk_id (tk_id t) (\<lambda>r. r\<lparr>tk_lastUsedAt := Some now\<rparr>) (api_tokens w)\<rparr>) else ret ())"

definition authenticate :: "instant \<Rightarrow> string \<Rightarrow> auth_user option op" where
  "authenticate now token =
     (if take (length API_TOKEN_PREFIX) token \<noteq> API_TOKEN_PREFIX then ret None
      else bindM (getM (\<lambda>w. case find_by tk_tokenHash (env_sha256 (env w) token) (api_tokens w) of
                              None \<Rightarrow> None
                            | Some t \<Rightarrow> (case find_by u_id (tk_userId t) (users w) of None \<Rightarrow> None | Some u \<Rightarrow> Some (t, u)))) (\<lambda>found.
        case found of
          None \<Rightarrow> ret None
        | Some (t, u) \<Rightarrow>
            if token_refused now t \<or> \<not> u_isActive u then ret None
            else bindM (touch_token now t) (\<lambda>_. ret (Some (auth_user_of u)))))"

text \<open>
  The guard of every protected route: an \<open>Authorization\<close> header of the form \<open>Bearer odk_...\<close> (in
  any case) is tried as an API token first, then the header goes to the JWT library, which checks
  signature and expiry and hands over the payload.
\<close>

definition bearer_api_token :: "string \<Rightarrow> string option" where
  "bearer_api_token header =
     (let rest = drop 6 header; token = dropWhile is_space rest in
      if toLowerCase (take 6 header) = ''bearer'' \<and> rest \<noteq> token \<and> toLowerCase (take 4 token) = API_TOKEN_PREFIX \<and>
         4 < length token \<and> list_all (\<lambda>c. \<not> is_space c) token
      then Some token else None)"

definition jwtAuthGuard :: "instant \<Rightarrow> (string \<Rightarrow> jwt_payload option) \<Rightarrow> string \<Rightarrow> auth_user op" where
  "jwtAuthGuard now jwt header =
     bindM (case bearer_api_token header of None \<Rightarrow> ret None | Some t \<Rightarrow> authenticate now t) (\<lambda>machine.
       case machine of
         Some u \<Rightarrow> ret u
       | None \<Rightarrow>
           (case jwt header of None \<Rightarrow> throw (Unauthorized ''Unauthorized'') | Some payload \<Rightarrow> readM (validate payload)))"

section \<open>Social sign-in\<close>

record social_identity =
  so_provider :: string
  so_issuer :: string
  so_subject :: string
  so_email :: "string option"
  so_emailVerified :: "bool option"

definition HANDOFF_TTL_MS :: int where "HANDOFF_TTL_MS = 60000"

fun reason_str :: "social_reject_reason \<Rightarrow> string" where
  "reason_str Not_provisioned = ''not_provisioned''"
| "reason_str Inactive = ''inactive''"
| "reason_str Email_missing = ''email_missing''"
| "reason_str Email_unverified = ''email_unverified''"
| "reason_str Identity_mismatch = ''identity_mismatch''"

definition find_identity :: "social_identity \<Rightarrow> world \<Rightarrow> user_identity option" where
  "find_identity s w = List.find (\<lambda>i. ui_issuer i = so_issuer s \<and> ui_subject i = so_subject s) (identities w)"

definition insert_identity :: "(uuid \<Rightarrow> user_identity) \<Rightarrow> unit op" where
  "insert_identity mk = (\<lambda>w.
     let r = mk (env_uuid (env w) (uuid_next w)); w1 = w\<lparr>uuid_next := Suc (uuid_next w)\<rparr> in
     if (\<exists>i \<in> set (identities w). (ui_issuer i = ui_issuer r \<and> ui_subject i = ui_subject r) \<or>
           (ui_userId i = ui_userId r \<and> ui_provider i = ui_provider r))
     then (Inl (PrismaKnown ''P2002''), w1)
     else (Inr (), w1\<lparr>identities := identities w @ [r]\<rparr>))"

definition link_checks :: "social_identity \<Rightarrow> world \<Rightarrow> http_error + user" where
  "link_checks s w =
     (if \<not> truthy (so_email s)
      then Inl (SocialLoginRejected Email_missing (so_provider s @ '' sent no email for '' @ so_subject s))
      else if so_emailVerified s = Some False
      then Inl (SocialLoginRejected Email_unverified (the (so_email s) @ '' is not verified''))
      else (case find_email (the (so_email s)) w of
              None \<Rightarrow> Inl (SocialLoginRejected Not_provisioned (''no user for '' @ the (so_email s)))
            | Some u \<Rightarrow>
                if \<exists>i \<in> set (identities w). ui_userId i = u_id u \<and> ui_provider i = so_provider s
                then Inl (SocialLoginRejected Identity_mismatch
                       (the (so_email s) @ '' already has a different '' @ so_provider s @ '' account linked''))
                else Inr u))"

definition matchOrLink :: "instant \<Rightarrow> social_identity \<Rightarrow> string option \<Rightarrow> user op" where
  "matchOrLink now s corr =
     bindM (getM (find_identity s)) (\<lambda>linked.
       case linked of
         Some i \<Rightarrow> readM (user_or_throw (ui_userId i))
       | None \<Rightarrow>
           bindM (readM (link_checks s)) (\<lambda>u.
           transaction
             (bindM (insert_identity (\<lambda>i. \<lparr>ui_id = i, ui_userId = u_id u, ui_provider = so_provider s, ui_issuer = so_issuer s,
                       ui_subject = so_subject s, ui_email = so_email s, ui_createdAt = now, ui_lastLoginAt = None\<rparr>)) (\<lambda>_.
              bindM (auditRecord now (Some (u_id u)) ''USER'' (u_id u) ''USER_IDENTITY_LINKED'' None
                       (Some (SnapIdentity (so_provider s) (so_issuer s) (so_subject s))) corr) (\<lambda>_.
              readM (user_or_throw (u_id u)))))))"

definition touch_identity :: "instant \<Rightarrow> social_identity \<Rightarrow> unit op" where
  "touch_identity now s = modifyM (\<lambda>w. w\<lparr>identities :=
     map (\<lambda>i. if ui_issuer i = so_issuer s \<and> ui_subject i = so_subject s then i\<lparr>ui_lastLoginAt := Some now, ui_email := so_email s\<rparr> else i)
       (identities w)\<rparr>)"

definition resolveUser :: "instant \<Rightarrow> social_identity \<Rightarrow> string option \<Rightarrow> user op" where
  "resolveUser now s corr =
     catchM
       (bindM (matchOrLink now s corr) (\<lambda>u.
        bindM (guardM (u_isActive u) (SocialLoginRejected Inactive (''user '' @ u_id u @ '' is inactive''))) (\<lambda>_.
        bindM (touch_identity now s) (\<lambda>_.
        bindM (auditRecord now (Some (u_id u)) ''USER'' (u_id u) ''USER_SOCIAL_LOGIN'' None (Some (SnapReason (so_provider s))) corr) (\<lambda>_.
        ret u)))))
       (\<lambda>e. case e of
          SocialLoginRejected reason detail \<Rightarrow>
            bindM (auditRecord now None ''USER'' (option_default (so_provider s @ '':'' @ so_subject s) (so_email s)) ''USER_SOCIAL_LOGIN_REJECTED''
                     None (Some (SnapSocialRejected (reason_str reason) (so_provider s) (so_subject s))) corr) (\<lambda>_. throw e)
        | _ \<Rightarrow> throw e)"

definition createHandoffCode :: "instant \<Rightarrow> uuid \<Rightarrow> string op" where
  "createHandoffCode now userId =
     bindM (randomBytes 32) (\<lambda>bytes.
     let code = toBase64Url bytes in
     bindM (transaction (\<lambda>w.
       let kept = filter (\<lambda>c. now - 60 * 60000 \<le> hc_expiresAt c) (handoff_codes w);
           c = \<lparr>hc_id = env_uuid (env w) (uuid_next w), hc_codeHash = env_sha256 (env w) code, hc_userId = userId,
                hc_expiresAt = now + HANDOFF_TTL_MS, hc_consumedAt = None, hc_createdAt = now\<rparr>;
           w1 = w\<lparr>uuid_next := Suc (uuid_next w)\<rparr> in
       if userId \<notin> u_id ` set (users w) then (Inl (PrismaKnown ''P2003''), w1)
       else if hc_codeHash c \<in> hc_codeHash ` set kept then (Inl (PrismaKnown ''P2002''), w1)
       else (Inr (), w1\<lparr>handoff_codes := kept @ [c]\<rparr>))) (\<lambda>_. ret code))"

definition consume_code :: "instant \<Rightarrow> string \<Rightarrow> nat op" where
  "consume_code now hash = (\<lambda>w.
     let hit = (\<lambda>c. hc_codeHash c = hash \<and> hc_consumedAt c = None \<and> now < hc_expiresAt c) in
     (Inr (length (filter hit (handoff_codes w))),
      w\<lparr>handoff_codes := map (\<lambda>c. if hit c then c\<lparr>hc_consumedAt := Some now\<rparr> else c) (handoff_codes w)\<rparr>))"

definition CODE_DEAD :: string where
  "CODE_DEAD = ''Sign-in code is invalid or expired''"

definition redeemHandoffCode :: "instant \<Rightarrow> string \<Rightarrow> user op" where
  "redeemHandoffCode now code =
     bindM (getM (\<lambda>w. env_sha256 (env w) code)) (\<lambda>hash.
     bindM (consume_code now hash) (\<lambda>count.
     bindM (guardM (count = 1) (Unauthorized CODE_DEAD)) (\<lambda>_.
     readM (\<lambda>w. case find_by hc_codeHash hash (handoff_codes w) of
                  None \<Rightarrow> Inl (Unauthorized CODE_DEAD)
                | Some c \<Rightarrow> (case find_by u_id (hc_userId c) (users w) of
                              None \<Rightarrow> Inl (Unauthorized CODE_DEAD)
                            | Some u \<Rightarrow> if u_isActive u then Inr u else Inl (Unauthorized CODE_DEAD))))))"

end
