(* ===== verification/User_Admin.thy ===== *)
theory User_Admin
  imports Sign_In Skills Incidents "HOL-Library.List_Lexorder" "HOL-Library.Char_ord"
begin

text \<open>
  User administration (\<^verbatim>\<open>auth/user-admin.service.ts\<close>) and the user pickers
  (\<^verbatim>\<open>auth/users.service.ts\<close>). Users are deactivated, never deleted; the modules that hold data of
  a user (tickets, shifts, skills) can veto a change.
\<close>

section \<open>Rows and views\<close>

text \<open>A row as \<open>USER_SELECT\<close> loads it: the user with its site grants and linked providers.\<close>

record user_row =
  ur_user :: user
  ur_siteIds :: "uuid list"
  ur_providers :: "string list"

record admin_user_view =
  uv_id :: uuid
  uv_email :: string
  uv_displayName :: string
  uv_role :: user_role
  uv_isActive :: bool
  uv_hasPassword :: bool
  uv_socialProviders :: "string list"
  uv_lockedUntil :: "instant option"
  uv_allSites :: bool
  uv_siteIds :: "uuid list"
  uv_createdAt :: instant
  uv_updatedAt :: instant

definition granted :: "uuid \<Rightarrow> world \<Rightarrow> uuid list" where
  "granted i w = map sa_siteId (filter (\<lambda>a. sa_userId a = i) (site_accesses w))"

definition user_select :: "world \<Rightarrow> user \<Rightarrow> user_row" where
  "user_select w u = \<lparr>ur_user = u, ur_siteIds = granted (u_id u) w,
     ur_providers = sort_key (env_collation (env w)) (map ui_provider (filter (\<lambda>i. ui_userId i = u_id u) (identities w)))\<rparr>"

definition toView :: "instant \<Rightarrow> user_row \<Rightarrow> admin_user_view" where
  "toView now r = (let u = ur_user r in
     \<lparr>uv_id = u_id u, uv_email = u_email u, uv_displayName = u_displayName u, uv_role = u_role u, uv_isActive = u_isActive u,
      uv_hasPassword = (u_passwordSetAt u \<noteq> None), uv_socialProviders = ur_providers r,
      uv_lockedUntil = (if locked now u then u_lockedUntil u else None), uv_allSites = isAllSitesRole (u_role u),
      uv_siteIds = sort (ur_siteIds r), uv_createdAt = u_createdAt u, uv_updatedAt = u_updatedAt u\<rparr>)"

definition auditShape :: "user_row \<Rightarrow> snapshot" where
  "auditShape r = (let u = ur_user r in SnapUser (u_email u) (u_displayName u) (u_role u) (u_isActive u) (sort (ur_siteIds r)))"

section \<open>Requests\<close>

definition normalizeEmail :: "string \<Rightarrow> string" where
  "normalizeEmail s = toLowerCase (trim s)"

record create_user_dto =
  cu_email :: string
  cu_displayName :: string
  cu_role :: user_role
  cu_siteIds :: "uuid list option"

record update_user_dto =
  uu_email :: "string option"
  uu_displayName :: "string option"
  uu_role :: "user_role option"

record list_admin_users_query =
  lu_q :: "string option"
  lu_role :: "user_role option"
  lu_status :: "string option"

record list_users_query =
  pq_role :: "user_role option"
  pq_siteId :: "uuid option"
  pq_q :: "string option"
  pq_limit :: nat

section \<open>Reads\<close>

definition admin_user_matches :: "list_admin_users_query \<Rightarrow> user \<Rightarrow> bool" where
  "admin_user_matches q u \<longleftrightarrow>
     (case lu_role q of None \<Rightarrow> True | Some r \<Rightarrow> u_role u = r) \<and>
     (lu_status q = Some ''active'' \<longrightarrow> u_isActive u) \<and> (lu_status q = Some ''inactive'' \<longrightarrow> \<not> u_isActive u) \<and>
     (case lu_q q of None \<Rightarrow> True
      | Some s \<Rightarrow> trim s = [] \<or> icontains (trim s) (u_displayName u) \<or> icontains (trim s) (u_email u))"

definition userAdminList :: "instant \<Rightarrow> list_admin_users_query \<Rightarrow> world \<Rightarrow> admin_user_view list" where
  "userAdminList now q w =
     map (toView now \<circ> user_select w)
       (sort_key (\<lambda>u. (if u_isActive u then 0 else 1 :: nat, env_collation (env w) (u_displayName u)))
         (filter (admin_user_matches q) (users w)))"

definition findRow :: "uuid \<Rightarrow> world \<Rightarrow> http_error + user_row" where
  "findRow i w = (case find_by u_id i (users w) of None \<Rightarrow> Inl (NotFound (''User '' @ i @ '' not found'')) | Some u \<Rightarrow> Inr (user_select w u))"

definition userAdminFindOne :: "instant \<Rightarrow> uuid \<Rightarrow> world \<Rightarrow> http_error + admin_user_view" where
  "userAdminFindOne now i w = map_sum id (toView now) (findRow i w)"

text \<open>The pickers: active users only, and nothing but what a picker shows.\<close>

record user_summary =
  um_id :: uuid
  um_displayName :: string
  um_email :: string
  um_role :: user_role

definition summary_of :: "user \<Rightarrow> user_summary" where
  "summary_of u = \<lparr>um_id = u_id u, um_displayName = u_displayName u, um_email = u_email u, um_role = u_role u\<rparr>"

definition picker_matches :: "list_users_query \<Rightarrow> world \<Rightarrow> user \<Rightarrow> bool" where
  "picker_matches q w u \<longleftrightarrow> u_isActive u \<and>
     (case pq_role q of None \<Rightarrow> True | Some r \<Rightarrow> u_role u = r) \<and>
     (\<not> truthy (pq_siteId q) \<or> the (pq_siteId q) \<in> set (granted (u_id u) w)) \<and>
     (\<not> truthy (pq_q q) \<or> icontains (the (pq_q q)) (u_displayName u) \<or> icontains (the (pq_q q)) (u_email u))"

definition usersFindAll :: "list_users_query \<Rightarrow> world \<Rightarrow> user_summary list" where
  "usersFindAll q w =
     map summary_of (take (pq_limit q)
       (sort_key (\<lambda>u. env_collation (env w) (u_displayName u)) (filter (picker_matches q w) (users w))))"

definition usersFindOne :: "uuid \<Rightarrow> world \<Rightarrow> http_error + user_summary" where
  "usersFindOne i w =
     (case find_by u_id i (users w) of None \<Rightarrow> Inl (NotFound (''User '' @ i @ '' not found'')) | Some u \<Rightarrow> Inr (summary_of u))"

section \<open>Checks\<close>

definition assertNoBlockers :: "(world \<Rightarrow> blocker option list) \<Rightarrow> string \<Rightarrow> world \<Rightarrow> http_error + unit" where
  "assertNoBlockers listeners what w =
     (let blockers = List.map_filter id (listeners w) in
      if blockers \<noteq> [] then Inl (Conflict (what @ '': '' @ join ''; '' (map bk_message blockers))) else Inr ())"

text \<open>The listeners of the two events.\<close>

definition deactivation_listeners :: "uuid \<Rightarrow> world \<Rightarrow> blocker option list" where
  "deactivation_listeners i w = [incidentDeactivationCheck w i]"

definition role_change_listeners :: "uuid \<Rightarrow> user_role \<Rightarrow> world \<Rightarrow> blocker option list" where
  "role_change_listeners i toRole w = [shiftRoleChangeCheck w i toRole, skillRoleChangeCheck w i toRole]"

definition assertEmailFree :: "string \<Rightarrow> uuid option \<Rightarrow> world \<Rightarrow> http_error + unit" where
  "assertEmailFree email exceptId w =
     (if \<exists>u \<in> set (users w). iequals (u_email u) email \<and> (\<not> truthy exceptId \<or> u_id u \<noteq> the exceptId)
      then Inl (Conflict (''A user with email '' @ email @ '' already exists'')) else Inr ())"

definition writeOrTranslate :: "'a op \<Rightarrow> 'a op" where
  "writeOrTranslate m = catchM m (\<lambda>e.
     if e = PrismaKnown ''P2002'' then throw (Conflict ''A user with that email already exists'')
     else if e = PrismaKnown ''P2003'' then throw (BadRequest ''One or more site ids do not exist'')
     else throw e)"

section \<open>Writes\<close>

definition grant_rows :: "uuid \<Rightarrow> uuid list \<Rightarrow> site_access list" where
  "grant_rows i siteIds = map (\<lambda>s. \<lparr>sa_userId = i, sa_siteId = s\<rparr>) siteIds"

definition new_user :: "instant \<Rightarrow> create_user_dto \<Rightarrow> uuid \<Rightarrow> user" where
  "new_user now dto i = \<lparr>u_id = i, u_email = cu_email dto, u_displayName = cu_displayName dto, u_role = cu_role dto, u_isActive = True,
     u_passwordHash = None, u_passwordSetAt = None, u_failedLoginCount = 0, u_lockedUntil = None, u_sessionVersion = 0,
     u_createdAt = now, u_updatedAt = now\<rparr>"

definition insert_user :: "instant \<Rightarrow> create_user_dto \<Rightarrow> user_row op" where
  "insert_user now dto = (\<lambda>w.
     let u = new_user now dto (env_uuid (env w) (uuid_next w)); siteIds = option_default [] (cu_siteIds dto);
         w1 = w\<lparr>uuid_next := Suc (uuid_next w)\<rparr>;
         w2 = w1\<lparr>users := users w @ [u], site_accesses := site_accesses w @ grant_rows (u_id u) siteIds\<rparr> in
     if cu_email dto \<in> u_email ` set (users w) \<or> \<not> distinct siteIds then (Inl (PrismaKnown ''P2002''), w1)
     else if \<not> set siteIds \<subseteq> s_id ` set (sites w) then (Inl (PrismaKnown ''P2003''), w1)
     else (Inr (user_select w2 u), w2))"

definition userAdminCreate :: "instant \<Rightarrow> create_user_dto \<Rightarrow> actor_context \<Rightarrow> (admin_user_view \<times> sign_in_link) op" where
  "userAdminCreate now dto actor =
     bindM (readM (assertEmailFree (cu_email dto) None)) (\<lambda>_.
     bindM (writeOrTranslate (transaction
       (bindM (insert_user now dto) (\<lambda>row.
        bindM (auditRecord now (Some (actorId actor)) ''USER'' (u_id (ur_user row)) ''USER_CREATED'' None (Some (auditShape row))
                 (correlationId actor)) (\<lambda>_. ret row))))) (\<lambda>created.
     bindM (sendSignInLink now (u_id (ur_user created)) (Some (actorId actor)) (correlationId actor)) (\<lambda>invite.
     ret (toView now created, invite))))"

definition userAdminSendSignInLink :: "instant \<Rightarrow> uuid \<Rightarrow> actor_context \<Rightarrow> sign_in_link op" where
  "userAdminSendSignInLink now i actor =
     bindM (readM (findRow i)) (\<lambda>row.
     bindM (guardM (u_isActive (ur_user row)) (BadRequest (u_displayName (ur_user row) @ '' is inactive - reactivate them first''))) (\<lambda>_.
     sendSignInLink now i (Some (actorId actor)) (correlationId actor)))"

definition patch_user :: "update_user_dto \<Rightarrow> user \<Rightarrow> user" where
  "patch_user dto u = u\<lparr>u_email := patched (uu_email dto) (u_email u), u_displayName := patched (uu_displayName dto) (u_displayName u),
     u_role := patched (uu_role dto) (u_role u)\<rparr>"

definition changes_role :: "update_user_dto \<Rightarrow> user \<Rightarrow> bool" where
  "changes_role dto u \<longleftrightarrow> uu_role dto \<noteq> None \<and> uu_role dto \<noteq> Some (u_role u)"

definition changes_email :: "update_user_dto \<Rightarrow> user \<Rightarrow> bool" where
  "changes_email dto u \<longleftrightarrow> uu_email dto \<noteq> None \<and> uu_email dto \<noteq> Some (u_email u)"

definition update_checks :: "uuid \<Rightarrow> update_user_dto \<Rightarrow> uuid \<Rightarrow> world \<Rightarrow> http_error + user_row" where
  "update_checks i dto me w =
     (case findRow i w of
        Inl e \<Rightarrow> Inl e
      | Inr before \<Rightarrow>
          let u = ur_user before in
          if changes_role dto u \<and> i = me then Inl (BadRequest ''You can not change your own role'')
          else (case (if changes_email dto u then assertEmailFree (the (uu_email dto)) (Some i) w else Inr ()) of
                  Inl e \<Rightarrow> Inl e
                | Inr _ \<Rightarrow>
                    (case (if changes_role dto u
                           then assertNoBlockers (role_change_listeners i (the (uu_role dto))) (''Can not change the role of '' @ u_displayName u) w
                           else Inr ()) of
                       Inl e \<Rightarrow> Inl e
                     | Inr _ \<Rightarrow> Inr before)))"

definition update_user_unique :: "instant \<Rightarrow> uuid \<Rightarrow> (user \<Rightarrow> user) \<Rightarrow> user op" where
  "update_user_unique now i f = (\<lambda>w.
     case find_by u_id i (users w) of
       None \<Rightarrow> (Inl (PrismaKnown ''P2025''), w)
     | Some u \<Rightarrow> if \<exists>v \<in> set (users w). u_id v \<noteq> i \<and> u_email v = u_email (f u) then (Inl (PrismaKnown ''P2002''), w)
                else update_user now i f w)"

definition userAdminUpdate :: "instant \<Rightarrow> uuid \<Rightarrow> update_user_dto \<Rightarrow> actor_context \<Rightarrow> admin_user_view op" where
  "userAdminUpdate now i dto actor =
     bindM (readM (update_checks i dto (actorId actor))) (\<lambda>before.
     bindM (writeOrTranslate (transaction
       (bindM (update_user_unique now i (patch_user dto)) (\<lambda>u.
        bindM (if changes_email dto (ur_user before) then expire_links now i else ret ()) (\<lambda>_.
        bindM (getM (\<lambda>w. user_select w u)) (\<lambda>updated.
        bindM (auditRecord now (Some (actorId actor)) ''USER'' i ''USER_UPDATED'' (Some (auditShape before)) (Some (auditShape updated))
                 (correlationId actor)) (\<lambda>_. ret updated))))))) (\<lambda>after. ret (toView now after)))"

definition regrant :: "uuid \<Rightarrow> uuid list \<Rightarrow> uuid list \<Rightarrow> unit op" where
  "regrant i toAdd toRemove = (\<lambda>w.
     let kept = filter (\<lambda>a. \<not> (sa_userId a = i \<and> sa_siteId a \<in> set toRemove)) (site_accesses w) in
     if \<not> distinct toAdd \<or> (\<exists>a \<in> set kept. sa_userId a = i \<and> sa_siteId a \<in> set toAdd) then (Inl (PrismaKnown ''P2002''), w)
     else if \<not> set toAdd \<subseteq> s_id ` set (sites w) then (Inl (PrismaKnown ''P2003''), w)
     else (Inr (), w\<lparr>site_accesses := kept @ grant_rows i toAdd\<rparr>))"

definition userAdminSetSites :: "instant \<Rightarrow> uuid \<Rightarrow> uuid list \<Rightarrow> actor_context \<Rightarrow> admin_user_view op" where
  "userAdminSetSites now i siteIds actor =
     bindM (readM (findRow i)) (\<lambda>before.
     let current = remdups (ur_siteIds before);
         toAdd = filter (\<lambda>s. s \<notin> set current) siteIds;
         toRemove = filter (\<lambda>s. s \<notin> set siteIds) current in
     if toAdd = [] \<and> toRemove = [] then ret (toView now before)
     else
       bindM (writeOrTranslate (transaction
         (bindM (regrant i toAdd toRemove) (\<lambda>_.
          bindM (readM (user_or_throw i)) (\<lambda>u.
          bindM (getM (\<lambda>w. user_select w u)) (\<lambda>updated.
          bindM (auditRecord now (Some (actorId actor)) ''USER'' i ''USER_SITE_ACCESS_CHANGED''
                   (Some (SnapUserSites (sort current) [] [])) (Some (SnapUserSites (sort (remdups siteIds)) toAdd toRemove))
                   (correlationId actor)) (\<lambda>_. ret updated))))))) (\<lambda>after. ret (toView now after)))"

definition setActive :: "instant \<Rightarrow> user_row \<Rightarrow> bool \<Rightarrow> actor_context \<Rightarrow> admin_user_view op" where
  "setActive now before active actor =
     bindM (transaction
       (bindM (update_user now (u_id (ur_user before)) (\<lambda>u. u\<lparr>u_isActive := active\<rparr>)) (\<lambda>u.
        bindM (getM (\<lambda>w. user_select w u)) (\<lambda>updated.
        bindM (auditRecord now (Some (actorId actor)) ''USER'' (u_id (ur_user before)) (if active then ''USER_REACTIVATED'' else ''USER_DEACTIVATED'')
                 (Some (SnapUserActive (u_isActive (ur_user before)))) (Some (SnapUserActive active)) (correlationId actor)) (\<lambda>_.
        ret updated))))) (\<lambda>after. ret (toView now after))"

definition deactivate_checks :: "uuid \<Rightarrow> uuid \<Rightarrow> world \<Rightarrow> http_error + user_row" where
  "deactivate_checks i me w =
     (if i = me then Inl (BadRequest ''You can not deactivate your own account'')
      else (case findRow i w of
              Inl e \<Rightarrow> Inl e
            | Inr before \<Rightarrow>
                if \<not> u_isActive (ur_user before) then Inl (Conflict (u_displayName (ur_user before) @ '' is already inactive''))
                else (case assertNoBlockers (deactivation_listeners i) (''Can not deactivate '' @ u_displayName (ur_user before)) w of
                        Inl e \<Rightarrow> Inl e | Inr _ \<Rightarrow> Inr before)))"

definition deactivate :: "instant \<Rightarrow> uuid \<Rightarrow> actor_context \<Rightarrow> admin_user_view op" where
  "deactivate now i actor = bindM (readM (deactivate_checks i (actorId actor))) (\<lambda>before. setActive now before False actor)"

definition reactivate :: "instant \<Rightarrow> uuid \<Rightarrow> actor_context \<Rightarrow> admin_user_view op" where
  "reactivate now i actor =
     bindM (readM (\<lambda>w. case findRow i w of
                         Inl e \<Rightarrow> Inl e
                       | Inr before \<Rightarrow> if u_isActive (ur_user before) then Inl (Conflict (u_displayName (ur_user before) @ '' is already active''))
                                      else Inr before)) (\<lambda>before. setActive now before True actor)"

end
