(* ===== verification/Account_Props.thy ===== *)
theory Account_Props
  imports User_Admin
begin

text \<open>
  What the sign-in paths and user administration guarantee over any run: links and tokens that die
  stay dead, a new password ends the earlier sessions, wrong guesses lock the account, inactive
  users are refused everywhere, and an active Super Admin is always left.
\<close>

section \<open>The tables of the accounts as registers\<close>

definition user_ok :: "user \<Rightarrow> bool" where
  "user_ok u \<longleftrightarrow> u_failedLoginCount u < MAX_FAILED_LOGINS"

definition user_moves :: "user \<Rightarrow> user \<Rightarrow> bool" where
  "user_moves u v \<longleftrightarrow> u_sessionVersion u \<le> u_sessionVersion v \<and> (user_ok u \<longrightarrow> user_ok v)"

definition link_moves :: "password_token \<Rightarrow> password_token \<Rightarrow> bool" where
  "link_moves s t \<longleftrightarrow> pt_tokenHash t = pt_tokenHash s \<and> pt_userId t = pt_userId s \<and> pt_expiresAt t = pt_expiresAt s \<and>
     (pt_usedAt s \<noteq> None \<longrightarrow> pt_usedAt t = pt_usedAt s)"

definition token_moves :: "api_token \<Rightarrow> api_token \<Rightarrow> bool" where
  "token_moves s t \<longleftrightarrow> tk_tokenHash t = tk_tokenHash s \<and> tk_userId t = tk_userId s \<and> tk_expiresAt t = tk_expiresAt s \<and>
     (tk_revokedAt s \<noteq> None \<longrightarrow> tk_revokedAt t \<noteq> None)"

definition identity_moves :: "user_identity \<Rightarrow> user_identity \<Rightarrow> bool" where
  "identity_moves s t \<longleftrightarrow> ui_issuer t = ui_issuer s \<and> ui_subject t = ui_subject s \<and> ui_userId t = ui_userId s \<and> ui_provider t = ui_provider s"

interpretation user_register: register users u_id user_ok user_moves
  by unfold_locales (auto simp: user_moves_def rollback_def)

interpretation link_register: register password_tokens pt_id "\<lambda>_. True" link_moves
  by unfold_locales (auto simp: link_moves_def rollback_def)

interpretation token_register: register api_tokens tk_id "\<lambda>_. True" token_moves
  by unfold_locales (auto simp: token_moves_def rollback_def)

interpretation identity_register: register identities ui_id "\<lambda>_. True" identity_moves
  by unfold_locales (auto simp: identity_moves_def rollback_def)

abbreviation users_follow :: "world \<Rightarrow> world \<Rightarrow> bool" where
  "users_follow \<equiv> rows_follow users u_id user_ok user_moves"

abbreviation links_follow :: "world \<Rightarrow> world \<Rightarrow> bool" where
  "links_follow \<equiv> rows_follow password_tokens pt_id (\<lambda>_. True) link_moves"

abbreviation tokens_follow :: "world \<Rightarrow> world \<Rightarrow> bool" where
  "tokens_follow \<equiv> rows_follow api_tokens tk_id (\<lambda>_. True) token_moves"

abbreviation identities_follow :: "world \<Rightarrow> world \<Rightarrow> bool" where
  "identities_follow \<equiv> rows_follow identities ui_id (\<lambda>_. True) identity_moves"

definition accounts_follow :: "world \<Rightarrow> world \<Rightarrow> bool" where
  "accounts_follow w w' \<longleftrightarrow> users_follow w w' \<and> links_follow w w' \<and> tokens_follow w w' \<and> identities_follow w w'"

interpretation accounts: frame_relation accounts_follow
  by unfold_locales
    (auto simp: accounts_follow_def user_register.follow_refl link_register.follow_refl token_register.follow_refl identity_register.follow_refl
      intro: user_register.follow_trans link_register.follow_trans token_register.follow_trans identity_register.follow_trans)

lemma accounts_same:
  assumes "env w' = env w" "uuid_next w \<le> uuid_next w'" "users w' = users w" "password_tokens w' = password_tokens w"
    "api_tokens w' = api_tokens w" "identities w' = identities w"
  shows "accounts_follow w w'"
  using assms
  by (simp add: accounts_follow_def user_register.follow_same link_register.follow_same token_register.follow_same identity_register.follow_same)

lemma accounts_rollback: "accounts_follow w w' \<Longrightarrow> accounts_follow w (rollback w w')"
  by (auto simp: accounts_follow_def user_register.follow_rollback link_register.follow_rollback token_register.follow_rollback
      identity_register.follow_rollback)

lemma accounts_transaction: "obeys accounts_follow m \<Longrightarrow> obeys accounts_follow (transaction m)"
  by (rule accounts.obeys_transaction) (auto intro: accounts_rollback)

text \<open>The writes that leave the accounts alone.\<close>

lemma accounts_quiet:
  "obeys accounts_follow (auditRecord now a t i act b af c)"
  "obeys accounts_follow (randomBytes len)"
  "obeys accounts_follow (sendAccountMail letter)"
  "obeys accounts_follow (consume_code now hash)"
  "obeys accounts_follow (regrant i toAdd toRemove)"
  "obeys accounts_follow (modifyM (\<lambda>w. w\<lparr>dummy_hash := h w\<rparr>))"
  by (auto simp: obeys_def auditRecord_def randomBytes_def sendAccountMail_def consume_code_def regrant_def Let_def intro!: accounts_same)

text \<open>The writes of one table: in place, or one new row with a fresh id.\<close>

lemma accounts_users:
  assumes "env w' = env w" "password_tokens w' = password_tokens w" "api_tokens w' = api_tokens w" "identities w' = identities w"
    "users_follow w w'"
  shows "accounts_follow w w'"
  using assms
  by (auto simp: accounts_follow_def link_register.follow_same token_register.follow_same identity_register.follow_same rows_follow_def [of users])

lemma accounts_links:
  assumes "env w' = env w" "users w' = users w" "api_tokens w' = api_tokens w" "identities w' = identities w" "links_follow w w'"
  shows "accounts_follow w w'"
  using assms
  by (auto simp: accounts_follow_def user_register.follow_same token_register.follow_same identity_register.follow_same
      rows_follow_def [of password_tokens])

lemma accounts_tokens:
  assumes "env w' = env w" "users w' = users w" "password_tokens w' = password_tokens w" "identities w' = identities w" "tokens_follow w w'"
  shows "accounts_follow w w'"
  using assms
  by (auto simp: accounts_follow_def user_register.follow_same link_register.follow_same identity_register.follow_same rows_follow_def [of api_tokens])

lemma accounts_identities:
  assumes "env w' = env w" "users w' = users w" "password_tokens w' = password_tokens w" "api_tokens w' = api_tokens w" "identities_follow w w'"
  shows "accounts_follow w w'"
  using assms
  by (auto simp: accounts_follow_def user_register.follow_same link_register.follow_same token_register.follow_same rows_follow_def [of identities])

lemma accounts_update_user:
  assumes "\<And>u. u_id (f u) = u_id u \<and> user_moves u (f u)"
  shows "obeys accounts_follow (update_user now i f)"
  unfolding obeys_def
proof
  fix w
  have "users_follow w (w\<lparr>users := update_by u_id i (\<lambda>v. (f v)\<lparr>u_updatedAt := now\<rparr>) (users w)\<rparr>)"
    by (rule user_register.follow_update [where k = i and f = "\<lambda>v. (f v)\<lparr>u_updatedAt := now\<rparr>"])
       (use assms in \<open>auto simp: user_moves_def user_ok_def\<close>)
  then show "accounts_follow w (snd (update_user now i f w))"
    by (auto simp: update_user_def accounts.R_refl intro: accounts_users split: option.split)
qed

lemma follow_map:
  assumes "env w' = env w" "uuid_next w' = uuid_next w" "rows w' = map f (rows w)" "\<And>r. key (f r) = key r \<and> R r (f r)"
  shows "rows_follow rows key ok R w w'"
proof -
  have "map key (rows w') = map key (rows w)" using assms(3,4) by (induction "rows w") auto
  then have "keys_ok rows key w \<Longrightarrow> keys_ok rows key w'" using keys_ok_same [of rows key w w'] assms(1,2) by simp
  then show ?thesis
    unfolding rows_follow_def using assms by (intro conjI impI exI [of _ "rows w'"] exI [of _ "[]"]) (simp_all add: list_all2_map2 list_all2_same)
qed

lemma accounts_expire_links: "obeys accounts_follow (expire_links now i)"
  unfolding obeys_def expire_links_def
  by (auto simp: link_moves_def intro!: accounts_links follow_map
      [where f = "\<lambda>t. if pt_userId t = i \<and> pt_usedAt t = None then t\<lparr>pt_usedAt := Some now\<rparr> else t"])

lemma accounts_consume_link: "obeys accounts_follow (consume_link now i)"
  unfolding obeys_def consume_link_def
  by (auto simp: link_moves_def Let_def intro!: accounts_links follow_map
      [where f = "\<lambda>t. if pt_id t = i \<and> pt_usedAt t = None \<and> now < pt_expiresAt t then t\<lparr>pt_usedAt := Some now\<rparr> else t"])

lemma accounts_touch_identity: "obeys accounts_follow (touch_identity now s)"
  unfolding obeys_def touch_identity_def
  by (auto simp: identity_moves_def intro!: accounts_identities follow_map
      [where f = "\<lambda>i. if ui_issuer i = so_issuer s \<and> ui_subject i = so_subject s then i\<lparr>ui_lastLoginAt := Some now, ui_email := so_email s\<rparr> else i"])

lemma accounts_touch_token: "obeys accounts_follow (touch_token now t)"
  unfolding obeys_def touch_token_def
  by (auto simp: token_moves_def accounts.R_refl intro!: accounts_tokens token_register.follow_update
      [where k = "tk_id t" and f = "\<lambda>r. r\<lparr>tk_lastUsedAt := Some now\<rparr>"])

lemma accounts_revoke: "obeys accounts_follow (modifyM (\<lambda>w. w\<lparr>api_tokens := update_by tk_id i (revoke_token now) (api_tokens w)\<rparr>))"
  unfolding obeys_def
  by (auto simp: token_moves_def revoke_token_def intro!: accounts_tokens token_register.follow_update [where k = i and f = "revoke_token now"])

lemma accounts_insert_link:
  assumes "\<And>i. pt_id (mk i) = i"
  shows "obeys accounts_follow (insert_password_token mk)"
  unfolding obeys_def insert_password_token_def Let_def
  using assms by (auto intro!: accounts_same accounts_links intro: link_register.follow_insert link_register.follow_same)

lemma accounts_insert_token:
  assumes "\<And>i. tk_id (mk i) = i"
  shows "obeys accounts_follow (insert_api_token mk)"
  unfolding obeys_def insert_api_token_def Let_def
  using assms by (auto intro!: accounts_same accounts_tokens intro: token_register.follow_insert token_register.follow_same)

lemma accounts_insert_identity:
  assumes "\<And>i. ui_id (mk i) = i"
  shows "obeys accounts_follow (insert_identity mk)"
  unfolding obeys_def insert_identity_def Let_def
  using assms by (auto intro!: accounts_same accounts_identities intro: identity_register.follow_insert identity_register.follow_same)

lemma accounts_insert_user: "obeys accounts_follow (insert_user now dto)"
  unfolding obeys_def
proof
  fix w :: world
  let ?u = "new_user now dto (env_uuid (env w) (uuid_next w))"
  have "users_follow w (w\<lparr>uuid_next := Suc (uuid_next w), users := users w @ [?u], site_accesses := a\<rparr>)" for a
    by (rule user_register.follow_insert [where r = ?u]) (simp_all add: new_user_def user_ok_def MAX_FAILED_LOGINS_def)
  then show "accounts_follow w (snd (insert_user now dto w))"
    by (simp add: insert_user_def Let_def accounts_same accounts_users)
qed

section \<open>Every operation follows the registers\<close>

lemma count_failure_moves: "u_id (count_failure now failed u) = u_id u \<and> user_moves u (count_failure now failed u)"
  by (simp add: count_failure_def user_moves_def user_ok_def MAX_FAILED_LOGINS_def)

lemma field_writes_move:
  "u_id (clear_failures u) = u_id u \<and> user_moves u (clear_failures u)"
  "u_id (new_password now hash u) = u_id u \<and> user_moves u (new_password now hash u)"
  "u_id (patch_user dto u) = u_id u \<and> user_moves u (patch_user dto u)"
  "u_id (u\<lparr>u_isActive := a\<rparr>) = u_id u \<and> user_moves u (u\<lparr>u_isActive := a\<rparr>)"
  by (simp_all add: clear_failures_def new_password_def patch_user_def user_moves_def user_ok_def MAX_FAILED_LOGINS_def)

lemma accounts_update_user_unique:
  "obeys accounts_follow (update_user_unique now i (patch_user dto))"
  using obeysD [OF accounts_update_user [OF field_writes_move(3)]]
  by (simp add: obeys_def update_user_unique_def accounts.R_refl split: option.split)

lemmas account_writes = accounts_quiet accounts_expire_links accounts_consume_link accounts_touch_identity accounts_touch_token accounts_revoke
  accounts_insert_user accounts_update_user_unique accounts_transaction

lemma accounts_hash: "obeys accounts_follow (hashPassword p)" "obeys accounts_follow dummyPasswordHash"
proof -
  show h: "obeys accounts_follow (hashPassword p)" for p
    unfolding hashPassword_def by (intro accounts.obeys_rules account_writes)
  show "obeys accounts_follow dummyPasswordHash"
    unfolding dummyPasswordHash_def
    by (intro accounts.obeys_basic accounts.obeys_bind accounts.obeys_option account_writes h)
qed

lemma accounts_login: "obeys accounts_follow (login now email password corr)"
proof -
  have "obeys accounts_follow (login_unknown password)"
    unfolding login_unknown_def by (intro accounts.obeys_rules accounts_hash)
  moreover have "obeys accounts_follow (login_wrong now u corr)" for u
    unfolding login_wrong_def by (intro accounts.obeys_rules account_writes accounts_update_user count_failure_moves)
  moreover from this have "obeys accounts_follow (login_known now u password corr)" for u
    unfolding login_known_def by (intro accounts.obeys_rules account_writes accounts_update_user field_writes_move)
  ultimately show ?thesis unfolding login_def by (intro accounts.obeys_rules)
qed

lemma accounts_sendSignInLink: "obeys accounts_follow (sendSignInLink now i actor corr)"
  unfolding sendSignInLink_def by (intro accounts.obeys_rules account_writes accounts_insert_link) simp

lemma accounts_requestReset: "obeys accounts_follow (requestReset now email corr)"
  unfolding requestReset_def by (intro accounts.obeys_rules accounts_sendSignInLink)

lemma accounts_setPassword: "obeys accounts_follow (setPassword now token password corr)"
  unfolding setPassword_def by (intro accounts.obeys_rules account_writes accounts_hash accounts_update_user field_writes_move)

lemma accounts_api_tokens:
  "obeys accounts_follow (apiTokenCreate now userId name days actor)"
  "obeys accounts_follow (apiTokenRevoke now userId tokenId actor)"
  "obeys accounts_follow (authenticate now token)"
proof -
  show "obeys accounts_follow (apiTokenCreate now userId name days actor)"
    unfolding apiTokenCreate_def by (intro accounts.obeys_rules account_writes accounts_insert_token) simp
  show "obeys accounts_follow (apiTokenRevoke now userId tokenId actor)"
    unfolding apiTokenRevoke_def
    by (intro accounts.obeys_basic accounts.obeys_bind accounts.obeys_if account_writes)
  show "obeys accounts_follow (authenticate now token)"
    unfolding authenticate_def by (intro accounts.obeys_rules account_writes)
qed

lemma accounts_social:
  "obeys accounts_follow (resolveUser now s corr)"
  "obeys accounts_follow (createHandoffCode now i)"
  "obeys accounts_follow (redeemHandoffCode now code)"
proof -
  have "obeys accounts_follow (matchOrLink now s corr)"
    unfolding matchOrLink_def by (intro accounts.obeys_rules account_writes accounts_insert_identity) simp
  then have m: "obeys accounts_follow (bindM (matchOrLink now s corr) (\<lambda>u.
        bindM (guardM (u_isActive u) (SocialLoginRejected Inactive (''user '' @ u_id u @ '' is inactive''))) (\<lambda>_.
        bindM (touch_identity now s) (\<lambda>_.
        bindM (auditRecord now (Some (u_id u)) ''USER'' (u_id u) ''USER_SOCIAL_LOGIN'' None (Some (SnapReason (so_provider s))) corr) (\<lambda>_.
        ret u)))))"
    by (intro accounts.obeys_rules account_writes)
  have h: "obeys accounts_follow (bindM (auditRecord now None ''USER'' i a None b corr) (\<lambda>_. throw e))" for i a b e
    by (intro accounts.obeys_rules account_writes)
  show "obeys accounts_follow (resolveUser now s corr)"
    unfolding resolveUser_def by (rule accounts.obeys_catch [OF m]) (auto intro: h accounts.obeys_basic split: http_error.split)
  show "obeys accounts_follow (createHandoffCode now i)"
    unfolding createHandoffCode_def
    by (intro accounts.obeys_rules account_writes) (auto simp: obeys_def Let_def intro!: accounts_same)
  show "obeys accounts_follow (redeemHandoffCode now code)"
    unfolding redeemHandoffCode_def by (intro accounts.obeys_rules account_writes)
qed

lemma accounts_translate: "obeys accounts_follow m \<Longrightarrow> obeys accounts_follow (writeOrTranslate m)"
  unfolding writeOrTranslate_def by (intro accounts.obeys_catch accounts.obeys_rules)

lemma accounts_admin:
  "obeys accounts_follow (userAdminCreate now dto actor)"
  "obeys accounts_follow (userAdminSendSignInLink now i actor)"
  "obeys accounts_follow (userAdminUpdate now i udto actor)"
  "obeys accounts_follow (userAdminSetSites now i siteIds actor)"
  "obeys accounts_follow (setActive now before active actor)"
  unfolding userAdminCreate_def userAdminSendSignInLink_def userAdminUpdate_def userAdminSetSites_def setActive_def
  by (intro accounts.obeys_rules(1-5) accounts.obeys_bind accounts.obeys_if accounts.obeys_let account_writes accounts_translate
      accounts_sendSignInLink accounts_update_user field_writes_move)+

lemma accounts_activation:
  "obeys accounts_follow (deactivate now i actor)" "obeys accounts_follow (reactivate now i actor)"
  unfolding deactivate_def reactivate_def by (intro accounts.obeys_rules accounts_admin)+

section \<open>Runs\<close>

inductive account_step :: "world \<Rightarrow> world \<Rightarrow> bool" where
  ac_login: "account_step w (snd (login now email password corr w))"
| ac_reset: "account_step w (snd (requestReset now email corr w))"
| ac_link: "account_step w (snd (sendSignInLink now i who corr w))"
| ac_setPassword: "account_step w (snd (setPassword now token password corr w))"
| ac_tokenCreate: "account_step w (snd (apiTokenCreate now i name days actor w))"
| ac_tokenRevoke: "account_step w (snd (apiTokenRevoke now i tokenId actor w))"
| ac_authenticate: "account_step w (snd (authenticate now token w))"
| ac_social: "account_step w (snd (resolveUser now s corr w))"
| ac_handoff: "account_step w (snd (createHandoffCode now i w))"
| ac_redeem: "account_step w (snd (redeemHandoffCode now code w))"
| ac_create: "account_step w (snd (userAdminCreate now dto actor w))"
| ac_adminLink: "account_step w (snd (userAdminSendSignInLink now i actor w))"
| ac_update: "account_step w (snd (userAdminUpdate now i udto actor w))"
| ac_sites: "account_step w (snd (userAdminSetSites now i siteIds actor w))"
| ac_deactivate: "account_step w (snd (deactivate now i actor w))"
| ac_reactivate: "account_step w (snd (reactivate now i actor w))"
| ac_elsewhere: "env w' = env w \<Longrightarrow> uuid_next w \<le> uuid_next w' \<Longrightarrow> users w' = users w \<Longrightarrow> password_tokens w' = password_tokens w \<Longrightarrow>
    api_tokens w' = api_tokens w \<Longrightarrow> identities w' = identities w \<Longrightarrow> account_step w w'"

lemma account_step_follow: "account_step w w' \<Longrightarrow> accounts_follow w w'"
  by (induction rule: account_step.induct)
     (auto intro: accounts_same obeysD [OF accounts_login] obeysD [OF accounts_requestReset] obeysD [OF accounts_sendSignInLink]
       obeysD [OF accounts_setPassword] accounts_api_tokens [THEN obeysD] accounts_social [THEN obeysD] accounts_admin [THEN obeysD]
       accounts_activation [THEN obeysD])

lemma account_run_follow: "account_step\<^sup>*\<^sup>* w w' \<Longrightarrow> accounts_follow w w'"
  by (induction rule: rtranclp_induct) (auto intro: accounts.R_refl accounts.R_trans account_step_follow)

text \<open>A row can also be followed by another column that never changes.\<close>

lemma follow_row_by:
  assumes "rows_follow rows key ok R w w'" "keys_ok rows key w" "find_by h k (rows w) = Some r" "\<And>a b. R a b \<Longrightarrow> h b = h a"
  shows "\<exists>r'. find_by h k (rows w') = Some r' \<and> R r r'"
proof -
  obtain rs new where a: "rows w' = rs @ new" "list_all2 (\<lambda>a b. key b = key a \<and> R a b) (rows w) rs"
    using assms(1,2) unfolding rows_follow_def by blast
  have "list_all2 (\<lambda>a b. h b = h a \<and> R a b) (rows w) rs" using a(2) by (rule list_all2_mono) (auto simp: assms(4))
  from list_all2_find_by [OF this assms(3)] show ?thesis unfolding a(1) by (auto simp: find_by_append)
qed

lemma find_by_map: "(\<And>r. key (f r) = key r) \<Longrightarrow> find_by key k (map f rows) = map_option f (find_by key k rows)"
  by (induction rows) auto

section \<open>Links and sessions\<close>

lemma hashPassword_world: "hashPassword p w = (Inr h, w') \<Longrightarrow> w' = w\<lparr>random_next := Suc (random_next w)\<rparr>"
  by (auto simp: hashPassword_def randomBytes_def bindM_def derive_def split: option.splits)

lemma findUsableToken_Inr:
  "findUsableToken now token w = Inr (row, u) \<longleftrightarrow> find_by pt_tokenHash (env_sha256 (env w) token) (password_tokens w) = Some row \<and>
     pt_usedAt row = None \<and> now < pt_expiresAt row \<and> find_by u_id (pt_userId row) (users w) = Some u"
  by (auto simp: findUsableToken_def split: option.splits)

lemma setPassword_run:
  assumes "setPassword now token password corr w = (Inr u, w1)"
  obtains row owner hash where "findUsableToken now token w = Inr (row, owner)" "u_id u = u_id owner"
    "passwordPolicyProblem password (u_email owner) = None" "u_isActive owner"
    "password_tokens w1 = map (\<lambda>t. if pt_id t = pt_id row \<and> pt_usedAt t = None \<and> now < pt_expiresAt t then t\<lparr>pt_usedAt := Some now\<rparr> else t) (password_tokens w)"
    "users w1 = update_by u_id (u_id owner) (\<lambda>v. (new_password now hash v)\<lparr>u_updatedAt := now\<rparr>) (users w)" "env w1 = env w"
proof -
  obtain row owner where f: "findUsableToken now token w = Inr (row, owner)"
    using assms by (cases "findUsableToken now token w") (auto simp: setPassword_def)
  have p: "passwordPolicyProblem password (u_email owner) = None" "u_isActive owner"
    using assms f by (auto simp: setPassword_def split: option.splits if_splits)
  obtain r w0 where r: "hashPassword password w = (r, w0)" by (cases "hashPassword password w")
  have "r \<noteq> Inl e" for e using assms f p r by (auto simp: setPassword_def bindM_def [of "hashPassword password"])
  then obtain hash where h: "hashPassword password w = (Inr hash, w0)" using r by (cases r) auto
  have w0: "w0 = w\<lparr>random_next := Suc (random_next w)\<rparr>" by (rule hashPassword_world [OF h])
  have bh: "bindM (hashPassword password) f w = f hash w0" for f :: "string \<Rightarrow> user op" using h by (rule bindM_value)
  have own: "find_by u_id (pt_userId row) (users w) = Some owner" "u_id owner = pt_userId row"
    using f find_by_SomeD [of u_id] by (auto simp: findUsableToken_Inr)
  let ?hit = "\<lambda>t. pt_id t = pt_id row \<and> pt_usedAt t = None \<and> now < pt_expiresAt t"
  let ?u = "(new_password now hash owner)\<lparr>u_updatedAt := now\<rparr>"
  have body: "bindM (consume_link now (pt_id row)) (\<lambda>count.
      bindM (guardM (count = 1) (BadRequest LINK_DEAD)) (\<lambda>_.
      bindM (update_user now (pt_userId row) (new_password now hash)) (\<lambda>user.
      bindM (auditRecord now (Some (u_id user)) ''USER'' (u_id user) ''USER_PASSWORD_SET'' None (Some (SnapReason (pt_purpose row))) corr) (\<lambda>_.
      ret user)))) w0 = (Inr u, w1)"
    using assms f p bh by (simp add: setPassword_def transactionM_Inr_iff)
  then have one: "length (filter ?hit (password_tokens w)) = 1"
    by (simp add: bindM_def consume_link_def w0 split: if_splits)
  have "\<exists>aud. (Inr u :: http_error + user, w1) = (Inr ?u, w\<lparr>random_next := Suc (random_next w),
      password_tokens := map (\<lambda>t. if ?hit t then t\<lparr>pt_usedAt := Some now\<rparr> else t) (password_tokens w),
      users := update_by u_id (pt_userId row) (\<lambda>v. (new_password now hash v)\<lparr>u_updatedAt := now\<rparr>) (users w), audits := aud\<rparr>)"
    unfolding body [symmetric] w0
    by (simp add: bindM_def consume_link_def one update_user_def own(1) auditRecord_def) (rule exI, rule refl)
  then have "u_id u = u_id owner" "env w1 = env w"
    "password_tokens w1 = map (\<lambda>t. if ?hit t then t\<lparr>pt_usedAt := Some now\<rparr> else t) (password_tokens w)"
    "users w1 = update_by u_id (u_id owner) (\<lambda>v. (new_password now hash v)\<lparr>u_updatedAt := now\<rparr>) (users w)"
    using own(2) by (auto simp: new_password_def)
  then show ?thesis using that f p by blast
qed

text \<open>
  C23: A set-password link works once. After it set a password, over any further run, the link is
  refused whoever tries it and whatever the password, and every session issued to that user before
  is signed out.
\<close>

theorem password_link_single_use:
  assumes keys: "keys_ok users u_id w" "keys_ok password_tokens pt_id w"
    and set: "setPassword now token password corr w = (Inr u, w1)" and run: "account_step\<^sup>*\<^sup>* w1 w2"
    and old: "find_by u_id (u_id u) (users w) = Some earlier" and session: "jp_sub s = Some (u_id u)" "jp_sv s = Some v" "v \<le> u_sessionVersion earlier"
  shows "setPassword t token q c w2 = (Inl (BadRequest LINK_DEAD), w2) \<and> inspectToken t token w2 = Inl (BadRequest LINK_DEAD) \<and>
    (\<exists>why. validate s w2 = Inl (Unauthorized why))"
proof -
  obtain row owner hash where r: "findUsableToken now token w = Inr (row, owner)" "u_id u = u_id owner" and e: "env w1 = env w"
    and links: "password_tokens w1 = map (\<lambda>t. if pt_id t = pt_id row \<and> pt_usedAt t = None \<and> now < pt_expiresAt t then t\<lparr>pt_usedAt := Some now\<rparr> else t) (password_tokens w)"
    and us: "users w1 = update_by u_id (u_id owner) (\<lambda>v. (new_password now hash v)\<lparr>u_updatedAt := now\<rparr>) (users w)"
    by (rule setPassword_run [OF set])
  have follow: "accounts_follow w w1" using obeysD [OF accounts_setPassword, of w] set by (metis snd_conv)
  have k1: "keys_ok users u_id w1" "keys_ok password_tokens pt_id w1"
    using follow keys by (auto simp: accounts_follow_def rows_follow_def)
  have f2: "accounts_follow w1 w2" by (rule account_run_follow [OF run])
  have e2: "env w2 = env w" using f2 e by (simp add: accounts_follow_def rows_follow_def)
  have row: "find_by pt_tokenHash (env_sha256 (env w) token) (password_tokens w) = Some row" "pt_usedAt row = None" "now < pt_expiresAt row"
    using r(1) by (auto simp: findUsableToken_Inr)
  have "find_by pt_tokenHash (env_sha256 (env w) token) (password_tokens w1) = Some (row\<lparr>pt_usedAt := Some now\<rparr>)"
    unfolding links by (subst find_by_map) (use row in auto)
  from follow_row_by [OF _ k1(2) this, of "\<lambda>_. True" link_moves w2] f2
  obtain r' where "find_by pt_tokenHash (env_sha256 (env w) token) (password_tokens w2) = Some r'" "pt_usedAt r' = Some now"
    by (auto simp: accounts_follow_def link_moves_def)
  then have dead: "findUsableToken t token w2 = Inl (BadRequest LINK_DEAD)" for t by (simp add: findUsableToken_def e2)
  have "find_by u_id (u_id u) (users w1) = Some ((new_password now hash earlier)\<lparr>u_updatedAt := now\<rparr>)"
    unfolding us r(2) update_by_def by (subst find_by_map) (use old r(2) find_by_SomeD [of u_id] in \<open>auto simp: new_password_def\<close>)
  from user_register.follow_row [OF _ k1(1) this, of w2] f2
  obtain u2 where "find_by u_id (u_id u) (users w2) = Some u2" "u_sessionVersion earlier + 1 \<le> u_sessionVersion u2"
    by (auto simp: accounts_follow_def user_moves_def new_password_def)
  then have "\<exists>why. validate s w2 = Inl (Unauthorized why)" using session by (auto simp: validate_def)
  then show ?thesis using dead by (simp add: setPassword_def inspectToken_def)
qed

text \<open>A revoked API token never opens a session again.\<close>

lemma revoke_run:
  assumes "apiTokenRevoke now userId i actor w = (Inr view, w1)"
  obtains t where "t \<in> set (api_tokens w)" "tk_id t = i" "tk_userId t = userId" "env w1 = env w" "users w1 = users w" "uuid_next w1 = uuid_next w"
    "api_tokens w1 = (if tk_revokedAt t = None then update_by tk_id i (revoke_token now) (api_tokens w) else api_tokens w)"
proof -
  obtain t where t: "List.find (\<lambda>t. tk_id t = i \<and> tk_userId t = userId) (api_tokens w) = Some t"
    using assms by (cases "List.find (\<lambda>t. tk_id t = i \<and> tk_userId t = userId) (api_tokens w)") (auto simp: apiTokenRevoke_def)
  then have "t \<in> set (api_tokens w)" "tk_id t = i" "tk_userId t = userId" by (auto simp: find_Some_iff)
  moreover have "env w1 = env w \<and> users w1 = users w \<and> uuid_next w1 = uuid_next w \<and>
      api_tokens w1 = (if tk_revokedAt t = None then update_by tk_id i (revoke_token now) (api_tokens w) else api_tokens w)"
    using assms t by (auto simp: apiTokenRevoke_def transactionM_Inr_iff auditRecord_def bindM_def split: if_splits)
  ultimately show ?thesis using that by blast
qed

lemma authenticate_revoked:
  assumes "find_by tk_tokenHash (env_sha256 (env w) token) (api_tokens w) = Some t" "tk_revokedAt t \<noteq> None"
  shows "authenticate now token w = (Inr None, w)"
  using assms by (auto simp: authenticate_def token_refused_def split: option.splits)

text \<open>
  Revoking an API token is final: over any further run the token that was revoked signs nobody
  in, and presenting it changes nothing.
\<close>

theorem revoked_token_is_dead:
  assumes keys: "keys_ok api_tokens tk_id w" and revoke: "apiTokenRevoke now userId i actor w = (Inr view, w1)" and run: "account_step\<^sup>*\<^sup>* w1 w2"
    and token: "find_by tk_tokenHash (env_sha256 (env w) token) (api_tokens w) = Some t" "tk_id t = i"
  shows "authenticate later token w2 = (Inr None, w2)"
proof -
  obtain t' where t': "t' \<in> set (api_tokens w)" "tk_id t' = i" and e: "env w1 = env w"
    and rows: "api_tokens w1 = (if tk_revokedAt t' = None then update_by tk_id i (revoke_token now) (api_tokens w) else api_tokens w)"
    by (rule revoke_run [OF revoke])
  have "t' = t"
    using keys t' token find_by_SomeD [OF token(1)] by (auto simp: keys_ok_def distinct_map inj_on_def)
  have k1: "keys_ok api_tokens tk_id w1"
    using obeysD [OF accounts_api_tokens(2), of w now userId i actor] revoke keys by (simp add: accounts_follow_def rows_follow_def)
  have "\<exists>r. find_by tk_tokenHash (env_sha256 (env w) token) (api_tokens w1) = Some r \<and> tk_revokedAt r \<noteq> None"
    unfolding rows \<open>t' = t\<close> using token by (auto simp: update_by_def find_by_map revoke_token_def)
  then obtain r where r: "find_by tk_tokenHash (env_sha256 (env w) token) (api_tokens w1) = Some r" "tk_revokedAt r \<noteq> None" by blast
  have f2: "accounts_follow w1 w2" by (rule account_run_follow [OF run])
  have e2: "env w2 = env w" using f2 e by (simp add: accounts_follow_def rows_follow_def)
  from follow_row_by [OF _ k1 r(1), of "\<lambda>_. True" token_moves w2] f2 r(2)
  obtain r' where "find_by tk_tokenHash (env_sha256 (env w) token) (api_tokens w2) = Some r'" "tk_revokedAt r' \<noteq> None"
    by (auto simp: accounts_follow_def token_moves_def)
  then show ?thesis using authenticate_revoked [of w2] e2 by simp
qed

section \<open>The lockout\<close>

lemma verify_env: "env w' = env w \<Longrightarrow> verifyPassword p h w' = verifyPassword p h w"
  by (simp add: verifyPassword_def derive_def Let_def)

lemma find_map: "(\<And>x. P (f x) = P x) \<Longrightarrow> List.find P (map f xs) = map_option f (List.find P xs)"
  by (induction xs) auto

text \<open>A wrong password: one row changes, and it is still the one the email finds.\<close>

lemma wrong_guess:
  assumes "find_email email w = Some u" "truthy (u_passwordHash u)" "\<not> locked now u"
    "verifyPassword p (the (u_passwordHash u)) w = Inr False"
  shows "fst (login now email p corr w) = Inl (Unauthorized INVALID_CREDENTIALS)"
    "find_email email (snd (login now email p corr w)) = Some ((count_failure now (u_failedLoginCount u + 1) u)\<lparr>u_updatedAt := now\<rparr>)"
    "env (snd (login now email p corr w)) = env w"
proof -
  let ?f = "\<lambda>v. (count_failure now (u_failedLoginCount u + 1) v)\<lparr>u_updatedAt := now\<rparr>"
  have "u \<in> set (users w)" using assms(1) by (auto simp: find_email_def find_Some_iff)
  then obtain v where v: "find_by u_id (u_id u) (users w) = Some v" by (cases "find_by u_id (u_id u) (users w)") (auto simp: find_by_None_iff)
  have keeps: "u_email (if u_id x = u_id u then ?f x else x) = u_email x" for x by (simp add: count_failure_def)
  have run: "\<exists>aud. login now email p corr w = (Inl (Unauthorized INVALID_CREDENTIALS), w\<lparr>users := update_by u_id (u_id u) ?f (users w), audits := aud\<rparr>)"
    using assms v by (simp add: login_def login_known_def login_wrong_def bindM_def update_user_def auditRecord_def Let_def)
       (intro conjI impI; rule exI; rule refl)
  then show "fst (login now email p corr w) = Inl (Unauthorized INVALID_CREDENTIALS)" "env (snd (login now email p corr w)) = env w" by auto
  have "List.find (\<lambda>x. iequals (u_email x) email) (update_by u_id (u_id u) ?f (users w)) = Some (?f u)"
    using assms(1) unfolding update_by_def find_email_def by (subst find_map) (simp_all add: keeps)
  then show "find_email email (snd (login now email p corr w)) = Some (?f u)" using run by (auto simp: find_email_def)
qed

text \<open>Guesses at one account, one after the other.\<close>

primrec guess :: "string \<Rightarrow> (instant \<times> string) list \<Rightarrow> world \<Rightarrow> world" where
  "guess email [] w = w"
| "guess email (a # as) w = guess email as (snd (login (fst a) email (snd a) None w))"

lemma guess_append: "guess email (as @ bs) w = guess email bs (guess email as w)"
  by (induction as arbitrary: w) auto

lemma wrong_guesses_count:
  assumes "find_email email w = Some u" "u_passwordHash u = Some h" "h \<noteq> []" "u_lockedUntil u = None"
    "list_all (\<lambda>a. verifyPassword (snd a) h w = Inr False) as" "u_failedLoginCount u + int (length as) < MAX_FAILED_LOGINS"
  shows "\<exists>u'. find_email email (guess email as w) = Some u' \<and> u_passwordHash u' = Some h \<and> u_lockedUntil u' = None \<and>
    u_failedLoginCount u' = u_failedLoginCount u + int (length as) \<and> env (guess email as w) = env w"
  using assms
proof (induction as arbitrary: w u)
  case (Cons a as)
  let ?w = "snd (login (fst a) email (snd a) None w)"
  let ?u = "(count_failure (fst a) (u_failedLoginCount u + 1) u)\<lparr>u_updatedAt := fst a\<rparr>"
  have w: "find_email email ?w = Some ?u" "env ?w = env w"
    using wrong_guess [of email w u "fst a" "snd a" None] Cons.prems by (auto simp: locked_def)
  have u: "u_passwordHash ?u = Some h" "u_lockedUntil ?u = None" "u_failedLoginCount ?u = u_failedLoginCount u + 1"
    using Cons.prems by (auto simp: count_failure_def)
  from Cons.IH [OF w(1) u(1) \<open>h \<noteq> []\<close> u(2)] Cons.prems u(3) w(2) show ?case by (auto simp: verify_env [OF w(2)])
qed simp

text \<open>
  C22: Five wrong passwords in a row lock the account for fifteen minutes: until then every attempt
  is refused, the right password included, and does not touch the account; afterwards the count
  starts again from zero.
\<close>

theorem lockout_after_five:
  assumes user: "find_email email w = Some u" "u_passwordHash u = Some h" "h \<noteq> []" "u_lockedUntil u = None" "u_failedLoginCount u = 0"
    and wrong: "length as = 5" "list_all (\<lambda>a. verifyPassword (snd a) h w = Inr False) as"
    and soon: "t < fst (last as) + 900000"
  shows "fst (login t email p c (guess email as w)) =
      Inl (Unauthorized ''Too many failed attempts. Try again in 15 minutes, or reset your password.'') \<and>
    users (snd (login t email p c (guess email as w))) = users (guess email as w) \<and>
    (\<exists>u'. find_email email (guess email as w) = Some u' \<and> u_lockedUntil u' = Some (fst (last as) + 900000) \<and> u_failedLoginCount u' = 0)"
proof -
  obtain bs b where as: "as = bs @ [b]" using wrong(1) by (cases as rule: rev_cases) auto
  obtain u' where u': "find_email email (guess email bs w) = Some u'" "u_passwordHash u' = Some h" "u_lockedUntil u' = None" "u_failedLoginCount u' = 4"
    "env (guess email bs w) = env w"
    using wrong_guesses_count [of email w u h bs] user wrong as by (auto simp: MAX_FAILED_LOGINS_def)
  have "verifyPassword (snd b) h (guess email bs w) = Inr False" using wrong(2) as by (simp add: verify_env [OF u'(5)])
  then have "find_email email (guess email as w) = Some ((count_failure (fst b) 5 u')\<lparr>u_updatedAt := fst b\<rparr>)"
    using wrong_guess(2) [OF u'(1), of "fst b" "snd b" None] u'(2-4) user(3) as by (simp add: guess_append locked_def)
  moreover have "count_failure (fst b) 5 u' = u'\<lparr>u_failedLoginCount := 0, u_lockedUntil := Some (fst b + 900000)\<rparr>"
    by (simp add: count_failure_def MAX_FAILED_LOGINS_def LOCKOUT_MS_def)
  ultimately show ?thesis
    using soon as u'(2) user(3) by (simp add: login_def login_known_def locked_def auditRecord_def bindM_def)
qed

text \<open>
  Requests that run at the same time each read the count before any of them writes it, so the
  failures of one round count once: with fewer than four failures on record a round of any size
  leaves the account unlocked.
\<close>

primrec stale_failures :: "nat \<Rightarrow> instant \<Rightarrow> user \<Rightarrow> world \<Rightarrow> world" where
  "stale_failures 0 now u w = w"
| "stale_failures (Suc n) now u w = stale_failures n now u (snd (login_wrong now u None w))"

lemma login_wrong_row:
  assumes "find_by u_id (u_id u) (users w) = Some v"
  shows "find_by u_id (u_id u) (users (snd (login_wrong now u corr w))) = Some ((count_failure now (u_failedLoginCount u + 1) v)\<lparr>u_updatedAt := now\<rparr>)"
proof -
  let ?f = "\<lambda>v. (count_failure now (u_failedLoginCount u + 1) v)\<lparr>u_updatedAt := now\<rparr>"
  have id: "u_id (if u_id x = u_id u then ?f x else x) = u_id x" for x by (simp add: count_failure_def)
  have "users (snd (login_wrong now u corr w)) = update_by u_id (u_id u) ?f (users w)"
    using assms by (simp add: login_wrong_def Let_def bindM_def update_user_def auditRecord_def)
  moreover have "u_id v = u_id u" using find_by_SomeD [OF assms] by simp
  moreover have "find_by u_id (u_id u) (update_by u_id (u_id u) ?f (users w)) = map_option (\<lambda>x. if u_id x = u_id u then ?f x else x) (Some v)"
    unfolding update_by_def assms [symmetric] by (rule find_by_map) (rule id)
  ultimately show ?thesis by simp
qed

text \<open>
  Any number of wrong passwords tried at the same time counts as one: every request passes
  through the same read of the account, and after all their writes the account is not locked.
\<close>

theorem parallel_guesses_count_once:
  assumes user: "find_email email w = Some u" "u_passwordHash u = Some h" "h \<noteq> []" "u_lockedUntil u = None" "u_failedLoginCount u + 1 < MAX_FAILED_LOGINS"
    and row: "find_by u_id (u_id u) (users w) = Some u"
  shows "(verifyPassword p h w = Inr False \<longrightarrow> login now email p None w = login_wrong now u None w) \<and>
    (\<exists>v. find_by u_id (u_id u) (users (stale_failures (Suc n) now u w)) = Some v \<and> u_failedLoginCount v = u_failedLoginCount u + 1 \<and> \<not> locked t v)"
proof -
  have "\<exists>v'. find_by u_id (u_id u) (users (stale_failures n now u w)) = Some v' \<and> u_failedLoginCount v' = u_failedLoginCount u + 1 \<and> u_lockedUntil v' = None"
    if "find_by u_id (u_id u) (users w) = Some v" "u_failedLoginCount v = u_failedLoginCount u + 1" "u_lockedUntil v = None" for v w
    using that
  proof (induction n arbitrary: w v)
    case (Suc n)
    from Suc.IH [OF login_wrong_row [OF Suc.prems(1)]] Suc.prems user(5) show ?case by (simp add: count_failure_def)
  qed simp
  from this [OF login_wrong_row [OF row, of now None]] user
  obtain v where "find_by u_id (u_id u) (users (stale_failures (Suc n) now u w)) = Some v" "u_failedLoginCount v = u_failedLoginCount u + 1" "u_lockedUntil v = None"
    by (auto simp: count_failure_def)
  then show ?thesis using user by (simp add: login_def login_known_def locked_def)
qed

section \<open>Inactive users\<close>

text \<open>Whoever a social sign-in returns, by a link or by the email, is read back as an active user.\<close>

lemma resolveUser_active:
  assumes "fst (resolveUser now s c w) = Inr v"
  shows "u_isActive v \<and> find_by u_id (u_id v) (users w) = Some v"
proof -
  obtain r w1 where m: "matchOrLink now s c w = (r, w1)" by (cases "matchOrLink now s c w")
  have r: "r = Inr v" "u_isActive v"
    using assms m by (cases r; auto simp: resolveUser_def catchM_def bindM_def touch_identity_def auditRecord_def split: http_error.splits if_splits)+
  have "\<exists>i. find_by u_id i (users w) = Some v"
  proof (cases "find_identity s w")
    case (Some l)
    then show ?thesis using m r by (auto simp: matchOrLink_def user_or_throw_def split: option.splits)
  next
    case None
    obtain x where x: "link_checks s w = Inr x" using m r None by (cases "link_checks s w") (auto simp: matchOrLink_def)
    then have "find_by u_id (u_id x) (users w) = Some v"
      using m r None by (auto simp: matchOrLink_def bindM_def transactionM_def insert_identity_def Let_def auditRecord_def user_or_throw_def
          split: if_splits option.splits)
    then show ?thesis by blast
  qed
  then show ?thesis using r(2) find_by_SomeD by metis
qed

text \<open>
  C25: A deactivated user is refused on every way in: the right password, a set-password link, a
  session, an API token and a handoff code all fail; no social sign-in returns that user, whether it
  is matched by a linked identity or by the email, and a linked identity ends in the rejection that
  names the reason.
\<close>

theorem inactive_refused:
  assumes row: "find_by u_id i (users w) = Some u" "\<not> u_isActive u"
  shows "(find_email email w = Some u \<longrightarrow> (\<exists>why. fst (login now email p c w) = Inl why)) \<and>
    (jp_sub s = Some i \<longrightarrow> (\<exists>why. validate s w = Inl (Unauthorized why))) \<and>
    (find_by tk_tokenHash (env_sha256 (env w) token) (api_tokens w) = Some t \<and> tk_userId t = i \<longrightarrow> authenticate now token w = (Inr None, w)) \<and>
    (find_by pt_tokenHash (env_sha256 (env w) link) (password_tokens w) = Some l \<and> pt_userId l = i \<longrightarrow> (\<exists>why. setPassword now link p c w = (Inl why, w))) \<and>
    (find_by hc_codeHash (env_sha256 (env w) code) (handoff_codes w) = Some hc \<and> hc_userId hc = i \<longrightarrow>
       fst (redeemHandoffCode now code w) = Inl (Unauthorized CODE_DEAD)) \<and>
    (fst (resolveUser now so c w) = Inr v \<longrightarrow> u_id v \<noteq> i) \<and>
    (find_identity so w = Some ui \<and> ui_userId ui = i \<longrightarrow>
       fst (resolveUser now so c w) = Inl (SocialLoginRejected Inactive (''user '' @ i @ '' is inactive'')))"
proof (intro conjI impI)
  have id: "u_id u = i" using find_by_SomeD [OF row(1)] by simp
  show "\<exists>why. fst (login now email p c w) = Inl why" if f: "find_email email w = Some u"
  proof (cases "truthy (u_passwordHash u)")
    case False
    then show ?thesis using f
      by (cases "dummyPasswordHash w"; cases "fst (dummyPasswordHash w)")
         (auto simp: login_def login_unknown_def bindM_def split: sum.split)
  next
    case True
    then show ?thesis using f row
      by (cases "verifyPassword p (the (u_passwordHash u)) w")
         (auto simp: login_def login_known_def login_wrong_def bindM_def Let_def split: prod.split sum.split)
  qed
  show "\<exists>why. validate s w = Inl (Unauthorized why)" if "jp_sub s = Some i" using that row by (simp add: validate_def)
  show "authenticate now token w = (Inr None, w)"
    if "find_by tk_tokenHash (env_sha256 (env w) token) (api_tokens w) = Some t \<and> tk_userId t = i"
    using that row by (auto simp: authenticate_def)
  show "\<exists>why. setPassword now link p c w = (Inl why, w)"
    if "find_by pt_tokenHash (env_sha256 (env w) link) (password_tokens w) = Some l \<and> pt_userId l = i"
    using that row
    by (cases "findUsableToken now link w") (auto simp: setPassword_def findUsableToken_Inr split: option.split)
  show "fst (redeemHandoffCode now code w) = Inl (Unauthorized CODE_DEAD)"
    if "find_by hc_codeHash (env_sha256 (env w) code) (handoff_codes w) = Some hc \<and> hc_userId hc = i"
  proof -
    let ?f = "\<lambda>c. if hc_codeHash c = env_sha256 (env w) code \<and> hc_consumedAt c = None \<and> now < hc_expiresAt c then c\<lparr>hc_consumedAt := Some now\<rparr> else c"
    have "hc_codeHash (?f x) = hc_codeHash x" for x by simp
    then have "find_by hc_codeHash (env_sha256 (env w) code) (map ?f (handoff_codes w)) = Some (?f hc)" using that by (simp add: find_by_map)
    moreover have "hc_userId (?f hc) = i" using that by simp
    ultimately show ?thesis using row by (simp add: redeemHandoffCode_def bindM_def consume_code_def Let_def)
  qed
  show "u_id v \<noteq> i" if "fst (resolveUser now so c w) = Inr v" using resolveUser_active [OF that] row by auto
  show "fst (resolveUser now so c w) = Inl (SocialLoginRejected Inactive (''user '' @ i @ '' is inactive''))"
    if "find_identity so w = Some ui \<and> ui_userId ui = i"
    using that row id by (simp add: resolveUser_def catchM_def matchOrLink_def user_or_throw_def bindM_def auditRecord_def)
qed

section \<open>An example account\<close>

definition stored_hash :: string where
  "stored_hash = encode_hash (replicate 16 0) (the (toy_scrypt ''correct horse battery'' [] 0 0 0))"

definition root_user :: user where
  "root_user = \<lparr>u_id = ''0'', u_email = ''r@x'', u_displayName = ''Root'', u_role = SUPER_ADMIN, u_isActive = True,
     u_passwordHash = Some stored_hash, u_passwordSetAt = None, u_failedLoginCount = 0, u_lockedUntil = None, u_sessionVersion = 3,
     u_createdAt = 0, u_updatedAt = 0\<rparr>"

definition reset_link :: password_token where
  "reset_link = \<lparr>pt_id = ''0'', pt_userId = ''0'', pt_tokenHash = ''tok'', pt_purpose = ''RESET'', pt_expiresAt = 1000, pt_usedAt = None,
     pt_createdById = None, pt_createdAt = 0\<rparr>"

definition collector_token :: api_token where
  "collector_token = \<lparr>tk_id = ''0'', tk_userId = ''0'', tk_name = ''collector'', tk_tokenHash = ''odk_1'', tk_prefix = ''odk_1'', tk_expiresAt = None,
     tk_lastUsedAt = None, tk_revokedAt = None, tk_createdById = ''0'', tk_createdAt = 0\<rparr>"

definition account_world :: world where
  "account_world = empty_world\<lparr>uuid_next := 1, users := [root_user], password_tokens := [reset_link], api_tokens := [collector_token]\<rparr>"

lemma account_world_keys:
  "keys_ok users u_id account_world" "keys_ok password_tokens pt_id account_world" "keys_ok api_tokens tk_id account_world"
  by (auto simp: keys_ok_def account_world_def root_user_def reset_link_def collector_token_def empty_world_def issued_def nat_str_zero
      intro: injI nat_str_inj)

lemma stored_hash_nonempty: "stored_hash \<noteq> []"
  by (simp add: stored_hash_def encode_hash_def)

lemma stored_hash_verifies: "verifyPassword ''wrong'' stored_hash account_world = Inr False"
proof -
  have "env_scrypt (env account_world) p (replicate 16 0) n r q = toy_scrypt p [] 0 0 0" for p n r q
    by (simp add: account_world_def empty_world_def toy_scrypt_def)
  moreover define a b where "a = the (toy_scrypt ''wrong'' [] 0 0 0)" and "b = the (toy_scrypt ''correct horse battery'' [] 0 0 0)"
  moreover from this have "toy_scrypt ''wrong'' [] 0 0 0 = Some a" "length a = KEY_LEN" "length b = KEY_LEN" "list_all (\<lambda>x. x < 256) b" "a \<noteq> b"
    by (simp_all add: toy_scrypt_def KEY_LEN_def list_all_iff)
  ultimately show ?thesis
    using verify_encoded [of "replicate 16 0" b account_world "''wrong''" a] by (simp add: stored_hash_def list_all_iff)
qed

theorem lockout_after_five_witness:
  "fst (login 100 ''R@x'' ''correct horse battery'' None (guess ''R@x'' [(1, ''wrong''), (2, ''wrong''), (3, ''wrong''), (4, ''wrong''), (5, ''wrong'')] account_world)) =
     Inl (Unauthorized ''Too many failed attempts. Try again in 15 minutes, or reset your password.'')"
proof -
  have "iequals ''r@x'' ''R@x''" by code_simp
  then have "find_email ''R@x'' account_world = Some root_user" by (simp add: find_email_def account_world_def root_user_def)
  from lockout_after_five [OF this, of stored_hash "[(1, ''wrong''), (2, ''wrong''), (3, ''wrong''), (4, ''wrong''), (5, ''wrong'')]" 100 "''correct horse battery''" None]
  show ?thesis using stored_hash_nonempty stored_hash_verifies by (simp add: root_user_def)
qed

theorem password_link_single_use_witness:
  "\<exists>u w1. setPassword 0 ''tok'' ''a long enough pass'' None account_world = (Inr u, w1) \<and>
     setPassword 1 ''tok'' ''another long enough'' None w1 = (Inl (BadRequest LINK_DEAD), w1) \<and>
     (\<exists>why. validate (issueToken root_user) w1 = Inl (Unauthorized why))"
proof -
  have "passwordPolicyProblem ''a long enough pass'' ''r@x'' = None" by code_simp
  then obtain u w1 where set: "setPassword 0 ''tok'' ''a long enough pass'' None account_world = (Inr u, w1)" "u_id u = ''0''"
    by (simp add: setPassword_def findUsableToken_def account_world_def root_user_def reset_link_def empty_world_def hashPassword_def randomBytes_def
        derive_def toy_scrypt_def bindM_def transactionM_def consume_link_def update_user_def auditRecord_def new_password_def)
  have "find_by u_id (u_id u) (users account_world) = Some root_user" using set(2) by (simp add: account_world_def root_user_def)
  from password_link_single_use [OF account_world_keys(1,2) set(1) rtranclp.rtrancl_refl this, of "issueToken root_user" 3 1 "''another long enough''" None] set
  show ?thesis by (auto simp: issueToken_def root_user_def)
qed

theorem revoked_token_is_dead_witness:
  "\<exists>v w1. apiTokenRevoke 5 ''0'' ''0'' \<lparr>actorId = ''0'', correlationId = None\<rparr> account_world = (Inr v, w1) \<and> authenticate 6 ''odk_1'' w1 = (Inr None, w1)"
proof -
  obtain v w1 where rev: "apiTokenRevoke 5 ''0'' ''0'' \<lparr>actorId = ''0'', correlationId = None\<rparr> account_world = (Inr v, w1)"
    by (simp add: apiTokenRevoke_def account_world_def collector_token_def bindM_def transactionM_def auditRecord_def)
  have "find_by tk_tokenHash (env_sha256 (env account_world) ''odk_1'') (api_tokens account_world) = Some collector_token" "tk_id collector_token = ''0''"
    by (simp_all add: account_world_def collector_token_def empty_world_def)
  from revoked_token_is_dead [OF account_world_keys(3) rev rtranclp.rtrancl_refl this] rev show ?thesis by blast
qed

theorem parallel_guesses_count_once_witness:
  "\<exists>v. find_by u_id ''0'' (users (stale_failures 1000 7 root_user account_world)) = Some v \<and> u_failedLoginCount v = 1"
proof -
  have "find_email ''r@x'' account_world = Some root_user" "find_by u_id ''0'' (users account_world) = Some root_user"
    by (simp_all add: find_email_def account_world_def root_user_def)
  with parallel_guesses_count_once [of "''r@x''" account_world root_user stored_hash "''wrong''" 7 999 8]
  show ?thesis using stored_hash_nonempty by (auto simp: root_user_def MAX_FAILED_LOGINS_def)
qed

theorem inactive_refused_witness:
  "\<exists>why. validate (issueToken (root_user\<lparr>u_isActive := False\<rparr>)) (account_world\<lparr>users := [root_user\<lparr>u_isActive := False\<rparr>]\<rparr>) = Inl (Unauthorized why)"
  using inactive_refused [of "''0''" "account_world\<lparr>users := [root_user\<lparr>u_isActive := False\<rparr>]\<rparr>" "root_user\<lparr>u_isActive := False\<rparr>"]
  by (simp add: root_user_def issueToken_def)

end
