(* ===== verification/Directory_Props.thy ===== *)
theory Directory_Props
  imports Account_Props
begin

text \<open>
  The directory of users as administrators see it: an active Super Admin is always left and emails
  stay unique whatever the case, over any run in which every administrative request passes the
  guards; site grants become exactly what was asked; and what happens when two administrators act
  at the same time.
\<close>

section \<open>Sign-in leaves the directory alone\<close>

definition staff :: "world \<Rightarrow> (uuid \<times> string \<times> user_role \<times> bool) list" where
  "staff w = map (\<lambda>u. (u_id u, u_email u, u_role u, u_isActive u)) (users w)"

lemma staff_users: "users w' = users w \<Longrightarrow> staff w' = staff w"
  by (simp add: staff_def)

lemma keeps_staff_update:
  assumes "\<And>u. (u_id (f u), u_email (f u), u_role (f u), u_isActive (f u)) = (u_id u, u_email u, u_role u, u_isActive u)"
  shows "keeps staff (update_user now i f)"
  using assms by (auto simp: keeps_def update_user_def staff_def update_by_def split: option.split)

lemma keeps_staff_transaction: "keeps staff m \<Longrightarrow> keeps staff (transaction m)"
  by (rule keeps_transaction) (auto simp: staff_def rollback_def)

lemma keeps_staff_quiet:
  "keeps staff (auditRecord now a t i act b af c)" "keeps staff (randomBytes len)" "keeps staff (sendAccountMail letter)"
  "keeps staff (expire_links now i)" "keeps staff (consume_link now i)" "keeps staff (insert_password_token mk)"
  "keeps staff (insert_api_token mk2)" "keeps staff (touch_token now tk)" "keeps staff (insert_identity mk3)"
  "keeps staff (touch_identity now so)" "keeps staff (consume_code now hash)" "keeps staff (regrant i toAdd toRemove)"
  "keeps staff (modifyM (\<lambda>w. w\<lparr>dummy_hash := h w\<rparr>))" "keeps staff (modifyM (\<lambda>w. w\<lparr>api_tokens := g w\<rparr>))"
  by (auto simp: keeps_def staff_def auditRecord_def randomBytes_def sendAccountMail_def expire_links_def consume_link_def
      insert_password_token_def insert_api_token_def touch_token_def insert_identity_def touch_identity_def consume_code_def regrant_def Let_def)

lemma keeps_staff_hash: "keeps staff (hashPassword p)" "keeps staff dummyPasswordHash"
proof -
  show h: "keeps staff (hashPassword p)" for p unfolding hashPassword_def by (intro keeps_intros keeps_staff_quiet)
  show "keeps staff dummyPasswordHash"
    unfolding dummyPasswordHash_def by (intro keeps_basic keeps_bind keeps_option keeps_staff_quiet h)
qed

lemma keeps_staff_login: "keeps staff (login now email p c)"
proof -
  have "keeps staff (login_unknown p)" unfolding login_unknown_def by (intro keeps_intros keeps_staff_hash)
  moreover have "keeps staff (login_wrong now u c)" for u
    unfolding login_wrong_def by (intro keeps_intros keeps_staff_quiet keeps_staff_update) (simp add: count_failure_def)
  moreover from this have "keeps staff (login_known now u p c)" for u
    unfolding login_known_def by (intro keeps_intros keeps_staff_quiet keeps_staff_update) (simp_all add: clear_failures_def)
  ultimately show ?thesis unfolding login_def by (intro keeps_intros)
qed

lemma keeps_staff_link: "keeps staff (sendSignInLink now i a c)"
  unfolding sendSignInLink_def by (intro keeps_intros keeps_staff_quiet keeps_staff_transaction)

lemma keeps_staff_setPassword: "keeps staff (setPassword now token p c)"
  unfolding setPassword_def
  by (intro keeps_intros keeps_staff_quiet keeps_staff_transaction keeps_staff_hash keeps_staff_update) (simp add: new_password_def)

lemma keeps_staff_tokens:
  "keeps staff (apiTokenCreate now i name days actor)" "keeps staff (authenticate now token)"
  "keeps staff (apiTokenRevoke now i tokenId actor)"
proof -
  show "keeps staff (apiTokenCreate now i name days actor)"
    unfolding apiTokenCreate_def by (intro keeps_intros keeps_staff_quiet keeps_staff_transaction)
  show "keeps staff (authenticate now token)"
    unfolding authenticate_def by (intro keeps_intros keeps_staff_quiet keeps_staff_transaction)
  show "keeps staff (apiTokenRevoke now i tokenId actor)"
    unfolding apiTokenRevoke_def by (intro keeps_basic keeps_bind keeps_if keeps_staff_quiet keeps_staff_transaction)
qed

lemma keeps_staff_social:
  "keeps staff (resolveUser now s c)" "keeps staff (createHandoffCode now i)" "keeps staff (redeemHandoffCode now code)"
proof -
  have "keeps staff (matchOrLink now s c)"
    unfolding matchOrLink_def by (intro keeps_intros keeps_staff_quiet keeps_staff_transaction)
  moreover have "keeps staff (case e of SocialLoginRejected r d \<Rightarrow> bindM (auditRecord now None ''USER'' j a None (b r) c) (\<lambda>_. throw e) | _ \<Rightarrow> throw e)" for e j a b
    by (auto intro!: keeps_intros keeps_staff_quiet split: http_error.split)
  ultimately show "keeps staff (resolveUser now s c)"
    unfolding resolveUser_def by (intro keeps_intros keeps_staff_quiet)
  show "keeps staff (createHandoffCode now i)"
    unfolding createHandoffCode_def
    by (intro keeps_intros keeps_staff_quiet keeps_staff_transaction) (auto simp: keeps_def Let_def staff_def)
  show "keeps staff (redeemHandoffCode now code)"
    unfolding redeemHandoffCode_def by (intro keeps_intros keeps_staff_quiet)
qed

section \<open>The guard in front of the administration\<close>

definition caller_in :: "uuid \<Rightarrow> world \<Rightarrow> bool" where
  "caller_in me w \<longleftrightarrow> (\<exists>u \<in> set (users w). u_id u = me \<and> u_role u = SUPER_ADMIN \<and> u_isActive u)"

text \<open>A request that passed \<open>JwtAuthGuard\<close> and \<open>RolesGuard\<close> for Super Admins, with the world it then runs in.\<close>

definition admitted :: "instant \<Rightarrow> (string \<Rightarrow> jwt_payload option) \<Rightarrow> string \<Rightarrow> actor_context \<Rightarrow> world \<Rightarrow> world \<Rightarrow> bool" where
  "admitted now jwt header actor w w0 \<longleftrightarrow>
     (\<exists>me. jwtAuthGuard now jwt header w = (Inr me, w0) \<and> rolesGuard (Some [SUPER_ADMIN]) (Some me) = Inr True \<and> actorId actor = au_id me)"

lemma authenticate_eval:
  "authenticate now token w =
     (if take (length API_TOKEN_PREFIX) token \<noteq> API_TOKEN_PREFIX then (Inr None, w)
      else case find_by tk_tokenHash (env_sha256 (env w) token) (api_tokens w) of
             None \<Rightarrow> (Inr None, w)
           | Some t \<Rightarrow> (case find_by u_id (tk_userId t) (users w) of
                         None \<Rightarrow> (Inr None, w)
                       | Some u \<Rightarrow> if token_refused now t \<or> \<not> u_isActive u then (Inr None, w)
                                  else (Inr (Some (auth_user_of u)), snd (touch_token now t w))))"
  by (simp add: authenticate_def bindM_def touch_token_def split: option.split)

lemma authenticate_cases:
  obtains "authenticate now token w = (Inr None, w)"
  | u w0 where "authenticate now token w = (Inr (Some (auth_user_of u)), w0)" "users w0 = users w" "u \<in> set (users w)" "u_isActive u"
proof -
  have "users (snd (touch_token now t w)) = users w" for t by (simp add: touch_token_def)
  then have "authenticate now token w = (Inr None, w) \<or>
      (\<exists>u w0. authenticate now token w = (Inr (Some (auth_user_of u)), w0) \<and> users w0 = users w \<and> u \<in> set (users w) \<and> u_isActive u)"
    unfolding authenticate_eval by (auto split: option.split dest: find_by_SomeD)
  then show ?thesis using that by blast
qed

lemma admitted_caller:
  assumes "admitted now jwt header actor w w0"
  shows "users w0 = users w" "caller_in (actorId actor) w0" "accounts_follow w w0"
proof -
  obtain me where g: "jwtAuthGuard now jwt header w = (Inr me, w0)" and r: "au_role me = SUPER_ADMIN" "actorId actor = au_id me"
    using assms by (auto simp: admitted_def rolesGuard_def split: if_splits)
  have "obeys accounts_follow (jwtAuthGuard now jwt header)"
    unfolding jwtAuthGuard_def by (intro accounts.obeys_rules accounts_api_tokens)
  from obeysD [OF this, of w] g show "accounts_follow w w0" by simp
  have "users w0 = users w \<and> (\<exists>u \<in> set (users w). me = auth_user_of u \<and> u_isActive u)"
  proof (cases "bearer_api_token header")
    case None
    then show ?thesis using g find_by_SomeD [of u_id]
      by (auto simp: jwtAuthGuard_def validate_def split: option.splits if_splits)
  next
    case (Some t)
    show ?thesis
    proof (cases rule: authenticate_cases [of now t w])
      case 1
      then show ?thesis using g Some find_by_SomeD [of u_id]
        by (auto simp: jwtAuthGuard_def bindM_def validate_def split: option.splits if_splits)
    next
      case (2 u w1)
      then show ?thesis using g Some by (auto simp: jwtAuthGuard_def bindM_def)
    qed
  qed
  then show "users w0 = users w" "caller_in (actorId actor) w0" using r by (auto simp: caller_in_def auth_user_of_def)
qed

section \<open>What an administrative request does to the users\<close>

lemma users_of_update_user: "users (snd (update_user now i f w)) = users w \<or>
    users (snd (update_user now i f w)) = update_by u_id i (\<lambda>v. (f v)\<lparr>u_updatedAt := now\<rparr>) (users w)"
  by (simp add: update_user_def split: option.split)

text \<open>What follows a write without touching the users does not matter to them.\<close>

lemma keeps_after: "(\<And>a. keeps f (g a)) \<Longrightarrow> f (snd (bindM m g w)) = f (snd (m w))"
  by (auto simp: bindM_def keeps_def split: prod.split sum.split)

lemma keeps_users_link: "keeps users (sendSignInLink now i a c)"
  unfolding sendSignInLink_def
  by (intro keeps_intros keeps_transaction)
     (auto simp: keeps_def randomBytes_def expire_links_def insert_password_token_def auditRecord_def sendAccountMail_def rollback_def Let_def)

lemma create_users:
  "users (snd (userAdminCreate now dto actor w)) = users w \<or>
   (assertEmailFree (cu_email dto) None w = Inr () \<and>
    users (snd (userAdminCreate now dto actor w)) = users w @ [new_user now dto (env_uuid (env w) (uuid_next w))])"
proof (cases "assertEmailFree (cu_email dto) None w")
  case (Inr u)
  let ?m = "writeOrTranslate (transaction (bindM (insert_user now dto) (\<lambda>row.
        bindM (auditRecord now (Some (actorId actor)) ''USER'' (u_id (ur_user row)) ''USER_CREATED'' None (Some (auditShape row))
                 (correlationId actor)) (\<lambda>_. ret row))))"
  have m: "users (snd (?m w)) = users w \<or> users (snd (?m w)) = users w @ [new_user now dto (env_uuid (env w) (uuid_next w))]"
    by (simp add: writeOrTranslate_def catchM_def transactionM_def bindM_def insert_user_def Let_def auditRecord_def rollback_def)
  let ?n = "\<lambda>created. bindM (sendSignInLink now (u_id (ur_user created)) (Some (actorId actor)) (correlationId actor))
      (\<lambda>invite. ret (toView now created, invite))"
  have "keeps users (?n created)" for created by (intro keeps_intros keeps_users_link)
  then have "users (snd (bindM ?m ?n w)) = users (snd (?m w))" by (rule keeps_after)
  moreover have "userAdminCreate now dto actor w = bindM ?m ?n w" using Inr by (simp add: userAdminCreate_def)
  ultimately have "users (snd (userAdminCreate now dto actor w)) = users (snd (?m w))" by simp
  with m Inr show ?thesis by simp
qed (simp add: userAdminCreate_def)

lemma update_users:
  "users (snd (userAdminUpdate now i dto actor w)) = users w \<or>
   ((\<exists>before. update_checks i dto (actorId actor) w = Inr before) \<and>
    users (snd (userAdminUpdate now i dto actor w)) = update_by u_id i (\<lambda>v. (patch_user dto v)\<lparr>u_updatedAt := now\<rparr>) (users w))"
proof (cases "update_checks i dto (actorId actor) w")
  case (Inr before)
  let ?n = "\<lambda>u. bindM (if changes_email dto (ur_user before) then expire_links now i else ret ()) (\<lambda>_.
        bindM (getM (\<lambda>w. user_select w u)) (\<lambda>updated.
        bindM (auditRecord now (Some (actorId actor)) ''USER'' i ''USER_UPDATED'' (Some (auditShape before)) (Some (auditShape updated))
                 (correlationId actor)) (\<lambda>_. ret updated)))"
  let ?b = "bindM (update_user_unique now i (patch_user dto)) ?n"
  have n: "keeps users (?n u)" for u
    by (intro keeps_intros) (auto simp: keeps_def expire_links_def auditRecord_def)
  have "users (snd (update_user_unique now i (patch_user dto) w)) = users w \<or>
      users (snd (update_user_unique now i (patch_user dto) w)) = update_by u_id i (\<lambda>v. (patch_user dto v)\<lparr>u_updatedAt := now\<rparr>) (users w)"
    by (simp add: update_user_unique_def update_user_def split: option.split)
  then have b: "users (snd (?b w)) = users w \<or> users (snd (?b w)) = update_by u_id i (\<lambda>v. (patch_user dto v)\<lparr>u_updatedAt := now\<rparr>) (users w)"
    using keeps_after [of users ?n, OF n] by simp
  have "users (snd (writeOrTranslate (transaction ?b) w)) = users w \<or> users (snd (writeOrTranslate (transaction ?b) w)) = users (snd (?b w))"
    by (cases "?b w"; cases "fst (?b w)") (simp_all add: writeOrTranslate_def catchM_def transactionM_def rollback_def)
  moreover have "userAdminUpdate now i dto actor w = bindM (writeOrTranslate (transaction ?b)) (\<lambda>after. ret (toView now after)) w"
    using Inr by (simp add: userAdminUpdate_def)
  ultimately show ?thesis
    using b Inr keeps_after [of users "\<lambda>after. ret (toView now after)" "writeOrTranslate (transaction ?b)" w] by (auto simp: keeps_basic)
qed (simp add: userAdminUpdate_def)

lemma setActive_users:
  "users (snd (setActive now before a actor w)) = users w \<or>
   users (snd (setActive now before a actor w)) = update_by u_id (u_id (ur_user before)) (\<lambda>v. v\<lparr>u_isActive := a, u_updatedAt := now\<rparr>) (users w)"
  by (auto simp: setActive_def bindM_def transactionM_def update_user_def auditRecord_def rollback_def split: option.split)

lemma findRow_Inr: "findRow i w = Inr r \<longleftrightarrow> (\<exists>u. find_by u_id i (users w) = Some u \<and> r = user_select w u)"
  by (auto simp: findRow_def split: option.splits)

lemma findRow_id: "findRow i w = Inr r \<Longrightarrow> u_id (ur_user r) = i"
  by (auto simp: findRow_Inr user_select_def dest: find_by_SomeD)

lemma deactivate_users:
  "users (snd (deactivate now i actor w)) = users w \<or>
   (i \<noteq> actorId actor \<and> users (snd (deactivate now i actor w)) = update_by u_id i (\<lambda>v. v\<lparr>u_isActive := False, u_updatedAt := now\<rparr>) (users w))"
proof (cases "deactivate_checks i (actorId actor) w")
  case (Inr before)
  then have "i \<noteq> actorId actor" "u_id (ur_user before) = i"
    by (auto simp: deactivate_checks_def split: if_splits sum.splits dest: findRow_id)
  then show ?thesis using Inr setActive_users [of now before False actor w] by (simp add: deactivate_def)
qed (simp add: deactivate_def)

lemma reactivate_users:
  "users (snd (reactivate now i actor w)) = users w \<or>
   users (snd (reactivate now i actor w)) = update_by u_id i (\<lambda>v. v\<lparr>u_isActive := True, u_updatedAt := now\<rparr>) (users w)"
proof (cases "findRow i w")
  case (Inr before)
  then show ?thesis
    using setActive_users [of now before True actor w] findRow_id [OF Inr] by (auto simp: reactivate_def bindM_readM)
qed (simp add: reactivate_def bindM_readM)

lemma setSites_users: "keeps users (userAdminSetSites now i siteIds actor)"
  unfolding userAdminSetSites_def writeOrTranslate_def
  by (intro keeps_intros keeps_transaction) (auto simp: keeps_def regrant_def auditRecord_def rollback_def Let_def)

section \<open>Runs of the directory\<close>

inductive directory_step :: "world \<Rightarrow> world \<Rightarrow> bool" where
  di_create: "admitted now jwt header actor w w0 \<Longrightarrow> directory_step w (snd (userAdminCreate now dto actor w0))"
| di_update: "admitted now jwt header actor w w0 \<Longrightarrow> directory_step w (snd (userAdminUpdate now i udto actor w0))"
| di_sites: "admitted now jwt header actor w w0 \<Longrightarrow> directory_step w (snd (userAdminSetSites now i siteIds actor w0))"
| di_deactivate: "admitted now jwt header actor w w0 \<Longrightarrow> directory_step w (snd (deactivate now i actor w0))"
| di_reactivate: "admitted now jwt header actor w w0 \<Longrightarrow> directory_step w (snd (reactivate now i actor w0))"
| di_login: "directory_step w (snd (login now email p c w))"
| di_link: "directory_step w (snd (sendSignInLink now i who c w))"
| di_setPassword: "directory_step w (snd (setPassword now token p c w))"
| di_social: "directory_step w (snd (resolveUser now s c w))"
| di_redeem: "directory_step w (snd (redeemHandoffCode now code w))"
| di_elsewhere: "env w' = env w \<Longrightarrow> uuid_next w \<le> uuid_next w' \<Longrightarrow> users w' = users w \<Longrightarrow> directory_step w w'"

definition emails_unique :: "world \<Rightarrow> bool" where
  "emails_unique w \<longleftrightarrow> distinct (map (toLowerCase \<circ> u_email) (users w))"

definition directory_inv :: "world \<Rightarrow> bool" where
  "directory_inv w \<longleftrightarrow> keys_ok users u_id w \<and> emails_unique w \<and> (\<exists>me. caller_in me w)"

lemma caller_staff: "caller_in me w \<longleftrightarrow> (\<exists>e. (me, e, SUPER_ADMIN, True) \<in> set (staff w))"
  by (simp add: caller_in_def staff_def image_iff) metis

lemma emails_staff: "emails_unique w \<longleftrightarrow> distinct (map (toLowerCase \<circ> fst \<circ> snd) (staff w))"
  by (simp add: emails_unique_def staff_def comp_def)

lemma inv_staff:
  assumes "staff w' = staff w" "users_follow w w'" "directory_inv w"
  shows "directory_inv w'"
  using assms by (auto simp: directory_inv_def caller_staff emails_staff rows_follow_def)

text \<open>Changing one row keeps emails apart when its new email is no other row's.\<close>

lemma emails_update:
  assumes "distinct (map (toLowerCase \<circ> u_email) rows)" "distinct (map u_id rows)"
    "\<And>v. v \<in> set rows \<Longrightarrow> u_id v = i \<Longrightarrow> u_email (f v) = u_email v \<or> (\<forall>x \<in> set rows. u_id x \<noteq> i \<longrightarrow> \<not> iequals (u_email x) (u_email (f v)))"
  shows "distinct (map (toLowerCase \<circ> u_email) (update_by u_id i f rows))"
  using assms
proof (induction rows)
  case (Cons r rows)
  have IH: "distinct (map (toLowerCase \<circ> u_email) (update_by u_id i f rows))" 
  proof (rule Cons.IH)
    show "u_email (f v) = u_email v \<or> (\<forall>x \<in> set rows. u_id x \<noteq> i \<longrightarrow> \<not> iequals (u_email x) (u_email (f v)))" if "v \<in> set rows" "u_id v = i" for v
      using Cons.prems(3) [of v] that by auto
  qed (use Cons.prems in simp_all)
  show ?case
  proof (cases "u_id r = i")
    case True
    then have "update_by u_id i f rows = rows" using Cons.prems(2) by (induction rows) auto
    then show ?thesis using True Cons.prems by (fastforce simp: iequals_def image_iff)
  next
    case False
    have "toLowerCase (u_email r) \<noteq> toLowerCase (u_email (if u_id x = i then f x else x))" if "x \<in> set rows" for x
      using Cons.prems(1) Cons.prems(3) [of x] that False by (auto simp: iequals_def image_iff)
    then show ?thesis using False IH by (auto simp: update_by_def comp_def)
  qed
qed simp

lemma update_email_free:
  assumes "update_checks i dto me w = Inr before" "keys_ok users u_id w" "v \<in> set (users w)" "u_id v = i"
  shows "u_email (patch_user dto v) = u_email v \<or> (\<forall>x \<in> set (users w). u_id x \<noteq> i \<longrightarrow> \<not> iequals (u_email x) (u_email (patch_user dto v)))"
    and "i = me \<Longrightarrow> u_role (patch_user dto v) = u_role v"
proof -
  have f: "find_by u_id i (users w) = Some v" using assms find_by_distinct [of u_id "users w" v] by (simp add: keys_ok_def)
  then have b: "ur_user before = v" "findRow i w = Inr (user_select w v)"
    using assms(1) by (auto simp: update_checks_def findRow_def user_select_def Let_def split: if_splits sum.splits)
  show "i = me \<Longrightarrow> u_role (patch_user dto v) = u_role v"
    using assms(1) b by (auto simp: update_checks_def Let_def changes_role_def patch_user_def user_select_def patched_def split: if_splits option.splits)
  show "u_email (patch_user dto v) = u_email v \<or> (\<forall>x \<in> set (users w). u_id x \<noteq> i \<longrightarrow> \<not> iequals (u_email x) (u_email (patch_user dto v)))"
  proof (cases "changes_email dto v")
    case True
    then have "assertEmailFree (the (uu_email dto)) (Some i) w = Inr ()"
      using assms(1) b by (auto simp: update_checks_def Let_def user_select_def split: if_splits sum.splits)
    then show ?thesis using True by (auto simp: assertEmailFree_def changes_email_def patch_user_def patched_def split: if_splits option.splits)
  qed (auto simp: changes_email_def patch_user_def patched_def split: option.splits)
qed

lemma caller_update:
  assumes "caller_in me w" "users w' = update_by u_id i f (users w)"
    "\<And>v. v \<in> set (users w) \<Longrightarrow> u_id v = i \<Longrightarrow> u_id (f v) = i \<and> (i = me \<and> u_role v = SUPER_ADMIN \<and> u_isActive v \<longrightarrow> u_role (f v) = SUPER_ADMIN \<and> u_isActive (f v))"
  shows "caller_in me w'"
proof -
  obtain u where u: "u \<in> set (users w)" "u_id u = me" "u_role u = SUPER_ADMIN" "u_isActive u" using assms(1) by (auto simp: caller_in_def)
  let ?v = "if u_id u = i then f u else u"
  have "?v \<in> set (users w')" using u(1) unfolding assms(2) update_by_def by force
  moreover have "u_id ?v = me \<and> u_role ?v = SUPER_ADMIN \<and> u_isActive ?v" using u assms(3) [of u] by auto
  ultimately show ?thesis unfolding caller_in_def by blast
qed

text \<open>The five administrative writes, from a world the request was admitted to.\<close>

lemma inv_active:
  assumes "directory_inv w" "users w' = update_by u_id i (\<lambda>v. v\<lparr>u_isActive := a, u_updatedAt := now\<rparr>) (users w)" "users_follow w w'"
    "caller_in me w" "a \<or> i \<noteq> me"
  shows "directory_inv w'"
proof -
  have "caller_in me w'" by (rule caller_update [OF assms(4,2)]) (use assms(5) in auto)
  moreover have "map (toLowerCase \<circ> u_email) (users w') = map (toLowerCase \<circ> u_email) (users w)" unfolding assms(2) by (simp add: update_by_def)
  ultimately show ?thesis using assms(1,3) unfolding directory_inv_def emails_unique_def rows_follow_def by metis
qed

lemma inv_update:
  assumes "directory_inv w" "update_checks i dto me w = Inr before" "users_follow w w'" "caller_in me w"
    "users w' = update_by u_id i (\<lambda>v. (patch_user dto v)\<lparr>u_updatedAt := now\<rparr>) (users w)"
  shows "directory_inv w'"
proof -
  have k: "keys_ok users u_id w" using assms(1) by (simp add: directory_inv_def)
  have "caller_in me w'"
    by (rule caller_update [OF assms(4,5)]) (use update_email_free(2) [OF assms(2) k] in \<open>fastforce simp: patch_user_def\<close>)
  moreover have "emails_unique w'"
    unfolding emails_unique_def assms(5)
  proof (rule emails_update)
    show "distinct (map (toLowerCase \<circ> u_email) (users w))" using assms(1) by (simp add: directory_inv_def emails_unique_def)
    show "distinct (map u_id (users w))" using k by (simp add: keys_ok_def)
  qed (use update_email_free(1) [OF assms(2) k] in simp)
  ultimately show ?thesis using assms(3) k by (auto simp: directory_inv_def rows_follow_def)
qed

lemma inv_create:
  assumes "directory_inv w" "assertEmailFree (cu_email dto) None w = Inr ()" "users_follow w w'" "users w' = users w @ [new_user now dto i]"
  shows "directory_inv w'"
proof -
  have "emails_unique w'"
    using assms(1,2) by (auto simp: directory_inv_def emails_unique_def assms(4) assertEmailFree_def new_user_def iequals_def split: if_splits)
  moreover obtain me where "caller_in me w" using assms(1) by (auto simp: directory_inv_def)
  then have "caller_in me w'" by (auto simp: caller_in_def assms(4))
  ultimately show ?thesis using assms(1,3) by (auto simp: directory_inv_def rows_follow_def)
qed

lemma admin_inv:
  assumes adm: "admitted now jwt header actor w w0" and inv: "directory_inv w"
  shows "directory_inv (snd (userAdminCreate now dto actor w0))" "directory_inv (snd (userAdminUpdate now i udto actor w0))"
    "directory_inv (snd (userAdminSetSites now i siteIds actor w0))" "directory_inv (snd (deactivate now i actor w0))"
    "directory_inv (snd (reactivate now i actor w0))"
proof -
  have me: "caller_in (actorId actor) w0" and inv0: "directory_inv w0"
    using admitted_caller [OF adm] inv by (auto intro: inv_staff staff_users simp: accounts_follow_def)
  have follow: "users_follow w0 (snd (userAdminCreate now dto actor w0))" "users_follow w0 (snd (userAdminUpdate now i udto actor w0))"
    "users_follow w0 (snd (userAdminSetSites now i siteIds actor w0))" "users_follow w0 (snd (deactivate now i actor w0))"
    "users_follow w0 (snd (reactivate now i actor w0))"
    using accounts_admin [THEN obeysD] accounts_activation [THEN obeysD] by (auto simp: accounts_follow_def)
  have same: "directory_inv w'" if "users w' = users w0" "users_follow w0 w'" for w'
    using that inv0 by (auto intro: inv_staff staff_users)
  show "directory_inv (snd (userAdminCreate now dto actor w0))"
    using create_users [of now dto actor w0] same [OF _ follow(1)] inv_create [OF inv0 _ follow(1)] by blast
  show "directory_inv (snd (userAdminUpdate now i udto actor w0))"
    using update_users [of now i udto actor w0] same [OF _ follow(2)] inv_update [OF inv0 _ follow(2) me] by blast
  show "directory_inv (snd (userAdminSetSites now i siteIds actor w0))"
    using keepsD [OF setSites_users, of now i siteIds actor w0] same [OF _ follow(3)] by blast
  show "directory_inv (snd (deactivate now i actor w0))"
    using deactivate_users [of now i actor w0] same [OF _ follow(4)] inv_active [OF inv0 _ follow(4) me] by blast
  show "directory_inv (snd (reactivate now i actor w0))"
    using reactivate_users [of now i actor w0] same [OF _ follow(5)] inv_active [OF inv0 _ follow(5) me, where a = True] by blast
qed

lemma sign_in_inv:
  assumes "directory_inv w"
  shows "directory_inv (snd (login now email p c w))" "directory_inv (snd (sendSignInLink now i who c w))"
    "directory_inv (snd (setPassword now token p c w))" "directory_inv (snd (resolveUser now s c w))" "directory_inv (snd (redeemHandoffCode now code w))"
proof -
  have inv: "directory_inv (snd (m w))" if "keeps staff m" "obeys accounts_follow m" for m :: "user op"
    using inv_staff [OF keepsD [OF that(1)] _ assms] obeysD [OF that(2), of w] by (simp add: accounts_follow_def)
  show "directory_inv (snd (login now email p c w))" by (rule inv [OF keeps_staff_login accounts_login])
  show "directory_inv (snd (sendSignInLink now i who c w))"
    using inv_staff [OF keepsD [OF keeps_staff_link] _ assms] obeysD [OF accounts_sendSignInLink, of w] by (simp add: accounts_follow_def)
  show "directory_inv (snd (setPassword now token p c w))" by (rule inv [OF keeps_staff_setPassword accounts_setPassword])
  show "directory_inv (snd (resolveUser now s c w))" by (rule inv [OF keeps_staff_social(1) accounts_social(1)])
  show "directory_inv (snd (redeemHandoffCode now code w))" by (rule inv [OF keeps_staff_social(3) accounts_social(3)])
qed

lemma directory_step_inv: "directory_step w w' \<Longrightarrow> directory_inv w \<Longrightarrow> directory_inv w'"
proof (induction rule: directory_step.induct)
  case (di_elsewhere w' w)
  then show ?case by (intro inv_staff [of w' w] staff_users user_register.follow_same)
qed (auto intro: admin_inv sign_in_inv)

interpretation directory_run: invariant_system directory_step directory_inv
  by unfold_locales (rule directory_step_inv)

text \<open>
  C26: An active Super Admin always remains and no two users share an email, whatever its case, over
  any run in which each administrative request is checked by the guards in the state it runs in.
\<close>

theorem super_admin_remains:
  assumes "directory_inv w" "directory_step\<^sup>*\<^sup>* w w'"
  shows "(\<exists>u \<in> set (users w'). u_role u = SUPER_ADMIN \<and> u_isActive u) \<and> distinct (map (toLowerCase \<circ> u_email) (users w'))"
  using directory_run.run_inv [OF assms(2,1)] by (auto simp: directory_inv_def caller_in_def emails_unique_def)

section \<open>Two administrators at once\<close>

lemma deactivate_run:
  assumes "i \<noteq> actorId actor" "find_by u_id i (users w) = Some u" "u_isActive u" "incidentDeactivationCheck w i = None"
  shows "\<exists>view aud. deactivate now i actor w =
    (Inr view, w\<lparr>users := update_by u_id i (\<lambda>v. v\<lparr>u_isActive := False, u_updatedAt := now\<rparr>) (users w), audits := aud\<rparr>)"
proof -
  have "u_id u = i" using find_by_SomeD [OF assms(2)] by simp
  then show ?thesis using assms
    by (simp add: deactivate_def deactivate_checks_def findRow_def assertNoBlockers_def deactivation_listeners_def List.map_filter_def user_select_def
        setActive_def bindM_def transactionM_def update_user_def auditRecord_def) (rule exI, rule refl)
qed

text \<open>
  Two Super Admins whose requests are both past the guards can deactivate each other: both
  requests succeed and no active Super Admin is left, although neither acted on himself.
\<close>

theorem mutual_deactivation:
  assumes two: "find_by u_id (u_id a) (users w) = Some a" "find_by u_id (u_id b) (users w) = Some b" "u_id a \<noteq> u_id b" "u_isActive a" "u_isActive b"
    "u_id a \<noteq> []" "u_id b \<noteq> []"
    and only: "list_all (\<lambda>u. u_role u = SUPER_ADMIN \<and> u_isActive u \<longrightarrow> u_id u = u_id a \<or> u_id u = u_id b) (users w)"
    and idle: "incidentDeactivationCheck w (u_id a) = None" "incidentDeactivationCheck w (u_id b) = None"
    and actors: "actorId A = u_id a" "actorId B = u_id b"
    and run: "w1 = snd (deactivate t (u_id b) A w)" "w2 = snd (deactivate t' (u_id a) B w1)"
  shows "validate (issueToken a) w = Inr (auth_user_of a) \<and> validate (issueToken b) w = Inr (auth_user_of b) \<and>
    isl (fst (deactivate t (u_id b) A w)) = False \<and> isl (fst (deactivate t' (u_id a) B w1)) = False \<and>
    \<not> (\<exists>u \<in> set (users w2). u_role u = SUPER_ADMIN \<and> u_isActive u)"
proof -
  let ?f = "\<lambda>t v. v\<lparr>u_isActive := False, u_updatedAt := t\<rparr>"
  obtain view aud where d1: "deactivate t (u_id b) A w = (Inr view, w\<lparr>users := update_by u_id (u_id b) (?f t) (users w), audits := aud\<rparr>)"
    using deactivate_run [of "u_id b" A w b t] two actors idle by auto
  then have w1: "w1 = w\<lparr>users := update_by u_id (u_id b) (?f t) (users w), audits := aud\<rparr>" using run(1) by simp
  have "find_by u_id (u_id a) (users w1) = Some a"
    using two(1,3) by (simp add: w1 table_simps)
  moreover have "incidentDeactivationCheck w1 (u_id a) = None" using idle(1) by (simp add: w1 incidentDeactivationCheck_def)
  ultimately obtain view' aud' where d2: "deactivate t' (u_id a) B w1 =
      (Inr view', w1\<lparr>users := update_by u_id (u_id a) (?f t') (users w1), audits := aud'\<rparr>)"
    using deactivate_run [of "u_id a" B w1 a t'] two(3,4) actors by auto
  then have "users w2 = update_by u_id (u_id a) (?f t') (update_by u_id (u_id b) (?f t) (users w))" using run(2) w1 by simp
  then have "\<not> (\<exists>u \<in> set (users w2). u_role u = SUPER_ADMIN \<and> u_isActive u)"
    using only by (auto simp: update_by_def list_all_iff split: if_splits)
  then show ?thesis using d1 d2 two by (simp add: validate_def issueToken_def)
qed

section \<open>Site grants\<close>

lemma granted_regrant:
  "granted j (w\<lparr>site_accesses := filter (\<lambda>a. \<not> (sa_userId a = i \<and> sa_siteId a \<in> set toRemove)) (site_accesses w) @ grant_rows i toAdd\<rparr>) =
     (if j = i then filter (\<lambda>s. s \<notin> set toRemove) (granted i w) @ toAdd else granted j w)"
  by (auto simp: granted_def grant_rows_def filter_map comp_def conj_commute intro!: arg_cong [where f = "map sa_siteId"] filter_cong)

text \<open>
  Setting the sites of a user grants exactly those: afterwards the user, in a role that is
  limited to sites, may see a site when and only when it was listed, and nobody else's grants moved.
\<close>

theorem site_grants_exact:
  assumes run: "userAdminSetSites now i siteIds actor w = (Inr view, w')"
    and caller: "au_id u = i" "\<not> isAllSitesRole (au_role u)"
  shows "(canAccessSite w' u s \<longleftrightarrow> s \<in> set siteIds) \<and> (j \<noteq> i \<longrightarrow> granted j w' = granted j w)"
proof -
  obtain x where x: "find_by u_id i (users w) = Some x"
    using run by (cases "find_by u_id i (users w)") (auto simp: userAdminSetSites_def findRow_def)
  have id: "u_id x = i" using find_by_SomeD [OF x] by simp
  let ?add = "filter (\<lambda>s. s \<notin> set (granted i w)) siteIds" and ?rem = "filter (\<lambda>s. s \<notin> set siteIds) (remdups (granted i w))"
  have "set (granted i w') = set siteIds \<and> (j \<noteq> i \<longrightarrow> granted j w' = granted j w)"
  proof (cases "?add = [] \<and> ?rem = []")
    case True
    then have "w' = w" using run x id by (simp add: userAdminSetSites_def findRow_def user_select_def bindM_readM)
    then show ?thesis using True by (auto simp: filter_empty_conv)
  next
    case False
    obtain e w1 where reg: "regrant i ?add ?rem w = (e, w1)" by (cases "regrant i ?add ?rem w")
    have ok: "e = Inr () \<and> (\<exists>aud. w' = w1\<lparr>audits := aud\<rparr>)"
      using run x id False reg
      by (cases e) (auto simp: userAdminSetSites_def findRow_def user_select_def bindM_def writeOrTranslate_def catchM_def transactionM_def
          user_or_throw_def auditRecord_def Let_def split: if_splits option.splits)
    then have "granted k w' = (if k = i then filter (\<lambda>s. s \<notin> set ?rem) (granted i w) @ ?add else granted k w)" for k
      using reg granted_regrant [where j = k and w = w and i = i and toRemove = ?rem and toAdd = ?add] by (auto simp: regrant_def Let_def granted_def split: if_splits)
    then show ?thesis by auto
  qed
  then show ?thesis
    using caller by (auto simp: canAccessSite_def getAccessibleSiteIds_def isAllSitesRole_def granted_def)
qed

section \<open>Social identities\<close>

text \<open>
  A social sign-in returns a user only when that user is active and either the identity is
  linked to them already, or the provider did not disown the email, the email is theirs, and they
  have no other account of that provider linked.
\<close>

theorem social_sign_in_trust:
  assumes "resolveUser now s c w = (Inr u, w')" "distinct (map u_id (users w))"
  shows "u_isActive u \<and> u \<in> set (users w) \<and>
    ((\<exists>i. find_identity s w = Some i \<and> ui_userId i = u_id u) \<or>
     (find_identity s w = None \<and> so_emailVerified s \<noteq> Some False \<and>
      (\<exists>e. so_email s = Some e \<and> iequals (u_email u) e) \<and> \<not> (\<exists>i \<in> set (identities w). ui_userId i = u_id u \<and> ui_provider i = so_provider s)))"
proof -
  obtain r w1 where m: "matchOrLink now s c w = (r, w1)" by (cases "matchOrLink now s c w")
  have r: "r = Inr u" "u_isActive u"
    using assms(1) m by (cases r; auto simp: resolveUser_def catchM_def bindM_def touch_identity_def auditRecord_def split: http_error.splits if_splits)+
  show ?thesis
  proof (cases "find_identity s w")
    case (Some i)
    then have "find_by u_id (ui_userId i) (users w) = Some u"
      using m r by (auto simp: matchOrLink_def user_or_throw_def split: option.splits)
    then show ?thesis using Some r find_by_SomeD [of u_id] by auto
  next
    case None
    obtain v where v: "link_checks s w = Inr v" using m r None by (cases "link_checks s w") (auto simp: matchOrLink_def)
    then have trust: "so_emailVerified s \<noteq> Some False" "find_email (the (so_email s)) w = Some v" "truthy (so_email s)"
      "\<not> (\<exists>i \<in> set (identities w). ui_userId i = u_id v \<and> ui_provider i = so_provider s)"
      by (auto simp: link_checks_def split: if_splits option.splits)
    have "find_by u_id (u_id v) (users w) = Some u"
      using m r None v by (auto simp: matchOrLink_def bindM_def transactionM_def insert_identity_def Let_def auditRecord_def user_or_throw_def
          split: if_splits option.splits)
    moreover have "v \<in> set (users w)" "iequals (u_email v) (the (so_email s))"
      using trust(2) by (auto simp: find_email_def find_Some_iff)
    ultimately have "u = v" using find_by_distinct [OF assms(2), of v] by simp
    then show ?thesis using None r trust \<open>v \<in> _\<close> \<open>iequals _ _\<close> by (auto simp: truthy_def split: option.splits)
  qed
qed

section \<open>An example directory\<close>

definition second_admin :: user where
  "second_admin = root_user\<lparr>u_id := ''1'', u_email := ''s@x'', u_displayName := ''Second''\<rparr>"

definition admin_world :: world where
  "admin_world = empty_world\<lparr>uuid_next := 2, users := [root_user, second_admin]\<rparr>"

lemma admin_world_inv: "directory_inv admin_world"
proof -
  have "nat_str (Suc 0) = ''1''" "toLowerCase ''r@x'' \<noteq> toLowerCase ''s@x''" by code_simp+
  moreover have "\<exists>n < 2. ''0'' = nat_str n" "\<exists>n < 2. ''1'' = nat_str n"
    by (rule exI [of _ 0], simp add: nat_str_zero) (rule exI [of _ 1], simp add: \<open>nat_str (Suc 0) = _\<close>)
  ultimately show ?thesis
    by (auto simp: directory_inv_def keys_ok_def emails_unique_def caller_in_def admin_world_def root_user_def second_admin_def empty_world_def issued_def
        intro: injI nat_str_inj)
qed

text \<open>The session of the first administrator, as the JWT library would hand it over.\<close>

definition root_session :: "string \<Rightarrow> jwt_payload option" where
  "root_session header = (if header = ''Bearer jwt'' then Some (issueToken root_user) else None)"

theorem super_admin_remains_witness:
  "\<exists>u \<in> set (users (snd (deactivate 5 ''1'' \<lparr>actorId = ''0'', correlationId = None\<rparr> admin_world))). u_role u = SUPER_ADMIN \<and> u_isActive u"
proof -
  have "bearer_api_token ''Bearer jwt'' = None" by code_simp
  then have "admitted 5 root_session ''Bearer jwt'' \<lparr>actorId = ''0'', correlationId = None\<rparr> admin_world admin_world"
    by (simp add: admitted_def jwtAuthGuard_def root_session_def validate_def issueToken_def root_user_def admin_world_def auth_user_of_def rolesGuard_def)
  then have "directory_step admin_world (snd (deactivate 5 ''1'' \<lparr>actorId = ''0'', correlationId = None\<rparr> admin_world))" by (rule di_deactivate)
  from super_admin_remains [OF admin_world_inv r_into_rtranclp [of directory_step, OF this]] show ?thesis by blast
qed

theorem mutual_deactivation_witness:
  "\<not> (\<exists>u \<in> set (users (snd (deactivate 6 ''0'' \<lparr>actorId = ''1'', correlationId = None\<rparr>
      (snd (deactivate 5 ''1'' \<lparr>actorId = ''0'', correlationId = None\<rparr> admin_world))))). u_role u = SUPER_ADMIN \<and> u_isActive u)"
  using mutual_deactivation [of root_user admin_world second_admin "\<lparr>actorId = ''0'', correlationId = None\<rparr>" "\<lparr>actorId = ''1'', correlationId = None\<rparr>"
      "snd (deactivate 5 ''1'' \<lparr>actorId = ''0'', correlationId = None\<rparr> admin_world)" 5 _ 6, OF _ _ _ _ _ _ _ _ _ _ _ _ _ refl]
  by (simp add: admin_world_def root_user_def second_admin_def incidentDeactivationCheck_def empty_world_def)

theorem site_grants_exact_witness:
  "\<exists>v w'. userAdminSetSites 5 ''0'' [''BLR''] \<lparr>actorId = ''1'', correlationId = None\<rparr>
       (admin_world\<lparr>sites := [\<lparr>s_id = ''BLR'', s_code = ''BLR'', s_name = ''B'', s_timezone = ''UTC'', s_is247 = False, s_status = ''ACTIVE''\<rparr>]\<rparr>) = (Inr v, w') \<and>
     canAccessSite w' \<lparr>au_id = ''0'', au_email = ''r@x'', au_role = SITE_ENGINEER\<rparr> ''BLR''"
proof -
  let ?w = "admin_world\<lparr>sites := [\<lparr>s_id = ''BLR'', s_code = ''BLR'', s_name = ''B'', s_timezone = ''UTC'', s_is247 = False, s_status = ''ACTIVE''\<rparr>]\<rparr>"
  obtain v w' where run: "userAdminSetSites 5 ''0'' [''BLR''] \<lparr>actorId = ''1'', correlationId = None\<rparr> ?w = (Inr v, w')"
    by (simp add: userAdminSetSites_def findRow_def admin_world_def root_user_def user_select_def granted_def empty_world_def regrant_def grant_rows_def
        user_or_throw_def writeOrTranslate_def catchM_def transactionM_def bindM_def auditRecord_def Let_def)
  from site_grants_exact [OF run, of "\<lparr>au_id = ''0'', au_email = ''r@x'', au_role = SITE_ENGINEER\<rparr>" "''BLR''"] run
  show ?thesis by (auto simp: isAllSitesRole_def ALL_SITES_ROLES_def)
qed

theorem social_sign_in_trust_witness:
  "\<exists>u w'. resolveUser 5 \<lparr>so_provider = ''google'', so_issuer = ''iss'', so_subject = ''42'', so_email = Some ''r@x'', so_emailVerified = Some True\<rparr> None
     account_world = (Inr u, w') \<and> u_isActive u"
proof -
  let ?s = "\<lparr>so_provider = ''google'', so_issuer = ''iss'', so_subject = ''42'', so_email = Some ''r@x'', so_emailVerified = Some True\<rparr>"
  obtain u w' where run: "resolveUser 5 ?s None account_world = (Inr u, w')"
    by (simp add: resolveUser_def matchOrLink_def find_identity_def link_checks_def find_email_def account_world_def root_user_def empty_world_def
        insert_identity_def user_or_throw_def touch_identity_def catchM_def transactionM_def bindM_def auditRecord_def)
  from social_sign_in_trust [OF run] run show ?thesis by (auto simp: account_world_def)
qed

end
