(* ===== verification/Health.thy ===== *)
theory Health
  imports Adapters Complex_Main
begin

text \<open>
  The hardware health adapters (\<^verbatim>\<open>integrations/redfish\<close>, \<^verbatim>\<open>integrations/hpe-ilo\<close>, \<^verbatim>\<open>integrations/dell-ome\<close>):
  each turns what a management controller reports about one device into the compact snapshot that
  the API stores. Fields have their declared types; a JSON number carries its value and its printed form,
  a date is the instant it denotes, and attributes are kept as printed.
\<close>

section \<open>What the adapters share\<close>

record js_number =
  jn_value :: rat
  jn_text :: string

primrec RANK :: "health_state \<Rightarrow> nat" where
  "RANK UNKNOWN = 0"
| "RANK HEALTHY = 1"
| "RANK IN_MAINTENANCE = 1"
| "RANK WARNING = 2"
| "RANK CRITICAL = 3"

definition worst :: "health_state list \<Rightarrow> health_state" where
  "worst states = foldl (\<lambda>winner state. if RANK winner < RANK state then state else winner) UNKNOWN states"

definition or_undefined :: "string \<Rightarrow> string option" where
  "or_undefined s = (if s = [] then None else Some s)"

definition given_part :: "string option \<Rightarrow> string list" where
  "given_part s = (if truthy s then [the s] else [])"

definition number_part :: "js_number option \<Rightarrow> string \<Rightarrow> string list" where
  "number_part n tail = (case n of None \<Rightarrow> [] | Some v \<Rightarrow> [jn_text v @ tail])"

definition number_detail :: "js_number option \<Rightarrow> string \<Rightarrow> string option" where
  "number_detail n tail = map_option (\<lambda>v. jn_text v @ tail) n"

section \<open>Redfish\<close>

record redfish_status =
  rs_State :: "string option"
  rs_Health :: "string option"
  rs_HealthRollup :: "string option"

record redfish_system =
  sys_Id :: "string option"
  sys_Name :: "string option"
  sys_Manufacturer :: "string option"
  sys_Model :: "string option"
  sys_SerialNumber :: "string option"
  sys_PowerState :: "string option"
  sys_BiosVersion :: "string option"
  sys_Status :: "redfish_status option"
  sys_ProcessorStatus :: "redfish_status option"
  sys_MemoryStatus :: "redfish_status option"

record redfish_temperature =
  te_Name :: "string option"
  te_ReadingCelsius :: "js_number option"
  te_UpperThresholdCritical :: "js_number option"
  te_Status :: "redfish_status option"

record redfish_fan =
  fa_Name :: "string option"
  fa_Reading :: "js_number option"
  fa_ReadingUnits :: "string option"
  fa_Status :: "redfish_status option"

record redfish_power_supply =
  ps_Name :: "string option"
  ps_Status :: "redfish_status option"

record redfish_drive =
  dr_Name :: "string option"
  dr_SerialNumber :: "string option"
  dr_MediaType :: "string option"
  dr_FailurePredicted :: "bool option"
  dr_PredictedMediaLifeLeftPercent :: "js_number option"
  dr_Status :: "redfish_status option"

record redfish_bundle =
  rb_ciCode :: "string option"
  rb_system :: "redfish_system option"
  rb_temperatures :: "redfish_temperature list option"
  rb_fans :: "redfish_fan list option"
  rb_powerSupplies :: "redfish_power_supply list option"
  rb_drives :: "redfish_drive list option"
  rb_observedAt :: "instant option"

definition health_of_text :: "string option \<Rightarrow> health_state" where
  "health_of_text text =
     (let raw = map_option (toLowerCase \<circ> trim) text in
      if raw = Some ''ok'' then HEALTHY else if raw = Some ''warning'' then WARNING
      else if raw = Some ''critical'' then CRITICAL else UNKNOWN)"

definition mapHealth :: "redfish_status option \<Rightarrow> bool \<Rightarrow> health_state" where
  "mapHealth status preferRollup = health_of_text
     (if preferRollup then option_or (Option.bind status rs_HealthRollup) (Option.bind status rs_Health)
      else Option.bind status rs_Health)"

definition POWER_STATE :: "(string \<times> power_state) list" where
  "POWER_STATE = [(''on'', POWER_ON), (''poweringon'', POWER_ON), (''off'', POWER_OFF), (''poweringoff'', POWER_OFF)]"

definition mapPowerState :: "string option \<Rightarrow> power_state" where
  "mapPowerState raw =
     (case table_lookup POWER_STATE (option_default [] (map_option (toLowerCase \<circ> trim) raw)) of
        None \<Rightarrow> POWER_UNKNOWN | Some None \<Rightarrow> POWER_INHERITED | Some (Some p) \<Rightarrow> p)"

definition isAbsent :: "redfish_status option \<Rightarrow> bool" where
  "isAbsent status \<longleftrightarrow> map_option (toLowerCase \<circ> trim) (Option.bind status rs_State) = Some ''absent''"

text \<open>The entries that a call of \<open>pushIfDegraded\<close> appends.\<close>

definition pushIfDegraded :: "component_kind \<Rightarrow> string \<Rightarrow> redfish_status option \<Rightarrow> string option \<Rightarrow> degraded_component list" where
  "pushIfDegraded kind name status detail =
     (if isAbsent status then []
      else let health = mapHealth status False in
        if health \<noteq> HEALTHY then [\<lparr>dg_kind = kind, dg_name = name, dg_health = health, dg_detail = detail\<rparr>] else [])"

definition driveDetail :: "redfish_drive \<Rightarrow> string" where
  "driveDetail drive = join '', ''
     (given_part (dr_MediaType drive) @ number_part (dr_PredictedMediaLifeLeftPercent drive) ''% media life left'' @
      (if dr_FailurePredicted drive = Some True then [''FailurePredicted''] else []))"

definition indexed_name :: "string option \<Rightarrow> string \<Rightarrow> nat \<Rightarrow> string" where
  "indexed_name name what i = option_default (what @ '' '' @ nat_str i) name"

definition temperatureDegraded :: "nat \<Rightarrow> redfish_temperature \<Rightarrow> degraded_component list" where
  "temperatureDegraded i temp =
     (let over = (case (te_ReadingCelsius temp, te_UpperThresholdCritical temp) of
                    (Some r, Some u) \<Rightarrow> jn_value u \<le> jn_value r | _ \<Rightarrow> False);
          name = indexed_name (te_Name temp) ''Temperature'' i;
          reading = number_detail (te_ReadingCelsius temp) ''C''
      in if over \<and> \<not> isAbsent (te_Status temp)
         then [\<lparr>dg_kind = K_TEMPERATURE_SENSOR, dg_name = name, dg_health = CRITICAL,
                dg_detail = Some (option_default ''?'' reading @ '' >= critical '' @
                  (case te_UpperThresholdCritical temp of None \<Rightarrow> ''undefined'' | Some u \<Rightarrow> jn_text u) @ ''C'')\<rparr>]
         else pushIfDegraded K_TEMPERATURE_SENSOR name (te_Status temp) reading)"

definition fanDegraded :: "nat \<Rightarrow> redfish_fan \<Rightarrow> degraded_component list" where
  "fanDegraded i fan = pushIfDegraded K_FAN (indexed_name (fa_Name fan) ''Fan'' i) (fa_Status fan)
     (number_detail (fa_Reading fan) (option_default [] (fa_ReadingUnits fan)))"

definition psuDegraded :: "nat \<Rightarrow> redfish_power_supply \<Rightarrow> degraded_component list" where
  "psuDegraded i psu = pushIfDegraded K_POWER_SUPPLY (indexed_name (ps_Name psu) ''PSU'' i) (ps_Status psu) None"

definition driveName :: "nat \<Rightarrow> redfish_drive \<Rightarrow> string" where
  "driveName i drive = indexed_name (option_or (dr_Name drive) (dr_SerialNumber drive)) ''Drive'' i"

definition driveDegraded :: "nat \<Rightarrow> redfish_drive \<Rightarrow> degraded_component list" where
  "driveDegraded i drive = pushIfDegraded K_DRIVE (driveName i drive) (dr_Status drive) (or_undefined (driveDetail drive))"

definition drivePredictions :: "nat \<Rightarrow> redfish_drive \<Rightarrow> predictive_failure list" where
  "drivePredictions i drive =
     (if dr_FailurePredicted drive = Some True then [\<lparr>pf_name = driveName i drive, pf_detail = driveDetail drive\<rparr>] else [])"

definition each_indexed :: "(nat \<Rightarrow> 'a \<Rightarrow> 'b list) \<Rightarrow> 'a list \<Rightarrow> 'b list" where
  "each_indexed f xs = concat (map (\<lambda>(i, x). f i x) (enumerate 0 xs))"

definition redfishDegraded :: "redfish_system \<Rightarrow> redfish_bundle \<Rightarrow> degraded_component list" where
  "redfishDegraded system bundle =
     pushIfDegraded K_SYSTEM (option_default ''System'' (option_or (sys_Name system) (sys_Id system))) (sys_Status system) None @
     pushIfDegraded K_PROCESSOR ''ProcessorSummary'' (sys_ProcessorStatus system) None @
     pushIfDegraded K_MEMORY ''MemorySummary'' (sys_MemoryStatus system) None @
     each_indexed temperatureDegraded (option_default [] (rb_temperatures bundle)) @
     each_indexed fanDegraded (option_default [] (rb_fans bundle)) @
     each_indexed psuDegraded (option_default [] (rb_powerSupplies bundle)) @
     each_indexed driveDegraded (option_default [] (rb_drives bundle))"

fun redfishCount :: "redfish_status option list \<Rightarrow> health_count" where
  "redfishCount [] = \<lparr>hn_total = 0, hn_healthy = 0\<rparr>"
| "redfishCount (status # rest) =
     (let c = redfishCount rest in
      if isAbsent status then c
      else \<lparr>hn_total = hn_total c + 1, hn_healthy = hn_healthy c + (if mapHealth status False = HEALTHY then 1 else 0)\<rparr>)"

definition redfishSummary :: "redfish_bundle \<Rightarrow> health_summary" where
  "redfishSummary bundle =
     (let drives = option_default [] (rb_drives bundle) in
      \<lparr>hsu_drives = redfishCount (map dr_Status drives),
       hsu_predictedFailure = length (filter (\<lambda>d. dr_FailurePredicted d = Some True) drives),
       hsu_fans = redfishCount (map fa_Status (option_default [] (rb_fans bundle))),
       hsu_powerSupplies = redfishCount (map ps_Status (option_default [] (rb_powerSupplies bundle)))\<rparr>)"

definition normalizeRedfishSystem :: "instant \<Rightarrow> redfish_bundle \<Rightarrow> norm_error + health_payload" where
  "normalizeRedfishSystem now bundle =
     (case trimmed_or_null (rb_ciCode bundle) of
        None \<Rightarrow> Inl (NormalizationError ''bundle is missing ciCode'' ''ciCode'')
      | Some ciCode \<Rightarrow>
          (case rb_system bundle of
             None \<Rightarrow> Inl (NormalizationError (''bundle for '' @ ciCode @ '' has no system resource'') ''system'')
           | Some system \<Rightarrow>
               (let degraded = redfishDegraded system bundle;
                    predictiveFailures = each_indexed drivePredictions (option_default [] (rb_drives bundle));
                    healthInputs = mapHealth (sys_Status system) True # map dg_health degraded @
                      (if predictiveFailures \<noteq> [] then [WARNING] else [])
                in Inr \<lparr>hp_ciCode = ciCode, hp_source = REDFISH, hp_overallHealth = worst healthInputs,
                        hp_powerState = mapPowerState (sys_PowerState system),
                        hp_observedAt = option_default now (rb_observedAt bundle),
                        hp_degraded = degraded, hp_predictiveFailures = predictiveFailures,
                        hp_summary = redfishSummary bundle,
                        hp_biosVersion = (if truthy (sys_BiosVersion system) then sys_BiosVersion system else None),
                        hp_attributes = [(''manufacturer'', sys_Manufacturer system), (''model'', sys_Model system),
                          (''serialNumber'', sys_SerialNumber system)]\<rparr>)))"

section \<open>HPE iLO\<close>

text \<open>\<open>Oem.Hpe.AggregateHealthStatus\<close>: the \<open>Status\<close> of each field that is present.\<close>

datatype aggregate_field =
    BiosOrHardwareHealth | AggFans | AggMemory | AggNetwork | AggPowerSupplies | AggProcessors
  | AggSmartStorageBattery | AggStorage | AggTemperatures

primrec aggregate_field_str :: "aggregate_field \<Rightarrow> string" where
  "aggregate_field_str BiosOrHardwareHealth = ''BiosOrHardwareHealth''"
| "aggregate_field_str AggFans = ''Fans''"
| "aggregate_field_str AggMemory = ''Memory''"
| "aggregate_field_str AggNetwork = ''Network''"
| "aggregate_field_str AggPowerSupplies = ''PowerSupplies''"
| "aggregate_field_str AggProcessors = ''Processors''"
| "aggregate_field_str AggSmartStorageBattery = ''SmartStorageBattery''"
| "aggregate_field_str AggStorage = ''Storage''"
| "aggregate_field_str AggTemperatures = ''Temperatures''"

record smart_storage_battery =
  ba_Index :: "js_number option"
  ba_ProductName :: "string option"
  ba_Charging :: "bool option"
  ba_RemainingChargePercent :: "js_number option"
  ba_Status :: "redfish_status option"

record hpe_oem =
  oem_AggregateHealthStatus :: "(aggregate_field \<times> redfish_status) list option"
  oem_SmartStorageBattery :: "smart_storage_battery list option"
  oem_PostState :: "string option"
  oem_IloVersion :: "string option"

record ilo_system = redfish_system +
  sys_Hpe :: "hpe_oem option"

record ilo_bundle =
  ib_ciCode :: "string option"
  ib_system :: "ilo_system option"
  ib_temperatures :: "redfish_temperature list option"
  ib_fans :: "redfish_fan list option"
  ib_powerSupplies :: "redfish_power_supply list option"
  ib_drives :: "redfish_drive list option"
  ib_smartStorageBattery :: "smart_storage_battery list option"
  ib_observedAt :: "instant option"

definition iloMapHealth :: "redfish_status option \<Rightarrow> health_state" where
  "iloMapHealth status = health_of_text (option_or (Option.bind status rs_HealthRollup) (Option.bind status rs_Health))"

definition AGG_SUBSYSTEMS :: "(aggregate_field \<times> component_kind) list" where
  "AGG_SUBSYSTEMS = [(BiosOrHardwareHealth, K_SYSTEM), (AggFans, K_FAN), (AggMemory, K_MEMORY), (AggNetwork, K_NETWORK),
     (AggPowerSupplies, K_POWER_SUPPLY), (AggProcessors, K_PROCESSOR), (AggSmartStorageBattery, K_SYSTEM),
     (AggStorage, K_STORAGE_CONTROLLER), (AggTemperatures, K_TEMPERATURE_SENSOR)]"

definition batteryDetail :: "smart_storage_battery \<Rightarrow> string" where
  "batteryDetail bat = join '', ''
     (given_part (ba_ProductName bat) @ number_part (ba_RemainingChargePercent bat) ''% charge'' @
      (if ba_Charging bat = Some True then [''charging''] else []))"

definition aggregateDegraded :: "degraded_component list \<Rightarrow> (aggregate_field \<times> redfish_status) list option \<Rightarrow> degraded_component list" where
  "aggregateDegraded base agg =
     (case agg of
        None \<Rightarrow> []
      | Some statuses \<Rightarrow>
          concat (map (\<lambda>(field, kind).
            if kind \<in> set (map dg_kind base) then []
            else let health = iloMapHealth (map_of statuses field) in
              if health = WARNING \<or> health = CRITICAL
              then [\<lparr>dg_kind = kind, dg_name = ''Hpe.AggregateHealthStatus.'' @ aggregate_field_str field,
                     dg_health = health, dg_detail = None\<rparr>]
              else []) AGG_SUBSYSTEMS))"

definition batteryDegraded :: "nat \<Rightarrow> smart_storage_battery \<Rightarrow> degraded_component list" where
  "batteryDegraded i bat =
     (let health = iloMapHealth (ba_Status bat) in
      if health \<noteq> HEALTHY \<and> health \<noteq> IN_MAINTENANCE
      then [\<lparr>dg_kind = K_SYSTEM,
             dg_name = option_default (''SmartStorageBattery '' @ (case ba_Index bat of None \<Rightarrow> nat_str i | Some n \<Rightarrow> jn_text n)) (ba_ProductName bat),
             dg_health = health, dg_detail = or_undefined (batteryDetail bat)\<rparr>]
      else [])"

definition redfish_part :: "string \<Rightarrow> ilo_system \<Rightarrow> ilo_bundle \<Rightarrow> redfish_bundle" where
  "redfish_part ciCode system bundle = \<lparr>rb_ciCode = Some ciCode, rb_system = Some (redfish_system.truncate system),
     rb_temperatures = ib_temperatures bundle, rb_fans = ib_fans bundle, rb_powerSupplies = ib_powerSupplies bundle,
     rb_drives = ib_drives bundle, rb_observedAt = ib_observedAt bundle\<rparr>"

definition iloExtra :: "ilo_system \<Rightarrow> ilo_bundle \<Rightarrow> degraded_component list \<Rightarrow> degraded_component list" where
  "iloExtra system bundle base =
     aggregateDegraded base (Option.bind (sys_Hpe system) oem_AggregateHealthStatus) @
     each_indexed batteryDegraded
       (option_default [] (option_or (ib_smartStorageBattery bundle) (Option.bind (sys_Hpe system) oem_SmartStorageBattery)))"

definition iloAttributes :: "ilo_system \<Rightarrow> (string \<times> string option) list" where
  "iloAttributes system =
     (let iloVersion = Option.bind (sys_Hpe system) oem_IloVersion; postState = Option.bind (sys_Hpe system) oem_PostState in
      (if truthy iloVersion then [(''iloVersion'', iloVersion)] else []) @
      (if truthy postState then [(''postState'', postState)] else []))"

definition normalizeHpeIloSystem :: "instant \<Rightarrow> ilo_bundle \<Rightarrow> norm_error + health_payload" where
  "normalizeHpeIloSystem now bundle =
     (case trimmed_or_null (ib_ciCode bundle) of
        None \<Rightarrow> Inl (NormalizationError ''bundle is missing ciCode'' ''ciCode'')
      | Some ciCode \<Rightarrow>
          (case ib_system bundle of
             None \<Rightarrow> Inl (NormalizationError (''bundle for '' @ ciCode @ '' has no system resource'') ''system'')
           | Some system \<Rightarrow>
               andThen (normalizeRedfishSystem now (redfish_part ciCode system bundle)) (\<lambda>base.
                 let extraDegraded = iloExtra system bundle (hp_degraded base);
                     attributes = hp_attributes base @ iloAttributes system
                 in if extraDegraded = [] then Inr (base\<lparr>hp_source := HPE_ILO, hp_attributes := attributes\<rparr>)
                    else Inr (base\<lparr>hp_source := HPE_ILO,
                           hp_overallHealth := worst (hp_overallHealth base # map dg_health extraDegraded),
                           hp_degraded := hp_degraded base @ extraDegraded, hp_attributes := attributes\<rparr>))))"

section \<open>Dell OpenManage Enterprise\<close>

record ome_device =
  od_Id :: "js_number option"
  od_DeviceServiceTag :: "string option"
  od_DeviceName :: "string option"
  od_Model :: "string option"
  od_Status :: "js_number option"
  od_PowerState :: "js_number option"
  od_ConnectionState :: "bool option"
  od_ManagementIp :: "string option"

record ome_subsystem =
  os_Name :: "string option"
  os_Status :: "js_number option"

record ome_disk =
  ok_Name :: "string option"
  ok_SerialNumber :: "string option"
  ok_MediaType :: "string option"
  ok_Status :: "js_number option"
  ok_PredictiveFailureState :: "string option"
  ok_RemainingReadWriteEndurance :: "string option"
  ok_Size :: "string option"

record ome_power_supply =
  op_Name :: "string option"
  op_Status :: "js_number option"
  op_OutputWatts :: "js_number option"

record ome_fan =
  of_Name :: "string option"
  of_Status :: "js_number option"
  of_Speed :: "js_number option"

record ome_bundle =
  ob_ciCode :: "string option"
  ob_device :: "ome_device option"
  ob_subSystems :: "ome_subsystem list option"
  ob_disks :: "ome_disk list option"
  ob_powerSupplies :: "ome_power_supply list option"
  ob_fans :: "ome_fan list option"
  ob_biosVersion :: "string option"
  ob_observedAt :: "instant option"

definition OME_STATUS :: "(rat \<times> health_state) list" where
  "OME_STATUS = [(1000, HEALTHY), (2000, UNKNOWN), (3000, WARNING), (4000, CRITICAL), (5000, UNKNOWN),
     (1, UNKNOWN), (2, UNKNOWN), (3, HEALTHY), (4, WARNING), (5, CRITICAL), (6, CRITICAL)]"

definition mapOmeStatus :: "js_number option \<Rightarrow> health_state" where
  "mapOmeStatus code = option_default UNKNOWN (Option.bind code (\<lambda>n. map_of OME_STATUS (jn_value n)))"

definition OME_POWER_STATE :: "(rat \<times> power_state) list" where
  "OME_POWER_STATE = [(17, POWER_ON), (20, POWER_ON), (18, POWER_OFF), (21, POWER_OFF)]"

definition omePowerState :: "js_number option \<Rightarrow> power_state" where
  "omePowerState code = option_default POWER_UNKNOWN (Option.bind code (\<lambda>n. map_of OME_POWER_STATE (jn_value n)))"

definition SUBSYSTEM_KIND :: "(string \<times> component_kind) list" where
  "SUBSYSTEM_KIND = [(''temperature'', K_TEMPERATURE_SENSOR), (''fan'', K_FAN), (''cooling'', K_FAN), (''memory'', K_MEMORY),
     (''processor'', K_PROCESSOR), (''cpu'', K_PROCESSOR), (''storage'', K_STORAGE_CONTROLLER), (''powersupply'', K_POWER_SUPPLY),
     (''power supply'', K_POWER_SUPPLY), (''network'', K_NETWORK), (''nic'', K_NETWORK)]"

definition subsystemKind :: "string option \<Rightarrow> component_kind" where
  "subsystemKind name =
     (case table_lookup SUBSYSTEM_KIND (option_default [] (map_option (toLowerCase \<circ> trim) name)) of
        None \<Rightarrow> K_SYSTEM | Some None \<Rightarrow> K_INHERITED | Some (Some k) \<Rightarrow> k)"

definition smartAlertPresent :: "ome_disk \<Rightarrow> bool" where
  "smartAlertPresent disk \<longleftrightarrow> sublist ''present'' (toLowerCase (trim (option_default [] (ok_PredictiveFailureState disk))))"

definition diskDetail :: "ome_disk \<Rightarrow> string" where
  "diskDetail disk = join '', ''
     (given_part (ok_MediaType disk) @ given_part (ok_Size disk) @
      map (\<lambda>e. e @ '' endurance left'') (given_part (ok_RemainingReadWriteEndurance disk)) @
      (if smartAlertPresent disk then [''Smart Alert Present''] else []))"

definition omePushIfDegraded :: "component_kind \<Rightarrow> string \<Rightarrow> js_number option \<Rightarrow> string option \<Rightarrow> degraded_component list" where
  "omePushIfDegraded kind name status detail =
     (let health = mapOmeStatus status in
      if health \<noteq> HEALTHY \<and> health \<noteq> IN_MAINTENANCE
      then [\<lparr>dg_kind = kind, dg_name = name, dg_health = health, dg_detail = detail\<rparr>] else [])"

definition omeCount :: "js_number option list \<Rightarrow> health_count" where
  "omeCount statuses = \<lparr>hn_total = length statuses, hn_healthy = length (filter (\<lambda>s. mapOmeStatus s = HEALTHY) statuses)\<rparr>"

definition subsystemDegraded :: "nat \<Rightarrow> ome_subsystem \<Rightarrow> degraded_component list" where
  "subsystemDegraded i sub =
     omePushIfDegraded (subsystemKind (os_Name sub)) (indexed_name (os_Name sub) ''SubSystem'' i) (os_Status sub) None"

definition omeFanDegraded :: "nat \<Rightarrow> ome_fan \<Rightarrow> degraded_component list" where
  "omeFanDegraded i fan =
     omePushIfDegraded K_FAN (indexed_name (of_Name fan) ''Fan'' i) (of_Status fan) (number_detail (of_Speed fan) '' RPM'')"

definition omePsuDegraded :: "nat \<Rightarrow> ome_power_supply \<Rightarrow> degraded_component list" where
  "omePsuDegraded i psu =
     omePushIfDegraded K_POWER_SUPPLY (indexed_name (op_Name psu) ''PSU'' i) (op_Status psu) (number_detail (op_OutputWatts psu) ''W'')"

definition diskName :: "nat \<Rightarrow> ome_disk \<Rightarrow> string" where
  "diskName i disk = indexed_name (option_or (ok_Name disk) (ok_SerialNumber disk)) ''Disk'' i"

definition diskDegraded :: "nat \<Rightarrow> ome_disk \<Rightarrow> degraded_component list" where
  "diskDegraded i disk = omePushIfDegraded K_DRIVE (diskName i disk) (ok_Status disk) (or_undefined (diskDetail disk))"

definition diskPredictions :: "nat \<Rightarrow> ome_disk \<Rightarrow> predictive_failure list" where
  "diskPredictions i disk = (if smartAlertPresent disk then [\<lparr>pf_name = diskName i disk, pf_detail = diskDetail disk\<rparr>] else [])"

definition omeDegraded :: "ome_device \<Rightarrow> ome_bundle \<Rightarrow> degraded_component list" where
  "omeDegraded device bundle =
     omePushIfDegraded K_SYSTEM (option_default ''Device'' (option_or (od_DeviceName device) (od_DeviceServiceTag device)))
       (od_Status device) None @
     each_indexed subsystemDegraded (option_default [] (ob_subSystems bundle)) @
     each_indexed omeFanDegraded (option_default [] (ob_fans bundle)) @
     each_indexed omePsuDegraded (option_default [] (ob_powerSupplies bundle)) @
     each_indexed diskDegraded (option_default [] (ob_disks bundle))"

definition omeSummary :: "ome_bundle \<Rightarrow> health_summary" where
  "omeSummary bundle =
     (let disks = option_default [] (ob_disks bundle) in
      \<lparr>hsu_drives = omeCount (map ok_Status disks), hsu_predictedFailure = length (filter smartAlertPresent disks),
       hsu_fans = omeCount (map of_Status (option_default [] (ob_fans bundle))),
       hsu_powerSupplies = omeCount (map op_Status (option_default [] (ob_powerSupplies bundle)))\<rparr>)"

definition bool_str :: "bool \<Rightarrow> string" where
  "bool_str b = (if b then ''true'' else ''false'')"

definition normalizeDellOmeDevice :: "instant \<Rightarrow> ome_bundle \<Rightarrow> norm_error + health_payload" where
  "normalizeDellOmeDevice now bundle =
     (case trimmed_or_null (ob_ciCode bundle) of
        None \<Rightarrow> Inl (NormalizationError ''bundle is missing ciCode'' ''ciCode'')
      | Some ciCode \<Rightarrow>
          (case ob_device bundle of
             None \<Rightarrow> Inl (NormalizationError (''bundle for '' @ ciCode @ '' has no device resource'') ''device'')
           | Some device \<Rightarrow>
               (let degraded = omeDegraded device bundle;
                    predictiveFailures = each_indexed diskPredictions (option_default [] (ob_disks bundle));
                    healthInputs = mapOmeStatus (od_Status device) # map dg_health degraded @
                      (if predictiveFailures \<noteq> [] then [WARNING] else [])
                in Inr \<lparr>hp_ciCode = ciCode, hp_source = DELL_OME, hp_overallHealth = worst healthInputs,
                        hp_powerState = omePowerState (od_PowerState device),
                        hp_observedAt = option_default now (ob_observedAt bundle),
                        hp_degraded = degraded, hp_predictiveFailures = predictiveFailures,
                        hp_summary = omeSummary bundle,
                        hp_biosVersion = (if truthy (ob_biosVersion bundle) then ob_biosVersion bundle else None),
                        hp_attributes = [(''serviceTag'', od_DeviceServiceTag device), (''model'', od_Model device),
                          (''managementIp'', od_ManagementIp device), (''omeDeviceId'', map_option jn_text (od_Id device)),
                          (''connected'', map_option bool_str (od_ConnectionState device))]\<rparr>)))"

record ome_rejection =
  oj_index :: nat
  oj_field :: string
  oj_message :: string

text \<open>
  One poll of a fleet. An element that is \<open>null\<close> makes the adapter throw a \<open>TypeError\<close>; its
  message is the runtime's.
\<close>

definition normalizeOmeElement :: "instant \<Rightarrow> ome_bundle option \<Rightarrow> norm_error + health_payload" where
  "normalizeOmeElement now bundle =
     (case bundle of None \<Rightarrow> Inl (OtherError ''Cannot read properties of null'') | Some b \<Rightarrow> normalizeDellOmeDevice now b)"

definition ome_rejection_of :: "nat \<Rightarrow> norm_error \<Rightarrow> ome_rejection" where
  "ome_rejection_of index err =
     (case err of
        NormalizationError m f \<Rightarrow> \<lparr>oj_index = index, oj_field = f, oj_message = m\<rparr>
      | OtherError m \<Rightarrow> \<lparr>oj_index = index, oj_field = ''(unknown)'', oj_message = m\<rparr>)"

definition normalizeDellOmeDevices :: "instant \<Rightarrow> ome_bundle option list \<Rightarrow> health_payload list \<times> ome_rejection list" where
  "normalizeDellOmeDevices now bundles =
     foldl (\<lambda>(snapshots, rejected) (index, bundle).
       case normalizeOmeElement now bundle of
         Inr p \<Rightarrow> (snapshots @ [p], rejected)
       | Inl err \<Rightarrow> (snapshots, rejected @ [ome_rejection_of index err])) ([], []) (enumerate 0 bundles)"

section \<open>The verdict\<close>

lemma RANK_bounds: "2 \<le> RANK h \<longleftrightarrow> h = WARNING \<or> h = CRITICAL" "3 \<le> RANK h \<longleftrightarrow> h = CRITICAL" "RANK h = 1 \<longleftrightarrow> h = HEALTHY \<or> h = IN_MAINTENANCE"
  by (cases h; simp)+

lemma RANK_positive: "Suc 0 \<le> RANK h \<longleftrightarrow> h \<noteq> UNKNOWN"
  by (cases h) simp_all

lemma worst_in: "worst xs \<in> insert UNKNOWN (set xs)"
proof -
  have "foldl (\<lambda>winner state. if RANK winner < RANK state then state else winner) a xs \<in> insert a (set xs)" for a
  proof (induction xs arbitrary: a)
    case (Cons x xs)
    show ?case using Cons [of x] Cons [of a] by auto
  qed simp
  then show ?thesis by (simp add: worst_def)
qed

lemma worst_in_service: "IN_MAINTENANCE \<notin> set xs \<Longrightarrow> worst xs \<noteq> IN_MAINTENANCE"
  using worst_in [of xs] by auto

lemma worst_foldl:
  "RANK (foldl (\<lambda>winner state. if RANK winner < RANK state then state else winner) a xs) = Max (insert (RANK a) (RANK ` set xs))"
proof (induction xs arbitrary: a)
  case (Cons x xs)
  have "RANK (if RANK a < RANK x then x else a) = max (RANK a) (RANK x)" by simp
  then show ?case by (cases "RANK ` set xs = {}") (simp_all add: Cons.IH Max_insert max.assoc)
qed simp

lemma worst_rank: "RANK (worst xs) = Max (insert 0 (RANK ` set xs))"
  by (simp add: worst_def worst_foldl)

lemma worst_reaches: "0 < k \<Longrightarrow> k \<le> RANK (worst xs) \<longleftrightarrow> (\<exists>x \<in> set xs. k \<le> RANK x)"
  unfolding worst_rank by (subst Max_ge_iff) auto

lemma worst_absorbs: "RANK (worst (h # ys)) = RANK (worst (xs @ ys))" if "RANK h = RANK (worst xs)"
proof (rule order_antisym; rule ccontr)
  have reach: "k \<le> RANK (worst (h # ys)) \<longleftrightarrow> k \<le> RANK (worst (xs @ ys))" if "0 < k" for k
    using that \<open>RANK h = RANK (worst xs)\<close> by (auto simp: worst_reaches)
  show False if "\<not> RANK (worst (h # ys)) \<le> RANK (worst (xs @ ys))"
    using that reach [of "RANK (worst (h # ys))"] by simp
  show False if "\<not> RANK (worst (xs @ ys)) \<le> RANK (worst (h # ys))"
    using that reach [of "RANK (worst (xs @ ys))"] by simp
qed

text \<open>
  What a health adapter promises of the snapshot it makes of a bundle, given the verdict the device
  has of itself: the overall state is the worst of what was found, and only faults are listed.
\<close>

locale health_adapter =
  fixes run :: "'b \<Rightarrow> norm_error + health_payload" and own :: "'b \<Rightarrow> health_state"
  assumes verdict: "run b = Inr p \<Longrightarrow> RANK (hp_overallHealth p) =
      RANK (worst (own b # map dg_health (hp_degraded p) @ (if hp_predictiveFailures p \<noteq> [] then [WARNING] else [])))"
    and listed: "run b = Inr p \<Longrightarrow> d \<in> set (hp_degraded p) \<Longrightarrow> dg_health d \<notin> {HEALTHY, IN_MAINTENANCE}"
    and in_service: "run b = Inr p \<Longrightarrow> own b \<noteq> IN_MAINTENANCE \<and> hp_overallHealth p \<noteq> IN_MAINTENANCE"
begin

lemma reaches:
  "run b = Inr p \<Longrightarrow> 0 < k \<Longrightarrow>
     k \<le> RANK (hp_overallHealth p) \<longleftrightarrow> k \<le> RANK (own b) \<or> (\<exists>d \<in> set (hp_degraded p). k \<le> RANK (dg_health d)) \<or>
       hp_predictiveFailures p \<noteq> [] \<and> k \<le> 2"
  by (auto simp: verdict worst_reaches)

lemma exact:
  assumes "run b = Inr p"
  shows "(hp_overallHealth p = CRITICAL \<longleftrightarrow> own b = CRITICAL \<or> (\<exists>d \<in> set (hp_degraded p). dg_health d = CRITICAL)) \<and>
    (hp_overallHealth p \<in> {WARNING, CRITICAL} \<longleftrightarrow>
       own b \<in> {WARNING, CRITICAL} \<or> (\<exists>d \<in> set (hp_degraded p). dg_health d \<in> {WARNING, CRITICAL}) \<or> hp_predictiveFailures p \<noteq> [])"
  using reaches [OF assms, of 3] reaches [OF assms, of 2] by (simp add: RANK_bounds)

lemma unknown_exact:
  assumes "run b = Inr p"
  shows "hp_overallHealth p = UNKNOWN \<longleftrightarrow>
    own b = UNKNOWN \<and> (\<forall>d \<in> set (hp_degraded p). dg_health d = UNKNOWN) \<and> hp_predictiveFailures p = []"
  using reaches [OF assms, of 1] by (auto simp: RANK_positive)

lemma healthy_exact:
  assumes "run b = Inr p"
  shows "hp_overallHealth p = HEALTHY \<longleftrightarrow>
    own b = HEALTHY \<and> (\<forall>d \<in> set (hp_degraded p). dg_health d = UNKNOWN) \<and> hp_predictiveFailures p = []"
proof -
  have all: "h = HEALTHY \<longleftrightarrow> h \<notin> {WARNING, CRITICAL} \<and> h \<noteq> UNKNOWN" if "h \<noteq> IN_MAINTENANCE" for h
    using that by (cases h) auto
  have comp: "dg_health d = UNKNOWN \<longleftrightarrow> dg_health d \<notin> {WARNING, CRITICAL}" if "d \<in> set (hp_degraded p)" for d
    using listed [OF assms that] by (cases "dg_health d") auto
  have "(\<forall>d \<in> set (hp_degraded p). dg_health d = UNKNOWN) \<longleftrightarrow> \<not> (\<exists>d \<in> set (hp_degraded p). dg_health d \<in> {WARNING, CRITICAL})"
    using comp by blast
  then show ?thesis
    using all [of "hp_overallHealth p"] all [of "own b"] in_service [OF assms] exact [OF assms] unknown_exact [OF assms] by argo
qed

end

text \<open>The device's own verdict, as each adapter reads it.\<close>

definition redfish_own :: "redfish_bundle \<Rightarrow> health_state" where
  "redfish_own b = mapHealth (Option.bind (rb_system b) sys_Status) True"

definition ilo_own :: "ilo_bundle \<Rightarrow> health_state" where
  "ilo_own b = iloMapHealth (Option.bind (ib_system b) sys_Status)"

definition ome_own :: "ome_bundle \<Rightarrow> health_state" where
  "ome_own b = mapOmeStatus (Option.bind (ob_device b) od_Status)"

lemma health_of_text_not_maintenance: "health_of_text t \<noteq> IN_MAINTENANCE"
  by (simp add: health_of_text_def Let_def)

lemma set_each_indexed: "set (each_indexed f xs) = (\<Union>i < length xs. set (f i (xs ! i)))"
  by (force simp: each_indexed_def in_set_enumerate_eq)

lemma pushed_faulty: "d \<in> set (pushIfDegraded k n s x) \<Longrightarrow> dg_kind d = k \<and> dg_health d \<notin> {HEALTHY, IN_MAINTENANCE}"
  by (auto simp: pushIfDegraded_def mapHealth_def health_of_text_def Let_def split: if_splits)

lemma redfish_each_faulty:
  "d \<in> set (temperatureDegraded i t) \<Longrightarrow> dg_kind d = K_TEMPERATURE_SENSOR \<and> dg_health d \<notin> {HEALTHY, IN_MAINTENANCE}"
  "d \<in> set (fanDegraded i f) \<Longrightarrow> dg_kind d = K_FAN \<and> dg_health d \<notin> {HEALTHY, IN_MAINTENANCE}"
  "d \<in> set (psuDegraded i s) \<Longrightarrow> dg_kind d = K_POWER_SUPPLY \<and> dg_health d \<notin> {HEALTHY, IN_MAINTENANCE}"
  "d \<in> set (driveDegraded i v) \<Longrightarrow> dg_kind d = K_DRIVE \<and> dg_health d \<notin> {HEALTHY, IN_MAINTENANCE}"
  by (auto simp: temperatureDegraded_def fanDegraded_def psuDegraded_def driveDegraded_def Let_def dest: pushed_faulty split: if_splits)

lemma redfishDegraded_faulty: "d \<in> set (redfishDegraded s b) \<Longrightarrow> dg_health d \<notin> {HEALTHY, IN_MAINTENANCE}"
  by (auto simp: redfishDegraded_def set_each_indexed dest: pushed_faulty redfish_each_faulty)

interpretation redfish: health_adapter "normalizeRedfishSystem now" redfish_own for now
proof
  fix b p
  assume run: "normalizeRedfishSystem now b = Inr p"
  then obtain s where "rb_system b = Some s" "hp_degraded p = redfishDegraded s b"
    by (auto simp: normalizeRedfishSystem_def Let_def split: option.splits)
  with run show "RANK (hp_overallHealth p) =
      RANK (worst (redfish_own b # map dg_health (hp_degraded p) @ (if hp_predictiveFailures p \<noteq> [] then [WARNING] else [])))"
    by (auto simp: normalizeRedfishSystem_def redfish_own_def Let_def split: option.splits)
  show "dg_health d \<notin> {HEALTHY, IN_MAINTENANCE}" if "d \<in> set (hp_degraded p)" for d
    using that \<open>hp_degraded p = _\<close> redfishDegraded_faulty by metis
  then have "IN_MAINTENANCE \<notin> dg_health ` set (hp_degraded p)" by force
  moreover have "redfish_own b \<noteq> IN_MAINTENANCE" by (simp add: redfish_own_def mapHealth_def health_of_text_not_maintenance)
  moreover have "hp_overallHealth p = worst (redfish_own b # map dg_health (hp_degraded p) @ (if hp_predictiveFailures p \<noteq> [] then [WARNING] else []))"
    using run by (auto simp: normalizeRedfishSystem_def redfish_own_def Let_def split: option.splits)
  ultimately show "redfish_own b \<noteq> IN_MAINTENANCE \<and> hp_overallHealth p \<noteq> IN_MAINTENANCE"
    by (auto intro!: worst_in_service dest: sym)
qed

lemma iloMapHealth_rollup: "iloMapHealth s = mapHealth s True"
  by (simp add: iloMapHealth_def mapHealth_def)

lemma iloExtra_faulty: "d \<in> set (iloExtra s b ds) \<Longrightarrow> dg_health d \<notin> {HEALTHY, IN_MAINTENANCE}"
  by (auto simp: health_of_text_not_maintenance iloExtra_def aggregateDegraded_def set_each_indexed batteryDegraded_def Let_def split: option.splits if_splits)

lemma ilo_run:
  assumes "normalizeHpeIloSystem now b = Inr p"
  obtains code system base where "trimmed_or_null (ib_ciCode b) = Some code" "ib_system b = Some system"
    "normalizeRedfishSystem now (redfish_part code system b) = Inr base"
    "hp_degraded p = hp_degraded base @ iloExtra system b (hp_degraded base)"
    "RANK (hp_overallHealth p) = RANK (worst (hp_overallHealth base # map dg_health (iloExtra system b (hp_degraded base))))"
    "hp_predictiveFailures p = hp_predictiveFailures base" "hp_summary p = hp_summary base"
    "hp_overallHealth p \<in> {hp_overallHealth base, worst (hp_overallHealth base # map dg_health (iloExtra system b (hp_degraded base)))}"
proof -
  obtain code system base where run: "trimmed_or_null (ib_ciCode b) = Some code" "ib_system b = Some system"
    "normalizeRedfishSystem now (redfish_part code system b) = Inr base"
    and p: "p = (if iloExtra system b (hp_degraded base) = []
      then base\<lparr>hp_source := HPE_ILO, hp_attributes := hp_attributes base @ iloAttributes system\<rparr>
      else base\<lparr>hp_source := HPE_ILO, hp_overallHealth := worst (hp_overallHealth base # map dg_health (iloExtra system b (hp_degraded base))),
             hp_degraded := hp_degraded base @ iloExtra system b (hp_degraded base),
             hp_attributes := hp_attributes base @ iloAttributes system\<rparr>)"
    using assms by (auto simp: normalizeHpeIloSystem_def andThen_Inr_iff Let_def split: option.splits if_splits)
  show ?thesis by (rule that [OF run]) (simp_all add: p worst_rank)
qed

interpretation ilo: health_adapter "normalizeHpeIloSystem now" ilo_own for now
proof
  fix b p
  assume "normalizeHpeIloSystem now b = Inr p"
  then obtain code system base where run: "ib_system b = Some system"
    "normalizeRedfishSystem now (redfish_part code system b) = Inr base"
    "hp_degraded p = hp_degraded base @ iloExtra system b (hp_degraded base)"
    "RANK (hp_overallHealth p) = RANK (worst (hp_overallHealth base # map dg_health (iloExtra system b (hp_degraded base))))"
    "hp_predictiveFailures p = hp_predictiveFailures base"
    and overall: "hp_overallHealth p \<in> {hp_overallHealth base, worst (hp_overallHealth base # map dg_health (iloExtra system b (hp_degraded base)))}"
    by (rule ilo_run)
  have "redfish_own (redfish_part code system b) = ilo_own b"
    using run(1) by (simp add: redfish_own_def ilo_own_def redfish_part_def iloMapHealth_rollup redfish_system.truncate_def)
  then show "RANK (hp_overallHealth p) =
      RANK (worst (ilo_own b # map dg_health (hp_degraded p) @ (if hp_predictiveFailures p \<noteq> [] then [WARNING] else [])))"
    using worst_absorbs [OF redfish.verdict [OF run(2)], of "map dg_health (iloExtra system b (hp_degraded base))"] run
    by (simp add: worst_rank Un_ac insert_commute)
  show "dg_health d \<notin> {HEALTHY, IN_MAINTENANCE}" if "d \<in> set (hp_degraded p)" for d
    using that run(3) redfish.listed [OF run(2)] by (auto dest: iloExtra_faulty)
  have "IN_MAINTENANCE \<notin> dg_health ` set (iloExtra system b (hp_degraded base))" by (auto dest: iloExtra_faulty)
  then have "hp_overallHealth p \<noteq> IN_MAINTENANCE"
    using overall redfish.in_service [OF run(2)] worst_in_service [of "hp_overallHealth base # map dg_health (iloExtra system b (hp_degraded base))"] by auto
  then show "ilo_own b \<noteq> IN_MAINTENANCE \<and> hp_overallHealth p \<noteq> IN_MAINTENANCE"
    by (simp add: ilo_own_def iloMapHealth_def health_of_text_not_maintenance)
qed

lemma ome_pushed_faulty: "d \<in> set (omePushIfDegraded k n s x) \<Longrightarrow> dg_health d \<notin> {HEALTHY, IN_MAINTENANCE}"
  by (auto simp: omePushIfDegraded_def Let_def split: if_splits)

lemma mapOmeStatus_in_service: "mapOmeStatus c \<noteq> IN_MAINTENANCE"
  by (auto simp: mapOmeStatus_def OME_STATUS_def option_default_def split: option.split option.split_asm if_splits elim!: bind_eq_Some_conv [THEN iffD1, elim_format])

lemma omeDegraded_faulty: "d \<in> set (omeDegraded v b) \<Longrightarrow> dg_health d \<notin> {HEALTHY, IN_MAINTENANCE}"
  by (auto simp: omeDegraded_def set_each_indexed subsystemDegraded_def omeFanDegraded_def omePsuDegraded_def diskDegraded_def
      dest: ome_pushed_faulty)

interpretation ome: health_adapter "normalizeDellOmeDevice now" ome_own for now
proof
  fix b p
  assume run: "normalizeDellOmeDevice now b = Inr p"
  then obtain v where "ob_device b = Some v" "hp_degraded p = omeDegraded v b"
    by (auto simp: normalizeDellOmeDevice_def Let_def split: option.splits)
  with run show "RANK (hp_overallHealth p) =
      RANK (worst (ome_own b # map dg_health (hp_degraded p) @ (if hp_predictiveFailures p \<noteq> [] then [WARNING] else [])))"
    by (auto simp: normalizeDellOmeDevice_def ome_own_def Let_def split: option.splits)
  show "dg_health d \<notin> {HEALTHY, IN_MAINTENANCE}" if "d \<in> set (hp_degraded p)" for d
    using that \<open>hp_degraded p = _\<close> omeDegraded_faulty by metis
  then have "IN_MAINTENANCE \<notin> dg_health ` set (hp_degraded p)" by force
  moreover have "hp_overallHealth p = worst (ome_own b # map dg_health (hp_degraded p) @ (if hp_predictiveFailures p \<noteq> [] then [WARNING] else []))"
    using run by (auto simp: normalizeDellOmeDevice_def ome_own_def Let_def split: option.splits)
  moreover have "ome_own b \<noteq> IN_MAINTENANCE" by (simp add: ome_own_def mapOmeStatus_in_service)
  ultimately show "ome_own b \<noteq> IN_MAINTENANCE \<and> hp_overallHealth p \<noteq> IN_MAINTENANCE"
    by (auto intro!: worst_in_service dest: sym)
qed

text \<open>The choice of the adapter by the kind of the endpoint (\<open>runHealthPoll\<close>), and the verdict it reads.\<close>

datatype hardware_bundle = RedfishBundle redfish_bundle | IloBundle ilo_bundle | OmeBundle ome_bundle

fun normalizeHardware :: "instant \<Rightarrow> hardware_bundle \<Rightarrow> norm_error + health_payload" where
  "normalizeHardware now (OmeBundle b) = normalizeDellOmeDevice now b"
| "normalizeHardware now (IloBundle b) = normalizeHpeIloSystem now b"
| "normalizeHardware now (RedfishBundle b) = normalizeRedfishSystem now b"

fun own_verdict :: "hardware_bundle \<Rightarrow> health_state" where
  "own_verdict (OmeBundle b) = ome_own b"
| "own_verdict (IloBundle b) = ilo_own b"
| "own_verdict (RedfishBundle b) = redfish_own b"

interpretation hardware: health_adapter "normalizeHardware now" own_verdict for now
proof
  fix b p
  assume run: "normalizeHardware now b = Inr p"
  show "RANK (hp_overallHealth p) =
      RANK (worst (own_verdict b # map dg_health (hp_degraded p) @ (if hp_predictiveFailures p \<noteq> [] then [WARNING] else [])))"
    using run by (cases b) (simp_all add: redfish.verdict ilo.verdict ome.verdict)
  show "dg_health d \<notin> {HEALTHY, IN_MAINTENANCE}" if "d \<in> set (hp_degraded p)" for d
    using run that by (cases b) (auto dest: redfish.listed ilo.listed ome.listed)
  show "own_verdict b \<noteq> IN_MAINTENANCE \<and> hp_overallHealth p \<noteq> IN_MAINTENANCE"
    using run by (cases b) (auto dest: redfish.in_service ilo.in_service ome.in_service)
qed

text \<open>
  C17: The overall state of a snapshot is exactly the worst of the device's own state, the listed
  components and the predicted drive failures, whichever adapter made it: \<open>CRITICAL\<close> just when the device
  or a listed component is; \<open>WARNING\<close> just when nothing is critical and the device, a component or a
  predicted failure warns; \<open>UNKNOWN\<close> just when nothing at all is known; \<open>HEALTHY\<close> just when the device says
  so and nothing listed or predicted says worse; and there is no fifth outcome. No healthy component is listed.
\<close>

theorem health_verdict_exact:
  assumes "normalizeHardware now b = Inr p"
  shows "(hp_overallHealth p = CRITICAL \<longleftrightarrow> own_verdict b = CRITICAL \<or> (\<exists>d \<in> set (hp_degraded p). dg_health d = CRITICAL)) \<and>
    (hp_overallHealth p = WARNING \<longleftrightarrow>
       own_verdict b \<noteq> CRITICAL \<and> (\<forall>d \<in> set (hp_degraded p). dg_health d \<noteq> CRITICAL) \<and>
       (own_verdict b = WARNING \<or> (\<exists>d \<in> set (hp_degraded p). dg_health d = WARNING) \<or> hp_predictiveFailures p \<noteq> [])) \<and>
    (hp_overallHealth p = UNKNOWN \<longleftrightarrow>
       own_verdict b = UNKNOWN \<and> (\<forall>d \<in> set (hp_degraded p). dg_health d = UNKNOWN) \<and> hp_predictiveFailures p = []) \<and>
    (hp_overallHealth p = HEALTHY \<longleftrightarrow>
       own_verdict b = HEALTHY \<and> (\<forall>d \<in> set (hp_degraded p). dg_health d = UNKNOWN) \<and> hp_predictiveFailures p = []) \<and>
    hp_overallHealth p \<noteq> IN_MAINTENANCE \<and> (\<forall>d \<in> set (hp_degraded p). dg_health d \<notin> {HEALTHY, IN_MAINTENANCE})"
proof -
  note v = hardware.exact [OF assms]
  then have "hp_overallHealth p = WARNING \<longleftrightarrow>
       own_verdict b \<noteq> CRITICAL \<and> (\<forall>d \<in> set (hp_degraded p). dg_health d \<noteq> CRITICAL) \<and>
       (own_verdict b = WARNING \<or> (\<exists>d \<in> set (hp_degraded p). dg_health d = WARNING) \<or> hp_predictiveFailures p \<noteq> [])"
    by auto
  then show ?thesis
    using v hardware.unknown_exact [OF assms] hardware.healthy_exact [OF assms] hardware.listed [OF assms] hardware.in_service [OF assms]
    by blast
qed

definition sample_status :: "string \<Rightarrow> redfish_status option" where
  "sample_status health = Some \<lparr>rs_State = Some ''Enabled'', rs_Health = Some health, rs_HealthRollup = None\<rparr>"

definition sample_system :: redfish_system where
  "sample_system = \<lparr>sys_Id = Some ''1'', sys_Name = None, sys_Manufacturer = None, sys_Model = None, sys_SerialNumber = None,
     sys_PowerState = Some ''On'', sys_BiosVersion = None, sys_Status = sample_status ''OK'',
     sys_ProcessorStatus = sample_status ''OK'', sys_MemoryStatus = sample_status ''OK''\<rparr>"

definition sample_bundle :: redfish_bundle where
  "sample_bundle = \<lparr>rb_ciCode = Some ''SRV-1'', rb_system = Some sample_system,
     rb_temperatures = Some [\<lparr>te_Name = Some ''Inlet'', te_ReadingCelsius = Some \<lparr>jn_value = 50, jn_text = ''50''\<rparr>,
       te_UpperThresholdCritical = Some \<lparr>jn_value = 47, jn_text = ''47''\<rparr>, te_Status = sample_status ''OK''\<rparr>],
     rb_fans = None, rb_powerSupplies = Some [\<lparr>ps_Name = None, ps_Status = sample_status ''Critical''\<rparr>],
     rb_drives = Some [\<lparr>dr_Name = Some ''Bay 1'', dr_SerialNumber = None, dr_MediaType = Some ''SSD'', dr_FailurePredicted = Some True,
       dr_PredictedMediaLifeLeftPercent = None, dr_Status = sample_status ''OK''\<rparr>],
     rb_observedAt = Some 0\<rparr>"

lemma sample_bundle_runs:
  "map_sum id (\<lambda>p. (hp_overallHealth p, map (\<lambda>d. (dg_kind d, dg_health d)) (hp_degraded p), length (hp_predictiveFailures p)))
     (normalizeRedfishSystem 0 sample_bundle) = Inr (CRITICAL, [(K_TEMPERATURE_SENSOR, CRITICAL), (K_POWER_SUPPLY, CRITICAL)], 1)"
  by code_simp

lemma sample_bundle_Inr: "\<exists>p. normalizeRedfishSystem 0 sample_bundle = Inr p \<and> hp_overallHealth p = CRITICAL"
  using sample_bundle_runs by (cases "normalizeRedfishSystem 0 sample_bundle") simp_all

theorem health_verdict_exact_witness:
  "\<exists>p. normalizeHardware 0 (RedfishBundle sample_bundle) = Inr p \<and> (\<exists>d \<in> set (hp_degraded p). dg_health d = CRITICAL)"
proof -
  obtain p where p: "normalizeHardware 0 (RedfishBundle sample_bundle) = Inr p" "hp_overallHealth p = CRITICAL"
    using sample_bundle_Inr by auto
  moreover have "own_verdict (RedfishBundle sample_bundle) = HEALTHY" by code_simp
  ultimately show ?thesis using health_verdict_exact [OF p(1)] by simp
qed

section \<open>Nothing is lost\<close>

lemma length_each_indexed: "(\<And>i x. length (f i x) = n x) \<Longrightarrow> length (each_indexed f xs) = (\<Sum>x\<leftarrow>xs. n x)"
proof -
  assume n: "\<And>i x. length (f i x) = n x"
  have "length (concat (map (\<lambda>(i, x). f i x) (enumerate k xs))) = (\<Sum>x\<leftarrow>xs. n x)" for k
    by (induction xs arbitrary: k) (simp_all add: n)
  then show ?thesis by (simp add: each_indexed_def)
qed

lemma length_pushed: "length (pushIfDegraded k n s x) = (if isAbsent s \<or> mapHealth s False = HEALTHY then 0 else 1)"
  by (simp add: pushIfDegraded_def Let_def)

lemma redfishCount_accounts:
  assumes "\<And>i x. length (f i x) = (if isAbsent (st x) \<or> mapHealth (st x) False = HEALTHY then 0 else (1::nat))"
  shows "hn_healthy (redfishCount (map st xs)) + length (each_indexed f xs) = hn_total (redfishCount (map st xs))"
  unfolding length_each_indexed [of f, OF assms] by (induction xs) (auto simp: Let_def)

lemma filter_kind_all: "(\<And>i x d. d \<in> set (f i x) \<Longrightarrow> dg_kind d = k) \<Longrightarrow> filter (\<lambda>d. dg_kind d = k) (each_indexed f xs) = each_indexed f xs"
  by (rule filter_True) (auto simp: set_each_indexed)

lemma filter_kind_none: "(\<And>i x d. d \<in> set (f i x) \<Longrightarrow> dg_kind d = j) \<Longrightarrow> j \<noteq> k \<Longrightarrow> filter (\<lambda>d. dg_kind d = k) (each_indexed f xs) = []"
  by (rule filter_False) (auto simp: set_each_indexed)

lemma filter_kind_pushed: "j \<noteq> k \<Longrightarrow> filter (\<lambda>d. dg_kind d = k) (pushIfDegraded j n s x) = []"
  by (auto simp: filter_empty_conv dest: pushed_faulty)

lemma redfishDegraded_kinds:
  "filter (\<lambda>d. dg_kind d = K_DRIVE) (redfishDegraded s b) = each_indexed driveDegraded (option_default [] (rb_drives b))"
  "filter (\<lambda>d. dg_kind d = K_FAN) (redfishDegraded s b) = each_indexed fanDegraded (option_default [] (rb_fans b))"
  "filter (\<lambda>d. dg_kind d = K_POWER_SUPPLY) (redfishDegraded s b) = each_indexed psuDegraded (option_default [] (rb_powerSupplies b))"
  by (simp_all add: redfishDegraded_def filter_kind_pushed
      filter_kind_all [of driveDegraded, OF conjunct1 [OF redfish_each_faulty(4)]]
      filter_kind_all [of fanDegraded, OF conjunct1 [OF redfish_each_faulty(2)]]
      filter_kind_all [of psuDegraded, OF conjunct1 [OF redfish_each_faulty(3)]]
      filter_kind_none [of temperatureDegraded, OF conjunct1 [OF redfish_each_faulty(1)]]
      filter_kind_none [of fanDegraded, OF conjunct1 [OF redfish_each_faulty(2)]]
      filter_kind_none [of psuDegraded, OF conjunct1 [OF redfish_each_faulty(3)]]
      filter_kind_none [of driveDegraded, OF conjunct1 [OF redfish_each_faulty(4)]])

lemma length_predictions:
  "length (each_indexed drivePredictions xs) = length (filter (\<lambda>d. dr_FailurePredicted d = Some True) xs)"
proof -
  have "length (drivePredictions i d) = (if dr_FailurePredicted d = Some True then 1 else 0)" for i d
    by (simp add: drivePredictions_def)
  then have "length (each_indexed drivePredictions xs) = (\<Sum>d\<leftarrow>xs. if dr_FailurePredicted d = Some True then 1 else 0)"
    by (rule length_each_indexed)
  then show ?thesis by (simp add: sum_list_triv flip: sum_list_map_filter')
qed

definition overheats :: "redfish_temperature \<Rightarrow> bool" where
  "overheats t \<longleftrightarrow> \<not> isAbsent (te_Status t) \<and>
     (\<exists>r u. te_ReadingCelsius t = Some r \<and> te_UpperThresholdCritical t = Some u \<and> jn_value u \<le> jn_value r)"

text \<open>
  A Redfish snapshot accounts for every part that is present: in the summary, the parts of a kind are the healthy ones
  and those listed as degraded; the predicted drive failures are all listed; and one sensor at or over its critical
  threshold makes the whole device critical, whatever the sensor says of itself.
\<close>

theorem redfish_snapshot_complete:
  assumes "normalizeRedfishSystem now b = Inr p"
  shows "(let parts = (\<lambda>k. length (filter (\<lambda>d. dg_kind d = k) (hp_degraded p))); s = hp_summary p in
      hn_total (hsu_drives s) = hn_healthy (hsu_drives s) + parts K_DRIVE \<and>
      hn_total (hsu_fans s) = hn_healthy (hsu_fans s) + parts K_FAN \<and>
      hn_total (hsu_powerSupplies s) = hn_healthy (hsu_powerSupplies s) + parts K_POWER_SUPPLY \<and>
      hsu_predictedFailure s = length (hp_predictiveFailures p)) \<and>
    ((\<exists>t \<in> set (option_default [] (rb_temperatures b)). overheats t) \<longrightarrow> hp_overallHealth p = CRITICAL)"
proof -
  obtain s where s: "hp_degraded p = redfishDegraded s b" "hp_summary p = redfishSummary b"
    "hp_predictiveFailures p = each_indexed drivePredictions (option_default [] (rb_drives b))"
    using assms by (auto simp: normalizeRedfishSystem_def Let_def split: option.splits)
  have "\<exists>d \<in> set (hp_degraded p). dg_health d = CRITICAL"
    if t: "t \<in> set (option_default [] (rb_temperatures b))" "overheats t" for t
  proof -
    obtain i where i: "i < length (option_default [] (rb_temperatures b))" "option_default [] (rb_temperatures b) ! i = t"
      using t(1) by (auto simp: in_set_conv_nth)
    have "\<exists>d \<in> set (temperatureDegraded i t). dg_health d = CRITICAL"
      using t(2) by (auto simp: overheats_def temperatureDegraded_def Let_def)
    then show ?thesis using i by (force simp: s(1) redfishDegraded_def set_each_indexed)
  qed
  moreover have "length (driveDegraded i x) = (if isAbsent (dr_Status x) \<or> mapHealth (dr_Status x) False = HEALTHY then 0 else 1)"
    "length (fanDegraded i y) = (if isAbsent (fa_Status y) \<or> mapHealth (fa_Status y) False = HEALTHY then 0 else 1)"
    "length (psuDegraded i z) = (if isAbsent (ps_Status z) \<or> mapHealth (ps_Status z) False = HEALTHY then 0 else 1)" for i x y z
    by (simp_all add: driveDegraded_def fanDegraded_def psuDegraded_def length_pushed)
  note accounts = this [THEN redfishCount_accounts, symmetric]
  ultimately show ?thesis
    using redfish.exact [OF assms] by (auto simp: s redfishSummary_def Let_def redfishDegraded_kinds accounts length_predictions)
qed

theorem redfish_snapshot_complete_witness:
  "\<exists>p. normalizeRedfishSystem 0 sample_bundle = Inr p \<and> hp_overallHealth p = CRITICAL \<and>
     hn_total (hsu_powerSupplies (hp_summary p)) =
       hn_healthy (hsu_powerSupplies (hp_summary p)) + length (filter (\<lambda>d. dg_kind d = K_POWER_SUPPLY) (hp_degraded p))"
proof -
  obtain p where p: "normalizeRedfishSystem 0 sample_bundle = Inr p" using sample_bundle_Inr by auto
  have "\<exists>t \<in> set (option_default [] (rb_temperatures sample_bundle)). overheats t"
    by (simp add: sample_bundle_def overheats_def isAbsent_def sample_status_def) code_simp
  then show ?thesis using redfish_snapshot_complete [OF p] p by (simp add: Let_def)
qed

lemma trim_trim: "trim (trim s) = trim s"
proof -
  have "prefix (trim s) (dropWhile is_space s)"
    unfolding trim_def suffix_to_prefix [symmetric] by (metis rev_rev_ident suffix_dropWhile suffix_to_prefix)
  then have "trim s = [] \<or> hd (trim s) = hd (dropWhile is_space s) \<and> dropWhile is_space s \<noteq> []"
    by (cases "trim s") (auto simp: prefix_def simp del: dropWhile_eq_Nil_conv)
  then have "dropWhile is_space (trim s) = trim s"
    using hd_dropWhile [of is_space s] by (auto simp: dropWhile_eq_self_iff simp del: dropWhile_eq_Nil_conv)
  moreover have "rev (dropWhile is_space (rev (trim s))) = trim s"
    by (simp add: trim_def dropWhile_idem)
  ultimately show ?thesis by (simp add: trim_def [of "trim s"])
qed

text \<open>
  The iLO adapter only adds to the Redfish reading of the same resources: it fails just when that does, keeps its
  listed components and predictions, never reports a milder state, and its aggregate status speaks only for
  kinds of component that Redfish did not flag.
\<close>

theorem ilo_extends_redfish:
  assumes "trimmed_or_null (ib_ciCode b) = Some code" and "ib_system b = Some system"
  shows "\<exists>base p. normalizeRedfishSystem now (redfish_part code system b) = Inr base \<and> normalizeHpeIloSystem now b = Inr p \<and>
    RANK (hp_overallHealth base) \<le> RANK (hp_overallHealth p) \<and> hp_predictiveFailures p = hp_predictiveFailures base \<and>
    (\<exists>agg batteries. hp_degraded p = hp_degraded base @ agg @ batteries \<and>
       (\<forall>d \<in> set agg. dg_health d \<in> {WARNING, CRITICAL} \<and> dg_kind d \<notin> dg_kind ` set (hp_degraded base)) \<and>
       (\<forall>d \<in> set batteries. dg_kind d = K_SYSTEM))"
proof -
  have code: "trimmed_or_null (Some code) = Some code"
    using assms(1) by (auto simp: trimmed_or_null_def trim_trim split: if_splits)
  then obtain base where base: "normalizeRedfishSystem now (redfish_part code system b) = Inr base"
    by (simp add: normalizeRedfishSystem_def redfish_part_def Let_def)
  then obtain p where p: "normalizeHpeIloSystem now b = Inr p"
    using assms by (cases "iloExtra system b (hp_degraded base) = []") (simp_all add: normalizeHpeIloSystem_def Let_def)
  from ilo_run [OF this] obtain base' where run: "normalizeRedfishSystem now (redfish_part code system b) = Inr base'"
    "hp_degraded p = hp_degraded base' @ iloExtra system b (hp_degraded base')"
    "RANK (hp_overallHealth p) = RANK (worst (hp_overallHealth base' # map dg_health (iloExtra system b (hp_degraded base'))))"
    "hp_predictiveFailures p = hp_predictiveFailures base'"
    using assms by auto
  moreover have base': "base' = base" using run(1) base by simp
  moreover have "RANK (hp_overallHealth base) \<le> RANK (hp_overallHealth p)"
    unfolding run(3) base' worst_rank by (rule Max_ge) simp_all
  moreover have "\<forall>d \<in> set (aggregateDegraded ds agg). dg_health d \<in> {WARNING, CRITICAL} \<and> dg_kind d \<notin> dg_kind ` set ds" for ds agg
    by (auto simp: aggregateDegraded_def Let_def split: option.splits if_splits)
  moreover have "\<forall>d \<in> set (each_indexed batteryDegraded bs). dg_kind d = K_SYSTEM" for bs
    by (auto simp: set_each_indexed batteryDegraded_def Let_def split: if_splits)
  ultimately show ?thesis using base p unfolding iloExtra_def by metis
qed

definition sample_ilo :: ilo_bundle where
  "sample_ilo = \<lparr>ib_ciCode = Some ''SRV-2'', ib_system = Some (redfish_system.extend sample_system \<lparr>sys_Hpe = None\<rparr>),
     ib_temperatures = None, ib_fans = None, ib_powerSupplies = None, ib_drives = None,
     ib_smartStorageBattery = None, ib_observedAt = Some 0\<rparr>"

theorem ilo_extends_redfish_witness: "\<exists>p. normalizeHpeIloSystem 0 sample_ilo = Inr p"
  using ilo_extends_redfish [of sample_ilo "''SRV-2''" "redfish_system.extend sample_system \<lparr>sys_Hpe = None\<rparr>" 0]
  by (force simp: sample_ilo_def trimmed_or_null_def trim_def is_space_def)

lemma ome_fold:
  "foldl (\<lambda>(snapshots, rejected) (index, bundle).
       case normalizeOmeElement now bundle of
         Inr p \<Rightarrow> (snapshots @ [p], rejected)
       | Inl err \<Rightarrow> (snapshots, rejected @ [ome_rejection_of index err])) (ss, rs) (enumerate k bs) =
   (ss @ [p. Inr p \<leftarrow> map (normalizeOmeElement now) bs],
    rs @ [ome_rejection_of i e. (i, Inl e) \<leftarrow> enumerate k (map (normalizeOmeElement now) bs)])"
  by (induction bs arbitrary: k ss rs) (simp_all split: sum.split)

text \<open>
  One bad device does not drop the batch: the snapshots are those of the devices that normalize, in order,
  and every other position of the batch is reported once, with its error.
\<close>

theorem ome_batch_isolates:
  "normalizeDellOmeDevices now bundles =
     ([p. Inr p \<leftarrow> map (normalizeOmeElement now) bundles],
      [ome_rejection_of i e. (i, Inl e) \<leftarrow> enumerate 0 (map (normalizeOmeElement now) bundles)]) \<and>
   length (fst (normalizeDellOmeDevices now bundles)) + length (snd (normalizeDellOmeDevices now bundles)) = length bundles"
proof -
  have "length [p. Inr p \<leftarrow> rs] + length [ome_rejection_of i e. (i, Inl e) \<leftarrow> enumerate k rs] = length rs"
    for rs :: "(norm_error + health_payload) list" and k
    by (induction rs arbitrary: k) (auto split: sum.split)
  from this [of "map (normalizeOmeElement now) bundles" 0] show ?thesis
    by (simp add: normalizeDellOmeDevices_def ome_fold)
qed

end
