(* ===== verification/Monitoring.thy ===== *)
theory Monitoring
  imports Health
begin

text \<open>
  Health snapshots (\<^verbatim>\<open>monitoring/monitoring.service.ts\<close>): one current row per device, and the hardware
  alert that a bad reading opens and a healthy one closes. Then the composition with the adapters and
  with alert ingestion: the open hardware alerts are exactly the devices with an open episode.
\<close>

section \<open>The code\<close>

primrec health_str :: "health_state \<Rightarrow> string" where
  "health_str HEALTHY = ''HEALTHY''"
| "health_str WARNING = ''WARNING''"
| "health_str CRITICAL = ''CRITICAL''"
| "health_str UNKNOWN = ''UNKNOWN''"
| "health_str IN_MAINTENANCE = ''MAINTENANCE''"

primrec health_source_str :: "health_source \<Rightarrow> string" where
  "health_source_str REDFISH = ''REDFISH''"
| "health_source_str DELL_OME = ''DELL_OME''"
| "health_source_str HPE_ILO = ''HPE_ILO''"
| "health_source_str SNMP_SOURCE = ''SNMP''"

primrec component_kind_str :: "component_kind \<Rightarrow> string" where
  "component_kind_str K_SYSTEM = ''SYSTEM''"
| "component_kind_str K_PROCESSOR = ''PROCESSOR''"
| "component_kind_str K_MEMORY = ''MEMORY''"
| "component_kind_str K_STORAGE_CONTROLLER = ''STORAGE_CONTROLLER''"
| "component_kind_str K_DRIVE = ''DRIVE''"
| "component_kind_str K_FAN = ''FAN''"
| "component_kind_str K_POWER_SUPPLY = ''POWER_SUPPLY''"
| "component_kind_str K_TEMPERATURE_SENSOR = ''TEMPERATURE_SENSOR''"
| "component_kind_str K_NETWORK = ''NETWORK''"
| "component_kind_str K_INHERITED = ''undefined''"

definition BAD_HEALTH_STATES :: "health_state list" where
  "BAD_HEALTH_STATES = [WARNING, CRITICAL]"

definition HEALTH_TO_ALERT_SEVERITY :: "health_state \<Rightarrow> alert_severity" where
  "HEALTH_TO_ALERT_SEVERITY h = (if h = CRITICAL then A_CRITICAL else A_WARNING)"

definition HARDWARE_ALERT_TYPE :: string where
  "HARDWARE_ALERT_TYPE = ''hardware.health_degraded''"

record recorded_snapshot =
  rc_ciCode :: string
  rc_ciId :: uuid
  rc_overallHealth :: health_state
  rc_degradedCount :: nat

record rejected_snapshot =
  rj_index :: nat
  rj_ciCode :: string
  rj_reason :: string

definition summarizeDegraded :: "health_payload \<Rightarrow> string" where
  "summarizeDegraded snap =
     (if hp_degraded snap \<noteq> []
      then join '', '' (map (\<lambda>d. component_kind_str (dg_kind d) @ '' '' @ dg_name d @ '' ('' @ health_str (dg_health d) @ '')'') (hp_degraded snap))
      else health_source_str (hp_source snap) @ '' reports overall health '' @ health_str (hp_overallHealth snap))"

definition resolveSiteCode :: "uuid \<Rightarrow> world \<Rightarrow> string" where
  "resolveSiteCode siteId w = (case find_by s_id siteId (sites w) of None \<Rightarrow> ''UNKNOWN'' | Some s \<Rightarrow> s_code s)"

definition raised_dto :: "configuration_item \<Rightarrow> health_payload \<Rightarrow> string \<Rightarrow> string \<Rightarrow> ingest_alert_dto" where
  "raised_dto ci snap eventId siteCode = \<lparr>id_eventId = eventId, id_source = ''REDFISH'', id_siteCode = siteCode, id_ciCode = ci_code ci,
     id_alertType = HARDWARE_ALERT_TYPE, id_severity = HEALTH_TO_ALERT_SEVERITY (hp_overallHealth snap), id_componentKey = None,
     id_occurredAt = hp_observedAt snap, id_state = A_OPEN, id_summary = summarizeDegraded snap,
     id_attributes = Some [(''healthSnapshotSource'', JString (health_source_str (hp_source snap))),
       (''overallHealth'', JString (health_str (hp_overallHealth snap))), (''degraded'', JOther), (''predictiveFailures'', JOther)]\<rparr>"

definition recovered_dto :: "configuration_item \<Rightarrow> health_payload \<Rightarrow> string \<Rightarrow> string \<Rightarrow> alert_severity \<Rightarrow> ingest_alert_dto" where
  "recovered_dto ci snap eventId siteCode sev = \<lparr>id_eventId = eventId, id_source = ''REDFISH'', id_siteCode = siteCode, id_ciCode = ci_code ci,
     id_alertType = HARDWARE_ALERT_TYPE, id_severity = sev, id_componentKey = None, id_occurredAt = hp_observedAt snap, id_state = A_RECOVERED,
     id_summary = health_source_str (hp_source snap) @ '' reports overall health back to HEALTHY'',
     id_attributes = Some [(''healthSnapshotSource'', JString (health_source_str (hp_source snap)))]\<rparr>"

definition raiseOrUpdateHealthAlert :: "instant \<Rightarrow> configuration_item \<Rightarrow> health_payload \<Rightarrow> string \<Rightarrow> actor_context \<Rightarrow> unit op" where
  "raiseOrUpdateHealthAlert now ci snap eventId actor =
     bindM (getM (resolveSiteCode (ci_siteId ci))) (\<lambda>siteCode.
     bindM (ingest now (raised_dto ci snap eventId siteCode) actor) (\<lambda>_. ret ()))"

definition recoverHealthAlert :: "instant \<Rightarrow> configuration_item \<Rightarrow> health_payload \<Rightarrow> string \<Rightarrow> actor_context \<Rightarrow> unit op" where
  "recoverHealthAlert now ci snap eventId actor =
     bindM (getM (resolveSiteCode (ci_siteId ci))) (\<lambda>siteCode.
     bindM (getM (\<lambda>w. find_by event_key (''REDFISH'', eventId) (alerts w))) (\<lambda>openAlert.
     bindM (ingest now (recovered_dto ci snap eventId siteCode (case openAlert of None \<Rightarrow> A_WARNING | Some a \<Rightarrow> al_severity a)) actor) (\<lambda>_.
     ret ())))"

text \<open>
  The episode the reading belongs to: a bad reading joins the open one or starts one, a healthy one
  ends it, any other leaves it as it is.
\<close>

definition isBad :: "health_payload \<Rightarrow> bool" where
  "isBad snap \<longleftrightarrow> hp_overallHealth snap \<in> set BAD_HEALTH_STATES"

definition nextOpenAlertEventId :: "health_payload \<Rightarrow> string option \<Rightarrow> string option op" where
  "nextOpenAlertEventId snap current =
     (if isBad snap then (case current of Some e \<Rightarrow> ret (Some e) | None \<Rightarrow> bindM freshId (\<lambda>e. ret (Some e)))
      else ret (if hp_overallHealth snap = HEALTHY then None else current))"

text \<open>The JSON column: every member of the snapshot but \<open>ciCode\<close> and \<open>observedAt\<close>, which are blank here.\<close>

definition health_details :: "health_payload \<Rightarrow> health_payload" where
  "health_details snap = snap\<lparr>hp_ciCode := [], hp_observedAt := 0\<rparr>"

definition refreshed_row :: "health_payload \<Rightarrow> string option \<Rightarrow> health_row \<Rightarrow> health_row" where
  "refreshed_row snap openId r = r\<lparr>hs_overallHealth := hp_overallHealth snap, hs_details := health_details snap,
     hs_lastHeartbeatAt := Some (hp_observedAt snap), hs_openAlertEventId := openId\<rparr>"

definition new_health_row :: "uuid \<Rightarrow> uuid \<Rightarrow> health_payload \<Rightarrow> string option \<Rightarrow> health_row" where
  "new_health_row i ciId snap openId = \<lparr>hs_id = i, hs_ciId = ciId, hs_overallHealth = hp_overallHealth snap,
     hs_details = health_details snap, hs_lastHeartbeatAt = Some (hp_observedAt snap), hs_openAlertEventId = openId\<rparr>"

definition upsertHealth :: "uuid \<Rightarrow> health_payload \<Rightarrow> string option \<Rightarrow> uuid op" where
  "upsertHealth ciId snap openId =
     bindM (getM (\<lambda>w. find_by hs_ciId ciId (health_rows w))) (\<lambda>row.
     case row of
       Some r \<Rightarrow>
         bindM (modifyM (\<lambda>w. w\<lparr>health_rows := update_by hs_ciId ciId (refreshed_row snap openId) (health_rows w)\<rparr>)) (\<lambda>_.
         ret (hs_id r))
     | None \<Rightarrow>
         bindM freshId (\<lambda>i.
         bindM (modifyM (\<lambda>w. w\<lparr>health_rows := health_rows w @ [new_health_row i ciId snap openId]\<rparr>)) (\<lambda>_.
         ret i)))"

definition persistSnapshot :: "instant \<Rightarrow> uuid \<Rightarrow> health_payload \<Rightarrow> string option \<Rightarrow> actor_context \<Rightarrow> unit op" where
  "persistSnapshot now ciId snap openId actor = transaction
     (bindM (upsertHealth ciId snap openId) (\<lambda>rowId.
      auditRecord now (Some (actorId actor)) ''health_snapshot'' rowId ''HEALTH_SNAPSHOT_RECORDED'' None
        (Some (SnapHealth (hp_ciCode snap) (hp_source snap) (hp_overallHealth snap) (hp_powerState snap)
           (length (hp_degraded snap)) (length (hp_predictiveFailures snap)))) (correlationId actor)))"

definition syncHealthAlert :: "instant \<Rightarrow> configuration_item \<Rightarrow> health_payload \<Rightarrow> string option \<Rightarrow> string option \<Rightarrow> actor_context \<Rightarrow> unit op" where
  "syncHealthAlert now ci snap current openId actor = swallowM
     (if isBad snap then raiseOrUpdateHealthAlert now ci snap (the openId) actor
      else if hp_overallHealth snap = HEALTHY \<and> truthy current then recoverHealthAlert now ci snap (the current) actor
      else ret ())"

definition recordSnapshot :: "instant \<Rightarrow> configuration_item \<Rightarrow> health_payload \<Rightarrow> actor_context \<Rightarrow> recorded_snapshot op" where
  "recordSnapshot now ci snap actor =
     bindM (getM (\<lambda>w. Option.bind (find_by hs_ciId (ci_id ci) (health_rows w)) hs_openAlertEventId)) (\<lambda>current.
     bindM (nextOpenAlertEventId snap current) (\<lambda>openId.
     bindM (persistSnapshot now (ci_id ci) snap openId actor) (\<lambda>_.
     bindM (syncHealthAlert now ci snap current openId actor) (\<lambda>_.
     ret \<lparr>rc_ciCode = hp_ciCode snap, rc_ciId = ci_id ci, rc_overallHealth = hp_overallHealth snap,
          rc_degradedCount = length (hp_degraded snap)\<rparr>))))"

fun recordSnapshotsFrom :: "instant \<Rightarrow> nat \<Rightarrow> health_payload list \<Rightarrow> actor_context \<Rightarrow> (recorded_snapshot list \<times> rejected_snapshot list) op" where
  "recordSnapshotsFrom now index [] actor = ret ([], [])"
| "recordSnapshotsFrom now index (snap # rest) actor =
     bindM (getM (\<lambda>w. find_by ci_code (hp_ciCode snap) (world.cis w))) (\<lambda>ci.
     case ci of
       None \<Rightarrow>
         bindM (recordSnapshotsFrom now (Suc index) rest actor) (\<lambda>(accepted, rejected).
         ret (accepted, \<lparr>rj_index = index, rj_ciCode = hp_ciCode snap, rj_reason = ''unknown CI''\<rparr> # rejected))
     | Some c \<Rightarrow>
         bindM (recordSnapshot now c snap actor) (\<lambda>r.
         bindM (recordSnapshotsFrom now (Suc index) rest actor) (\<lambda>(accepted, rejected).
         ret (r # accepted, rejected))))"

definition recordSnapshots :: "instant \<Rightarrow> health_payload list \<Rightarrow> actor_context \<Rightarrow> (recorded_snapshot list \<times> rejected_snapshot list) op" where
  "recordSnapshots now snapshots actor = recordSnapshotsFrom now 0 snapshots actor"

definition recordHeartbeat :: "instant \<Rightarrow> string \<Rightarrow> actor_context \<Rightarrow> instant op" where
  "recordHeartbeat now siteCode actor =
     bindM (auditRecord now (Some (actorId actor)) ''collector'' siteCode ''COLLECTOR_HEARTBEAT'' None (Some (SnapHeartbeat now)) (correlationId actor)) (\<lambda>_.
     ret now)"

definition getForCi :: "string \<Rightarrow> world \<Rightarrow> http_error + health_row" where
  "getForCi ciCode w =
     (case find_by ci_code ciCode (world.cis w) of
        None \<Rightarrow> Inl (NotFound (''Configuration item '' @ ciCode @ '' not found''))
      | Some ci \<Rightarrow>
          (case find_by hs_ciId (ci_id ci) (health_rows w) of
             None \<Rightarrow> Inl (NotFound (''No health snapshot recorded for '' @ ciCode))
           | Some row \<Rightarrow> Inr row))"

section \<open>Ingestion as a map of events\<close>

text \<open>What the alert table says of an event: the first row with its key.\<close>

definition event_state :: "world \<Rightarrow> string \<times> string \<Rightarrow> alert_state option" where
  "event_state w = map_of (map (\<lambda>a. (event_key a, al_state a)) (alerts w))"

lemma event_state_same: "map (\<lambda>a. (event_key a, al_state a)) (alerts w') = map (\<lambda>a. (event_key a, al_state a)) (alerts w) \<Longrightarrow>
   event_state w' = event_state w"
  by (simp add: event_state_def)

lemma map_of_find_by: "map_of (map (\<lambda>a. (f a, g a)) rows) k = map_option g (find_by f k rows)"
  by (induction rows) auto

lemma map_of_update_first:
  assumes "distinct (map i rows)" "find_by f k rows = Some e" "\<And>a. f (u a) = f a"
  shows "map_of (map (\<lambda>a. (f a, g a)) (update_by i (i e) u rows)) = (map_of (map (\<lambda>a. (f a, g a)) rows))(k \<mapsto> g (u e))"
  using assms(1,2)
proof (induction rows)
  case (Cons r rows)
  show ?case
  proof (cases "f r = k")
    case True
    moreover from True have "r = e" "i e \<notin> i ` set rows" using Cons.prems by auto
    moreover from this have "update_by i (i e) u rows = rows" unfolding update_by_def by (intro map_idI) (metis imageI)
    ultimately show ?thesis by (auto simp: update_by_def assms(3))
  next
    case False
    then have "e \<in> set rows" "f e = k" using Cons.prems find_by_SomeD by fastforce+
    then have "i r \<noteq> i e" using Cons.prems(1) by auto
    then show ?thesis using Cons False by (auto simp: update_by_def fun_upd_twist)
  qed
qed simp

lemma attached_states: "attached a w w' \<Longrightarrow> event_state w' = event_state w"
proof (rule event_state_same)
  assume "attached a w w'"
  then obtain i where "alerts w' = update_by al_id a (\<lambda>x. x\<lparr>al_correlatedIncidentId := Some i\<rparr>) (alerts w)"
    by (auto simp: attached_def)
  then show "map (\<lambda>a. (event_key a, al_state a)) (alerts w') = map (\<lambda>a. (event_key a, al_state a)) (alerts w)"
    by (auto simp: update_by_def event_key_def)
qed

lemma event_state_existing: "event_state w (id_source dto, id_eventId dto) = map_option al_state (existing_alert dto w)"
  by (simp add: event_state_def map_of_find_by existing_alert_def event_key_def [abs_def])

lemma ingest_event_state:
  assumes "keys_ok alerts al_id w"
  shows "event_state (snd (ingest now dto actor w)) = (event_state w)((id_source dto, id_eventId dto) \<mapsto>
     (case event_state w (id_source dto, id_eventId dto) of None \<Rightarrow> id_state dto | Some s \<Rightarrow> reduceAlertState s (id_state dto)))"
proof -
  obtain k sg w1 w2 w3 s c fp where st: "recordSighting now dto s c fp (existing_alert dto w) actor (w\<lparr>rule_cache := k\<rparr>) = (Inr sg, w1)"
    "same_alerts w1 w2" "same_alerts w2 w3 \<or> attached (sg_alertId sg) w2 w3"
    "same_alerts w3 (snd (ingest now dto actor w))" by (rule ingest_run [of now dto w actor]) metis
  have "event_state (snd (ingest now dto actor w)) = event_state w1"
    using st(2-4) attached_states by (auto simp: same_alerts_def event_state_def)
  moreover have "event_state w1 = (event_state w)((id_source dto, id_eventId dto) \<mapsto>
     (case event_state w (id_source dto, id_eventId dto) of None \<Rightarrow> id_state dto | Some s \<Rightarrow> reduceAlertState s (id_state dto)))"
  proof (cases "existing_alert dto w")
    case None
    have "event_state w (id_source dto, id_eventId dto) = None" using None by (simp add: event_state_existing)
    moreover have "map_of (xs @ [(k, v)]) = (map_of xs)(k \<mapsto> v)" if "map_of xs k = None" for xs and k :: "string \<times> string" and v :: alert_state
      using that by (auto simp: map_add_def fun_eq_iff split: option.split)
    ultimately show ?thesis
      using sighting_new(1) [OF st(1) [unfolded None]] by (auto simp: event_state_def)
  next
    case (Some e)
    then have e: "find_by event_key (id_source dto, id_eventId dto) (alerts w) = Some e"
      by (simp add: existing_alert_def event_key_def [abs_def])
    have "distinct (map al_id (alerts w))" using assms by (simp add: keys_ok_def)
    from map_of_update_first [OF this e, of "update_alert dto s c e" al_state]
    have "event_state w1 = (event_state w)((id_source dto, id_eventId dto) \<mapsto> al_state (update_alert dto s c e e))"
      using sighting_known(1) [OF st(1) [unfolded Some]] by (auto simp: event_state_def event_key_def update_alert_def)
    then show ?thesis by (simp add: event_state_existing Some update_alert_def)
  qed
  ultimately show ?thesis by simp
qed

text \<open>Ingestion leaves the health rows alone.\<close>

lemma keeps_health_transaction: "keeps health_rows m \<Longrightarrow> keeps health_rows (transaction m)"
  by (rule keeps_transaction) (simp_all add: rollback_def)

lemma keeps_health_parts:
  "keeps health_rows (add_event now i aa ev0)" "keeps health_rows (notifyAlertRecoveredEmail inc al)"
  "keeps health_rows (notifyRecoveredBell now inc al at')" "keeps health_rows (notifyServiceDeskOfNewIncident now inc a)"
  "keeps health_rows (emit ev)" "keeps health_rows (startForIncident now i st p act)" "keeps health_rows (auditRecord n aa t k x b f c)"
  "keeps health_rows freshId" "keeps health_rows nextIncidentNo" "keeps health_rows (insert_incident r)"
  "keeps health_rows (notifyUsers now inp)" "keeps health_rows (enqueue q kd e to cc j)"
proof -
  show "keeps health_rows (add_event now i aa ev0)" "keeps health_rows (emit ev)" "keeps health_rows (auditRecord n aa t k x b f c)"
    "keeps health_rows freshId" "keeps health_rows nextIncidentNo" "keeps health_rows (insert_incident r)"
    by (simp_all add: keeps_def add_event_def emit_def nextIncidentNo_eval insert_incident_def bindM_def)
  show "keeps health_rows (notifyAlertRecoveredEmail inc al)" "keeps health_rows (notifyRecoveredBell now inc al at')"
    "keeps health_rows (notifyServiceDeskOfNewIncident now inc a)"
    by (rule keeps_committedD, rule keeps_notices, simp add: committed_def)+
  show "keeps health_rows (notifyUsers now inp)" by (rule keeps_committedD, rule keeps_notifyUsers, simp add: committed_def)
  show "keeps health_rows (enqueue q kd e to cc j)" by (rule keeps_committedD, rule keeps_enqueue, simp add: committed_def)
  have "keeps beside_sla (startForIncident now i st p act)" by (rule keeps_intros)
  moreover have "health_rows w' = health_rows w" if "beside_sla w' = beside_sla w" for w w'
    using arg_cong [OF that, of health_rows] by (simp add: beside_sla_def)
  ultimately show "keeps health_rows (startForIncident now i st p act)" unfolding keeps_def by blast
qed

lemma keeps_health_rules: "keeps health_rows (resolveRule now s t)"
  unfolding keeps_def
proof
  fix w
  obtain rule c where "resolveRule now s t w = (Inr rule, w\<lparr>rule_cache := c\<rparr>)" using resolveRule_returns by blast
  then show "health_rows (snd (resolveRule now s t w)) = health_rows w" by simp
qed

lemma keeps_health_ingest: "keeps health_rows (ingest now dto actor)"
  unfolding ingest_def recordSighting_def refreshAlert_def createAlert_def notifyNocOfCriticalAlert_def ticketAlert_def
    correlateToOpenIncident_def openIncidentForAlert_def notifyAlertRecoveredIfAlreadyClosed_def setCorrelated_def
    linkAlert_def writeAlertLink_def createFromAlert_def createFromAlertInTx_def createInTx_def afterCreate_def
    notifyAlertRecovered_def noteAlertRecoveredOnOpenIncident_def
  by (intro keeps_basic keeps_bind keeps_if keeps_option keeps_prod keeps_let keeps_swallow keeps_catch keeps_health_transaction keeps_health_parts
      keeps_health_rules keeps_modify; simp)

section \<open>One reading\<close>

text \<open>The abstract state: the open episode and the last reading of each device.\<close>

definition episodes :: "world \<Rightarrow> uuid \<Rightarrow> string option" where
  "episodes w c = Option.bind (find_by hs_ciId c (health_rows w)) hs_openAlertEventId"

definition readings :: "world \<Rightarrow> uuid \<Rightarrow> health_state option" where
  "readings w c = map_option hs_overallHealth (find_by hs_ciId c (health_rows w))"

definition upserted :: "uuid \<Rightarrow> health_payload \<Rightarrow> string option \<Rightarrow> uuid \<Rightarrow> health_row list \<Rightarrow> health_row list" where
  "upserted k snap openId i rows =
     (if find_by hs_ciId k rows = None then rows @ [new_health_row i k snap openId] else update_by hs_ciId k (refreshed_row snap openId) rows)"

lemma find_by_upserted:
  "find_by hs_ciId c (upserted k snap openId i rows) =
     (if c = k then Some (case find_by hs_ciId k rows of None \<Rightarrow> new_health_row i k snap openId | Some r \<Rightarrow> refreshed_row snap openId r)
      else find_by hs_ciId c rows)"
proof -
  have key: "hs_ciId (refreshed_row snap openId r) = hs_ciId r" for r by (simp add: refreshed_row_def)
  have "find_by hs_ciId c (update_by hs_ciId k (refreshed_row snap openId) rows) =
      (if c = k then map_option (refreshed_row snap openId) (find_by hs_ciId k rows) else find_by hs_ciId c rows)"
    by (induction rows) (auto simp: update_by_def key)
  then show ?thesis by (auto simp: upserted_def find_by_append new_health_row_def split: option.split)
qed

lemma upserted_views:
  assumes "health_rows w' = upserted k snap openId i (health_rows w)"
  shows "episodes w' = (episodes w)(k := openId)" "readings w' = (readings w)(k \<mapsto> hp_overallHealth snap)"
  by (auto simp: fun_eq_iff episodes_def readings_def assms find_by_upserted new_health_row_def refreshed_row_def split: option.split)

lemma persistSnapshot_eval:
  "\<exists>i n aud. persistSnapshot now k snap openId actor w =
     (Inr (), w\<lparr>health_rows := upserted k snap openId i (health_rows w), uuid_next := n, audits := aud\<rparr>) \<and> uuid_next w \<le> n"
proof (cases "find_by hs_ciId k (health_rows w)")
  case None
  then show ?thesis
    by (intro exI [of _ "env_uuid (env w) (uuid_next w)"] exI [of _ "Suc (uuid_next w)"]
          exI [of _ "audits (snd (persistSnapshot now k snap openId actor w))"])
      (simp add: persistSnapshot_def upsertHealth_def upserted_def bindM_def transactionM_def)
next
  case (Some r)
  then show ?thesis
    by (intro exI [of _ "[]"] exI [of _ "uuid_next w"] exI [of _ "audits (snd (persistSnapshot now k snap openId actor w))"])
      (simp add: persistSnapshot_def upsertHealth_def upserted_def bindM_def transactionM_def)
qed

lemma nextOpen_eval:
  "\<exists>openId n. nextOpenAlertEventId snap current w = (Inr openId, w\<lparr>uuid_next := n\<rparr>) \<and> uuid_next w \<le> n \<and>
     (isBad snap \<longrightarrow> openId = Some (case current of Some e \<Rightarrow> e | None \<Rightarrow> env_uuid (env w) (uuid_next w)) \<and>
        (current = None \<longrightarrow> uuid_next w < n)) \<and>
     (\<not> isBad snap \<longrightarrow> openId = (if hp_overallHealth snap = HEALTHY then None else current))"
proof (cases "isBad snap \<and> current = None")
  case True
  then show ?thesis
    by (intro exI [of _ "Some (env_uuid (env w) (uuid_next w))"] exI [of _ "Suc (uuid_next w)"]) (simp add: nextOpenAlertEventId_def)
next
  case False
  then show ?thesis
    by (intro exI [of _ "if isBad snap then current else if hp_overallHealth snap = HEALTHY then None else current"] exI [of _ "uuid_next w"])
      (auto simp: nextOpenAlertEventId_def)
qed

text \<open>The alert the reading is turned into, if any.\<close>

definition alert_of_reading :: "configuration_item \<Rightarrow> health_payload \<Rightarrow> string option \<Rightarrow> string option \<Rightarrow> world \<Rightarrow> ingest_alert_dto option" where
  "alert_of_reading ci snap current openId w =
     (if isBad snap then Some (raised_dto ci snap (the openId) (resolveSiteCode (ci_siteId ci) w))
      else if hp_overallHealth snap = HEALTHY \<and> truthy current
      then Some (recovered_dto ci snap (the current) (resolveSiteCode (ci_siteId ci) w)
        (case find_by event_key (''REDFISH'', the current) (alerts w) of None \<Rightarrow> A_WARNING | Some a \<Rightarrow> al_severity a))
      else None)"

lemma syncHealthAlert_eval:
  "syncHealthAlert now ci snap current openId actor w =
     (Inr (), case alert_of_reading ci snap current openId w of None \<Rightarrow> w | Some dto \<Rightarrow> snd (ingest now dto actor w))"
  by (auto simp: syncHealthAlert_def alert_of_reading_def swallowM_def raiseOrUpdateHealthAlert_def recoverHealthAlert_def bindM_def
      split: prod.split sum.split)

lemma recordSnapshot_run:
  obtains openId i w1 where
    "isBad snap \<longrightarrow> openId = Some (case episodes w (ci_id ci) of Some e \<Rightarrow> e | None \<Rightarrow> env_uuid (env w) (uuid_next w))"
    "isBad snap \<and> episodes w (ci_id ci) = None \<longrightarrow> uuid_next w < uuid_next w1"
    "\<not> isBad snap \<longrightarrow> openId = (if hp_overallHealth snap = HEALTHY then None else episodes w (ci_id ci))"
    "health_rows w1 = upserted (ci_id ci) snap openId i (health_rows w)" "alerts w1 = alerts w" "env w1 = env w" "uuid_next w \<le> uuid_next w1"
    "recordSnapshot now ci snap actor w =
       (Inr \<lparr>rc_ciCode = hp_ciCode snap, rc_ciId = ci_id ci, rc_overallHealth = hp_overallHealth snap, rc_degradedCount = length (hp_degraded snap)\<rparr>,
        case alert_of_reading ci snap (episodes w (ci_id ci)) openId w1 of None \<Rightarrow> w1 | Some dto \<Rightarrow> snd (ingest now dto actor w1))"
proof -
  let ?cur = "episodes w (ci_id ci)"
  obtain openId n where o': "nextOpenAlertEventId snap ?cur w = (Inr openId, w\<lparr>uuid_next := n\<rparr>)" "uuid_next w \<le> n"
    "isBad snap \<longrightarrow> openId = Some (case ?cur of Some e \<Rightarrow> e | None \<Rightarrow> env_uuid (env w) (uuid_next w)) \<and> (?cur = None \<longrightarrow> uuid_next w < n)"
    "\<not> isBad snap \<longrightarrow> openId = (if hp_overallHealth snap = HEALTHY then None else ?cur)"
    using nextOpen_eval [of snap ?cur w] by (elim exE conjE) (rule that)
  obtain i m aud where p: "persistSnapshot now (ci_id ci) snap openId actor (w\<lparr>uuid_next := n\<rparr>) =
      (Inr (), w\<lparr>health_rows := upserted (ci_id ci) snap openId i (health_rows w), uuid_next := m, audits := aud\<rparr>)" "n \<le> m"
    using persistSnapshot_eval [of now "ci_id ci" snap openId actor "w\<lparr>uuid_next := n\<rparr>"] by auto
  show ?thesis
    by (rule that [of openId "w\<lparr>health_rows := upserted (ci_id ci) snap openId i (health_rows w), uuid_next := m, audits := aud\<rparr>" i])
      (use o' p in \<open>auto simp: recordSnapshot_def bindM_def syncHealthAlert_eval simp flip: episodes_def\<close>)
qed

section \<open>Alerts follow the devices\<close>

text \<open>
  The open episodes of the devices are the hardware events whose alert is not recovered, and no two
  devices share one.
\<close>

definition hardware_event :: "world \<Rightarrow> string \<Rightarrow> alert_state option" where
  "hardware_event w e = event_state w (''REDFISH'', e)"

definition episodes_match :: "(uuid \<Rightarrow> string option) \<Rightarrow> (string \<Rightarrow> alert_state option) \<Rightarrow> bool" where
  "episodes_match ep hw \<longleftrightarrow> (\<forall>e. e \<in> ran ep \<longleftrightarrow> hw e = Some A_OPEN \<or> hw e = Some A_ACKNOWLEDGED) \<and> inj_on ep (dom ep)"

lemma match_open:
  assumes "episodes_match ep hw" "ep k = None" "hw e = None"
  shows "episodes_match (ep(k \<mapsto> e)) (hw(e \<mapsto> A_OPEN))"
proof -
  have "e \<notin> ran ep" using assms(1,3) by (simp add: episodes_match_def)
  then have "ep c \<noteq> Some e" for c by (auto simp: ran_def)
  moreover have "ran (ep(k \<mapsto> e)) = insert e (ran ep)" using assms(2) by simp
  ultimately show ?thesis using assms(1) by (auto simp: episodes_match_def inj_on_def)
qed

lemma match_close:
  assumes "episodes_match ep hw" "ep k = Some e"
  shows "episodes_match (ep(k := None)) (hw(e \<mapsto> A_RECOVERED))"
proof -
  have only: "c = k" if "ep c = Some e" for c
    using assms that by (auto simp: episodes_match_def inj_on_def dom_def)
  have "(\<exists>c. c \<noteq> k \<and> ep c = Some x) \<longleftrightarrow> (\<exists>c. ep c = Some x) \<and> x \<noteq> e" for x
    using only assms(2) by (metis option.inject)
  then have "ran (ep(k := None)) = ran ep - {e}" by (auto simp: ran_def)
  then show ?thesis using assms(1) by (auto simp: episodes_match_def inj_on_def)
qed

definition reading_ok :: "health_state option \<Rightarrow> string option \<Rightarrow> bool" where
  "reading_ok h e \<longleftrightarrow> (h \<in> Some ` set BAD_HEALTH_STATES \<longrightarrow> e \<noteq> None) \<and> (h = Some HEALTHY \<longrightarrow> e = None)"

definition monitor_inv :: "world \<Rightarrow> bool" where
  "monitor_inv w \<longleftrightarrow> keys_ok alerts al_id w \<and> (\<forall>n. env_uuid (env w) n \<noteq> []) \<and> episodes_match (episodes w) (hardware_event w) \<and>
     (\<forall>e. hardware_event w e \<noteq> None \<longrightarrow> issued w e) \<and> (\<forall>c. reading_ok (readings w c) (episodes w c))"

lemma monitor_invI:
  assumes "monitor_inv w" "env w' = env w" "uuid_next w \<le> uuid_next w'" "keys_ok alerts al_id w'"
    "episodes_match (episodes w') (hardware_event w')" "\<And>e. hardware_event w' e \<noteq> None \<Longrightarrow> hardware_event w e \<noteq> None \<or> issued w' e"
    "\<And>c. reading_ok (readings w' c) (episodes w' c)"
  shows "monitor_inv w'"
  using assms issued_later [OF _ assms(2,3)] unfolding monitor_inv_def by metis

lemma ingest_frame:
  "env (snd (ingest now dto actor w)) = env w" "uuid_next w \<le> uuid_next (snd (ingest now dto actor w))"
  "health_rows (snd (ingest now dto actor w)) = health_rows w"
  "keys_ok alerts al_id w \<Longrightarrow> keys_ok alerts al_id (snd (ingest now dto actor w))"
  using follow_ingest [of w now dto actor] keepsD [OF keeps_health_ingest] by (auto simp: rows_follow_def)

lemma dto_fields:
  "id_source (raised_dto ci snap e sc) = ''REDFISH''" "id_eventId (raised_dto ci snap e sc) = e" "id_state (raised_dto ci snap e sc) = A_OPEN"
  "id_source (recovered_dto ci snap e sc sev) = ''REDFISH''" "id_eventId (recovered_dto ci snap e sc sev) = e"
  "id_state (recovered_dto ci snap e sc sev) = A_RECOVERED"
  by (simp_all add: raised_dto_def recovered_dto_def)

lemma hardware_ingest:
  assumes "keys_ok alerts al_id w" "id_source dto = ''REDFISH''"
  shows "hardware_event (snd (ingest now dto actor w)) = (hardware_event w)(id_eventId dto \<mapsto>
     (case hardware_event w (id_eventId dto) of None \<Rightarrow> id_state dto | Some s \<Rightarrow> reduceAlertState s (id_state dto)))"
  by (simp add: fun_eq_iff hardware_event_def ingest_event_state [OF assms(1)] assms(2))

lemma recordSnapshot_inv:
  assumes "monitor_inv w"
  shows "monitor_inv (snd (recordSnapshot now ci snap actor w))"
proof -
  let ?k = "ci_id ci" and ?w' = "snd (recordSnapshot now ci snap actor w)"
  obtain openId i w1 where r:
    "isBad snap \<longrightarrow> openId = Some (case episodes w ?k of Some e \<Rightarrow> e | None \<Rightarrow> env_uuid (env w) (uuid_next w))"
    "isBad snap \<and> episodes w ?k = None \<longrightarrow> uuid_next w < uuid_next w1"
    "\<not> isBad snap \<longrightarrow> openId = (if hp_overallHealth snap = HEALTHY then None else episodes w ?k)"
    "health_rows w1 = upserted ?k snap openId i (health_rows w)" "alerts w1 = alerts w" "env w1 = env w" "uuid_next w \<le> uuid_next w1"
    "?w' = (case alert_of_reading ci snap (episodes w ?k) openId w1 of None \<Rightarrow> w1 | Some dto \<Rightarrow> snd (ingest now dto actor w1))"
    by (rule recordSnapshot_run [of snap w ci now actor]) (rule that, assumption+, simp)
  note inv = assms [unfolded monitor_inv_def]
  have keys1: "keys_ok alerts al_id w1" by (rule keys_ok_same) (use inv r in auto)
  have frame: "env ?w' = env w" "uuid_next w1 \<le> uuid_next ?w'" "keys_ok alerts al_id ?w'" "health_rows ?w' = health_rows w1"
    using r(6,8) keys1 ingest_frame by (auto split: option.split)
  have views: "episodes ?w' = (episodes w)(?k := openId)" "readings ?w' = (readings w)(?k \<mapsto> hp_overallHealth snap)"
    using upserted_views [of ?w' ?k snap openId i w] frame(4) r(4) by auto
  have events1: "hardware_event w1 = hardware_event w" using r(5) by (simp add: event_state_def hardware_event_def [abs_def])
  have reading: "reading_ok (readings ?w' c) (episodes ?w' c)" for c
    using inv r(1,3) by (auto simp: views reading_ok_def isBad_def BAD_HEALTH_STATES_def)
  have some: "hardware_event w e = Some A_OPEN \<or> hardware_event w e = Some A_ACKNOWLEDGED" if "episodes w ?k = Some e" for e
    using inv that by (auto simp: episodes_match_def ran_def)
  have "episodes_match (episodes ?w') (hardware_event ?w') \<and>
      (\<forall>e. hardware_event ?w' e \<noteq> None \<longrightarrow> hardware_event w e \<noteq> None \<or> issued ?w' e)"
  proof (cases "isBad snap")
    case True
    define e where "e = (case episodes w ?k of Some e \<Rightarrow> e | None \<Rightarrow> env_uuid (env w) (uuid_next w))"
    have "hardware_event ?w' = (hardware_event w)(e \<mapsto>
        (case hardware_event w e of None \<Rightarrow> A_OPEN | Some s \<Rightarrow> reduceAlertState s A_OPEN))"
    proof -
      have "alert_of_reading ci snap (episodes w ?k) openId w1 = Some (raised_dto ci snap e (resolveSiteCode (ci_siteId ci) w1))"
        using r(1) True by (simp add: alert_of_reading_def e_def)
      then show ?thesis using r(8) hardware_ingest [OF keys1 dto_fields(1), unfolded dto_fields] events1 by simp
    qed
    moreover have "issued ?w' e" if "episodes w ?k = None"
      using r(2) True that frame(1,2) by (auto simp: issued_def e_def intro!: exI [of _ "uuid_next w"])
    moreover have "hardware_event w e = None" if "episodes w ?k = None"
      using that inv fresh_not_issued [of w] by (auto simp: e_def keys_ok_def)
    ultimately show ?thesis
      using r(1) True some inv match_open [of "episodes w" "hardware_event w" ?k e]
      by (cases "episodes w ?k") (auto simp: views e_def reduceAlertState_def fun_upd_idem)
  next
    case False
    show ?thesis
    proof (cases "hp_overallHealth snap = HEALTHY \<and> episodes w ?k \<noteq> None")
      case True
      then obtain e where e: "episodes w ?k = Some e" by auto
      have "issued w e" using some [OF e] inv by auto
      then have "e \<noteq> []" using inv by (auto simp: issued_def)
      then have "hardware_event ?w' = (hardware_event w)(e \<mapsto> A_RECOVERED)"
        using r(8) True False e some [OF e] hardware_ingest [OF keys1 dto_fields(4), unfolded dto_fields] events1
        by (auto simp: alert_of_reading_def reduceAlertState_def)
      then show ?thesis using match_close [of "episodes w" "hardware_event w" ?k e] inv e r(3) False True some [OF e] by (auto simp: views)
    next
      case quiet: False
      then have "?w' = w1" using r(8) False by (auto simp: alert_of_reading_def)
      moreover have "openId = episodes w ?k" using quiet r(3) False by auto
      moreover from calculation have "episodes w1 = episodes w" using views(1) by simp
      ultimately show ?thesis using inv events1 by simp
    qed
  qed
  then show ?thesis
    using reading frame r(7) by (intro monitor_invI [OF assms]) auto
qed

lemma recordSnapshotsFrom_inv: "monitor_inv w \<Longrightarrow> monitor_inv (snd (recordSnapshotsFrom now i snaps actor w))"
proof (induction snaps arbitrary: i w)
  case (Cons snap snaps)
  show ?case
  proof (cases "find_by ci_code (hp_ciCode snap) (world.cis w)")
    case None
    then show ?thesis using Cons.IH [OF Cons.prems, of "Suc i"] by (auto simp: bindM_def split: prod.splits sum.splits)
  next
    case (Some c)
    obtain rec where "fst (recordSnapshot now c snap actor w) = Inr rec" by (rule recordSnapshot_run [of snap w c now actor]) simp
    then have "recordSnapshot now c snap actor w = (Inr rec, snd (recordSnapshot now c snap actor w))" by (metis prod.collapse)
    then show ?thesis using Some Cons.IH [OF recordSnapshot_inv [OF Cons.prems], of "Suc i" now c snap actor]
      by (auto simp: bindM_def split: prod.splits sum.splits)
  qed
qed simp

inductive monitor_step :: "world \<Rightarrow> world \<Rightarrow> bool" where
  ms_record: "monitor_step w (snd (recordSnapshots now snaps actor w))"
| ms_other_source: "id_source dto \<noteq> ''REDFISH'' \<Longrightarrow> monitor_step w (snd (ingest now dto actor w))"
| ms_elsewhere: "env w' = env w \<Longrightarrow> uuid_next w \<le> uuid_next w' \<Longrightarrow> alerts w' = alerts w \<Longrightarrow> health_rows w' = health_rows w \<Longrightarrow>
    monitor_step w w'"

lemma monitor_step_inv: "monitor_step w w' \<Longrightarrow> monitor_inv w \<Longrightarrow> monitor_inv w'"
proof (induction rule: monitor_step.induct)
  case (ms_record w now snaps actor)
  then show ?case by (simp add: recordSnapshots_def recordSnapshotsFrom_inv)
next
  case (ms_other_source dto w now actor)
  have keys: "keys_ok alerts al_id w" using ms_other_source.prems by (simp add: monitor_inv_def)
  have same: "episodes (snd (ingest now dto actor w)) = episodes w" "readings (snd (ingest now dto actor w)) = readings w"
    "hardware_event (snd (ingest now dto actor w)) = hardware_event w"
    using ms_other_source.hyps ingest_frame(3) ingest_event_state [OF keys]
    by (simp_all add: episodes_def [abs_def] readings_def [abs_def] hardware_event_def [abs_def])
  show ?case
    by (rule monitor_invI [OF ms_other_source.prems]) (use ms_other_source.prems ingest_frame keys same in \<open>auto simp: monitor_inv_def\<close>)
next
  case (ms_elsewhere w' w)
  have "episodes w' = episodes w" "readings w' = readings w" "hardware_event w' = hardware_event w" "keys_ok alerts al_id w'"
    using ms_elsewhere keys_ok_same [of alerts al_id w w']
    by (simp_all add: episodes_def [abs_def] readings_def [abs_def] hardware_event_def [abs_def] event_state_def monitor_inv_def)
  then show ?case
    by (intro monitor_invI [OF ms_elsewhere.prems]) (use ms_elsewhere in \<open>auto simp: monitor_inv_def\<close>)
qed

interpretation monitoring: invariant_system monitor_step monitor_inv
  by unfold_locales (rule monitor_step_inv)

lemma recordSnapshot_readings:
  "readings (snd (recordSnapshot now ci snap actor w)) = (readings w)(ci_id ci \<mapsto> hp_overallHealth snap)"
proof -
  obtain openId i w1 dto where "health_rows w1 = upserted (ci_id ci) snap openId i (health_rows w)"
    "snd (recordSnapshot now ci snap actor w) = (case dto of None \<Rightarrow> w1 | Some dto \<Rightarrow> snd (ingest now dto actor w1))"
    by (rule recordSnapshot_run [of snap w ci now actor]) simp
  then show ?thesis
    using upserted_views(2) [of _ "ci_id ci" snap openId i w] ingest_frame(3) [of now _ actor w1] by (cases dto) simp_all
qed

lemma recordSnapshots_one:
  assumes "find_by ci_code (hp_ciCode snap) (world.cis w) = Some ci"
  shows "snd (recordSnapshots now [snap] actor w) = snd (recordSnapshot now ci snap actor w)"
  using assms by (auto simp: recordSnapshots_def bindM_def split: prod.split sum.split)

section \<open>The properties\<close>

text \<open>
  C15: Through any sequence of readings, and of deliveries from other sources, a hardware alert is open (not recovered)
  just when it is the open episode of some device, no two devices share one, and a device whose last reading was bad has
  an open alert while one that last read healthy has none.
\<close>

theorem hardware_alerts_follow_health:
  assumes "monitor_step\<^sup>*\<^sup>* w w'" "monitor_inv w"
  shows "(\<forall>e. (\<exists>c. episodes w' c = Some e) \<longleftrightarrow> event_state w' (''REDFISH'', e) \<in> {Some A_OPEN, Some A_ACKNOWLEDGED}) \<and>
     inj_on (episodes w') (dom (episodes w')) \<and>
     (\<forall>c. readings w' c \<in> {Some WARNING, Some CRITICAL} \<longrightarrow> episodes w' c \<noteq> None) \<and>
     (\<forall>c. readings w' c = Some HEALTHY \<longrightarrow> episodes w' c = None)"
proof -
  have inv: "monitor_inv w'" using assms by (rule monitoring.run_inv)
  then have "\<forall>e. (\<exists>c. episodes w' c = Some e) \<longleftrightarrow> event_state w' (''REDFISH'', e) \<in> {Some A_OPEN, Some A_ACKNOWLEDGED}"
    by (simp add: monitor_inv_def episodes_match_def ran_def hardware_event_def)
  moreover have "inj_on (episodes w') (dom (episodes w'))" using inv by (simp add: monitor_inv_def episodes_match_def)
  moreover have "reading_ok (readings w' c) (episodes w' c)" for c using inv by (simp add: monitor_inv_def)
  ultimately show ?thesis by (auto simp: reading_ok_def BAD_HEALTH_STATES_def)
qed

definition monitored_ci :: configuration_item where
  "monitored_ci = \<lparr>ci_id = ''c1'', ci_code = ''SRV-1'', ci_siteId = ''s1'', ci_rackId = None, ci_ciType = CT_SERVER, ci_name = ''srv'',
     ci_manufacturer = None, ci_model = None, ci_serialOrServiceTag = None, ci_managementAddress = None, ci_ownerGroupId = None,
     ci_managedBy = MB_CTS, ci_criticality = CR_HIGH, ci_lifecycleStatus = ACTIVE\<rparr>"

definition monitor_world :: world where
  "monitor_world = empty_world\<lparr>cis := [monitored_ci]\<rparr>"

lemma monitor_world_inv: "monitor_inv monitor_world"
  by (simp add: monitor_inv_def monitor_world_def empty_world_def keys_ok_def episodes_match_def episodes_def [abs_def] readings_def
      hardware_event_def event_state_def reading_ok_def inj_on_def nat_str_nonempty) (blast intro: nat_str_inj)

definition quiet_snapshot :: health_payload where
  "quiet_snapshot = \<lparr>hp_ciCode = ''SRV-1'', hp_source = REDFISH, hp_overallHealth = CRITICAL, hp_powerState = POWER_ON, hp_observedAt = 5,
     hp_degraded = [], hp_predictiveFailures = [],
     hp_summary = \<lparr>hsu_drives = \<lparr>hn_total = 0, hn_healthy = 0\<rparr>, hsu_predictedFailure = 0, hsu_fans = \<lparr>hn_total = 0, hn_healthy = 0\<rparr>,
       hsu_powerSupplies = \<lparr>hn_total = 0, hn_healthy = 0\<rparr>\<rparr>, hp_biosVersion = None, hp_attributes = []\<rparr>"

lemma monitor_world_ci: "hp_ciCode p = ''SRV-1'' \<Longrightarrow> find_by ci_code (hp_ciCode p) (world.cis monitor_world) = Some monitored_ci"
  by (simp add: monitor_world_def monitored_ci_def)

theorem hardware_alerts_follow_health_witness:
  "\<exists>e. episodes (snd (recordSnapshots 5 [quiet_snapshot] collector monitor_world)) ''c1'' = Some e \<and>
     event_state (snd (recordSnapshots 5 [quiet_snapshot] collector monitor_world)) (''REDFISH'', e) \<in> {Some A_OPEN, Some A_ACKNOWLEDGED}"
proof -
  let ?w = "snd (recordSnapshots 5 [quiet_snapshot] collector monitor_world)"
  have "monitor_step\<^sup>*\<^sup>* monitor_world ?w" by (rule r_into_rtranclp, rule ms_record)
  note main = hardware_alerts_follow_health [OF this monitor_world_inv]
  have "hp_ciCode quiet_snapshot = ''SRV-1''" by (simp add: quiet_snapshot_def)
  from recordSnapshots_one [OF monitor_world_ci [OF this], of 5 collector]
  have "readings ?w ''c1'' = Some CRITICAL"
    by (simp add: recordSnapshot_readings) (simp add: monitored_ci_def quiet_snapshot_def)
  then obtain e where "episodes ?w ''c1'' = Some e" using main by blast
  then show ?thesis using main by blast
qed

text \<open>
  C16: From the controller to the alert: a bundle whose device, component or drive forecast is faulty, normalized by
  any of the adapters and delivered for a known device, leaves that device with an open episode whose alert is not recovered.
\<close>

theorem fault_raises_alert:
  assumes "normalizeHardware now b = Inr p" "find_by ci_code (hp_ciCode p) (world.cis w) = Some ci" "monitor_inv w"
    "own_verdict b \<in> {WARNING, CRITICAL} \<or> (\<exists>d \<in> set (hp_degraded p). dg_health d \<in> {WARNING, CRITICAL}) \<or> hp_predictiveFailures p \<noteq> []"
  shows "\<exists>e. episodes (snd (recordSnapshots now' [p] actor w)) (ci_id ci) = Some e \<and>
     event_state (snd (recordSnapshots now' [p] actor w)) (''REDFISH'', e) \<in> {Some A_OPEN, Some A_ACKNOWLEDGED}"
proof -
  let ?w = "snd (recordSnapshots now' [p] actor w)"
  have "monitor_inv ?w" using assms(3) ms_record monitor_step_inv by blast
  then have inv: "episodes_match (episodes ?w) (hardware_event ?w)" "\<And>c. reading_ok (readings ?w c) (episodes ?w c)"
    by (simp_all add: monitor_inv_def)
  have "hp_overallHealth p \<in> {WARNING, CRITICAL}" using hardware.exact [OF assms(1)] assms(4) by blast
  then have "readings ?w (ci_id ci) \<in> {Some WARNING, Some CRITICAL}"
    by (auto simp: recordSnapshots_one [OF assms(2)] recordSnapshot_readings)
  then obtain e where "episodes ?w (ci_id ci) = Some e" using inv(2) [of "ci_id ci"] by (auto simp: reading_ok_def BAD_HEALTH_STATES_def)
  then show ?thesis using inv(1) by (auto simp: episodes_match_def ran_def hardware_event_def)
qed

theorem fault_raises_alert_witness:
  "\<exists>p e. normalizeHardware 0 (RedfishBundle sample_bundle) = Inr p \<and>
     event_state (snd (recordSnapshots 5 [p] collector monitor_world)) (''REDFISH'', e) \<in> {Some A_OPEN, Some A_ACKNOWLEDGED}"
proof -
  obtain p where p: "normalizeHardware 0 (RedfishBundle sample_bundle) = Inr p" "hp_overallHealth p = CRITICAL" using sample_bundle_Inr by auto
  then have "hp_ciCode p = ''SRV-1''"
    by (auto simp: sample_bundle_def normalizeRedfishSystem_def trimmed_or_null_def trim_def is_space_def Let_def)
  from fault_raises_alert [OF p(1) monitor_world_ci [OF this] monitor_world_inv, of 5 collector] hardware.exact [OF p(1)] p(2)
  show ?thesis using p(1) by blast
qed

text \<open>Unknown devices are reported and change nothing; a batch never throws.\<close>

lemma recordSnapshotsFrom_returns:
  "\<exists>res. fst (recordSnapshotsFrom now i snaps actor w) = Inr res \<and> length (fst res) + length (snd res) = length snaps"
proof (induction snaps arbitrary: i w)
  case (Cons snap snaps)
  show ?case
  proof (cases "find_by ci_code (hp_ciCode snap) (world.cis w)")
    case None
    then show ?thesis using Cons.IH [of "Suc i" w]
      by (cases "recordSnapshotsFrom now (Suc i) snaps actor w") (auto simp: bindM_def)
  next
    case (Some c)
    obtain rec w1 where r: "recordSnapshot now c snap actor w = (Inr rec, w1)" by (rule recordSnapshot_run [of snap w c now actor]) simp
    show ?thesis using Some r Cons.IH [of "Suc i" w1]
      by (cases "recordSnapshotsFrom now (Suc i) snaps actor w1") (auto simp: bindM_def)
  qed
qed simp

text \<open>
  A batch of snapshots always returns, answers every element as accepted or rejected, and rejects an element whose
  device is unknown without touching anything.
\<close>

theorem snapshot_batch_answers_all:
  "(\<exists>accepted rejected. fst (recordSnapshots now snaps actor w) = Inr (accepted, rejected) \<and> length accepted + length rejected = length snaps) \<and>
   (find_by ci_code (hp_ciCode snap) (world.cis w) = None \<longrightarrow>
      recordSnapshots now [snap] actor w = (Inr ([], [\<lparr>rj_index = 0, rj_ciCode = hp_ciCode snap, rj_reason = ''unknown CI''\<rparr>]), w))"
  using recordSnapshotsFrom_returns [of now 0 snaps actor w] by (auto simp: recordSnapshots_def)

theorem snapshot_batch_answers_all_witness:
  "recordSnapshots 0 [quiet_snapshot] collector empty_world =
     (Inr ([], [\<lparr>rj_index = 0, rj_ciCode = ''SRV-1'', rj_reason = ''unknown CI''\<rparr>]), empty_world)"
  using snapshot_batch_answers_all [of 0 "[]" collector empty_world quiet_snapshot] by (simp add: quiet_snapshot_def empty_world_def)

end
