(* ===== verification/Vendors.thy ===== *)
theory Vendors
  imports Registers Incidents
begin

text \<open>
  Vendors, vendor cases and the dispatch of replacement parts (\<^verbatim>\<open>vendors/vendors.service.ts\<close>,
  \<^verbatim>\<open>vendors/vendors.dispatch.ts\<close>): a case follows the dispatch lifecycle one step at a time, and a
  closed case is never edited again.
\<close>

section \<open>The code\<close>

primrec dispatch_str :: "dispatch_status \<Rightarrow> string" where
  "dispatch_str D_REQUESTED = ''REQUESTED''"
| "dispatch_str D_APPROVED = ''APPROVED''"
| "dispatch_str D_SHIPPED = ''SHIPPED''"
| "dispatch_str D_DELIVERED = ''DELIVERED''"
| "dispatch_str D_INSTALLED = ''INSTALLED''"
| "dispatch_str D_RETURNED = ''RETURNED''"

primrec DISPATCH_TRANSITIONS :: "dispatch_status \<Rightarrow> dispatch_status list" where
  "DISPATCH_TRANSITIONS D_REQUESTED = [D_APPROVED]"
| "DISPATCH_TRANSITIONS D_APPROVED = [D_SHIPPED]"
| "DISPATCH_TRANSITIONS D_SHIPPED = [D_DELIVERED]"
| "DISPATCH_TRANSITIONS D_DELIVERED = [D_INSTALLED, D_RETURNED]"
| "DISPATCH_TRANSITIONS D_INSTALLED = [D_RETURNED]"
| "DISPATCH_TRANSITIONS D_RETURNED = []"

definition canTransitionDispatch :: "dispatch_status option \<Rightarrow> dispatch_status \<Rightarrow> bool" where
  "canTransitionDispatch from to = (case from of None \<Rightarrow> to = D_REQUESTED | Some f \<Rightarrow> to \<in> set (DISPATCH_TRANSITIONS f))"

definition createVendor :: "instant \<Rightarrow> string \<Rightarrow> string \<Rightarrow> actor_context \<Rightarrow> vendor op" where
  "createVendor now name vtype actor = transaction
     (bindM freshId (\<lambda>i.
      let v = \<lparr>ve_id = i, ve_name = name, ve_type = vtype\<rparr> in
      bindM (getM (\<lambda>w. name \<in> ve_name ` set (vendors w))) (\<lambda>taken.
      bindM (guardM (\<not> taken) (PrismaKnown ''P2002'')) (\<lambda>_.
      bindM (modifyM (\<lambda>w. w\<lparr>vendors := vendors w @ [v]\<rparr>)) (\<lambda>_.
      bindM (auditRecord now (Some (actorId actor)) ''vendor'' i ''VENDOR_REGISTERED'' None (Some (SnapVendor v)) (correlationId actor)) (\<lambda>_.
      ret v))))))"

definition listVendors :: "world \<Rightarrow> vendor list" where
  "listVendors w = sort_key (\<lambda>v. env_collation (env w) (ve_name v)) (vendors w)"

definition getVendor :: "uuid \<Rightarrow> world \<Rightarrow> http_error + vendor" where
  "getVendor i w = (case find_by ve_id i (vendors w) of None \<Rightarrow> Inl (NotFound (''Vendor '' @ i @ '' not found'')) | Some v \<Rightarrow> Inr v)"

record create_vendor_case_dto =
  cvc_vendorCaseNo :: string
  cvc_vendorId :: uuid
  cvc_linkedIncidentId :: "uuid option"
  cvc_ciId :: "uuid option"
  cvc_warrantyStatus :: "warranty_status option"
  cvc_rmaRequired :: "bool option"
  cvc_replacementPart :: "string option"

record update_vendor_case_dto =
  uvc_dispatchStatus :: "dispatch_status option"
  uvc_replacementPart :: "string patch"
  uvc_warrantyStatus :: "warranty_status option"
  uvc_vendorEta :: "instant option"
  uvc_acknowledged :: "bool option"
  uvc_closeOutcome :: "string option"

datatype case_filter = OnlyOpen | OnlyClosed

record query_vendor_cases_dto =
  qvc_vendorId :: "uuid option"
  qvc_linkedIncidentId :: "uuid option"
  qvc_dispatchStatus :: "dispatch_status option"
  qvc_status :: "case_filter option"
  qvc_limit :: "nat option"

definition assertIncidentExists :: "uuid \<Rightarrow> world \<Rightarrow> http_error + unit" where
  "assertIncidentExists i w =
     (case find_by i_id i (incidents w) of None \<Rightarrow> Inl (NotFound (''Incident '' @ i @ '' not found'')) | Some _ \<Rightarrow> Inr ())"

definition assertCiExists :: "uuid \<Rightarrow> world \<Rightarrow> http_error + unit" where
  "assertCiExists i w =
     (case find_by ci_id i (cis w) of None \<Rightarrow> Inl (NotFound (''Configuration item '' @ i @ '' not found'')) | Some _ \<Rightarrow> Inr ())"

definition new_vendor_case :: "instant \<Rightarrow> uuid \<Rightarrow> create_vendor_case_dto \<Rightarrow> vendor_case" where
  "new_vendor_case now i dto = \<lparr>vc_id = i, vc_vendorCaseNo = cvc_vendorCaseNo dto, vc_vendorId = cvc_vendorId dto,
     vc_linkedIncidentId = cvc_linkedIncidentId dto, vc_ciId = cvc_ciId dto,
     vc_warrantyStatus = option_default W_UNKNOWN (cvc_warrantyStatus dto), vc_openedAt = now, vc_acknowledgedAt = None,
     vc_rmaRequired = option_default False (cvc_rmaRequired dto), vc_replacementPart = cvc_replacementPart dto,
     vc_dispatchStatus = None, vc_vendorEta = None, vc_closedAt = None, vc_outcome = None\<rparr>"

definition insertCase :: "instant \<Rightarrow> create_vendor_case_dto \<Rightarrow> actor_context \<Rightarrow> vendor_case op" where
  "insertCase now dto actor = transaction
     (bindM freshId (\<lambda>i.
      let created = new_vendor_case now i dto in
      bindM (modifyM (\<lambda>w. w\<lparr>vendor_cases := vendor_cases w @ [created]\<rparr>)) (\<lambda>_.
      bindM (auditRecord now (Some (actorId actor)) ''vendor_case'' i ''VENDOR_CASE_OPENED'' None (Some (SnapVendorCase created))
               (correlationId actor)) (\<lambda>_.
      ret created))))"

definition openCase :: "instant \<Rightarrow> create_vendor_case_dto \<Rightarrow> actor_context \<Rightarrow> vendor_case op" where
  "openCase now dto actor =
     bindM (readM (getVendor (cvc_vendorId dto))) (\<lambda>_.
     bindM (getM (\<lambda>w. find_by vc_vendorCaseNo (cvc_vendorCaseNo dto) (vendor_cases w))) (\<lambda>duplicate.
     bindM (guardM (duplicate = None) (Conflict (''Vendor case '' @ cvc_vendorCaseNo dto @ '' already exists''))) (\<lambda>_.
     bindM (if truthy (cvc_linkedIncidentId dto) then readM (assertIncidentExists (the (cvc_linkedIncidentId dto))) else ret ()) (\<lambda>_.
     bindM (if truthy (cvc_ciId dto) then readM (assertCiExists (the (cvc_ciId dto))) else ret ()) (\<lambda>_.
     insertCase now dto actor)))))"

definition case_matches :: "query_vendor_cases_dto \<Rightarrow> vendor_case \<Rightarrow> bool" where
  "case_matches q c \<longleftrightarrow>
     (truthy (qvc_vendorId q) \<longrightarrow> Some (vc_vendorId c) = qvc_vendorId q) \<and>
     (truthy (qvc_linkedIncidentId q) \<longrightarrow> vc_linkedIncidentId c = qvc_linkedIncidentId q) \<and>
     (qvc_dispatchStatus q \<noteq> None \<longrightarrow> vc_dispatchStatus c = qvc_dispatchStatus q) \<and>
     (qvc_status q = Some OnlyOpen \<longrightarrow> vc_closedAt c = None) \<and> (qvc_status q = Some OnlyClosed \<longrightarrow> vc_closedAt c \<noteq> None)"

definition listCases :: "query_vendor_cases_dto \<Rightarrow> world \<Rightarrow> vendor_case list" where
  "listCases q w = take (option_default 50 (qvc_limit q)) (sort_key (\<lambda>c. - vc_openedAt c) (filter (case_matches q) (vendor_cases w)))"

definition getCase :: "uuid \<Rightarrow> world \<Rightarrow> http_error + vendor_case \<times> vendor_case_update list" where
  "getCase i w =
     (case find_by vc_id i (vendor_cases w) of
        None \<Rightarrow> Inl (NotFound (''Vendor case '' @ i @ '' not found''))
      | Some c \<Rightarrow> Inr (c, sort_key vu_createdAt (filter (\<lambda>u. vu_vendorCaseId u = i) (vendor_case_updates w))))"

definition patch_vendor_case :: "instant \<Rightarrow> update_vendor_case_dto \<Rightarrow> vendor_case \<Rightarrow> vendor_case \<Rightarrow> vendor_case" where
  "patch_vendor_case now dto current c = c\<lparr>
     vc_dispatchStatus := (if uvc_dispatchStatus dto \<noteq> None then uvc_dispatchStatus dto else vc_dispatchStatus c),
     vc_rmaRequired := (if uvc_dispatchStatus dto \<noteq> None \<and> \<not> vc_rmaRequired current then True else vc_rmaRequired c),
     vc_replacementPart := patched (uvc_replacementPart dto) (vc_replacementPart c),
     vc_warrantyStatus := patched (uvc_warrantyStatus dto) (vc_warrantyStatus c),
     vc_vendorEta := (if uvc_vendorEta dto \<noteq> None then uvc_vendorEta dto else vc_vendorEta c),
     vc_acknowledgedAt := (if uvc_acknowledged dto = Some True \<and> vc_acknowledgedAt current = None then Some now else vc_acknowledgedAt c),
     vc_closedAt := (if truthy (uvc_closeOutcome dto) then Some now else vc_closedAt c),
     vc_outcome := (if truthy (uvc_closeOutcome dto) then uvc_closeOutcome dto else vc_outcome c)\<rparr>"

definition dispatch_allowed :: "update_vendor_case_dto \<Rightarrow> vendor_case \<Rightarrow> bool" where
  "dispatch_allowed dto c = (case uvc_dispatchStatus dto of None \<Rightarrow> True | Some to \<Rightarrow> canTransitionDispatch (vc_dispatchStatus c) to)"

definition updateCase :: "instant \<Rightarrow> uuid \<Rightarrow> update_vendor_case_dto \<Rightarrow> actor_context \<Rightarrow> vendor_case op" where
  "updateCase now i dto actor =
     bindM (readM (getCase i)) (\<lambda>(current, _).
     bindM (guardM (vc_closedAt current = None) (Conflict (''Vendor case '' @ i @ '' is closed''))) (\<lambda>_.
     bindM (guardM (dispatch_allowed dto current)
       (BadRequest (''Invalid dispatch transition '' @ option_default ''(none)'' (map_option dispatch_str (vc_dispatchStatus current)) @
          '' -> '' @ option_default [] (map_option dispatch_str (uvc_dispatchStatus dto))))) (\<lambda>_.
     transaction
       (let updated = patch_vendor_case now dto current current in
        bindM (modifyM (\<lambda>w. w\<lparr>vendor_cases := update_by vc_id i (patch_vendor_case now dto current) (vendor_cases w)\<rparr>)) (\<lambda>_.
        bindM (auditRecord now (Some (actorId actor)) ''vendor_case'' i
                 (if truthy (uvc_closeOutcome dto) then ''VENDOR_CASE_CLOSED'' else ''VENDOR_CASE_UPDATED'')
                 (Some (SnapVendorCase current)) (Some (SnapVendorCase updated)) (correlationId actor)) (\<lambda>_.
        ret updated))))))"

definition notifyLinkedIncidentOwner :: "vendor_case \<Rightarrow> unit op" where
  "notifyLinkedIncidentOwner c = swallowM
     (if \<not> truthy (vc_linkedIncidentId c) then ret ()
      else bindM (getM (\<lambda>w. find_by i_id (the (vc_linkedIncidentId c)) (incidents w))) (\<lambda>inc.
        case inc of
          None \<Rightarrow> ret ()
        | Some incident \<Rightarrow>
            if \<not> truthy (i_ownerUserId incident) then ret ()
            else bindM (getM (\<lambda>w. find_by u_id (the (i_ownerUserId incident)) (users w))) (\<lambda>owner.
              case owner of
                None \<Rightarrow> ret ()
              | Some u \<Rightarrow>
                  if u_email u = [] then ret ()
                  else enqueue ''notifications'' ''VENDOR_CASE_UPDATE'' (''VC-'' @ vc_vendorCaseNo c) [party_of u] [] None)))"

definition insertNote :: "instant \<Rightarrow> uuid \<Rightarrow> string \<Rightarrow> actor_context \<Rightarrow> vendor_case_update op" where
  "insertNote now i note actor = transaction
     (bindM freshId (\<lambda>n.
      let created = \<lparr>vu_id = n, vu_vendorCaseId = i, vu_note = note, vu_createdAt = now\<rparr> in
      bindM (modifyM (\<lambda>w. w\<lparr>vendor_case_updates := vendor_case_updates w @ [created]\<rparr>)) (\<lambda>_.
      bindM (auditRecord now (Some (actorId actor)) ''vendor_case'' i ''VENDOR_CASE_NOTE_ADDED'' None (Some (SnapVendorNote n note))
               (correlationId actor)) (\<lambda>_.
      ret created))))"

definition addUpdate :: "instant \<Rightarrow> uuid \<Rightarrow> string \<Rightarrow> actor_context \<Rightarrow> vendor_case_update op" where
  "addUpdate now i note actor =
     bindM (readM (getCase i)) (\<lambda>(vendorCase, _).
     bindM (insertNote now i note actor) (\<lambda>created.
     bindM (notifyLinkedIncidentOwner vendorCase) (\<lambda>_.
     ret created)))"

section \<open>The life of a case\<close>

inductive dispatch_step :: "dispatch_status option \<Rightarrow> dispatch_status option \<Rightarrow> bool" where
  "canTransitionDispatch from to \<Longrightarrow> dispatch_step from (Some to)"

text \<open>How far a dispatch has come.\<close>

fun dispatch_stage :: "dispatch_status option \<Rightarrow> nat" where
  "dispatch_stage None = 0"
| "dispatch_stage (Some D_REQUESTED) = 1"
| "dispatch_stage (Some D_APPROVED) = 2"
| "dispatch_stage (Some D_SHIPPED) = 3"
| "dispatch_stage (Some D_DELIVERED) = 4"
| "dispatch_stage (Some D_INSTALLED) = 5"
| "dispatch_stage (Some D_RETURNED) = 6"

lemma transitions_forward: "t \<in> set (DISPATCH_TRANSITIONS f) \<Longrightarrow> dispatch_stage (Some f) < dispatch_stage (Some t)"
  by (cases f) auto

lemma dispatch_step_forward: "dispatch_step a b \<Longrightarrow> dispatch_stage a < dispatch_stage b"
  by (induction rule: dispatch_step.induct) (auto simp: canTransitionDispatch_def dest: transitions_forward split: option.splits)

definition case_ok :: "vendor_case \<Rightarrow> bool" where
  "case_ok c \<longleftrightarrow> (vc_dispatchStatus c \<noteq> None \<longrightarrow> vc_rmaRequired c) \<and> (vc_closedAt c \<noteq> None \<longleftrightarrow> truthy (vc_outcome c)) \<and>
     dispatch_step\<^sup>*\<^sup>* None (vc_dispatchStatus c)"

definition case_moves :: "vendor_case \<Rightarrow> vendor_case \<Rightarrow> bool" where
  "case_moves a b \<longleftrightarrow> vc_vendorCaseNo b = vc_vendorCaseNo a \<and> vc_vendorId b = vc_vendorId a \<and>
     vc_linkedIncidentId b = vc_linkedIncidentId a \<and> vc_ciId b = vc_ciId a \<and> vc_openedAt b = vc_openedAt a \<and>
     dispatch_step\<^sup>*\<^sup>* (vc_dispatchStatus a) (vc_dispatchStatus b) \<and> (vc_rmaRequired a \<longrightarrow> vc_rmaRequired b) \<and>
     (vc_acknowledgedAt a \<noteq> None \<longrightarrow> vc_acknowledgedAt b = vc_acknowledgedAt a) \<and> (vc_closedAt a \<noteq> None \<longrightarrow> b = a) \<and>
     (case_ok a \<longrightarrow> case_ok b)"

interpretation cases_register: register vendor_cases vc_id case_ok case_moves
proof
  show "case_moves r t" if "case_moves r s" "case_moves s t" for r s t
    using that unfolding case_moves_def by (auto intro: rtranclp_trans)
qed (auto simp: case_moves_def rollback_def)

abbreviation cases_follow :: "world \<Rightarrow> world \<Rightarrow> bool" where
  "cases_follow \<equiv> rows_follow vendor_cases vc_id case_ok case_moves"

lemma patched_case_moves:
  assumes "vc_closedAt c = None" "dispatch_allowed dto c"
  shows "vc_id (patch_vendor_case now dto c c) = vc_id c \<and> case_moves c (patch_vendor_case now dto c c)"
proof -
  have "dispatch_step\<^sup>*\<^sup>* (vc_dispatchStatus c) (vc_dispatchStatus (patch_vendor_case now dto c c))"
    using assms(2) by (auto simp: patch_vendor_case_def dispatch_allowed_def intro: dispatch_step.intros split: option.splits)
  then have "case_ok c \<longrightarrow> case_ok (patch_vendor_case now dto c c)"
    using assms(1) by (auto simp: case_ok_def patch_vendor_case_def intro: rtranclp_trans)
  then show ?thesis
    using \<open>dispatch_step\<^sup>*\<^sup>* _ _\<close> assms(1) unfolding case_moves_def by (simp add: patch_vendor_case_def)
qed

lemma getCase_Inr: "getCase i w = Inr (c, us) \<Longrightarrow> find_by vc_id i (vendor_cases w) = Some c"
  by (auto simp: getCase_def split: option.splits)

lemma follow_updateCase: "cases_follow w (snd (updateCase now i dto actor w))"
proof (cases "getCase i w")
  case (Inr cu)
  then obtain c us where c: "getCase i w = Inr (c, us)" by (cases cu) auto
  show ?thesis
  proof (cases "vc_closedAt c = None \<and> dispatch_allowed dto c")
    case True
    then show ?thesis
      by (intro cases_register.follow_update [where k = i and f = "patch_vendor_case now dto c"])
        (use c getCase_Inr [OF c] patched_case_moves in \<open>auto simp: updateCase_def Let_def transactionM_def bindM_def\<close>)
  next
    case False
    then show ?thesis using c by (auto simp: updateCase_def cases_register.follow_refl)
  qed
qed (simp add: updateCase_def cases_register.follow_refl)

lemma insertCase_eval:
  "\<exists>r aud. insertCase now dto actor w = (Inr r, w\<lparr>uuid_next := Suc (uuid_next w),
     vendor_cases := vendor_cases w @ [new_vendor_case now (env_uuid (env w) (uuid_next w)) dto], audits := aud\<rparr>)"
  by (simp add: insertCase_def Let_def transactionM_def bindM_def) (rule exI, rule refl)

lemma openCase_run:
  "snd (openCase now dto actor w) = w \<or>
   (\<exists>aud. snd (openCase now dto actor w) =
      w\<lparr>uuid_next := Suc (uuid_next w), vendor_cases := vendor_cases w @ [new_vendor_case now (env_uuid (env w) (uuid_next w)) dto],
        audits := aud\<rparr>) \<and> cvc_vendorCaseNo dto \<notin> vc_vendorCaseNo ` set (vendor_cases w)"
proof (cases "find_by vc_vendorCaseNo (cvc_vendorCaseNo dto) (vendor_cases w) = None")
  case True
  then have "cvc_vendorCaseNo dto \<notin> vc_vendorCaseNo ` set (vendor_cases w)" by (auto simp: find_by_None_iff)
  moreover have "snd (openCase now dto actor w) = w \<or> snd (openCase now dto actor w) = snd (insertCase now dto actor w)"
    unfolding openCase_def
    by (cases "getVendor (cvc_vendorId dto) w"; cases "truthy (cvc_linkedIncidentId dto)"; cases "truthy (cvc_ciId dto)";
        cases "assertIncidentExists (the (cvc_linkedIncidentId dto)) w"; cases "assertCiExists (the (cvc_ciId dto)) w") (simp_all add: True)
  moreover obtain r aud where "insertCase now dto actor w = (Inr r, w\<lparr>uuid_next := Suc (uuid_next w),
     vendor_cases := vendor_cases w @ [new_vendor_case now (env_uuid (env w) (uuid_next w)) dto], audits := aud\<rparr>)"
    using insertCase_eval by blast
  ultimately show ?thesis by (metis snd_conv)
next
  case False
  then show ?thesis by (cases "getVendor (cvc_vendorId dto) w") (auto simp: openCase_def)
qed

lemma new_case_ok: "case_ok (new_vendor_case now i dto)"
  by (simp add: case_ok_def new_vendor_case_def)

lemma follow_openCase: "cases_follow w (snd (openCase now dto actor w))"
  using openCase_run [of now dto actor w]
proof (elim disjE conjE exE)
  fix aud assume "snd (openCase now dto actor w) = w\<lparr>uuid_next := Suc (uuid_next w),
      vendor_cases := vendor_cases w @ [new_vendor_case now (env_uuid (env w) (uuid_next w)) dto], audits := aud\<rparr>"
  then show ?thesis
    by (intro cases_register.follow_insert [OF _ _ _ _ new_case_ok, of _ _ now "env_uuid (env w) (uuid_next w)" dto])
      (simp_all, simp add: new_vendor_case_def)
qed (simp add: cases_register.follow_refl)

lemma addUpdate_frame:
  "vendor_cases (snd (addUpdate now i note actor w)) = vendor_cases w" "env (snd (addUpdate now i note actor w)) = env w"
  "uuid_next w \<le> uuid_next (snd (addUpdate now i note actor w))"
proof -
  have told: "keeps (\<lambda>w. (vendor_cases w, env w, uuid_next w)) (notifyLinkedIncidentOwner c)" for c
    unfolding notifyLinkedIncidentOwner_def enqueue_def by (intro keeps_intros) simp
  have last: "snd (bindM m (\<lambda>_. ret x) s) = snd (m s)" for m :: "unit op" and x :: vendor_case_update and s
    by (simp add: bindM_def split: prod.split sum.split)
  have "vendor_cases (snd (addUpdate now i note actor w)) = vendor_cases w \<and> env (snd (addUpdate now i note actor w)) = env w \<and>
      uuid_next w \<le> uuid_next (snd (addUpdate now i note actor w))"
  proof (cases "getCase i w")
    case (Inr cu)
    obtain created aud where "insertNote now i note actor w =
        (Inr created, w\<lparr>uuid_next := Suc (uuid_next w), vendor_case_updates := vendor_case_updates w @ [created], audits := aud\<rparr>)"
      by (simp add: insertNote_def Let_def transactionM_def bindM_def)
    then have "bindM (insertNote now i note actor) f w =
        f created (w\<lparr>uuid_next := Suc (uuid_next w), vendor_case_updates := vendor_case_updates w @ [created], audits := aud\<rparr>)"
      for f :: "vendor_case_update \<Rightarrow> vendor_case_update op" by (rule bindM_value)
    then show ?thesis using Inr keepsD [OF told] by (cases cu) (simp add: addUpdate_def last)
  qed (simp add: addUpdate_def)
  then show "vendor_cases (snd (addUpdate now i note actor w)) = vendor_cases w" "env (snd (addUpdate now i note actor w)) = env w"
    "uuid_next w \<le> uuid_next (snd (addUpdate now i note actor w))" by simp_all
qed

inductive vendor_step :: "world \<Rightarrow> world \<Rightarrow> bool" where
  vs_open: "vendor_step w (snd (openCase now dto actor w))"
| vs_update: "vendor_step w (snd (updateCase now i udto actor w))"
| vs_note: "vendor_step w (snd (addUpdate now i note actor w))"
| vs_elsewhere: "env w' = env w \<Longrightarrow> uuid_next w \<le> uuid_next w' \<Longrightarrow> vendor_cases w' = vendor_cases w \<Longrightarrow> vendor_step w w'"

lemma vendor_step_follow: "vendor_step w w' \<Longrightarrow> cases_follow w w'"
  by (induction rule: vendor_step.induct)
    (auto intro: follow_openCase follow_updateCase cases_register.follow_same addUpdate_frame)

lemma vendor_run: "vendor_step\<^sup>*\<^sup>* w w' \<Longrightarrow> cases_follow w w'"
  using vendor_step_follow by (rule cases_register.run_follow)

definition vendor_inv :: "world \<Rightarrow> bool" where
  "vendor_inv w \<longleftrightarrow> register_inv vendor_cases vc_id case_ok w \<and> distinct (map vc_vendorCaseNo (vendor_cases w))"

lemma updateCase_numbers: "map vc_vendorCaseNo (vendor_cases (snd (updateCase now i dto actor w))) = map vc_vendorCaseNo (vendor_cases w)"
  by (cases "getCase i w") (auto simp: updateCase_def guardM_def Let_def transactionM_def bindM_def update_by_def patch_vendor_case_def
      split: sum.split prod.split)

lemma vendor_step_inv: "vendor_step w w' \<Longrightarrow> vendor_inv w \<Longrightarrow> vendor_inv w'"
proof -
  assume step: "vendor_step w w'" and inv: "vendor_inv w"
  have "register_inv vendor_cases vc_id case_ok w'"
    using cases_register.follow_inv [OF vendor_step_follow [OF step]] inv by (simp add: vendor_inv_def)
  moreover have "distinct (map vc_vendorCaseNo (vendor_cases w'))"
    using step inv
  proof (induction rule: vendor_step.induct)
    case (vs_open w now dto actor)
    then show ?case using openCase_run [of now dto actor w] by (auto simp: vendor_inv_def new_vendor_case_def)
  qed (auto simp: vendor_inv_def updateCase_numbers addUpdate_frame)
  ultimately show "vendor_inv w'" by (simp add: vendor_inv_def)
qed

interpretation vendor_history: invariant_system vendor_step vendor_inv
  by unfold_locales (rule vendor_step_inv)

text \<open>
  Through any sequence of requests a vendor case keeps its number, vendor, ticket and device; its dispatch only moves forward
  along the lifecycle and always has the RMA flag; it is acknowledged once; a closed case has an outcome and is
  never changed again; and case numbers stay unique.
\<close>

theorem vendor_case_lifecycle:
  assumes "vendor_step\<^sup>*\<^sup>* w w'" "vendor_inv w" "find_by vc_id i (vendor_cases w) = Some a"
  shows "distinct (map vc_vendorCaseNo (vendor_cases w')) \<and>
    (\<exists>b. find_by vc_id i (vendor_cases w') = Some b \<and> vc_vendorCaseNo b = vc_vendorCaseNo a \<and> vc_vendorId b = vc_vendorId a \<and>
       vc_linkedIncidentId b = vc_linkedIncidentId a \<and> vc_ciId b = vc_ciId a \<and>
       dispatch_stage (vc_dispatchStatus a) \<le> dispatch_stage (vc_dispatchStatus b) \<and>
       dispatch_step\<^sup>*\<^sup>* (vc_dispatchStatus a) (vc_dispatchStatus b) \<and> (vc_dispatchStatus b \<noteq> None \<longrightarrow> vc_rmaRequired b) \<and>
       (vc_acknowledgedAt a \<noteq> None \<longrightarrow> vc_acknowledgedAt b = vc_acknowledgedAt a) \<and>
       (vc_closedAt b \<noteq> None \<longleftrightarrow> truthy (vc_outcome b)) \<and> (vc_closedAt a \<noteq> None \<longrightarrow> b = a))"
proof -
  have inv: "vendor_inv w'" using assms(1,2) by (rule vendor_history.run_inv)
  obtain b where b: "find_by vc_id i (vendor_cases w') = Some b" "case_moves a b"
    using cases_register.follow_row [OF vendor_run [OF assms(1)] _ assms(3)] assms(2) by (auto simp: vendor_inv_def register_inv_def)
  have "case_ok b" using find_by_SomeD [OF b(1)] inv by (auto simp: vendor_inv_def register_inv_def list_all_iff)
  moreover have "dispatch_stage x \<le> dispatch_stage y" if "dispatch_step\<^sup>*\<^sup>* x y" for x y
    using that by (induction rule: rtranclp_induct) (auto dest: dispatch_step_forward)
  ultimately show ?thesis using b inv by (simp add: vendor_inv_def case_moves_def case_ok_def)
qed

definition open_vendor_case :: vendor_case where
  "open_vendor_case = new_vendor_case 0 ''0'' \<lparr>cvc_vendorCaseNo = ''SR-7'', cvc_vendorId = ''v'', cvc_linkedIncidentId = None, cvc_ciId = None,
     cvc_warrantyStatus = None, cvc_rmaRequired = None, cvc_replacementPart = None\<rparr>"

definition vendor_world :: world where
  "vendor_world = empty_world\<lparr>uuid_next := 1, vendor_cases := [open_vendor_case]\<rparr>"

definition request_part :: update_vendor_case_dto where
  "request_part = \<lparr>uvc_dispatchStatus = Some D_REQUESTED, uvc_replacementPart = None, uvc_warrantyStatus = None, uvc_vendorEta = None,
     uvc_acknowledged = Some True, uvc_closeOutcome = None\<rparr>"

lemma vendor_world_inv: "vendor_inv vendor_world"
  by (auto simp: vendor_inv_def register_inv_def keys_ok_def issued_def vendor_world_def empty_world_def open_vendor_case_def case_ok_def
      new_vendor_case_def nat_str_zero intro: injI nat_str_inj)

theorem vendor_case_lifecycle_witness:
  "\<exists>b. find_by vc_id ''0'' (vendor_cases (snd (updateCase 5 ''0'' request_part sample_actor vendor_world))) = Some b \<and>
     vc_vendorCaseNo b = ''SR-7'' \<and> (vc_dispatchStatus b \<noteq> None \<longrightarrow> vc_rmaRequired b)"
proof -
  have row: "find_by vc_id ''0'' (vendor_cases vendor_world) = Some open_vendor_case"
    by (simp add: vendor_world_def open_vendor_case_def new_vendor_case_def)
  have "vendor_step\<^sup>*\<^sup>* vendor_world (snd (updateCase 5 ''0'' request_part sample_actor vendor_world))"
    by (rule r_into_rtranclp, rule vs_update)
  from vendor_case_lifecycle [OF this vendor_world_inv row] show ?thesis
    by (auto simp: open_vendor_case_def new_vendor_case_def)
qed

end
