(* ===== verification/Js_Text.thy ===== *)
theory Js_Text
  imports Prelude
begin

text \<open>
  String functions of JavaScript that the mail adapter, the collector and the warranty providers use, on texts as sequences of UTF-8 bytes.
\<close>

definition to_upper_char :: "char \<Rightarrow> char" where
  "to_upper_char c = (let n = of_char c :: nat in if 97 \<le> n \<and> n \<le> 122 then char_of (n - 32) else c)"

definition toUpperCase :: "string \<Rightarrow> string" where
  "toUpperCase s = map to_upper_char s"

definition is_digit :: "char \<Rightarrow> bool" where
  "is_digit c \<longleftrightarrow> (let n = of_char c :: nat in 48 \<le> n \<and> n \<le> 57)"

definition is_upper :: "char \<Rightarrow> bool" where
  "is_upper c \<longleftrightarrow> (let n = of_char c :: nat in 65 \<le> n \<and> n \<le> 90)"

definition is_lower :: "char \<Rightarrow> bool" where
  "is_lower c \<longleftrightarrow> (let n = of_char c :: nat in 97 \<le> n \<and> n \<le> 122)"

text \<open>\<open>\w\<close>.\<close>

definition is_word :: "char \<Rightarrow> bool" where
  "is_word c \<longleftrightarrow> is_digit c \<or> is_upper c \<or> is_lower c \<or> c = CHR ''_''"

text \<open>\<open>s.replace(/x+$/, "")\<close>.\<close>

definition strip_trailing :: "char \<Rightarrow> string \<Rightarrow> string" where
  "strip_trailing c s = rev (dropWhile (\<lambda>x. x = c) (rev s))"

definition ends_with :: "string \<Rightarrow> string \<Rightarrow> bool" where
  "ends_with t s \<longleftrightarrow> length t \<le> length s \<and> drop (length s - length t) s = t"

definition starts_with :: "string \<Rightarrow> string \<Rightarrow> bool" where
  "starts_with p s \<longleftrightarrow> take (length p) s = p"

lemma ends_with_iff: "ends_with t s \<longleftrightarrow> (\<exists>u. s = u @ t)"
proof
  assume "ends_with t s"
  then show "\<exists>u. s = u @ t" unfolding ends_with_def by (metis append_take_drop_id)
qed (auto simp: ends_with_def)

lemma starts_with_iff: "starts_with p s \<longleftrightarrow> (\<exists>u. s = p @ u)"
  unfolding starts_with_def by (metis append_eq_conv_conj append_take_drop_id)

lemma trim_idem [simp]: "trim (trim s) = trim s"
proof -
  have "dropWhile is_space (trim s) = trim s"
  proof (cases "trim s")
    case (Cons c cs)
    let ?t = "dropWhile is_space s"
    have "\<exists>u. ?t = trim s @ u"
      unfolding trim_def by (metis rev_append rev_rev_ident takeWhile_dropWhile_id)
    then obtain u where u: "?t = c # u" using Cons by auto
    then have "\<not> is_space c" using hd_dropWhile [of is_space s] by simp
    then show ?thesis using Cons by simp
  qed simp
  moreover have "dropWhile is_space (rev (trim s)) = rev (trim s)"
    unfolding trim_def by (simp add: dropWhile_idem)
  ultimately show ?thesis by (simp add: trim_def [of "trim s"])
qed

end
