(* ===== verification/Warranty.thy ===== *)
theory Warranty
  imports Vendors Js_Text "HOL-Library.Word" "HOL-Library.Multiset"
begin

unbundle bit_operations_syntax

text \<open>
  Warranty lookups (\<^verbatim>\<open>integrations/warranty\<close>) and their register (\<^verbatim>\<open>vendors/warranty-resync.service.ts\<close>).
  The vendors' web services are a parameter: a function from the request to an answer or a failure. A
  date of an answer is the instant \<open>Date.parse\<close> reads, or nothing.
\<close>

section \<open>The providers\<close>

record warranty_result =
  wr_status :: warranty_status
  wr_provider :: string
  wr_expiresAt :: "instant option"
  wr_coverageLevel :: "string option"

text \<open>The loop over dated lines: the latest date wins, the first of equal ones.\<close>

fun latest_line :: "('a \<Rightarrow> instant option) \<Rightarrow> (instant \<times> 'a) option \<Rightarrow> 'a list \<Rightarrow> (instant \<times> 'a) option" where
  "latest_line date best [] = best"
| "latest_line date best (line # rest) = latest_line date
     (case date line of
        None \<Rightarrow> best
      | Some ms \<Rightarrow> (case best of None \<Rightarrow> Some (ms, line) | Some (b, _) \<Rightarrow> if b < ms then Some (ms, line) else best)) rest"

definition answer_of :: "string \<Rightarrow> instant \<Rightarrow> instant \<Rightarrow> string option \<Rightarrow> warranty_result" where
  "answer_of provider now ms level = \<lparr>wr_status = (if now \<le> ms then W_ACTIVE else W_EXPIRED), wr_provider = provider,
     wr_expiresAt = Some ms, wr_coverageLevel = (if truthy level then level else None)\<rparr>"

definition no_answer :: "string \<Rightarrow> warranty_result" where
  "no_answer provider = \<lparr>wr_status = W_UNKNOWN, wr_provider = provider, wr_expiresAt = None, wr_coverageLevel = None\<rparr>"

record dell_entitlement =
  de_serviceLevelDescription :: "string option"
  de_endDate :: "instant option"

record dell_asset =
  da_serviceTag :: "string option"
  da_entitlements :: "dell_entitlement list option"

definition DELL_PROVIDER :: string where
  "DELL_PROVIDER = ''dell-techdirect''"

definition normalizeDellWarranty :: "dell_asset option \<Rightarrow> instant \<Rightarrow> warranty_result" where
  "normalizeDellWarranty asset now =
     (case latest_line de_endDate None (option_default [] (Option.bind asset da_entitlements)) of
        None \<Rightarrow> no_answer DELL_PROVIDER
      | Some (ms, line) \<Rightarrow> answer_of DELL_PROVIDER now ms (de_serviceLevelDescription line))"

record hpe_offer =
  ho_offerName :: "string option"
  ho_endDate :: "instant option"

record hpe_product =
  hr_serialNumber :: "string option"
  hr_offers :: "hpe_offer list option"
  hr_warrantyEndDate :: "instant option"

definition HPE_PROVIDER :: string where
  "HPE_PROVIDER = ''hpe-warranty''"

definition normalizeHpeWarranty :: "hpe_product option \<Rightarrow> instant \<Rightarrow> warranty_result" where
  "normalizeHpeWarranty product now =
     (case latest_line ho_endDate None (option_default [] (Option.bind product hr_offers)) of
        Some (ms, offer) \<Rightarrow> answer_of HPE_PROVIDER now ms (ho_offerName offer)
      | None \<Rightarrow>
          (case Option.bind product hr_warrantyEndDate of
             None \<Rightarrow> no_answer HPE_PROVIDER
           | Some ms \<Rightarrow> answer_of HPE_PROVIDER now ms None))"

text \<open>
  What the service answers: the request itself fails, or it gives a status and a body, which is JSON of
  the expected shape, of another shape, or no JSON. An empty body counts as the empty answer.
\<close>

datatype 'a response = RequestFailed string | Responded nat "'a body"
  and 'a body = NotJson | Parsed 'a

record warranty_error =
  we_message :: string
  we_provider :: string
  we_status :: "nat option"

definition provider_error :: "string \<Rightarrow> string \<Rightarrow> nat option \<Rightarrow> warranty_error" where
  "provider_error provider m s = \<lparr>we_message = m, we_provider = provider, we_status = s\<rparr>"

definition http_ok :: "nat \<Rightarrow> bool" where
  "http_ok status \<longleftrightarrow> 200 \<le> status \<and> status < 300"

definition find_tagged :: "('a \<Rightarrow> string option) \<Rightarrow> string \<Rightarrow> 'a list \<Rightarrow> 'a option" where
  "find_tagged tag_of tag xs =
     option_or (find (\<lambda>a. toUpperCase (trim (option_default [] (tag_of a))) = toUpperCase tag) xs)
       (case xs of [] \<Rightarrow> None | x # _ \<Rightarrow> Some x)"

definition dellSupports :: "string \<Rightarrow> bool" where
  "dellSupports vendor \<longleftrightarrow> toUpperCase (trim vendor) = ''DELL''"

definition dellLookup :: "(string \<Rightarrow> dell_asset list response) \<Rightarrow> instant \<Rightarrow> string \<Rightarrow> string \<Rightarrow> warranty_error + warranty_result" where
  "dellLookup fetch now vendor serial =
     (let tag = trim serial in
      if tag = [] then Inl (provider_error DELL_PROVIDER ''empty service tag'' None)
      else case fetch tag of
        RequestFailed m \<Rightarrow> Inl (provider_error DELL_PROVIDER (''Dell warranty request failed: '' @ m) None)
      | Responded status body \<Rightarrow>
          if \<not> http_ok status then Inl (provider_error DELL_PROVIDER (''Dell warranty API responded '' @ nat_str status) (Some status))
          else (case body of
             NotJson \<Rightarrow> Inl (provider_error DELL_PROVIDER ''Dell warranty API returned non-JSON'' None)
           | Parsed assets \<Rightarrow> Inr (normalizeDellWarranty (find_tagged da_serviceTag tag assets) now)))"

definition hpeSupports :: "string \<Rightarrow> bool" where
  "hpeSupports vendor \<longleftrightarrow> toUpperCase (trim vendor) \<in> {''HPE'', ''HP'', ''HEWLETT PACKARD ENTERPRISE''}"

text \<open>The HPE answer is a list of products, an object with such a list, one product, or something else.\<close>

datatype hpe_answer = HpeList "hpe_product list" | HpeNode "hpe_product list" | HpeProduct hpe_product | HpeOther

fun extractProducts :: "hpe_answer \<Rightarrow> hpe_product list" where
  "extractProducts (HpeList ps) = ps"
| "extractProducts (HpeNode ps) = ps"
| "extractProducts (HpeProduct p) = [p]"
| "extractProducts HpeOther = []"

definition hpeLookup :: "(string \<Rightarrow> hpe_answer response) \<Rightarrow> instant \<Rightarrow> string \<Rightarrow> string \<Rightarrow> warranty_error + warranty_result" where
  "hpeLookup fetch now vendor serialOrTag =
     (let serial = trim serialOrTag in
      if serial = [] then Inl (provider_error HPE_PROVIDER ''empty serial number'' None)
      else case fetch serial of
        RequestFailed m \<Rightarrow> Inl (provider_error HPE_PROVIDER (''HPE warranty request failed: '' @ m) None)
      | Responded status body \<Rightarrow>
          if \<not> http_ok status then Inl (provider_error HPE_PROVIDER (''HPE warranty API responded '' @ nat_str status) (Some status))
          else (case body of
             NotJson \<Rightarrow> Inl (provider_error HPE_PROVIDER ''HPE warranty API returned non-JSON'' None)
           | Parsed answer \<Rightarrow> Inr (normalizeHpeWarranty (find_tagged hr_serialNumber serial (extractProducts answer)) now)))"

text \<open>The stub: FNV-1a in 32-bit arithmetic.\<close>

definition fnv_hash :: "string \<Rightarrow> 32 word" where
  "fnv_hash input = foldl (\<lambda>h c. (h XOR of_nat (of_char c)) * 0x01000193) 0x811c9dc5 input"

definition DAY_MS :: int where
  "DAY_MS = 86400000"

definition STUB_LEVELS :: "string list" where
  "STUB_LEVELS = [''Basic Hardware Service'', ''ProSupport'', ''ProSupport Plus'', ''Foundation Care'']"

definition stubLookup :: "instant \<Rightarrow> string \<Rightarrow> string \<Rightarrow> warranty_error + warranty_result" where
  "stubLookup now vendor serial =
     (let seed = uint (fnv_hash (toUpperCase vendor @ '':'' @ serial));
          expired = (seed mod 6 = 0);
          offsetDays = (if expired then - ((seed mod 400) + 1) else (seed mod 1096) + 30)
      in Inr \<lparr>wr_status = (if expired then W_EXPIRED else W_ACTIVE), wr_provider = ''stub'',
              wr_expiresAt = Some (now + offsetDays * DAY_MS), wr_coverageLevel = Some (STUB_LEVELS ! nat (seed mod 4))\<rparr>)"

record warranty_provider =
  wp_name :: string
  wp_supports :: "string \<Rightarrow> bool"
  wp_lookup :: "instant \<Rightarrow> string \<Rightarrow> string \<Rightarrow> warranty_error + warranty_result"

definition resolveWarrantyProvider :: "warranty_provider list \<Rightarrow> string \<Rightarrow> warranty_provider option" where
  "resolveWarrantyProvider providers vendor = find (\<lambda>p. wp_supports p vendor) providers"

record warranty_env =
  wn_dellApiKey :: "string option"
  wn_hpeApiKey :: "string option"
  wn_enableStub :: bool

definition createWarrantyProviders ::
  "(string \<Rightarrow> dell_asset list response) \<Rightarrow> (string \<Rightarrow> hpe_answer response) \<Rightarrow> warranty_env \<Rightarrow> warranty_provider list" where
  "createWarrantyProviders dell hpe e =
     (if truthy (wn_dellApiKey e) then [\<lparr>wp_name = DELL_PROVIDER, wp_supports = dellSupports, wp_lookup = dellLookup dell\<rparr>] else []) @
     (if truthy (wn_hpeApiKey e) then [\<lparr>wp_name = HPE_PROVIDER, wp_supports = hpeSupports, wp_lookup = hpeLookup hpe\<rparr>] else []) @
     (if wn_enableStub e then [\<lparr>wp_name = ''stub'', wp_supports = (\<lambda>_. True), wp_lookup = stubLookup\<rparr>] else [])"

definition warranty_env_of :: "(string \<Rightarrow> string option) \<Rightarrow> warranty_env" where
  "warranty_env_of config = \<lparr>wn_dellApiKey = config ''DELL_WARRANTY_API_KEY'', wn_hpeApiKey = config ''HPE_WARRANTY_API_KEY'',
     wn_enableStub = (config ''WARRANTY_STUB'' = Some ''1'' \<or> option_default ''development'' (config ''NODE_ENV'') \<noteq> ''production'')\<rparr>"

section \<open>The resync\<close>

record resync_note =
  rn_ciCode :: string
  rn_reason :: string

record resync_summary =
  rsy_checked :: nat
  rsy_updated :: nat
  rsy_unchanged :: nat
  rsy_skipped :: "resync_note list"
  rsy_failed :: "resync_note list"

text \<open>\<open>findFirst \{ orderBy: createdAt desc \}\<close>: of rows with equal stamps the one inserted last.\<close>

definition latest_warranty :: "uuid \<Rightarrow> world \<Rightarrow> warranty option" where
  "latest_warranty ciId w =
     (let rows = filter (\<lambda>r. wa_ciId r = ciId) (warranties w) in
      if rows = [] then None else Some (last (sort_key wa_createdAt rows)))"

definition same_coverage :: "warranty_result \<Rightarrow> warranty option \<Rightarrow> bool" where
  "same_coverage result latest =
     (case latest of
        None \<Rightarrow> False
      | Some l \<Rightarrow> wa_status l = wr_status result \<and> wa_provider l = Some (wr_provider result) \<and> wa_expiresAt l = wr_expiresAt result)"

definition appendWarranty :: "instant \<Rightarrow> uuid \<Rightarrow> warranty_result \<Rightarrow> warranty option \<Rightarrow> actor_context \<Rightarrow> unit op" where
  "appendWarranty now ciId result latest actor = transaction
     (bindM freshId (\<lambda>i.
      let created = \<lparr>wa_id = i, wa_ciId = ciId, wa_status = wr_status result, wa_provider = Some (wr_provider result),
            wa_expiresAt = wr_expiresAt result, wa_createdAt = now\<rparr> in
      bindM (modifyM (\<lambda>w. w\<lparr>warranties := warranties w @ [created]\<rparr>)) (\<lambda>_.
      auditRecord now (Some (actorId actor)) ''warranty'' ciId ''WARRANTY_REFRESHED'' (map_option SnapWarranty latest)
        (Some (SnapWarranty created)) (correlationId actor))))"

datatype resync_outcome = Updated | Unchanged | Skipped string | Failed string

definition resyncCi :: "warranty_provider list \<Rightarrow> instant \<Rightarrow> configuration_item \<Rightarrow> actor_context \<Rightarrow> resync_outcome op" where
  "resyncCi providers now ci actor =
     (let vendor = trim (option_default [] (ci_manufacturer ci)); serial = trim (option_default [] (ci_serialOrServiceTag ci)) in
      if vendor = [] \<or> serial = [] then ret (Skipped ''CI has no manufacturer or service tag'')
      else case resolveWarrantyProvider providers vendor of
        None \<Rightarrow> ret (Skipped (''no warranty provider for '' @ [CHR 0x22] @ vendor @ [CHR 0x22]))
      | Some provider \<Rightarrow>
          (case wp_lookup provider now vendor serial of
             Inl err \<Rightarrow> ret (Failed (we_message err))
           | Inr result \<Rightarrow>
               bindM (getM (latest_warranty (ci_id ci))) (\<lambda>latest.
               if same_coverage result latest then ret Unchanged
               else bindM (appendWarranty now (ci_id ci) result latest actor) (\<lambda>_. ret Updated))))"

definition note_outcome :: "configuration_item \<Rightarrow> resync_outcome \<Rightarrow> resync_summary \<Rightarrow> resync_summary" where
  "note_outcome ci outcome s =
     (case outcome of
        Updated \<Rightarrow> s\<lparr>rsy_updated := Suc (rsy_updated s)\<rparr>
      | Unchanged \<Rightarrow> s\<lparr>rsy_unchanged := Suc (rsy_unchanged s)\<rparr>
      | Skipped r \<Rightarrow> s\<lparr>rsy_skipped := rsy_skipped s @ [\<lparr>rn_ciCode = ci_code ci, rn_reason = r\<rparr>]\<rparr>
      | Failed r \<Rightarrow> s\<lparr>rsy_failed := rsy_failed s @ [\<lparr>rn_ciCode = ci_code ci, rn_reason = r\<rparr>]\<rparr>)"

fun resyncEach :: "warranty_provider list \<Rightarrow> instant \<Rightarrow> configuration_item list \<Rightarrow> resync_summary \<Rightarrow> actor_context \<Rightarrow> resync_summary op" where
  "resyncEach providers now [] s actor = ret s"
| "resyncEach providers now (ci # rest) s actor =
     bindM (resyncCi providers now ci actor) (\<lambda>outcome. resyncEach providers now rest (note_outcome ci outcome s) actor)"

definition resync_targets :: "uuid list option \<Rightarrow> world \<Rightarrow> configuration_item list" where
  "resync_targets ciIds w = filter (\<lambda>ci. ci_serialOrServiceTag ci \<noteq> None \<and>
     (case ciIds of None \<Rightarrow> True | Some ids \<Rightarrow> ids \<noteq> [] \<longrightarrow> ci_id ci \<in> set ids)) (cis w)"

definition warrantyResync :: "warranty_provider list \<Rightarrow> instant \<Rightarrow> uuid list option \<Rightarrow> actor_context \<Rightarrow> resync_summary op" where
  "warrantyResync providers now ciIds actor =
     bindM (getM (resync_targets ciIds)) (\<lambda>targets.
     resyncEach providers now targets
       \<lparr>rsy_checked = length targets, rsy_updated = 0, rsy_unchanged = 0, rsy_skipped = [], rsy_failed = []\<rparr> actor)"

section \<open>What the answers mean\<close>

definition dated :: "('a \<Rightarrow> instant option) \<Rightarrow> 'a list \<Rightarrow> instant set" where
  "dated date lines = {d. \<exists>l \<in> set lines. date l = Some d}"

lemma dated_simps [simp]:
  "dated date [] = {}" "dated date (l # ls) = (case date l of None \<Rightarrow> dated date ls | Some d \<Rightarrow> insert d (dated date ls))"
  by (auto simp: dated_def split: option.split)

lemma finite_dated [simp]: "finite (dated date lines)"
  by (induction lines) (auto split: option.split)

lemma latest_line_max:
  "map_option fst (latest_line date best lines) =
     (let ds = dated date lines \<union> (case best of None \<Rightarrow> {} | Some (b, _) \<Rightarrow> {b}) in if ds = {} then None else Some (Max ds))"
proof (induction lines arbitrary: best)
  case (Cons l ls)
  have two: "Max (insert a (insert b D)) = Max (insert (max a b) D)" if "finite D" for a b :: instant and D
    using that by (cases "D = {}") (simp_all add: max.assoc)
  show ?case
    using two [OF finite_dated [of date ls]]
    by (auto simp: Cons.IH Let_def max_def insert_commute split: option.split prod.split)
qed (auto split: option.split)

text \<open>What a warranty source promises, given the end dates that count in its answer.\<close>

locale warranty_source =
  fixes ends :: "'a \<Rightarrow> instant set" and answer :: "'a \<Rightarrow> instant \<Rightarrow> warranty_result"
  assumes undated: "ends a = {} \<Longrightarrow> wr_status (answer a now) = W_UNKNOWN \<and> wr_expiresAt (answer a now) = None"
    and latest_end: "ends a \<noteq> {} \<Longrightarrow> wr_expiresAt (answer a now) = Some (Max (ends a)) \<and>
      wr_status (answer a now) = (if now \<le> Max (ends a) then W_ACTIVE else W_EXPIRED)"
    and finite_ends: "finite (ends a)"
begin

lemma active_iff: "wr_status (answer a now) = W_ACTIVE \<longleftrightarrow> (\<exists>d \<in> ends a. now \<le> d)"
  using undated [of a now] latest_end [of a now] finite_ends [of a] by (cases "ends a = {}") (auto simp: Max_ge_iff)

lemma expired_iff: "wr_status (answer a now) = W_EXPIRED \<longleftrightarrow> ends a \<noteq> {} \<and> \<not> (\<exists>d \<in> ends a. now \<le> d)"
  using undated [of a now] latest_end [of a now] finite_ends [of a] by (cases "ends a = {}") (auto simp: Max_ge_iff)

lemma expires_latest: "wr_expiresAt (answer a now) = Some d \<Longrightarrow> d \<in> ends a \<and> (\<forall>d' \<in> ends a. d' \<le> d)"
  using undated [of a now] latest_end [of a now] finite_ends [of a] Max_in [of "ends a"] by (cases "ends a = {}") auto

end

definition dell_ends :: "dell_asset option \<Rightarrow> instant set" where
  "dell_ends asset = dated de_endDate (option_default [] (Option.bind asset da_entitlements))"

definition hpe_ends :: "hpe_product option \<Rightarrow> instant set" where
  "hpe_ends product =
     (let offers = dated ho_endDate (option_default [] (Option.bind product hr_offers)) in
      if offers \<noteq> {} then offers else set_option (Option.bind product hr_warrantyEndDate))"

lemma latest_line_start:
  "latest_line date None lines = None \<longleftrightarrow> dated date lines = {}"
  "latest_line date None lines = Some (ms, l) \<Longrightarrow> dated date lines \<noteq> {} \<and> ms = Max (dated date lines)"
  using latest_line_max [of date None lines] by (auto simp: Let_def split: if_splits)

interpretation dell: warranty_source dell_ends normalizeDellWarranty
  by unfold_locales
    (auto simp: dell_ends_def normalizeDellWarranty_def no_answer_def answer_of_def latest_line_start dest: latest_line_start(2)
      split: option.split)

interpretation hpe: warranty_source hpe_ends normalizeHpeWarranty
proof
  fix a :: "hpe_product option" and now :: instant
  let ?offers = "option_default [] (Option.bind a hr_offers)"
  show "finite (hpe_ends a)" by (auto simp: hpe_ends_def Let_def)
  show "wr_status (normalizeHpeWarranty a now) = W_UNKNOWN \<and> wr_expiresAt (normalizeHpeWarranty a now) = None" if "hpe_ends a = {}"
    using that by (cases a; auto simp: hpe_ends_def normalizeHpeWarranty_def no_answer_def Let_def latest_line_start dest: latest_line_start(2)
        split: option.splits if_splits)
  show "wr_expiresAt (normalizeHpeWarranty a now) = Some (Max (hpe_ends a)) \<and>
      wr_status (normalizeHpeWarranty a now) = (if now \<le> Max (hpe_ends a) then W_ACTIVE else W_EXPIRED)" if "hpe_ends a \<noteq> {}"
  proof (cases "latest_line ho_endDate None ?offers")
    case None
    then show ?thesis using that
      by (auto simp: hpe_ends_def normalizeHpeWarranty_def answer_of_def Let_def latest_line_start split: option.split)
  next
    case (Some ml)
    then show ?thesis using latest_line_start(2) [of ho_endDate ?offers "fst ml" "snd ml"]
      by (auto simp: hpe_ends_def normalizeHpeWarranty_def answer_of_def Let_def split: prod.split)
  qed
qed

text \<open>
  The coverage a provider reports is exact: a device is covered just when some end date that counts has not passed, expired just when
  there are such dates and all have passed, and the reported expiry is the latest of them. For HPE the product's own date
  counts only when no offer is dated.
\<close>

theorem warranty_coverage_exact:
  "(wr_status (normalizeDellWarranty asset now) = W_ACTIVE \<longleftrightarrow> (\<exists>d \<in> dell_ends asset. now \<le> d)) \<and>
   (wr_status (normalizeDellWarranty asset now) = W_EXPIRED \<longleftrightarrow> dell_ends asset \<noteq> {} \<and> \<not> (\<exists>d \<in> dell_ends asset. now \<le> d)) \<and>
   (wr_status (normalizeHpeWarranty product now) = W_ACTIVE \<longleftrightarrow> (\<exists>d \<in> hpe_ends product. now \<le> d)) \<and>
   (wr_status (normalizeHpeWarranty product now) = W_EXPIRED \<longleftrightarrow> hpe_ends product \<noteq> {} \<and> \<not> (\<exists>d \<in> hpe_ends product. now \<le> d)) \<and>
   (dell_ends asset \<noteq> {} \<or> wr_expiresAt (normalizeDellWarranty asset now) = None) \<and>
   (dell_ends asset = {} \<or> wr_expiresAt (normalizeDellWarranty asset now) = Some (Max (dell_ends asset)))"
  using dell.active_iff dell.expired_iff hpe.active_iff hpe.expired_iff dell.undated dell.latest_end
  by metis

text \<open>
  An answer that does not hold the requested service tag is not refused: the Dell provider reports the coverage of the first asset
  in the answer, whatever device that is.
\<close>

theorem foreign_asset_accepted:
  assumes "trim serial \<noteq> []" "fetch (trim serial) = Responded 200 (Parsed (a # assets))"
    "find (\<lambda>x. toUpperCase (trim (option_default [] (da_serviceTag x))) = toUpperCase (trim serial)) (a # assets) = None"
  shows "dellLookup fetch now vendor serial = Inr (normalizeDellWarranty (Some a) now)"
  using assms by (simp add: dellLookup_def find_tagged_def http_ok_def Let_def split: if_splits)

definition other_asset :: dell_asset where
  "other_asset = \<lparr>da_serviceTag = Some ''OTHER'', da_entitlements = Some [\<lparr>de_serviceLevelDescription = None, de_endDate = Some 100\<rparr>]\<rparr>"

theorem foreign_asset_accepted_witness:
  "map_sum id wr_status (dellLookup (\<lambda>_. Responded 200 (Parsed [other_asset])) 5 ''DELL'' ''MINE'') = Inr W_ACTIVE"
proof -
  have "find (\<lambda>x. toUpperCase (trim (option_default [] (da_serviceTag x))) = toUpperCase (trim ''MINE'')) [other_asset] = None" by code_simp
  moreover have "trim ''MINE'' \<noteq> []" by code_simp
  ultimately have "dellLookup (\<lambda>_. Responded 200 (Parsed [other_asset])) 5 ''DELL'' ''MINE'' = Inr (normalizeDellWarranty (Some other_asset) 5)"
    using foreign_asset_accepted [of "''MINE''" "\<lambda>_. Responded 200 (Parsed [other_asset])" other_asset "[]" 5 "''DELL''"] by blast
  moreover have "wr_status (normalizeDellWarranty (Some other_asset) 5) = W_ACTIVE" by code_simp
  ultimately show ?thesis by simp
qed

text \<open>
  The stub's answers are consistent (expired just when its date has passed) and bounded (at most 400 days back, 30 to 1125
  days ahead), but its date is counted from the moment of asking: two askings at different times never agree on the expiry.
\<close>

theorem stub_bounded_not_stable:
  "\<exists>r. stubLookup now vendor serial = Inr r \<and> (\<exists>ms. wr_expiresAt r = Some ms \<and>
     (wr_status r = W_EXPIRED \<and> now - 400 * DAY_MS \<le> ms \<and> ms < now \<or>
      wr_status r = W_ACTIVE \<and> now + 30 * DAY_MS \<le> ms \<and> ms \<le> now + 1125 * DAY_MS)) \<and>
     (now' \<noteq> now \<longrightarrow> map_sum id wr_expiresAt (stubLookup now' vendor serial) \<noteq> Inr (wr_expiresAt r))"
proof -
  define seed where "seed = uint (fnv_hash (toUpperCase vendor @ '':'' @ serial))"
  have "0 \<le> seed mod 400" "seed mod 400 < 400" "0 \<le> seed mod 1096" "seed mod 1096 < 1096" by simp_all
  then show ?thesis
    unfolding stubLookup_def Let_def seed_def [symmetric] by (cases "seed mod 6 = 0") (auto simp: DAY_MS_def)
qed

section \<open>Settling\<close>

lemma last_of_latest: "\<forall>r \<in> set rows. f r \<le> f x \<Longrightarrow> last (sort_key f (rows @ [x])) = x" for f :: "'r \<Rightarrow> int"
proof -
  assume le: "\<forall>r \<in> set rows. f r \<le> f x"
  have "sort_key f (rows @ [x]) = sort_key f rows @ [x]"
  proof (rule properties_for_sort_key)
    show "sorted (map f (sort_key f rows @ [x]))" using le by (auto simp: sorted_append)
    show "filter (\<lambda>y. f k = f y) (sort_key f rows @ [x]) = filter (\<lambda>y. f k = f y) (rows @ [x])" for k
      using sort_key_stable [of f "f k" rows] by (simp add: eq_commute)
  qed simp
  then show ?thesis by simp
qed

text \<open>What the providers say of a device now, if anyone can say.\<close>

definition coverage :: "warranty_provider list \<Rightarrow> instant \<Rightarrow> configuration_item \<Rightarrow> warranty_result option" where
  "coverage providers now ci =
     (let vendor = trim (option_default [] (ci_manufacturer ci)); serial = trim (option_default [] (ci_serialOrServiceTag ci)) in
      if vendor = [] \<or> serial = [] then None
      else Option.bind (resolveWarrantyProvider providers vendor)
        (\<lambda>p. case wp_lookup p now vendor serial of Inl _ \<Rightarrow> None | Inr r \<Rightarrow> Some r))"

text \<open>The newest row of a device, its latest by time, says what the provider says: status, provider and end date.\<close>

definition newest_says :: "uuid \<Rightarrow> warranty_result \<Rightarrow> world \<Rightarrow> bool" where
  "newest_says k r w \<longleftrightarrow> (\<exists>row. latest_warranty k w = Some row \<and> wa_status row = wr_status r \<and>
     wa_provider row = Some (wr_provider r) \<and> wa_expiresAt row = wr_expiresAt r)"

definition settled :: "warranty_provider list \<Rightarrow> instant \<Rightarrow> configuration_item \<Rightarrow> world \<Rightarrow> bool" where
  "settled providers now ci w = (case coverage providers now ci of None \<Rightarrow> True | Some r \<Rightarrow> newest_says (ci_id ci) r w)"

lemma same_coverage_newest: "same_coverage r (latest_warranty k w) \<longleftrightarrow> newest_says k r w"
  by (auto simp: same_coverage_def newest_says_def split: option.splits)

lemma latest_warranty_newest:
  "latest_warranty k w = Some row \<Longrightarrow> row \<in> set (warranties w) \<and> wa_ciId row = k \<and>
     (\<forall>x \<in> set (warranties w). wa_ciId x = k \<longrightarrow> wa_createdAt x \<le> wa_createdAt row)"
proof -
  assume l: "latest_warranty k w = Some row"
  let ?rows = "filter (\<lambda>r. wa_ciId r = k) (warranties w)"
  have ne: "?rows \<noteq> []" and row: "row = last (sort_key wa_createdAt ?rows)"
    using l by (auto simp: latest_warranty_def Let_def split: if_splits)
  have ne': "sort_key wa_createdAt ?rows \<noteq> []" using ne by (metis length_0_conv length_sort)
  have "row \<in> set ?rows" using last_in_set [OF ne'] row by simp
  moreover have "wa_createdAt x \<le> wa_createdAt row" if x: "x \<in> set ?rows" for x
  proof -
    let ?s = "map wa_createdAt (sort_key wa_createdAt ?rows)"
    have "sorted (butlast ?s @ [last ?s])" using ne' by (simp del: map_butlast)
    moreover have "wa_createdAt x \<in> set (butlast ?s @ [last ?s])" using x ne' by (simp del: map_butlast)
    ultimately have "wa_createdAt x \<le> last ?s" by (auto simp: sorted_append simp del: map_butlast)
    then show ?thesis using ne' row by (simp add: last_map)
  qed
  ultimately show ?thesis by simp
qed

definition warranty_row :: "uuid \<Rightarrow> instant \<Rightarrow> uuid \<Rightarrow> warranty_result \<Rightarrow> warranty" where
  "warranty_row i now ciId r = \<lparr>wa_id = i, wa_ciId = ciId, wa_status = wr_status r, wa_provider = Some (wr_provider r),
     wa_expiresAt = wr_expiresAt r, wa_createdAt = now\<rparr>"

lemma appendWarranty_eval:
  "\<exists>aud. appendWarranty now ciId r latest actor w =
     (Inr (), w\<lparr>uuid_next := Suc (uuid_next w), warranties := warranties w @ [warranty_row (env_uuid (env w) (uuid_next w)) now ciId r], audits := aud\<rparr>)"
  by (simp add: appendWarranty_def warranty_row_def Let_def transactionM_def bindM_def) (rule exI, rule refl)

lemma resyncCi_eval:
  "\<exists>outcome w'. resyncCi providers now ci actor w = (Inr outcome, w') \<and> cis w' = cis w \<and>
     (outcome = Updated \<longleftrightarrow> \<not> settled providers now ci w) \<and>
     (if settled providers now ci w then w' = w
      else \<exists>i r. coverage providers now ci = Some r \<and> warranties w' = warranties w @ [warranty_row i now (ci_id ci) r])"
proof (cases "coverage providers now ci")
  case None
  then have "settled providers now ci w" by (simp add: settled_def)
  moreover have "\<exists>outcome. resyncCi providers now ci actor w = (Inr outcome, w) \<and> outcome \<noteq> Updated"
    using None by (auto simp: coverage_def resyncCi_def Let_def split: option.splits sum.splits if_splits)
  ultimately show ?thesis by auto
next
  case (Some r)
  have run: "resyncCi providers now ci actor w =
      (if same_coverage r (latest_warranty (ci_id ci) w) then (Inr Unchanged, w)
       else bindM (appendWarranty now (ci_id ci) r (latest_warranty (ci_id ci) w) actor) (\<lambda>_. ret Updated) w)"
    using Some by (auto simp: coverage_def resyncCi_def Let_def split: option.splits sum.splits if_splits)
  obtain aud where "appendWarranty now (ci_id ci) r (latest_warranty (ci_id ci) w) actor w =
      (Inr (), w\<lparr>uuid_next := Suc (uuid_next w), warranties := warranties w @ [warranty_row (env_uuid (env w) (uuid_next w)) now (ci_id ci) r], audits := aud\<rparr>)"
    using appendWarranty_eval by blast
  then show ?thesis unfolding run same_coverage_newest using Some by (auto simp: settled_def bindM_def)
qed

lemma latest_other: "warranties w' = warranties w @ [x] \<Longrightarrow> wa_ciId x \<noteq> k \<Longrightarrow> latest_warranty k w' = latest_warranty k w"
  by (simp add: latest_warranty_def)

lemma latest_own:
  assumes "warranties w' = warranties w @ [warranty_row i now k r]" "\<forall>x \<in> set (warranties w). wa_createdAt x \<le> now"
  shows "newest_says k r w'"
  using assms last_of_latest [of "filter (\<lambda>x. wa_ciId x = k) (warranties w)" wa_createdAt "warranty_row i now k r"]
  by (simp add: latest_warranty_def warranty_row_def newest_says_def)

lemma resyncEach_settles:
  assumes "distinct (map ci_id targets)" "\<forall>x \<in> set (warranties w). wa_createdAt x \<le> now"
  shows "\<exists>s' w'. resyncEach providers now targets s actor w = (Inr s', w') \<and> cis w' = cis w \<and>
     (\<forall>ci \<in> set targets. settled providers now ci w') \<and> (\<forall>k. k \<notin> ci_id ` set targets \<longrightarrow> latest_warranty k w' = latest_warranty k w)"
  using assms
proof (induction targets arbitrary: s w)
  case (Cons ci targets)
  obtain outcome w1 where r: "resyncCi providers now ci actor w = (Inr outcome, w1)" "cis w1 = cis w"
    "if settled providers now ci w then w1 = w
      else \<exists>i r. coverage providers now ci = Some r \<and> warranties w1 = warranties w @ [warranty_row i now (ci_id ci) r]"
    using resyncCi_eval by blast
  have one: "settled providers now ci w1 \<and> (\<forall>k. k \<noteq> ci_id ci \<longrightarrow> latest_warranty k w1 = latest_warranty k w) \<and>
      (\<forall>x \<in> set (warranties w1). wa_createdAt x \<le> now)"
  proof (cases "settled providers now ci w")
    case False
    then obtain i r where "coverage providers now ci = Some r" "warranties w1 = warranties w @ [warranty_row i now (ci_id ci) r]"
      using r(3) by auto
    then show ?thesis using latest_own Cons.prems(2) latest_other
      by (fastforce simp: settled_def warranty_row_def)
  qed (use r(3) Cons.prems(2) in simp)
  obtain s' w' where rest: "resyncEach providers now targets (note_outcome ci outcome s) actor w1 = (Inr s', w')" "cis w' = cis w1"
    "\<forall>ci \<in> set targets. settled providers now ci w'" "\<forall>k. k \<notin> ci_id ` set targets \<longrightarrow> latest_warranty k w' = latest_warranty k w1"
    using Cons.IH [of w1 "note_outcome ci outcome s"] Cons.prems(1) one by auto
  have "settled providers now ci w'" using one rest(4) Cons.prems(1) by (auto simp: settled_def newest_says_def split: option.splits)
  then show ?case using r(1,2) rest one by (auto simp: bindM_def)
qed simp

lemma resyncEach_quiet: "\<forall>ci \<in> set targets. settled providers now ci w \<Longrightarrow> \<exists>s'. resyncEach providers now targets s actor w = (Inr s', w)"
proof (induction targets arbitrary: s)
  case (Cons ci targets)
  obtain outcome where "resyncCi providers now ci actor w = (Inr outcome, w)"
    using resyncCi_eval [of providers now ci actor w] Cons.prems by auto
  then show ?case using Cons by (auto simp: bindM_def)
qed simp

lemma resyncEach_counts:
  "fst (resyncEach providers now targets s actor w) = Inr s' \<Longrightarrow>
     rsy_updated s' + rsy_unchanged s' + length (rsy_skipped s') + length (rsy_failed s') =
     rsy_updated s + rsy_unchanged s + length (rsy_skipped s) + length (rsy_failed s) + length targets \<and> rsy_checked s' = rsy_checked s"
proof (induction targets arbitrary: s w)
  case (Cons ci targets)
  obtain outcome w1 where r: "resyncCi providers now ci actor w = (Inr outcome, w1)" using resyncCi_eval by blast
  have "fst (resyncEach providers now targets (note_outcome ci outcome s) actor w1) = Inr s'" using Cons.prems r by (simp add: bindM_def)
  from Cons.IH [OF this] show ?case by (cases outcome) (simp_all add: note_outcome_def)
qed simp

lemma resyncEach_appends:
  "resyncEach providers now targets s actor w = (Inr s', w') \<Longrightarrow>
     \<exists>new. warranties w' = warranties w @ new \<and> rsy_updated s' = rsy_updated s + length new"
proof (induction targets arbitrary: s w)
  case (Cons ci targets)
  obtain outcome w1 where r: "resyncCi providers now ci actor w = (Inr outcome, w1)"
    "outcome = Updated \<longleftrightarrow> \<not> settled providers now ci w"
    "if settled providers now ci w then w1 = w
      else \<exists>i r. coverage providers now ci = Some r \<and> warranties w1 = warranties w @ [warranty_row i now (ci_id ci) r]"
    using resyncCi_eval by blast
  have "resyncEach providers now targets (note_outcome ci outcome s) actor w1 = (Inr s', w')" using Cons.prems r(1) by (simp add: bindM_def)
  from Cons.IH [OF this] obtain new where n: "warranties w' = warranties w1 @ new" "rsy_updated s' = rsy_updated (note_outcome ci outcome s) + length new" by blast
  show ?case
  proof (cases "settled providers now ci w")
    case True
    then show ?thesis using n r(2,3) by (cases outcome) (auto simp: note_outcome_def)
  next
    case False
    then obtain x where "warranties w1 = warranties w @ [x]" using r(3) by auto
    then show ?thesis using n r(2) False by (intro exI [of _ "x # new"]) (simp add: note_outcome_def)
  qed
qed simp

text \<open>
  C29: A resync always returns and accounts for every device it checked. For each device a provider could
  answer for, its newest row then carries the status, the provider and the end date of that answer; rows are
  only appended, one per device counted as updated. Asking again writes nothing at all, provided the
  providers then answer the same.
\<close>

theorem warranty_resync_settles:
  assumes "distinct (map ci_id (cis w))" "\<forall>x \<in> set (warranties w). wa_createdAt x \<le> now"
  shows "\<exists>s w'. warrantyResync providers now ids actor w = (Inr s, w') \<and>
     rsy_checked s = length (resync_targets ids w) \<and>
     rsy_checked s = rsy_updated s + rsy_unchanged s + length (rsy_skipped s) + length (rsy_failed s) \<and>
     (\<exists>new. warranties w' = warranties w @ new \<and> length new = rsy_updated s) \<and>
     (\<forall>ci \<in> set (resync_targets ids w). \<forall>r. coverage providers now ci = Some r \<longrightarrow>
        (\<exists>row \<in> set (warranties w'). wa_ciId row = ci_id ci \<and> wa_status row = wr_status r \<and>
           wa_provider row = Some (wr_provider r) \<and> wa_expiresAt row = wr_expiresAt r \<and>
           (\<forall>x \<in> set (warranties w'). wa_ciId x = ci_id ci \<longrightarrow> wa_createdAt x \<le> wa_createdAt row))) \<and>
     (\<forall>now'. (\<forall>ci. coverage providers now' ci = coverage providers now ci) \<longrightarrow> snd (warrantyResync providers now' ids actor w') = w')"
proof -
  let ?t = "resync_targets ids w"
  let ?s0 = "\<lparr>rsy_checked = length ?t, rsy_updated = 0, rsy_unchanged = 0, rsy_skipped = [], rsy_failed = []\<rparr>"
  have "distinct (map ci_id ?t)" using assms(1) by (simp add: resync_targets_def distinct_map inj_on_def)
  from resyncEach_settles [OF this assms(2), of providers ?s0 actor]
  obtain s w' where run: "resyncEach providers now ?t ?s0 actor w = (Inr s, w')" "cis w' = cis w" "\<forall>ci \<in> set ?t. settled providers now ci w'"
    by blast
  have again: "snd (warrantyResync providers now' ids actor w') = w'" if "\<forall>ci. coverage providers now' ci = coverage providers now ci" for now'
  proof -
    have "\<forall>ci \<in> set (resync_targets ids w'). settled providers now' ci w'"
      using run(2,3) that by (simp add: settled_def resync_targets_def)
    from resyncEach_quiet [OF this] show ?thesis unfolding warrantyResync_def by simp (metis snd_conv)
  qed
  have counts: "rsy_checked s = rsy_updated s + rsy_unchanged s + length (rsy_skipped s) + length (rsy_failed s)" "rsy_checked s = length ?t"
    using resyncEach_counts [of providers now ?t ?s0 actor w s] run(1) by simp_all
  have says: "\<exists>row \<in> set (warranties w'). wa_ciId row = ci_id ci \<and> wa_status row = wr_status r \<and>
      wa_provider row = Some (wr_provider r) \<and> wa_expiresAt row = wr_expiresAt r \<and>
      (\<forall>x \<in> set (warranties w'). wa_ciId x = ci_id ci \<longrightarrow> wa_createdAt x \<le> wa_createdAt row)"
    if "ci \<in> set ?t" "coverage providers now ci = Some r" for ci r
  proof -
    have "newest_says (ci_id ci) r w'" using run(3) that by (auto simp: settled_def)
    then show ?thesis unfolding newest_says_def using latest_warranty_newest [of "ci_id ci" w'] by blast
  qed
  have "\<exists>new. warranties w' = warranties w @ new \<and> length new = rsy_updated s"
    using resyncEach_appends [OF run(1)] by auto
  moreover have "warrantyResync providers now ids actor w = (Inr s, w')" using run(1) by (simp add: warrantyResync_def)
  ultimately show ?thesis using counts says again by (intro exI [of _ s] exI [of _ w'] conjI) auto
qed

definition dell_server :: configuration_item where
  "dell_server = \<lparr>ci_id = ''c1'', ci_code = ''SRV-1'', ci_siteId = ''s1'', ci_rackId = None, ci_ciType = CT_SERVER, ci_name = ''srv'',
     ci_manufacturer = Some ''Dell'', ci_model = None, ci_serialOrServiceTag = Some ''OTHER'', ci_managementAddress = None, ci_ownerGroupId = None,
     ci_managedBy = MB_CTS, ci_criticality = CR_HIGH, ci_lifecycleStatus = ACTIVE\<rparr>"

theorem warranty_resync_settles_witness:
  "\<exists>s w'. warrantyResync [\<lparr>wp_name = DELL_PROVIDER, wp_supports = dellSupports, wp_lookup = dellLookup (\<lambda>_. Responded 200 (Parsed [other_asset]))\<rparr>]
       5 None sample_actor (empty_world\<lparr>cis := [dell_server]\<rparr>) = (Inr s, w') \<and> rsy_checked s = 1 \<and>
     (\<exists>row \<in> set (warranties w'). wa_ciId row = ''c1'' \<and> wa_status row = W_ACTIVE \<and> wa_expiresAt row = Some 100)"
proof -
  let ?ps = "[\<lparr>wp_name = DELL_PROVIDER, wp_supports = dellSupports, wp_lookup = dellLookup (\<lambda>_. Responded 200 (Parsed [other_asset]))\<rparr>]"
  let ?w = "empty_world\<lparr>cis := [dell_server]\<rparr>"
  have t: "resync_targets None ?w = [dell_server]" by (simp add: resync_targets_def dell_server_def)
  have cov: "map_option (\<lambda>r. (wr_status r, wr_expiresAt r)) (coverage ?ps 5 dell_server) = Some (W_ACTIVE, Some 100)" by code_simp
  then obtain r where r: "coverage ?ps 5 dell_server = Some r" "wr_status r = W_ACTIVE" "wr_expiresAt r = Some 100" by auto
  have "distinct (map ci_id (cis ?w))" "\<forall>x \<in> set (warranties ?w). wa_createdAt x \<le> 5" by (simp_all add: empty_world_def)
  from warranty_resync_settles [OF this, of ?ps None sample_actor] obtain s w' where
    "warrantyResync ?ps 5 None sample_actor ?w = (Inr s, w')" "rsy_checked s = length (resync_targets None ?w)"
    "\<forall>ci \<in> set (resync_targets None ?w). \<forall>r. coverage ?ps 5 ci = Some r \<longrightarrow>
        (\<exists>row \<in> set (warranties w'). wa_ciId row = ci_id ci \<and> wa_status row = wr_status r \<and>
           wa_provider row = Some (wr_provider r) \<and> wa_expiresAt row = wr_expiresAt r \<and>
           (\<forall>x \<in> set (warranties w'). wa_ciId x = ci_id ci \<longrightarrow> wa_createdAt x \<le> wa_createdAt row))"
    by blast
  moreover have "ci_id dell_server = ''c1''" by (simp add: dell_server_def)
  ultimately show ?thesis unfolding t using r by (intro exI [of _ s] exI [of _ w'] conjI) auto
qed

end
