(* ===== verification/Cmdb.thy ===== *)
theory Cmdb
  imports Registers Incidents
begin

text \<open>
  Configuration items, racks and relations (\<^verbatim>\<open>cmdb/cmdb.service.ts\<close>) with the redaction of
  \<^verbatim>\<open>cmdb/cmdb.controller.ts\<close>. The free-form metadata column is left out.
\<close>

section \<open>The code\<close>

record list_cis_query =
  lq_siteId :: "uuid option"
  lq_ciType :: "ci_type option"
  lq_criticality :: "criticality option"
  lq_managedBy :: "managed_by option"
  lq_lifecycleStatus :: "lifecycle_status option"
  lq_q :: "string option"
  lq_limit :: "nat option"
  lq_offset :: "nat option"

definition ci_siteFilter :: "uuid list option \<Rightarrow> uuid option \<Rightarrow> uuid list option" where
  "ci_siteFilter accessible siteId =
     (case accessible of
        Some ids \<Rightarrow> Some (if truthy siteId \<and> the siteId \<in> set ids then [the siteId] else ids)
      | None \<Rightarrow> if truthy siteId then Some [the siteId] else None)"

definition ci_where :: "list_cis_query \<Rightarrow> uuid list option \<Rightarrow> configuration_item \<Rightarrow> bool" where
  "ci_where q accessible ci \<longleftrightarrow>
     (case ci_siteFilter accessible (lq_siteId q) of None \<Rightarrow> True | Some ids \<Rightarrow> ci_siteId ci \<in> set ids) \<and>
     matches (lq_ciType q) (ci_ciType ci) \<and> matches (lq_criticality q) (ci_criticality ci) \<and>
     matches (lq_managedBy q) (ci_managedBy ci) \<and> matches (lq_lifecycleStatus q) (ci_lifecycleStatus ci) \<and>
     (truthy (lq_q q) \<longrightarrow> icontains (the (lq_q q)) (ci_code ci) \<or> icontains (the (lq_q q)) (ci_name ci))"

definition cisFindAll :: "list_cis_query \<Rightarrow> uuid list option \<Rightarrow> world \<Rightarrow> configuration_item paginated" where
  "cisFindAll q accessible w =
     (let rows = filter (ci_where q accessible) (cis w); limit = option_default 50 (lq_limit q); offset = option_default 0 (lq_offset q) in
      \<lparr>pg_items = take limit (drop offset (sort_key (\<lambda>c. env_collation (env w) (ci_code c)) rows)),
       pg_total = length rows, pg_limit = limit, pg_offset = offset\<rparr>)"

definition ciFindOne :: "uuid \<Rightarrow> world \<Rightarrow> http_error + configuration_item" where
  "ciFindOne i w =
     (case find_by ci_id i (cis w) of None \<Rightarrow> Inl (NotFound (''Configuration Item '' @ i @ '' not found'')) | Some c \<Rightarrow> Inr c)"

definition ciFindOneScoped :: "uuid \<Rightarrow> auth_user \<Rightarrow> world \<Rightarrow> http_error + configuration_item" where
  "ciFindOneScoped i u w =
     (case ciFindOne i w of
        Inl e \<Rightarrow> Inl e
      | Inr ci \<Rightarrow> (case assertSiteAccess u (ci_siteId ci) w of Inl e \<Rightarrow> Inl e | Inr _ \<Rightarrow> Inr ci))"

record create_ci_dto =
  cc_ciCode :: string
  cc_siteId :: uuid
  cc_rackId :: "uuid option"
  cc_ciType :: ci_type
  cc_name :: string
  cc_manufacturer :: "string option"
  cc_model :: "string option"
  cc_serialOrServiceTag :: "string option"
  cc_managementAddress :: "string option"
  cc_ownerGroupId :: "uuid option"
  cc_managedBy :: managed_by
  cc_criticality :: criticality
  cc_lifecycleStatus :: "lifecycle_status option"

definition new_ci :: "uuid \<Rightarrow> create_ci_dto \<Rightarrow> configuration_item" where
  "new_ci i dto = \<lparr>ci_id = i, ci_code = cc_ciCode dto, ci_siteId = cc_siteId dto, ci_rackId = cc_rackId dto, ci_ciType = cc_ciType dto,
     ci_name = cc_name dto, ci_manufacturer = cc_manufacturer dto, ci_model = cc_model dto,
     ci_serialOrServiceTag = cc_serialOrServiceTag dto, ci_managementAddress = cc_managementAddress dto,
     ci_ownerGroupId = cc_ownerGroupId dto, ci_managedBy = cc_managedBy dto, ci_criticality = cc_criticality dto,
     ci_lifecycleStatus = option_default ACTIVE (cc_lifecycleStatus dto)\<rparr>"

text \<open>The foreign keys of the row: the site and the rack. The owner group has none.\<close>

definition ci_refs_ok :: "world \<Rightarrow> configuration_item \<Rightarrow> bool" where
  "ci_refs_ok w ci \<longleftrightarrow> ci_siteId ci \<in> s_id ` set (sites w) \<and> (case ci_rackId ci of None \<Rightarrow> True | Some r \<Rightarrow> r \<in> rak_id ` set (racks w))"

definition insertCi :: "instant \<Rightarrow> create_ci_dto \<Rightarrow> actor_context \<Rightarrow> configuration_item op" where
  "insertCi now dto actor =
     bindM freshId (\<lambda>i.
     let ci = new_ci i dto in
     bindM (getM (\<lambda>w. cc_ciCode dto \<in> ci_code ` set (cis w))) (\<lambda>taken.
     bindM (guardM (\<not> taken) (PrismaKnown ''P2002'')) (\<lambda>_.
     bindM (getM (\<lambda>w. ci_refs_ok w ci)) (\<lambda>ok.
     bindM (guardM ok fk_error) (\<lambda>_.
     bindM (modifyM (\<lambda>w. w\<lparr>cis := cis w @ [ci]\<rparr>)) (\<lambda>_.
     bindM (auditRecord now (Some (actorId actor)) ''ConfigurationItem'' i ''CREATE'' None (Some (SnapCi ci)) (correlationId actor)) (\<lambda>_.
     ret ci)))))))"

definition ciCreate :: "instant \<Rightarrow> create_ci_dto \<Rightarrow> actor_context \<Rightarrow> configuration_item op" where
  "ciCreate now dto actor = transaction (insertCi now dto actor)"

fun insertCis :: "instant \<Rightarrow> create_ci_dto list \<Rightarrow> actor_context \<Rightarrow> configuration_item list op" where
  "insertCis now [] actor = ret []"
| "insertCis now (dto # rest) actor =
     bindM (insertCi now dto actor) (\<lambda>ci.
     bindM (insertCis now rest actor) (\<lambda>created.
     ret (ci # created)))"

definition bulkCreate :: "instant \<Rightarrow> create_ci_dto list \<Rightarrow> actor_context \<Rightarrow> configuration_item list op" where
  "bulkCreate now items actor = transaction (insertCis now items actor)"

record update_ci_dto =
  uc_rackId :: "uuid patch"
  uc_name :: "string option"
  uc_manufacturer :: "string patch"
  uc_model :: "string patch"
  uc_serialOrServiceTag :: "string patch"
  uc_managementAddress :: "string patch"
  uc_ownerGroupId :: "uuid patch"
  uc_criticality :: "criticality option"
  uc_lifecycleStatus :: "lifecycle_status option"

definition patch_ci :: "update_ci_dto \<Rightarrow> configuration_item \<Rightarrow> configuration_item" where
  "patch_ci dto ci = ci\<lparr>ci_rackId := patched (uc_rackId dto) (ci_rackId ci), ci_name := patched (uc_name dto) (ci_name ci),
     ci_manufacturer := patched (uc_manufacturer dto) (ci_manufacturer ci), ci_model := patched (uc_model dto) (ci_model ci),
     ci_serialOrServiceTag := patched (uc_serialOrServiceTag dto) (ci_serialOrServiceTag ci),
     ci_managementAddress := patched (uc_managementAddress dto) (ci_managementAddress ci),
     ci_ownerGroupId := patched (uc_ownerGroupId dto) (ci_ownerGroupId ci),
     ci_criticality := patched (uc_criticality dto) (ci_criticality ci),
     ci_lifecycleStatus := patched (uc_lifecycleStatus dto) (ci_lifecycleStatus ci)\<rparr>"

definition ciUpdate :: "instant \<Rightarrow> uuid \<Rightarrow> update_ci_dto \<Rightarrow> auth_user \<Rightarrow> actor_context \<Rightarrow> configuration_item op" where
  "ciUpdate now i dto u actor =
     bindM (readM (ciFindOneScoped i u)) (\<lambda>before.
     transaction
       (let after = patch_ci dto before in
        bindM (getM (\<lambda>w. ci_refs_ok w after)) (\<lambda>ok.
        bindM (guardM ok fk_error) (\<lambda>_.
        bindM (modifyM (\<lambda>w. w\<lparr>cis := update_by ci_id i (patch_ci dto) (cis w)\<rparr>)) (\<lambda>_.
        bindM (auditRecord now (Some (actorId actor)) ''ConfigurationItem'' i ''UPDATE'' (Some (SnapCi before)) (Some (SnapCi after))
                 (correlationId actor)) (\<lambda>_.
        ret after))))))"

definition listRacks :: "uuid list option \<Rightarrow> world \<Rightarrow> rack list" where
  "listRacks accessible w =
     sort_key (\<lambda>r. (env_collation (env w) (rak_siteId r), env_collation (env w) (rak_rackCode r)))
       (filter (\<lambda>r. case accessible of None \<Rightarrow> True | Some ids \<Rightarrow> rak_siteId r \<in> set ids) (racks w))"

definition findRackScoped :: "uuid \<Rightarrow> auth_user \<Rightarrow> world \<Rightarrow> http_error + rack" where
  "findRackScoped i u w =
     (case find_by rak_id i (racks w) of
        None \<Rightarrow> Inl (NotFound (''Rack '' @ i @ '' not found''))
      | Some r \<Rightarrow> (case assertSiteAccess u (rak_siteId r) w of Inl e \<Rightarrow> Inl e | Inr _ \<Rightarrow> Inr r))"

record create_rack_dto =
  cr_siteId :: uuid
  cr_rackCode :: string
  cr_name :: "string option"
  cr_location :: "string option"

definition createRack :: "instant \<Rightarrow> create_rack_dto \<Rightarrow> actor_context \<Rightarrow> rack op" where
  "createRack now dto actor = transaction
     (bindM freshId (\<lambda>i.
      let r = \<lparr>rak_id = i, rak_siteId = cr_siteId dto, rak_rackCode = cr_rackCode dto, rak_name = cr_name dto, rak_location = cr_location dto\<rparr> in
      bindM (getM (\<lambda>w. (cr_siteId dto, cr_rackCode dto) \<in> (\<lambda>r. (rak_siteId r, rak_rackCode r)) ` set (racks w))) (\<lambda>taken.
      bindM (guardM (\<not> taken) (PrismaKnown ''P2002'')) (\<lambda>_.
      bindM (getM (\<lambda>w. cr_siteId dto \<in> s_id ` set (sites w))) (\<lambda>ok.
      bindM (guardM ok fk_error) (\<lambda>_.
      bindM (modifyM (\<lambda>w. w\<lparr>racks := racks w @ [r]\<rparr>)) (\<lambda>_.
      bindM (auditRecord now (Some (actorId actor)) ''Rack'' i ''CREATE'' None (Some (SnapRack r)) (correlationId actor)) (\<lambda>_.
      ret r))))))))"

datatype relation_direction = PARENT | CHILD

record create_ci_relation_dto =
  rd_relatedCiId :: uuid
  rd_relationType :: string
  rd_direction :: relation_direction

definition listRelations :: "uuid \<Rightarrow> auth_user \<Rightarrow> world \<Rightarrow> http_error + ci_relation list" where
  "listRelations ciId u w =
     (case ciFindOneScoped ciId u w of
        Inl e \<Rightarrow> Inl e
      | Inr _ \<Rightarrow> Inr (filter (\<lambda>r. cir_parentCiId r = ciId \<or> cir_childCiId r = ciId) (ci_relations w)))"

definition relation_key :: "ci_relation \<Rightarrow> uuid \<times> uuid \<times> string" where
  "relation_key r = (cir_parentCiId r, cir_childCiId r, cir_relationType r)"

definition new_relation :: "uuid \<Rightarrow> uuid \<Rightarrow> create_ci_relation_dto \<Rightarrow> ci_relation" where
  "new_relation i ciId dto = \<lparr>cir_id = i,
     cir_parentCiId = (if rd_direction dto = PARENT then ciId else rd_relatedCiId dto),
     cir_childCiId = (if rd_direction dto = PARENT then rd_relatedCiId dto else ciId), cir_relationType = rd_relationType dto\<rparr>"

definition insertRelation :: "instant \<Rightarrow> uuid \<Rightarrow> create_ci_relation_dto \<Rightarrow> actor_context \<Rightarrow> ci_relation op" where
  "insertRelation now ciId dto actor = transaction
     (bindM freshId (\<lambda>i.
      let r = new_relation i ciId dto in
      bindM (getM (\<lambda>w. relation_key r \<in> relation_key ` set (ci_relations w))) (\<lambda>taken.
      bindM (guardM (\<not> taken) (PrismaKnown ''P2002'')) (\<lambda>_.
      bindM (modifyM (\<lambda>w. w\<lparr>ci_relations := ci_relations w @ [r]\<rparr>)) (\<lambda>_.
      bindM (auditRecord now (Some (actorId actor)) ''CiRelation'' i ''CREATE'' None (Some (SnapCiRelation r)) (correlationId actor)) (\<lambda>_.
      ret r))))))"

definition createRelation :: "instant \<Rightarrow> uuid \<Rightarrow> create_ci_relation_dto \<Rightarrow> actor_context \<Rightarrow> auth_user \<Rightarrow> ci_relation op" where
  "createRelation now ciId dto actor u =
     bindM (guardM (rd_relatedCiId dto \<noteq> ciId) (BadRequest ''A CI cannot be related to itself'')) (\<lambda>_.
     bindM (readM (ciFindOneScoped ciId u)) (\<lambda>_.
     bindM (readM (ciFindOne (rd_relatedCiId dto))) (\<lambda>_.
     insertRelation now ciId dto actor)))"

text \<open>The routes that read devices.\<close>

definition redactManagementAddress :: "configuration_item \<Rightarrow> user_role \<Rightarrow> configuration_item" where
  "redactManagementAddress ci role = (if role \<noteq> CLIENT_MANAGER_VIEWER then ci else ci\<lparr>ci_managementAddress := None\<rparr>)"

definition getCis :: "list_cis_query \<Rightarrow> auth_user \<Rightarrow> world \<Rightarrow> configuration_item paginated" where
  "getCis q u w =
     (let result = cisFindAll q (getAccessibleSiteIds w u) w in
      result\<lparr>pg_items := map (\<lambda>ci. redactManagementAddress ci (au_role u)) (pg_items result)\<rparr>)"

definition getCi :: "uuid \<Rightarrow> auth_user \<Rightarrow> world \<Rightarrow> http_error + configuration_item" where
  "getCi i u w = map_sum id (\<lambda>ci. redactManagementAddress ci (au_role u)) (ciFindOneScoped i u w)"

section \<open>The register of devices\<close>

text \<open>Identity is fixed: code, site, type and who manages it.\<close>

definition ci_moves :: "configuration_item \<Rightarrow> configuration_item \<Rightarrow> bool" where
  "ci_moves a b \<longleftrightarrow> ci_code b = ci_code a \<and> ci_siteId b = ci_siteId a \<and> ci_ciType b = ci_ciType a \<and> ci_managedBy b = ci_managedBy a"

definition any_ci :: "configuration_item \<Rightarrow> bool" where
  "any_ci ci = True"

interpretation ci_register: register cis ci_id any_ci ci_moves
  by unfold_locales (auto simp: ci_moves_def any_ci_def rollback_def)

abbreviation cis_follow :: "world \<Rightarrow> world \<Rightarrow> bool" where
  "cis_follow \<equiv> rows_follow cis ci_id any_ci ci_moves"

text \<open>Insertion: either nothing but the id counter changes, or the new row is appended with its audit record.\<close>

lemma insertCi_cases:
  obtains (refused) e where "insertCi now dto actor w = (Inl e, w\<lparr>uuid_next := Suc (uuid_next w)\<rparr>)"
    | (stored) aud where "insertCi now dto actor w = (Inr (new_ci (env_uuid (env w) (uuid_next w)) dto),
        w\<lparr>uuid_next := Suc (uuid_next w), cis := cis w @ [new_ci (env_uuid (env w) (uuid_next w)) dto], audits := audits w @ [aud]\<rparr>)"
      "cc_ciCode dto \<notin> ci_code ` set (cis w)" "ci_refs_ok w (new_ci (env_uuid (env w) (uuid_next w)) dto)"
proof -
  let ?ci = "new_ci (env_uuid (env w) (uuid_next w)) dto"
  have refs: "ci_refs_ok (w\<lparr>uuid_next := n\<rparr>) c = ci_refs_ok w c" for n c by (simp add: ci_refs_ok_def cong: option.case_cong)
  show ?thesis
  proof (cases "cc_ciCode dto \<in> ci_code ` set (cis w) \<or> \<not> ci_refs_ok w ?ci")
    case True
    then have "\<exists>e. insertCi now dto actor w = (Inl e, w\<lparr>uuid_next := Suc (uuid_next w)\<rparr>)" by (auto simp: insertCi_def Let_def refs)
    then show ?thesis using refused by blast
  next
    case False
    then have "\<exists>aud. insertCi now dto actor w = (Inr ?ci,
        w\<lparr>uuid_next := Suc (uuid_next w), cis := cis w @ [?ci], audits := audits w @ [aud]\<rparr>)"
      by (simp add: insertCi_def Let_def refs bindM_def) (rule exI, rule refl)
    then show ?thesis using stored False by blast
  qed
qed

text \<open>
  What the whole database promises: codes are unique, sites and racks exist, and the relations are between two
  different devices that exist, none recorded twice.
\<close>

definition relation_ok :: "world \<Rightarrow> ci_relation \<Rightarrow> bool" where
  "relation_ok w r \<longleftrightarrow> cir_parentCiId r \<noteq> cir_childCiId r \<and> {cir_parentCiId r, cir_childCiId r} \<subseteq> ci_id ` set (cis w)"

definition cmdb_ok :: "world \<Rightarrow> bool" where
  "cmdb_ok w \<longleftrightarrow> distinct (map ci_code (cis w)) \<and> list_all (ci_refs_ok w) (cis w) \<and>
     distinct (map relation_key (ci_relations w)) \<and> list_all (relation_ok w) (ci_relations w)"

definition cmdb_moves :: "world \<Rightarrow> world \<Rightarrow> bool" where
  "cmdb_moves w w' \<longleftrightarrow> cis_follow w w' \<and> (keys_ok cis ci_id w \<longrightarrow> cmdb_ok w \<longrightarrow> cmdb_ok w')"

interpretation cmdb: frame_relation cmdb_moves
proof
  show "cmdb_moves s s" for s by (simp add: cmdb_moves_def ci_register.follow_refl)
  show "cmdb_moves s u" if "cmdb_moves s t" "cmdb_moves t u" for s t u
    using that ci_register.follow_trans [of s t u] by (auto simp: cmdb_moves_def rows_follow_def [of _ _ _ _ s t])
qed

lemma ci_refs_mono:
  "s_id ` set (sites w) \<subseteq> s_id ` set (sites w') \<Longrightarrow> rak_id ` set (racks w) \<subseteq> rak_id ` set (racks w') \<Longrightarrow> ci_refs_ok w c \<Longrightarrow> ci_refs_ok w' c"
  by (auto simp: ci_refs_ok_def split: option.splits)

lemma relation_mono: "ci_id ` set (cis w) \<subseteq> ci_id ` set (cis w') \<Longrightarrow> relation_ok w r \<Longrightarrow> relation_ok w' r"
  by (auto simp: relation_ok_def)

lemma cmdb_ok_mono:
  assumes "cmdb_ok w" "cis w' = cis w" "ci_relations w' = ci_relations w"
    "s_id ` set (sites w) \<subseteq> s_id ` set (sites w')" "rak_id ` set (racks w) \<subseteq> rak_id ` set (racks w')"
  shows "cmdb_ok w'"
  using assms ci_refs_mono [OF assms(4,5)] relation_mono [of w w'] by (auto simp: cmdb_ok_def list_all_iff)

lemma cmdb_same:
  assumes "env w' = env w" "uuid_next w \<le> uuid_next w'" "cis w' = cis w" "ci_relations w' = ci_relations w"
    "s_id ` set (sites w) \<subseteq> s_id ` set (sites w')" "rak_id ` set (racks w) \<subseteq> rak_id ` set (racks w')"
  shows "cmdb_moves w w'"
  unfolding cmdb_moves_def using cmdb_ok_mono [OF _ assms(3-6)] ci_register.follow_same [OF assms(1-3)] by blast

lemma cmdb_insertCi: "obeys cmdb_moves (insertCi now dto actor)"
  unfolding obeys_def
proof
  fix w
  show "cmdb_moves w (snd (insertCi now dto actor w))"
  proof (cases rule: insertCi_cases [of now dto actor w])
    case (refused e)
    then show ?thesis by (auto intro: cmdb_same)
  next
    case (stored aud)
    let ?ci = "new_ci (env_uuid (env w) (uuid_next w)) dto" and ?w' = "snd (insertCi now dto actor w)"
    have "cis_follow w ?w'"
      by (rule ci_register.follow_insert [where r = ?ci]) (use stored(1) in \<open>simp_all add: any_ci_def new_ci_def\<close>)
    moreover have "cmdb_ok ?w'" if "cmdb_ok w"
    proof -
      have "ci_refs_ok ?w' c = ci_refs_ok w c" for c using stored(1) by (simp add: ci_refs_ok_def cong: option.case_cong)
      moreover have "relation_ok ?w' r" if "relation_ok w r" for r using that stored(1) by (auto simp: relation_ok_def)
      moreover have "ci_code ?ci = cc_ciCode dto" by (simp add: new_ci_def)
      ultimately show ?thesis using that stored by (auto simp: cmdb_ok_def list_all_iff)
    qed
    ultimately show ?thesis by (simp add: cmdb_moves_def)
  qed
qed

lemma cmdb_rollback: "cmdb_moves w w' \<Longrightarrow> cmdb_moves w (rollback w w')"
  by (rule cmdb_same) (simp_all add: rollback_def cmdb_moves_def rows_follow_def)

lemma cmdb_transaction: "obeys cmdb_moves m \<Longrightarrow> obeys cmdb_moves (transaction m)"
  by (rule cmdb.obeys_transaction) (auto intro: cmdb_rollback)

lemma cmdb_insertCis: "obeys cmdb_moves (insertCis now items actor)"
proof (induction items)
  case Nil
  show ?case unfolding insertCis.simps by (rule cmdb.obeys_basic)
next
  case (Cons dto items)
  then show ?case unfolding insertCis.simps by (intro cmdb.obeys_rules cmdb_insertCi)
qed

lemma cmdb_audit: "obeys cmdb_moves (auditRecord n aa t k x b f c)" "obeys cmdb_moves freshId"
  by (auto simp: obeys_def auditRecord_def intro!: cmdb_same)

lemma cmdb_creates: "obeys cmdb_moves (bulkCreate now items actor)" "obeys cmdb_moves (ciCreate now dto actor)"
  unfolding bulkCreate_def ciCreate_def by (intro cmdb_transaction cmdb_insertCis cmdb_insertCi)+

lemma cmdb_createRack: "obeys cmdb_moves (createRack now dto actor)"
  unfolding createRack_def by (intro cmdb_transaction cmdb.obeys_rules cmdb_audit) (auto intro!: cmdb_same)

lemma patch_ci_id [simp]: "ci_id (patch_ci dto ci) = ci_id ci" "ci_code (patch_ci dto ci) = ci_code ci"
  by (simp_all add: patch_ci_def)

lemma ciFindOne_Inr: "ciFindOne i w = Inr c \<Longrightarrow> find_by ci_id i (cis w) = Some c"
  by (auto simp: ciFindOne_def split: option.splits)

lemma ciFindOneScoped_Inr: "ciFindOneScoped i u w = Inr c \<Longrightarrow> find_by ci_id i (cis w) = Some c \<and> canAccessSite w u (ci_siteId c)"
  by (auto simp: ciFindOneScoped_def assertSiteAccess_def dest: ciFindOne_Inr split: sum.splits if_splits)

lemma ciUpdate_cases:
  obtains (refused) e where "ciUpdate now i dto u actor w = (Inl e, w)"
    | (stored) before aud where "ciFindOneScoped i u w = Inr before" "ci_refs_ok w (patch_ci dto before)"
      "ciUpdate now i dto u actor w =
         (Inr (patch_ci dto before), w\<lparr>cis := update_by ci_id i (patch_ci dto) (cis w), audits := audits w @ [aud]\<rparr>)"
proof (cases "ciFindOneScoped i u w")
  case (Inl e)
  then show ?thesis by (intro refused) (simp add: ciUpdate_def)
next
  case (Inr before)
  show ?thesis
  proof (cases "ci_refs_ok w (patch_ci dto before)")
    case True
    then have "\<exists>aud. ciUpdate now i dto u actor w =
         (Inr (patch_ci dto before), w\<lparr>cis := update_by ci_id i (patch_ci dto) (cis w), audits := audits w @ [aud]\<rparr>)"
      using Inr by (simp add: ciUpdate_def Let_def transactionM_def bindM_def) (rule exI, rule refl)
    then show ?thesis using stored Inr True by blast
  next
    case False
    then show ?thesis using Inr
      by (intro refused) (simp add: ciUpdate_def Let_def transactionM_def bindM_def guardM_def throw_def rollback_def)
  qed
qed

lemma cmdb_update: "cmdb_moves w (snd (ciUpdate now i dto u actor w))"
proof (cases rule: ciUpdate_cases [of now i dto u actor w])
  case (refused e)
  then show ?thesis by (simp add: cmdb.R_refl)
next
  case (stored before aud)
  let ?w' = "snd (ciUpdate now i dto u actor w)"
  have w': "cis ?w' = update_by ci_id i (patch_ci dto) (cis w)" "env ?w' = env w" "uuid_next ?w' = uuid_next w"
    "sites ?w' = sites w" "racks ?w' = racks w" "ci_relations ?w' = ci_relations w" using stored(3) by simp_all
  have row: "find_by ci_id i (cis w) = Some before" using ciFindOneScoped_Inr [OF stored(1)] by simp
  have "cis_follow w ?w'"
    by (rule ci_register.follow_update [OF w'(2) _ w'(1)]) (auto simp: w'(3) ci_moves_def, simp_all add: patch_ci_def)
  moreover have "cmdb_ok ?w'" if "keys_ok cis ci_id w" "cmdb_ok w"
  proof -
    have ids: "distinct (map ci_id (cis w))" using that by (simp add: keys_ok_def)
    have "ci_refs_ok ?w' c = ci_refs_ok w c" for c by (simp add: ci_refs_ok_def w' cong: option.case_cong)
    moreover have "c = before" if "c \<in> set (cis w)" "ci_id c = i" for c
      using find_by_distinct [OF ids that(1)] that(2) row by simp
    ultimately have "list_all (ci_refs_ok ?w') (cis ?w')"
      using that stored(2) by (auto simp: w'(1) cmdb_ok_def list_all_iff in_set_update_by)
    moreover have keys: "map ci_code (cis ?w') = map ci_code (cis w)" "map ci_id (cis ?w') = map ci_id (cis w)"
      by (simp_all add: w'(1) map_key_update_by)
    moreover have "relation_ok ?w' r" if "relation_ok w r" for r
      using that arg_cong [OF keys(2), of set] by (simp add: relation_ok_def)
    ultimately show ?thesis using that by (auto simp: cmdb_ok_def w'(6) list_all_iff)
  qed
  ultimately show ?thesis by (simp add: cmdb_moves_def)
qed

lemma createRelation_cases:
  obtains (refused) "cis (snd (createRelation now k dto actor u w)) = cis w" "ci_relations (snd (createRelation now k dto actor u w)) = ci_relations w"
      "env (snd (createRelation now k dto actor u w)) = env w" "uuid_next w \<le> uuid_next (snd (createRelation now k dto actor u w))"
      "sites (snd (createRelation now k dto actor u w)) = sites w" "racks (snd (createRelation now k dto actor u w)) = racks w"
    | (stored) r aud where "r = new_relation (env_uuid (env w) (uuid_next w)) k dto" "relation_key r \<notin> relation_key ` set (ci_relations w)"
      "relation_ok w r" "createRelation now k dto actor u w =
         (Inr r, w\<lparr>uuid_next := Suc (uuid_next w), ci_relations := ci_relations w @ [r], audits := audits w @ [aud]\<rparr>)"
proof (cases "rd_relatedCiId dto = k \<or> (\<exists>e. ciFindOneScoped k u w = Inl e) \<or> (\<exists>e. ciFindOne (rd_relatedCiId dto) w = Inl e)")
  case True
  then have "snd (createRelation now k dto actor u w) = w"
    by (cases "ciFindOneScoped k u w"; cases "ciFindOne (rd_relatedCiId dto) w") (auto simp: createRelation_def)
  then show ?thesis by (intro refused) simp_all
next
  case False
  let ?r = "new_relation (env_uuid (env w) (uuid_next w)) k dto"
  obtain a b where ab: "ciFindOneScoped k u w = Inr a" "ciFindOne (rd_relatedCiId dto) w = Inr b" "rd_relatedCiId dto \<noteq> k"
    using False by (metis sum.exhaust)
  then have run: "createRelation now k dto actor u w = insertRelation now k dto actor w" by (simp add: createRelation_def)
  have "k \<in> ci_id ` set (cis w)" "rd_relatedCiId dto \<in> ci_id ` set (cis w)"
    using ciFindOneScoped_Inr [OF ab(1)] ciFindOne_Inr [OF ab(2)] find_by_SomeD by (force simp: image_iff)+
  then have ok: "relation_ok w ?r" using ab(3) by (auto simp: relation_ok_def new_relation_def)
  show ?thesis
  proof (cases "relation_key ?r \<in> relation_key ` set (ci_relations w)")
    case True
    then show ?thesis
      by (intro refused) (simp_all add: run insertRelation_def Let_def transactionM_def rollback_def)
  next
    case False
    then have "\<exists>aud. insertRelation now k dto actor w =
        (Inr ?r, w\<lparr>uuid_next := Suc (uuid_next w), ci_relations := ci_relations w @ [?r], audits := audits w @ [aud]\<rparr>)"
      by (simp add: insertRelation_def Let_def transactionM_def bindM_def) (rule exI, rule refl)
    then show ?thesis using stored [OF refl False ok] run by auto
  qed
qed

lemma cmdb_relation: "cmdb_moves w (snd (createRelation now k dto actor u w))"
proof (cases rule: createRelation_cases [of now k dto actor u w])
  case refused
  then show ?thesis by (intro cmdb_same) simp_all
next
  case (stored r aud)
  let ?w' = "snd (createRelation now k dto actor u w)"
  have "cis_follow w ?w'" by (rule ci_register.follow_same) (use stored(4) in simp_all)
  moreover have "cmdb_ok ?w'" if "cmdb_ok w"
  proof -
    have "ci_refs_ok ?w' c = ci_refs_ok w c" "relation_ok ?w' x = relation_ok w x" for c x
      using stored(4) by (simp_all add: ci_refs_ok_def relation_ok_def cong: option.case_cong)
    then show ?thesis using that stored by (simp add: cmdb_ok_def list_all_iff)
  qed
  ultimately show ?thesis by (simp add: cmdb_moves_def)
qed

inductive cmdb_step :: "world \<Rightarrow> world \<Rightarrow> bool" where
  cs_create: "cmdb_step w (snd (ciCreate now dto actor w))"
| cs_bulk: "cmdb_step w (snd (bulkCreate now items actor w))"
| cs_update: "cmdb_step w (snd (ciUpdate now i udto u actor w))"
| cs_rack: "cmdb_step w (snd (createRack now rdto actor w))"
| cs_relation: "cmdb_step w (snd (createRelation now i ldto actor u w))"
| cs_elsewhere: "env w' = env w \<Longrightarrow> uuid_next w \<le> uuid_next w' \<Longrightarrow> cis w' = cis w \<Longrightarrow> ci_relations w' = ci_relations w \<Longrightarrow>
    s_id ` set (sites w) \<subseteq> s_id ` set (sites w') \<Longrightarrow> rak_id ` set (racks w) \<subseteq> rak_id ` set (racks w') \<Longrightarrow> cmdb_step w w'"

lemma cmdb_step_moves: "cmdb_step w w' \<Longrightarrow> cmdb_moves w w'"
  by (induction rule: cmdb_step.induct)
    (auto intro: obeysD [OF cmdb_creates(1)] obeysD [OF cmdb_creates(2)] obeysD [OF cmdb_createRack] cmdb_update cmdb_relation cmdb_same)

lemma cmdb_run: "cmdb_step\<^sup>*\<^sup>* w w' \<Longrightarrow> cmdb_moves w w'"
  by (induction rule: rtranclp_induct) (auto intro: cmdb.R_refl cmdb.R_trans cmdb_step_moves)

section \<open>The properties\<close>

text \<open>
  C27: Through any sequence of requests a device keeps its code, site and type, codes stay unique, every device's site and rack exist, and
  every relation is between two different existing devices and recorded once.
\<close>

theorem cmdb_sound:
  assumes "cmdb_step\<^sup>*\<^sup>* w w'" "keys_ok cis ci_id w" "cmdb_ok w" "find_by ci_id i (cis w) = Some a"
  shows "(\<exists>b. find_by ci_id i (cis w') = Some b \<and> ci_code b = ci_code a \<and> ci_siteId b = ci_siteId a \<and> ci_ciType b = ci_ciType a) \<and>
    distinct (map ci_code (cis w')) \<and> list_all (ci_refs_ok w') (cis w') \<and>
    distinct (map relation_key (ci_relations w')) \<and>
    list_all (\<lambda>r. cir_parentCiId r \<noteq> cir_childCiId r \<and> {cir_parentCiId r, cir_childCiId r} \<subseteq> ci_id ` set (cis w')) (ci_relations w')"
proof -
  note moves = cmdb_run [OF assms(1), unfolded cmdb_moves_def]
  obtain b where "find_by ci_id i (cis w') = Some b" "ci_moves a b"
    using ci_register.follow_row [of w w' i a] moves assms(2,4) by blast
  moreover have "cmdb_ok w'" using moves assms(2,3) by blast
  ultimately show ?thesis unfolding cmdb_ok_def relation_ok_def [abs_def] ci_moves_def by blast
qed

definition sample_site :: site where
  "sample_site = \<lparr>s_id = ''s1'', s_code = ''BLR'', s_name = ''Bangalore'', s_timezone = ''UTC'', s_is247 = True, s_status = ''ACTIVE''\<rparr>"

definition server_dto :: "string \<Rightarrow> create_ci_dto" where
  "server_dto code = \<lparr>cc_ciCode = code, cc_siteId = ''s1'', cc_rackId = None, cc_ciType = CT_SERVER, cc_name = ''srv'', cc_manufacturer = None,
     cc_model = None, cc_serialOrServiceTag = None, cc_managementAddress = Some ''10.0.0.9'', cc_ownerGroupId = None, cc_managedBy = MB_CTS,
     cc_criticality = CR_HIGH, cc_lifecycleStatus = None\<rparr>"

definition cmdb_world :: world where
  "cmdb_world = empty_world\<lparr>uuid_next := 1, sites := [sample_site], cis := [new_ci ''0'' (server_dto ''SRV-0'')]\<rparr>"

lemma cmdb_world_ok:
  "keys_ok cis ci_id cmdb_world" "cmdb_ok cmdb_world" "find_by ci_id ''0'' (cis cmdb_world) = Some (new_ci ''0'' (server_dto ''SRV-0''))"
  by (auto simp: cmdb_world_def empty_world_def keys_ok_def issued_def nat_str_zero cmdb_ok_def ci_refs_ok_def new_ci_def server_dto_def
      sample_site_def intro: injI nat_str_inj)

theorem cmdb_sound_witness:
  "distinct (map ci_code (cis (snd (bulkCreate 5 [server_dto ''SRV-1'', server_dto ''SRV-2''] sample_actor cmdb_world)))) \<and>
   (\<exists>b. find_by ci_id ''0'' (cis (snd (bulkCreate 5 [server_dto ''SRV-1'', server_dto ''SRV-2''] sample_actor cmdb_world))) = Some b \<and>
     ci_code b = ''SRV-0'')"
proof -
  have step: "cmdb_step\<^sup>*\<^sup>* cmdb_world (snd (bulkCreate 5 [server_dto ''SRV-1'', server_dto ''SRV-2''] sample_actor cmdb_world))"
    by (rule r_into_rtranclp, rule cs_bulk)
  have code: "ci_code (new_ci ''0'' (server_dto ''SRV-0'')) = ''SRV-0''" by (simp add: new_ci_def server_dto_def)
  show ?thesis using cmdb_sound [OF step cmdb_world_ok] unfolding code by blast
qed

lemma insertCis_Inr:
  "insertCis now items actor w = (Inr created, w') \<Longrightarrow>
     cis w' = cis w @ created \<and> map ci_code created = map cc_ciCode items \<and> length (audits w') = length (audits w) + length items \<and>
     distinct (map cc_ciCode items) \<and> set (map cc_ciCode items) \<inter> ci_code ` set (cis w) = {}"
proof (induction items arbitrary: w created)
  case (Cons dto items)
  let ?ci = "new_ci (env_uuid (env w) (uuid_next w)) dto"
  show ?case
  proof (cases rule: insertCi_cases [of now dto actor w])
    case (refused e)
    then show ?thesis using Cons.prems by (simp add: bindM_def)
  next
    case (stored aud)
    then obtain rest where rest: "insertCis now items actor (w\<lparr>uuid_next := Suc (uuid_next w), cis := cis w @ [?ci], audits := audits w @ [aud]\<rparr>) = (Inr rest, w')"
      "created = ?ci # rest"
      using Cons.prems by (auto simp: bindM_def split: prod.splits sum.splits)
    have "ci_code ?ci = cc_ciCode dto" by (simp add: new_ci_def)
    with Cons.IH [OF rest(1)] rest(2) stored(2) show ?thesis by auto
  qed
qed simp

text \<open>
  A bulk import is all or nothing: it stores one new device per item, in order, each with its audit record, or it fails and leaves the
  devices, the other tables and the audit trail as they were.
\<close>

theorem bulk_import_all_or_nothing:
  "case bulkCreate now items actor w of
     (Inr created, w') \<Rightarrow> cis w' = cis w @ created \<and> map ci_code created = map cc_ciCode items \<and>
        length (audits w') = length (audits w) + length items \<and> distinct (map cc_ciCode items)
   | (Inl e, w') \<Rightarrow> (\<exists>w1. w' = rollback w w1) \<and> cis w' = cis w \<and> audits w' = audits w \<and> sites w' = sites w"
proof (cases "insertCis now items actor w")
  case (Pair r w1)
  then show ?thesis
    using insertCis_Inr [of now items actor w] by (cases r) (auto simp: bulkCreate_def transactionM_def rollback_def)
qed

text \<open>
  C28: A customer never reads a management address from the device routes, and anyone reads and edits only devices of
  sites they may access.
\<close>

theorem management_address_hidden:
  "(au_role u = CLIENT_MANAGER_VIEWER \<longrightarrow> list_all (\<lambda>c. ci_managementAddress c = None) (pg_items (getCis q u w)) \<and>
      (\<forall>c. getCi i u w = Inr c \<longrightarrow> ci_managementAddress c = None)) \<and>
   list_all (\<lambda>c. canAccessSite w u (ci_siteId c)) (pg_items (getCis q u w)) \<and>
   (\<forall>c. getCi i u w = Inr c \<longrightarrow> canAccessSite w u (ci_siteId c)) \<and>
   (\<forall>after w'. ciUpdate now i dto u actor w = (Inr after, w') \<longrightarrow> canAccessSite w u (ci_siteId after))"
proof -
  have listed: "c \<in> set (pg_items (cisFindAll q (getAccessibleSiteIds w u) w)) \<Longrightarrow> canAccessSite w u (ci_siteId c)" for c
    by (auto simp: cisFindAll_def Let_def ci_where_def ci_siteFilter_def canAccessSite_def dest!: in_set_takeD in_set_dropD
        split: option.splits if_splits)
  have site: "ci_siteId (redactManagementAddress c r) = ci_siteId c" for c r by (simp add: redactManagementAddress_def)
  have edited: "canAccessSite w u (ci_siteId after)" if "ciUpdate now i dto u actor w = (Inr after, w')" for after w'
  proof (cases rule: ciUpdate_cases [of now i dto u actor w])
    case (stored before aud)
    then show ?thesis using that ciFindOneScoped_Inr [OF stored(1)] by (simp add: patch_ci_def)
  qed (use that in simp)
  have one: "canAccessSite w u (ci_siteId c)" if "getCi i u w = Inr c" for c
    using that ciFindOneScoped_Inr by (cases "ciFindOneScoped i u w") (auto simp: getCi_def site)
  have "list_all (\<lambda>c. canAccessSite w u (ci_siteId c)) (pg_items (getCis q u w))"
    using listed by (auto simp: getCis_def Let_def list_all_iff site)
  moreover have "list_all (\<lambda>c. ci_managementAddress c = None) (pg_items (getCis q u w)) \<and>
      (\<forall>c. getCi i u w = Inr c \<longrightarrow> ci_managementAddress c = None)" if "au_role u = CLIENT_MANAGER_VIEWER"
    using that by (auto simp: getCis_def getCi_def Let_def list_all_iff redactManagementAddress_def map_sum_def split: sum.splits)
  ultimately show ?thesis using one edited by blast
qed

definition customer :: auth_user where
  "customer = \<lparr>au_id = ''u9'', au_email = ''c@x'', au_role = CLIENT_MANAGER_VIEWER\<rparr>"

definition customer_world :: world where
  "customer_world = cmdb_world\<lparr>site_accesses := [\<lparr>sa_userId = ''u9'', sa_siteId = ''s1''\<rparr>]\<rparr>"

theorem management_address_hidden_witness:
  "\<exists>c. getCi ''0'' customer customer_world = Inr c \<and> ci_code c = ''SRV-0'' \<and> ci_managementAddress c = None"
proof -
  have "map_sum id ci_code (getCi ''0'' customer customer_world) = Inr ''SRV-0''" by code_simp
  then obtain c where "getCi ''0'' customer customer_world = Inr c" "ci_code c = ''SRV-0''"
    by (cases "getCi ''0'' customer customer_world") auto
  moreover have "au_role customer = CLIENT_MANAGER_VIEWER" by (simp add: customer_def)
  ultimately show ?thesis using management_address_hidden by blast
qed

text \<open>Nothing ties a device's rack to its site: a device may stand in a rack of another site.\<close>

definition foreign_rack :: rack where
  "foreign_rack = \<lparr>rak_id = ''r1'', rak_siteId = ''s2'', rak_rackCode = ''R1'', rak_name = None, rak_location = None\<rparr>"

theorem rack_of_another_site:
  "map_sum id (\<lambda>c. (ci_siteId c, ci_rackId c))
     (fst (ciCreate 5 ((server_dto ''SRV-1'')\<lparr>cc_rackId := Some ''r1''\<rparr>) sample_actor (cmdb_world\<lparr>racks := [foreign_rack]\<rparr>))) =
   Inr (''s1'', Some ''r1'') \<and> rak_siteId foreign_rack = ''s2''"
  by code_simp

end
