(* ===== verification/Worklogs.thy ===== *)
theory Worklogs
  imports Registers Incident_Props
begin

text \<open>
  Work logs (\<^verbatim>\<open>worklogs/worklogs.service.ts\<close>): time booked on a ticket, with a duration that the server derives,
  and corrections that leave evidence of what was changed and why.
\<close>

section \<open>The code\<close>

text \<open>\<open>Math.round(ms / 60000)\<close> rounds a half up.\<close>

definition computeDurationMinutes :: "instant \<Rightarrow> instant option \<Rightarrow> http_error + int option" where
  "computeDurationMinutes startedAt endedAt =
     (case endedAt of
        None \<Rightarrow> Inr None
      | Some e \<Rightarrow>
          if e - startedAt < 0 then Inl (BadRequest ''endedAt must not be before startedAt'')
          else Inr (Some ((e - startedAt + 30000) div 60000)))"

definition findWorklogScoped :: "uuid \<Rightarrow> auth_user \<Rightarrow> world \<Rightarrow> http_error + worklog" where
  "findWorklogScoped i u w =
     (case find_by wl_id i (worklogs w) of
        None \<Rightarrow> Inl (NotFound (''Worklog '' @ i @ '' not found''))
      | Some l \<Rightarrow> (case findOneScoped (wl_incidentId l) u w of Inl e \<Rightarrow> Inl e | Inr _ \<Rightarrow> Inr l))"

definition listByIncident :: "uuid \<Rightarrow> auth_user \<Rightarrow> world \<Rightarrow> http_error + worklog list" where
  "listByIncident incidentId u w =
     (case findOneScoped incidentId u w of
        Inl e \<Rightarrow> Inl e
      | Inr _ \<Rightarrow> Inr (sort_key wl_startedAt (filter (\<lambda>l. wl_incidentId l = incidentId) (worklogs w))))"

record create_worklog_dto =
  cw_activityType :: worklog_activity
  cw_startedAt :: instant
  cw_endedAt :: "instant option"
  cw_notes :: "string option"
  cw_billable :: "bool option"

text \<open>\<open>null\<close> passes the validation of every optional field, so a correction may carry it.\<close>

record correct_worklog_dto =
  kw_activityType :: "worklog_activity patch"
  kw_startedAt :: "instant patch"
  kw_endedAt :: "instant patch"
  kw_notes :: "string patch"
  kw_billable :: "bool patch"
  kw_editReason :: string

definition new_worklog :: "uuid \<Rightarrow> uuid \<Rightarrow> create_worklog_dto \<Rightarrow> int option \<Rightarrow> actor_context \<Rightarrow> worklog" where
  "new_worklog i incidentId dto durationMinutes actor = \<lparr>wl_id = i, wl_incidentId = incidentId, wl_engineerId = actorId actor,
     wl_activityType = cw_activityType dto, wl_startedAt = cw_startedAt dto, wl_endedAt = cw_endedAt dto,
     wl_durationMinutes = durationMinutes, wl_billable = cw_billable dto, wl_notes = cw_notes dto, wl_editReason = None\<rparr>"

definition insertWorklog :: "instant \<Rightarrow> uuid \<Rightarrow> create_worklog_dto \<Rightarrow> int option \<Rightarrow> actor_context \<Rightarrow> worklog op" where
  "insertWorklog now incidentId dto durationMinutes actor = transaction
     (bindM freshId (\<lambda>i.
      let l = new_worklog i incidentId dto durationMinutes actor in
      bindM (modifyM (\<lambda>w. w\<lparr>worklogs := worklogs w @ [l]\<rparr>)) (\<lambda>_.
      bindM (add_event now incidentId (Some (actorId actor)) (WORKLOG_CREATE i (wl_activityType l) (wl_durationMinutes l))) (\<lambda>_.
      bindM (auditRecord now (Some (actorId actor)) ''Worklog'' i ''CREATE'' None (Some (SnapWorklog l)) (correlationId actor)) (\<lambda>_.
      ret l)))))"

definition worklogCreate :: "instant \<Rightarrow> uuid \<Rightarrow> create_worklog_dto \<Rightarrow> actor_context \<Rightarrow> auth_user \<Rightarrow> worklog op" where
  "worklogCreate now incidentId dto actor u =
     bindM (readM (findOneScoped incidentId u)) (\<lambda>_.
     bindM (readM (\<lambda>_. computeDurationMinutes (cw_startedAt dto) (cw_endedAt dto))) (\<lambda>durationMinutes.
     insertWorklog now incidentId dto durationMinutes actor))"

definition patch_worklog :: "correct_worklog_dto \<Rightarrow> int option \<Rightarrow> worklog \<Rightarrow> worklog" where
  "patch_worklog dto durationMinutes l = l\<lparr>
     wl_activityType := option_default (wl_activityType l) (given (kw_activityType dto)),
     wl_startedAt := option_default (wl_startedAt l) (given (kw_startedAt dto)),
     wl_endedAt := patched (kw_endedAt dto) (wl_endedAt l), wl_durationMinutes := durationMinutes,
     wl_notes := patched (kw_notes dto) (wl_notes l), wl_billable := patched (kw_billable dto) (wl_billable l),
     wl_editReason := Some (kw_editReason dto)\<rparr>"

text \<open>The update fails when a column that cannot be null is set to \<open>null\<close>.\<close>

definition storeCorrection :: "instant \<Rightarrow> uuid \<Rightarrow> correct_worklog_dto \<Rightarrow> int option \<Rightarrow> worklog \<Rightarrow> actor_context \<Rightarrow> worklog op" where
  "storeCorrection now i dto durationMinutes before actor = transaction
     (let after = patch_worklog dto durationMinutes before in
      bindM (guardM (kw_activityType dto \<noteq> Some None \<and> kw_startedAt dto \<noteq> Some None) (Internal ''PrismaClientValidationError'')) (\<lambda>_.
      bindM (modifyM (\<lambda>w. w\<lparr>worklogs := update_by wl_id i (patch_worklog dto durationMinutes) (worklogs w)\<rparr>)) (\<lambda>_.
      bindM (add_event now (wl_incidentId before) (Some (actorId actor)) (WORKLOG_CORRECTION i (kw_editReason dto))) (\<lambda>_.
      bindM (auditRecord now (Some (actorId actor)) ''Worklog'' i ''CORRECT'' (Some (SnapWorklog before)) (Some (SnapWorklog after))
               (correlationId actor)) (\<lambda>_.
      ret after)))))"

definition worklogCorrect :: "instant \<Rightarrow> uuid \<Rightarrow> correct_worklog_dto \<Rightarrow> actor_context \<Rightarrow> auth_user \<Rightarrow> worklog op" where
  "worklogCorrect now i dto actor u =
     bindM (readM (findWorklogScoped i u)) (\<lambda>before.
     bindM (guardM (wl_engineerId before = actorId actor \<or> au_role u \<in> set ELEVATED_ROLES)
       (Forbidden ''Only the engineer who logged this worklog, or an elevated role, can correct it'')) (\<lambda>_.
     bindM (readM (\<lambda>_. computeDurationMinutes (option_default (wl_startedAt before) (given (kw_startedAt dto)))
                        (coalesce (kw_endedAt dto) (wl_endedAt before)))) (\<lambda>durationMinutes.
     storeCorrection now i dto durationMinutes before actor)))"

section \<open>The register\<close>

definition worklog_ok :: "worklog \<Rightarrow> bool" where
  "worklog_ok l \<longleftrightarrow> computeDurationMinutes (wl_startedAt l) (wl_endedAt l) = Inr (wl_durationMinutes l)"

definition worklog_moves :: "worklog \<Rightarrow> worklog \<Rightarrow> bool" where
  "worklog_moves a b \<longleftrightarrow> wl_incidentId b = wl_incidentId a \<and> wl_engineerId b = wl_engineerId a \<and>
     (b = a \<or> wl_editReason b \<noteq> None) \<and> (worklog_ok a \<longrightarrow> worklog_ok b)"

interpretation worklog_register: register worklogs wl_id worklog_ok worklog_moves
  by unfold_locales (auto simp: worklog_moves_def rollback_def)

abbreviation worklogs_follow :: "world \<Rightarrow> world \<Rightarrow> bool" where
  "worklogs_follow \<equiv> rows_follow worklogs wl_id worklog_ok worklog_moves"

lemma insertWorklog_eval:
  "\<exists>ev aud. insertWorklog now k dto d actor w =
     (Inr (new_worklog (env_uuid (env w) (uuid_next w)) k dto d actor),
      w\<lparr>uuid_next := Suc (Suc (uuid_next w)), worklogs := worklogs w @ [new_worklog (env_uuid (env w) (uuid_next w)) k dto d actor],
        events := events w @ [ev], audits := audits w @ [aud]\<rparr>)"
  by (intro exI [of _ "last (events (snd (insertWorklog now k dto d actor w)))"] exI [of _ "last (audits (snd (insertWorklog now k dto d actor w)))"])
    (simp add: insertWorklog_def Let_def add_event_def auditRecord_def transactionM_def bindM_def)

lemma follow_worklogCreate: "worklogs_follow w (snd (worklogCreate now k dto actor u w))"
proof (cases "findOneScoped k u w")
  case (Inr inc)
  show ?thesis
  proof (cases "computeDurationMinutes (cw_startedAt dto) (cw_endedAt dto)")
    case (Inr d)
    obtain ev aud where run: "insertWorklog now k dto d actor w =
       (Inr (new_worklog (env_uuid (env w) (uuid_next w)) k dto d actor),
        w\<lparr>uuid_next := Suc (Suc (uuid_next w)), worklogs := worklogs w @ [new_worklog (env_uuid (env w) (uuid_next w)) k dto d actor],
          events := events w @ [ev], audits := audits w @ [aud]\<rparr>)"
      using insertWorklog_eval by blast
    have "worklog_ok (new_worklog i k dto d actor)" for i using Inr by (simp add: worklog_ok_def new_worklog_def)
    then show ?thesis
      by (intro worklog_register.follow_insert [where r = "new_worklog (env_uuid (env w) (uuid_next w)) k dto d actor"])
        (use \<open>findOneScoped k u w = _\<close> Inr run in \<open>simp_all add: worklogCreate_def\<close>, simp add: new_worklog_def)
  qed (simp add: worklogCreate_def Inr worklog_register.follow_refl)
qed (simp add: worklogCreate_def worklog_register.follow_refl)

text \<open>A correction: refused without a trace, or stored with an entry in the timeline and the audit trail.\<close>

lemma worklogCorrect_cases:
  obtains (refused) e where "fst (worklogCorrect now i dto actor u w) = Inl e" "worklogs (snd (worklogCorrect now i dto actor u w)) = worklogs w"
      "env (snd (worklogCorrect now i dto actor u w)) = env w" "uuid_next w \<le> uuid_next (snd (worklogCorrect now i dto actor u w))"
      "events (snd (worklogCorrect now i dto actor u w)) = events w" "audits (snd (worklogCorrect now i dto actor u w)) = audits w"
    | (stored) before d ev aud where "find_by wl_id i (worklogs w) = Some before" "findWorklogScoped i u w = Inr before"
      "wl_engineerId before = actorId actor \<or> au_role u \<in> set ELEVATED_ROLES"
      "computeDurationMinutes (option_default (wl_startedAt before) (given (kw_startedAt dto))) (coalesce (kw_endedAt dto) (wl_endedAt before)) = Inr d"
      "worklogCorrect now i dto actor u w = (Inr (patch_worklog dto d before),
         w\<lparr>uuid_next := Suc (uuid_next w), worklogs := update_by wl_id i (patch_worklog dto d) (worklogs w),
           events := events w @ [ev], audits := audits w @ [aud]\<rparr>)"
      "ae_before aud = Some (SnapWorklog before)" "ae_after aud = Some (SnapWorklog (patch_worklog dto d before))"
      "ae_actorId aud = Some (actorId actor)" "e_body ev = WORKLOG_CORRECTION i (kw_editReason dto)"
proof (cases "findWorklogScoped i u w")
  case (Inl e)
  then show ?thesis by (intro refused) (simp_all add: worklogCorrect_def)
next
  case (Inr before)
  let ?allowed = "wl_engineerId before = actorId actor \<or> au_role u \<in> set ELEVATED_ROLES"
  let ?d = "computeDurationMinutes (option_default (wl_startedAt before) (given (kw_startedAt dto))) (coalesce (kw_endedAt dto) (wl_endedAt before))"
  let ?valid = "kw_activityType dto \<noteq> Some None \<and> kw_startedAt dto \<noteq> Some None"
  have row: "find_by wl_id i (worklogs w) = Some before"
    using Inr by (auto simp: findWorklogScoped_def split: option.splits sum.splits)
  show ?thesis
  proof (cases "?allowed \<and> (\<exists>d. ?d = Inr d) \<and> ?valid")
    case True
    then obtain d where d: "?d = Inr d" by blast
    have run: "worklogCorrect now i dto actor u w = storeCorrection now i dto d before actor w"
      using Inr d True by (simp add: worklogCorrect_def)
    have "\<exists>ev aud. storeCorrection now i dto d before actor w = (Inr (patch_worklog dto d before),
         w\<lparr>uuid_next := Suc (uuid_next w), worklogs := update_by wl_id i (patch_worklog dto d) (worklogs w),
           events := events w @ [ev], audits := audits w @ [aud]\<rparr>) \<and> ae_before aud = Some (SnapWorklog before) \<and>
         ae_after aud = Some (SnapWorklog (patch_worklog dto d before)) \<and> ae_actorId aud = Some (actorId actor) \<and>
         e_body ev = WORKLOG_CORRECTION i (kw_editReason dto)"
      using True
      by (intro exI [of _ "last (events (snd (storeCorrection now i dto d before actor w)))"]
            exI [of _ "last (audits (snd (storeCorrection now i dto d before actor w)))"])
        (simp add: storeCorrection_def Let_def add_event_def auditRecord_def transactionM_def bindM_def)
    then show ?thesis using stored [OF row Inr _ d] True run by auto
  next
    case False
    then have "\<exists>e. fst (worklogCorrect now i dto actor u w) = Inl e \<and>
       (snd (worklogCorrect now i dto actor u w) = w \<or> snd (worklogCorrect now i dto actor u w) = rollback w w)"
      using Inr by (cases ?d) (auto simp: worklogCorrect_def storeCorrection_def Let_def transactionM_def)
    then show ?thesis by (elim exE conjE) (rule refused; auto simp: rollback_def)
  qed
qed

text \<open>The corrections that do not set the end to \<open>null\<close> keep the duration true.\<close>

lemma patched_worklog_moves:
  assumes "kw_endedAt dto \<noteq> Some None"
    "computeDurationMinutes (option_default (wl_startedAt l) (given (kw_startedAt dto))) (coalesce (kw_endedAt dto) (wl_endedAt l)) = Inr d"
  shows "wl_id (patch_worklog dto d l) = wl_id l \<and> worklog_moves l (patch_worklog dto d l)"
proof -
  have "coalesce (kw_endedAt dto) (wl_endedAt l) = patched (kw_endedAt dto) (wl_endedAt l)"
    using assms(1) by (cases "kw_endedAt dto") auto
  then have "worklog_ok (patch_worklog dto d l)" using assms(2) by (simp add: worklog_ok_def patch_worklog_def)
  then show ?thesis by (simp add: worklog_moves_def) (simp add: patch_worklog_def)
qed

lemma follow_worklogCorrect:
  assumes "kw_endedAt dto \<noteq> Some None"
  shows "worklogs_follow w (snd (worklogCorrect now i dto actor u w))"
proof (cases rule: worklogCorrect_cases [of now i dto actor u w])
  case (refused e)
  then show ?thesis by (intro worklog_register.follow_same)
next
  case (stored before d ev aud)
  show ?thesis
    by (rule worklog_register.follow_update [where k = i and f = "patch_worklog dto d"])
      (use stored(1,4,5) patched_worklog_moves [OF assms] in simp_all)
qed

inductive worklog_step :: "world \<Rightarrow> world \<Rightarrow> bool" where
  ws_create: "worklog_step w (snd (worklogCreate now k dto actor u w))"
| ws_correct: "kw_endedAt cdto \<noteq> Some None \<Longrightarrow> worklog_step w (snd (worklogCorrect now i cdto actor u w))"
| ws_elsewhere: "env w' = env w \<Longrightarrow> uuid_next w \<le> uuid_next w' \<Longrightarrow> worklogs w' = worklogs w \<Longrightarrow> worklog_step w w'"

lemma worklog_step_follow: "worklog_step w w' \<Longrightarrow> worklogs_follow w w'"
  by (induction rule: worklog_step.induct)
    (auto intro: follow_worklogCreate follow_worklogCorrect worklog_register.follow_same)

lemma worklog_run: "worklog_step\<^sup>*\<^sup>* w w' \<Longrightarrow> worklogs_follow w w'"
  using worklog_step_follow by (rule worklog_register.run_follow)

section \<open>The properties\<close>

text \<open>
  Through any sequence of bookings and corrections (none of which sets the end to \<open>null\<close>) a work log keeps its ticket and its engineer, has its
  duration derived from its two ends, to the nearest minute and never negative, and carries a reason once it was changed.
\<close>

theorem worklog_durations_sound:
  assumes "worklog_step\<^sup>*\<^sup>* w w'" "register_inv worklogs wl_id worklog_ok w" "find_by wl_id i (worklogs w) = Some a"
  shows "\<exists>b. find_by wl_id i (worklogs w') = Some b \<and> wl_incidentId b = wl_incidentId a \<and> wl_engineerId b = wl_engineerId a \<and>
     (b = a \<or> wl_editReason b \<noteq> None) \<and>
     (case wl_endedAt b of
        None \<Rightarrow> wl_durationMinutes b = None
      | Some e \<Rightarrow> (\<exists>d. wl_durationMinutes b = Some d \<and> 0 \<le> d \<and> \<bar>2 * (60000 * d - (e - wl_startedAt b))\<bar> \<le> 60000))"
proof -
  obtain b where b: "find_by wl_id i (worklogs w') = Some b" "worklog_moves a b"
    using worklog_register.follow_row [OF worklog_run [OF assms(1)] _ assms(3)] assms(2) by (auto simp: register_inv_def)
  have "worklog_ok a" using find_by_SomeD [OF assms(3)] assms(2) by (auto simp: register_inv_def list_all_iff)
  then have ok: "worklog_ok b" using b(2) by (simp add: worklog_moves_def)
  have near: "(x + 30000) div 60000 \<ge> 0 \<and> \<bar>2 * (60000 * ((x + 30000) div 60000) - x)\<bar> \<le> 60000" if "0 \<le> x" for x :: int
    using that div_mult_mod_eq [of "x + 30000" 60000] pos_mod_bound [of 60000 "x + 30000"] pos_mod_sign [of 60000 "x + 30000"]
    by (auto simp: pos_imp_zdiv_nonneg_iff)
  have "case wl_endedAt b of
        None \<Rightarrow> wl_durationMinutes b = None
      | Some e \<Rightarrow> (\<exists>d. wl_durationMinutes b = Some d \<and> 0 \<le> d \<and> \<bar>2 * (60000 * d - (e - wl_startedAt b))\<bar> \<le> 60000)"
  proof (cases "wl_endedAt b")
    case (Some e)
    then have "0 \<le> e - wl_startedAt b" "wl_durationMinutes b = Some ((e - wl_startedAt b + 30000) div 60000)"
      using ok by (auto simp: worklog_ok_def computeDurationMinutes_def split: if_splits)
    then show ?thesis using near [of "e - wl_startedAt b"] Some by simp
  qed (use ok in \<open>simp add: worklog_ok_def computeDurationMinutes_def\<close>)
  then show ?thesis using b by (auto simp: worklog_moves_def)
qed

definition booked :: worklog where
  "booked = \<lparr>wl_id = ''0'', wl_incidentId = ''i'', wl_engineerId = ''u1'', wl_activityType = WL_ONSITE, wl_startedAt = 0, wl_endedAt = Some 90000,
     wl_durationMinutes = Some 2, wl_billable = None, wl_notes = None, wl_editReason = None\<rparr>"

definition ops_manager :: auth_user where
  "ops_manager = \<lparr>au_id = ''u1'', au_email = ''e@x'', au_role = DELIVERY_OPS_MANAGER\<rparr>"

definition worklog_world :: world where
  "worklog_world = empty_world\<lparr>uuid_next := 1, worklogs := [booked], incidents := [ticket\<lparr>i_id := ''i''\<rparr>]\<rparr>"

definition fix_start :: correct_worklog_dto where
  "fix_start = \<lparr>kw_activityType = None, kw_startedAt = Some (Some 30000), kw_endedAt = None, kw_notes = None, kw_billable = None,
     kw_editReason = ''typo''\<rparr>"

lemma worklog_world_inv: "register_inv worklogs wl_id worklog_ok worklog_world" "find_by wl_id ''0'' (worklogs worklog_world) = Some booked"
  by (auto simp: register_inv_def keys_ok_def issued_def worklog_world_def empty_world_def booked_def worklog_ok_def computeDurationMinutes_def
      nat_str_zero intro: injI nat_str_inj)

theorem worklog_durations_sound_witness:
  "\<exists>b. find_by wl_id ''0'' (worklogs (snd (worklogCorrect 5 ''0'' fix_start \<lparr>actorId = ''u1'', correlationId = None\<rparr> ops_manager worklog_world))) = Some b \<and>
     wl_engineerId b = ''u1'' \<and> wl_incidentId b = ''i''"
proof -
  have "worklog_step\<^sup>*\<^sup>* worklog_world (snd (worklogCorrect 5 ''0'' fix_start \<lparr>actorId = ''u1'', correlationId = None\<rparr> ops_manager worklog_world))"
    by (rule r_into_rtranclp, rule ws_correct) (simp add: fix_start_def)
  from worklog_durations_sound [OF this worklog_world_inv] show ?thesis by (auto simp: booked_def)
qed

text \<open>
  A correction is only made by the engineer who booked the time or by an elevated role on a ticket they may see, and it leaves
  evidence: one entry in the ticket's timeline with the reason, and one audit record with the row before and
  after and who changed it. A refused one changes nothing.
\<close>

theorem correction_leaves_evidence:
  "(case fst (worklogCorrect now i dto actor u w) of
      Inl _ \<Rightarrow> worklogs (snd (worklogCorrect now i dto actor u w)) = worklogs w \<and>
        audits (snd (worklogCorrect now i dto actor u w)) = audits w \<and> events (snd (worklogCorrect now i dto actor u w)) = events w
    | Inr after \<Rightarrow>
        (\<exists>before ev aud. find_by wl_id i (worklogs w) = Some before \<and> (\<exists>inc. findOneScoped (wl_incidentId before) u w = Inr inc) \<and>
           (wl_engineerId before = actorId actor \<or> au_role u \<in> set ELEVATED_ROLES) \<and>
           events (snd (worklogCorrect now i dto actor u w)) = events w @ [ev] \<and> e_body ev = WORKLOG_CORRECTION i (kw_editReason dto) \<and>
           audits (snd (worklogCorrect now i dto actor u w)) = audits w @ [aud] \<and> ae_actorId aud = Some (actorId actor) \<and>
           ae_before aud = Some (SnapWorklog before) \<and> ae_after aud = Some (SnapWorklog after)))"
proof (cases rule: worklogCorrect_cases [of now i dto actor u w])
  case (stored before d ev aud)
  moreover have "\<exists>inc. findOneScoped (wl_incidentId before) u w = Inr inc"
    using stored(2) by (auto simp: findWorklogScoped_def split: option.splits sum.splits)
  ultimately show ?thesis by auto
qed auto

text \<open>
  A correction that sets the end to \<open>null\<close> clears the column but keeps a duration computed from the end that was there: an activity
  still in progress has a duration, which the model of the data calls derived.
\<close>

theorem reopened_worklog_keeps_duration:
  "map_sum id (\<lambda>l. (wl_endedAt l, wl_durationMinutes l))
     (fst (worklogCorrect 5 ''0'' (fix_start\<lparr>kw_startedAt := None, kw_endedAt := Some None\<rparr>) \<lparr>actorId = ''u1'', correlationId = None\<rparr>
        ops_manager worklog_world)) = Inr (None, Some 2)"
  by code_simp

end
