(* ===== verification/Sites.thy ===== *)
theory Sites
  imports Routing User_Admin
begin

text \<open>
  Sites with their contacts and support calendars, and support groups with their rosters
  (\<^verbatim>\<open>sites/sites.service.ts\<close>). The roster is shown to refine a relation between groups and users, and the
  references to a group stay valid when groups are deleted, with the category teams of the routing module included.
\<close>

section \<open>The code\<close>

subsection \<open>Sites, contacts, calendars\<close>

record list_sites_query =
  lsq_limit :: "nat option"
  lsq_offset :: "nat option"

definition sitesFindAll :: "list_sites_query \<Rightarrow> uuid list option \<Rightarrow> world \<Rightarrow> site paginated" where
  "sitesFindAll q accessible w =
     (let rows = filter (\<lambda>s. case accessible of None \<Rightarrow> True | Some ids \<Rightarrow> s_id s \<in> set ids) (sites w);
          limit = option_default 50 (lsq_limit q); offset = option_default 0 (lsq_offset q) in
      \<lparr>pg_items = take limit (drop offset (sort_key (\<lambda>s. env_collation (env w) (s_code s)) rows)),
       pg_total = length rows, pg_limit = limit, pg_offset = offset\<rparr>)"

definition siteFindOne :: "uuid \<Rightarrow> world \<Rightarrow> http_error + site" where
  "siteFindOne i w = (case find_by s_id i (sites w) of None \<Rightarrow> Inl (NotFound (''Site '' @ i @ '' not found'')) | Some s \<Rightarrow> Inr s)"

record create_site_dto =
  csd_code :: string
  csd_name :: string
  csd_timezone :: string
  csd_is247 :: "bool option"

definition siteCreate :: "instant \<Rightarrow> create_site_dto \<Rightarrow> actor_context \<Rightarrow> site op" where
  "siteCreate now dto actor = transaction
     (bindM freshId (\<lambda>i.
      let s = \<lparr>s_id = i, s_code = csd_code dto, s_name = csd_name dto, s_timezone = csd_timezone dto,
               s_is247 = option_default False (csd_is247 dto), s_status = ''ACTIVE''\<rparr> in
      bindM (getM (\<lambda>w. csd_code dto \<in> s_code ` set (sites w))) (\<lambda>taken.
      bindM (guardM (\<not> taken) (PrismaKnown ''P2002'')) (\<lambda>_.
      bindM (modifyM (\<lambda>w. w\<lparr>sites := sites w @ [s]\<rparr>)) (\<lambda>_.
      bindM (auditRecord now (Some (actorId actor)) ''Site'' i ''CREATE'' None (Some (SnapSite s)) (correlationId actor)) (\<lambda>_.
      ret s))))))"

definition listContacts :: "uuid \<Rightarrow> world \<Rightarrow> http_error + site_contact list" where
  "listContacts siteId w =
     (case siteFindOne siteId w of
        Inl e \<Rightarrow> Inl e
      | Inr _ \<Rightarrow> Inr (sort_key (\<lambda>c. env_collation (env w) (sc_name c)) (filter (\<lambda>c. sc_siteId c = siteId) (contacts w))))"

record create_contact_dto =
  cct_name :: string
  cct_role :: string
  cct_email :: "string option"
  cct_phone :: "string option"
  cct_isOnCall :: "bool option"

definition createContact :: "instant \<Rightarrow> uuid \<Rightarrow> create_contact_dto \<Rightarrow> actor_context \<Rightarrow> site_contact op" where
  "createContact now siteId dto actor =
     bindM (readM (siteFindOne siteId)) (\<lambda>_.
     transaction
       (bindM freshId (\<lambda>i.
        let c = \<lparr>sc_id = i, sc_siteId = siteId, sc_name = cct_name dto, sc_role = cct_role dto, sc_email = cct_email dto,
                 sc_phone = cct_phone dto, sc_isOnCall = option_default False (cct_isOnCall dto)\<rparr> in
        bindM (modifyM (\<lambda>w. w\<lparr>contacts := contacts w @ [c]\<rparr>)) (\<lambda>_.
        bindM (auditRecord now (Some (actorId actor)) ''SiteContact'' i ''CREATE'' None (Some (SnapContact c)) (correlationId actor)) (\<lambda>_.
        ret c)))))"

definition listSupportCalendars :: "uuid \<Rightarrow> world \<Rightarrow> http_error + support_calendar list" where
  "listSupportCalendars siteId w =
     (case siteFindOne siteId w of
        Inl e \<Rightarrow> Inl e
      | Inr _ \<Rightarrow> Inr (sort_key (\<lambda>c. env_collation (env w) (cal_name c)) (filter (\<lambda>c. cal_siteId c = siteId) (calendars w))))"

record create_calendar_dto =
  cca_name :: string
  cca_businessStart :: string
  cca_businessEnd :: string
  cca_workdays :: "nat list"
  cca_holidays :: "instant list option"
  cca_is247 :: "bool option"

definition createSupportCalendar :: "instant \<Rightarrow> uuid \<Rightarrow> create_calendar_dto \<Rightarrow> actor_context \<Rightarrow> support_calendar op" where
  "createSupportCalendar now siteId dto actor =
     bindM (readM (siteFindOne siteId)) (\<lambda>_.
     transaction
       (bindM freshId (\<lambda>i.
        let c = \<lparr>cal_id = i, cal_siteId = siteId, cal_name = cca_name dto, cal_businessStart = cca_businessStart dto,
                 cal_businessEnd = cca_businessEnd dto, cal_workdays = cca_workdays dto,
                 cal_holidays = option_default [] (cca_holidays dto), cal_is247 = option_default False (cca_is247 dto)\<rparr> in
        bindM (modifyM (\<lambda>w. w\<lparr>calendars := calendars w @ [c]\<rparr>)) (\<lambda>_.
        bindM (auditRecord now (Some (actorId actor)) ''SupportCalendar'' i ''CREATE'' None (Some (SnapCalendar c)) (correlationId actor)) (\<lambda>_.
        ret c)))))"

subsection \<open>Support groups\<close>

definition listSupportGroups :: "world \<Rightarrow> support_group list" where
  "listSupportGroups w = sort_key (\<lambda>g. env_collation (env w) (g_name g)) (groups w)"

definition createSupportGroup :: "instant \<Rightarrow> string \<Rightarrow> actor_context \<Rightarrow> support_group op" where
  "createSupportGroup now name actor = transaction
     (bindM freshId (\<lambda>i.
      let g = \<lparr>g_id = i, g_name = name\<rparr> in
      bindM (getM (\<lambda>w. name \<in> g_name ` set (groups w))) (\<lambda>taken.
      bindM (guardM (\<not> taken) (PrismaKnown ''P2002'')) (\<lambda>_.
      bindM (modifyM (\<lambda>w. w\<lparr>groups := groups w @ [g]\<rparr>)) (\<lambda>_.
      bindM (auditRecord now (Some (actorId actor)) ''SupportGroup'' i ''CREATE'' None (Some (SnapGroup g)) (correlationId actor)) (\<lambda>_.
      ret g))))))"

definition getSupportGroup :: "uuid \<Rightarrow> world \<Rightarrow> http_error + support_group" where
  "getSupportGroup i w =
     (case find_by g_id i (groups w) of None \<Rightarrow> Inl (NotFound (''Support group '' @ i @ '' not found'')) | Some g \<Rightarrow> Inr g)"

definition assertNoIncident :: "uuid \<Rightarrow> world \<Rightarrow> http_error + unit" where
  "assertNoIncident i w =
     (if \<exists>x \<in> set (incidents w). i_ownerGroupId x = Some i
      then Inl (BadRequest ''Cannot delete a support group that still has incidents assigned to it'') else Inr ())"

text \<open>Deleting the row takes the category teams of the group along (\<open>onDelete: Cascade\<close>).\<close>

definition delete_group :: "uuid \<Rightarrow> world \<Rightarrow> world" where
  "delete_group i w = w\<lparr>groups := delete_by g_id i (groups w), category_teams := filter (\<lambda>t. ct_groupId t \<noteq> i) (category_teams w)\<rparr>"

definition deleteSupportGroup :: "instant \<Rightarrow> uuid \<Rightarrow> actor_context \<Rightarrow> unit op" where
  "deleteSupportGroup now i actor =
     bindM (readM (getSupportGroup i)) (\<lambda>group.
     bindM (readM (assertNoIncident i)) (\<lambda>_.
     transaction
       (bindM (modifyM (\<lambda>w. w\<lparr>members := filter (\<lambda>m. gm_groupId m \<noteq> i) (members w)\<rparr>)) (\<lambda>_.
        bindM (modifyM (delete_group i)) (\<lambda>_.
        auditRecord now (Some (actorId actor)) ''SupportGroup'' i ''DELETE'' (Some (SnapGroup group)) None (correlationId actor))))))"

record group_member_view = user_summary +
  gmv_membershipId :: uuid

definition member_view :: "group_member \<Rightarrow> user \<Rightarrow> group_member_view" where
  "member_view m u = \<lparr>um_id = u_id u, um_displayName = u_displayName u, um_email = u_email u, um_role = u_role u, gmv_membershipId = gm_id m\<rparr>"

definition listGroupMembers :: "uuid \<Rightarrow> world \<Rightarrow> http_error + group_member_view list" where
  "listGroupMembers groupId w =
     (case getSupportGroup groupId w of
        Inl e \<Rightarrow> Inl e
      | Inr _ \<Rightarrow> Inr (List.map_filter (\<lambda>m. map_option (member_view m) (find_by u_id (gm_userId m) (users w)))
                      (sort_key gm_createdAt (filter (\<lambda>m. gm_groupId m = groupId) (members w)))))"

definition membership :: "uuid \<Rightarrow> uuid \<Rightarrow> world \<Rightarrow> group_member option" where
  "membership groupId userId w = List.find (\<lambda>m. gm_groupId m = groupId \<and> gm_userId m = userId) (members w)"

definition member_candidate :: "uuid \<Rightarrow> uuid \<Rightarrow> world \<Rightarrow> http_error + user" where
  "member_candidate groupId userId w =
     (case getSupportGroup groupId w of
        Inl e \<Rightarrow> Inl e
      | Inr _ \<Rightarrow>
          (case find_by u_id userId (users w) of
             None \<Rightarrow> Inl (NotFound (''User '' @ userId @ '' not found''))
           | Some u \<Rightarrow>
               if u_role u = CLIENT_MANAGER_VIEWER then Inl (BadRequest ''Customers cannot be added to a support group'') else Inr u))"

definition upsertMember :: "instant \<Rightarrow> uuid \<Rightarrow> uuid \<Rightarrow> group_member op" where
  "upsertMember now groupId userId =
     bindM (getM (membership groupId userId)) (\<lambda>existing.
     case existing of
       Some m \<Rightarrow> ret m
     | None \<Rightarrow>
         bindM freshId (\<lambda>i.
         let m = \<lparr>gm_id = i, gm_groupId = groupId, gm_userId = userId, gm_createdAt = now\<rparr> in
         bindM (modifyM (\<lambda>w. w\<lparr>members := members w @ [m]\<rparr>)) (\<lambda>_. ret m)))"

definition addGroupMember :: "instant \<Rightarrow> uuid \<Rightarrow> uuid \<Rightarrow> actor_context \<Rightarrow> group_member_view op" where
  "addGroupMember now groupId userId actor =
     bindM (readM (member_candidate groupId userId)) (\<lambda>u.
     transaction
       (bindM (upsertMember now groupId userId) (\<lambda>m.
        bindM (auditRecord now (Some (actorId actor)) ''SupportGroup'' groupId ''ADD_MEMBER'' None
                 (Some (SnapMember userId (Some (u_displayName u)))) (correlationId actor)) (\<lambda>_.
        ret (member_view m u)))))"

definition member_to_remove :: "uuid \<Rightarrow> uuid \<Rightarrow> world \<Rightarrow> http_error + group_member" where
  "member_to_remove groupId userId w =
     (case getSupportGroup groupId w of
        Inl e \<Rightarrow> Inl e
      | Inr _ \<Rightarrow>
          (case membership groupId userId w of
             None \<Rightarrow> Inl (NotFound (''User '' @ userId @ '' is not a member of group '' @ groupId))
           | Some m \<Rightarrow> Inr m))"

definition removeGroupMember :: "instant \<Rightarrow> uuid \<Rightarrow> uuid \<Rightarrow> actor_context \<Rightarrow> unit op" where
  "removeGroupMember now groupId userId actor =
     bindM (readM (member_to_remove groupId userId)) (\<lambda>m.
     transaction
       (bindM (modifyM (\<lambda>w. w\<lparr>members := delete_by gm_id (gm_id m) (members w)\<rparr>)) (\<lambda>_.
        auditRecord now (Some (actorId actor)) ''SupportGroup'' groupId ''REMOVE_MEMBER'' (Some (SnapMember userId None)) None
          (correlationId actor))))"

section \<open>The roster as a relation\<close>

text \<open>
  What the roster promises its readers: a set of pairs of a group and a user. Adding, removing and deleting are
  insertion, removal of a pair and removal of everything of a group.
\<close>

definition roster :: "world \<Rightarrow> (uuid \<times> uuid) set" where
  "roster w = (\<lambda>m. (gm_groupId m, gm_userId m)) ` set (members w)"

definition members_ok :: "world \<Rightarrow> bool" where
  "members_ok w \<longleftrightarrow> keys_ok members gm_id w \<and> distinct (map (\<lambda>m. (gm_groupId m, gm_userId m)) (members w))"

lemmas run_defs = bindM_def transactionM_def rollback_def freshId_def auditRecord_def Let_def

lemma membership_Some: "membership g u w = Some m \<Longrightarrow> m \<in> set (members w) \<and> gm_groupId m = g \<and> gm_userId m = u"
  by (auto simp: membership_def find_Some_iff)

lemma membership_None: "membership g u w = None \<longleftrightarrow> (g, u) \<notin> roster w"
  by (auto simp: membership_def find_None_iff roster_def)

lemma addGroupMember_cases:
  obtains (refused) e where "member_candidate g u w = Inl e" "addGroupMember now g u actor w = (Inl e, w)"
    | (present) c m aud where "member_candidate g u w = Inr c" "membership g u w = Some m"
      "addGroupMember now g u actor w = (Inr (member_view m c), w\<lparr>audits := audits w @ [aud]\<rparr>)"
    | (added) c m aud where "member_candidate g u w = Inr c" "membership g u w = None"
      "m = \<lparr>gm_id = env_uuid (env w) (uuid_next w), gm_groupId = g, gm_userId = u, gm_createdAt = now\<rparr>"
      "addGroupMember now g u actor w =
         (Inr (member_view m c), w\<lparr>uuid_next := Suc (uuid_next w), members := members w @ [m], audits := audits w @ [aud]\<rparr>)"
proof (cases "member_candidate g u w")
  case (Inl e)
  then show ?thesis by (intro refused) (simp_all add: addGroupMember_def)
next
  case (Inr c)
  show ?thesis
  proof (cases "membership g u w")
    case None
    then show ?thesis using Inr by (intro added [OF Inr None refl]) (simp add: addGroupMember_def upsertMember_def run_defs)
  next
    case (Some m)
    then show ?thesis using Inr by (intro present [OF Inr Some]) (simp add: addGroupMember_def upsertMember_def run_defs)
  qed
qed

lemma removeGroupMember_cases:
  obtains (refused) e where "removeGroupMember now g u actor w = (Inl e, w)"
    | (removed) m aud where "membership g u w = Some m"
      "removeGroupMember now g u actor w = (Inr (), w\<lparr>members := delete_by gm_id (gm_id m) (members w), audits := audits w @ [aud]\<rparr>)"
proof (cases "member_to_remove g u w")
  case (Inl e)
  then show ?thesis by (intro refused) (simp add: removeGroupMember_def)
next
  case (Inr m)
  then have "membership g u w = Some m" by (auto simp: member_to_remove_def split: sum.splits option.splits)
  then show ?thesis using Inr by (intro removed) (simp_all add: removeGroupMember_def run_defs)
qed

lemma deleteSupportGroup_cases:
  obtains (refused) e where "deleteSupportGroup now i actor w = (Inl e, w)" "find_by g_id i (groups w) = None \<or> (\<exists>x \<in> set (incidents w). i_ownerGroupId x = Some i)"
    | (deleted) g aud where "find_by g_id i (groups w) = Some g" "\<forall>x \<in> set (incidents w). i_ownerGroupId x \<noteq> Some i"
      "ae_before aud = Some (SnapGroup g)" "ae_actorId aud = Some (actorId actor)" "ae_action aud = ''DELETE''"
      "deleteSupportGroup now i actor w = (Inr (), w\<lparr>members := filter (\<lambda>m. gm_groupId m \<noteq> i) (members w),
         groups := delete_by g_id i (groups w), category_teams := filter (\<lambda>t. ct_groupId t \<noteq> i) (category_teams w), audits := audits w @ [aud]\<rparr>)"
proof (cases "find_by g_id i (groups w)")
  case None
  then show ?thesis by (intro refused) (simp_all add: deleteSupportGroup_def getSupportGroup_def bindM_readM)
next
  case (Some g)
  show ?thesis
  proof (cases "\<exists>x \<in> set (incidents w). i_ownerGroupId x = Some i")
    case True
    then show ?thesis using Some by (intro refused) (simp_all add: deleteSupportGroup_def getSupportGroup_def assertNoIncident_def bindM_readM)
  next
    case False
    show ?thesis
      by (rule deleted [OF Some, of "\<lparr>ae_actorId = Some (actorId actor), ae_entityType = ''SupportGroup'', ae_entityId = i, ae_action = ''DELETE'',
            ae_before = Some (SnapGroup g), ae_after = None, ae_correlationId = correlationId actor, ae_createdAt = now\<rparr>"])
        (use False Some in \<open>simp_all add: deleteSupportGroup_def getSupportGroup_def assertNoIncident_def delete_group_def run_defs\<close>)
  qed
qed

lemma delete_by_pair:
  assumes "distinct (map k xs)" "distinct (map p xs)" "m \<in> set xs"
  shows "p ` set (delete_by k (k m) xs) = p ` set xs - {p m}"
proof -
  have "k x = k m \<longleftrightarrow> x = m" "p x = p m \<longleftrightarrow> x = m" if "x \<in> set xs" for x
    using assms that by (auto simp: distinct_map inj_on_def)
  then show ?thesis using assms(3) by (auto simp: delete_by_def)
qed

lemma roster_add: "addGroupMember now g u actor w = (Inr v, w') \<Longrightarrow> roster w' = insert (g, u) (roster w)"
  by (cases rule: addGroupMember_cases [of g u w now actor]) (auto simp: roster_def dest: membership_Some)

lemma roster_remove:
  assumes "members_ok w" "removeGroupMember now g u actor w = (Inr (), w')"
  shows "roster w' = roster w - {(g, u)}"
proof (cases rule: removeGroupMember_cases [of now g u actor w])
  case (removed m aud)
  have m: "m \<in> set (members w)" "gm_groupId m = g" "gm_userId m = u" using membership_Some [OF removed(1)] by auto
  have "distinct (map gm_id (members w))" "distinct (map (\<lambda>m. (gm_groupId m, gm_userId m)) (members w))"
    using assms(1) by (simp_all add: members_ok_def keys_ok_def)
  from delete_by_pair [OF this m(1)] removed(2) assms(2) m(2,3) show ?thesis by (auto simp: roster_def)
qed (use assms(2) in simp)

lemma roster_delete: "deleteSupportGroup now g actor w = (Inr (), w') \<Longrightarrow> roster w' = {p \<in> roster w. fst p \<noteq> g}"
  by (cases rule: deleteSupportGroup_cases [of now g actor w]) (auto simp: roster_def)

lemma find_snoc: "List.find P (xs @ [y]) = (case List.find P xs of Some x \<Rightarrow> Some x | None \<Rightarrow> if P y then Some y else None)"
  by (induction xs) auto

lemma member_candidate_same: "groups w' = groups w \<Longrightarrow> users w' = users w \<Longrightarrow> member_candidate g u w' = member_candidate g u w"
  unfolding member_candidate_def getSupportGroup_def by (simp only:)

lemma roster_of_group: "findGroupRoster w g = Some t \<Longrightarrow>
   set (tm_memberIds t) = {u. (g, u) \<in> roster w \<and> (\<exists>x \<in> set (users w). u_id x = u \<and> u_isActive x)}"
  by (fastforce simp: findGroupRoster_def roster_def image_iff)

text \<open>
  C30: The roster refines a relation: adding a user inserts one pair, removing one takes exactly that pair away, deleting a group takes
  away its pairs and no other, and the team the router reads is exactly the active users of the relation. Adding twice
  returns the membership that is there and changes no table.
\<close>

theorem roster_refines_relation:
  assumes "members_ok w"
  shows "(\<forall>v w'. addGroupMember now g u actor w = (Inr v, w') \<longrightarrow> roster w' = insert (g, u) (roster w) \<and>
      (\<forall>now' actor'. \<exists>aud. addGroupMember now' g u actor' w' = (Inr v, w'\<lparr>audits := audits w' @ [aud]\<rparr>))) \<and>
    (\<forall>w'. removeGroupMember now g u actor w = (Inr (), w') \<longrightarrow> roster w' = roster w - {(g, u)}) \<and>
    (\<forall>w'. deleteSupportGroup now g actor w = (Inr (), w') \<longrightarrow> roster w' = {p \<in> roster w. fst p \<noteq> g}) \<and>
    (\<forall>t. findGroupRoster w g = Some t \<longrightarrow>
      set (tm_memberIds t) = {u. (g, u) \<in> roster w \<and> (\<exists>x \<in> set (users w). u_id x = u \<and> u_isActive x)})"
proof -
  have "\<exists>aud. addGroupMember now' g u actor' w' = (Inr v, w'\<lparr>audits := audits w' @ [aud]\<rparr>)"
    if "addGroupMember now g u actor w = (Inr v, w')" for v w' now' actor'
  proof (cases rule: addGroupMember_cases [of g u w now actor])
    case (present c m aud)
    moreover have "member_candidate g u w' = member_candidate g u w" "membership g u w' = membership g u w"
      using present(3) that by (auto simp: membership_def intro: member_candidate_same)
    ultimately show ?thesis
      using that by (cases rule: addGroupMember_cases [of g u w' now' actor']) auto
  next
    case (added c m aud)
    moreover have "member_candidate g u w' = member_candidate g u w"
      using added that by (intro member_candidate_same) auto
    moreover have "membership g u w' = Some m"
      using added that by (auto simp: membership_def find_snoc)
    ultimately show ?thesis
      using that by (cases rule: addGroupMember_cases [of g u w' now' actor']) auto
  qed (use that in simp)
  note again = this
  show ?thesis
    by (intro conjI allI impI; (erule again | erule roster_add | erule roster_remove [OF assms] | erule roster_delete | erule roster_of_group))
qed

section \<open>References to groups and sites\<close>

definition sites_ok :: "world \<Rightarrow> bool" where
  "sites_ok w \<longleftrightarrow> members_ok w \<and> distinct (map s_code (sites w)) \<and> distinct (map g_name (groups w)) \<and>
     fst ` roster w \<subseteq> g_id ` set (groups w) \<and> ct_groupId ` set (category_teams w) \<subseteq> g_id ` set (groups w) \<and>
     {g. \<exists>x \<in> set (incidents w). i_ownerGroupId x = Some g} \<subseteq> g_id ` set (groups w) \<and>
     sc_siteId ` set (contacts w) \<subseteq> s_id ` set (sites w) \<and> cal_siteId ` set (calendars w) \<subseteq> s_id ` set (sites w)"

lemma members_ok_same: "members_ok w \<Longrightarrow> env w' = env w \<Longrightarrow> uuid_next w \<le> uuid_next w' \<Longrightarrow> members w' = members w \<Longrightarrow> members_ok w'"
  unfolding members_ok_def using keys_ok_same [of members gm_id w w'] by simp

lemma members_ok_filter:
  assumes "members_ok w" "env w' = env w" "uuid_next w \<le> uuid_next w'" "members w' = filter P (members w)"
  shows "members_ok w'"
  using assms by (auto simp: members_ok_def keys_ok_def issued_def list_all_iff distinct_map_filter) (meson order_less_le_trans)

inductive sites_step :: "world \<Rightarrow> world \<Rightarrow> bool" where
  st_site: "sites_step w (snd (siteCreate now dto actor w))"
| st_contact: "sites_step w (snd (createContact now i cdto actor w))"
| st_calendar: "sites_step w (snd (createSupportCalendar now i kdto actor w))"
| st_group: "sites_step w (snd (createSupportGroup now name actor w))"
| st_delete: "sites_step w (snd (deleteSupportGroup now i actor w))"
| st_add: "sites_step w (snd (addGroupMember now i u actor w))"
| st_remove: "sites_step w (snd (removeGroupMember now i u actor w))"
| st_team: "sites_step w (snd (categoryTeamCreate now name i actor w))"
| st_unteam: "sites_step w (snd (categoryTeamRemove now i actor w))"
| st_elsewhere: "env w' = env w \<Longrightarrow> uuid_next w \<le> uuid_next w' \<Longrightarrow> sites w' = sites w \<Longrightarrow> contacts w' = contacts w \<Longrightarrow>
    calendars w' = calendars w \<Longrightarrow> groups w' = groups w \<Longrightarrow> members w' = members w \<Longrightarrow> category_teams w' = category_teams w \<Longrightarrow>
    {g. \<exists>x \<in> set (incidents w'). i_ownerGroupId x = Some g} \<subseteq> g_id ` set (groups w) \<Longrightarrow> sites_step w w'"

lemma siteFindOne_Inr: "siteFindOne i w = Inr s \<Longrightarrow> i \<in> s_id ` set (sites w)"
  by (auto simp: siteFindOne_def dest: find_by_SomeD split: option.splits)

lemma getSupportGroup_Inr: "getSupportGroup i w = Inr g \<Longrightarrow> i \<in> g_id ` set (groups w)"
  by (auto simp: getSupportGroup_def dest: find_by_SomeD split: option.splits)

lemma siteCreate_keeps: "sites_ok w \<Longrightarrow> sites_ok (snd (siteCreate now dto actor w))"
  by (auto simp: siteCreate_def run_defs sites_ok_def roster_def intro: members_ok_same)

lemma createContact_keeps: "sites_ok w \<Longrightarrow> sites_ok (snd (createContact now i dto actor w))"
  by (cases "siteFindOne i w")
    (auto simp: createContact_def run_defs sites_ok_def roster_def intro: members_ok_same dest: siteFindOne_Inr)

lemma createSupportCalendar_keeps: "sites_ok w \<Longrightarrow> sites_ok (snd (createSupportCalendar now i dto actor w))"
  by (cases "siteFindOne i w")
    (auto simp: createSupportCalendar_def run_defs sites_ok_def roster_def intro: members_ok_same dest: siteFindOne_Inr)

lemma createSupportGroup_keeps: "sites_ok w \<Longrightarrow> sites_ok (snd (createSupportGroup now name actor w))"
  by (auto simp: createSupportGroup_def run_defs sites_ok_def roster_def intro: members_ok_same)

lemma categoryTeamCreate_keeps: "sites_ok w \<Longrightarrow> sites_ok (snd (categoryTeamCreate now name i actor w))"
  by (cases "category_team_checks (trim name) i w")
    (auto simp: categoryTeamCreate_def run_defs sites_ok_def roster_def category_team_checks_def findGroupRoster_def
      intro: members_ok_same dest: find_by_SomeD split: if_splits option.splits)

lemma categoryTeamRemove_keeps: "sites_ok w \<Longrightarrow> sites_ok (snd (categoryTeamRemove now i actor w))"
  by (cases "find_by ct_id i (category_teams w)")
    (auto simp: categoryTeamRemove_def run_defs sites_ok_def roster_def delete_by_def intro: members_ok_same)

lemma keep_others: "f ` A \<subseteq> g ` B \<Longrightarrow> f ` {a \<in> A. f a \<noteq> i} \<subseteq> g ` {b \<in> B. g b \<noteq> i}"
  by fastforce

lemma keep_unused: "A \<subseteq> g ` B \<Longrightarrow> i \<notin> A \<Longrightarrow> A \<subseteq> g ` {b \<in> B. g b \<noteq> i}"
  by fastforce

lemma deleteSupportGroup_keeps: "sites_ok w \<Longrightarrow> sites_ok (snd (deleteSupportGroup now i actor w))"
proof (cases rule: deleteSupportGroup_cases [of now i actor w])
  case (deleted g aud)
  assume ok: "sites_ok w"
  let ?w' = "snd (deleteSupportGroup now i actor w)"
  have "members_ok ?w'" using ok deleted(6) by (auto simp: sites_ok_def intro: members_ok_filter)
  moreover have "distinct (map g_name (groups ?w'))" using ok deleted(6) by (auto simp: sites_ok_def delete_by_def distinct_map_filter)
  moreover have "roster ?w' = {p \<in> roster w. fst p \<noteq> i}" using roster_delete [of now i actor w] deleted(6) by simp
  moreover have "fst ` {p \<in> roster w. fst p \<noteq> i} \<subseteq> g_id ` {r \<in> set (groups w). g_id r \<noteq> i}"
    "ct_groupId ` {t \<in> set (category_teams w). ct_groupId t \<noteq> i} \<subseteq> g_id ` {r \<in> set (groups w). g_id r \<noteq> i}"
    using ok by (intro keep_others; simp add: sites_ok_def)+
  moreover have "{g. \<exists>x \<in> set (incidents w). i_ownerGroupId x = Some g} \<subseteq> g_id ` {r \<in> set (groups w). g_id r \<noteq> i}"
    using ok deleted(2) by (intro keep_unused) (auto simp: sites_ok_def)
  ultimately show ?thesis using ok unfolding sites_ok_def deleted(6) by (simp add: delete_by_def)
qed simp

lemma addGroupMember_keeps: "sites_ok w \<Longrightarrow> sites_ok (snd (addGroupMember now i u actor w))"
proof (cases rule: addGroupMember_cases [of i u w now actor])
  case (added c m aud)
  assume ok: "sites_ok w"
  let ?w' = "snd (addGroupMember now i u actor w)"
  have "keys_ok members gm_id ?w'"
    by (rule keys_ok_insert [of members gm_id w _ m]) (use ok added in \<open>auto simp: sites_ok_def members_ok_def\<close>)
  moreover have "(i, u) \<notin> roster w" using added(2) by (simp add: membership_None)
  ultimately have "members_ok ?w'" using ok added by (auto simp: sites_ok_def members_ok_def roster_def)
  moreover have "i \<in> g_id ` set (groups w)"
    using added(1) by (auto simp: member_candidate_def dest: getSupportGroup_Inr split: sum.splits)
  ultimately show ?thesis using ok added by (auto simp: sites_ok_def roster_def)
qed (auto simp: sites_ok_def roster_def intro: members_ok_same)

lemma removeGroupMember_keeps: "sites_ok w \<Longrightarrow> sites_ok (snd (removeGroupMember now i u actor w))"
  by (cases rule: removeGroupMember_cases [of now i u actor w])
    (auto simp: sites_ok_def roster_def delete_by_def intro: members_ok_filter)

lemma sites_step_ok: "sites_step w w' \<Longrightarrow> sites_ok w \<Longrightarrow> sites_ok w'"
  by (induction rule: sites_step.induct)
    (auto intro: siteCreate_keeps createContact_keeps createSupportCalendar_keeps createSupportGroup_keeps categoryTeamCreate_keeps
      categoryTeamRemove_keeps deleteSupportGroup_keeps addGroupMember_keeps removeGroupMember_keeps,
     auto simp: sites_ok_def roster_def intro: members_ok_same)

interpretation sites_run: invariant_system sites_step sites_ok
  by unfold_locales (rule sites_step_ok)

text \<open>
  Through any sequence of requests to this service and to the category teams, with the tickets of other modules pointing only to
  groups that exist, nothing dangles: every member, category team and ticket refers to a group that exists and every contact and calendar to a
  site that exists; site codes and group names stay unique and nobody is on a roster twice.
\<close>

theorem group_references_sound:
  assumes "sites_step\<^sup>*\<^sup>* w w'" "sites_ok w"
  shows "distinct (map s_code (sites w')) \<and> distinct (map g_name (groups w')) \<and>
     distinct (map (\<lambda>m. (gm_groupId m, gm_userId m)) (members w')) \<and>
     gm_groupId ` set (members w') \<union> ct_groupId ` set (category_teams w') \<union> {g. \<exists>x \<in> set (incidents w'). i_ownerGroupId x = Some g}
       \<subseteq> g_id ` set (groups w') \<and>
     sc_siteId ` set (contacts w') \<union> cal_siteId ` set (calendars w') \<subseteq> s_id ` set (sites w')"
proof -
  have "sites_ok w'" using assms by (rule sites_run.run_inv)
  then show ?thesis by (simp add: sites_ok_def members_ok_def roster_def image_image)
qed

definition desk_group :: support_group where
  "desk_group = \<lparr>g_id = ''0'', g_name = ''NOC''\<rparr>"

definition roster_world :: world where
  "roster_world = empty_world\<lparr>uuid_next := 1, groups := [desk_group],
     users := [\<lparr>u_id = ''e'', u_email = ''e@x'', u_displayName = ''E'', u_role = SITE_ENGINEER, u_isActive = True, u_passwordHash = None,
       u_passwordSetAt = None, u_failedLoginCount = 0, u_lockedUntil = None, u_sessionVersion = 0, u_createdAt = 0, u_updatedAt = 0\<rparr>]\<rparr>"

lemma roster_world_ok: "members_ok roster_world" "sites_ok roster_world"
  by (auto simp: sites_ok_def members_ok_def keys_ok_def roster_def roster_world_def empty_world_def desk_group_def intro: injI nat_str_inj)

definition added_world :: world where
  "added_world = snd (addGroupMember 5 ''0'' ''e'' \<lparr>actorId = ''a'', correlationId = None\<rparr> roster_world)"

lemma added_run: "\<exists>v. addGroupMember 5 ''0'' ''e'' \<lparr>actorId = ''a'', correlationId = None\<rparr> roster_world = (Inr v, added_world)"
proof -
  have "member_candidate ''0'' ''e'' roster_world = Inr (hd (users roster_world))" by (simp add: member_candidate_def getSupportGroup_def roster_world_def desk_group_def)
  then show ?thesis
    by (cases rule: addGroupMember_cases [of "''0''" "''e''" roster_world 5 "\<lparr>actorId = ''a'', correlationId = None\<rparr>"]) (auto simp: added_world_def)
qed

theorem roster_refines_relation_witness: "roster added_world = {(''0'', ''e'')}"
proof -
  have "roster roster_world = {}" by (simp add: roster_def roster_world_def empty_world_def)
  then show ?thesis using roster_refines_relation [OF roster_world_ok(1), of 5 "''0''" "''e''" "\<lparr>actorId = ''a'', correlationId = None\<rparr>"] added_run
    by auto
qed

theorem group_references_sound_witness:
  "gm_groupId ` set (members (snd (deleteSupportGroup 6 ''0'' \<lparr>actorId = ''a'', correlationId = None\<rparr> added_world))) \<subseteq>
     g_id ` set (groups (snd (deleteSupportGroup 6 ''0'' \<lparr>actorId = ''a'', correlationId = None\<rparr> added_world)))"
proof -
  have "sites_step roster_world added_world" unfolding added_world_def by (rule st_add)
  moreover have "sites_step added_world (snd (deleteSupportGroup 6 ''0'' \<lparr>actorId = ''a'', correlationId = None\<rparr> added_world))" by (rule st_delete)
  ultimately have "sites_step\<^sup>*\<^sup>* roster_world (snd (deleteSupportGroup 6 ''0'' \<lparr>actorId = ''a'', correlationId = None\<rparr> added_world))" by simp
  from group_references_sound [OF this roster_world_ok(2)] show ?thesis by blast
qed

text \<open>
  A group is deleted exactly when it exists and no ticket is assigned to it; its roster and its category teams go with it, every other row stays,
  and the audit trail keeps the group. A refused request changes nothing.
\<close>

theorem group_delete_exact:
  "case deleteSupportGroup now i actor w of
     (Inl _, w') \<Rightarrow> w' = w \<and> (find_by g_id i (groups w) = None \<or> (\<exists>x \<in> set (incidents w). i_ownerGroupId x = Some i))
   | (Inr _, w') \<Rightarrow> (\<exists>g aud. find_by g_id i (groups w) = Some g \<and> i \<notin> (\<lambda>x. the (i_ownerGroupId x)) ` {x \<in> set (incidents w). i_ownerGroupId x \<noteq> None} \<and>
       w' = w\<lparr>members := filter (\<lambda>m. gm_groupId m \<noteq> i) (members w), groups := filter (\<lambda>x. g_id x \<noteq> i) (groups w),
              category_teams := filter (\<lambda>t. ct_groupId t \<noteq> i) (category_teams w), audits := audits w @ [aud]\<rparr> \<and>
       ae_before aud = Some (SnapGroup g) \<and> ae_actorId aud = Some (actorId actor))"
proof (cases rule: deleteSupportGroup_cases [of now i actor w])
  case (deleted g aud)
  have "i \<notin> (\<lambda>x. the (i_ownerGroupId x)) ` {x \<in> set (incidents w). i_ownerGroupId x \<noteq> None}" using deleted(2) by auto
  then show ?thesis using deleted by (simp add: delete_by_def) blast
qed auto

section \<open>Two gaps\<close>

text \<open>
  A device names its owner group in a column without a foreign key, so deleting the group leaves the name of a group that does not exist.
\<close>

theorem device_keeps_deleted_group:
  assumes "deleteSupportGroup now i actor w = (Inr (), w')" "c \<in> set (cis w)" "ci_ownerGroupId c = Some i"
  shows "c \<in> set (cis w') \<and> find_by g_id i (groups w') = None"
  using assms by (cases rule: deleteSupportGroup_cases [of now i actor w]) (auto simp: find_by_None_iff delete_by_def)

theorem device_keeps_deleted_group_witness:
  "find_by g_id ''0'' (groups (snd (deleteSupportGroup 6 ''0'' \<lparr>actorId = ''a'', correlationId = None\<rparr>
     (roster_world\<lparr>cis := [\<lparr>ci_id = ''c'', ci_code = ''C'', ci_siteId = ''S'', ci_rackId = None, ci_ciType = CT_SERVER, ci_name = ''srv'', ci_manufacturer = None,
       ci_model = None, ci_serialOrServiceTag = None, ci_managementAddress = None, ci_ownerGroupId = Some ''0'', ci_managedBy = MB_JSAN,
       ci_criticality = CR_HIGH, ci_lifecycleStatus = ACTIVE\<rparr>]\<rparr>)))) = None"
proof -
  let ?c = "\<lparr>ci_id = ''c'', ci_code = ''C'', ci_siteId = ''S'', ci_rackId = None, ci_ciType = CT_SERVER, ci_name = ''srv'', ci_manufacturer = None,
       ci_model = None, ci_serialOrServiceTag = None, ci_managementAddress = None, ci_ownerGroupId = Some ''0'', ci_managedBy = MB_JSAN,
       ci_criticality = CR_HIGH, ci_lifecycleStatus = ACTIVE\<rparr>"
  let ?w = "roster_world\<lparr>cis := [?c]\<rparr>"
  have "fst (deleteSupportGroup 6 ''0'' \<lparr>actorId = ''a'', correlationId = None\<rparr> ?w) = Inr ()"
    by (cases rule: deleteSupportGroup_cases [of 6 "''0''" "\<lparr>actorId = ''a'', correlationId = None\<rparr>" ?w])
      (auto simp: roster_world_def empty_world_def desk_group_def)
  then have "deleteSupportGroup 6 ''0'' \<lparr>actorId = ''a'', correlationId = None\<rparr> ?w =
      (Inr (), snd (deleteSupportGroup 6 ''0'' \<lparr>actorId = ''a'', correlationId = None\<rparr> ?w))" by (simp add: prod_eq_iff)
  from device_keeps_deleted_group [OF this, of ?c] show ?thesis by simp
qed

text \<open>
  Only the moment of joining is guarded: a member whose role is later changed to customer, which no check of the role change looks at, stays
  on the roster, and a ticket assigned to the group is mailed to the customer.
\<close>

definition demoted_world :: world where
  "demoted_world = snd (userAdminUpdate 6 ''e'' \<lparr>uu_email = None, uu_displayName = None, uu_role = Some CLIENT_MANAGER_VIEWER\<rparr>
     \<lparr>actorId = ''a'', correlationId = None\<rparr> added_world)"

theorem demoted_member_stays_on_roster:
  "map u_role (group_users demoted_world ''0'') = [CLIENT_MANAGER_VIEWER] \<and>
   map_option tm_memberIds (findGroupRoster demoted_world ''0'') = Some [''e'']"
  by code_simp

end
