(* ===== verification/Reports.thy ===== *)
theory Reports
  imports Incidents Incident_Rules
begin

text \<open>
  The read models (\<^verbatim>\<open>reports/reports.service.ts\<close>): the command center with its site cards and counters, its export as CSV,
  the trend of response times and the volume of alerts. A day is its number since the epoch; the source writes it as \<open>YYYY-MM-DD\<close>,
  which is in one to one correspondence and sorts the same way.
\<close>

section \<open>The command center\<close>

datatype health_level = L_HEALTHY | L_WARNING | L_CRITICAL | L_UNKNOWN

primrec health_level_str :: "health_level \<Rightarrow> string" where
  "health_level_str L_HEALTHY = ''HEALTHY''"
| "health_level_str L_WARNING = ''WARNING''"
| "health_level_str L_CRITICAL = ''CRITICAL''"
| "health_level_str L_UNKNOWN = ''UNKNOWN''"

primrec HEALTH_RANK :: "health_level \<Rightarrow> nat" where
  "HEALTH_RANK L_HEALTHY = 0"
| "HEALTH_RANK L_UNKNOWN = 1"
| "HEALTH_RANK L_WARNING = 2"
| "HEALTH_RANK L_CRITICAL = 3"

definition normalizeHealth :: "health_state option \<Rightarrow> health_level" where
  "normalizeHealth overallHealth =
     (case overallHealth of
        Some CRITICAL \<Rightarrow> L_CRITICAL | Some WARNING \<Rightarrow> L_WARNING | Some HEALTHY \<Rightarrow> L_HEALTHY | _ \<Rightarrow> L_UNKNOWN)"

definition worstOf :: "health_level list \<Rightarrow> health_level" where
  "worstOf levels =
     (if levels = [] then L_UNKNOWN
      else foldl (\<lambda>w level. if HEALTH_RANK w < HEALTH_RANK level then level else w) L_HEALTHY levels)"

record site_card =
  sk_id :: uuid
  sk_code :: string
  sk_name :: string
  sk_health :: health_level
  sk_serversReachable :: nat
  sk_serversTotal :: nat
  sk_openIncidents :: nat
  sk_oldestOpenIncidentAgeMinutes :: "int option"
  sk_p1p2OpenIncidents :: nat
  sk_slaAtRiskIncidents :: nat

record command_counters =
  cn_sitesHealthy :: nat
  cn_sitesWarning :: nat
  cn_sitesCritical :: nat
  cn_serversReachable :: nat
  cn_serversTotal :: nat
  cn_criticalAlertsOpen :: nat
  cn_p1p2OpenIncidents :: nat
  cn_slaAtRiskIncidents :: nat

record command_queues =
  qu_unassigned :: nat
  qu_awaitingAck :: nat
  qu_slaBreachRisk :: nat
  qu_vendorWaiting :: nat
  qu_reopened :: nat

record command_center_summary =
  cs_counters :: command_counters
  cs_siteCards :: "site_card list"
  cs_queues :: command_queues

definition isSlaAtRisk :: "sla_instance \<Rightarrow> bool" where
  "isSlaAtRisk x \<longleftrightarrow> \<not> si_breached x \<and> si_firedMilestones x \<noteq> []"

definition at_risk :: "world \<Rightarrow> incident \<Rightarrow> bool" where
  "at_risk w i \<longleftrightarrow> (\<exists>x \<in> set (sla_instances w). si_incidentId x = i_id i \<and> isSlaAtRisk x)"

definition is_p1p2 :: "incident \<Rightarrow> bool" where
  "is_p1p2 i \<longleftrightarrow> i_priority i = P1 \<or> i_priority i = P2"

definition ci_level :: "world \<Rightarrow> configuration_item \<Rightarrow> health_level" where
  "ci_level w ci = normalizeHealth (map_option hs_overallHealth (find_by hs_ciId (ci_id ci) (health_rows w)))"

definition oldest_open :: "incident list \<Rightarrow> instant option" where
  "oldest_open is = foldl (\<lambda>oldest i. case oldest of
       None \<Rightarrow> Some (i_createdAt i)
     | Some t \<Rightarrow> if i_createdAt i < t then Some (i_createdAt i) else oldest) None is"

text \<open>\<open>Math.round(x / 60000)\<close>.\<close>

definition round_minutes :: "int \<Rightarrow> int" where
  "round_minutes ms = (ms + 30000) div 60000"

definition siteCard :: "instant \<Rightarrow> world \<Rightarrow> configuration_item list \<Rightarrow> incident list \<Rightarrow> site \<Rightarrow> site_card" where
  "siteCard now w devices tickets site =
     (let siteCis = filter (\<lambda>ci. ci_siteId ci = s_id site) devices;
          servers = filter (\<lambda>ci. ci_ciType ci = CT_SERVER) siteCis;
          open = filter (\<lambda>i. i_siteId i = s_id site \<and> i_status i \<in> set OPEN_STATUSES) tickets in
      \<lparr>sk_id = s_id site, sk_code = s_code site, sk_name = s_name site,
       sk_health = worstOf (map (ci_level w) siteCis),
       sk_serversReachable = length (filter (\<lambda>ci. ci_level w ci \<noteq> L_CRITICAL \<and> ci_level w ci \<noteq> L_UNKNOWN) servers),
       sk_serversTotal = length servers,
       sk_openIncidents = length open,
       sk_oldestOpenIncidentAgeMinutes = map_option (\<lambda>t. round_minutes (now - t)) (oldest_open open),
       sk_p1p2OpenIncidents = length (filter is_p1p2 open),
       sk_slaAtRiskIncidents = length (filter (at_risk w) open)\<rparr>)"

text \<open>The running totals that the loop over the sites keeps: healthy, warning, critical, servers reachable, servers.\<close>

record tallies =
  ta_healthy :: nat
  ta_warning :: nat
  ta_critical :: nat
  ta_reachable :: nat
  ta_total :: nat

definition tally :: "tallies \<Rightarrow> site_card \<Rightarrow> tallies" where
  "tally t c =
     t\<lparr>ta_critical := ta_critical t + (if sk_health c = L_CRITICAL then 1 else 0),
       ta_warning := ta_warning t + (if sk_health c = L_WARNING then 1 else 0),
       ta_healthy := ta_healthy t + (if sk_health c = L_HEALTHY then 1 else 0),
       ta_total := ta_total t + sk_serversTotal c,
       ta_reachable := ta_reachable t + sk_serversReachable c\<rparr>"

definition sites_in_scope :: "uuid list option \<Rightarrow> world \<Rightarrow> site list" where
  "sites_in_scope accessible w =
     sort_key (\<lambda>s. env_collation (env w) (s_code s))
       (filter (\<lambda>s. case accessible of None \<Rightarrow> True | Some ids \<Rightarrow> s_id s \<in> set ids) (sites w))"

definition getCommandCenterSummary :: "instant \<Rightarrow> uuid list option \<Rightarrow> world \<Rightarrow> command_center_summary" where
  "getCommandCenterSummary now accessible w =
     (let scope = sites_in_scope accessible w;
          ids = map s_id scope;
          devices = filter (\<lambda>ci. ci_siteId ci \<in> set ids) (cis w);
          tickets = filter (\<lambda>i. i_siteId i \<in> set ids) (incidents w);
          criticalAlertsOpen = length (filter (\<lambda>a. (\<exists>s \<in> set ids. al_siteId a = Some s) \<and> al_severity a = A_CRITICAL \<and> al_state a = A_OPEN) (alerts w));
          cards = map (siteCard now w devices tickets) scope;
          t = foldl tally \<lparr>ta_healthy = 0, ta_warning = 0, ta_critical = 0, ta_reachable = 0, ta_total = 0\<rparr> cards;
          open = filter (\<lambda>i. i_status i \<in> set OPEN_STATUSES) tickets;
          p1p2 = length (filter is_p1p2 open);
          risk = length (filter (at_risk w) open) in
      \<lparr>cs_counters = \<lparr>cn_sitesHealthy = ta_healthy t, cn_sitesWarning = ta_warning t, cn_sitesCritical = ta_critical t,
         cn_serversReachable = ta_reachable t, cn_serversTotal = ta_total t, cn_criticalAlertsOpen = criticalAlertsOpen,
         cn_p1p2OpenIncidents = p1p2, cn_slaAtRiskIncidents = risk\<rparr>,
       cs_siteCards = cards,
       cs_queues = \<lparr>qu_unassigned = length (filter (\<lambda>i. i_status i = NEW) open),
         qu_awaitingAck = length (filter (\<lambda>i. i_status i = ASSIGNED) open), qu_slaBreachRisk = risk,
         qu_vendorWaiting = length (filter (\<lambda>i. i_status i = PENDING_VENDOR) open),
         qu_reopened = length (filter (\<lambda>i. i_status i = REOPENED) open)\<rparr>\<rparr>)"

section \<open>The export\<close>

text \<open>\<open>/[",\n]/.test(str)\<close>, and a quote inside is doubled.\<close>

definition csv_special :: "char \<Rightarrow> bool" where
  "csv_special c \<longleftrightarrow> c = CHR 0x22 \<or> c = CHR '','' \<or> c = CHR 0x0A"

definition double_quotes :: "string \<Rightarrow> string" where
  "double_quotes s = concat (map (\<lambda>c. if c = CHR 0x22 then [c, c] else [c]) s)"

definition csvField :: "string \<Rightarrow> string" where
  "csvField s = (if list_ex csv_special s then CHR 0x22 # double_quotes s @ [CHR 0x22] else s)"

definition metric_line :: "string \<Rightarrow> nat \<Rightarrow> string" where
  "metric_line name n = name @ '','' @ nat_str n"

definition SITE_COLUMNS :: "string list" where
  "SITE_COLUMNS = [''Site Code'', ''Site Name'', ''Health'', ''Servers Reachable'', ''Servers Total'', ''Open Incidents'',
     ''Oldest Open Incident (min)'', ''P1/P2 Open Incidents'', ''SLA At-Risk Incidents'']"

definition site_line :: "site_card \<Rightarrow> string" where
  "site_line c = join '','' [csvField (sk_code c), csvField (sk_name c), health_level_str (sk_health c), nat_str (sk_serversReachable c),
     nat_str (sk_serversTotal c), nat_str (sk_openIncidents c),
     (case sk_oldestOpenIncidentAgeMinutes c of None \<Rightarrow> [] | Some n \<Rightarrow> int_str n), nat_str (sk_p1p2OpenIncidents c),
     nat_str (sk_slaAtRiskIncidents c)]"

text \<open>\<open>generatedAt\<close> is the printed current time.\<close>

definition generateOperationalHealthCsv :: "string \<Rightarrow> instant \<Rightarrow> uuid list option \<Rightarrow> world \<Rightarrow> string" where
  "generateOperationalHealthCsv generatedAt now accessible w =
     (let s = getCommandCenterSummary now accessible w; c = cs_counters s; q = cs_queues s in
      join [CHR 0x0A]
        ([''JSAN Data Center OpsDesk - Operational Health Report'', ''Generated At,'' @ generatedAt,
          metric_line ''Sites In Scope'' (length (cs_siteCards s)), [], ''Summary'', ''Metric,Value'',
          metric_line ''Sites Healthy'' (cn_sitesHealthy c), metric_line ''Sites Warning'' (cn_sitesWarning c),
          metric_line ''Sites Critical'' (cn_sitesCritical c), metric_line ''Servers Reachable'' (cn_serversReachable c),
          metric_line ''Servers Total'' (cn_serversTotal c), metric_line ''Critical Alerts Open'' (cn_criticalAlertsOpen c),
          metric_line ''P1/P2 Open Incidents'' (cn_p1p2OpenIncidents c), metric_line ''SLA At-Risk Incidents'' (cn_slaAtRiskIncidents c),
          metric_line ''Unassigned Queue'' (qu_unassigned q), metric_line ''Awaiting Ack Queue'' (qu_awaitingAck q),
          metric_line ''SLA Breach Risk Queue'' (qu_slaBreachRisk q), metric_line ''Vendor Waiting Queue'' (qu_vendorWaiting q),
          metric_line ''Reopened Queue'' (qu_reopened q), [], ''Site Breakdown'', join '','' SITE_COLUMNS]
         @ map site_line (cs_siteCards s)))"

section \<open>Trends\<close>

definition dayKey :: "instant \<Rightarrow> int" where
  "dayKey t = t div 86400000"

text \<open>\<open>Math.round(sum / n)\<close>.\<close>

definition average :: "int list \<Rightarrow> int option" where
  "average values = (if values = [] then None else Some ((2 * sum_list values + int (length values)) div (2 * int (length values))))"

definition minutesBetween :: "instant \<Rightarrow> instant \<Rightarrow> int" where
  "minutesBetween start finish = round_minutes (finish - start)"

text \<open>The seeded days: \<open>for (cursor = from; cursor <= to; cursor.setUTCDate(cursor.getUTCDate() + 1))\<close>.\<close>

function seed_days :: "instant \<Rightarrow> instant \<Rightarrow> int list" where
  "seed_days cursor to = (if cursor \<le> to then dayKey cursor # seed_days (cursor + 86400000) to else [])"
  by auto

termination by (relation "measure (\<lambda>(cursor, to). nat (to - cursor + 1))") auto

declare seed_days.simps [simp del]

text \<open>The map from a day to its rows, as a list of its entries; a row of a day that was not seeded is dropped.\<close>

definition push_row :: "('r \<Rightarrow> instant) \<Rightarrow> (int \<times> 'r list) list \<Rightarrow> 'r \<Rightarrow> (int \<times> 'r list) list" where
  "push_row at m r = map (\<lambda>(d, rs). (d, if d = dayKey (at r) then rs @ [r] else rs)) m"

definition byDay :: "('r \<Rightarrow> instant) \<Rightarrow> instant \<Rightarrow> instant \<Rightarrow> 'r list \<Rightarrow> (int \<times> 'r list) list" where
  "byDay at start to rows = sort_key fst (foldl (push_row at) (map (\<lambda>d. (d, [])) (seed_days start to)) rows)"

record response_point =
  rp_date :: int
  rp_incidentsCreated :: nat
  rp_avgAckMinutes :: "int option"
  rp_avgRestoreMinutes :: "int option"

record response_summary =
  rsu_incidentCount :: nat
  rsu_avgAckMinutes :: "int option"
  rsu_avgRestoreMinutes :: "int option"

record response_trend_report =
  rt_windowDays :: nat
  rt_from :: instant
  rt_to :: instant
  rt_overall :: response_summary
  rt_daily :: "response_point list"
  rt_byPriority :: "(priority \<times> response_summary) list"

definition window_start :: "instant \<Rightarrow> nat \<Rightarrow> instant" where
  "window_start to windowDays = to - int windowDays * 86400000"

definition ack_minutes :: "incident list \<Rightarrow> int option" where
  "ack_minutes rows = average (List.map_filter (\<lambda>r. map_option (minutesBetween (i_createdAt r)) (i_acknowledgedAt r)) rows)"

definition restore_minutes :: "incident list \<Rightarrow> int option" where
  "restore_minutes rows = average (List.map_filter (\<lambda>r. map_option (minutesBetween (i_createdAt r)) (i_restoredAt r)) rows)"

definition summarize :: "incident list \<Rightarrow> response_summary" where
  "summarize rows = \<lparr>rsu_incidentCount = length rows, rsu_avgAckMinutes = ack_minutes rows, rsu_avgRestoreMinutes = restore_minutes rows\<rparr>"

definition trend_rows :: "instant \<Rightarrow> nat \<Rightarrow> uuid list option \<Rightarrow> world \<Rightarrow> incident list" where
  "trend_rows now windowDays accessible w =
     filter (\<lambda>i. (case accessible of None \<Rightarrow> True | Some ids \<Rightarrow> i_siteId i \<in> set ids) \<and>
       window_start now windowDays \<le> i_createdAt i \<and> i_createdAt i \<le> now) (incidents w)"

definition getResponseTrend :: "instant \<Rightarrow> uuid list option \<Rightarrow> nat \<Rightarrow> world \<Rightarrow> response_trend_report" where
  "getResponseTrend now accessible windowDays w =
     (let start = window_start now windowDays; rows = trend_rows now windowDays accessible w in
      \<lparr>rt_windowDays = windowDays, rt_from = start, rt_to = now, rt_overall = summarize rows,
       rt_daily = map (\<lambda>(d, rs). \<lparr>rp_date = d, rp_incidentsCreated = length rs, rp_avgAckMinutes = ack_minutes rs,
                                  rp_avgRestoreMinutes = restore_minutes rs\<rparr>) (byDay i_createdAt start now rows),
       rt_byPriority = map (\<lambda>p. (p, summarize (filter (\<lambda>i. i_priority i = p) rows))) [P1, P2, P3, P4]\<rparr>)"

record volume_point =
  vp_date :: int
  vp_bySeverity :: "(alert_severity \<times> nat) list"
  vp_total :: nat

record alert_insights_report =
  ai_windowDays :: nat
  ai_from :: instant
  ai_to :: instant
  ai_totalNewAlerts :: nat
  ai_bySeverity :: "(alert_severity \<times> nat) list"
  ai_byState :: "(alert_state \<times> nat) list"
  ai_daily :: "volume_point list"

definition alert_rows :: "instant \<Rightarrow> nat \<Rightarrow> uuid list option \<Rightarrow> world \<Rightarrow> alert list" where
  "alert_rows now windowDays accessible w =
     filter (\<lambda>a. (case accessible of None \<Rightarrow> True | Some ids \<Rightarrow> \<exists>s \<in> set ids. al_siteId a = Some s) \<and>
       window_start now windowDays \<le> al_firstSeenAt a \<and> al_firstSeenAt a \<le> now) (alerts w)"

definition count_by :: "('r \<Rightarrow> 'k) \<Rightarrow> 'k list \<Rightarrow> 'r list \<Rightarrow> ('k \<times> nat) list" where
  "count_by f ks rows = map (\<lambda>k. (k, length (filter (\<lambda>r. f r = k) rows))) ks"

definition SEVERITIES :: "alert_severity list" where
  "SEVERITIES = [A_CRITICAL, A_HIGH, A_WARNING, A_INFO]"

definition STATES :: "alert_state list" where
  "STATES = [A_OPEN, A_ACKNOWLEDGED, A_RECOVERED]"

definition getAlertInsights :: "instant \<Rightarrow> uuid list option \<Rightarrow> nat \<Rightarrow> world \<Rightarrow> alert_insights_report" where
  "getAlertInsights now accessible windowDays w =
     (let start = window_start now windowDays; rows = alert_rows now windowDays accessible w in
      \<lparr>ai_windowDays = windowDays, ai_from = start, ai_to = now, ai_totalNewAlerts = length rows,
       ai_bySeverity = count_by al_severity SEVERITIES rows, ai_byState = count_by al_state STATES rows,
       ai_daily = map (\<lambda>(d, rs). \<lparr>vp_date = d, vp_bySeverity = count_by al_severity SEVERITIES rs, vp_total = length rs\<rparr>)
         (byDay al_firstSeenAt start now rows)\<rparr>)"

section \<open>Counting by groups\<close>

text \<open>Whatever rows are grouped by, the groups add up: every row is in exactly one.\<close>

lemma sum_one_group: "distinct ks \<Longrightarrow> k \<in> set ks \<Longrightarrow> sum_list (map (\<lambda>x. if k = x then 1 else 0 :: nat) ks) = 1"
  by (induction ks) auto

lemma groups_add_up:
  assumes "distinct ks" "\<forall>r \<in> set rows. f r \<in> set ks"
  shows "sum_list (map (\<lambda>k. length (filter (\<lambda>r. f r = k) rows)) ks) = length rows"
  using assms(2)
proof (induction rows)
  case (Cons r rows)
  have "(\<lambda>k. length (filter (\<lambda>x. f x = k) (r # rows))) = (\<lambda>k. (if f r = k then 1 else 0) + length (filter (\<lambda>x. f x = k) rows))" by auto
  then show ?case using Cons sum_one_group [OF assms(1), of "f r"] by (simp add: sum_list_addf)
qed simp

lemma count_by_total: "distinct ks \<Longrightarrow> (\<And>r. f r \<in> set ks) \<Longrightarrow> sum_list (map snd (count_by f ks rows)) = length rows"
  using groups_add_up [of ks rows f] by (simp add: count_by_def comp_def)

lemma severities_all: "x \<in> set SEVERITIES" "distinct SEVERITIES"
  by (cases x) (simp_all add: SEVERITIES_def)

lemma states_all: "y \<in> set STATES" "distinct STATES"
  by (cases y) (simp_all add: STATES_def)

lemma filter_by_site: "filter (\<lambda>i. g i = k \<and> P i) (filter (\<lambda>i. g i \<in> S) xs) = (if k \<in> S then filter (\<lambda>i. g i = k) (filter P (filter (\<lambda>i. g i \<in> S) xs)) else [])"
  by (induction xs) auto

section \<open>Days\<close>

lemma seed_days_window: "seed_days start (start + int n * 86400000) = map (\<lambda>k. dayKey start + int k) [0..<Suc n]"
proof (induction n arbitrary: start)
  case 0
  show ?case by (subst seed_days.simps, simp, subst seed_days.simps) simp
next
  case (Suc n)
  have "dayKey (start + 86400000) = dayKey start + 1" by (simp add: dayKey_def)
  moreover have "start + int (Suc n) * 86400000 = start + 86400000 + int n * 86400000" by simp
  moreover have "[0..<Suc (Suc n)] = 0 # map Suc [0..<Suc n]" by (metis map_Suc_upt upt_conv_Cons zero_less_Suc)
  ultimately show ?case using Suc [of "start + 86400000"] by (subst seed_days.simps) (simp del: upt_Suc add: comp_def algebra_simps)
qed

lemma push_rows: "foldl (push_row at) m rows = map (\<lambda>(d, rs). (d, rs @ filter (\<lambda>r. dayKey (at r) = d) rows)) m"
proof (induction rows arbitrary: m)
  case (Cons r rows)
  have "foldl (push_row at) m (r # rows) = map (\<lambda>(d, rs). (d, rs @ filter (\<lambda>r. dayKey (at r) = d) rows)) (push_row at m r)"
    using Cons [of "push_row at m r"] by simp
  then show ?case unfolding push_row_def [of at m r] by (simp add: split_def comp_def eq_commute)
qed (simp add: split_def)

lemma byDay_eq:
  "byDay at (window_start now n) now rows = map (\<lambda>d. (d, filter (\<lambda>r. dayKey (at r) = d) rows)) (map (\<lambda>k. dayKey (window_start now n) + int k) [0..<Suc n])"
proof -
  have "now = window_start now n + int n * 86400000" by (simp add: window_start_def)
  then have days: "seed_days (window_start now n) now = map (\<lambda>k. dayKey (window_start now n) + int k) [0..<Suc n]"
    using seed_days_window [of "window_start now n" n] by simp
  have "sorted (map (\<lambda>k. dayKey (window_start now n) + int k) [0..<Suc n])" by (simp add: sorted_map sorted_wrt_iff_nth_less del: upt_Suc)
  then show ?thesis unfolding byDay_def push_rows days by (simp add: comp_def sorted_sort_id sort_key_id_if_sorted del: upt_Suc)
qed

lemma day_in_window:
  assumes "window_start now n \<le> t" "t \<le> now"
  shows "dayKey t \<in> set (map (\<lambda>k. dayKey (window_start now n) + int k) [0..<Suc n])"
proof -
  have "dayKey (window_start now n) \<le> dayKey t" "dayKey t \<le> dayKey now"
    using assms by (auto simp: dayKey_def zdiv_mono1)
  moreover have "dayKey now = dayKey (window_start now n) + int n" by (simp add: dayKey_def window_start_def)
  ultimately have "dayKey t = dayKey (window_start now n) + int (nat (dayKey t - dayKey (window_start now n)))"
    "nat (dayKey t - dayKey (window_start now n)) < Suc n" by auto
  then show ?thesis unfolding set_map by (intro image_eqI [of _ _ "nat (dayKey t - dayKey (window_start now n))"]) (simp_all del: upt_Suc)
qed

lemma days_add_up:
  assumes "\<forall>r \<in> set rows. window_start now n \<le> at r \<and> at r \<le> now"
  shows "sum_list (map (\<lambda>(d, rs). length rs) (byDay at (window_start now n) now rows)) = length rows"
proof -
  let ?days = "map (\<lambda>k. dayKey (window_start now n) + int k) [0..<Suc n]"
  have "distinct ?days" by (simp add: distinct_map inj_on_def del: upt_Suc)
  moreover have "\<forall>r \<in> set rows. dayKey (at r) \<in> set ?days" using assms day_in_window by blast
  ultimately show ?thesis unfolding byDay_eq using groups_add_up [of ?days rows "\<lambda>r. dayKey (at r)"] by (simp add: comp_def del: upt_Suc)
qed

lemma window_days: "map (\<lambda>k. dayKey (window_start now n) + int k) [0..<Suc n] = [dayKey (window_start now n)..dayKey now]"
proof (rule nth_equalityI)
  have last: "dayKey now = dayKey (window_start now n) + int n" by (simp add: dayKey_def window_start_def)
  then show "length (map (\<lambda>k. dayKey (window_start now n) + int k) [0..<Suc n]) = length [dayKey (window_start now n)..dayKey now]"
    by (simp del: upt_Suc)
  show "map (\<lambda>k. dayKey (window_start now n) + int k) [0..<Suc n] ! i = [dayKey (window_start now n)..dayKey now] ! i"
    if "i < length (map (\<lambda>k. dayKey (window_start now n) + int k) [0..<Suc n])" for i
    using that last by (simp del: upt_Suc add: nth_upto)
qed

lemma byDay_days: "map fst (byDay at (window_start now n) now rows) = [dayKey (window_start now n)..dayKey now]"
  unfolding byDay_eq window_days [symmetric] by (simp add: comp_def del: upt_Suc)

section \<open>The properties\<close>

text \<open>
  The trends account for every row of the window exactly once: the days run without a gap from the first to the last day of the
  window, and the daily numbers, the numbers by priority, by severity and by state all add up to the total.
\<close>

theorem trends_account_for_every_row:
  "(let r = getResponseTrend now accessible n w in
      map rp_date (rt_daily r) = [dayKey (rt_from r)..dayKey (rt_to r)] \<and>
      rsu_incidentCount (rt_overall r) = length (trend_rows now n accessible w) \<and>
      sum_list (map rp_incidentsCreated (rt_daily r)) = rsu_incidentCount (rt_overall r) \<and>
      sum_list (map (\<lambda>(p, s). rsu_incidentCount s) (rt_byPriority r)) = rsu_incidentCount (rt_overall r)) \<and>
   (let a = getAlertInsights now accessible n w in
      map vp_date (ai_daily a) = [dayKey (ai_from a)..dayKey (ai_to a)] \<and>
      sum_list (map vp_total (ai_daily a)) = ai_totalNewAlerts a \<and>
      sum_list (map snd (ai_bySeverity a)) = ai_totalNewAlerts a \<and> sum_list (map snd (ai_byState a)) = ai_totalNewAlerts a \<and>
      list_all (\<lambda>p. sum_list (map snd (vp_bySeverity p)) = vp_total p) (ai_daily a))"
proof -
  have prio: "sum_list (map (\<lambda>p. length (filter (\<lambda>i. i_priority i = p) rows)) [P1, P2, P3, P4]) = length rows" for rows
  proof (rule groups_add_up)
    have "p \<in> set [P1, P2, P3, P4]" for p by (cases p) auto
    then show "\<forall>r \<in> set rows. i_priority r \<in> set [P1, P2, P3, P4]" by blast
  qed simp
  have "sum_list (map (\<lambda>(d, rs). length rs) (byDay i_createdAt (window_start now n) now (trend_rows now n accessible w))) = length (trend_rows now n accessible w)"
    "sum_list (map (\<lambda>(d, rs). length rs) (byDay al_firstSeenAt (window_start now n) now (alert_rows now n accessible w))) = length (alert_rows now n accessible w)"
    by (rule days_add_up, auto simp: trend_rows_def alert_rows_def)+
  then show ?thesis using prio [of "trend_rows now n accessible w"]
    by (simp add: getResponseTrend_def getAlertInsights_def Let_def summarize_def comp_def split_def list_all_iff byDay_days count_by_total
        severities_all states_all del: upt_Suc)
qed

lemma worstOf_fold:
  "foldl (\<lambda>w level. if HEALTH_RANK w < HEALTH_RANK level then level else w) a ls =
     (if L_CRITICAL \<in> set (a # ls) then L_CRITICAL else if L_WARNING \<in> set (a # ls) then L_WARNING
      else if L_UNKNOWN \<in> set (a # ls) then L_UNKNOWN else L_HEALTHY)"
proof (induction ls arbitrary: a)
  case Nil
  show ?case by (cases a) auto
next
  case (Cons l ls)
  then show ?case by (cases a; cases l) auto
qed

lemma worstOf_iff:
  "worstOf ls = L_CRITICAL \<longleftrightarrow> L_CRITICAL \<in> set ls"
  "worstOf ls = L_HEALTHY \<longleftrightarrow> ls \<noteq> [] \<and> set ls \<subseteq> {L_HEALTHY}"
proof -
  have "x \<in> {L_HEALTHY, L_WARNING, L_CRITICAL, L_UNKNOWN}" for x by (cases x) auto
  then show "worstOf ls = L_CRITICAL \<longleftrightarrow> L_CRITICAL \<in> set ls" "worstOf ls = L_HEALTHY \<longleftrightarrow> ls \<noteq> [] \<and> set ls \<subseteq> {L_HEALTHY}"
    by (auto simp: worstOf_def worstOf_fold)
qed

lemma tally_fold:
  "foldl tally t cards = t\<lparr>ta_healthy := ta_healthy t + length (filter (\<lambda>c. sk_health c = L_HEALTHY) cards),
     ta_warning := ta_warning t + length (filter (\<lambda>c. sk_health c = L_WARNING) cards),
     ta_critical := ta_critical t + length (filter (\<lambda>c. sk_health c = L_CRITICAL) cards),
     ta_reachable := ta_reachable t + sum_list (map sk_serversReachable cards), ta_total := ta_total t + sum_list (map sk_serversTotal cards)\<rparr>"
  by (induction cards arbitrary: t) (simp_all add: tally_def)

lemma site_sums:
  assumes "distinct (map s_id scope)"
  shows "sum_list (map (\<lambda>s. length (filter P (filter (\<lambda>i. i_siteId i = s_id s \<and> Q i) (filter (\<lambda>i. i_siteId i \<in> set (map s_id scope)) is)))) scope)
    = length (filter P (filter Q (filter (\<lambda>i. i_siteId i \<in> set (map s_id scope)) is)))"
proof -
  let ?rows = "filter P (filter Q (filter (\<lambda>i. i_siteId i \<in> set (map s_id scope)) is))"
  have eq: "filter P (filter (\<lambda>i. i_siteId i = k \<and> Q i) xs) = filter (\<lambda>i. i_siteId i = k) (filter P (filter Q xs))" for k xs
    by (induction xs) auto
  have "sum_list (map (\<lambda>k. length (filter P (filter (\<lambda>i. i_siteId i = k \<and> Q i) (filter (\<lambda>i. i_siteId i \<in> set (map s_id scope)) is)))) (map s_id scope))
      = length ?rows"
    unfolding eq by (rule groups_add_up [OF assms]) auto
  then show ?thesis unfolding map_map comp_def .
qed

lemma siteCard_health:
  fixes now :: instant and w :: world and ds :: "configuration_item list" and ts :: "incident list" and site :: site
  defines "k \<equiv> siteCard now w ds ts site"
  shows "sk_serversReachable k \<le> sk_serversTotal k"
    "sk_health k = L_CRITICAL \<longleftrightarrow> (\<exists>ci \<in> set ds. ci_siteId ci = sk_id k \<and> ci_level w ci = L_CRITICAL)"
    "sk_health k = L_HEALTHY \<longleftrightarrow> (\<exists>ci \<in> set ds. ci_siteId ci = sk_id k) \<and> (\<forall>ci \<in> set ds. ci_siteId ci = sk_id k \<longrightarrow> ci_level w ci = L_HEALTHY)"
proof -
  show "sk_serversReachable k \<le> sk_serversTotal k" unfolding k_def siteCard_def Let_def by (simp del: filter_filter)
  have h: "sk_health k = worstOf (map (ci_level w) (filter (\<lambda>ci. ci_siteId ci = sk_id k) ds))" by (simp add: k_def siteCard_def Let_def)
  show "sk_health k = L_CRITICAL \<longleftrightarrow> (\<exists>ci \<in> set ds. ci_siteId ci = sk_id k \<and> ci_level w ci = L_CRITICAL)"
    unfolding h worstOf_iff by force
  show "sk_health k = L_HEALTHY \<longleftrightarrow> (\<exists>ci \<in> set ds. ci_siteId ci = sk_id k) \<and> (\<forall>ci \<in> set ds. ci_siteId ci = sk_id k \<longrightarrow> ci_level w ci = L_HEALTHY)"
    unfolding h worstOf_iff by (auto simp: filter_empty_conv)
qed

lemma siteCard_in_scope:
  assumes "k = siteCard now w (filter (\<lambda>ci. ci_siteId ci \<in> set (map s_id scope)) (cis w)) ts site" "site \<in> set scope"
  shows "sk_serversReachable k \<le> sk_serversTotal k \<and>
      (sk_health k = L_CRITICAL \<longleftrightarrow> (\<exists>ci \<in> set (cis w). ci_siteId ci = sk_id k \<and> ci_level w ci = L_CRITICAL)) \<and>
      (sk_health k = L_HEALTHY \<longleftrightarrow> sk_id k \<in> ci_siteId ` set (cis w) \<and> (\<forall>ci \<in> set (cis w). ci_siteId ci = sk_id k \<longrightarrow> ci_level w ci = L_HEALTHY))"
proof -
  define ds where "ds = filter (\<lambda>ci. ci_siteId ci \<in> set (map s_id scope)) (cis w)"
  have "sk_id k = s_id site" using assms(1) by (simp add: siteCard_def Let_def)
  then have "ci \<in> set ds \<longleftrightarrow> ci \<in> set (cis w)" if "ci_siteId ci = sk_id k" for ci using that assms(2) by (auto simp: ds_def)
  then have own: "(\<exists>ci \<in> set ds. ci_siteId ci = sk_id k \<and> Q ci) \<longleftrightarrow> (\<exists>ci \<in> set (cis w). ci_siteId ci = sk_id k \<and> Q ci)"
    "(\<forall>ci \<in> set ds. ci_siteId ci = sk_id k \<longrightarrow> Q ci) \<longleftrightarrow> (\<forall>ci \<in> set (cis w). ci_siteId ci = sk_id k \<longrightarrow> Q ci)" for Q by blast+
  have k: "k = siteCard now w ds ts site" using assms(1) by (simp only: ds_def)
  have "sk_id k \<in> ci_siteId ` set (cis w) \<longleftrightarrow> (\<exists>ci \<in> set ds. ci_siteId ci = sk_id k)" using own(1) [of "\<lambda>_. True"] by (metis image_iff)
  then show ?thesis using siteCard_health [where now = now and w = w and ds = ds and ts = ts and site = site, folded k] by (simp only: own simp_thms)
qed

text \<open>
  C35: The command center is consistent: there is one card for each site in scope and no other, the counters are the sums over the cards, of no site more servers are
  reachable than there are, and a site is critical just when one of its devices is, and healthy just when it has devices and all of them read healthy.
\<close>

theorem command_center_totals:
  assumes "distinct (map s_id (sites w))"
  shows "let s = getCommandCenterSummary now accessible w; c = cs_counters s; cards = cs_siteCards s in
     set (map sk_id cards) = {i \<in> s_id ` set (sites w). case accessible of None \<Rightarrow> True | Some ids \<Rightarrow> i \<in> set ids} \<and>
     cn_sitesHealthy c = length (filter (\<lambda>k. sk_health k = L_HEALTHY) cards) \<and> cn_sitesWarning c = length (filter (\<lambda>k. sk_health k = L_WARNING) cards) \<and>
     cn_sitesCritical c = length (filter (\<lambda>k. sk_health k = L_CRITICAL) cards) \<and>
     cn_serversReachable c = sum_list (map sk_serversReachable cards) \<and> cn_serversTotal c = sum_list (map sk_serversTotal cards) \<and>
     cn_p1p2OpenIncidents c = sum_list (map sk_p1p2OpenIncidents cards) \<and> cn_slaAtRiskIncidents c = sum_list (map sk_slaAtRiskIncidents cards) \<and>
     qu_slaBreachRisk (cs_queues s) = cn_slaAtRiskIncidents c \<and>
     (\<forall>k \<in> set cards. sk_serversReachable k \<le> sk_serversTotal k \<and>
        (sk_health k = L_CRITICAL \<longleftrightarrow> (\<exists>ci \<in> set (cis w). ci_siteId ci = sk_id k \<and> ci_level w ci = L_CRITICAL)) \<and>
        (sk_health k = L_HEALTHY \<longleftrightarrow> sk_id k \<in> ci_siteId ` set (cis w) \<and> (\<forall>ci \<in> set (cis w). ci_siteId ci = sk_id k \<longrightarrow> ci_level w ci = L_HEALTHY)))"
proof -
  let ?scope = "sites_in_scope accessible w"
  have dist: "distinct (map s_id ?scope)"
    using assms by (simp add: sites_in_scope_def distinct_map inj_on_def)
  have scope: "s_id ` set ?scope = {i \<in> s_id ` set (sites w). case accessible of None \<Rightarrow> True | Some ids \<Rightarrow> i \<in> set ids}"
    by (auto simp: sites_in_scope_def split: option.splits)
  have ids: "sk_id (siteCard now w d ts x) = s_id x" for d ts x by (simp add: siteCard_def Let_def)
  have counts: "sk_p1p2OpenIncidents (siteCard now w d ts x) = length (filter is_p1p2 (filter (\<lambda>i. i_siteId i = s_id x \<and> i_status i \<in> set OPEN_STATUSES) ts))"
    "sk_slaAtRiskIncidents (siteCard now w d ts x) = length (filter (at_risk w) (filter (\<lambda>i. i_siteId i = s_id x \<and> i_status i \<in> set OPEN_STATUSES) ts))" for d ts x
    by (simp_all add: siteCard_def Let_def)
  define ts where "ts = filter (\<lambda>i. i_siteId i \<in> set (map s_id ?scope)) (incidents w)"
  define cards where "cards = map (siteCard now w (filter (\<lambda>ci. ci_siteId ci \<in> set (map s_id ?scope)) (cis w)) ts) ?scope"
  have sums: "sum_list (map sk_p1p2OpenIncidents cards) = length (filter is_p1p2 (filter (\<lambda>i. i_status i \<in> set OPEN_STATUSES) ts))"
    "sum_list (map sk_slaAtRiskIncidents cards) = length (filter (at_risk w) (filter (\<lambda>i. i_status i \<in> set OPEN_STATUSES) ts))"
    unfolding cards_def ts_def map_map comp_def counts by (rule site_sums [OF dist])+
  have ids: "set (map sk_id cards) = s_id ` set ?scope" by (simp add: cards_def comp_def ids)
  have health: "\<forall>k \<in> set cards. sk_serversReachable k \<le> sk_serversTotal k \<and>
      (sk_health k = L_CRITICAL \<longleftrightarrow> (\<exists>ci \<in> set (cis w). ci_siteId ci = sk_id k \<and> ci_level w ci = L_CRITICAL)) \<and>
      (sk_health k = L_HEALTHY \<longleftrightarrow> sk_id k \<in> ci_siteId ` set (cis w) \<and> (\<forall>ci \<in> set (cis w). ci_siteId ci = sk_id k \<longrightarrow> ci_level w ci = L_HEALTHY))"
  proof
    fix k assume "k \<in> set cards"
    then obtain site where "k = siteCard now w (filter (\<lambda>ci. ci_siteId ci \<in> set (map s_id ?scope)) (cis w)) ts site" "site \<in> set ?scope"
      unfolding cards_def set_map [of _ ?scope] by blast
    then show "sk_serversReachable k \<le> sk_serversTotal k \<and>
      (sk_health k = L_CRITICAL \<longleftrightarrow> (\<exists>ci \<in> set (cis w). ci_siteId ci = sk_id k \<and> ci_level w ci = L_CRITICAL)) \<and>
      (sk_health k = L_HEALTHY \<longleftrightarrow> sk_id k \<in> ci_siteId ` set (cis w) \<and> (\<forall>ci \<in> set (cis w). ci_siteId ci = sk_id k \<longrightarrow> ci_level w ci = L_HEALTHY))"
      by (rule siteCard_in_scope)
  qed
  show ?thesis
    unfolding getCommandCenterSummary_def Let_def command_center_summary.simps command_counters.simps command_queues.simps tally_fold ts_def [symmetric]
      cards_def [symmetric] sums ids scope tallies.simps
    by (intro conjI; (rule health | rule refl | simp only: add_0))
qed

section \<open>Reading the export\<close>

text \<open>
  A reader for CSV after RFC 4180: records end at a line feed, fields at a comma, a field that begins with a quote ends at the next
  quote that is not doubled.
\<close>

fun csv_plain :: "string \<Rightarrow> string list \<Rightarrow> string \<Rightarrow> string list list"
  and csv_quoted :: "string \<Rightarrow> string list \<Rightarrow> string \<Rightarrow> string list list" where
  "csv_plain cur fs [] = [rev (rev cur # fs)]"
| "csv_plain cur fs (c # cs) =
     (if c = CHR '','' then csv_plain [] (rev cur # fs) cs
      else if c = CHR 0x0A then rev (rev cur # fs) # csv_plain [] [] cs
      else if c = CHR 0x22 \<and> cur = [] then csv_quoted [] fs cs
      else csv_plain (c # cur) fs cs)"
| "csv_quoted cur fs [] = [rev (rev cur # fs)]"
| "csv_quoted cur fs (c # cs) =
     (if c = CHR 0x22
      then (case cs of d # ds \<Rightarrow> if d = CHR 0x22 then csv_quoted (d # cur) fs ds else csv_plain cur fs cs | [] \<Rightarrow> csv_plain cur fs cs)
      else csv_quoted (c # cur) fs cs)"

definition csv_read :: "string \<Rightarrow> string list list" where
  "csv_read = csv_plain [] []"

definition cell_end :: "string \<Rightarrow> bool" where
  "cell_end rest \<longleftrightarrow> (case rest of [] \<Rightarrow> True | c # _ \<Rightarrow> c = CHR '','' \<or> c = CHR 0x0A)"

lemma csv_plain_field: "list_all (\<lambda>c. \<not> csv_special c) s \<Longrightarrow> csv_plain cur fs (s @ rest) = csv_plain (rev s @ cur) fs rest"
  by (induction s arbitrary: cur) (auto simp: csv_special_def)

lemma csv_quoted_field: "cell_end rest \<Longrightarrow> csv_quoted cur fs (double_quotes s @ CHR 0x22 # rest) = csv_plain (rev s @ cur) fs rest"
proof (induction s arbitrary: cur)
  case Nil
  then show ?case by (cases rest) (auto simp: double_quotes_def cell_end_def)
next
  case (Cons c s)
  then show ?case by (auto simp: double_quotes_def)
qed

lemma csv_field: "cell_end rest \<Longrightarrow> csv_plain [] fs (csvField s @ rest) = csv_plain (rev s) fs rest"
  using csv_quoted_field [of rest "[]" fs s] csv_plain_field [of s "[]" fs rest]
  by (auto simp: csvField_def list_ex_iff list_all_iff)

lemma csv_cells:
  assumes "cells \<noteq> []" "cell_end rest" "rest = [] \<or> hd rest = CHR 0x0A"
  shows "csv_plain [] fs (join '','' (map csvField cells) @ rest) =
    (case rest of [] \<Rightarrow> [rev fs @ cells] | _ # cs \<Rightarrow> (rev fs @ cells) # csv_plain [] [] cs)"
  using assms(1)
proof (induction cells arbitrary: fs)
  case (Cons x cells)
  show ?case
  proof (cases cells)
    case Nil
    then show ?thesis using csv_field [OF assms(2), of fs x] assms(3) by (cases rest) auto
  next
    case (Cons y ys)
    have "csv_plain [] fs (join '','' (map csvField (x # cells)) @ rest) = csv_plain [] (x # fs) (join '','' (map csvField cells) @ rest)"
      using Cons csv_field [of "CHR '','' # join '','' (map csvField cells) @ rest" fs x] by (simp add: cell_end_def)
    then show ?thesis using Cons.IH [of "x # fs"] Cons by (cases rest) auto
  qed
qed simp

definition csv_write :: "string list list \<Rightarrow> string" where
  "csv_write rows = join [CHR 0x0A] (map (\<lambda>r. join '','' (map csvField r)) rows)"

lemma csv_read_write: "rows \<noteq> [] \<Longrightarrow> [] \<notin> set rows \<Longrightarrow> csv_read (csv_write rows) = rows"
proof (induction rows)
  case (Cons r rows)
  show ?case
  proof (cases rows)
    case Nil
    then show ?thesis using csv_cells [of r "[]" "[]"] Cons.prems by (simp add: csv_read_def csv_write_def cell_end_def)
  next
    case (Cons s rs)
    have "r \<noteq> []" using Cons.prems by auto
    then have "csv_read (csv_write (r # rows)) = r # csv_read (csv_write rows)"
      using csv_cells [of r "CHR 0x0A # csv_write rows" "[]"] Cons by (simp add: csv_read_def csv_write_def cell_end_def)
    then show ?thesis using Cons.IH Cons.prems Cons by simp
  qed
qed simp

lemma csvField_plain: "list_all (\<lambda>c. \<not> csv_special c) s \<Longrightarrow> csvField s = s"
  by (auto simp: csvField_def list_ex_iff list_all_iff)

lemma digit_plain: "n < 10 \<Longrightarrow> \<not> csv_special (digit_char n)"
proof -
  have "\<forall>n \<in> set [0..<10]. \<not> csv_special (digit_char n)" by code_simp
  then show "n < 10 \<Longrightarrow> \<not> csv_special (digit_char n)" by simp
qed

lemma nat_str_plain: "list_all (\<lambda>c. \<not> csv_special c) (nat_str n)"
proof (induction n rule: nat_str.induct)
  case (1 n)
  then show ?case by (subst nat_str.simps) (auto simp: digit_plain)
qed

lemma csvField_numbers [simp]: "csvField (nat_str n) = nat_str n" "csvField (int_str i) = int_str i" "csvField (health_level_str h) = health_level_str h"
  using nat_str_plain by (auto intro!: csvField_plain simp: int_str_def csv_special_def) (cases h; simp)

definition metric_row :: "string \<Rightarrow> nat \<Rightarrow> string list" where
  "metric_row name n = [name, nat_str n]"

definition site_row :: "site_card \<Rightarrow> string list" where
  "site_row c = [sk_code c, sk_name c, health_level_str (sk_health c), nat_str (sk_serversReachable c), nat_str (sk_serversTotal c),
     nat_str (sk_openIncidents c), (case sk_oldestOpenIncidentAgeMinutes c of None \<Rightarrow> [] | Some n \<Rightarrow> int_str n),
     nat_str (sk_p1p2OpenIncidents c), nat_str (sk_slaAtRiskIncidents c)]"

definition report_rows :: "string \<Rightarrow> command_center_summary \<Rightarrow> string list list" where
  "report_rows generatedAt s = (let c = cs_counters s; q = cs_queues s in
     [[''JSAN Data Center OpsDesk - Operational Health Report''], [''Generated At'', generatedAt],
      metric_row ''Sites In Scope'' (length (cs_siteCards s)), [[]], [''Summary''], [''Metric'', ''Value''],
      metric_row ''Sites Healthy'' (cn_sitesHealthy c), metric_row ''Sites Warning'' (cn_sitesWarning c),
      metric_row ''Sites Critical'' (cn_sitesCritical c), metric_row ''Servers Reachable'' (cn_serversReachable c),
      metric_row ''Servers Total'' (cn_serversTotal c), metric_row ''Critical Alerts Open'' (cn_criticalAlertsOpen c),
      metric_row ''P1/P2 Open Incidents'' (cn_p1p2OpenIncidents c), metric_row ''SLA At-Risk Incidents'' (cn_slaAtRiskIncidents c),
      metric_row ''Unassigned Queue'' (qu_unassigned q), metric_row ''Awaiting Ack Queue'' (qu_awaitingAck q),
      metric_row ''SLA Breach Risk Queue'' (qu_slaBreachRisk q), metric_row ''Vendor Waiting Queue'' (qu_vendorWaiting q),
      metric_row ''Reopened Queue'' (qu_reopened q), [[]], [''Site Breakdown''], SITE_COLUMNS]
     @ map site_row (cs_siteCards s))"

lemma site_line_row: "site_line c = join '','' (map csvField (site_row c))"
  by (cases "sk_oldestOpenIncidentAgeMinutes c") (simp_all add: site_line_def site_row_def, simp add: csvField_def)

lemma csv_literals:
  "csvField [] = []"
  "csvField ''Site Code'' = ''Site Code''"
  "csvField ''Site Name'' = ''Site Name''"
  "csvField ''Health'' = ''Health''"
  "csvField ''Servers Reachable'' = ''Servers Reachable''"
  "csvField ''Servers Total'' = ''Servers Total''"
  "csvField ''Open Incidents'' = ''Open Incidents''"
  "csvField ''Oldest Open Incident (min)'' = ''Oldest Open Incident (min)''"
  "csvField ''P1/P2 Open Incidents'' = ''P1/P2 Open Incidents''"
  "csvField ''SLA At-Risk Incidents'' = ''SLA At-Risk Incidents''"
  "csvField ''JSAN Data Center OpsDesk - Operational Health Report'' = ''JSAN Data Center OpsDesk - Operational Health Report''"
  "csvField ''Generated At'' = ''Generated At''"
  "csvField ''Sites In Scope'' = ''Sites In Scope''"
  "csvField ''Summary'' = ''Summary''"
  "csvField ''Metric'' = ''Metric''"
  "csvField ''Value'' = ''Value''"
  "csvField ''Sites Healthy'' = ''Sites Healthy''"
  "csvField ''Sites Warning'' = ''Sites Warning''"
  "csvField ''Sites Critical'' = ''Sites Critical''"
  "csvField ''Critical Alerts Open'' = ''Critical Alerts Open''"
  "csvField ''Unassigned Queue'' = ''Unassigned Queue''"
  "csvField ''Awaiting Ack Queue'' = ''Awaiting Ack Queue''"
  "csvField ''SLA Breach Risk Queue'' = ''SLA Breach Risk Queue''"
  "csvField ''Vendor Waiting Queue'' = ''Vendor Waiting Queue''"
  "csvField ''Reopened Queue'' = ''Reopened Queue''"
  "csvField ''Site Breakdown'' = ''Site Breakdown''"
  by code_simp+

text \<open>
  The export reads back: a reader for CSV gets from it exactly the rows of the report, with the code and the name of every site as they are stored, whatever
  commas, quotes and line feeds they contain.
\<close>

theorem export_reads_back:
  assumes "list_all (\<lambda>c. \<not> csv_special c) generatedAt"
  shows "csv_read (generateOperationalHealthCsv generatedAt now accessible w) = report_rows generatedAt (getCommandCenterSummary now accessible w)"
proof -
  let ?s = "getCommandCenterSummary now accessible w"
  have "generateOperationalHealthCsv generatedAt now accessible w = csv_write (report_rows generatedAt ?s)"
    unfolding generateOperationalHealthCsv_def csv_write_def report_rows_def Let_def site_line_row [abs_def] metric_line_def metric_row_def SITE_COLUMNS_def
      map_append list.map csv_literals csvField_numbers csvField_plain [OF assms] map_map comp_def join.simps append_Cons append_Nil append_assoc
    by (rule refl)
  moreover have "[] \<notin> set (report_rows generatedAt ?s)"
    by (auto simp: report_rows_def Let_def metric_row_def site_row_def SITE_COLUMNS_def)
  ultimately show ?thesis using csv_read_write [of "report_rows generatedAt ?s"] by (simp add: report_rows_def Let_def)
qed

definition report_world :: world where
  "report_world = empty_world\<lparr>sites := [\<lparr>s_id = ''1'', s_code = ''BLR'', s_name = ''Hall \" 1, east'', s_timezone = ''UTC'', s_is247 = False, s_status = ''ACTIVE''\<rparr>]\<rparr>"

theorem export_reads_back_witness:
  "[''BLR'', ''Hall \" 1, east''] \<in> set (map (take 2) (csv_read (generateOperationalHealthCsv ''2026-01-01T00:00:00.000Z'' 0 None report_world)))"
proof -
  have "list_all (\<lambda>c. \<not> csv_special c) ''2026-01-01T00:00:00.000Z''" by code_simp
  from export_reads_back [OF this, of 0 None report_world]
  have "csv_read (generateOperationalHealthCsv ''2026-01-01T00:00:00.000Z'' 0 None report_world) =
      report_rows ''2026-01-01T00:00:00.000Z'' (getCommandCenterSummary 0 None report_world)" .
  moreover have "[''BLR'', ''Hall \" 1, east''] \<in> set (map (take 2) (report_rows ''2026-01-01T00:00:00.000Z'' (getCommandCenterSummary 0 None report_world)))"
    by code_simp
  ultimately show ?thesis by simp
qed

theorem command_center_totals_witness:
  "cn_serversTotal (cs_counters (getCommandCenterSummary 0 None report_world)) = sum_list (map sk_serversTotal (cs_siteCards (getCommandCenterSummary 0 None report_world)))"
proof -
  have "distinct (map s_id (sites report_world))" by (simp add: report_world_def)
  from command_center_totals [OF this, of 0 None] show ?thesis by (simp add: Let_def)
qed

end
