(* ===== verification/Mail.thy ===== *)
theory Mail
  imports Js_Text
begin

text \<open>
  The mail adapter (\<^verbatim>\<open>integrations/email\<close>): notifications and account mails are rendered, and a received mail is read as
  a comment on a ticket. Texts are sequences of UTF-8 bytes; instants in a mail are printed by the caller.
\<close>

section \<open>What a mail is about\<close>

record mail_party =
  mp_name :: "string option"
  mp_email :: string

record entity_ref =
  er_key :: string
  er_title :: string
  er_url :: "string option"
  er_siteCode :: "string option"
  er_priority :: "string option"
  er_severity :: "string option"

datatype mail_sla_kind = RESPONSE | RESOLUTION

primrec mail_sla_kind_str :: "mail_sla_kind \<Rightarrow> string" where
  "mail_sla_kind_str RESPONSE = ''RESPONSE''"
| "mail_sla_kind_str RESOLUTION = ''RESOLUTION''"

datatype notification_event =
    N_INCIDENT_CREATED (ev_entity: entity_ref) "mail_party option"
  | N_INCIDENT_ASSIGNED (ev_entity: entity_ref) mail_party "mail_party option"
  | N_INCIDENT_GROUP_ASSIGNED (ev_entity: entity_ref) string "mail_party option"
  | N_INCIDENT_STATUS_CHANGED (ev_entity: entity_ref) string string "mail_party option" "string option"
  | N_INCIDENT_COMMENT_ADDED (ev_entity: entity_ref) mail_party string
  | N_SLA_WARNING (ev_entity: entity_ref) mail_sla_kind string int
  | N_SLA_BREACHED (ev_entity: entity_ref) mail_sla_kind string
  | N_INCIDENT_OFFERED (ev_entity: entity_ref) mail_party string int
  | N_INCIDENT_OFFER_UNACCEPTED (ev_entity: entity_ref) "string list"
  | N_CHANGE_APPROVED (ev_entity: entity_ref) mail_party string string
  | N_ALERT_RAISED (ev_entity: entity_ref) string string
  | N_ALERT_RECOVERED_AFTER_RESOLVE (ev_entity: entity_ref) string string string
  | N_VENDOR_CASE_UPDATE (ev_entity: entity_ref) string "mail_party option"
  | N_RISK_STATUS_CHANGED (ev_entity: entity_ref) string string "mail_party option" "string option"

fun event_kind :: "notification_event \<Rightarrow> string" where
  "event_kind (N_INCIDENT_CREATED _ _) = ''INCIDENT_CREATED''"
| "event_kind (N_INCIDENT_ASSIGNED _ _ _) = ''INCIDENT_ASSIGNED''"
| "event_kind (N_INCIDENT_GROUP_ASSIGNED _ _ _) = ''INCIDENT_GROUP_ASSIGNED''"
| "event_kind (N_INCIDENT_STATUS_CHANGED _ _ _ _ _) = ''INCIDENT_STATUS_CHANGED''"
| "event_kind (N_INCIDENT_COMMENT_ADDED _ _ _) = ''INCIDENT_COMMENT_ADDED''"
| "event_kind (N_SLA_WARNING _ _ _ _) = ''SLA_WARNING''"
| "event_kind (N_SLA_BREACHED _ _ _) = ''SLA_BREACHED''"
| "event_kind (N_INCIDENT_OFFERED _ _ _ _) = ''INCIDENT_OFFERED''"
| "event_kind (N_INCIDENT_OFFER_UNACCEPTED _ _) = ''INCIDENT_OFFER_UNACCEPTED''"
| "event_kind (N_CHANGE_APPROVED _ _ _ _) = ''CHANGE_APPROVED''"
| "event_kind (N_ALERT_RAISED _ _ _) = ''ALERT_RAISED''"
| "event_kind (N_ALERT_RECOVERED_AFTER_RESOLVE _ _ _ _) = ''INCIDENT_ALERT_RECOVERED_AFTER_RESOLVE''"
| "event_kind (N_VENDOR_CASE_UPDATE _ _ _) = ''VENDOR_CASE_UPDATE''"
| "event_kind (N_RISK_STATUS_CHANGED _ _ _ _ _) = ''RISK_STATUS_CHANGED''"

record rendered_email =
  re_to :: "string list"
  re_cc :: "string list"
  re_subject :: string
  re_text :: string
  re_html :: string
  re_headers :: "(string \<times> string) list"

record mail_error =
  me_message :: string
  me_field :: string

section \<open>Rendering\<close>

definition EM_DASH :: string where
  "EM_DASH = [CHR 0xE2, CHR 0x80, CHR 0x94]"

definition ARROW :: string where
  "ARROW = [CHR 0xE2, CHR 0x86, CHR 0x92]"

definition URGENT_MARK :: string where
  "URGENT_MARK = [CHR 0xE2, CHR 0x80, CHR 0xBC]"

text \<open>\<open>replace(/[^a-z0-9]+/g, "-")\<close>: a run of other characters becomes one hyphen.\<close>

fun collapse :: "bool \<Rightarrow> string \<Rightarrow> string" where
  "collapse inrun [] = []"
| "collapse inrun (c # cs) =
     (if is_lower c \<or> is_digit c then c # collapse False cs
      else if inrun then collapse True cs else CHR ''-'' # collapse True cs)"

definition mail_slug :: "string \<Rightarrow> string" where
  "mail_slug value = strip_trailing CHR ''-'' (dropWhile (\<lambda>c. c = CHR ''-'') (collapse False (toLowerCase (trim value))))"

definition entityMessageId :: "string \<Rightarrow> string" where
  "entityMessageId key = ''<opsdesk.'' @ mail_slug key @ ''@opsdesk.local>''"

definition addr :: "mail_party \<Rightarrow> string" where
  "addr p = (if truthy (mp_name p) then the (mp_name p) @ '' <'' @ mp_email p @ ''>'' else mp_email p)"

text \<open>\<open>p.name ?? p.email\<close>.\<close>

definition display :: "mail_party \<Rightarrow> string" where
  "display p = option_default (mp_email p) (mp_name p)"

definition upper_hex :: "nat \<Rightarrow> char" where
  "upper_hex n = (if n < 10 then char_of (48 + n) else char_of (55 + n))"

definition uri_safe :: "char \<Rightarrow> bool" where
  "uri_safe c \<longleftrightarrow> is_upper c \<or> is_lower c \<or> is_digit c \<or> c \<in> set [CHR ''-'', CHR ''_'', CHR ''.'', CHR ''!'', CHR ''~'', CHR ''*'', CHR 0x27, CHR ''('', CHR '')'']"

definition encodeURIComponent :: "string \<Rightarrow> string" where
  "encodeURIComponent s = concat (map (\<lambda>c. if uri_safe c then [c] else [CHR ''%'', upper_hex (of_char c div 16), upper_hex (of_char c mod 16)]) s)"

definition entityUrl :: "entity_ref \<Rightarrow> string option \<Rightarrow> string option" where
  "entityUrl e portalBaseUrl =
     (if truthy (er_url e) then er_url e
      else if truthy portalBaseUrl then Some (strip_trailing CHR ''/'' (the portalBaseUrl) @ ''/entity/'' @ encodeURIComponent (er_key e))
      else None)"

definition minutesPhrase :: "int \<Rightarrow> string" where
  "minutesPhrase minutes =
     (let m = max 0 minutes in
      if m < 60 then int_str m @ '' min''
      else if m mod 60 \<noteq> 0 then int_str (m div 60) @ ''h '' @ int_str (m mod 60) @ ''m'' else int_str (m div 60) @ ''h'')"

definition said_by :: "string \<Rightarrow> mail_party option \<Rightarrow> string \<Rightarrow> string" where
  "said_by before p after = (case p of None \<Rightarrow> [] | Some q \<Rightarrow> before @ addr q @ after)"

definition noted :: "string \<Rightarrow> string option \<Rightarrow> string" where
  "noted before t = (if truthy t then before @ the t else [])"

text \<open>The phrase of the subject, the lines of the body and whether the mail is urgent.\<close>

fun renderBody :: "notification_event \<Rightarrow> string \<times> string list \<times> bool" where
  "renderBody (N_INCIDENT_CREATED e reporter) =
     (''new ticket needs triage'', [er_key e @ '' was just raised'' @ said_by '' by '' reporter [] @ '' and is waiting in the queue.''], False)"
| "renderBody (N_INCIDENT_ASSIGNED e assignee actor) =
     (''assigned to '' @ display assignee,
      [er_key e @ '' has been assigned to '' @ addr assignee @ ''.'', said_by ''Assigned by '' actor ''.''], False)"
| "renderBody (N_INCIDENT_GROUP_ASSIGNED e grp actor) =
     (''assigned to '' @ grp,
      [er_key e @ '' has been assigned to the '' @ grp @ '' group '' @ EM_DASH @ '' no individual owner yet.'', said_by ''Assigned by '' actor ''.''], False)"
| "renderBody (N_INCIDENT_STATUS_CHANGED e src dst actor comment) =
     (src @ '' '' @ ARROW @ '' '' @ dst,
      [er_key e @ '' moved from '' @ src @ '' to '' @ dst @ ''.'', said_by ''Changed by '' actor ''.'', noted ''Comment: '' comment], False)"
| "renderBody (N_INCIDENT_COMMENT_ADDED e author body) =
     (''new comment from '' @ display author, [addr author @ '' commented on '' @ er_key e @ '':'', body], False)"
| "renderBody (N_SLA_WARNING e k dueAt minutesRemaining) =
     (mail_sla_kind_str k @ '' SLA due in '' @ minutesPhrase minutesRemaining,
      [''The '' @ toLowerCase (mail_sla_kind_str k) @ '' SLA for '' @ er_key e @ '' is due at '' @ dueAt, ''('' @ minutesPhrase minutesRemaining @ '' remaining).''],
      minutesRemaining \<le> 15)"
| "renderBody (N_SLA_BREACHED e k breachedAt) =
     (mail_sla_kind_str k @ '' SLA BREACHED'', [''The '' @ toLowerCase (mail_sla_kind_str k) @ '' SLA for '' @ er_key e @ '' breached at '' @ breachedAt @ ''.''], True)"
| "renderBody (N_INCIDENT_OFFERED e offeredTo expiresAt timeoutMinutes) =
     (''offered to you (accept within '' @ minutesPhrase timeoutMinutes @ '')'',
      [er_key e @ '' matches your skills and shift, so it has been offered to '' @ addr offeredTo @ ''.'',
       ''Accept or decline it in the portal before '' @ expiresAt @ ''. If you don'' @ [CHR 0x27] @ ''t respond, it goes to the next engineer.''], True)"
| "renderBody (N_INCIDENT_OFFER_UNACCEPTED e offeredTo) =
     (''no engineer accepted, needs manual assignment'',
      [''No engineer accepted '' @ er_key e @ ''. It was offered to: '' @ join '', '' offeredTo @ ''.'', ''It is still NEW and unowned. Please assign it manually.''], True)"
| "renderBody (N_CHANGE_APPROVED e approver windowStart windowEnd) =
     (''approved by '' @ display approver,
      [er_key e @ '' was approved by '' @ addr approver @ ''.'', ''Maintenance window: '' @ windowStart @ '' '' @ ARROW @ '' '' @ windowEnd @ ''.''], False)"
| "renderBody (N_ALERT_RAISED e alertType state) =
     (alertType @ '' ('' @ state @ '')'', [''Alert '' @ alertType @ '' is '' @ state @ '' on '' @ er_key e @ ''.''],
      toUpperCase (option_default [] (er_severity e)) = ''CRITICAL'')"
| "renderBody (N_ALERT_RECOVERED_AFTER_RESOLVE e alertType severity recoveredAt) =
     (alertType @ '' recovered'',
      [''The '' @ alertType @ '' ('' @ severity @ '') alert linked to '' @ er_key e @ '' was just reported RECOVERED by monitoring, at '' @ recoveredAt @ ''.'',
       ''This ticket was already resolved/closed before that happened '' @ EM_DASH @ '' the underlying condition has now genuinely cleared.''], False)"
| "renderBody (N_VENDOR_CASE_UPDATE e note author) =
     (''vendor update'', [''New update on '' @ er_key e @ said_by '' from '' author [] @ '':'', note], False)"
| "renderBody (N_RISK_STATUS_CHANGED e src dst actor note) =
     (src @ '' '' @ ARROW @ '' '' @ dst,
      [er_key e @ '' moved from '' @ src @ '' to '' @ dst @ ''.'', said_by ''Changed by '' actor ''.'', noted ''Mitigation / rationale: '' note], False)"

definition escape_char :: "char \<Rightarrow> string" where
  "escape_char c =
     (if c = CHR ''&'' then ''&amp;'' else if c = CHR ''<'' then ''&lt;'' else if c = CHR ''>'' then ''&gt;'' else if c = CHR 0x22 then ''&quot;'' else [c])"

text \<open>The four replacements, the ampersand first, are one pass.\<close>

definition escapeHtml :: "string \<Rightarrow> string" where
  "escapeHtml s = concat (map escape_char s)"

definition html_line :: "string option \<Rightarrow> string \<Rightarrow> string" where
  "html_line url line =
     (case url of
        Some u \<Rightarrow>
          if u \<noteq> [] \<and> ends_with u line
          then ''<p>'' @ escapeHtml (take (length line - length u) line) @ ''<a href=\"'' @ escapeHtml u @ ''\">'' @ escapeHtml u @ ''</a></p>''
          else ''<p>'' @ escapeHtml line @ ''</p>''
      | None \<Rightarrow> ''<p>'' @ escapeHtml line @ ''</p>'')"

definition renderHtml :: "string list \<Rightarrow> string option \<Rightarrow> string" where
  "renderHtml lines url =
     ''<!doctype html><html><body style=\"font-family:system-ui,sans-serif\">'' @ [CHR 0x0A] @ join [CHR 0x0A] (map (html_line url) lines) @ [CHR 0x0A] @ ''</body></html>''"

definition REPLY_LINE :: string where
  "REPLY_LINE = ''Automated OpsDesk notification. Reply above this line to add a worklog comment.''"

definition body_lines :: "entity_ref \<Rightarrow> string \<Rightarrow> string list \<Rightarrow> string option \<Rightarrow> string list" where
  "body_lines e key lines url = filter (\<lambda>l. l \<noteq> [])
     ([key @ '': '' @ er_title e, noted ''Priority: '' (er_priority e), noted ''Severity: '' (er_severity e), []]
      @ filter (\<lambda>l. l \<noteq> []) lines
      @ [[], noted ''View in portal: '' url, EM_DASH, REPLY_LINE])"

definition subject_of :: "bool \<Rightarrow> string option \<Rightarrow> string \<Rightarrow> string \<Rightarrow> string" where
  "subject_of urgent siteCode key phrase =
     (if urgent then URGENT_MARK @ '' '' else []) @ (if truthy siteCode then ''['' @ the siteCode @ ''] '' else []) @ key @ '' '' @ EM_DASH @ '' '' @ phrase"

definition renderNotification :: "notification_event \<Rightarrow> mail_party list \<Rightarrow> mail_party list \<Rightarrow> string option \<Rightarrow> mail_error + rendered_email" where
  "renderNotification event to cc portalBaseUrl =
     (if to = [] then Inl \<lparr>me_message = ''notification '' @ event_kind event @ '' has no \"to\" recipients'', me_field = ''to''\<rparr>
      else
        let e = ev_entity event; key = trim (er_key e) in
        if key = [] then Inl \<lparr>me_message = ''notification '' @ event_kind event @ '' has no entity key'', me_field = ''entity.key''\<rparr>
        else
          (case renderBody event of (phrase, lines, urgent) \<Rightarrow>
             let url = entityUrl e portalBaseUrl; ls = body_lines e key lines url; anchor = entityMessageId key in
             Inr \<lparr>re_to = map addr to, re_cc = map addr cc, re_subject = subject_of urgent (er_siteCode e) key phrase,
                  re_text = join [CHR 0x0A] ls, re_html = renderHtml ls url,
                  re_headers = [(''In-Reply-To'', anchor), (''References'', anchor), (''X-OpsDesk-Event'', event_kind event), (''X-OpsDesk-Entity'', key)]
                    @ (if truthy (er_siteCode e) then [(''X-OpsDesk-Site'', the (er_siteCode e))] else [])
                    @ (if urgent then [(''X-Priority'', ''1'')] else [])\<rparr>))"

section \<open>Account mails\<close>

datatype account_mail_kind = ACCOUNT_INVITE | PASSWORD_RESET

primrec account_kind_str :: "account_mail_kind \<Rightarrow> string" where
  "account_kind_str ACCOUNT_INVITE = ''ACCOUNT_INVITE''"
| "account_kind_str PASSWORD_RESET = ''PASSWORD_RESET''"

record account_mail =
  acm_kind :: account_mail_kind
  acm_to :: mail_party
  acm_link :: string
  acm_expiresAt :: string
  acm_invitedBy :: "mail_party option"

definition account_intro :: "account_mail \<Rightarrow> string list" where
  "account_intro m = (''Hello '' @ display (acm_to m) @ '','') #
     (case acm_kind m of
        ACCOUNT_INVITE \<Rightarrow>
          [(case acm_invitedBy m of None \<Rightarrow> ''An administrator'' | Some p \<Rightarrow> addr p) @ '' has given you access to JSAN Data Center OpsDesk.'',
           ''Choose your password to finish setting up your account:'']
      | PASSWORD_RESET \<Rightarrow> [''Someone asked to reset the password for your OpsDesk account.'', ''Choose a new password here:''])"

definition account_outro :: "account_mail \<Rightarrow> string list" where
  "account_outro m = (''This link works once and expires at '' @ acm_expiresAt m @ '' (UTC).'') #
     (case acm_kind m of
        ACCOUNT_INVITE \<Rightarrow> [''You can also sign in with Google, Microsoft or GitHub if your account uses this email address.'']
      | PASSWORD_RESET \<Rightarrow> [''If you didn'' @ [CHR 0x27] @ ''t ask for this, ignore this email '' @ EM_DASH @ '' your password stays the same.''])"

definition paragraph_of :: "string \<Rightarrow> string" where
  "paragraph_of l = ''<p>'' @ escapeHtml l @ ''</p>''"

definition renderAccountEmail :: "account_mail \<Rightarrow> mail_error + rendered_email" where
  "renderAccountEmail m =
     (if mp_email (acm_to m) = [] then Inl \<lparr>me_message = account_kind_str (acm_kind m) @ '' has no recipient'', me_field = ''to''\<rparr>
      else if acm_link m = [] then Inl \<lparr>me_message = account_kind_str (acm_kind m) @ '' has no link'', me_field = ''link''\<rparr>
      else
        let nl = [CHR 0x0A] in
        Inr \<lparr>re_to = [addr (acm_to m)], re_cc = [],
             re_subject = (case acm_kind m of ACCOUNT_INVITE \<Rightarrow> ''You'' @ [CHR 0x27] @ ''re invited to JSAN OpsDesk''
                                            | PASSWORD_RESET \<Rightarrow> ''Reset your JSAN OpsDesk password''),
             re_text = join nl (account_intro m @ [[], acm_link m, []] @ account_outro m @ [EM_DASH, ''JSAN Data Center OpsDesk'']),
             re_html = ''<!doctype html><html><body style=\"font-family:system-ui,sans-serif\">'' @ nl @ join nl (map paragraph_of (account_intro m)) @
               nl @ ''<p><a href=\"'' @ escapeHtml (acm_link m) @ ''\">'' @ escapeHtml (acm_link m) @ ''</a></p>'' @ nl @
               join nl (map paragraph_of (account_outro m)) @ nl @ ''<p>'' @ EM_DASH @ '' JSAN Data Center OpsDesk</p>'' @ nl @ ''</body></html>'',
             re_headers = [(''X-OpsDesk-Event'', account_kind_str (acm_kind m)), (''Auto-Submitted'', ''auto-generated'')]\<rparr>)"

section \<open>Received mail\<close>

text \<open>A received mail. \<open>ie_receivedAt\<close> carries the text of the date with the instant \<open>Date.parse\<close> reads from it, if it reads one.\<close>

record inbound_email =
  ie_from :: string
  ie_subject :: string
  ie_text :: string
  ie_inReplyTo :: "string option"
  ie_references :: "string list"
  ie_receivedAt :: "(string \<times> int option) option"
  ie_opsDeskEntityKey :: "string option"

record parsed_email =
  pe_fromEmail :: string
  pe_fromName :: "string option"
  pe_subject :: string
  pe_body :: string
  pe_entityKey :: "string option"
  pe_isReply :: bool
  pe_threadRef :: "string option"
  pe_receivedAt :: int

definition address_char :: "char \<Rightarrow> bool" where
  "address_char c \<longleftrightarrow> c \<noteq> CHR ''<'' \<and> c \<noteq> CHR ''>'' \<and> c \<noteq> CHR 0x40 \<and> \<not> is_space c"

definition line_end :: "char \<Rightarrow> bool" where
  "line_end c \<longleftrightarrow> c = CHR 0x0A \<or> c = CHR 0x0D"

definition BARE_ADDRESS_RE :: "string \<Rightarrow> bool" where
  "BARE_ADDRESS_RE s \<longleftrightarrow> (case split_at CHR 0x40 s of [a, b] \<Rightarrow> a \<noteq> [] \<and> b \<noteq> [] \<and> list_all address_char (a @ b) | _ \<Rightarrow> False)"

text \<open>
  The address contains no angle bracket, so the bracket before it is the last one of the text. The result is the text before the
  bracket and the address.
\<close>

definition ANGLE_ADDRESS_RE :: "string \<Rightarrow> (string \<times> string) option" where
  "ANGLE_ADDRESS_RE s =
     (case dropWhile is_space (rev s) of
        [] \<Rightarrow> None
      | c # cs \<Rightarrow>
          let a = rev (takeWhile (\<lambda>x. x \<noteq> CHR ''<'') cs); rest = dropWhile (\<lambda>x. x \<noteq> CHR ''<'') cs in
          if c = CHR ''>'' \<and> rest \<noteq> [] \<and> BARE_ADDRESS_RE a \<and> list_all (\<lambda>x. \<not> line_end x) (tl rest)
          then Some (rev (tl rest), a) else None)"

text \<open>\<open>replace(/^"|"$/g, "")\<close>: one quote at either end.\<close>

definition unquote :: "string \<Rightarrow> string" where
  "unquote s =
     (let t = (case s of c # cs \<Rightarrow> if c = CHR 0x22 then cs else s | [] \<Rightarrow> []) in
      if t \<noteq> [] \<and> last t = CHR 0x22 then butlast t else t)"

definition parseAddress :: "string \<Rightarrow> mail_error + string option \<times> string" where
  "parseAddress raw =
     (let s = trim raw in
      case ANGLE_ADDRESS_RE s of
        Some (before, a) \<Rightarrow> let name = trim (unquote (trim before)) in Inr (if name = [] then None else Some name, toLowerCase a)
      | None \<Rightarrow> if BARE_ADDRESS_RE s then Inr (None, toLowerCase s)
                else Inl \<lparr>me_message = ''cannot parse an email address from \"'' @ raw @ ''\"'', me_field = ''from''\<rparr>)"

definition REPLY_SUBJECT_RE :: "string \<Rightarrow> bool" where
  "REPLY_SUBJECT_RE s \<longleftrightarrow>
     list_ex (\<lambda>p. let t = dropWhile is_space (toLowerCase s) in
                   starts_with p t \<and> (case dropWhile is_space (drop (length p) t) of c # _ \<Rightarrow> c = CHR '':'' | [] \<Rightarrow> False))
             [''re'', ''aw'', ''sv'', ''antw'', ''vs'']"

definition original_message :: "string \<Rightarrow> bool" where
  "original_message line \<longleftrightarrow>
     (let s = toLowerCase line; d = takeWhile (\<lambda>c. c = CHR ''-'') s; t = dropWhile is_space (drop (length d) s) in
      2 \<le> length d \<and> starts_with ''original message'' t \<and> starts_with ''--'' (dropWhile is_space (drop (length ''original message'') t)))"

definition on_wrote :: "string \<Rightarrow> bool" where
  "on_wrote s \<longleftrightarrow> starts_with ''On '' s \<and> ends_with '' wrote:'' s \<and> 11 \<le> length s \<and> list_all (\<lambda>x. \<not> line_end x) s"

definition from_header :: "string \<Rightarrow> bool" where
  "from_header s \<longleftrightarrow>
     starts_with ''from:'' (toLowerCase s) \<and>
     (case drop 5 s of c # cs \<Rightarrow> is_space c \<and> cs \<noteq> [] \<and> list_all (\<lambda>x. \<not> line_end x) cs | [] \<Rightarrow> False)"

definition QUOTE_MARKERS :: "(string \<Rightarrow> bool) list" where
  "QUOTE_MARKERS =
     [original_message,
      \<lambda>s. 5 \<le> length s \<and> list_all (\<lambda>c. c = CHR ''_'') s,
      on_wrote,
      from_header,
      \<lambda>s. starts_with ''sent from my '' (toLowerCase s)]"

definition quote_marker :: "string \<Rightarrow> bool" where
  "quote_marker line \<longleftrightarrow> list_ex (\<lambda>re. re (trim line)) QUOTE_MARKERS"

definition quoted_line :: "string \<Rightarrow> bool" where
  "quoted_line line \<longleftrightarrow> starts_with ''>'' (dropWhile is_space line)"

definition signature_line :: "string \<Rightarrow> bool" where
  "signature_line line \<longleftrightarrow> starts_with ''--'' line \<and> list_all is_space (drop 2 line)"

text \<open>The loop over the lines; \<open>n\<close> is \<open>consecutiveQuoted\<close>.\<close>

fun strip_loop :: "nat \<Rightarrow> string list \<Rightarrow> string list \<Rightarrow> string list" where
  "strip_loop n kept [] = kept"
| "strip_loop n kept (line # ls) =
     (if quote_marker line then kept
      else if quoted_line line then
        if 2 \<le> n + 1 then rev (dropWhile (\<lambda>l. trim l = []) (rev kept)) else strip_loop (n + 1) kept ls
      else if signature_line line then kept
      else strip_loop 0 (kept @ [line]) ls)"

text \<open>\<open>replace(/\r\n/g, "\n")\<close>.\<close>

fun unix_lines :: "string \<Rightarrow> string" where
  "unix_lines (a # b # s) = (if a = CHR 0x0D \<and> b = CHR 0x0A then b # unix_lines s else a # unix_lines (b # s))"
| "unix_lines s = s"

definition stripQuotedReply :: "string \<Rightarrow> string" where
  "stripQuotedReply text = trim (join [CHR 0x0A] (strip_loop 0 [] (split_at CHR 0x0A (unix_lines text))))"

text \<open>\<open>[A-Z]{2,5}-\d+\<close> between brackets: the letters and the digits are whole runs, for another character follows them.\<close>

definition tag_at :: "string \<Rightarrow> string option" where
  "tag_at s =
     (case s of
        b # t \<Rightarrow>
          let ls = takeWhile is_upper t; t1 = drop (length ls) t; ds = takeWhile is_digit (tl t1); t2 = drop (length ds) (tl t1) in
          if b = CHR ''['' \<and> 2 \<le> length ls \<and> length ls \<le> 5 \<and> starts_with ''-'' t1 \<and> ds \<noteq> [] \<and> starts_with '']'' t2
          then Some (ls @ ''-'' @ ds) else None
      | [] \<Rightarrow> None)"

fun ENTITY_TAG_RE :: "string \<Rightarrow> string option" where
  "ENTITY_TAG_RE [] = None"
| "ENTITY_TAG_RE (c # s) = (case tag_at (c # s) of Some k \<Rightarrow> Some k | None \<Rightarrow> ENTITY_TAG_RE s)"

definition KEY_PREFIXES :: "string list" where
  "KEY_PREFIXES = [''INC'', ''CHG'', ''PRB'', ''VC'', ''ALRT'']"

definition bare_at :: "string \<Rightarrow> string option" where
  "bare_at s =
     (case List.find (\<lambda>p. starts_with (p @ ''-'') s) KEY_PREFIXES of
        None \<Rightarrow> None
      | Some p \<Rightarrow>
          let t = drop (length p + 1) s; ds = takeWhile is_digit t; t1 = drop (length ds) t in
          if ds \<noteq> [] \<and> (case t1 of [] \<Rightarrow> True | c # _ \<Rightarrow> \<not> is_word c) then Some (p @ ''-'' @ ds) else None)"

text \<open>The first argument says whether the character before is a word character.\<close>

fun bare_from :: "bool \<Rightarrow> string \<Rightarrow> string option" where
  "bare_from w [] = None"
| "bare_from w (c # s) = (case (if w then None else bare_at (c # s)) of Some k \<Rightarrow> Some k | None \<Rightarrow> bare_from (is_word c) s)"

definition ENTITY_BARE_RE :: "string \<Rightarrow> string option" where
  "ENTITY_BARE_RE s = bare_from False s"

definition extractEntityKey :: "inbound_email \<Rightarrow> string option" where
  "extractEntityKey m =
     (if truthy (map_option trim (ie_opsDeskEntityKey m)) then map_option (\<lambda>k. toUpperCase (trim k)) (ie_opsDeskEntityKey m)
      else case ENTITY_TAG_RE (ie_subject m) of
        Some k \<Rightarrow> Some (toUpperCase k)
      | None \<Rightarrow> map_option toUpperCase (ENTITY_BARE_RE (ie_subject m)))"

definition thread_ref :: "inbound_email \<Rightarrow> string option \<Rightarrow> string option" where
  "thread_ref m key =
     (if truthy (map_option trim (ie_inReplyTo m)) then map_option trim (ie_inReplyTo m)
      else case ie_references m of
        r # _ \<Rightarrow> if trim r \<noteq> [] then Some (trim r) else map_option (\<lambda>k. ''<opsdesk.'' @ toLowerCase k @ ''@opsdesk.local>'') key
      | [] \<Rightarrow> map_option (\<lambda>k. ''<opsdesk.'' @ toLowerCase k @ ''@opsdesk.local>'') key)"

definition parseInboundEmail :: "int \<Rightarrow> inbound_email \<Rightarrow> mail_error + parsed_email" where
  "parseInboundEmail now m =
     (case parseAddress (ie_from m) of
        Inl e \<Rightarrow> Inl e
      | Inr (name, fromEmail) \<Rightarrow>
          let key = extractEntityKey m;
              result = (\<lambda>at. \<lparr>pe_fromEmail = fromEmail, pe_fromName = name, pe_subject = trim (ie_subject m), pe_body = stripQuotedReply (ie_text m),
                              pe_entityKey = key, pe_isReply = truthy (ie_inReplyTo m) \<or> ie_references m \<noteq> [] \<or> REPLY_SUBJECT_RE (ie_subject m),
                              pe_threadRef = thread_ref m key, pe_receivedAt = at\<rparr>)
          in case ie_receivedAt m of
               None \<Rightarrow> Inr (result now)
             | Some (t, read) \<Rightarrow>
                 if trim t = [] then Inr (result now)
                 else case read of
                   Some at \<Rightarrow> Inr (result at)
                 | None \<Rightarrow> Inl \<lparr>me_message = ''unparseable receivedAt \"'' @ t @ ''\"'', me_field = ''receivedAt''\<rparr>)"

section \<open>What a reader of the mail sees\<close>

text \<open>The text of an HTML document outside its tags, with the four entities read back, and the tags themselves.\<close>

fun outside_tags :: "bool \<Rightarrow> string \<Rightarrow> string" where
  "outside_tags intag [] = []"
| "outside_tags intag (c # s) =
     (if intag then outside_tags (c \<noteq> CHR ''>'') s
      else if c = CHR ''<'' then outside_tags True s else c # outside_tags False s)"

fun html_tags :: "string option \<Rightarrow> string \<Rightarrow> string list" where
  "html_tags tag [] = []"
| "html_tags tag (c # s) =
     (case tag of
        None \<Rightarrow> if c = CHR ''<'' then html_tags (Some []) s else html_tags None s
      | Some t \<Rightarrow> if c = CHR ''>'' then t # html_tags None s else html_tags (Some (t @ [c])) s)"

definition ENTITIES :: "(string \<times> char) list" where
  "ENTITIES = [(''amp;'', CHR ''&''), (''lt;'', CHR ''<''), (''gt;'', CHR ''>''), (''quot;'', CHR 0x22)]"

function unescape :: "string \<Rightarrow> string" where
  "unescape [] = []"
| "unescape (c # s) =
     (case (if c = CHR ''&'' then List.find (\<lambda>e. starts_with (fst e) s) ENTITIES else None) of
        Some (n, x) \<Rightarrow> x # unescape (drop (length n) s)
      | None \<Rightarrow> c # unescape s)"
  by pat_completeness auto
termination by (relation "measure length") auto

text \<open>
  A tag as a reader takes it apart: its name, and its attributes, each a name and a value in quotes that ends at the
  next quote; the entities of a value are read back. A tag that is not of this form has no attribute list.
\<close>

datatype attribute_mode = Between | Name string | Equals string | Value string string

fun read_attributes :: "attribute_mode \<Rightarrow> string \<Rightarrow> (string \<times> string) list option" where
  "read_attributes Between [] = Some []"
| "read_attributes Between (c # s) = (if c = CHR 0x20 then read_attributes Between s else read_attributes (Name [c]) s)"
| "read_attributes (Name n) (c # s) = (if c = CHR ''='' then read_attributes (Equals n) s else read_attributes (Name (n @ [c])) s)"
| "read_attributes (Equals n) (c # s) = (if c = CHR 0x22 then read_attributes (Value n []) s else None)"
| "read_attributes (Value n v) (c # s) =
     (if c = CHR 0x22 then map_option (Cons (n, unescape v)) (read_attributes Between s) else read_attributes (Value n (v @ [c])) s)"
| "read_attributes _ [] = None"

definition read_tag :: "string \<Rightarrow> string \<times> (string \<times> string) list option" where
  "read_tag t = (takeWhile (\<lambda>c. c \<noteq> CHR 0x20) t, read_attributes Between (dropWhile (\<lambda>c. c \<noteq> CHR 0x20) t))"

definition text_content :: "string \<Rightarrow> string" where
  "text_content h = unescape (outside_tags False h)"

lemma escapeHtml_simps [simp]:
  "escapeHtml [] = []"
  "escapeHtml (c # s) = escape_char c @ escapeHtml s"
  "escapeHtml (s @ t) = escapeHtml s @ escapeHtml t"
  by (simp_all add: escapeHtml_def)

lemma escapeHtml_safe [simp]:
  "CHR ''<'' \<notin> set (escapeHtml s)" "CHR ''>'' \<notin> set (escapeHtml s)" "CHR 0x22 \<notin> set (escapeHtml s)"
  by (induction s) (simp_all add: escape_char_def)

lemma unescape_escape_char: "unescape (escape_char c @ t) = c # unescape t"
  by (simp add: escape_char_def ENTITIES_def starts_with_def)

lemma unescape_escape: "unescape (escapeHtml s @ t) = s @ unescape t"
  by (induction s) (simp_all add: unescape_escape_char)

lemma escapeHtml_join: "escapeHtml (join [CHR 0x0A] ls) = join [CHR 0x0A] (map escapeHtml ls)"
  by (induction "[CHR 0x0A]" ls rule: join.induct) (simp_all add: escape_char_def)

lemma outside_text: "CHR ''<'' \<notin> set s \<Longrightarrow> outside_tags False (s @ t) = s @ outside_tags False t"
  by (induction s) auto

lemma outside_tag: "CHR ''>'' \<notin> set s \<Longrightarrow> outside_tags True (s @ t) = outside_tags True t"
  by (induction s) auto

lemma tags_text: "CHR ''<'' \<notin> set s \<Longrightarrow> html_tags None (s @ t) = html_tags None t"
  by (induction s) auto

lemma tags_tag: "CHR ''>'' \<notin> set s \<Longrightarrow> html_tags (Some a) (s @ t) = html_tags (Some (a @ s)) t"
  by (induction s arbitrary: a) auto

lemmas html_steps = outside_text outside_tag tags_text tags_tag

definition line_tags :: "string option \<Rightarrow> string \<Rightarrow> string list" where
  "line_tags url line =
     (if truthy url \<and> ends_with (the url) line then [''p'', ''a href=\"'' @ escapeHtml (the url) @ ''\"'', ''/a'', ''/p''] else [''p'', ''/p''])"

lemma outside_html_line: "outside_tags False (html_line url line @ t) = escapeHtml line @ outside_tags False t"
proof (cases "truthy url \<and> ends_with (the url) line")
  case True
  then obtain u l where "url = Some u" "u \<noteq> []" "line = l @ u" by (cases url) (auto simp: ends_with_iff)
  then show ?thesis by (simp add: html_line_def html_steps ends_with_def)
next
  case False
  then show ?thesis by (cases url) (auto simp: html_line_def html_steps)
qed

lemma tags_html_line: "html_tags None (html_line url line @ t) = line_tags url line @ html_tags None t"
proof (cases "truthy url \<and> ends_with (the url) line")
  case True
  then obtain u l where "url = Some u" "u \<noteq> []" "line = l @ u" by (cases url) (auto simp: ends_with_iff)
  then show ?thesis by (simp add: html_line_def line_tags_def html_steps ends_with_def)
next
  case False
  then show ?thesis by (cases url) (auto simp: html_line_def line_tags_def html_steps)
qed

lemma outside_join:
  "outside_tags False (join [CHR 0x0A] (map (html_line url) ls) @ t) = join [CHR 0x0A] (map escapeHtml ls) @ outside_tags False t"
  by (induction "[CHR 0x0A]" ls rule: join.induct) (simp_all add: outside_html_line)

lemma tags_join:
  "html_tags None (join [CHR 0x0A] (map (html_line url) ls) @ t) = concat (map (line_tags url) ls) @ html_tags None t"
  by (induction "[CHR 0x0A]" ls rule: join.induct) (simp_all add: tags_html_line)

lemma text_content_renderHtml: "text_content (renderHtml ls url) = [CHR 0x0A] @ join [CHR 0x0A] ls @ [CHR 0x0A]"
proof -
  have "outside_tags False (renderHtml ls url) = [CHR 0x0A] @ escapeHtml (join [CHR 0x0A] ls) @ [CHR 0x0A]"
    by (simp add: renderHtml_def outside_join escapeHtml_join)
  moreover have "unescape ([CHR 0x0A] @ escapeHtml (join [CHR 0x0A] ls) @ [CHR 0x0A]) = [CHR 0x0A] @ join [CHR 0x0A] ls @ [CHR 0x0A]"
    by (simp add: unescape_escape)
  ultimately show ?thesis by (simp add: text_content_def)
qed

text \<open>The tags of the template, and the one tag that carries text: the link, with exactly the address as its only attribute.\<close>

definition template_tags :: "(string \<times> (string \<times> string) list option) list" where
  "template_tags = [(''!doctype'', None), (''html'', Some []), (''body'', Some [(''style'', ''font-family:system-ui,sans-serif'')]),
     (''p'', Some []), (''/p'', Some []), (''/a'', Some []), (''/body'', Some []), (''/html'', Some [])]"

lemma read_value:
  "CHR 0x22 \<notin> set v \<Longrightarrow> read_attributes (Value n a) (v @ CHR 0x22 # s) = map_option (Cons (n, unescape (a @ v))) (read_attributes Between s)"
  by (induction v arbitrary: a) auto

lemma read_link: "read_tag (''a href=\"'' @ escapeHtml u @ ''\"'') = (''a'', Some [(''href'', u)])"
  using read_value [OF escapeHtml_safe(3), of "''href''" "[]" u "[]"] unescape_escape [of u "[]"] by (simp add: read_tag_def)

lemma read_template:
  "read_tag ''!doctype html'' = (''!doctype'', None)" "read_tag ''html'' = (''html'', Some [])"
  "read_tag ''body style=\"font-family:system-ui,sans-serif\"'' = (''body'', Some [(''style'', ''font-family:system-ui,sans-serif'')])"
  "read_tag ''p'' = (''p'', Some [])" "read_tag ''/p'' = (''/p'', Some [])" "read_tag ''/a'' = (''/a'', Some [])"
  "read_tag ''/body'' = (''/body'', Some [])" "read_tag ''/html'' = (''/html'', Some [])"
  by code_simp+

lemma tags_renderHtml:
  "read_tag ` set (html_tags None (renderHtml ls url)) \<subseteq> set template_tags \<union> {(''a'', Some [(''href'', the url)])}"
proof -
  let ?link = "''a href=\"'' @ escapeHtml (the url) @ ''\"''"
  let ?fixed = "{''!doctype html'', ''html'', ''body style=\"font-family:system-ui,sans-serif\"'', ''p'', ''/p'', ''/a'', ''/body'', ''/html''}"
  have "set (html_tags None (renderHtml ls url)) \<subseteq> insert ?link ?fixed"
    by (auto simp: renderHtml_def tags_join line_tags_def split: if_splits)
  then have "read_tag ` set (html_tags None (renderHtml ls url)) \<subseteq> insert (read_tag ?link) (read_tag ` ?fixed)" by (rule image_mono [THEN order_trans]) simp
  also have "read_tag ` ?fixed = set template_tags" by (simp only: image_insert image_empty read_template template_tags_def list.set)
  finally show ?thesis unfolding read_link by simp
qed

lemma renderNotification_Inr:
  assumes "renderNotification ev to cc base = Inr r"
  defines "e \<equiv> ev_entity ev"
  defines "key \<equiv> trim (er_key e)"
  shows "key \<noteq> []" "re_html r = renderHtml (body_lines e key (fst (snd (renderBody ev))) (entityUrl e base)) (entityUrl e base)"
    "re_text r = join [CHR 0x0A] (body_lines e key (fst (snd (renderBody ev))) (entityUrl e base))"
    "re_subject r = subject_of (snd (snd (renderBody ev))) (er_siteCode e) key (fst (renderBody ev))"
    "map_of (re_headers r) ''In-Reply-To'' = Some (entityMessageId key)" "map_of (re_headers r) ''References'' = Some (entityMessageId key)"
    "map_of (re_headers r) ''X-OpsDesk-Entity'' = Some key"
  using assms by (auto simp: renderNotification_def Let_def split: if_splits prod.splits)

text \<open>
  C32: Whatever a ticket, a comment, a name or an address contains, the HTML part of a notification shows exactly the text
  part, and its tags, taken apart the way a reader does, are those of the template and a link whose only attribute is the
  address of the entity as it is: no text of a user becomes a tag or an attribute.
\<close>

theorem mail_markup_fixed:
  assumes "renderNotification ev to cc base = Inr r"
  shows "text_content (re_html r) = [CHR 0x0A] @ re_text r @ [CHR 0x0A] \<and>
    read_tag ` set (html_tags None (re_html r)) \<subseteq>
      set template_tags \<union> {(''a'', Some [(''href'', the (entityUrl (ev_entity ev) base))])}"
  using renderNotification_Inr(2,3) [OF assms] text_content_renderHtml tags_renderHtml by metis

definition sample_entity :: entity_ref where
  "sample_entity = \<lparr>er_key = ''INC-000042'', er_title = ''<b>fan</b> & \"psu\"'', er_url = None, er_siteCode = Some ''SITE01'', er_priority = Some ''P1'', er_severity = None\<rparr>"

definition sample_event :: notification_event where
  "sample_event = N_INCIDENT_COMMENT_ADDED sample_entity \<lparr>mp_name = Some ''Ana'', mp_email = ''ana@jsan.example''\<rparr> ''<script>x</script>''"

definition sample_party :: mail_party where
  "sample_party = \<lparr>mp_name = Some ''Ana <NOC>'', mp_email = ''Ana@jsan.example''\<rparr>"

definition sample_mail :: rendered_email where
  "sample_mail = projr (renderNotification sample_event [sample_party] [] (Some ''https://ops/''))"

lemma sample_rendered: "renderNotification sample_event [sample_party] [] (Some ''https://ops/'') = Inr sample_mail"
proof -
  have "\<not> isl (renderNotification sample_event [sample_party] [] (Some ''https://ops/''))" by code_simp
  then show ?thesis unfolding sample_mail_def by (cases "renderNotification sample_event [sample_party] [] (Some ''https://ops/'')") simp_all
qed

theorem mail_markup_fixed_witness:
  "text_content (re_html sample_mail) = [CHR 0x0A] @ re_text sample_mail @ [CHR 0x0A] \<and>
   read_tag ` set (html_tags None (re_html sample_mail)) \<subseteq>
     set template_tags \<union> {(''a'', Some [(''href'', ''https://ops/entity/INC-000042'')])}"
proof -
  have "entityUrl (ev_entity sample_event) (Some ''https://ops/'') = Some ''https://ops/entity/INC-000042''" by code_simp
  then show ?thesis using mail_markup_fixed [OF sample_rendered] by simp
qed

section \<open>A reply returns to its ticket\<close>

lemma join_split_at: "join [c] (split_at c s) = s"
proof (induction s)
  case (Cons x xs)
  obtain p ps where "split_at c xs = p # ps" by (meson neq_Nil_conv split_at_nonempty)
  with Cons show ?case by (cases ps) auto
qed simp

lemma bare_addressD:
  assumes "BARE_ADDRESS_RE s"
  shows "s \<noteq> []" "\<forall>c\<in>set s. c \<noteq> CHR ''<'' \<and> c \<noteq> CHR ''>'' \<and> \<not> is_space c"
proof -
  obtain a b where ab: "split_at CHR 0x40 s = [a, b]" "a \<noteq> []" "list_all address_char (a @ b)"
    using assms by (auto simp: BARE_ADDRESS_RE_def split: list.splits)
  have "s = a @ CHR 0x40 # b" using join_split_at [of "CHR 0x40" s] ab(1) by simp
  with ab show "s \<noteq> []" "\<forall>c\<in>set s. c \<noteq> CHR ''<'' \<and> c \<noteq> CHR ''>'' \<and> \<not> is_space c"
    by (auto simp: list_all_iff address_char_def is_space_def)
qed

lemma dropWhile_hd: "s \<noteq> [] \<Longrightarrow> \<not> P (hd s) \<Longrightarrow> dropWhile P s = s"
  by (cases s) auto

lemma trim_id: "s \<noteq> [] \<Longrightarrow> \<not> is_space (hd s) \<Longrightarrow> \<not> is_space (last s) \<Longrightarrow> trim s = s"
  by (simp add: trim_def dropWhile_hd hd_rev)

lemma trim_ends:
  assumes "trim s = s" "s \<noteq> []"
  shows "\<not> is_space (hd s)" "\<not> is_space (last s)"
proof -
  have "last s = hd (dropWhile is_space (rev (dropWhile is_space s)))" "dropWhile is_space (rev (dropWhile is_space s)) \<noteq> []"
    using assms unfolding trim_def by (metis hd_rev rev_rev_ident, metis rev.simps(1))
  then show "\<not> is_space (last s)" using hd_dropWhile by metis
  have "length s \<le> length (dropWhile is_space s)"
    using assms(1) length_dropWhile_le [of is_space "rev (dropWhile is_space s)"] unfolding trim_def by (metis length_rev)
  then show "\<not> is_space (hd s)" using assms(2) length_dropWhile_le [of is_space "tl s"] by (cases s) auto
qed

lemma trim_pad: "trim s = s \<Longrightarrow> trim (s @ [CHR 0x20]) = s"
  using trim_ends [of s] by (cases s; cases s rule: rev_cases) (auto simp: trim_def is_space_def)

lemma angle_address:
  assumes "BARE_ADDRESS_RE a" "list_all (\<lambda>x. \<not> line_end x) b"
  shows "ANGLE_ADDRESS_RE (b @ ''<'' @ a @ ''>'') = Some (b, a)"
proof -
  have "CHR ''<'' \<notin> set a" using bare_addressD(2) [OF assms(1)] by auto
  then have "takeWhile (\<lambda>x. x \<noteq> CHR ''<'') (rev a @ CHR ''<'' # rev b) = rev a" "dropWhile (\<lambda>x. x \<noteq> CHR ''<'') (rev a @ CHR ''<'' # rev b) = CHR ''<'' # rev b"
    by (auto simp: takeWhile_append dropWhile_append)
  then show ?thesis using assms by (simp add: ANGLE_ADDRESS_RE_def is_space_def list_all_iff)
qed

lemma not_angle: "BARE_ADDRESS_RE a \<Longrightarrow> ANGLE_ADDRESS_RE a = None"
  using bare_addressD [of a] by (cases a rule: rev_cases) (auto simp: ANGLE_ADDRESS_RE_def)

text \<open>A sender whose name survives the header: trimmed, on one line, without quotes at its ends.\<close>

definition plain_party :: "mail_party \<Rightarrow> bool" where
  "plain_party p \<longleftrightarrow>
     BARE_ADDRESS_RE (mp_email p) \<and>
     (case mp_name p of
        None \<Rightarrow> True
      | Some n \<Rightarrow> n \<noteq> [] \<and> trim n = n \<and> unquote n = n \<and> list_all (\<lambda>x. \<not> line_end x) n)"

lemma parseAddress_addr:
  assumes "plain_party p"
  shows "parseAddress (addr p) = Inr (mp_name p, toLowerCase (mp_email p))"
proof (cases "mp_name p")
  case None
  have "trim (mp_email p) = mp_email p" using assms bare_addressD [of "mp_email p"] by (intro trim_id) (auto simp: plain_party_def)
  then show ?thesis using assms None not_angle by (simp add: parseAddress_def addr_def plain_party_def)
next
  case (Some n)
  have n: "n \<noteq> []" "trim n = n" "unquote n = n" "list_all (\<lambda>x. \<not> line_end x) (n @ '' '')" and a: "BARE_ADDRESS_RE (mp_email p)"
    using assms Some by (auto simp: plain_party_def line_end_def)
  let ?s = "(n @ '' '') @ ''<'' @ mp_email p @ ''>''"
  have "trim ?s = ?s" using trim_ends(1) [OF n(2,1)] n(1) by (intro trim_id) (auto simp: is_space_def)
  moreover have "addr p = ?s" using Some n(1) by (simp add: addr_def)
  moreover have "trim (n @ '' '') = n" using trim_pad [OF n(2)] by simp
  ultimately show ?thesis using angle_address [OF a n(4)] n(1-3) Some by (simp add: parseAddress_def)
qed

definition fresh_line :: "string \<Rightarrow> bool" where
  "fresh_line l \<longleftrightarrow> \<not> quote_marker l \<and> \<not> quoted_line l \<and> \<not> signature_line l"

definition whole_line :: "string \<Rightarrow> bool" where
  "whole_line l \<longleftrightarrow> list_all (\<lambda>x. \<not> line_end x) l"

lemma unix_lines_id: "CHR 0x0D \<notin> set s \<Longrightarrow> unix_lines s = s"
  by (induction s rule: unix_lines.induct) auto

lemma set_join: "set (join [c] ls) \<subseteq> insert c (\<Union> (set (map set ls)))"
  by (induction "[c]" ls rule: join.induct) auto

lemma strip_loop_fresh:
  "list_all fresh_line ls \<Longrightarrow> strip_loop n kept (ls @ m # rest) = strip_loop (if ls = [] then n else 0) (kept @ ls) (m # rest)"
  by (induction ls arbitrary: n kept) (simp_all add: fresh_line_def)

lemma lines_read_back:
  assumes "ls \<noteq> []" "list_all whole_line ls"
  shows "split_at CHR 0x0A (unix_lines (join [CHR 0x0A] ls)) = ls"
proof -
  have clean: "\<not> line_end c" if "l \<in> set ls" "c \<in> set l" for l c
    using assms(2) that by (auto simp: list_all_iff whole_line_def)
  have "CHR 0x0D \<notin> set (join [CHR 0x0A] ls)"
  proof
    assume "CHR 0x0D \<in> set (join [CHR 0x0A] ls)"
    then have "CHR 0x0D \<in> insert (CHR 0x0A) (\<Union> (set (map set ls)))" using set_join by blast
    then obtain l where "l \<in> set ls" "CHR 0x0D \<in> set l" by auto
    from clean [OF this] show False by (simp add: line_end_def)
  qed
  moreover have "split_at CHR 0x0A (join [CHR 0x0A] ls) = ls"
    using clean assms(1) by (intro split_at_join) (auto simp: line_end_def)
  ultimately show ?thesis by (simp add: unix_lines_id)
qed

lemma stripQuotedReply_fresh:
  assumes "list_all fresh_line ls" "quote_marker m" "list_all whole_line (ls @ m # rest)"
  shows "stripQuotedReply (join [CHR 0x0A] (ls @ m # rest)) = trim (join [CHR 0x0A] ls)"
  using assms(1,2) lines_read_back [OF _ assms(3)] by (simp add: stripQuotedReply_def strip_loop_fresh)

lemma strip_loop_all: "list_all fresh_line ls \<Longrightarrow> strip_loop n kept ls = kept @ ls"
  by (induction ls arbitrary: n kept) (simp_all add: fresh_line_def)

lemma stripQuotedReply_all:
  "ls \<noteq> [] \<Longrightarrow> list_all fresh_line ls \<Longrightarrow> list_all whole_line ls \<Longrightarrow> stripQuotedReply (join [CHR 0x0A] ls) = trim (join [CHR 0x0A] ls)"
  by (simp add: stripQuotedReply_def lines_read_back strip_loop_all)

lemma trim_entityMessageId: "trim (entityMessageId k) = entityMessageId k" "entityMessageId k \<noteq> []"
  by (intro trim_id) (simp_all add: entityMessageId_def is_space_def)

section \<open>Keys in the subject\<close>

definition ticket_key :: "string \<Rightarrow> bool" where
  "ticket_key k \<longleftrightarrow> list_ex (\<lambda>p. starts_with (p @ ''-'') k \<and> drop (length p + 1) k \<noteq> [] \<and> list_all is_digit (drop (length p + 1) k)) KEY_PREFIXES"

lemma ticket_keyE:
  assumes "ticket_key k"
  obtains p ds where "p \<in> set KEY_PREFIXES" "k = p @ ''-'' @ ds" "ds \<noteq> []" "list_all is_digit ds"
  using assms by (auto simp: ticket_key_def list_ex_iff starts_with_iff)

lemma tag_at_skip:
  assumes "CHR ''-'' \<notin> set u" "u \<noteq> []" "last u = CHR 0x20"
  shows "tag_at (u @ k) = None"
proof (cases u)
  case (Cons b t)
  show ?thesis
  proof (cases "t = []")
    case True
    then show ?thesis using Cons assms by (simp add: tag_at_def)
  next
    case False
    then have sp: "CHR 0x20 \<in> set t" "\<not> is_upper CHR 0x20" using Cons assms(3) last_in_set [of t] by (auto simp: is_upper_def)
    then have tw: "takeWhile is_upper (t @ k) = takeWhile is_upper t" by (auto intro: takeWhile_append1)
    have "dropWhile is_upper t \<noteq> []" using sp by (auto simp: dropWhile_eq_Nil_conv)
    then obtain c d where d: "dropWhile is_upper t = c # d" by (cases "dropWhile is_upper t") auto
    then have "c \<noteq> CHR ''-''" using assms(1) Cons set_dropWhileD [of c is_upper t] by auto
    moreover have "drop (length (takeWhile is_upper t)) (t @ k) = (c # d) @ k"
      using d by (simp add: dropWhile_eq_drop [symmetric] length_takeWhile_le)
    ultimately show ?thesis unfolding Cons tag_at_def append_Cons list.case tw Let_def by (simp only: starts_with_def) simp
  qed
qed (use assms in simp)

lemma tag_skip: "CHR ''-'' \<notin> set u \<Longrightarrow> u \<noteq> [] \<Longrightarrow> last u = CHR 0x20 \<Longrightarrow> ENTITY_TAG_RE (u @ k) = ENTITY_TAG_RE k"
proof (induction u)
  case (Cons c u)
  have "tag_at (c # u @ k) = None" using tag_at_skip [of "c # u" k] Cons.prems by simp
  then show ?case using Cons by (cases "u = []") simp_all
qed simp

lemma tag_none: "CHR ''['' \<notin> set k \<Longrightarrow> ENTITY_TAG_RE k = None"
  by (induction k) (auto simp: tag_at_def)

lemma bare_at_skip:
  assumes "CHR ''-'' \<notin> set u" "u \<noteq> []" "last u = CHR 0x20"
  shows "bare_at (u @ k) = None"
proof -
  have "\<not> starts_with (p @ ''-'') (u @ k)" if "p \<in> set KEY_PREFIXES" for p
  proof
    assume "starts_with (p @ ''-'') (u @ k)"
    then obtain v where v: "u @ k = p @ CHR ''-'' # v" by (auto simp: starts_with_iff)
    from v [symmetric] consider w where "p = u @ w" | w where "u = p @ w" "w @ k = CHR ''-'' # v"
      by (auto simp: append_eq_append_conv2)
    then show False
    proof cases
      case 1
      then have "CHR 0x20 \<in> set p" using assms(2,3) last_in_set [of u] by auto
      then show False using that by (auto simp: KEY_PREFIXES_def)
    next
      case 2
      then show False
      proof (cases w)
        case Nil
        then have "CHR 0x20 \<in> set p" using 2 assms(2,3) last_in_set [of u] by auto
        then show False using that by (auto simp: KEY_PREFIXES_def)
      qed (use 2 assms(1) in auto)
    qed
  qed
  then have "List.find (\<lambda>p. starts_with (p @ ''-'') (u @ k)) KEY_PREFIXES = None" by (auto simp: find_None_iff)
  then show ?thesis by (simp add: bare_at_def)
qed

lemma bare_skip: "CHR ''-'' \<notin> set u \<Longrightarrow> u \<noteq> [] \<Longrightarrow> last u = CHR 0x20 \<Longrightarrow> bare_from w (u @ k) = bare_from False k"
proof (induction u arbitrary: w)
  case (Cons c u)
  have b: "bare_at (c # u @ k) = None" using bare_at_skip [of "c # u" k] Cons.prems by simp
  show ?case
  proof (cases "u = []")
    case True
    then have "\<not> is_word c" using Cons.prems by (simp add: is_word_def is_digit_def is_upper_def is_lower_def)
    then show ?thesis using b True by simp
  next
    case False
    then show ?thesis using b Cons by simp
  qed
qed simp

lemma bare_at_key:
  assumes "p \<in> set KEY_PREFIXES" "ds \<noteq> []" "list_all is_digit ds"
  shows "bare_at (p @ ''-'' @ ds @ CHR 0x20 # t) = Some (p @ ''-'' @ ds)"
proof -
  have "List.find (\<lambda>q. starts_with (q @ ''-'') (p @ ''-'' @ ds @ CHR 0x20 # t)) KEY_PREFIXES = Some p"
    using assms(1) by (auto simp: KEY_PREFIXES_def starts_with_def)
  moreover have "takeWhile is_digit (ds @ CHR 0x20 # t) = ds"
    using assms(3) by (simp add: takeWhile_append list_all_iff is_digit_def)
  ultimately show ?thesis using assms(2) by (simp add: bare_at_def is_word_def is_digit_def is_upper_def is_lower_def)
qed

lemma toUpperCase_key:
  assumes "ticket_key k"
  shows "toUpperCase k = k"
proof -
  have "to_upper_char c = c" if "is_digit c" for c using that by (simp add: to_upper_char_def is_digit_def Let_def)
  then have d: "map to_upper_char ds = ds" if "list_all is_digit ds" for ds using that by (induction ds) auto
  obtain p ds where k: "p \<in> set KEY_PREFIXES" "k = p @ ''-'' @ ds" "list_all is_digit ds" using assms by (elim ticket_keyE)
  have "map to_upper_char p = p" using k(1) by (auto simp: KEY_PREFIXES_def to_upper_char_def)
  then show ?thesis using k d by (simp add: toUpperCase_def to_upper_char_def)
qed

text \<open>
  A reply that has lost the headers is still recognised by its subject: a notification about a numbered ticket, from a site whose
  code has no hyphen and with no bracket in its phrase, gives the key back from the subject with a reply mark before it.
\<close>

theorem subject_carries_key:
  assumes "renderNotification ev to cc base = Inr r" "ticket_key (trim (er_key (ev_entity ev)))"
    "CHR ''-'' \<notin> set (option_default [] (er_siteCode (ev_entity ev)))" "CHR ''['' \<notin> set (fst (renderBody ev))"
  shows "extractEntityKey (mail\<lparr>ie_subject := ''Re: '' @ re_subject r, ie_opsDeskEntityKey := None\<rparr>) = Some (trim (er_key (ev_entity ev)))"
proof -
  let ?k = "trim (er_key (ev_entity ev))" and ?site = "er_siteCode (ev_entity ev)"
  let ?u = "''Re: '' @ (if snd (snd (renderBody ev)) then URGENT_MARK @ '' '' else []) @ (if truthy ?site then ''['' @ the ?site @ ''] '' else [])"
  let ?t = "EM_DASH @ '' '' @ fst (renderBody ev)"
  obtain p ds where k: "p \<in> set KEY_PREFIXES" "?k = p @ ''-'' @ ds" "ds \<noteq> []" "list_all is_digit ds" using assms(2) by (elim ticket_keyE)
  have subj: "''Re: '' @ re_subject r = ?u @ ?k @ CHR 0x20 # ?t"
    using renderNotification_Inr(4) [OF assms(1)] by (simp add: subject_of_def)
  have u: "CHR ''-'' \<notin> set ?u" "?u \<noteq> []" "last ?u = CHR 0x20"
    using assms(3) by (cases ?site; auto simp: URGENT_MARK_def)+
  have "CHR ''['' \<notin> set ?k"
    using k by (auto simp: KEY_PREFIXES_def list_all_iff is_digit_def)
  then have "ENTITY_TAG_RE (''Re: '' @ re_subject r) = None"
    unfolding subj tag_skip [OF u] using assms(4) by (intro tag_none) (auto simp: EM_DASH_def)
  moreover have "ENTITY_BARE_RE (''Re: '' @ re_subject r) = Some ?k"
  proof -
    have "bare_from False (?k @ CHR 0x20 # ?t) = Some ?k"
      using bare_at_key [OF k(1,3,4), of ?t] k(2) by (cases "?k @ CHR 0x20 # ?t") simp_all
    then show ?thesis unfolding subj ENTITY_BARE_RE_def bare_skip [OF u] .
  qed
  ultimately show ?thesis using toUpperCase_key [OF assms(2)] by (simp add: extractEntityKey_def)
qed

definition blank_mail :: inbound_email where
  "blank_mail = \<lparr>ie_from = ''a@b'', ie_subject = [], ie_text = [], ie_inReplyTo = None, ie_references = [], ie_receivedAt = None, ie_opsDeskEntityKey = None\<rparr>"

theorem subject_carries_key_witness:
  "extractEntityKey (blank_mail\<lparr>ie_subject := ''Re: '' @ re_subject sample_mail, ie_opsDeskEntityKey := None\<rparr>) = Some ''INC-000042''"
proof -
  have h: "ticket_key (trim (er_key (ev_entity sample_event)))" "CHR ''-'' \<notin> set (option_default [] (er_siteCode (ev_entity sample_event)))"
    "CHR ''['' \<notin> set (fst (renderBody sample_event))" "trim (er_key (ev_entity sample_event)) = ''INC-000042''"
    by code_simp+
  show ?thesis using subject_carries_key [OF sample_rendered h(1-3), of blank_mail] unfolding h(4) .
qed

section \<open>A reply becomes a comment\<close>

lemma collapse_kept: "list_all (\<lambda>c. is_lower c \<or> is_digit c) u \<Longrightarrow> u \<noteq> [] \<Longrightarrow> collapse b (u @ t) = u @ collapse False t"
proof (induction u arbitrary: b)
  case (Cons c u)
  then show ?case by (cases "u = []") auto
qed simp

lemma digits_kept:
  assumes "list_all is_digit ds"
  shows "toLowerCase ds = ds" "list_all (\<lambda>c. is_lower c \<or> is_digit c) ds"
proof -
  have "lower_char c = c" if "is_digit c" for c using that by (simp add: lower_char_def is_digit_def Let_def)
  then show "toLowerCase ds = ds" using assms by (induction ds) (auto simp: toLowerCase_def)
  show "list_all (\<lambda>c. is_lower c \<or> is_digit c) ds" using assms by (simp add: list_all_iff)
qed

text \<open>The anchor of a numbered ticket is its key in lower case, the one \<open>thread_ref\<close> makes up from the key.\<close>

lemma slug_of_key:
  assumes "ticket_key k" "trim k = k"
  shows "mail_slug k = toLowerCase k"
proof -
  obtain p ds where k: "p \<in> set KEY_PREFIXES" "k = p @ ''-'' @ ds" "ds \<noteq> []" "list_all is_digit ds" using assms(1) by (elim ticket_keyE)
  let ?p = "toLowerCase p"
  have p: "list_all (\<lambda>c. is_lower c \<or> is_digit c) ?p" "?p \<noteq> []" "hd ?p \<noteq> CHR ''-''"
  proof -
    have "list_all (\<lambda>p. list_all (\<lambda>c. is_lower c \<or> is_digit c) (toLowerCase p) \<and> toLowerCase p \<noteq> [] \<and> hd (toLowerCase p) \<noteq> CHR ''-'') KEY_PREFIXES"
      by code_simp
    then show "list_all (\<lambda>c. is_lower c \<or> is_digit c) ?p" "?p \<noteq> []" "hd ?p \<noteq> CHR ''-''" using k(1) by (auto simp: list_all_iff)
  qed
  have hyphen: "toLowerCase ''-'' = ''-''" "\<not> is_lower CHR ''-''" "\<not> is_digit CHR ''-''" by code_simp+
  have lk: "toLowerCase k = ?p @ ''-'' @ ds" using k(2) digits_kept(1) [OF k(4)] hyphen(1) by (simp add: toLowerCase_def)
  have "collapse False (toLowerCase k) = ?p @ ''-'' @ ds"
    unfolding lk using collapse_kept [OF p(1,2), of False "''-'' @ ds"] collapse_kept [OF digits_kept(2) [OF k(4)] k(3), of True "[]"] hyphen by simp
  moreover have "dropWhile (\<lambda>c. c = CHR ''-'') (?p @ ''-'' @ ds) = ?p @ ''-'' @ ds" using p(2,3) by (cases ?p) auto
  moreover have "strip_trailing CHR ''-'' (?p @ ''-'' @ ds) = ?p @ ''-'' @ ds"
    using k(3,4) hyphen(3) last_in_set [OF k(3)] by (cases ds rule: rev_cases) (auto simp: list_all_iff strip_trailing_def)
  ultimately show ?thesis using assms(2) lk by (simp add: mail_slug_def)
qed

lemma reply_marked: "REPLY_SUBJECT_RE (''Re: '' @ s)"
proof -
  have "toLowerCase ''Re: '' = ''re: ''" by code_simp
  then have "toLowerCase (''Re: '' @ s) = ''re: '' @ toLowerCase s" by (simp add: toLowerCase_def)
  then show ?thesis by (simp add: REPLY_SUBJECT_RE_def starts_with_def is_space_def)
qed

text \<open>
  C31: A reply to a notification becomes a comment on its ticket, whichever of the three headers the mail client kept: under a
  subject that is the notification's with ``Re: '' before it, with a sender line that survives a header and the sender's own lines above a
  quotation marker, it is read without error, as a reply, under the sender's name and address, with the key of the ticket, the
  thread of the notification and exactly the text above the marker. The key must be that of a numbered ticket, the site
  code may hold no hyphen and the phrase of the subject no bracket.
\<close>

theorem reply_becomes_comment:
  assumes "renderNotification ev to cc base = Inr r" "plain_party p"
    "list_all fresh_line ls" "quote_marker m" "list_all whole_line (ls @ m # history)"
    "ticket_key (trim (er_key (ev_entity ev)))"
    "CHR ''-'' \<notin> set (option_default [] (er_siteCode (ev_entity ev)))" "CHR ''['' \<notin> set (fst (renderBody ev))"
    "keyHeader \<in> {None, map_of (re_headers r) ''X-OpsDesk-Entity''}" "inReplyTo \<in> {None, map_of (re_headers r) ''In-Reply-To''}"
    "refs = [] \<or> map_of (re_headers r) ''References'' = Some (hd refs)"
  shows "parseInboundEmail now
      \<lparr>ie_from = addr p, ie_subject = ''Re: '' @ re_subject r, ie_text = join [CHR 0x0A] (ls @ m # history), ie_inReplyTo = inReplyTo,
       ie_references = refs, ie_receivedAt = None, ie_opsDeskEntityKey = keyHeader\<rparr> =
    Inr \<lparr>pe_fromEmail = toLowerCase (mp_email p), pe_fromName = mp_name p, pe_subject = trim (''Re: '' @ re_subject r),
         pe_body = trim (join [CHR 0x0A] ls), pe_entityKey = Some (trim (er_key (ev_entity ev))), pe_isReply = True,
         pe_threadRef = Some (entityMessageId (trim (er_key (ev_entity ev)))), pe_receivedAt = now\<rparr>"
proof -
  let ?k = "trim (er_key (ev_entity ev))"
  let ?m = "\<lparr>ie_from = addr p, ie_subject = ''Re: '' @ re_subject r, ie_text = join [CHR 0x0A] (ls @ m # history), ie_inReplyTo = inReplyTo,
       ie_references = refs, ie_receivedAt = None, ie_opsDeskEntityKey = keyHeader\<rparr>"
  note h = renderNotification_Inr(1,5-7) [OF assms(1)]
  have "extractEntityKey (?m\<lparr>ie_subject := ''Re: '' @ re_subject r, ie_opsDeskEntityKey := None\<rparr>) = Some ?k"
    by (rule subject_carries_key [OF assms(1,6-8)])
  then have key: "extractEntityKey ?m = Some ?k"
    using assms(9) h(1,4) toUpperCase_key [OF assms(6)] by (auto simp: extractEntityKey_def)
  have "entityMessageId ?k = ''<opsdesk.'' @ toLowerCase ?k @ ''@opsdesk.local>''"
    using slug_of_key [OF assms(6)] by (simp add: entityMessageId_def)
  then have "thread_ref ?m (Some ?k) = Some (entityMessageId ?k)"
    using assms(10,11) h(2,3) trim_entityMessageId [of ?k] by (cases refs) (auto simp: thread_ref_def)
  then show ?thesis
    using key reply_marked [of "re_subject r"]
    by (simp add: parseInboundEmail_def parseAddress_addr [OF assms(2)] stripQuotedReply_fresh [OF assms(3-5)])
qed

theorem reply_becomes_comment_witness:
  "map_sum id (\<lambda>e. (pe_entityKey e, pe_body e)) (parseInboundEmail 7
      \<lparr>ie_from = addr sample_party, ie_subject = ''Re: '' @ re_subject sample_mail,
       ie_text = join [CHR 0x0A] ([''Replaced it.''] @ ''On Monday Bo wrote:'' # [''> fan down'']),
       ie_inReplyTo = None, ie_references = [], ie_receivedAt = None, ie_opsDeskEntityKey = None\<rparr>) = Inr (Some ''INC-000042'', ''Replaced it.'')"
proof -
  have p: "plain_party sample_party" "list_all fresh_line [''Replaced it.'']" "quote_marker ''On Monday Bo wrote:''"
    "list_all whole_line ([''Replaced it.''] @ ''On Monday Bo wrote:'' # [''> fan down''])" "trim (join [CHR 0x0A] [''Replaced it.'']) = ''Replaced it.''"
    by code_simp+
  have h: "ticket_key (trim (er_key (ev_entity sample_event)))" "CHR ''-'' \<notin> set (option_default [] (er_siteCode (ev_entity sample_event)))"
    "CHR ''['' \<notin> set (fst (renderBody sample_event))" "trim (er_key (ev_entity sample_event)) = ''INC-000042''"
    by code_simp+
  note reply = reply_becomes_comment [OF sample_rendered p(1-4) h(1-3), of None None "[]" 7]
  show ?thesis using reply p(5) h(4) by simp
qed

section \<open>What the reply path loses\<close>

text \<open>
  A site code of the shape of a key is taken for the ticket: the site prefix of the subject is read as the tag, before the key of the
  incident that follows it.
\<close>

lemma site_code_shadows_ticket:
  "map_sum id (\<lambda>r. extractEntityKey (blank_mail\<lparr>ie_subject := ''Re: '' @ re_subject r\<rparr>))
     (renderNotification (N_INCIDENT_CREATED (sample_entity\<lparr>er_siteCode := Some ''DC-01''\<rparr>) None) [sample_party] [] None) = Inr (Some ''DC-01'')"
  by code_simp

text \<open>
  Changes, alerts and risks are mailed under a prefix of their identifier, in hexadecimal: a reply is not recognised by its subject
  as soon as a letter follows the digits.
\<close>

lemma hexadecimal_key_unread:
  "map_sum id (\<lambda>r. extractEntityKey (blank_mail\<lparr>ie_subject := ''Re: '' @ re_subject r\<rparr>))
     (renderNotification (N_ALERT_RAISED (sample_entity\<lparr>er_key := ''ALRT-3fa85f64''\<rparr>) ''PSU_FAIL'' ''OPEN'') [sample_party] [] None) = Inr None"
  by code_simp

text \<open>
  A notification ends with the line ``Reply above this line to add a worklog comment'', and the parser has no marker for it: in a
  reply that quotes the notification without marks, the line and what follows it enter the body.
\<close>

lemma reply_line_unmarked:
  "stripQuotedReply (join [CHR 0x0A] [''Done.'', REPLY_LINE, ''below'']) = trim (join [CHR 0x0A] [''Done.'', REPLY_LINE, ''below''])"
proof -
  have "list_all fresh_line [''Done.'', REPLY_LINE, ''below'']" by code_simp
  moreover have "list_all whole_line [''Done.'', REPLY_LINE, ''below'']" by code_simp
  ultimately show ?thesis by (intro stripQuotedReply_all) simp_all
qed

end
