(* ===== verification/Delivery.thy ===== *)
theory Delivery
  imports Prelude
begin

text \<open>
  The delivery buffer of the site collector (\<^verbatim>\<open>apps/collector/src/delivery-buffer.ts\<close>, \<^verbatim>\<open>file-delivery-buffer.ts\<close>): what could not be
  delivered is queued under a key, the oldest is dropped when the buffer is full, and a flush sends from the front until a send fails. The
  awaits of a flush are points where other code runs, so sends, replies and new items are separate steps.
\<close>

section \<open>The buffer\<close>

record 'p buffered_item =
  bi_key :: string
  bi_channel :: string
  bi_payload :: 'p
  bi_queuedAt :: int

definition queue_item :: "int \<Rightarrow> string \<Rightarrow> string \<Rightarrow> 'p \<Rightarrow> 'p buffered_item" where
  "queue_item now key channel payload = \<lparr>bi_key = key, bi_channel = channel, bi_payload = payload, bi_queuedAt = now\<rparr>"

definition keep_last :: "nat \<Rightarrow> 'a list \<Rightarrow> 'a list" where
  "keep_last n xs = drop (length xs - n) xs"

definition bufferItem :: "nat \<Rightarrow> int \<Rightarrow> string \<Rightarrow> string \<Rightarrow> 'p \<Rightarrow> 'p buffered_item list \<Rightarrow> 'p buffered_item list" where
  "bufferItem maxItems now key channel payload items =
     (if key \<in> set (map bi_key items) then items
      else let pushed = items @ [queue_item now key channel payload] in
        if maxItems < length pushed then keep_last maxItems pushed else pushed)"

text \<open>A flush during which nothing else runs; \<open>send\<close> says which sends succeed. The result counts the deliveries.\<close>

fun flush :: "('p buffered_item \<Rightarrow> bool) \<Rightarrow> nat \<Rightarrow> 'p buffered_item list \<Rightarrow> nat \<times> 'p buffered_item list" where
  "flush send delivered [] = (delivered, [])"
| "flush send delivered (next_item # items) =
     (if send next_item then flush send (delivered + 1) items else (delivered, next_item # items))"

text \<open>What a restarted collector finds: the file's items cut to the cap, nothing when the file is absent or unreadable.\<close>

definition load_buffer :: "nat \<Rightarrow> 'p buffered_item list option \<Rightarrow> 'p buffered_item list" where
  "load_buffer maxItems file = (case file of None \<Rightarrow> [] | Some items \<Rightarrow> keep_last maxItems items)"

lemma keep_last_facts: "length (keep_last n xs) \<le> n" "length xs \<le> n \<Longrightarrow> keep_last n xs = xs" "\<exists>us. xs = us @ keep_last n xs"
  by (auto simp: keep_last_def) (metis append_take_drop_id)

lemma flush_exact: "flush send n items = (n + length (takeWhile send items), dropWhile send items)"
  by (induction items arbitrary: n) auto

lemma bufferItem_cases:
  obtains (known) "key \<in> set (map bi_key items)" "bufferItem m now key ch p items = items"
    | (room) "key \<notin> set (map bi_key items)" "length items < m" "bufferItem m now key ch p items = items @ [queue_item now key ch p]"
    | (full) us where "key \<notin> set (map bi_key items)" "m \<le> length items"
        "items @ [queue_item now key ch p] = us @ bufferItem m now key ch p items" "length (bufferItem m now key ch p items) \<le> m"
proof (cases "key \<in> set (map bi_key items)")
  case True
  then show ?thesis by (intro known) (simp_all add: bufferItem_def)
next
  case False
  show ?thesis
  proof (cases "length items < m")
    case True
    then show ?thesis using False by (intro room) (simp_all add: bufferItem_def Let_def)
  next
    case full: False
    then have "bufferItem m now key ch p items = keep_last m (items @ [queue_item now key ch p])"
      using False by (simp add: bufferItem_def Let_def)
    moreover obtain us where "items @ [queue_item now key ch p] = us @ keep_last m (items @ [queue_item now key ch p])"
      using keep_last_facts(3) by blast
    moreover note keep_last_facts(1) [of m "items @ [queue_item now key ch p]"]
    ultimately show ?thesis using False full by (intro that(3)) auto
  qed
qed

section \<open>Sends, replies and new items interleaved\<close>

text \<open>
  \<open>cs_sending\<close> are the sends in flight, one for each flush that is running; \<open>cs_log\<close> is what the API has received, \<open>cs_acked\<close>
  what it has confirmed and \<open>cs_produced\<close> what was queued. A request can reach the API although its reply is lost.
\<close>

record 'p collector_state =
  cs_items :: "'p buffered_item list"
  cs_sending :: "'p buffered_item list"
  cs_log :: "'p buffered_item list"
  cs_acked :: "'p buffered_item list"
  cs_produced :: "'p buffered_item list"

definition produce :: "nat \<Rightarrow> int \<Rightarrow> string \<Rightarrow> string \<Rightarrow> 'p \<Rightarrow> 'p collector_state \<Rightarrow> 'p collector_state" where
  "produce m now key ch p s =
     s\<lparr>cs_items := bufferItem m now key ch p (cs_items s),
       cs_produced := cs_produced s @ (if key \<in> set (map bi_key (cs_items s)) then [] else [queue_item now key ch p])\<rparr>"

text \<open>The reply to a send: the flush shifts the front of the buffer, whatever it is by then.\<close>

definition confirm :: "'p buffered_item \<Rightarrow> 'p buffered_item list \<Rightarrow> 'p collector_state \<Rightarrow> 'p collector_state" where
  "confirm x others s = s\<lparr>cs_sending := others, cs_log := cs_log s @ [x], cs_acked := cs_acked s @ [x], cs_items := tl (cs_items s)\<rparr>"

text \<open>
  The first parameter is the cap, the second says whether a flush may start while another runs, the third whether items may arrive
  when the buffer is full.
\<close>

inductive collector_step :: "nat \<Rightarrow> bool \<Rightarrow> bool \<Rightarrow> 'p collector_state \<Rightarrow> 'p collector_state \<Rightarrow> bool"
  for maxItems overlap crowded where
  c_enqueue: "crowded \<or> length (cs_items s) < maxItems \<Longrightarrow> collector_step maxItems overlap crowded s (produce maxItems now key ch p s)"
| c_send: "cs_items s = x # xs \<Longrightarrow> overlap \<or> cs_sending s = [] \<Longrightarrow>
    collector_step maxItems overlap crowded s (s\<lparr>cs_sending := cs_sending s @ [x]\<rparr>)"
| c_confirmed: "cs_sending s = a @ x # b \<Longrightarrow> collector_step maxItems overlap crowded s (confirm x (a @ b) s)"
| c_reply_lost: "cs_sending s = a @ x # b \<Longrightarrow> collector_step maxItems overlap crowded s (s\<lparr>cs_sending := a @ b, cs_log := cs_log s @ [x]\<rparr>)"
| c_failed: "cs_sending s = a @ x # b \<Longrightarrow> collector_step maxItems overlap crowded s (s\<lparr>cs_sending := a @ b\<rparr>)"

text \<open>A log in which every element of the first list occurs in order, one or more times in a row.\<close>

inductive stutters :: "'a list \<Rightarrow> 'a list \<Rightarrow> bool" where
  stutters_Nil: "stutters [] []"
| stutters_snoc: "stutters xs ys \<Longrightarrow> stutters (xs @ [x]) (ys @ replicate (Suc n) x)"

lemma stutters_set: "stutters xs ys \<Longrightarrow> set ys = set xs"
  by (induction rule: stutters.induct) auto

definition buffer_ok :: "nat \<Rightarrow> 'p collector_state \<Rightarrow> bool" where
  "buffer_ok m s \<longleftrightarrow> length (cs_items s) \<le> m \<and> distinct (map bi_key (cs_items s))"

lemma buffer_ok_step: "collector_step m overlap crowded s t \<Longrightarrow> buffer_ok m s \<Longrightarrow> buffer_ok m t"
proof (induction rule: collector_step.induct)
  case (c_enqueue s now key ch p)
  show ?case
  proof (cases rule: bufferItem_cases [of key "cs_items s" m now ch p])
    case (full us)
    have "distinct (map bi_key (cs_items s @ [queue_item now key ch p]))"
      using c_enqueue.prems full(1) by (simp add: buffer_ok_def queue_item_def)
    then show ?thesis using full(3,4) by (simp add: buffer_ok_def produce_def)
  qed (use c_enqueue.prems in \<open>auto simp: buffer_ok_def produce_def queue_item_def\<close>)
next
  case (c_confirmed s a x b)
  then show ?case by (cases "cs_items s") (auto simp: buffer_ok_def confirm_def)
qed (simp_all add: buffer_ok_def)

interpretation bounded_run: invariant_system "collector_step m overlap crowded" "buffer_ok m" for m overlap crowded
  by unfold_locales (rule buffer_ok_step)

definition in_order :: "'p collector_state \<Rightarrow> bool" where
  "in_order s \<longleftrightarrow> cs_acked s @ cs_items s = cs_produced s \<and> length (cs_sending s) \<le> 1 \<and>
     (\<forall>x \<in> set (cs_sending s). \<exists>xs. cs_items s = x # xs) \<and>
     (\<exists>ys k. cs_log s = ys @ replicate k (hd (cs_items s)) \<and> stutters (cs_acked s) ys \<and> (cs_items s = [] \<longrightarrow> k = 0))"

lemma in_orderI:
  assumes "cs_acked s @ cs_items s = cs_produced s" "length (cs_sending s) \<le> 1" "\<And>x. x \<in> set (cs_sending s) \<Longrightarrow> \<exists>xs. cs_items s = x # xs"
    "cs_log s = ys @ replicate k (hd (cs_items s))" "stutters (cs_acked s) ys" "cs_items s = [] \<Longrightarrow> k = 0"
  shows "in_order s"
  using assms unfolding in_order_def by blast

lemma one_sending: "length (a @ x # b) \<le> 1 \<Longrightarrow> a = [] \<and> b = []"
  by auto

lemma in_order_sending:
  assumes "in_order s" "cs_sending s = a @ x # b"
  obtains xs ys k where "a = []" "b = []" "cs_items s = x # xs" "cs_log s = ys @ replicate k x" "stutters (cs_acked s) ys"
    "cs_acked s @ x # xs = cs_produced s"
proof -
  have "length (a @ x # b) \<le> 1" "\<exists>xs. cs_items s = x # xs"
    using assms(1) unfolding in_order_def assms(2) by (blast, simp)
  then have ab: "a = []" "b = []" and "\<exists>xs. cs_items s = x # xs" using one_sending [of a x b] by blast+
  then obtain xs where "cs_items s = x # xs" by blast
  moreover obtain ys k where "cs_log s = ys @ replicate k (hd (cs_items s))" "stutters (cs_acked s) ys"
    using assms(1) unfolding in_order_def by blast
  moreover have "cs_acked s @ cs_items s = cs_produced s" using assms(1) by (simp add: in_order_def)
  ultimately show thesis using ab that [of xs ys k] by simp
qed

lemma in_order_step: "collector_step m False False s t \<Longrightarrow> in_order s \<Longrightarrow> in_order t"
proof (induction rule: collector_step.induct)
  case (c_enqueue s now key ch p)
  show ?case
  proof (cases rule: bufferItem_cases [of key "cs_items s" m now ch p])
    case known
    then show ?thesis using c_enqueue.prems by (simp add: in_order_def produce_def)
  next
    case room
    from c_enqueue.prems obtain ys k where log: "cs_log s = ys @ replicate k (hd (cs_items s))" "stutters (cs_acked s) ys" "cs_items s = [] \<Longrightarrow> k = 0"
      by (auto simp: in_order_def)
    then have "cs_log s = ys @ replicate k (hd (cs_items s @ [queue_item now key ch p]))" by (cases "cs_items s") auto
    then show ?thesis using c_enqueue.prems room log(2) by (auto simp: in_order_def produce_def)
  next
    case (full us)
    then show ?thesis using c_enqueue by simp
  qed
next
  case (c_send s x xs)
  then show ?case by (auto simp: in_order_def)
next
  case (c_confirmed s a x b)
  then obtain xs ys k where f: "a = []" "b = []" "cs_items s = x # xs" "cs_log s = ys @ replicate k x" "stutters (cs_acked s) ys"
      "cs_acked s @ x # xs = cs_produced s" by (elim in_order_sending)
  have "stutters (cs_acked s @ [x]) (cs_log s @ [x])"
    using stutters_snoc [OF f(5), of x k] f(4) by (simp add: replicate_append_same)
  with f show ?case by (intro in_orderI [where ys = "cs_log s @ [x]" and k = 0]) (simp_all add: confirm_def)
next
  case (c_reply_lost s a x b)
  then obtain xs ys k where f: "a = []" "b = []" "cs_items s = x # xs" "cs_log s = ys @ replicate k x" "stutters (cs_acked s) ys"
      "cs_acked s @ x # xs = cs_produced s" by (elim in_order_sending)
  have "cs_log s @ [x] = ys @ replicate (Suc k) x" using f(4) by (simp add: replicate_append_same)
  with f show ?case by (intro in_orderI [where ys = ys and k = "Suc k"]) simp_all
next
  case (c_failed s a x b)
  then obtain xs ys k where "a = []" "b = []" by (elim in_order_sending)
  with c_failed show ?case by (auto simp: in_order_def)
qed

interpretation ordered_run: invariant_system "collector_step m False False" in_order for m
  by unfold_locales (rule in_order_step)

definition fresh_buffer :: "'p collector_state" where
  "fresh_buffer = \<lparr>cs_items = [], cs_sending = [], cs_log = [], cs_acked = [], cs_produced = []\<rparr>"

lemma fresh_in_order: "in_order fresh_buffer"
  using stutters_Nil by (auto simp: in_order_def fresh_buffer_def)

text \<open>
  C33: While flushes do not overlap and the buffer has room, nothing is lost: what was queued is what the API has confirmed followed by what is
  still buffered, and the API has received the confirmed items in the order they were queued, each at least once, with at most a
  number of copies of the front of the buffer behind them, whatever sends fail and whatever replies are lost.
\<close>

theorem buffer_delivers_in_order:
  assumes "(collector_step maxItems False False)\<^sup>*\<^sup>* fresh_buffer s"
  shows "cs_produced s = cs_acked s @ cs_items s \<and> set (cs_acked s) \<subseteq> set (cs_log s) \<and>
    (\<exists>ys k. cs_log s = ys @ replicate k (hd (cs_items s)) \<and> stutters (cs_acked s) ys \<and> (cs_items s = [] \<longrightarrow> k = 0))"
proof -
  have "in_order s" using assms fresh_in_order by (rule ordered_run.run_inv)
  then show ?thesis by (fastforce simp: in_order_def dest: stutters_set)
qed

definition item_a :: "nat buffered_item" where
  "item_a = queue_item 0 ''a'' ''health'' 1"

definition item_b :: "nat buffered_item" where
  "item_b = queue_item 0 ''b'' ''health'' 2"

definition item_c :: "nat buffered_item" where
  "item_c = queue_item 0 ''c'' ''health'' 3"

lemma produce_new:
  assumes "key \<notin> set (map bi_key items)" "length items < m"
  shows "collector_step m overlap crowded \<lparr>cs_items = items, cs_sending = sn, cs_log = lg, cs_acked = ak, cs_produced = pr\<rparr>
     \<lparr>cs_items = items @ [queue_item 0 key ch p], cs_sending = sn, cs_log = lg, cs_acked = ak, cs_produced = pr @ [queue_item 0 key ch p]\<rparr>"
  using c_enqueue [of crowded "\<lparr>cs_items = items, cs_sending = sn, cs_log = lg, cs_acked = ak, cs_produced = pr\<rparr>" m overlap 0 key ch p] assms
  by (simp add: produce_def bufferItem_def Let_def)

lemma two_queued:
  "(collector_step 2 overlap crowded)\<^sup>*\<^sup>* fresh_buffer
     \<lparr>cs_items = [item_a, item_b], cs_sending = [], cs_log = [], cs_acked = [], cs_produced = [item_a, item_b]\<rparr>"
proof -
  have "collector_step 2 overlap crowded fresh_buffer \<lparr>cs_items = [item_a], cs_sending = [], cs_log = [], cs_acked = [], cs_produced = [item_a]\<rparr>"
    using produce_new [of "''a''" "[]" 2 overlap crowded "[]" "[]" "[]" "[]" "''health''" "1::nat"] by (simp add: fresh_buffer_def item_a_def)
  moreover have "collector_step 2 overlap crowded \<lparr>cs_items = [item_a], cs_sending = [], cs_log = [], cs_acked = [], cs_produced = [item_a]\<rparr>
      \<lparr>cs_items = [item_a, item_b], cs_sending = [], cs_log = [], cs_acked = [], cs_produced = [item_a, item_b]\<rparr>"
    using produce_new [of "''b''" "[item_a]" 2 overlap crowded "[]" "[]" "[]" "[item_a]" "''health''" 2]
    by (simp add: item_a_def item_b_def queue_item_def)
  ultimately show ?thesis by (meson converse_rtranclp_into_rtranclp rtranclp.rtrancl_refl)
qed

theorem buffer_delivers_in_order_witness:
  "cs_produced \<lparr>cs_items = [item_a, item_b], cs_sending = [], cs_log = [], cs_acked = [], cs_produced = [item_a, item_b]\<rparr> = [] @ [item_a, item_b]"
  using buffer_delivers_in_order [OF two_queued [of False False]] by simp

text \<open>
  Through any interleaving, overlapping flushes and a full buffer included, the buffer never holds more items than its cap and no key twice.
\<close>

theorem buffer_bounded:
  assumes "(collector_step maxItems overlap crowded)\<^sup>*\<^sup>* fresh_buffer s"
  shows "length (cs_items s) \<le> maxItems \<and> distinct (map bi_key (cs_items s))"
proof -
  have "buffer_ok maxItems (fresh_buffer :: 'a collector_state)" by (simp add: buffer_ok_def fresh_buffer_def)
  with assms have "buffer_ok maxItems s" by (rule bounded_run.run_inv)
  then show ?thesis by (simp add: buffer_ok_def)
qed

theorem buffer_bounded_witness: "length [item_a, item_b] \<le> 2"
  using buffer_bounded [OF two_queued [of True True]] by simp

text \<open>
  Two flushes that overlap send the same item, and each shifts one: the item behind it leaves the buffer without ever being sent. The
  flush timer does not wait for the flush before.
\<close>

lemma overlapping_flushes_lose_item:
  "\<exists>s. (collector_step 2 True False)\<^sup>*\<^sup>* fresh_buffer s \<and> item_b \<in> set (cs_produced s) \<and> cs_items s = [] \<and> cs_log s = [item_a, item_a]"
proof -
  let ?s = "\<lambda>it sn lg ak. \<lparr>cs_items = it, cs_sending = sn, cs_log = lg, cs_acked = ak, cs_produced = [item_a, item_b]\<rparr>"
  let ?step = "collector_step 2 True False"
  have "?step (?s [item_a, item_b] [] [] []) (?s [item_a, item_b] [item_a] [] [])"
    using c_send [of "?s [item_a, item_b] [] [] []" item_a "[item_b]" True 2 False] by simp
  moreover have "?step (?s [item_a, item_b] [item_a] [] []) (?s [item_a, item_b] [item_a, item_a] [] [])"
    using c_send [of "?s [item_a, item_b] [item_a] [] []" item_a "[item_b]" True 2 False] by simp
  moreover have "?step (?s [item_a, item_b] [item_a, item_a] [] []) (?s [item_b] [item_a] [item_a] [item_a])"
    using c_confirmed [of "?s [item_a, item_b] [item_a, item_a] [] []" "[]" item_a "[item_a]" 2 True False] by (simp add: confirm_def)
  moreover have "?step (?s [item_b] [item_a] [item_a] [item_a]) (?s [] [] [item_a, item_a] [item_a, item_a])"
    using c_confirmed [of "?s [item_b] [item_a] [item_a] [item_a]" "[]" item_a "[]" 2 True False] by (simp add: confirm_def)
  ultimately have "?step\<^sup>*\<^sup>* fresh_buffer (?s [] [] [item_a, item_a] [item_a, item_a])"
    using two_queued [of True False] by (meson rtranclp.rtrancl_into_rtrancl)
  then show ?thesis by (intro exI [of _ "?s [] [] [item_a, item_a] [item_a, item_a]"]) simp
qed

text \<open>
  An item that arrives at a full buffer during a send pushes the item that is being sent out of the buffer, and the reply then shifts
  the item behind it, which was never sent.
\<close>

lemma overflow_during_send_loses_item:
  "\<exists>s. (collector_step 2 False True)\<^sup>*\<^sup>* fresh_buffer s \<and> item_b \<in> set (cs_produced s) \<and> cs_items s = [item_c] \<and> cs_log s = [item_a]"
proof -
  let ?s = "\<lambda>it sn lg ak pr. \<lparr>cs_items = it, cs_sending = sn, cs_log = lg, cs_acked = ak, cs_produced = pr\<rparr>"
  let ?step = "collector_step 2 False True"
  have "?step (?s [item_a, item_b] [] [] [] [item_a, item_b]) (?s [item_a, item_b] [item_a] [] [] [item_a, item_b])"
    using c_send [of "?s [item_a, item_b] [] [] [] [item_a, item_b]" item_a "[item_b]" False 2 True] by simp
  moreover have "?step (?s [item_a, item_b] [item_a] [] [] [item_a, item_b]) (?s [item_b, item_c] [item_a] [] [] [item_a, item_b, item_c])"
    using c_enqueue [of True "?s [item_a, item_b] [item_a] [] [] [item_a, item_b]" 2 False 0 "''c''" "''health''" 3]
    by (simp add: produce_def bufferItem_def keep_last_def item_a_def item_b_def item_c_def queue_item_def)
  moreover have "?step (?s [item_b, item_c] [item_a] [] [] [item_a, item_b, item_c]) (?s [item_c] [] [item_a] [item_a] [item_a, item_b, item_c])"
    using c_confirmed [of "?s [item_b, item_c] [item_a] [] [] [item_a, item_b, item_c]" "[]" item_a "[]" 2 False True] by (simp add: confirm_def)
  ultimately have "?step\<^sup>*\<^sup>* fresh_buffer (?s [item_c] [] [item_a] [item_a] [item_a, item_b, item_c])"
    using two_queued [of False True] by (meson rtranclp.rtrancl_into_rtrancl)
  then show ?thesis by (intro exI [of _ "?s [item_c] [] [item_a] [item_a] [item_a, item_b, item_c]"]) simp
qed

end
