(* ===== verification/Collector.thy ===== *)
theory Collector
  imports Health Js_Text Delivery
begin

text \<open>
  The site collector (\<^verbatim>\<open>apps/collector\<close>): its configuration, the way of an SNMP trap from the decoded datagram to the delivery buffer, and
  the health poll, which reads every configured management endpoint, normalizes what it says with the adapters and queues the
  snapshot. The network is a parameter: what an endpoint answers to a GET, for a credential, and the redirects \<open>fetch\<close> follows before it
  has the answer. Reading an endpoint is an action on the log of the requests that leave the collector. URL parsing is a parameter too: the
  protocol and the origin of a text that is a URL.
\<close>

section \<open>JSON\<close>

datatype jvalue =
    JV_Null
  | JV_Bool bool
  | JV_Num js_number
  | JV_Str string
  | JV_Arr "jvalue list"
  | JV_Obj "(string \<times> jvalue) list"

text \<open>\<open>typeof v === "object" \&\& v !== null\<close>, with the members; an array has none of the members that are asked for.\<close>

fun members_of :: "jvalue \<Rightarrow> (string \<times> jvalue) list option" where
  "members_of (JV_Obj m) = Some m"
| "members_of (JV_Arr _) = Some []"
| "members_of _ = None"

section \<open>Configuration\<close>

datatype endpoint_kind = REDFISH_EP | DELL_OME_EP | HPE_ILO_EP

record endpoint_target =
  ep_ciCode :: string
  ep_kind :: endpoint_kind
  ep_address :: string
  ep_credentialRef :: string
  ep_deviceRef :: "string option"

record tls_config =
  tc_certFile :: string
  tc_keyFile :: string
  tc_caFile :: "string option"

record snmp_source =
  sr_address :: string
  sr_ciCode :: string

record collector_config =
  cc_siteCode :: string
  cc_apiBaseUrl :: string
  cc_apiToken :: string
  cc_pollIntervalSeconds :: int
  cc_heartbeatIntervalSeconds :: int
  cc_bufferMaxItems :: int
  cc_bufferFile :: "string option"
  cc_tls :: "tls_config option"
  cc_endpointTlsInsecure :: bool
  cc_endpoints :: "endpoint_target list"
  cc_snmpTrapPort :: int
  cc_snmpCommunity :: string
  cc_snmpSources :: "snmp_source list"

record config_error =
  ce_message :: string
  ce_field :: string

definition config_fail :: "string \<Rightarrow> string \<Rightarrow> config_error + 'a" where
  "config_fail message field = Inl \<lparr>ce_message = message, ce_field = field\<rparr>"

definition KINDS :: "(string \<times> endpoint_kind) list" where
  "KINDS = [(''REDFISH'', REDFISH_EP), (''DELL_OME'', DELL_OME_EP), (''HPE_ILO'', HPE_ILO_EP)]"

definition cfg_str :: "(string \<times> jvalue) list \<Rightarrow> string \<Rightarrow> config_error + string" where
  "cfg_str raw key =
     (case map_of raw key of
        Some (JV_Str v) \<Rightarrow> if trim v = [] then config_fail (quoted key @ '' must be a non-empty string'') key else Inr (trim v)
      | _ \<Rightarrow> config_fail (quoted key @ '' must be a non-empty string'') key)"

definition posInt :: "(string \<times> jvalue) list \<Rightarrow> string \<Rightarrow> int \<Rightarrow> config_error + int" where
  "posInt raw key fallback =
     (case map_of raw key of
        None \<Rightarrow> Inr fallback
      | Some (JV_Num n) \<Rightarrow>
          if of_int \<lfloor>jn_value n\<rfloor> = jn_value n \<and> 0 < jn_value n then Inr \<lfloor>jn_value n\<rfloor>
          else config_fail (quoted key @ '' must be a positive integer'') key
      | Some _ \<Rightarrow> config_fail (quoted key @ '' must be a positive integer'') key)"

definition requireHttps :: "(string \<Rightarrow> string option) \<Rightarrow> string \<Rightarrow> string \<Rightarrow> config_error + string" where
  "requireHttps protocol url field =
     (case protocol url of
        None \<Rightarrow> config_fail (quoted field @ '' is not a valid URL: '' @ url) field
      | Some p \<Rightarrow> if p \<noteq> ''https:'' then config_fail (quoted field @ '' must be https (outbound TLS only, ADR-004)'') field else Inr url)"

text \<open>\<open>typeof v === "string" \&\& v.trim()\<close>, trimmed.\<close>

definition given_text :: "(string \<times> jvalue) list \<Rightarrow> string \<Rightarrow> string option" where
  "given_text raw key = (case map_of raw key of Some (JV_Str v) \<Rightarrow> if trim v = [] then None else Some (trim v) | _ \<Rightarrow> None)"

text \<open>\<open>xs.map((e, i) => ...)\<close> with a callback that may throw.\<close>

fun collect_from :: "nat \<Rightarrow> (nat \<Rightarrow> 'a \<Rightarrow> 'e + 'b) \<Rightarrow> 'a list \<Rightarrow> 'e + 'b list" where
  "collect_from i f [] = Inr []"
| "collect_from i f (x # xs) = andThen (f i x) (\<lambda>y. andThen (collect_from (Suc i) f xs) (\<lambda>ys. Inr (y # ys)))"

definition indexed :: "string \<Rightarrow> nat \<Rightarrow> string" where
  "indexed name i = name @ ''['' @ nat_str i @ '']''"

definition endpoint_device_ref :: "(string \<times> jvalue) list \<Rightarrow> endpoint_kind \<Rightarrow> config_error + string option" where
  "endpoint_device_ref er kind =
     (if kind = DELL_OME_EP then andThen (cfg_str er ''deviceRef'') (\<lambda>d. Inr (Some d))
      else Inr (case map_of er ''deviceRef'' of Some (JV_Str v) \<Rightarrow> Some (trim v) | _ \<Rightarrow> None))"

definition parse_endpoint :: "nat \<Rightarrow> jvalue \<Rightarrow> config_error + endpoint_target" where
  "parse_endpoint i e =
     (case members_of e of
        None \<Rightarrow> config_fail (indexed ''endpoints'' i @ '' must be an object'') (indexed ''endpoints'' i)
      | Some er \<Rightarrow>
          andThen (cfg_str er ''kind'') (\<lambda>text.
          case map_of KINDS text of
            None \<Rightarrow> config_fail (indexed ''endpoints'' i @ ''.kind must be one of '' @ join '', '' (map fst KINDS)) (indexed ''endpoints'' i @ ''.kind'')
          | Some kind \<Rightarrow>
              andThen (cfg_str er ''ciCode'') (\<lambda>ciCode.
              andThen (cfg_str er ''address'') (\<lambda>address.
              andThen (cfg_str er ''credentialRef'') (\<lambda>credentialRef.
              andThen (endpoint_device_ref er kind) (\<lambda>deviceRef.
              Inr \<lparr>ep_ciCode = ciCode, ep_kind = kind, ep_address = address, ep_credentialRef = credentialRef, ep_deviceRef = deviceRef\<rparr>))))))"

definition parse_snmp_source :: "nat \<Rightarrow> jvalue \<Rightarrow> config_error + snmp_source" where
  "parse_snmp_source i e =
     (case members_of e of
        None \<Rightarrow> config_fail (indexed ''snmpSources'' i @ '' must be an object'') (indexed ''snmpSources'' i)
      | Some sr \<Rightarrow>
          andThen (cfg_str sr ''address'') (\<lambda>address.
          andThen (cfg_str sr ''ciCode'') (\<lambda>ciCode. Inr \<lparr>sr_address = address, sr_ciCode = ciCode\<rparr>)))"

definition parse_endpoints :: "(string \<times> jvalue) list \<Rightarrow> config_error + endpoint_target list" where
  "parse_endpoints r =
     (case map_of r ''endpoints'' of
        Some (JV_Arr es) \<Rightarrow>
          if es = [] then config_fail (quoted ''endpoints'' @ '' must be a non-empty array'') ''endpoints'' else collect_from 0 parse_endpoint es
      | _ \<Rightarrow> config_fail (quoted ''endpoints'' @ '' must be a non-empty array'') ''endpoints'')"

definition parse_snmp_sources :: "(string \<times> jvalue) list \<Rightarrow> config_error + snmp_source list" where
  "parse_snmp_sources r =
     (case map_of r ''snmpSources'' of
        None \<Rightarrow> Inr []
      | Some JV_Null \<Rightarrow> Inr []
      | Some (JV_Arr es) \<Rightarrow> collect_from 0 parse_snmp_source es
      | Some _ \<Rightarrow> config_fail (quoted ''snmpSources'' @ '' must be an array'') ''snmpSources'')"

definition parse_tls :: "(string \<times> jvalue) list \<Rightarrow> config_error + tls_config option" where
  "parse_tls r =
     (case map_of r ''tls'' of
        None \<Rightarrow> Inr None
      | Some v \<Rightarrow>
          (case members_of v of
             None \<Rightarrow> config_fail (quoted ''tls'' @ '' must be an object'') ''tls''
           | Some tr \<Rightarrow>
               andThen (cfg_str tr ''certFile'') (\<lambda>certFile.
               andThen (cfg_str tr ''keyFile'') (\<lambda>keyFile.
               Inr (Some \<lparr>tc_certFile = certFile, tc_keyFile = keyFile, tc_caFile = given_text tr ''caFile''\<rparr>)))))"

definition loadConfig :: "(string \<Rightarrow> string option) \<Rightarrow> jvalue \<Rightarrow> config_error + collector_config" where
  "loadConfig protocol raw =
     (case members_of raw of
        None \<Rightarrow> config_fail ''config must be an object'' ''(root)''
      | Some r \<Rightarrow>
          andThen (parse_endpoints r) (\<lambda>endpoints.
          andThen (parse_snmp_sources r) (\<lambda>snmpSources.
          andThen (parse_tls r) (\<lambda>tls.
          andThen (cfg_str r ''siteCode'') (\<lambda>siteCode.
          andThen (andThen (cfg_str r ''apiBaseUrl'') (\<lambda>url. requireHttps protocol url ''apiBaseUrl'')) (\<lambda>apiBaseUrl.
          andThen (cfg_str r ''apiToken'') (\<lambda>apiToken.
          andThen (posInt r ''pollIntervalSeconds'' 300) (\<lambda>pollIntervalSeconds.
          andThen (posInt r ''heartbeatIntervalSeconds'' 60) (\<lambda>heartbeatIntervalSeconds.
          andThen (posInt r ''bufferMaxItems'' 10000) (\<lambda>bufferMaxItems.
          andThen (posInt r ''snmpTrapPort'' 162) (\<lambda>snmpTrapPort.
          Inr \<lparr>cc_siteCode = siteCode, cc_apiBaseUrl = apiBaseUrl, cc_apiToken = apiToken, cc_pollIntervalSeconds = pollIntervalSeconds,
               cc_heartbeatIntervalSeconds = heartbeatIntervalSeconds, cc_bufferMaxItems = bufferMaxItems, cc_bufferFile = given_text r ''bufferFile'',
               cc_tls = tls, cc_endpointTlsInsecure = (map_of r ''endpointTlsInsecure'' = Some (JV_Bool True)), cc_endpoints = endpoints,
               cc_snmpTrapPort = snmpTrapPort,
               cc_snmpCommunity = (case map_of r ''snmpCommunity'' of Some (JV_Str v) \<Rightarrow> v | _ \<Rightarrow> ''public''), cc_snmpSources = snmpSources\<rparr>)))))))))))"

section \<open>Traps\<close>

text \<open>A value off the wire: a text or the bytes of one carries what \<open>Number\<close> reads from it, if that is finite.\<close>

datatype raw_value = RV_Null | RV_Bool bool | RV_Number int | RV_Text string "int option"

record raw_varbind =
  rv_oid :: string
  rv_value :: raw_value

datatype decoded_pdu =
    V2cPdu string "raw_varbind list"
  | V1Pdu "string option" "int option" "int option" "int option" "raw_varbind list"
      \<comment> \<open>enterprise, generic trap, specific trap, uptime\<close>

record trap_source =
  src_address :: string
  src_ciCode :: "string option"

fun scalar_text :: "raw_value \<Rightarrow> string option" where
  "scalar_text RV_Null = None"
| "scalar_text (RV_Bool b) = Some (if b then ''true'' else ''false'')"
| "scalar_text (RV_Number n) = Some (int_str n)"
| "scalar_text (RV_Text t _) = Some t"

fun scalar_number :: "raw_value \<Rightarrow> int option" where
  "scalar_number RV_Null = Some 0"
| "scalar_number (RV_Bool b) = Some (if b then 1 else 0)"
| "scalar_number (RV_Number n) = Some n"
| "scalar_number (RV_Text _ read) = read"

definition toVarbind :: "raw_varbind \<Rightarrow> varbind" where
  "toVarbind v = \<lparr>vb_oid = rv_oid v, vb_name = None, vb_value = scalar_text (rv_value v)\<rparr>"

definition SYS_UPTIME_OID :: string where
  "SYS_UPTIME_OID = ''1.3.6.1.2.1.1.3.0''"

definition SNMP_TRAP_OID :: string where
  "SNMP_TRAP_OID = ''1.3.6.1.6.3.1.1.4.1.0''"

text \<open>The loop over the varbinds of a notification: uptime, trap OID and the data varbinds so far.\<close>

definition scan_varbind :: "int option \<times> string option \<times> varbind list \<Rightarrow> raw_varbind \<Rightarrow> int option \<times> string option \<times> varbind list" where
  "scan_varbind st v =
     (case st of (ticks, oid, data) \<Rightarrow>
        if rv_oid v = SYS_UPTIME_OID then (option_or (scalar_number (rv_value v)) ticks, oid, data)
        else if rv_oid v = SNMP_TRAP_OID then
          (ticks, (case rv_value v of RV_Text t _ \<Rightarrow> if t = [] then oid else Some t | _ \<Rightarrow> oid), data)
        else (ticks, oid, data @ [toVarbind v]))"

fun pduToSnmpTrap :: "decoded_pdu \<Rightarrow> trap_source \<Rightarrow> string \<times> instant option \<Rightarrow> snmp_trap" where
  "pduToSnmpTrap (V1Pdu enterprise genericTrap specificTrap upTime varbinds) source receivedAt =
     \<lparr>tp_ciCode = option_default [] (src_ciCode source), tp_siteCode = None, tp_trapOid = None, tp_trapName = None, tp_agentAddress = src_address source,
      tp_sysUpTimeTicks = upTime, tp_receivedAt = Some receivedAt, tp_version = Some ''v1'',
      tp_v1 = Some \<lparr>v1_enterprise = (if truthy enterprise then enterprise else None), v1_genericTrap = genericTrap, v1_specificTrap = specificTrap\<rparr>,
      tp_varbinds = Some (map toVarbind varbinds), tp_severity = None, tp_clears = False\<rparr>"
| "pduToSnmpTrap (V2cPdu version varbinds) source receivedAt =
     (case foldl scan_varbind (None, None, []) varbinds of (ticks, oid, data) \<Rightarrow>
      \<lparr>tp_ciCode = option_default [] (src_ciCode source), tp_siteCode = None, tp_trapOid = oid, tp_trapName = None, tp_agentAddress = src_address source,
       tp_sysUpTimeTicks = ticks, tp_receivedAt = Some receivedAt, tp_version = Some version, tp_v1 = None, tp_varbinds = Some data,
       tp_severity = None, tp_clears = False\<rparr>)"

text \<open>\<open>new Map(...)\<close>: a later entry for the same address replaces an earlier one.\<close>

definition createSourceResolver :: "snmp_source list \<Rightarrow> string \<Rightarrow> trap_source" where
  "createSourceResolver sources address =
     \<lparr>src_address = address, src_ciCode = map_of (rev (map (\<lambda>s. (sr_address s, sr_ciCode s)) sources)) address\<rparr>"

text \<open>A datagram as the receiver decodes it: whether it is a version 1 trap, with its header, and the varbinds.\<close>

record receiver_pdu =
  rc_isV1Trap :: bool
  rc_enterprise :: "string option"
  rc_generic :: "int option"
  rc_specific :: "int option"
  rc_upTime :: "int option"
  rc_varbinds :: "raw_varbind list option"

definition pduFromNetSnmp :: "receiver_pdu \<Rightarrow> decoded_pdu" where
  "pduFromNetSnmp p =
     (let varbinds = option_default [] (rc_varbinds p) in
      if rc_isV1Trap p then V1Pdu (if truthy (rc_enterprise p) then rc_enterprise p else None) (rc_generic p) (rc_specific p) (rc_upTime p) varbinds
      else V2cPdu ''v2c'' varbinds)"

datatype collector_payload = P_Snmp snmp_trap | P_Health health_payload

text \<open>
  The number in the key is the uptime or, without one, what \<open>Date.parse\<close> makes of the receipt time: an unreadable time is not a number,
  and the fallback to the clock behind it is never taken.
\<close>

definition trap_occurrence :: "snmp_trap \<Rightarrow> string" where
  "trap_occurrence t =
     (case tp_sysUpTimeTicks t of
        Some n \<Rightarrow> int_str n
      | None \<Rightarrow> (case tp_receivedAt t of Some (_, Some ms) \<Rightarrow> int_str ms | _ \<Rightarrow> ''NaN''))"

definition trap_key :: "snmp_trap \<Rightarrow> string" where
  "trap_key t = ''snmp:'' @ tp_agentAddress t @ '':'' @
     (case tp_trapOid t of
        Some oid \<Rightarrow> oid
      | None \<Rightarrow> (case Option.bind (tp_v1 t) v1_specificTrap of Some n \<Rightarrow> int_str n | None \<Rightarrow> ''?'')) @ '':'' @ trap_occurrence t"

definition onTrap :: "nat \<Rightarrow> instant \<Rightarrow> snmp_trap \<Rightarrow> collector_payload buffered_item list \<Rightarrow> collector_payload buffered_item list" where
  "onTrap maxItems now t items = bufferItem maxItems now (trap_key t) ''snmp'' (P_Snmp t) items"

definition pduSink :: "nat \<Rightarrow> instant \<Rightarrow> snmp_source list \<Rightarrow> string \<times> instant option \<Rightarrow> decoded_pdu \<Rightarrow> string \<Rightarrow>
    collector_payload buffered_item list \<Rightarrow> collector_payload buffered_item list" where
  "pduSink maxItems now sources receivedAt pdu address items = onTrap maxItems now (pduToSnmpTrap pdu (createSourceResolver sources address) receivedAt) items"

section \<open>Reading a management endpoint\<close>

datatype mgmt_error = MgmtHttpError string int | FetchError string

fun mgmt_message :: "mgmt_error \<Rightarrow> string" where
  "mgmt_message (MgmtHttpError m status) = m"
| "mgmt_message (FetchError m) = m"

record credential =
  cr_username :: string
  cr_password :: string

text \<open>
  What an endpoint answers to the GET of a URL, read as the resource the caller expects; the inner \<open>None\<close> is an empty body. Links are the
  \<open>@odata.id\<close> members of a collection, a drive list or a system's storage link. \<open>an_redirects url\<close> are the URLs that \<open>fetch\<close>, which follows
  redirects unless it is told not to, asks for in turn before it has the answer to \<open>url\<close>; the answer is that of the last of them.
\<close>

record mgmt_answers =
  an_redirects :: "string \<Rightarrow> string list"
  an_members :: "string \<Rightarrow> mgmt_error + string option list option"
  an_system :: "string \<Rightarrow> mgmt_error + (string option \<times> ilo_system) option"
  an_thermal :: "string \<Rightarrow> mgmt_error + (redfish_temperature list option \<times> redfish_fan list option) option"
  an_power :: "string \<Rightarrow> mgmt_error + redfish_power_supply list option option"
  an_driveLinks :: "string \<Rightarrow> mgmt_error + string option list option"
  an_drive :: "string \<Rightarrow> mgmt_error + redfish_drive option"
  an_omeDevices :: "string \<Rightarrow> mgmt_error + ome_device list option"
  an_omeSubSystems :: "string \<Rightarrow> mgmt_error + ome_subsystem list option"
  an_omeInventory :: "string \<Rightarrow> mgmt_error + (string option \<times> (string \<times> jvalue) list list option) list option"

record mgmt_http =
  mh_baseUrl :: string
  mh_origin :: string
  mh_auth :: credential
  mh_answers :: mgmt_answers

text \<open>
  The requests that leave the collector, in order: the GET the client issues, with the credential of its authorization header, and the
  requests \<open>fetch\<close> adds by itself on a redirect.
\<close>

datatype net_event = Sent string credential | Followed string

type_synonym 'a request = "(net_event list, mgmt_error, 'a) act"

text \<open>The constructor; \<open>origin\<close> is \<open>new URL(url).origin\<close>, or \<open>None\<close> when that throws.\<close>

definition makeHttp :: "(string \<Rightarrow> string option) \<Rightarrow> mgmt_answers \<Rightarrow> string \<Rightarrow> credential \<Rightarrow> mgmt_error + mgmt_http" where
  "makeHttp origin answers baseUrl c =
     (let b = strip_trailing CHR ''/'' baseUrl in
      case origin b of
        None \<Rightarrow> Inl (FetchError ''Invalid URL'')
      | Some g \<Rightarrow> Inr \<lparr>mh_baseUrl = b, mh_origin = g, mh_auth = c, mh_answers = answers\<rparr>)"

definition mgmt_resolve :: "(string \<Rightarrow> string option) \<Rightarrow> mgmt_http \<Rightarrow> string \<Rightarrow> mgmt_error + string" where
  "mgmt_resolve origin h target =
     (let url = (if starts_with ''http'' target then target else mh_baseUrl h @ target) in
      if origin url = None then Inl (FetchError ''Invalid URL'')
      else if origin url \<noteq> Some (mh_origin h)
      then Inl (FetchError (''MgmtHttp refuses cross-origin URL '' @ quoted url @ '' (endpoint origin '' @ mh_origin h @ '')''))
      else Inr url)"

text \<open>The call of \<open>fetchImpl\<close>: the request is made, whatever becomes of its answer.\<close>

definition mgmt_fetch :: "mgmt_http \<Rightarrow> (mgmt_answers \<Rightarrow> string \<Rightarrow> mgmt_error + 'a option) \<Rightarrow> string \<Rightarrow> 'a option request" where
  "mgmt_fetch h resource url =
     (\<lambda>reqs. (resource (mh_answers h) url, reqs @ Sent url (mh_auth h) # map Followed (an_redirects (mh_answers h) url)))"

definition mgmt_get :: "(string \<Rightarrow> string option) \<Rightarrow> mgmt_http \<Rightarrow> (mgmt_answers \<Rightarrow> string \<Rightarrow> mgmt_error + 'a option) \<Rightarrow> string \<Rightarrow> 'a option request" where
  "mgmt_get origin h resource target = bindM (readM (\<lambda>_. mgmt_resolve origin h target)) (mgmt_fetch h resource)"

definition mgmt_tryGet :: "(string \<Rightarrow> string option) \<Rightarrow> mgmt_http \<Rightarrow> (mgmt_answers \<Rightarrow> string \<Rightarrow> mgmt_error + 'a option) \<Rightarrow> string \<Rightarrow> 'a option request" where
  "mgmt_tryGet origin h resource target =
     catchM (mgmt_get origin h resource target)
       (\<lambda>e. case e of
          MgmtHttpError m status \<Rightarrow> if status = 404 then ret None else throw e
        | FetchError m \<Rightarrow> throw e)"

definition MAX_DRIVES_PER_POLL :: nat where
  "MAX_DRIVES_PER_POLL = 64"

text \<open>The drives of one controller; the first component of the result says that the cap was reached.\<close>

fun fetch_drive_links :: "(string \<Rightarrow> string option) \<Rightarrow> mgmt_http \<Rightarrow> redfish_drive list \<Rightarrow> string option list \<Rightarrow> (bool \<times> redfish_drive list) request" where
  "fetch_drive_links origin h drives [] = ret (False, drives)"
| "fetch_drive_links origin h drives (link # links) =
     (if MAX_DRIVES_PER_POLL \<le> length drives then ret (True, drives)
      else if \<not> truthy link then fetch_drive_links origin h drives links
      else bindM (mgmt_tryGet origin h an_drive (the link)) (\<lambda>d.
           fetch_drive_links origin h (case d of None \<Rightarrow> drives | Some x \<Rightarrow> drives @ [x]) links))"

fun fetch_controllers :: "(string \<Rightarrow> string option) \<Rightarrow> mgmt_http \<Rightarrow> redfish_drive list \<Rightarrow> string option list \<Rightarrow> redfish_drive list request" where
  "fetch_controllers origin h drives [] = ret drives"
| "fetch_controllers origin h drives (controller # others) =
     (if \<not> truthy controller then fetch_controllers origin h drives others
      else bindM (mgmt_tryGet origin h an_driveLinks (the controller)) (\<lambda>links.
           bindM (fetch_drive_links origin h drives (option_default [] links)) (\<lambda>(capped, found).
           if capped then ret found else fetch_controllers origin h found others)))"

text \<open>\<open>undefined\<close> when there is no storage collection, and when anything on the way throws.\<close>

definition fetchDrives :: "(string \<Rightarrow> string option) \<Rightarrow> mgmt_http \<Rightarrow> string \<Rightarrow> (string option \<times> ilo_system) option \<Rightarrow> redfish_drive list option request" where
  "fetchDrives origin h systemPath system =
     (case system of
        None \<Rightarrow> ret None
      | Some (storage, _) \<Rightarrow>
          catchM
            (bindM (mgmt_tryGet origin h an_members (option_default (systemPath @ ''/Storage'') storage)) (\<lambda>storageSet.
             case storageSet of
               None \<Rightarrow> ret None
             | Some others \<Rightarrow> bindM (fetch_controllers origin h [] others) (\<lambda>drives. ret (Some drives))))
            (\<lambda>_. ret None))"

text \<open>\<open>set?.Members?.[0]?.["@odata.id"]\<close>.\<close>

definition first_link :: "string option list option \<Rightarrow> string option" where
  "first_link ms = (case ms of Some (m # _) \<Rightarrow> if truthy m then m else None | _ \<Rightarrow> None)"

definition fetchRedfishBundle :: "(string \<Rightarrow> string option) \<Rightarrow> mgmt_http \<Rightarrow> string \<Rightarrow> instant \<Rightarrow> ilo_bundle request" where
  "fetchRedfishBundle origin h ciCode now =
     bindM (mgmt_get origin h an_members ''/redfish/v1/Systems'') (\<lambda>systems.
     if systems = None then throw (FetchError ''Cannot read properties of undefined'')
     else case first_link systems of
       None \<Rightarrow> throw (FetchError ''Redfish endpoint exposes no ComputerSystem'')
     | Some systemPath \<Rightarrow>
         bindM (mgmt_get origin h an_system systemPath) (\<lambda>system.
         bindM (mgmt_tryGet origin h an_members ''/redfish/v1/Chassis'') (\<lambda>chassisSet.
         let chassisPath = first_link chassisSet in
         bindM (case chassisPath of None \<Rightarrow> ret None | Some c \<Rightarrow> mgmt_tryGet origin h an_thermal (c @ ''/Thermal'')) (\<lambda>thermal.
         bindM (case chassisPath of None \<Rightarrow> ret None | Some c \<Rightarrow> mgmt_tryGet origin h an_power (c @ ''/Power'')) (\<lambda>power.
         bindM (fetchDrives origin h systemPath system) (\<lambda>drives.
         ret \<lparr>ib_ciCode = Some ciCode, ib_system = map_option snd system, ib_temperatures = Option.bind thermal fst, ib_fans = Option.bind thermal snd,
              ib_powerSupplies = Option.bind power id, ib_drives = drives, ib_smartStorageBattery = None,
              ib_observedAt = Some now\<rparr>))))))"

text \<open>The Redfish adapter reads the same bundle without the vendor's part.\<close>

definition plain_bundle :: "ilo_bundle \<Rightarrow> redfish_bundle" where
  "plain_bundle b = \<lparr>rb_ciCode = ib_ciCode b, rb_system = map_option redfish_system.truncate (ib_system b), rb_temperatures = ib_temperatures b,
     rb_fans = ib_fans b, rb_powerSupplies = ib_powerSupplies b, rb_drives = ib_drives b, rb_observedAt = ib_observedAt b\<rparr>"

section \<open>Reading an OpenManage appliance\<close>

type_synonym json_row = "(string \<times> jvalue) list"

fun row_str :: "json_row \<Rightarrow> string list \<Rightarrow> string option" where
  "row_str row [] = None"
| "row_str row (k # ks) = (case given_text row k of Some v \<Rightarrow> Some v | None \<Rightarrow> row_str row ks)"

fun row_num :: "json_row \<Rightarrow> string list \<Rightarrow> js_number option" where
  "row_num row [] = None"
| "row_num row (k # ks) = (case map_of row k of Some (JV_Num n) \<Rightarrow> Some n | _ \<Rightarrow> row_num row ks)"

definition toDisk :: "json_row \<Rightarrow> ome_disk" where
  "toDisk row = \<lparr>ok_Name = row_str row [''Name'', ''DiskNumber''], ok_SerialNumber = row_str row [''SerialNumber''], ok_MediaType = row_str row [''MediaType''],
     ok_Status = row_num row [''Status''], ok_PredictiveFailureState = row_str row [''PredictiveFailureState''],
     ok_RemainingReadWriteEndurance = row_str row [''RemainingReadWriteEndurance''], ok_Size = row_str row [''Size'', ''Capacity'']\<rparr>"

definition toPsu :: "json_row \<Rightarrow> ome_power_supply" where
  "toPsu row = \<lparr>op_Name = row_str row [''Name''], op_Status = row_num row [''Status''], op_OutputWatts = row_num row [''OutputWatts'', ''PowerSupplyWattage'']\<rparr>"

definition DISK_TYPES :: "string list" where
  "DISK_TYPES = [''serverStorageDisks'', ''deviceDisk'', ''serverDeviceStorage'']"

definition PSU_TYPES :: "string list" where
  "PSU_TYPES = [''serverPowerSupplies'', ''devicePowerSupply'']"

definition BIOS_TYPES :: "string list" where
  "BIOS_TYPES = [''deviceSoftware'', ''serverDeviceSoftware'']"

definition is_bios_row :: "json_row \<Rightarrow> bool" where
  "is_bios_row r \<longleftrightarrow> toUpperCase (option_default [] (row_str r [''ComponentType'', ''SoftwareType''])) = ''BIOS''"

text \<open>One round of the loop over the inventory sections: disks, power supplies and the BIOS version so far.\<close>

definition add_section :: "ome_disk list \<times> ome_power_supply list \<times> string option \<Rightarrow> string option \<times> json_row list option \<Rightarrow>
    ome_disk list \<times> ome_power_supply list \<times> string option" where
  "add_section acc section_row =
     (case acc of (disks, psus, bios) \<Rightarrow>
      let type = option_default [] (fst section_row); rows = option_default [] (snd section_row) in
      if type \<in> set DISK_TYPES then (disks @ map toDisk rows, psus, bios)
      else if type \<in> set PSU_TYPES then (disks, psus @ map toPsu rows, bios)
      else if type \<in> set BIOS_TYPES then
        (disks, psus, (case List.find is_bios_row rows of Some r \<Rightarrow> row_str r [''Version''] | None \<Rightarrow> bios))
      else (disks, psus, bios))"

definition non_empty :: "'a list \<Rightarrow> 'a list option" where
  "non_empty xs = (if xs = [] then None else Some xs)"

definition escape_tag :: "string \<Rightarrow> string" where
  "escape_tag s = concat (map (\<lambda>c. if c = CHR 0x27 then [c, c] else [c]) s)"

definition ome_path :: "ome_device \<Rightarrow> string \<Rightarrow> string" where
  "ome_path d what = ''/api/DeviceService/Devices('' @ (case od_Id d of None \<Rightarrow> ''undefined'' | Some n \<Rightarrow> jn_text n) @ '')/'' @ what"

definition fetchOmeDeviceBundle :: "(string \<Rightarrow> string option) \<Rightarrow> mgmt_http \<Rightarrow> string \<Rightarrow> string \<Rightarrow> instant \<Rightarrow> ome_bundle request" where
  "fetchOmeDeviceBundle origin h ciCode deviceRef now =
     bindM (mgmt_get origin h an_omeDevices (''/api/DeviceService/Devices?$filter=DeviceServiceTag eq '' @ [CHR 0x27] @ escape_tag deviceRef @ [CHR 0x27])) (\<lambda>found.
     case found of
       None \<Rightarrow> throw (FetchError ''Cannot read properties of undefined'')
     | Some [] \<Rightarrow> throw (FetchError (''OME has no device with Service Tag '' @ quoted deviceRef))
     | Some (device # _) \<Rightarrow>
         bindM (mgmt_tryGet origin h an_omeSubSystems (ome_path device ''SubSystemHealth'')) (\<lambda>subSystems.
         bindM (mgmt_tryGet origin h an_omeInventory (ome_path device ''InventoryDetails'')) (\<lambda>inventory.
         case foldl add_section ([], [], None) (option_default [] inventory) of (disks, psus, bios) \<Rightarrow>
           ret \<lparr>ob_ciCode = Some ciCode, ob_device = Some device, ob_subSystems = non_empty (option_default [] subSystems), ob_disks = non_empty disks,
                ob_powerSupplies = non_empty psus, ob_fans = None, ob_biosVersion = bios, ob_observedAt = Some now\<rparr>)))"

section \<open>The health poll\<close>

text \<open>\<open>replace(/[^A-Z0-9]+/g, "_")\<close>.\<close>

fun env_name :: "bool \<Rightarrow> string \<Rightarrow> string" where
  "env_name inrun [] = []"
| "env_name inrun (c # cs) =
     (if is_upper c \<or> is_digit c then c # env_name False cs else if inrun then env_name True cs else CHR ''_'' # env_name True cs)"

definition resolve_credential :: "(string \<Rightarrow> string option) \<Rightarrow> string \<Rightarrow> credential option" where
  "resolve_credential process_env ref =
     (case process_env (''COLLECTOR_CRED_'' @ env_name False (toUpperCase ref)) of
        None \<Rightarrow> None
      | Some raw \<Rightarrow>
          let user = takeWhile (\<lambda>c. c \<noteq> CHR '':'') raw in
          if user = [] \<or> length user = length raw then None
          else Some \<lparr>cr_username = user, cr_password = drop (length user + 1) raw\<rparr>)"

record poll_failure =
  pf_ciCode :: string
  pf_reason :: string

record poll_result =
  pr_polled :: nat
  pr_enqueued :: nat
  pr_failed :: "poll_failure list"

definition normalized_or :: "norm_error + 'a \<Rightarrow> string + 'a" where
  "normalized_or r = map_sum norm_message id r"

text \<open>\<open>err.message\<close> of whatever a request throws.\<close>

definition with_message :: "'a request \<Rightarrow> (net_event list, string, 'a) act" where
  "with_message m = (\<lambda>reqs. (map_sum mgmt_message id (fst (m reqs)), snd (m reqs)))"

text \<open>The snapshot of one endpoint through its client, by the adapter of its kind.\<close>

definition read_snapshot :: "(string \<Rightarrow> string option) \<Rightarrow> mgmt_http \<Rightarrow> instant \<Rightarrow> endpoint_target \<Rightarrow> (net_event list, string, health_payload) act" where
  "read_snapshot origin h now ep =
     (if ep_kind ep = DELL_OME_EP then
        if \<not> truthy (ep_deviceRef ep) then throw ''DELL_OME endpoint has no deviceRef''
        else bindM (with_message (fetchOmeDeviceBundle origin h (ep_ciCode ep) (the (ep_deviceRef ep)) now)) (\<lambda>b.
             readM (\<lambda>_. normalized_or (normalizeDellOmeDevice now b)))
      else bindM (with_message (fetchRedfishBundle origin h (ep_ciCode ep) now)) (\<lambda>b.
           readM (\<lambda>_. if ep_kind ep = HPE_ILO_EP then normalized_or (normalizeHpeIloSystem now b)
                      else normalized_or (normalizeRedfishSystem now (plain_bundle b)))))"

text \<open>The reading of one endpoint: the reason of a failure, or the snapshot.\<close>

definition poll_endpoint :: "(string \<Rightarrow> string option) \<Rightarrow> (string \<Rightarrow> string option) \<Rightarrow> (credential \<Rightarrow> mgmt_answers) \<Rightarrow> instant \<Rightarrow> endpoint_target \<Rightarrow>
    (net_event list, string, health_payload) act" where
  "poll_endpoint origin process_env network now ep =
     (case resolve_credential process_env (ep_credentialRef ep) of
        None \<Rightarrow> throw (''no credential for '' @ quoted (ep_credentialRef ep))
      | Some c \<Rightarrow>
          bindM (with_message (readM (\<lambda>_. makeHttp origin (network c) (ep_address ep) c))) (\<lambda>h. read_snapshot origin h now ep))"

text \<open>\<open>printed\<close> prints an instant as \<open>toISOString\<close> does.\<close>

definition health_key :: "(instant \<Rightarrow> string) \<Rightarrow> endpoint_target \<Rightarrow> health_payload \<Rightarrow> string" where
  "health_key printed ep p = ''health:'' @ ep_ciCode ep @ '':'' @ printed (hp_observedAt p)"

text \<open>The loop; \<open>poll\<close> is the outcome of the reading of the endpoint at that moment, \<open>fst (poll_endpoint ... ep reqs)\<close>.\<close>

fun poll_loop :: "(endpoint_target \<Rightarrow> string + health_payload) \<Rightarrow> (instant \<Rightarrow> string) \<Rightarrow> nat \<Rightarrow> instant \<Rightarrow> endpoint_target list \<Rightarrow>
    nat \<times> poll_failure list \<times> collector_payload buffered_item list \<Rightarrow> nat \<times> poll_failure list \<times> collector_payload buffered_item list" where
  "poll_loop poll printed maxItems now [] st = st"
| "poll_loop poll printed maxItems now (ep # eps) (enqueued, failed, items) =
     (case poll ep of
        Inl reason \<Rightarrow> poll_loop poll printed maxItems now eps (enqueued, failed @ [\<lparr>pf_ciCode = ep_ciCode ep, pf_reason = reason\<rparr>], items)
      | Inr p \<Rightarrow> poll_loop poll printed maxItems now eps
          (enqueued + 1, failed, bufferItem maxItems now (health_key printed ep p) ''health'' (P_Health p) items))"

definition runHealthPoll :: "(endpoint_target \<Rightarrow> string + health_payload) \<Rightarrow> (instant \<Rightarrow> string) \<Rightarrow> nat \<Rightarrow> instant \<Rightarrow> endpoint_target list \<Rightarrow>
    collector_payload buffered_item list \<Rightarrow> poll_result \<times> collector_payload buffered_item list" where
  "runHealthPoll poll printed maxItems now eps items =
     (case poll_loop poll printed maxItems now eps (0, [], items) of
        (enqueued, failed, items') \<Rightarrow> (\<lparr>pr_polled = length eps, pr_enqueued = enqueued, pr_failed = failed\<rparr>, items'))"

section \<open>What an accepted configuration guarantees\<close>

lemma cfg_str_Inr: "cfg_str r k = Inr v \<Longrightarrow> v \<noteq> []"
  by (auto simp: cfg_str_def config_fail_def split: option.splits jvalue.splits if_splits)

lemma posInt_Inr: "posInt r k d = Inr v \<Longrightarrow> 0 < d \<Longrightarrow> 0 < v"
  by (auto simp: posInt_def config_fail_def split: option.splits jvalue.splits if_splits)

lemma requireHttps_Inr: "requireHttps protocol url f = Inr v \<Longrightarrow> v = url \<and> protocol v = Some ''https:''"
  by (auto simp: requireHttps_def config_fail_def split: option.splits if_splits)

lemma collect_from_Inr: "collect_from i f xs = Inr ys \<Longrightarrow> length ys = length xs \<and> (\<forall>y \<in> set ys. \<exists>j x. f j x = Inr y)"
  by (induction i f xs arbitrary: ys rule: collect_from.induct) (auto simp: andThen_Inr_iff, blast)

definition endpoint_ok :: "endpoint_target \<Rightarrow> bool" where
  "endpoint_ok e \<longleftrightarrow> ep_ciCode e \<noteq> [] \<and> ep_address e \<noteq> [] \<and> ep_credentialRef e \<noteq> [] \<and> (ep_kind e = DELL_OME_EP \<longrightarrow> truthy (ep_deviceRef e))"

lemma parse_endpoint_Inr:
  assumes "parse_endpoint i v = Inr e"
  shows "endpoint_ok e"
proof -
  obtain er kind where "cfg_str er ''ciCode'' = Inr (ep_ciCode e)" "cfg_str er ''address'' = Inr (ep_address e)"
    "cfg_str er ''credentialRef'' = Inr (ep_credentialRef e)" "endpoint_device_ref er kind = Inr (ep_deviceRef e)" "ep_kind e = kind"
    using assms by (auto simp: parse_endpoint_def config_fail_def andThen_Inr_iff split: option.splits)
  then show ?thesis
    by (auto simp: endpoint_ok_def endpoint_device_ref_def andThen_Inr_iff truthy_def dest: cfg_str_Inr split: option.splits)
qed

lemma parse_endpoints_Inr:
  assumes "parse_endpoints r = Inr es"
  shows "es \<noteq> [] \<and> list_all endpoint_ok es"
proof -
  obtain vs where "vs \<noteq> []" "collect_from 0 parse_endpoint vs = Inr es"
    using assms by (auto simp: parse_endpoints_def config_fail_def split: option.splits jvalue.splits if_splits)
  with collect_from_Inr [OF this(2)] show ?thesis by (auto simp: list_all_iff intro: parse_endpoint_Inr)
qed

text \<open>
  A configuration that is accepted can be run: the API is spoken to over HTTPS, there is an endpoint, every endpoint has its device, address and
  credential and a Dell appliance its service tag, and the intervals, the cap of the buffer and the port are positive.
\<close>

theorem accepted_config_usable:
  assumes "loadConfig protocol raw = Inr c"
  shows "protocol (cc_apiBaseUrl c) = Some ''https:'' \<and> cc_siteCode c \<noteq> [] \<and> cc_apiToken c \<noteq> [] \<and>
    cc_endpoints c \<noteq> [] \<and> list_all endpoint_ok (cc_endpoints c) \<and> 0 < cc_pollIntervalSeconds c \<and> 0 < cc_heartbeatIntervalSeconds c \<and>
    0 < cc_bufferMaxItems c \<and> 0 < cc_snmpTrapPort c"
proof -
  obtain r where "members_of raw = Some r" using assms by (auto simp: loadConfig_def config_fail_def split: option.splits)
  then show ?thesis using assms
    by (auto simp: loadConfig_def andThen_Inr_iff dest!: parse_endpoints_Inr requireHttps_Inr dest: cfg_str_Inr posInt_Inr)
qed

definition sample_protocol :: "string \<Rightarrow> string option" where
  "sample_protocol url = (if starts_with ''https://'' url then Some ''https:'' else None)"

definition sample_config :: jvalue where
  "sample_config = JV_Obj [(''siteCode'', JV_Str ''SITE01''), (''apiBaseUrl'', JV_Str ''https://ops/api''), (''apiToken'', JV_Str ''t''),
     (''endpoints'', JV_Arr [JV_Obj [(''kind'', JV_Str ''REDFISH''), (''ciCode'', JV_Str ''SRV-1''), (''address'', JV_Str ''https://10.0.0.1''),
       (''credentialRef'', JV_Str ''bmc'')]])]"

theorem accepted_config_usable_witness:
  "\<exists>c. loadConfig sample_protocol sample_config = Inr c \<and> cc_endpoints c \<noteq> []"
proof -
  have "\<not> isl (loadConfig sample_protocol sample_config)" by code_simp
  then obtain c where c: "loadConfig sample_protocol sample_config = Inr c" by (cases "loadConfig sample_protocol sample_config") simp_all
  from accepted_config_usable [OF c] c show ?thesis by blast
qed

section \<open>One endpoint does not stop the poll\<close>

definition poll_failures :: "(endpoint_target \<Rightarrow> string + health_payload) \<Rightarrow> endpoint_target list \<Rightarrow> poll_failure list" where
  "poll_failures poll eps = map (\<lambda>ep. \<lparr>pf_ciCode = ep_ciCode ep, pf_reason = projl (poll ep)\<rparr>) (filter (\<lambda>ep. isl (poll ep)) eps)"

lemma poll_loop_eq:
  "poll_loop poll printed m now eps (n, fs, items) =
     (n + length (filter (\<lambda>ep. \<not> isl (poll ep)) eps), fs @ poll_failures poll eps,
      snd (snd (poll_loop poll printed m now (filter (\<lambda>ep. \<not> isl (poll ep)) eps) (n', fs', items))))"
proof (induction eps arbitrary: n fs items n' fs')
  case Nil
  show ?case by (simp add: poll_failures_def)
next
  case (Cons ep eps)
  show ?case
  proof (cases "poll ep")
    case (Inl reason)
    then show ?thesis using Cons [of n "fs @ [\<lparr>pf_ciCode = ep_ciCode ep, pf_reason = reason\<rparr>]" items n' fs'] by (simp add: poll_failures_def)
  next
    case (Inr p)
    then show ?thesis using Cons [of "n + 1" fs "bufferItem m now (health_key printed ep p) ''health'' (P_Health p) items" "n' + 1" fs']
      by (simp add: poll_failures_def)
  qed
qed

text \<open>
  A poll accounts for every endpoint: what fails is reported with its reason, in order, everything else is queued, and the buffer afterwards is
  what a poll of the readable endpoints alone would leave.
\<close>

theorem poll_isolates_endpoints:
  "runHealthPoll poll printed maxItems now eps items =
     (\<lparr>pr_polled = length eps, pr_enqueued = length (filter (\<lambda>ep. \<not> isl (poll ep)) eps), pr_failed = poll_failures poll eps\<rparr>,
      snd (runHealthPoll poll printed maxItems now (filter (\<lambda>ep. \<not> isl (poll ep)) eps) items))"
  using poll_loop_eq [of poll printed maxItems now eps 0 "[]" items 0 "[]"]
  by (simp add: runHealthPoll_def split: prod.splits)

section \<open>Requests stay on the endpoint\<close>

text \<open>
  What the client adds to the log of requests: GETs to its own origin with its own credential, and after them what \<open>fetch\<close> does with their redirects.
\<close>

definition own_requests :: "(string \<Rightarrow> string option) \<Rightarrow> mgmt_http \<Rightarrow> net_event list \<Rightarrow> bool" where
  "own_requests origin h new \<longleftrightarrow>
     (\<forall>url c. Sent url c \<in> set new \<longrightarrow> origin url = Some (mh_origin h) \<and> c = mh_auth h) \<and>
     (\<forall>url. Followed url \<in> set new \<longrightarrow> (\<exists>u. Sent u (mh_auth h) \<in> set new \<and> url \<in> set (an_redirects (mh_answers h) u)))"

definition requests_of :: "(string \<Rightarrow> string option) \<Rightarrow> mgmt_http \<Rightarrow> net_event list \<Rightarrow> net_event list \<Rightarrow> bool" where
  "requests_of origin h reqs reqs' \<longleftrightarrow> (\<exists>new. reqs' = reqs @ new \<and> own_requests origin h new)"

lemma own_requests_append: "own_requests origin h new \<Longrightarrow> own_requests origin h new' \<Longrightarrow> own_requests origin h (new @ new')"
  unfolding own_requests_def set_append by blast

interpretation requests: frame_relation "requests_of origin h" for origin h
  by unfold_locales (auto simp: requests_of_def own_requests_append, simp add: own_requests_def)

lemma mgmt_resolve_Inr: "mgmt_resolve origin h target = Inr url \<Longrightarrow> origin url = Some (mh_origin h)"
  by (auto simp: mgmt_resolve_def Let_def split: if_splits)

lemma mgmt_get_stays: "obeys (requests_of origin h) (mgmt_get origin h resource target)"
  using mgmt_resolve_Inr
  by (cases "mgmt_resolve origin h target")
     (auto simp: obeys_def mgmt_get_def mgmt_fetch_def requests_of_def own_requests_def bindM_readM)

text \<open>A refused link sends nothing at all.\<close>

lemma refused_link_sends_nothing: "mgmt_resolve origin h target = Inl e \<Longrightarrow> mgmt_get origin h resource target reqs = (Inl e, reqs)"
  by (simp add: mgmt_get_def)

lemma mgmt_tryGet_stays: "obeys (requests_of origin h) (mgmt_tryGet origin h resource target)"
  unfolding mgmt_tryGet_def
  by (intro requests.obeys_catch mgmt_get_stays) (auto intro: requests.obeys_basic split: mgmt_error.split)

lemmas stays_rules = requests.obeys_rules requests.obeys_catch mgmt_get_stays mgmt_tryGet_stays

lemma fetch_drive_links_stays: "obeys (requests_of origin h) (fetch_drive_links origin h drives links)"
  by (induction links arbitrary: drives) (auto intro!: stays_rules)

lemma fetch_controllers_stays: "obeys (requests_of origin h) (fetch_controllers origin h drives cs)"
  by (induction cs arbitrary: drives) (auto intro!: stays_rules fetch_drive_links_stays)

lemma fetchDrives_stays: "obeys (requests_of origin h) (fetchDrives origin h p sys)"
  unfolding fetchDrives_def by (intro stays_rules fetch_controllers_stays)

lemma fetches_stay:
  "obeys (requests_of origin h) (fetchRedfishBundle origin h ci now)"
  "obeys (requests_of origin h) (fetchOmeDeviceBundle origin h ci ref now)"
  unfolding fetchRedfishBundle_def fetchOmeDeviceBundle_def
  by (intro stays_rules fetchDrives_stays; auto intro!: stays_rules fetchDrives_stays split: list.split)+

lemma with_message_stays: "obeys R m \<Longrightarrow> obeys R (with_message m)"
  by (simp add: obeys_def with_message_def)

lemma read_snapshot_stays: "obeys (requests_of origin h) (read_snapshot origin h now ep)"
  unfolding read_snapshot_def by (intro stays_rules with_message_stays fetches_stay)

text \<open>
  C34: Every request the poll of an endpoint issues, whatever links the endpoint returns and whatever else goes wrong, goes to the origin of the configured
  address and carries the credential configured for that endpoint: a link to another host is refused before anything is sent. The only requests that
  can go elsewhere are the redirects \<open>fetch\<close> follows by itself on the way to the answer of such a request.
\<close>

theorem poll_stays_on_origin:
  "\<exists>new. snd (poll_endpoint origin process_env network now ep reqs) = reqs @ new \<and>
     (\<forall>url c. Sent url c \<in> set new \<longrightarrow>
        origin url = origin (strip_trailing CHR ''/'' (ep_address ep)) \<and> resolve_credential process_env (ep_credentialRef ep) = Some c) \<and>
     (\<forall>url. Followed url \<in> set new \<longrightarrow> (\<exists>u c. Sent u c \<in> set new \<and> url \<in> set (an_redirects (network c) u)))"
proof (cases "resolve_credential process_env (ep_credentialRef ep)")
  case (Some c)
  show ?thesis
  proof (cases "makeHttp origin (network c) (ep_address ep) c")
    case (Inl e)
    then show ?thesis using Some by (simp add: poll_endpoint_def with_message_def bindM_def)
  next
    case (Inr h)
    have h: "Some (mh_origin h) = origin (strip_trailing CHR ''/'' (ep_address ep))" "mh_auth h = c" "mh_answers h = network c"
      using Inr by (auto simp: makeHttp_def Let_def split: option.splits)
    have "requests_of origin h reqs (snd (poll_endpoint origin process_env network now ep reqs))"
      using Some Inr obeysD [OF read_snapshot_stays] by (simp add: poll_endpoint_def with_message_def bindM_def)
    then obtain new where new: "snd (poll_endpoint origin process_env network now ep reqs) = reqs @ new"
      and "\<forall>url c. Sent url c \<in> set new \<longrightarrow> origin url = Some (mh_origin h) \<and> c = mh_auth h"
      "\<forall>url. Followed url \<in> set new \<longrightarrow> (\<exists>u. Sent u (mh_auth h) \<in> set new \<and> url \<in> set (an_redirects (mh_answers h) u))"
      unfolding requests_of_def own_requests_def by blast
    then have "(\<forall>url c. Sent url c \<in> set new \<longrightarrow> origin url = origin (strip_trailing CHR ''/'' (ep_address ep)) \<and> resolve_credential process_env (ep_credentialRef ep) = Some c)"
      "(\<forall>url. Followed url \<in> set new \<longrightarrow> (\<exists>u c. Sent u c \<in> set new \<and> url \<in> set (an_redirects (network c) u)))"
      using Some unfolding h by blast+
    with new show ?thesis by blast
  qed
qed (simp add: poll_endpoint_def)

text \<open>An endpoint that answers nothing but its list of systems, which points to another host.\<close>

definition silent :: mgmt_answers where
  "silent = \<lparr>an_redirects = \<lambda>_. [], an_members = \<lambda>_. Inr None, an_system = \<lambda>_. Inr None, an_thermal = \<lambda>_. Inr None, an_power = \<lambda>_. Inr None,
     an_driveLinks = \<lambda>_. Inr None, an_drive = \<lambda>_. Inr None, an_omeDevices = \<lambda>_. Inr None, an_omeSubSystems = \<lambda>_. Inr None,
     an_omeInventory = \<lambda>_. Inr None\<rparr>"

definition systems_url :: string where
  "systems_url = ''https://bmc/redfish/v1/Systems''"

definition pointing_to :: "string \<Rightarrow> mgmt_answers" where
  "pointing_to link = silent\<lparr>an_members := \<lambda>url. if url = systems_url then Inr (Some [Some link]) else Inr None\<rparr>"

definition sample_origin :: "string \<Rightarrow> string option" where
  "sample_origin url = (if starts_with ''https://bmc'' url then Some ''https://bmc'' else if starts_with ''https://evil'' url then Some ''https://evil'' else None)"

definition sample_endpoint :: endpoint_target where
  "sample_endpoint = \<lparr>ep_ciCode = ''SRV-1'', ep_kind = REDFISH_EP, ep_address = ''https://bmc/'', ep_credentialRef = ''bmc'', ep_deviceRef = None\<rparr>"

definition sample_env :: "string \<Rightarrow> string option" where
  "sample_env k = (if k = ''COLLECTOR_CRED_BMC'' then Some ''root:pw'' else None)"

definition root_pw :: credential where
  "root_pw = \<lparr>cr_username = ''root'', cr_password = ''pw''\<rparr>"

text \<open>The link to another host is refused: the only request of the poll is the one for the list of systems.\<close>

lemma spoofed_link_refused:
  "poll_endpoint sample_origin sample_env (\<lambda>_. pointing_to ''https://evil/x'') 0 sample_endpoint [] =
     (Inl ''MgmtHttp refuses cross-origin URL \"https://evil/x\" (endpoint origin https://bmc)'', [Sent systems_url root_pw])"
  by code_simp

text \<open>
  A redirect is not a link: a management controller that answers the same GET with a redirect makes the collector ask another host, which
  the origin check was meant to exclude, since the call of \<open>fetch\<close> leaves \<open>redirect\<close> at its default.
\<close>

definition redirecting :: mgmt_answers where
  "redirecting = silent\<lparr>an_redirects := \<lambda>_. [''https://evil/x'']\<rparr>"

lemma redirect_leaves_origin:
  "snd (poll_endpoint sample_origin sample_env (\<lambda>_. redirecting) 0 sample_endpoint []) = [Sent systems_url root_pw, Followed ''https://evil/x'']"
  by code_simp

theorem poll_stays_on_origin_witness:
  "snd (poll_endpoint sample_origin sample_env (\<lambda>_. redirecting) 0 sample_endpoint []) = [Sent systems_url root_pw, Followed ''https://evil/x''] \<and>
   sample_origin systems_url = sample_origin (strip_trailing CHR ''/'' (ep_address sample_endpoint)) \<and>
   resolve_credential sample_env (ep_credentialRef sample_endpoint) = Some root_pw \<and>
   (\<exists>u c. Sent u c \<in> {Sent systems_url root_pw, Followed ''https://evil/x''} \<and> ''https://evil/x'' \<in> set (an_redirects redirecting u))"
  using poll_stays_on_origin [of sample_origin sample_env "\<lambda>_. redirecting" 0 sample_endpoint "[]"]
  unfolding redirect_leaves_origin by auto

text \<open>A huge array cannot make one poll hammer a controller.\<close>

lemma fetch_drive_links_bounded:
  "fetch_drive_links origin h drives links reqs = (Inr (c, ds), reqs') \<Longrightarrow> length drives \<le> MAX_DRIVES_PER_POLL \<Longrightarrow> length ds \<le> MAX_DRIVES_PER_POLL"
  by (induction links arbitrary: drives reqs) (auto simp: bindM_Inr_iff split: if_splits option.splits)

lemma fetch_controllers_bounded:
  "fetch_controllers origin h drives cs reqs = (Inr ds, reqs') \<Longrightarrow> length drives \<le> MAX_DRIVES_PER_POLL \<Longrightarrow> length ds \<le> MAX_DRIVES_PER_POLL"
  by (induction cs arbitrary: drives reqs) (auto simp: bindM_Inr_iff dest: fetch_drive_links_bounded split: if_splits)

lemma drives_bounded: "fetchDrives origin h p sys reqs = (Inr (Some ds), reqs') \<Longrightarrow> length ds \<le> MAX_DRIVES_PER_POLL"
  by (auto simp: fetchDrives_def catchM_def bindM_Inr_iff dest!: fetch_controllers_bounded split: option.splits sum.splits prod.splits)

section \<open>Traps on their way\<close>

lemma pdu_ciCode: "tp_ciCode (pduToSnmpTrap pdu source stamp) = option_default [] (src_ciCode source)"
  by (cases pdu) (auto split: prod.splits)

text \<open>A trap from an address that is not configured is queued and delivered, and the adapter of the API refuses it.\<close>

lemma unknown_source_rejected:
  assumes "address \<notin> set (map sr_address sources)"
  shows "\<exists>e. normalizeSnmpTrap now (pduToSnmpTrap pdu (createSourceResolver sources address) stamp) = Inl e"
proof -
  have "map_of (rev (map (\<lambda>s. (sr_address s, sr_ciCode s)) sources)) address = None"
    using assms by (force simp: map_of_eq_None_iff)
  then have "tp_ciCode (pduToSnmpTrap pdu (createSourceResolver sources address) stamp) = []"
    by (simp add: pdu_ciCode createSourceResolver_def option_default_def)
  then show ?thesis by (simp add: normalizeSnmpTrap_def required_def trim_def)
qed

text \<open>The two leading varbinds of a notification are taken out, the rest is passed on in order.\<close>

lemma scan_data:
  "list_all (\<lambda>v. rv_oid v \<noteq> SYS_UPTIME_OID \<and> rv_oid v \<noteq> SNMP_TRAP_OID) vs \<Longrightarrow> foldl scan_varbind (ticks, oid, data) vs = (ticks, oid, data @ map toVarbind vs)"
  by (induction vs arbitrary: data) (simp_all add: scan_varbind_def)

lemma standard_notification:
  assumes "list_all (\<lambda>v. rv_oid v \<noteq> SYS_UPTIME_OID \<and> rv_oid v \<noteq> SNMP_TRAP_OID) vs" "oid \<noteq> []"
  shows "pduToSnmpTrap (V2cPdu version (\<lparr>rv_oid = SYS_UPTIME_OID, rv_value = RV_Number n\<rparr> # \<lparr>rv_oid = SNMP_TRAP_OID, rv_value = RV_Text oid read\<rparr> # vs)) source stamp =
    \<lparr>tp_ciCode = option_default [] (src_ciCode source), tp_siteCode = None, tp_trapOid = Some oid, tp_trapName = None, tp_agentAddress = src_address source,
     tp_sysUpTimeTicks = Some n, tp_receivedAt = Some stamp, tp_version = Some version, tp_v1 = None, tp_varbinds = Some (map toVarbind vs),
     tp_severity = None, tp_clears = False\<rparr>"
  using assms by (simp add: scan_data scan_varbind_def SYS_UPTIME_OID_def SNMP_TRAP_OID_def)

text \<open>
  The key of a trap has the sender, the kind and the uptime, not the interface: of two ports of a switch that go down within the same
  hundredth of a second only the first is queued, although the adapter would give the two traps different event ids.
\<close>

definition link_down :: "string \<Rightarrow> decoded_pdu" where
  "link_down port = V2cPdu ''v2c'' [\<lparr>rv_oid = SYS_UPTIME_OID, rv_value = RV_Number 7\<rparr>, \<lparr>rv_oid = SNMP_TRAP_OID, rv_value = RV_Text ''1.3.6.1.6.3.1.1.5.3'' None\<rparr>,
     \<lparr>rv_oid = ''1.3.6.1.2.1.2.2.1.1.'' @ port, rv_value = RV_Text port None\<rparr>]"

definition switch_source :: "snmp_source list" where
  "switch_source = [\<lparr>sr_address = ''10.0.0.9'', sr_ciCode = ''BLR-SW1''\<rparr>]"

lemma simultaneous_traps_merged:
  "length (pduSink 5 0 switch_source (''t'', Some 0) (link_down ''2'') ''10.0.0.9''
     (pduSink 5 0 switch_source (''t'', Some 0) (link_down ''1'') ''10.0.0.9'' [])) = 1"
  "map_sum id na_eventId (normalizeSnmpTrap 0 (pduToSnmpTrap (link_down ''1'') (createSourceResolver switch_source ''10.0.0.9'') (''t'', Some 0))) \<noteq>
   map_sum id na_eventId (normalizeSnmpTrap 0 (pduToSnmpTrap (link_down ''2'') (createSourceResolver switch_source ''10.0.0.9'') (''t'', Some 0)))"
  by code_simp+

end
