(* ===== verification/Routes.thy ===== *)
theory Routes
  imports Sign_In Incident_Rules
begin

text \<open>
  The HTTP surface of the API: every route of every controller under \<^verbatim>\<open>modules\<close> with the
  decorators that decide who gets through (\<open>@UseGuards\<close>, \<open>@Roles\<close> on the class or on the
  handler, \<open>CurrentUser\<close>), and the admission of a request, which runs the guards in the order
  the controllers list them: authentication, roles, site scope. The handlers themselves are the
  operations of the other theories; a route names its handler. The theorems are the authorization
  matrix: who reaches a writing route, what is open to the public, that no request is claimed by
  two routes, and that the role lists at the edge agree with the finer rules behind them.
\<close>

section \<open>Routes and controllers\<close>

datatype http_method = M_GET | M_POST | M_PATCH | M_PUT | M_DELETE

datatype seg = Lit string | Param string

record route =
  rt_method :: http_method
  rt_path :: "seg list"
  rt_guarded :: bool
  rt_siteScope :: bool
  rt_roles :: "user_role list option"
  rt_caller :: bool
  rt_handler :: string

text \<open>A handler with its own decorators: method and path, \<open>@Roles\<close>, whether it takes \<open>CurrentUser\<close>.\<close>

definition on :: "http_method \<Rightarrow> seg list \<Rightarrow> user_role list option \<Rightarrow> bool \<Rightarrow> string \<Rightarrow> route" where
  "on m p rs caller h = \<lparr>rt_method = m, rt_path = p, rt_guarded = False, rt_siteScope = False,
     rt_roles = rs, rt_caller = caller, rt_handler = h\<rparr>"

text \<open>
  The class decorators: path prefix, \<open>JwtAuthGuard\<close> with \<open>RolesGuard\<close>, \<open>SiteScopeGuard\<close>, \<open>@Roles\<close>.
  The roles of the handler override those of the class (\<open>getAllAndOverride\<close>).
\<close>

definition controller :: "seg list \<Rightarrow> bool \<Rightarrow> bool \<Rightarrow> user_role list option \<Rightarrow> route list \<Rightarrow> route list" where
  "controller pre guarded scoped classRoles handlers =
     map (\<lambda>h. h\<lparr>rt_path := pre @ rt_path h, rt_guarded := guarded, rt_siteScope := scoped,
                rt_roles := option_or (rt_roles h) classRoles\<rparr>) handlers"

section \<open>Role lists of the controllers\<close>

definition ALERT_RULE_WRITE_ROLES :: "user_role list" where
  "ALERT_RULE_WRITE_ROLES = [SUPER_ADMIN, INFRASTRUCTURE_LEAD]"

definition ALERT_INGEST_ROLES :: "user_role list" where
  "ALERT_INGEST_ROLES = [SUPER_ADMIN, SERVICE_DESK_NOC, SITE_ENGINEER, INFRASTRUCTURE_LEAD]"

definition AUDIT_READ_ROLES :: "user_role list" where
  "AUDIT_READ_ROLES = [SUPER_ADMIN, AUDITOR_READ_ONLY]"

definition STAFF_ROLES :: "user_role list" where
  "STAFF_ROLES = [SUPER_ADMIN, SERVICE_DESK_NOC, SITE_ENGINEER,
       INFRASTRUCTURE_LEAD, VENDOR_COORDINATOR, DELIVERY_OPS_MANAGER,
       AUDITOR_READ_ONLY]"

definition CHANGE_RAISE_ROLES :: "user_role list" where
  "CHANGE_RAISE_ROLES = [SUPER_ADMIN, DELIVERY_OPS_MANAGER, INFRASTRUCTURE_LEAD, SITE_ENGINEER]"

definition CHANGE_APPROVE_ROLES :: "user_role list" where
  "CHANGE_APPROVE_ROLES = [SUPER_ADMIN, DELIVERY_OPS_MANAGER, INFRASTRUCTURE_LEAD]"

definition CMDB_WRITE_ROLES :: "user_role list" where
  "CMDB_WRITE_ROLES = [SUPER_ADMIN, DELIVERY_OPS_MANAGER, INFRASTRUCTURE_LEAD, SITE_ENGINEER]"

definition ALL_ROLES :: "user_role list" where
  "ALL_ROLES = [SUPER_ADMIN, SERVICE_DESK_NOC, SITE_ENGINEER,
       INFRASTRUCTURE_LEAD, VENDOR_COORDINATOR, DELIVERY_OPS_MANAGER,
       CLIENT_MANAGER_VIEWER, AUDITOR_READ_ONLY]"

definition SOUND_RULE_WRITE_ROLES :: "user_role list" where
  "SOUND_RULE_WRITE_ROLES = [SUPER_ADMIN, DELIVERY_OPS_MANAGER]"

definition INCIDENT_WRITE_ROLES :: "user_role list" where
  "INCIDENT_WRITE_ROLES = [SUPER_ADMIN, DELIVERY_OPS_MANAGER,
       INFRASTRUCTURE_LEAD, SITE_ENGINEER, SERVICE_DESK_NOC]"

definition INCIDENT_COMMENT_ROLES :: "user_role list" where
  "INCIDENT_COMMENT_ROLES = INCIDENT_WRITE_ROLES @ [CLIENT_MANAGER_VIEWER]"

definition INCIDENT_ATTACHMENT_UPLOAD_ROLES :: "user_role list" where
  "INCIDENT_ATTACHMENT_UPLOAD_ROLES = INCIDENT_WRITE_ROLES @ [CLIENT_MANAGER_VIEWER]"

definition KB_DRAFT_ROLES :: "user_role list" where
  "KB_DRAFT_ROLES = [SUPER_ADMIN, DELIVERY_OPS_MANAGER, INFRASTRUCTURE_LEAD, SITE_ENGINEER, SERVICE_DESK_NOC]"

definition KB_APPROVE_ROLES :: "user_role list" where
  "KB_APPROVE_ROLES = [SUPER_ADMIN, DELIVERY_OPS_MANAGER, INFRASTRUCTURE_LEAD]"

definition HEALTH_INGEST_ROLES :: "user_role list" where
  "HEALTH_INGEST_ROLES = [SUPER_ADMIN, SERVICE_DESK_NOC, SITE_ENGINEER, INFRASTRUCTURE_LEAD]"

definition PROBLEM_WRITE_ROLES :: "user_role list" where
  "PROBLEM_WRITE_ROLES = [SUPER_ADMIN, DELIVERY_OPS_MANAGER, INFRASTRUCTURE_LEAD]"

definition RISK_WRITE_ROLES :: "user_role list" where
  "RISK_WRITE_ROLES = [SUPER_ADMIN, DELIVERY_OPS_MANAGER, INFRASTRUCTURE_LEAD]"

definition ROUTING_POLICY_WRITE_ROLES :: "user_role list" where
  "ROUTING_POLICY_WRITE_ROLES = [SUPER_ADMIN, INFRASTRUCTURE_LEAD, DELIVERY_OPS_MANAGER]"

definition ROUTING_POLICY_READ_ROLES :: "user_role list" where
  "ROUTING_POLICY_READ_ROLES = [SUPER_ADMIN, SERVICE_DESK_NOC,
       SITE_ENGINEER, INFRASTRUCTURE_LEAD, VENDOR_COORDINATOR, DELIVERY_OPS_MANAGER,
       AUDITOR_READ_ONLY]"

definition OFFER_RESPONDER_ROLES :: "user_role list" where
  "OFFER_RESPONDER_ROLES = [SUPER_ADMIN, SERVICE_DESK_NOC, SITE_ENGINEER,
       INFRASTRUCTURE_LEAD, VENDOR_COORDINATOR, DELIVERY_OPS_MANAGER]"

definition SHIFT_WRITE_ROLES :: "user_role list" where
  "SHIFT_WRITE_ROLES = [SUPER_ADMIN, INFRASTRUCTURE_LEAD, DELIVERY_OPS_MANAGER]"

definition SHIFT_READ_ROLES :: "user_role list" where
  "SHIFT_READ_ROLES = [SUPER_ADMIN, SERVICE_DESK_NOC, SITE_ENGINEER,
       INFRASTRUCTURE_LEAD, VENDOR_COORDINATOR, DELIVERY_OPS_MANAGER,
       AUDITOR_READ_ONLY]"

definition SITE_MASTER_WRITE_ROLES :: "user_role list" where
  "SITE_MASTER_WRITE_ROLES = [SUPER_ADMIN, DELIVERY_OPS_MANAGER, INFRASTRUCTURE_LEAD]"

definition SUPPORT_GROUP_WRITE_ROLES :: "user_role list" where
  "SUPPORT_GROUP_WRITE_ROLES = [SUPER_ADMIN, DELIVERY_OPS_MANAGER]"

definition SKILL_WRITE_ROLES :: "user_role list" where
  "SKILL_WRITE_ROLES = [SUPER_ADMIN, INFRASTRUCTURE_LEAD, DELIVERY_OPS_MANAGER]"

definition SLA_POLICY_WRITE_ROLES :: "user_role list" where
  "SLA_POLICY_WRITE_ROLES = [SUPER_ADMIN, DELIVERY_OPS_MANAGER]"

definition VENDOR_WRITE_ROLES :: "user_role list" where
  "VENDOR_WRITE_ROLES = [SUPER_ADMIN, DELIVERY_OPS_MANAGER, INFRASTRUCTURE_LEAD, VENDOR_COORDINATOR]"

section \<open>The controllers\<close>

definition AlertRulesController :: "route list" where
  "AlertRulesController = controller [Lit ''alert-rules''] True False None
     [on M_GET [] None False ''findAll'',
      on M_GET [Param ''id''] None False ''findOne'',
      on M_POST [] (Some ALERT_RULE_WRITE_ROLES) True ''create'',
      on M_PATCH [Param ''id''] (Some ALERT_RULE_WRITE_ROLES) True ''update'']"

definition AlertsController :: "route list" where
  "AlertsController = controller [Lit ''alerts''] True False None
     [on M_POST [Lit ''ingest''] (Some ALERT_INGEST_ROLES) True ''ingest'',
      on M_POST [Lit ''sources'', Lit ''zabbix''] (Some ALERT_INGEST_ROLES) True ''ingestZabbix'',
      on M_POST [Lit ''sources'', Lit ''alertmanager''] (Some ALERT_INGEST_ROLES) True ''ingestAlertmanager'',
      on M_POST [Lit ''sources'', Lit ''snmp''] (Some ALERT_INGEST_ROLES) True ''ingestSnmp'',
      on M_GET [] None False ''findAll'',
      on M_GET [Param ''id''] None False ''findOne'']"

definition AuditController :: "route list" where
  "AuditController = controller [Lit ''audit''] True False None
     [on M_GET [] (Some AUDIT_READ_ROLES) False ''findAll'']"

definition AuthController :: "route list" where
  "AuthController = controller [Lit ''auth''] False False None
     [on M_GET [Lit ''providers''] None False ''providers'']"

definition PasswordAuthController :: "route list" where
  "PasswordAuthController = controller [Lit ''auth''] False False None
     [on M_POST [Lit ''login''] None False ''login'',
      on M_POST [Lit ''password'', Lit ''forgot''] None False ''forgot'',
      on M_POST [Lit ''password'', Lit ''inspect''] None False ''inspect'',
      on M_POST [Lit ''password'', Lit ''set''] None False ''set'']"

definition SocialAuthController :: "route list" where
  "SocialAuthController = controller [Lit ''auth'', Lit ''social''] False False None
     [on M_POST [Lit ''exchange''] None False ''exchange'',
      on M_GET [Param ''provider'', Lit ''login''] None False ''login'',
      on M_GET [Param ''provider'', Lit ''callback''] None False ''callback'']"

definition UserAdminController :: "route list" where
  "UserAdminController = controller [Lit ''admin'', Lit ''users''] True False (Some [SUPER_ADMIN])
     [on M_GET [] None False ''list'',
      on M_GET [Param ''id''] None False ''findOne'',
      on M_POST [] None True ''create'',
      on M_PATCH [Param ''id''] None True ''update'',
      on M_PUT [Param ''id'', Lit ''sites''] None True ''setSites'',
      on M_POST [Param ''id'', Lit ''deactivate''] None True ''deactivate'',
      on M_POST [Param ''id'', Lit ''reactivate''] None True ''reactivate'',
      on M_POST [Param ''id'', Lit ''sign-in-link''] None True ''sendSignInLink'',
      on M_GET [Param ''id'', Lit ''api-tokens''] None False ''listApiTokens'',
      on M_POST [Param ''id'', Lit ''api-tokens''] None True ''createApiToken'',
      on M_POST [Param ''id'', Lit ''api-tokens'', Param ''tokenId'', Lit ''revoke''] None True ''revokeApiToken'']"

definition UsersController :: "route list" where
  "UsersController = controller [Lit ''users''] True False None
     [on M_GET [] (Some STAFF_ROLES) True ''findAll'',
      on M_GET [Param ''id''] (Some STAFF_ROLES) False ''findOne'']"

definition ChangesController :: "route list" where
  "ChangesController = controller [Lit ''changes''] True False None
     [on M_POST [] (Some CHANGE_RAISE_ROLES) True ''create'',
      on M_GET [] None False ''findAll'',
      on M_GET [Lit ''maintenance'', Lit ''active''] None False ''activeMaintenance'',
      on M_GET [Param ''id''] None False ''findOne'',
      on M_POST [Param ''id'', Lit ''approve''] (Some CHANGE_APPROVE_ROLES) True ''approve'',
      on M_PATCH [Param ''id''] (Some CHANGE_RAISE_ROLES) True ''update'']"

definition CisController :: "route list" where
  "CisController = controller [Lit ''cis''] True False None
     [on M_GET [] None True ''findAll'',
      on M_GET [Param ''id''] None True ''findOne'',
      on M_POST [] (Some CMDB_WRITE_ROLES) True ''create'',
      on M_POST [Lit ''bulk''] (Some CMDB_WRITE_ROLES) True ''bulkCreate'',
      on M_PATCH [Param ''id''] (Some CMDB_WRITE_ROLES) True ''update'',
      on M_GET [Param ''id'', Lit ''relations''] None True ''listRelations'',
      on M_POST [Param ''id'', Lit ''relations''] (Some CMDB_WRITE_ROLES) True ''createRelation'']"

definition RacksController :: "route list" where
  "RacksController = controller [Lit ''racks''] True False None
     [on M_GET [] None True ''findAll'',
      on M_GET [Param ''id''] None True ''findOne'',
      on M_POST [] (Some CMDB_WRITE_ROLES) True ''create'']"

definition HealthController :: "route list" where
  "HealthController = controller [Lit ''health''] False False None
     [on M_GET [] None False ''check'']"

definition InboxController :: "route list" where
  "InboxController = controller [Lit ''notifications''] True False None
     [on M_GET [] None True ''list'',
      on M_POST [Lit ''read-all''] (Some ALL_ROLES) True ''markAllRead'',
      on M_POST [Param ''id'', Lit ''read''] (Some ALL_ROLES) True ''markRead'']"

definition NotificationSoundRulesController :: "route list" where
  "NotificationSoundRulesController = controller [Lit ''notification-sound-rules''] True False None
     [on M_GET [] None False ''list'',
      on M_PUT [Param ''kind'', Param ''level''] (Some SOUND_RULE_WRITE_ROLES) True ''set'']"

definition IncidentsController :: "route list" where
  "IncidentsController = controller [Lit ''incidents''] True False None
     [on M_GET [] None True ''findAll'',
      on M_GET [Param ''id''] None True ''findOne'',
      on M_POST [] (Some INCIDENT_WRITE_ROLES) True ''create'',
      on M_POST [Lit ''customer-report''] (Some [CLIENT_MANAGER_VIEWER]) True ''createAsCustomer'',
      on M_PATCH [Param ''id''] (Some INCIDENT_WRITE_ROLES) True ''update'',
      on M_GET [Param ''id'', Lit ''transitions''] None True ''listAvailableTransitions'',
      on M_POST [Param ''id'', Lit ''transition''] (Some INCIDENT_WRITE_ROLES) True ''transition'',
      on M_GET [Param ''id'', Lit ''comments''] None True ''listComments'',
      on M_POST [Param ''id'', Lit ''comments''] (Some INCIDENT_COMMENT_ROLES) True ''createComment'',
      on M_GET [Param ''id'', Lit ''events''] None True ''listEvents'',
      on M_GET [Param ''id'', Lit ''sla''] None True ''findSlaState'',
      on M_POST [Param ''id'', Lit ''attachments''] (Some INCIDENT_ATTACHMENT_UPLOAD_ROLES) True ''uploadAttachment'',
      on M_GET [Param ''id'', Lit ''attachments''] None True ''listAttachments'',
      on M_GET [Param ''id'', Lit ''attachments'', Param ''attachmentId'', Lit ''download''] None True ''getAttachmentDownloadUrl'',
      on M_DELETE [Param ''id'', Lit ''attachments'', Param ''attachmentId''] (Some INCIDENT_WRITE_ROLES) True ''deleteAttachment'']"

definition KnowledgeController :: "route list" where
  "KnowledgeController = controller [Lit ''knowledge''] True False None
     [on M_POST [] (Some KB_DRAFT_ROLES) True ''create'',
      on M_GET [] None False ''findAll'',
      on M_GET [Param ''id''] None False ''findOne'',
      on M_PATCH [Param ''id''] (Some KB_DRAFT_ROLES) True ''update'',
      on M_POST [Param ''id'', Lit ''approve''] (Some KB_APPROVE_ROLES) True ''approve'',
      on M_POST [Param ''id'', Lit ''unpublish''] (Some KB_APPROVE_ROLES) True ''unpublish'']"

definition MonitoringController :: "route list" where
  "MonitoringController = controller [Lit ''monitoring''] True False None
     [on M_POST [Lit ''health-snapshots''] (Some HEALTH_INGEST_ROLES) True ''record'',
      on M_GET [Lit ''health-snapshots'', Param ''ciCode''] None False ''getForCi'',
      on M_POST [Lit ''collector-heartbeat''] (Some HEALTH_INGEST_ROLES) True ''heartbeat'']"

definition ProblemsController :: "route list" where
  "ProblemsController = controller [Lit ''problems''] True False None
     [on M_POST [] (Some PROBLEM_WRITE_ROLES) True ''create'',
      on M_GET [] None False ''findAll'',
      on M_GET [Param ''id''] None False ''findOne'',
      on M_PATCH [Param ''id''] (Some PROBLEM_WRITE_ROLES) True ''update'',
      on M_POST [Param ''id'', Lit ''transition''] (Some PROBLEM_WRITE_ROLES) True ''transition'',
      on M_POST [Param ''id'', Lit ''action-items''] (Some PROBLEM_WRITE_ROLES) True ''addActionItem'',
      on M_PATCH [Param ''id'', Lit ''action-items'', Param ''itemId''] (Some PROBLEM_WRITE_ROLES) True ''completeActionItem'',
      on M_POST [Param ''id'', Lit ''links''] (Some PROBLEM_WRITE_ROLES) True ''link'',
      on M_DELETE [Param ''id'', Lit ''links'', Param ''linkId''] (Some PROBLEM_WRITE_ROLES) True ''unlink'']"

definition ReportsController :: "route list" where
  "ReportsController = controller [Lit ''reports''] True False None
     [on M_GET [Lit ''command-center''] None True ''getCommandCenter'',
      on M_GET [Lit ''operational-health.csv''] None True ''downloadOperationalHealthCsv'',
      on M_GET [Lit ''response-trend''] None True ''getResponseTrend'',
      on M_GET [Lit ''alert-insights''] None True ''getAlertInsights'']"

definition BcpController :: "route list" where
  "BcpController = controller [Lit ''bcp-plans''] True False None
     [on M_POST [] (Some RISK_WRITE_ROLES) True ''create'',
      on M_GET [] None False ''findAll'',
      on M_GET [Param ''id''] None False ''findOne'',
      on M_PATCH [Param ''id''] (Some RISK_WRITE_ROLES) True ''update'',
      on M_POST [Param ''id'', Lit ''tests''] (Some RISK_WRITE_ROLES) True ''recordTest'']"

definition RisksController :: "route list" where
  "RisksController = controller [Lit ''risks''] True False None
     [on M_POST [] (Some RISK_WRITE_ROLES) True ''create'',
      on M_GET [] None False ''findAll'',
      on M_GET [Param ''id''] None False ''findOne'',
      on M_PATCH [Param ''id''] (Some RISK_WRITE_ROLES) True ''update'',
      on M_POST [Param ''id'', Lit ''status''] (Some RISK_WRITE_ROLES) True ''changeStatus'']"

definition RoutingController :: "route list" where
  "RoutingController = controller [Lit ''incidents''] True False None
     [on M_GET [Param ''id'', Lit ''routing-suggestions''] (Some INCIDENT_ROUTING_ROLES) True ''suggest'',
      on M_GET [Param ''id'', Lit ''routing-offers''] (Some ROUTING_POLICY_READ_ROLES) True ''listOffers'',
      on M_POST [Param ''id'', Lit ''routing-offers'', Lit ''accept''] (Some OFFER_RESPONDER_ROLES) True ''acceptOffer'',
      on M_POST [Param ''id'', Lit ''routing-offers'', Lit ''decline''] (Some OFFER_RESPONDER_ROLES) True ''declineOffer'']"

definition RoutingPoliciesController :: "route list" where
  "RoutingPoliciesController = controller [Lit ''routing'', Lit ''policies''] True False None
     [on M_GET [Param ''siteId''] (Some ROUTING_POLICY_READ_ROLES) True ''get'',
      on M_PATCH [Param ''siteId''] (Some ROUTING_POLICY_WRITE_ROLES) True ''set'']"

definition CategoryTeamsController :: "route list" where
  "CategoryTeamsController = controller [Lit ''routing'', Lit ''category-teams''] True False None
     [on M_GET [] (Some ROUTING_POLICY_READ_ROLES) False ''list'',
      on M_POST [] (Some ROUTING_POLICY_WRITE_ROLES) True ''create'',
      on M_DELETE [Param ''id''] (Some ROUTING_POLICY_WRITE_ROLES) True ''remove'']"

definition ShiftsController :: "route list" where
  "ShiftsController = controller [Lit ''shifts''] True False None
     [on M_GET [] (Some SHIFT_READ_ROLES) True ''findAll'',
      on M_GET [Lit ''live''] (Some SHIFT_READ_ROLES) True ''live'',
      on M_POST [] (Some SHIFT_WRITE_ROLES) True ''create'',
      on M_PATCH [Param ''id''] (Some SHIFT_WRITE_ROLES) True ''update'']"

definition SitesController :: "route list" where
  "SitesController = controller [Lit ''sites''] True True None
     [on M_GET [] None True ''findAll'',
      on M_GET [Param ''id''] None False ''findOne'',
      on M_POST [] (Some [SUPER_ADMIN]) True ''create'',
      on M_GET [Param ''siteId'', Lit ''contacts''] None False ''listContacts'',
      on M_POST [Param ''siteId'', Lit ''contacts''] (Some SITE_MASTER_WRITE_ROLES) True ''createContact'',
      on M_GET [Param ''siteId'', Lit ''support-calendars''] None False ''listSupportCalendars'',
      on M_POST [Param ''siteId'', Lit ''support-calendars''] (Some SITE_MASTER_WRITE_ROLES) True ''createSupportCalendar'']"

definition SupportGroupsController :: "route list" where
  "SupportGroupsController = controller [Lit ''support-groups''] True False None
     [on M_GET [] None False ''findAll'',
      on M_POST [] (Some SUPPORT_GROUP_WRITE_ROLES) True ''create'',
      on M_DELETE [Param ''id''] (Some SUPPORT_GROUP_WRITE_ROLES) True ''remove'',
      on M_GET [Param ''id'', Lit ''members''] None False ''listMembers'',
      on M_POST [Param ''id'', Lit ''members''] (Some SUPPORT_GROUP_WRITE_ROLES) True ''addMember'',
      on M_DELETE [Param ''id'', Lit ''members'', Param ''userId''] (Some SUPPORT_GROUP_WRITE_ROLES) True ''removeMember'']"

definition SkillsController :: "route list" where
  "SkillsController = controller [Lit ''skills''] True False None
     [on M_GET [] None False ''findAll'',
      on M_POST [] (Some SKILL_WRITE_ROLES) True ''create'',
      on M_PATCH [Param ''id''] (Some SKILL_WRITE_ROLES) True ''update'',
      on M_GET [Lit ''assignments''] None False ''findAllAssignments'',
      on M_POST [Param ''id'', Lit ''engineers''] (Some SKILL_WRITE_ROLES) True ''assign'',
      on M_DELETE [Param ''id'', Lit ''engineers'', Param ''userId''] (Some SKILL_WRITE_ROLES) True ''unassign'',
      on M_GET [Lit ''category-requirements''] None False ''findAllCategoryRequirements'',
      on M_POST [Lit ''category-requirements''] (Some SKILL_WRITE_ROLES) True ''createCategoryRequirement'',
      on M_DELETE [Lit ''category-requirements'', Param ''id''] (Some SKILL_WRITE_ROLES) True ''deleteCategoryRequirement'']"

definition SlaController :: "route list" where
  "SlaController = controller [Lit ''sla'', Lit ''policies''] True False None
     [on M_GET [] None False ''findAll'',
      on M_GET [Param ''id''] None False ''findOne'',
      on M_POST [] (Some SLA_POLICY_WRITE_ROLES) True ''create'',
      on M_PATCH [Param ''id''] (Some SLA_POLICY_WRITE_ROLES) True ''update'']"

definition VendorCasesController :: "route list" where
  "VendorCasesController = controller [Lit ''vendor-cases''] True False None
     [on M_POST [] (Some VENDOR_WRITE_ROLES) True ''open'',
      on M_GET [] None False ''findAll'',
      on M_GET [Param ''id''] None False ''findOne'',
      on M_PATCH [Param ''id''] (Some VENDOR_WRITE_ROLES) True ''update'',
      on M_POST [Param ''id'', Lit ''updates''] (Some VENDOR_WRITE_ROLES) True ''addUpdate'']"

definition VendorsController :: "route list" where
  "VendorsController = controller [Lit ''vendors''] True False None
     [on M_POST [] (Some VENDOR_WRITE_ROLES) True ''create'',
      on M_GET [] None False ''findAll'',
      on M_GET [Param ''id''] None False ''findOne'']"

definition WarrantyController :: "route list" where
  "WarrantyController = controller [Lit ''vendors'', Lit ''warranty-sync''] True False None
     [on M_POST [] (Some VENDOR_WRITE_ROLES) True ''resync'']"

definition IncidentWorklogsController :: "route list" where
  "IncidentWorklogsController = controller [Lit ''incidents'', Param ''incidentId'', Lit ''worklogs''] True False None
     [on M_GET [] None True ''listByIncident'',
      on M_POST [] (Some INCIDENT_WRITE_ROLES) True ''create'']"

definition WorklogsController :: "route list" where
  "WorklogsController = controller [Lit ''worklogs''] True False None
     [on M_PATCH [Param ''id''] (Some INCIDENT_WRITE_ROLES) True ''correct'']"

text \<open>In the order the modules register them.\<close>

definition routes :: "route list" where
  "routes =
     HealthController @ AuthController @ PasswordAuthController @ SocialAuthController @
     UsersController @ UserAdminController @ SitesController @ SupportGroupsController @
     CisController @ RacksController @ IncidentsController @ IncidentWorklogsController @
     WorklogsController @ ShiftsController @ SkillsController @ RoutingController @
     RoutingPoliciesController @ CategoryTeamsController @ InboxController @
     NotificationSoundRulesController @ SlaController @ AuditController @ ReportsController @
     AlertsController @ AlertRulesController @ VendorsController @ VendorCasesController @
     WarrantyController @ ChangesController @ ProblemsController @ KnowledgeController @
     RisksController @ BcpController @ MonitoringController"

section \<open>Dispatch and admission\<close>

text \<open>
  How a literal segment is compared with the request is the router's affair (\<open>lit\<close>, by default
  without regard to case); a parameter takes any segment that is not empty.
\<close>

fun bindPath :: "(string \<Rightarrow> string \<Rightarrow> bool) \<Rightarrow> seg list \<Rightarrow> string list \<Rightarrow> (string \<times> string) list option" where
  "bindPath lit [] [] = Some []"
| "bindPath lit (Lit a # ps) (x # xs) = (if lit a x then bindPath lit ps xs else None)"
| "bindPath lit (Param n # ps) (x # xs) =
     (if x = [] then None else map_option (Cons (n, x)) (bindPath lit ps xs))"
| "bindPath lit _ _ = None"

definition takesRequest :: "(string \<Rightarrow> string \<Rightarrow> bool) \<Rightarrow> http_method \<Rightarrow> string list \<Rightarrow> route \<Rightarrow> bool" where
  "takesRequest lit m xs r \<longleftrightarrow> rt_method r = m \<and> bindPath lit (rt_path r) xs \<noteq> None"

definition guards :: "world \<Rightarrow> route \<Rightarrow> (string \<times> string) list \<Rightarrow> auth_user \<Rightarrow> http_error + bool" where
  "guards w r params u =
     (case rolesGuard (rt_roles r) (Some u) of
        Inl e \<Rightarrow> Inl e
      | Inr _ \<Rightarrow> (if rt_siteScope r then siteScopeGuard w (map_of params ''siteId'') (map_of params ''id'') (Some u)
                 else Inr True))"

definition admit :: "instant \<Rightarrow> (string \<Rightarrow> jwt_payload option) \<Rightarrow> string \<Rightarrow> route \<Rightarrow>
    (string \<times> string) list \<Rightarrow> auth_user option op" where
  "admit now jwt header r params =
     (if rt_guarded r
      then bindM (jwtAuthGuard now jwt header) (\<lambda>u.
             bindM (readM (\<lambda>w. guards w r params u)) (\<lambda>_. ret (Some u)))
      else ret None)"

definition letsIn :: "auth_user option op \<Rightarrow> world \<Rightarrow> bool" where
  "letsIn m w \<longleftrightarrow> \<not> isl (fst (m w))"

section \<open>The matrix\<close>

definition writes :: "route \<Rightarrow> bool" where
  "writes r \<longleftrightarrow> rt_method r \<noteq> M_GET"

definition roleOk :: "user_role \<Rightarrow> route \<Rightarrow> bool" where
  "roleOk role r = (case rt_roles r of None \<Rightarrow> True | Some rs \<Rightarrow> rs = [] \<or> role \<in> set rs)"

definition endpoint :: "route \<Rightarrow> http_method \<times> seg list" where
  "endpoint r = (rt_method r, rt_path r)"

text \<open>The endpoints of the guarded, writing routes a role gets through to.\<close>

definition customerWrites :: "(http_method \<times> seg list) list" where
  "customerWrites =
     [(M_POST, [Lit ''incidents'', Lit ''customer-report'']),
      (M_POST, [Lit ''incidents'', Param ''id'', Lit ''comments'']),
      (M_POST, [Lit ''incidents'', Param ''id'', Lit ''attachments'']),
      (M_POST, [Lit ''notifications'', Lit ''read-all'']),
      (M_POST, [Lit ''notifications'', Param ''id'', Lit ''read''])]"

definition auditorWrites :: "(http_method \<times> seg list) list" where
  "auditorWrites =
     [(M_POST, [Lit ''notifications'', Lit ''read-all'']),
      (M_POST, [Lit ''notifications'', Param ''id'', Lit ''read''])]"

definition publicEndpoints :: "(http_method \<times> seg list) list" where
  "publicEndpoints =
     [(M_GET, [Lit ''health'']),
      (M_GET, [Lit ''auth'', Lit ''providers'']),
      (M_POST, [Lit ''auth'', Lit ''login'']),
      (M_POST, [Lit ''auth'', Lit ''password'', Lit ''forgot'']),
      (M_POST, [Lit ''auth'', Lit ''password'', Lit ''inspect'']),
      (M_POST, [Lit ''auth'', Lit ''password'', Lit ''set'']),
      (M_POST, [Lit ''auth'', Lit ''social'', Lit ''exchange'']),
      (M_GET, [Lit ''auth'', Lit ''social'', Param ''provider'', Lit ''login'']),
      (M_GET, [Lit ''auth'', Lit ''social'', Param ''provider'', Lit ''callback''])]"

lemma customer_table:
  "list_all (\<lambda>r. rt_guarded r \<and> writes r \<longrightarrow> roleOk CLIENT_MANAGER_VIEWER r = (endpoint r \<in> set customerWrites)) routes"
  by code_simp

lemma auditor_table:
  "list_all (\<lambda>r. rt_guarded r \<and> writes r \<longrightarrow> roleOk AUDITOR_READ_ONLY r = (endpoint r \<in> set auditorWrites)) routes"
  by code_simp

lemma public_table: "list_all (\<lambda>r. rt_guarded r \<noteq> (endpoint r \<in> set publicEndpoints)) routes"
  by code_simp

lemma scoped_writes_table:
  "list_all (\<lambda>r. rt_siteScope r \<and> writes r \<longrightarrow> \<not> roleOk CLIENT_MANAGER_VIEWER r \<and> \<not> roleOk AUDITOR_READ_ONLY r) routes"
  by code_simp

section \<open>At most one route claims a request\<close>

fun overlaps :: "seg list \<Rightarrow> seg list \<Rightarrow> bool" where
  "overlaps [] [] = True"
| "overlaps (Lit a # p) (Lit b # q) = (if a = b then overlaps p q else False)"
| "overlaps (_ # p) (_ # q) = overlaps p q"
| "overlaps _ _ = False"

primrec apart :: "route list \<Rightarrow> bool" where
  "apart [] = True"
| "apart (r # rs) =
     (list_all (\<lambda>q. if rt_method r = rt_method q
                     then (if length (rt_path r) = length (rt_path q) then \<not> overlaps (rt_path r) (rt_path q) else True)
                     else True) rs \<and> apart rs)"

text \<open>The routes by their first segment; a letter is upper case only if bit five of its code is clear.\<close>

definition headed :: "string \<Rightarrow> route list \<Rightarrow> bool" where
  "headed h rs = list_all (\<lambda>r. case rt_path r of Lit a # _ \<Rightarrow> a = h | _ \<Rightarrow> False) rs"

definition routeGroups :: "(string \<times> route list) list" where
  "routeGroups =
     [(''health'', HealthController), (''auth'', AuthController @ PasswordAuthController @ SocialAuthController),
      (''users'', UsersController), (''admin'', UserAdminController), (''sites'', SitesController),
      (''support-groups'', SupportGroupsController), (''cis'', CisController), (''racks'', RacksController),
      (''incidents'', IncidentsController @ IncidentWorklogsController @ RoutingController),
      (''worklogs'', WorklogsController), (''shifts'', ShiftsController), (''skills'', SkillsController),
      (''routing'', RoutingPoliciesController @ CategoryTeamsController), (''notifications'', InboxController),
      (''notification-sound-rules'', NotificationSoundRulesController), (''sla'', SlaController),
      (''audit'', AuditController), (''reports'', ReportsController), (''alerts'', AlertsController),
      (''alert-rules'', AlertRulesController), (''vendors'', VendorsController @ WarrantyController),
      (''vendor-cases'', VendorCasesController), (''changes'', ChangesController),
      (''problems'', ProblemsController), (''knowledge'', KnowledgeController), (''risks'', RisksController),
      (''bcp-plans'', BcpController), (''monitoring'', MonitoringController)]"

fun notUpper :: "seg \<Rightarrow> bool" where
  "notUpper (Lit a) = list_all digit5 a"
| "notUpper (Param _) = True"

lemma groups_distinct: "distinct (map fst routeGroups)"
  by code_simp

lemma groups_headed: "list_all (\<lambda>(h, rs). headed h rs) routeGroups"
  by code_simp

lemma groups_apart: "list_all (\<lambda>(h, rs). apart rs) routeGroups"
  by code_simp

lemma routes_notUpper: "list_all (\<lambda>r. list_all notUpper (rt_path r)) routes"
  by code_simp

lemma routes_grouped: "set routes = (\<Union>g\<in>set routeGroups. set (snd g))"
  unfolding routes_def routeGroups_def by (simp add: Un_ac)

lemma lower_char_digit5: "digit5 c \<Longrightarrow> lower_char c = c"
proof -
  assume d: "digit5 c"
  have "bit (of_char c :: nat) 5 = digit5 c"
    using arg_cong [where f = digit5, OF char_of_char [of c]] by (simp add: char_of_def)
  then have "odd ((of_char c :: nat) div 32)" using d by (simp add: bit_iff_odd)
  moreover have "even (n div 32)" if "65 \<le> n" "n \<le> 90" for n :: nat
  proof -
    have "n div 32 = 2" by (rule div_nat_eqI) (use that in simp_all)
    then show ?thesis by simp
  qed
  ultimately have "\<not> (65 \<le> (of_char c :: nat) \<and> (of_char c :: nat) \<le> 90)" by blast
  then show ?thesis unfolding lower_char_def Let_def by (rule if_not_P)
qed

lemma notUpper_lower: "notUpper (Lit a) \<Longrightarrow> toLowerCase a = a"
  by (auto simp: toLowerCase_def list_all_iff lower_char_digit5 intro: map_idI)

lemma overlap_length: "overlaps p q \<Longrightarrow> length p = length q"
  by (induction p q rule: overlaps.induct) (auto split: if_splits)

lemma overlap_head: "overlaps (Lit a # p) (Lit b # q) \<Longrightarrow> a = b"
  by (simp split: if_splits)

lemma overlap_sym: "overlaps p q = overlaps q p"
  by (induction p q rule: overlaps.induct) auto

lemma bindPath_nil [simp]: "bindPath lit [] xs = Some z \<longleftrightarrow> xs = [] \<and> z = []"
  by (cases xs) auto

text \<open>Two patterns that take the same request have the same shape.\<close>

lemma bindPath_overlap:
  assumes "\<forall>a b x. lit a x \<and> lit b x \<longrightarrow> toLowerCase a = toLowerCase b"
    and "list_all notUpper p" "list_all notUpper q" "bindPath lit p xs \<noteq> None" "bindPath lit q xs \<noteq> None"
  shows "overlaps p q"
  using assms(2-5)
proof (induction p arbitrary: q xs)
  case Nil
  then show ?case by (cases q; cases xs) (auto split: seg.splits)
next
  case (Cons s p)
  obtain x ys where xs: "xs = x # ys" using Cons.prems(3) by (cases xs; cases s) auto
  obtain t q' where q: "q = t # q'" using Cons.prems(4) xs by (cases q) auto
  have rest: "bindPath lit p ys \<noteq> None" "bindPath lit q' ys \<noteq> None"
    using Cons.prems(3,4) xs q by (cases s; cases t; auto split: if_splits)+
  have tail: "overlaps p q'" using Cons.IH [OF _ _ rest] Cons.prems(1,2) q by simp
  have same: "a = b" if "s = Lit a" "t = Lit b" for a b
  proof -
    have "lit a x" "lit b x" using Cons.prems(3,4) xs q that by (auto split: if_splits)
    then have "toLowerCase a = toLowerCase b" using assms(1) by blast
    moreover have "toLowerCase a = a" "toLowerCase b = b" using Cons.prems(1,2) q that by (auto intro!: notUpper_lower)
    ultimately show ?thesis by argo
  qed
  show ?case
  proof (cases "\<exists>a b. s = Lit a \<and> t = Lit b")
    case True
    then obtain a where "s = Lit a" "t = Lit a" using same by blast
    then show ?thesis using tail q by simp
  next
    case False
    then show ?thesis using tail q by (cases s; cases t) simp_all
  qed
qed

lemma apart_unique:
  assumes "apart rs" "r \<in> set rs" "q \<in> set rs" "rt_method r = rt_method q" "overlaps (rt_path r) (rt_path q)"
  shows "r = q"
  using assms(1-3)
proof (induction rs)
  case (Cons z rs)
  have "\<not> overlaps (rt_path z) (rt_path y)" if "y \<in> set rs" "rt_method z = rt_method y" for y
    using Cons.prems(1) that overlap_length [of "rt_path z" "rt_path y"] by (auto simp: list_all_iff split: if_splits)
  then show ?case using Cons assms(4,5) overlap_sym [of "rt_path r" "rt_path q"] by auto
qed simp

lemma headed_head: "headed h rs \<Longrightarrow> r \<in> set rs \<Longrightarrow> \<exists>p. rt_path r = Lit h # p"
  by (cases "rt_path r"; cases "hd (rt_path r)") (auto simp: headed_def list_all_iff)

lemma routes_unique:
  assumes "r \<in> set routes" "q \<in> set routes" "rt_method r = rt_method q" "overlaps (rt_path r) (rt_path q)"
  shows "r = q"
proof -
  obtain g k where g: "g \<in> set routeGroups" "r \<in> set (snd g)" and k: "k \<in> set routeGroups" "q \<in> set (snd k)"
    using assms(1,2) routes_grouped by auto
  have hd: "headed (fst x) (snd x)" "apart (snd x)" if "x \<in> set routeGroups" for x
    using groups_headed groups_apart that unfolding list_all_iff by (cases x; fastforce)+
  obtain p' q' where "rt_path r = Lit (fst g) # p'" "rt_path q = Lit (fst k) # q'"
    using headed_head [OF hd(1) [OF g(1)] g(2)] headed_head [OF hd(1) [OF k(1)] k(2)] by blast
  then have "overlaps (Lit (fst g) # p') (Lit (fst k) # q')" using assms(4) by presburger
  then have "fst g = fst k" by (rule overlap_head)
  then have "g = k" using conjunct2 [OF groups_distinct [unfolded distinct_map]] g(1) k(1) by (elim inj_onD)
  then have "q \<in> set (snd g)" using k(2) by blast
  then show ?thesis by (rule apart_unique [OF hd(2) [OF g(1)] g(2) _ assms(3,4)])
qed

section \<open>What the guards let through\<close>

lemma guards_unscoped: "\<not> rt_siteScope r \<Longrightarrow> isl (guards w r params u) \<longleftrightarrow> \<not> roleOk (au_role u) r"
  by (auto simp: guards_def rolesGuard_def roleOk_def split: option.splits)

lemma guards_role: "\<not> isl (guards w r params u) \<Longrightarrow> roleOk (au_role u) r"
  by (auto simp: guards_def rolesGuard_def roleOk_def split: option.splits if_splits)

lemma letsIn_guarded:
  assumes "jwtAuthGuard now jwt header w = (Inr u, w0)" "rt_guarded r"
  shows "letsIn (admit now jwt header r params) w \<longleftrightarrow> \<not> isl (guards w0 r params u)"
  using assms by (auto simp: letsIn_def admit_def bindM_def readM_def ret_def split: sum.splits)

lemma letsIn_stranger:
  assumes "jwtAuthGuard now jwt header w = (Inl e, w0)"
  shows "letsIn (admit now jwt header r params) w \<longleftrightarrow> \<not> rt_guarded r"
  using assms by (auto simp: letsIn_def admit_def bindM_def ret_def)

text \<open>For a role that no scoped writing route is open to, admission to a writing route is the role check.\<close>

lemma letsIn_role:
  assumes g: "jwtAuthGuard now jwt header w = (Inr u, w0)" "rt_guarded r"
    and "rt_siteScope r \<longrightarrow> \<not> roleOk (au_role u) r"
  shows "letsIn (admit now jwt header r params) w \<longleftrightarrow> roleOk (au_role u) r"
  using letsIn_guarded [OF g] guards_unscoped guards_role assms(3) by blast

lemma writes_of_role:
  assumes "jwtAuthGuard now jwt header w = (Inr u, w0)" "r \<in> set routes" "rt_guarded r" "writes r"
    and "list_all (\<lambda>r. rt_guarded r \<and> writes r \<longrightarrow> roleOk (au_role u) r = (endpoint r \<in> set W)) routes"
    and "au_role u \<in> {CLIENT_MANAGER_VIEWER, AUDITOR_READ_ONLY}"
  shows "letsIn (admit now jwt header r params) w \<longleftrightarrow> endpoint r \<in> set W"
proof -
  have "rt_siteScope r \<longrightarrow> \<not> roleOk (au_role u) r"
    using scoped_writes_table assms(2,4,6) by (auto simp: list_all_iff)
  then have "letsIn (admit now jwt header r params) w \<longleftrightarrow> roleOk (au_role u) r"
    using letsIn_role assms(1,3) by blast
  then show ?thesis using assms(2-5) by (auto simp: list_all_iff)
qed

section \<open>The authorization matrix\<close>

text \<open>A signed-in customer gets through to a writing route exactly when it is one of five: reporting
  a fault, commenting, attaching a file, and the two marks of the own inbox.\<close>

theorem customer_writes_exact:
  assumes "jwtAuthGuard now jwt header w = (Inr u, w0)" "au_role u = CLIENT_MANAGER_VIEWER"
    and "r \<in> set routes" "rt_guarded r" "writes r"
  shows "letsIn (admit now jwt header r params) w \<longleftrightarrow> endpoint r \<in> set customerWrites"
  by (rule writes_of_role [OF assms(1,3-5)]) (use customer_table assms(2) in simp_all)

text \<open>An auditor writes nothing but the marks of the own inbox.\<close>

theorem auditor_writes_exact:
  assumes "jwtAuthGuard now jwt header w = (Inr u, w0)" "au_role u = AUDITOR_READ_ONLY"
    and "r \<in> set routes" "rt_guarded r" "writes r"
  shows "letsIn (admit now jwt header r params) w \<longleftrightarrow> endpoint r \<in> set auditorWrites"
  by (rule writes_of_role [OF assms(1,3-5)]) (use auditor_table assms(2) in simp_all)

text \<open>A caller whom authentication rejects reaches the sign-in endpoints and the health check, nothing else.\<close>

theorem public_surface_exact:
  assumes "jwtAuthGuard now jwt header w = (Inl e, w0)" "r \<in> set routes"
  shows "letsIn (admit now jwt header r params) w \<longleftrightarrow> endpoint r \<in> set publicEndpoints"
  using letsIn_stranger [OF assms(1)] public_table assms(2) by (auto simp: list_all_iff)

text \<open>No request is claimed by two routes, so the order in which the modules register them does not matter.\<close>

theorem one_route_per_request:
  assumes "\<And>a b x. lit a x \<Longrightarrow> lit b x \<Longrightarrow> toLowerCase a = toLowerCase b"
    and "r \<in> set routes" "q \<in> set routes" "takesRequest lit m xs r" "takesRequest lit m xs q"
  shows "r = q"
proof -
  have "list_all notUpper (rt_path r)" "list_all notUpper (rt_path q)"
    using routes_notUpper assms(2,3) by (auto simp: list_all_iff)
  then have "overlaps (rt_path r) (rt_path q)"
    using bindPath_overlap [of lit "rt_path r" "rt_path q" xs] assms(1,4,5) unfolding takesRequest_def by blast
  then show ?thesis using routes_unique [OF assms(2,3)] assms(4,5) unfolding takesRequest_def by simp
qed

text \<open>Whoever gets through to a route below \<open>sites/s\<close> may access the site \<open>s\<close>.\<close>

theorem site_requests_scoped:
  assumes "jwtAuthGuard now jwt header w = (Inr u, w0)" "r \<in> set SitesController"
    and "bindPath lit (rt_path r) (x # s # xs) = Some params" "letsIn (admit now jwt header r params) w"
  shows "canAccessSite w0 u s"
proof -
  have r: "rt_guarded r" "rt_siteScope r" using assms(2) by (auto simp: SitesController_def controller_def on_def)
  have p: "option_or (map_of params ''siteId'') (map_of params ''id'') = Some s" "s \<noteq> []"
    using assms(2,3) by (auto simp: SitesController_def controller_def on_def option_or_def split: if_splits option.splits)
  have "\<not> isl (guards w0 r params u)" using letsIn_guarded [OF assms(1) r(1)] assms(4) by simp
  then show ?thesis using r(2) p by (auto simp: guards_def siteScopeGuard_def truthy_def split: sum.splits if_splits)
qed

section \<open>The edge and the rules behind it\<close>

text \<open>Every role a transition rule names gets through to the transition route, every engineer to the answers of an offer.\<close>

lemma transition_roles_admitted:
  "rule \<in> set TRANSITION_RULES \<Longrightarrow> set (tr_allowedRoles rule) \<subseteq> set INCIDENT_WRITE_ROLES"
  by (auto simp: TRANSITION_RULES_def INCIDENT_WRITE_ROLES_def)

lemma engineers_answer_offers: "set ENGINEER_ROLES \<subseteq> set OFFER_RESPONDER_ROLES"
  by (simp add: ENGINEER_ROLES_def OFFER_RESPONDER_ROLES_def)

text \<open>The delivery manager is let through to the transition route and refused by every rule behind it.\<close>

lemma manager_never_transitions:
  "DELIVERY_OPS_MANAGER \<in> set INCIDENT_WRITE_ROLES"
  "rule \<in> set TRANSITION_RULES \<Longrightarrow> DELIVERY_OPS_MANAGER \<notin> set (tr_allowedRoles rule)"
  by (auto simp: TRANSITION_RULES_def INCIDENT_WRITE_ROLES_def)

text \<open>
  The staff list is closed to customers; the rosters of the support groups and of the skills, which
  name the same people, are open to every signed-in caller and look neither at the caller nor at a site.
\<close>

lemma rosters_open_to_customers:
  "list_all (\<lambda>r. \<not> roleOk CLIENT_MANAGER_VIEWER r) UsersController"
  "on M_GET [Param ''id'', Lit ''members''] None False ''listMembers''
     \<lparr>rt_path := [Lit ''support-groups'', Param ''id'', Lit ''members''], rt_guarded := True\<rparr> \<in> set SupportGroupsController"
  "on M_GET [Lit ''assignments''] None False ''findAllAssignments''
     \<lparr>rt_path := [Lit ''skills'', Lit ''assignments''], rt_guarded := True\<rparr> \<in> set SkillsController"
  by code_simp+

section \<open>An example request\<close>

definition portal_user :: user where
  "portal_user = \<lparr>u_id = ''c1'', u_email = ''c@x'', u_displayName = ''Cust'', u_role = CLIENT_MANAGER_VIEWER, u_isActive = True,
     u_passwordHash = None, u_passwordSetAt = None, u_failedLoginCount = 0, u_lockedUntil = None, u_sessionVersion = 1,
     u_createdAt = 0, u_updatedAt = 0\<rparr>"

definition portal_world :: world where
  "portal_world = empty_world\<lparr>users := [portal_user]\<rparr>"

definition portal_session :: "string \<Rightarrow> jwt_payload option" where
  "portal_session header = (if header = ''Bearer jwt'' then Some (issueToken portal_user) else None)"

lemma portal_signed_in: "jwtAuthGuard 5 portal_session ''Bearer jwt'' portal_world = (Inr (auth_user_of portal_user), portal_world)"
proof -
  have "bearer_api_token ''Bearer jwt'' = None" by code_simp
  then show ?thesis
    by (simp add: jwtAuthGuard_def portal_session_def validate_def issueToken_def portal_user_def portal_world_def auth_user_of_def)
qed

theorem customer_writes_exact_witness:
  "letsIn (admit 5 portal_session ''Bearer jwt'' (IncidentsController ! 8) [(''id'', ''t1'')]) portal_world \<and>
   \<not> letsIn (admit 5 portal_session ''Bearer jwt'' (IncidentsController ! 4) [(''id'', ''t1'')]) portal_world"
proof -
  have u: "au_role (auth_user_of portal_user) = CLIENT_MANAGER_VIEWER" by (simp add: auth_user_of_def portal_user_def)
  have "length IncidentsController = 15" "set IncidentsController \<subseteq> set routes" by (code_simp, auto simp: routes_def)
  then have in_routes: "IncidentsController ! n \<in> set routes" if "n < 15" for n
    using that nth_mem [of n IncidentsController] by auto
  have eval: "rt_guarded (IncidentsController ! 8)" "writes (IncidentsController ! 8)" "endpoint (IncidentsController ! 8) \<in> set customerWrites"
      "rt_guarded (IncidentsController ! 4)" "writes (IncidentsController ! 4)" "endpoint (IncidentsController ! 4) \<notin> set customerWrites"
    by code_simp+
  show ?thesis
    using customer_writes_exact [OF portal_signed_in u in_routes, of 8] customer_writes_exact [OF portal_signed_in u in_routes, of 4] eval
    by simp
qed

end
