(* ===== verification/Spec2Isabelle.thy ===== *)
theory Spec2Isabelle
  imports Sla_Scanner Offer_Props Adapters Problems Knowledge Risks Directory_Props Monitoring Warranty Cmdb Worklogs
    Sites Reports Mail Collector Routes
begin

text \<open>
  Verification of the data center OpsDesk API.

  \<^bold>\<open>The program.\<close> OpsDesk (\<^verbatim>\<open>apps/api\<close>, a NestJS service over PostgreSQL) runs the service desk of a group
  of data centers. Monitoring adapters (\<^verbatim>\<open>integrations/\<close>) turn native events into normalized alerts;
  the alert pipeline de-duplicates them, keeps quiet during maintenance windows of approved changes and
  opens or finds the ticket of the device; the ticket (incident) moves along a fixed state machine while
  an SLA clock runs over the business hours of its site; a scan every minute escalates the clocks that
  cross a threshold; routing offers a new ticket to one engineer after the other, by shift, skill, team
  and load; everybody concerned is told through bells and mail; and every write leaves an audit record.
  Hardware adapters poll the management controllers of the servers, and the snapshot of a device opens and
  closes a hardware alert of its own. Around this stand the registers (sites and support groups, devices
  with their racks, relations and warranties, vendors and their cases, work logs, changes, problems,
  runbooks, risks, continuity plans), the accounts (passwords, set-password links, sessions, API tokens,
  social sign-in, user administration), the reports and the mail adapter.

  \<^bold>\<open>The shape of the model.\<close> The database, the audit trail, what was handed to the queues and to the event
  emitter and the caches in memory are one record, \<^typ>\<open>world\<close>. A service method is a function of the
  world that returns or throws and may have written (\<^typ>\<open>'a op\<close>, theory Prelude); \<open>transaction\<close> undoes the writes of
  a method that throws, \<open>swallowM\<close> and \<open>catchM\<close> are the try blocks. Tables are lists of rows in the order of
  creation; \<open>findUnique\<close>, \<open>update\<close> and \<open>updateMany\<close> are \<open>find_by\<close>, \<open>update_by\<close> and \<open>map\<close>. Time is an
  argument, in milliseconds. What the code reads but does not define is the record \<open>env\<close> of the world:
  the uuid and random generators (the first assumed injective), the collation, SHA-256, scrypt, time zones (luxon). A method runs as
  one step of the system; the places where two steps of the code can interleave and the outcome depends
  on it are modelled as separate steps (the check and the write of a status change, closing an offer).
  Dates in request bodies are read at the boundary; \<open>null\<close> in a PATCH field is distinguished from an
  absent one where the column can be null or where the code looks at it, and is refused by the database
  client elsewhere.

  \<^bold>\<open>The theories\<close>, with the sources under \<^verbatim>\<open>apps/api/src/modules\<close> unless said otherwise.

  \<^item> Prelude: actions with their evaluation and frame rules, tables, PATCH fields, JavaScript strings;
    the locales \<open>append_log\<close>, \<open>frame_relation\<close>, \<open>keyed_table\<close>, \<open>invariant_system\<close>.
  \<^item> Schema: \<^verbatim>\<open>prisma/schema.prisma\<close>, the enums and models of the modelled modules and the world.
  \<^item> Access: \<^verbatim>\<open>auth/authz.service.ts\<close>, the role and site guards, \<^verbatim>\<open>audit/audit.service.ts\<close>.
  \<^item> Incident_Rules: \<^verbatim>\<open>incidents/incident-transitions.ts\<close>, the rule table and its checks.
  \<^item> Inbox: \<^verbatim>\<open>inbox/\<close> and the mail queue; the frame every notifier stays in.
  \<^item> Calendar: \<^verbatim>\<open>sla/calendar.util.ts\<close>, business time; the locales \<open>local_zone\<close> and \<open>window_zone\<close> say what
    the walk relies on of a time zone and are interpreted on the zones with a fixed offset.
  \<^item> Sla: \<^verbatim>\<open>sla/sla.service.ts\<close>, policies, deadlines and the hooks of the clock.
  \<^item> Incident_Notices, Incidents: \<^verbatim>\<open>incidents/incidents.service.ts\<close>, the whole service.
  \<^item> Incident_Facts, Incident_Moves, Incident_Props, Ticket_Numbers, Incident_Gaps: its lemmas (evaluation
    and inversion of requests, the service as a transition system) and properties.
  \<^item> Sla_Scanner: \<^verbatim>\<open>sla/sla-escalation.scanner.ts\<close>, the escalation scan.
  \<^item> Shifts, Skills, Routing: \<^verbatim>\<open>shifts/\<close>, \<^verbatim>\<open>skills/\<close>, \<^verbatim>\<open>routing/routing.service.ts\<close>, \<^verbatim>\<open>routing/category-teams.service.ts\<close>.
  \<^item> Offers, Offer_Props: \<^verbatim>\<open>routing/routing-offers.service.ts\<close>, offer and accept.
  \<^item> Registers: the locale \<open>register\<close> for tables that are appended to and edited in place; from what one
    operation does to one row it derives the invariant and the history of a row over any run.
  \<^item> Changes: \<^verbatim>\<open>changes/\<close>. Problems: \<^verbatim>\<open>problems/\<close>. Knowledge: \<^verbatim>\<open>knowledge/\<close>. Risks: \<^verbatim>\<open>risks/\<close>.
  \<^item> Alert_Rules, Alerts, Alert_Props: \<^verbatim>\<open>alerts/\<close>, the policy cache and the ingestion pipeline.
  \<^item> Adapters: \<^verbatim>\<open>integrations/zabbix\<close>, \<^verbatim>\<open>integrations/prometheus\<close>, \<^verbatim>\<open>integrations/snmp\<close> and the source
    webhooks of \<^verbatim>\<open>alerts/alerts.service.ts\<close>.
  \<^item> Health: \<^verbatim>\<open>integrations/redfish\<close>, \<^verbatim>\<open>integrations/hpe-ilo\<close>, \<^verbatim>\<open>integrations/dell-ome\<close>, the hardware adapters.
    Monitoring: \<^verbatim>\<open>monitoring/monitoring.service.ts\<close>, the snapshot of a device and its hardware alert.
  \<^item> Passwords, Sign_In, User_Admin: \<^verbatim>\<open>auth/\<close> (hashing, login with its lockout, links, sessions, API tokens, social
    sign-in) and \<^verbatim>\<open>users/\<close>; Account_Props, Directory_Props: their properties.
  \<^item> Cmdb: \<^verbatim>\<open>cmdb/\<close>. Worklogs: \<^verbatim>\<open>worklogs/\<close>. Vendors: \<^verbatim>\<open>vendors/vendors.service.ts\<close>. Warranty: \<^verbatim>\<open>integrations/warranty\<close>
    and \<^verbatim>\<open>vendors/warranty-resync.service.ts\<close>. Sites: \<^verbatim>\<open>sites/\<close>. Reports: \<^verbatim>\<open>reports/\<close>.
  \<^item> Js_Text, Mail: string functions, and \<^verbatim>\<open>integrations/email\<close>, mails rendered and received.
  \<^item> Delivery, Collector: \<^verbatim>\<open>apps/collector\<close>, the process at a site that polls the management endpoints, receives traps
    and delivers both through a local buffer; the awaits of a flush are steps of their own, and the reading of an endpoint
    keeps a log of the requests that leave the collector.
  \<^item> Routes: the controllers of \<^verbatim>\<open>modules/\<close>, every route with its guards and role list, and the admission of a request.

  \<^bold>\<open>What is shown.\<close>

  \<^item> Tickets: a status change passes every check of the rule table, leaves exactly one timeline entry
    and its audit record, and leaves the whole world as it was when it fails (but for the id generator); along any run a
    ticket keeps its identity and no request makes more than one move of the table; numbers are unique; customers see and touch only their own tickets; the
    menu of moves agrees with the endpoint; two interleaved status changes can revive a cancelled ticket.
  \<^item> The SLA clock: the walk over business hours returns and is exact to a minute against an
    independent definition of business time; the clock follows the ticket as an abstract function says;
    the scan marks a breach exactly when a running deadline has passed and no milestone fires twice; the
    clock of a cancelled ticket runs on.
  \<^item> Routing: the ranking lists exactly the engineers of an abstract description; at most one offer is
    open, nobody is offered a ticket twice, so offering ends; accepting is all or nothing; the sweep
    expires what is overdue; shifts are active exactly while somebody is on duty; settings read back.
  \<^item> Alerts: an event of a source is one row that only moves forward; ingestion never fails and
    de-duplicates; maintenance silences it and still records the alert; the rule in force is the most specific one although it is read
    through a cache; recoveries of Zabbix and Alertmanager close the alert they belong to; an event that does not
    normalize does not drop its batch, an event whose severity no table maps does; the clear of an SNMP link trap never reaches the fault.
  \<^item> Registers: changes are never approved by whoever raised them and the database filters agree with
    the derived status; a problem is resolved only with a root cause; a published runbook has the text
    that was approved; risk scores are the product of levels in range; a continuity plan covers one scope;
    devices keep code, site and type and their references exist; a vendor case moves along its dispatch
    lifecycle and is frozen once closed; a work log's duration is its two ends; a warranty resync leaves the
    newest row with the status, provider and end date reported and is quiet when nothing changed; group rosters refine a relation.
  \<^item> Hardware: the verdict of a snapshot is exactly the worst of its parts, for all three vendors; over any run of
    readings the open hardware alerts are exactly the open episodes; a fault normalized by an adapter and
    delivered leaves its device with an open alert.
  \<^item> Accounts: a stored hash verifies exactly its password; five failures lock an account; a link works once
    and signs out older sessions; an inactive user is refused everywhere, social sign-in included; a Super Admin remains as long as
    requests do not overlap; customers never read management addresses.
  \<^item> Reports and mail: the counters of the command center are the sums over its cards, trends account for every row, the
    CSV export reads back; no text of a user becomes a tag or an attribute; a reply returns to its ticket with the
    text above the quoted history even when its headers are lost, but a site code with a hyphen can shadow the ticket key.
  \<^item> The collector: an accepted configuration can be run; one endpoint does not stop the poll and every request
    a poll issues goes to the origin of its endpoint with the credential configured for it, while a redirect is followed anywhere; the buffer is bounded and delivers in order at least once
    while flushes do not overlap, and loses an item when they do.
  \<^item> Routes: which writing routes a customer and an auditor get through to, what is open without signing in, that no
    request is claimed by two routes, and that requests below a site need access to it.

  \<^bold>\<open>Fuel and bounds.\<close> Two loops of the source have no bound of their own: the walk over business days,
  for which \<open>addBusinessMinutes\<close> passes one round per requested minute and one more (a round that is not the last
  uses up at least a minute, the first perhaps excepted), and the search for the next window, which the
  source limits to \<open>MAX_WALK_DAYS\<close>. That the fuel suffices is part of the theorem on the walk. Everything
  else is structural recursion. Integers are unbounded: the values are minutes, counters and instants far
  below 2 to the 53, where JavaScript numbers are exact; the instants of escalation thresholds are kept
  exact where the source truncates a double to a millisecond.

  \<^bold>\<open>Not modelled.\<close> The worker (\<^verbatim>\<open>apps/worker\<close>: it takes the modelled jobs from the queues and calls the modelled
  rendering) and the sockets, timers and signals of the collector, the clients of the social providers,
  the bodies of the controllers, modules and validation decorators (glue; what the validation pipe guarantees is the type of
  the request records), the web client (presentation), migrations and seed data, queue and cache connections
  (I/O), token signing, the database and its isolation beyond what is said above.
\<close>

end
